(* ===== verification/Go_Prelude.thy ===== *)
theory Go_Prelude
  imports Main "HOL-Library.List_Lexorder" "HOL-Library.Char_ord" "HOL-Library.Multiset"
begin

text \<open>
  Shared prelude: the Go string functions the agent uses, on byte strings (a Go string is a
  sequence of bytes, here a \<open>char list\<close>), and generic lemmas on lists and association lists.
  White space and letter case are those of ASCII; the agent's own keys, tags and paths are ASCII.
\<close>

section \<open>Fact collections\<close>

named_theorems go_str \<open>characteristic equations of the string functions\<close>
named_theorems keeps_tags \<open>operations that keep tags unique\<close>
named_theorems go_frame \<open>what an operation leaves unchanged\<close>

section \<open>Strings\<close>

definition has_prefix :: "string \<Rightarrow> string \<Rightarrow> bool" where
  "has_prefix s p \<longleftrightarrow> take (length p) s = p"

definition has_suffix :: "string \<Rightarrow> string \<Rightarrow> bool" where
  "has_suffix s p \<longleftrightarrow> has_prefix (rev s) (rev p)"

fun str_contains :: "string \<Rightarrow> string \<Rightarrow> bool" where
  "str_contains [] p = (p = [])"
| "str_contains (c # s) p = (has_prefix (c # s) p \<or> str_contains s p)"

definition is_space :: "char \<Rightarrow> bool" where
  "is_space c \<longleftrightarrow> c \<in> {CHR 0x09, CHR 0x0A, CHR 0x0B, CHR 0x0C, CHR 0x0D, CHR 0x20}"

definition trim_left :: "(char \<Rightarrow> bool) \<Rightarrow> string \<Rightarrow> string" where
  "trim_left f s = dropWhile f s"

definition trim_right :: "(char \<Rightarrow> bool) \<Rightarrow> string \<Rightarrow> string" where
  "trim_right f s = rev (dropWhile f (rev s))"

definition trim_func :: "(char \<Rightarrow> bool) \<Rightarrow> string \<Rightarrow> string" where
  "trim_func f s = trim_right f (trim_left f s)"

definition trim_space :: "string \<Rightarrow> string" where
  "trim_space s = trim_func is_space s"

definition to_lower_char :: "char \<Rightarrow> char" where
  "to_lower_char c =
     (if 65 \<le> (of_char c :: nat) \<and> (of_char c :: nat) \<le> 90
      then char_of ((of_char c :: nat) + 32) else c)"

definition to_lower :: "string \<Rightarrow> string" where
  "to_lower s = List.map to_lower_char s"

text \<open>\<open>strings.Split\<close> with a one-character separator: always at least one part.\<close>

fun split_on :: "char \<Rightarrow> string \<Rightarrow> string list" where
  "split_on sep [] = [[]]"
| "split_on sep (c # s) =
     (if c = sep then [] # split_on sep s
      else (case split_on sep s of [] \<Rightarrow> [[c]] | p # ps \<Rightarrow> (c # p) # ps))"

text \<open>\<open>strings.Join\<close>.\<close>

fun join_with :: "string \<Rightarrow> string list \<Rightarrow> string" where
  "join_with sep [] = []"
| "join_with sep [s] = s"
| "join_with sep (s # t # r) = s @ sep @ join_with sep (t # r)"

definition trim_prefix :: "string \<Rightarrow> string \<Rightarrow> string" where
  "trim_prefix s p = (if has_prefix s p then drop (length p) s else s)"

text \<open>\<open>strconv.Itoa\<close>.\<close>

fun nat_digits :: "nat \<Rightarrow> string" where
  "nat_digits n =
     (if n < 10 then [''0123456789'' ! n] else nat_digits (n div 10) @ [''0123456789'' ! (n mod 10)])"

declare nat_digits.simps [simp del]

definition itoa :: "int \<Rightarrow> string" where
  "itoa i = (if i < 0 then CHR 0x2D # nat_digits (nat (- i)) else nat_digits (nat i))"

text \<open>\<open>strconv.Atoi\<close>: an optional sign and decimal digits, within 64 bits.\<close>

definition is_digit :: "char \<Rightarrow> bool" where
  "is_digit c \<longleftrightarrow> 48 \<le> (of_char c :: nat) \<and> (of_char c :: nat) \<le> 57"

definition digits_value :: "string \<Rightarrow> nat" where
  "digits_value s = foldl (\<lambda>n c. 10 * n + (of_char c - 48)) 0 s"

definition atoi :: "string \<Rightarrow> int option" where
  "atoi s =
     (let neg = (s \<noteq> [] \<and> hd s = CHR 0x2D);
          ds = (if s \<noteq> [] \<and> (hd s = CHR 0x2D \<or> hd s = CHR 0x2B) then tl s else s)
      in if ds = [] \<or> \<not> list_all is_digit ds then None
         else
           (let n = int (digits_value ds); v = (if neg then - n else n)
            in if - (2 ^ 63) \<le> v \<and> v < 2 ^ 63 then Some v else None))"

section \<open>Lemmas on strings\<close>

lemma has_prefix_append [simp]: "has_prefix (p @ s) p"
  by (simp add: has_prefix_def)

lemma has_prefix_iff: "has_prefix s p \<longleftrightarrow> (\<exists>r. s = p @ r)"
  unfolding has_prefix_def by (metis append_eq_conv_conj append_take_drop_id)

lemma has_prefix_Nil [simp]: "has_prefix s []"
  by (simp add: has_prefix_def)

lemma has_prefix_Cons [simp]:
  "has_prefix s (c # p) = (case s of [] \<Rightarrow> False | d # t \<Rightarrow> d = c \<and> has_prefix t p)"
  by (auto simp: has_prefix_def split: list.splits)

lemma trim_prefix_append [simp]: "trim_prefix (p @ s) p = s"
  by (simp add: trim_prefix_def)

lemma split_on_nonempty [simp]: "split_on sep s \<noteq> []"
  by (induction s) (auto split: list.splits)

lemma join_split [simp]: "join_with [sep] (split_on sep s) = s"
proof (induction s)
  case Nil
  then show ?case by simp
next
  case (Cons c s)
  then show ?case
    by (cases "split_on sep s"; cases "tl (split_on sep s)") auto
qed

lemma split_on_no_sep: "sep \<notin> set s \<Longrightarrow> split_on sep s = [s]"
  by (induction s) auto

lemma split_on_parts: "p \<in> set (split_on sep s) \<Longrightarrow> sep \<notin> set p"
proof (induction s arbitrary: p)
  case Nil
  then show ?case by simp
next
  case (Cons c s)
  then show ?case
    by (cases "split_on sep s") (auto split: if_splits)
qed

lemma split_on_append_sep:
  "sep \<notin> set p \<Longrightarrow> split_on sep (p @ sep # s) = p # split_on sep s"
  by (induction p) auto

lemma split_join:
  "ls \<noteq> [] \<Longrightarrow> (\<And>l. l \<in> set ls \<Longrightarrow> sep \<notin> set l) \<Longrightarrow> split_on sep (join_with [sep] ls) = ls"
proof (induction ls rule: induct_list012)
  case (3 x y zs)
  then show ?case by (simp add: split_on_append_sep)
qed (simp_all add: split_on_no_sep)

lemma dropWhile_eq_self: "dropWhile f s = s \<longleftrightarrow> (s = [] \<or> \<not> f (hd s))"
  by (cases s) (auto dest: arg_cong [where f = length] simp: length_dropWhile_le
      le_imp_less_Suc less_not_refl2 [symmetric])

lemma set_trim_right: "set (trim_right f s) \<subseteq> set s"
  unfolding trim_right_def using set_dropWhileD [of _ f "rev s"] by auto

lemma set_trim_func: "set (trim_func f s) \<subseteq> set s"
  using set_trim_right [of f "dropWhile f s"] set_dropWhileD [of _ f s]
  by (auto simp: trim_func_def trim_left_def)

lemma trim_right_idem [simp]: "trim_right f (trim_right f s) = trim_right f s"
  by (simp add: trim_right_def dropWhile_idem)

lemma hd_trim_right:
  assumes "s \<noteq> []" and "\<not> f (hd s)"
  shows "trim_right f s \<noteq> [] \<and> hd (trim_right f s) = hd s"
proof -
  from assms obtain c t where s: "s = c # t" by (cases s) auto
  with assms have "dropWhile f (rev t @ [c]) = dropWhile f (rev t) @ [c]"
    by (simp add: dropWhile_append3)
  with s show ?thesis by (simp add: trim_right_def)
qed

lemma trim_func_idem [simp]: "trim_func f (trim_func f s) = trim_func f s"
proof (cases "dropWhile f s = []")
  case True
  show ?thesis by (simp only: trim_func_def trim_left_def trim_right_def True) simp
next
  case False
  then have "\<not> f (hd (dropWhile f s))" by (simp add: hd_dropWhile)
  with False have "dropWhile f (trim_right f (dropWhile f s)) = trim_right f (dropWhile f s)"
    using hd_trim_right [of "dropWhile f s" f] by (simp add: dropWhile_eq_self)
  then show ?thesis by (simp add: trim_func_def trim_left_def)
qed

lemma trim_space_idem [simp]: "trim_space (trim_space s) = trim_space s"
  by (simp add: trim_space_def)

lemma nat_digits_nonempty [simp]: "nat_digits n \<noteq> []"
  by (subst nat_digits.simps) simp

lemma digit_char: "k < 10 \<Longrightarrow> is_digit (''0123456789'' ! k) \<and> (of_char (''0123456789'' ! k) :: nat) = 48 + k"
proof -
  assume "k < 10"
  then have "k = 0 \<or> k = 1 \<or> k = 2 \<or> k = 3 \<or> k = 4 \<or> k = 5 \<or> k = 6 \<or> k = 7 \<or> k = 8 \<or> k = 9" by arith
  then show ?thesis by (elim disjE) (simp_all add: is_digit_def)
qed

lemma digits_value_snoc: "digits_value (s @ [c]) = 10 * digits_value s + (of_char c - 48)"
  by (simp add: digits_value_def)

lemma nat_digits_value: "digits_value (nat_digits n) = n \<and> list_all is_digit (nat_digits n)"
proof (induction n rule: nat_digits.induct)
  case (1 n)
  show ?case
  proof (cases "n < 10")
    case True
    with digit_char [OF this] show ?thesis by (subst (1 2) nat_digits.simps) (simp add: digits_value_def)
  next
    case False
    with 1 digit_char [of "n mod 10"] show ?thesis
      by (subst (1 2) nat_digits.simps) (simp add: digits_value_snoc)
  qed
qed

lemma atoi_itoa: "- (2 ^ 63) \<le> i \<Longrightarrow> i < 2 ^ 63 \<Longrightarrow> atoi (itoa i) = Some i"
proof -
  assume r: "- (2 ^ 63) \<le> i" "i < 2 ^ 63"
  have d: "\<not> is_digit (CHR 0x2D)" "\<not> is_digit (CHR 0x2B)" by (simp_all add: is_digit_def)
  obtain c s where n: "nat_digits (nat i) = c # s" by (cases "nat_digits (nat i)") auto
  have "is_digit c" using nat_digits_value [of "nat i"] n by simp
  with d have "c \<noteq> CHR 0x2D" "c \<noteq> CHR 0x2B" by auto
  then show ?thesis
    using r nat_digits_value [of "nat i"] nat_digits_value [of "nat (- i)"] n
    by (auto simp: atoi_def itoa_def Let_def)
qed

section \<open>Lists\<close>

text \<open>Keep the first element of each key, as the agent's \<open>seen\<close> maps do.\<close>

fun dedup_by :: "('a \<Rightarrow> 'k) \<Rightarrow> 'k set \<Rightarrow> 'a list \<Rightarrow> 'a list" where
  "dedup_by f seen [] = []"
| "dedup_by f seen (x # xs) =
     (if f x \<in> seen then dedup_by f seen xs else x # dedup_by f (insert (f x) seen) xs)"

lemma dedup_by_set: "set (dedup_by f seen xs) \<subseteq> set xs"
  by (induction xs arbitrary: seen) (auto split: if_splits)

lemma dedup_by_keys: "f ` set (dedup_by f seen xs) = f ` set xs - seen"
  by (induction xs arbitrary: seen) (auto split: if_splits)

lemma dedup_by_distinct: "distinct (List.map f (dedup_by f seen xs))"
proof (induction xs arbitrary: seen)
  case (Cons x xs)
  moreover have "f x \<notin> f ` set (dedup_by f (insert (f x) seen) xs)"
    by (simp add: dedup_by_keys)
  ultimately show ?case by simp
qed simp

text \<open>Replace the first element with a property.\<close>

fun update_first :: "('a \<Rightarrow> bool) \<Rightarrow> ('a \<Rightarrow> 'a) \<Rightarrow> 'a list \<Rightarrow> 'a list" where
  "update_first p f [] = []"
| "update_first p f (x # xs) = (if p x then f x # xs else x # update_first p f xs)"

lemma length_update_first [simp]: "length (update_first p f xs) = length xs"
  by (induction xs) auto

lemma update_first_none: "find p xs = None \<Longrightarrow> update_first p f xs = xs"
  by (induction xs) (auto split: if_splits)

lemma find_update_first:
  "find p xs = Some x \<Longrightarrow> p (f x) \<Longrightarrow> find p (update_first p f xs) = Some (f x)"
  by (induction xs) (auto split: if_splits)

lemma update_first_split:
  "find p xs = Some x \<Longrightarrow>
   \<exists>us vs. xs = us @ x # vs \<and> update_first p f xs = us @ f x # vs \<and> (\<forall>u\<in>set us. \<not> p u) \<and> p x"
proof (induction xs)
  case (Cons y ys)
  show ?case
  proof (cases "p y")
    case True
    with Cons.prems show ?thesis by (intro exI [of _ "[]"] exI [of _ ys]) auto
  next
    case False
    with Cons obtain us vs where "ys = us @ x # vs" "update_first p f ys = us @ f x # vs"
      "\<forall>u\<in>set us. \<not> p u" "p x" by auto
    with False show ?thesis by (intro exI [of _ "y # us"] exI [of _ vs]) auto
  qed
qed simp

lemma sort_key_absorb_left:
  fixes f :: "'a \<Rightarrow> 'b::linorder"
  shows "sort_key f (xs @ sort_key f ys) = sort_key f (xs @ ys)"
proof (rule properties_for_sort_key)
  fix k
  show "filter (\<lambda>x. f k = f x) (sort_key f (xs @ ys)) = filter (\<lambda>x. f k = f x) (xs @ sort_key f ys)"
    by (simp add: sort_key_stable eq_commute [of "f k"])
qed simp_all

section \<open>A simple injective codec\<close>

text \<open>Fields packed one after the other, each character escaped: a concrete codec for examples.\<close>

fun pack :: "string list \<Rightarrow> string" where
  "pack [] = []"
| "pack (s # ss) = concat (List.map (\<lambda>c. [CHR 0x78, c]) s) @ CHR 0x2E # pack ss"

fun unpack :: "string \<Rightarrow> string \<Rightarrow> string list option" where
  "unpack acc [] = (if acc = [] then Some [] else None)"
| "unpack acc [x] = (if x = CHR 0x2E then Some [rev acc] else None)"
| "unpack acc (x # c # r) =
     (if x = CHR 0x78 then unpack (c # acc) r
      else if x = CHR 0x2E then map_option (\<lambda>ss. rev acc # ss) (unpack [] (c # r))
      else None)"

lemma unpack_chars:
  "unpack acc (concat (List.map (\<lambda>c. [CHR 0x78, c]) s) @ CHR 0x2E # r) =
   map_option (\<lambda>ss. (rev acc @ s) # ss) (unpack [] r)"
  by (induction s arbitrary: acc) (cases r, auto)

lemma unpack_pack [simp]: "unpack [] (pack ss) = Some ss"
  by (induction ss) (simp_all add: unpack_chars)

end
