(* ===== verification/Json.thy ===== *)
theory Json
  imports Go_Prelude
begin

text \<open>
  Decoded JSON values, as \<open>encoding/json\<close> hands them to the agent in an
  \<open>interface{}\<close>: every number is a \<open>float64\<close>, every object a Go map.

  A number is kept as the decimal \<open>m * 10 ^ e\<close> (\<open>JNum m e\<close>), which a \<open>float64\<close>
  represents exactly up to its shortest printed form for at most 15 significant digits. An object
  is an association list: the lookup is \<open>map_of\<close>, an assignment updates in place or appends.
  The order of the list stands for one iteration order of the Go map.
\<close>

datatype json =
    JNull
  | JBool bool
  | JNum int int
  | JStr string
  | JArr "json list"
  | JObj "(string \<times> json) list"

type_synonym obj = "(string \<times> json) list"

section \<open>Type assertions and assignments\<close>

fun as_obj :: "json \<Rightarrow> obj option" where
  "as_obj (JObj m) = Some m"
| "as_obj _ = None"

fun as_arr :: "json \<Rightarrow> json list option" where
  "as_arr (JArr xs) = Some xs"
| "as_arr _ = None"

fun as_str :: "json \<Rightarrow> string option" where
  "as_str (JStr s) = Some s"
| "as_str _ = None"

text \<open>\<open>x, _ := m[k].(string)\<close>, and the same for arrays and objects.\<close>

definition get_str :: "obj \<Rightarrow> string \<Rightarrow> string" where
  "get_str m k = (case map_of m k of Some (JStr s) \<Rightarrow> s | _ \<Rightarrow> [])"

definition get_arr :: "obj \<Rightarrow> string \<Rightarrow> json list option" where
  "get_arr m k = Option.bind (map_of m k) as_arr"

definition get_obj :: "obj \<Rightarrow> string \<Rightarrow> obj option" where
  "get_obj m k = Option.bind (map_of m k) as_obj"

definition get_list :: "obj \<Rightarrow> string \<Rightarrow> json list" where
  "get_list m k = (case get_arr m k of Some xs \<Rightarrow> xs | None \<Rightarrow> [])"

definition has_key :: "obj \<Rightarrow> string \<Rightarrow> bool" where
  "has_key m k \<longleftrightarrow> map_of m k \<noteq> None"

text \<open>\<open>m[k] = v\<close> and \<open>delete(m, k)\<close>.\<close>

fun jset :: "string \<Rightarrow> json \<Rightarrow> obj \<Rightarrow> obj" where
  "jset k v [] = [(k, v)]"
| "jset k v ((k', v') # m) = (if k = k' then (k, v) # m else (k', v') # jset k v m)"

definition jdel :: "string \<Rightarrow> obj \<Rightarrow> obj" where
  "jdel k m = filter (\<lambda>(k', _). k' \<noteq> k) m"

section \<open>Numbers\<close>

text \<open>\<open>int(p)\<close> of a \<open>float64\<close>: the fraction is cut off.\<close>

definition num_trunc :: "int \<Rightarrow> int \<Rightarrow> int" where
  "num_trunc m e =
     (if 0 \<le> e then m * 10 ^ nat e else sgn m * (\<bar>m\<bar> div 10 ^ nat (- e)))"

definition num_is_int :: "int \<Rightarrow> int \<Rightarrow> int \<Rightarrow> bool" where
  "num_is_int m e i \<longleftrightarrow> (if 0 \<le> e then m * 10 ^ nat e = i else m = i * 10 ^ nat (- e))"

text \<open>The integer value of a \<open>port\<close> field; 0 when it is absent or not a number.\<close>

definition get_int :: "obj \<Rightarrow> string \<Rightarrow> int" where
  "get_int m k = (case map_of m k of Some (JNum a e) \<Rightarrow> num_trunc a e | _ \<Rightarrow> 0)"

section \<open>fmt.Sprint\<close>

text \<open>
  \<open>fmt.Sprint\<close> of a decoded value: \<open>%v\<close>, with \<open>%g\<close> in its shortest form for numbers
  (an exponent below \<open>-4\<close> or from 6 on is written out), the elements of an array between
  brackets, and the entries of a map sorted by key. A missing map entry is \<open>nil\<close>.
\<close>

function strip_zeros :: "nat \<Rightarrow> int \<Rightarrow> nat \<times> int" where
  "strip_zeros d e = (if 0 < d \<and> d mod 10 = 0 then strip_zeros (d div 10) (e + 1) else (d, e))"
  by pat_completeness auto
termination
  by (relation "measure fst") auto

declare strip_zeros.simps [simp del]

definition fmt_exp :: "string \<Rightarrow> int \<Rightarrow> string" where
  "fmt_exp ds x =
     take 1 ds @ (if 1 < length ds then CHR 0x2E # drop 1 ds else []) @
     CHR 0x65 # (if x < 0 then CHR 0x2D else CHR 0x2B) #
     (let xs = nat_digits (nat \<bar>x\<bar>) in if length xs < 2 then CHR 0x30 # xs else xs)"

definition fmt_fix :: "string \<Rightarrow> int \<Rightarrow> string" where
  "fmt_fix ds dp =
     (if dp \<le> 0 then CHR 0x30 # CHR 0x2E # replicate (nat (- dp)) CHR 0x30 @ ds
      else if nat dp < length ds then take (nat dp) ds @ CHR 0x2E # drop (nat dp) ds
      else ds @ replicate (nat dp - length ds) CHR 0x30)"

definition fmt_g :: "int \<Rightarrow> int \<Rightarrow> string" where
  "fmt_g m e =
     (case strip_zeros (nat \<bar>m\<bar>) e of
        (d, e') \<Rightarrow>
          let ds = nat_digits d; dp = int (length ds) + e'; x = dp - 1
          in if d = 0 then [CHR 0x30]
             else (if m < 0 then [CHR 0x2D] else []) @
                  (if x < -4 \<or> 6 \<le> x then fmt_exp ds x else fmt_fix ds dp))"

fun sprint :: "json \<Rightarrow> string" where
  "sprint JNull = ''<nil>''"
| "sprint (JBool b) = (if b then ''true'' else ''false'')"
| "sprint (JNum m e) = fmt_g m e"
| "sprint (JStr s) = s"
| "sprint (JArr xs) = ''['' @ join_with '' '' (List.map sprint xs) @ '']''"
| "sprint (JObj m) =
     ''map['' @ join_with '' '' (List.map (\<lambda>(k, s). k @ '':'' @ s)
       (sort_key fst (List.map (\<lambda>(k, v). (k, sprint v)) m))) @ '']''"

text \<open>\<open>fmt.Sprint(m[k])\<close>.\<close>

definition sprint_at :: "obj \<Rightarrow> string \<Rightarrow> string" where
  "sprint_at m k = (case map_of m k of None \<Rightarrow> ''<nil>'' | Some v \<Rightarrow> sprint v)"

section \<open>Tags\<close>

text \<open>The \<open>tag\<close> of an element of \<open>inbounds\<close> or \<open>outbounds\<close>; empty when it has none.\<close>

definition tag_of :: "json \<Rightarrow> string" where
  "tag_of v = (case as_obj v of Some m \<Rightarrow> get_str m ''tag'' | None \<Rightarrow> [])"

definition tags_of :: "json list \<Rightarrow> string list" where
  "tags_of xs = filter (\<lambda>t. t \<noteq> []) (List.map tag_of xs)"

definition unique_tags :: "json list \<Rightarrow> bool" where
  "unique_tags xs \<longleftrightarrow> distinct (tags_of xs)"

text \<open>The routing rules of a configuration.\<close>

definition rules_of :: "obj \<Rightarrow> json list" where
  "rules_of m = (case get_obj m ''routing'' of Some r \<Rightarrow> get_list r ''rules'' | None \<Rightarrow> [])"

section \<open>Lemmas\<close>

lemma map_of_jset [simp]: "map_of (jset k v m) = (map_of m)(k \<mapsto> v)"
  by (induction m) (auto simp: fun_eq_iff)

lemma map_of_jdel [simp]: "map_of (jdel k m) = (map_of m)(k := None)"
  unfolding jdel_def by (induction m) (auto simp: fun_eq_iff)

lemma jset_same [simp]: "map_of m k = Some v \<Longrightarrow> jset k v m = m"
  by (induction m) (auto split: if_splits)

lemma jset_jset [simp]: "jset k v (jset k w m) = jset k v m"
  by (induction m) auto

lemma keys_jset: "fst ` set (jset k v m) = insert k (fst ` set m)"
  by (simp add: dom_map_of_conv_image_fst [symmetric])

lemma distinct_jset: "distinct (List.map fst m) \<Longrightarrow> distinct (List.map fst (jset k v m))"
proof (induction m)
  case (Cons kv m)
  obtain k' v' where "kv = (k', v')" by (cases kv)
  with Cons show ?case using keys_jset [of k v m] by (auto simp: image_iff)
qed simp

lemma distinct_jdel: "distinct (List.map fst m) \<Longrightarrow> distinct (List.map fst (jdel k m))"
  unfolding jdel_def by (induction m) auto

lemma get_str_list [simp]:
  "get_str [] k = []"
  "get_str ((k', v) # m) k = (if k' = k then (case v of JStr s \<Rightarrow> s | _ \<Rightarrow> []) else get_str m k)"
  by (simp_all add: get_str_def)

lemma get_arr_list [simp]:
  "get_arr [] k = None"
  "get_arr ((k', v) # m) k = (if k' = k then as_arr v else get_arr m k)"
  by (simp_all add: get_arr_def)

lemma get_obj_list [simp]:
  "get_obj [] k = None"
  "get_obj ((k', v) # m) k = (if k' = k then as_obj v else get_obj m k)"
  by (simp_all add: get_obj_def)

lemma get_list_list [simp]:
  "get_list [] k = []"
  "get_list ((k', v) # m) k =
     (if k' = k then (case as_arr v of Some xs \<Rightarrow> xs | None \<Rightarrow> []) else get_list m k)"
  by (simp_all add: get_list_def)

lemma get_str_jset [simp]:
  "get_str (jset k v m) k' =
     (if k' = k then (case v of JStr s \<Rightarrow> s | _ \<Rightarrow> []) else get_str m k')"
  by (simp add: get_str_def)

lemma get_arr_jset [simp]:
  "get_arr (jset k v m) k' = (if k' = k then as_arr v else get_arr m k')"
  by (simp add: get_arr_def)

lemma get_obj_jset [simp]:
  "get_obj (jset k v m) k' = (if k' = k then as_obj v else get_obj m k')"
  by (simp add: get_obj_def)

lemma get_list_jset [simp]:
  "get_list (jset k v m) k' =
     (if k' = k then (case as_arr v of Some xs \<Rightarrow> xs | None \<Rightarrow> []) else get_list m k')"
  by (simp add: get_list_def)

lemma has_key_jset [simp]: "has_key (jset k v m) k' \<longleftrightarrow> k' = k \<or> has_key m k'"
  by (simp add: has_key_def)

lemma sprint_at_jset [simp]:
  "sprint_at (jset k v m) k' = (if k' = k then sprint v else sprint_at m k')"
  by (simp add: sprint_at_def)

lemma get_arr_Some: "get_arr m k = Some xs \<longleftrightarrow> map_of m k = Some (JArr xs)"
proof -
  have "as_arr v = Some xs \<longleftrightarrow> v = JArr xs" for v by (cases v) auto
  then show ?thesis by (cases "map_of m k") (auto simp: get_arr_def)
qed

lemma get_obj_Some: "get_obj m k = Some x \<longleftrightarrow> map_of m k = Some (JObj x)"
proof -
  have "as_obj v = Some x \<longleftrightarrow> v = JObj x" for v by (cases v) auto
  then show ?thesis by (cases "map_of m k") (auto simp: get_obj_def)
qed

lemma as_obj_Some [simp]: "as_obj v = Some m \<longleftrightarrow> v = JObj m"
  by (cases v) auto

lemma as_arr_Some [simp]: "as_arr v = Some xs \<longleftrightarrow> v = JArr xs"
  by (cases v) auto

lemma tag_of_JObj [simp]: "tag_of (JObj m) = get_str m ''tag''"
  by (simp add: tag_of_def)

lemma tags_of_simps [simp]:
  "tags_of [] = []"
  "tags_of (x # xs) = (if tag_of x = [] then tags_of xs else tag_of x # tags_of xs)"
  "tags_of (xs @ ys) = tags_of xs @ tags_of ys"
  by (simp_all add: tags_of_def)

lemma set_tags_of: "set (tags_of xs) = tag_of ` set xs - {[]}"
  by (auto simp: tags_of_def)

lemma tags_of_cong: "List.map tag_of xs = List.map tag_of ys \<Longrightarrow> tags_of xs = tags_of ys"
  by (simp add: tags_of_def)

lemma unique_tags_filter: "unique_tags xs \<Longrightarrow> unique_tags (filter p xs)"
proof (induction xs)
  case (Cons x xs)
  then have "unique_tags (filter p xs)" by (auto simp: unique_tags_def split: if_splits)
  moreover have "tag_of x \<noteq> [] \<Longrightarrow> tag_of x \<notin> set (tags_of (filter p xs))"
    using Cons.prems by (auto simp: unique_tags_def set_tags_of split: if_splits)
  ultimately show ?case by (auto simp: unique_tags_def)
qed simp

lemma unique_tags_snoc:
  "unique_tags (xs @ [x]) \<longleftrightarrow> unique_tags xs \<and> (tag_of x = [] \<or> tag_of x \<notin> tag_of ` set xs)"
  by (auto simp: unique_tags_def set_tags_of)

lemma unique_tags_Nil [simp]: "unique_tags []"
  by (simp add: unique_tags_def)


end
