(* ===== verification/World.thy ===== *)
theory World
  imports Json "HOL-Library.AList"
begin

text \<open>
  The outside world the agent's handlers act on: the file system, the Xray process, and the
  outcome of every system call that may fail.

  Files are an association list from path to content, so that a directory can be listed. The
  \<open>tape\<close> holds the outcomes of the next fallible calls, in order; a call on an empty tape succeeds.
  Theorems quantify over the tape, so they cover every pattern of failures. \<open>Torn s\<close> is a write
  that failed after the file had been truncated and left \<open>s\<close> in it: \<open>os.WriteFile\<close> gives no
  better promise, a rename does (its failure leaves both files alone).

  \<open>running\<close> is the configuration the Xray process loaded at its last successful restart, \<open>None\<close>
  after a failed one. \<open>api\<close> lists the changes made to the running process since then, through the
  handler service (gRPC) or the embedded instance; a restart forgets them.
\<close>

datatype io_err = ErrNotExist | ErrIO string

datatype outcome = Works | Fails io_err | Torn string

datatype api_op = AddIn obj | DelIn string | AddOut obj | DelOut string

record world =
  files :: "(string \<times> string) list"
  tape :: "outcome list"
  running :: "string option"
  api :: "api_op list"

definition file_at :: "world \<Rightarrow> string \<Rightarrow> string option" where
  "file_at w p = map_of (files w) p"

definition next_outcome :: "world \<Rightarrow> outcome \<times> world" where
  "next_outcome w =
     (case tape w of [] \<Rightarrow> (Works, w) | r # rs \<Rightarrow> (r, w\<lparr>tape := rs\<rparr>))"

definition outcome_err :: "outcome \<Rightarrow> io_err" where
  "outcome_err r = (case r of Fails e \<Rightarrow> e | _ \<Rightarrow> ErrIO ''io'')"

definition put_file :: "string \<Rightarrow> string \<Rightarrow> world \<Rightarrow> world" where
  "put_file p s w = w\<lparr>files := AList.update p s (files w)\<rparr>"

definition del_file :: "string \<Rightarrow> world \<Rightarrow> world" where
  "del_file p w = w\<lparr>files := AList.delete p (files w)\<rparr>"

text \<open>\<open>os.ReadFile\<close>.\<close>

definition read_file :: "string \<Rightarrow> world \<Rightarrow> (io_err + string) \<times> world" where
  "read_file p w =
     (case next_outcome w of
        (Works, w1) \<Rightarrow>
          (case file_at w1 p of None \<Rightarrow> (Inl ErrNotExist, w1) | Some s \<Rightarrow> (Inr s, w1))
      | (r, w1) \<Rightarrow> (Inl (outcome_err r), w1))"

text \<open>\<open>os.WriteFile\<close>: truncates, then writes.\<close>

definition write_file :: "string \<Rightarrow> string \<Rightarrow> world \<Rightarrow> io_err option \<times> world" where
  "write_file p s w =
     (case next_outcome w of
        (Works, w1) \<Rightarrow> (None, put_file p s w1)
      | (Fails e, w1) \<Rightarrow> (Some e, w1)
      | (Torn t, w1) \<Rightarrow> (Some (outcome_err (Torn t)), put_file p t w1))"

text \<open>A call that only succeeds or fails (\<open>os.MkdirAll\<close>, \<open>Chmod\<close>, \<open>Sync\<close>, \<open>Close\<close>): directories
  and file modes are not part of the model.\<close>

definition sys_call :: "world \<Rightarrow> io_err option \<times> world" where
  "sys_call w =
     (case next_outcome w of
        (Works, w1) \<Rightarrow> (None, w1)
      | (r, w1) \<Rightarrow> (Some (outcome_err r), w1))"

text \<open>\<open>os.Remove\<close>.\<close>

definition remove_file :: "string \<Rightarrow> world \<Rightarrow> io_err option \<times> world" where
  "remove_file p w =
     (case next_outcome w of
        (Works, w1) \<Rightarrow>
          (case file_at w1 p of
             None \<Rightarrow> (Some ErrNotExist, w1)
           | Some _ \<Rightarrow> (None, del_file p w1))
      | (r, w1) \<Rightarrow> (Some (outcome_err r), w1))"

text \<open>\<open>os.Rename\<close>: atomic.\<close>

definition rename_file :: "string \<Rightarrow> string \<Rightarrow> world \<Rightarrow> io_err option \<times> world" where
  "rename_file p q w =
     (case next_outcome w of
        (Works, w1) \<Rightarrow>
          (case file_at w1 p of
             None \<Rightarrow> (Some ErrNotExist, w1)
           | Some s \<Rightarrow> (None, put_file q s (del_file p w1)))
      | (r, w1) \<Rightarrow> (Some (outcome_err r), w1))"

text \<open>A restart of Xray, which reads its configuration at \<open>p\<close>.\<close>

definition restart_xray :: "string \<Rightarrow> world \<Rightarrow> io_err option \<times> world" where
  "restart_xray p w =
     (case next_outcome w of
        (Works, w1) \<Rightarrow> (None, w1\<lparr>running := file_at w1 p, api := []\<rparr>)
      | (r, w1) \<Rightarrow> (Some (outcome_err r), w1\<lparr>running := None, api := []\<rparr>))"

text \<open>A change of the running process.\<close>

definition api_call :: "api_op \<Rightarrow> world \<Rightarrow> io_err option \<times> world" where
  "api_call c w =
     (case next_outcome w of
        (Works, w1) \<Rightarrow> (None, w1\<lparr>api := api w1 @ [c]\<rparr>)
      | (r, w1) \<Rightarrow> (Some (outcome_err r), w1))"

section \<open>Replies\<close>

text \<open>An HTTP answer: the status and the JSON body (\<open>writeJSON\<close>, \<open>writeError\<close>). The text Go formats an
  operating-system error to is left out; the fixed part of the message is kept.\<close>

datatype reply = Reply (status: nat) (body: obj)

definition writeError :: "nat \<Rightarrow> string \<Rightarrow> reply" where
  "writeError code msg = Reply code [(''success'', JBool False), (''error'', JStr msg)]"

definition writeOk :: "obj \<Rightarrow> reply" where
  "writeOk m = Reply 200 ((''success'', JBool True) # m)"

lemma reply_simps [simp]:
  "status (writeError code msg) = code" "status (writeOk m) = 200"
  "map_of (body (writeError code msg)) ''success'' = Some (JBool False)"
  "map_of (body (writeOk m)) ''success'' = Some (JBool True)"
  by (simp_all add: writeError_def writeOk_def)

section \<open>Paths\<close>

definition path_join :: "string \<Rightarrow> string \<Rightarrow> string" where
  "path_join d n = d @ ''/'' @ n"

text \<open>\<open>filepath.Dir\<close> of a clean path with a directory part.\<close>

definition path_dir :: "string \<Rightarrow> string" where
  "path_dir p = rev (drop 1 (dropWhile (\<lambda>c. c \<noteq> CHR 0x2F) (rev p)))"

text \<open>The names of the files of a directory, in the order of the file table.\<close>

definition dir_files :: "world \<Rightarrow> string \<Rightarrow> string list" where
  "dir_files w d =
     List.map (\<lambda>p. drop (length d + 1) p)
       (filter (\<lambda>p. has_prefix p (d @ ''/'') \<and> CHR 0x2F \<notin> set (drop (length d + 1) p))
         (List.map fst (files w)))"

section \<open>Lemmas\<close>

lemma file_at_put [simp]: "file_at (put_file p s w) q = (if q = p then Some s else file_at w q)"
  by (simp add: file_at_def put_file_def update_conv)

lemma file_at_del [simp]: "file_at (del_file p w) q = (if q = p then None else file_at w q)"
  by (simp add: file_at_def del_file_def delete_conv)

lemma tape_put [simp]: "tape (put_file p s w) = tape w" "running (put_file p s w) = running w"
  "tape (del_file p w) = tape w" "running (del_file p w) = running w"
  by (simp_all add: put_file_def del_file_def)

lemma file_at_updates [simp]:
  "file_at (w\<lparr>tape := rs\<rparr>) p = file_at w p"
  "file_at (w\<lparr>running := r\<rparr>) p = file_at w p"
  "file_at (w\<lparr>api := a\<rparr>) p = file_at w p"
  by (simp_all add: file_at_def)

lemma next_outcome_frame [go_frame]:
  "next_outcome w = (r, w') \<Longrightarrow> files w' = files w \<and> running w' = running w"
  by (auto simp: next_outcome_def split: list.splits)

lemma next_outcome_file_at [go_frame]: "next_outcome w = (r, w') \<Longrightarrow> file_at w' p = file_at w p"
  by (simp add: file_at_def next_outcome_frame)

lemma read_file_frame [go_frame]:
  "read_file p w = (r, w') \<Longrightarrow> files w' = files w \<and> running w' = running w"
  by (auto simp: read_file_def dest: next_outcome_frame split: prod.splits outcome.splits option.splits)

lemma read_file_at [go_frame]: "read_file p w = (r, w') \<Longrightarrow> file_at w' q = file_at w q"
  by (simp add: file_at_def read_file_frame)

lemma read_file_Inr: "read_file p w = (Inr s, w') \<Longrightarrow> file_at w p = Some s"
  by (auto simp: read_file_def dest!: next_outcome_file_at [where p = p]
      split: prod.splits outcome.splits option.splits)

lemma sys_call_frame [go_frame]:
  "sys_call w = (r, w') \<Longrightarrow> files w' = files w \<and> running w' = running w"
  by (auto simp: sys_call_def dest: next_outcome_frame split: prod.splits outcome.splits)

lemma sys_call_at [go_frame]: "sys_call w = (r, w') \<Longrightarrow> file_at w' q = file_at w q"
  by (simp add: file_at_def sys_call_frame)

lemma write_file_other [go_frame]:
  "write_file p s w = (r, w') \<Longrightarrow> q \<noteq> p \<Longrightarrow> file_at w' q = file_at w q"
  by (auto simp: write_file_def dest: next_outcome_file_at split: prod.splits outcome.splits)

lemma write_file_ok: "write_file p s w = (None, w') \<Longrightarrow> file_at w' p = Some s"
  by (auto simp: write_file_def split: prod.splits outcome.splits)

lemma write_file_running [go_frame]:
  "write_file p s w = (r, w') \<Longrightarrow> running w' = running w"
  by (auto simp: write_file_def dest: next_outcome_frame split: prod.splits outcome.splits)

lemma remove_file_other [go_frame]:
  "remove_file p w = (r, w') \<Longrightarrow> q \<noteq> p \<Longrightarrow> file_at w' q = file_at w q"
  by (auto simp: remove_file_def dest: next_outcome_file_at split: prod.splits outcome.splits option.splits)

lemma remove_file_running [go_frame]:
  "remove_file p w = (r, w') \<Longrightarrow> running w' = running w"
  by (auto simp: remove_file_def dest: next_outcome_frame split: prod.splits outcome.splits option.splits)

lemma rename_file_other [go_frame]:
  "rename_file p q w = (r, w') \<Longrightarrow> x \<noteq> p \<Longrightarrow> x \<noteq> q \<Longrightarrow> file_at w' x = file_at w x"
  by (auto simp: rename_file_def dest: next_outcome_file_at split: prod.splits outcome.splits option.splits)

lemma rename_file_target:
  assumes "rename_file p q w = (r, w')"
  shows "(r = None \<and> file_at w p \<noteq> None \<and> file_at w' q = file_at w p) \<or>
         (r \<noteq> None \<and> file_at w' q = file_at w q \<and> file_at w' p = file_at w p)"
proof -
  obtain a w1 where 1: "next_outcome w = (a, w1)" by fastforce
  then have "file_at w1 x = file_at w x" for x by (rule next_outcome_file_at)
  with 1 assms show ?thesis
    by (auto simp: rename_file_def split: outcome.splits option.splits)
qed

lemma rename_file_running [go_frame]:
  "rename_file p q w = (r, w') \<Longrightarrow> running w' = running w"
  by (auto simp: rename_file_def dest: next_outcome_frame split: prod.splits outcome.splits option.splits)

lemma restart_xray_files [go_frame]: "restart_xray p w = (r, w') \<Longrightarrow> files w' = files w"
  by (auto simp: restart_xray_def dest: next_outcome_frame split: prod.splits outcome.splits)

lemma restart_xray_at [go_frame]: "restart_xray p w = (r, w') \<Longrightarrow> file_at w' q = file_at w q"
  by (simp add: file_at_def restart_xray_files)

lemma restart_xray_running:
  "restart_xray p w = (r, w') \<Longrightarrow> running w' = (if r = None then file_at w p else None)"
  by (auto simp: restart_xray_def dest: next_outcome_file_at split: prod.splits outcome.splits)

section \<open>The same facts in functional form\<close>

text \<open>For proofs that unfold a handler into projections of its calls.\<close>

lemma read_snd [simp]:
  "file_at (snd (read_file p w)) q = file_at w q" "running (snd (read_file p w)) = running w"
  "files (snd (read_file p w)) = files w"
  using read_file_frame [of p w] read_file_at [of p w] by (metis prod.collapse)+

lemma sys_snd [simp]:
  "file_at (snd (sys_call w)) q = file_at w q" "running (snd (sys_call w)) = running w"
  "files (snd (sys_call w)) = files w"
  using sys_call_frame [of w] sys_call_at [of w] by (metis prod.collapse)+

lemma write_snd [simp]:
  "q \<noteq> p \<Longrightarrow> file_at (snd (write_file p s w)) q = file_at w q"
  "running (snd (write_file p s w)) = running w"
  "fst (write_file p s w) = None \<Longrightarrow> file_at (snd (write_file p s w)) p = Some s"
  using write_file_other [of p s w] write_file_running [of p s w] write_file_ok [of p s w]
  by (metis prod.collapse)+

lemma remove_snd [simp]:
  "q \<noteq> p \<Longrightarrow> file_at (snd (remove_file p w)) q = file_at w q"
  "running (snd (remove_file p w)) = running w"
  using remove_file_other [of p w] remove_file_running [of p w] by (metis prod.collapse)+

lemma restart_snd [simp]:
  "file_at (snd (restart_xray p w)) q = file_at w q"
  "running (snd (restart_xray p w)) = (if fst (restart_xray p w) = None then file_at w p else None)"
  using restart_xray_at [of p w] restart_xray_running [of p w] by (metis prod.collapse)+

lemma api_call_snd [simp]:
  "file_at (snd (api_call c w)) q = file_at w q" "running (snd (api_call c w)) = running w"
  by (simp_all add: api_call_def next_outcome_def split: list.splits outcome.splits)

lemma rename_snd [simp]:
  "x \<noteq> p \<Longrightarrow> x \<noteq> q \<Longrightarrow> file_at (snd (rename_file p q w)) x = file_at w x"
  "running (snd (rename_file p q w)) = running w"
  using rename_file_other [of p q w] rename_file_running [of p q w] by (metis prod.collapse)+

lemma read_fst_Inr: "fst (read_file p w) = Inr s \<Longrightarrow> file_at w p = Some s"
  using read_file_Inr [of p w] by (metis prod.collapse)

lemma read_fst_Works:
  "tape w = [] \<or> hd (tape w) = Works \<Longrightarrow>
   fst (read_file p w) = (case file_at w p of None \<Rightarrow> Inl ErrNotExist | Some s \<Rightarrow> Inr s)"
  by (auto simp: read_file_def next_outcome_def split: list.splits option.splits)

section \<open>Paths\<close>

lemma path_dir_join [simp]: "CHR 0x2F \<notin> set n \<Longrightarrow> path_dir (path_join d n) = d"
proof -
  assume "CHR 0x2F \<notin> set n"
  then have "dropWhile (\<lambda>c. c \<noteq> CHR 0x2F) (rev n @ CHR 0x2F # rev d) = CHR 0x2F # rev d"
    by (subst dropWhile_append2) auto
  then show ?thesis by (simp add: path_dir_def path_join_def)
qed

lemma path_join_eq [simp]:
  "CHR 0x2F \<notin> set n \<Longrightarrow> CHR 0x2F \<notin> set n' \<Longrightarrow> path_join d n = path_join d' n' \<longleftrightarrow> d = d' \<and> n = n'"
proof
  assume n: "CHR 0x2F \<notin> set n" "CHR 0x2F \<notin> set n'" and eq: "path_join d n = path_join d' n'"
  from arg_cong [OF eq, of path_dir] n have "d = d'" by simp
  with eq show "d = d' \<and> n = n'" by (simp add: path_join_def)
qed simp

lemma write_tear:
  "file_at (snd (write_file p s w)) p = file_at w p \<or> (\<exists>t. file_at (snd (write_file p s w)) p = Some t)"
  by (auto simp: write_file_def case_prod_beta next_outcome_def split: outcome.splits list.splits)

end
