(* ===== verification/Embedded_Config.thy ===== *)
theory Embedded_Config
  imports World
begin

text \<open>
  The two configuration templates built into the agent
  (\<open>internal/embedded/default_config.go\<close>), as decoded JSON, and the step that points the access
  log at the agent's own file (\<open>injectAccessLog\<close> of \<open>internal/embedded/config.go\<close>).
\<close>

definition DefaultConfigJSON :: obj where
  "DefaultConfigJSON = [
    (''log'', JObj [
      (''loglevel'', JStr ''error'')]),
    (''dns'', JObj []),
    (''api'', JObj [
      (''tag'', JStr ''api''),
      (''services'', JArr [JStr ''HandlerService'', JStr ''LoggerService'', JStr ''StatsService'', JStr ''RoutingService''])]),
    (''stats'', JObj []),
    (''policy'', JObj [
      (''levels'', JObj [
        (''0'', JObj [
          (''handshake'', JNum 5 0),
          (''connIdle'', JNum 300 0),
          (''uplinkOnly'', JNum 2 0),
          (''downlinkOnly'', JNum 2 0),
          (''statsUserUplink'', JBool True),
          (''statsUserDownlink'', JBool True)])]),
      (''system'', JObj [
        (''statsInboundUplink'', JBool True),
        (''statsInboundDownlink'', JBool True),
        (''statsOutboundUplink'', JBool True),
        (''statsOutboundDownlink'', JBool True)])]),
    (''routing'', JObj [
      (''domainStrategy'', JStr ''IPIfNonMatch''),
      (''rules'', JArr [
        JObj [
          (''type'', JStr ''field''),
          (''inboundTag'', JArr [JStr ''api'']),
          (''outboundTag'', JStr ''api'')],
        JObj [
          (''type'', JStr ''field''),
          (''protocol'', JArr [JStr ''bittorrent'']),
          (''marktag'', JStr ''ban_bt''),
          (''outboundTag'', JStr ''block'')],
        JObj [
          (''type'', JStr ''field''),
          (''ip'', JArr [JStr ''geoip:private'']),
          (''outboundTag'', JStr ''block'')]])]),
    (''inbounds'', JArr [
      JObj [
        (''tag'', JStr ''api''),
        (''port'', JNum 46736 0),
        (''listen'', JStr ''127.0.0.1''),
        (''protocol'', JStr ''dokodemo-door''),
        (''settings'', JObj [
          (''address'', JStr ''127.0.0.1'')])]]),
    (''outbounds'', JArr [
      JObj [
        (''tag'', JStr ''direct''),
        (''protocol'', JStr ''freedom'')],
      JObj [
        (''tag'', JStr ''block''),
        (''protocol'', JStr ''blackhole'')]]),
    (''metrics'', JObj [
      (''tag'', JStr ''Metrics''),
      (''listen'', JStr ''127.0.0.1:38889'')])]"

definition TunnelConfigJSON :: obj where
  "TunnelConfigJSON = [
    (''log'', JObj [
      (''loglevel'', JStr ''error'')]),
    (''dns'', JObj []),
    (''api'', JObj [
      (''tag'', JStr ''api''),
      (''services'', JArr [JStr ''HandlerService'', JStr ''LoggerService'', JStr ''StatsService'', JStr ''RoutingService''])]),
    (''stats'', JObj []),
    (''policy'', JObj [
      (''levels'', JObj [
        (''0'', JObj [
          (''handshake'', JNum 5 0),
          (''connIdle'', JNum 300 0),
          (''uplinkOnly'', JNum 2 0),
          (''downlinkOnly'', JNum 2 0),
          (''statsUserUplink'', JBool True),
          (''statsUserDownlink'', JBool True)])]),
      (''system'', JObj [
        (''statsInboundUplink'', JBool True),
        (''statsInboundDownlink'', JBool True),
        (''statsOutboundUplink'', JBool True),
        (''statsOutboundDownlink'', JBool True)])]),
    (''routing'', JObj [
      (''domainStrategy'', JStr ''IPIfNonMatch''),
      (''rules'', JArr [
        JObj [
          (''inboundTag'', JArr [JStr ''tunnel-in'']),
          (''outboundTag'', JStr ''direct'')],
        JObj [
          (''type'', JStr ''field''),
          (''inboundTag'', JArr [JStr ''api'']),
          (''outboundTag'', JStr ''api'')],
        JObj [
          (''type'', JStr ''field''),
          (''protocol'', JArr [JStr ''bittorrent'']),
          (''marktag'', JStr ''ban_bt''),
          (''outboundTag'', JStr ''block'')],
        JObj [
          (''type'', JStr ''field''),
          (''ip'', JArr [JStr ''geoip:private'']),
          (''outboundTag'', JStr ''block'')]])]),
    (''inbounds'', JArr [
      JObj [
        (''tag'', JStr ''tunnel-in''),
        (''port'', JNum 443 0),
        (''protocol'', JStr ''tunnel''),
        (''settings'', JObj [
          (''address'', JStr ''127.0.0.1''),
          (''port'', JNum 46174 0),
          (''network'', JStr ''tcp'')]),
        (''sniffing'', JObj [
          (''enabled'', JBool True),
          (''destOverride'', JArr [JStr ''tls'']),
          (''routeOnly'', JBool True)])],
      JObj [
        (''tag'', JStr ''api''),
        (''port'', JNum 46736 0),
        (''listen'', JStr ''127.0.0.1''),
        (''protocol'', JStr ''dokodemo-door''),
        (''settings'', JObj [
          (''address'', JStr ''127.0.0.1'')])]]),
    (''outbounds'', JArr [
      JObj [
        (''tag'', JStr ''direct''),
        (''protocol'', JStr ''freedom'')],
      JObj [
        (''tag'', JStr ''block''),
        (''protocol'', JStr ''blackhole'')],
      JObj [
        (''protocol'', JStr ''freedom''),
        (''settings'', JObj [
          (''redirect'', JStr ''127.0.0.1:8001''),
          (''domainStrategy'', JStr ''UseIP''),
          (''proxyProtocol'', JNum 1 0)]),
        (''tag'', JStr ''nginx'')]]),
    (''metrics'', JObj [
      (''tag'', JStr ''Metrics''),
      (''listen'', JStr ''127.0.0.1:38889'')])]"

definition injectAccessLog ::
  "(string \<Rightarrow> obj option) \<Rightarrow> (obj \<Rightarrow> string) \<Rightarrow> string \<Rightarrow> string \<Rightarrow> string" where
  "injectAccessLog dec enc AccessLogPath data =
     (if AccessLogPath = [] then data
      else
        (case dec data of
           None \<Rightarrow> data
         | Some m \<Rightarrow>
             let logCfg = (case get_obj m ''log'' of Some l \<Rightarrow> l | None \<Rightarrow> [])
             in enc (jset ''log'' (JObj (jset ''access'' (JStr AccessLogPath) logCfg)) m)))"

end
