(* ===== verification/Xray_Merge.thy ===== *)
theory Xray_Merge
  imports Embedded_Config
begin

text \<open>
  The template merge of Xray configurations, which the agent runs at every start in
  steal-self mode and the repairs it makes then (\<open>cmd/mmw-agent/main.go\<close>), with the priority of a
  routing rule (\<open>internal/handler/management_handler.go\<close>).
\<close>

section \<open>Routing rules: priority and signature\<close>

definition ClassifyRulePriority :: "obj option \<Rightarrow> int" where
  "ClassifyRulePriority rule =
     (case rule of
        None \<Rightarrow> 4
      | Some m \<Rightarrow>
          if get_str m ''outboundTag'' = ''nginx'' then -1
          else if has_prefix (get_str m ''outboundTag'') ''tunnel-'' then 0
          else
            let marktag = get_str m ''marktag''
            in if has_prefix marktag ''routed:''
               then (if length (split_on (CHR 0x3A) marktag) = 4 then 1
                     else if length (split_on (CHR 0x3A) marktag) = 3 then 2
                     else 2)
               else if marktag = ''home_broadband_warp'' \<or> marktag = ''speedtest_warp'' then 3
               else 4)"

definition rule_priority :: "json \<Rightarrow> int" where
  "rule_priority r = ClassifyRulePriority (as_obj r)"

definition signature_keys :: "string list" where
  "signature_keys =
     [''type'', ''outboundTag'', ''balancerTag'', ''inboundTag'', ''ip'', ''domain'', ''user'',
      ''protocol'', ''network'', ''source'', ''port'', ''sourcePort'', ''marktag'']"

definition signature_part :: "obj \<Rightarrow> string \<Rightarrow> string option" where
  "signature_part m k =
     (case map_of m k of
        None \<Rightarrow> None
      | Some JNull \<Rightarrow> None
      | Some (JArr vs) \<Rightarrow>
          Some (k @ '':['' @ join_with '','' (sort (List.map sprint vs)) @ '']'')
      | Some v \<Rightarrow> Some (k @ '':'' @ sprint v))"

definition routingRuleSignature :: "json \<Rightarrow> string" where
  "routingRuleSignature r =
     (case as_obj r of
        None \<Rightarrow> []
      | Some m \<Rightarrow> join_with ''|'' (List.map_filter (signature_part m) signature_keys))"

section \<open>The template merge of the start-up\<close>

definition main_mergeTaggedArray :: "json \<Rightarrow> json \<Rightarrow> json list" where
  "main_mergeTaggedArray existingRaw templateRaw =
     (let existing = (case as_arr existingRaw of Some xs \<Rightarrow> xs | None \<Rightarrow> []);
          template = (case as_arr templateRaw of Some xs \<Rightarrow> xs | None \<Rightarrow> []);
          tplTags = set (tags_of template)
      in template @
         filter (\<lambda>item. case as_obj item of
                          None \<Rightarrow> True
                        | Some m \<Rightarrow> \<not> (get_str m ''tag'' \<noteq> [] \<and> get_str m ''tag'' \<in> tplTags))
           existing)"

definition marktag_of :: "json \<Rightarrow> string" where
  "marktag_of r = (case as_obj r of Some m \<Rightarrow> get_str m ''marktag'' | None \<Rightarrow> [])"

definition main_mergeRules :: "json list \<Rightarrow> json list \<Rightarrow> json list" where
  "main_mergeRules existingRules templateRules =
     (let tplMarktags = set (List.map marktag_of templateRules) - {[]};
          tplSignatures = set (List.map routingRuleSignature templateRules);
          rules = templateRules @
            filter (\<lambda>r. case as_obj r of
                          None \<Rightarrow> True
                        | Some m \<Rightarrow>
                            \<not> (get_str m ''marktag'' \<noteq> [] \<and> get_str m ''marktag'' \<in> tplMarktags) \<and>
                            routingRuleSignature r \<notin> tplSignatures)
              existingRules
      in sort_key rule_priority rules)"

text \<open>A Go \<open>nil\<close> map returned as \<open>any\<close> is written out as \<open>null\<close>.\<close>

definition main_mergeRouting :: "json \<Rightarrow> json \<Rightarrow> json" where
  "main_mergeRouting existingRaw templateRaw =
     (case as_obj templateRaw of
        None \<Rightarrow> (case as_obj existingRaw of Some e \<Rightarrow> JObj e | None \<Rightarrow> JNull)
      | Some template \<Rightarrow>
          (case as_obj existingRaw of
             None \<Rightarrow> JObj template
           | Some existing \<Rightarrow>
               let merged = fold (\<lambda>(k, v) m. if k \<noteq> ''rules'' then jset k v m else m) template existing
               in JObj (jset ''rules''
                    (JArr (main_mergeRules (get_list existing ''rules'') (get_list template ''rules'')))
                    merged)))"

definition json_at :: "obj \<Rightarrow> string \<Rightarrow> json" where
  "json_at m k = (case map_of m k of Some v \<Rightarrow> v | None \<Rightarrow> JNull)"

definition merge_section :: "obj \<Rightarrow> string \<Rightarrow> json \<Rightarrow> json" where
  "merge_section existMap k v =
     (if k = ''inbounds'' then JArr (main_mergeTaggedArray (json_at existMap ''inbounds'') v)
      else if k = ''outbounds'' then JArr (main_mergeTaggedArray (json_at existMap ''outbounds'') v)
      else if k = ''routing'' then main_mergeRouting (json_at existMap ''routing'') v
      else v)"

definition main_mergeXrayMaps :: "obj \<Rightarrow> obj \<Rightarrow> obj" where
  "main_mergeXrayMaps existMap tplMap =
     fold (\<lambda>(k, v) result. jset k (merge_section existMap k v) result) tplMap existMap"

text \<open>\<open>dec\<close> and \<open>enc\<close> stand for \<open>json.Unmarshal\<close> into a map and \<open>json.MarshalIndent\<close>.\<close>

definition main_mergeXrayConfig ::
  "(string \<Rightarrow> obj option) \<Rightarrow> (obj \<Rightarrow> string) \<Rightarrow> string \<Rightarrow> string \<Rightarrow> string + string" where
  "main_mergeXrayConfig dec enc existing template =
     (case dec existing of
        None \<Rightarrow> Inl ''parse existing config''
      | Some existMap \<Rightarrow>
          (case dec template of
             None \<Rightarrow> Inl ''parse template config''
           | Some tplMap \<Rightarrow> Inr (enc (main_mergeXrayMaps existMap tplMap))))"

definition initXrayConfig ::
  "(string \<Rightarrow> obj option) \<Rightarrow> (obj \<Rightarrow> string) \<Rightarrow> string \<Rightarrow> string \<Rightarrow>
   string \<Rightarrow> string \<Rightarrow> world \<Rightarrow> world" where
  "initXrayConfig dec enc tunnelTpl defaultTpl path stealMode w =
     (let w0 = snd (sys_call w)
      in if stealMode = ''tunnel'' \<or> stealMode = ''fallback'' then
           (let tpl = (if stealMode = ''fallback'' then defaultTpl else tunnelTpl)
            in (case read_file path w0 of
                  (Inl _, w1) \<Rightarrow> snd (write_file path tpl w1)
                | (Inr existing, w1) \<Rightarrow>
                    if length existing \<le> 4 then snd (write_file path tpl w1)
                    else
                      (case main_mergeXrayConfig dec enc existing tpl of
                         Inl _ \<Rightarrow>
                           let w2 = snd (rename_file path (path @ ''.backup'') w1)
                           in snd (write_file path tpl w2)
                       | Inr merged \<Rightarrow>
                           let w2 = snd (write_file (path @ ''.backup'') existing w1)
                           in snd (write_file path merged w2))))
         else
           (case read_file path w0 of
              (Inl e, w1) \<Rightarrow> if e = ErrNotExist then snd (write_file path defaultTpl w1) else w1
            | (Inr s, w1) \<Rightarrow> if length s \<le> 4 then snd (write_file path defaultTpl w1) else w1))"

section \<open>Start-up repairs\<close>

definition json_port :: "obj \<Rightarrow> int \<Rightarrow> bool" where
  "json_port m p = (case map_of m ''port'' of Some (JNum a e) \<Rightarrow> num_is_int a e p | _ \<Rightarrow> p = 0)"

definition filter_objs :: "(obj \<Rightarrow> bool) \<Rightarrow> json list \<Rightarrow> json list" where
  "filter_objs remove items =
     filter (\<lambda>item. case as_obj item of None \<Rightarrow> True | Some m \<Rightarrow> \<not> remove m) items"

definition removed_tags :: "(obj \<Rightarrow> bool) \<Rightarrow> json list \<Rightarrow> string set" where
  "removed_tags remove items =
     set (tags_of (filter (\<lambda>item. case as_obj item of None \<Rightarrow> False | Some m \<Rightarrow> remove m) items))"

definition rule_hits :: "string set \<Rightarrow> obj \<Rightarrow> bool" where
  "rule_hits removedTags m \<longleftrightarrow>
     get_str m ''outboundTag'' = ''nginx'' \<or>
     (\<exists>rawTag\<in>set (get_list m ''inboundTag'').
        (case as_str rawTag of Some t \<Rightarrow> t | None \<Rightarrow> []) \<in> removedTags)"

definition protect443 :: "obj \<Rightarrow> obj" where
  "protect443 cfg =
     (let rm_in = (\<lambda>m. json_port m 443);
          rm_out = (\<lambda>m. get_str m ''tag'' = ''nginx'');
          ins = get_list cfg ''inbounds''; outs = get_list cfg ''outbounds'';
          removedTags = removed_tags rm_in ins \<union> removed_tags rm_out outs;
          cfg1 = jset ''outbounds'' (JArr (filter_objs rm_out outs))
                   (jset ''inbounds'' (JArr (filter_objs rm_in ins)) cfg)
      in (case get_obj cfg1 ''routing'' of
            None \<Rightarrow> cfg1
          | Some routing \<Rightarrow>
              jset ''routing''
                (JObj (jset ''rules''
                   (JArr (filter_objs (rule_hits removedTags) (get_list routing ''rules''))) routing))
                cfg1))"

definition protectMasterHTTPSPort443 ::
  "(string \<Rightarrow> obj option) \<Rightarrow> (obj \<Rightarrow> string) \<Rightarrow> string \<Rightarrow> world \<Rightarrow> world" where
  "protectMasterHTTPSPort443 dec enc path w =
     (case read_file path w of
        (Inl _, w1) \<Rightarrow> w1
      | (Inr data, w1) \<Rightarrow>
          if length data \<le> 4 then w1
          else
            (case dec data of
               None \<Rightarrow> w1
             | Some cfg \<Rightarrow>
                 let w2 = snd (write_file (path @ ''.before-master-https-protect'') data w1)
                 in snd (write_file path (enc (protect443 cfg)) w2)))"

text \<open>The UDP and full-cone repair of port forwards: the patched element and whether it changed.\<close>

definition patch_forward_inbound :: "json \<Rightarrow> json \<times> bool" where
  "patch_forward_inbound ibAny =
     (case as_obj ibAny of
        None \<Rightarrow> (ibAny, False)
      | Some ib \<Rightarrow>
          if get_str ib ''protocol'' \<noteq> ''tunnel'' \<and> get_str ib ''protocol'' \<noteq> ''dokodemo-door''
          then (ibAny, False)
          else if get_str ib ''tag'' = ''api'' \<or> get_str ib ''tag'' = ''tunnel-in''
          then (ibAny, False)
          else
            (case get_obj ib ''settings'' of
               None \<Rightarrow> (ibAny, False)
             | Some settings \<Rightarrow>
                 if \<not> str_contains (get_str settings ''network'') ''udp''
                 then (JObj (jset ''settings'' (JObj (jset ''network'' (JStr ''tcp,udp'') settings)) ib), True)
                 else (ibAny, False)))"

definition patch_forward_outbound :: "json \<Rightarrow> json \<times> bool" where
  "patch_forward_outbound obAny =
     (case as_obj obAny of
        None \<Rightarrow> (obAny, False)
      | Some ob \<Rightarrow>
          if get_str ob ''protocol'' \<noteq> ''freedom'' then (obAny, False)
          else if \<not> has_prefix (get_str ob ''tag'') ''tunnel-'' then (obAny, False)
          else
            (case get_obj ob ''settings'' of
               None \<Rightarrow> (obAny, False)
             | Some settings \<Rightarrow>
                 if has_prefix (get_str settings ''domainStrategy'') ''UseIP''
                 then (JObj (jset ''settings'' (JObj (jset ''domainStrategy'' (JStr ''AsIs'') settings)) ob), True)
                 else (obAny, False)))"

definition patch_array :: "(json \<Rightarrow> json \<times> bool) \<Rightarrow> string \<Rightarrow> obj \<Rightarrow> obj \<times> bool" where
  "patch_array f k config =
     (case get_arr config k of
        None \<Rightarrow> (config, False)
      | Some xs \<Rightarrow> (jset k (JArr (List.map (fst \<circ> f) xs)) config, list_ex (snd \<circ> f) xs))"

definition patch_forwards :: "obj \<Rightarrow> obj \<times> bool" where
  "patch_forwards config =
     (case patch_array patch_forward_inbound ''inbounds'' config of
        (config1, changed1) \<Rightarrow>
          (case patch_array patch_forward_outbound ''outbounds'' config1 of
             (config2, changed2) \<Rightarrow> (config2, changed1 \<or> changed2)))"

definition patchTunnelForwardUDPFullcone ::
  "(string \<Rightarrow> obj option) \<Rightarrow> (obj \<Rightarrow> string) \<Rightarrow> string \<Rightarrow> world \<Rightarrow> world" where
  "patchTunnelForwardUDPFullcone dec enc path w =
     (case read_file path w of
        (Inl _, w1) \<Rightarrow> w1
      | (Inr data, w1) \<Rightarrow>
          if length data \<le> 4 then w1
          else
            (case dec data of
               None \<Rightarrow> w1
             | Some config \<Rightarrow>
                 (case patch_forwards config of
                    (config', changed) \<Rightarrow>
                      if \<not> changed then w1 else snd (write_file path (enc config') w1))))"

section \<open>The template merge as one scheme\<close>

text \<open>
  Both merges put the template's elements first and keep those of the existing elements that the
  template does not supersede, in a stable order by priority. The interface is the test
  \<open>keeps t x\<close> (the existing element \<open>x\<close> survives template \<open>t\<close>); its only law is that a keyed
  element of the template never survives beside itself.
\<close>

definition merge_by :: "(json list \<Rightarrow> json \<Rightarrow> bool) \<Rightarrow> (json \<Rightarrow> int) \<Rightarrow> json list \<Rightarrow> json list \<Rightarrow> json list" where
  "merge_by keeps pri e t = sort_key pri (t @ filter (keeps t) e)"

locale template_merge =
  fixes keeps :: "json list \<Rightarrow> json \<Rightarrow> bool" and pri :: "json \<Rightarrow> int" and keyed :: "json \<Rightarrow> bool"
  assumes template_dropped: "x \<in> set t \<Longrightarrow> keyed x \<Longrightarrow> \<not> keeps t x"
begin

lemma merge_sorted: "sorted (List.map pri (merge_by keeps pri e t))"
  by (simp add: merge_by_def)

lemma merge_mset: "mset (merge_by keeps pri e t) = mset t + mset (filter (keeps t) e)"
  by (simp add: merge_by_def)

lemma merge_set: "set (merge_by keeps pri e t) = set t \<union> {x \<in> set e. keeps t x}"
  by (simp add: merge_by_def)

lemma merge_stable:
  "filter (\<lambda>x. pri x = p) (merge_by keeps pri e t) =
   filter (\<lambda>x. pri x = p) t @ filter (\<lambda>x. pri x = p) (filter (keeps t) e)"
  using sort_key_stable [of pri p "t @ filter (keeps t) e"] by (simp add: merge_by_def)

lemma merge_self: "\<forall>x\<in>set t. keyed x \<Longrightarrow> merge_by keeps pri t t = sort_key pri t"
  using template_dropped by (simp add: merge_by_def filter_False)

lemma merge_idem:
  assumes "\<forall>x\<in>set t. keyed x"
  shows "merge_by keeps pri (merge_by keeps pri e t) t = merge_by keeps pri e t"
proof -
  have "filter (keeps t) (merge_by keeps pri e t) = sort_key pri (filter (keeps t) (t @ filter (keeps t) e))"
    by (simp add: merge_by_def filter_sort)
  also have "filter (keeps t) (t @ filter (keeps t) e) = filter (keeps t) e"
    using assms template_dropped by (auto simp: filter_empty_conv)
  finally show ?thesis
    by (simp add: merge_by_def [of keeps pri "merge_by keeps pri e t"] sort_key_absorb_left)
      (simp add: merge_by_def)
qed

end

definition keeps_tag :: "json list \<Rightarrow> json \<Rightarrow> bool" where
  "keeps_tag t x \<longleftrightarrow> tag_of x = [] \<or> tag_of x \<notin> set (tags_of t)"

definition keeps_rule :: "json list \<Rightarrow> json \<Rightarrow> bool" where
  "keeps_rule t x \<longleftrightarrow>
     as_obj x = None \<or>
     (marktag_of x = [] \<or> marktag_of x \<notin> set (List.map marktag_of t)) \<and>
     routingRuleSignature x \<notin> set (List.map routingRuleSignature t)"

interpretation tagged: template_merge keeps_tag "\<lambda>_. 0" "\<lambda>x. tag_of x \<noteq> []"
  by unfold_locales (auto simp: keeps_tag_def set_tags_of)

interpretation ruled: template_merge keeps_rule rule_priority "\<lambda>x. as_obj x \<noteq> None"
  by unfold_locales (auto simp: keeps_rule_def)

definition arr_of :: "json \<Rightarrow> json list" where
  "arr_of v = (case as_arr v of Some xs \<Rightarrow> xs | None \<Rightarrow> [])"

lemma arr_of_simps [simp]: "arr_of (JArr xs) = xs" "arr_of JNull = []"
  by (simp_all add: arr_of_def)

lemma arr_of_json_at [simp]: "arr_of (json_at m k) = get_list m k"
  by (auto simp: arr_of_def json_at_def get_list_def get_arr_def split: option.splits)

lemma mergeTaggedArray_merge_by:
  "main_mergeTaggedArray e t = merge_by keeps_tag (\<lambda>_. 0) (arr_of e) (arr_of t)"
proof -
  have "(case as_obj x of None \<Rightarrow> True
         | Some m \<Rightarrow> \<not> (get_str m ''tag'' \<noteq> [] \<and> get_str m ''tag'' \<in> set (tags_of ts)))
        = keeps_tag ts x" for x ts
    by (cases "as_obj x") (auto simp: keeps_tag_def tag_of_def)
  then show ?thesis
    by (simp add: main_mergeTaggedArray_def Let_def merge_by_def sort_key_const arr_of_def)
qed

lemma mergeRules_merge_by: "main_mergeRules e t = merge_by keeps_rule rule_priority e t"
proof -
  have "(case as_obj x of None \<Rightarrow> True
         | Some m \<Rightarrow>
             \<not> (get_str m ''marktag'' \<noteq> [] \<and> get_str m ''marktag'' \<in> marktag_of ` set t - {[]}) \<and>
             routingRuleSignature x \<notin> routingRuleSignature ` set t)
        = keeps_rule t x" for x
    by (cases "as_obj x") (auto simp: keeps_rule_def marktag_of_def)
  then show ?thesis
    by (simp add: main_mergeRules_def Let_def merge_by_def)
qed

lemmas merge_scheme = mergeTaggedArray_merge_by mergeRules_merge_by

section \<open>Assigning every entry of a map\<close>

lemma fold_jset_lookup:
  "distinct (List.map fst t) \<Longrightarrow>
   map_of (fold (\<lambda>(k, v) r. if p k then jset k (g k v) r else r) t e) k =
   (if p k then (case map_of t k of Some v \<Rightarrow> Some (g k v) | None \<Rightarrow> map_of e k) else map_of e k)"
proof (induction t arbitrary: e)
  case (Cons kv t)
  obtain k' v where kv: "kv = (k', v)" by (cases kv)
  with Cons.prems have "map_of t k' = None" by (auto simp: map_of_eq_None_iff)
  with Cons kv show ?case by (auto split: option.splits)
qed simp

lemma fold_jset_fixed:
  "(\<And>k v. (k, v) \<in> set t \<Longrightarrow> p k \<Longrightarrow> map_of e k = Some (g k v)) \<Longrightarrow>
   fold (\<lambda>(k, v) r. if p k then jset k (g k v) r else r) t e = e"
proof (induction t)
  case (Cons kv t)
  obtain k v where "kv = (k, v)" by (cases kv)
  with Cons show ?case by auto
qed simp

lemmas fold_jset_all = fold_jset_lookup [where p = "\<lambda>_. True", simplified]
  fold_jset_fixed [where p = "\<lambda>_. True", simplified]

text \<open>What the idempotence needs of a template.\<close>

definition template_ok :: "obj \<Rightarrow> bool" where
  "template_ok t \<longleftrightarrow>
     distinct (List.map fst t) \<and>
     (\<forall>x\<in>set (get_list t ''inbounds''). tag_of x \<noteq> []) \<and>
     (\<forall>x\<in>set (get_list t ''outbounds''). tag_of x \<noteq> []) \<and>
     (case map_of t ''routing'' of
        Some (JObj r) \<Rightarrow>
          distinct (List.map fst r) \<and> get_arr r ''rules'' \<noteq> None \<and>
          (\<forall>x\<in>set (get_list r ''rules''). as_obj x \<noteq> None) \<and>
          sorted (List.map rule_priority (get_list r ''rules''))
      | _ \<Rightarrow> True)"

lemma DefaultConfig_ok: "template_ok DefaultConfigJSON"
  by (simp add: template_ok_def DefaultConfigJSON_def get_list_def get_arr_def tag_of_def get_str_def
      rule_priority_def ClassifyRulePriority_def)

lemma TunnelConfig_ok: "template_ok TunnelConfigJSON"
  by (simp add: template_ok_def TunnelConfigJSON_def get_list_def get_arr_def tag_of_def get_str_def
      rule_priority_def ClassifyRulePriority_def)

lemma mergeRouting_idem:
  assumes t: "t = JObj r \<Longrightarrow> distinct (List.map fst r) \<and> get_arr r ''rules'' \<noteq> None \<and>
      (\<forall>x\<in>set (get_list r ''rules''). as_obj x \<noteq> None) \<and>
      sorted (List.map rule_priority (get_list r ''rules''))"
    and r: "as_obj t = None \<or> t = JObj r"
  shows "main_mergeRouting (main_mergeRouting e t) t = main_mergeRouting e t"
proof (cases "as_obj t")
  case None
  then show ?thesis
    by (cases "as_obj e") (simp_all add: main_mergeRouting_def)
next
  case (Some r')
  with r have t': "t = JObj r" by simp
  note h = t [OF t']
  let ?f = "fold (\<lambda>(k, v) m. if k \<noteq> ''rules'' then jset k v m else m) r"
  let ?R = "\<lambda>xs. main_mergeRules xs (get_list r ''rules'')"
  have self: "?R (get_list r ''rules'') = get_list r ''rules''"
    using h ruled.merge_self by (simp add: merge_scheme sort_key_id_if_sorted)
  have idem: "?R (?R xs) = ?R xs" for xs
    using h ruled.merge_idem by (simp add: merge_scheme)
  show ?thesis
  proof (cases "as_obj e")
    case None
    have "?f r = r"
      using h by (intro fold_jset_fixed [where g = "\<lambda>k v. v"]) auto
    moreover have "jset ''rules'' (JArr (get_list r ''rules'')) r = r"
      using h by (intro jset_same) (auto simp: get_list_def get_arr_Some [symmetric])
    ultimately show ?thesis
      using None t' self by (simp add: main_mergeRouting_def)
  next
    case (Some m)
    let ?m' = "jset ''rules'' (JArr (?R (get_list m ''rules''))) (?f m)"
    have "map_of ?m' k = Some v" if "(k, v) \<in> set r" "k \<noteq> ''rules''" for k v
      using h that fold_jset_lookup [of r "\<lambda>k. k \<noteq> ''rules''" "\<lambda>k v. v" m k] by simp
    then have "?f ?m' = ?m'"
      by (intro fold_jset_fixed [where g = "\<lambda>k v. v"]) auto
    with Some t' idem show ?thesis by (simp add: main_mergeRouting_def Let_def)
  qed
qed

lemma merge_section_idem:
  assumes "template_ok t" and "map_of t k = Some v" and "map_of e' k = Some (merge_section e k v)"
  shows "merge_section e' k v = merge_section e k v"
proof -
  have at: "json_at e' k = merge_section e k v" using assms(3) by (simp add: json_at_def)
  consider "k = ''inbounds''" | "k = ''outbounds''" | "k = ''routing''"
    | "k \<noteq> ''inbounds'' \<and> k \<noteq> ''outbounds'' \<and> k \<noteq> ''routing''" by blast
  then show ?thesis
  proof cases
    case 1
    with assms have "\<forall>x\<in>set (arr_of v). tag_of x \<noteq> []"
      by (auto simp: template_ok_def get_list_def get_arr_def arr_of_def)
    with 1 at show ?thesis
      using tagged.merge_idem by (simp add: merge_section_def merge_scheme del: arr_of_json_at)
  next
    case 2
    with assms have "\<forall>x\<in>set (arr_of v). tag_of x \<noteq> []"
      by (auto simp: template_ok_def get_list_def get_arr_def arr_of_def)
    with 2 at show ?thesis
      using tagged.merge_idem by (simp add: merge_section_def merge_scheme del: arr_of_json_at)
  next
    case 3
    show ?thesis
    proof (cases "as_obj v")
      case None
      then have "v \<noteq> JObj []" by auto
      with None 3 at show ?thesis
        using mergeRouting_idem [of v "[]"] by (simp add: merge_section_def)
    next
      case (Some r)
      with 3 at show ?thesis
        using assms mergeRouting_idem [of v r]
        by (auto simp: merge_section_def template_ok_def)
    qed
  next
    case 4
    then show ?thesis by (simp add: merge_section_def)
  qed
qed

lemma mergeXrayMaps_lookup:
  "distinct (List.map fst t) \<Longrightarrow>
   map_of (main_mergeXrayMaps e t) k =
   (case map_of t k of Some v \<Rightarrow> Some (merge_section e k v) | None \<Rightarrow> map_of e k)"
  by (simp add: main_mergeXrayMaps_def fold_jset_all)

lemma mergeXrayMaps_idem:
  assumes "template_ok t"
  shows "main_mergeXrayMaps (main_mergeXrayMaps e t) t = main_mergeXrayMaps e t"
proof -
  have d: "distinct (List.map fst t)" using assms by (simp add: template_ok_def)
  have "map_of (main_mergeXrayMaps e t) k = Some (merge_section (main_mergeXrayMaps e t) k v)"
    if "(k, v) \<in> set t" for k v
    using that d merge_section_idem [OF assms, of k v "main_mergeXrayMaps e t" e]
    by (simp add: mergeXrayMaps_lookup)
  then have "fold (\<lambda>(k, v) r. jset k (merge_section (main_mergeXrayMaps e t) k v) r) t
               (main_mergeXrayMaps e t) = main_mergeXrayMaps e t"
    by (intro fold_jset_all(2))
  then show ?thesis by (simp add: main_mergeXrayMaps_def [of "main_mergeXrayMaps e t"])
qed


section \<open>The start-up merge\<close>

definition tpl_of :: "string \<Rightarrow> obj" where
  "tpl_of stealMode = (if stealMode = ''fallback'' then DefaultConfigJSON else TunnelConfigJSON)"

lemma tpl_of_ok: "template_ok (tpl_of stealMode)"
  by (simp add: tpl_of_def DefaultConfig_ok TunnelConfig_ok)

lemmas fault_free = next_outcome_def read_file_def write_file_def sys_call_def rename_file_def

lemma initXrayConfig_merges:
  assumes "dec tunnelTpl = Some TunnelConfigJSON" and "dec defaultTpl = Some DefaultConfigJSON"
    and "stealMode \<in> {''tunnel'', ''fallback''}"
    and "tape w = []" and "file_at w path = Some s" and "4 < length s" and "dec s = Some e"
  shows "initXrayConfig dec enc tunnelTpl defaultTpl path stealMode w =
         put_file path (enc (main_mergeXrayMaps e (tpl_of stealMode))) (put_file (path @ ''.backup'') s w)"
  using assms
  by (auto simp: initXrayConfig_def fault_free main_mergeXrayConfig_def tpl_of_def)

text \<open>In steal-self mode two consecutive starts of the agent leave the same bytes in the
  configuration file: the first start writes the merge of the template into the existing
  configuration and keeps the previous text beside it, the second one (over the same template)
  changes nothing in the configuration file. The JSON codec is a parameter; all that is used of it
  is that the merged configuration reads back as written.\<close>

theorem initXrayConfig_restart_stable:
  assumes "dec tunnelTpl = Some TunnelConfigJSON" and "dec defaultTpl = Some DefaultConfigJSON"
    and "stealMode \<in> {''tunnel'', ''fallback''}"
    and "tape w = []" and "file_at w path = Some s" and "4 < length s" and "dec s = Some e"
    and "dec (enc (main_mergeXrayMaps e (tpl_of stealMode))) = Some (main_mergeXrayMaps e (tpl_of stealMode))"
    and "4 < length (enc (main_mergeXrayMaps e (tpl_of stealMode)))"
  shows "let w1 = initXrayConfig dec enc tunnelTpl defaultTpl path stealMode w;
             w2 = initXrayConfig dec enc tunnelTpl defaultTpl path stealMode w1
         in file_at w1 path = Some (enc (main_mergeXrayMaps e (tpl_of stealMode))) \<and>
            file_at w1 (path @ ''.backup'') = Some s \<and>
            file_at w2 path = file_at w1 path"
proof -
  let ?m = "main_mergeXrayMaps e (tpl_of stealMode)"
  let ?w1 = "put_file path (enc ?m) (put_file (path @ ''.backup'') s w)"
  have 1: "initXrayConfig dec enc tunnelTpl defaultTpl path stealMode w = ?w1"
    using assms(1-7) by (rule initXrayConfig_merges)
  have "initXrayConfig dec enc tunnelTpl defaultTpl path stealMode ?w1 =
        put_file path (enc (main_mergeXrayMaps ?m (tpl_of stealMode)))
          (put_file (path @ ''.backup'') (enc ?m) ?w1)"
    using assms by (intro initXrayConfig_merges) simp_all
  with 1 show ?thesis by (simp add: mergeXrayMaps_idem [OF tpl_of_ok])
qed

lemma initXrayConfig_restart_stable_witness:
  "let w = \<lparr>files = [(''/c'', ''old config'')], tape = [], running = None, api = []\<rparr>;
       e = [(''inbounds'', JArr [JObj [(''tag'', JStr ''mine'')], JObj [(''tag'', JStr ''api'')]])];
       m = main_mergeXrayMaps e TunnelConfigJSON;
       dec = (\<lambda>s. if s = ''tunnel'' then Some TunnelConfigJSON
                  else if s = ''default'' then Some DefaultConfigJSON
                  else if s = ''old config'' then Some e else Some m);
       w1 = initXrayConfig dec (\<lambda>_. ''merged'') ''tunnel'' ''default'' ''/c'' ''tunnel'' w;
       w2 = initXrayConfig dec (\<lambda>_. ''merged'') ''tunnel'' ''default'' ''/c'' ''tunnel'' w1
   in file_at w1 ''/c'' = Some ''merged'' \<and> file_at w1 ''/c.backup'' = Some ''old config'' \<and>
      file_at w2 ''/c'' = file_at w1 ''/c''"
  using initXrayConfig_restart_stable [where
      w = "\<lparr>files = [(''/c'', ''old config'')], tape = [], running = None, api = []\<rparr>" and
      e = "[(''inbounds'', JArr [JObj [(''tag'', JStr ''mine'')], JObj [(''tag'', JStr ''api'')]])]" and
      dec = "\<lambda>s. if s = ''tunnel'' then Some TunnelConfigJSON
                 else if s = ''default'' then Some DefaultConfigJSON
                 else if s = ''old config''
                 then Some [(''inbounds'', JArr [JObj [(''tag'', JStr ''mine'')], JObj [(''tag'', JStr ''api'')]])]
                 else Some (main_mergeXrayMaps
                   [(''inbounds'', JArr [JObj [(''tag'', JStr ''mine'')], JObj [(''tag'', JStr ''api'')]])]
                   TunnelConfigJSON)" and
      enc = "\<lambda>_. ''merged''" and tunnelTpl = "''tunnel''" and defaultTpl = "''default''" and
      path = "''/c''" and stealMode = "''tunnel''" and s = "''old config''"]
  by (simp add: Let_def tpl_of_def file_at_def)

text \<open>The merged routing rules are those of the template and every existing rule it does not
  supersede (by marktag or by content signature); they stand in order of priority, and within one
  priority the template's rules come first and the existing rules keep their order. So the fallback
  rule to nginx and the port forwards precede every catch-all rule.\<close>

theorem main_mergeRules_order:
  "sorted (List.map rule_priority (main_mergeRules e t)) \<and>
   set (main_mergeRules e t) = set t \<union> {x \<in> set e. keeps_rule t x} \<and>
   (\<forall>p. filter (\<lambda>x. rule_priority x = p) (main_mergeRules e t) =
        filter (\<lambda>x. rule_priority x = p) t @
        filter (\<lambda>x. rule_priority x = p) (filter (keeps_rule t) e))"
  unfolding merge_scheme
  using ruled.merge_sorted [of e t] ruled.merge_set [of e t] ruled.merge_stable [of _ e t] by blast

lemma signature_part_perm:
  "mset xs = mset ys \<Longrightarrow>
   signature_part (jset k (JArr xs) m) k' = signature_part (jset k (JArr ys) m) k'"
proof -
  assume "mset xs = mset ys"
  then have "sort (List.map sprint xs) = sort (List.map sprint ys)"
    by (intro properties_for_sort) simp_all
  then show ?thesis by (simp add: signature_part_def)
qed

lemma routingRuleSignature_perm:
  "mset xs = mset ys \<Longrightarrow>
   routingRuleSignature (JObj (jset k (JArr xs) m)) = routingRuleSignature (JObj (jset k (JArr ys) m))"
proof -
  assume "mset xs = mset ys"
  then have "signature_part (jset k (JArr xs) m) = signature_part (jset k (JArr ys) m)"
    by (intro ext signature_part_perm)
  then show ?thesis by (simp add: routingRuleSignature_def)
qed

lemma unique_tags_append:
  "unique_tags (xs @ ys) \<longleftrightarrow> unique_tags xs \<and> unique_tags ys \<and> set (tags_of xs) \<inter> set (tags_of ys) = {}"
  by (simp add: unique_tags_def)

lemma main_mergeTaggedArray_eq:
  "main_mergeTaggedArray e t = arr_of t @ filter (keeps_tag (arr_of t)) (arr_of e)"
  by (simp add: mergeTaggedArray_merge_by merge_by_def sort_key_const)

text \<open>The merge of inbounds and outbounds: for every tag the result has exactly the elements of
  that tag of the template when it has one, else exactly those of the existing list; tags that are
  unique in both lists are unique in the result.\<close>

theorem main_mergeTaggedArray_by_tag:
  assumes "tg \<noteq> []"
  shows "filter (\<lambda>x. tag_of x = tg) (main_mergeTaggedArray e t) =
           filter (\<lambda>x. tag_of x = tg) (arr_of (if tg \<in> set (tags_of (arr_of t)) then t else e)) \<and>
         (unique_tags (arr_of e) \<and> unique_tags (arr_of t) \<longrightarrow>
            unique_tags (main_mergeTaggedArray e t))"
proof
  have "filter (\<lambda>x. tag_of x = tg) (arr_of t) = []" if "tg \<notin> set (tags_of (arr_of t))"
    using that assms by (auto simp: filter_empty_conv set_tags_of)
  moreover have "filter (\<lambda>x. tag_of x = tg) (filter (keeps_tag (arr_of t)) (arr_of e)) =
      (if tg \<in> set (tags_of (arr_of t)) then [] else filter (\<lambda>x. tag_of x = tg) (arr_of e))"
    using assms by (auto simp: filter_empty_conv keeps_tag_def intro!: filter_cong)
  ultimately show "filter (\<lambda>x. tag_of x = tg) (main_mergeTaggedArray e t) =
      filter (\<lambda>x. tag_of x = tg) (arr_of (if tg \<in> set (tags_of (arr_of t)) then t else e))"
    by (simp add: main_mergeTaggedArray_eq)
  show "unique_tags (arr_of e) \<and> unique_tags (arr_of t) \<longrightarrow> unique_tags (main_mergeTaggedArray e t)"
    by (auto simp: main_mergeTaggedArray_eq unique_tags_append unique_tags_filter set_tags_of
        keeps_tag_def image_iff)
qed

lemma main_mergeTaggedArray_by_tag_witness:
  "let e = JArr [JObj [(''tag'', JStr ''mine'')], JObj [(''tag'', JStr ''api''), (''port'', JNum 1 0)]];
       t = JArr [JObj [(''tag'', JStr ''api'')]]
   in filter (\<lambda>x. tag_of x = ''mine'') (main_mergeTaggedArray e t) = [JObj [(''tag'', JStr ''mine'')]] \<and>
      unique_tags (main_mergeTaggedArray e t)"
  using main_mergeTaggedArray_by_tag [of "''mine''"
      "JArr [JObj [(''tag'', JStr ''mine'')], JObj [(''tag'', JStr ''api''), (''port'', JNum 1 0)]]"
      "JArr [JObj [(''tag'', JStr ''api'')]]"]
  by (simp add: Let_def get_str_def unique_tags_def)


section \<open>The start-up repairs\<close>

lemma patch_forward_inbound_fix:
  "patch_forward_inbound (fst (patch_forward_inbound x)) = (fst (patch_forward_inbound x), False)"
proof (cases "as_obj x")
  case (Some ib)
  then show ?thesis
    by (cases "get_obj ib ''settings''") (auto simp: patch_forward_inbound_def)
qed (simp add: patch_forward_inbound_def)

lemma patch_forward_outbound_fix:
  "patch_forward_outbound (fst (patch_forward_outbound x)) = (fst (patch_forward_outbound x), False)"
proof (cases "as_obj x")
  case (Some ob)
  then show ?thesis
    by (cases "get_obj ob ''settings''") (auto simp: patch_forward_outbound_def)
qed (simp add: patch_forward_outbound_def)

lemma patch_unchanged:
  "\<not> snd (patch_forward_inbound x) \<Longrightarrow> fst (patch_forward_inbound x) = x"
  "\<not> snd (patch_forward_outbound x) \<Longrightarrow> fst (patch_forward_outbound x) = x"
  by (auto simp: patch_forward_inbound_def patch_forward_outbound_def split: option.splits if_splits)

lemma patch_array_fix:
  assumes "\<And>x. f (fst (f x)) = (fst (f x), False)"
  shows "patch_array f k (fst (patch_array f k c)) = (fst (patch_array f k c), False)"
proof (cases "get_arr c k")
  case (Some xs)
  have "List.map (fst \<circ> f) (List.map (fst \<circ> f) xs) = List.map (fst \<circ> f) xs"
    "\<not> list_ex (snd \<circ> f) (List.map (fst \<circ> f) xs)"
    using assms by (simp_all add: list_ex_iff)
  with Some show ?thesis by (simp add: patch_array_def del: List.map_map)
qed (simp add: patch_array_def)

lemma patch_array_unchanged:
  assumes "\<And>x. \<not> snd (f x) \<Longrightarrow> fst (f x) = x" and "\<not> snd (patch_array f k c)"
  shows "fst (patch_array f k c) = c"
proof (cases "get_arr c k")
  case (Some xs)
  with assms have "List.map (fst \<circ> f) xs = xs"
    by (auto simp: patch_array_def list_ex_iff intro!: map_idI)
  with Some get_arr_Some [of c k xs] show ?thesis by (simp add: patch_array_def)
qed (simp add: patch_array_def)

lemma patch_array_other: "k' \<noteq> k \<Longrightarrow> get_arr (fst (patch_array f k c)) k' = get_arr c k'"
  by (auto simp: patch_array_def split: option.splits)

lemma patch_array_commute:
  "k' \<noteq> k \<Longrightarrow> snd (patch_array g k' (fst (patch_array f k c))) = snd (patch_array g k' c)"
  by (auto simp: patch_array_def split: option.splits)

text \<open>The repair of port forwards reaches its goal in one pass and is idempotent: it reports a
  change exactly when it makes one, and after it a second pass changes nothing. In the result every
  port-forward inbound with settings accepts UDP, and no forward outbound resolves per packet.\<close>

theorem patch_forwards_goal:
  "(let c' = fst (patch_forwards c) in
     (\<not> snd (patch_forwards c) \<longrightarrow> c' = c) \<and>
     patch_forwards c' = (c', False) \<and>
     (\<forall>ib s. JObj ib \<in> set (get_list c' ''inbounds'') \<and>
        get_str ib ''protocol'' \<in> {''tunnel'', ''dokodemo-door''} \<and>
        get_str ib ''tag'' \<notin> {''api'', ''tunnel-in''} \<and> get_obj ib ''settings'' = Some s \<longrightarrow>
        str_contains (get_str s ''network'') ''udp'') \<and>
     (\<forall>ob s. JObj ob \<in> set (get_list c' ''outbounds'') \<and>
        get_str ob ''protocol'' = ''freedom'' \<and> has_prefix (get_str ob ''tag'') ''tunnel-'' \<and>
        get_obj ob ''settings'' = Some s \<longrightarrow>
        \<not> has_prefix (get_str s ''domainStrategy'') ''UseIP''))"
proof -
  let ?c1 = "fst (patch_array patch_forward_inbound ''inbounds'' c)"
  let ?c2 = "fst (patch_array patch_forward_outbound ''outbounds'' ?c1)"
  have c2: "fst (patch_forwards c) = ?c2"
    "snd (patch_forwards c) \<longleftrightarrow> snd (patch_array patch_forward_inbound ''inbounds'' c) \<or>
       snd (patch_array patch_forward_outbound ''outbounds'' ?c1)"
    by (simp_all add: patch_forwards_def split: prod.splits)
  have in2: "patch_array patch_forward_inbound ''inbounds'' ?c2 = (?c2, False)"
  proof -
    have "\<not> snd (patch_array patch_forward_inbound ''inbounds'' ?c2)"
      using patch_array_fix [of patch_forward_inbound "''inbounds''" c]
      by (simp add: patch_array_commute patch_forward_inbound_fix)
    then show ?thesis
      using patch_array_unchanged [of patch_forward_inbound] patch_unchanged(1) by (simp add: prod_eq_iff)
  qed
  have out2: "patch_array patch_forward_outbound ''outbounds'' ?c2 = (?c2, False)"
    by (rule patch_array_fix) (rule patch_forward_outbound_fix)
  have 1: "patch_forwards ?c2 = (?c2, False)"
    using in2 out2 by (simp add: patch_forwards_def)
  have 2: "\<not> snd (patch_forwards c) \<Longrightarrow> ?c2 = c"
    using patch_array_unchanged [OF patch_unchanged(1), of "''inbounds''" c]
      patch_array_unchanged [OF patch_unchanged(2), of "''outbounds''" ?c1] c2(2)
    by auto
  have 3: "\<not> snd (patch_forward_inbound x)" if "x \<in> set (get_list ?c2 ''inbounds'')" for x
    using that arg_cong [OF in2, of snd]
    by (cases "get_arr ?c2 ''inbounds''") (auto simp: patch_array_def get_list_def list_ex_iff)
  have 4: "\<not> snd (patch_forward_outbound x)" if "x \<in> set (get_list ?c2 ''outbounds'')" for x
    using that arg_cong [OF out2, of snd]
    by (cases "get_arr ?c2 ''outbounds''") (auto simp: patch_array_def get_list_def list_ex_iff)
  have 5: "str_contains (get_str s ''network'') ''udp''"
    if "JObj ib \<in> set (get_list ?c2 ''inbounds'')" "get_str ib ''protocol'' \<in> {''tunnel'', ''dokodemo-door''}"
      "get_str ib ''tag'' \<notin> {''api'', ''tunnel-in''}" "get_obj ib ''settings'' = Some s" for ib s
    using 3 [OF that(1)] that(2-) by (auto simp: patch_forward_inbound_def split: if_splits)
  have 6: "\<not> has_prefix (get_str s ''domainStrategy'') ''UseIP''"
    if "JObj ob \<in> set (get_list ?c2 ''outbounds'')" "get_str ob ''protocol'' = ''freedom''"
      "has_prefix (get_str ob ''tag'') ''tunnel-''" "get_obj ob ''settings'' = Some s" for ob s
    using 4 [OF that(1)] that(2-)
    by (simp add: patch_forward_outbound_def del: has_prefix_Cons split: if_splits)
  show ?thesis
    unfolding c2(1) Let_def using 1 2 5 6 by blast
qed

lemma patch_forwards_goal_witness:
  "let ib = (\<lambda>n. JObj [(''tag'', JStr ''f''), (''protocol'', JStr ''tunnel''),
                       (''settings'', JObj [(''network'', JStr n)])]);
       c = (\<lambda>n. [(''inbounds'', JArr [ib n])])
   in patch_forwards (c ''tcp'') = (c ''tcp,udp'', True) \<and>
      patch_forwards (c ''tcp,udp'') = (c ''tcp,udp'', False)"
proof -
  let ?c = "\<lambda>n. [(''inbounds'', JArr [JObj [(''tag'', JStr ''f''), (''protocol'', JStr ''tunnel''),
                       (''settings'', JObj [(''network'', JStr n)])]])]"
  have 1: "patch_forwards (?c ''tcp'') = (?c ''tcp,udp'', True)"
    by (simp add: patch_forwards_def patch_array_def patch_forward_inbound_def get_arr_def get_str_def
        get_obj_def)
  with patch_forwards_goal [of "?c ''tcp''"] show ?thesis by (simp add: Let_def)
qed

lemma filter_objs_mem:
  "JObj m \<in> set (filter_objs remove xs) \<longleftrightarrow> JObj m \<in> set xs \<and> \<not> remove m"
  by (simp add: filter_objs_def)

lemma filter_objs_idem: "(\<And>m. JObj m \<in> set xs \<Longrightarrow> \<not> remove m) \<Longrightarrow> filter_objs remove xs = xs"
  by (force simp: filter_objs_def filter_id_conv split: option.splits)

lemma removed_tags_none:
  "(\<And>m. JObj m \<in> set xs \<Longrightarrow> \<not> remove m) \<Longrightarrow> removed_tags remove xs = {}"
  by (force simp: removed_tags_def set_tags_of split: option.splits)


text \<open>On a master that serves HTTPS on 443 the repair removes every inbound on port 443, every
  outbound to nginx, and every routing rule that goes to nginx or names a removed inbound or
  outbound, and nothing else: the survivors keep their order, the other keys are untouched, and a
  second run finds nothing left to remove.\<close>

theorem protect443_exact:
  "let rm_in = (\<lambda>m. json_port m 443); rm_out = (\<lambda>m. get_str m ''tag'' = ''nginx'');
       gone = removed_tags rm_in (get_list c ''inbounds'') \<union> removed_tags rm_out (get_list c ''outbounds'');
       c' = protect443 c
   in get_list c' ''inbounds'' = filter_objs rm_in (get_list c ''inbounds'') \<and>
      get_list c' ''outbounds'' = filter_objs rm_out (get_list c ''outbounds'') \<and>
      (case get_obj c ''routing'' of
         None \<Rightarrow> map_of c' ''routing'' = map_of c ''routing''
       | Some r \<Rightarrow> \<exists>r'. get_obj c' ''routing'' = Some r' \<and>
           get_list r' ''rules'' = filter_objs (rule_hits gone) (get_list r ''rules'') \<and>
           (\<forall>k. k \<noteq> ''rules'' \<longrightarrow> map_of r' k = map_of r k)) \<and>
      (\<forall>k. k \<notin> {''inbounds'', ''outbounds'', ''routing''} \<longrightarrow> map_of c' k = map_of c k) \<and>
      protect443 c' = c'"
proof -
  let ?in = "\<lambda>m. json_port m 443" let ?out = "\<lambda>m. get_str m ''tag'' = ''nginx''"
  let ?c' = "protect443 c"
  let ?gone = "removed_tags ?in (get_list c ''inbounds'') \<union> removed_tags ?out (get_list c ''outbounds'')"
  have i: "map_of ?c' ''inbounds'' = Some (JArr (filter_objs ?in (get_list c ''inbounds'')))"
    and o: "map_of ?c' ''outbounds'' = Some (JArr (filter_objs ?out (get_list c ''outbounds'')))"
    by (simp_all add: protect443_def Let_def split: option.splits)
  then have il: "get_list ?c' ''inbounds'' = filter_objs ?in (get_list c ''inbounds'')"
    and ol: "get_list ?c' ''outbounds'' = filter_objs ?out (get_list c ''outbounds'')"
    by (simp_all add: get_list_def get_arr_def)
  have gone': "removed_tags ?in (get_list ?c' ''inbounds'') = {}"
    "removed_tags ?out (get_list ?c' ''outbounds'') = {}"
    unfolding il ol by (auto intro!: removed_tags_none simp: filter_objs_mem)
  have same: "filter_objs ?in (get_list ?c' ''inbounds'') = get_list ?c' ''inbounds''"
    "filter_objs ?out (get_list ?c' ''outbounds'') = get_list ?c' ''outbounds''"
    unfolding il ol by (auto intro!: filter_objs_idem simp: filter_objs_mem)
  have r: "case get_obj c ''routing'' of
         None \<Rightarrow> map_of ?c' ''routing'' = map_of c ''routing''
       | Some r \<Rightarrow> map_of ?c' ''routing'' = Some (JObj (jset ''rules''
             (JArr (filter_objs (rule_hits ?gone) (get_list r ''rules''))) r))"
    by (simp add: protect443_def Let_def split: option.splits)
  have fix_rules: "filter_objs (rule_hits {}) (filter_objs (rule_hits G) xs) = filter_objs (rule_hits G) xs" for G xs
    by (rule filter_objs_idem) (auto simp: filter_objs_mem rule_hits_def)
  have ij: "jset ''inbounds'' (JArr (get_list ?c' ''inbounds'')) ?c' = ?c'"
    "jset ''outbounds'' (JArr (get_list ?c' ''outbounds'')) ?c' = ?c'"
    by (rule jset_same, simp add: i il) (rule jset_same, simp add: o ol)
  have "protect443 ?c' = ?c'"
  proof (cases "get_obj c ''routing''")
    case None
    with r have "get_obj ?c' ''routing'' = None" by (simp add: get_obj_def)
    then show ?thesis
      by (simp add: protect443_def [of ?c'] Let_def same ij)
  next
    case (Some rt)
    let ?rt = "jset ''rules'' (JArr (filter_objs (rule_hits ?gone) (get_list rt ''rules''))) rt"
    from Some r have m: "map_of ?c' ''routing'' = Some (JObj ?rt)" by simp
    then have "get_obj ?c' ''routing'' = Some ?rt" by (simp add: get_obj_Some)
    then show ?thesis
      using m by (simp add: protect443_def [of ?c'] Let_def same ij gone' fix_rules)
  qed
  moreover have "\<forall>k. k \<notin> {''inbounds'', ''outbounds'', ''routing''} \<longrightarrow> map_of ?c' k = map_of c k"
    by (simp add: protect443_def Let_def split: option.splits)
  moreover have "case get_obj c ''routing'' of
         None \<Rightarrow> map_of ?c' ''routing'' = map_of c ''routing''
       | Some r \<Rightarrow> \<exists>r'. get_obj ?c' ''routing'' = Some r' \<and>
           get_list r' ''rules'' = filter_objs (rule_hits ?gone) (get_list r ''rules'') \<and>
           (\<forall>k. k \<noteq> ''rules'' \<longrightarrow> map_of r' k = map_of r k)"
    using r by (cases "get_obj c ''routing''") (simp_all add: get_obj_Some [of ?c'])
  ultimately show ?thesis
    unfolding Let_def using il ol by blast
qed

lemma protect443_exact_witness:
  "let web = JObj [(''tag'', JStr ''web''), (''port'', JNum 443 0)];
       c = [(''inbounds'', JArr [web]), (''dns'', JNull)]
   in get_list (protect443 c) ''inbounds'' = [] \<and> map_of (protect443 c) ''dns'' = Some JNull \<and>
      protect443 (protect443 c) = protect443 c"
proof -
  let ?c = "[(''inbounds'', JArr [JObj [(''tag'', JStr ''web''), (''port'', JNum 443 0)]]), (''dns'', JNull)]"
  have "filter_objs (\<lambda>m. json_port m 443) (get_list ?c ''inbounds'') = []"
    by (simp add: filter_objs_def json_port_def num_is_int_def get_list_def get_arr_def)
  with protect443_exact [of ?c] show ?thesis by (auto simp: Let_def)
qed

end
