(* ===== verification/Tag_Index.thy ===== *)
theory Tag_Index
  imports Json
begin

text \<open>
  Positions of tagged elements: several routines of the agent walk an array and remember, for each
  tag, the place of the element that holds it. This theory states when such an index is right and
  that appending or replacing an element keeps it right.
\<close>

text \<open>The index is right: it sends exactly the tags present to a position that holds them.\<close>

definition index_ok :: "json list \<Rightarrow> (string \<rightharpoonup> nat) \<Rightarrow> bool" where
  "index_ok base idx \<longleftrightarrow>
     (\<forall>t i. idx t = Some i \<longrightarrow> t \<noteq> [] \<and> i < length base \<and> tag_of (base ! i) = t) \<and>
     dom idx = set (tags_of base)"

lemma index_okD:
  "index_ok base idx \<Longrightarrow> idx t = Some i \<Longrightarrow> t \<noteq> [] \<and> i < length base \<and> tag_of (base ! i) = t"
  by (simp add: index_ok_def)

lemma index_okI:
  "(\<And>t i. idx t = Some i \<Longrightarrow> t \<noteq> [] \<and> i < length base \<and> tag_of (base ! i) = t) \<Longrightarrow>
   dom idx = set (tags_of base) \<Longrightarrow> index_ok base idx"
  by (simp add: index_ok_def)

lemma index_ok_dom: "index_ok base idx \<Longrightarrow> dom idx = set (tags_of base)"
  by (simp add: index_ok_def)

lemma index_ok_append_untagged:
  "index_ok base idx \<Longrightarrow> tag_of e = [] \<Longrightarrow> index_ok (base @ [e]) idx"
  by (rule index_okI) (auto simp: nth_append index_ok_dom dest: index_okD)

lemma index_ok_append:
  "index_ok base idx \<Longrightarrow> tag_of e \<noteq> [] \<Longrightarrow> index_ok (base @ [e]) (idx(tag_of e \<mapsto> length base))"
  by (rule index_okI) (auto simp: nth_append index_ok_dom split: if_splits dest: index_okD)

lemma tags_of_update_same:
  "i < length base \<Longrightarrow> tag_of (base ! i) = tag_of e \<Longrightarrow> tags_of (base[i := e]) = tags_of base"
  by (intro tags_of_cong) (simp add: map_update list_update_same_conv)

lemma index_ok_update:
  assumes "index_ok base idx" and "idx (tag_of e) = Some i"
  shows "index_ok (base[i := e]) idx"
proof (rule index_okI)
  from index_okD [OF assms] have i: "i < length base" "tag_of (base ! i) = tag_of e" by auto
  then show "dom idx = set (tags_of (base[i := e]))"
    using assms by (simp add: tags_of_update_same index_ok_dom)
  fix t j
  assume "idx t = Some j"
  from index_okD [OF assms(1) this] i
  show "t \<noteq> [] \<and> j < length (base[i := e]) \<and> tag_of (base[i := e] ! j) = t"
    by (auto simp: nth_list_update)
qed

lemma unique_tags_update:
  "unique_tags base \<Longrightarrow> i < length base \<Longrightarrow> tag_of (base ! i) = tag_of e \<Longrightarrow> unique_tags (base[i := e])"
  by (simp add: unique_tags_def tags_of_update_same)

lemma set_update_other:
  assumes "i < length xs" and "x \<in> set xs" and "x \<noteq> xs ! i"
  shows "x \<in> set (xs[i := e])"
  using assms by (metis in_set_conv_nth length_list_update nth_list_update_neq)

lemma unique_tags_nth:
  "unique_tags xs \<Longrightarrow> i < length xs \<Longrightarrow> x \<in> set xs \<Longrightarrow> tag_of x = tag_of (xs ! i) \<Longrightarrow>
   tag_of x \<noteq> [] \<Longrightarrow> xs ! i = x"
proof (induction xs arbitrary: i)
  case (Cons y ys)
  then show ?case
    by (cases i) (auto simp: unique_tags_def set_tags_of image_iff split: if_splits)
qed simp

lemma unique_tags_index:
  "unique_tags xs \<Longrightarrow> i < length xs \<Longrightarrow> j < length xs \<Longrightarrow> tag_of (xs ! i) = t \<Longrightarrow> tag_of (xs ! j) = t \<Longrightarrow>
   t \<noteq> [] \<Longrightarrow> i = j"
proof (induction xs arbitrary: i j)
  case (Cons y ys)
  have u: "unique_tags ys" and y: "tag_of y = t \<Longrightarrow> t \<notin> tag_of ` set ys"
    using Cons.prems by (auto simp: unique_tags_def set_tags_of split: if_splits)
  have at: "k < length ys \<Longrightarrow> tag_of (ys ! k) \<in> tag_of ` set ys" for k by simp
  show ?case
  proof (cases i)
    case i: 0
    show ?thesis
    proof (cases j)
      case (Suc j')
      with Cons.prems i y at [of j'] show ?thesis by auto
    qed (simp add: i)
  next
    case (Suc i')
    show ?thesis
    proof (cases j)
      case 0
      with Cons.prems Suc y at [of i'] show ?thesis by auto
    next
      case (Suc j')
      with Cons.IH [OF u, of i' j'] Cons.prems \<open>i = Suc i'\<close> show ?thesis by simp
    qed
  qed
qed simp

end
