(* ===== verification/Confdir_Merge.thy ===== *)
theory Confdir_Merge
  imports Xray_Merge Tag_Index
begin

text \<open>
  The merge of a configuration directory into one file (\<open>internal/handler/external_xray.go\<close>) and
  the one that reads a directory (\<open>internal/xrayconf/merge.go\<close>).
\<close>

section \<open>The merge of a configuration directory\<close>

definition tag_index :: "json list \<Rightarrow> string \<rightharpoonup> nat" where
  "tag_index base =
     fold (\<lambda>(i, e) idx. if tag_of e \<noteq> [] then idx(tag_of e \<mapsto> i) else idx)
       (enumerate 0 base) Map.empty"

fun overlay_tagged :: "json list \<Rightarrow> json list \<Rightarrow> (string \<rightharpoonup> nat) \<Rightarrow> json list" where
  "overlay_tagged [] base tagIdx = base"
| "overlay_tagged (e # es) base tagIdx =
     (if as_obj e = None then overlay_tagged es (base @ [e]) tagIdx
      else if tag_of e = [] then overlay_tagged es (base @ [e]) tagIdx
      else
        (case tagIdx (tag_of e) of
           Some i \<Rightarrow> overlay_tagged es (base[i := e]) tagIdx
         | None \<Rightarrow> overlay_tagged es (base @ [e]) (tagIdx(tag_of e \<mapsto> length base))))"

definition handler_mergeTaggedArray :: "json list \<Rightarrow> json list \<Rightarrow> json list" where
  "handler_mergeTaggedArray base overlay = overlay_tagged overlay base (tag_index base)"

function handler_mergeXrayConfig :: "obj \<Rightarrow> obj \<Rightarrow> obj" where
  "handler_mergeXrayConfig base [] = base"
| "handler_mergeXrayConfig base ((k, v) # overlay) =
     handler_mergeXrayConfig
       (case map_of base k of
          None \<Rightarrow> jset k v base
        | Some existing \<Rightarrow>
            (case (existing, v) of
               (JArr ea, JArr va) \<Rightarrow>
                 if k = ''inbounds'' \<or> k = ''outbounds''
                 then jset k (JArr (handler_mergeTaggedArray ea va)) base
                 else jset k (JArr (ea @ va)) base
             | (JObj em, JObj vm) \<Rightarrow> jset k (JObj (handler_mergeXrayConfig em vm)) base
             | _ \<Rightarrow> jset k v base))
       overlay"
  by pat_completeness auto
termination
  by (relation "measure (\<lambda>(b, ov). size (JObj ov))") auto

definition is_json_name :: "string \<Rightarrow> bool" where
  "is_json_name n = has_suffix (to_lower n) ''.json''"

text \<open>One file of the directory: a file that cannot be read or parsed is skipped.\<close>

fun merge_confdir_files ::
  "(string \<Rightarrow> obj option) \<Rightarrow> string \<Rightarrow> string list \<Rightarrow> obj \<Rightarrow> nat \<Rightarrow> world \<Rightarrow> obj \<times> nat \<times> world" where
  "merge_confdir_files dec dir [] base n w = (base, n, w)"
| "merge_confdir_files dec dir (name # names) base n w =
     (case read_file (path_join dir name) w of
        (Inl _, w1) \<Rightarrow> merge_confdir_files dec dir names base n w1
      | (Inr raw, w1) \<Rightarrow>
          (case dec raw of
             None \<Rightarrow> merge_confdir_files dec dir names base n w1
           | Some overlay \<Rightarrow>
               merge_confdir_files dec dir names (handler_mergeXrayConfig base overlay) (n + 1) w1))"

fun move_files :: "string \<Rightarrow> string \<Rightarrow> string list \<Rightarrow> world \<Rightarrow> world" where
  "move_files src dst [] w = w"
| "move_files src dst (name # names) w =
     move_files src dst names (snd (rename_file (path_join src name) (path_join dst name) w))"

definition MergeXrayConfdirInto ::
  "(string \<Rightarrow> obj option) \<Rightarrow> (obj \<Rightarrow> string) \<Rightarrow> string \<Rightarrow>
   string \<Rightarrow> string \<Rightarrow> string \<Rightarrow> world \<Rightarrow> (string + nat \<times> string) \<times> world" where
  "MergeXrayConfdirInto dec enc ts configPath confDir targetPath w =
     (case read_file configPath w of
        (Inl _, w1) \<Rightarrow> (Inl ''read config'', w1)
      | (Inr baseRaw, w1) \<Rightarrow>
          (case dec baseRaw of
             None \<Rightarrow> (Inl ''parse config'', w1)
           | Some base0 \<Rightarrow>
               (case
                  (if confDir = [] then (base0, 0, [], w1)
                   else
                     (case sys_call w1 of
                        (Some _, w2) \<Rightarrow> (base0, 0, [], w2)
                      | (None, w2) \<Rightarrow>
                          let jsonFiles = sort (filter is_json_name (dir_files w2 confDir))
                          in (case merge_confdir_files dec confDir jsonFiles base0 0 w2 of
                                (base, n, w3) \<Rightarrow>
                                  if 0 < n
                                  then
                                    (let backupDir = path_join confDir (''.mmwx-bak-'' @ ts)
                                     in (case sys_call w3 of
                                           (Some _, w4) \<Rightarrow> (base, n, backupDir, w4)
                                         | (None, w4) \<Rightarrow>
                                             (base, n, backupDir,
                                              move_files confDir backupDir jsonFiles w4)))
                                  else (base, n, [], w3)))) of
                  (base, n, backupDir, w5) \<Rightarrow>
                    (case sys_call w5 of
                       (Some _, w6) \<Rightarrow> (Inl ''create target directory'', w6)
                     | (None, w6) \<Rightarrow>
                         (case write_file targetPath (enc base) w6 of
                            (Some _, w7) \<Rightarrow> (Inl ''write merged config'', w7)
                          | (None, w7) \<Rightarrow> (Inr (n, backupDir), w7))))))"

section \<open>Reading a configuration directory\<close>

definition arrayFields :: "string \<Rightarrow> bool" where
  "arrayFields k \<longleftrightarrow> k = ''inbounds'' \<or> k = ''outbounds''"

definition xrayconf_mergeRouting :: "json \<Rightarrow> json \<Rightarrow> json" where
  "xrayconf_mergeRouting existing incoming =
     (case as_obj incoming of
        None \<Rightarrow> existing
      | Some incomMap \<Rightarrow>
          (case as_obj existing of
             None \<Rightarrow> incoming
           | Some existMap \<Rightarrow>
               let existRules = get_list existMap ''rules'';
                   incomRules = get_list incomMap ''rules'';
                   m = fold (\<lambda>(k, v) m. if k = ''rules'' then m else jset k v m) incomMap existMap
               in JObj (if incomRules \<noteq> [] then jset ''rules'' (JArr (existRules @ incomRules)) m else m)))"

definition merge_entry :: "string \<times> json \<Rightarrow> obj \<Rightarrow> obj" where
  "merge_entry kv result =
     (case kv of (k, v) \<Rightarrow>
        if arrayFields k then
          (case as_arr v of
             None \<Rightarrow> result
           | Some arr \<Rightarrow> jset k (JArr (get_list result k @ arr)) result)
        else if k = ''routing'' then jset k (xrayconf_mergeRouting (json_at result k) v) result
        else jset k v result)"

definition xrayconf_Merge :: "obj list \<Rightarrow> obj" where
  "xrayconf_Merge configs =
     (if length configs = 1 then hd configs
      else fold (\<lambda>cfg result. fold merge_entry cfg result) configs [])"

definition readJSONFile ::
  "(string \<Rightarrow> obj option) \<Rightarrow> string \<Rightarrow> world \<Rightarrow> obj option \<times> world" where
  "readJSONFile dec path w =
     (case read_file path w of
        (Inl _, w1) \<Rightarrow> (None, w1)
      | (Inr data, w1) \<Rightarrow> (dec data, w1))"

fun read_json_files ::
  "(string \<Rightarrow> obj option) \<Rightarrow> string list \<Rightarrow> world \<Rightarrow> obj list \<times> world" where
  "read_json_files dec [] w = ([], w)"
| "read_json_files dec (f # fs) w =
     (case readJSONFile dec f w of
        (m, w1) \<Rightarrow>
          (case read_json_files dec fs w1 of
             (ms, w2) \<Rightarrow> (case m of None \<Rightarrow> (ms, w2) | Some x \<Rightarrow> (x # ms, w2))))"

definition confdir_configs ::
  "(string \<Rightarrow> obj option) \<Rightarrow> string \<Rightarrow> string \<Rightarrow> obj list \<Rightarrow> world \<Rightarrow> (string + obj) \<times> world" where
  "confdir_configs dec configPath confDir configs w =
     (if confDir = [] then
        (if configs = [] then (Inl ''no xray config found'', w) else (Inr (xrayconf_Merge configs), w))
      else
        (case sys_call w of
           (Some _, w1) \<Rightarrow>
             if configPath = [] then (Inl ''read confdir'', w1)
             else if configs = [] then (Inl ''no xray config found'', w1)
             else (Inr (xrayconf_Merge configs), w1)
         | (None, w1) \<Rightarrow>
             let jsonFiles = sort (List.map (path_join confDir)
                   (filter (\<lambda>n. has_suffix n ''.json'') (dir_files w1 confDir)))
             in (case read_json_files dec jsonFiles w1 of
                   (ms, w2) \<Rightarrow>
                     if configs @ ms = [] then (Inl ''no xray config found'', w2)
                     else (Inr (xrayconf_Merge (configs @ ms)), w2))))"

definition ReadConfig ::
  "(string \<Rightarrow> obj option) \<Rightarrow> string \<Rightarrow> string \<Rightarrow> world \<Rightarrow> (string + obj) \<times> world" where
  "ReadConfig dec configPath confDir w =
     (if configPath = [] then confdir_configs dec configPath confDir [] w
      else
        (case readJSONFile dec configPath w of
           (None, w1) \<Rightarrow> (Inl ''read config'', w1)
         | (Some m, w1) \<Rightarrow> confdir_configs dec configPath confDir [m] w1))"

definition WriteAPIConfig ::
  "(string \<Rightarrow> obj option) \<Rightarrow> (obj \<Rightarrow> string) \<Rightarrow> string \<Rightarrow> string \<Rightarrow> obj \<Rightarrow> world \<Rightarrow> bool \<times> world" where
  "WriteAPIConfig dec enc configPath confDir sections w =
     (if confDir \<noteq> [] then
        (case write_file (path_join confDir ''99-mmwx-api.json'') (enc sections) w of
           (e, w1) \<Rightarrow> (e = None, w1))
      else
        (case read_file configPath w of
           (Inl _, w1) \<Rightarrow> (False, w1)
         | (Inr content, w1) \<Rightarrow>
             (case write_file (configPath @ ''.backup'') content w1 of
                (_, w2) \<Rightarrow>
                  (case dec content of
                     None \<Rightarrow> (False, w2)
                   | Some config \<Rightarrow>
                       (case write_file configPath (enc (fold merge_entry sections config)) w2 of
                          (e, w3) \<Rightarrow> (e = None, w3))))))"

section \<open>The tagged overlay\<close>

lemma tag_index_ok: "index_ok base (tag_index base)"
proof (induction base rule: rev_induct)
  case Nil
  then show ?case by (simp add: tag_index_def index_ok_def)
next
  case (snoc e base)
  have "tag_index (base @ [e]) =
        (if tag_of e \<noteq> [] then (tag_index base)(tag_of e \<mapsto> length base) else tag_index base)"
    by (simp add: tag_index_def enumerate_append_eq)
  then show ?case
    using snoc index_ok_append index_ok_append_untagged by auto
qed

lemma overlay_step_cases:
  assumes "index_ok base idx"
  obtains (append) "tag_of e = []" "overlay_tagged (e # es) base idx = overlay_tagged es (base @ [e]) idx"
      "index_ok (base @ [e]) idx"
  | (replace) i where "tag_of e \<noteq> []" "idx (tag_of e) = Some i" "i < length base" "tag_of (base ! i) = tag_of e"
      "overlay_tagged (e # es) base idx = overlay_tagged es (base[i := e]) idx"
      "index_ok (base[i := e]) idx"
  | (new) "tag_of e \<noteq> []" "tag_of e \<notin> set (tags_of base)"
      "overlay_tagged (e # es) base idx = overlay_tagged es (base @ [e]) (idx(tag_of e \<mapsto> length base))"
      "index_ok (base @ [e]) (idx(tag_of e \<mapsto> length base))"
proof (cases "tag_of e = []")
  case True
  with assms show ?thesis by (intro append) (simp_all add: index_ok_append_untagged)
next
  case False
  then obtain m where obj: "e = JObj m" by (auto simp: tag_of_def split: option.splits)
  show ?thesis
  proof (cases "idx (tag_of e)")
    case None
    with assms have "tag_of e \<notin> set (tags_of base)" by (auto simp: index_ok_def)
    with False obj None assms show ?thesis
      by (intro new) (simp_all add: index_ok_append del: tag_of_JObj)
  next
    case (Some i)
    with assms have "i < length base" "tag_of (base ! i) = tag_of e" by (auto simp: index_ok_def)
    with Some False obj assms index_ok_update [of base idx e i] show ?thesis
      by (intro replace) (simp_all del: tag_of_JObj)
  qed
qed

declare overlay_tagged.simps(2) [simp del]

lemma overlay_unique [keeps_tags]:
  "index_ok base idx \<Longrightarrow> unique_tags base \<Longrightarrow> unique_tags (overlay_tagged es base idx)"
proof (induction es arbitrary: base idx)
  case (Cons e es)
  from Cons.prems(1) show ?case
  proof (cases rule: overlay_step_cases [where e = e and es = es])
    case append
    with Cons show ?thesis by (simp add: unique_tags_snoc)
  next
    case (replace i)
    with Cons show ?thesis by (simp add: unique_tags_update)
  next
    case new
    with Cons.IH [OF new(4)] Cons.prems show ?thesis
      by (simp add: unique_tags_snoc set_tags_of del: fun_upd_apply)
  qed
qed simp

lemma overlay_keeps_tag:
  "index_ok base idx \<Longrightarrow> tg \<noteq> [] \<Longrightarrow> tg \<notin> set (tags_of es) \<Longrightarrow>
   filter (\<lambda>x. tag_of x = tg) (overlay_tagged es base idx) = filter (\<lambda>x. tag_of x = tg) base"
proof (induction es arbitrary: base idx)
  case (Cons e es)
  have ne: "tag_of e \<noteq> tg" using Cons.prems by (auto split: if_splits)
  from Cons.prems(1) show ?case
  proof (cases rule: overlay_step_cases [where e = e and es = es])
    case append
    with Cons ne show ?thesis by (simp split: if_splits)
  next
    case (replace i)
    then have "filter (\<lambda>x. tag_of x = tg) (base[i := e]) = filter (\<lambda>x. tag_of x = tg) base"
      using ne by (simp add: upd_conv_take_nth_drop id_take_nth_drop [of i base, symmetric])
        (subst (3) id_take_nth_drop [of i base], simp_all)
    with replace Cons show ?thesis by (simp split: if_splits)
  next
    case new
    with Cons.IH [OF new(4)] Cons.prems ne show ?thesis by (simp del: fun_upd_apply split: if_splits)
  qed
qed simp

lemma overlay_mem:
  "index_ok base idx \<Longrightarrow> x \<in> set base \<Longrightarrow> tag_of x = [] \<or> tag_of x \<notin> set (tags_of es) \<Longrightarrow>
   x \<in> set (overlay_tagged es base idx)"
proof (induction es arbitrary: base idx)
  case (Cons e es)
  from Cons.prems(1) show ?case
  proof (cases rule: overlay_step_cases [where e = e and es = es])
    case append
    with Cons show ?thesis by (simp split: if_splits)
  next
    case (replace i)
    then have "x \<in> set (base[i := e])"
      using Cons.prems set_update_other [of i base x e] by (cases "x = base ! i") (auto split: if_splits)
    with replace Cons.IH [of "base[i := e]" idx] Cons.prems show ?thesis
      by (auto split: if_splits)
  next
    case new
    with Cons.IH [OF new(4)] Cons.prems show ?thesis by (auto simp del: fun_upd_apply split: if_splits)
  qed
qed simp

lemma overlay_has_all:
  "index_ok base idx \<Longrightarrow> unique_tags es \<Longrightarrow> set es \<subseteq> set (overlay_tagged es base idx)"
proof (induction es arbitrary: base idx)
  case (Cons e es)
  have u: "unique_tags es" and fresh: "tag_of e = [] \<or> tag_of e \<notin> set (tags_of es)"
    using Cons.prems by (auto simp: unique_tags_def split: if_splits)
  from Cons.prems(1) show ?case
  proof (cases rule: overlay_step_cases [where e = e and es = es])
    case append
    with Cons.IH [of "base @ [e]" idx] u fresh overlay_mem [of "base @ [e]" idx e es] show ?thesis by simp
  next
    case (replace i)
    moreover have "e \<in> set (base[i := e])" using replace by (simp add: set_update_memI)
    ultimately show ?thesis
      using Cons.IH [of "base[i := e]" idx] u fresh overlay_mem [of "base[i := e]" idx e es] by simp
  next
    case new
    with Cons.IH [of "base @ [e]"] u fresh overlay_mem [of "base @ [e]" _ e es] show ?thesis by simp
  qed
qed simp

lemma overlay_present:
  assumes "index_ok base idx" and "unique_tags base" and "set es \<subseteq> set base" and "\<forall>e\<in>set es. tag_of e \<noteq> []"
  shows "overlay_tagged es base idx = base"
  using assms
proof (induction es)
  case (Cons e es)
  from Cons.prems(1) show ?case
  proof (cases rule: overlay_step_cases [where e = e and es = es])
    case append
    with Cons show ?thesis by simp
  next
    case (replace i)
    then have "base ! i = e" using Cons.prems by (intro unique_tags_nth) simp_all
    then have "base[i := e] = base" by (metis list_update_id)
    with replace Cons show ?thesis by simp
  next
    case new
    with Cons show ?thesis by (auto simp: set_tags_of)
  qed
qed simp

text \<open>Merging a directory file's inbounds (or outbounds) over those of the main file: unique tags
  stay unique, every element of the overlay is in the result, a tag the overlay does not name keeps
  its elements, and merging the same overlay again changes nothing. The overlay's own tags are
  taken to be present and pairwise different.\<close>

theorem handler_mergeTaggedArray_overlay:
  assumes "unique_tags base" and "unique_tags ov" and "\<forall>e\<in>set ov. tag_of e \<noteq> []"
  shows "unique_tags (handler_mergeTaggedArray base ov) \<and>
         set ov \<subseteq> set (handler_mergeTaggedArray base ov) \<and>
         (\<forall>tg. tg \<noteq> [] \<and> tg \<notin> set (tags_of ov) \<longrightarrow>
            filter (\<lambda>x. tag_of x = tg) (handler_mergeTaggedArray base ov) =
            filter (\<lambda>x. tag_of x = tg) base) \<and>
         handler_mergeTaggedArray (handler_mergeTaggedArray base ov) ov = handler_mergeTaggedArray base ov"
proof (intro conjI)
  show u: "unique_tags (handler_mergeTaggedArray base ov)"
    using assms by (simp add: handler_mergeTaggedArray_def keeps_tags tag_index_ok)
  show all: "set ov \<subseteq> set (handler_mergeTaggedArray base ov)"
    using assms by (simp add: handler_mergeTaggedArray_def overlay_has_all tag_index_ok)
  show "\<forall>tg. tg \<noteq> [] \<and> tg \<notin> set (tags_of ov) \<longrightarrow>
          filter (\<lambda>x. tag_of x = tg) (handler_mergeTaggedArray base ov) = filter (\<lambda>x. tag_of x = tg) base"
    by (simp add: handler_mergeTaggedArray_def overlay_keeps_tag tag_index_ok)
  show "handler_mergeTaggedArray (handler_mergeTaggedArray base ov) ov = handler_mergeTaggedArray base ov"
    using u all assms overlay_present [OF tag_index_ok]
    by (simp add: handler_mergeTaggedArray_def [of "handler_mergeTaggedArray base ov"])
qed

lemma handler_mergeTaggedArray_overlay_witness:
  "let base = [JObj [(''tag'', JStr ''a'')], JObj [(''tag'', JStr ''b'')]];
       ov = [JObj [(''tag'', JStr ''b''), (''port'', JNum 1 0)], JObj [(''tag'', JStr ''c'')]]
   in unique_tags (handler_mergeTaggedArray base ov) \<and> length (handler_mergeTaggedArray base ov) = 3 \<and>
      handler_mergeTaggedArray (handler_mergeTaggedArray base ov) ov = handler_mergeTaggedArray base ov"
  using handler_mergeTaggedArray_overlay [of
      "[JObj [(''tag'', JStr ''a'')], JObj [(''tag'', JStr ''b'')]]"
      "[JObj [(''tag'', JStr ''b''), (''port'', JNum 1 0)], JObj [(''tag'', JStr ''c'')]]"]
  by (simp add: Let_def get_str_def unique_tags_def handler_mergeTaggedArray_def tag_index_def
      overlay_tagged.simps(2))

section \<open>Reading a directory: concatenation and last wins\<close>

lemma merge_entry_other: "k' \<noteq> k \<Longrightarrow> map_of (merge_entry (k, v) r) k' = map_of r k'"
  by (auto simp: merge_entry_def split: option.splits)

lemma merge_entry_list:
  "arrayFields k \<Longrightarrow> get_list (merge_entry (k', v) r) k = get_list r k @ (if k' = k then arr_of v else [])"
  by (auto simp: merge_entry_def arr_of_def arrayFields_def get_list_def split: option.splits if_splits)

lemma fold_merge_list:
  "arrayFields k \<Longrightarrow> distinct (List.map fst m) \<Longrightarrow>
   get_list (fold merge_entry m r) k = get_list r k @ get_list m k"
proof (induction m arbitrary: r)
  case Nil
  then show ?case by (simp add: get_list_def get_arr_def)
next
  case (Cons kv m)
  obtain k' v where kv: "kv = (k', v)" by (cases kv)
  have "get_list m k = []" if "k' = k"
    using Cons.prems kv that by (auto simp: get_list_def get_arr_def map_of_eq_None_iff [THEN iffD2])
  moreover have "get_list ((k', v) # m) k = (if k' = k then arr_of v else get_list m k)"
    by (auto simp: get_list_def get_arr_def arr_of_def)
  ultimately show ?case
    using Cons kv by (simp add: merge_entry_list)
qed

lemma mergeRouting_rules:
  "arr_of (json_at (case as_obj (xrayconf_mergeRouting e i) of Some m \<Rightarrow> m | None \<Rightarrow> []) ''rules'') =
   (case as_obj e of Some m \<Rightarrow> get_list m ''rules'' | None \<Rightarrow> []) @
   (case as_obj i of Some m \<Rightarrow> get_list m ''rules'' | None \<Rightarrow> [])"
proof (cases "as_obj i")
  case None
  then show ?thesis by (cases "as_obj e") (simp_all add: xrayconf_mergeRouting_def get_list_def [of "[]"] get_arr_def [of "[]"])
next
  case (Some im)
  have keep: "get_list (fold (\<lambda>(k, v) m. if k = ''rules'' then m else jset k v m) im em) ''rules'' =
              get_list em ''rules''" for em
    by (induction im arbitrary: em) auto
  with Some show ?thesis
    by (cases "as_obj e") (auto simp: xrayconf_mergeRouting_def Let_def get_list_def [of "[]"] get_arr_def [of "[]"])
qed

lemma rules_of_eq:
  "rules_of m = (case as_obj (json_at m ''routing'') of Some r \<Rightarrow> get_list r ''rules'' | None \<Rightarrow> [])"
  by (cases "map_of m ''routing''") (auto simp: rules_of_def get_obj_def json_at_def)

lemma merge_entry_rules:
  "rules_of (merge_entry (k, v) r) =
   rules_of r @ (if k = ''routing'' then (case as_obj v of Some m \<Rightarrow> get_list m ''rules'' | None \<Rightarrow> []) else [])"
proof (cases "k = ''routing''")
  case True
  then have "json_at (merge_entry (k, v) r) ''routing'' = xrayconf_mergeRouting (json_at r ''routing'') v"
    by (simp add: merge_entry_def arrayFields_def json_at_def)
  with True show ?thesis
    using mergeRouting_rules [of "json_at r ''routing''" v]
    by (simp add: rules_of_eq option.case_distrib [where h = "\<lambda>m. get_list m ''rules''"]
        get_list_def [of "[]"] get_arr_def [of "[]"] cong: option.case_cong)
next
  case False
  then show ?thesis by (simp add: rules_of_def get_obj_def merge_entry_other)
qed

lemma fold_merge_rules:
  "distinct (List.map fst m) \<Longrightarrow> rules_of (fold merge_entry m r) = rules_of r @ rules_of m"
proof (induction m arbitrary: r)
  case Nil
  then show ?case by (simp add: rules_of_def get_obj_def)
next
  case (Cons kv m)
  obtain k v where kv: "kv = (k, v)" by (cases kv)
  have "rules_of m = []" if "k = ''routing''"
    using Cons.prems kv that by (auto simp: rules_of_def get_obj_def map_of_eq_None_iff [THEN iffD2])
  moreover have "rules_of ((k, v) # m) =
      (if k = ''routing'' then (case as_obj v of Some m \<Rightarrow> get_list m ''rules'' | None \<Rightarrow> []) else rules_of m)"
    by (simp add: rules_of_def get_obj_def)
  ultimately show ?case using Cons kv by (simp add: merge_entry_rules)
qed

lemma fold_merge_other:
  "\<not> arrayFields k \<Longrightarrow> k \<noteq> ''routing'' \<Longrightarrow> distinct (List.map fst m) \<Longrightarrow>
   map_of (fold merge_entry m r) k = (case map_of m k of Some v \<Rightarrow> Some v | None \<Rightarrow> map_of r k)"
proof (induction m arbitrary: r)
  case (Cons kv m)
  obtain k' v where kv: "kv = (k', v)" by (cases kv)
  with Cons.prems have "map_of m k' = None" by (auto simp: map_of_eq_None_iff)
  with Cons kv show ?case
    by (auto simp: merge_entry_other merge_entry_def split: option.splits)
qed simp

text \<open>The last configuration that has a key.\<close>

fun last_value :: "obj list \<Rightarrow> string \<Rightarrow> json option" where
  "last_value [] k = None"
| "last_value (m # ms) k = (case last_value ms k of Some v \<Rightarrow> Some v | None \<Rightarrow> map_of m k)"

text \<open>The routing section, empty when there is none.\<close>

definition obj_or_none :: "json \<Rightarrow> obj" where
  "obj_or_none v = (case as_obj v of Some r \<Rightarrow> r | None \<Rightarrow> [])"

definition routing_of :: "obj \<Rightarrow> obj" where
  "routing_of m = obj_or_none (json_at m ''routing'')"

lemma routing_copy:
  "k \<noteq> ''rules'' \<Longrightarrow> distinct (List.map fst im) \<Longrightarrow>
     map_of (fold (\<lambda>(k, v) m. if k = ''rules'' then m else jset k v m) im em) k =
     (case map_of im k of Some v \<Rightarrow> Some v | None \<Rightarrow> map_of em k)"
proof (induction im arbitrary: em)
  case (Cons kv im)
  obtain k' v where kv: "kv = (k', v)" by (cases kv)
  have "map_of im k' = None" using Cons.prems(2) kv by (auto simp: map_of_eq_None_iff)
  with Cons kv show ?case by (auto split: option.split)
qed simp

lemma mergeRouting_other:
  assumes "k \<noteq> ''rules''" and "distinct (List.map fst (obj_or_none i))"
  shows "map_of (obj_or_none (xrayconf_mergeRouting e i)) k =
    (case map_of (obj_or_none i) k of Some v \<Rightarrow> Some v | None \<Rightarrow> map_of (obj_or_none e) k)"
proof (cases "as_obj i")
  case None
  then show ?thesis by (simp add: xrayconf_mergeRouting_def obj_or_none_def)
next
  case (Some im)
  with assms(2) have "distinct (List.map fst im)" by (simp add: obj_or_none_def)
  note c = routing_copy [OF assms(1) this]
  show ?thesis
    by (cases "as_obj e") (auto simp: xrayconf_mergeRouting_def obj_or_none_def Some Let_def c assms(1) split: option.split)
qed

lemma merge_entry_routing:
  "k \<noteq> ''rules'' \<Longrightarrow> distinct (List.map fst (obj_or_none v)) \<Longrightarrow>
     map_of (routing_of (merge_entry (''routing'', v) r)) k =
     (case map_of (obj_or_none v) k of Some x \<Rightarrow> Some x | None \<Rightarrow> map_of (routing_of r) k)"
  by (simp add: routing_of_def json_at_def merge_entry_def arrayFields_def mergeRouting_other split: option.split)

lemma merge_entry_routing_other: "k' \<noteq> ''routing'' \<Longrightarrow> routing_of (merge_entry (k', v) r) = routing_of r"
  by (simp add: routing_of_def json_at_def merge_entry_other)

definition plain_keys :: "obj \<Rightarrow> bool" where
  "plain_keys m \<longleftrightarrow> distinct (List.map fst m) \<and> distinct (List.map fst (routing_of m))"

lemma fold_merge_routing:
  "k \<noteq> ''rules'' \<Longrightarrow> plain_keys m \<Longrightarrow>
     map_of (routing_of (fold merge_entry m r)) k =
     (case map_of (routing_of m) k of Some v \<Rightarrow> Some v | None \<Rightarrow> map_of (routing_of r) k)"
proof (induction m arbitrary: r)
  case Nil
  then show ?case by (simp add: routing_of_def json_at_def obj_or_none_def)
next
  case (Cons kv m)
  obtain k' v where kv: "kv = (k', v)" by (cases kv)
  have r: "routing_of ((k', v) # m) = (if k' = ''routing'' then obj_or_none v else routing_of m)"
    by (simp add: routing_of_def json_at_def obj_or_none_def)
  show ?case
  proof (cases "k' = ''routing''")
    case True
    have n: "routing_of m = []"
      using Cons.prems(2) kv True
      by (auto simp: plain_keys_def routing_of_def json_at_def obj_or_none_def map_of_eq_None_iff [THEN iffD2])
    then have "plain_keys m" "distinct (List.map fst (obj_or_none v))"
      using Cons.prems(2) kv r True by (simp_all add: plain_keys_def)
    with Cons.IH [OF Cons.prems(1), of "merge_entry (k', v) r"] Cons.prems(1) n True r kv show ?thesis
      by (simp add: merge_entry_routing)
  next
    case False
    then have "plain_keys m" using Cons.prems(2) kv r by (simp add: plain_keys_def)
    with Cons.IH [OF Cons.prems(1), of "merge_entry (k', v) r"] False r kv show ?thesis
      by (simp add: merge_entry_routing_other split: option.split)
  qed
qed

lemma fold_Merge:
  "\<forall>m\<in>set ms. plain_keys m \<Longrightarrow>
   (arrayFields k \<longrightarrow>
      get_list (fold (\<lambda>cfg r. fold merge_entry cfg r) ms r) k =
      get_list r k @ concat (List.map (\<lambda>m. get_list m k) ms)) \<and>
   rules_of (fold (\<lambda>cfg r. fold merge_entry cfg r) ms r) = rules_of r @ concat (List.map rules_of ms) \<and>
   (k \<noteq> ''rules'' \<longrightarrow>
      map_of (routing_of (fold (\<lambda>cfg r. fold merge_entry cfg r) ms r)) k =
      (case last_value (List.map routing_of ms) k of Some v \<Rightarrow> Some v | None \<Rightarrow> map_of (routing_of r) k)) \<and>
   (\<not> arrayFields k \<and> k \<noteq> ''routing'' \<longrightarrow>
      map_of (fold (\<lambda>cfg r. fold merge_entry cfg r) ms r) k =
      (case last_value ms k of Some v \<Rightarrow> Some v | None \<Rightarrow> map_of r k))"
proof (induction ms arbitrary: r)
  case (Cons m ms)
  then have "plain_keys m" and d: "distinct (List.map fst m)" by (simp_all add: plain_keys_def)
  with Cons.IH [of "fold merge_entry m r"] Cons.prems show ?case
    by (simp add: fold_merge_list fold_merge_rules fold_merge_other fold_merge_routing split: option.split)
qed simp

text \<open>C20: The merge of several configuration files, each with every key once: inbounds and outbounds are concatenated in file
  order, so are the routing rules; for every other key of the routing section, and for every other key of the
  configuration, the last file that has it wins.\<close>

theorem xrayconf_Merge_semantics:
  assumes "\<forall>m\<in>set ms. plain_keys m"
  shows "(arrayFields k \<longrightarrow> get_list (xrayconf_Merge ms) k = concat (List.map (\<lambda>m. get_list m k) ms)) \<and>
         rules_of (xrayconf_Merge ms) = concat (List.map rules_of ms) \<and>
         (k \<noteq> ''rules'' \<longrightarrow> map_of (routing_of (xrayconf_Merge ms)) k = last_value (List.map routing_of ms) k) \<and>
         (\<not> arrayFields k \<and> k \<noteq> ''routing'' \<longrightarrow> map_of (xrayconf_Merge ms) k = last_value ms k)"
proof (cases "length ms = 1")
  case True
  then obtain m where "ms = [m]" by (cases ms) auto
  then show ?thesis by (simp add: xrayconf_Merge_def)
next
  case False
  have "get_list [] k = []" "rules_of [] = []" "routing_of [] = []"
    by (simp_all add: get_list_def get_arr_def rules_of_def get_obj_def routing_of_def json_at_def obj_or_none_def)
  with False show ?thesis
    using fold_Merge [OF assms, of k "[]"] by (simp add: xrayconf_Merge_def split: option.splits)
qed

lemma xrayconf_Merge_semantics_witness:
  "let ms = [[(''log'', JStr ''x''), (''inbounds'', JArr [JStr ''a'']),
               (''routing'', JObj [(''rules'', JArr [JStr ''r1'']), (''domainStrategy'', JStr ''AsIs'')])],
             [(''log'', JStr ''y''), (''inbounds'', JArr [JStr ''b'']),
               (''routing'', JObj [(''rules'', JArr [JStr ''r2'']), (''domainStrategy'', JStr ''IPIfNonMatch'')])]]
   in rules_of (xrayconf_Merge ms) = [JStr ''r1'', JStr ''r2''] \<and>
      map_of (routing_of (xrayconf_Merge ms)) ''domainStrategy'' = Some (JStr ''IPIfNonMatch'')"
proof -
  define ms where "ms = [[(''log'', JStr ''x''), (''inbounds'', JArr [JStr ''a'']),
               (''routing'', JObj [(''rules'', JArr [JStr ''r1'']), (''domainStrategy'', JStr ''AsIs'')])],
             [(''log'', JStr ''y''), (''inbounds'', JArr [JStr ''b'']),
               (''routing'', JObj [(''rules'', JArr [JStr ''r2'']), (''domainStrategy'', JStr ''IPIfNonMatch'')])]]"
  have p: "\<forall>m\<in>set ms. plain_keys m" by (simp add: ms_def plain_keys_def routing_of_def json_at_def obj_or_none_def)
  from xrayconf_Merge_semantics [OF p, of "''domainStrategy''"] show ?thesis
    unfolding ms_def [symmetric] Let_def
    by (simp add: ms_def rules_of_def get_obj_def get_list_def get_arr_def routing_of_def json_at_def obj_or_none_def)
qed

end
