(* ===== verification/Inbound_Clients.thy ===== *)
theory Inbound_Clients
  imports World Tag_Index
begin

text \<open>
  The users of an inbound (\<open>internal/handler/management_handler.go\<close>,
  \<open>xray_config_transaction.go\<close>): when two entries are the same user, how the copies of one
  inbound are folded into one without losing users, how a user is added, and the uniqueness check
  a whole-file transaction makes.
\<close>

section \<open>Credentials\<close>

definition nonempty_at :: "obj \<Rightarrow> string \<Rightarrow> bool" where
  "nonempty_at m k \<longleftrightarrow> sprint_at m k \<noteq> [] \<and> sprint_at m k \<noteq> ''<nil>''"

definition both_nonempty_eq :: "obj \<Rightarrow> obj \<Rightarrow> string \<Rightarrow> bool" where
  "both_nonempty_eq a b k \<longleftrightarrow> nonempty_at a k \<and> nonempty_at b k \<and> sprint_at a k = sprint_at b k"

definition primary_key :: "string \<Rightarrow> string" where
  "primary_key protocol =
     (let p = to_lower protocol
      in if p \<in> {''vless'', ''vmess''} then ''id''
         else if p \<in> {''trojan'', ''shadowsocks'', ''anytls''} then ''password''
         else if p = ''snell'' then ''psk''
         else if p = ''mieru'' then ''username''
         else if p = ''hysteria'' then ''auth''
         else if p \<in> {''socks'', ''http''} then ''user''
         else [])"

definition matchClientCredential :: "obj \<Rightarrow> obj \<Rightarrow> string \<Rightarrow> bool" where
  "matchClientCredential a b protocol =
     (let k = primary_key protocol
      in if k \<noteq> [] \<and> nonempty_at a k \<and> nonempty_at b k then both_nonempty_eq a b k
         else both_nonempty_eq a b ''email'')"

text \<open>The settings array that holds the users of a protocol.\<close>

definition client_array :: "string \<Rightarrow> string option" where
  "client_array protocol =
     (let p = to_lower protocol
      in if p \<in> {''vless'', ''vmess'', ''trojan'', ''shadowsocks'', ''hysteria''} then Some ''clients''
         else if p \<in> {''anytls'', ''snell'', ''mieru''} then Some ''users''
         else if p \<in> {''socks'', ''http''} then Some ''accounts''
         else None)"

section \<open>Folding duplicate inbounds\<close>

definition has_client :: "string \<Rightarrow> obj \<Rightarrow> json list \<Rightarrow> bool" where
  "has_client proto sm arr \<longleftrightarrow>
     list_ex (\<lambda>dc. case as_obj dc of Some dm \<Rightarrow> matchClientCredential dm sm proto | None \<Rightarrow> False) arr"

fun merge_clients :: "string \<Rightarrow> json list \<Rightarrow> json list \<Rightarrow> json list" where
  "merge_clients proto [] dstArr = dstArr"
| "merge_clients proto (sc # srcArr) dstArr =
     (case as_obj sc of
        None \<Rightarrow> merge_clients proto srcArr (dstArr @ [sc])
      | Some sm \<Rightarrow>
          if has_client proto sm dstArr then merge_clients proto srcArr dstArr
          else merge_clients proto srcArr (dstArr @ [sc]))"

definition merge_protocol :: "obj \<Rightarrow> obj \<Rightarrow> string" where
  "merge_protocol dst src =
     (if get_str src ''protocol'' \<noteq> [] then get_str src ''protocol'' else get_str dst ''protocol'')"

definition mergeInboundClients :: "obj \<Rightarrow> obj \<Rightarrow> obj" where
  "mergeInboundClients dst src =
     (case (get_obj dst ''settings'', get_obj src ''settings'') of
        (Some dstSettings, Some srcSettings) \<Rightarrow>
          (let proto = merge_protocol dst src
           in (case client_array proto of
                 None \<Rightarrow> dst
               | Some arrKey \<Rightarrow>
                   let dstArr = get_list dstSettings arrKey; srcArr = get_list srcSettings arrKey
                   in if srcArr = [] then dst
                      else jset ''settings''
                             (JObj (jset arrKey (JArr (merge_clients proto srcArr dstArr)) dstSettings))
                             dst))
      | _ \<Rightarrow> dst)"

definition absorb_copy :: "string \<Rightarrow> obj \<Rightarrow> json \<Rightarrow> json" where
  "absorb_copy key m kept_item =
     (if key = ''inbounds''
      then (case as_obj kept_item of
              Some first \<Rightarrow> JObj (mergeInboundClients first m)
            | None \<Rightarrow> kept_item)
      else kept_item)"

text \<open>The loop of \<open>dedupeTaggedArrayInPlace\<close>: \<open>seen\<close> sends a tag to the place its first element has in
  \<open>kept\<close>, where the users of later copies are merged in place.\<close>

fun dedupe_loop ::
  "string \<Rightarrow> json list \<Rightarrow> json list \<Rightarrow> (string \<rightharpoonup> nat) \<Rightarrow> nat \<Rightarrow> json list \<times> nat" where
  "dedupe_loop key [] kept seen removed = (kept, removed)"
| "dedupe_loop key (item # arr) kept seen removed =
     (case as_obj item of
        None \<Rightarrow> dedupe_loop key arr (kept @ [item]) seen removed
      | Some m \<Rightarrow>
          (let tag = get_str m ''tag''
           in if tag = [] then dedupe_loop key arr (kept @ [item]) seen removed
              else
                (case seen tag of
                   Some i \<Rightarrow>
                     dedupe_loop key arr
                       (kept[i := absorb_copy key m (kept ! i)]) seen (removed + 1)
                 | None \<Rightarrow> dedupe_loop key arr (kept @ [item]) (seen(tag \<mapsto> length kept)) removed)))"

definition dedupe_list :: "string \<Rightarrow> json list \<Rightarrow> json list \<times> nat" where
  "dedupe_list key arr = dedupe_loop key arr [] Map.empty 0"

definition dedupeTaggedArrayInPlace :: "obj \<Rightarrow> string \<Rightarrow> obj \<times> nat" where
  "dedupeTaggedArrayInPlace config key =
     (case get_arr config key of
        None \<Rightarrow> (config, 0)
      | Some arr \<Rightarrow>
          (case dedupe_list key arr of
             (kept, removed) \<Rightarrow>
               (if 0 < removed then jset key (JArr kept) config else config, removed)))"

text \<open>What every handler does just before it writes the file.\<close>

definition dedupe_config :: "obj \<Rightarrow> obj" where
  "dedupe_config config =
     fst (dedupeTaggedArrayInPlace (fst (dedupeTaggedArrayInPlace config ''inbounds'')) ''outbounds'')"

definition dedupeXrayConfigTagsOnDisk ::
  "(string \<Rightarrow> obj option) \<Rightarrow> (obj \<Rightarrow> string) \<Rightarrow> string \<Rightarrow> world \<Rightarrow> world" where
  "dedupeXrayConfigTagsOnDisk dec enc configPath w =
     (if configPath = [] then w
      else
        (case read_file configPath w of
           (Inl _, w1) \<Rightarrow> w1
         | (Inr content, w1) \<Rightarrow>
             (case dec content of
                None \<Rightarrow> w1
              | Some config \<Rightarrow>
                  (case dedupeTaggedArrayInPlace config ''inbounds'' of
                     (config1, inboundsRemoved) \<Rightarrow>
                       (case dedupeTaggedArrayInPlace config1 ''outbounds'' of
                          (config2, outboundsRemoved) \<Rightarrow>
                            if inboundsRemoved = 0 \<and> outboundsRemoved = 0 then w1
                            else snd (write_file configPath (enc config2) w1))))))"

section \<open>Adding a user\<close>

datatype add_result = ClientAdded obj | ClientPresent obj | UnsupportedProtocol string | NoSuchInbound string

text \<open>
  One inbound of \<open>applyAddClientToConfig\<close>. It gets an empty \<open>settings\<close> object when it has none, also
  on the branch that then refuses its protocol; the inbound is returned as the code leaves it.
\<close>

definition add_client_here :: "obj \<Rightarrow> obj \<Rightarrow> obj \<times> add_result" where
  "add_client_here client m =
     (let protocol = get_str m ''protocol'';
          m1 = (if get_obj m ''settings'' = None then jset ''settings'' (JObj []) m else m);
          settings = (case get_obj m ''settings'' of Some s \<Rightarrow> s | None \<Rightarrow> [])
      in (case client_array protocol of
            None \<Rightarrow> (m1, UnsupportedProtocol protocol)
          | Some arrKey \<Rightarrow>
              let arr = get_list settings arrKey
              in if has_client protocol client arr then (m1, ClientPresent m1)
                 else
                   (let m2 = jset ''settings''
                               (JObj (jset arrKey (JArr (arr @ [JObj client])) settings)) m1
                    in (m2, ClientAdded m2))))"

text \<open>The first inbound with the tag decides.\<close>

fun add_client_loop :: "string \<Rightarrow> obj \<Rightarrow> json list \<Rightarrow> json list \<times> add_result" where
  "add_client_loop tag client [] = ([], NoSuchInbound tag)"
| "add_client_loop tag client (ib # ibs) =
     (case as_obj ib of
        None \<Rightarrow> (case add_client_loop tag client ibs of (r, e) \<Rightarrow> (ib # r, e))
      | Some m \<Rightarrow>
          if get_str m ''tag'' \<noteq> tag
          then (case add_client_loop tag client ibs of (r, e) \<Rightarrow> (ib # r, e))
          else (case add_client_here client m of (m1, r) \<Rightarrow> (JObj m1 # ibs, r)))"

definition applyAddClientToConfig :: "obj \<Rightarrow> string \<Rightarrow> obj \<Rightarrow> obj \<times> add_result" where
  "applyAddClientToConfig config tag client =
     (case get_arr config ''inbounds'' of
        None \<Rightarrow> (config, NoSuchInbound tag)
      | Some ibs \<Rightarrow>
          (case add_client_loop tag client ibs of
             (ibs', r) \<Rightarrow> (jset ''inbounds'' (JArr ibs') config, r)))"

section \<open>The uniqueness check of a transaction\<close>

definition clean_at :: "obj \<Rightarrow> string \<Rightarrow> string" where
  "clean_at m k = (let v = trim_space (sprint_at m k) in if v = ''<nil>'' then [] else v)"

text \<open>The first of \<open>id\<close>, \<open>password\<close>, \<open>user\<close> that has a value; empty when none has.\<close>

definition client_identity :: "obj \<Rightarrow> string" where
  "client_identity m =
     (case find (\<lambda>k. clean_at m k \<noteq> []) [''id'', ''password'', ''user''] of
        None \<Rightarrow> []
      | Some k \<Rightarrow> k @ '':'' @ clean_at m k)"

text \<open>The entries of one inbound, in the order the check visits them.\<close>

definition inbound_entries :: "obj \<Rightarrow> obj list" where
  "inbound_entries settings =
     List.map_filter as_obj
       (get_list settings ''clients'' @ get_list settings ''users'' @ get_list settings ''accounts'')"

datatype dup_error = DuplicateEmail string string | DuplicateCredential string string

fun check_entries :: "string \<Rightarrow> string set \<Rightarrow> string set \<Rightarrow> obj list \<Rightarrow> dup_error option" where
  "check_entries tag seenEmail seenCredential [] = None"
| "check_entries tag seenEmail seenCredential (m # ms) =
     (let email = clean_at m ''email''; identity = client_identity m
      in if email \<noteq> [] \<and> email \<in> seenEmail then Some (DuplicateEmail tag email)
         else if identity \<noteq> [] \<and> identity \<in> seenCredential then Some (DuplicateCredential tag identity)
         else check_entries tag (if email \<noteq> [] then insert email seenEmail else seenEmail)
                (if identity \<noteq> [] then insert identity seenCredential else seenCredential) ms)"

fun check_inbounds :: "json list \<Rightarrow> dup_error option" where
  "check_inbounds [] = None"
| "check_inbounds (raw # rest) =
     (case as_obj raw of
        None \<Rightarrow> check_inbounds rest
      | Some inbound \<Rightarrow>
          (case get_obj inbound ''settings'' of
             None \<Rightarrow> check_inbounds rest
           | Some settings \<Rightarrow>
               (case check_entries (get_str inbound ''tag'') {} {} (inbound_entries settings) of
                  Some e \<Rightarrow> Some e
                | None \<Rightarrow> check_inbounds rest)))"

definition validateUniqueInboundClients :: "obj \<Rightarrow> dup_error option" where
  "validateUniqueInboundClients config = check_inbounds (get_list config ''inbounds'')"

section \<open>Folding duplicates: tags\<close>

lemma mergeInboundClients_other:
  "k \<noteq> ''settings'' \<Longrightarrow> map_of (mergeInboundClients dst src) k = map_of dst k"
  by (simp add: mergeInboundClients_def Let_def split: option.splits)

lemma absorb_copy_tag [simp]: "tag_of (absorb_copy key m x) = tag_of x"
  by (cases "as_obj x") (auto simp: absorb_copy_def get_str_def mergeInboundClients_other)

lemma dedupe_step_cases:
  assumes "index_ok kept seen"
  obtains (plain) "tag_of e = []"
      "dedupe_loop key (e # es) kept seen n = dedupe_loop key es (kept @ [e]) seen n"
      "index_ok (kept @ [e]) seen"
  | (copy) m i where "e = JObj m" "tag_of e \<noteq> []" "seen (tag_of e) = Some i" "i < length kept"
      "tag_of (kept ! i) = tag_of e"
      "dedupe_loop key (e # es) kept seen n =
       dedupe_loop key es (kept[i := absorb_copy key m (kept ! i)]) seen (n + 1)"
      "index_ok (kept[i := absorb_copy key m (kept ! i)]) seen"
  | (new) m where "e = JObj m" "tag_of e \<noteq> []" "tag_of e \<notin> set (tags_of kept)"
      "dedupe_loop key (e # es) kept seen n =
       dedupe_loop key es (kept @ [e]) (seen(tag_of e \<mapsto> length kept)) n"
      "index_ok (kept @ [e]) (seen(tag_of e \<mapsto> length kept))"
proof (cases "tag_of e = []")
  case True
  with assms show ?thesis
    by (intro plain) (auto simp: index_ok_append_untagged split: option.splits)
next
  case False
  then obtain m where e: "e = JObj m" by (auto simp: tag_of_def split: option.splits)
  show ?thesis
  proof (cases "seen (tag_of e)")
    case None
    with assms have "tag_of e \<notin> set (tags_of kept)" by (auto simp: index_ok_def)
    with False e None index_ok_append [OF assms, of e] show ?thesis
      by (intro new [of m]) simp_all
  next
    case (Some i)
    from index_okD [OF assms this] have i: "i < length kept" "tag_of (kept ! i) = tag_of e" by auto
    have "index_ok (kept[i := absorb_copy key m (kept ! i)]) seen"
      using assms Some i by (intro index_ok_update) simp_all
    with e False Some i show ?thesis by (intro copy [of m i]) simp_all
  qed
qed

declare dedupe_loop.simps(2) [simp del]

lemma dedupe_loop_tags:
  "index_ok kept seen \<Longrightarrow>
   tags_of (fst (dedupe_loop key es kept seen n)) =
   tags_of kept @ dedup_by (\<lambda>t. t) (set (tags_of kept)) (tags_of es)"
proof (induction es arbitrary: kept seen n)
  case (Cons e es)
  from Cons.prems show ?case
  proof (cases rule: dedupe_step_cases [where e = e and es = es and key = key and n = n])
    case plain
    with Cons.IH [OF plain(3)] show ?thesis by simp
  next
    case (copy m i)
    then have "tag_of e \<in> set (tags_of kept)" by (auto simp: set_tags_of intro!: image_eqI [of _ _ "kept ! i"])
    with copy Cons.IH [OF copy(7)] show ?thesis by (simp add: tags_of_update_same)
  next
    case (new m)
    with Cons.IH [OF new(5)] show ?thesis by (simp del: fun_upd_apply)
  qed
qed simp

lemma dedupe_loop_length:
  "index_ok kept seen \<Longrightarrow>
   length (fst (dedupe_loop key es kept seen n)) + snd (dedupe_loop key es kept seen n) =
   length kept + length es + n"
proof (induction es arbitrary: kept seen n)
  case (Cons e es)
  from Cons.prems show ?case
  proof (cases rule: dedupe_step_cases [where e = e and es = es and key = key and n = n])
    case plain
    with Cons.IH [OF plain(3), of n] show ?thesis by simp
  next
    case (copy m i)
    with Cons.IH [OF copy(7), of "n + 1"] show ?thesis by simp
  next
    case (new m)
    with Cons.IH [OF new(5), of n] show ?thesis by (simp del: fun_upd_apply)
  qed
qed simp

lemma dedupe_loop_mono: "index_ok kept seen \<Longrightarrow> n \<le> snd (dedupe_loop key es kept seen n)"
proof (induction es arbitrary: kept seen n)
  case (Cons e es)
  from Cons.prems show ?case
  proof (cases rule: dedupe_step_cases [where e = e and es = es and key = key and n = n])
    case plain
    with Cons.IH [OF plain(3), of n] show ?thesis by simp
  next
    case (copy m i)
    with Cons.IH [OF copy(7), of "n + 1"] show ?thesis by simp
  next
    case (new m)
    with Cons.IH [OF new(5), of n] show ?thesis by (simp del: fun_upd_apply)
  qed
qed simp

lemma dedupe_loop_unchanged:
  "index_ok kept seen \<Longrightarrow> snd (dedupe_loop key es kept seen n) = n \<Longrightarrow>
   fst (dedupe_loop key es kept seen n) = kept @ es"
proof (induction es arbitrary: kept seen n)
  case (Cons e es)
  from Cons.prems(1) show ?case
  proof (cases rule: dedupe_step_cases [where e = e and es = es and key = key and n = n])
    case plain
    with Cons.IH [OF plain(3), of n] Cons.prems show ?thesis by simp
  next
    case (copy m i)
    with dedupe_loop_mono [OF copy(7), of "n + 1" key es] Cons.prems show ?thesis by simp
  next
    case (new m)
    with Cons.IH [OF new(5), of n] Cons.prems show ?thesis by (simp del: fun_upd_apply)
  qed
qed simp

lemma dedupe_loop_unique:
  "index_ok kept seen \<Longrightarrow> unique_tags (kept @ es) \<Longrightarrow> snd (dedupe_loop key es kept seen n) = n"
proof (induction es arbitrary: kept seen n)
  case (Cons e es)
  from Cons.prems(1) show ?case
  proof (cases rule: dedupe_step_cases [where e = e and es = es and key = key and n = n])
    case plain
    with Cons.IH [OF plain(3), of n] Cons.prems show ?thesis by simp
  next
    case (copy m i)
    then have "tag_of e \<in> set (tags_of kept)" by (auto simp: set_tags_of intro!: image_eqI [of _ _ "kept ! i"])
    with copy Cons.prems show ?thesis by (simp add: unique_tags_def)
  next
    case (new m)
    with Cons.IH [OF new(5), of n] Cons.prems show ?thesis by (simp del: fun_upd_apply)
  qed
qed simp

lemma index_ok_empty [simp]: "index_ok [] Map.empty"
  by (simp add: index_ok_def)

lemma dedup_by_id_distinct: "distinct (dedup_by (\<lambda>t. t) s xs)" "set (dedup_by (\<lambda>t. t) s xs) = set xs - s"
  using dedup_by_distinct [of "\<lambda>t. t" s xs] dedup_by_keys [of "\<lambda>t. t" s xs] by simp_all

text \<open>The duplicate sweep over inbounds or outbounds: in the result every tag occurs once, the
  tags are those of the input in the order of their first occurrence, the count is the number of
  elements removed, nothing changes when there was no duplicate, and a second sweep removes
  nothing.\<close>

theorem dedupe_list_tags:
  "(let (kept, removed) = dedupe_list key arr
    in unique_tags kept \<and> tags_of kept = dedup_by (\<lambda>t. t) {} (tags_of arr) \<and>
       length kept + removed = length arr \<and>
       (removed = 0 \<longleftrightarrow> unique_tags arr) \<and> (removed = 0 \<longrightarrow> kept = arr) \<and>
       dedupe_list key kept = (kept, 0))"
proof -
  obtain kept n where d: "dedupe_list key arr = (kept, n)" by (cases "dedupe_list key arr")
  then have l: "dedupe_loop key arr [] Map.empty 0 = (kept, n)" by (simp add: dedupe_list_def)
  have t: "tags_of kept = dedup_by (\<lambda>t. t) {} (tags_of arr)"
    using dedupe_loop_tags [OF index_ok_empty, of key arr 0] l by simp
  then have u: "unique_tags kept" by (simp add: unique_tags_def dedup_by_id_distinct)
  have len: "length kept + n = length arr"
    using dedupe_loop_length [OF index_ok_empty, of key arr 0] l by simp
  have same: "n = 0 \<Longrightarrow> kept = arr"
    using dedupe_loop_unchanged [OF index_ok_empty, of key arr 0] l by simp
  have un: "unique_tags xs \<Longrightarrow> dedupe_list key xs = (xs, 0)" for xs
    using dedupe_loop_unique [OF index_ok_empty, of xs key 0]
      dedupe_loop_unchanged [OF index_ok_empty, of key xs 0]
    by (simp add: dedupe_list_def prod_eq_iff)
  from un [of arr] d have "n = 0 \<longleftrightarrow> unique_tags arr" using same u by auto
  with d t u len same un [OF u] show ?thesis by simp
qed

lemma dedupe_list_tags_witness:
  "let a = JObj [(''tag'', JStr ''a'')]; b = JObj [(''tag'', JStr ''b'')]
   in dedupe_list ''outbounds'' [a, b, a] = ([a, b], 1) \<and> dedupe_list ''outbounds'' [a, b] = ([a, b], 0)"
proof -
  let ?a = "JObj [(''tag'', JStr ''a'')]" and ?b = "JObj [(''tag'', JStr ''b'')]"
  have "dedupe_list ''outbounds'' [?a, ?b, ?a] = ([?a, ?b], 1)"
    by (simp add: dedupe_list_def get_str_def absorb_copy_def dedupe_loop.simps)
  with dedupe_list_tags [where key = "''outbounds''" and arr = "[?a, ?b, ?a]"] show ?thesis
    by (simp add: Let_def)
qed

lemma dedupe_list_unique [keeps_tags]: "unique_tags (fst (dedupe_list key arr))"
  using dedupe_loop_tags [OF index_ok_empty, of key arr 0]
  by (simp add: dedupe_list_def unique_tags_def dedup_by_id_distinct)

lemma dedupe_list_same: "unique_tags arr \<Longrightarrow> dedupe_list key arr = (arr, 0)"
  using dedupe_loop_unique [OF index_ok_empty, of arr key 0]
    dedupe_loop_unchanged [OF index_ok_empty, of key arr 0]
  by (simp add: dedupe_list_def prod_eq_iff)

lemma dedupe_list_zero: "snd (dedupe_list key arr) = 0 \<Longrightarrow> fst (dedupe_list key arr) = arr"
  using dedupe_loop_unchanged [OF index_ok_empty, of key arr 0] by (simp add: dedupe_list_def)

lemma dedupe_in_place_list:
  "get_list (fst (dedupeTaggedArrayInPlace c key)) k =
   (if k = key then fst (dedupe_list key (get_list c key)) else get_list c k)"
proof (cases "get_arr c key")
  case None
  then show ?thesis by (simp add: dedupeTaggedArrayInPlace_def get_list_def dedupe_list_same)
next
  case (Some arr)
  then show ?thesis
    using dedupe_list_zero [of key arr]
    by (auto simp: dedupeTaggedArrayInPlace_def get_list_def split: prod.splits)
qed

lemma dedupe_in_place_other:
  "k \<noteq> key \<Longrightarrow> map_of (fst (dedupeTaggedArrayInPlace c key)) k = map_of c k"
  by (auto simp: dedupeTaggedArrayInPlace_def split: option.splits prod.splits)

lemma dedupe_config_unique [keeps_tags]:
  "unique_tags (get_list (dedupe_config c) ''inbounds'')"
  "unique_tags (get_list (dedupe_config c) ''outbounds'')"
  by (simp_all add: dedupe_config_def dedupe_in_place_list keeps_tags)

lemma dedupe_config_other:
  "k \<noteq> ''inbounds'' \<Longrightarrow> k \<noteq> ''outbounds'' \<Longrightarrow> map_of (dedupe_config c) k = map_of c k"
  by (simp add: dedupe_config_def dedupe_in_place_other)

lemma dedupe_config_same:
  assumes "unique_tags (get_list c ''inbounds'')" and "unique_tags (get_list c ''outbounds'')"
  shows "dedupe_config c = c"
proof -
  have "fst (dedupeTaggedArrayInPlace c key) = c" if "unique_tags (get_list c key)" for key
    using that dedupe_list_same
    by (auto simp: dedupeTaggedArrayInPlace_def get_list_def split: option.splits)
  with assms show ?thesis by (simp add: dedupe_config_def)
qed

section \<open>Folding duplicates: users\<close>

text \<open>An entry is covered by a list when the list holds it or an entry of the same user.\<close>

definition covered :: "string \<Rightarrow> json \<Rightarrow> json list \<Rightarrow> bool" where
  "covered proto c arr \<longleftrightarrow>
     c \<in> set arr \<or> (case as_obj c of Some cm \<Rightarrow> has_client proto cm arr | None \<Rightarrow> False)"

definition users_of :: "string \<Rightarrow> json \<Rightarrow> json list" where
  "users_of k x =
     (case as_obj x of
        Some m \<Rightarrow> (case get_obj m ''settings'' of Some s \<Rightarrow> get_list s k | None \<Rightarrow> [])
      | None \<Rightarrow> [])"

text \<open>All copies of a tag speak one protocol and have settings.\<close>

definition uniform :: "string \<Rightarrow> string \<Rightarrow> json list \<Rightarrow> bool" where
  "uniform tg p xs \<longleftrightarrow>
     (\<forall>x\<in>set xs. tag_of x = tg \<longrightarrow>
        (\<exists>m. x = JObj m \<and> get_str m ''protocol'' = p \<and> get_obj m ''settings'' \<noteq> None))"

lemma has_client_append [simp]:
  "has_client proto sm (xs @ ys) \<longleftrightarrow> has_client proto sm xs \<or> has_client proto sm ys"
  by (simp add: has_client_def)

lemma covered_append: "covered proto c xs \<Longrightarrow> covered proto c (xs @ ys)"
  by (auto simp: covered_def split: option.splits)

lemma merge_clients_keeps: "covered proto c dst \<Longrightarrow> covered proto c (merge_clients proto src dst)"
  by (induction src arbitrary: dst) (auto simp: covered_append split: option.splits)

lemma merge_clients_covers: "c \<in> set src \<Longrightarrow> covered proto c (merge_clients proto src dst)"
proof (induction src arbitrary: dst)
  case (Cons s src)
  have s: "covered proto s (dst @ [s])" by (simp add: covered_def)
  show ?case
  proof (cases "c = s")
    case True
    show ?thesis
    proof (cases "as_obj s")
      case None
      with True s show ?thesis by (simp add: merge_clients_keeps)
    next
      case (Some sm)
      then have "has_client proto sm dst \<Longrightarrow> covered proto s dst" by (simp add: covered_def)
      with True s Some show ?thesis by (simp add: merge_clients_keeps)
    qed
  next
    case False
    with Cons show ?thesis by (auto split: option.splits)
  qed
qed simp

lemma client_array_nonempty: "client_array p = Some k \<Longrightarrow> p \<noteq> []"
  by (auto simp: client_array_def to_lower_def)

lemma absorb_copy_users:
  assumes "client_array p = Some k" and "y = JObj d" and "get_obj d ''settings'' \<noteq> None"
    and "get_str m ''protocol'' = p" and "get_obj m ''settings'' \<noteq> None"
  shows "users_of k (absorb_copy ''inbounds'' m y) =
         merge_clients p (users_of k (JObj m)) (users_of k y)"
    and "\<exists>d'. absorb_copy ''inbounds'' m y = JObj d' \<and> get_obj d' ''settings'' \<noteq> None \<and>
           get_str d' ''protocol'' = get_str d ''protocol''"
proof -
  from assms obtain ds ss where s: "get_obj d ''settings'' = Some ds" "get_obj m ''settings'' = Some ss"
    by auto
  have p: "merge_protocol d m = p"
    using assms client_array_nonempty by (auto simp: merge_protocol_def)
  show "users_of k (absorb_copy ''inbounds'' m y) = merge_clients p (users_of k (JObj m)) (users_of k y)"
    using assms s p by (simp add: absorb_copy_def users_of_def mergeInboundClients_def Let_def)
  show "\<exists>d'. absorb_copy ''inbounds'' m y = JObj d' \<and> get_obj d' ''settings'' \<noteq> None \<and>
           get_str d' ''protocol'' = get_str d ''protocol''"
    using assms s by (auto simp: absorb_copy_def get_str_def mergeInboundClients_other mergeInboundClients_def
        Let_def split: option.splits)
qed

lemma uniform_simps [simp]:
  "uniform tg p []"
  "uniform tg p (x # xs) \<longleftrightarrow>
     (tag_of x = tg \<longrightarrow> (\<exists>m. x = JObj m \<and> get_str m ''protocol'' = p \<and> get_obj m ''settings'' \<noteq> None)) \<and>
     uniform tg p xs"
  "uniform tg p (xs @ ys) \<longleftrightarrow> uniform tg p xs \<and> uniform tg p ys"
  by (auto simp: uniform_def)

definition holds_user :: "string \<Rightarrow> string \<Rightarrow> string \<Rightarrow> json \<Rightarrow> json list \<Rightarrow> bool" where
  "holds_user tg p k c xs \<longleftrightarrow> (\<exists>y\<in>set xs. tag_of y = tg \<and> covered p c (users_of k y))"

lemma absorb_uniform:
  assumes "client_array p = Some k" and "uniform tg p kept" and "i < length kept"
    and "tag_of (kept ! i) = tag_of (JObj m)" and "uniform tg p [JObj m]"
  shows "uniform tg p (kept[i := absorb_copy ''inbounds'' m (kept ! i)])"
proof (cases "tag_of (JObj m) = tg")
  case True
  with assms obtain d where d: "kept ! i = JObj d" "get_str d ''protocol'' = p" "get_obj d ''settings'' \<noteq> None"
    by (auto simp: uniform_def)
  from absorb_copy_users(2) [OF assms(1) d(1,3)] True assms(5) d(2)
  have "uniform tg p [absorb_copy ''inbounds'' m (kept ! i)]" by auto
  with assms(2) show ?thesis by (auto simp: uniform_def dest!: set_update_subset_insert [THEN subsetD])
next
  case False
  with assms have "tag_of (absorb_copy ''inbounds'' m (kept ! i)) \<noteq> tg" by simp
  with assms(2) show ?thesis by (auto simp: uniform_def dest!: set_update_subset_insert [THEN subsetD])
qed

lemma absorb_holds:
  assumes "client_array p = Some k" and "uniform tg p kept" and "i < length kept"
    and "tag_of (kept ! i) = tag_of (JObj m)" and "uniform tg p [JObj m]"
    and "holds_user tg p k c kept \<or> tag_of (JObj m) = tg \<and> c \<in> set (users_of k (JObj m))"
  shows "holds_user tg p k c (kept[i := absorb_copy ''inbounds'' m (kept ! i)])"
proof -
  let ?a = "absorb_copy ''inbounds'' m (kept ! i)"
  have a: "?a \<in> set (kept[i := ?a])" using assms(3) by (rule set_update_memI)
  have users: "tag_of (JObj m) = tg \<Longrightarrow>
      users_of k ?a = merge_clients p (users_of k (JObj m)) (users_of k (kept ! i))"
  proof -
    assume "tag_of (JObj m) = tg"
    with assms obtain d where "kept ! i = JObj d" "get_obj d ''settings'' \<noteq> None"
      by (auto simp: uniform_def)
    with \<open>tag_of (JObj m) = tg\<close> assms show ?thesis by (intro absorb_copy_users(1)) auto
  qed
  from assms(6) show ?thesis
  proof
    assume "holds_user tg p k c kept"
    then obtain y where y: "y \<in> set kept" "tag_of y = tg" "covered p c (users_of k y)"
      by (auto simp: holds_user_def)
    show ?thesis
    proof (cases "y = kept ! i")
      case True
      with y assms users have "covered p c (users_of k ?a)" by (simp add: merge_clients_keeps)
      with y True show ?thesis unfolding holds_user_def by (intro bexI [OF _ a]) simp
    next
      case False
      with y assms(3) have "y \<in> set (kept[i := ?a])" by (intro set_update_other)
      with y show ?thesis by (auto simp: holds_user_def)
    qed
  next
    assume "tag_of (JObj m) = tg \<and> c \<in> set (users_of k (JObj m))"
    with users have "covered p c (users_of k ?a)" by (simp add: merge_clients_covers)
    with assms(4) \<open>tag_of (JObj m) = tg \<and> _\<close> show ?thesis
      unfolding holds_user_def by (intro bexI [OF _ a]) simp
  qed
qed

lemma dedupe_loop_users:
  assumes k: "client_array p = Some k" and "tg \<noteq> []"
  shows "index_ok kept seen \<Longrightarrow> uniform tg p kept \<Longrightarrow> uniform tg p es \<Longrightarrow>
     holds_user tg p k c kept \<or> (\<exists>x\<in>set es. tag_of x = tg \<and> c \<in> set (users_of k x)) \<Longrightarrow>
     holds_user tg p k c (fst (dedupe_loop ''inbounds'' es kept seen n))"
proof (induction es arbitrary: kept seen n)
  case (Cons e es)
  have snoc: "holds_user tg p k c (kept @ [e]) \<or> (\<exists>x\<in>set es. tag_of x = tg \<and> c \<in> set (users_of k x))"
    using Cons.prems(4) by (auto simp: holds_user_def covered_def)
  have u: "uniform tg p (kept @ [e])" "uniform tg p es" using Cons.prems by simp_all
  from Cons.prems(1) show ?case
  proof (cases rule: dedupe_step_cases [where e = e and es = es and key = "''inbounds''" and n = n])
    case plain
    with Cons.IH [OF plain(3) u snoc] show ?thesis by simp
  next
    case (copy m i)
    have m: "uniform tg p [JObj m]" using Cons.prems copy(1) by simp
    have "uniform tg p (kept[i := absorb_copy ''inbounds'' m (kept ! i)])"
      using absorb_uniform [OF k Cons.prems(2) copy(4) _ m] copy by simp
    moreover have "holds_user tg p k c (kept[i := absorb_copy ''inbounds'' m (kept ! i)]) \<or>
        (\<exists>x\<in>set es. tag_of x = tg \<and> c \<in> set (users_of k x))"
      using absorb_holds [OF k Cons.prems(2) copy(4) _ m] copy Cons.prems(4) by auto
    ultimately show ?thesis using Cons.IH [OF copy(7) _ u(2)] copy(6) by simp
  next
    case (new m)
    with Cons.IH [OF new(5) u snoc] show ?thesis by (simp del: fun_upd_apply)
  qed
qed (simp add: holds_user_def)

text \<open>C17: No user is lost when duplicates of an inbound are folded into the first copy: if the copies
  of a tag speak one protocol with users and each has a settings object, then every user entry of
  every copy is in the one inbound kept under that tag, or an entry of the same user is.\<close>

theorem dedupe_keeps_users:
  assumes "client_array p = Some k" and "tg \<noteq> []" and "uniform tg p arr"
    and "x \<in> set arr" and "tag_of x = tg" and "c \<in> set (users_of k x)"
  shows "\<exists>y\<in>set (fst (dedupe_list ''inbounds'' arr)). tag_of y = tg \<and> covered p c (users_of k y)"
  using dedupe_loop_users [OF assms(1,2) index_ok_empty, of arr c 0] assms(3-6)
  by (auto simp: dedupe_list_def holds_user_def)

lemma dedupe_keeps_users_witness:
  "let arr = [JObj [(''tag'', JStr ''in''), (''protocol'', JStr ''vless''),
                    (''settings'', JObj [(''clients'', JArr [JObj [(''id'', JStr ''A'')]])])],
              JObj [(''tag'', JStr ''in''), (''protocol'', JStr ''vless''),
                    (''settings'', JObj [(''clients'', JArr [JObj [(''id'', JStr ''B'')]])])]]
   in \<exists>y\<in>set (fst (dedupe_list ''inbounds'' arr)).
        tag_of y = ''in'' \<and> covered ''vless'' (JObj [(''id'', JStr ''B'')]) (users_of ''clients'' y)"
  using dedupe_keeps_users [of "''vless''" "''clients''" "''in''"
      "[JObj [(''tag'', JStr ''in''), (''protocol'', JStr ''vless''),
              (''settings'', JObj [(''clients'', JArr [JObj [(''id'', JStr ''A'')]])])],
        JObj [(''tag'', JStr ''in''), (''protocol'', JStr ''vless''),
              (''settings'', JObj [(''clients'', JArr [JObj [(''id'', JStr ''B'')]])])]]"
      "JObj [(''tag'', JStr ''in''), (''protocol'', JStr ''vless''),
             (''settings'', JObj [(''clients'', JArr [JObj [(''id'', JStr ''B'')]])])]"
      "JObj [(''id'', JStr ''B'')]"]
  by (simp add: Let_def client_array_def to_lower_def to_lower_char_def get_str_def get_obj_def
      get_list_def get_arr_def users_of_def)

text \<open>Without the settings object in the first copy the users of the later one are dropped.\<close>

lemma dedupe_loses_users_example:
  "let a = JObj [(''tag'', JStr ''in''), (''protocol'', JStr ''vless'')];
       b = JObj [(''tag'', JStr ''in''), (''protocol'', JStr ''vless''),
                 (''settings'', JObj [(''clients'', JArr [JObj [(''id'', JStr ''B'')]])])]
   in dedupe_list ''inbounds'' [a, b] = ([a], 1)"
  by (simp add: Let_def dedupe_list_def dedupe_loop.simps(2) get_str_def get_obj_def absorb_copy_def
      mergeInboundClients_def)

section \<open>Adding a user\<close>

lemma add_client_split:
  "add_client_loop tag client ibs = (ibs', r) \<Longrightarrow> r \<noteq> NoSuchInbound tag \<Longrightarrow>
   \<exists>us m m1 vs. ibs = us @ JObj m # vs \<and> ibs' = us @ JObj m1 # vs \<and> get_str m ''tag'' = tag \<and>
     (\<forall>u\<in>set us. \<forall>x. u = JObj x \<longrightarrow> get_str x ''tag'' \<noteq> tag) \<and>
     add_client_here client m = (m1, r)"
proof (induction ibs arbitrary: ibs')
  case (Cons ib ibs)
  show ?case
  proof (cases "\<exists>m. ib = JObj m \<and> get_str m ''tag'' = tag")
    case True
    then obtain m where m: "ib = JObj m" "get_str m ''tag'' = tag" by blast
    with Cons.prems obtain m1 where "ibs' = JObj m1 # ibs" "add_client_here client m = (m1, r)"
      by (auto split: prod.splits)
    with m have "ib # ibs = [] @ JObj m # ibs \<and> ibs' = [] @ JObj m1 # ibs \<and> get_str m ''tag'' = tag \<and>
      (\<forall>u\<in>set []. \<forall>x. u = JObj x \<longrightarrow> get_str x ''tag'' \<noteq> tag) \<and> add_client_here client m = (m1, r)"
      by simp
    then show ?thesis by blast
  next
    case False
    then obtain r' where r': "add_client_loop tag client ibs = (r', r)" "ibs' = ib # r'"
      using Cons.prems(1) by (cases "as_obj ib") (auto split: prod.splits)
    from Cons.IH [OF r'(1) Cons.prems(2)] obtain us m m1 vs where
      "ibs = us @ JObj m # vs" "r' = us @ JObj m1 # vs" "get_str m ''tag'' = tag"
      "\<forall>u\<in>set us. \<forall>x. u = JObj x \<longrightarrow> get_str x ''tag'' \<noteq> tag"
      "add_client_here client m = (m1, r)" by blast
    with r' False have "ib # ibs = (ib # us) @ JObj m # vs \<and> ibs' = (ib # us) @ JObj m1 # vs \<and>
      get_str m ''tag'' = tag \<and> (\<forall>u\<in>set (ib # us). \<forall>x. u = JObj x \<longrightarrow> get_str x ''tag'' \<noteq> tag) \<and>
      add_client_here client m = (m1, r)"
      by auto
    then show ?thesis by blast
  qed
qed simp

lemma add_client_skip:
  "\<forall>u\<in>set us. \<forall>x. u = JObj x \<longrightarrow> get_str x ''tag'' \<noteq> tag \<Longrightarrow>
   add_client_loop tag client (us @ ibs) =
   (case add_client_loop tag client ibs of (r, e) \<Rightarrow> (us @ r, e))"
  by (induction us) (auto split: option.splits prod.splits)

lemma add_client_one:
  assumes "add_client_here client m = (m1, ClientAdded n)"
  shows "n = m1 \<and> (\<exists>k. client_array (get_str m ''protocol'') = Some k \<and>
           users_of k (JObj m1) = users_of k (JObj m) @ [JObj client] \<and>
           \<not> has_client (get_str m ''protocol'') client (users_of k (JObj m))) \<and>
         (\<forall>x. x \<noteq> ''settings'' \<longrightarrow> map_of m1 x = map_of m x)"
  using assms
  by (cases "get_obj m ''settings''")
    (auto simp: add_client_here_def Let_def users_of_def split: option.splits if_splits)

lemma add_client_again:
  assumes "add_client_here client m = (m1, ClientAdded m1)"
    and "matchClientCredential client client (get_str m ''protocol'')"
  shows "add_client_here client m1 = (m1, ClientPresent m1)"
  using assms
  by (cases "get_obj m ''settings''")
    (auto simp: add_client_here_def Let_def has_client_def split: option.splits if_splits)

text \<open>Adding a user to an inbound: when the answer is that it was added, exactly the first inbound
  with the tag changed, only in its settings, the user stands last in its user list and no entry of
  the same user was there before; every other inbound and key is untouched. If the user has a
  credential or email to be recognised by, adding it again changes nothing and reports it present.\<close>

theorem applyAddClient_effect:
  assumes "applyAddClientToConfig c tag client = (c', ClientAdded n)"
  shows "(\<exists>us m vs k. get_list c ''inbounds'' = us @ JObj m # vs \<and>
            get_list c' ''inbounds'' = us @ JObj n # vs \<and> get_str m ''tag'' = tag \<and>
            (\<forall>u\<in>set us. \<forall>x. u = JObj x \<longrightarrow> get_str x ''tag'' \<noteq> tag) \<and>
            client_array (get_str m ''protocol'') = Some k \<and>
            users_of k (JObj n) = users_of k (JObj m) @ [JObj client] \<and>
            \<not> has_client (get_str m ''protocol'') client (users_of k (JObj m)) \<and>
            (\<forall>x. x \<noteq> ''settings'' \<longrightarrow> map_of n x = map_of m x)) \<and>
         (\<forall>x. x \<noteq> ''inbounds'' \<longrightarrow> map_of c' x = map_of c x) \<and>
         (matchClientCredential client client (get_str n ''protocol'') \<longrightarrow>
            applyAddClientToConfig c' tag client = (c', ClientPresent n))"
proof -
  from assms obtain ibs ibs' where ibs: "get_arr c ''inbounds'' = Some ibs"
    "add_client_loop tag client ibs = (ibs', ClientAdded n)" "c' = jset ''inbounds'' (JArr ibs') c"
    by (auto simp: applyAddClientToConfig_def split: option.splits prod.splits)
  from add_client_split [OF ibs(2)] obtain us m m1 vs where s:
    "ibs = us @ JObj m # vs" "ibs' = us @ JObj m1 # vs" "get_str m ''tag'' = tag"
    "\<forall>u\<in>set us. \<forall>x. u = JObj x \<longrightarrow> get_str x ''tag'' \<noteq> tag"
    "add_client_here client m = (m1, ClientAdded n)" by auto
  from add_client_one [OF s(5)] obtain k where one: "n = m1"
    "client_array (get_str m ''protocol'') = Some k"
    "users_of k (JObj m1) = users_of k (JObj m) @ [JObj client]"
    "\<not> has_client (get_str m ''protocol'') client (users_of k (JObj m))"
    "\<forall>x. x \<noteq> ''settings'' \<longrightarrow> map_of m1 x = map_of m x" by blast
  have again: "applyAddClientToConfig c' tag client = (c', ClientPresent n)"
    if id: "matchClientCredential client client (get_str n ''protocol'')"
  proof -
    have "get_str n ''protocol'' = get_str m ''protocol''" and tag1: "get_str m1 ''tag'' = tag"
      using one s(3) by (simp_all add: get_str_def)
    with id one(1) have a: "add_client_here client m1 = (m1, ClientPresent m1)"
      using s one by (intro add_client_again [of client m]) auto
    have "add_client_loop tag client (JObj m1 # vs) = (JObj m1 # vs, ClientPresent m1)"
      using a tag1 by simp
    then have "add_client_loop tag client ibs' = (ibs', ClientPresent m1)"
      using s(2,4) by (simp only: add_client_skip) simp
    then show ?thesis using ibs one(1) by (simp add: applyAddClientToConfig_def)
  qed
  have l: "get_list c ''inbounds'' = ibs" "get_list c' ''inbounds'' = ibs'"
    "\<forall>x. x \<noteq> ''inbounds'' \<longrightarrow> map_of c' x = map_of c x"
    using ibs by (simp_all add: get_list_def)
  show ?thesis
    unfolding l(1,2) using s(1-4) one l(3) again by blast
qed

lemma applyAddClient_effect_witness:
  "let c = [(''inbounds'', JArr [JObj [(''tag'', JStr ''in''), (''protocol'', JStr ''vless'')]])];
       cl = [(''id'', JStr ''A'')];
       n = [(''tag'', JStr ''in''), (''protocol'', JStr ''vless''),
            (''settings'', JObj [(''clients'', JArr [JObj cl])])];
       c' = [(''inbounds'', JArr [JObj n])]
   in applyAddClientToConfig c ''in'' cl = (c', ClientAdded n) \<and>
      applyAddClientToConfig c' ''in'' cl = (c', ClientPresent n)"
proof -
  let ?c = "[(''inbounds'', JArr [JObj [(''tag'', JStr ''in''), (''protocol'', JStr ''vless'')]])]"
  let ?cl = "[(''id'', JStr ''A'')]"
  let ?n = "[(''tag'', JStr ''in''), (''protocol'', JStr ''vless''),
            (''settings'', JObj [(''clients'', JArr [JObj ?cl])])]"
  have 1: "applyAddClientToConfig ?c ''in'' ?cl = ([(''inbounds'', JArr [JObj ?n])], ClientAdded ?n)"
    by (simp add: applyAddClientToConfig_def get_arr_def get_str_def get_obj_def client_array_def
        to_lower_def to_lower_char_def Let_def get_list_def has_client_def add_client_here_def)
  have "matchClientCredential ?cl ?cl (get_str ?n ''protocol'')"
    by (simp add: matchClientCredential_def primary_key_def to_lower_def to_lower_char_def get_str_def
        nonempty_at_def both_nonempty_eq_def sprint_at_def Let_def)
  with applyAddClient_effect [OF 1] 1 show ?thesis by (simp add: Let_def)
qed

section \<open>The uniqueness check\<close>

definition emails_of :: "obj list \<Rightarrow> string list" where
  "emails_of ms = filter (\<lambda>e. e \<noteq> []) (List.map (\<lambda>m. clean_at m ''email'') ms)"

definition identities_of :: "obj list \<Rightarrow> string list" where
  "identities_of ms = filter (\<lambda>e. e \<noteq> []) (List.map client_identity ms)"

lemma emails_of_simps [simp]:
  "emails_of [] = []" "identities_of [] = []"
  "emails_of (m # ms) = (if clean_at m ''email'' = [] then emails_of ms else clean_at m ''email'' # emails_of ms)"
  "identities_of (m # ms) = (if client_identity m = [] then identities_of ms else client_identity m # identities_of ms)"
  by (simp_all add: emails_of_def identities_of_def)

lemma check_entries_None:
  "check_entries tag E C ms = None \<longleftrightarrow>
   distinct (emails_of ms) \<and> set (emails_of ms) \<inter> E = {} \<and>
   distinct (identities_of ms) \<and> set (identities_of ms) \<inter> C = {}"
  by (induction ms arbitrary: E C) (auto simp: Let_def)

text \<open>The uniqueness check accepts a configuration exactly when, in every inbound with settings,
  no email and no credential occurs twice over its clients, users and accounts.\<close>

theorem validateUniqueInboundClients_iff:
  "validateUniqueInboundClients c = None \<longleftrightarrow>
   (\<forall>m s. JObj m \<in> set (get_list c ''inbounds'') \<and> get_obj m ''settings'' = Some s \<longrightarrow>
      distinct (emails_of (inbound_entries s)) \<and> distinct (identities_of (inbound_entries s)))"
proof -
  have "check_inbounds xs = None \<longleftrightarrow>
     (\<forall>m s. JObj m \<in> set xs \<and> get_obj m ''settings'' = Some s \<longrightarrow>
        distinct (emails_of (inbound_entries s)) \<and> distinct (identities_of (inbound_entries s)))" for xs
  proof (induction xs)
    case (Cons x xs)
    show ?case
    proof (cases "as_obj x")
      case (Some m)
      show ?thesis
      proof (cases "get_obj m ''settings''")
        case None
        with Some Cons show ?thesis by auto
      next
        case s: (Some s)
        with Some have "check_inbounds (x # xs) = None \<longleftrightarrow>
            check_entries (get_str m ''tag'') {} {} (inbound_entries s) = None \<and> check_inbounds xs = None"
          by (simp split: option.splits)
        with Some s Cons show ?thesis by (auto simp: check_entries_None)
      qed
    qed (use Cons in auto)
  qed simp
  then show ?thesis by (simp add: validateUniqueInboundClients_def)
qed

lemma validateUniqueInboundClients_iff_witness:
  "validateUniqueInboundClients
     [(''inbounds'', JArr [JObj [(''tag'', JStr ''in''), (''settings'', JObj [(''clients'',
        JArr [JObj [(''email'', JStr ''a'')], JObj [(''email'', JStr ''b'')]])])]])] = None"
  unfolding validateUniqueInboundClients_iff
  by (auto simp: get_list_def get_arr_def get_obj_def inbound_entries_def List.map_filter_def
      clean_at_def sprint_at_def trim_space_def trim_func_def trim_left_def trim_right_def is_space_def
      client_identity_def)

end
