(* ===== verification/Atomic_File.thy ===== *)
theory Atomic_File
  imports World
begin

text \<open>
  The two routines that replace a file through a temporary file and a rename:
  \<open>writeFileAtomic\<close> (\<open>internal/handler/xray_config_transaction.go\<close>) and \<open>atomicWriteConfig\<close>
  (\<open>internal/handler/management_handler.go\<close>). \<open>os.CreateTemp\<close> returns a name that is not in use:
  here one that is longer than every path in the file table and than the target.
\<close>

definition temp_name :: "string \<Rightarrow> string \<Rightarrow> world \<Rightarrow> string" where
  "temp_name prefix path w =
     path_join (path_dir path)
       (prefix @ replicate (Suc (length path + sum_list (List.map (length \<circ> fst) (files w)))) CHR 0x30)"

text \<open>\<open>CreateTemp\<close>, \<open>Chmod\<close>, \<open>Write\<close>, \<open>Sync\<close>, \<open>Close\<close>: the error and whether the temporary file exists.\<close>

definition fill_temp :: "string \<Rightarrow> string \<Rightarrow> world \<Rightarrow> io_err option \<times> bool \<times> world" where
  "fill_temp tmp content w =
     (case sys_call w of
        (Some e, w1) \<Rightarrow> (Some e, False, w1)
      | (None, w1) \<Rightarrow>
          (case sys_call (put_file tmp [] w1) of
             (Some e, w2) \<Rightarrow> (Some e, True, w2)
           | (None, w2) \<Rightarrow>
               (case write_file tmp content w2 of
                  (Some e, w3) \<Rightarrow> (Some e, True, w3)
                | (None, w3) \<Rightarrow>
                    (case sys_call w3 of
                       (Some e, w4) \<Rightarrow> (Some e, True, w4)
                     | (None, w4) \<Rightarrow>
                         (case sys_call w4 of
                            (Some e, w5) \<Rightarrow> (Some e, True, w5)
                          | (None, w5) \<Rightarrow> (None, True, w5))))))"

text \<open>\<open>writeFileAtomic\<close>; the deferred \<open>os.Remove\<close> of the temporary name always runs once it exists.\<close>

definition writeFileAtomic :: "string \<Rightarrow> string \<Rightarrow> world \<Rightarrow> io_err option \<times> world" where
  "writeFileAtomic path content w =
     (case sys_call w of
        (Some e, w1) \<Rightarrow> (Some e, w1)
      | (None, w1) \<Rightarrow>
          (let tmp = temp_name ''.mmwx-txn-'' path w1
           in (case fill_temp tmp content w1 of
                 (Some e, made, w2) \<Rightarrow>
                   (Some e, if made then snd (remove_file tmp w2) else w2)
               | (None, _, w2) \<Rightarrow>
                   (case rename_file tmp path w2 of
                      (r, w3) \<Rightarrow> (r, snd (remove_file tmp w3))))))"

text \<open>\<open>atomicWriteConfig\<close>: the target must exist; the temporary file is removed only on failure.\<close>

definition atomicWriteConfig :: "string \<Rightarrow> string \<Rightarrow> world \<Rightarrow> io_err option \<times> world" where
  "atomicWriteConfig path content w =
     (case read_file path w of
        (Inl e, w1) \<Rightarrow> (Some e, w1)
      | (Inr _, w1) \<Rightarrow>
          (let tmp = temp_name ''.config.yaml-'' path w1
           in (case fill_temp tmp content w1 of
                 (Some e, made, w2) \<Rightarrow>
                   (Some e, if made then snd (remove_file tmp w2) else w2)
               | (None, _, w2) \<Rightarrow>
                   (case rename_file tmp path w2 of
                      (None, w3) \<Rightarrow> (None, w3)
                    | (Some e, w3) \<Rightarrow> (Some e, snd (remove_file tmp w3))))))"

section \<open>Lemmas\<close>

lemma temp_name_fresh: "file_at w (temp_name prefix path w) = None"
proof -
  let ?n = "length path + sum_list (List.map (length \<circ> fst) (files w))"
  have "temp_name prefix path w \<notin> fst ` set (files w)"
  proof
    assume "temp_name prefix path w \<in> fst ` set (files w)"
    then have "length (temp_name prefix path w) \<le> sum_list (List.map (length \<circ> fst) (files w))"
      by (force intro: member_le_sum_list)
    then show False by (simp add: temp_name_def path_join_def)
  qed
  then show ?thesis by (simp add: file_at_def map_of_eq_None_iff)
qed

lemma temp_name_neq: "length q \<le> length path \<Longrightarrow> temp_name prefix path w \<noteq> q"
proof
  assume "length q \<le> length path" and "temp_name prefix path w = q"
  then have "length (temp_name prefix path w) \<le> length path" by simp
  then show False by (simp add: temp_name_def path_join_def)
qed

lemma fill_temp_frame:
  assumes "fill_temp tmp content w = (r, made, w')"
  shows "running w' = running w" and "q \<noteq> tmp \<Longrightarrow> file_at w' q = file_at w q"
    and "r = None \<Longrightarrow> file_at w' tmp = Some content"
    and "\<not> made \<Longrightarrow> file_at w' tmp = file_at w tmp"
  using assms
  by (auto simp: fill_temp_def go_frame sys_call_at [where q = tmp] sys_call_at [where q = q]
      write_file_other [where q = q] write_file_ok
      dest!: sys_call_frame write_file_running split: prod.splits option.splits)

lemma temp_name_cong: "files w = files w' \<Longrightarrow> temp_name prefix path w = temp_name prefix path w'"
  by (simp add: temp_name_def)

lemma remove_snd_other: "q \<noteq> p \<Longrightarrow> file_at (snd (remove_file p w)) q = file_at w q"
  by (cases "remove_file p w") (simp add: remove_file_other)

lemma remove_snd_running: "running (snd (remove_file p w)) = running w"
  by (cases "remove_file p w") (simp add: remove_file_running)

lemma remove_if_other:
  "q \<noteq> p \<Longrightarrow> file_at (if b then snd (remove_file p w) else w) q = file_at w q"
  "running (if b then snd (remove_file p w) else w) = running w"
  by (simp_all add: remove_snd_other remove_snd_running)

text \<open>The effect of one atomic write, whatever calls fail.\<close>

definition atomic_effect :: "string \<Rightarrow> string \<Rightarrow> string \<Rightarrow> world \<Rightarrow> io_err option \<Rightarrow> world \<Rightarrow> bool" where
  "atomic_effect tmp path content w r w' \<longleftrightarrow>
     running w' = running w \<and>
     file_at w' path = (if r = None then Some content else file_at w path) \<and>
     (\<forall>q. q \<noteq> path \<and> q \<noteq> tmp \<longrightarrow> file_at w' q = file_at w q)"

lemma writeFileAtomic_effect:
  assumes "writeFileAtomic path content w = (r, w')"
  shows "atomic_effect (temp_name ''.mmwx-txn-'' path w) path content w r w'"
proof -
  let ?tmp = "temp_name ''.mmwx-txn-'' path w"
  have ne: "?tmp \<noteq> path" by (rule temp_name_neq) simp
  obtain r1 w1 where 1: "sys_call w = (r1, w1)" by fastforce
  then have f1: "running w1 = running w" "file_at w1 q = file_at w q" for q
    by (simp_all add: sys_call_frame sys_call_at)
  from 1 have t: "temp_name ''.mmwx-txn-'' path w1 = ?tmp"
    by (intro temp_name_cong) (simp add: sys_call_frame)
  show ?thesis
  proof (cases r1)
    case (Some e)
    with assms 1 f1 show ?thesis by (auto simp: writeFileAtomic_def atomic_effect_def)
  next
    case None
    obtain r2 made w2 where 2: "fill_temp ?tmp content w1 = (r2, made, w2)" by (metis prod_cases3)
    note f2 = fill_temp_frame [OF 2]
    show ?thesis
    proof (cases r2)
      case (Some e)
      with assms 1 2 None t have "r = Some e" "w' = (if made then snd (remove_file ?tmp w2) else w2)"
        by (auto simp: writeFileAtomic_def)
      with ne f1 f2 show ?thesis by (simp add: atomic_effect_def remove_if_other)
    next
      case none2: None
      obtain r3 w3 where 3: "rename_file ?tmp path w2 = (r3, w3)" by fastforce
      with assms 1 2 None none2 t have "r = r3" "w' = snd (remove_file ?tmp w3)"
        by (auto simp: writeFileAtomic_def)
      with ne f1 f2 none2 rename_file_target [OF 3] 3 show ?thesis
        by (auto simp: atomic_effect_def remove_snd_other remove_snd_running
            rename_file_running rename_file_other)
    qed
  qed
qed

lemma atomicWriteConfig_effect:
  assumes "atomicWriteConfig path content w = (r, w')"
  shows "atomic_effect (temp_name ''.config.yaml-'' path w) path content w r w'"
proof -
  let ?tmp = "temp_name ''.config.yaml-'' path w"
  have ne: "?tmp \<noteq> path" by (rule temp_name_neq) simp
  obtain r1 w1 where 1: "read_file path w = (r1, w1)" by fastforce
  then have f1: "running w1 = running w" "file_at w1 q = file_at w q" for q
    by (simp_all add: read_file_frame read_file_at)
  from 1 have t: "temp_name ''.config.yaml-'' path w1 = ?tmp"
    by (intro temp_name_cong) (simp add: read_file_frame)
  show ?thesis
  proof (cases r1)
    case (Inl e)
    with assms 1 f1 show ?thesis by (auto simp: atomicWriteConfig_def atomic_effect_def)
  next
    case (Inr b)
    obtain r2 made w2 where 2: "fill_temp ?tmp content w1 = (r2, made, w2)" by (metis prod_cases3)
    note f2 = fill_temp_frame [OF 2]
    show ?thesis
    proof (cases r2)
      case (Some e)
      with assms 1 2 Inr t have "r = Some e" "w' = (if made then snd (remove_file ?tmp w2) else w2)"
        by (auto simp: atomicWriteConfig_def)
      with ne f1 f2 show ?thesis by (simp add: atomic_effect_def remove_if_other)
    next
      case none2: None
      obtain r3 w3 where 3: "rename_file ?tmp path w2 = (r3, w3)" by fastforce
      with assms 1 2 Inr none2 t have "r = r3" "w' = (if r3 = None then w3 else snd (remove_file ?tmp w3))"
        by (auto simp: atomicWriteConfig_def split: option.splits)
      with ne f1 f2 none2 rename_file_target [OF 3] 3 show ?thesis
        by (auto simp: atomic_effect_def remove_snd_other remove_snd_running
            rename_file_running rename_file_other)
    qed
  qed
qed

lemma atomic_effect_existing:
  assumes "atomic_effect tmp path content w r w'" and "file_at w tmp = None"
  shows "file_at w' path = (if r = None then Some content else file_at w path) \<and>
         (\<forall>q. q \<noteq> path \<and> file_at w q \<noteq> None \<longrightarrow> file_at w' q = file_at w q)"
proof (intro conjI allI impI)
  show "file_at w' path = (if r = None then Some content else file_at w path)"
    using assms(1) by (simp add: atomic_effect_def)
  fix q
  assume "q \<noteq> path \<and> file_at w q \<noteq> None"
  moreover from this assms(2) have "q \<noteq> tmp" by blast
  ultimately show "file_at w' q = file_at w q" using assms(1) by (simp add: atomic_effect_def)
qed

text \<open>A file replaced through \<open>writeFileAtomic\<close> or \<open>atomicWriteConfig\<close> is never torn: for every
  pattern of failing system calls, torn writes included, the file afterwards holds exactly the new
  content when success is reported and exactly what it held before when an error is; no other
  existing file changes.\<close>

theorem atomic_writes_all_or_nothing:
  assumes "writeFileAtomic path content w = (r, w') \<or> atomicWriteConfig path content w = (r, w')"
  shows "file_at w' path = (if r = None then Some content else file_at w path) \<and>
         (\<forall>q. q \<noteq> path \<and> file_at w q \<noteq> None \<longrightarrow> file_at w' q = file_at w q)"
  using assms
proof
  assume "writeFileAtomic path content w = (r, w')"
  then have "atomic_effect (temp_name ''.mmwx-txn-'' path w) path content w r w'"
    by (rule writeFileAtomic_effect)
  then show ?thesis by (rule atomic_effect_existing) (rule temp_name_fresh)
next
  assume "atomicWriteConfig path content w = (r, w')"
  then have "atomic_effect (temp_name ''.config.yaml-'' path w) path content w r w'"
    by (rule atomicWriteConfig_effect)
  then show ?thesis by (rule atomic_effect_existing) (rule temp_name_fresh)
qed

lemma atomic_writes_all_or_nothing_witness:
  "let w = \<lparr>files = [(''/d/c'', ''old''), (''/d/x'', ''other'')], tape = [Works, Works, Works, Torn ''ne''],
            running = None, api = []\<rparr>
   in fst (writeFileAtomic ''/d/c'' ''new'' w) \<noteq> None \<and>
      file_at (snd (writeFileAtomic ''/d/c'' ''new'' w)) ''/d/c'' = Some ''old''"
proof -
  let ?w = "\<lparr>files = [(''/d/c'', ''old''), (''/d/x'', ''other'')], tape = [Works, Works, Works, Torn ''ne''],
            running = None, api = []\<rparr> :: world"
  have f: "fst (writeFileAtomic ''/d/c'' ''new'' ?w) = Some (ErrIO ''io'')"
    by (simp add: writeFileAtomic_def fill_temp_def sys_call_def next_outcome_def write_file_def
        put_file_def outcome_err_def Let_def)
  obtain r w' where e: "writeFileAtomic ''/d/c'' ''new'' ?w = (r, w')" by fastforce
  with f have "r \<noteq> None" by simp
  moreover from e have "file_at w' ''/d/c'' = (if r = None then Some ''new'' else file_at ?w ''/d/c'')"
    using atomic_writes_all_or_nothing [OF disjI1] by blast
  ultimately show ?thesis using e by (simp add: file_at_def [of ?w])
qed

lemma write_file_may_tear:
  "let w = \<lparr>files = [(''/c'', ''old'')], tape = [Torn ''ne''], running = None, api = []\<rparr>
   in file_at (snd (write_file ''/c'' ''new'' w)) ''/c'' = Some ''ne''"
  by (simp add: write_file_def next_outcome_def Let_def)

section \<open>Frames for clients\<close>

lemma atomic_writes_all_or_nothing_cfg:
  "atomicWriteConfig path content w = (r, w') \<Longrightarrow>
   file_at w' path = (if r = None then Some content else file_at w path)"
  using atomicWriteConfig_effect [of path content w r w'] by (simp add: atomic_effect_def)

text \<open>A path that \<open>writeFileAtomic\<close> never uses for a temporary file.\<close>

definition not_temp :: "string \<Rightarrow> bool" where
  "not_temp q \<longleftrightarrow> (\<forall>d s. CHR 0x2F \<notin> set s \<longrightarrow> q \<noteq> path_join d (''.mmwx-txn-'' @ s))"

lemma not_temp_join:
  "CHR 0x2F \<notin> set n \<Longrightarrow> \<not> has_prefix n ''.mmwx-txn-'' \<Longrightarrow> not_temp (path_join d n)"
  unfolding not_temp_def by auto

lemma atomic_snd [simp]:
  "running (snd (writeFileAtomic p s w)) = running w"
  "file_at (snd (writeFileAtomic p s w)) p =
     (if fst (writeFileAtomic p s w) = None then Some s else file_at w p)"
  "not_temp q \<Longrightarrow> q \<noteq> p \<Longrightarrow> file_at (snd (writeFileAtomic p s w)) q = file_at w q"
proof -
  have e: "atomic_effect (temp_name ''.mmwx-txn-'' p w) p s w
      (fst (writeFileAtomic p s w)) (snd (writeFileAtomic p s w))"
    by (rule writeFileAtomic_effect) simp
  then show "running (snd (writeFileAtomic p s w)) = running w"
    "file_at (snd (writeFileAtomic p s w)) p =
       (if fst (writeFileAtomic p s w) = None then Some s else file_at w p)"
    by (simp_all add: atomic_effect_def)
  assume "not_temp q" "q \<noteq> p"
  moreover from this have "q \<noteq> temp_name ''.mmwx-txn-'' p w"
    unfolding not_temp_def temp_name_def by auto
  ultimately show "file_at (snd (writeFileAtomic p s w)) q = file_at w q"
    using e by (simp add: atomic_effect_def)
qed

end
