(* ===== verification/Failures.thy ===== *)
theory Failures
  imports Atomic_File
begin

text \<open>
  Counting failures. The tape of a world holds the outcomes of the next system calls; \<open>failures\<close> counts those that are not
  successes. A call that fails uses one of them up, so that after the only failure every further call works. With this a
  recovery can be promised for every run in which nothing fails but the call that made it necessary.
\<close>

definition failures :: "world \<Rightarrow> nat" where
  "failures w = length (filter (\<lambda>r. r \<noteq> Works) (tape w))"

lemma failures_updates [simp]:
  "failures (w\<lparr>running := r\<rparr>) = failures w" "failures (w\<lparr>api := a\<rparr>) = failures w" "failures (w\<lparr>files := fs\<rparr>) = failures w"
  "failures (put_file p s w) = failures w" "failures (del_file p w) = failures w" "failures (w\<lparr>running := r, api := a\<rparr>) = failures w"
  by (simp_all add: failures_def put_file_def del_file_def)

lemma next_failures:
  "next_outcome w = (r, w1) \<Longrightarrow> failures w = (if r = Works then 0 else 1) + failures w1"
  by (auto simp: next_outcome_def failures_def split: list.splits)

lemma next_works: "failures w = 0 \<Longrightarrow> \<exists>w1. next_outcome w = (Works, w1) \<and> failures w1 = 0"
  by (cases "next_outcome w") (auto dest: next_failures split: if_splits)

text \<open>What one primitive call does to the count: it never grows, and a failing call uses up a failure.\<close>

lemma primitive_mono:
  "failures (snd (read_file p w)) \<le> failures w" "failures (snd (sys_call w)) \<le> failures w"
  "failures (snd (write_file p s w)) \<le> failures w" "failures (snd (rename_file p q w)) \<le> failures w"
  "failures (snd (remove_file p w)) \<le> failures w" "failures (snd (restart_xray p w)) \<le> failures w"
  "failures (snd (api_call c w)) \<le> failures w"
proof -
  obtain r w1 where 1: "next_outcome w = (r, w1)" by (metis surj_pair)
  from next_failures [OF 1] have le: "failures w1 \<le> failures w" by simp
  from 1 le show
    "failures (snd (read_file p w)) \<le> failures w" "failures (snd (sys_call w)) \<le> failures w"
    "failures (snd (write_file p s w)) \<le> failures w" "failures (snd (rename_file p q w)) \<le> failures w"
    "failures (snd (remove_file p w)) \<le> failures w" "failures (snd (restart_xray p w)) \<le> failures w"
    "failures (snd (api_call c w)) \<le> failures w"
    by (simp_all add: read_file_def sys_call_def write_file_def rename_file_def remove_file_def restart_xray_def
        api_call_def split: outcome.splits option.splits)
qed

lemma primitive_used:
  "fst (sys_call w) \<noteq> None \<Longrightarrow> failures (snd (sys_call w)) < failures w"
  "fst (write_file p s w) \<noteq> None \<Longrightarrow> failures (snd (write_file p s w)) < failures w"
  "fst (restart_xray p w) \<noteq> None \<Longrightarrow> failures (snd (restart_xray p w)) < failures w"
  "fst (api_call c w) \<noteq> None \<Longrightarrow> failures (snd (api_call c w)) < failures w"
  "fst (rename_file p q w) \<noteq> None \<Longrightarrow> file_at w p \<noteq> None \<Longrightarrow> failures (snd (rename_file p q w)) < failures w"
  "fst (read_file p w) = Inl e \<Longrightarrow> file_at w p \<noteq> None \<Longrightarrow> failures (snd (read_file p w)) < failures w"
proof -
  obtain r w1 where 1: "next_outcome w = (r, w1)" by (metis surj_pair)
  note n = next_failures [OF 1] and f = next_outcome_file_at [OF 1, of p]
  show
    "fst (sys_call w) \<noteq> None \<Longrightarrow> failures (snd (sys_call w)) < failures w"
    "fst (write_file p s w) \<noteq> None \<Longrightarrow> failures (snd (write_file p s w)) < failures w"
    "fst (restart_xray p w) \<noteq> None \<Longrightarrow> failures (snd (restart_xray p w)) < failures w"
    "fst (api_call c w) \<noteq> None \<Longrightarrow> failures (snd (api_call c w)) < failures w"
    "fst (rename_file p q w) \<noteq> None \<Longrightarrow> file_at w p \<noteq> None \<Longrightarrow> failures (snd (rename_file p q w)) < failures w"
    "fst (read_file p w) = Inl e \<Longrightarrow> file_at w p \<noteq> None \<Longrightarrow> failures (snd (read_file p w)) < failures w"
    using n f
    by (auto simp: 1 read_file_def sys_call_def write_file_def rename_file_def restart_xray_def api_call_def
        split: outcome.splits option.splits if_splits)
qed

lemma fill_temp_count:
  assumes "fill_temp tmp content w = (r, made, w')"
  shows "failures w' \<le> failures w" "r \<noteq> None \<Longrightarrow> failures w' < failures w"
proof -
  define a where "a = put_file tmp [] (snd (sys_call w))"
  define b where "b = snd (sys_call a)"
  define c where "c = snd (write_file tmp content b)"
  define d where "d = snd (sys_call c)"
  note m = primitive_mono(2) [of w] primitive_mono(2) [of a, folded b_def] primitive_mono(3) [of tmp content b, folded c_def]
    primitive_mono(2) [of c, folded d_def] primitive_mono(2) [of d]
  note u = primitive_used(1) [of w] primitive_used(1) [of a, folded b_def] primitive_used(2) [of tmp content b, folded c_def]
    primitive_used(1) [of c, folded d_def] primitive_used(1) [of d]
  have a: "failures a = failures (snd (sys_call w))" by (simp add: a_def)
  show "failures w' \<le> failures w" "r \<noteq> None \<Longrightarrow> failures w' < failures w"
    using assms m u a
    by (auto simp: fill_temp_def case_prod_beta a_def [symmetric] b_def [symmetric] c_def [symmetric] d_def [symmetric]
        split: option.splits)
qed

lemma atomic_count:
  "failures (snd (writeFileAtomic p s w)) \<le> failures w"
  "fst (writeFileAtomic p s w) \<noteq> None \<Longrightarrow> failures (snd (writeFileAtomic p s w)) < failures w"
proof -
  obtain r1 w1 where 1: "sys_call w = (r1, w1)" by (metis surj_pair)
  define tmp where "tmp = temp_name ''.mmwx-txn-'' p w1"
  obtain r2 made w2 where 2: "fill_temp tmp s w1 = (r2, made, w2)" by (metis prod_cases3)
  obtain r3 w3 where 3: "rename_file tmp p w2 = (r3, w3)" by (metis surj_pair)
  note n1 = primitive_mono(2) [of w] primitive_used(1) [of w]
  note n2 = fill_temp_count [OF 2]
  have t: "r2 = None \<Longrightarrow> file_at w2 tmp \<noteq> None" using fill_temp_frame(3) [OF 2] by simp
  note n3 = primitive_mono(4) [of tmp p w2] primitive_used(5) [of tmp p w2]
  note n4 = primitive_mono(5) [of tmp w2] primitive_mono(5) [of tmp w3]
  show "failures (snd (writeFileAtomic p s w)) \<le> failures w"
    using n1 n2 n3 n4 1 2 3 by (auto simp: writeFileAtomic_def tmp_def [symmetric] Let_def split: option.splits)
  show "fst (writeFileAtomic p s w) \<noteq> None \<Longrightarrow> failures (snd (writeFileAtomic p s w)) < failures w"
    using n1 n2 n3 n4 t 1 2 3 by (auto simp: writeFileAtomic_def tmp_def [symmetric] Let_def split: option.splits)
qed

text \<open>When none is left, every call works.\<close>

lemma calm_works:
  assumes "failures w = 0"
  shows "fst (sys_call w) = None" "fst (write_file p s w) = None" "fst (restart_xray p w) = None"
    "fst (writeFileAtomic p s w) = None" "fst (api_call c w) = None"
    "fst (read_file p w) = (case file_at w p of None \<Rightarrow> Inl ErrNotExist | Some t \<Rightarrow> Inr t)"
proof -
  show "fst (sys_call w) = None" "fst (write_file p s w) = None" "fst (restart_xray p w) = None"
    "fst (writeFileAtomic p s w) = None" "fst (api_call c w) = None"
    using primitive_used(1) [of w] primitive_used(2) [of p s w] primitive_used(3) [of p w] atomic_count(2) [of p s w]
      primitive_used(4) [of c w] assms by (metis not_less_zero)+
  obtain w1 where "next_outcome w = (Works, w1)" using next_works [OF assms] by blast
  then show "fst (read_file p w) = (case file_at w p of None \<Rightarrow> Inl ErrNotExist | Some t \<Rightarrow> Inr t)"
    using next_outcome_file_at [of w Works w1 p] by (simp add: read_file_def split: option.splits)
qed

lemma calm_stays:
  assumes "failures w = 0"
  shows "failures (snd (read_file p w)) = 0" "failures (snd (sys_call w)) = 0" "failures (snd (write_file p s w)) = 0"
    "failures (snd (restart_xray p w)) = 0" "failures (snd (writeFileAtomic p s w)) = 0" "failures (snd (api_call c w)) = 0"
  using primitive_mono(1) [of p w] primitive_mono(2) [of w] primitive_mono(3) [of p s w] primitive_mono(6) [of p w]
    primitive_mono(7) [of c w] atomic_count(1) [of p s w] assms by simp_all

lemmas failures_mono = primitive_mono atomic_count(1)

end
