(* ===== verification/Config_Txn.thy ===== *)
theory Config_Txn
  imports Inbound_Clients Failures
begin

text \<open>
  The whole-file configuration transaction (\<open>internal/handler/xray_config_transaction.go\<close>): prepare
  stages a candidate, activate swaps it in and restarts Xray, commit, rollback and abort end it.

  The handler's surroundings are gathered in a record \<open>txn_env\<close>: the JSON codec of configurations
  and of the metadata file, the digest, Xray's own configuration test, and the path of the active
  configuration. Every call runs under the agent's configuration lock, so a call is one step on
  the world.
\<close>

record txn_meta =
  tm_op :: string
  tm_path :: string
  tm_old :: string
  tm_new :: string
  tm_state :: string
  tm_created :: string
  tm_updated :: string

record txn_req =
  tr_action :: string
  tr_op :: string
  tr_config :: string
  tr_expected :: string

record txn_env =
  te_dec :: "string \<Rightarrow> obj option"
  te_enc :: "obj \<Rightarrow> string"
  te_decm :: "string \<Rightarrow> txn_meta option"
  te_encm :: "txn_meta \<Rightarrow> string"
  te_hash :: "string \<Rightarrow> string"
  te_test :: "string \<Rightarrow> bool"
  te_now :: string
  te_config :: string

section \<open>Paths and identifiers\<close>

definition txn_dir :: "string \<Rightarrow> string \<Rightarrow> string" where
  "txn_dir configPath op = path_join (path_join (path_dir configPath) ''.mmwx-config-transactions'') op"

definition txn_meta_path :: "string \<Rightarrow> string \<Rightarrow> string" where
  "txn_meta_path configPath op = path_join (txn_dir configPath op) ''meta.json''"

definition txn_staged_path :: "string \<Rightarrow> string \<Rightarrow> string" where
  "txn_staged_path configPath op = path_join (txn_dir configPath op) ''candidate.json''"

definition txn_backup_path :: "string \<Rightarrow> string \<Rightarrow> string" where
  "txn_backup_path configPath op = path_join (txn_dir configPath op) ''previous.json''"

text \<open>\<open>^[A-Za-z0-9][A-Za-z0-9._-]{7,127}$\<close>\<close>

definition is_alnum :: "char \<Rightarrow> bool" where
  "is_alnum c \<longleftrightarrow>
     (let n = (of_char c :: nat) in 48 \<le> n \<and> n \<le> 57 \<or> 65 \<le> n \<and> n \<le> 90 \<or> 97 \<le> n \<and> n \<le> 122)"

definition valid_txn_id :: "string \<Rightarrow> bool" where
  "valid_txn_id s \<longleftrightarrow>
     8 \<le> length s \<and> length s \<le> 128 \<and> is_alnum (hd s) \<and>
     list_all (\<lambda>c. is_alnum c \<or> c = CHR 0x2E \<or> c = CHR 0x5F \<or> c = CHR 0x2D) (tl s)"

section \<open>Metadata\<close>

definition loadConfigTxnMeta :: "txn_env \<Rightarrow> string \<Rightarrow> world \<Rightarrow> txn_meta option \<times> world" where
  "loadConfigTxnMeta env path w =
     (case read_file path w of
        (Inl _, w1) \<Rightarrow> (None, w1)
      | (Inr b, w1) \<Rightarrow> (te_decm env b, w1))"

definition saveConfigTxnMeta :: "txn_env \<Rightarrow> string \<Rightarrow> txn_meta \<Rightarrow> world \<Rightarrow> io_err option \<times> world" where
  "saveConfigTxnMeta env path meta w =
     writeFileAtomic path (te_encm env (meta\<lparr>tm_updated := te_now env\<rparr>)) w"

text \<open>\<open>current, _ := os.ReadFile(path)\<close>: an error leaves the empty content.\<close>

definition read_or_empty :: "string \<Rightarrow> world \<Rightarrow> string \<times> world" where
  "read_or_empty path w = (case read_file path w of (Inl _, w1) \<Rightarrow> ([], w1) | (Inr s, w1) \<Rightarrow> (s, w1))"

section \<open>Prepare\<close>

definition prepare_write ::
  "txn_env \<Rightarrow> txn_req \<Rightarrow> string \<Rightarrow> string \<Rightarrow> world \<Rightarrow> reply \<times> world" where
  "prepare_write env req candidate current w =
     (let configPath = te_config env; op = tr_op req; oldHash = te_hash env current
      in (case sys_call w of
            (Some _, w1) \<Rightarrow> (writeError 500 ''mkdir'', w1)
          | (None, w1) \<Rightarrow>
              (case writeFileAtomic (txn_backup_path configPath op) current w1 of
                 (Some _, w2) \<Rightarrow> (writeError 500 ''write backup'', w2)
               | (None, w2) \<Rightarrow>
                   (case writeFileAtomic (txn_staged_path configPath op) candidate w2 of
                      (Some _, w3) \<Rightarrow> (writeError 500 ''write candidate'', w3)
                    | (None, w3) \<Rightarrow>
                        (let meta = \<lparr>tm_op = op, tm_path = configPath, tm_old = oldHash,
                               tm_new = te_hash env candidate, tm_state = ''prepared'',
                               tm_created = te_now env, tm_updated = te_now env\<rparr>
                         in (case saveConfigTxnMeta env (txn_meta_path configPath op) meta w3 of
                               (Some _, w4) \<Rightarrow> (writeError 500 ''write metadata'', w4)
                             | (None, w4) \<Rightarrow>
                                 (writeOk [(''state'', JStr (tm_state meta)), (''old_hash'', JStr (tm_old meta)),
                                           (''new_hash'', JStr (tm_new meta))], w4)))))))"

text \<open>\<open>strings.EqualFold\<close> on the hexadecimal digests is equality up to ASCII case.\<close>

definition prepareXrayConfigTransaction :: "txn_env \<Rightarrow> txn_req \<Rightarrow> world \<Rightarrow> reply \<times> world" where
  "prepareXrayConfigTransaction env req w =
     (if trim_space (tr_config req) = [] then (writeError 400 ''config is required'', w)
      else
        (case loadConfigTxnMeta env (txn_meta_path (te_config env) (tr_op req)) w of
           (Some existing, w1) \<Rightarrow>
             if tm_new existing = te_hash env (tr_config req) \<and>
                (tm_state existing = ''prepared'' \<or> tm_state existing = ''activated'')
             then (writeOk [(''state'', JStr (tm_state existing)), (''old_hash'', JStr (tm_old existing)),
                            (''new_hash'', JStr (tm_new existing)), (''idempotent'', JBool True)], w1)
             else (writeError 409 ''operation_id already exists with different config'', w1)
         | (None, w1) \<Rightarrow>
             (case te_dec env (tr_config req) of
                None \<Rightarrow> (writeError 400 ''invalid JSON config'', w1)
              | Some parsed \<Rightarrow>
                  (let parsed' = dedupe_config parsed
                   in (case validateUniqueInboundClients parsed' of
                         Some _ \<Rightarrow> (writeError 400 ''duplicate client'', w1)
                       | None \<Rightarrow>
                           (let candidate = te_enc env parsed'
                            in if \<not> te_test env candidate
                               then (Reply 400 [(''success'', JBool False),
                                       (''message'', JStr ''xray config test failed'')], w1)
                               else
                                 (case read_file (te_config env) w1 of
                                    (Inl (ErrIO _), w2) \<Rightarrow> (writeError 500 ''read current config'', w2)
                                  | (r, w2) \<Rightarrow>
                                      (let current = (case r of Inr s \<Rightarrow> s | Inl _ \<Rightarrow> []);
                                           oldHash = te_hash env current
                                       in if tr_expected req \<noteq> [] \<and>
                                             to_lower (tr_expected req) \<noteq> to_lower oldHash
                                          then (Reply 409 [(''success'', JBool False),
                                                  (''message'', JStr ''current config changed''),
                                                  (''current_hash'', JStr oldHash)], w2)
                                          else prepare_write env req candidate current w2))))))))"

section \<open>Activate and rollback\<close>

text \<open>The recovery when Xray does not start with the candidate: restore the backup, restart.\<close>

definition activate_recover :: "txn_env \<Rightarrow> string \<Rightarrow> world \<Rightarrow> bool \<times> world" where
  "activate_recover env op w =
     (case read_file (txn_backup_path (te_config env) op) w of
        (Inl _, w1) \<Rightarrow> (False, w1)
      | (Inr backup, w1) \<Rightarrow>
          (case writeFileAtomic (te_config env) backup w1 of
             (Some _, w2) \<Rightarrow> (False, w2)
           | (None, w2) \<Rightarrow>
               (case restart_xray (te_config env) w2 of (r, w3) \<Rightarrow> (r = None, w3))))"

text \<open>From the swap on: write the candidate, restart, record the state or recover.\<close>

definition activate_run :: "txn_env \<Rightarrow> string \<Rightarrow> txn_meta \<Rightarrow> string \<Rightarrow> world \<Rightarrow> reply \<times> world" where
  "activate_run env op meta candidate w =
     (let configPath = te_config env; metaPath = txn_meta_path configPath op
      in (case writeFileAtomic configPath candidate w of
            (Some _, w1) \<Rightarrow> (writeError 500 ''activate config'', w1)
          | (None, w1) \<Rightarrow>
              (case restart_xray configPath w1 of
                 (Some _, w2) \<Rightarrow>
                   (case activate_recover env op w2 of
                      (ok, w3) \<Rightarrow>
                        (case saveConfigTxnMeta env metaPath (meta\<lparr>tm_state := ''prepared''\<rparr>) w3 of
                           (_, w4) \<Rightarrow>
                             (Reply 500 [(''success'', JBool False), (''message'', JStr ''activate failed''),
                                (''rolled_back'', JBool ok)], w4)))
               | (None, w2) \<Rightarrow>
                   (case saveConfigTxnMeta env metaPath (meta\<lparr>tm_state := ''activated''\<rparr>) w2 of
                      (Some _, w3) \<Rightarrow> (writeError 500 ''persist activated state'', w3)
                    | (None, w3) \<Rightarrow>
                        (writeOk [(''state'', JStr ''activated''), (''new_hash'', JStr (tm_new meta))], w3)))))"

definition activateXrayConfigTransaction :: "txn_env \<Rightarrow> string \<Rightarrow> world \<Rightarrow> reply \<times> world" where
  "activateXrayConfigTransaction env op w =
     (let configPath = te_config env
      in (case loadConfigTxnMeta env (txn_meta_path configPath op) w of
            (None, w1) \<Rightarrow> (writeError 404 ''transaction not found'', w1)
          | (Some meta, w1) \<Rightarrow>
              if tm_state meta = ''activated'' then
                (writeOk [(''state'', JStr (tm_state meta)), (''new_hash'', JStr (tm_new meta)),
                          (''idempotent'', JBool True)], w1)
              else if tm_state meta \<noteq> ''prepared'' then (writeError 409 ''transaction is not prepared'', w1)
              else
                (case read_file configPath w1 of
                   (Inl (ErrIO _), w2) \<Rightarrow> (writeError 500 ''read config'', w2)
                 | (r, w2) \<Rightarrow>
                     (let current = (case r of Inr s \<Rightarrow> s | Inl _ \<Rightarrow> [])
                      in if te_hash env current \<noteq> tm_old meta
                         then (writeError 409 ''current config changed after prepare'', w2)
                         else
                           (case read_file (txn_staged_path configPath op) w2 of
                              (Inl _, w3) \<Rightarrow> (writeError 409 ''candidate config missing or changed'', w3)
                            | (Inr candidate, w3) \<Rightarrow>
                                if te_hash env candidate \<noteq> tm_new meta
                                then (writeError 409 ''candidate config missing or changed'', w3)
                                else activate_run env op meta candidate w3)))))"

definition rollback_finish :: "txn_env \<Rightarrow> string \<Rightarrow> txn_meta \<Rightarrow> world \<Rightarrow> reply \<times> world" where
  "rollback_finish env op meta w =
     (case saveConfigTxnMeta env (txn_meta_path (te_config env) op) (meta\<lparr>tm_state := ''rolled_back''\<rparr>) w of
        (Some _, w1) \<Rightarrow> (writeError 500 ''save metadata'', w1)
      | (None, w1) \<Rightarrow> (writeOk [(''state'', JStr ''rolled_back''), (''old_hash'', JStr (tm_old meta))], w1))"

definition rollbackXrayConfigTransaction :: "txn_env \<Rightarrow> string \<Rightarrow> world \<Rightarrow> reply \<times> world" where
  "rollbackXrayConfigTransaction env op w =
     (let configPath = te_config env
      in (case loadConfigTxnMeta env (txn_meta_path configPath op) w of
            (None, w1) \<Rightarrow> (writeError 404 ''transaction not found'', w1)
          | (Some meta, w1) \<Rightarrow>
              (case read_file (txn_backup_path configPath op) w1 of
                 (Inl _, w2) \<Rightarrow> (writeError 409 ''previous config missing or changed'', w2)
               | (Inr backup, w2) \<Rightarrow>
                   if te_hash env backup \<noteq> tm_old meta
                   then (writeError 409 ''previous config missing or changed'', w2)
                   else
                     (case read_or_empty configPath w2 of
                        (current, w3) \<Rightarrow>
                          if te_hash env current = tm_old meta then rollback_finish env op meta w3
                          else
                            (case writeFileAtomic configPath backup w3 of
                               (Some _, w4) \<Rightarrow> (writeError 500 ''restore config'', w4)
                             | (None, w4) \<Rightarrow>
                                 (case restart_xray configPath w4 of
                                    (Some _, w5) \<Rightarrow> (writeError 500 ''restart restored xray'', w5)
                                  | (None, w5) \<Rightarrow> rollback_finish env op meta w5))))))"

section \<open>Commit, abort, status\<close>

definition commit_txn :: "txn_env \<Rightarrow> string \<Rightarrow> world \<Rightarrow> reply \<times> world" where
  "commit_txn env op w =
     (let configPath = te_config env; metaPath = txn_meta_path configPath op
      in (case loadConfigTxnMeta env metaPath w of
            (None, w1) \<Rightarrow> (writeError 404 ''transaction not found'', w1)
          | (Some meta, w1) \<Rightarrow>
              if tm_state meta \<noteq> ''activated'' \<and> tm_state meta \<noteq> ''committed''
              then (writeError 409 ''only an activated transaction can be committed'', w1)
              else
                (case read_or_empty configPath w1 of
                   (current, w2) \<Rightarrow>
                     if te_hash env current \<noteq> tm_new meta
                     then (writeError 409 ''active config does not match transaction'', w2)
                     else
                       (case saveConfigTxnMeta env metaPath (meta\<lparr>tm_state := ''committed''\<rparr>) w2 of
                          (Some _, w3) \<Rightarrow> (writeError 500 ''save metadata'', w3)
                        | (None, w3) \<Rightarrow>
                            (let w4 = snd (remove_file (txn_backup_path configPath op) w3);
                                 w5 = snd (remove_file (txn_staged_path configPath op) w4)
                             in (writeOk [(''state'', JStr ''committed''), (''new_hash'', JStr (tm_new meta))], w5))))))"

text \<open>\<open>os.RemoveAll\<close>: a failure leaves everything, or (as \<open>Torn\<close>) removed what it could.\<close>

definition removeAll :: "string \<Rightarrow> world \<Rightarrow> io_err option \<times> world" where
  "removeAll dir w =
     (let gone = (\<lambda>w. w\<lparr>files := filter (\<lambda>(p, _). \<not> has_prefix p (dir @ ''/'')) (files w)\<rparr>)
      in (case next_outcome w of
            (Works, w1) \<Rightarrow> (None, gone w1)
          | (Fails e, w1) \<Rightarrow> (Some e, w1)
          | (Torn s, w1) \<Rightarrow> (Some (outcome_err (Torn s)), gone w1)))"

definition abort_txn :: "txn_env \<Rightarrow> string \<Rightarrow> world \<Rightarrow> reply \<times> world" where
  "abort_txn env op w =
     (case loadConfigTxnMeta env (txn_meta_path (te_config env) op) w of
        (None, w1) \<Rightarrow> (writeError 404 ''transaction not found'', w1)
      | (Some meta, w1) \<Rightarrow>
          if tm_state meta = ''activated''
          then (writeError 409 ''activated transaction must be rolled back'', w1)
          else
            (case removeAll (txn_dir (te_config env) op) w1 of
               (Some _, w2) \<Rightarrow> (writeError 500 ''remove'', w2)
             | (None, w2) \<Rightarrow> (writeOk [(''state'', JStr ''aborted'')], w2)))"

definition status_txn :: "txn_env \<Rightarrow> string \<Rightarrow> world \<Rightarrow> reply \<times> world" where
  "status_txn env op w =
     (case loadConfigTxnMeta env (txn_meta_path (te_config env) op) w of
        (None, w1) \<Rightarrow> (writeError 404 ''transaction not found'', w1)
      | (Some meta, w1) \<Rightarrow>
          (writeOk [(''transaction'', JObj [(''operation_id'', JStr (tm_op meta)),
             (''config_path'', JStr (tm_path meta)), (''old_hash'', JStr (tm_old meta)),
             (''new_hash'', JStr (tm_new meta)), (''state'', JStr (tm_state meta)),
             (''created_at'', JStr (tm_created meta)), (''updated_at'', JStr (tm_updated meta))])], w1))"

text \<open>\<open>HandleXrayConfigTransaction\<close> after authentication: \<open>body_ok\<close> is the decoded request, \<open>None\<close> when
  the body does not decode.\<close>

definition HandleXrayConfigTransaction ::
  "txn_env \<Rightarrow> bool \<Rightarrow> bool \<Rightarrow> txn_req option \<Rightarrow> world \<Rightarrow> reply \<times> world" where
  "HandleXrayConfigTransaction env authenticated post body_ok w =
     (if \<not> authenticated then (writeError 401 ''Unauthorized'', w)
      else if \<not> post then (writeError 405 ''Method not allowed'', w)
      else
        (case body_ok of
           None \<Rightarrow> (writeError 400 ''Invalid request body'', w)
         | Some req0 \<Rightarrow>
             (let req = req0\<lparr>tr_action := to_lower (trim_space (tr_action req0)),
                             tr_op := trim_space (tr_op req0)\<rparr>
              in if \<not> valid_txn_id (tr_op req) then (writeError 400 ''invalid operation_id'', w)
                 else if tr_action req = ''prepare'' then prepareXrayConfigTransaction env req w
                 else if tr_action req = ''activate'' then activateXrayConfigTransaction env (tr_op req) w
                 else if tr_action req = ''rollback'' then rollbackXrayConfigTransaction env (tr_op req) w
                 else if tr_action req = ''commit'' then commit_txn env (tr_op req) w
                 else if tr_action req = ''abort'' then abort_txn env (tr_op req) w
                 else if tr_action req = ''status'' then status_txn env (tr_op req) w
                 else (writeError 400 ''action must be prepare, activate, rollback, commit, abort, or status'', w))))"

section \<open>Paths of a transaction\<close>

definition env_ok :: "txn_env \<Rightarrow> bool" where
  "env_ok env \<longleftrightarrow>
     (\<exists>d n. te_config env = path_join d n \<and> CHR 0x2F \<notin> set n \<and> \<not> has_prefix n ''.mmwx-txn-'')"

lemma is_alnum_not: "is_alnum c \<Longrightarrow> c \<noteq> CHR 0x2F \<and> c \<noteq> CHR 0x2E"
  by (auto simp: is_alnum_def Let_def)

lemma valid_txn_id_no_slash: "valid_txn_id s \<Longrightarrow> CHR 0x2F \<notin> set s"
  by (cases s) (auto simp: valid_txn_id_def list_all_iff dest: is_alnum_not)

lemma valid_txn_id_hd: "valid_txn_id s \<Longrightarrow> s \<noteq> [] \<and> hd s \<noteq> CHR 0x2E"
  by (cases s) (auto simp: valid_txn_id_def dest: is_alnum_not)

lemma txn_dir_neq: "path_dir p \<noteq> txn_dir p op"
proof
  assume "path_dir p = txn_dir p op"
  from arg_cong [OF this, of length] show False by (simp add: txn_dir_def path_join_def)
qed

text \<open>The three files of a transaction and the configuration are four different files, none of them a
  temporary one; the files of two transactions never meet.\<close>

lemma txn_paths:
  assumes "env_ok env"
  shows "not_temp (te_config env)" "not_temp (txn_meta_path c op)" "not_temp (txn_staged_path c op)"
    "not_temp (txn_backup_path c op)"
    "te_config env \<noteq> txn_meta_path (te_config env) op"
    "te_config env \<noteq> txn_staged_path (te_config env) op"
    "te_config env \<noteq> txn_backup_path (te_config env) op"
    "txn_meta_path c op \<noteq> txn_staged_path c op'" "txn_meta_path c op \<noteq> txn_backup_path c op'"
    "txn_staged_path c op \<noteq> txn_backup_path c op'"
proof -
  from assms obtain d n where e: "te_config env = path_join d n" "CHR 0x2F \<notin> set n" "\<not> has_prefix n ''.mmwx-txn-''"
    by (auto simp: env_ok_def)
  then show "not_temp (te_config env)" by (simp add: not_temp_join del: has_prefix_Cons)
  show "not_temp (txn_meta_path c op)" "not_temp (txn_staged_path c op)" "not_temp (txn_backup_path c op)"
    by (simp_all add: txn_meta_path_def txn_staged_path_def txn_backup_path_def not_temp_join)
  have dir: "path_dir (te_config env) = d" using e by simp
  with txn_dir_neq [of "te_config env" op] e(2)
  show "te_config env \<noteq> txn_meta_path (te_config env) op"
    "te_config env \<noteq> txn_staged_path (te_config env) op"
    "te_config env \<noteq> txn_backup_path (te_config env) op"
    unfolding txn_meta_path_def txn_staged_path_def txn_backup_path_def by (auto simp: e(1))
  show "txn_meta_path c op \<noteq> txn_staged_path c op'" "txn_meta_path c op \<noteq> txn_backup_path c op'"
    "txn_staged_path c op \<noteq> txn_backup_path c op'"
    by (simp_all add: txn_meta_path_def txn_staged_path_def txn_backup_path_def)
qed

lemmas txn_paths_all = txn_paths txn_paths(5-10) [THEN not_sym]

lemma load_snd [simp]:
  "file_at (snd (loadConfigTxnMeta env p w)) q = file_at w q"
  "running (snd (loadConfigTxnMeta env p w)) = running w"
  "files (snd (loadConfigTxnMeta env p w)) = files w"
  by (simp_all add: loadConfigTxnMeta_def case_prod_beta split: sum.splits)

lemma read_or_empty_snd [simp]:
  "file_at (snd (read_or_empty p w)) q = file_at w q"
  "running (snd (read_or_empty p w)) = running w"
  by (simp_all add: read_or_empty_def case_prod_beta split: sum.splits)

lemma save_snd [simp]:
  "running (snd (saveConfigTxnMeta env p m w)) = running w"
  "file_at (snd (saveConfigTxnMeta env p m w)) p =
     (if fst (saveConfigTxnMeta env p m w) = None then Some (te_encm env (m\<lparr>tm_updated := te_now env\<rparr>))
      else file_at w p)"
  "not_temp q \<Longrightarrow> q \<noteq> p \<Longrightarrow> file_at (snd (saveConfigTxnMeta env p m w)) q = file_at w q"
  by (simp_all add: saveConfigTxnMeta_def)

section \<open>Prepare\<close>

lemma prepare_write_frame:
  assumes "env_ok env" and "not_temp q" and "q \<noteq> txn_meta_path (te_config env) (tr_op req)"
    and "q \<noteq> txn_staged_path (te_config env) (tr_op req)" and "q \<noteq> txn_backup_path (te_config env) (tr_op req)"
  shows "file_at (snd (prepare_write env req cand cur w)) q = file_at w q"
    and "running (snd (prepare_write env req cand cur w)) = running w"
  using assms by (simp_all add: prepare_write_def Let_def case_prod_beta split: option.splits)

lemma prepare_frame:
  assumes "env_ok env" and "not_temp q" and "q \<noteq> txn_meta_path (te_config env) (tr_op req)"
    and "q \<noteq> txn_staged_path (te_config env) (tr_op req)" and "q \<noteq> txn_backup_path (te_config env) (tr_op req)"
  shows "file_at (snd (prepareXrayConfigTransaction env req w)) q = file_at w q"
    and "running (snd (prepareXrayConfigTransaction env req w)) = running w"
  using prepare_write_frame [OF assms]
  by (simp_all add: prepareXrayConfigTransaction_def Let_def case_prod_beta
      split: option.splits sum.splits io_err.splits)

lemma prepare_write_ok:
  assumes "env_ok env" and "status (fst (prepare_write env req cand cur w)) = 200"
  shows "file_at (snd (prepare_write env req cand cur w)) (txn_backup_path (te_config env) (tr_op req)) = Some cur \<and>
    file_at (snd (prepare_write env req cand cur w)) (txn_staged_path (te_config env) (tr_op req)) = Some cand \<and>
    file_at (snd (prepare_write env req cand cur w)) (txn_meta_path (te_config env) (tr_op req)) =
      Some (te_encm env \<lparr>tm_op = tr_op req, tm_path = te_config env, tm_old = te_hash env cur,
        tm_new = te_hash env cand, tm_state = ''prepared'', tm_created = te_now env, tm_updated = te_now env\<rparr>)"
  using assms txn_paths_all [OF assms(1)]
  by (auto simp: prepare_write_def Let_def case_prod_beta split: option.splits if_splits)

text \<open>Preparing a transaction is inert and, when it answers 200 for a new operation, complete: for
  every pattern of I/O failures it leaves the active configuration and the running Xray alone, and
  on success the staged candidate is the normalised submission that passed the uniqueness check and
  Xray's own test, the backup holds the exact current bytes, and the metadata records both digests.\<close>

theorem prepare_inert_and_complete:
  assumes "env_ok env" and "prepareXrayConfigTransaction env req w = (r, w')"
  shows "file_at w' (te_config env) = file_at w (te_config env) \<and> running w' = running w \<and>
    (status r = 200 \<and> fst (loadConfigTxnMeta env (txn_meta_path (te_config env) (tr_op req)) w) = None \<longrightarrow>
      (\<exists>parsed. te_dec env (tr_config req) = Some parsed \<and>
         validateUniqueInboundClients (dedupe_config parsed) = None \<and>
         te_test env (te_enc env (dedupe_config parsed)) \<and>
         file_at w' (txn_staged_path (te_config env) (tr_op req)) = Some (te_enc env (dedupe_config parsed)) \<and>
         (\<exists>cur. (file_at w (te_config env) = Some cur \<or> cur = []) \<and>
            file_at w' (txn_backup_path (te_config env) (tr_op req)) = Some cur \<and>
            file_at w' (txn_meta_path (te_config env) (tr_op req)) =
              Some (te_encm env \<lparr>tm_op = tr_op req, tm_path = te_config env, tm_old = te_hash env cur,
                tm_new = te_hash env (te_enc env (dedupe_config parsed)), tm_state = ''prepared'',
                tm_created = te_now env, tm_updated = te_now env\<rparr>))))"
proof (intro conjI impI)
  note p = txn_paths_all [OF assms(1)]
  show "file_at w' (te_config env) = file_at w (te_config env)" "running w' = running w"
    using prepare_frame [OF assms(1) p(1) p(5) p(6) p(7), of req w] assms(2) by simp_all
  let ?load = "loadConfigTxnMeta env (txn_meta_path (te_config env) (tr_op req)) w"
  assume ok: "status r = 200 \<and> fst ?load = None"
  obtain w1 where l: "?load = (None, w1)" using ok by (cases ?load) auto
  then have w1: "file_at w1 q = file_at w q" for q using load_snd(1) by (metis snd_conv)
  have ne: "trim_space (tr_config req) \<noteq> []" using ok assms(2) by (auto simp: prepareXrayConfigTransaction_def)
  from ok assms(2) l ne obtain parsed where dec: "te_dec env (tr_config req) = Some parsed"
    by (auto simp: prepareXrayConfigTransaction_def split: option.splits)
  let ?cand = "te_enc env (dedupe_config parsed)"
  from ok assms(2) l ne dec have v: "validateUniqueInboundClients (dedupe_config parsed) = None" "te_test env ?cand"
    by (auto simp: prepareXrayConfigTransaction_def Let_def split: option.splits if_splits)
  obtain rr w2 where rd: "read_file (te_config env) w1 = (rr, w2)" by fastforce
  have "\<exists>cur. (file_at w (te_config env) = Some cur \<or> cur = []) \<and>
      prepare_write env req ?cand cur w2 = (r, w')"
    using ok assms(2) l ne dec v rd read_file_Inr [of "te_config env" w1] w1
    by (auto simp: prepareXrayConfigTransaction_def Let_def split: sum.splits io_err.splits if_splits)
  then obtain cur where cur: "file_at w (te_config env) = Some cur \<or> cur = []"
    "prepare_write env req ?cand cur w2 = (r, w')" by blast
  with prepare_write_ok [OF assms(1), of req ?cand cur w2] ok dec v
  show "\<exists>parsed. te_dec env (tr_config req) = Some parsed \<and>
         validateUniqueInboundClients (dedupe_config parsed) = None \<and>
         te_test env (te_enc env (dedupe_config parsed)) \<and>
         file_at w' (txn_staged_path (te_config env) (tr_op req)) = Some (te_enc env (dedupe_config parsed)) \<and>
         (\<exists>cur. (file_at w (te_config env) = Some cur \<or> cur = []) \<and>
            file_at w' (txn_backup_path (te_config env) (tr_op req)) = Some cur \<and>
            file_at w' (txn_meta_path (te_config env) (tr_op req)) =
              Some (te_encm env \<lparr>tm_op = tr_op req, tm_path = te_config env, tm_old = te_hash env cur,
                tm_new = te_hash env (te_enc env (dedupe_config parsed)), tm_state = ''prepared'',
                tm_created = te_now env, tm_updated = te_now env\<rparr>))"
    by auto
qed

section \<open>Activate\<close>

lemma recover_props:
  assumes "env_ok env"
  shows "not_temp q \<Longrightarrow> q \<noteq> te_config env \<Longrightarrow> file_at (snd (activate_recover env op w)) q = file_at w q"
    and "fst (activate_recover env op w) \<Longrightarrow>
      \<exists>b. file_at w (txn_backup_path (te_config env) op) = Some b \<and>
        file_at (snd (activate_recover env op w)) (te_config env) = Some b \<and>
        running (snd (activate_recover env op w)) = Some b"
    and "file_at (snd (activate_recover env op w)) (te_config env) \<in>
      {file_at w (te_config env), file_at w (txn_backup_path (te_config env) op)}"
  using txn_paths_all [OF assms] read_fst_Inr [of "txn_backup_path (te_config env) op" w]
  by (auto simp: activate_recover_def case_prod_beta split: sum.splits option.splits)

definition act_meta :: "txn_env \<Rightarrow> string \<Rightarrow> world \<Rightarrow> txn_meta option" where
  "act_meta env op w = fst (loadConfigTxnMeta env (txn_meta_path (te_config env) op) w)"

lemma load_count: "failures (snd (loadConfigTxnMeta env p w)) \<le> failures w"
  using primitive_mono(1) [of p w] by (simp add: loadConfigTxnMeta_def case_prod_beta split: sum.splits)

text \<open>Activation either stops at a guard, with nothing touched, or runs with a checked candidate.\<close>

lemma activate_guards:
  assumes "activateXrayConfigTransaction env op w = (r, w')"
  shows "(files w' = files w \<and> running w' = running w \<and> map_of (body r) ''rolled_back'' = None \<and>
          (status r = 200 \<longrightarrow> (\<exists>m. act_meta env op w = Some m \<and> tm_state m = ''activated''))) \<or>
    (\<exists>meta c w3 cur. act_meta env op w = Some meta \<and> tm_state meta = ''prepared'' \<and>
       (file_at w (te_config env) = Some cur \<or> cur = []) \<and> te_hash env cur = tm_old meta \<and>
       file_at w (txn_staged_path (te_config env) op) = Some c \<and> te_hash env c = tm_new meta \<and>
       files w3 = files w \<and> running w3 = running w \<and> failures w3 \<le> failures w \<and> activate_run env op meta c w3 = (r, w'))"
proof -
  obtain m w1 where l: "loadConfigTxnMeta env (txn_meta_path (te_config env) op) w = (m, w1)" by fastforce
  then have f1: "files w1 = files w" "running w1 = running w" using load_snd by (metis snd_conv)+
  have am: "act_meta env op w = m" using l by (simp add: act_meta_def)
  obtain r2 w2 where 2: "read_file (te_config env) w1 = (r2, w2)" by fastforce
  note f2 = read_file_frame [OF 2]
  obtain r3 w3 where 3: "read_file (txn_staged_path (te_config env) op) w2 = (r3, w3)" by fastforce
  note f3 = read_file_frame [OF 3]
  have "failures w1 \<le> failures w" using load_count [of env "txn_meta_path (te_config env) op" w] l by simp
  then have n: "failures w3 \<le> failures w"
    using primitive_mono(1) [of "te_config env" w1] primitive_mono(1) [of "txn_staged_path (te_config env) op" w2] 2 3 by simp
  have cur: "file_at w (te_config env) = Some s" if "r2 = Inr s" for s
    using read_file_Inr [of "te_config env" w1 s w2] 2 that f1 by (simp add: file_at_def)
  have stg: "file_at w (txn_staged_path (te_config env) op) = Some c" if "r3 = Inr c" for c
    using read_file_Inr [of "txn_staged_path (te_config env) op" w2 c w3] 3 that f1 f2 by (simp add: file_at_def)
  show ?thesis
  proof (cases "\<exists>meta c. m = Some meta \<and> tm_state meta = ''prepared'' \<and> (\<forall>e. r2 \<noteq> Inl (ErrIO e)) \<and>
      te_hash env (case r2 of Inr s \<Rightarrow> s | Inl _ \<Rightarrow> []) = tm_old meta \<and> r3 = Inr c \<and> te_hash env c = tm_new meta")
    case True
    then obtain meta c where t: "m = Some meta" "tm_state meta = ''prepared''" "\<forall>e. r2 \<noteq> Inl (ErrIO e)"
      "te_hash env (case r2 of Inr s \<Rightarrow> s | Inl _ \<Rightarrow> []) = tm_old meta" "r3 = Inr c" "te_hash env c = tm_new meta"
      by blast
    then have "activate_run env op meta c w3 = (r, w')"
      using assms l 2 3 by (auto simp: activateXrayConfigTransaction_def Let_def split: sum.splits io_err.splits)
    moreover have "file_at w (te_config env) = Some (case r2 of Inr s \<Rightarrow> s | Inl _ \<Rightarrow> []) \<or>
        (case r2 of Inr s \<Rightarrow> s | Inl _ \<Rightarrow> []) = []"
      using cur by (cases r2) auto
    ultimately have "act_meta env op w = Some meta \<and> tm_state meta = ''prepared'' \<and>
       (file_at w (te_config env) = Some (case r2 of Inr s \<Rightarrow> s | Inl _ \<Rightarrow> []) \<or>
        (case r2 of Inr s \<Rightarrow> s | Inl _ \<Rightarrow> []) = []) \<and>
       te_hash env (case r2 of Inr s \<Rightarrow> s | Inl _ \<Rightarrow> []) = tm_old meta \<and>
       file_at w (txn_staged_path (te_config env) op) = Some c \<and> te_hash env c = tm_new meta \<and>
       files w3 = files w \<and> running w3 = running w \<and> failures w3 \<le> failures w \<and> activate_run env op meta c w3 = (r, w')"
      using t am stg f1 f2 f3 n by simp
    then show ?thesis by blast
  next
    case False
    then have "files w' = files w \<and> running w' = running w \<and> map_of (body r) ''rolled_back'' = None \<and>
        (status r = 200 \<longrightarrow> (\<exists>x. m = Some x \<and> tm_state x = ''activated''))"
      using assms l 2 3 f1 f2 f3
      by (auto simp: activateXrayConfigTransaction_def Let_def writeError_def writeOk_def
          split: option.splits sum.splits io_err.splits if_splits)
    then show ?thesis using am by simp
  qed
qed

lemma activate_run_props:
  assumes "env_ok env" and "activate_run env op meta c w = (r, w')"
  shows "status r \<notin> {404, 409}"
    and "status r = 200 \<Longrightarrow> file_at w' (te_config env) = Some c \<and> running w' = Some c \<and>
      file_at w' (txn_meta_path (te_config env) op) =
        Some (te_encm env (meta\<lparr>tm_state := ''activated'', tm_updated := te_now env\<rparr>))"
    and "file_at w' (te_config env) \<in>
      {file_at w (te_config env), Some c, file_at w (txn_backup_path (te_config env) op)}"
    and "map_of (body r) ''rolled_back'' = Some (JBool True) \<Longrightarrow>
      \<exists>b. file_at w (txn_backup_path (te_config env) op) = Some b \<and>
        file_at w' (te_config env) = Some b \<and> running w' = Some b"
    and "not_temp q \<Longrightarrow> q \<noteq> te_config env \<Longrightarrow> q \<noteq> txn_meta_path (te_config env) op \<Longrightarrow>
      file_at w' q = file_at w q"
proof -
  note p = txn_paths_all [OF assms(1)] and rc = recover_props [OF assms(1)]
  have run: "r = fst (activate_run env op meta c w)" "w' = snd (activate_run env op meta c w)"
    using assms(2) by simp_all
  show "status r \<notin> {404, 409}"
    unfolding run by (simp add: activate_run_def Let_def case_prod_beta split: option.splits)
  show "status r = 200 \<Longrightarrow> file_at w' (te_config env) = Some c \<and> running w' = Some c \<and>
      file_at w' (txn_meta_path (te_config env) op) =
        Some (te_encm env (meta\<lparr>tm_state := ''activated'', tm_updated := te_now env\<rparr>))"
    unfolding run by (simp add: activate_run_def Let_def case_prod_beta p split: option.splits if_splits)
  show "file_at w' (te_config env) \<in>
      {file_at w (te_config env), Some c, file_at w (txn_backup_path (te_config env) op)}"
  proof (cases "fst (writeFileAtomic (te_config env) c w)")
    case None
    let ?w2 = "snd (restart_xray (te_config env) (snd (writeFileAtomic (te_config env) c w)))"
    from rc(3) [of op ?w2] None show ?thesis
      unfolding run by (simp add: activate_run_def Let_def case_prod_beta p split: option.splits)
  qed (unfold run, simp add: activate_run_def Let_def case_prod_beta p)
  show "map_of (body r) ''rolled_back'' = Some (JBool True) \<Longrightarrow>
      \<exists>b. file_at w (txn_backup_path (te_config env) op) = Some b \<and>
        file_at w' (te_config env) = Some b \<and> running w' = Some b"
  proof (cases "fst (writeFileAtomic (te_config env) c w)")
    case None
    let ?w2 = "snd (restart_xray (te_config env) (snd (writeFileAtomic (te_config env) c w)))"
    assume "map_of (body r) ''rolled_back'' = Some (JBool True)"
    with rc(2) [of op ?w2] None show ?thesis
      unfolding run
      by (simp add: activate_run_def Let_def case_prod_beta p writeError_def writeOk_def split: option.splits)
  qed (unfold run, simp add: activate_run_def Let_def case_prod_beta writeError_def)
  show "not_temp q \<Longrightarrow> q \<noteq> te_config env \<Longrightarrow> q \<noteq> txn_meta_path (te_config env) op \<Longrightarrow>
      file_at w' q = file_at w q"
    unfolding run by (simp add: activate_run_def Let_def case_prod_beta p rc(1) split: option.splits)
qed

lemma recover_count: "failures w = 0 \<Longrightarrow> file_at w (txn_backup_path (te_config env) op) = Some b \<Longrightarrow> fst (activate_recover env op w)"
  by (simp add: activate_recover_def case_prod_beta calm_works calm_stays)

text \<open>The remaining answers of an activation that runs: a refusal by Xray is reported by \<open>rolled_back\<close>; without it an answer
  of 500 means that the swap was not made or that only recording it failed.\<close>

lemma activate_run_failed:
  assumes "env_ok env" and "activate_run env op meta c w = (r, w')"
  shows "map_of (body r) ''rolled_back'' \<noteq> None \<Longrightarrow> failures w \<le> 1 \<Longrightarrow>
      file_at w (txn_backup_path (te_config env) op) = Some b \<Longrightarrow> map_of (body r) ''rolled_back'' = Some (JBool True)"
    and "map_of (body r) ''rolled_back'' = None \<Longrightarrow> status r = 500 \<Longrightarrow>
      file_at w' (te_config env) = file_at w (te_config env) \<and> running w' = running w \<or>
      file_at w' (te_config env) = Some c \<and> running w' = Some c"
proof -
  note p = txn_paths_all [OF assms(1)]
  define w1 where "w1 = snd (writeFileAtomic (te_config env) c w)"
  define w2 where "w2 = snd (restart_xray (te_config env) w1)"
  have run: "r = fst (activate_run env op meta c w)" "w' = snd (activate_run env op meta c w)" using assms(2) by simp_all
  have b: "file_at w2 (txn_backup_path (te_config env) op) = file_at w (txn_backup_path (te_config env) op)"
    by (simp add: w2_def w1_def p)
  show "map_of (body r) ''rolled_back'' = Some (JBool True)"
    if m: "map_of (body r) ''rolled_back'' \<noteq> None" "failures w \<le> 1" "file_at w (txn_backup_path (te_config env) op) = Some b"
  proof -
    have f: "fst (writeFileAtomic (te_config env) c w) = None" "fst (restart_xray (te_config env) w1) \<noteq> None"
      using m(1) unfolding run
      by (auto simp: activate_run_def Let_def case_prod_beta writeError_def writeOk_def w1_def split: option.splits)
    have "failures w2 < failures w1" using primitive_used(3) [OF f(2)] by (simp add: w2_def)
    with m(2) atomic_count(1) [of "te_config env" c w] have "failures w2 = 0" by (simp add: w1_def)
    then have "fst (activate_recover env op w2)" using recover_count b m(3) by simp
    with f show ?thesis unfolding run
      by (auto simp: activate_run_def Let_def case_prod_beta w1_def [symmetric] w2_def [symmetric] split: option.splits)
  qed
  show "file_at w' (te_config env) = file_at w (te_config env) \<and> running w' = running w \<or>
      file_at w' (te_config env) = Some c \<and> running w' = Some c"
    if "map_of (body r) ''rolled_back'' = None" "status r = 500"
    using that unfolding run
    by (auto simp: activate_run_def Let_def case_prod_beta p writeError_def writeOk_def split: option.splits if_splits)
qed

text \<open>C1: Activation is all or nothing. Whatever system calls fail, the active file afterwards holds the old content, the
  staged candidate or the backup, nothing else. An answer of 200 for a prepared transaction means that the file holds the
  candidate whose digest was recorded and Xray runs it; a refusal (404, 409) means that nothing changed at all; an answer
  with \<open>rolled_back\<close> true means that file and running Xray are both the backup again; any other answer of 500 means
  that file and Xray are unchanged or both the candidate. And the recovery does happen: when Xray refuses the candidate
  and nothing else fails, with the backup in place, the answer has \<open>rolled_back\<close> true. (When the recovery itself fails
  too, the answer says so with \<open>rolled_back\<close> false.)\<close>

theorem activate_all_or_nothing:
  assumes "env_ok env" and "activateXrayConfigTransaction env op w = (r, w')"
  shows "file_at w' (te_config env) \<in>
           {file_at w (te_config env), file_at w (txn_staged_path (te_config env) op),
            file_at w (txn_backup_path (te_config env) op)} \<and>
    (\<forall>meta. status r = 200 \<and> act_meta env op w = Some meta \<and> tm_state meta \<noteq> ''activated'' \<longrightarrow>
       tm_state meta = ''prepared'' \<and>
       (\<exists>c. file_at w (txn_staged_path (te_config env) op) = Some c \<and> te_hash env c = tm_new meta \<and>
          file_at w' (te_config env) = Some c \<and> running w' = Some c)) \<and>
    (status r \<in> {404, 409} \<longrightarrow> running w' = running w \<and> (\<forall>q. file_at w' q = file_at w q)) \<and>
    (map_of (body r) ''rolled_back'' = Some (JBool True) \<longrightarrow>
       (\<exists>b. file_at w (txn_backup_path (te_config env) op) = Some b \<and>
          file_at w' (te_config env) = Some b \<and> running w' = Some b)) \<and>
    (map_of (body r) ''rolled_back'' = None \<and> status r = 500 \<longrightarrow>
       file_at w' (te_config env) = file_at w (te_config env) \<and> running w' = running w \<or>
       file_at w' (te_config env) = file_at w (txn_staged_path (te_config env) op) \<and>
         running w' = file_at w (txn_staged_path (te_config env) op)) \<and>
    (failures w \<le> 1 \<and> file_at w (txn_backup_path (te_config env) op) \<noteq> None \<and> map_of (body r) ''rolled_back'' \<noteq> None \<longrightarrow>
       map_of (body r) ''rolled_back'' = Some (JBool True))"
  using activate_guards [OF assms(2)]
proof
  assume "files w' = files w \<and> running w' = running w \<and> map_of (body r) ''rolled_back'' = None \<and>
    (status r = 200 \<longrightarrow> (\<exists>m. act_meta env op w = Some m \<and> tm_state m = ''activated''))"
  then show ?thesis by (auto simp: file_at_def)
next
  assume "\<exists>meta c w3 cur. act_meta env op w = Some meta \<and> tm_state meta = ''prepared'' \<and>
       (file_at w (te_config env) = Some cur \<or> cur = []) \<and> te_hash env cur = tm_old meta \<and>
       file_at w (txn_staged_path (te_config env) op) = Some c \<and> te_hash env c = tm_new meta \<and>
       files w3 = files w \<and> running w3 = running w \<and> failures w3 \<le> failures w \<and> activate_run env op meta c w3 = (r, w')"
  then obtain meta c w3 where h: "act_meta env op w = Some meta" "tm_state meta = ''prepared''"
    "file_at w (txn_staged_path (te_config env) op) = Some c" "te_hash env c = tm_new meta"
    "files w3 = files w" "running w3 = running w" "failures w3 \<le> failures w"
    and run: "activate_run env op meta c w3 = (r, w')" by blast
  have same: "file_at w3 q = file_at w q" for q using h by (simp add: file_at_def)
  note f = activate_run_failed [OF assms(1) run]
  have "failures w \<le> 1 \<Longrightarrow> failures w3 \<le> 1" using h(7) by simp
  with h activate_run_props(1,3) [OF assms(1) run] activate_run_props(2,4) [OF assms(1) run] f same
  show ?thesis by auto
qed

section \<open>Without failures\<close>

lemma quiet_calls:
  assumes "tape w = []"
  shows "read_file p w = ((case file_at w p of None \<Rightarrow> Inl ErrNotExist | Some s \<Rightarrow> Inr s), w)"
    and "sys_call w = (None, w)"
    and "fst (writeFileAtomic p s w) = None" and "tape (snd (writeFileAtomic p s w)) = []"
    and "fst (restart_xray p w) = None" and "tape (snd (restart_xray p w)) = []"
    and "fst (saveConfigTxnMeta env p m w) = None" and "tape (snd (saveConfigTxnMeta env p m w)) = []"
  using assms
  by (simp_all add: read_file_def sys_call_def writeFileAtomic_def fill_temp_def next_outcome_def
      write_file_def rename_file_def remove_file_def restart_xray_def saveConfigTxnMeta_def Let_def
      split: option.splits)

lemma quiet_load:
  "tape w = [] \<Longrightarrow>
   loadConfigTxnMeta env p w = ((case file_at w p of None \<Rightarrow> None | Some b \<Rightarrow> te_decm env b), w)"
  by (simp add: loadConfigTxnMeta_def quiet_calls split: option.splits)

lemma quiet_prepare_write:
  assumes "tape w = []"
  shows "status (fst (prepare_write env req cand cur w)) = 200"
    and "tape (snd (prepare_write env req cand cur w)) = []"
  using assms
  by (simp_all add: prepare_write_def quiet_calls Let_def case_prod_beta split: option.splits)

lemma quiet_prepare:
  assumes "tape w = []" and "file_at w (te_config env) = Some old"
    and "file_at w (txn_meta_path (te_config env) (tr_op req)) = None"
    and "trim_space (tr_config req) \<noteq> []" and "te_dec env (tr_config req) = Some parsed"
    and "validateUniqueInboundClients (dedupe_config parsed) = None"
    and "te_test env (te_enc env (dedupe_config parsed))" and "tr_expected req = []"
  shows "prepareXrayConfigTransaction env req w =
         prepare_write env req (te_enc env (dedupe_config parsed)) old w"
  using assms by (simp add: prepareXrayConfigTransaction_def quiet_load quiet_calls Let_def)

lemma quiet_activate:
  assumes "env_ok env" and "tape w = []" and "file_at w (te_config env) = Some old"
    and "file_at w (txn_meta_path (te_config env) op) = Some b" and "te_decm env b = Some meta"
    and "tm_state meta = ''prepared''" and "te_hash env old = tm_old meta"
    and "file_at w (txn_staged_path (te_config env) op) = Some c" and "te_hash env c = tm_new meta"
  shows "status (fst (activateXrayConfigTransaction env op w)) = 200"
    and "tape (snd (activateXrayConfigTransaction env op w)) = []"
    and "file_at (snd (activateXrayConfigTransaction env op w)) (te_config env) = Some c"
    and "running (snd (activateXrayConfigTransaction env op w)) = Some c"
    and "file_at (snd (activateXrayConfigTransaction env op w)) (txn_meta_path (te_config env) op) =
      Some (te_encm env (meta\<lparr>tm_state := ''activated'', tm_updated := te_now env\<rparr>))"
    and "not_temp q \<Longrightarrow> q \<noteq> te_config env \<Longrightarrow> q \<noteq> txn_meta_path (te_config env) op \<Longrightarrow>
      file_at (snd (activateXrayConfigTransaction env op w)) q = file_at w q"
proof -
  have eq: "activateXrayConfigTransaction env op w = activate_run env op meta c w"
    using assms by (simp add: activateXrayConfigTransaction_def quiet_load quiet_calls Let_def)
  have st: "status (fst (activate_run env op meta c w)) = 200" "tape (snd (activate_run env op meta c w)) = []"
    using assms(2) by (simp_all add: activate_run_def quiet_calls Let_def case_prod_beta split: option.splits)
  obtain r w' where run: "activate_run env op meta c w = (r, w')" by fastforce
  note p = activate_run_props [OF assms(1) run]
  show "status (fst (activateXrayConfigTransaction env op w)) = 200"
    "tape (snd (activateXrayConfigTransaction env op w)) = []"
    "file_at (snd (activateXrayConfigTransaction env op w)) (te_config env) = Some c"
    "running (snd (activateXrayConfigTransaction env op w)) = Some c"
    "file_at (snd (activateXrayConfigTransaction env op w)) (txn_meta_path (te_config env) op) =
      Some (te_encm env (meta\<lparr>tm_state := ''activated'', tm_updated := te_now env\<rparr>))"
    using st p(2) by (simp_all add: eq run)
  show "not_temp q \<Longrightarrow> q \<noteq> te_config env \<Longrightarrow> q \<noteq> txn_meta_path (te_config env) op \<Longrightarrow>
      file_at (snd (activateXrayConfigTransaction env op w)) q = file_at w q"
    using p(5) by (simp add: eq run)
qed

lemma quiet_rollback:
  assumes "env_ok env" and "tape w = []" and "file_at w (te_config env) = Some cur"
    and "file_at w (txn_meta_path (te_config env) op) = Some b" and "te_decm env b = Some meta"
    and "file_at w (txn_backup_path (te_config env) op) = Some old" and "te_hash env old = tm_old meta"
    and "te_hash env cur = tm_old meta \<Longrightarrow> cur = old" and "running w = Some cur"
  shows "status (fst (rollbackXrayConfigTransaction env op w)) = 200"
    and "file_at (snd (rollbackXrayConfigTransaction env op w)) (te_config env) = Some old"
    and "running (snd (rollbackXrayConfigTransaction env op w)) = Some old"
  using assms txn_paths_all [OF assms(1)]
  by (auto simp: rollbackXrayConfigTransaction_def rollback_finish_def read_or_empty_def quiet_load
      quiet_calls Let_def case_prod_beta split: option.splits)

text \<open>C10: A transaction is reversible to the byte: on a system where no call fails, prepare, activate and
  rollback of a new operation answer 200 in turn; prepare leaves the old configuration active,
  activate puts exactly the normalised candidate in the file and into the running Xray, and
  rollback brings back exactly the bytes and the running configuration from before. Used of the
  surroundings: metadata reads back as written, and the digest tells candidate and old apart.\<close>

theorem transaction_roundtrip:
  assumes "env_ok env" and "\<And>m. te_decm env (te_encm env m) = Some m"
    and "tape w = []" and "file_at w (te_config env) = Some old"
    and "file_at w (txn_meta_path (te_config env) (tr_op req)) = None"
    and "trim_space (tr_config req) \<noteq> []" and "te_dec env (tr_config req) = Some parsed"
    and "validateUniqueInboundClients (dedupe_config parsed) = None"
    and "te_test env (te_enc env (dedupe_config parsed))" and "tr_expected req = []"
    and "te_hash env (te_enc env (dedupe_config parsed)) = te_hash env old \<Longrightarrow>
         te_enc env (dedupe_config parsed) = old"
  shows "let (r1, w1) = prepareXrayConfigTransaction env req w;
             (r2, w2) = activateXrayConfigTransaction env (tr_op req) w1;
             (r3, w3) = rollbackXrayConfigTransaction env (tr_op req) w2
         in status r1 = 200 \<and> file_at w1 (te_config env) = Some old \<and> running w1 = running w \<and>
            status r2 = 200 \<and> file_at w2 (te_config env) = Some (te_enc env (dedupe_config parsed)) \<and>
            running w2 = Some (te_enc env (dedupe_config parsed)) \<and>
            status r3 = 200 \<and> file_at w3 (te_config env) = Some old \<and> running w3 = Some old"
proof -
  note p = txn_paths_all [OF assms(1)]
  let ?cand = "te_enc env (dedupe_config parsed)"
  let ?meta = "\<lparr>tm_op = tr_op req, tm_path = te_config env, tm_old = te_hash env old,
    tm_new = te_hash env ?cand, tm_state = ''prepared'', tm_created = te_now env, tm_updated = te_now env\<rparr>"
  obtain r1 w1 where 1: "prepareXrayConfigTransaction env req w = (r1, w1)" by fastforce
  then have e1: "prepare_write env req ?cand old w = (r1, w1)"
    using quiet_prepare [OF assms(3-10)] by simp
  have s1: "status r1 = 200" "tape w1 = []" using quiet_prepare_write [OF assms(3), of env req ?cand old] e1 by simp_all
  have f1: "file_at w1 (txn_backup_path (te_config env) (tr_op req)) = Some old"
    "file_at w1 (txn_staged_path (te_config env) (tr_op req)) = Some ?cand"
    "file_at w1 (txn_meta_path (te_config env) (tr_op req)) = Some (te_encm env ?meta)"
    using prepare_write_ok [OF assms(1), of req ?cand old w] e1 s1 by simp_all
  have c1: "file_at w1 (te_config env) = Some old" "running w1 = running w"
    using prepare_frame [OF assms(1) p(1) p(5) p(6) p(7), of req w] 1 assms(4) by simp_all
  obtain r2 w2 where 2: "activateXrayConfigTransaction env (tr_op req) w1 = (r2, w2)" by fastforce
  note a = quiet_activate [OF assms(1) s1(2) c1(1) f1(3) assms(2) _ _ f1(2), simplified, unfolded 2, simplified]
  obtain r3 w3 where 3: "rollbackXrayConfigTransaction env (tr_op req) w2 = (r3, w3)" by fastforce
  have b2: "file_at w2 (txn_backup_path (te_config env) (tr_op req)) = Some old"
    using a(6) [OF p(4)] p f1 by simp
  have "te_hash env ?cand = te_hash env old \<Longrightarrow> ?cand = old" by (rule assms(11))
  then have "status r3 = 200" "file_at w3 (te_config env) = Some old" "running w3 = Some old"
    using quiet_rollback [OF assms(1) a(2) a(3) a(5) assms(2) b2] a(4) 3 by simp_all
  with 1 2 3 s1 c1 a(1,3,4) show ?thesis by simp
qed

section \<open>The transaction as a state machine\<close>

text \<open>The state recorded for an operation: that of its metadata file, none when there is no readable
  metadata.\<close>

definition txn_state :: "txn_env \<Rightarrow> string \<Rightarrow> world \<Rightarrow> string option" where
  "txn_state env op w =
     (case file_at w (txn_meta_path (te_config env) op) of
        None \<Rightarrow> None
      | Some b \<Rightarrow> map_option tm_state (te_decm env b))"

inductive txn_step :: "string \<Rightarrow> string option \<Rightarrow> string option \<Rightarrow> bool" where
  stay: "txn_step a s s"
| prepare: "txn_step ''prepare'' None (Some ''prepared'')"
| activate: "txn_step ''activate'' (Some ''prepared'') (Some ''activated'')"
| commit: "s \<in> {''activated'', ''committed''} \<Longrightarrow> txn_step ''commit'' (Some s) (Some ''committed'')"
| rollback: "txn_step ''rollback'' (Some s) (Some ''rolled_back'')"
| abort: "s \<noteq> ''activated'' \<Longrightarrow> txn_step ''abort'' (Some s) None"

code_pred txn_step .

inductive_cases from_activated: "txn_step a (Some ''activated'') s"
inductive_cases to_activated: "txn_step a s (Some ''activated'')"
inductive_cases from_nothing: "txn_step a None s"

lemma act_meta_state: "act_meta env op w = Some m \<Longrightarrow> txn_state env op w = Some (tm_state m)"
  using read_fst_Inr [of "txn_meta_path (te_config env) op" w]
  by (auto simp: act_meta_def txn_state_def loadConfigTxnMeta_def case_prod_beta split: sum.splits)

lemma txn_state_same:
  "file_at w' (txn_meta_path (te_config env) op) = file_at w (txn_meta_path (te_config env) op) \<Longrightarrow>
   txn_state env op w' = txn_state env op w"
  by (simp add: txn_state_def)

lemma load_act_meta: "fst (loadConfigTxnMeta env (txn_meta_path (te_config env) op) w) = act_meta env op w"
  by (simp add: act_meta_def)

lemma txn_state_reads [simp]:
  "txn_state env op (snd (read_file p w)) = txn_state env op w"
  "txn_state env op (snd (loadConfigTxnMeta env p w)) = txn_state env op w"
  "txn_state env op (snd (read_or_empty p w)) = txn_state env op w"
  "txn_state env op (snd (sys_call w)) = txn_state env op w"
  "txn_state env op (snd (restart_xray p w)) = txn_state env op w"
  by (simp_all add: txn_state_def)

lemma txn_state_writes:
  assumes "env_ok env"
  shows "p \<noteq> txn_meta_path (te_config env) op \<Longrightarrow>
      txn_state env op (snd (writeFileAtomic p s w)) = txn_state env op w"
    and "(\<And>m. te_decm env (te_encm env m) = Some m) \<Longrightarrow>
      txn_state env op (snd (saveConfigTxnMeta env (txn_meta_path (te_config env) op) m w)) =
      (if fst (saveConfigTxnMeta env (txn_meta_path (te_config env) op) m w) = None
       then Some (tm_state m) else txn_state env op w)"
  using txn_paths_all [OF assms] by (simp_all add: txn_state_def)

text \<open>Whether the metadata can be read at the start of a call (when there is metadata).\<close>

definition readable :: "txn_env \<Rightarrow> string \<Rightarrow> world \<Rightarrow> bool" where
  "readable env op w \<longleftrightarrow> (act_meta env op w = None \<longrightarrow> txn_state env op w = None)"

lemma prepare_state:
  assumes "env_ok env" and law: "\<And>m. te_decm env (te_encm env m) = Some m"
  shows "txn_state env (tr_op req) (snd (prepareXrayConfigTransaction env req w)) = txn_state env (tr_op req) w \<or>
    act_meta env (tr_op req) w = None \<and>
    txn_state env (tr_op req) (snd (prepareXrayConfigTransaction env req w)) = Some ''prepared''"
proof (cases "act_meta env (tr_op req) w")
  case None
  note p = txn_paths_all [OF assms(1)]
  have pw: "txn_state env (tr_op req) (snd (prepare_write env req cand cur w2)) \<in>
      {txn_state env (tr_op req) w2, Some ''prepared''}" for cand cur w2
    using p by (simp add: prepare_write_def txn_state_writes [OF assms(1)] law Let_def case_prod_beta
        split: option.splits)
  have "txn_state env (tr_op req) (snd (prepareXrayConfigTransaction env req w)) \<in>
      {txn_state env (tr_op req) w, Some ''prepared''}"
    using None pw [of _ _ "snd (read_file (te_config env) (snd (loadConfigTxnMeta env (txn_meta_path (te_config env) (tr_op req)) w)))"]
    by (simp add: prepareXrayConfigTransaction_def load_act_meta Let_def case_prod_beta
        split: option.splits sum.splits io_err.splits)
  with None show ?thesis by blast
next
  case (Some m)
  then have "txn_state env (tr_op req) (snd (prepareXrayConfigTransaction env req w)) = txn_state env (tr_op req) w"
    by (intro txn_state_same) (simp add: prepareXrayConfigTransaction_def load_act_meta case_prod_beta)
  then show ?thesis by simp
qed

text \<open>The other calls start from the metadata they read.\<close>

lemma unread_stays:
  assumes "act_meta env op w = None"
  shows "txn_state env op (snd (activateXrayConfigTransaction env op w)) = txn_state env op w"
    "txn_state env op (snd (rollbackXrayConfigTransaction env op w)) = txn_state env op w"
    "txn_state env op (snd (commit_txn env op w)) = txn_state env op w"
    "txn_state env op (snd (abort_txn env op w)) = txn_state env op w"
  using assms
  by (simp_all add: activateXrayConfigTransaction_def rollbackXrayConfigTransaction_def commit_txn_def abort_txn_def
      Let_def load_act_meta case_prod_beta)

lemma activate_state:
  assumes "env_ok env" and law: "\<And>m. te_decm env (te_encm env m) = Some m"
  shows "txn_step ''activate'' (txn_state env op w) (txn_state env op (snd (activateXrayConfigTransaction env op w)))"
proof -
  obtain r w' where a: "activateXrayConfigTransaction env op w = (r, w')" by fastforce
  from activate_guards [OF a] show ?thesis
  proof
    assume "files w' = files w \<and> running w' = running w \<and> map_of (body r) ''rolled_back'' = None \<and>
      (status r = 200 \<longrightarrow> (\<exists>m. act_meta env op w = Some m \<and> tm_state m = ''activated''))"
    then have "txn_state env op w' = txn_state env op w" by (intro txn_state_same) (simp add: file_at_def)
    then show ?thesis by (simp add: a txn_step.stay)
  next
    assume "\<exists>meta c w3 cur. act_meta env op w = Some meta \<and> tm_state meta = ''prepared'' \<and>
       (file_at w (te_config env) = Some cur \<or> cur = []) \<and> te_hash env cur = tm_old meta \<and>
       file_at w (txn_staged_path (te_config env) op) = Some c \<and> te_hash env c = tm_new meta \<and>
       files w3 = files w \<and> running w3 = running w \<and> failures w3 \<le> failures w \<and> activate_run env op meta c w3 = (r, w')"
    then obtain meta c w3 where h: "act_meta env op w = Some meta" "tm_state meta = ''prepared''"
      "files w3 = files w" and run: "activate_run env op meta c w3 = (r, w')" by blast
    from act_meta_state [OF h(1)] h(2) have s: "txn_state env op w = Some ''prepared''" by simp
    have s3: "txn_state env op w3 = txn_state env op w"
      using h(3) by (intro txn_state_same) (simp add: file_at_def)
    have "txn_state env op w' \<in> {txn_state env op w3, Some ''prepared'', Some ''activated''}"
    proof -
      have rec: "txn_state env op (snd (activate_recover env op v)) = txn_state env op v" for v
        using recover_props(1) [OF assms(1)] txn_paths_all [OF assms(1)] by (intro txn_state_same) simp
      have "w' = snd (activate_run env op meta c w3)" using run by simp
      then show ?thesis
        using txn_paths_all [OF assms(1)]
        by (simp add: activate_run_def txn_state_writes [OF assms(1)] rec law Let_def case_prod_beta
            split: option.splits)
    qed
    with s s3 show ?thesis by (auto simp: a intro: txn_step.intros)
  qed
qed

lemma rollback_state:
  assumes "env_ok env" and law: "\<And>m. te_decm env (te_encm env m) = Some m"
  shows "txn_step ''rollback'' (txn_state env op w) (txn_state env op (snd (rollbackXrayConfigTransaction env op w)))"
proof (cases "act_meta env op w")
  case None
  then have "txn_state env op (snd (rollbackXrayConfigTransaction env op w)) = txn_state env op w"
    by (intro txn_state_same) (simp add: rollbackXrayConfigTransaction_def load_act_meta case_prod_beta)
  then show ?thesis by (simp add: txn_step.stay)
next
  case (Some m)
  have fin: "txn_state env op (snd (rollback_finish env op m w')) \<in> {txn_state env op w', Some ''rolled_back''}" for w'
    by (simp add: rollback_finish_def txn_state_writes [OF assms(1)] law case_prod_beta split: option.splits)
  let ?w2 = "snd (read_or_empty (te_config env) (snd (read_file (txn_backup_path (te_config env) op)
      (snd (loadConfigTxnMeta env (txn_meta_path (te_config env) op) w)))))"
  have "txn_state env op (snd (rollbackXrayConfigTransaction env op w)) \<in> {txn_state env op w, Some ''rolled_back''}"
  proof -
    have f2: "txn_state env op (snd (rollback_finish env op m ?w2)) \<in> {txn_state env op w, Some ''rolled_back''}"
      using fin [of ?w2] by simp
    have f3: "txn_state env op (snd (rollback_finish env op m (snd (restart_xray (te_config env)
        (snd (writeFileAtomic (te_config env) b ?w2)))))) \<in> {txn_state env op w, Some ''rolled_back''}" for b
      using fin [of "snd (restart_xray (te_config env) (snd (writeFileAtomic (te_config env) b ?w2)))"]
        txn_paths_all [OF assms(1)]
      by (simp add: txn_state_writes [OF assms(1)])
    show ?thesis
      using Some f2 f3 txn_paths_all [OF assms(1)]
      by (simp add: rollbackXrayConfigTransaction_def load_act_meta Let_def case_prod_beta
          txn_state_writes [OF assms(1)] split: option.splits sum.splits)
  qed
  with act_meta_state [OF Some] show ?thesis by (auto intro: txn_step.intros)
qed

lemma commit_state:
  assumes "env_ok env" and law: "\<And>m. te_decm env (te_encm env m) = Some m"
  shows "txn_step ''commit'' (txn_state env op w) (txn_state env op (snd (commit_txn env op w)))"
proof (cases "act_meta env op w")
  case None
  then have "txn_state env op (snd (commit_txn env op w)) = txn_state env op w"
    by (intro txn_state_same) (simp add: commit_txn_def Let_def load_act_meta case_prod_beta)
  then show ?thesis by (simp add: txn_step.stay)
next
  case (Some m)
  have remove_state: "p \<noteq> txn_meta_path (te_config env) op \<Longrightarrow>
      txn_state env op (snd (remove_file p v)) = txn_state env op v" for p v
    by (rule txn_state_same) simp
  show ?thesis
  proof (cases "tm_state m = ''activated'' \<or> tm_state m = ''committed''")
    case True
    have "txn_state env op (snd (commit_txn env op w)) \<in> {txn_state env op w, Some ''committed''}"
      using Some True txn_paths_all [OF assms(1)] remove_state
      by (simp add: commit_txn_def load_act_meta txn_state_writes [OF assms(1)] law Let_def case_prod_beta
          split: option.splits)
    with act_meta_state [OF Some] True show ?thesis by (auto intro: txn_step.intros)
  next
    case False
    with Some have "txn_state env op (snd (commit_txn env op w)) = txn_state env op w"
      by (intro txn_state_same) (simp add: commit_txn_def Let_def load_act_meta case_prod_beta)
    then show ?thesis by (simp add: txn_step.stay)
  qed
qed

lemma removeAll_at:
  "file_at (snd (removeAll d w)) q = file_at w q \<or>
   has_prefix q (d @ ''/'') \<and> file_at (snd (removeAll d w)) q = None"
  "\<not> has_prefix q (d @ ''/'') \<Longrightarrow> file_at (snd (removeAll d w)) q = file_at w q"
  "running (snd (removeAll d w)) = running w"
proof -
  have f: "map_of (filter (\<lambda>(p, _). \<not> P p) fs) q = (if P q then None else map_of fs q)" for P fs
    by (induction fs) auto
  obtain r w1 where 1: "next_outcome w = (r, w1)" by fastforce
  note n = next_outcome_frame [OF 1]
  show "file_at (snd (removeAll d w)) q = file_at w q \<or>
    has_prefix q (d @ ''/'') \<and> file_at (snd (removeAll d w)) q = None"
    "\<not> has_prefix q (d @ ''/'') \<Longrightarrow> file_at (snd (removeAll d w)) q = file_at w q"
    "running (snd (removeAll d w)) = running w"
    using 1 n by (auto simp: removeAll_def Let_def file_at_def f split: outcome.splits)
qed

lemma abort_state:
  "txn_step ''abort'' (txn_state env op w) (txn_state env op (snd (abort_txn env op w)))"
proof (cases "act_meta env op w")
  case None
  then have "txn_state env op (snd (abort_txn env op w)) = txn_state env op w"
    by (intro txn_state_same) (simp add: abort_txn_def load_act_meta case_prod_beta)
  then show ?thesis by (simp add: txn_step.stay)
next
  case (Some m)
  show ?thesis
  proof (cases "tm_state m = ''activated''")
    case True
    with Some have "txn_state env op (snd (abort_txn env op w)) = txn_state env op w"
      by (intro txn_state_same) (simp add: abort_txn_def load_act_meta case_prod_beta)
    then show ?thesis by (simp add: txn_step.stay)
  next
    case False
    let ?w1 = "snd (loadConfigTxnMeta env (txn_meta_path (te_config env) op) w)"
    have "snd (abort_txn env op w) = snd (removeAll (txn_dir (te_config env) op) ?w1)"
      using Some False by (simp add: abort_txn_def load_act_meta case_prod_beta split: option.splits)
    then have "txn_state env op (snd (abort_txn env op w)) \<in> {txn_state env op w, None}"
      using removeAll_at(1) [of "txn_dir (te_config env) op" ?w1 "txn_meta_path (te_config env) op"]
      by (auto simp: txn_state_def)
    with act_meta_state [OF Some] False show ?thesis by (auto intro: txn_step.intros)
  qed
qed

lemma handler_step:
  assumes "env_ok env" and "\<And>m. te_decm env (te_encm env m) = Some m"
  shows "let a = to_lower (trim_space (tr_action req)); op = trim_space (tr_op req); s = txn_state env op w;
      s' = txn_state env op (snd (HandleXrayConfigTransaction env auth post (Some req) w))
    in if readable env op w then txn_step a s s' else s' = s \<or> a = ''prepare'' \<and> s' = Some ''prepared''"
proof -
  let ?q = "req\<lparr>tr_action := to_lower (trim_space (tr_action req)), tr_op := trim_space (tr_op req)\<rparr>"
  have op: "tr_op ?q = trim_space (tr_op req)" by simp
  note p = prepare_state [OF assms, of ?q w, unfolded op]
  note r = activate_state [OF assms] rollback_state [OF assms] commit_state [OF assms] abort_state
  have u: "act_meta env (trim_space (tr_op req)) w = None \<longrightarrow> txn_state env (trim_space (tr_op req)) w = None \<Longrightarrow>
      txn_step ''prepare'' (txn_state env (trim_space (tr_op req)) w)
        (txn_state env (trim_space (tr_op req)) (snd (prepareXrayConfigTransaction env ?q w)))"
    using p by (auto intro: txn_step.intros)
  show ?thesis
  proof (cases "readable env (trim_space (tr_op req)) w")
    case True
    with u r show ?thesis
      by (auto simp: HandleXrayConfigTransaction_def Let_def status_txn_def case_prod_beta txn_step.stay readable_def
          split: option.splits)
  next
    case False
    then have n: "act_meta env (trim_space (tr_op req)) w = None" by (simp add: readable_def)
    from False p unread_stays [OF n] show ?thesis
      by (auto simp: HandleXrayConfigTransaction_def Let_def status_txn_def case_prod_beta split: option.splits)
  qed
qed

text \<open>C2: A transaction follows its state machine, whatever request arrives, authenticated or not, and whatever I/O fails:
  prepare creates it, activate moves prepared to activated, commit an activated one to committed, rollback ends in
  rolled-back, abort removes one that is not activated; any other call or answer leaves the state alone. The one
  exception is written out: when a transaction exists but its metadata cannot be read at the start of the call, every
  call leaves the state alone except prepare, which may replace the transaction, whatever its state, by a new prepared
  one. So as long as the metadata can be read an activated transaction can only stay, be committed or be rolled back;
  and in every case only a prepared one becomes activated.\<close>

theorem transaction_state_machine:
  assumes "env_ok env" and "\<And>m. te_decm env (te_encm env m) = Some m"
    and "HandleXrayConfigTransaction env authenticated post (Some req) w = (r, w')"
    and "a = to_lower (trim_space (tr_action req))" and "op = trim_space (tr_op req)"
  shows "(if readable env op w then txn_step a (txn_state env op w) (txn_state env op w')
          else txn_state env op w' = txn_state env op w \<or> a = ''prepare'' \<and> txn_state env op w' = Some ''prepared'') \<and>
         (readable env op w \<and> txn_state env op w = Some ''activated'' \<longrightarrow>
            txn_state env op w' \<in> {Some ''activated'', Some ''committed'', Some ''rolled_back''}) \<and>
         (txn_state env op w' = Some ''activated'' \<longrightarrow> txn_state env op w \<in> {Some ''prepared'', Some ''activated''})"
proof -
  have s: "if readable env op w then txn_step a (txn_state env op w) (txn_state env op w')
      else txn_state env op w' = txn_state env op w \<or> a = ''prepare'' \<and> txn_state env op w' = Some ''prepared''"
    using handler_step [OF assms(1,2), of req w authenticated post] assms(3-5) by (simp add: Let_def)
  moreover have "readable env op w \<and> txn_state env op w = Some ''activated'' \<longrightarrow>
      txn_state env op w' \<in> {Some ''activated'', Some ''committed'', Some ''rolled_back''}"
    using s by (auto elim: from_activated)
  moreover have "txn_state env op w' = Some ''activated'' \<longrightarrow> txn_state env op w \<in> {Some ''prepared'', Some ''activated''}"
  proof
    assume t: "txn_state env op w' = Some ''activated''"
    show "txn_state env op w \<in> {Some ''prepared'', Some ''activated''}"
    proof (cases "readable env op w")
      case True
      with s t have "txn_step a (txn_state env op w) (Some ''activated'')" by simp
      then show ?thesis by (rule to_activated) simp_all
    qed (use s t in auto)
  qed
  ultimately show ?thesis by blast
qed

section \<open>Operations do not disturb each other\<close>

lemma rollback_frame:
  assumes "env_ok env" and "not_temp q" and "q \<noteq> te_config env" and "q \<noteq> txn_meta_path (te_config env) op"
  shows "file_at (snd (rollbackXrayConfigTransaction env op w)) q = file_at w q"
  using assms
  by (simp add: rollbackXrayConfigTransaction_def rollback_finish_def Let_def case_prod_beta
      split: option.splits sum.splits)

lemma commit_frame:
  assumes "env_ok env" and "not_temp q" and "q \<noteq> txn_meta_path (te_config env) op"
    and "q \<noteq> txn_staged_path (te_config env) op" and "q \<noteq> txn_backup_path (te_config env) op"
  shows "file_at (snd (commit_txn env op w)) q = file_at w q"
  using assms by (simp add: commit_txn_def Let_def case_prod_beta split: option.splits)

lemma abort_frame:
  assumes "\<not> has_prefix q (txn_dir (te_config env) op @ ''/'')"
  shows "file_at (snd (abort_txn env op w)) q = file_at w q"
  using assms removeAll_at(2) by (simp add: abort_txn_def case_prod_beta split: option.splits)

lemma activate_frame:
  assumes "env_ok env" and "not_temp q" and "q \<noteq> te_config env" and "q \<noteq> txn_meta_path (te_config env) op"
  shows "file_at (snd (activateXrayConfigTransaction env op w)) q = file_at w q"
proof -
  obtain r w' where a: "activateXrayConfigTransaction env op w = (r, w')" by fastforce
  from activate_guards [OF a] show ?thesis
    using activate_run_props(5) [OF assms(1) _ assms(2-4)] by (auto simp: a file_at_def)
qed

lemma in_dir: "has_prefix (path_join d n) (d @ ''/'')"
  by (simp add: path_join_def has_prefix_iff del: has_prefix_Cons)

lemma handler_frame:
  assumes "env_ok env" and "not_temp q" and "q \<noteq> te_config env"
    and "\<not> has_prefix q (txn_dir (te_config env) (trim_space (tr_op req)) @ ''/'')"
  shows "file_at (snd (HandleXrayConfigTransaction env auth post (Some req) w)) q = file_at w q"
proof -
  let ?q = "req\<lparr>tr_action := to_lower (trim_space (tr_action req)), tr_op := trim_space (tr_op req)\<rparr>"
  let ?op = "trim_space (tr_op req)"
  have ne: "q \<noteq> txn_meta_path (te_config env) ?op" "q \<noteq> txn_staged_path (te_config env) ?op"
    "q \<noteq> txn_backup_path (te_config env) ?op"
    using assms(4) in_dir unfolding txn_meta_path_def txn_staged_path_def txn_backup_path_def by blast+
  have pf: "file_at (snd (prepareXrayConfigTransaction env ?q w)) q = file_at w q"
    using prepare_frame(1) [OF assms(1,2), of ?q w] ne by simp
  show ?thesis
    using pf activate_frame [OF assms(1-3) ne(1)] rollback_frame [OF assms(1-3) ne(1)]
      commit_frame [OF assms(1,2) ne] abort_frame [OF assms(4)]
    by (auto simp: HandleXrayConfigTransaction_def Let_def status_txn_def case_prod_beta split: option.splits)
qed

lemma dir_prefix_inj:
  assumes "CHR 0x2F \<notin> set a" and "CHR 0x2F \<notin> set b" and "has_prefix (d @ ''/'' @ b @ ''/'' @ r) (d @ ''/'' @ a @ ''/'')"
  shows "a = b"
proof -
  from assms(3) obtain s where "d @ ''/'' @ b @ ''/'' @ r = (d @ ''/'' @ a @ ''/'') @ s"
    unfolding has_prefix_iff by blast
  then have eq: "b @ CHR 0x2F # r = a @ CHR 0x2F # s" by simp
  have "takeWhile (\<lambda>c. c \<noteq> CHR 0x2F) (x @ CHR 0x2F # y) = x" if "CHR 0x2F \<notin> set x" for x y
    using that by (subst takeWhile_append2) auto
  with eq assms(1,2) show ?thesis by metis
qed

text \<open>Operations are isolated: whatever a call for one operation does and whatever fails, the three
  files of every other operation keep their content. (The identifier check keeps an identifier from
  leaving its own directory.)\<close>

theorem transaction_isolation:
  assumes "env_ok env" and "valid_txn_id op'" and "valid_txn_id (trim_space (tr_op req))"
    and "op' \<noteq> trim_space (tr_op req)"
    and "q \<in> {txn_meta_path (te_config env) op', txn_staged_path (te_config env) op', txn_backup_path (te_config env) op'}"
    and "HandleXrayConfigTransaction env auth post (Some req) w = (r, w')"
  shows "file_at w' q = file_at w q"
proof -
  note p = txn_paths_all [OF assms(1)]
  let ?b = "path_join (path_dir (te_config env)) ''.mmwx-config-transactions''"
  from assms(5) obtain n where n: "q = path_join (txn_dir (te_config env) op') n"
    by (auto simp: txn_meta_path_def txn_staged_path_def txn_backup_path_def)
  have "\<not> has_prefix q (txn_dir (te_config env) (trim_space (tr_op req)) @ ''/'')"
  proof
    assume "has_prefix q (txn_dir (te_config env) (trim_space (tr_op req)) @ ''/'')"
    then have "has_prefix (?b @ ''/'' @ op' @ ''/'' @ n) (?b @ ''/'' @ trim_space (tr_op req) @ ''/'')"
      by (simp add: n txn_dir_def path_join_def del: has_prefix_Cons)
    with dir_prefix_inj [of "trim_space (tr_op req)" op'] assms(2,3) have "trim_space (tr_op req) = op'"
      using valid_txn_id_no_slash by blast
    with assms(4) show False by simp
  qed
  moreover have "not_temp q" "q \<noteq> te_config env" using assms(5) p by auto
  ultimately have "file_at (snd (HandleXrayConfigTransaction env auth post (Some req) w)) q = file_at w q"
    by (intro handler_frame [OF assms(1)])
  then show ?thesis using assms(6) by simp
qed

section \<open>A concrete system\<close>

definition meta_pack :: "txn_meta \<Rightarrow> string" where
  "meta_pack m = pack [tm_op m, tm_path m, tm_old m, tm_new m, tm_state m, tm_created m, tm_updated m]"

definition meta_unpack :: "string \<Rightarrow> txn_meta option" where
  "meta_unpack s =
     (case unpack [] s of
        Some [a, b, c, d, e, f, g] \<Rightarrow>
          Some \<lparr>tm_op = a, tm_path = b, tm_old = c, tm_new = d, tm_state = e, tm_created = f, tm_updated = g\<rparr>
      | _ \<Rightarrow> None)"

lemma meta_codec [simp]: "meta_unpack (meta_pack m) = Some m"
  by (simp add: meta_pack_def meta_unpack_def del: pack.simps)

definition demo_env :: txn_env where
  "demo_env =
     \<lparr>te_dec = (\<lambda>s. if s = ''cfg'' then Some [] else None), te_enc = (\<lambda>_. ''{}''),
      te_decm = meta_unpack, te_encm = meta_pack, te_hash = (\<lambda>s. s), te_test = (\<lambda>_. True),
      te_now = ''now'', te_config = ''/e/c.json''\<rparr>"

definition demo_world :: world where
  "demo_world = \<lparr>files = [(''/e/c.json'', ''old'')], tape = [], running = Some ''old'', api = []\<rparr>"

definition demo_req :: txn_req where
  "demo_req = \<lparr>tr_action = ''prepare'', tr_op = ''op-00001'', tr_config = ''cfg'', tr_expected = []\<rparr>"

lemma demo_env_ok: "env_ok demo_env"
  unfolding env_ok_def demo_env_def
  by (intro exI [of _ "''/e''"] exI [of _ "''c.json''"]) (simp add: path_join_def)

lemma demo_codec: "te_decm demo_env (te_encm demo_env m) = Some m"
  by (simp add: demo_env_def)

lemma demo_meta_path: "txn_meta_path (te_config demo_env) op = ''/e/.mmwx-config-transactions/'' @ op @ ''/meta.json''"
  by (simp add: demo_env_def txn_meta_path_def txn_dir_def path_dir_def path_join_def)

lemma demo_valid: "valid_txn_id ''op-00001''" "valid_txn_id ''op-00002''"
  by (simp_all add: valid_txn_id_def is_alnum_def)

lemma prepare_inert_and_complete_witness:
  "file_at (snd (prepareXrayConfigTransaction demo_env demo_req demo_world)) ''/e/c.json'' = Some ''old''"
  using prepare_inert_and_complete [OF demo_env_ok, of demo_req demo_world
      "fst (prepareXrayConfigTransaction demo_env demo_req demo_world)"
      "snd (prepareXrayConfigTransaction demo_env demo_req demo_world)"]
  by (simp add: demo_world_def demo_env_def file_at_def)

text \<open>A prepared transaction, and a restart that fails: the eleven calls before it work.\<close>

definition prepared_world :: world where
  "prepared_world =
     \<lparr>files = [(''/e/c.json'', ''old''), (txn_staged_path ''/e/c.json'' ''op-00001'', ''{}''),
        (txn_backup_path ''/e/c.json'' ''op-00001'', ''old''),
        (txn_meta_path ''/e/c.json'' ''op-00001'',
         meta_pack \<lparr>tm_op = ''op-00001'', tm_path = ''/e/c.json'', tm_old = ''old'', tm_new = ''{}'', tm_state = ''prepared'',
           tm_created = ''now'', tm_updated = ''now''\<rparr>)],
      tape = replicate 11 Works @ [Fails (ErrIO ''exit status 1'')], running = Some ''old'', api = []\<rparr>"

lemma prepared_refused:
  "map_of (body (fst (activateXrayConfigTransaction demo_env ''op-00001'' prepared_world))) ''rolled_back'' \<noteq> None"
  by code_simp

lemma prepared_backup: "file_at prepared_world (txn_backup_path ''/e/c.json'' ''op-00001'') = Some ''old''" by code_simp

lemma activate_all_or_nothing_witness:
  "(let (r, w') = activateXrayConfigTransaction demo_env ''op-00001'' prepared_world
    in map_of (body r) ''rolled_back'' = Some (JBool True) \<and>
       file_at w' ''/e/c.json'' = Some ''old'' \<and> running w' = Some ''old'')"
proof -
  obtain r w' where a: "activateXrayConfigTransaction demo_env ''op-00001'' prepared_world = (r, w')" by (metis surj_pair)
  have c: "te_config demo_env = ''/e/c.json''" by (simp add: demo_env_def)
  have f: "failures prepared_world \<le> 1" by (simp add: failures_def prepared_world_def)
  from activate_all_or_nothing [OF demo_env_ok a] prepared_refused prepared_backup f a show ?thesis by (simp add: c)
qed

lemma transaction_roundtrip_witness:
  "let (r1, w1) = prepareXrayConfigTransaction demo_env demo_req demo_world;
       (r2, w2) = activateXrayConfigTransaction demo_env ''op-00001'' w1;
       (r3, w3) = rollbackXrayConfigTransaction demo_env ''op-00001'' w2
   in status r1 = 200 \<and> status r2 = 200 \<and> file_at w2 ''/e/c.json'' = Some ''{}'' \<and>
      running w2 = Some ''{}'' \<and> status r3 = 200 \<and> file_at w3 ''/e/c.json'' = Some ''old'' \<and>
      running w3 = Some ''old''"
proof -
  have no_meta: "file_at demo_world (txn_meta_path (te_config demo_env) (tr_op demo_req)) = None"
    by (simp add: demo_meta_path demo_req_def demo_world_def file_at_def)
  have d: "dedupe_config [] = []" by (simp add: dedupe_config_same)
  have n: "trim_space (tr_config demo_req) \<noteq> []"
    by (simp add: demo_req_def trim_space_def trim_func_def trim_left_def trim_right_def is_space_def)
  have v: "validateUniqueInboundClients (dedupe_config []) = None"
    by (simp add: d validateUniqueInboundClients_def)
  have "let (r1, w1) = prepareXrayConfigTransaction demo_env demo_req demo_world;
      (r2, w2) = activateXrayConfigTransaction demo_env (tr_op demo_req) w1;
      (r3, w3) = rollbackXrayConfigTransaction demo_env (tr_op demo_req) w2
    in status r1 = 200 \<and> file_at w1 (te_config demo_env) = Some ''old'' \<and> running w1 = running demo_world \<and>
       status r2 = 200 \<and> file_at w2 (te_config demo_env) = Some (te_enc demo_env (dedupe_config [])) \<and>
       running w2 = Some (te_enc demo_env (dedupe_config [])) \<and>
       status r3 = 200 \<and> file_at w3 (te_config demo_env) = Some ''old'' \<and> running w3 = Some ''old''"
    by (rule transaction_roundtrip [OF demo_env_ok demo_codec _ _ no_meta n _ v])
      (simp_all add: demo_world_def demo_env_def demo_req_def file_at_def)
  moreover have "tr_op demo_req = ''op-00001''" "te_config demo_env = ''/e/c.json''"
    "te_enc demo_env (dedupe_config []) = ''{}''"
    by (simp_all add: demo_req_def demo_env_def)
  ultimately show ?thesis by (simp add: case_prod_beta Let_def)
qed

lemma transaction_state_machine_witness:
  "txn_step ''prepare'' None
     (txn_state demo_env ''op-00001'' (snd (HandleXrayConfigTransaction demo_env True True (Some demo_req) demo_world)))"
proof -
  have t: "''prepare'' = to_lower (trim_space (tr_action demo_req))" "''op-00001'' = trim_space (tr_op demo_req)"
    by (simp_all add: demo_req_def trim_space_def trim_func_def trim_left_def trim_right_def is_space_def
        to_lower_def to_lower_char_def)
  have s: "txn_state demo_env ''op-00001'' demo_world = None"
    by (simp add: txn_state_def demo_meta_path demo_world_def file_at_def)
  show ?thesis
    using transaction_state_machine [OF demo_env_ok demo_codec _ t, of True True demo_world
        "fst (HandleXrayConfigTransaction demo_env True True (Some demo_req) demo_world)"
        "snd (HandleXrayConfigTransaction demo_env True True (Some demo_req) demo_world)"] s
    by (simp add: readable_def)
qed

text \<open>The exception happens: a prepare whose reading of the metadata fails starts an activated transaction anew, with a
  backup of the configuration that is active by then.\<close>

lemma prepare_overwrites_unread:
  "(let w = demo_world\<lparr>files := [(''/e/c.json'', ''{}''),
          (txn_meta_path ''/e/c.json'' ''op-00001'',
           meta_pack \<lparr>tm_op = ''op-00001'', tm_path = ''/e/c.json'', tm_old = ''old'', tm_new = ''{}'', tm_state = ''activated'',
             tm_created = ''now'', tm_updated = ''now''\<rparr>)],
          tape := [Fails (ErrIO ''input/output error'')]\<rparr>
    in txn_state demo_env ''op-00001'' w = Some ''activated'' \<and>
       txn_state demo_env ''op-00001'' (snd (HandleXrayConfigTransaction demo_env True True (Some demo_req) w)) = Some ''prepared'')"
  by code_simp

lemma transaction_isolation_witness:
  "let w = put_file (txn_meta_path ''/e/c.json'' ''op-00002'') ''m'' demo_world
   in file_at (snd (HandleXrayConfigTransaction demo_env True True (Some demo_req) w))
        (txn_meta_path ''/e/c.json'' ''op-00002'') = Some ''m''"
proof -
  let ?w = "put_file (txn_meta_path ''/e/c.json'' ''op-00002'') ''m'' demo_world"
  have t: "trim_space (tr_op demo_req) = ''op-00001''" "te_config demo_env = ''/e/c.json''"
    by (simp_all add: demo_env_def demo_req_def trim_space_def trim_func_def trim_left_def trim_right_def is_space_def)
  have "file_at (snd (HandleXrayConfigTransaction demo_env True True (Some demo_req) ?w))
      (txn_meta_path (te_config demo_env) ''op-00002'') = file_at ?w (txn_meta_path (te_config demo_env) ''op-00002'')"
    by (rule transaction_isolation [OF demo_env_ok demo_valid(2)])
      (auto simp: t demo_valid prod_eq_iff)
  then show ?thesis by (simp add: t)
qed

text \<open>Two observations about the protocol. A transaction that was only prepared can be rolled back, and
  that overwrites a configuration changed in the meantime. And repeating a prepare is refused when
  the submitted text is not already in the normal form the agent writes, because the repeated text
  is compared with the digest of the normalised one.\<close>

lemma rollback_of_prepared_overwrites:
  assumes "env_ok env" and "tape w = []" and "file_at w (te_config env) = Some newer"
    and "file_at w (txn_meta_path (te_config env) op) = Some b" and "te_decm env b = Some meta"
    and "tm_state meta = ''prepared''"
    and "file_at w (txn_backup_path (te_config env) op) = Some old" and "te_hash env old = tm_old meta"
    and "te_hash env newer \<noteq> tm_old meta"
  shows "file_at (snd (rollbackXrayConfigTransaction env op w)) (te_config env) = Some old"
  using assms txn_paths_all [OF assms(1)]
  by (auto simp: rollbackXrayConfigTransaction_def rollback_finish_def read_or_empty_def quiet_load
      quiet_calls Let_def case_prod_beta split: option.splits)

lemma prepare_again_refused:
  assumes "tape w = []" and "trim_space (tr_config req) \<noteq> []"
    and "file_at w (txn_meta_path (te_config env) (tr_op req)) = Some b" and "te_decm env b = Some meta"
    and "tm_new meta = te_hash env (te_enc env (dedupe_config parsed))"
    and "te_hash env (te_enc env (dedupe_config parsed)) \<noteq> te_hash env (tr_config req)"
  shows "status (fst (prepareXrayConfigTransaction env req w)) = 409"
  using assms by (simp add: prepareXrayConfigTransaction_def quiet_load)

end
