(* ===== verification/Config_Edits.thy ===== *)
theory Config_Edits
  imports Inbound_Clients Xray_Merge
begin

text \<open>
  The edits of a decoded Xray configuration behind the management API
  (\<open>internal/handler/management_handler.go\<close>): generated tags, inbounds and outbounds added,
  replaced, removed and reordered, and the routing rules edited. The handlers that read and write
  the file around them are in \<open>Config_Handlers\<close>.
\<close>

section \<open>Generated tags\<close>

definition generated_tag :: "string \<Rightarrow> int \<Rightarrow> string" where
  "generated_tag protocol n = protocol @ ''-'' @ itoa n"

definition promoteOneInboundTag :: "obj \<Rightarrow> obj \<times> bool" where
  "promoteOneInboundTag m =
     (if get_str m ''tag'' \<noteq> [] then (m, False)
      else if get_str m ''protocol'' = [] then (m, False)
      else
        (let port = get_int m ''port''
         in if port \<le> 0 then (m, False)
            else (jset ''tag'' (JStr (generated_tag (get_str m ''protocol'') port)) m, True)))"

definition promote_item :: "json \<Rightarrow> json \<times> bool" where
  "promote_item ib =
     (case as_obj ib of
        None \<Rightarrow> (ib, False)
      | Some m \<Rightarrow> (case promoteOneInboundTag m of (m', c) \<Rightarrow> (JObj m', c)))"

text \<open>The decoded file with its tags filled in, and whether any was: a whole configuration, or a
  file that is a single inbound.\<close>

definition promote_inbounds :: "obj \<Rightarrow> obj \<times> bool" where
  "promote_inbounds raw =
     (case get_arr raw ''inbounds'' of
        Some arr \<Rightarrow>
          (let changed = list_ex (snd \<circ> promote_item) arr
           in (if changed then jset ''inbounds'' (JArr (List.map (fst \<circ> promote_item) arr)) raw else raw,
               changed))
      | None \<Rightarrow>
          (case map_of raw ''protocol'' of
             Some (JStr _) \<Rightarrow> promoteOneInboundTag raw
           | _ \<Rightarrow> (raw, False)))"

definition promoteInboundTagsInFile ::
  "(string \<Rightarrow> obj option) \<Rightarrow> (obj \<Rightarrow> string) \<Rightarrow> string \<Rightarrow> world \<Rightarrow> world" where
  "promoteInboundTagsInFile dec enc path w =
     (case read_file path w of
        (Inl _, w1) \<Rightarrow> w1
      | (Inr content, w1) \<Rightarrow>
          (case dec content of
             None \<Rightarrow> w1
           | Some raw \<Rightarrow>
               (case promote_inbounds raw of
                  (raw', changed) \<Rightarrow>
                    if \<not> changed then w1 else snd (write_file path (enc raw') w1))))"

text \<open>An outbound without a tag is named after its protocol and its place in the array.\<close>

fun promote_outbounds_from :: "nat \<Rightarrow> json list \<Rightarrow> json list \<times> bool" where
  "promote_outbounds_from i [] = ([], False)"
| "promote_outbounds_from i (ob # obs) =
     (case promote_outbounds_from (i + 1) obs of
        (obs', changed) \<Rightarrow>
          (case as_obj ob of
             None \<Rightarrow> (ob # obs', changed)
           | Some m \<Rightarrow>
               if get_str m ''tag'' \<noteq> [] then (ob # obs', changed)
               else if get_str m ''protocol'' = [] then (ob # obs', changed)
               else (JObj (jset ''tag'' (JStr (generated_tag (get_str m ''protocol'') (int i))) m) # obs',
                     True)))"

definition promoteOutboundTagsInFile ::
  "(string \<Rightarrow> obj option) \<Rightarrow> (obj \<Rightarrow> string) \<Rightarrow> string \<Rightarrow> world \<Rightarrow> world" where
  "promoteOutboundTagsInFile dec enc configPath w =
     (case read_file configPath w of
        (Inl _, w1) \<Rightarrow> w1
      | (Inr content, w1) \<Rightarrow>
          (case dec content of
             None \<Rightarrow> w1
           | Some config \<Rightarrow>
               (case get_arr config ''outbounds'' of
                  None \<Rightarrow> w1
                | Some arr \<Rightarrow>
                    (case promote_outbounds_from 0 arr of
                       (arr', changed) \<Rightarrow>
                         if \<not> changed then w1
                         else snd (write_file configPath (enc (jset ''outbounds'' (JArr arr') config)) w1)))))"

section \<open>Listing inbounds\<close>

definition readInboundsFromJSON :: "obj \<Rightarrow> obj list" where
  "readInboundsFromJSON raw =
     (case get_arr raw ''inbounds'' of
        Some arr \<Rightarrow> List.map_filter as_obj arr
      | None \<Rightarrow>
          (case map_of raw ''protocol'' of Some (JStr _) \<Rightarrow> [raw] | _ \<Rightarrow> []))"

definition list_config_inbound :: "string list \<Rightarrow> obj \<Rightarrow> obj option" where
  "list_config_inbound runtimeTags ib =
     (let tag = get_str ib ''tag''
      in if tag = ''api'' then None
         else
           (let protocol = get_str ib ''protocol''; port = get_int ib ''port'';
                ib1 = (if tag = [] \<and> protocol \<noteq> [] \<and> 0 < port
                       then jset ''_generated_tag'' (JBool True)
                              (jset ''tag'' (JStr (generated_tag protocol port)) ib)
                       else ib);
                ib2 = jset ''_runtime_status''
                        (JStr (if tag \<in> set runtimeTags then ''running'' else ''not_running'')) ib1
            in Some (jset ''_source'' (JStr ''config'') ib2)))"

definition runtime_only_inbound :: "string \<Rightarrow> obj" where
  "runtime_only_inbound tag =
     [(''tag'', JStr tag), (''_runtime_status'', JStr ''running''), (''_source'', JStr ''runtime_only''),
      (''_warning'', JStr ''This inbound is not persisted and will be lost on restart'')]"

definition mergeInbounds :: "obj list \<Rightarrow> string list \<Rightarrow> obj list" where
  "mergeInbounds configInbounds runtimeTags =
     (let configTags = List.map_filter (\<lambda>ib. Option.bind (map_of ib ''tag'') as_str) configInbounds
      in List.map_filter (list_config_inbound runtimeTags) configInbounds @
         List.map runtime_only_inbound (filter (\<lambda>t. t \<notin> set configTags) runtimeTags))"

definition api_port_of :: "obj \<Rightarrow> int" where
  "api_port_of config =
     (case get_arr config ''inbounds'' of
        None \<Rightarrow> 0
      | Some ibs \<Rightarrow>
          (case List.map_filter
                  (\<lambda>ib. case as_obj ib of
                          Some m \<Rightarrow>
                            (if get_str m ''tag'' = ''api''
                             then (case map_of m ''port'' of Some (JNum a e) \<Rightarrow> Some (num_trunc a e) | _ \<Rightarrow> None)
                             else None)
                        | None \<Rightarrow> None) ibs of
             p # _ \<Rightarrow> p
           | [] \<Rightarrow> 10085))"

section \<open>Inbounds\<close>

definition has_tag :: "string \<Rightarrow> json \<Rightarrow> bool" where
  "has_tag tag x \<longleftrightarrow> (case as_obj x of Some m \<Rightarrow> get_str m ''tag'' = tag | None \<Rightarrow> False)"

text \<open>Replace the first element with the tag, append when there is none.\<close>

definition put_tagged :: "string \<Rightarrow> obj \<Rightarrow> json list \<Rightarrow> json list" where
  "put_tagged tag x xs =
     (if list_ex (has_tag tag) xs then update_first (has_tag tag) (\<lambda>_. JObj x) xs else xs @ [JObj x])"

definition persist_inbound :: "obj \<Rightarrow> obj \<Rightarrow> obj" where
  "persist_inbound inbound config =
     (let newTag = get_str inbound ''tag''; inbounds = get_list config ''inbounds'';
          inbounds' = (if newTag \<noteq> [] then put_tagged newTag inbound inbounds
                       else inbounds @ [JObj inbound])
      in dedupe_config (jset ''inbounds'' (JArr inbounds') config))"

definition inboundMatchesRemovalTag :: "obj \<Rightarrow> string \<Rightarrow> bool" where
  "inboundMatchesRemovalTag inbound tag =
     (if get_str inbound ''tag'' \<noteq> [] then get_str inbound ''tag'' = tag
      else
        (let protocol = get_str inbound ''protocol''; port = get_int inbound ''port''
         in protocol \<noteq> [] \<and> 0 < port \<and> tag = generated_tag protocol port))"

text \<open>One rule of \<open>removeInboundRoutingReferences\<close>: what is left of it and how many references
  went. (The \<open>[]string\<close> case of the source never arises from decoded JSON.)\<close>

definition strip_rule :: "string \<Rightarrow> json \<Rightarrow> json option \<times> nat" where
  "strip_rule tag rawRule =
     (case as_obj rawRule of
        None \<Rightarrow> (Some rawRule, 0)
      | Some rule \<Rightarrow>
          (case map_of rule ''inboundTag'' of
             None \<Rightarrow> (Some rawRule, 0)
           | Some (JArr tags) \<Rightarrow>
               (let remaining = filter (\<lambda>t. as_str t \<noteq> Some tag) tags;
                    n = length tags - length remaining
                in if remaining = [] \<and> tags \<noteq> [] then (None, n)
                   else if length remaining \<noteq> length tags
                   then (Some (JObj (jset ''inboundTag'' (JArr remaining) rule)), n)
                   else (Some rawRule, n))
           | Some (JStr s) \<Rightarrow> (if s = tag then (None, 1) else (Some rawRule, 0))
           | Some _ \<Rightarrow> (Some rawRule, 0)))"

definition removeInboundRoutingReferences :: "obj \<Rightarrow> string \<Rightarrow> obj \<times> nat" where
  "removeInboundRoutingReferences config tag =
     (case get_obj config ''routing'' of
        None \<Rightarrow> (config, 0)
      | Some routing \<Rightarrow>
          (case get_arr routing ''rules'' of
             None \<Rightarrow> (config, 0)
           | Some rules \<Rightarrow>
               (let kept = List.map_filter (fst \<circ> strip_rule tag) rules;
                    changed = sum_list (List.map (snd \<circ> strip_rule tag) rules)
                in (if 0 < changed
                    then jset ''routing'' (JObj (jset ''rules'' (JArr kept) routing)) config
                    else config, changed))))"

definition keep_inbound :: "string \<Rightarrow> json \<Rightarrow> bool" where
  "keep_inbound tag ib \<longleftrightarrow>
     (case as_obj ib of None \<Rightarrow> True | Some m \<Rightarrow> \<not> inboundMatchesRemovalTag m tag)"

text \<open>A \<open>nil\<close> slice is written as \<open>null\<close>: that is what an emptied list becomes.\<close>

definition nil_slice :: "json list \<Rightarrow> json" where
  "nil_slice xs = (if xs = [] then JNull else JArr xs)"

definition remove_inbound :: "string \<Rightarrow> obj \<Rightarrow> obj \<times> bool" where
  "remove_inbound tag config =
     (case removeInboundRoutingReferences
             (jset ''inbounds'' (nil_slice (filter (keep_inbound tag) (get_list config ''inbounds''))) config)
             tag of
        (config', n) \<Rightarrow> (config', 0 < n))"

text \<open>\<open>excludeDomains\<close> of an inbound's sniffing: the trimmed, new, non-empty domains are appended.\<close>

fun add_domains :: "string list \<Rightarrow> string list \<Rightarrow> json list \<Rightarrow> json list \<times> nat" where
  "add_domains [] existing raw = (raw, 0)"
| "add_domains (d # ds) existing raw =
     (let d' = trim_space d
      in if d' = [] \<or> d' \<in> set existing then add_domains ds existing raw
         else (case add_domains ds (d' # existing) (raw @ [JStr d']) of (r, n) \<Rightarrow> (r, n + 1)))"

definition sniffing_exclude :: "string list \<Rightarrow> obj \<Rightarrow> obj \<times> nat" where
  "sniffing_exclude domains target =
     (let sniffing = (case get_obj target ''sniffing'' of
                        Some s \<Rightarrow> s
                      | None \<Rightarrow> [(''enabled'', JBool True), (''destOverride'', JArr [JStr ''http'', JStr ''tls''])]);
          rawExcludes = get_list sniffing ''excludeDomains''
      in (case add_domains domains (List.map_filter as_str rawExcludes) rawExcludes of
            (raw', added) \<Rightarrow>
              (if added = 0 then target
               else jset ''sniffing'' (JObj (jset ''excludeDomains'' (JArr raw') sniffing)) target, added)))"

text \<open>Keys that start with an underscore are listing metadata and are dropped before writing.\<close>

definition strip_meta :: "obj \<Rightarrow> obj" where
  "strip_meta m = filter (\<lambda>(k, _). \<not> has_prefix k ''_'') m"

section \<open>Outbounds\<close>

definition persist_outbound :: "obj \<Rightarrow> obj \<Rightarrow> obj" where
  "persist_outbound outbound config =
     jset ''outbounds'' (JArr (get_list config ''outbounds'' @ [JObj outbound])) config"

definition replace_outbound :: "string \<Rightarrow> obj \<Rightarrow> obj \<Rightarrow> obj" where
  "replace_outbound oldTag outbound config =
     jset ''outbounds'' (JArr (put_tagged oldTag outbound (get_list config ''outbounds''))) config"

definition remove_outbound :: "string \<Rightarrow> obj \<Rightarrow> obj" where
  "remove_outbound tag config =
     jset ''outbounds'' (nil_slice (filter (\<lambda>ob. \<not> has_tag tag ob) (get_list config ''outbounds''))) config"

text \<open>Reordering: each tag has a queue of the places it stands at; a requested tag takes the first
  unused one.\<close>

definition tag_queues :: "json list \<Rightarrow> string \<Rightarrow> nat list" where
  "tag_queues obArr tag =
     (if tag = [] then [] else filter (\<lambda>i. tag_of (obArr ! i) = tag) [0..<length obArr])"

fun pop_unused :: "nat list \<Rightarrow> nat list \<Rightarrow> nat option \<times> nat list" where
  "pop_unused used [] = (None, [])"
| "pop_unused used (i # q) = (if i \<in> set used then pop_unused used q else (Some i, q))"

fun pick_indices :: "string list \<Rightarrow> (string \<Rightarrow> nat list) \<Rightarrow> nat list \<Rightarrow> nat list" where
  "pick_indices [] queues used = used"
| "pick_indices (tag # tags) queues used =
     (case pop_unused used (queues tag) of
        (r, q) \<Rightarrow>
          pick_indices tags (queues(tag := q))
            (case r of None \<Rightarrow> used | Some i \<Rightarrow> used @ [i]))"

definition reorder_outbounds :: "string list \<Rightarrow> json list \<Rightarrow> json list" where
  "reorder_outbounds tags obArr =
     (let used = pick_indices tags (tag_queues obArr) []
      in List.map (\<lambda>i. obArr ! i) used @
         List.map (\<lambda>i. obArr ! i) (filter (\<lambda>i. i \<notin> set used) [0..<length obArr]))"

section \<open>Routing\<close>

datatype observatory_arg = ObsMissing | ObsNull | ObsObj obj | ObsInvalid

definition applyObservatory :: "string \<Rightarrow> observatory_arg \<Rightarrow> obj \<Rightarrow> obj" where
  "applyObservatory key raw config =
     (case raw of
        ObsMissing \<Rightarrow> config
      | ObsNull \<Rightarrow> jdel key config
      | ObsObj m \<Rightarrow> jset key (JObj m) config
      | ObsInvalid \<Rightarrow> config)"

fun insert_rule :: "obj \<Rightarrow> json list \<Rightarrow> json list" where
  "insert_rule r [] = [JObj r]"
| "insert_rule r (x # xs) =
     (if as_obj x \<noteq> None \<and> ClassifyRulePriority (Some r) \<le> rule_priority x
      then JObj r # x # xs
      else x # insert_rule r xs)"

definition add_user :: "string \<Rightarrow> json list \<Rightarrow> json list" where
  "add_user email users =
     (if list_ex (\<lambda>u. (case as_str u of Some s \<Rightarrow> s | None \<Rightarrow> []) = email) users
      then users else users @ [JStr email])"

definition del_user :: "string \<Rightarrow> json list \<Rightarrow> json list" where
  "del_user email users =
     filter (\<lambda>u. (case as_str u of Some s \<Rightarrow> s | None \<Rightarrow> []) \<noteq> email) users"

definition edit_users :: "(json list \<Rightarrow> json list) \<Rightarrow> json \<Rightarrow> json" where
  "edit_users f rule =
     (case as_obj rule of
        Some m \<Rightarrow> JObj (jset ''user'' (JArr (f (get_list m ''user''))) m)
      | None \<Rightarrow> rule)"

datatype routing_error = RoutingBad string | RoutingNotFound string

record routing_req =
  rq_action :: string
  rq_routing :: "obj option"
  rq_rule :: "obj option"
  rq_index :: int
  rq_observatory :: observatory_arg
  rq_burst :: observatory_arg
  rq_marktag :: string
  rq_user :: string
  rq_norestart :: bool

text \<open>The switch of \<open>manageRouting\<close>: the edited configuration or the answer that refuses it.\<close>

definition routing_edit :: "routing_req \<Rightarrow> string \<Rightarrow> obj \<Rightarrow> routing_error + obj" where
  "routing_edit req action config =
     (if action = ''set'' then
        (case rq_routing req of
           None \<Rightarrow> Inl (RoutingBad ''Routing config is required'')
         | Some r \<Rightarrow>
             Inr (applyObservatory ''burstObservatory'' (rq_burst req)
                   (applyObservatory ''observatory'' (rq_observatory req)
                     (jset ''routing'' (JObj r) config))))
      else if action = ''add_rule'' then
        (case rq_rule req of
           None \<Rightarrow> Inl (RoutingBad ''Rule is required'')
         | Some r \<Rightarrow>
             let routing = (case get_obj config ''routing'' of Some m \<Rightarrow> m | None \<Rightarrow> [])
             in Inr (jset ''routing''
                  (JObj (jset ''rules'' (JArr (insert_rule r (get_list routing ''rules''))) routing)) config))
      else if action = ''remove_rule'' then
        (case get_obj config ''routing'' of
           None \<Rightarrow> Inl (RoutingBad ''No routing config found'')
         | Some routing \<Rightarrow>
             let rules = get_list routing ''rules''; i = rq_index req
             in if i < 0 \<or> int (length rules) \<le> i then Inl (RoutingBad ''Invalid rule index'')
                else Inr (jset ''routing''
                  (JObj (jset ''rules'' (JArr (take (nat i) rules @ drop (nat i + 1) rules)) routing)) config))
      else if action = ''add_user_to_rule'' \<or> action = ''remove_user_from_rule'' then
        (if trim_space (rq_marktag req) = [] \<or> trim_space (rq_user req) = []
         then Inl (RoutingBad ''marktag and user_email are required'')
         else
           (case get_obj config ''routing'' of
              None \<Rightarrow> Inl (RoutingBad ''No routing config found'')
            | Some routing \<Rightarrow>
                let rules = get_list routing ''rules'';
                    hit = (\<lambda>r. as_obj r \<noteq> None \<and> marktag_of r = rq_marktag req);
                    f = (if action = ''add_user_to_rule'' then add_user (rq_user req) else del_user (rq_user req))
                in if \<not> list_ex hit rules then Inl (RoutingNotFound (rq_marktag req))
                   else Inr (jset ''routing''
                     (JObj (jset ''rules'' (JArr (update_first hit (edit_users f) rules)) routing)) config)))
      else Inl (RoutingBad ''Invalid action''))"

datatype route_user_result = RouteChanged | RouteUnchanged | RouteError string

definition applyAddUserToRouteInConfig ::
  "obj \<Rightarrow> string \<Rightarrow> string \<Rightarrow> string \<Rightarrow> obj \<times> route_user_result" where
  "applyAddUserToRouteInConfig config marktag outboundTag userEmail =
     (if trim_space userEmail = [] then (config, RouteError ''user_email is empty'')
      else if trim_space marktag = [] \<and> trim_space outboundTag = []
      then (config, RouteError ''marktag or outbound_tag required'')
      else
        (case get_obj config ''routing'' of
           None \<Rightarrow> (config, RouteError ''no routing config'')
         | Some routing \<Rightarrow>
             let rules = get_list routing ''rules'';
                 hit = (\<lambda>r. case as_obj r of
                              None \<Rightarrow> False
                            | Some m \<Rightarrow>
                                if marktag \<noteq> [] then get_str m ''marktag'' = marktag
                                else if outboundTag \<noteq> [] then get_str m ''outboundTag'' = outboundTag
                                else False)
             in (case find hit rules of
                   None \<Rightarrow> (config, RouteError ''rule not found'')
                 | Some r \<Rightarrow>
                     (case as_obj r of
                        None \<Rightarrow> (config, RouteError ''rule not found'')
                      | Some m \<Rightarrow>
                          if list_ex (\<lambda>u. (case as_str u of Some s \<Rightarrow> s | None \<Rightarrow> []) = userEmail) (get_list m ''user'')
                          then (config, RouteUnchanged)
                          else
                            (jset ''routing''
                              (JObj (jset ''rules'' (JArr (update_first hit (edit_users (add_user userEmail)) rules)) routing))
                              config,
                             RouteChanged)))))"

section \<open>Edits that keep tags unique\<close>

text \<open>
  The contract every edit of a tagged array honours: tags that were unique stay unique. Behind it,
  the duplicate sweep that follows each edit removes nothing, so it never changes what the edit
  meant to write.
\<close>

locale tag_edit =
  fixes edit :: "json list \<Rightarrow> json list"
  assumes edit_unique: "unique_tags xs \<Longrightarrow> unique_tags (edit xs)"
begin

lemma sweep_noop: "unique_tags xs \<Longrightarrow> dedupe_list key (edit xs) = (edit xs, 0)"
  by (simp add: dedupe_list_same edit_unique)

lemma sweep_config:
  assumes "unique_tags (get_list c ''inbounds'')" and "unique_tags (get_list c ''outbounds'')"
    and "key = ''inbounds'' \<or> key = ''outbounds''"
  shows "dedupe_config (jset key (JArr (edit (get_list c key))) c) =
         jset key (JArr (edit (get_list c key))) c"
  using assms by (intro dedupe_config_same) (auto simp: edit_unique)

lemma iterate_unique: "unique_tags xs \<Longrightarrow> unique_tags ((edit ^^ n) xs)"
  by (induction n) (simp_all add: edit_unique)

end

definition put_inbound :: "obj \<Rightarrow> json list \<Rightarrow> json list" where
  "put_inbound x xs =
     (if get_str x ''tag'' \<noteq> [] then put_tagged (get_str x ''tag'') x xs else xs @ [JObj x])"

lemma has_tag_tag_of: "tag \<noteq> [] \<Longrightarrow> has_tag tag x \<longleftrightarrow> tag_of x = tag"
  by (auto simp: has_tag_def tag_of_def split: option.splits)

lemma put_tagged_tags:
  assumes "get_str x ''tag'' = tag" and "tag \<noteq> []"
  shows "tags_of (put_tagged tag x xs) = (if tag \<in> set (tags_of xs) then tags_of xs else tags_of xs @ [tag])"
proof -
  have ex: "list_ex (has_tag tag) xs \<longleftrightarrow> tag \<in> set (tags_of xs)"
    using assms(2) by (auto simp: list_ex_iff set_tags_of has_tag_tag_of)
  have "List.map tag_of (update_first (has_tag tag) (\<lambda>_. JObj x) xs) = List.map tag_of xs"
    using assms by (induction xs) (auto simp: has_tag_tag_of)
  then have "tags_of (update_first (has_tag tag) (\<lambda>_. JObj x) xs) = tags_of xs"
    by (rule tags_of_cong)
  with ex assms show ?thesis by (simp add: put_tagged_def)
qed

lemma put_tagged_unique [keeps_tags]:
  "get_str x ''tag'' = tag \<Longrightarrow> tag \<noteq> [] \<Longrightarrow> unique_tags xs \<Longrightarrow> unique_tags (put_tagged tag x xs)"
  by (auto simp: unique_tags_def put_tagged_tags)

lemma put_inbound_unique [keeps_tags]: "unique_tags xs \<Longrightarrow> unique_tags (put_inbound x xs)"
  by (simp add: put_inbound_def keeps_tags unique_tags_snoc)

section \<open>Reordering is a permutation\<close>

lemma pop_unused_cases:
  "pop_unused used q = (r, q') \<Longrightarrow>
   (r = None \<and> q' = [] \<and> set q \<subseteq> set used) \<or>
   (\<exists>i us. r = Some i \<and> q = us @ i # q' \<and> i \<notin> set used \<and> set us \<subseteq> set used)"
proof (induction q)
  case (Cons j q)
  show ?case
  proof (cases "j \<in> set used")
    case True
    with Cons have "(r = None \<and> q' = [] \<and> set q \<subseteq> set used) \<or>
        (\<exists>i us. r = Some i \<and> q = us @ i # q' \<and> i \<notin> set used \<and> set us \<subseteq> set used)" by simp
    with True show ?thesis
      by (metis append_Cons insert_subset list.simps(15))
  next
    case False
    with Cons.prems show ?thesis by (auto intro!: exI [of _ "[]"])
  qed
qed simp

lemma pick_indices_props:
  assumes "distinct used" and "set used \<subseteq> {..<n}" and "\<And>t. set (queues t) \<subseteq> {..<n}"
  shows "distinct (pick_indices tags queues used) \<and> set (pick_indices tags queues used) \<subseteq> {..<n} \<and>
         set used \<subseteq> set (pick_indices tags queues used)"
  using assms
proof (induction tags arbitrary: queues used)
  case (Cons t tags)
  obtain r q where p: "pop_unused used (queues t) = (r, q)" by fastforce
  let ?used = "case r of None \<Rightarrow> used | Some i \<Rightarrow> used @ [i]"
  from pop_unused_cases [OF p] Cons.prems(3) [of t]
  have q: "set q \<subseteq> {..<n}" and r: "r = None \<or> (\<exists>i. r = Some i \<and> i < n \<and> i \<notin> set used)" by auto
  have "distinct ?used \<and> set ?used \<subseteq> {..<n} \<and> set used \<subseteq> set ?used"
    using r Cons.prems by auto
  moreover have "set ((queues(t := q)) t') \<subseteq> {..<n}" for t'
    using q Cons.prems(3) by simp
  ultimately have "distinct (pick_indices tags (queues(t := q)) ?used) \<and>
      set (pick_indices tags (queues(t := q)) ?used) \<subseteq> {..<n} \<and>
      set ?used \<subseteq> set (pick_indices tags (queues(t := q)) ?used)"
    by (intro Cons.IH) auto
  with p \<open>distinct ?used \<and> _\<close> show ?case by auto
qed simp

lemma reorder_indices:
  assumes "distinct used" and "set used \<subseteq> {..<length xs}"
  shows "mset (List.map (\<lambda>i. xs ! i) used @ List.map (\<lambda>i. xs ! i) (filter (\<lambda>i. i \<notin> set used) [0..<length xs])) = mset xs"
proof -
  have "mset (used @ filter (\<lambda>i. i \<notin> set used) [0..<length xs]) = mset [0..<length xs]"
    using assms by (intro set_eq_iff_mset_eq_distinct [THEN iffD1]) auto
  then have "mset (List.map (\<lambda>i. xs ! i) (used @ filter (\<lambda>i. i \<notin> set used) [0..<length xs])) =
      mset (List.map (\<lambda>i. xs ! i) [0..<length xs])"
    by (simp only: mset_map)
  then show ?thesis by (simp add: map_nth)
qed

lemma tag_queues_bound: "set (tag_queues xs t) \<subseteq> {..<length xs}"
  by (auto simp: tag_queues_def)

lemma reorder_mset: "mset (reorder_outbounds tags xs) = mset xs"
  using pick_indices_props [of "[]" "length xs" "tag_queues xs" tags] tag_queues_bound
  by (simp add: reorder_outbounds_def Let_def reorder_indices del: mset_append)

text \<open>With unique tags every queue has at most one place, and the picks follow the request.\<close>

lemma pick_indices_unique:
  assumes u: "\<And>t i. i \<in> set (queues t) \<Longrightarrow> tag_of (xs ! i) = t"
    and one: "\<And>t. t \<notin> done \<Longrightarrow> queues t = (if t \<in> set (tags_of xs) then [pos t] else [])"
    and gone: "\<And>t. t \<in> done \<Longrightarrow> set (queues t) \<subseteq> set used"
    and fresh: "\<And>i. i \<in> set used \<Longrightarrow> tag_of (xs ! i) \<in> done"
  shows "List.map (\<lambda>i. tag_of (xs ! i)) (pick_indices tags queues used) =
         List.map (\<lambda>i. tag_of (xs ! i)) used @
         dedup_by (\<lambda>t. t) done (filter (\<lambda>t. t \<in> set (tags_of xs)) tags)"
  using assms
proof (induction tags arbitrary: queues used "done")
  case (Cons t tags)
  obtain r q where p: "pop_unused used (queues t) = (r, q)" by fastforce
  show ?case
  proof (cases "t \<in> done")
    case True
    then have "set (queues t) \<subseteq> set used" by (rule Cons.prems(3))
    with pop_unused_cases [OF p] have r: "r = None" "q = []" by auto
    have "List.map (\<lambda>i. tag_of (xs ! i)) (pick_indices tags (queues(t := q)) used) =
      List.map (\<lambda>i. tag_of (xs ! i)) used @ dedup_by (\<lambda>t. t) done (filter (\<lambda>t. t \<in> set (tags_of xs)) tags)"
      using r True Cons.prems by (intro Cons.IH) (auto split: if_splits)
    with p r True show ?thesis by simp
  next
    case False
    show ?thesis
    proof (cases "t \<in> set (tags_of xs)")
      case True
      with False Cons.prems(2) have qt: "queues t = [pos t]" by simp
      with Cons.prems(1) have tp: "tag_of (xs ! pos t) = t" by (metis list.set_intros(1))
      with False Cons.prems(4) have "pos t \<notin> set used" by metis
      with p qt have r: "r = Some (pos t)" "q = []" by auto
      have "List.map (\<lambda>i. tag_of (xs ! i)) (pick_indices tags (queues(t := q)) (used @ [pos t])) =
        List.map (\<lambda>i. tag_of (xs ! i)) (used @ [pos t]) @
        dedup_by (\<lambda>t. t) (insert t done) (filter (\<lambda>t. t \<in> set (tags_of xs)) tags)"
        using r Cons.prems(1,2,4) tp
        by (intro Cons.IH) (auto dest: subsetD [OF Cons.prems(3)] split: if_splits)
      with p r True False tp show ?thesis by simp
    next
      case nin: False
      with False Cons.prems(2) have "queues t = []" by simp
      with p have r: "r = None" "q = []" by auto
      have "List.map (\<lambda>i. tag_of (xs ! i)) (pick_indices tags (queues(t := q)) used) =
        List.map (\<lambda>i. tag_of (xs ! i)) used @ dedup_by (\<lambda>t. t) done (filter (\<lambda>t. t \<in> set (tags_of xs)) tags)"
        using r nin \<open>queues t = []\<close> Cons.prems by (intro Cons.IH) (auto split: if_splits)
      with p r nin show ?thesis by simp
    qed
  qed
qed simp

lemma distinct_singleton:
  assumes "distinct l" and "set l = {i}"
  shows "l = [i]"
proof (cases l)
  case Nil
  with assms show ?thesis by simp
next
  case (Cons a as)
  with assms have "a = i" by auto
  moreover have "set as \<subseteq> {i}" "i \<notin> set as" using assms Cons \<open>a = i\<close> by auto
  ultimately show ?thesis using Cons by (cases as) simp_all
qed

lemma tag_queues_tag: "i \<in> set (tag_queues xs t) \<Longrightarrow> tag_of (xs ! i) = t"
  by (auto simp: tag_queues_def split: if_splits)

lemma tag_queue_single:
  assumes "unique_tags xs" and "t \<in> set (tags_of xs)"
  shows "\<exists>i. tag_queues xs t = [i]"
proof -
  from assms(2) obtain i where i: "i < length xs" "tag_of (xs ! i) = t" and t: "t \<noteq> []"
    by (auto simp: set_tags_of in_set_conv_nth)
  have "j = i" if "j < length xs \<and> tag_of (xs ! j) = t" for j
    using that unique_tags_index [OF assms(1) _ i(1) _ i(2) t] by blast
  with i have "{k. k < length xs \<and> tag_of (xs ! k) = t} = {i}" by blast
  moreover have "set (tag_queues xs t) = {k. k < length xs \<and> tag_of (xs ! k) = t}"
    using t by (auto simp: tag_queues_def)
  ultimately have "set (tag_queues xs t) = {i}" by simp
  moreover have "distinct (tag_queues xs t)" by (simp add: tag_queues_def)
  ultimately have "tag_queues xs t = [i]" by (intro distinct_singleton)
  then show ?thesis by blast
qed

text \<open>Reordering outbounds loses and duplicates nothing: the result is a permutation. When tags are
  unique, the requested outbounds that exist stand first, in the order requested, and the others
  follow in their old order.\<close>

theorem reorder_outbounds_order:
  "mset (reorder_outbounds tags xs) = mset xs \<and>
   (unique_tags xs \<longrightarrow>
      (\<exists>used. reorder_outbounds tags xs =
          List.map (\<lambda>i. xs ! i) used @
          List.map (\<lambda>i. xs ! i) (filter (\<lambda>i. i \<notin> set used) [0..<length xs]) \<and>
        List.map (\<lambda>i. tag_of (xs ! i)) used =
          dedup_by (\<lambda>t. t) {} (filter (\<lambda>t. t \<in> set (tags_of xs)) tags)))"
proof (intro conjI impI)
  show "mset (reorder_outbounds tags xs) = mset xs" by (rule reorder_mset)
  assume u: "unique_tags xs"
  define pos where "pos = (\<lambda>t. hd (tag_queues xs t))"
  have q: "tag_queues xs t = (if t \<in> set (tags_of xs) then [pos t] else [])" for t
  proof (cases "t \<in> set (tags_of xs)")
    case True
    with tag_queue_single [OF u True] show ?thesis by (auto simp: pos_def)
  next
    case False
    then show ?thesis by (auto simp: tag_queues_def filter_empty_conv set_tags_of)
  qed
  have "List.map (\<lambda>i. tag_of (xs ! i)) (pick_indices tags (tag_queues xs) []) =
      List.map (\<lambda>i. tag_of (xs ! i)) [] @ dedup_by (\<lambda>t. t) {} (filter (\<lambda>t. t \<in> set (tags_of xs)) tags)"
    by (rule pick_indices_unique [where pos = pos]) (use q tag_queues_tag in auto)
  then show "\<exists>used. reorder_outbounds tags xs =
          List.map (\<lambda>i. xs ! i) used @
          List.map (\<lambda>i. xs ! i) (filter (\<lambda>i. i \<notin> set used) [0..<length xs]) \<and>
        List.map (\<lambda>i. tag_of (xs ! i)) used =
          dedup_by (\<lambda>t. t) {} (filter (\<lambda>t. t \<in> set (tags_of xs)) tags)"
    by (intro exI [of _ "pick_indices tags (tag_queues xs) []"]) (simp add: reorder_outbounds_def Let_def)
qed

lemma reorder_outbounds_order_witness:
  "let a = JObj [(''tag'', JStr ''a'')]; b = JObj [(''tag'', JStr ''b'')]
   in reorder_outbounds [''b'', ''x'', ''b''] [a, b] = [b, a] \<and>
      mset (reorder_outbounds [''b'', ''x'', ''b''] [a, b]) = {#a, b#}"
proof -
  let ?a = "JObj [(''tag'', JStr ''a'')]" and ?b = "JObj [(''tag'', JStr ''b'')]"
  have "reorder_outbounds [''b'', ''x'', ''b''] [?a, ?b] = [?b, ?a]"
    by (simp add: reorder_outbounds_def tag_queues_def get_str_def upt_rec)
  moreover have "mset (reorder_outbounds [''b'', ''x'', ''b''] [?a, ?b]) = {#?a, ?b#}"
    using reorder_outbounds_order [of "[''b'', ''x'', ''b'']" "[?a, ?b]"] by simp
  ultimately show ?thesis by (simp add: Let_def)
qed

section \<open>The edits honour the contract\<close>

lemma unique_tags_mset: "mset xs = mset ys \<Longrightarrow> unique_tags xs = unique_tags ys"
  unfolding unique_tags_def tags_of_def
  by (rule mset_eq_imp_distinct_iff) simp

lemma add_client_here_tag: "get_str (fst (add_client_here client m)) ''tag'' = get_str m ''tag''"
  by (auto simp: add_client_here_def Let_def get_str_jset split: option.splits)

lemma add_client_loop_tags: "tags_of (fst (add_client_loop tag client xs)) = tags_of xs"
proof (induction xs)
  case (Cons x xs)
  show ?case
  proof (cases "as_obj x")
    case None
    with Cons show ?thesis by (auto split: prod.splits)
  next
    case (Some m)
    with Cons add_client_here_tag [of client m] show ?thesis by (auto split: prod.splits)
  qed
qed simp

interpretation put_edit: tag_edit "put_inbound x" for x
  by unfold_locales (rule put_inbound_unique)

interpretation remove_edit: tag_edit "filter (keep_inbound tag)" for tag
  by unfold_locales (rule unique_tags_filter)

interpretation reorder_edit: tag_edit "reorder_outbounds tags" for tags
  by unfold_locales (metis reorder_mset unique_tags_mset)

interpretation client_edit: tag_edit "\<lambda>xs. fst (add_client_loop tag client xs)" for tag client
  by unfold_locales (simp add: unique_tags_def add_client_loop_tags)

interpretation sweep_edit: tag_edit "\<lambda>xs. fst (dedupe_list key xs)" for key
  by unfold_locales (rule dedupe_list_unique)

lemma persist_inbound_eq:
  "persist_inbound x c =
   dedupe_config (jset ''inbounds'' (JArr (put_inbound x (get_list c ''inbounds''))) c)"
  by (simp add: persist_inbound_def put_inbound_def Let_def)

lemma update_first_const:
  "p y \<Longrightarrow> update_first p (\<lambda>_. y) (update_first p (\<lambda>_. y) xs) = update_first p (\<lambda>_. y) xs"
  "p y \<Longrightarrow> list_ex p (update_first p (\<lambda>_. y) xs) = list_ex p xs"
  "p y \<Longrightarrow> filter (\<lambda>x. \<not> p x) (update_first p (\<lambda>_. y) xs) = filter (\<lambda>x. \<not> p x) xs"
  "p y \<Longrightarrow> list_ex p xs \<Longrightarrow> filter p (update_first p (\<lambda>_. y) xs) = y # tl (filter p xs)"
  by (induction xs) auto

lemma update_first_append:
  "\<not> list_ex p xs \<Longrightarrow> update_first p f (xs @ ys) = xs @ update_first p f ys"
  by (induction xs) auto

lemma unique_tags_filter_tag:
  "unique_tags xs \<Longrightarrow> t \<noteq> [] \<Longrightarrow> length (filter (\<lambda>x. tag_of x = t) xs) \<le> 1"
proof (induction xs)
  case (Cons y ys)
  then show ?case
    by (auto simp: unique_tags_def set_tags_of filter_empty_conv image_iff split: if_splits)
qed simp

lemma put_tagged_laws:
  assumes "get_str x ''tag'' = t" and "t \<noteq> []"
  shows "put_tagged t x (put_tagged t x xs) = put_tagged t x xs"
    and "filter (\<lambda>y. tag_of y \<noteq> t) (put_tagged t x xs) = filter (\<lambda>y. tag_of y \<noteq> t) xs"
    and "unique_tags xs \<Longrightarrow> filter (\<lambda>y. tag_of y = t) (put_tagged t x xs) = [JObj x]"
proof -
  have p: "has_tag t (JObj x)" and eq: "has_tag t = (\<lambda>y. tag_of y = t)"
    using assms by (auto simp: has_tag_tag_of fun_eq_iff)
  show "put_tagged t x (put_tagged t x xs) = put_tagged t x xs"
    using p by (simp add: put_tagged_def update_first_const update_first_append)
  show "filter (\<lambda>y. tag_of y \<noteq> t) (put_tagged t x xs) = filter (\<lambda>y. tag_of y \<noteq> t) xs"
    using update_first_const(3) [of "has_tag t" "JObj x" xs] p assms by (simp add: put_tagged_def eq)
  assume "unique_tags xs"
  then have "length (filter (has_tag t) xs) \<le> 1" using assms unique_tags_filter_tag [of xs t] by (simp add: eq)
  then have "tl (filter (has_tag t) xs) = []" by (cases "filter (has_tag t) xs") auto
  then have "filter (has_tag t) (put_tagged t x xs) = [JObj x]"
    using p update_first_const(4) [of "has_tag t" "JObj x" xs]
    by (auto simp: put_tagged_def filter_empty_conv list_ex_iff)
  then show "filter (\<lambda>y. tag_of y = t) (put_tagged t x xs) = [JObj x]" by (simp add: eq)
qed

text \<open>Persisting an inbound always leaves unique tags. On a configuration whose tags were unique it
  replaces the inbound of the same tag in place or appends the new one, touches no other inbound
  and no other key, and doing it again changes nothing.\<close>

theorem persist_inbound_effect:
  assumes "get_str x ''tag'' \<noteq> []"
  shows "unique_tags (get_list (persist_inbound x c) ''inbounds'') \<and>
   unique_tags (get_list (persist_inbound x c) ''outbounds'') \<and>
   (unique_tags (get_list c ''inbounds'') \<and> unique_tags (get_list c ''outbounds'') \<longrightarrow>
      persist_inbound x c =
        jset ''inbounds'' (JArr (put_tagged (get_str x ''tag'') x (get_list c ''inbounds''))) c \<and>
      filter (\<lambda>y. tag_of y = get_str x ''tag'') (get_list (persist_inbound x c) ''inbounds'') = [JObj x] \<and>
      filter (\<lambda>y. tag_of y \<noteq> get_str x ''tag'') (get_list (persist_inbound x c) ''inbounds'') =
        filter (\<lambda>y. tag_of y \<noteq> get_str x ''tag'') (get_list c ''inbounds'') \<and>
      persist_inbound x (persist_inbound x c) = persist_inbound x c)"
proof (intro conjI impI)
  show u: "unique_tags (get_list (persist_inbound x c) ''inbounds'')"
    "unique_tags (get_list (persist_inbound x c) ''outbounds'')"
    by (simp_all add: persist_inbound_def Let_def keeps_tags)
  have eq: "persist_inbound x d =
      jset ''inbounds'' (JArr (put_tagged (get_str x ''tag'') x (get_list d ''inbounds''))) d"
    if "unique_tags (get_list d ''inbounds'')" "unique_tags (get_list d ''outbounds'')" for d
    using that put_edit.sweep_config [of d "''inbounds''" x] assms
    by (simp add: persist_inbound_eq put_inbound_def)
  assume a: "unique_tags (get_list c ''inbounds'') \<and> unique_tags (get_list c ''outbounds'')"
  then show c: "persist_inbound x c =
      jset ''inbounds'' (JArr (put_tagged (get_str x ''tag'') x (get_list c ''inbounds''))) c"
    by (intro eq) simp_all
  show "filter (\<lambda>y. tag_of y = get_str x ''tag'') (get_list (persist_inbound x c) ''inbounds'') = [JObj x]"
    "filter (\<lambda>y. tag_of y \<noteq> get_str x ''tag'') (get_list (persist_inbound x c) ''inbounds'') =
        filter (\<lambda>y. tag_of y \<noteq> get_str x ''tag'') (get_list c ''inbounds'')"
    using a assms by (simp_all add: c put_tagged_laws)
  show "persist_inbound x (persist_inbound x c) = persist_inbound x c"
    using eq [OF u] assms by (simp add: c put_tagged_laws)
qed

lemma persist_inbound_effect_witness:
  "let x = [(''tag'', JStr ''a''), (''port'', JNum 2 0)];
       c = [(''inbounds'', JArr [JObj [(''tag'', JStr ''a''), (''port'', JNum 1 0)], JObj [(''tag'', JStr ''b'')]])]
   in get_list (persist_inbound x c) ''inbounds'' = [JObj x, JObj [(''tag'', JStr ''b'')]] \<and>
      persist_inbound x (persist_inbound x c) = persist_inbound x c"
proof -
  let ?x = "[(''tag'', JStr ''a''), (''port'', JNum 2 0)]"
  let ?c = "[(''inbounds'', JArr [JObj [(''tag'', JStr ''a''), (''port'', JNum 1 0)], JObj [(''tag'', JStr ''b'')]])]"
  have "unique_tags (get_list ?c ''inbounds'')" "unique_tags (get_list ?c ''outbounds'')" "get_str ?x ''tag'' \<noteq> []"
    by (simp_all add: unique_tags_def)
  then have 1: "persist_inbound ?x ?c =
      jset ''inbounds'' (JArr (put_tagged (get_str ?x ''tag'') ?x (get_list ?c ''inbounds''))) ?c"
    and 2: "persist_inbound ?x (persist_inbound ?x ?c) = persist_inbound ?x ?c"
    using persist_inbound_effect [of ?x ?c] by blast+
  from 1 have "get_list (persist_inbound ?x ?c) ''inbounds'' = [JObj ?x, JObj [(''tag'', JStr ''b'')]]"
    by (simp add: put_tagged_def has_tag_def)
  with 2 show ?thesis by (simp add: Let_def)
qed

section \<open>Routing rules\<close>

definition earlier_rule :: "obj \<Rightarrow> json \<Rightarrow> bool" where
  "earlier_rule r x \<longleftrightarrow> as_obj x = None \<or> rule_priority x < ClassifyRulePriority (Some r)"

lemma insert_rule_split:
  "insert_rule r rules = takeWhile (earlier_rule r) rules @ JObj r # dropWhile (earlier_rule r) rules"
  by (induction rules) (auto simp: earlier_rule_def)

lemma dropWhile_later:
  assumes "sorted (List.map rule_priority rules)" and "\<forall>x\<in>set rules. as_obj x \<noteq> None"
    and "x \<in> set (dropWhile (earlier_rule r) rules)"
  shows "ClassifyRulePriority (Some r) \<le> rule_priority x"
  using assms by (induction rules) (auto simp: earlier_rule_def split: if_splits)

lemma insert_rule_sorted:
  assumes "sorted (List.map rule_priority rules)" and "\<forall>x\<in>set rules. as_obj x \<noteq> None"
  shows "sorted (List.map rule_priority (insert_rule r rules))"
proof -
  have "rule_priority (JObj r) = ClassifyRulePriority (Some r)" by (simp add: rule_priority_def)
  moreover have "rule_priority x < ClassifyRulePriority (Some r)" if "x \<in> set (takeWhile (earlier_rule r) rules)" for x
    using set_takeWhileD [OF that] assms(2) by (auto simp: earlier_rule_def)
  moreover have "sorted (List.map rule_priority (takeWhile (earlier_rule r) rules @ dropWhile (earlier_rule r) rules))"
    using assms(1) by simp
  ultimately show ?thesis
    using dropWhile_later [OF assms] unfolding insert_rule_split map_append sorted_append
    by (auto simp: sorted_append intro: order_less_imp_le order_trans)
qed

text \<open>A new routing rule is put before every rule of its own or a later priority and after rules of
  a strictly earlier priority only; the other rules keep their order, and a list that was ordered by
  priority stays ordered.\<close>

theorem insert_rule_place:
  "\<exists>us vs. rules = us @ vs \<and> insert_rule r rules = us @ JObj r # vs \<and>
     (\<forall>u\<in>set us. as_obj u = None \<or> rule_priority u < ClassifyRulePriority (Some r)) \<and>
     (vs = [] \<or> as_obj (hd vs) \<noteq> None \<and> ClassifyRulePriority (Some r) \<le> rule_priority (hd vs)) \<and>
     (sorted (List.map rule_priority rules) \<and> None \<notin> as_obj ` set rules \<longrightarrow>
        sorted (List.map rule_priority (insert_rule r rules)))"
proof (intro exI conjI)
  show "rules = takeWhile (earlier_rule r) rules @ dropWhile (earlier_rule r) rules" by simp
  show "insert_rule r rules = takeWhile (earlier_rule r) rules @ JObj r # dropWhile (earlier_rule r) rules"
    by (rule insert_rule_split)
  show "\<forall>u\<in>set (takeWhile (earlier_rule r) rules).
      as_obj u = None \<or> rule_priority u < ClassifyRulePriority (Some r)"
    using set_takeWhileD [where P = "earlier_rule r"] unfolding earlier_rule_def by blast
  show "dropWhile (earlier_rule r) rules = [] \<or>
      as_obj (hd (dropWhile (earlier_rule r) rules)) \<noteq> None \<and>
      ClassifyRulePriority (Some r) \<le> rule_priority (hd (dropWhile (earlier_rule r) rules))"
    using hd_dropWhile [of "earlier_rule r" rules] unfolding earlier_rule_def by fastforce
  show "sorted (List.map rule_priority rules) \<and> None \<notin> as_obj ` set rules \<longrightarrow>
        sorted (List.map rule_priority (insert_rule r rules))"
    using insert_rule_sorted [of rules r] by (metis image_eqI)
qed

lemma insert_rule_place_witness:
  "insert_rule [(''outboundTag'', JStr ''tunnel-1'')]
     [JObj [(''outboundTag'', JStr ''nginx'')], JObj [(''outboundTag'', JStr ''direct'')]] =
   [JObj [(''outboundTag'', JStr ''nginx'')], JObj [(''outboundTag'', JStr ''tunnel-1'')],
    JObj [(''outboundTag'', JStr ''direct'')]] \<and>
   sorted (List.map rule_priority (insert_rule [(''outboundTag'', JStr ''tunnel-1'')]
     [JObj [(''outboundTag'', JStr ''nginx'')], JObj [(''outboundTag'', JStr ''direct'')]]))"
proof -
  let ?rules = "[JObj [(''outboundTag'', JStr ''nginx'')], JObj [(''outboundTag'', JStr ''direct'')]]"
  have "sorted (List.map rule_priority ?rules) \<and> None \<notin> as_obj ` set ?rules"
    by (simp add: rule_priority_def ClassifyRulePriority_def)
  moreover have "insert_rule [(''outboundTag'', JStr ''tunnel-1'')] ?rules =
    [JObj [(''outboundTag'', JStr ''nginx'')], JObj [(''outboundTag'', JStr ''tunnel-1'')],
     JObj [(''outboundTag'', JStr ''direct'')]]"
    by (simp add: rule_priority_def ClassifyRulePriority_def)
  ultimately show ?thesis
    using insert_rule_place [of ?rules "[(''outboundTag'', JStr ''tunnel-1'')]"] by blast
qed

section \<open>Removing an inbound\<close>

definition names_inbound :: "string \<Rightarrow> json \<Rightarrow> bool" where
  "names_inbound tag rule \<longleftrightarrow>
     (case as_obj rule of
        None \<Rightarrow> False
      | Some m \<Rightarrow>
          (case map_of m ''inboundTag'' of
             Some (JArr ts) \<Rightarrow> JStr tag \<in> set ts
           | Some (JStr s) \<Rightarrow> s = tag
           | _ \<Rightarrow> False))"

lemma as_str_Some [simp]: "as_str v = Some s \<longleftrightarrow> v = JStr s"
  by (cases v) auto

lemma filter_neq_length: "length (filter (\<lambda>t. t \<noteq> x) ts) = length ts \<longleftrightarrow> x \<notin> set ts"
proof (cases "x \<in> set ts")
  case True
  then have "length (filter (\<lambda>t. t \<noteq> x) ts) < length ts" by (intro length_filter_less) auto
  with True show ?thesis by simp
next
  case False
  then have "filter (\<lambda>t. t \<noteq> x) ts = ts" by (auto simp: filter_id_conv)
  with False show ?thesis by simp
qed

lemma strip_rule_count: "snd (strip_rule tag x) = 0 \<longleftrightarrow> \<not> names_inbound tag x"
proof (cases "as_obj x")
  case (Some m)
  show ?thesis
  proof (cases "map_of m ''inboundTag''")
    case v: (Some v)
    show ?thesis
    proof (cases v)
      case (JArr ts)
      note n = filter_neq_length [of "JStr tag" ts] length_filter_le [of "\<lambda>t. t \<noteq> JStr tag" ts]
      have "snd (strip_rule tag x) = length ts - length (filter (\<lambda>t. t \<noteq> JStr tag) ts)"
        using Some v JArr by (simp add: strip_rule_def Let_def)
      moreover have "names_inbound tag x \<longleftrightarrow> JStr tag \<in> set ts"
        using Some v JArr by (simp add: names_inbound_def)
      ultimately show ?thesis using n by linarith
    qed (use Some v in \<open>auto simp: strip_rule_def names_inbound_def\<close>)
  qed (use Some in \<open>simp add: strip_rule_def names_inbound_def\<close>)
qed (simp add: strip_rule_def names_inbound_def)

lemma strip_rule_kept: "\<not> names_inbound tag x \<Longrightarrow> fst (strip_rule tag x) = Some x"
proof (cases "as_obj x")
  case (Some m)
  assume n: "\<not> names_inbound tag x"
  show ?thesis
  proof (cases "map_of m ''inboundTag''")
    case v: (Some v)
    show ?thesis
    proof (cases v)
      case (JArr ts)
      with n Some v have "JStr tag \<notin> set ts" by (simp add: names_inbound_def)
      then have "filter (\<lambda>t. t \<noteq> JStr tag) ts = ts" by (auto simp: filter_id_conv)
      with Some v JArr show ?thesis by (simp add: strip_rule_def Let_def)
    qed (use Some v n in \<open>auto simp: strip_rule_def names_inbound_def\<close>)
  qed (use Some in \<open>simp add: strip_rule_def\<close>)
qed (simp add: strip_rule_def)

text \<open>A rule that survives names some other inbound when it named one before.\<close>

lemma strip_rule_Some:
  assumes "fst (strip_rule tag x) = Some y"
  shows "\<not> names_inbound tag y \<and>
    (y = x \<or> (\<exists>m ts. x = JObj m \<and> map_of m ''inboundTag'' = Some (JArr ts) \<and>
      filter (\<lambda>t. t \<noteq> JStr tag) ts \<noteq> [] \<and>
      y = JObj (jset ''inboundTag'' (JArr (filter (\<lambda>t. t \<noteq> JStr tag) ts)) m)))"
proof (cases "names_inbound tag x")
  case False
  with assms show ?thesis by (simp add: strip_rule_kept)
next
  case True
  then obtain m v where m: "x = JObj m" "map_of m ''inboundTag'' = Some v"
    by (auto simp: names_inbound_def split: option.splits)
  show ?thesis
  proof (cases v)
    case (JArr ts)
    with True m have "JStr tag \<in> set ts" by (simp add: names_inbound_def)
    then have "length (filter (\<lambda>t. t \<noteq> JStr tag) ts) < length ts" "ts \<noteq> []"
      by (auto intro: length_filter_less)
    with assms m JArr show ?thesis
      by (auto simp: strip_rule_def Let_def names_inbound_def split: if_splits)
  next
    case (JStr s)
    with assms m True show ?thesis by (simp add: strip_rule_def names_inbound_def)
  qed (use True m in \<open>simp_all add: names_inbound_def\<close>)
qed

lemma remove_references_rules:
  "rules_of (fst (removeInboundRoutingReferences c tag)) =
   List.map_filter (fst \<circ> strip_rule tag) (rules_of c)"
proof (cases "get_obj c ''routing''")
  case None
  then show ?thesis by (simp add: removeInboundRoutingReferences_def rules_of_def List.map_filter_simps)
next
  case (Some routing)
  show ?thesis
  proof (cases "get_arr routing ''rules''")
    case None
    with Some show ?thesis
      by (simp add: removeInboundRoutingReferences_def rules_of_def get_list_def List.map_filter_simps)
  next
    case rules: (Some rules)
    have "List.map_filter (fst \<circ> strip_rule tag) rules = rules"
      if "sum_list (List.map (snd \<circ> strip_rule tag) rules) = 0"
    proof -
      have "\<forall>x\<in>set rules. fst (strip_rule tag x) = Some x"
        using that by (auto simp: strip_rule_count intro: strip_rule_kept)
      then show ?thesis by (induction rules) (auto simp: List.map_filter_simps)
    qed
    with Some rules show ?thesis
      by (auto simp: removeInboundRoutingReferences_def rules_of_def get_list_def Let_def)
  qed
qed

lemma remove_references_other:
  "k \<noteq> ''routing'' \<Longrightarrow> map_of (fst (removeInboundRoutingReferences c tag)) k = map_of c k"
  by (auto simp: removeInboundRoutingReferences_def Let_def split: option.splits)

lemma remove_references_changed:
  "0 < snd (removeInboundRoutingReferences c tag) \<longleftrightarrow> (\<exists>x\<in>set (rules_of c). names_inbound tag x)"
proof (cases "get_obj c ''routing''")
  case (Some routing)
  then show ?thesis
    by (cases "get_arr routing ''rules''")
      (auto simp: removeInboundRoutingReferences_def rules_of_def get_list_def Let_def strip_rule_count
        simp flip: neq0_conv)
qed (simp add: removeInboundRoutingReferences_def rules_of_def)

lemma set_map_filter_iff: "y \<in> set (List.map_filter f xs) \<longleftrightarrow> (\<exists>x\<in>set xs. f x = Some y)"
  by (induction xs) (auto simp: List.map_filter_simps split: option.splits)

text \<open>Removing an inbound leaves no inbound that the tag selects and no routing rule that names the
  tag; it keeps every other inbound in order, every rule that did not name the tag, and it never
  turns a rule into one for all inbounds: a rule that named others too is narrowed to them and one
  that named nothing else is dropped. The answer tells whether a rule changed.\<close>

theorem remove_inbound_effect:
  "let c' = fst (remove_inbound tag c)
   in get_list c' ''inbounds'' = filter (keep_inbound tag) (get_list c ''inbounds'') \<and>
      (\<forall>y\<in>set (rules_of c'). \<not> names_inbound tag y \<and>
         (y \<in> set (rules_of c) \<or>
          (\<exists>m ts. JObj m \<in> set (rules_of c) \<and> map_of m ''inboundTag'' = Some (JArr ts) \<and>
             filter (\<lambda>t. t \<noteq> JStr tag) ts \<noteq> [] \<and>
             y = JObj (jset ''inboundTag'' (JArr (filter (\<lambda>t. t \<noteq> JStr tag) ts)) m)))) \<and>
      (\<forall>x\<in>set (rules_of c). \<not> names_inbound tag x \<longrightarrow> x \<in> set (rules_of c')) \<and>
      (snd (remove_inbound tag c) \<longleftrightarrow> (\<exists>x\<in>set (rules_of c). names_inbound tag x)) \<and>
      (\<forall>k. k \<noteq> ''inbounds'' \<and> k \<noteq> ''routing'' \<longrightarrow> map_of c' k = map_of c k)"
proof -
  let ?c1 = "jset ''inbounds'' (nil_slice (filter (keep_inbound tag) (get_list c ''inbounds''))) c"
  let ?c' = "fst (removeInboundRoutingReferences ?c1 tag)"
  have r1: "rules_of ?c1 = rules_of c" by (simp add: rules_of_def)
  have eq: "fst (remove_inbound tag c) = ?c'"
    "snd (remove_inbound tag c) \<longleftrightarrow> 0 < snd (removeInboundRoutingReferences ?c1 tag)"
    by (simp_all add: remove_inbound_def split: prod.splits)
  have "get_list ?c' ''inbounds'' = get_list ?c1 ''inbounds''"
    by (simp add: get_list_def get_arr_def remove_references_other)
  then have 1: "get_list ?c' ''inbounds'' = filter (keep_inbound tag) (get_list c ''inbounds'')"
    by (simp add: nil_slice_def)
  have rules: "rules_of ?c' = List.map_filter (fst \<circ> strip_rule tag) (rules_of c)"
    by (simp add: remove_references_rules r1)
  have 2: "\<not> names_inbound tag y \<and> (y \<in> set (rules_of c) \<or>
          (\<exists>m ts. JObj m \<in> set (rules_of c) \<and> map_of m ''inboundTag'' = Some (JArr ts) \<and>
             filter (\<lambda>t. t \<noteq> JStr tag) ts \<noteq> [] \<and>
             y = JObj (jset ''inboundTag'' (JArr (filter (\<lambda>t. t \<noteq> JStr tag) ts)) m)))"
    if "y \<in> set (rules_of ?c')" for y
  proof -
    from that obtain x where "x \<in> set (rules_of c)" "fst (strip_rule tag x) = Some y"
      by (auto simp: rules set_map_filter_iff)
    with strip_rule_Some [of tag x y] show ?thesis by blast
  qed
  have 3: "x \<in> set (rules_of ?c')" if "x \<in> set (rules_of c)" "\<not> names_inbound tag x" for x
    using that strip_rule_kept [of tag x] by (auto simp: rules set_map_filter_iff)
  have 4: "map_of ?c' k = map_of c k" if "k \<noteq> ''inbounds''" "k \<noteq> ''routing''" for k
    using that by (simp add: remove_references_other)
  show ?thesis
    unfolding Let_def eq remove_references_changed r1 using 1 2 3 4 by blast
qed

lemma remove_inbound_effect_witness:
  "let c = [(''inbounds'', JArr [JObj [(''tag'', JStr ''a'')], JObj [(''tag'', JStr ''b'')]]),
            (''routing'', JObj [(''rules'', JArr [JObj [(''inboundTag'', JArr [JStr ''a''])]])])]
   in snd (remove_inbound ''a'' c) \<and>
      (\<forall>y. y \<in> set (rules_of (fst (remove_inbound ''a'' c))) \<longrightarrow> \<not> names_inbound ''a'' y)"
proof -
  let ?c = "[(''inbounds'', JArr [JObj [(''tag'', JStr ''a'')], JObj [(''tag'', JStr ''b'')]]),
            (''routing'', JObj [(''rules'', JArr [JObj [(''inboundTag'', JArr [JStr ''a''])]])])]"
  have "\<exists>x\<in>set (rules_of ?c). names_inbound ''a'' x"
    by (simp add: rules_of_def names_inbound_def get_obj_def get_list_def get_arr_def)
  with remove_inbound_effect [of "''a''" ?c] show ?thesis by (simp add: Let_def)
qed

section \<open>Users of a routing rule\<close>

lemma list_ex_user:
  "email \<noteq> [] \<Longrightarrow>
   list_ex (\<lambda>u. (case as_str u of Some s \<Rightarrow> s | None \<Rightarrow> []) = email) users \<longleftrightarrow> JStr email \<in> set users"
  by (auto simp: list_ex_iff split: option.splits)

lemma del_user_eq: "email \<noteq> [] \<Longrightarrow> del_user email users = filter (\<lambda>u. u \<noteq> JStr email) users"
proof -
  assume "email \<noteq> []"
  then have "((case as_str u of Some s \<Rightarrow> s | None \<Rightarrow> []) \<noteq> email) = (u \<noteq> JStr email)" for u
    by (cases u) auto
  then show ?thesis by (simp add: del_user_def)
qed

lemma user_laws:
  assumes "email \<noteq> []"
  shows "JStr email \<in> set (add_user email users)"
    and "add_user email (add_user email users) = add_user email users"
    and "JStr email \<notin> set (del_user email users)"
    and "JStr email \<notin> set users \<Longrightarrow> del_user email (add_user email users) = users"
    and "u \<noteq> JStr email \<Longrightarrow> (u \<in> set (add_user email users)) = (u \<in> set users)"
    and "u \<noteq> JStr email \<Longrightarrow> (u \<in> set (del_user email users)) = (u \<in> set users)"
  using assms by (auto simp: add_user_def del_user_eq list_ex_user filter_id_conv)

lemma edit_users_marktag [simp]: "marktag_of (edit_users f r) = marktag_of r"
  by (cases "as_obj r") (auto simp: edit_users_def marktag_of_def)

end
