(* ===== verification/Config_Handlers.thy ===== *)
theory Config_Handlers
  imports Config_Edits Failures
begin

text \<open>
  The management handlers that change Xray's configuration file and the running process
  (\<open>internal/handler/management_handler.go\<close>): inbounds, outbounds, routing rules and the batch
  call. A call is one step on the world here; the interleavings of calls are in \<open>Config_Lock\<close>.

  \<open>cfg_env\<close> gathers what a call depends on: the JSON codec, whether Xray's own builder accepts an
  inbound or outbound, the configuration path and directory that discovery returns (an empty path
  when it finds none), and whether an embedded instance is in use.
\<close>

record cfg_env =
  ce_dec :: "string \<Rightarrow> obj option"
  ce_enc :: "obj \<Rightarrow> string"
  ce_build_in :: "obj \<Rightarrow> bool"
  ce_build_out :: "obj \<Rightarrow> bool"
  ce_path :: string
  ce_confdir :: string
  ce_embedded :: bool

section \<open>The running process\<close>

definition findXrayAPIPort :: "cfg_env \<Rightarrow> world \<Rightarrow> int \<times> world" where
  "findXrayAPIPort env w =
     (if ce_path env = [] then (0, w)
      else
        (case read_file (ce_path env) w of
           (Inl _, w1) \<Rightarrow> (0, w1)
         | (Inr content, w1) \<Rightarrow>
             (case ce_dec env content of None \<Rightarrow> (0, w1) | Some config \<Rightarrow> (api_port_of config, w1))))"

text \<open>\<open>addInbound\<close> over gRPC and its embedded counterpart: build, drop the old inbound of the tag, add.\<close>

definition addInbound :: "cfg_env \<Rightarrow> obj \<Rightarrow> world \<Rightarrow> io_err option \<times> world" where
  "addInbound env inbound w =
     (if \<not> ce_build_in env inbound then (Some (ErrIO ''build inbound config''), w)
      else
        (let w1 = (if get_str inbound ''tag'' \<noteq> [] then snd (api_call (DelIn (get_str inbound ''tag'')) w) else w)
         in api_call (AddIn inbound) w1))"

definition addOutbound :: "cfg_env \<Rightarrow> obj \<Rightarrow> world \<Rightarrow> io_err option \<times> world" where
  "addOutbound env outbound w =
     (if \<not> ce_build_out env outbound then (Some (ErrIO ''build outbound config''), w)
      else api_call (AddOut outbound) w)"

definition replaceRuntimeInbound :: "cfg_env \<Rightarrow> string \<Rightarrow> obj \<Rightarrow> world \<Rightarrow> io_err option \<times> world" where
  "replaceRuntimeInbound env tag newInbound w =
     (if ce_embedded env then
        (if \<not> ce_build_in env newInbound then (Some (ErrIO ''build inbound config''), w)
         else api_call (AddIn newInbound) (snd (api_call (DelIn tag) w)))
      else
        (case findXrayAPIPort env w of
           (port, w1) \<Rightarrow>
             if port = 0 then (Some (ErrIO ''xray API port not found''), w1)
             else
               (case sys_call w1 of
                  (Some e, w2) \<Rightarrow> (Some e, w2)
                | (None, w2) \<Rightarrow> addInbound env newInbound (snd (api_call (DelIn tag) w2)))))"

section \<open>The file\<close>

text \<open>Read, parse, edit, write: the frame of \<open>persistInbound\<close>, \<open>persistOutbound\<close>,
  \<open>replaceOutboundInConfig\<close> and \<open>removeOutboundFromConfig\<close>; the error when it fails.\<close>

definition rewrite_config :: "cfg_env \<Rightarrow> (obj \<Rightarrow> obj) \<Rightarrow> world \<Rightarrow> string option \<times> world" where
  "rewrite_config env f w =
     (if ce_path env = [] then (Some ''config file not found'', w)
      else
        (case read_file (ce_path env) w of
           (Inl _, w1) \<Rightarrow> (Some ''failed to read config'', w1)
         | (Inr content, w1) \<Rightarrow>
             (case ce_dec env content of
                None \<Rightarrow> (Some ''failed to parse config'', w1)
              | Some config \<Rightarrow>
                  (case write_file (ce_path env) (ce_enc env (f config)) w1 of
                     (Some _, w2) \<Rightarrow> (Some ''failed to write config'', w2)
                   | (None, w2) \<Rightarrow> (None, w2)))))"

definition persistInbound :: "cfg_env \<Rightarrow> obj \<Rightarrow> world \<Rightarrow> string option \<times> world" where
  "persistInbound env inbound w = rewrite_config env (persist_inbound inbound) w"

definition persistOutbound :: "cfg_env \<Rightarrow> obj \<Rightarrow> world \<Rightarrow> string option \<times> world" where
  "persistOutbound env outbound w = rewrite_config env (persist_outbound outbound) w"

definition replaceOutboundInConfig :: "cfg_env \<Rightarrow> string \<Rightarrow> obj \<Rightarrow> world \<Rightarrow> string option \<times> world" where
  "replaceOutboundInConfig env oldTag outbound w = rewrite_config env (replace_outbound oldTag outbound) w"

definition removeOutboundFromConfig :: "cfg_env \<Rightarrow> string \<Rightarrow> world \<Rightarrow> string option \<times> world" where
  "removeOutboundFromConfig env tag w = rewrite_config env (remove_outbound tag) w"

text \<open>What becomes of one fragment of the configuration directory: it stays, it is deleted (a fragment
  that is the inbound itself), or it is rewritten, with whether a routing rule changed.\<close>

datatype fragment_change = FragKeep | FragDrop | FragWrite obj bool

definition fragment_edit :: "string \<Rightarrow> obj \<Rightarrow> fragment_change" where
  "fragment_edit tag config =
     (case Option.bind (map_of config ''protocol'') as_str of
        Some _ \<Rightarrow> (if inboundMatchesRemovalTag config tag then FragDrop else FragKeep)
      | None \<Rightarrow>
          (let inbounds = get_list config ''inbounds'';
               kept = filter (keep_inbound tag) inbounds;
               config1 = (if length kept < length inbounds
                          then jset ''inbounds'' (JArr kept) config else config)
           in (case removeInboundRoutingReferences config1 tag of
                 (config2, n) \<Rightarrow>
                   if length kept = length inbounds \<and> n = 0 then FragKeep else FragWrite config2 (0 < n))))"

text \<open>Whether a routing rule changed, and the error if the fragment could not be cleaned.\<close>

definition clean_fragment :: "cfg_env \<Rightarrow> string \<Rightarrow> string \<Rightarrow> world \<Rightarrow> (bool \<times> string option) \<times> world" where
  "clean_fragment env tag path w =
     (case read_file path w of
        (Inl _, w1) \<Rightarrow> ((False, Some ''read xray config fragment''), w1)
      | (Inr content, w1) \<Rightarrow>
          (case ce_dec env content of
             None \<Rightarrow> ((False, Some ''parse xray config fragment''), w1)
           | Some config \<Rightarrow>
               (case fragment_edit tag config of
                  FragKeep \<Rightarrow> ((False, None), w1)
                | FragDrop \<Rightarrow>
                    (case remove_file path w1 of
                       (Some _, w2) \<Rightarrow> ((False, Some ''remove xray inbound fragment''), w2)
                     | (None, w2) \<Rightarrow> ((False, None), w2))
                | FragWrite config' changed \<Rightarrow>
                    (case write_file path (ce_enc env config') w1 of
                       (Some _, w2) \<Rightarrow> ((changed, Some ''write xray config fragment''), w2)
                     | (None, w2) \<Rightarrow> ((changed, None), w2)))))"

text \<open>The files that are visited are those of the directory listing, the main file excepted.\<close>

fun clean_fragments ::
  "cfg_env \<Rightarrow> string \<Rightarrow> string list \<Rightarrow> bool \<Rightarrow> world \<Rightarrow> (bool \<times> string option) \<times> world" where
  "clean_fragments env tag [] routingChanged w = ((routingChanged, None), w)"
| "clean_fragments env tag (path # paths) routingChanged w =
     (case clean_fragment env tag path w of
        ((c, Some e), w1) \<Rightarrow> ((routingChanged \<or> c, Some e), w1)
      | ((c, None), w1) \<Rightarrow> clean_fragments env tag paths (routingChanged \<or> c) w1)"

definition removeInboundFromConfDir :: "cfg_env \<Rightarrow> string \<Rightarrow> world \<Rightarrow> (bool \<times> string option) \<times> world" where
  "removeInboundFromConfDir env tag w =
     (if trim_space (ce_confdir env) = [] then ((False, None), w)
      else
        (case sys_call w of
           (Some _, w1) \<Rightarrow> ((False, Some ''read xray confdir''), w1)
         | (None, w1) \<Rightarrow>
             clean_fragments env tag
               (filter (\<lambda>p. p \<noteq> ce_path env)
                 (List.map (path_join (ce_confdir env))
                   (filter (\<lambda>n. has_suffix (to_lower n) ''.json'') (sort (dir_files w1 (ce_confdir env))))))
               False w1))"

definition removeInboundFromConfig :: "cfg_env \<Rightarrow> string \<Rightarrow> world \<Rightarrow> (bool \<times> string option) \<times> world" where
  "removeInboundFromConfig env tag w =
     (if ce_path env = [] then ((False, Some ''config file not found''), w)
      else
        (case read_file (ce_path env) w of
           (Inl _, w1) \<Rightarrow> ((False, Some ''failed to read config''), w1)
         | (Inr content, w1) \<Rightarrow>
             (case ce_dec env content of
                None \<Rightarrow> ((False, Some ''failed to parse config''), w1)
              | Some config \<Rightarrow>
                  (case remove_inbound tag config of
                     (config', routingChanged) \<Rightarrow>
                       (case write_file (ce_path env) (ce_enc env config') w1 of
                          (Some _, w2) \<Rightarrow> ((False, Some ''failed to write config''), w2)
                        | (None, w2) \<Rightarrow>
                            (case removeInboundFromConfDir env tag w2 of
                               ((c, Some e), w3) \<Rightarrow> ((routingChanged, Some e), w3)
                             | ((c, None), w3) \<Rightarrow> ((routingChanged \<or> c, None), w3)))))))"

text \<open>Write beside the file, then rename over it; the answer that refuses when a step fails.\<close>

definition save_via_tmp :: "cfg_env \<Rightarrow> obj \<Rightarrow> world \<Rightarrow> reply option \<times> world" where
  "save_via_tmp env config w =
     (let tmp = ce_path env @ ''.tmp''
      in (case write_file tmp (ce_enc env config) w of
            (Some _, w1) \<Rightarrow> (Some (writeError 500 ''write tmp config''), w1)
          | (None, w1) \<Rightarrow>
              (case rename_file tmp (ce_path env) w1 of
                 (Some _, w2) \<Rightarrow> (Some (writeError 500 ''rename config''), snd (remove_file tmp w2))
               | (None, w2) \<Rightarrow> (None, w2))))"

section \<open>Inbounds\<close>

record inbound_req =
  ir_action :: string
  ir_inbound :: "obj option"
  ir_tag :: string
  ir_client :: "obj option"
  ir_domains :: "string list"

text \<open>What \<open>manageInboundClient\<close> does to the target inbound: nothing to do, a refused protocol, or the
  edited inbound.\<close>

datatype client_edit = ClientNoop string | ClientUnsupported string | ClientEdited obj

definition edit_client :: "string \<Rightarrow> obj \<Rightarrow> obj \<Rightarrow> client_edit" where
  "edit_client action client target =
     (let protocol = get_str target ''protocol'';
          settings = (case get_obj target ''settings'' of Some s \<Rightarrow> s | None \<Rightarrow> [])
      in (case client_array protocol of
            None \<Rightarrow> ClientUnsupported protocol
          | Some arrKey \<Rightarrow>
              (let arr = get_list settings arrKey;
                   same = (\<lambda>c. case as_obj c of Some m \<Rightarrow> matchClientCredential m client protocol | None \<Rightarrow> False);
                   put = (\<lambda>arr'. ClientEdited
                     (strip_meta (jset ''settings'' (JObj (jset arrKey (JArr arr') settings)) target)))
               in if action = ''add-client'' then
                    (if has_client protocol client arr then ClientNoop ''client already present (no-op)''
                     else put (arr @ [JObj client]))
                  else
                    (if \<not> list_ex same arr then ClientNoop ''client not found (no-op)''
                     else put (filter (\<lambda>c. \<not> same c) arr)))))"

definition set_target :: "string \<Rightarrow> obj \<Rightarrow> obj \<Rightarrow> obj" where
  "set_target tag m config =
     jset ''inbounds'' (JArr (update_first (has_tag tag) (\<lambda>_. JObj m) (get_list config ''inbounds''))) config"

definition find_inbound :: "string \<Rightarrow> obj \<Rightarrow> obj option" where
  "find_inbound tag config = Option.bind (find (has_tag tag) (get_list config ''inbounds'')) as_obj"

text \<open>The inbound handed to the running process is the one in the deduplicated file: the sweep may
  have merged the users of later copies into it.\<close>

definition apply_target ::
  "cfg_env \<Rightarrow> string \<Rightarrow> string \<Rightarrow> string \<Rightarrow> obj \<Rightarrow> obj \<Rightarrow> world \<Rightarrow> reply \<times> world" where
  "apply_target env tag deferred done target config w =
     (let config' = dedupe_config (set_target tag target config);
          live = (case find_inbound tag config' of Some m \<Rightarrow> m | None \<Rightarrow> target)
      in (case save_via_tmp env config' w of
            (Some r, w1) \<Rightarrow> (r, w1)
          | (None, w1) \<Rightarrow>
              (case replaceRuntimeInbound env tag live w1 of
                 (Some _, w2) \<Rightarrow>
                   (writeOk [(''message'', JStr deferred),
                             (''runtime_warning'', JStr ''runtime apply failed'')], w2)
               | (None, w2) \<Rightarrow> (writeOk [(''message'', JStr done)], w2))))"

definition manageInboundClient :: "cfg_env \<Rightarrow> string \<Rightarrow> inbound_req \<Rightarrow> world \<Rightarrow> reply \<times> world" where
  "manageInboundClient env action req w =
     (if ir_tag req = [] then (writeError 400 ''tag is required'', w)
      else
        (case ir_client req of
           None \<Rightarrow> (writeError 400 ''client is required'', w)
         | Some client \<Rightarrow>
             if ce_path env = [] then (writeError 404 ''Xray config not found'', w)
             else
               (case read_file (ce_path env) w of
                  (Inl _, w1) \<Rightarrow> (writeError 500 ''read config'', w1)
                | (Inr content, w1) \<Rightarrow>
                    (case ce_dec env content of
                       None \<Rightarrow> (writeError 500 ''parse config'', w1)
                     | Some config \<Rightarrow>
                         (case find_inbound (ir_tag req) config of
                            None \<Rightarrow> (writeError 404 ''inbound not found'', w1)
                          | Some target \<Rightarrow>
                              (case edit_client action client target of
                                 ClientUnsupported p \<Rightarrow> (writeError 400 (''unsupported protocol: '' @ p), w1)
                               | ClientNoop msg \<Rightarrow> (writeOk [(''message'', JStr msg)], w1)
                               | ClientEdited m \<Rightarrow>
                                   apply_target env (ir_tag req)
                                     (''client '' @ action @ '' persisted to config, runtime apply deferred'')
                                     (''client '' @ action @ ''d'') m config w1))))))"

definition manageInboundSniffingExclude :: "cfg_env \<Rightarrow> inbound_req \<Rightarrow> world \<Rightarrow> reply \<times> world" where
  "manageInboundSniffingExclude env req w =
     (if ir_tag req = [] then (writeError 400 ''tag is required'', w)
      else if ir_domains req = [] then (writeError 400 ''domains is required'', w)
      else if ce_path env = [] then (writeError 404 ''Xray config not found'', w)
      else
        (case read_file (ce_path env) w of
           (Inl _, w1) \<Rightarrow> (writeError 500 ''read config'', w1)
         | (Inr content, w1) \<Rightarrow>
             (case ce_dec env content of
                None \<Rightarrow> (writeError 500 ''parse config'', w1)
              | Some config \<Rightarrow>
                  (case find_inbound (ir_tag req) config of
                     None \<Rightarrow> (writeError 404 ''inbound not found'', w1)
                   | Some target \<Rightarrow>
                       (case sniffing_exclude (ir_domains req) target of
                          (target', added) \<Rightarrow>
                            if added = 0
                            then (writeOk [(''message'', JStr ''all domains already present (no-op)'')], w1)
                            else
                              (let msg = ''added '' @ itoa (int added) @ '' domain(s) to sniffing.excludeDomains''
                               in apply_target env (ir_tag req) (msg @ '', runtime apply deferred'') msg
                                    (strip_meta target') config w1))))))"

definition removed_ok :: reply where
  "removed_ok = writeOk [(''message'', JStr ''inbound and its routing removed'')]"

definition err_text :: "io_err \<Rightarrow> string" where
  "err_text e = (case e of ErrNotExist \<Rightarrow> ''file does not exist'' | ErrIO s \<Rightarrow> s)"

text \<open>After the runtime and the file: \<open>reload\<close> says whether a failed runtime removal calls for a
  restart.\<close>

definition finish_remove ::
  "cfg_env \<Rightarrow> (io_err \<Rightarrow> bool) \<Rightarrow> io_err option \<Rightarrow> string \<Rightarrow> world \<Rightarrow> reply \<times> world" where
  "finish_remove env reload runtimeErr tag w =
     (case removeInboundFromConfig env tag w of
        ((routingChanged, Some e), w1) \<Rightarrow> (writeError 500 ''Failed to remove inbound from config'', w1)
      | ((routingChanged, None), w1) \<Rightarrow>
          if routingChanged \<or> (case runtimeErr of None \<Rightarrow> False | Some e \<Rightarrow> reload e) then
            (case restart_xray (ce_path env) w1 of
               (Some _, w2) \<Rightarrow> (writeError 500 ''inbound removed from config, Xray reload failed'', w2)
             | (None, w2) \<Rightarrow> (removed_ok, w2))
          else (removed_ok, w1))"

definition finish_add :: "cfg_env \<Rightarrow> obj \<Rightarrow> world \<Rightarrow> reply \<times> world" where
  "finish_add env inbound w =
     (case persistInbound env inbound w of
        (Some e, w1) \<Rightarrow>
          (writeOk [(''message'', JStr ''Inbound added to runtime, but failed to persist to config''),
                    (''warning'', JStr ''persist_failed'')], w1)
      | (None, w1) \<Rightarrow> (writeOk [(''message'', JStr ''Inbound added successfully'')], w1))"

definition manageInboundEmbedded :: "cfg_env \<Rightarrow> string \<Rightarrow> inbound_req \<Rightarrow> world \<Rightarrow> reply \<times> world" where
  "manageInboundEmbedded env action req w =
     (if action = ''add'' then
        (case ir_inbound req of
           None \<Rightarrow> (writeError 400 ''Inbound payload is required'', w)
         | Some inbound \<Rightarrow>
             if \<not> ce_build_in env inbound then (writeError 500 ''Failed to build inbound config'', w)
             else
               (let w1 = (if get_str inbound ''tag'' \<noteq> []
                          then snd (api_call (DelIn (get_str inbound ''tag'')) w) else w)
                in (case api_call (AddIn inbound) w1 of
                      (Some _, w2) \<Rightarrow> (writeError 500 ''Failed to add inbound'', w2)
                    | (None, w2) \<Rightarrow> finish_add env inbound w2)))
      else if action = ''remove'' then
        (if ir_tag req = [] then (writeError 400 ''Tag is required for remove action'', w)
         else (case api_call (DelIn (ir_tag req)) w of
                 (runtimeErr, w1) \<Rightarrow> finish_remove env (\<lambda>_. True) runtimeErr (ir_tag req) w1))
      else (writeError 400 ''Invalid action. Must be add or remove'', w))"

definition manageInboundExternal :: "cfg_env \<Rightarrow> string \<Rightarrow> inbound_req \<Rightarrow> world \<Rightarrow> reply \<times> world" where
  "manageInboundExternal env action req w =
     (case findXrayAPIPort env w of
        (port, w1) \<Rightarrow>
          if port = 0 then (writeError 500 ''Xray API not available'', w1)
          else
            (case sys_call w1 of
               (Some _, w2) \<Rightarrow> (writeError 500 ''Failed to connect to Xray'', w2)
             | (None, w2) \<Rightarrow>
                 if action = ''add'' then
                   (case ir_inbound req of
                      None \<Rightarrow> (writeError 400 ''Inbound payload is required'', w2)
                    | Some inbound \<Rightarrow>
                        (case addInbound env inbound w2 of
                           (Some _, w3) \<Rightarrow> (writeError 500 ''Failed to add inbound'', w3)
                         | (None, w3) \<Rightarrow> finish_add env inbound w3))
                 else if action = ''remove'' then
                   (if ir_tag req = [] then (writeError 400 ''Tag is required for remove action'', w2)
                    else (case api_call (DelIn (ir_tag req)) w2 of
                            (runtimeErr, w3) \<Rightarrow>
                              finish_remove env (\<lambda>e. \<not> str_contains (err_text e) ''not enough information'')
                                runtimeErr (ir_tag req) w3))
                 else (writeError 400 ''Invalid action. Must be add or remove'', w2)))"

definition manageInbound :: "cfg_env \<Rightarrow> inbound_req option \<Rightarrow> world \<Rightarrow> reply \<times> world" where
  "manageInbound env rbody w =
     (case rbody of
        None \<Rightarrow> (writeError 400 ''Invalid request body'', w)
      | Some req \<Rightarrow>
          (let a = to_lower (trim_space (ir_action req)); action = (if a = [] then ''add'' else a)
           in if action = ''add-client'' \<or> action = ''remove-client'' then manageInboundClient env action req w
              else if action = ''add-sniffing-exclude'' then manageInboundSniffingExclude env req w
              else if ce_embedded env then manageInboundEmbedded env action req w
              else manageInboundExternal env action req w))"

section \<open>Outbounds\<close>

record outbound_req =
  or_action :: string
  or_outbound :: "obj option"
  or_tag :: string
  or_tags :: "string list"

definition manageOutbound_reorder :: "cfg_env \<Rightarrow> string list \<Rightarrow> world \<Rightarrow> reply \<times> world" where
  "manageOutbound_reorder env tags w =
     (if tags = [] then (writeError 400 ''tags is required for reorder action'', w)
      else if ce_path env = [] then (writeError 404 ''Xray config not found'', w)
      else
        (let w1 = promoteOutboundTagsInFile (ce_dec env) (ce_enc env) (ce_path env) w
         in (case read_file (ce_path env) w1 of
               (Inl _, w2) \<Rightarrow> (writeError 500 ''read config'', w2)
             | (Inr content, w2) \<Rightarrow>
                 (case ce_dec env content of
                    None \<Rightarrow> (writeError 500 ''parse config'', w2)
                  | Some config \<Rightarrow>
                      (case write_file (ce_path env)
                              (ce_enc env (jset ''outbounds''
                                 (JArr (reorder_outbounds tags (get_list config ''outbounds''))) config)) w2 of
                         (Some _, w3) \<Rightarrow> (writeError 500 ''write config'', w3)
                       | (None, w3) \<Rightarrow> (writeOk [(''message'', JStr ''Outbounds reordered'')], w3))))))"

definition manageOutbound_update :: "cfg_env \<Rightarrow> outbound_req \<Rightarrow> world \<Rightarrow> reply \<times> world" where
  "manageOutbound_update env req w =
     (case or_outbound req of
        None \<Rightarrow> (writeError 400 ''Outbound payload is required for update action'', w)
      | Some outbound \<Rightarrow>
          (let newTag = get_str outbound ''tag''; oldTag = (if or_tag req = [] then newTag else or_tag req)
           in if newTag = [] then (writeError 400 ''Outbound tag is required for update action'', w)
              else
                (let w1 = snd (api_call (DelOut oldTag) w)
                 in (case addOutbound env outbound w1 of
                       (Some _, w2) \<Rightarrow> (writeError 500 ''Failed to add updated outbound'', w2)
                     | (None, w2) \<Rightarrow>
                         (let w3 = snd (replaceOutboundInConfig env oldTag outbound w2)
                          in (writeOk [(''message'', JStr ''Outbound updated successfully'')], w3))))))"

definition manageOutbound :: "cfg_env \<Rightarrow> outbound_req option \<Rightarrow> world \<Rightarrow> reply \<times> world" where
  "manageOutbound env rbody w =
     (case rbody of
        None \<Rightarrow> (writeError 400 ''Invalid request body'', w)
      | Some req \<Rightarrow>
          (let a = to_lower (trim_space (or_action req)); action = (if a = [] then ''add'' else a)
           in (case findXrayAPIPort env w of
                 (port, w1) \<Rightarrow>
                   if port = 0 then (writeError 500 ''Xray API not available'', w1)
                   else
                     (case sys_call w1 of
                        (Some _, w2) \<Rightarrow> (writeError 500 ''Failed to connect to Xray'', w2)
                      | (None, w2) \<Rightarrow>
                          if action = ''add'' then
                            (case or_outbound req of
                               None \<Rightarrow> (writeError 400 ''Outbound payload is required'', w2)
                             | Some outbound \<Rightarrow>
                                 (case addOutbound env outbound w2 of
                                    (Some _, w3) \<Rightarrow> (writeError 500 ''Failed to add outbound'', w3)
                                  | (None, w3) \<Rightarrow>
                                      (let w4 = snd (persistOutbound env outbound w3)
                                       in (writeOk [(''message'', JStr ''Outbound added successfully'')], w4))))
                          else if action = ''remove'' then
                            (if or_tag req = [] then (writeError 400 ''Tag is required for remove action'', w2)
                             else
                               (case api_call (DelOut (or_tag req)) w2 of
                                  (Some _, w3) \<Rightarrow> (writeError 500 ''Failed to remove outbound'', w3)
                                | (None, w3) \<Rightarrow>
                                    (let w4 = snd (removeOutboundFromConfig env (or_tag req) w3)
                                     in (writeOk [(''message'', JStr ''Outbound removed successfully'')], w4))))
                          else if action = ''update'' then manageOutbound_update env req w2
                          else if action = ''reorder'' then manageOutbound_reorder env (or_tags req) w2
                          else (writeError 400 ''Invalid action. Must be add, remove, update or reorder'', w2)))))"

section \<open>Routing\<close>

text \<open>The restart after a routing change, with the way back to the old bytes when Xray does not start:
  the error of the restart and whether the way back succeeded.\<close>

definition restart_or_restore :: "string \<Rightarrow> string \<Rightarrow> world \<Rightarrow> (io_err \<times> bool) option \<times> world" where
  "restart_or_restore path old w =
     (case restart_xray path w of
        (None, w1) \<Rightarrow> (None, w1)
      | (Some e, w1) \<Rightarrow>
          (case write_file path old w1 of
             (Some _, w2) \<Rightarrow> (Some (e, False), w2)
           | (None, w2) \<Rightarrow>
               (case restart_xray path w2 of (r, w3) \<Rightarrow> (Some (e, r = None), w3))))"

definition routing_rejected :: reply where
  "routing_rejected = writeError 500 ''routing update rejected (rolled back)''"

text \<open>Writing the edited configuration and restarting on it.\<close>

definition routing_apply :: "cfg_env \<Rightarrow> bool \<Rightarrow> string \<Rightarrow> obj \<Rightarrow> world \<Rightarrow> reply \<times> world" where
  "routing_apply env norestart content config' w =
     (case write_file (ce_path env) (ce_enc env config') w of
        (Some _, w1) \<Rightarrow> (writeError 500 ''Failed to write config'', w1)
      | (None, w1) \<Rightarrow>
          if norestart
          then (writeOk [(''message'', JStr ''Routing updated; xray restart deferred to caller'')], w1)
          else
            (case restart_or_restore (ce_path env) content w1 of
               (Some (_, True), w2) \<Rightarrow> (routing_rejected, w2)
             | (Some (_, False), w2) \<Rightarrow>
                 (writeError 500 ''routing update rejected (rollback failed)'', w2)
             | (None, w2) \<Rightarrow> (writeOk [(''message'', JStr ''Routing updated and xray restarted'')], w2)))"

definition routing_action :: "routing_req \<Rightarrow> string" where
  "routing_action req = (let a = to_lower (trim_space (rq_action req)) in if a = [] then ''set'' else a)"

definition manageRouting :: "cfg_env \<Rightarrow> routing_req option \<Rightarrow> world \<Rightarrow> reply \<times> world" where
  "manageRouting env rbody w =
     (case rbody of
        None \<Rightarrow> (writeError 400 ''Invalid request body'', w)
      | Some req \<Rightarrow>
          (if ce_path env = [] then (writeError 404 ''Xray config not found'', w)
              else
                (case read_file (ce_path env) w of
                   (Inl _, w1) \<Rightarrow> (writeError 500 ''Failed to read config'', w1)
                 | (Inr content, w1) \<Rightarrow>
                     (case ce_dec env content of
                        None \<Rightarrow> (writeError 500 ''Failed to parse config'', w1)
                      | Some config \<Rightarrow>
                          (case routing_edit req (routing_action req) config of
                             Inl (RoutingBad msg) \<Rightarrow> (writeError 400 msg, w1)
                           | Inl (RoutingNotFound m) \<Rightarrow>
                               (writeError 404 (''Rule with marktag='' @ m @ '' not found''), w1)
                           | Inr config' \<Rightarrow> routing_apply env (rq_norestart req) content config' w1)))))"

section \<open>Batch\<close>

record batch_client =
  bc_tag :: string
  bc_client :: "obj option"

record batch_user =
  bu_marktag :: string
  bu_outbound :: string
  bu_email :: string

record batch_req =
  br_clients :: "batch_client list"
  br_users :: "batch_user list"
  br_norestart :: bool

record batch_result =
  bs_success :: bool
  bs_inbounds :: "string list"
  bs_routing :: "string list"
  bs_warnings :: "string list"
  bs_changed :: bool
  bs_restarted :: bool
  bs_message :: string

text \<open>The results, one per item, the configuration and the tags whose inbound changed.\<close>

fun batch_clients :: "batch_client list \<Rightarrow> obj \<Rightarrow> string list \<Rightarrow> string list \<times> obj \<times> string list" where
  "batch_clients [] config affected = ([], config, affected)"
| "batch_clients (i # is) config affected =
     (case (if bc_tag i = [] then None else bc_client i) of
        None \<Rightarrow>
          (case batch_clients is config affected of
             (rs, c, aff) \<Rightarrow> (''err: tag and client required'' # rs, c, aff))
      | Some client \<Rightarrow>
          (case applyAddClientToConfig config (bc_tag i) client of
             (config', res) \<Rightarrow>
               (case res of
                  ClientAdded _ \<Rightarrow>
                    (case batch_clients is config'
                            (if bc_tag i \<in> set affected then affected else affected @ [bc_tag i]) of
                       (rs, c, aff) \<Rightarrow> (''ok'' # rs, c, aff))
                | ClientPresent _ \<Rightarrow>
                    (case batch_clients is config' affected of (rs, c, aff) \<Rightarrow> (''ok (no-op)'' # rs, c, aff))
                | UnsupportedProtocol p \<Rightarrow>
                    (case batch_clients is config' affected of
                       (rs, c, aff) \<Rightarrow> ((''err: unsupported protocol: '' @ p) # rs, c, aff))
                | NoSuchInbound t \<Rightarrow>
                    (case batch_clients is config' affected of
                       (rs, c, aff) \<Rightarrow> ((''err: inbound '' @ t @ '' not found'') # rs, c, aff)))))"

fun batch_users :: "batch_user list \<Rightarrow> obj \<Rightarrow> string list \<times> obj \<times> bool" where
  "batch_users [] config = ([], config, False)"
| "batch_users (u # us) config =
     (case applyAddUserToRouteInConfig config (bu_marktag u) (bu_outbound u) (bu_email u) of
        (config', res) \<Rightarrow>
          (case batch_users us config' of
             (rs, c, changed) \<Rightarrow>
               ((case res of
                   RouteChanged \<Rightarrow> ''ok''
                 | RouteUnchanged \<Rightarrow> ''ok (no-op)''
                 | RouteError e \<Rightarrow> ''err: '' @ e) # rs,
                c, res = RouteChanged \<or> changed)))"

text \<open>The runtime step for each affected inbound, as it stands in the written configuration. (The Go
  map is visited in no fixed order; here in the order of the items.)\<close>

fun batch_runtime :: "cfg_env \<Rightarrow> obj \<Rightarrow> string list \<Rightarrow> world \<Rightarrow> string list \<times> world" where
  "batch_runtime env config [] w = ([], w)"
| "batch_runtime env config (tag # tags) w =
     (case find_inbound tag config of
        None \<Rightarrow> batch_runtime env config tags w
      | Some target \<Rightarrow>
          (case replaceRuntimeInbound env tag target w of
             (r, w1) \<Rightarrow>
               (case batch_runtime env config tags w1 of
                  (ws, w2) \<Rightarrow> ((case r of None \<Rightarrow> ws | Some _ \<Rightarrow> tag # ws), w2))))"

text \<open>The answer is \<open>Inl\<close> an error reply or \<open>Inr\<close> the result object sent with status 200.\<close>

definition batch_finish ::
  "cfg_env \<Rightarrow> batch_req \<Rightarrow> string \<Rightarrow> obj \<Rightarrow> batch_result \<Rightarrow> string list \<Rightarrow> world \<Rightarrow>
   (reply + batch_result) \<times> world" where
  "batch_finish env req content config result affected w =
     (case save_via_tmp env config w of
        (Some r, w1) \<Rightarrow> (Inl r, w1)
      | (None, w1) \<Rightarrow>
          (case batch_runtime env config affected w1 of
             (warnings, w2) \<Rightarrow>
               (let applied = ''applied '' @ itoa (int (length affected)) @ '' inbound + '' @
                      itoa (int (length (br_users req))) @ '' routing changes''
                in if bs_changed result \<and> \<not> br_norestart req then
                  (case restart_or_restore (ce_path env) content w2 of
                     (Some (_, rolledBack), w3) \<Rightarrow>
                       (Inr (result\<lparr>bs_success := True, bs_warnings := warnings, bs_message :=
                          (if rolledBack
                           then ''routing change rejected: new config failed to start xray, rolled back''
                           else ''config persisted, xray restart failed (rollback also failed)'')\<rparr>), w3)
                   | (None, w3) \<Rightarrow>
                       (Inr (result\<lparr>bs_success := True, bs_warnings := warnings, bs_restarted := True,
                          bs_message := applied\<rparr>), w3))
                else
                  (Inr (result\<lparr>bs_success := True, bs_warnings := warnings, bs_message := applied\<rparr>), w2))))"

definition HandleBatchApply ::
  "cfg_env \<Rightarrow> bool \<Rightarrow> bool \<Rightarrow> batch_req option \<Rightarrow> world \<Rightarrow> (reply + batch_result) \<times> world" where
  "HandleBatchApply env authenticated post rbody w =
     (if \<not> authenticated then (Inl (writeError 401 ''Unauthorized''), w)
      else if \<not> post then (Inl (writeError 405 ''Method not allowed''), w)
      else
        (case rbody of
           None \<Rightarrow> (Inl (writeError 400 ''Invalid request body''), w)
         | Some req \<Rightarrow>
             (let none = \<lparr>bs_success = True, bs_inbounds = [], bs_routing = [], bs_warnings = [],
                    bs_changed = False, bs_restarted = False, bs_message = ''nothing to apply''\<rparr>
              in if br_clients req = [] \<and> br_users req = [] then (Inr none, w)
                 else if ce_path env = [] then (Inl (writeError 404 ''Xray config not found''), w)
                 else
                   (case read_file (ce_path env) w of
                      (Inl _, w1) \<Rightarrow> (Inl (writeError 500 ''read config''), w1)
                    | (Inr content, w1) \<Rightarrow>
                        (case ce_dec env content of
                           None \<Rightarrow> (Inl (writeError 500 ''parse config''), w1)
                         | Some config \<Rightarrow>
                             (case batch_clients (br_clients req) config [] of
                                (rs, config1, affected) \<Rightarrow>
                                  (case batch_users (br_users req) config1 of
                                     (us, config2, changed) \<Rightarrow>
                                       (let result = none\<lparr>bs_success := False, bs_inbounds := rs,
                                              bs_routing := us, bs_changed := changed, bs_message := []\<rparr>
                                        in if affected = [] \<and> \<not> changed
                                           then (Inr (result\<lparr>bs_success := True,
                                                   bs_message := ''all no-op, config unchanged''\<rparr>), w1)
                                           else batch_finish env req content (dedupe_config config2) result
                                                  affected w1))))))))"

section \<open>What a handler leaves alone\<close>

lemma runtime_calls_snd [simp]:
  "file_at (snd (findXrayAPIPort env w)) q = file_at w q"
  "running (snd (findXrayAPIPort env w)) = running w"
  "file_at (snd (addInbound env inbound w)) q = file_at w q"
  "running (snd (addInbound env inbound w)) = running w"
  "file_at (snd (addOutbound env outbound w)) q = file_at w q"
  "running (snd (addOutbound env outbound w)) = running w"
  by (simp_all add: findXrayAPIPort_def addInbound_def addOutbound_def Let_def case_prod_beta
      split: sum.splits option.splits)

lemma replace_runtime_snd [simp]:
  "file_at (snd (replaceRuntimeInbound env tag m w)) q = file_at w q"
  "running (snd (replaceRuntimeInbound env tag m w)) = running w"
  by (simp_all add: replaceRuntimeInbound_def Let_def case_prod_beta split: sum.splits option.splits)

lemma batch_runtime_snd [simp]:
  "file_at (snd (batch_runtime env config tags w)) q = file_at w q"
  "running (snd (batch_runtime env config tags w)) = running w"
  by (induction tags arbitrary: w) (simp_all add: case_prod_beta split: option.splits)

lemma rewrite_snd [simp]:
  "q \<noteq> ce_path env \<Longrightarrow> file_at (snd (rewrite_config env f w)) q = file_at w q"
  "running (snd (rewrite_config env f w)) = running w"
  by (simp_all add: rewrite_config_def case_prod_beta split: sum.splits option.splits)

lemma tmp_path [simp]: "p @ ''.tmp'' \<noteq> (p :: string)" "p \<noteq> p @ ''.tmp''"
  by simp_all

text \<open>The temporary file and the rename: the configuration is replaced as a whole or not at all.\<close>

lemma tmp_save_snd [simp]:
  "running (snd (save_via_tmp env config w)) = running w"
  "q \<noteq> ce_path env \<Longrightarrow> q \<noteq> ce_path env @ ''.tmp'' \<Longrightarrow>
     file_at (snd (save_via_tmp env config w)) q = file_at w q"
  "file_at (snd (save_via_tmp env config w)) (ce_path env) =
     (if fst (save_via_tmp env config w) = None then Some (ce_enc env config)
      else file_at w (ce_path env))"
proof -
  let ?t = "ce_path env @ ''.tmp''"
  show "running (snd (save_via_tmp env config w)) = running w"
    by (simp add: save_via_tmp_def Let_def case_prod_beta split: option.splits)
  show "q \<noteq> ce_path env \<Longrightarrow> q \<noteq> ?t \<Longrightarrow> file_at (snd (save_via_tmp env config w)) q = file_at w q"
    by (simp add: save_via_tmp_def Let_def case_prod_beta split: option.splits)
  obtain a w1 where 1: "write_file ?t (ce_enc env config) w = (a, w1)" by fastforce
  obtain b w2 where 2: "rename_file ?t (ce_path env) w1 = (b, w2)" by fastforce
  have p: "file_at w1 (ce_path env) = file_at w (ce_path env)"
    using 1 write_file_other [OF 1] by simp
  show "file_at (snd (save_via_tmp env config w)) (ce_path env) =
     (if fst (save_via_tmp env config w) = None then Some (ce_enc env config)
      else file_at w (ce_path env))"
    using p 1 2 rename_file_target [OF 2] write_file_ok [of ?t "ce_enc env config" w w1]
    by (auto simp: save_via_tmp_def Let_def case_prod_beta split: option.splits)
qed

lemma save_status: "fst (save_via_tmp env config w) = Some r \<Longrightarrow> status r = 500"
  by (auto simp: save_via_tmp_def Let_def case_prod_beta split: option.splits)

section \<open>Client edits\<close>

text \<open>The configuration an accepted edit of an inbound's users writes.\<close>

definition edited_config :: "string \<Rightarrow> string \<Rightarrow> obj \<Rightarrow> obj \<Rightarrow> obj option" where
  "edited_config action tag client config =
     (case find_inbound tag config of
        None \<Rightarrow> None
      | Some target \<Rightarrow>
          (case edit_client action client target of
             ClientEdited m \<Rightarrow> Some (dedupe_config (set_target tag m config))
           | _ \<Rightarrow> None))"

lemma apply_target_effect:
  assumes "apply_target env tag deferred done target config w = (r, w')"
  shows "running w' = running w"
    and "q \<noteq> ce_path env \<Longrightarrow> q \<noteq> ce_path env @ ''.tmp'' \<Longrightarrow> file_at w' q = file_at w q"
    and "file_at w' (ce_path env) =
           (if status r = 200 then Some (ce_enc env (dedupe_config (set_target tag target config)))
            else file_at w (ce_path env))"
    and "status r = 200 \<or> status r = 500"
  using assms
  by (auto simp: apply_target_def Let_def case_prod_beta dest: save_status split: option.splits)

text \<open>C7: \<open>manageInboundClient\<close> changes the configuration as a whole or not at all. Whatever system
  call fails, the configuration file afterwards is untouched, or it is the encoding of the one
  configuration in which the target inbound's users are edited and every duplicate tag is folded;
  the latter only with status 200. The loaded configuration and all other files but the temporary one
  stay as they were.\<close>

theorem manageInboundClient_atomic:
  assumes "manageInboundClient env action req w = (r, w')"
  shows "(file_at w' (ce_path env) = file_at w (ce_path env) \<or>
          status r = 200 \<and>
          (\<exists>old config new client. file_at w (ce_path env) = Some old \<and> ce_dec env old = Some config \<and>
             ir_client req = Some client \<and>
             edited_config action (ir_tag req) client config = Some new \<and>
             file_at w' (ce_path env) = Some (ce_enc env new))) \<and>
         running w' = running w \<and>
         (\<forall>q. q \<noteq> ce_path env \<and> q \<noteq> ce_path env @ ''.tmp'' \<longrightarrow> file_at w' q = file_at w q)"
proof (cases "\<exists>client content config target m. ir_tag req \<noteq> [] \<and> ir_client req = Some client \<and>
    ce_path env \<noteq> [] \<and> fst (read_file (ce_path env) w) = Inr content \<and> ce_dec env content = Some config \<and>
    find_inbound (ir_tag req) config = Some target \<and> edit_client action client target = ClientEdited m")
  case False
  have "w' = w \<or> w' = snd (read_file (ce_path env) w)"
    using False assms
    by (auto simp: manageInboundClient_def case_prod_beta split: if_splits option.splits sum.splits
        client_edit.splits)
  then show ?thesis by auto
next
  case True
  then obtain client content config target m where t: "ir_tag req \<noteq> []" "ir_client req = Some client"
    "ce_path env \<noteq> []" "fst (read_file (ce_path env) w) = Inr content" "ce_dec env content = Some config"
    "find_inbound (ir_tag req) config = Some target" "edit_client action client target = ClientEdited m"
    by blast
  obtain w1 where r: "read_file (ce_path env) w = (Inr content, w1)"
    using t(4) by (metis prod.collapse)
  from r have w1: "file_at w1 q = file_at w q" "running w1 = running w" for q
    by (auto dest: read_file_at read_file_frame)
  from assms t r obtain d e where
    a: "apply_target env (ir_tag req) d e m config w1 = (r, w')"
    by (auto simp: manageInboundClient_def)
  show ?thesis
    using apply_target_effect [OF a] w1 t read_file_Inr [OF r]
    by (auto simp: edited_config_def)
qed

text \<open>A small environment for examples: one configuration with a vless inbound, written as itself.\<close>

definition demo_config :: obj where
  "demo_config = [(''inbounds'', JArr [JObj [(''tag'', JStr ''in''), (''protocol'', JStr ''vless'')]])]"

definition demo_cfg_env :: cfg_env where
  "demo_cfg_env = \<lparr>ce_dec = (\<lambda>s. if s = ''A'' then Some demo_config else None), ce_enc = (\<lambda>_. ''B''),
     ce_build_in = (\<lambda>_. True), ce_build_out = (\<lambda>_. True), ce_path = ''/c'', ce_confdir = [],
     ce_embedded = True\<rparr>"

lemma demo_cfg_env_simps [simp]:
  "ce_dec demo_cfg_env ''A'' = Some demo_config" "ce_enc demo_cfg_env c = ''B''"
  "ce_build_in demo_cfg_env c" "ce_path demo_cfg_env = ''/c''" "ce_confdir demo_cfg_env = []"
  "ce_embedded demo_cfg_env"
  by (simp_all add: demo_cfg_env_def)

definition demo_start :: "outcome list \<Rightarrow> world" where
  "demo_start rs = \<lparr>files = [(''/c'', ''A'')], tape = rs, running = Some ''A'', api = []\<rparr>"

lemma manageInboundClient_atomic_witness:
  "let req = \<lparr>ir_action = ''add-client'', ir_inbound = None, ir_tag = ''in'',
              ir_client = Some [(''id'', JStr ''U'')], ir_domains = []\<rparr>;
       ok = manageInboundClient demo_cfg_env ''add-client'' req (demo_start []);
       ko = manageInboundClient demo_cfg_env ''add-client'' req (demo_start [Works, Torn ''x''])
   in status (fst ok) = 200 \<and> file_at (snd ok) ''/c'' = Some ''B'' \<and> running (snd ok) = Some ''A'' \<and>
      status (fst ko) = 500 \<and> file_at (snd ko) ''/c'' = Some ''A''"
proof -
  let ?req = "\<lparr>ir_action = ''add-client'', ir_inbound = None, ir_tag = ''in'',
              ir_client = Some [(''id'', JStr ''U'')], ir_domains = []\<rparr>"
  let ?ok = "manageInboundClient demo_cfg_env ''add-client'' ?req (demo_start [])"
  let ?ko = "manageInboundClient demo_cfg_env ''add-client'' ?req (demo_start [Works, Torn ''x''])"
  note d = manageInboundClient_def demo_start_def read_file_def next_outcome_def file_at_def
    demo_config_def find_inbound_def has_tag_def get_str_def edit_client_def client_array_def to_lower_def
    to_lower_char_def get_obj_def get_list_def get_arr_def has_client_def apply_target_def save_via_tmp_def
    write_file_def rename_file_def put_file_def del_file_def replaceRuntimeInbound_def api_call_def
    outcome_err_def Let_def
  have ok: "status (fst ?ok) = 200 \<and> file_at (snd ?ok) ''/c'' = Some ''B''"
    by (simp add: d)
  have ko: "status (fst ?ko) = 500"
    by (simp add: d)
  have "running (snd ?ok) = running (demo_start [])"
    using manageInboundClient_atomic [OF surjective_pairing, of demo_cfg_env "''add-client''" ?req "demo_start []"]
    by blast
  moreover have "file_at (snd ?ko) ''/c'' = file_at (demo_start [Works, Torn ''x'']) ''/c''"
    using manageInboundClient_atomic [OF surjective_pairing, of demo_cfg_env "''add-client''" ?req
        "demo_start [Works, Torn ''x'']"] ko by auto
  ultimately show ?thesis using ok ko by (simp add: Let_def demo_start_def file_at_def)
qed

lemma get_strip_meta:
  "get_str (strip_meta m) ''protocol'' = get_str m ''protocol''"
  "get_obj (strip_meta m) ''settings'' = get_obj m ''settings''"
  "\<not> has_prefix k ''_'' \<Longrightarrow> map_of (strip_meta m) k = map_of m k"
  "has_prefix k ''_'' \<Longrightarrow> map_of (strip_meta m) k = None"
proof -
  show 1: "\<not> has_prefix k ''_'' \<Longrightarrow> map_of (strip_meta m) k = map_of m k" for k
    by (induction m) (auto simp: strip_meta_def)
  show "get_str (strip_meta m) ''protocol'' = get_str m ''protocol''"
    "get_obj (strip_meta m) ''settings'' = get_obj m ''settings''"
    by (simp_all add: get_str_def get_obj_def 1)
  show "has_prefix k ''_'' \<Longrightarrow> map_of (strip_meta m) k = None"
    by (induction m) (auto simp: strip_meta_def)
qed

text \<open>C18: What an edit of an inbound's users does. Adding appends the user to the protocol's user list
  and nothing else; removing drops exactly the users with its identity. Every other key of the inbound's settings stays,
  and so does every other key of the inbound, the listing's underscore keys apart, which are removed. A removal made
  again finds nothing to do, and so does an addition, if the user counts as itself (it has one of the fields its protocol
  identifies users by).\<close>

theorem edit_client_effect:
  assumes "edit_client action client target = ClientEdited m"
  shows "\<exists>k. client_array (get_str target ''protocol'') = Some k \<and>
           users_of k (JObj m) =
             (if action = ''add-client'' then users_of k (JObj target) @ [JObj client]
              else filter (\<lambda>c. \<not> has_client (get_str target ''protocol'') client [c]) (users_of k (JObj target))) \<and>
           (\<forall>x. x \<noteq> ''settings'' \<longrightarrow>
              map_of m x = (if has_prefix x ''_'' then None else map_of target x)) \<and>
           (\<exists>s'. get_obj m ''settings'' = Some s' \<and>
              (\<forall>x. x \<noteq> k \<longrightarrow> map_of s' x = map_of (case get_obj target ''settings'' of Some s \<Rightarrow> s | None \<Rightarrow> []) x)) \<and>
           (action = ''add-client'' \<longrightarrow> matchClientCredential client client (get_str target ''protocol'') \<longrightarrow>
              edit_client action client m = ClientNoop ''client already present (no-op)'') \<and>
           (action \<noteq> ''add-client'' \<longrightarrow>
              edit_client action client m = ClientNoop ''client not found (no-op)'')"
proof -
  let ?p = "get_str target ''protocol''"
  let ?s = "case get_obj target ''settings'' of Some s \<Rightarrow> s | None \<Rightarrow> []"
  from assms obtain k where k: "client_array ?p = Some k"
    by (auto simp: edit_client_def Let_def split: option.splits)
  let ?same = "\<lambda>c. case as_obj c of Some m \<Rightarrow> matchClientCredential m client ?p | None \<Rightarrow> False"
  let ?arr = "get_list ?s k"
  let ?new = "if action = ''add-client'' then ?arr @ [JObj client] else filter (\<lambda>c. \<not> ?same c) ?arr"
  have m: "m = strip_meta (jset ''settings'' (JObj (jset k (JArr ?new) ?s)) target)"
    using assms k by (simp add: edit_client_def Let_def split: if_splits)
  have same: "has_client ?p client [c] \<longleftrightarrow> ?same c" for c
    by (simp add: has_client_def)
  have proto: "get_str m ''protocol'' = ?p"
    by (simp add: m get_strip_meta)
  have sett: "get_obj m ''settings'' = Some (jset k (JArr ?new) ?s)"
    by (simp add: m get_strip_meta)
  have 1: "users_of k (JObj target) = ?arr"
    by (auto simp: users_of_def get_list_def get_arr_def split: option.splits)
  have 2: "users_of k (JObj m) = ?new"
    by (simp add: users_of_def sett)
  have 3: "map_of m x = (if has_prefix x ''_'' then None else map_of target x)" if "x \<noteq> ''settings''" for x
    using that by (simp add: m get_strip_meta del: has_prefix_Cons)
  have 6: "\<exists>s'. get_obj m ''settings'' = Some s' \<and> (\<forall>x. x \<noteq> k \<longrightarrow> map_of s' x = map_of ?s x)"
    using sett by simp
  have 4: "edit_client action client m = ClientNoop ''client already present (no-op)''"
    if "action = ''add-client''" "matchClientCredential client client ?p"
    using that k by (simp add: edit_client_def proto sett Let_def has_client_def)
  have 5: "edit_client action client m = ClientNoop ''client not found (no-op)''"
    if "action \<noteq> ''add-client''"
    using that k by (simp add: edit_client_def proto sett Let_def list_ex_iff)
  show ?thesis
    using k 1 2 3 4 5 6 same by (intro exI [of _ k]) simp
qed

lemma edit_client_effect_witness:
  "let t = [(''protocol'', JStr ''trojan''), (''_generated_tag'', JStr ''t'')];
       c = [(''password'', JStr ''p'')];
       m = [(''protocol'', JStr ''trojan''), (''settings'', JObj [(''clients'', JArr [JObj c])])]
   in edit_client ''add-client'' c t = ClientEdited m \<and>
      edit_client ''remove-client'' c m =
        ClientEdited [(''protocol'', JStr ''trojan''), (''settings'', JObj [(''clients'', JArr [])])] \<and>
      map_of m ''_generated_tag'' = None"
proof -
  let ?t = "[(''protocol'', JStr ''trojan''), (''_generated_tag'', JStr ''t'')]"
  let ?c = "[(''password'', JStr ''p'')]"
  let ?m = "[(''protocol'', JStr ''trojan''), (''settings'', JObj [(''clients'', JArr [JObj ?c])])]"
  note d = edit_client_def client_array_def to_lower_def to_lower_char_def get_str_def get_obj_def
    get_list_def get_arr_def has_client_def strip_meta_def matchClientCredential_def primary_key_def
    nonempty_at_def both_nonempty_eq_def sprint_at_def Let_def
  have 1: "edit_client ''add-client'' ?c ?t = ClientEdited ?m" by (simp add: d)
  have 2: "edit_client ''remove-client'' ?c ?m =
        ClientEdited [(''protocol'', JStr ''trojan''), (''settings'', JObj [(''clients'', JArr [])])]"
    by (simp add: d)
  have "map_of ?m ''_generated_tag'' = None" using edit_client_effect [OF 1] by (elim exE conjE) simp
  with 1 2 show ?thesis by (simp add: Let_def)
qed

section \<open>The routing rollback\<close>

lemma restart_or_restore_count: "restart_or_restore path old w = (Some (e, False), w') \<Longrightarrow> 2 \<le> failures w"
proof -
  define w1 where "w1 = snd (restart_xray path w)"
  define w2 where "w2 = snd (write_file path old w1)"
  assume "restart_or_restore path old w = (Some (e, False), w')"
  then have "fst (restart_xray path w) \<noteq> None" "fst (write_file path old w1) \<noteq> None \<or> fst (restart_xray path w2) \<noteq> None"
    by (auto simp: restart_or_restore_def case_prod_beta w1_def w2_def split: option.splits)
  moreover have "failures w1 \<noteq> 0"
    using calculation(2) calm_works(2) [of w1 path old] calm_works(3) [of w2 path] calm_stays(3) [of w1 path old]
    by (metis w2_def)
  ultimately show ?thesis using primitive_used(3) [of path w] by (simp add: w1_def)
qed

text \<open>Changes of the running process and saves use up failures, never add them.\<close>

lemma handler_counts:
  "failures (snd (findXrayAPIPort env w)) \<le> failures w" "failures (snd (addInbound env inbound w)) \<le> failures w"
  "failures (snd (replaceRuntimeInbound env tag m w)) \<le> failures w" "failures (snd (save_via_tmp env config w)) \<le> failures w"
  "failures (snd (batch_runtime env config tags w)) \<le> failures w"
proof -
  note api = primitive_mono(7)
  have f: "failures (snd (findXrayAPIPort env w)) \<le> failures w" for w
    using primitive_mono(1) [of "ce_path env" w]
    by (simp add: findXrayAPIPort_def Let_def case_prod_beta split: sum.splits option.splits)
  have a: "failures (snd (addInbound env inbound w)) \<le> failures w" for w inbound
    using api [of _ w] api [of "AddIn inbound" "snd (api_call (DelIn (get_str inbound ''tag'')) w)"]
    by (auto simp: addInbound_def Let_def intro: le_trans)
  have r: "failures (snd (replaceRuntimeInbound env tag m w)) \<le> failures w" for tag m w
  proof -
    define w1 where "w1 = snd (findXrayAPIPort env w)"
    define w2 where "w2 = snd (sys_call w1)"
    have "failures (snd (api_call (AddIn m) (snd (api_call (DelIn tag) w)))) \<le> failures w"
      by (rule le_trans [OF api api])
    moreover have "failures w1 \<le> failures w" "failures w2 \<le> failures w1"
      using f primitive_mono(2) by (simp_all add: w1_def w2_def)
    moreover have "failures (snd (addInbound env m (snd (api_call (DelIn tag) w2)))) \<le> failures w2"
      by (rule le_trans [OF a api])
    ultimately show ?thesis
      by (auto simp: replaceRuntimeInbound_def case_prod_beta w1_def [symmetric] w2_def [symmetric] split: option.splits)
  qed
  show "failures (snd (findXrayAPIPort env w)) \<le> failures w" "failures (snd (addInbound env inbound w)) \<le> failures w"
    "failures (snd (replaceRuntimeInbound env tag m w)) \<le> failures w" by (rule f a r)+
  define t where "t = ce_path env @ ''.tmp''"
  define v where "v = snd (write_file t (ce_enc env config) w)"
  define u where "u = snd (rename_file t (ce_path env) v)"
  have "failures v \<le> failures w" "failures u \<le> failures v" "failures (snd (remove_file t u)) \<le> failures u"
    using primitive_mono(3) [of t "ce_enc env config" w] primitive_mono(4) [of t "ce_path env" v] primitive_mono(5) [of t u]
    by (simp_all add: v_def u_def)
  then show "failures (snd (save_via_tmp env config w)) \<le> failures w"
    by (auto simp: save_via_tmp_def case_prod_beta Let_def t_def [symmetric] v_def [symmetric] u_def [symmetric] split: option.splits)
  show "failures (snd (batch_runtime env config tags w)) \<le> failures w"
    by (induction tags arbitrary: w) (auto simp: case_prod_beta split: option.splits intro: le_trans [OF _ r])
qed

lemma restart_or_restore_effect:
  assumes "restart_or_restore path old w = (r, w')"
  shows "q \<noteq> path \<Longrightarrow> file_at w' q = file_at w q"
    and "r = None \<Longrightarrow> file_at w' path = file_at w path \<and> running w' = file_at w path"
    and "r = Some (e, True) \<Longrightarrow> file_at w' path = Some old \<and> running w' = Some old"
    and "r = Some (e, False) \<Longrightarrow> running w' = None"
proof -
  obtain a w1 where 1: "restart_xray path w = (a, w1)" by fastforce
  obtain b w2 where 2: "write_file path old w1 = (b, w2)" by fastforce
  obtain c w3 where 3: "restart_xray path w2 = (c, w3)" by fastforce
  note f = restart_xray_at [OF 1] restart_xray_running [OF 1] write_file_running [OF 2]
    restart_xray_at [OF 3] restart_xray_running [OF 3]
  note o = write_file_other [OF 2] and ok = write_file_ok [of path old w1 w2]
  show "q \<noteq> path \<Longrightarrow> file_at w' q = file_at w q"
    using assms f o [of q] by (auto simp: restart_or_restore_def 1 2 3 split: option.splits)
  show "r = None \<Longrightarrow> file_at w' path = file_at w path \<and> running w' = file_at w path"
    using assms f by (auto simp: restart_or_restore_def 1 2 3 split: option.splits)
  show "r = Some (e, True) \<Longrightarrow> file_at w' path = Some old \<and> running w' = Some old"
    using assms f ok 2 by (auto simp: restart_or_restore_def 1 2 3 split: option.splits)
  show "r = Some (e, False) \<Longrightarrow> running w' = None"
    using assms f by (auto simp: restart_or_restore_def 1 2 3 split: option.splits)
qed

definition write_failed :: reply where
  "write_failed = writeError 500 ''Failed to write config''"

definition routing_stuck :: reply where
  "routing_stuck = writeError 500 ''routing update rejected (rollback failed)''"

definition before_write :: "reply \<Rightarrow> bool" where
  "before_write r \<longleftrightarrow> status r \<noteq> 200 \<and> r \<notin> {write_failed, routing_rejected, routing_stuck}"

lemma routing_replies [simp]:
  "status routing_rejected = 500" "routing_rejected \<noteq> writeOk m" "writeOk m \<noteq> routing_rejected"
  "writeError 400 t \<noteq> routing_rejected" "writeError 404 t \<noteq> routing_rejected"
  "writeError 500 t = routing_rejected \<longleftrightarrow> t = ''routing update rejected (rolled back)''"
  by (auto simp: routing_rejected_def writeError_def writeOk_def)

lemma routing_apply_effect:
  assumes "routing_apply env norestart old config' w = (r, w')"
  shows "q \<noteq> ce_path env \<Longrightarrow> file_at w' q = file_at w q"
    and "status r = 200 \<or> status r = 500"
    and "status r = 200 \<Longrightarrow> file_at w' (ce_path env) = Some (ce_enc env config') \<and>
           running w' = (if norestart then running w else Some (ce_enc env config'))"
    and "r = routing_rejected \<Longrightarrow> file_at w' (ce_path env) = Some old \<and> running w' = Some old"
    and "status r \<noteq> 200 \<Longrightarrow> r \<in> {write_failed, routing_rejected, routing_stuck}"
    and "r = write_failed \<Longrightarrow> running w' = running w"
    and "r = routing_stuck \<Longrightarrow> running w' = None \<and> 2 \<le> failures w"
proof -
  let ?p = "ce_path env"
  obtain c w1 where 1: "write_file ?p (ce_enc env config') w = (c, w1)" by fastforce
  obtain d w2 where 2: "restart_or_restore ?p old w1 = (d, w2)" by fastforce
  note f1 = write_file_running [OF 1]
  note u = assms [unfolded routing_apply_def 1 prod.case 2]
  show "q \<noteq> ?p \<Longrightarrow> file_at w' q = file_at w q"
    using u write_file_other [OF 1, of q] restart_or_restore_effect(1) [OF 2, of q]
    by (auto split: option.splits if_splits bool.splits)
  show "status r = 200 \<or> status r = 500"
    using u by (auto split: option.splits if_splits bool.splits)
  show "status r = 200 \<Longrightarrow> file_at w' ?p = Some (ce_enc env config') \<and>
      running w' = (if norestart then running w else Some (ce_enc env config'))"
    using u f1 write_file_ok [of ?p "ce_enc env config'" w w1] 1 restart_or_restore_effect(2) [OF 2]
    by (auto split: option.splits if_splits bool.splits)
  show "r = routing_rejected \<Longrightarrow> file_at w' ?p = Some old \<and> running w' = Some old"
    using u restart_or_restore_effect(3) [OF 2]
    by (auto simp: routing_rejected_def writeError_def writeOk_def split: option.splits if_splits bool.splits)
  show "status r \<noteq> 200 \<Longrightarrow> r \<in> {write_failed, routing_rejected, routing_stuck}"
    using u by (auto simp: write_failed_def routing_stuck_def split: option.splits if_splits bool.splits)
  show "r = write_failed \<Longrightarrow> running w' = running w"
    using u f1 by (auto simp: routing_rejected_def write_failed_def writeError_def writeOk_def split: option.splits if_splits bool.splits)
  have "2 \<le> failures w" if "d = Some (e, False)" for e
    using restart_or_restore_count [of ?p old w1 e w2] 2 that primitive_mono(3) [of ?p "ce_enc env config'" w] 1 by simp
  then show "r = routing_stuck \<Longrightarrow> running w' = None \<and> 2 \<le> failures w"
    using u restart_or_restore_effect(4) [OF 2]
    by (auto simp: routing_rejected_def routing_stuck_def writeError_def writeOk_def split: option.splits if_splits bool.splits)
qed



section \<open>Batch\<close>

lemma batch_clients_length: "batch_clients items config aff = (rs, c, aff') \<Longrightarrow> length rs = length items"
  by (induction items arbitrary: config aff rs c aff')
     (auto split: option.splits prod.splits add_result.splits if_splits)

lemma batch_users_length: "batch_users us config = (rs, c, ch) \<Longrightarrow> length rs = length us"
  by (induction us arbitrary: config rs c ch) (auto split: prod.splits)

definition batch_rolled_back :: string where
  "batch_rolled_back = ''routing change rejected: new config failed to start xray, rolled back''"

definition batch_stuck :: string where
  "batch_stuck = ''config persisted, xray restart failed (rollback also failed)''"

lemma batch_finish_effect:
  assumes "batch_finish env req old config result affected w = (r, w')" and "bs_restarted result = False"
  shows "q \<noteq> ce_path env \<Longrightarrow> q \<noteq> ce_path env @ ''.tmp'' \<Longrightarrow> file_at w' q = file_at w q"
    and "r = Inl e \<Longrightarrow> file_at w' (ce_path env) = file_at w (ce_path env) \<and> running w' = running w"
    and "r = Inr b \<Longrightarrow> bs_restarted b \<Longrightarrow>
           file_at w' (ce_path env) = Some (ce_enc env config) \<and> running w' = Some (ce_enc env config)"
    and "r = Inr b \<Longrightarrow> bs_message b = batch_rolled_back \<Longrightarrow>
           file_at w' (ce_path env) = Some old \<and> running w' = Some old"
    and "r = Inr b \<Longrightarrow> bs_success b \<and> bs_inbounds b = bs_inbounds result \<and> bs_routing b = bs_routing result"
    and "r = Inr b \<Longrightarrow> \<not> bs_restarted b \<Longrightarrow>
           (\<not> bs_changed result \<or> br_norestart req) \<and> file_at w' (ce_path env) = Some (ce_enc env config) \<and> running w' = running w \<or>
           bs_changed result \<and> \<not> br_norestart req \<and> bs_message b = batch_rolled_back \<and>
             file_at w' (ce_path env) = Some old \<and> running w' = Some old \<or>
           bs_changed result \<and> \<not> br_norestart req \<and> bs_message b = batch_stuck \<and> running w' = None \<and> 2 \<le> failures w"
proof -
  obtain a w1 where 1: "save_via_tmp env config w = (a, w1)" by fastforce
  obtain ws w2 where 2: "batch_runtime env config affected w1 = (ws, w2)" by fastforce
  obtain d w3 where 3: "restart_or_restore (ce_path env) old w2 = (d, w3)" by fastforce
  have f: "running w1 = running w" "file_at w2 q = file_at w1 q" "running w2 = running w1"
    "file_at w1 (ce_path env) = (if a = None then Some (ce_enc env config) else file_at w (ce_path env))" for q
    using tmp_save_snd(1,3) [of env config w] batch_runtime_snd [of env config affected w1] by (simp_all add: 1 2)
  note u = assms(1) [unfolded batch_finish_def Let_def 1 prod.case 2 3]
  show "q \<noteq> ce_path env \<Longrightarrow> q \<noteq> ce_path env @ ''.tmp'' \<Longrightarrow> file_at w' q = file_at w q"
    using u f tmp_save_snd(2) [of q env config w] restart_or_restore_effect(1) [OF 3, of q]
    by (auto simp: 1 split: option.splits if_splits)
  show "r = Inl e \<Longrightarrow> file_at w' (ce_path env) = file_at w (ce_path env) \<and> running w' = running w"
    using u f by (auto split: option.splits if_splits)
  show "r = Inr b \<Longrightarrow> bs_restarted b \<Longrightarrow>
      file_at w' (ce_path env) = Some (ce_enc env config) \<and> running w' = Some (ce_enc env config)"
    using u f assms(2) restart_or_restore_effect(2) [OF 3]
    by (auto split: option.splits if_splits)
  show "r = Inr b \<Longrightarrow> bs_message b = batch_rolled_back \<Longrightarrow>
      file_at w' (ce_path env) = Some old \<and> running w' = Some old"
    using u restart_or_restore_effect(3) [OF 3] by (auto simp: batch_rolled_back_def split: option.splits if_splits)
  show "r = Inr b \<Longrightarrow> bs_success b \<and> bs_inbounds b = bs_inbounds result \<and> bs_routing b = bs_routing result"
    using u by (auto split: option.splits if_splits)
  have "2 \<le> failures w" if "d = Some (e, False)" for e
    using restart_or_restore_count [of "ce_path env" old w2 e w3] 3 that handler_counts(4) [of env config w]
      handler_counts(5) [of env config affected w1] 1 2 by simp
  then show "r = Inr b \<Longrightarrow> \<not> bs_restarted b \<Longrightarrow>
       (\<not> bs_changed result \<or> br_norestart req) \<and> file_at w' (ce_path env) = Some (ce_enc env config) \<and> running w' = running w \<or>
       bs_changed result \<and> \<not> br_norestart req \<and> bs_message b = batch_rolled_back \<and>
         file_at w' (ce_path env) = Some old \<and> running w' = Some old \<or>
       bs_changed result \<and> \<not> br_norestart req \<and> bs_message b = batch_stuck \<and> running w' = None \<and> 2 \<le> failures w"
    using u f restart_or_restore_effect(3,4) [OF 3]
    by (auto simp: batch_rolled_back_def batch_stuck_def split: option.splits if_splits)
qed

text \<open>The configuration a batch computes before it writes anything, with the results of the items.\<close>

definition batch_plan :: "batch_req \<Rightarrow> obj \<Rightarrow> obj \<times> string list \<times> string list \<times> string list \<times> bool" where
  "batch_plan req config =
     (case batch_clients (br_clients req) config [] of
        (rs, config1, affected) \<Rightarrow>
          (case batch_users (br_users req) config1 of
             (us, config2, changed) \<Rightarrow> (dedupe_config config2, affected, rs, us, changed)))"


definition demo_batch :: batch_req where
  "demo_batch = \<lparr>br_clients = [\<lparr>bc_tag = ''in'', bc_client = Some [(''id'', JStr ''U'')]\<rparr>,
                               \<lparr>bc_tag = ''no'', bc_client = None\<rparr>],
                 br_users = [], br_norestart = False\<rparr>"


section \<open>Removing an inbound\<close>

lemma clean_fragment_snd [simp]:
  "q \<noteq> path \<Longrightarrow> file_at (snd (clean_fragment env tag path w)) q = file_at w q"
  "running (snd (clean_fragment env tag path w)) = running w"
  by (simp_all add: clean_fragment_def case_prod_beta
      split: sum.splits option.splits fragment_change.splits)

lemma clean_fragments_snd:
  "q \<notin> set paths \<Longrightarrow> file_at (snd (clean_fragments env tag paths c w)) q = file_at w q"
  "running (snd (clean_fragments env tag paths c w)) = running w"
  by (induction paths arbitrary: c w)
     (auto simp: case_prod_beta split: option.splits)

lemma confdir_snd [simp]:
  "file_at (snd (removeInboundFromConfDir env tag w)) (ce_path env) = file_at w (ce_path env)"
  "running (snd (removeInboundFromConfDir env tag w)) = running w"
  by (simp_all add: removeInboundFromConfDir_def case_prod_beta clean_fragments_snd split: option.splits)

lemma removeInboundFromConfig_ok:
  assumes "removeInboundFromConfig env tag w = ((c, None), w')" and "file_at w (ce_path env) = Some old"
  shows "\<exists>config. ce_dec env old = Some config \<and>
           file_at w' (ce_path env) = Some (ce_enc env (fst (remove_inbound tag config))) \<and>
           (snd (remove_inbound tag config) \<longrightarrow> c) \<and> running w' = running w"
proof -
  let ?p = "ce_path env"
  obtain b w1 where 1: "read_file ?p w = (b, w1)" by fastforce
  note u = assms(1) [unfolded removeInboundFromConfig_def 1 prod.case]
  from u obtain s where b: "b = Inr s" by (auto split: if_splits sum.splits)
  with 1 assms(2) read_file_Inr [of ?p w s w1] have s: "s = old" by simp
  from u b s obtain config where dec: "ce_dec env old = Some config"
    by (auto split: if_splits option.splits)
  obtain config' ch where rm: "remove_inbound tag config = (config', ch)" by fastforce
  obtain x w2 where 2: "write_file ?p (ce_enc env config') w1 = (x, w2)" by fastforce
  obtain d e w3 where 3: "removeInboundFromConfDir env tag w2 = ((d, e), w3)" by (metis prod.collapse)
  from u have u': "(case x of Some _ \<Rightarrow> ((False, Some ''failed to write config''), w2)
      | None \<Rightarrow> (case e of Some e \<Rightarrow> ((ch, Some e), w3) | None \<Rightarrow> ((ch \<or> d, None), w3))) = ((c, None), w')"
    by (cases x; cases e) (simp_all add: b s dec rm 2 3 split: if_splits)
  have "file_at w3 ?p = file_at w2 ?p" "running w3 = running w2"
    using confdir_snd [of env tag w2] by (simp_all add: 3)
  moreover have "running w2 = running w"
    using write_file_running [OF 2] read_file_frame [OF 1] by simp
  moreover have "x = None" "w' = w3" "c = (ch \<or> d)"
    using u' by (auto split: option.splits)
  moreover from this have "file_at w2 ?p = Some (ce_enc env config')" using write_file_ok 2 by simp
  ultimately show ?thesis using dec rm by auto
qed

text \<open>Removing an inbound (\<open>manageInbound\<close>, embedded or external). Status 200 means that the
  configuration file is the old one without the inbound and without every routing rule that only named
  it; and when a rule was changed, Xray has been restarted on exactly that file. In every case Xray
  runs what it ran before or what the file holds now.\<close>

theorem finish_remove_consistent:
  assumes "finish_remove env reload e tag w = (r, w')" and "file_at w (ce_path env) = Some old"
    and "status r = 200"
  shows "\<exists>config. ce_dec env old = Some config \<and>
           file_at w' (ce_path env) = Some (ce_enc env (fst (remove_inbound tag config))) \<and>
           (snd (remove_inbound tag config) \<longrightarrow>
              running w' = Some (ce_enc env (fst (remove_inbound tag config)))) \<and>
           (running w' = running w \<or> running w' = file_at w' (ce_path env))"
proof -
  let ?p = "ce_path env"
  obtain c d w1 where 1: "removeInboundFromConfig env tag w = ((c, d), w1)" by (metis prod.collapse)
  obtain b w2 where 2: "restart_xray ?p w1 = (b, w2)" by fastforce
  note u = assms(1) [unfolded finish_remove_def 1 prod.case 2]
  have d: "d = None" using u assms(3) by (auto split: option.splits)
  obtain config where dec: "ce_dec env old = Some config" and
    f: "file_at w1 ?p = Some (ce_enc env (fst (remove_inbound tag config)))" and
    c: "snd (remove_inbound tag config) \<longrightarrow> c" and run: "running w1 = running w"
    using removeInboundFromConfig_ok 1 d assms(2) by blast
  have "(w' = w1 \<and> \<not> c) \<or> (w' = w2 \<and> b = None)"
    using u assms(3) d by (auto split: option.splits if_splits)
  then show ?thesis
    using dec f c run restart_xray_at [OF 2] restart_xray_running [OF 2]
    by (intro exI [of _ config]) auto
qed

lemma finish_remove_consistent_witness:
  "let r = finish_remove demo_cfg_env (\<lambda>_. True) None ''in'' (demo_start [])
   in status (fst r) = 200 \<and> file_at (snd r) ''/c'' = Some ''B''"
proof -
  let ?r = "finish_remove demo_cfg_env (\<lambda>_. True) None ''in'' (demo_start [])"
  have st: "status (fst ?r) = 200"
    by (simp add: finish_remove_def removeInboundFromConfig_def demo_start_def read_file_def
        next_outcome_def file_at_def write_file_def put_file_def case_prod_beta removed_ok_def
        removeInboundFromConfDir_def trim_space_def trim_func_def trim_left_def trim_right_def
        remove_inbound_def removeInboundRoutingReferences_def demo_config_def get_list_def get_arr_def
        get_obj_def)
  have "file_at (demo_start []) (ce_path demo_cfg_env) = Some ''A''"
    by (simp add: demo_start_def file_at_def)
  from finish_remove_consistent [OF surjective_pairing this st] st show ?thesis
    by (auto simp: Let_def)
qed

end
