(* ===== verification/Config_Lock.thy ===== *)
theory Config_Lock
  imports Config_Handlers
begin

text \<open>
  Interleavings of the calls that rewrite the configuration file. Every such call reads the file,
  edits the value and writes it back; the handlers run concurrently. \<open>inboundsMu\<close> is the lock of the
  whole file (\<open>internal/handler/management_handler.go\<close>, comment at \<open>manageRouting\<close>): inbound, routing,
  batch and transaction calls take it first. \<open>manageOutbound\<close> does not.
\<close>

datatype config_job =
    ClientJob string string obj
  | AddInboundJob obj
  | RemoveInboundJob string
  | RoutingJob routing_req
  | BatchJob batch_req
  | AddOutboundJob obj
  | UpdateOutboundJob string obj
  | RemoveOutboundJob string
  | ReorderJob "string list"

text \<open>The value the job writes for the value it read; a refused edit writes nothing new.\<close>

definition job_edit :: "config_job \<Rightarrow> obj \<Rightarrow> obj" where
  "job_edit j config =
     (case j of
        ClientJob action tag client \<Rightarrow>
          (case edited_config action tag client config of Some new \<Rightarrow> new | None \<Rightarrow> config)
      | AddInboundJob inbound \<Rightarrow> persist_inbound inbound config
      | RemoveInboundJob tag \<Rightarrow> fst (remove_inbound tag config)
      | RoutingJob req \<Rightarrow>
          (case routing_edit req (routing_action req) config of Inr new \<Rightarrow> new | Inl _ \<Rightarrow> config)
      | BatchJob req \<Rightarrow> fst (batch_plan req config)
      | AddOutboundJob outbound \<Rightarrow> persist_outbound outbound config
      | UpdateOutboundJob oldTag outbound \<Rightarrow> replace_outbound oldTag outbound config
      | RemoveOutboundJob tag \<Rightarrow> remove_outbound tag config
      | ReorderJob tags \<Rightarrow>
          jset ''outbounds'' (JArr (reorder_outbounds tags (get_list config ''outbounds''))) config)"

text \<open>Which handlers take the lock: \<open>manageInbound\<close> (of which client edits, additions and removals of inbounds are parts),
  \<open>manageRouting\<close> and \<open>HandleBatchApply\<close> begin with \<open>inboundsMu.Lock\<close>; \<open>manageOutbound\<close> does not.\<close>

fun takes_lock :: "config_job \<Rightarrow> bool" where
  "takes_lock (AddOutboundJob _) = False"
| "takes_lock (UpdateOutboundJob _ _) = False"
| "takes_lock (RemoveOutboundJob _) = False"
| "takes_lock (ReorderJob _) = False"
| "takes_lock _ = True"

datatype job_pc = Waiting | Inside | HasRead obj | Written | Finished

record lock_sys =
  ls_file :: obj
  ls_owner :: "nat option"
  ls_pc :: "job_pc list"
  ls_log :: "nat list"

text \<open>One step of one job: take the lock (or walk past it), read, write, leave. \<open>ls_log\<close> records the
  order of the writes.\<close>

inductive lock_step :: "config_job list \<Rightarrow> lock_sys \<Rightarrow> lock_sys \<Rightarrow> bool" for jobs where
  Acquire: "i < length jobs \<Longrightarrow> takes_lock (jobs ! i) \<Longrightarrow> ls_pc s ! i = Waiting \<Longrightarrow> ls_owner s = None \<Longrightarrow>
     lock_step jobs s (s\<lparr>ls_owner := Some i, ls_pc := (ls_pc s)[i := Inside]\<rparr>)"
| Pass: "i < length jobs \<Longrightarrow> \<not> takes_lock (jobs ! i) \<Longrightarrow> ls_pc s ! i = Waiting \<Longrightarrow>
     lock_step jobs s (s\<lparr>ls_pc := (ls_pc s)[i := Inside]\<rparr>)"
| Read: "i < length jobs \<Longrightarrow> ls_pc s ! i = Inside \<Longrightarrow>
     lock_step jobs s (s\<lparr>ls_pc := (ls_pc s)[i := HasRead (ls_file s)]\<rparr>)"
| Write: "i < length jobs \<Longrightarrow> ls_pc s ! i = HasRead c \<Longrightarrow>
     lock_step jobs s (s\<lparr>ls_file := job_edit (jobs ! i) c, ls_pc := (ls_pc s)[i := Written],
                         ls_log := ls_log s @ [i]\<rparr>)"
| Leave: "i < length jobs \<Longrightarrow> ls_pc s ! i = Written \<Longrightarrow>
     lock_step jobs s (s\<lparr>ls_owner := (if takes_lock (jobs ! i) then None else ls_owner s),
                         ls_pc := (ls_pc s)[i := Finished]\<rparr>)"

definition lock_init :: "config_job list \<Rightarrow> obj \<Rightarrow> lock_sys" where
  "lock_init jobs config =
     \<lparr>ls_file = config, ls_owner = None, ls_pc = replicate (length jobs) Waiting, ls_log = []\<rparr>"

definition reachable :: "config_job list \<Rightarrow> obj \<Rightarrow> lock_sys \<Rightarrow> bool" where
  "reachable jobs config s \<longleftrightarrow> (lock_step jobs)\<^sup>*\<^sup>* (lock_init jobs config) s"

definition run_in_order :: "config_job list \<Rightarrow> nat list \<Rightarrow> obj \<Rightarrow> obj" where
  "run_in_order jobs order config = fold (\<lambda>i. job_edit (jobs ! i)) order config"

definition outside :: "job_pc \<Rightarrow> bool" where
  "outside p \<longleftrightarrow> p = Waiting \<or> p = Finished"

definition has_written :: "job_pc \<Rightarrow> bool" where
  "has_written p \<longleftrightarrow> p = Written \<or> p = Finished"

lemma pc_simps [simp]:
  "outside Waiting" "outside Finished" "\<not> outside Inside" "\<not> outside (HasRead c)" "\<not> outside Written"
  "has_written Written" "has_written Finished" "\<not> has_written Waiting" "\<not> has_written Inside"
  "\<not> has_written (HasRead c)"
  by (simp_all add: outside_def has_written_def)

section \<open>With the lock: serial order\<close>

definition lock_inv :: "config_job list \<Rightarrow> obj \<Rightarrow> lock_sys \<Rightarrow> bool" where
  "lock_inv jobs config s \<longleftrightarrow>
     length (ls_pc s) = length jobs \<and>
     (\<forall>i<length jobs. ls_owner s \<noteq> Some i \<longrightarrow> outside (ls_pc s ! i)) \<and>
     (\<forall>i. ls_owner s = Some i \<longrightarrow> i < length jobs \<and> \<not> outside (ls_pc s ! i)) \<and>
     (\<forall>i<length jobs. \<forall>c. ls_pc s ! i = HasRead c \<longrightarrow> c = ls_file s) \<and>
     ls_file s = run_in_order jobs (ls_log s) config \<and>
     distinct (ls_log s) \<and> set (ls_log s) = {i. i < length jobs \<and> has_written (ls_pc s ! i)}"

lemma lock_inv_init: "lock_inv jobs config (lock_init jobs config)"
  by (auto simp: lock_inv_def lock_init_def run_in_order_def)

lemma lock_inv_step:
  assumes "lock_step jobs s s'" and "\<And>j. j \<in> set jobs \<Longrightarrow> takes_lock j" and "lock_inv jobs config s"
  shows "lock_inv jobs config s'"
  using assms
proof (cases rule: lock_step.cases)
  case (Acquire i)
  with assms(3) show ?thesis
    by (auto simp: lock_inv_def nth_list_update)
next
  case (Pass i)
  with assms(2) show ?thesis by simp
next
  case (Read i)
  with assms(3) show ?thesis
    by (auto simp: lock_inv_def nth_list_update)
next
  case (Write i c)
  have o: "ls_owner s = Some i" and c: "c = ls_file s" and i: "i \<notin> set (ls_log s)"
    using Write assms(3) by (auto simp: lock_inv_def)
  have "ls_pc s ! j \<noteq> HasRead d" if "j < length jobs" "j \<noteq> i" for j d
    using that o assms(3) by (auto simp: lock_inv_def)
  with Write assms(3) o c i show ?thesis
    by (auto simp: lock_inv_def nth_list_update run_in_order_def)
next
  case (Leave i)
  moreover have "ls_owner s = Some i" using Leave assms(3) by (auto simp: lock_inv_def)
  ultimately show ?thesis using assms(2,3)
    by (auto simp: lock_inv_def nth_list_update)
qed

lemma lock_inv_reachable:
  assumes "reachable jobs config s" and "\<And>j. j \<in> set jobs \<Longrightarrow> takes_lock j"
  shows "lock_inv jobs config s"
  using assms(1) unfolding reachable_def
  by (induction rule: rtranclp_induct) (auto intro: lock_inv_init lock_inv_step [OF _ assms(2)])

text \<open>Under the lock no update is lost: the file is at every moment the initial configuration edited by exactly the calls
  that have written, one after the other in the order of their writes; at most one call is inside; and as long as a call is
  not finished, some call can move.\<close>

lemma locked_calls_serialize:
  assumes "reachable jobs config s" and "\<And>j. j \<in> set jobs \<Longrightarrow> takes_lock j"
  shows "ls_file s = run_in_order jobs (ls_log s) config \<and> distinct (ls_log s) \<and>
         set (ls_log s) = {i. i < length jobs \<and> has_written (ls_pc s ! i)} \<and>
         (\<forall>i<length jobs. \<forall>k<length jobs. i \<noteq> k \<longrightarrow> outside (ls_pc s ! i) \<or> outside (ls_pc s ! k)) \<and>
         ((\<exists>i<length jobs. ls_pc s ! i \<noteq> Finished) \<longrightarrow> (\<exists>s'. lock_step jobs s s'))"
proof -
  have inv: "lock_inv jobs config s" using lock_inv_reachable assms by blast
  have "\<exists>s'. lock_step jobs s s'" if i: "i < length jobs" "ls_pc s ! i \<noteq> Finished" for i
  proof (cases "ls_owner s")
    case None
    with inv i have "ls_pc s ! i = Waiting" by (auto simp: lock_inv_def outside_def)
    with None i assms(2) show ?thesis by (blast intro: Acquire nth_mem)
  next
    case (Some k)
    with inv have "k < length jobs" "\<not> outside (ls_pc s ! k)" by (auto simp: lock_inv_def)
    then show ?thesis by (cases "ls_pc s ! k") (auto intro: Read Write Leave)
  qed
  moreover have "outside (ls_pc s ! i) \<or> outside (ls_pc s ! k)"
    if "i < length jobs" "k < length jobs" "i \<noteq> k" for i k
    using inv that unfolding lock_inv_def by (metis option.inject)
  ultimately show ?thesis using inv unfolding lock_inv_def by blast
qed

section \<open>Users are not lost\<close>

text \<open>The calls the master sends while it binds users: additions of users and edits of routing rules.\<close>

fun binding_job :: "config_job \<Rightarrow> bool" where
  "binding_job (ClientJob action tag client) = (action = ''add-client'' \<and> tag \<noteq> [])"
| "binding_job (RoutingJob _) = True"
| "binding_job _ = False"

lemma binding_locked: "binding_job j \<Longrightarrow> takes_lock j"
  by (cases j) simp_all

definition tags_unique :: "obj \<Rightarrow> bool" where
  "tags_unique c \<longleftrightarrow> unique_tags (get_list c ''inbounds'') \<and> unique_tags (get_list c ''outbounds'')"

text \<open>The inbound of the tag speaks the protocol and has the users.\<close>

definition serves :: "string \<Rightarrow> string \<Rightarrow> json set \<Rightarrow> obj \<Rightarrow> bool" where
  "serves tag p users c \<longleftrightarrow>
     (\<exists>m k. find_inbound tag c = Some m \<and> get_str m ''protocol'' = p \<and> client_array p = Some k \<and>
        users \<subseteq> set (users_of k (JObj m)))"

lemma tag_has: "t \<noteq> [] \<Longrightarrow> has_tag t x \<longleftrightarrow> tag_of x = t"
  by (auto simp: has_tag_def tag_of_def split: option.splits)

lemma found_tag: "find_inbound tag c = Some m \<Longrightarrow> get_str m ''tag'' = tag \<and> find (has_tag tag) (get_list c ''inbounds'') = Some (JObj m)"
proof -
  assume "find_inbound tag c = Some m"
  then obtain x where x: "find (has_tag tag) (get_list c ''inbounds'') = Some x" "as_obj x = Some m"
    by (auto simp: find_inbound_def bind_eq_Some_conv)
  then have "x = JObj m" "has_tag tag x" by (cases x; auto simp: find_Some_iff)+
  with x show ?thesis by (simp add: has_tag_def)
qed

lemma update_tags:
  "find (has_tag tag) xs = Some y \<Longrightarrow> get_str m ''tag'' = tag \<Longrightarrow> tag \<noteq> [] \<Longrightarrow>
   map tag_of (update_first (has_tag tag) (\<lambda>_. JObj m) xs) = map tag_of xs"
  by (induction xs) (auto simp: tag_has tag_of_def split: if_splits)

lemma find_update_other:
  "t \<noteq> tag \<Longrightarrow> get_str m ''tag'' = tag \<Longrightarrow> find (has_tag t) (update_first (has_tag tag) (\<lambda>_. JObj m) xs) = find (has_tag t) xs"
  by (induction xs) (auto simp: has_tag_def split: option.splits)

text \<open>What an accepted addition leaves of the inbound it edits.\<close>

lemma added_client:
  assumes "edit_client ''add-client'' client target = ClientEdited m" and "client_array (get_str target ''protocol'') = Some k"
  shows "get_str m ''tag'' = get_str target ''tag''" "get_str m ''protocol'' = get_str target ''protocol''"
    "users_of k (JObj m) = users_of k (JObj target) @ [JObj client]"
proof -
  let ?s = "case get_obj target ''settings'' of Some s \<Rightarrow> s | None \<Rightarrow> []"
  have m: "m = strip_meta (jset ''settings'' (JObj (jset k (JArr (get_list ?s k @ [JObj client])) ?s)) target)"
    using assms by (simp add: edit_client_def Let_def split: if_splits)
  show "get_str m ''tag'' = get_str target ''tag''" "get_str m ''protocol'' = get_str target ''protocol''"
    by (simp_all add: m get_strip_meta) (simp add: get_str_def get_strip_meta)
  have "get_obj m ''settings'' = Some (jset k (JArr (get_list ?s k @ [JObj client])) ?s)" by (simp add: m get_strip_meta)
  then show "users_of k (JObj m) = users_of k (JObj target) @ [JObj client]"
    by (auto simp: users_of_def get_list_def get_arr_def split: option.splits)
qed

lemma added_config:
  assumes "tags_unique c" "find_inbound tag c = Some target" "tag \<noteq> []"
    and "edit_client ''add-client'' client target = ClientEdited m"
  shows "edited_config ''add-client'' tag client c = Some (set_target tag m c)" "tags_unique (set_target tag m c)"
    "find_inbound tag (set_target tag m c) = Some m"
    "t \<noteq> tag \<Longrightarrow> find_inbound t (set_target tag m c) = find_inbound t c"
proof -
  obtain k where k: "client_array (get_str target ''protocol'') = Some k"
    using assms(4) by (auto simp: edit_client_def Let_def split: option.splits)
  note a = added_client [OF assms(4) k] and f = found_tag [OF assms(2)]
  have g: "get_str m ''tag'' = tag" using a(1) f by simp
  have i: "get_list (set_target tag m c) ''inbounds'' = update_first (has_tag tag) (\<lambda>_. JObj m) (get_list c ''inbounds'')"
    "get_list (set_target tag m c) ''outbounds'' = get_list c ''outbounds''" by (simp_all add: set_target_def)
  show u: "tags_unique (set_target tag m c)"
    using assms(1) update_tags [OF conjunct2 [OF f] g assms(3)] by (simp add: tags_unique_def unique_tags_def tags_of_def i)
  show "edited_config ''add-client'' tag client c = Some (set_target tag m c)"
    using u assms(2,4) by (simp add: edited_config_def dedupe_config_same tags_unique_def)
  have "find (has_tag tag) (get_list (set_target tag m c) ''inbounds'') = Some (JObj m)"
    unfolding i by (rule find_update_first [OF conjunct2 [OF f]]) (simp add: has_tag_def g)
  then show "find_inbound tag (set_target tag m c) = Some m" by (simp add: find_inbound_def)
  show "t \<noteq> tag \<Longrightarrow> find_inbound t (set_target tag m c) = find_inbound t c"
    using find_update_other [of t tag m] g by (simp add: find_inbound_def i)
qed

lemma routing_keeps_arrays:
  assumes "routing_edit req action c = Inr c'"
  shows "get_list c' ''inbounds'' = get_list c ''inbounds''" "get_list c' ''outbounds'' = get_list c ''outbounds''"
proof -
  have o: "get_list (applyObservatory key raw d) k = get_list d k" if "k \<noteq> key" for key raw d k
    using that by (cases raw) (auto simp: applyObservatory_def get_list_def get_arr_def)
  show "get_list c' ''inbounds'' = get_list c ''inbounds''" "get_list c' ''outbounds'' = get_list c ''outbounds''"
    using assms by (auto simp: routing_edit_def Let_def o split: if_splits option.splits)
qed

lemma job_keeps:
  assumes "binding_job j" "tags_unique c"
  shows "tags_unique (job_edit j c)" "serves tag p U c \<Longrightarrow> serves tag p U (job_edit j c)"
proof -
  have "tags_unique (job_edit j c) \<and> (serves tag p U c \<longrightarrow> serves tag p U (job_edit j c))"
  proof (cases "job_edit j c = c")
    case False
    show ?thesis
    proof (cases j)
      case (ClientJob action t client)
      with False obtain new where n: "action = ''add-client''" "t \<noteq> []" "edited_config ''add-client'' t client c = Some new"
        "job_edit j c = new" using assms(1) by (auto simp: job_edit_def split: option.splits)
      then obtain target m where t: "find_inbound t c = Some target" "edit_client ''add-client'' client target = ClientEdited m"
        by (auto simp: edited_config_def split: option.splits client_edit.splits)
      note a = added_config [OF assms(2) t(1) n(2) t(2)]
      have j: "job_edit j c = set_target t m c" using n a(1) by simp
      have "serves tag p U (set_target t m c)" if s: "serves tag p U c"
      proof (cases "tag = t")
        case True
        from s True t(1) obtain k where k: "get_str target ''protocol'' = p" "client_array p = Some k"
          "U \<subseteq> set (users_of k (JObj target))" by (auto simp: serves_def)
        with added_client [OF t(2), of k] a(3) True show ?thesis unfolding serves_def by auto
      next
        case False
        with s a(4) show ?thesis by (simp add: serves_def)
      qed
      with a(2) j show ?thesis by simp
    next
      case (RoutingJob req)
      with False obtain new where "routing_edit req (routing_action req) c = Inr new" "job_edit j c = new"
        by (auto simp: job_edit_def split: sum.splits)
      with routing_keeps_arrays assms(2) show ?thesis
        by (simp add: tags_unique_def serves_def find_inbound_def)
    qed (use assms(1) in simp_all)
  qed (use assms(2) in simp)
  then show "tags_unique (job_edit j c)" "serves tag p U c \<Longrightarrow> serves tag p U (job_edit j c)" by simp_all
qed

text \<open>After its own edit the user is served: it was added, or one with the same identity was there.\<close>

lemma job_adds:
  assumes "tags_unique c" "tag \<noteq> []" "serves tag p U c" "matchClientCredential client client p"
  shows "\<exists>u. (u = JObj client \<or> has_client p client [u]) \<and> serves tag p (insert u U) (job_edit (ClientJob ''add-client'' tag client) c)"
proof -
  obtain target k where t: "find_inbound tag c = Some target" "get_str target ''protocol'' = p" "client_array p = Some k"
    "U \<subseteq> set (users_of k (JObj target))" using assms(3) by (auto simp: serves_def)
  have users: "users_of k (JObj target) = get_list (case get_obj target ''settings'' of Some s \<Rightarrow> s | None \<Rightarrow> []) k"
    by (auto simp: users_of_def get_list_def get_arr_def split: option.splits)
  show ?thesis
  proof (cases "has_client p client (users_of k (JObj target))")
    case True
    then obtain u where u: "u \<in> set (users_of k (JObj target))" "has_client p client [u]"
      by (auto simp: has_client_def list_ex_iff)
    have "edit_client ''add-client'' client target = ClientNoop ''client already present (no-op)''"
      using True t(2,3) users by (simp add: edit_client_def Let_def)
    with t have "job_edit (ClientJob ''add-client'' tag client) c = c" by (simp add: job_edit_def edited_config_def)
    moreover have "serves tag p (insert u U) c" using t u(1) by (auto simp: serves_def)
    ultimately show ?thesis using u(2) by auto
  next
    case False
    then obtain m where m: "edit_client ''add-client'' client target = ClientEdited m"
      using t(2,3) users by (simp add: edit_client_def Let_def)
    note a = added_config [OF assms(1) t(1) assms(2) m] and b = added_client [OF m, of k, unfolded t(2), OF t(3)]
    have "job_edit (ClientJob ''add-client'' tag client) c = set_target tag m c" using a(1) by (simp add: job_edit_def)
    moreover have "serves tag p (insert (JObj client) U) (set_target tag m c)"
      unfolding serves_def by (intro exI [of _ m] exI [of _ k]) (use a(3) b t(3,4) in auto)
    ultimately show ?thesis by auto
  qed
qed

lemma order_keeps:
  assumes "\<And>i. i \<in> set order \<Longrightarrow> binding_job (jobs ! i)" "tags_unique c"
  shows "tags_unique (run_in_order jobs order c) \<and> (serves tag p U c \<longrightarrow> serves tag p U (run_in_order jobs order c))"
  using assms unfolding run_in_order_def
  by (induction order arbitrary: c) (simp_all add: job_keeps)


text \<open>Two users are added to one inbound at the same time.\<close>

definition two_users :: "config_job list" where
  "two_users = [ClientJob ''add-client'' ''in'' [(''id'', JStr ''A'')],
                ClientJob ''add-client'' ''in'' [(''id'', JStr ''B'')]]"


section \<open>Without the lock: a lost user\<close>

text \<open>An outbound is added while a user is added. The outbound call read the file before the user was
  written and writes last.\<close>

definition user_and_outbound :: "config_job list" where
  "user_and_outbound = [ClientJob ''add-client'' ''in'' [(''id'', JStr ''A'')],
                        AddOutboundJob [(''tag'', JStr ''out'')]]"

definition lost_user_config :: obj where
  "lost_user_config = persist_outbound [(''tag'', JStr ''out'')] demo_config"

lemma unlocked_outbound_loses_user:
  "\<exists>s. reachable user_and_outbound demo_config s \<and>
       ls_pc s = [Finished, Finished] \<and> ls_file s = lost_user_config \<and>
       get_list lost_user_config ''inbounds'' = get_list demo_config ''inbounds''"
proof -
  let ?j = user_and_outbound
  let ?u = "job_edit (?j ! 0) demo_config"
  let ?st = "\<lambda>f ow p l. \<lparr>ls_file = f, ls_owner = ow, ls_pc = p, ls_log = l\<rparr> :: lock_sys"
  have len: "length ?j = 2" and lk: "takes_lock (?j ! 0)" "\<not> takes_lock (?j ! 1)"
    by (simp_all add: user_and_outbound_def)
  have s0: "lock_init ?j demo_config = ?st demo_config None [Waiting, Waiting] []"
    by (simp add: lock_init_def len numeral_2_eq_2)
  have 1: "lock_step ?j (?st demo_config None [Waiting, Waiting] []) (?st demo_config None [Waiting, Inside] [])"
    using Pass [of 1 ?j "?st demo_config None [Waiting, Waiting] []"] len lk by simp
  have 2: "lock_step ?j (?st demo_config None [Waiting, Inside] [])
      (?st demo_config None [Waiting, HasRead demo_config] [])"
    using Read [of 1 ?j "?st demo_config None [Waiting, Inside] []"] len by simp
  have 3: "lock_step ?j (?st demo_config None [Waiting, HasRead demo_config] [])
      (?st demo_config (Some 0) [Inside, HasRead demo_config] [])"
    using Acquire [of 0 ?j "?st demo_config None [Waiting, HasRead demo_config] []"] len lk by simp
  have 4: "lock_step ?j (?st demo_config (Some 0) [Inside, HasRead demo_config] [])
      (?st demo_config (Some 0) [HasRead demo_config, HasRead demo_config] [])"
    using Read [of 0 ?j "?st demo_config (Some 0) [Inside, HasRead demo_config] []"] len by simp
  have 5: "lock_step ?j (?st demo_config (Some 0) [HasRead demo_config, HasRead demo_config] [])
      (?st ?u (Some 0) [Written, HasRead demo_config] [0])"
    using Write [of 0 ?j "?st demo_config (Some 0) [HasRead demo_config, HasRead demo_config] []" demo_config] len
    by simp
  have 6: "lock_step ?j (?st ?u (Some 0) [Written, HasRead demo_config] [0])
      (?st ?u None [Finished, HasRead demo_config] [0])"
    using Leave [of 0 ?j "?st ?u (Some 0) [Written, HasRead demo_config] [0]"] len lk by simp
  have 7: "lock_step ?j (?st ?u None [Finished, HasRead demo_config] [0])
      (?st lost_user_config None [Finished, Written] [0, 1])"
    using Write [of 1 ?j "?st ?u None [Finished, HasRead demo_config] [0]" demo_config] len
    by (simp add: lost_user_config_def user_and_outbound_def job_edit_def)
  have 8: "lock_step ?j (?st lost_user_config None [Finished, Written] [0, 1])
      (?st lost_user_config None [Finished, Finished] [0, 1])"
    using Leave [of 1 ?j "?st lost_user_config None [Finished, Written] [0, 1]"] len lk by simp
  have "reachable ?j demo_config (?st lost_user_config None [Finished, Finished] [0, 1])"
    unfolding reachable_def s0 using 1 2 3 4 5 6 7 8
    by (meson rtranclp.rtrancl_into_rtrancl rtranclp.rtrancl_refl)
  moreover have "get_list lost_user_config ''inbounds'' = get_list demo_config ''inbounds''"
    by (simp add: lost_user_config_def persist_outbound_def)
  ultimately show ?thesis by force
qed

end
