(* ===== verification/Securechan.thy ===== *)
theory Securechan
  imports Main "HOL-Library.Word"
begin

unbundle bit_operations_syntax

text \<open>
  The encrypted channel between agent and master (\<open>internal/securechan\<close>): the replay window on
  64-bit words, the nonce, the envelope, the session keys of the two directions, and the session
  cache. AES-GCM (\<open>seal\<close>, \<open>unseal\<close>) and HKDF (\<open>kdf\<close>) are library code and parameters of the model.
\<close>

type_synonym bytes = "8 word list"

section \<open>The replay window\<close>

record replayWindow =
  maxSeq :: "64 word"
  bitmap :: "64 word"

definition windowSize :: "64 word" where
  "windowSize = 64"

definition Check :: "replayWindow \<Rightarrow> 64 word \<Rightarrow> bool \<times> replayWindow" where
  "Check w seq =
     (if seq = 0 then (False, w)
      else if maxSeq w < seq then
        (let shift = seq - maxSeq w;
             bm = (if windowSize \<le> shift then 0 else push_bit (unat shift) (bitmap w))
         in (True, \<lparr>maxSeq = seq, bitmap = bm OR 1\<rparr>))
      else
        (let diff = maxSeq w - seq
         in if windowSize \<le> diff then (False, w)
            else
              (let b = push_bit (unat diff) (1 :: 64 word)
               in if bitmap w AND b \<noteq> 0 then (False, w)
                  else (True, w\<lparr>bitmap := bitmap w OR b\<rparr>))))"

definition newWindow :: replayWindow where
  "newWindow = \<lparr>maxSeq = 0, bitmap = 0\<rparr>"

section \<open>Envelopes\<close>

definition put_uint64 :: "64 word \<Rightarrow> bytes" where
  "put_uint64 x = List.map (\<lambda>i. ucast (drop_bit (8 * (7 - i)) x)) [0..<8]"

definition get_uint64 :: "bytes \<Rightarrow> 64 word" where
  "get_uint64 bs = foldl (\<lambda>a b. push_bit 8 a OR ucast b) 0 bs"

definition makeNonce :: "bytes \<Rightarrow> 64 word \<Rightarrow> bytes" where
  "makeNonce base seq = map2 (\<lambda>a b. a XOR b) base ([0, 0, 0, 0] @ put_uint64 seq)"

record session =
  sendKey :: bytes
  recvKey :: bytes
  sendSeq :: "64 word"
  sendNonce :: bytes
  recvNonce :: bytes
  recvWindow :: replayWindow

type_synonym seal_fn = "bytes \<Rightarrow> bytes \<Rightarrow> bytes \<Rightarrow> bytes"
type_synonym unseal_fn = "bytes \<Rightarrow> bytes \<Rightarrow> bytes \<Rightarrow> bytes option"

definition Encrypt :: "seal_fn \<Rightarrow> session \<Rightarrow> bytes \<Rightarrow> bytes \<times> session" where
  "Encrypt seal s plaintext =
     (let seq = sendSeq s + 1;
          ciphertext = seal (sendKey s) (makeNonce (sendNonce s) seq) plaintext
      in (1 # put_uint64 seq @ ciphertext, s\<lparr>sendSeq := seq\<rparr>))"

datatype chan_error = TooShort | BadVersion "8 word" | Replayed "64 word" | Unauthentic

definition Decrypt :: "unseal_fn \<Rightarrow> session \<Rightarrow> bytes \<Rightarrow> (chan_error + bytes) \<times> session" where
  "Decrypt unseal s envelope =
     (if length envelope < 9 + 16 then (Inl TooShort, s)
      else if envelope ! 0 \<noteq> 1 then (Inl (BadVersion (envelope ! 0)), s)
      else
        (let seq = get_uint64 (take 8 (drop 1 envelope))
         in (case Check (recvWindow s) seq of
               (ok, win) \<Rightarrow>
                 let s' = s\<lparr>recvWindow := win\<rparr>
                 in if \<not> ok then (Inl (Replayed seq), s')
                    else
                      (case unseal (recvKey s) (makeNonce (recvNonce s) seq) (drop 9 envelope) of
                         None \<Rightarrow> (Inl Unauthentic, s')
                       | Some plaintext \<Rightarrow> (Inr plaintext, s')))))"

text \<open>\<open>DeriveSession\<close> reads four values off the key stream: the two keys, then the two nonces.\<close>

definition DeriveSession ::
  "(bytes \<Rightarrow> bytes \<Rightarrow> nat \<Rightarrow> bytes option) \<Rightarrow> bytes \<Rightarrow> bytes \<Rightarrow> bytes \<Rightarrow> bool \<Rightarrow> session option" where
  "DeriveSession kdf sharedSecret agentEphPub masterEphPub isMaster =
     (case kdf sharedSecret (agentEphPub @ masterEphPub) (32 + 32 + 12 + 12) of
        None \<Rightarrow> None
      | Some stream \<Rightarrow>
          (let m2aKey = take 32 stream; a2mKey = take 32 (drop 32 stream);
               m2aNonce = take 12 (drop 64 stream); a2mNonce = take 12 (drop 76 stream)
           in Some (if isMaster
               then \<lparr>sendKey = m2aKey, recvKey = a2mKey, sendSeq = 0, sendNonce = m2aNonce,
                     recvNonce = a2mNonce, recvWindow = newWindow\<rparr>
               else \<lparr>sendKey = a2mKey, recvKey = m2aKey, sendSeq = 0, sendNonce = a2mNonce,
                     recvNonce = m2aNonce, recvWindow = newWindow\<rparr>)))"

section \<open>The session cache\<close>

text \<open>Time is an integer; \<open>now\<close> is the clock when the call reads it.\<close>

record sessionCache =
  sc_entries :: "(string \<times> session \<times> int) list"
  sc_ttl :: int

definition cache_Get :: "int \<Rightarrow> string \<Rightarrow> sessionCache \<Rightarrow> session option" where
  "cache_Get now token c =
     (case map_of (sc_entries c) token of
        None \<Rightarrow> None
      | Some (s, expiresAt) \<Rightarrow> if expiresAt < now then None else Some s)"

definition cache_Delete :: "string \<Rightarrow> sessionCache \<Rightarrow> sessionCache" where
  "cache_Delete token c = c\<lparr>sc_entries := filter (\<lambda>e. fst e \<noteq> token) (sc_entries c)\<rparr>"

definition cache_Set :: "int \<Rightarrow> string \<Rightarrow> session \<Rightarrow> sessionCache \<Rightarrow> sessionCache" where
  "cache_Set now token s c =
     c\<lparr>sc_entries := (token, s, now + sc_ttl c) # sc_entries (cache_Delete token c)\<rparr>"

definition cache_cleanup :: "int \<Rightarrow> sessionCache \<Rightarrow> sessionCache" where
  "cache_cleanup now c = c\<lparr>sc_entries := filter (\<lambda>(_, _, e). \<not> e < now) (sc_entries c)\<rparr>"

section \<open>The interface of a replay guard\<close>

text \<open>What the channel relies on: \<open>inv w S\<close> says that the guard \<open>w\<close> has accepted the numbers \<open>S\<close>.\<close>

locale replay_guard =
  fixes check :: "'w \<Rightarrow> 's \<Rightarrow> bool \<times> 'w"
    and inv :: "'w \<Rightarrow> 's set \<Rightarrow> bool"
  assumes accepts: "inv w S \<Longrightarrow> check w n = (True, w') \<Longrightarrow> n \<notin> S \<and> inv w' (insert n S)"
    and refuses: "check w n = (False, w') \<Longrightarrow> w' = w"
begin

fun offer :: "'w \<Rightarrow> 's list \<Rightarrow> 's list \<times> 'w" where
  "offer w [] = ([], w)"
| "offer w (n # ns) =
     (case check w n of
        (ok, w1) \<Rightarrow> (case offer w1 ns of (acc, w2) \<Rightarrow> (if ok then n # acc else acc, w2)))"

lemma offer_once:
  "inv w S \<Longrightarrow> offer w ns = (acc, w') \<Longrightarrow>
   distinct acc \<and> set acc \<subseteq> set ns \<and> set acc \<inter> S = {} \<and> inv w' (S \<union> set acc)"
proof (induction ns arbitrary: w S acc w')
  case Nil
  then show ?case by simp
next
  case (Cons n ns)
  obtain ok w1 where 1: "check w n = (ok, w1)" by fastforce
  obtain a w2 where 2: "offer w1 ns = (a, w2)" by fastforce
  show ?case
  proof (cases ok)
    case True
    with accepts [of w S n w1] 1 Cons.prems(1) have n: "n \<notin> S" "inv w1 (insert n S)" by simp_all
    from Cons.IH [OF n(2) 2] Cons.prems(2) 1 2 True n(1) show ?thesis by auto
  next
    case False
    with 1 refuses have "w1 = w" by simp
    with Cons.IH [of w S a w2] Cons.prems 1 2 False show ?thesis by auto
  qed
qed

lemma offer_twice: "inv w S \<Longrightarrow> n \<in> S \<Longrightarrow> fst (check w n) = False"
  using accepts [of w S n "snd (check w n)"] by (cases "check w n") auto

end

section \<open>The window is a replay guard\<close>

definition window_inv :: "replayWindow \<Rightarrow> 64 word set \<Rightarrow> bool" where
  "window_inv w S \<longleftrightarrow>
     0 \<notin> S \<and> (\<forall>n\<in>S. n \<le> maxSeq w) \<and> (maxSeq w \<noteq> 0 \<longrightarrow> maxSeq w \<in> S) \<and>
     (\<forall>d<64. bit (bitmap w) d \<longleftrightarrow> (\<exists>n\<in>S. unat (maxSeq w) - unat n = d))"

lemma window_inv_new: "window_inv newWindow {}"
  by (simp add: window_inv_def newWindow_def)

lemma bit_and_mask:
  "bm AND push_bit k 1 = 0 \<longleftrightarrow> \<not> bit bm k" "bm AND 2 ^ k = 0 \<longleftrightarrow> \<not> bit bm k" for bm :: "64 word"
  using bit_iff_and_push_bit_not_eq_0 [of bm k] by simp_all

lemma window_bit:
  assumes "window_inv w S" and "n \<le> maxSeq w" and "unat (maxSeq w) - unat n < 64"
  shows "bit (bitmap w) (unat (maxSeq w - n)) \<longleftrightarrow> n \<in> S"
proof -
  have "\<exists>k\<in>S. unat (maxSeq w) - unat k = unat (maxSeq w) - unat n \<Longrightarrow> n \<in> S"
  proof -
    assume "\<exists>k\<in>S. unat (maxSeq w) - unat k = unat (maxSeq w) - unat n"
    then obtain k where k: "k \<in> S" "unat (maxSeq w) - unat k = unat (maxSeq w) - unat n" by blast
    moreover from k(1) assms(1) have "k \<le> maxSeq w" by (simp add: window_inv_def)
    ultimately have "unat k = unat n" using assms(2) by (simp add: word_le_nat_alt)
    then have "k = n" by (simp add: word_unat_eq_iff)
    with k(1) show "n \<in> S" by simp
  qed
  then show ?thesis
    using assms unat_sub [OF assms(2)] by (auto simp: window_inv_def)
qed

lemma window_new_max:
  assumes inv: "window_inv w S" and n: "maxSeq w < n"
  shows "window_inv \<lparr>maxSeq = n, bitmap = (if windowSize \<le> n - maxSeq w then 0
           else push_bit (unat (n - maxSeq w)) (bitmap w)) OR 1\<rparr> (insert n S)"
proof -
  let ?m = "unat (maxSeq w)" and ?n = "unat n"
  have lt: "?m < ?n" using n by (simp add: word_less_nat_alt)
  have sh: "unat (n - maxSeq w) = ?n - ?m" using n by (simp add: unat_sub less_imp_le)
  have le: "windowSize \<le> n - maxSeq w \<longleftrightarrow> 64 \<le> ?n - ?m"
    by (simp add: windowSize_def word_le_nat_alt sh)
  have max: "\<forall>k\<in>S. unat k \<le> ?m" using inv by (simp add: window_inv_def word_le_nat_alt)
  have bits: "bit ((if 64 \<le> ?n - ?m then 0 else push_bit (?n - ?m) (bitmap w)) OR 1) d \<longleftrightarrow>
      d = 0 \<or> (\<exists>k\<in>S. ?n - unat k = d)" if d: "d < 64" for d
  proof (cases "?n - ?m \<le> d")
    case True
    have "(\<exists>k\<in>S. ?n - unat k = d) \<longleftrightarrow> (\<exists>k\<in>S. ?m - unat k = d - (?n - ?m))"
      using True lt max by (intro bex_cong refl) auto
    also have "\<dots> \<longleftrightarrow> bit (bitmap w) (d - (?n - ?m))" using inv d by (simp add: window_inv_def)
    finally show ?thesis using True d by (auto simp: bit_or_iff bit_push_bit_iff bit_1_iff)
  next
    case False
    then have "\<not> (\<exists>k\<in>S. ?n - unat k = d)" using max lt by force
    with False show ?thesis by (simp add: bit_or_iff bit_push_bit_iff bit_1_iff)
  qed
  show ?thesis
    unfolding window_inv_def le sh using inv n max lt bits
    by (auto simp: window_inv_def word_le_nat_alt word_less_nat_alt)
qed

lemma window_old:
  assumes inv: "window_inv w S" and n: "n \<le> maxSeq w" "n \<noteq> 0" "unat (maxSeq w) - unat n < 64"
  shows "window_inv (w\<lparr>bitmap := bitmap w OR push_bit (unat (maxSeq w - n)) 1\<rparr>) (insert n S)"
proof -
  have "unat (maxSeq w - n) = unat (maxSeq w) - unat n" using n(1) by (simp add: unat_sub)
  then show ?thesis
    using assms by (auto simp: window_inv_def bit_or_iff bit_exp_iff)
qed

lemma Check_step:
  assumes inv: "window_inv w S"
  shows "fst (Check w n) \<longleftrightarrow> n \<noteq> 0 \<and> n \<notin> S \<and> unat (maxSeq w) < unat n + 64"
    and "window_inv (snd (Check w n)) (if fst (Check w n) then insert n S else S)"
    and "\<not> fst (Check w n) \<Longrightarrow> snd (Check w n) = w"
proof -
  have gt: "n \<notin> S \<and> unat (maxSeq w) < unat n" if "maxSeq w < n"
    using that inv by (auto simp: window_inv_def word_less_nat_alt word_le_nat_alt)
  have far: "windowSize \<le> maxSeq w - n \<longleftrightarrow> \<not> unat (maxSeq w) < unat n + 64" if "\<not> maxSeq w < n"
    using that by (auto simp: windowSize_def word_le_nat_alt unat_sub not_less)
  have bit: "bit (bitmap w) (unat (maxSeq w - n)) \<longleftrightarrow> n \<in> S"
    if "\<not> maxSeq w < n" "unat (maxSeq w) < unat n + 64"
    using that window_bit [OF inv, of n] by (auto simp: not_less)
  note d = Check_def Let_def bit_and_mask
  show "fst (Check w n) \<longleftrightarrow> n \<noteq> 0 \<and> n \<notin> S \<and> unat (maxSeq w) < unat n + 64"
    using gt far bit by (cases "maxSeq w < n") (auto simp: d)
  show "window_inv (snd (Check w n)) (if fst (Check w n) then insert n S else S)"
  proof (cases "maxSeq w < n")
    case True
    with window_new_max [OF inv True] show ?thesis by (auto simp: d inv)
  next
    case False
    with window_old [OF inv, of n] far show ?thesis by (auto simp: d inv not_less)
  qed
  show "\<not> fst (Check w n) \<Longrightarrow> snd (Check w n) = w" by (auto simp: d split: if_splits)
qed

interpretation window: replay_guard Check window_inv
proof
  show "n \<notin> S \<and> window_inv w' (insert n S)" if "window_inv w S" "Check w n = (True, w')" for w S n w'
    using Check_step(1,2) [OF that(1), of n] that(2) by simp
  show "w' = w" if "Check w n = (False, w')" for w n w'
    using that by (auto simp: Check_def Let_def split: if_splits)
qed

text \<open>C8: The replay window is exact. After any sequence of numbers, the accepted ones are distinct, and
  the next number is accepted if and only if it is not zero, was not accepted before, and is less than
  64 below the largest accepted one.\<close>

theorem replay_window_exact:
  "let (accepted, w) = window.offer newWindow ns
   in distinct accepted \<and> set accepted \<subseteq> set ns \<and>
      (\<forall>k\<in>set accepted. k \<le> maxSeq w) \<and> (maxSeq w = 0 \<or> maxSeq w \<in> set accepted) \<and>
      (fst (Check w n) \<longleftrightarrow> n \<noteq> 0 \<and> n \<notin> set accepted \<and> unat (maxSeq w) < unat n + 64)"
proof -
  obtain acc w where o: "window.offer newWindow ns = (acc, w)" by fastforce
  from window.offer_once [OF window_inv_new o] have "distinct acc" "set acc \<subseteq> set ns"
    and inv: "window_inv w (set acc)" by auto
  with Check_step(1) [OF inv, of n] o show ?thesis by (auto simp: window_inv_def)
qed

lemma replay_window_exact_witness:
  "let (accepted, w) = window.offer newWindow [1, 3, 3, 2, 0, 2]
   in accepted = [1, 3, 2] \<and> \<not> fst (Check w 3) \<and> fst (Check w 4)"
proof -
  have o: "window.offer newWindow [1, 3, 3, 2, 0, 2] = ([1, 3, 2], \<lparr>maxSeq = 3, bitmap = 7\<rparr>)"
    by (simp add: newWindow_def Check_def windowSize_def Let_def word_le_nat_alt word_less_nat_alt)
  from replay_window_exact [of "[1, 3, 3, 2, 0, 2]" 3] replay_window_exact [of "[1, 3, 3, 2, 0, 2]" 4] o
  show ?thesis by simp
qed

section \<open>Numbers and nonces\<close>

lemma length_put [simp]: "length (put_uint64 x) = 8"
  by (simp add: put_uint64_def)

lemma upt_8: "[0..<8] = [0, 1, 2, 3, 4, 5, 6, 7 :: nat]"
  by (simp add: upt_rec)

lemma put_bytes:
  "put_uint64 x = List.map (\<lambda>k. ucast (drop_bit k x)) [56, 48, 40, 32, 24, 16, 8, 0]"
  by (simp add: put_uint64_def upt_8)

lemma byte_step:
  "push_bit 8 (drop_bit (k + 8) x) OR ucast (ucast (drop_bit k x) :: 8 word) = drop_bit k x"
  for x :: "64 word"
  by (rule bit_eqI) (auto simp: bit_or_iff bit_push_bit_iff bit_ucast_iff bit_drop_bit_eq add.assoc)

lemma byte_top: "ucast (ucast (drop_bit 56 x) :: 8 word) = drop_bit 56 x" for x :: "64 word"
  by (rule bit_eqI) (auto simp: bit_ucast_iff bit_drop_bit_eq dest: bit_imp_possible_bit)

lemma get_put [simp]: "get_uint64 (put_uint64 x) = x"
  using byte_step [of 48 x] byte_step [of 40 x] byte_step [of 32 x] byte_step [of 24 x]
    byte_step [of 16 x] byte_step [of 8 x] byte_step [of 0 x] byte_top [of x]
  by (simp add: get_uint64_def put_bytes)

lemma put_inj: "put_uint64 x = put_uint64 y \<longleftrightarrow> x = y"
  using get_put by metis

lemma length_nonce [simp]: "length base = 12 \<Longrightarrow> length (makeNonce base n) = 12"
  by (simp add: makeNonce_def)

lemma xor_inj: "length bs = length as \<Longrightarrow> length cs = length as \<Longrightarrow>
  map2 (\<lambda>a b. a XOR b) as bs = map2 (\<lambda>a b. a XOR (b :: 'a::len word)) as cs \<Longrightarrow> bs = cs"
proof (induction as arbitrary: bs cs)
  case (Cons a as)
  then obtain b bs' c cs' where "bs = b # bs'" "cs = c # cs'" by (metis length_Suc_conv length_Cons)
  moreover have "b = c" if "a XOR b = a XOR c"
    using that by (metis xor.left_commute xor_self_eq xor.right_neutral)
  ultimately show ?case using Cons by auto
qed simp

lemma nonce_inj: "length base = 12 \<Longrightarrow> makeNonce base m = makeNonce base n \<longleftrightarrow> m = n"
  using xor_inj [of "[0, 0, 0, 0] @ put_uint64 m" base "[0, 0, 0, 0] @ put_uint64 n"]
  by (auto simp: makeNonce_def put_inj)

section \<open>The channel\<close>

fun send_all :: "seal_fn \<Rightarrow> session \<Rightarrow> bytes list \<Rightarrow> bytes list \<times> session" where
  "send_all seal s [] = ([], s)"
| "send_all seal s (p # ps) =
     (case Encrypt seal s p of (e, s1) \<Rightarrow> (case send_all seal s1 ps of (es, s2) \<Rightarrow> (e # es, s2)))"

fun recv_all :: "unseal_fn \<Rightarrow> session \<Rightarrow> bytes list \<Rightarrow> (chan_error + bytes) list \<times> session" where
  "recv_all unseal s [] = ([], s)"
| "recv_all unseal s (e # es) =
     (case Decrypt unseal s e of (r, s1) \<Rightarrow> (case recv_all unseal s1 es of (rs, s2) \<Rightarrow> (r # rs, s2)))"

text \<open>What is documented of AES-GCM: opening what was sealed under the same key and nonce gives it
  back, and the sealed text is 16 bytes longer.\<close>

definition aead_ok :: "seal_fn \<Rightarrow> unseal_fn \<Rightarrow> bool" where
  "aead_ok seal unseal \<longleftrightarrow>
     (\<forall>k n p. unseal k n (seal k n p) = Some p) \<and> (\<forall>k n p. length (seal k n p) = length p + 16)"

definition envelope_seq :: "bytes \<Rightarrow> 64 word" where
  "envelope_seq e = get_uint64 (take 8 (drop 1 e))"

lemma envelope_seq_put [simp]: "envelope_seq (1 # put_uint64 n @ ct) = n"
  by (simp add: envelope_seq_def)

lemma Check_next:
  "maxSeq w < n \<Longrightarrow> fst (Check w n) \<and> maxSeq (snd (Check w n)) = n"
  by (auto simp: Check_def Let_def)

lemma word_succ_less: "unat (k :: 64 word) + 1 < 2 ^ 64 \<Longrightarrow> k < k + 1 \<and> unat (k + 1) = unat k + 1"
  by (simp add: unat_word_ariths word_less_nat_alt)

lemma channel_in_order:
  assumes "aead_ok seal unseal" and "sendKey s = recvKey r" and "sendNonce s = recvNonce r"
    and "maxSeq (recvWindow r) = sendSeq s" and "unat (sendSeq s) + length ps < 2 ^ 64"
  shows "fst (recv_all unseal r (fst (send_all seal s ps))) = List.map Inr ps"
  using assms
proof (induction ps arbitrary: s r)
  case Nil
  then show ?case by simp
next
  case (Cons p ps)
  let ?n = "sendSeq s + 1"
  let ?ct = "seal (sendKey s) (makeNonce (sendNonce s) ?n) p"
  let ?s = "s\<lparr>sendSeq := ?n\<rparr>"
  from Cons.prems(5) have n: "sendSeq s < ?n" "unat ?n = unat (sendSeq s) + 1"
    using word_succ_less [of "sendSeq s"] by simp_all
  obtain ok w where c: "Check (recvWindow r) ?n = (ok, w)" by fastforce
  with Check_next [of "recvWindow r" ?n] n Cons.prems(4) have ok: "ok" "maxSeq w = ?n" by simp_all
  let ?r = "r\<lparr>recvWindow := w\<rparr>"
  have enc: "Encrypt seal s p = (1 # put_uint64 ?n @ ?ct, ?s)"
    by (simp add: Encrypt_def Let_def)
  have dec: "Decrypt unseal r (1 # put_uint64 ?n @ ?ct) = (Inr p, ?r)"
    using Cons.prems(1-3) c ok by (simp add: Decrypt_def Let_def aead_ok_def)
  have "fst (recv_all unseal ?r (fst (send_all seal ?s ps))) = List.map Inr ps"
    by (rule Cons.IH) (use Cons.prems ok n in simp_all)
  then show ?case by (simp add: enc dec case_prod_beta)
qed

text \<open>C9: The two ends derived from one key exchange understand each other: in both directions every
  sequence of fewer than 2^64 messages arrives as it was sent, for any key derivation and any AEAD
  that opens what it sealed.\<close>

theorem channel_roundtrip:
  assumes "aead_ok seal unseal"
    and "DeriveSession kdf secret agentPub masterPub side = Some s"
    and "DeriveSession kdf secret agentPub masterPub (\<not> side) = Some r"
    and "length ps < 2 ^ 64"
  shows "fst (recv_all unseal r (fst (send_all seal s ps))) = List.map Inr ps"
proof (rule channel_in_order [OF assms(1)])
  show "sendKey s = recvKey r" "sendNonce s = recvNonce r" "maxSeq (recvWindow r) = sendSeq s"
    "unat (sendSeq s) + length ps < 2 ^ 64"
    using assms(2-4)
    by (auto simp: DeriveSession_def Let_def newWindow_def split: option.splits if_splits)
qed

lemma send_all_shape:
  "fst (send_all seal s ps) =
     List.map (\<lambda>i. 1 # put_uint64 (sendSeq s + of_nat (i + 1)) @
       seal (sendKey s) (makeNonce (sendNonce s) (sendSeq s + of_nat (i + 1))) (ps ! i)) [0..<length ps]"
proof (induction ps arbitrary: s)
  case (Cons p ps)
  have "[0..<length (p # ps)] = 0 # List.map Suc [0..<length ps]"
    by (simp add: map_Suc_upt upt_conv_Cons del: upt_Suc)
  then show ?case
    using Cons.IH [of "s\<lparr>sendSeq := sendSeq s + 1\<rparr>"]
    by (simp add: Encrypt_def Let_def case_prod_beta comp_def add_ac del: upt_Suc)
qed simp

text \<open>C30: A key never seals two messages under one nonce: over fewer than 2^64 messages of a fresh
  session the nonces are pairwise distinct, and the envelope carries the number its nonce is made of.\<close>

theorem encrypt_never_reuses_nonce:
  assumes "DeriveSession kdf secret agentPub masterPub side = Some s"
    and "\<And>a b n out. kdf a b n = Some out \<Longrightarrow> length out = n" and "length ps < 2 ^ 64"
  shows "\<exists>nonces. distinct nonces \<and> length nonces = length ps \<and>
           (\<forall>i<length ps. fst (send_all seal s ps) ! i =
              1 # put_uint64 (of_nat (i + 1)) @ seal (sendKey s) (nonces ! i) (ps ! i))"
proof -
  have s: "length (sendNonce s) = 12" "sendSeq s = 0"
    using assms(1,2) by (auto simp: DeriveSession_def Let_def split: option.splits if_splits)
  let ?ns = "List.map (\<lambda>i. makeNonce (sendNonce s) (of_nat (i + 1))) [0..<length ps]"
  have inj: "i = j" if "(of_nat (i + 1) :: 64 word) = of_nat (j + 1)" "i < length ps" "j < length ps" for i j
    using that assms(3) word_of_nat_eq_iff [of "i + 1" "j + 1", where 'a = 64]
      take_bit_nat_eq_self [of "i + 1" 64] take_bit_nat_eq_self [of "j + 1" 64]
    by (simp del: of_nat_add of_nat_Suc)
  have "distinct ?ns"
    using inj by (auto simp: distinct_map inj_on_def nonce_inj [OF s(1)] simp del: of_nat_add of_nat_Suc)
  then show ?thesis
    by (intro exI [of _ ?ns]) (simp add: send_all_shape s)
qed

text \<open>The numbers of the envelopes that were opened.\<close>

definition opened :: "bytes list \<Rightarrow> (chan_error + bytes) list \<Rightarrow> 64 word list" where
  "opened es rs = List.map (\<lambda>(e, _). envelope_seq e) (filter (\<lambda>(_, r). case r of Inr _ \<Rightarrow> True | Inl _ \<Rightarrow> False) (zip es rs))"

lemma Decrypt_window:
  assumes "window_inv (recvWindow s) S" and "Decrypt unseal s e = (r, s')"
  shows "\<exists>S'. S \<subseteq> S' \<and> window_inv (recvWindow s') S' \<and>
           (\<forall>p. r = Inr p \<longrightarrow> envelope_seq e \<notin> S \<and> envelope_seq e \<in> S')"
proof (cases "length e < 9 + 16 \<or> e ! 0 \<noteq> 1")
  case True
  with assms show ?thesis by (intro exI [of _ S]) (auto simp: Decrypt_def split: if_splits)
next
  case False
  obtain ok w where c: "Check (recvWindow s) (envelope_seq e) = (ok, w)" by fastforce
  have s': "recvWindow s' = w" "\<And>p. r = Inr p \<Longrightarrow> ok"
    using assms(2) False c
    by (auto simp: Decrypt_def Let_def envelope_seq_def split: if_splits option.splits)
  show ?thesis
  proof (cases ok)
    case True
    with window.accepts [OF assms(1), of "envelope_seq e" w] c s'
    show ?thesis by (intro exI [of _ "insert (envelope_seq e) S"]) auto
  next
    case False
    with window.refuses [of "recvWindow s" "envelope_seq e" w] c s' assms(1)
    show ?thesis by (intro exI [of _ S]) auto
  qed
qed

lemma opened_distinct:
  "window_inv (recvWindow s) S \<Longrightarrow>
   distinct (opened es (fst (recv_all unseal s es))) \<and>
   set (opened es (fst (recv_all unseal s es))) \<inter> S = {}"
proof (induction es arbitrary: s S)
  case Nil
  then show ?case by (simp add: opened_def)
next
  case (Cons e es)
  obtain r s1 where d: "Decrypt unseal s e = (r, s1)" by fastforce
  from Decrypt_window [OF Cons.prems d] obtain S' where
    S': "S \<subseteq> S'" "window_inv (recvWindow s1) S'"
    "\<And>p. r = Inr p \<Longrightarrow> envelope_seq e \<notin> S \<and> envelope_seq e \<in> S'" by blast
  from Cons.IH [OF S'(2)] S'(1,3) d show ?case
    by (cases r) (auto simp: opened_def case_prod_beta)
qed

text \<open>No replay succeeds. Whatever envelopes arrive at a fresh session, in whatever order and
  however often, and whoever made them, those that are opened have pairwise distinct numbers; so one
  envelope is opened at most once.\<close>

theorem no_replay:
  assumes "DeriveSession kdf secret agentPub masterPub side = Some s"
  shows "distinct (opened es (fst (recv_all unseal s es)))"
proof -
  have "recvWindow s = newWindow"
    using assms by (auto simp: DeriveSession_def Let_def split: option.splits if_splits)
  with window_inv_new have "window_inv (recvWindow s) {}" by simp
  from opened_distinct [OF this] show ?thesis by blast
qed

text \<open>The window moves before the envelope is authenticated: one forged envelope with a high number
  makes the receiver refuse the genuine ones below it.\<close>

lemma forged_envelope_blocks:
  assumes "unseal (recvKey s) (makeNonce (recvNonce s) 100) (replicate 16 0) = None"
    and "recvWindow s = newWindow" and "16 \<le> length ct"
  shows "fst (recv_all unseal s [1 # put_uint64 100 @ replicate 16 0, 1 # put_uint64 1 @ ct]) =
         [Inl Unauthentic, Inl (Replayed 1)]"
proof -
  have c: "Check newWindow 100 = (True, \<lparr>maxSeq = 100, bitmap = 1\<rparr>)"
    by (simp add: Check_def newWindow_def windowSize_def Let_def word_le_nat_alt)
  have "\<not> fst (Check \<lparr>maxSeq = 100, bitmap = 1\<rparr> 1)"
    by (simp add: Check_def windowSize_def Let_def word_le_nat_alt word_less_nat_alt)
  then obtain w where "Check \<lparr>maxSeq = 100, bitmap = 1\<rparr> 1 = (False, w)"
    by (metis prod.collapse)
  with c assms show ?thesis
    by (simp add: Decrypt_def Let_def)
qed

section \<open>An example instance\<close>

text \<open>A transparent cipher and key stream, so that the hypotheses can be discharged.\<close>

definition toy_seal :: seal_fn where
  "toy_seal k n p = p @ replicate 16 0"

definition toy_unseal :: unseal_fn where
  "toy_unseal k n c = (if length c < 16 then None else Some (take (length c - 16) c))"

definition toy_kdf :: "bytes \<Rightarrow> bytes \<Rightarrow> nat \<Rightarrow> bytes option" where
  "toy_kdf secret salt n = Some (replicate n 7)"

lemma toy_ok: "aead_ok toy_seal toy_unseal"
  by (simp add: aead_ok_def toy_seal_def toy_unseal_def)

definition toy_session :: "bool \<Rightarrow> session" where
  "toy_session side = the (DeriveSession toy_kdf [1] [2] [3] side)"

lemma toy_session: "DeriveSession toy_kdf [1] [2] [3] side = Some (toy_session side)"
  by (simp add: toy_session_def DeriveSession_def toy_kdf_def Let_def)

lemma channel_roundtrip_witness:
  "fst (recv_all toy_unseal (toy_session False) (fst (send_all toy_seal (toy_session True) [[1, 2], [3]]))) =
   [Inr [1, 2], Inr [3]]"
  using channel_roundtrip [OF toy_ok toy_session [of True], of "toy_session False" "[[1, 2], [3]]"]
    toy_session [of False] by simp

lemma encrypt_never_reuses_nonce_witness:
  "\<exists>nonces. distinct nonces \<and> length nonces = 2 \<and>
     fst (send_all toy_seal (toy_session True) [[1], [1]]) ! 1 =
       1 # put_uint64 2 @ toy_seal (sendKey (toy_session True)) (nonces ! 1) [1]"
  using encrypt_never_reuses_nonce [OF toy_session [of True], of "[[1], [1]]" toy_seal]
  by (fastforce simp: toy_kdf_def)

lemma no_replay_witness:
  "let e = 1 # put_uint64 1 @ toy_seal [] [] [9]
   in fst (recv_all toy_unseal (toy_session True) [e, e]) = [Inr [9], Inl (Replayed 1)] \<and>
      distinct (opened [e, e] (fst (recv_all toy_unseal (toy_session True) [e, e])))"
proof -
  let ?e = "1 # put_uint64 1 @ toy_seal [] [] [9]"
  have c: "Check newWindow 1 = (True, \<lparr>maxSeq = 1, bitmap = 1\<rparr>)"
    by (simp add: Check_def newWindow_def windowSize_def Let_def word_le_nat_alt)
  have "\<not> fst (Check \<lparr>maxSeq = 1, bitmap = 1\<rparr> 1)"
    by (simp add: Check_def windowSize_def Let_def word_le_nat_alt word_less_nat_alt)
  then obtain w where d: "Check \<lparr>maxSeq = 1, bitmap = 1\<rparr> 1 = (False, w)" by (metis prod.collapse)
  have "recvWindow (toy_session True) = newWindow"
    by (simp add: toy_session_def DeriveSession_def toy_kdf_def Let_def)
  then have "fst (recv_all toy_unseal (toy_session True) [?e, ?e]) = [Inr [9], Inl (Replayed 1)]"
    by (simp add: Decrypt_def Let_def toy_seal_def toy_unseal_def c d)
  moreover have "distinct (opened [?e, ?e] (fst (recv_all toy_unseal (toy_session True) [?e, ?e])))"
    by (rule no_replay [OF toy_session])
  ultimately show ?thesis by (simp add: Let_def)
qed

section \<open>The cache\<close>

text \<open>A stored session is found until its time to live has passed, a deleted one never, and the
  periodic clean-up is invisible.\<close>

lemma cache_laws:
  "0 \<le> sc_ttl c \<Longrightarrow> t \<le> now + sc_ttl c \<Longrightarrow> cache_Get t token (cache_Set now token s c) = Some s"
  "now + sc_ttl c < t \<Longrightarrow> cache_Get t token (cache_Set now token s c) = None"
  "token' \<noteq> token \<Longrightarrow> cache_Get t token' (cache_Set now token s c) = cache_Get t token' c"
  "cache_Get t token (cache_Delete token c) = None"
proof -
  have f: "token' \<noteq> token \<Longrightarrow> map_of (filter (\<lambda>e. fst e \<noteq> token) xs) token' = map_of xs token'"
    for xs :: "(string \<times> session \<times> int) list" and token'
    by (induction xs) auto
  have g: "map_of (filter (\<lambda>e. fst e \<noteq> token) xs) token = None" for xs :: "(string \<times> session \<times> int) list"
    by (induction xs) auto
  show "0 \<le> sc_ttl c \<Longrightarrow> t \<le> now + sc_ttl c \<Longrightarrow> cache_Get t token (cache_Set now token s c) = Some s"
    "now + sc_ttl c < t \<Longrightarrow> cache_Get t token (cache_Set now token s c) = None"
    by (simp_all add: cache_Get_def cache_Set_def)
  show "token' \<noteq> token \<Longrightarrow> cache_Get t token' (cache_Set now token s c) = cache_Get t token' c"
    by (simp add: cache_Get_def cache_Set_def cache_Delete_def f)
  show "cache_Get t token (cache_Delete token c) = None"
    by (simp add: cache_Get_def cache_Delete_def g)
qed

lemma cache_cleanup_invisible:
  assumes "distinct (List.map fst (sc_entries c))" and "now \<le> t"
  shows "cache_Get t token (cache_cleanup now c) = cache_Get t token c"
proof -
  have "(case map_of (filter (\<lambda>(_, _, e). \<not> e < now) xs) token of
           None \<Rightarrow> None | Some (s, e) \<Rightarrow> if e < t then None else Some s) =
        (case map_of xs token of None \<Rightarrow> None | Some (s, e) \<Rightarrow> if e < t then None else Some s)"
    if "distinct (List.map fst xs)" for xs :: "(string \<times> session \<times> int) list"
    using that
  proof (induction xs)
    case (Cons x xs)
    obtain k s e where x: "x = (k, s, e)" by (cases x)
    have "map_of (filter (\<lambda>(_, _, e). \<not> e < now) xs) k = None" if "k \<notin> fst ` set xs"
      using that by (induction xs) auto
    with Cons x assms(2) show ?case by auto
  qed simp
  with assms(1) show ?thesis by (simp add: cache_Get_def cache_cleanup_def)
qed

end
