(* ===== verification/Auth.thy ===== *)
theory Auth
  imports Go_Prelude Securechan
begin

text \<open>
  Who may talk to the agent: the silent authentication in front of the listener
  (\<open>internal/handler/silent_auth.go\<close>), the checks of the three handler groups
  (\<open>management_handler.go\<close>, \<open>pull_api_handler.go\<close>, \<open>warp_handler.go\<close>), and the request encryption
  of the pull mode (\<open>crypto_middleware.go\<close>), composed as \<open>cmd/mmw-agent/main.go\<close> does. The handler
  behind them is any function on a state of its own. Signatures, key agreement, key derivation,
  AES-GCM and base64 are library code: the fields of \<open>crypto_lib\<close>.
\<close>

section \<open>Requests and answers\<close>

record http_req =
  rq_headers :: "(string \<times> string) list"
  rq_remote :: string
  rq_body :: bytes

record http_resp =
  rs_status :: nat
  rs_headers :: "(string \<times> string) list"
  rs_body :: bytes

text \<open>\<open>Header.Get\<close> (names in canonical form) and \<open>Header.Set\<close>.\<close>

definition hdr :: "http_req \<Rightarrow> string \<Rightarrow> string" where
  "hdr r k = (case map_of (rq_headers r) k of None \<Rightarrow> [] | Some v \<Rightarrow> v)"

definition hdr_set :: "string \<Rightarrow> string \<Rightarrow> (string \<times> string) list \<Rightarrow> (string \<times> string) list" where
  "hdr_set k v hs = (k, v) # filter (\<lambda>e. fst e \<noteq> k) hs"

definition string_bytes :: "string \<Rightarrow> bytes" where
  "string_bytes s = List.map (\<lambda>c. of_nat (of_char c)) s"

definition http_error :: "string \<Rightarrow> nat \<Rightarrow> http_resp" where
  "http_error msg code =
     \<lparr>rs_status = code,
      rs_headers = [(''Content-Type'', ''text/plain; charset=utf-8''), (''X-Content-Type-Options'', ''nosniff'')],
      rs_body = string_bytes (msg @ [CHR 0x0A])\<rparr>"

definition AgentUserAgent :: string where
  "AgentUserAgent = ''miaomiaowux/0.1''"

definition BearerPrefix :: string where
  "BearerPrefix = ''Bearer ''"

section \<open>The checks\<close>

definition silentAuthenticate :: "http_req \<Rightarrow> string \<Rightarrow> bool" where
  "silentAuthenticate r token =
     (if hdr r ''User-Agent'' \<noteq> AgentUserAgent then False
      else if token = [] then True
      else
        (let auth0 = hdr r ''Authorization'';
             auth = (if auth0 = [] then hdr r ''Mm-Remote-Token'' else auth0)
         in if auth = [] then False
            else if has_prefix auth BearerPrefix then trim_prefix auth BearerPrefix = token
            else auth = token))"

definition manage_authenticate :: "http_req \<Rightarrow> string \<Rightarrow> bool" where
  "manage_authenticate r configToken =
     (if hdr r ''X-Ws-Rpc'' = ''1'' \<and> rq_remote r = ''ws-rpc'' then True
      else if hdr r ''User-Agent'' \<noteq> AgentUserAgent then False
      else if configToken = [] then True
      else
        (let auth0 = hdr r ''Authorization'';
             auth = (if auth0 = [] then hdr r ''Mm-Remote-Token'' else auth0)
         in if auth = [] then False
            else if has_prefix auth BearerPrefix
            then (let token = trim_prefix auth BearerPrefix in token = configToken)
            else auth = configToken))"

definition pull_authenticate :: "http_req \<Rightarrow> string \<Rightarrow> bool" where
  "pull_authenticate r configToken =
     (if hdr r ''User-Agent'' \<noteq> AgentUserAgent then False
      else if configToken = [] then True
      else
        (let auth = hdr r ''Authorization''
         in if auth = [] then False
            else if has_prefix auth BearerPrefix
            then (let token = trim_prefix auth BearerPrefix in token = configToken)
            else auth = configToken))"

definition warp_auth :: "http_req \<Rightarrow> string \<Rightarrow> bool" where
  "warp_auth r configToken =
     (let token = hdr r ''Authorization''
      in if hdr r ''X-Ws-Rpc'' = ''1'' then True
         else if configToken = [] then False
         else
           (let prefix = ''Bearer ''
            in if length prefix < length token \<and> take (length prefix) token = prefix
               then drop (length prefix) token = configToken
               else False))"

definition pullExtractToken :: "http_req \<Rightarrow> string" where
  "pullExtractToken r =
     (let auth = hdr r ''Authorization''
      in if has_prefix auth BearerPrefix then drop (length BearerPrefix) auth
         else (let token = hdr r ''Mm-Remote-Token'' in if token \<noteq> [] then token else []))"

section \<open>Pull-mode encryption\<close>

record crypto_lib =
  b64_decode :: "string \<Rightarrow> bytes option"
  b64_encode :: "bytes \<Rightarrow> string"
  ed_verify :: "bytes \<Rightarrow> bytes \<Rightarrow> bytes \<Rightarrow> bool"
  x_ecdh :: "bytes \<Rightarrow> bytes \<Rightarrow> bytes option"
  hkdf :: "bytes \<Rightarrow> bytes \<Rightarrow> nat \<Rightarrow> bytes option"
  gcm_seal :: seal_fn
  gcm_unseal :: unseal_fn

text \<open>What one request draws from its surroundings: the clock and a fresh key pair (private, public).\<close>

record draw =
  dr_now :: int
  dr_ephemeral :: "(bytes \<times> bytes) option"

text \<open>The middleware's cache of sessions and the state of the handler behind it.\<close>

record 'w srv =
  sv_cache :: sessionCache
  sv_world :: 'w

type_synonym 'w handler = "http_req \<Rightarrow> 'w \<Rightarrow> http_resp \<times> 'w"

text \<open>The cache holds pointers: using a session changes the stored one.\<close>

definition cache_store :: "string \<Rightarrow> session \<Rightarrow> sessionCache \<Rightarrow> sessionCache" where
  "cache_store token s c =
     c\<lparr>sc_entries := List.map (\<lambda>(k, x, e). if k = token then (k, s, e) else (k, x, e)) (sc_entries c)\<rparr>"

definition run_next :: "'w handler \<Rightarrow> http_req \<Rightarrow> 'w srv \<Rightarrow> http_resp \<times> 'w srv" where
  "run_next nxt r st = (case nxt r (sv_world st) of (resp, w) \<Rightarrow> (resp, st\<lparr>sv_world := w\<rparr>))"

text \<open>A header that is set before the handler runs, which the handler may overwrite.\<close>

definition preset_header :: "string \<Rightarrow> string \<Rightarrow> http_resp \<Rightarrow> http_resp" where
  "preset_header k v resp =
     (if map_of (rs_headers resp) k = None then resp\<lparr>rs_headers := (k, v) # rs_headers resp\<rparr> else resp)"

text \<open>\<open>strings.SplitN(s, "|", 2)\<close> with two parts.\<close>

definition split_bar :: "string \<Rightarrow> (string \<times> string) option" where
  "split_bar s =
     (case dropWhile (\<lambda>c. c \<noteq> CHR 0x7C) s of
        [] \<Rightarrow> None | _ # rest \<Rightarrow> Some (takeWhile (\<lambda>c. c \<noteq> CHR 0x7C) s, rest))"

text \<open>The key exchange: the public key of the answer and the new session, or the refusal.\<close>

definition key_exchange :: "crypto_lib \<Rightarrow> draw \<Rightarrow> bytes \<Rightarrow> string \<Rightarrow> http_resp + (bytes \<times> session)" where
  "key_exchange lib d masterPubKey kx =
     (case split_bar kx of
        None \<Rightarrow> Inl (http_error ''{\"error\":\"invalid key exchange\"}'' 400)
      | Some (p0, p1) \<Rightarrow>
          (case b64_decode lib p0 of
             None \<Rightarrow> Inl (http_error ''{\"error\":\"invalid master ephemeral key\"}'' 400)
           | Some masterEphPub \<Rightarrow>
               if length masterEphPub \<noteq> 32
               then Inl (http_error ''{\"error\":\"invalid master ephemeral key\"}'' 400)
               else
                 (case b64_decode lib p1 of
                    None \<Rightarrow> Inl (http_error ''{\"error\":\"invalid signature\"}'' 400)
                  | Some sig \<Rightarrow>
                      if \<not> ed_verify lib masterPubKey masterEphPub sig
                      then Inl (http_error ''{\"error\":\"signature verification failed\"}'' 403)
                      else
                        (case dr_ephemeral d of
                           None \<Rightarrow> Inl (http_error ''{\"error\":\"key generation failed\"}'' 500)
                         | Some (agentPriv, agentPub) \<Rightarrow>
                             (case x_ecdh lib agentPriv masterEphPub of
                                None \<Rightarrow> Inl (http_error ''{\"error\":\"ECDH failed\"}'' 500)
                              | Some sharedSecret \<Rightarrow>
                                  (case DeriveSession (hkdf lib) sharedSecret agentPub masterEphPub False of
                                     None \<Rightarrow> Inl (http_error ''{\"error\":\"session derivation failed\"}'' 500)
                                   | Some session \<Rightarrow> Inr (agentPub, session)))))))"

text \<open>\<open>cryptoResponseWriter\<close>: the buffered answer is sealed when the handler is done.\<close>

definition seal_response :: "crypto_lib \<Rightarrow> session \<Rightarrow> http_resp \<Rightarrow> http_resp \<times> session" where
  "seal_response lib s resp =
     (case Encrypt (gcm_seal lib) s (rs_body resp) of
        (encrypted, s') \<Rightarrow>
          (resp\<lparr>rs_headers := hdr_set ''Content-Type'' ''application/octet-stream''
                               (hdr_set ''X-Encrypted'' ''1'' (rs_headers resp)),
                rs_body := encrypted\<rparr>, s'))"

definition CryptoMiddleware ::
  "crypto_lib \<Rightarrow> bytes option \<Rightarrow> 'w handler \<Rightarrow> draw \<Rightarrow> http_req \<Rightarrow> 'w srv \<Rightarrow> http_resp \<times> 'w srv" where
  "CryptoMiddleware lib masterPubKey nxt d r st =
     (case masterPubKey of
        None \<Rightarrow> run_next nxt r st
      | Some pk \<Rightarrow>
          (let token = pullExtractToken r
           in if hdr r ''X-Key-Exchange'' \<noteq> [] then
                (case key_exchange lib d pk (hdr r ''X-Key-Exchange'') of
                   Inl e \<Rightarrow> (e, st)
                 | Inr (agentPub, session) \<Rightarrow>
                     (let st1 = (if token \<noteq> []
                                 then st\<lparr>sv_cache := cache_Set (dr_now d) token session (sv_cache st)\<rparr> else st)
                      in (case run_next nxt r st1 of
                            (resp, st2) \<Rightarrow>
                              (preset_header ''X-Key-Exchange'' (b64_encode lib agentPub) resp, st2))))
              else if hdr r ''X-Encrypted'' = ''1'' \<and> token \<noteq> [] then
                (case cache_Get (dr_now d) token (sv_cache st) of
                   None \<Rightarrow> (http_error ''{\"error\":\"no session, re-negotiate\"}'' 412, st)
                 | Some session \<Rightarrow>
                     (case (if rq_body r \<noteq> []
                            then (case Decrypt (gcm_unseal lib) session (rq_body r) of
                                    (Inl _, s1) \<Rightarrow> (None, s1)
                                  | (Inr plaintext, s1) \<Rightarrow>
                                      (Some (r\<lparr>rq_body := plaintext,
                                               rq_headers := hdr_set ''Content-Type'' ''application/json'' (rq_headers r)\<rparr>), s1))
                            else (Some r, session)) of
                        (None, s1) \<Rightarrow>
                          (http_error ''{\"error\":\"decrypt failed\"}'' 400,
                           st\<lparr>sv_cache := cache_store token s1 (sv_cache st)\<rparr>)
                      | (Some r1, s1) \<Rightarrow>
                          (case run_next nxt r1 st of
                             (resp, st2) \<Rightarrow>
                               (case seal_response lib s1 resp of
                                  (sealed, s2) \<Rightarrow>
                                    (sealed, st2\<lparr>sv_cache := cache_store token s2 (sv_cache st2)\<rparr>)))))
              else run_next nxt r st))"

section \<open>The listener\<close>

text \<open>\<open>None\<close>: the connection is closed without an answer. When it cannot be taken over, the answer
  is empty.\<close>

definition SilentAuthMiddleware ::
  "string \<Rightarrow> bool \<Rightarrow> (http_req \<Rightarrow> 'w srv \<Rightarrow> http_resp \<times> 'w srv) \<Rightarrow> http_req \<Rightarrow> 'w srv \<Rightarrow> http_resp option \<times> 'w srv" where
  "SilentAuthMiddleware token hijackable nxt r st =
     (if \<not> silentAuthenticate r token
      then (if hijackable then None else Some \<lparr>rs_status = 0, rs_headers = [], rs_body = []\<rparr>, st)
      else (case nxt r st of (resp, st') \<Rightarrow> (Some resp, st')))"

definition listener ::
  "crypto_lib \<Rightarrow> string \<Rightarrow> bytes option \<Rightarrow> 'w handler \<Rightarrow> draw \<Rightarrow> http_req \<Rightarrow> 'w srv \<Rightarrow> http_resp option \<times> 'w srv" where
  "listener lib token masterPubKey nxt d r st =
     SilentAuthMiddleware token True (CryptoMiddleware lib masterPubKey nxt d) r st"

text \<open>What happens at the listener over time: requests, and the periodic clean-up of the cache.\<close>

datatype srv_event = Request draw http_req | CleanUp int

fun srv_run :: "crypto_lib \<Rightarrow> string \<Rightarrow> bytes option \<Rightarrow> 'w handler \<Rightarrow> srv_event list \<Rightarrow> 'w srv \<Rightarrow> 'w srv" where
  "srv_run lib token key nxt [] st = st"
| "srv_run lib token key nxt (Request d r # es) st =
     srv_run lib token key nxt es (snd (listener lib token key nxt d r st))"
| "srv_run lib token key nxt (CleanUp t # es) st =
     srv_run lib token key nxt es (st\<lparr>sv_cache := cache_cleanup t (sv_cache st)\<rparr>)"

definition srv_start :: "int \<Rightarrow> 'w \<Rightarrow> 'w srv" where
  "srv_start ttl w = \<lparr>sv_cache = \<lparr>sc_entries = [], sc_ttl = ttl\<rparr>, sv_world = w\<rparr>"

section \<open>Access\<close>

text \<open>The credential a request shows.\<close>

definition credential :: "http_req \<Rightarrow> string" where
  "credential r =
     trim_prefix (if hdr r ''Authorization'' = [] then hdr r ''Mm-Remote-Token'' else hdr r ''Authorization'')
       BearerPrefix"

lemma trim_prefix_if: "(if has_prefix s p then trim_prefix s p = t else s = t) \<longleftrightarrow> trim_prefix s p = t"
  by (simp add: trim_prefix_def)

lemma silent_iff:
  "silentAuthenticate r token \<longleftrightarrow>
     hdr r ''User-Agent'' = AgentUserAgent \<and>
     (token = [] \<or>
      (credential r = token \<and> (hdr r ''Authorization'' \<noteq> [] \<or> hdr r ''Mm-Remote-Token'' \<noteq> [])))"
  by (auto simp: silentAuthenticate_def Let_def trim_prefix_if credential_def)

lemma manage_network: "rq_remote r \<noteq> ''ws-rpc'' \<Longrightarrow> manage_authenticate r token = silentAuthenticate r token"
  by (simp add: manage_authenticate_def silentAuthenticate_def Let_def)

lemma pull_silent: "pull_authenticate r token \<Longrightarrow> silentAuthenticate r token"
  by (auto simp: pull_authenticate_def silentAuthenticate_def Let_def split: if_splits)

text \<open>The check of the WARP handlers alone can be satisfied by a header anybody can send.\<close>

lemma warp_header_suffices:
  "warp_auth \<lparr>rq_headers = [(''X-Ws-Rpc'', ''1'')], rq_remote = ''203.0.113.9:4711'', rq_body = []\<rparr> ''secret''"
  by (simp add: warp_auth_def hdr_def)

text \<open>C4: Nothing behind the listener is reachable without the token. When a token is configured, a request that
  is answered, or that changes the session cache or the state of any handler, came with the agent's
  user agent and with exactly the configured token; every other request is dropped without a byte
  of answer and leaves no trace. This also covers the WARP handlers, whose own check trusts a header.\<close>

theorem listener_needs_token:
  assumes "token \<noteq> []" and "listener lib token key nxt d r st = (resp, st')"
  shows "(resp = None \<and> st' = st) \<or>
         (hdr r ''User-Agent'' = AgentUserAgent \<and> credential r = token)"
  using assms silent_iff [of r token]
  by (auto simp: listener_def SilentAuthMiddleware_def split: if_splits prod.splits)

section \<open>No request runs twice\<close>

text \<open>Every session stored under the token has accepted the number \<open>n\<close>.\<close>

definition guarded :: "(session \<Rightarrow> bool) \<Rightarrow> string \<Rightarrow> sessionCache \<Rightarrow> bool" where
  "guarded P token c \<longleftrightarrow> (\<forall>(k, s, e)\<in>set (sc_entries c). k = token \<longrightarrow> P s)"

definition seen_seq :: "64 word \<Rightarrow> session \<Rightarrow> bool" where
  "seen_seq n s \<longleftrightarrow> (\<exists>S. window_inv (recvWindow s) S \<and> n \<in> S)"

definition sound_session :: "session \<Rightarrow> bool" where
  "sound_session s \<longleftrightarrow> (\<exists>S. window_inv (recvWindow s) S)"

text \<open>A property of sessions that decrypting and encrypting keep.\<close>

definition stable_use :: "(session \<Rightarrow> bool) \<Rightarrow> bool" where
  "stable_use P \<longleftrightarrow>
     (\<forall>f s b. P s \<longrightarrow> P (snd (Decrypt f s b))) \<and> (\<forall>f s b. P s \<longrightarrow> P (snd (Encrypt f s b)))"

lemma Encrypt_window [simp]: "recvWindow (snd (Encrypt f s b)) = recvWindow s"
  by (simp add: Encrypt_def Let_def)

lemma Decrypt_keeps:
  assumes "window_inv (recvWindow s) S"
  shows "\<exists>S'. S \<subseteq> S' \<and> window_inv (recvWindow (snd (Decrypt f s b))) S'"
proof -
  obtain r s' where d: "Decrypt f s b = (r, s')" by fastforce
  from Decrypt_window [OF assms d] d show ?thesis by auto
qed

lemma stable_sound: "stable_use sound_session"
  unfolding stable_use_def sound_session_def using Decrypt_keeps by (simp, blast)

lemma stable_seen: "stable_use (seen_seq n)"
  unfolding stable_use_def seen_seq_def using Decrypt_keeps by (simp, blast)

lemma guarded_Get: "guarded P token c \<Longrightarrow> cache_Get now token c = Some s \<Longrightarrow> P s"
  by (auto simp: guarded_def cache_Get_def dest!: map_of_SomeD split: option.splits if_splits)

lemma guarded_store: "guarded P token c \<Longrightarrow> (k = token \<Longrightarrow> P s) \<Longrightarrow> guarded P token (cache_store k s c)"
  by (auto simp: guarded_def cache_store_def split: if_splits)

lemma guarded_store_same: "P s \<Longrightarrow> guarded P token (cache_store token s c)"
  by (auto simp: guarded_def cache_store_def split: if_splits)

lemma guarded_Set: "guarded P token c \<Longrightarrow> (k = token \<Longrightarrow> P s) \<Longrightarrow> guarded P token (cache_Set now k s c)"
  by (auto simp: guarded_def cache_Set_def cache_Delete_def)

lemma guarded_cleanup: "guarded P token c \<Longrightarrow> guarded P token (cache_cleanup now c)"
  by (auto simp: guarded_def cache_cleanup_def)

lemma run_next_cache [simp]: "sv_cache (snd (run_next nxt r st)) = sv_cache st"
  by (simp add: run_next_def split: prod.splits)

text \<open>An encrypted request, seen from its outcome: what the middleware does with the session.\<close>

lemma crypto_encrypted:
  assumes "hdr r ''X-Key-Exchange'' = []" and "hdr r ''X-Encrypted'' = ''1''" and "pullExtractToken r \<noteq> []"
    and "CryptoMiddleware lib (Some pk) nxt d r st = (resp, st')"
  shows "(cache_Get (dr_now d) (pullExtractToken r) (sv_cache st) = None \<and> st' = st) \<or>
    (\<exists>s. cache_Get (dr_now d) (pullExtractToken r) (sv_cache st) = Some s \<and>
       ((rq_body r \<noteq> [] \<and> (\<exists>e s1. Decrypt (gcm_unseal lib) s (rq_body r) = (Inl e, s1) \<and>
            st' = st\<lparr>sv_cache := cache_store (pullExtractToken r) s1 (sv_cache st)\<rparr>)) \<or>
        (\<exists>s1 w b. sv_cache st' = cache_store (pullExtractToken r) (snd (Encrypt (gcm_seal lib) s1 b)) (sv_cache st) \<and>
            (if rq_body r = [] then s1 = s
             else \<exists>p. Decrypt (gcm_unseal lib) s (rq_body r) = (Inr p, s1)))))"
proof (cases "cache_Get (dr_now d) (pullExtractToken r) (sv_cache st)")
  case None
  with assms show ?thesis by (simp add: CryptoMiddleware_def)
next
  case (Some s)
  show ?thesis
  proof (cases "rq_body r = []")
    case True
    with Some assms show ?thesis
      by (auto simp: CryptoMiddleware_def seal_response_def Let_def case_prod_beta)
  next
    case False
    obtain x s1 where d: "Decrypt (gcm_unseal lib) s (rq_body r) = (x, s1)" by fastforce
    show ?thesis
    proof (cases x)
      case (Inl e)
      with Some False d assms show ?thesis by (simp add: CryptoMiddleware_def)
    next
      case (Inr p)
      with Some False d assms have "\<exists>b. sv_cache st' =
          cache_store (pullExtractToken r) (snd (Encrypt (gcm_seal lib) s1 b)) (sv_cache st)"
        by (auto simp: CryptoMiddleware_def seal_response_def Let_def case_prod_beta)
      with Some False d Inr show ?thesis by auto
    qed
  qed
qed

lemma crypto_plain:
  assumes "hdr r ''X-Key-Exchange'' = []" and "\<not> (hdr r ''X-Encrypted'' = ''1'' \<and> pullExtractToken r \<noteq> [])"
  shows "sv_cache (snd (CryptoMiddleware lib key nxt d r st)) = sv_cache st"
  using assms by (auto simp: CryptoMiddleware_def Let_def split: option.splits)

text \<open>Without a key exchange a request keeps what holds of the stored sessions.\<close>

lemma guarded_request:
  assumes P: "stable_use P" and g: "guarded P token (sv_cache st)" and kx: "hdr r ''X-Key-Exchange'' = []"
  shows "guarded P token (sv_cache (snd (CryptoMiddleware lib (Some pk) nxt d r st)))"
proof (cases "hdr r ''X-Encrypted'' = ''1'' \<and> pullExtractToken r \<noteq> []")
  case False
  show ?thesis by (simp add: crypto_plain [OF kx False] g)
next
  case True
  let ?t = "pullExtractToken r"
  obtain resp st' where c: "CryptoMiddleware lib (Some pk) nxt d r st = (resp, st')" by fastforce
  have use: "P s \<Longrightarrow> P (snd (Decrypt f s b))" "P s \<Longrightarrow> P (snd (Encrypt h s b))" for s b f h
    using P by (simp_all add: stable_use_def)
  have own: "?t = token \<Longrightarrow> cache_Get (dr_now d) ?t (sv_cache st) = Some s \<Longrightarrow> P s" for s
    using guarded_Get [OF g] by simp
  from crypto_encrypted [OF kx _ _ c] True
  consider (same) "st' = st"
    | (refused) s e s1 where "cache_Get (dr_now d) ?t (sv_cache st) = Some s"
        "Decrypt (gcm_unseal lib) s (rq_body r) = (Inl e, s1)"
        "sv_cache st' = cache_store ?t s1 (sv_cache st)"
    | (ran) s s1 b where "cache_Get (dr_now d) ?t (sv_cache st) = Some s"
        "sv_cache st' = cache_store ?t (snd (Encrypt (gcm_seal lib) s1 b)) (sv_cache st)"
        "s1 = s \<or> (\<exists>p. Decrypt (gcm_unseal lib) s (rq_body r) = (Inr p, s1))"
    by (auto split: if_splits)
  then have "guarded P token (sv_cache st')"
  proof cases
    case same
    with g show ?thesis by simp
  next
    case refused
    then have "?t = token \<Longrightarrow> P s1" using use(1) [of s "gcm_unseal lib" "rq_body r"] own by simp
    with refused(3) g show ?thesis by (simp add: guarded_store)
  next
    case ran
    have "P s1" if "?t = token"
      using ran(3) own [OF that ran(1)] use(1) [of s "gcm_unseal lib" "rq_body r"] by auto
    then have "?t = token \<Longrightarrow> P (snd (Encrypt (gcm_seal lib) s1 b))" using use(2) by blast
    with ran(2) g show ?thesis by (simp add: guarded_store)
  qed
  with c show ?thesis by simp
qed

lemma listener_cases:
  "snd (listener lib token key nxt d r st) = st \<or>
   snd (listener lib token key nxt d r st) = snd (CryptoMiddleware lib key nxt d r st)"
  by (simp add: listener_def SilentAuthMiddleware_def split: prod.splits)

lemma guarded_run:
  assumes P: "stable_use P" and g: "guarded P t (sv_cache st)"
    and kx: "\<forall>d q. Request d q \<in> set evs \<longrightarrow> hdr q ''X-Key-Exchange'' = []"
  shows "guarded P t (sv_cache (srv_run lib token (Some pk) nxt evs st))"
  using g kx
proof (induction evs arbitrary: st)
  case (Cons e es)
  show ?case
  proof (cases e)
    case (Request d q)
    have "guarded P t (sv_cache (snd (listener lib token (Some pk) nxt d q st)))"
      using listener_cases [of lib token "Some pk" nxt d q st] guarded_request [OF P Cons.prems(1)] Cons.prems
      by (metis Request list.set_intros(1))
    with Cons Request show ?thesis by simp
  next
    case (CleanUp n)
    with Cons guarded_cleanup show ?thesis by simp
  qed
qed simp

lemma key_exchange_fresh: "key_exchange lib d pk kx = Inr (pub, s) \<Longrightarrow> recvWindow s = newWindow"
  by (auto simp: key_exchange_def DeriveSession_def Let_def split: option.splits prod.splits if_splits)

lemma sound_request:
  assumes "\<forall>t. guarded sound_session t (sv_cache st)"
  shows "\<forall>t. guarded sound_session t (sv_cache (snd (CryptoMiddleware lib (Some pk) nxt d r st)))"
proof (cases "hdr r ''X-Key-Exchange'' = []")
  case True
  with assms guarded_request [OF stable_sound] show ?thesis by blast
next
  case False
  have sound: "sound_session s" if "recvWindow s = newWindow" for s
    using that window_inv_new by (auto simp: sound_session_def)
  show ?thesis
  proof (cases "key_exchange lib d pk (hdr r ''X-Key-Exchange'')")
    case (Inl e)
    with False assms show ?thesis by (simp add: CryptoMiddleware_def)
  next
    case (Inr x)
    obtain pub s where x: "x = (pub, s)" by fastforce
    from sound [OF key_exchange_fresh] Inr x have "sound_session s" by simp
    with False Inr x assms show ?thesis
      by (auto simp: CryptoMiddleware_def Let_def case_prod_beta intro: guarded_Set)
  qed
qed

lemma sound_run:
  "\<forall>t. guarded sound_session t (sv_cache st) \<Longrightarrow>
   guarded sound_session t (sv_cache (srv_run lib token (Some pk) nxt evs st))"
proof (induction evs arbitrary: st)
  case (Cons e es)
  show ?case
  proof (cases e)
    case (Request d q)
    have "\<forall>t. guarded sound_session t (sv_cache (snd (listener lib token (Some pk) nxt d q st)))"
      using listener_cases [of lib token "Some pk" nxt d q st] sound_request [OF Cons.prems] Cons.prems
      by metis
    with Cons.IH Request show ?thesis by simp
  next
    case (CleanUp n)
    with Cons guarded_cleanup show ?thesis by simp
  qed
qed simp

text \<open>What a run of an encrypted request leaves in the cache.\<close>

definition sealed_request :: "http_req \<Rightarrow> bool" where
  "sealed_request r \<longleftrightarrow>
     hdr r ''X-Encrypted'' = ''1'' \<and> hdr r ''X-Key-Exchange'' = [] \<and> pullExtractToken r \<noteq> [] \<and> rq_body r \<noteq> []"

lemma sealed_outcome:
  assumes r: "sealed_request r"
    and sound: "guarded sound_session (pullExtractToken r) (sv_cache st)"
  shows "sv_world (snd (listener lib token (Some pk) nxt d r st)) = sv_world st \<or>
    (\<not> guarded (seen_seq (envelope_seq (rq_body r))) (pullExtractToken r) (sv_cache st) \<and>
     guarded (seen_seq (envelope_seq (rq_body r))) (pullExtractToken r)
       (sv_cache (snd (listener lib token (Some pk) nxt d r st))))"
proof (cases "snd (listener lib token (Some pk) nxt d r st) = st")
  case False
  let ?t = "pullExtractToken r" and ?n = "envelope_seq (rq_body r)"
  obtain resp st' where c: "CryptoMiddleware lib (Some pk) nxt d r st = (resp, st')" by fastforce
  with listener_cases [of lib token "Some pk" nxt d r st] False
  have l: "snd (listener lib token (Some pk) nxt d r st) = st'" by simp
  from crypto_encrypted [OF _ _ _ c] r
  consider (same) "sv_world st' = sv_world st"
    | (ran) s s1 p b where "cache_Get (dr_now d) ?t (sv_cache st) = Some s"
        "sv_cache st' = cache_store ?t (snd (Encrypt (gcm_seal lib) s1 b)) (sv_cache st)"
        "Decrypt (gcm_unseal lib) s (rq_body r) = (Inr p, s1)"
    by (auto simp: sealed_request_def split: if_splits)
  then show ?thesis
  proof cases
    case same
    with l show ?thesis by simp
  next
    case ran
    from guarded_Get [OF sound ran(1)] obtain S where S: "window_inv (recvWindow s) S"
      by (auto simp: sound_session_def)
    from Decrypt_window [OF S ran(3)] have "seen_seq ?n s1" by (auto simp: seen_seq_def)
    then have "seen_seq ?n (snd (Encrypt (gcm_seal lib) s1 b))" by (simp add: seen_seq_def)
    moreover have "\<not> seen_seq ?n s"
      using Decrypt_window [OF _ ran(3)] by (fastforce simp: seen_seq_def)
    ultimately show ?thesis
      using l ran(2) guarded_store_same guarded_Get [OF _ ran(1)] by metis
  qed
qed simp

text \<open>C6: An encrypted request takes effect at most once. Whatever happened at the listener before, if a
  sealed request is delivered and later delivered again, with any requests and cache clean-ups in
  between except a new key exchange, then at most one of the two deliveries reaches the handler: one of
  them leaves the handler's state as it was. Nothing is assumed about the cipher.\<close>

theorem sealed_request_runs_once:
  assumes "sealed_request r"
    and "\<forall>d q. Request d q \<in> set between \<longrightarrow> hdr q ''X-Key-Exchange'' = []"
    and "st = srv_run lib token (Some pk) nxt before (srv_start ttl w0)"
    and "st1 = snd (listener lib token (Some pk) nxt d1 r st)"
    and "st2 = srv_run lib token (Some pk) nxt between st1"
    and "st3 = snd (listener lib token (Some pk) nxt d2 r st2)"
  shows "sv_world st1 = sv_world st \<or> sv_world st3 = sv_world st2"
proof -
  let ?t = "pullExtractToken r" and ?n = "envelope_seq (rq_body r)"
  have "\<forall>t. guarded sound_session t (sv_cache (srv_start ttl w0))" by (simp add: guarded_def srv_start_def)
  note sound = sound_run [OF this]
  have s1: "st1 = srv_run lib token (Some pk) nxt [Request d1 r] st" using assms(4) by simp
  have all: "\<exists>evs. st2 = srv_run lib token (Some pk) nxt evs (srv_start ttl w0)"
  proof -
    have app: "srv_run lib token (Some pk) nxt (xs @ ys) z =
        srv_run lib token (Some pk) nxt ys (srv_run lib token (Some pk) nxt xs z)" for xs ys z
    proof (induction xs arbitrary: z)
      case (Cons x xs)
      then show ?case by (cases x) simp_all
    qed simp
    show ?thesis unfolding assms(5) s1 assms(3) app [symmetric] by blast
  qed
  have "sv_world st1 = sv_world st \<or> guarded (seen_seq ?n) ?t (sv_cache st1)"
    using sealed_outcome [OF assms(1) sound [of ?t lib token pk nxt before, folded assms(3)], of lib token pk nxt d1]
    unfolding assms(4) by blast
  then show ?thesis
  proof
    assume "guarded (seen_seq ?n) ?t (sv_cache st1)"
    from guarded_run [OF stable_seen this assms(2)] have "guarded (seen_seq ?n) ?t (sv_cache st2)"
      unfolding assms(5) .
    with all sealed_outcome [OF assms(1), of st2 lib token pk nxt d2] sound show ?thesis
      unfolding assms(6) by metis
  qed simp
qed

text \<open>The body is what the envelope protects: a request marked as encrypted with an empty body runs as
  often as it is sent, and a request that is not marked runs in the clear although a master key is
  configured.\<close>

lemma empty_body_runs:
  assumes "hdr r ''X-Encrypted'' = ''1''" and "hdr r ''X-Key-Exchange'' = []" and "pullExtractToken r \<noteq> []"
    and "rq_body r = []" and "cache_Get (dr_now d) (pullExtractToken r) (sv_cache st) = Some s"
  shows "sv_world (snd (CryptoMiddleware lib (Some pk) nxt d r st)) = snd (nxt r (sv_world st))"
  using assms by (simp add: CryptoMiddleware_def run_next_def seal_response_def Let_def case_prod_beta)

lemma plain_request_runs:
  assumes "hdr r ''X-Encrypted'' \<noteq> ''1''" and "hdr r ''X-Key-Exchange'' = []"
  shows "CryptoMiddleware lib (Some pk) nxt d r st = run_next nxt r st"
  using assms by (simp add: CryptoMiddleware_def)

section \<open>Witnesses\<close>

text \<open>A transparent library, a handler that counts its calls, and a channel that was just set up.\<close>

definition toy_lib :: crypto_lib where
  "toy_lib = \<lparr>b64_decode = (\<lambda>s. Some (replicate 32 0)), b64_encode = (\<lambda>b. ''key''), ed_verify = (\<lambda>k m s. True),
     x_ecdh = (\<lambda>a b. Some [1]), hkdf = toy_kdf, gcm_seal = toy_seal, gcm_unseal = toy_unseal\<rparr>"

definition toy_draw :: draw where
  "toy_draw = \<lparr>dr_now = 0, dr_ephemeral = Some ([1], [2])\<rparr>"

definition count_calls :: "nat handler" where
  "count_calls r n = (\<lparr>rs_status = 200, rs_headers = [], rs_body = rq_body r\<rparr>, Suc n)"

definition toy_headers :: "(string \<times> string) list" where
  "toy_headers = [(''User-Agent'', ''miaomiaowux/0.1''), (''Authorization'', ''Bearer t'')]"

definition toy_hello :: http_req where
  "toy_hello = \<lparr>rq_headers = (''X-Key-Exchange'', ''a|b'') # toy_headers, rq_remote = ''1.2.3.4:5'', rq_body = []\<rparr>"

definition toy_sealed :: http_req where
  "toy_sealed = \<lparr>rq_headers = (''X-Encrypted'', ''1'') # toy_headers, rq_remote = ''1.2.3.4:5'',
     rq_body = 1 # put_uint64 1 @ toy_seal [] [] [9]\<rparr>"

lemmas toy_defs = toy_lib_def toy_draw_def count_calls_def toy_headers_def toy_hello_def toy_sealed_def

lemma toy_tokens:
  "pullExtractToken toy_hello = ''t''" "pullExtractToken toy_sealed = ''t''"
  "silentAuthenticate toy_hello ''t''" "silentAuthenticate toy_sealed ''t''"
  "hdr toy_hello ''X-Key-Exchange'' = ''a|b''" "hdr toy_sealed ''X-Key-Exchange'' = []"
  "hdr toy_sealed ''X-Encrypted'' = ''1''" "rq_body toy_sealed \<noteq> []"
  by (simp_all add: pullExtractToken_def silentAuthenticate_def hdr_def toy_defs BearerPrefix_def
      AgentUserAgent_def trim_prefix_def)

lemma toy_now [simp]: "dr_now toy_draw = 0"
  by (simp add: toy_draw_def)

lemma toy_sealed_request: "sealed_request toy_sealed"
  by (simp add: sealed_request_def toy_tokens)

definition toy_agreed :: session where
  "toy_agreed = \<lparr>sendKey = replicate 32 7, recvKey = replicate 32 7, sendSeq = 0, sendNonce = replicate 12 7,
     recvNonce = replicate 12 7, recvWindow = newWindow\<rparr>"

lemma toy_exchange: "key_exchange toy_lib toy_draw pk ''a|b'' = Inr ([2], toy_agreed)"
  by (simp add: key_exchange_def split_bar_def toy_defs DeriveSession_def toy_kdf_def toy_agreed_def Let_def)

lemma toy_connected:
  "srv_run toy_lib ''t'' (Some pk) count_calls [Request toy_draw toy_hello] (srv_start 3600 0) =
   \<lparr>sv_cache = \<lparr>sc_entries = [(''t'', toy_agreed, 3600)], sc_ttl = 3600\<rparr>, sv_world = 1\<rparr>"
  by (simp add: listener_def SilentAuthMiddleware_def CryptoMiddleware_def toy_tokens toy_exchange
      run_next_def count_calls_def srv_start_def cache_Set_def cache_Delete_def Let_def)

lemma toy_delivery:
  "sv_world (snd (listener toy_lib ''t'' (Some pk) count_calls toy_draw toy_sealed
     \<lparr>sv_cache = \<lparr>sc_entries = [(''t'', toy_agreed, 3600)], sc_ttl = 3600\<rparr>, sv_world = 1\<rparr>)) = 2"
proof -
  have "Check newWindow 1 = (True, \<lparr>maxSeq = 1, bitmap = 1\<rparr>)"
    by (simp add: Check_def newWindow_def windowSize_def Let_def word_le_nat_alt)
  then have "\<exists>s1. Decrypt toy_unseal toy_agreed (rq_body toy_sealed) = (Inr [9], s1)"
    by (simp add: Decrypt_def Let_def toy_sealed_def toy_seal_def toy_unseal_def toy_agreed_def)
  then obtain s1 where d: "Decrypt toy_unseal toy_agreed (rq_body toy_sealed) = (Inr [9], s1)" by blast
  show ?thesis
    by (simp add: listener_def SilentAuthMiddleware_def CryptoMiddleware_def toy_tokens cache_Get_def
        run_next_def seal_response_def case_prod_beta Let_def toy_lib_def count_calls_def d)
qed

lemma sealed_request_runs_once_witness:
  "let st = srv_run toy_lib ''t'' (Some [0]) count_calls [Request toy_draw toy_hello] (srv_start 3600 0);
       st1 = snd (listener toy_lib ''t'' (Some [0]) count_calls toy_draw toy_sealed st);
       st2 = snd (listener toy_lib ''t'' (Some [0]) count_calls toy_draw toy_sealed st1)
   in sv_world st = 1 \<and> sv_world st1 = 2 \<and> sv_world st2 = 2"
proof -
  let ?st = "srv_run toy_lib ''t'' (Some [0]) count_calls [Request toy_draw toy_hello] (srv_start 3600 0)"
  have "sv_world ?st = 1" "sv_world (snd (listener toy_lib ''t'' (Some [0]) count_calls toy_draw toy_sealed ?st)) = 2"
    by (simp_all only: toy_connected toy_delivery srv.select_convs)
  moreover have "\<forall>d q. Request d q \<in> set [] \<longrightarrow> hdr q ''X-Key-Exchange'' = []" by simp
  note sealed_request_runs_once [OF toy_sealed_request this refl refl srv_run.simps(1) [symmetric] refl,
      of toy_lib "''t''" "[0]" count_calls toy_draw "[Request toy_draw toy_hello]" 3600 0 toy_draw]
  ultimately show ?thesis by (simp add: Let_def del: srv_run.simps)
qed

lemma listener_needs_token_witness:
  "fst (listener toy_lib ''t'' None count_calls toy_draw (toy_hello\<lparr>rq_headers := [(''X-Ws-Rpc'', ''1'')]\<rparr>)
     (srv_start 3600 0)) = None \<and>
   credential toy_sealed = ''t''"
proof -
  let ?q = "toy_hello\<lparr>rq_headers := [(''X-Ws-Rpc'', ''1'')]\<rparr>"
  obtain resp st where l: "listener toy_lib ''t'' None count_calls toy_draw ?q (srv_start 3600 0) = (resp, st)"
    by fastforce
  have "hdr ?q ''User-Agent'' \<noteq> AgentUserAgent" by (simp add: hdr_def AgentUserAgent_def)
  with listener_needs_token [OF _ l] l have 1: "fst (listener toy_lib ''t'' None count_calls toy_draw ?q (srv_start 3600 0)) = None"
    by simp
  obtain resp' st' where k: "listener toy_lib ''t'' None count_calls toy_draw toy_sealed (srv_start 3600 0) = (resp', st')"
    by fastforce
  have "resp' \<noteq> None"
    using k by (auto simp: listener_def SilentAuthMiddleware_def toy_tokens split: prod.splits)
  with listener_needs_token [OF _ k] have "credential toy_sealed = ''t''" by simp
  with 1 show ?thesis by blast
qed

end
