(* ===== verification/Limiter.thy ===== *)
theory Limiter
  imports Go_Prelude "HOL-Library.AList" "HOL-Library.Word"
begin

text \<open>
  Speed and connection limits (\<open>internal/limiter\<close>). Rates are 64-bit words (bytes per second, 0 means
  unlimited). Token buckets are shared: a connection keeps the bucket it got when it was opened, so
  buckets live in a store and \<open>BucketHub\<close> maps a user's email to an address of it. The \<open>sync.Map\<close>s
  are association lists, visited in list order (Go promises no order). The package variables
  (\<open>connCount\<close>, \<open>nodeConnCount\<close>, \<open>KickCounter\<close>, \<open>activeConnKickers\<close>) are fields of the one state.
\<close>

section \<open>Rates\<close>

definition calcBurst :: "64 word \<Rightarrow> 64 word" where
  "calcBurst bytesPerSec =
     (let b = bytesPerSec div 4
      in if b < 65536 then 65536 else if 262144 < b then 262144 else b)"

definition determineRate :: "64 word \<Rightarrow> 64 word \<Rightarrow> 64 word" where
  "determineRate nodeLimit userLimit =
     (if nodeLimit = 0 \<and> userLimit = 0 then 0
      else if nodeLimit = 0 then userLimit
      else if userLimit = 0 then nodeLimit
      else if nodeLimit < userLimit then nodeLimit
      else userLimit)"

text \<open>\<open>rate.Limit(math.MaxFloat64)\<close> with burst \<open>math.MaxInt\<close> is \<open>Unlimited\<close>.\<close>

datatype bucket = Limited (b_rate: "64 word") (b_burst: "64 word") | Unlimited

definition bucket_for :: "64 word \<Rightarrow> bucket" where
  "bucket_for limit = Limited limit (calcBurst limit)"

section \<open>State\<close>

record user_info =
  ui_uid :: int
  ui_email :: string
  ui_speed :: "64 word"
  ui_device :: int
  ui_group :: string
  ui_stat :: string

record inbound_info =
  ii_node :: "64 word"
  ii_users :: "(string \<times> user_info) list"
  ii_hub :: "(string \<times> nat) list"
  ii_online :: "(string \<times> string list) list"

record limiter =
  lm_inbounds :: "(string \<times> inbound_info) list"
  lm_auto :: "string list"
  lm_store :: "bucket list"
  lm_conn :: "(string \<times> int) list"
  lm_node :: "(string \<times> int) list"
  lm_kick :: "(string \<times> int) list"
  lm_active :: "(string \<times> nat list) list"
  lm_kicked :: "nat list"

record conn_lease =
  cl_quota :: string
  cl_stat :: string

definition count_at :: "(string \<times> int) list \<Rightarrow> string \<Rightarrow> int" where
  "count_at m k = (case map_of m k of None \<Rightarrow> 0 | Some n \<Rightarrow> n)"

definition add_count :: "string \<Rightarrow> int \<Rightarrow> (string \<times> int) list \<Rightarrow> (string \<times> int) list" where
  "add_count k d m = AList.update k (count_at m k + d) m"

definition user_key :: "string \<Rightarrow> user_info \<Rightarrow> string" where
  "user_key tag u = tag @ ''|'' @ ui_email u @ ''|'' @ itoa (ui_uid u)"

definition userConnGroup :: "user_info \<Rightarrow> string" where
  "userConnGroup u = (if ui_group u \<noteq> [] then ui_group u else ui_email u)"

section \<open>Connections\<close>

definition find_user :: "string \<Rightarrow> string \<Rightarrow> inbound_info \<Rightarrow> user_info option" where
  "find_user tag email info =
     map_option snd (find (\<lambda>(key, _). has_prefix key (tag @ ''|'' @ email @ ''|'')) (ii_users info))"

definition lookupUserInfo :: "limiter \<Rightarrow> string \<Rightarrow> string \<Rightarrow> user_info option" where
  "lookupUserInfo l tag email = Option.bind (map_of (lm_inbounds l) tag) (find_user tag email)"

definition no_lease :: conn_lease where
  "no_lease = \<lparr>cl_quota = [], cl_stat = []\<rparr>"

definition AcquireConn :: "limiter \<Rightarrow> string \<Rightarrow> string \<Rightarrow> (bool \<times> conn_lease) \<times> limiter" where
  "AcquireConn l tag email =
     (case lookupUserInfo l tag email of
        None \<Rightarrow> ((True, no_lease), l)
      | Some u \<Rightarrow>
          (let group = (if ui_group u = [] then email else ui_group u);
               connLimit = ui_device u;
               l1 = l\<lparr>lm_conn := add_count group 1 (lm_conn l)\<rparr>;
               n = count_at (lm_conn l1) group
           in if 0 < connLimit \<and> connLimit < n then
                ((False, no_lease),
                 l1\<lparr>lm_conn := add_count group (-1) (lm_conn l1), lm_kick := add_count email 1 (lm_kick l1)\<rparr>)
              else
                (let statGroup = (if ui_stat u = [] then group else ui_stat u)
                 in ((True, \<lparr>cl_quota = group, cl_stat = statGroup\<rparr>),
                     l1\<lparr>lm_node := add_count statGroup 1 (lm_node l1)\<rparr>))))"

text \<open>One decrement, then back to 0 if it went below.\<close>

definition drop_count :: "string \<Rightarrow> (string \<times> int) list \<Rightarrow> (string \<times> int) list" where
  "drop_count k m =
     (let m1 = add_count k (-1) m in if count_at m1 k < 0 then AList.update k 0 m1 else m1)"

definition ReleaseConn :: "limiter \<Rightarrow> conn_lease \<Rightarrow> limiter" where
  "ReleaseConn l lease =
     (if cl_quota lease = [] then l
      else
        (let l1 = l\<lparr>lm_conn := drop_count (cl_quota lease) (lm_conn l)\<rparr>
         in if cl_stat lease \<noteq> [] then l1\<lparr>lm_node := drop_count (cl_stat lease) (lm_node l1)\<rparr> else l1))"

definition ConnCountSnapshot :: "limiter \<Rightarrow> (string \<times> int) list" where
  "ConnCountSnapshot l = filter (\<lambda>(_, n). 0 < n) (lm_conn l)"

definition NodeConnCountSnapshot :: "limiter \<Rightarrow> (string \<times> int) list" where
  "NodeConnCountSnapshot l = filter (\<lambda>(_, n). 0 < n) (lm_node l)"

definition SnapshotKickCounter :: "limiter \<Rightarrow> (string \<times> int) list" where
  "SnapshotKickCounter l = lm_kick l"

text \<open>\<open>TrackConn\<close> registers a connection, here by a number of the caller's choice, and \<open>untrack\<close> is the
  cleanup it returns. \<open>kickConnGroup\<close> takes the group's connections and interrupts them.\<close>

definition TrackConn :: "limiter \<Rightarrow> string \<Rightarrow> nat \<Rightarrow> limiter" where
  "TrackConn l grp c =
     (if grp = [] then l
      else l\<lparr>lm_active := AList.update grp
             (c # (case map_of (lm_active l) grp of None \<Rightarrow> [] | Some cs \<Rightarrow> cs)) (lm_active l)\<rparr>)"

definition untrack :: "limiter \<Rightarrow> string \<Rightarrow> nat \<Rightarrow> limiter" where
  "untrack l grp c =
     (case map_of (lm_active l) grp of
        None \<Rightarrow> l
      | Some cs \<Rightarrow>
          (let cs' = removeAll c cs
           in if cs' = [] then l\<lparr>lm_active := AList.delete grp (lm_active l)\<rparr>
              else l\<lparr>lm_active := AList.update grp cs' (lm_active l)\<rparr>))"

definition kickConnGroup :: "limiter \<Rightarrow> string \<Rightarrow> limiter" where
  "kickConnGroup l grp =
     (case map_of (lm_active l) grp of
        None \<Rightarrow> l
      | Some cs \<Rightarrow> l\<lparr>lm_active := AList.delete grp (lm_active l), lm_kicked := lm_kicked l @ cs\<rparr>)"

section \<open>Configuration\<close>

definition user_table :: "string \<Rightarrow> user_info list \<Rightarrow> (string \<times> user_info) list \<Rightarrow> (string \<times> user_info) list" where
  "user_table tag users m = fold (\<lambda>u m. AList.update (user_key tag u) u m) users m"

definition put_inbound_info :: "string \<Rightarrow> inbound_info \<Rightarrow> limiter \<Rightarrow> limiter" where
  "put_inbound_info tag info l = l\<lparr>lm_inbounds := AList.update tag info (lm_inbounds l)\<rparr>"

definition AddInboundLimiter :: "limiter \<Rightarrow> string \<Rightarrow> 64 word \<Rightarrow> user_info list \<Rightarrow> limiter" where
  "AddInboundLimiter l tag nodeSpeedLimit users =
     put_inbound_info tag
       \<lparr>ii_node = nodeSpeedLimit, ii_users = user_table tag users [], ii_hub = [], ii_online = []\<rparr> l"

text \<open>Write a user's static rate into the bucket the user already has.\<close>

definition refresh_bucket :: "inbound_info \<Rightarrow> 64 word \<Rightarrow> user_info \<Rightarrow> bucket list \<Rightarrow> bucket list" where
  "refresh_bucket info nodeLimit u store =
     (let limit = determineRate nodeLimit (ui_speed u)
      in if limit = 0 then store
         else (case map_of (ii_hub info) (ui_email u) of
                 None \<Rightarrow> store
               | Some a \<Rightarrow> store[a := bucket_for limit]))"

definition SyncInboundLimiter :: "limiter \<Rightarrow> string \<Rightarrow> 64 word \<Rightarrow> user_info list \<Rightarrow> limiter" where
  "SyncInboundLimiter l tag nodeSpeedLimit users =
     (case map_of (lm_inbounds l) tag of
        None \<Rightarrow> AddInboundLimiter l tag nodeSpeedLimit users
      | Some prev \<Rightarrow>
          (let nextGroups = List.map userConnGroup users;
               removedGroups = remdups (filter (\<lambda>g. g \<notin> set nextGroups)
                 (List.map (userConnGroup \<circ> snd) (ii_users prev)));
               info = prev\<lparr>ii_node := nodeSpeedLimit, ii_users := user_table tag users []\<rparr>;
               l1 = fold (\<lambda>g l. kickConnGroup l g) removedGroups (put_inbound_info tag info l)
           in l1\<lparr>lm_store := fold (refresh_bucket info nodeSpeedLimit) users (lm_store l1)\<rparr>))"

definition UpdateInboundLimiter :: "limiter \<Rightarrow> string \<Rightarrow> user_info list \<Rightarrow> limiter" where
  "UpdateInboundLimiter l tag users =
     (case map_of (lm_inbounds l) tag of
        None \<Rightarrow> AddInboundLimiter l tag 0 users
      | Some info \<Rightarrow>
          (put_inbound_info tag (info\<lparr>ii_users := user_table tag users (ii_users info)\<rparr>) l)
            \<lparr>lm_store := fold (refresh_bucket info (ii_node info)) users (lm_store l)\<rparr>)"

definition DeleteInboundLimiter :: "limiter \<Rightarrow> string \<Rightarrow> limiter" where
  "DeleteInboundLimiter l tag = l\<lparr>lm_inbounds := AList.delete tag (lm_inbounds l)\<rparr>"

section \<open>Buckets\<close>

text \<open>\<open>LoadOrStore\<close> on \<open>BucketHub\<close>: the address of the user's bucket, a new one if there is none.\<close>

definition hub_load_or_store :: "string \<Rightarrow> bucket \<Rightarrow> inbound_info \<Rightarrow> bucket list \<Rightarrow> nat \<times> inbound_info \<times> bucket list" where
  "hub_load_or_store email b info store =
     (case map_of (ii_hub info) email of
        Some a \<Rightarrow> (a, info, store)
      | None \<Rightarrow> (length store, info\<lparr>ii_hub := (email, length store) # ii_hub info\<rparr>, store @ [b]))"

text \<open>The bucket of a new connection: its address, or \<open>None\<close> when the inbound has no limiter.\<close>

definition GetUserBucket :: "limiter \<Rightarrow> string \<Rightarrow> string \<Rightarrow> string \<Rightarrow> nat option \<times> limiter" where
  "GetUserBucket l tag email ip =
     (case map_of (lm_inbounds l) tag of
        None \<Rightarrow> (None, l)
      | Some info \<Rightarrow>
          (let userLimit = (case find_user tag email info of None \<Rightarrow> 0 | Some u \<Rightarrow> ui_speed u);
               ips = (case map_of (ii_online info) email of None \<Rightarrow> [] | Some s \<Rightarrow> s);
               info1 = info\<lparr>ii_online := AList.update email (if ip \<in> set ips then ips else ips @ [ip]) (ii_online info)\<rparr>;
               limit = determineRate (ii_node info) userLimit
           in (case hub_load_or_store email (if 0 < limit then bucket_for limit else Unlimited) info1 (lm_store l) of
                 (a, info2, store) \<Rightarrow> (Some a, (put_inbound_info tag info2 l)\<lparr>lm_store := store\<rparr>))))"

definition getUserStaticLimit :: "inbound_info \<Rightarrow> string \<Rightarrow> string \<Rightarrow> 64 word" where
  "getUserStaticLimit info tag email =
     determineRate (ii_node info) (case find_user tag email info of None \<Rightarrow> 0 | Some u \<Rightarrow> ui_speed u)"

definition SetUserSpeed :: "limiter \<Rightarrow> string \<Rightarrow> string \<Rightarrow> 64 word \<Rightarrow> limiter" where
  "SetUserSpeed l tag email speedLimit =
     (case map_of (lm_inbounds l) tag of
        None \<Rightarrow> l
      | Some info \<Rightarrow>
          if 0 < speedLimit then
            (let l1 = l\<lparr>lm_auto := List.insert email (lm_auto l)\<rparr>
             in (case map_of (ii_hub info) email of
                   Some a \<Rightarrow> l1\<lparr>lm_store := (lm_store l1)[a := bucket_for speedLimit]\<rparr>
                 | None \<Rightarrow>
                     (case hub_load_or_store email (bucket_for speedLimit) info (lm_store l1) of
                        (a, info2, store) \<Rightarrow> (put_inbound_info tag info2 l1)\<lparr>lm_store := store\<rparr>)))
          else
            (let l1 = l\<lparr>lm_auto := removeAll email (lm_auto l)\<rparr>;
                 origLimit = getUserStaticLimit info tag email
             in (case map_of (ii_hub info) email of
                   None \<Rightarrow> l1
                 | Some a \<Rightarrow>
                     l1\<lparr>lm_store := (lm_store l1)[a := (if 0 < origLimit then bucket_for origLimit else Unlimited)]\<rparr>)))"

text \<open>The users seen since the last call, and the clean-up of buckets nobody uses.\<close>

definition GetOnlineUsers :: "limiter \<Rightarrow> string \<Rightarrow> (string \<times> string list) list option \<times> limiter" where
  "GetOnlineUsers l tag =
     (case map_of (lm_inbounds l) tag of
        None \<Rightarrow> (None, l)
      | Some info \<Rightarrow>
          (let keep = (\<lambda>(email, _). map_of (ii_online info) email \<noteq> None \<or> email \<in> set (lm_auto l));
               info1 = info\<lparr>ii_hub := filter keep (ii_hub info), ii_online := []\<rparr>
           in (Some (filter (\<lambda>(_, ips). ips \<noteq> []) (ii_online info)), put_inbound_info tag info1 l)))"

fun lookup_bucket_in :: "string \<Rightarrow> (string \<times> inbound_info) list \<Rightarrow> limiter \<Rightarrow> nat option \<times> limiter" where
  "lookup_bucket_in email [] l = (None, l)"
| "lookup_bucket_in email ((tag, info) # rest) l =
     (let userLimit = (case find (\<lambda>(_, u). ui_email u = email) (ii_users info) of
                         None \<Rightarrow> 0 | Some (_, u) \<Rightarrow> ui_speed u);
          limit = determineRate (ii_node info) userLimit
      in if userLimit = 0 \<or> limit = 0 then lookup_bucket_in email rest l
         else (case hub_load_or_store email (bucket_for limit) info (lm_store l) of
                 (a, info2, store) \<Rightarrow> (Some a, (put_inbound_info tag info2 l)\<lparr>lm_store := store\<rparr>)))"

definition LookupBucketByEmail :: "limiter \<Rightarrow> string \<Rightarrow> nat option \<times> limiter" where
  "LookupBucketByEmail l email =
     (if email = [] then (None, l) else lookup_bucket_in email (lm_inbounds l) l)"

section \<open>Throttled writes\<close>

text \<open>\<open>waitN\<close> and \<open>WriteMultiBuffer\<close>: the amounts asked of the bucket, one after the other. With burst 0
  the Go loop does not end; \<open>bucket_burst_pos\<close> excludes it.\<close>

function wait_chunks :: "nat \<Rightarrow> nat \<Rightarrow> nat list" where
  "wait_chunks burst n =
     (if n = 0 \<or> burst = 0 then []
      else (let part = (if burst < n then burst else n) in part # wait_chunks burst (n - part)))"
  by pat_completeness auto

termination
  by (relation "measure snd") auto

text \<open>\<open>RateLimitedConn.Write\<close>: chunks of at most one burst go to the connection; \<open>wr\<close> says how many
  bytes each base write takes and whether it failed, in order. The answer: bytes written and error.\<close>

function write_chunks :: "nat \<Rightarrow> string \<Rightarrow> (nat \<times> bool) list \<Rightarrow> (nat \<times> bool) \<times> string" where
  "write_chunks burst p wr =
     (if p = [] \<or> burst = 0 then ((0, False), [])
      else
        (let chunk = min (length p) burst;
             (n0, failed) = (case wr of [] \<Rightarrow> (chunk, False) | r # _ \<Rightarrow> r);
             n = (if failed then min n0 chunk else chunk)
         in if failed then ((n, True), take n p)
            else (case write_chunks burst (drop n p) (drop 1 wr) of
                    ((m, e), out) \<Rightarrow> ((n + m, e), take n p @ out))))"
  by pat_completeness auto

termination
  by (relation "measure (\<lambda>(burst, p, wr). length p)") (auto simp: min_def)

declare wait_chunks.simps [simp del] write_chunks.simps [simp del]

section \<open>Rates and chunks\<close>

lemma determineRate_min:
  "determineRate a b = (if a = 0 then b else if b = 0 then a else min a b)"
  by (auto simp: determineRate_def min_def)

lemma calcBurst_bounds: "65536 \<le> calcBurst r \<and> calcBurst r \<le> 262144"
  by (auto simp: calcBurst_def Let_def not_less)

lemma wait_chunks_sound:
  "0 < burst \<Longrightarrow> sum_list (wait_chunks burst n) = n \<and> (\<forall>c\<in>set (wait_chunks burst n). 0 < c \<and> c \<le> burst)"
proof (induction burst n rule: wait_chunks.induct)
  case (1 burst n)
  show ?case
  proof (cases "n = 0")
    case True
    then show ?thesis by (simp add: wait_chunks.simps)
  next
    case False
    let ?c = "if burst < n then burst else n"
    have e: "wait_chunks burst n = ?c # wait_chunks burst (n - ?c)"
      using False 1(2) by (subst wait_chunks.simps) (simp add: Let_def)
    have "sum_list (wait_chunks burst (n - ?c)) = n - ?c \<and>
        (\<forall>c\<in>set (wait_chunks burst (n - ?c)). 0 < c \<and> c \<le> burst)"
      using 1(1) [of ?c] False 1(2) by simp
    then show ?thesis unfolding e using False 1(2) by auto
  qed
qed

lemma write_chunks_sound:
  "0 < burst \<Longrightarrow> snd (write_chunks burst p wr) = take (fst (fst (write_chunks burst p wr))) p \<and>
     (\<not> snd (fst (write_chunks burst p wr)) \<longrightarrow> fst (fst (write_chunks burst p wr)) = length p) \<and>
     fst (fst (write_chunks burst p wr)) \<le> length p"
proof (induction burst p wr rule: write_chunks.induct)
  case (1 burst p wr)
  show ?case
  proof (cases "p = []")
    case True
    then show ?thesis by (simp add: write_chunks.simps)
  next
    case False
    let ?c = "min (length p) burst"
    obtain n0 failed where r: "(case wr of [] \<Rightarrow> (?c, False) | r # _ \<Rightarrow> r) = (n0, failed)" by fastforce
    show ?thesis
    proof (cases failed)
      case True
      have "write_chunks burst p wr = ((min n0 ?c, True), take (min n0 ?c) p)"
        using r False 1(2) True by (subst write_chunks.simps) (simp add: Let_def)
      then show ?thesis by simp
    next
      case nf: False
      obtain m e out where w: "write_chunks burst (drop ?c p) (drop 1 wr) = ((m, e), out)"
        by (metis prod.collapse)
      have "\<not> (p = [] \<or> burst = 0)" using False 1(2) by simp
      note ih = 1(1) [OF this refl r [symmetric] refl _ nf]
      have "out = take m (drop ?c p) \<and> (\<not> e \<longrightarrow> m = length p - ?c) \<and> m \<le> length p - ?c"
        using ih [of ?c] 1(2) w nf by simp
      moreover have "write_chunks burst p wr = ((?c + m, e), take ?c p @ out)"
        using r False 1(2) nf w by (subst write_chunks.simps) (simp add: Let_def)
      ultimately show ?thesis by (auto simp: take_add)
    qed
  qed
qed

text \<open>Throttling loses nothing and never asks a bucket for more than it can give: the burst of every
  rate lies between 64 KiB and 256 KiB, the amounts waited for add up to the bytes to send and each is
  positive and at most the burst; a throttled write passes on exactly the prefix it reports, and
  everything when no write of the base connection fails.\<close>

theorem throttle_complete:
  "let burst = unat (calcBurst rate); chunks = wait_chunks burst n;
       ((m, failed), out) = write_chunks burst p wr
   in 65536 \<le> burst \<and> burst \<le> 262144 \<and> sum_list chunks = n \<and>
      (\<forall>c\<in>set chunks. 0 < c \<and> c \<le> burst) \<and>
      out = take m p \<and> m \<le> length p \<and> (\<not> failed \<longrightarrow> m = length p)"
proof -
  have b: "65536 \<le> unat (calcBurst rate)" "unat (calcBurst rate) \<le> 262144"
    using calcBurst_bounds [of rate] by (simp_all add: word_le_nat_alt)
  moreover from b have "0 < unat (calcBurst rate)" by simp
  note wait_chunks_sound [OF this, of n] write_chunks_sound [OF this, of p wr]
  moreover obtain m e out where "write_chunks (unat (calcBurst rate)) p wr = ((m, e), out)"
    by (metis prod.collapse)
  ultimately show ?thesis by (simp add: Let_def)
qed

lemma throttle_complete_witness:
  "snd (write_chunks (unat (calcBurst 0)) ''abc'' [(2, True)]) = ''ab''"
proof -
  have "fst (write_chunks (unat (calcBurst 0)) ''abc'' [(2, True)]) = (2, True)"
    by (simp add: write_chunks.simps calcBurst_def)
  then obtain out where o: "write_chunks (unat (calcBurst 0)) ''abc'' [(2, True)] = ((2, True), out)"
    by (metis prod.collapse)
  with throttle_complete [of 0 0 "''abc''" "[(2, True)]"] show ?thesis
    by (simp add: Let_def)
qed

section \<open>Connection quotas\<close>

lemma count_add [simp]: "count_at (add_count k d m) k' = count_at m k' + (if k' = k then d else 0)"
  by (simp add: count_at_def add_count_def update_conv split: option.splits)

lemma count_drop: "0 < count_at m k \<Longrightarrow>
  count_at (drop_count k m) k' = count_at m k' - (if k' = k then 1 else 0)"
  by (auto simp: drop_count_def Let_def)

datatype conn_event = Open string string | Close nat

fun conn_step :: "conn_event \<Rightarrow> limiter \<times> conn_lease list \<Rightarrow> limiter \<times> conn_lease list" where
  "conn_step (Open tag email) (l, leases) =
     (case AcquireConn l tag email of
        ((ok, lease), l') \<Rightarrow> (l', if ok then leases @ [lease] else leases))"
| "conn_step (Close i) (l, leases) =
     (if i < length leases then (ReleaseConn l (leases ! i), take i leases @ drop (i + 1) leases)
      else (l, leases))"

definition held :: "string \<Rightarrow> conn_lease list \<Rightarrow> int" where
  "held g leases = int (length (filter (\<lambda>x. cl_quota x = g) leases))"

definition held_node :: "string \<Rightarrow> conn_lease list \<Rightarrow> int" where
  "held_node g leases = int (length (filter (\<lambda>x. cl_quota x \<noteq> [] \<and> cl_stat x = g) leases))"

definition quota_group :: "string \<Rightarrow> user_info \<Rightarrow> string" where
  "quota_group email u = (if ui_group u = [] then email else ui_group u)"

definition conn_inv :: "limiter \<Rightarrow> limiter \<times> conn_lease list \<Rightarrow> bool" where
  "conn_inv l0 s \<longleftrightarrow>
     lm_inbounds (fst s) = lm_inbounds l0 \<and>
     (\<forall>g. g \<noteq> [] \<longrightarrow> count_at (lm_conn (fst s)) g = held g (snd s)) \<and>
     (\<forall>g. g \<noteq> [] \<longrightarrow> held_node g (snd s) \<le> count_at (lm_node (fst s)) g) \<and>
     (\<forall>x\<in>set (snd s). cl_quota x \<noteq> [] \<longrightarrow> cl_stat x \<noteq> [])"

lemma held_simps [simp]:
  "held g [] = 0" "held g (xs @ ys) = held g xs + held g ys"
  "held g (x # xs) = (if cl_quota x = g then 1 else 0) + held g xs"
  "held_node g [] = 0" "held_node g (xs @ ys) = held_node g xs + held_node g ys"
  "held_node g (x # xs) = (if cl_quota x \<noteq> [] \<and> cl_stat x = g then 1 else 0) + held_node g xs"
  by (simp_all add: held_def held_node_def)

lemma held_nonneg [simp]: "0 \<le> held g xs" "0 \<le> held_node g xs"
  by (simp_all add: held_def held_node_def)

lemma take_drop_held:
  assumes "i < length xs"
  shows "held g (take i xs @ drop (i + 1) xs) = held g xs - (if cl_quota (xs ! i) = g then 1 else 0)"
    and "held_node g (take i xs @ drop (i + 1) xs) =
           held_node g xs - (if cl_quota (xs ! i) \<noteq> [] \<and> cl_stat (xs ! i) = g then 1 else 0)"
    and "set (take i xs @ drop (i + 1) xs) \<subseteq> set xs"
proof -
  have "xs = take i xs @ (xs ! i) # drop (i + 1) xs" using assms by (simp add: id_take_nth_drop)
  then have "held g xs = held g (take i xs @ (xs ! i) # drop (i + 1) xs)"
    "held_node g xs = held_node g (take i xs @ (xs ! i) # drop (i + 1) xs)" by simp_all
  then show "held g (take i xs @ drop (i + 1) xs) = held g xs - (if cl_quota (xs ! i) = g then 1 else 0)"
    "held_node g (take i xs @ drop (i + 1) xs) =
       held_node g xs - (if cl_quota (xs ! i) \<noteq> [] \<and> cl_stat (xs ! i) = g then 1 else 0)"
    by simp_all
  show "set (take i xs @ drop (i + 1) xs) \<subseteq> set xs"
    using set_take_subset set_drop_subset by fastforce
qed

lemma AcquireConn_effect:
  assumes "AcquireConn l tag email = ((ok, lease), l')"
  shows "lm_inbounds l' = lm_inbounds l"
    and "g \<noteq> [] \<Longrightarrow> count_at (lm_conn l') g = count_at (lm_conn l) g + (if ok then held g [lease] else 0)"
    and "g \<noteq> [] \<Longrightarrow> count_at (lm_node l) g + (if ok then held_node g [lease] else 0) \<le> count_at (lm_node l') g"
    and "cl_quota lease \<noteq> [] \<Longrightarrow> cl_stat lease \<noteq> []"
    and "lookupUserInfo l tag email = Some u \<Longrightarrow>
           (ok \<longleftrightarrow> \<not> (0 < ui_device u \<and> ui_device u \<le> count_at (lm_conn l) (quota_group email u)))"
    and "g \<noteq> [] \<Longrightarrow> ok \<Longrightarrow> cl_quota lease = g \<Longrightarrow>
           \<exists>u. lookupUserInfo l tag email = Some u \<and> quota_group email u = g"
proof -
  have "lm_inbounds l' = lm_inbounds l \<and>
    (g \<noteq> [] \<longrightarrow> count_at (lm_conn l') g = count_at (lm_conn l) g + (if ok then held g [lease] else 0)) \<and>
    (g \<noteq> [] \<longrightarrow> count_at (lm_node l) g + (if ok then held_node g [lease] else 0) \<le> count_at (lm_node l') g) \<and>
    (cl_quota lease \<noteq> [] \<longrightarrow> cl_stat lease \<noteq> []) \<and>
    (\<forall>u. lookupUserInfo l tag email = Some u \<longrightarrow>
           (ok \<longleftrightarrow> \<not> (0 < ui_device u \<and> ui_device u \<le> count_at (lm_conn l) (quota_group email u)))) \<and>
    (g \<noteq> [] \<and> ok \<and> cl_quota lease = g \<longrightarrow>
           (\<exists>u. lookupUserInfo l tag email = Some u \<and> quota_group email u = g))"
  proof (cases "lookupUserInfo l tag email")
    case None
    with assms show ?thesis by (auto simp: AcquireConn_def no_lease_def)
  next
    case (Some u)
    show ?thesis
    proof (cases "0 < ui_device u \<and> ui_device u \<le> count_at (lm_conn l) (quota_group email u)")
      case True
      with assms Some have r: "ok = False" "lease = no_lease"
        "l' = l\<lparr>lm_conn := add_count (quota_group email u) (-1) (add_count (quota_group email u) 1 (lm_conn l)),
                lm_kick := add_count email 1 (lm_kick l)\<rparr>"
        by (auto simp: AcquireConn_def Let_def quota_group_def)
      from True Some show ?thesis by (simp add: r no_lease_def)
    next
      case False
      let ?st = "if ui_stat u = [] then quota_group email u else ui_stat u"
      from False assms Some have r: "ok = True" "lease = \<lparr>cl_quota = quota_group email u, cl_stat = ?st\<rparr>"
        "l' = l\<lparr>lm_conn := add_count (quota_group email u) 1 (lm_conn l), lm_node := add_count ?st 1 (lm_node l)\<rparr>"
        by (auto simp: AcquireConn_def Let_def quota_group_def)
      from False Some show ?thesis by (simp add: r)
    qed
  qed
  then show "lm_inbounds l' = lm_inbounds l"
    "g \<noteq> [] \<Longrightarrow> count_at (lm_conn l') g = count_at (lm_conn l) g + (if ok then held g [lease] else 0)"
    "g \<noteq> [] \<Longrightarrow> count_at (lm_node l) g + (if ok then held_node g [lease] else 0) \<le> count_at (lm_node l') g"
    "cl_quota lease \<noteq> [] \<Longrightarrow> cl_stat lease \<noteq> []"
    "lookupUserInfo l tag email = Some u \<Longrightarrow>
       (ok \<longleftrightarrow> \<not> (0 < ui_device u \<and> ui_device u \<le> count_at (lm_conn l) (quota_group email u)))"
    "g \<noteq> [] \<Longrightarrow> ok \<Longrightarrow> cl_quota lease = g \<Longrightarrow>
       \<exists>u. lookupUserInfo l tag email = Some u \<and> quota_group email u = g"
    by blast+
qed

lemma ReleaseConn_effect:
  assumes "cl_quota lease = [] \<or> 0 < count_at (lm_conn l) (cl_quota lease)"
    and "cl_quota lease = [] \<or> 0 < count_at (lm_node l) (cl_stat lease) \<and> cl_stat lease \<noteq> []"
  shows "lm_inbounds (ReleaseConn l lease) = lm_inbounds l"
    and "g \<noteq> [] \<Longrightarrow> count_at (lm_conn (ReleaseConn l lease)) g = count_at (lm_conn l) g - held g [lease]"
    and "g \<noteq> [] \<Longrightarrow> count_at (lm_node (ReleaseConn l lease)) g = count_at (lm_node l) g - held_node g [lease]"
  by (cases "cl_quota lease = []"; use assms in \<open>simp add: ReleaseConn_def Let_def count_drop\<close>)+

lemma held_member: "x \<in> set xs \<Longrightarrow> 0 < held (cl_quota x) xs"
  "x \<in> set xs \<Longrightarrow> cl_quota x \<noteq> [] \<Longrightarrow> 0 < held_node (cl_stat x) xs"
  by (auto simp: held_def held_node_def length_greater_0_conv filter_empty_conv)

lemma conn_inv_step:
  assumes "conn_inv l0 s"
  shows "conn_inv l0 (conn_step e s)"
proof (cases e)
  case (Open tag email)
  obtain l leases where s: "s = (l, leases)" by fastforce
  obtain ok lease l' where a: "AcquireConn l tag email = ((ok, lease), l')" by (metis prod.collapse)
  note f = AcquireConn_effect(1-4) [OF a]
  have conn: "count_at (lm_conn l') g = held g leases + (if ok then held g [lease] else 0)"
    if "g \<noteq> []" for g
    using f(2) [OF that] assms that by (simp add: conn_inv_def s)
  have node: "held_node g leases + (if ok then held_node g [lease] else 0) \<le> count_at (lm_node l') g"
    if g: "g \<noteq> []" for g
  proof -
    from assms g have "held_node g leases \<le> count_at (lm_node l) g" by (simp add: conn_inv_def s)
    with f(3) [OF g] show ?thesis by linarith
  qed
  have stat: "\<forall>x\<in>set (leases @ [lease]). cl_quota x \<noteq> [] \<longrightarrow> cl_stat x \<noteq> []"
    using assms f(4) by (simp add: conn_inv_def s)
  have inb: "lm_inbounds l' = lm_inbounds l0" using assms f(1) by (simp add: conn_inv_def s)
  have step: "conn_step e s = (l', leases @ (if ok then [lease] else []))" by (simp add: Open s a)
  show ?thesis
    unfolding conn_inv_def step fst_conv snd_conv held_simps(2,5)
    using conn node stat inb by (cases ok) (simp_all del: held_simps(3,6))
next
  case (Close i)
  obtain l leases where s: "s = (l, leases)" by fastforce
  show ?thesis
  proof (cases "i < length leases")
    case True
    let ?x = "leases ! i"
    have mem: "?x \<in> set leases" using True by simp
    have "cl_quota ?x \<noteq> [] \<Longrightarrow> 0 < count_at (lm_conn l) (cl_quota ?x)"
      using assms held_member(1) [OF mem] by (simp add: conn_inv_def s)
    moreover have "0 < count_at (lm_node l) (cl_stat ?x) \<and> cl_stat ?x \<noteq> []" if "cl_quota ?x \<noteq> []"
    proof -
      note q = that
      with assms mem have st: "cl_stat ?x \<noteq> []" by (simp add: conn_inv_def s)
      with assms have "held_node (cl_stat ?x) leases \<le> count_at (lm_node l) (cl_stat ?x)"
        by (simp add: conn_inv_def s)
      with held_member(2) [OF mem q] st show ?thesis by linarith
    qed
    ultimately have pre: "cl_quota ?x = [] \<or> 0 < count_at (lm_conn l) (cl_quota ?x)"
      "cl_quota ?x = [] \<or> 0 < count_at (lm_node l) (cl_stat ?x) \<and> cl_stat ?x \<noteq> []" by blast+
    note f = ReleaseConn_effect [OF pre]
    let ?r = "take i leases @ drop (i + 1) leases"
    have step: "conn_step e s = (ReleaseConn l ?x, ?r)" using True by (simp add: Close s)
    have "count_at (lm_conn (ReleaseConn l ?x)) g = held g ?r" if "g \<noteq> []" for g
      using that assms f(2) [OF that] take_drop_held(1) [OF True, of g]
      by (simp add: conn_inv_def s del: held_simps(2))
    moreover have "held_node g ?r \<le> count_at (lm_node (ReleaseConn l ?x)) g" if "g \<noteq> []" for g
      using that assms f(3) [OF that] take_drop_held(2) [OF True, of g]
      by (simp add: conn_inv_def s del: held_simps(5))
    moreover have "\<forall>x\<in>set ?r. cl_quota x \<noteq> [] \<longrightarrow> cl_stat x \<noteq> []"
      using assms take_drop_held(3) [OF True] unfolding conn_inv_def s snd_conv by blast
    ultimately show ?thesis
      using assms f(1) unfolding conn_inv_def step by (simp add: s)
  next
    case False
    with assms show ?thesis by (simp add: Close s)
  qed
qed

lemma conn_inv_fold: "conn_inv l0 s \<Longrightarrow> conn_inv l0 (fold conn_step es s)"
proof (induction es arbitrary: s)
  case (Cons e es)
  from Cons.IH [OF conn_inv_step [OF Cons.prems]] show ?case by simp
qed simp

lemma conn_bound_step:
  assumes "conn_inv l0 s" and "held g (snd s) \<le> N" and "g \<noteq> []"
    and "\<forall>tag email u. lookupUserInfo l0 tag email = Some u \<and> quota_group email u = g \<longrightarrow>
           0 < ui_device u \<and> ui_device u \<le> N"
  shows "held g (snd (conn_step e s)) \<le> N"
proof (cases e)
  case (Open tag email)
  obtain l leases where s: "s = (l, leases)" by fastforce
  obtain ok lease l' where a: "AcquireConn l tag email = ((ok, lease), l')" by (metis prod.collapse)
  have l0: "lookupUserInfo l = lookupUserInfo l0"
    using assms(1) by (simp add: conn_inv_def s lookupUserInfo_def fun_eq_iff)
  show ?thesis
  proof (cases "ok \<and> cl_quota lease = g")
    case True
    then obtain u where u: "lookupUserInfo l tag email = Some u" "quota_group email u = g"
      using AcquireConn_effect(6) [OF a assms(3)] by blast
    have "0 < ui_device u \<and> ui_device u \<le> N" using assms(4) u by (simp add: l0)
    with True AcquireConn_effect(5) [OF a u(1)] u(2)
    have "count_at (lm_conn l) g < N" by auto
    with assms(1,3) True show ?thesis by (simp add: Open s a conn_inv_def)
  next
    case False
    with assms(2) show ?thesis by (auto simp: Open s a)
  qed
next
  case (Close i)
  obtain l leases where s: "s = (l, leases)" by fastforce
  show ?thesis
    using assms(2) take_drop_held(1) [of i leases g] by (auto simp: Close s simp del: held_simps(2))
qed

text \<open>C12: Connection quotas are exact. However connections open and close, a group's counter is the
  number of leases it holds, so a slot is neither leaked nor freed twice; when all users of the group
  have a limit of at most N, it never exceeds N; and an open is refused exactly when its user's group
  is full, which leaves the counters as they were.\<close>

theorem connection_quota:
  assumes "fold conn_step events (l0, []) = (l, leases)" and "lm_conn l0 = []" and "lm_node l0 = []"
    and "g \<noteq> []" and "0 \<le> N"
    and "\<forall>tag email u. lookupUserInfo l0 tag email = Some u \<and> quota_group email u = g \<longrightarrow>
           0 < ui_device u \<and> ui_device u \<le> N"
  shows "count_at (lm_conn l) g = held g leases \<and> count_at (lm_conn l) g \<le> N \<and>
         (\<forall>tag email u. lookupUserInfo l tag email = Some u \<and> quota_group email u = g \<longrightarrow>
            (fst (fst (AcquireConn l tag email)) \<longleftrightarrow> held g leases < ui_device u) \<and>
            (held g leases \<ge> ui_device u \<longrightarrow>
               count_at (lm_conn (snd (AcquireConn l tag email))) g = held g leases))"
proof -
  have start: "conn_inv l0 (l0, [])" using assms(2,3) by (simp add: conn_inv_def count_at_def)
  from conn_inv_fold [OF this, of events] assms(1) have inv: "conn_inv l0 (l, leases)" by simp
  have "conn_inv l0 s \<Longrightarrow> held g (snd s) \<le> N \<Longrightarrow> held g (snd (fold conn_step events s)) \<le> N" for s
  proof (induction events arbitrary: s)
    case (Cons e es)
    from Cons.IH [OF conn_inv_step [OF Cons.prems(1)] conn_bound_step [OF Cons.prems assms(4,6)]]
    show ?case by simp
  qed simp
  from this [OF start] assms(1,5) have bound: "held g leases \<le> N" by simp
  have l0: "lookupUserInfo l = lookupUserInfo l0"
    using inv by (simp add: conn_inv_def lookupUserInfo_def fun_eq_iff)
  have c: "count_at (lm_conn l) g = held g leases" using inv assms(4) by (simp add: conn_inv_def)
  have "(fst (fst (AcquireConn l tag email)) \<longleftrightarrow> held g leases < ui_device u) \<and>
      (held g leases \<ge> ui_device u \<longrightarrow> count_at (lm_conn (snd (AcquireConn l tag email))) g = held g leases)"
    if u: "lookupUserInfo l tag email = Some u" "quota_group email u = g" for tag email u
  proof -
    obtain ok lease l' where a: "AcquireConn l tag email = ((ok, lease), l')" by (metis prod.collapse)
    from AcquireConn_effect(5) [OF a u(1)] AcquireConn_effect(2) [OF a assms(4)] assms(6) u c
    show ?thesis by (auto simp: a l0)
  qed
  then show ?thesis unfolding c using bound by blast
qed

definition demo_user :: user_info where
  "demo_user = \<lparr>ui_uid = 7, ui_email = ''u'', ui_speed = 100000, ui_device = 1, ui_group = ''g'', ui_stat = []\<rparr>"

definition demo_limiter :: limiter where
  "demo_limiter = AddInboundLimiter
     \<lparr>lm_inbounds = [], lm_auto = [], lm_store = [], lm_conn = [], lm_node = [], lm_kick = [],
      lm_active = [], lm_kicked = []\<rparr> ''in'' 0 [demo_user]"

lemma connection_quota_witness:
  "let (l, leases) = fold conn_step [Open ''in'' ''u'', Open ''in'' ''u'', Close 0, Open ''in'' ''u''] (demo_limiter, [])
   in count_at (lm_conn l) ''g'' = held ''g'' leases \<and> count_at (lm_conn l) ''g'' \<le> 1"
proof -
  let ?evs = "[Open ''in'' ''u'', Open ''in'' ''u'', Close 0, Open ''in'' ''u'']"
  obtain l leases where r: "fold conn_step ?evs (demo_limiter, []) = (l, leases)" by fastforce
  have z: "lm_conn demo_limiter = []" "lm_node demo_limiter = []"
    by (simp_all add: demo_limiter_def AddInboundLimiter_def put_inbound_info_def)
  have u: "\<forall>tag email u. lookupUserInfo demo_limiter tag email = Some u \<and> quota_group email u = ''g'' \<longrightarrow>
      0 < ui_device u \<and> ui_device u \<le> 1"
    by (auto simp: demo_limiter_def AddInboundLimiter_def put_inbound_info_def lookupUserInfo_def
        find_user_def user_table_def demo_user_def split: if_splits)
  have g: "''g'' \<noteq> ([] :: string)" "(0 :: int) \<le> 1" by simp_all
  have "count_at (lm_conn l) ''g'' = held ''g'' leases \<and> count_at (lm_conn l) ''g'' \<le> 1"
    using connection_quota [OF r z g u] by blast
  then show ?thesis unfolding r Let_def prod.case .
qed

section \<open>Buckets of open connections\<close>

definition hub_addr :: "limiter \<Rightarrow> string \<Rightarrow> string \<Rightarrow> nat option" where
  "hub_addr l tag email = Option.bind (map_of (lm_inbounds l) tag) (\<lambda>info. map_of (ii_hub info) email)"

text \<open>Every bucket in use is in the store, and no two users share one.\<close>

definition hubs_ok :: "limiter \<Rightarrow> bool" where
  "hubs_ok l \<longleftrightarrow>
     (\<forall>t e a. hub_addr l t e = Some a \<longrightarrow> a < length (lm_store l)) \<and>
     (\<forall>t e t' e' a. hub_addr l t e = Some a \<and> hub_addr l t' e' = Some a \<longrightarrow> t = t' \<and> e = e')"

datatype lim_op =
    OpSync string "64 word" "user_info list"
  | OpUpdate string "user_info list"
  | OpSpeed string string "64 word"
  | OpGet string string string
  | OpOnline string
  | OpDelete string

fun lim_step :: "lim_op \<Rightarrow> limiter \<Rightarrow> limiter" where
  "lim_step (OpSync tag node users) l = SyncInboundLimiter l tag node users"
| "lim_step (OpUpdate tag users) l = UpdateInboundLimiter l tag users"
| "lim_step (OpSpeed tag email v) l = SetUserSpeed l tag email v"
| "lim_step (OpGet tag email ip) l = snd (GetUserBucket l tag email ip)"
| "lim_step (OpOnline tag) l = snd (GetOnlineUsers l tag)"
| "lim_step (OpDelete tag) l = DeleteInboundLimiter l tag"

text \<open>Only the clean-up of idle users and the removal of an inbound forget buckets.\<close>

fun keeps_buckets :: "lim_op \<Rightarrow> bool" where
  "keeps_buckets (OpOnline _) = False"
| "keeps_buckets (OpDelete _) = False"
| "keeps_buckets _ = True"

definition new_limiter :: limiter where
  "new_limiter = \<lparr>lm_inbounds = [], lm_auto = [], lm_store = [], lm_conn = [], lm_node = [], lm_kick = [],
     lm_active = [], lm_kicked = []\<rparr>"

lemma put_lookup [simp]:
  "map_of (lm_inbounds (put_inbound_info tag info l)) t = (if t = tag then Some info else map_of (lm_inbounds l) t)"
  "lm_store (put_inbound_info tag info l) = lm_store l" "lm_auto (put_inbound_info tag info l) = lm_auto l"
  "lm_active (put_inbound_info tag info l) = lm_active l" "lm_kicked (put_inbound_info tag info l) = lm_kicked l"
  by (simp_all add: put_inbound_info_def update_conv)

lemma hub_put [simp]:
  "hub_addr (put_inbound_info tag info l) t e = (if t = tag then map_of (ii_hub info) e else hub_addr l t e)"
  "hub_addr (l\<lparr>lm_store := st\<rparr>) t e = hub_addr l t e"
  "hub_addr (l\<lparr>lm_auto := au\<rparr>) t e = hub_addr l t e"
  by (simp_all add: hub_addr_def)

lemma kick_fold [simp]:
  "lm_inbounds (fold (\<lambda>g l. kickConnGroup l g) gs l) = lm_inbounds l"
  "lm_store (fold (\<lambda>g l. kickConnGroup l g) gs l) = lm_store l"
  "lm_auto (fold (\<lambda>g l. kickConnGroup l g) gs l) = lm_auto l"
  by (induction gs arbitrary: l) (simp_all add: kickConnGroup_def split: option.splits)

lemma hub_kick [simp]: "hub_addr (fold (\<lambda>g l. kickConnGroup l g) gs l) t e = hub_addr l t e"
  by (simp add: hub_addr_def)

lemma length_refresh [simp]:
  "length (refresh_bucket info node u store) = length store"
  "length (fold (refresh_bucket info node) users store) = length store"
proof -
  show 1: "length (refresh_bucket info node u store) = length store" for u store
    by (simp add: refresh_bucket_def Let_def split: option.splits)
  show "length (fold (refresh_bucket info node) users store) = length store"
    by (induction users arbitrary: store) (simp_all add: 1)
qed

lemma hub_sync [simp]:
  "hub_addr (SyncInboundLimiter l tag node users) t e = hub_addr l t e"
  "length (lm_store (SyncInboundLimiter l tag node users)) = length (lm_store l)"
  "hub_addr (UpdateInboundLimiter l tag users) t e = hub_addr l t e"
  "length (lm_store (UpdateInboundLimiter l tag users)) = length (lm_store l)"
proof -
  have no: "map_of (lm_inbounds l) tag = None \<Longrightarrow> hub_addr l tag e = None" for e by (simp add: hub_addr_def)
  have yes: "map_of (lm_inbounds l) tag = Some i \<Longrightarrow> hub_addr l tag e = map_of (ii_hub i) e" for i e
    by (simp add: hub_addr_def)
  show "hub_addr (SyncInboundLimiter l tag node users) t e = hub_addr l t e"
    "hub_addr (UpdateInboundLimiter l tag users) t e = hub_addr l t e"
    using no yes
    by (auto simp: SyncInboundLimiter_def UpdateInboundLimiter_def AddInboundLimiter_def Let_def
        split: option.splits)
  show "length (lm_store (SyncInboundLimiter l tag node users)) = length (lm_store l)"
    "length (lm_store (UpdateInboundLimiter l tag users)) = length (lm_store l)"
    by (simp_all add: SyncInboundLimiter_def UpdateInboundLimiter_def AddInboundLimiter_def Let_def
        split: option.splits)
qed

text \<open>An operation either keeps the addresses, or gives one user without a bucket the next address, or
  forgets some.\<close>

definition grows_hub :: "limiter \<Rightarrow> limiter \<Rightarrow> bool" where
  "grows_hub l l' \<longleftrightarrow>
     (\<forall>t e. hub_addr l' t e = hub_addr l t e) \<and> length (lm_store l') = length (lm_store l) \<or>
     (\<exists>tag email. hub_addr l tag email = None \<and> length (lm_store l') = length (lm_store l) + 1 \<and>
        (\<forall>t e. hub_addr l' t e = (if t = tag \<and> e = email then Some (length (lm_store l)) else hub_addr l t e)))"

lemma grows_ok:
  assumes "grows_hub l l'" and ok: "hubs_ok l"
  shows "hubs_ok l'"
proof -
  let ?n = "length (lm_store l)"
  have b: "a < ?n" if "hub_addr l t e = Some a" for t e a using ok that by (simp add: hubs_ok_def)
  have new: "hub_addr l t e \<noteq> Some ?n" for t e using b by blast
  have inj: "t = t' \<and> e = e'" if "hub_addr l t e = Some a" "hub_addr l t' e' = Some a" for t e t' e' a
    using ok that unfolding hubs_ok_def by blast
  from assms(1) consider
    "\<forall>t e. hub_addr l' t e = hub_addr l t e" "length (lm_store l') = ?n"
  | tag email where "length (lm_store l') = ?n + 1"
    "\<forall>t e. hub_addr l' t e = (if t = tag \<and> e = email then Some ?n else hub_addr l t e)"
    unfolding grows_hub_def by blast
  then show ?thesis
  proof cases
    case 1
    with ok show ?thesis by (simp add: hubs_ok_def)
  next
    case 2
    show ?thesis
      unfolding hubs_ok_def using new inj
      by (auto simp: 2(1) 2(2) [rule_format] less_Suc_eq split: if_splits dest: b)
  qed
qed

lemma grows_keeps: "grows_hub l l' \<Longrightarrow> hub_addr l t e = Some a \<Longrightarrow> hub_addr l' t e = Some a"
  by (auto simp: grows_hub_def)

lemma grows_speed: "grows_hub l (SetUserSpeed l tag email v)"
  unfolding grows_hub_def
  by (auto simp: SetUserSpeed_def hub_load_or_store_def hub_addr_def Let_def split: option.splits)

lemma grows_get: "grows_hub l (snd (GetUserBucket l tag email ip))"
  unfolding grows_hub_def
  by (auto simp: GetUserBucket_def hub_load_or_store_def hub_addr_def Let_def split: option.splits)

lemma step_keeps:
  assumes "keeps_buckets op"
  shows "grows_hub l (lim_step op l)"
  using assms by (cases op) (simp_all add: grows_speed grows_get, simp_all add: grows_hub_def)

lemma step_ok: "hubs_ok l \<Longrightarrow> hubs_ok (lim_step op l)"
proof (cases "keeps_buckets op")
  case True
  then show "hubs_ok l \<Longrightarrow> hubs_ok (lim_step op l)" by (rule grows_ok [OF step_keeps])
next
  case False
  have sub: "hubs_ok l'" if "hubs_ok l" "\<And>t e a. hub_addr l' t e = Some a \<Longrightarrow> hub_addr l t e = Some a"
    "lm_store l' = lm_store l" for l'
    using that unfolding hubs_ok_def by metis
  have filt: "map_of (filter (\<lambda>(k, _). P k) xs) e = (if P e then map_of xs e else None)"
    for P and xs :: "(string \<times> nat) list" and e
    by (induction xs) auto
  assume ok: "hubs_ok l"
  show "hubs_ok (lim_step op l)"
  proof (cases op)
    case (OpOnline tag)
    show ?thesis
      unfolding OpOnline lim_step.simps
      by (rule sub [OF ok]) (auto simp: GetOnlineUsers_def hub_addr_def filt Let_def split: option.splits if_splits)
  next
    case (OpDelete tag)
    show ?thesis
      unfolding OpDelete lim_step.simps
      by (rule sub [OF ok]) (auto simp: DeleteInboundLimiter_def hub_addr_def delete_conv split: if_splits)
  qed (use False in simp_all)
qed

lemma run_ok: "hubs_ok (fold lim_step ops new_limiter)"
proof -
  have "hubs_ok l \<Longrightarrow> hubs_ok (fold lim_step ops l)" for l
  proof (induction ops arbitrary: l)
    case (Cons op ops)
    from Cons.IH [OF step_ok [OF Cons.prems]] show ?case by simp
  qed simp
  moreover have "hubs_ok new_limiter" by (simp add: hubs_ok_def hub_addr_def new_limiter_def)
  ultimately show ?thesis by blast
qed

lemma run_keeps:
  "\<forall>op\<in>set ops. keeps_buckets op \<Longrightarrow> hubs_ok l \<Longrightarrow> hub_addr l tag email = Some a \<Longrightarrow>
   hub_addr (fold lim_step ops l) tag email = Some a \<and> hubs_ok (fold lim_step ops l)"
proof (induction ops arbitrary: l)
  case (Cons op ops)
  then have "keeps_buckets op" by simp
  from grows_keeps [OF step_keeps [OF this, of l] Cons.prems(3)] Cons.IH [OF _ step_ok [OF Cons.prems(2)]]
  show ?case using Cons.prems(1) by simp
qed simp

lemma get_bucket_addr:
  "GetUserBucket l tag email ip = (r, l') \<Longrightarrow> r = hub_addr l' tag email"
  "hub_addr l tag email = Some a \<Longrightarrow> fst (GetUserBucket l tag email ip) = Some a"
  by (auto simp: GetUserBucket_def hub_load_or_store_def hub_addr_def Let_def bind_eq_Some_conv split: option.splits)

lemma refresh_other:
  "(\<And>u. u \<in> set users \<Longrightarrow> map_of (ii_hub info) (ui_email u) \<noteq> Some a) \<Longrightarrow>
   fold (refresh_bucket info node) users store ! a = store ! a"
proof (induction users arbitrary: store)
  case (Cons u us)
  then have "map_of (ii_hub info) (ui_email u) \<noteq> Some a" by simp
  then have "refresh_bucket info node u store ! a = store ! a"
    by (cases "map_of (ii_hub info) (ui_email u)") (simp_all add: refresh_bucket_def Let_def)
  with Cons show ?case by simp
qed simp

lemma refresh_hits:
  assumes "u \<in> set users" and "distinct (List.map ui_email users)"
    and "map_of (ii_hub info) (ui_email u) = Some a" and "a < length store"
    and inj: "\<And>e e'. map_of (ii_hub info) e = Some a \<Longrightarrow> map_of (ii_hub info) e' = Some a \<Longrightarrow> e = e'"
    and "determineRate node (ui_speed u) \<noteq> 0"
  shows "fold (refresh_bucket info node) users store ! a = bucket_for (determineRate node (ui_speed u))"
proof -
  from assms(1) obtain us vs where s: "users = us @ u # vs" by (meson split_list)
  have "map_of (ii_hub info) (ui_email x) \<noteq> Some a" if "x \<in> set vs" for x
  proof -
    have "ui_email x \<in> ui_email ` set vs" using that by simp
    moreover have "ui_email u \<notin> ui_email ` set vs" using assms(2) s by simp
    ultimately show ?thesis using inj [of "ui_email x" "ui_email u"] assms(3) by metis
  qed
  then have "fold (refresh_bucket info node) vs st ! a = st ! a" for st by (rule refresh_other)
  then show ?thesis
    unfolding s using assms(3,4,6) by (simp add: refresh_bucket_def [of info node u] Let_def)
qed

text \<open>A changed limit reaches connections that are already open. The bucket a connection got stays the
  user's bucket through every later call but the clean-up of idle users and the removal of the inbound,
  so new connections of the user share it; a temporary limit and a new static limit are written into
  that very bucket; and a limit for another user leaves it alone.\<close>

theorem limits_reach_open_connections:
  assumes "GetUserBucket (fold lim_step before new_limiter) tag email ip = (Some a, l1)"
    and "\<forall>op\<in>set after. keeps_buckets op" and "l2 = fold lim_step after l1"
  shows "hub_addr l2 tag email = Some a \<and> fst (GetUserBucket l2 tag email ip') = Some a \<and>
         (0 < v \<longrightarrow> lm_store (SetUserSpeed l2 tag email v) ! a = bucket_for v) \<and>
         (\<forall>e'. e' \<noteq> email \<longrightarrow> lm_store (SetUserSpeed l2 tag e' v) ! a = lm_store l2 ! a) \<and>
         (\<forall>node users u. u \<in> set users \<and> distinct (List.map ui_email users) \<and> ui_email u = email \<and>
            determineRate node (ui_speed u) \<noteq> 0 \<longrightarrow>
            lm_store (SyncInboundLimiter l2 tag node users) ! a = bucket_for (determineRate node (ui_speed u)))"
proof -
  have ok1: "hubs_ok l1"
    using grows_ok [OF grows_get [of _ tag email ip] run_ok [of before]] assms(1) by simp
  have "hub_addr l1 tag email = Some a" using get_bucket_addr(1) [OF assms(1)] by simp
  from run_keeps [OF assms(2) ok1 this] assms(3)
  have h: "hub_addr l2 tag email = Some a" and ok: "hubs_ok l2" by simp_all
  from h obtain info where info: "map_of (lm_inbounds l2) tag = Some info" "map_of (ii_hub info) email = Some a"
    by (auto simp: hub_addr_def split: bind_splits)
  have len: "a < length (lm_store l2)" using ok h by (simp add: hubs_ok_def)
  have inj: "e = e'" if "map_of (ii_hub info) e = Some a" "map_of (ii_hub info) e' = Some a" for e e'
  proof -
    have "hub_addr l2 tag e = Some a" "hub_addr l2 tag e' = Some a" using that info(1) by (simp_all add: hub_addr_def)
    with ok show ?thesis unfolding hubs_ok_def by blast
  qed
  have 1: "0 < v \<longrightarrow> lm_store (SetUserSpeed l2 tag email v) ! a = bucket_for v"
    using info len by (simp add: SetUserSpeed_def Let_def)
  have 2: "lm_store (SetUserSpeed l2 tag e' v) ! a = lm_store l2 ! a" if "e' \<noteq> email" for e'
  proof (cases "map_of (ii_hub info) e'")
    case None
    with info len show ?thesis
      by (simp add: SetUserSpeed_def hub_load_or_store_def Let_def nth_append)
  next
    case (Some b)
    with inj [of e' email] that info have "b \<noteq> a" by auto
    with Some info show ?thesis by (simp add: SetUserSpeed_def Let_def)
  qed
  have 3: "lm_store (SyncInboundLimiter l2 tag node users) ! a = bucket_for (determineRate node (ui_speed u))"
    if "u \<in> set users" "distinct (List.map ui_email users)" "ui_email u = email"
      "determineRate node (ui_speed u) \<noteq> 0" for node users u
  proof -
    let ?info = "info\<lparr>ii_node := node, ii_users := user_table tag users []\<rparr>"
    have "fold (refresh_bucket ?info node) users (lm_store l2) ! a = bucket_for (determineRate node (ui_speed u))"
      by (rule refresh_hits) (use that info len inj in auto)
    with info show ?thesis by (simp add: SyncInboundLimiter_def Let_def)
  qed
  from h get_bucket_addr(2) [OF h] 1 2 3 show ?thesis by blast
qed

lemma limits_reach_open_connections_witness:
  "let l = snd (GetUserBucket (fold lim_step [OpSync ''in'' 0 [demo_user]] new_limiter) ''in'' ''u'' ''1.2.3.4'')
   in fst (GetUserBucket (fold lim_step [OpSync ''in'' 0 [demo_user]] new_limiter) ''in'' ''u'' ''1.2.3.4'') = Some 0 \<and>
      lm_store l ! 0 = bucket_for 100000 \<and> lm_store (SetUserSpeed l ''in'' ''u'' 5000) ! 0 = bucket_for 5000"
proof -
  let ?g = "GetUserBucket (fold lim_step [OpSync ''in'' 0 [demo_user]] new_limiter) ''in'' ''u'' ''1.2.3.4''"
  have g: "fst ?g = Some 0 \<and> lm_store (snd ?g) ! 0 = bucket_for 100000"
    by (simp add: GetUserBucket_def SyncInboundLimiter_def AddInboundLimiter_def put_inbound_info_def
        new_limiter_def user_table_def find_user_def user_key_def demo_user_def hub_load_or_store_def
        determineRate_def Let_def)
  then have e: "?g = (Some 0, snd ?g)" by (metis prod.collapse)
  have "lm_store (SetUserSpeed (snd ?g) ''in'' ''u'' 5000) ! 0 = bucket_for 5000"
    using limits_reach_open_connections [OF e, of "[]" "snd ?g" "[]" 5000] by simp
  with g show ?thesis by (simp add: Let_def)
qed

text \<open>A temporary limit does not survive a new delivery of the configuration: the static rate is written
  over it while the user is still marked as limited.\<close>

lemma sync_cancels_temporary_limit:
  "let l = snd (GetUserBucket (fold lim_step [OpSync ''in'' 0 [demo_user]] new_limiter) ''in'' ''u'' ''1.2.3.4'');
       slow = SetUserSpeed l ''in'' ''u'' 5000; synced = SyncInboundLimiter slow ''in'' 0 [demo_user]
   in lm_store slow ! 0 = bucket_for 5000 \<and> lm_store synced ! 0 = bucket_for 100000 \<and>
      ''u'' \<in> set (lm_auto synced)"
  by (simp add: GetUserBucket_def SyncInboundLimiter_def AddInboundLimiter_def put_inbound_info_def
      new_limiter_def user_table_def find_user_def user_key_def demo_user_def hub_load_or_store_def
      determineRate_def Let_def SetUserSpeed_def refresh_bucket_def userConnGroup_def)

section \<open>Cutting off removed groups\<close>

lemma kickConnGroup_effect:
  "lm_active (kickConnGroup l g) = AList.delete g (lm_active l)"
  "lm_kicked (kickConnGroup l g) = lm_kicked l @ (case map_of (lm_active l) g of None \<Rightarrow> [] | Some cs \<Rightarrow> cs)"
proof -
  show "lm_active (kickConnGroup l g) = AList.delete g (lm_active l)"
  proof (cases "map_of (lm_active l) g")
    case None
    then have "g \<notin> fst ` set (lm_active l)" by (simp add: map_of_eq_None_iff)
    with None show ?thesis by (simp add: kickConnGroup_def delete_id)
  qed (simp add: kickConnGroup_def)
  show "lm_kicked (kickConnGroup l g) = lm_kicked l @ (case map_of (lm_active l) g of None \<Rightarrow> [] | Some cs \<Rightarrow> cs)"
    by (cases "map_of (lm_active l) g") (simp_all add: kickConnGroup_def)
qed

lemma kick_fold_active:
  "map_of (lm_active (fold (\<lambda>g l. kickConnGroup l g) gs l)) h = (if h \<in> set gs then None else map_of (lm_active l) h)"
  by (induction gs arbitrary: l) (simp_all add: kickConnGroup_effect delete_conv)

lemma kick_fold_kicked:
  "distinct gs \<Longrightarrow> set (lm_kicked (fold (\<lambda>g l. kickConnGroup l g) gs l)) =
     set (lm_kicked l) \<union> {c. \<exists>g\<in>set gs. \<exists>cs. map_of (lm_active l) g = Some cs \<and> c \<in> set cs}"
proof (induction gs arbitrary: l)
  case (Cons g gs)
  then have "\<And>h. h \<in> set gs \<Longrightarrow> h \<noteq> g" by auto
  with Cons show ?case
    by (auto simp: kickConnGroup_effect delete_conv split: option.splits)
qed simp

text \<open>A delivered configuration cuts off exactly the groups it no longer names: every tracked
  connection of such a group is interrupted and forgotten, the connections of every other group go on,
  and the new user table is the delivered one.\<close>

theorem sync_cuts_removed_groups:
  assumes "map_of (lm_inbounds l) tag = Some prev"
  shows "let l' = SyncInboundLimiter l tag node users;
             gone = {g. (\<exists>x\<in>set (ii_users prev). userConnGroup (snd x) = g) \<and>
                        (\<forall>u\<in>set users. userConnGroup u \<noteq> g)}
         in set (lm_kicked l') = set (lm_kicked l) \<union>
              {c. \<exists>g\<in>gone. \<exists>cs. map_of (lm_active l) g = Some cs \<and> c \<in> set cs} \<and>
            (\<forall>g. map_of (lm_active l') g = (if g \<in> gone then None else map_of (lm_active l) g)) \<and>
            map_option ii_users (map_of (lm_inbounds l') tag) = Some (user_table tag users []) \<and>
            (\<forall>t. t \<noteq> tag \<longrightarrow> map_of (lm_inbounds l') t = map_of (lm_inbounds l) t)"
proof -
  let ?gs = "remdups (filter (\<lambda>g. g \<notin> set (List.map userConnGroup users))
    (List.map (userConnGroup \<circ> snd) (ii_users prev)))"
  let ?gone = "{g. (\<exists>x\<in>set (ii_users prev). userConnGroup (snd x) = g) \<and> (\<forall>u\<in>set users. userConnGroup u \<noteq> g)}"
  have gs: "set ?gs = ?gone" by (auto simp: image_iff)
  let ?info = "prev\<lparr>ii_node := node, ii_users := user_table tag users []\<rparr>"
  let ?l0 = "put_inbound_info tag ?info l"
  let ?l1 = "fold (\<lambda>g l. kickConnGroup l g) ?gs ?l0"
  have e: "SyncInboundLimiter l tag node users =
      ?l1\<lparr>lm_store := fold (refresh_bucket ?info node) users (lm_store ?l1)\<rparr>"
    using assms by (simp add: SyncInboundLimiter_def Let_def)
  show ?thesis
    unfolding e Let_def gs [symmetric]
    using kick_fold_kicked [of ?gs ?l0] kick_fold_active [of ?gs ?l0] by simp
qed

lemma sync_cuts_removed_groups_witness:
  "let l = TrackConn demo_limiter ''g'' 5; l' = SyncInboundLimiter l ''in'' 0 []
   in 5 \<in> set (lm_kicked l') \<and> map_of (lm_active l') ''g'' = None"
proof -
  let ?l = "TrackConn demo_limiter ''g'' 5"
  have a: "map_of (lm_active ?l) ''g'' = Some [5]"
    by (simp add: TrackConn_def demo_limiter_def AddInboundLimiter_def put_inbound_info_def)
  let ?prev = "\<lparr>ii_node = 0, ii_users = [(user_key ''in'' demo_user, demo_user)], ii_hub = [], ii_online = []\<rparr>"
  have p: "map_of (lm_inbounds ?l) ''in'' = Some ?prev"
    by (simp add: TrackConn_def demo_limiter_def AddInboundLimiter_def put_inbound_info_def user_table_def)
  have "''g'' \<in> {g. (\<exists>x\<in>set (ii_users ?prev). userConnGroup (snd x) = g) \<and> (\<forall>u\<in>set []. userConnGroup u \<noteq> g)}"
    by (simp add: demo_user_def userConnGroup_def)
  with sync_cuts_removed_groups [OF p, of 0 "[]"] a show ?thesis
    by (auto simp: Let_def)
qed

end
