(* ===== verification/Path_Guard.thy ===== *)
theory Path_Guard
  imports World "HOL-Library.Sublist"
begin

text \<open>
  Guards on paths, host names and values that come from the network (\<open>internal/util/pathguard.go\<close>) and
  the deletion of log files (\<open>internal/handler/log_files.go\<close>). \<open>Clean\<close> and \<open>Rel\<close> are those of Go's
  \<open>path/filepath\<close> on Unix, at the level of strings. Certificates are parsed by Go's \<open>x509\<close> and are not
  modelled.
\<close>

section \<open>Lexical paths\<close>

definition IsAbs :: "string \<Rightarrow> bool" where
  "IsAbs p = has_prefix p ''/''"

text \<open>The components of a cleaned path, last one first: empty and dot components vanish, a double dot
  takes back the component before it; above the root it is dropped, in a relative path kept.\<close>

fun clean_parts :: "bool \<Rightarrow> string list \<Rightarrow> string list \<Rightarrow> string list" where
  "clean_parts rooted acc [] = acc"
| "clean_parts rooted acc (c # cs) =
     (if c = [] \<or> c = ''.'' then clean_parts rooted acc cs
      else if c = ''..'' then
        (if acc = [] then clean_parts rooted (if rooted then [] else [''..'']) cs
         else if hd acc = ''..'' then clean_parts rooted (''..'' # acc) cs
         else clean_parts rooted (tl acc) cs)
      else clean_parts rooted (c # acc) cs)"

definition Clean :: "string \<Rightarrow> string" where
  "Clean p =
     (let parts = rev (clean_parts (IsAbs p) [] (split_on (CHR 0x2F) p))
      in if IsAbs p then CHR 0x2F # join_with ''/'' parts
         else if parts = [] then ''.'' else join_with ''/'' parts)"

text \<open>The components of a clean absolute path.\<close>

definition parts_of :: "string \<Rightarrow> string list" where
  "parts_of p = (if p = ''/'' then [] else split_on (CHR 0x2F) (drop 1 p))"

fun drop_common :: "string list \<Rightarrow> string list \<Rightarrow> string list \<times> string list" where
  "drop_common (x # xs) (y # ys) = (if x = y then drop_common xs ys else (x # xs, y # ys))"
| "drop_common xs ys = (xs, ys)"

text \<open>\<open>filepath.Rel\<close> of two clean paths: an error when only one of them is absolute. Relative bases do
  not occur (all directories are absolute); \<open>None\<close> stands for them too.\<close>

definition Rel :: "string \<Rightarrow> string \<Rightarrow> string option" where
  "Rel base targ =
     (if \<not> IsAbs base \<or> \<not> IsAbs targ then None
      else
        (case drop_common (parts_of base) (parts_of targ) of
           (up, down) \<Rightarrow>
             if up = [] \<and> down = [] then Some ''.''
             else Some (join_with ''/'' (replicate (length up) ''..'' @ down))))"

section \<open>The guards\<close>

definition rel_inside :: "string \<Rightarrow> bool" where
  "rel_inside rel \<longleftrightarrow> rel \<noteq> ''..'' \<and> \<not> has_prefix rel ''../'' \<and> \<not> IsAbs rel"

definition PathWithinDirs :: "string \<Rightarrow> string list \<Rightarrow> bool" where
  "PathWithinDirs target allowedDirs =
     (let clean = Clean target
      in if \<not> IsAbs clean then False
         else list_ex (\<lambda>dir. case Rel (Clean dir) clean of
                                None \<Rightarrow> False
                              | Some rel \<Rightarrow> rel = ''.'' \<or> rel_inside rel) allowedDirs)"

definition sensitiveCertTargets :: "string list" where
  "sensitiveCertTargets =
     [''/etc/cron.d'', ''/etc/cron.daily'', ''/etc/cron.hourly'', ''/etc/cron.weekly'',
      ''/etc/cron.monthly'', ''/etc/crontab'', ''/var/spool/cron'',
      ''/etc/systemd'', ''/lib/systemd'', ''/usr/lib/systemd'', ''/etc/init.d'',
      ''/etc/profile.d'', ''/etc/sudoers.d'', ''/etc/sudoers'',
      ''/etc/ld.so.conf.d'', ''/etc/ld.so.preload'',
      ''/root'', ''/home'',
      ''/usr/local/bin'', ''/usr/bin'', ''/usr/sbin'', ''/bin'', ''/sbin'',
      ''/etc/passwd'', ''/etc/shadow'', ''/etc/bash.bashrc'']"

definition CertPathSafe :: "string \<Rightarrow> bool" where
  "CertPathSafe target =
     (let clean = Clean target
      in IsAbs clean \<and>
         \<not> list_ex (\<lambda>s. clean = Clean s \<or>
              (case Rel (Clean s) clean of None \<Rightarrow> False | Some rel \<Rightarrow> rel_inside rel)) sensitiveCertTargets)"

definition NoControlChars :: "string \<Rightarrow> bool" where
  "NoControlChars s \<longleftrightarrow> list_all (\<lambda>c. \<not> ((of_char c :: nat) < 32 \<or> (of_char c :: nat) = 127)) s"

definition IsHTTPURL :: "string \<Rightarrow> bool" where
  "IsHTTPURL s \<longleftrightarrow> NoControlChars s \<and> (has_prefix s ''http://'' \<or> has_prefix s ''https://'')"

definition host_char :: "char \<Rightarrow> bool" where
  "host_char c \<longleftrightarrow>
     (let n = (of_char c :: nat)
      in 97 \<le> n \<and> n \<le> 122 \<or> 65 \<le> n \<and> n \<le> 90 \<or> 48 \<le> n \<and> n \<le> 57 \<or> n = 46 \<or> n = 45)"

definition ValidHostname :: "string \<Rightarrow> bool" where
  "ValidHostname s \<longleftrightarrow> s \<noteq> [] \<and> length s \<le> 253 \<and> \<not> str_contains s ''..'' \<and> list_all host_char s"

section \<open>Log files\<close>

text \<open>\<open>filepath.Join\<close> of a directory and a plain name.\<close>

definition safeLogFilePath :: "string \<Rightarrow> string \<Rightarrow> string option" where
  "safeLogFilePath dir name =
     (let raw = trim_space name
      in if raw = [] \<or> raw = ''.'' \<or> raw = ''..'' \<or>
            list_ex (\<lambda>c. c = CHR 0x2F \<or> c = CHR 0x5C) raw \<or> str_contains raw ''..''
         then None
         else
           (let path = Clean (path_join dir raw)
            in if path_dir path \<noteq> Clean dir then None else Some path))"

definition path_base :: "string \<Rightarrow> string" where
  "path_base p = rev (takeWhile (\<lambda>c. c \<noteq> CHR 0x2F) (rev p))"

definition activeLogNames :: "string \<Rightarrow> string \<Rightarrow> string list" where
  "activeLogNames logPath accessLog =
     path_base logPath # (if accessLog \<noteq> [] then [path_base accessLog] else [])"

definition purgeLogFile :: "string \<Rightarrow> string \<Rightarrow> string \<Rightarrow> world \<Rightarrow> io_err option \<times> world" where
  "purgeLogFile logPath accessLog name w =
     (case safeLogFilePath (path_dir logPath) name of
        None \<Rightarrow> (Some (ErrIO ''bad log file name''), w)
      | Some path \<Rightarrow>
          if path_base path \<in> set (activeLogNames logPath accessLog) then
            (case file_at w path of
               None \<Rightarrow> (Some ErrNotExist, w)
             | Some _ \<Rightarrow> write_file path [] w)
          else
            (case remove_file path w of
               (Some e, w1) \<Rightarrow> (if e = ErrNotExist then None else Some e, w1)
             | (None, w1) \<Rightarrow> (None, w1)))"

section \<open>Where a path leads\<close>

text \<open>The specification: walk the components from the root.\<close>

definition walk :: "string \<Rightarrow> string list" where
  "walk p = foldl (\<lambda>pos c. if c = [] \<or> c = ''.'' then pos
                            else if c = ''..'' then butlast pos else pos @ [c]) [] (split_on (CHR 0x2F) p)"

definition plain :: "string \<Rightarrow> bool" where
  "plain c \<longleftrightarrow> c \<noteq> [] \<and> c \<noteq> ''.'' \<and> c \<noteq> ''..'' \<and> CHR 0x2F \<notin> set c"

lemma clean_walk:
  "\<forall>c\<in>set acc. plain c \<Longrightarrow> \<forall>c\<in>set cs. CHR 0x2F \<notin> set c \<Longrightarrow>
   rev (clean_parts True acc cs) =
     foldl (\<lambda>pos c. if c = [] \<or> c = ''.'' then pos
                     else if c = ''..'' then butlast pos else pos @ [c]) (rev acc) cs \<and>
   (\<forall>c\<in>set (clean_parts True acc cs). plain c)"
proof (induction cs arbitrary: acc)
  case Nil
  then show ?case by simp
next
  case (Cons c cs)
  have c: "CHR 0x2F \<notin> set c" "\<forall>c\<in>set cs. CHR 0x2F \<notin> set c" using Cons.prems(2) by simp_all
  consider "c = [] \<or> c = ''.''" | "c = ''..''" | "plain c" using c(1) by (auto simp: plain_def)
  then show ?case
  proof cases
    case 1
    with Cons.IH [OF Cons.prems(1) c(2)] show ?thesis by simp
  next
    case 2
    have "acc \<noteq> [] \<Longrightarrow> hd acc \<noteq> ''..''" using Cons.prems(1) by (cases acc) (auto simp: plain_def)
    moreover have "\<forall>c\<in>set (tl acc). plain c" using Cons.prems(1) by (cases acc) auto
    moreover have "butlast (rev acc) = rev (tl acc)" by (cases acc) auto
    ultimately show ?thesis using 2 Cons.IH [of "tl acc"] c(2) by (cases "acc = []") auto
  next
    case 3
    then have "\<forall>c\<in>set (c # acc). plain c" using Cons.prems(1) by simp
    from Cons.IH [OF this c(2)] 3 show ?thesis by (simp add: plain_def)
  qed
qed

lemma Clean_abs:
  assumes "IsAbs p"
  shows "Clean p = CHR 0x2F # join_with ''/'' (walk p)" and "\<forall>c\<in>set (walk p). plain c"
proof -
  have "\<forall>c\<in>set (split_on (CHR 0x2F) p). CHR 0x2F \<notin> set c" using split_on_parts by blast
  with clean_walk [of "[]" "split_on (CHR 0x2F) p"]
  have cw: "rev (clean_parts True [] (split_on (CHR 0x2F) p)) = walk p \<and>
      (\<forall>c\<in>set (clean_parts True [] (split_on (CHR 0x2F) p)). plain c)"
    unfolding walk_def rev.simps(1) list.set(1) by blast
  have w: "rev (clean_parts True [] (split_on (CHR 0x2F) p)) = walk p"
    and pl: "\<forall>c\<in>set (clean_parts True [] (split_on (CHR 0x2F) p)). plain c"
    using cw by blast+
  show "Clean p = CHR 0x2F # join_with ''/'' (walk p)"
    unfolding Clean_def using assms w by (simp only: Let_def simp_thms if_True)
  show "\<forall>c\<in>set (walk p). plain c" using pl unfolding w [symmetric] set_rev .
qed

lemma clean_relative:
  "\<forall>c\<in>set acc. c \<noteq> [] \<and> CHR 0x2F \<notin> set c \<Longrightarrow> \<forall>c\<in>set cs. CHR 0x2F \<notin> set c \<Longrightarrow>
   \<forall>c\<in>set (clean_parts False acc cs). c \<noteq> [] \<and> CHR 0x2F \<notin> set c"
proof (induction cs arbitrary: acc)
  case (Cons c cs)
  have t: "\<forall>c\<in>set (tl acc). c \<noteq> [] \<and> CHR 0x2F \<notin> set c" using Cons.prems(1) by (cases acc) auto
  have c: "CHR 0x2F \<notin> set c" "\<forall>c\<in>set cs. CHR 0x2F \<notin> set c" using Cons.prems(2) by simp_all
  have up: "\<forall>c\<in>set (''..'' # acc). c \<noteq> [] \<and> CHR 0x2F \<notin> set c" using Cons.prems(1) by simp
  have one: "\<forall>c\<in>set [''..'']. c \<noteq> [] \<and> CHR 0x2F \<notin> set c" by simp
  have dn: "c \<noteq> [] \<Longrightarrow> \<forall>c\<in>set (c # acc). c \<noteq> [] \<and> CHR 0x2F \<notin> set c" using Cons.prems(1) c by simp
  note IH = Cons.IH [OF _ c(2)]
  show ?case
    unfolding clean_parts.simps if_False
    using IH [OF Cons.prems(1)] IH [OF t] IH [OF up] IH [OF one] IH [OF dn]
    by presburger
qed simp

lemma IsAbs_join: "a \<noteq> [] \<Longrightarrow> CHR 0x2F \<notin> set a \<Longrightarrow> \<not> IsAbs (join_with ''/'' (a # as))"
  unfolding IsAbs_def by (cases as; cases a) (simp_all add: eq_commute [of _ "CHR 0x2F"])

lemma IsAbs_Clean [simp]: "IsAbs (Clean p) = IsAbs p"
proof (cases "IsAbs p")
  case True
  then show ?thesis unfolding Clean_abs(1) [OF True] by (simp add: IsAbs_def)
next
  case False
  define parts where "parts = rev (clean_parts False [] (split_on (CHR 0x2F) p))"
  have s: "\<forall>c\<in>set (split_on (CHR 0x2F) p). CHR 0x2F \<notin> set c" using split_on_parts by blast
  have parts: "\<forall>c\<in>set parts. c \<noteq> [] \<and> CHR 0x2F \<notin> set c"
    unfolding parts_def set_rev by (rule clean_relative [OF _ s]) simp
  have c: "Clean p = (if parts = [] then ''.'' else join_with ''/'' parts)"
    unfolding Clean_def parts_def using False by (simp only: Let_def if_False)
  show ?thesis
  proof (cases parts)
    case Nil
    with False c show ?thesis by (simp add: IsAbs_def)
  next
    case (Cons a as)
    with parts have a: "a \<noteq> []" "CHR 0x2F \<notin> set a" by simp_all
    from IsAbs_join [OF this] c Cons False show ?thesis by simp
  qed
qed

lemma parts_Clean: "IsAbs p \<Longrightarrow> parts_of (Clean p) = walk p"
proof -
  assume a: "IsAbs p"
  show ?thesis
  proof (cases "walk p")
    case Nil
    with a show ?thesis by (simp add: Clean_abs(1) parts_of_def)
  next
    case (Cons c cs)
    have "split_on (CHR 0x2F) (join_with [CHR 0x2F] (walk p)) = walk p"
      by (rule split_join) (use Cons Clean_abs(2) [OF a] in \<open>auto simp: plain_def\<close>)
    moreover have "join_with ''/'' (walk p) \<noteq> []"
      using Cons Clean_abs(2) [OF a] by (cases cs) (auto simp: plain_def)
    ultimately show ?thesis using a by (simp add: Clean_abs(1) parts_of_def)
  qed
qed

lemma drop_common_split: "drop_common xs ys = (us, vs) \<Longrightarrow>
  \<exists>zs. xs = zs @ us \<and> ys = zs @ vs \<and> (us = [] \<or> vs = [] \<or> hd us \<noteq> hd vs)"
proof (induction xs ys rule: drop_common.induct)
  case (1 x xs y ys)
  show ?case
  proof (cases "x = y")
    case True
    with 1 obtain zs where "xs = zs @ us" "ys = zs @ vs" "us = [] \<or> vs = [] \<or> hd us \<noteq> hd vs" by auto
    with True show ?thesis by (intro exI [of _ "x # zs"]) simp
  next
    case False
    with 1 show ?thesis by auto
  qed
qed auto

lemma plain_inside:
  assumes "plain v"
  shows "rel_inside v" and "rel_inside (v @ ''/'' @ r)"
proof -
  have s: "CHR 0x2F \<notin> set v" and n: "v \<noteq> []" "v \<noteq> ''..''" using assms by (auto simp: plain_def)
  from n obtain a t where v: "v = a # t" by (cases v) auto
  have 1: "\<not> has_prefix v ''../''" using s by (auto simp: has_prefix_iff simp del: has_prefix_Cons)
  have 2: "\<not> has_prefix (v @ ''/'' @ r) ''../''"
  proof
    assume "has_prefix (v @ ''/'' @ r) ''../''"
    then obtain x where "v @ CHR 0x2F # r = ''..'' @ CHR 0x2F # x"
      by (auto simp: has_prefix_iff simp del: has_prefix_Cons)
    then have "takeWhile (\<lambda>c. c \<noteq> CHR 0x2F) (v @ CHR 0x2F # r) =
        takeWhile (\<lambda>c. c \<noteq> CHR 0x2F) (''..'' @ CHR 0x2F # x)" by simp
    moreover have "takeWhile (\<lambda>c. c \<noteq> CHR 0x2F) (v @ CHR 0x2F # r) = v"
      using s by (subst takeWhile_append2) auto
    ultimately show False using n by simp
  qed
  have 3: "\<not> IsAbs v" "\<not> IsAbs (v @ ''/'' @ r)" using s by (auto simp: v IsAbs_def)
  show "rel_inside v" using n 1 3 by (simp add: rel_inside_def del: has_prefix_Cons)
  have "v @ ''/'' @ r \<noteq> ''..''"
  proof
    assume "v @ ''/'' @ r = ''..''"
    then have "CHR 0x2F \<in> set ''..''" by (metis append_Cons in_set_conv_decomp)
    then show False by simp
  qed
  with 2 3 show "rel_inside (v @ ''/'' @ r)" by (simp add: rel_inside_def del: has_prefix_Cons)
qed

lemma Rel_inside:
  assumes "IsAbs d" and "IsAbs p"
  shows "(case Rel (Clean d) (Clean p) of None \<Rightarrow> False | Some rel \<Rightarrow> rel = ''.'' \<or> rel_inside rel) \<longleftrightarrow>
         prefix (walk d) (walk p)"
proof -
  obtain us vs where dc: "drop_common (walk d) (walk p) = (us, vs)" by fastforce
  from drop_common_split [OF dc] obtain zs where z: "walk d = zs @ us" "walk p = zs @ vs"
    "us = [] \<or> vs = [] \<or> hd us \<noteq> hd vs" by blast
  have plain: "\<forall>c\<in>set vs. plain c" using Clean_abs(2) [OF assms(2)] z by auto
  have pre: "prefix (walk d) (walk p) \<longleftrightarrow> us = []"
    using z by (cases us; cases vs) (auto simp: prefix_def)
  have rel: "Rel (Clean d) (Clean p) =
      (if us = [] \<and> vs = [] then Some ''.'' else Some (join_with ''/'' (replicate (length us) ''..'' @ vs)))"
    using assms by (simp add: Rel_def parts_Clean dc)
  show ?thesis
  proof (cases us)
    case Nil
    show ?thesis
    proof (cases vs)
      case Nil
      with \<open>us = []\<close> rel pre show ?thesis by simp
    next
      case (Cons v vs')
      have v: "plain v" using plain Cons by simp
      have "rel_inside (join_with ''/'' vs)"
      proof (cases vs')
        case Nil
        with v Cons show ?thesis using plain_inside(1) by simp
      next
        case (Cons u us')
        with \<open>vs = v # vs'\<close> have j: "join_with ''/'' vs = v @ ''/'' @ join_with ''/'' vs'" by simp
        with v show ?thesis using plain_inside(2) by simp
      qed
      with \<open>us = []\<close> Cons rel pre show ?thesis by simp
    qed
  next
    case (Cons u us')
    have "\<not> rel_inside (join_with ''/'' (''..'' # xs))" "join_with ''/'' (''..'' # xs) \<noteq> ''.''" for xs
      by (cases xs; simp add: rel_inside_def)+
    with Cons rel pre show ?thesis by simp
  qed
qed

text \<open>C21: The directory guard is exact. An absolute path is accepted if and only if the place it leads to,
  walking its components from the root, lies in one of the (absolute) allowed directories or below it;
  a relative path never is. A neighbour with the same prefix is outside, double dots do not escape.\<close>

theorem PathWithinDirs_exact:
  assumes "\<forall>d\<in>set dirs. IsAbs d"
  shows "PathWithinDirs target dirs \<longleftrightarrow> IsAbs target \<and> (\<exists>d\<in>set dirs. prefix (walk d) (walk target))"
  using assms Rel_inside [of _ target] by (auto simp: PathWithinDirs_def Let_def list_ex_iff)

lemma PathWithinDirs_exact_witness:
  "\<not> PathWithinDirs ''/etc/nginx-evil/x'' [''/etc/nginx''] \<and>
   \<not> PathWithinDirs ''/etc/nginx/../cron.d/x'' [''/etc/nginx''] \<and>
   PathWithinDirs ''/etc/nginx/./a//b'' [''/etc/nginx'']"
proof -
  have a: "\<forall>d\<in>set [''/etc/nginx'']. IsAbs d" by (simp add: IsAbs_def)
  have w: "walk ''/etc/nginx'' = [''etc'', ''nginx'']" "walk ''/etc/nginx-evil/x'' = [''etc'', ''nginx-evil'', ''x'']"
    "walk ''/etc/nginx/../cron.d/x'' = [''etc'', ''cron.d'', ''x'']"
    "walk ''/etc/nginx/./a//b'' = [''etc'', ''nginx'', ''a'', ''b'']"
    by (simp_all add: walk_def)
  show ?thesis unfolding PathWithinDirs_exact [OF a] by (simp add: w IsAbs_def)
qed

text \<open>The deny list for certificates is exact in the same sense.\<close>

lemma CertPathSafe_exact:
  "CertPathSafe target \<longleftrightarrow> IsAbs target \<and> \<not> (\<exists>s\<in>set sensitiveCertTargets. prefix (walk s) (walk target))"
proof -
  have abs: "\<forall>s\<in>set sensitiveCertTargets. IsAbs s" by (simp add: sensitiveCertTargets_def IsAbs_def)
  have "(Clean target = Clean s \<or>
        (case Rel (Clean s) (Clean target) of None \<Rightarrow> False | Some rel \<Rightarrow> rel_inside rel)) \<longleftrightarrow>
      prefix (walk s) (walk target)" if "IsAbs target" "s \<in> set sensitiveCertTargets" for s
  proof -
    have s: "IsAbs s" using abs that by blast
    have "Clean target = Clean s \<longleftrightarrow> walk target = walk s"
      using parts_Clean [OF s] parts_Clean [OF that(1)] Clean_abs(1) [OF s] Clean_abs(1) [OF that(1)] by metis
    moreover have "Rel (Clean s) (Clean target) = Some ''.'' \<Longrightarrow> rel_inside ''.''"
      by (simp add: rel_inside_def IsAbs_def)
    ultimately show ?thesis
      using Rel_inside [OF s that(1)] by (auto simp: rel_inside_def IsAbs_def split: option.splits)
  qed
  then show ?thesis by (auto simp: CertPathSafe_def Let_def list_ex_iff)
qed

text \<open>Deleting a log file touches one file of the log directory only.\<close>

lemma purgeLogFile_only:
  assumes "purgeLogFile logPath accessLog name w = (r, w')" and "file_at w' q \<noteq> file_at w q"
  shows "safeLogFilePath (path_dir logPath) name = Some q \<and> path_dir q = Clean (path_dir logPath)"
proof -
  from assms obtain path where p: "safeLogFilePath (path_dir logPath) name = Some path"
    by (cases "safeLogFilePath (path_dir logPath) name") (auto simp: purgeLogFile_def)
  have "q = path"
  proof (rule ccontr)
    assume "q \<noteq> path"
    then have "file_at (snd (purgeLogFile logPath accessLog name w)) q = file_at w q"
      by (simp add: purgeLogFile_def p case_prod_beta split: option.splits)
    with assms show False by simp
  qed
  with p show ?thesis by (auto simp: safeLogFilePath_def Let_def split: if_splits)
qed

text \<open>A host name is a safe file name component.\<close>

lemma ValidHostname_component: "ValidHostname s \<Longrightarrow> CHR 0x2F \<notin> set s \<and> s \<noteq> ''..''"
  by (auto simp: ValidHostname_def list_all_iff host_char_def)

end
