(* ===== verification/Agent_Yaml.thy ===== *)
theory Agent_Yaml
  imports Path_Guard Atomic_File Auth
begin

text \<open>
  The agent edits its own \<open>config.yaml\<close> line by line: \<open>persistConfigField\<close>
  (\<open>internal/agent/client.go\<close>), \<open>updateListenPortYAML\<close>, \<open>HandleSwitchListenPort\<close> and
  \<open>HandleUpdateMasterURL\<close> (\<open>internal/handler/management_handler.go\<close>), \<open>persistListenPort\<close>
  (\<open>cmd/mmw-agent/main.go\<close>). A handler gets the decoded request body, \<open>None\<close> when it does not
  decode, and returns the reply, what it starts in the background, and the world. The lemmas say
  which lines change, that values cannot smuggle lines in, and which of the writers may tear the file.
\<close>

section \<open>Lines\<close>

definition file_lines :: "string \<Rightarrow> string list" where
  "file_lines s = split_on (CHR 0x0A) s"

definition join_lines :: "string list \<Rightarrow> string" where
  "join_lines ls = join_with [CHR 0x0A] ls"

definition line_is :: "string \<Rightarrow> string \<Rightarrow> bool" where
  "line_is key line = has_prefix (trim_space line) (key @ '':'')"

text \<open>Replace the first line of the key, or append one.\<close>

definition put_line :: "string \<Rightarrow> string \<Rightarrow> string list \<Rightarrow> string list" where
  "put_line key new ls =
     (if list_ex (line_is key) ls then update_first (line_is key) (\<lambda>_. new) ls else ls @ [new])"

section \<open>persistConfigField\<close>

definition agent_config_path :: string where
  "agent_config_path = ''/etc/mmw-agent/config.yaml''"

definition persistConfigField :: "string \<Rightarrow> string \<Rightarrow> world \<Rightarrow> io_err option \<times> world" where
  "persistConfigField key value w =
     (if \<not> NoControlChars value then (Some (ErrIO ''control characters''), w)
      else
        (case read_file agent_config_path w of
           (Inl ErrNotExist, w1) \<Rightarrow> (None, w1)
         | (_, w1) \<Rightarrow>
             (case read_file agent_config_path w1 of
                (Inl e, w2) \<Rightarrow> (Some e, w2)
              | (Inr content, w2) \<Rightarrow>
                  write_file agent_config_path
                    (join_lines (put_line key (key @ '': '' @ value) (file_lines content))) w2)))"

section \<open>The listen port\<close>

definition is_quote :: "char \<Rightarrow> bool" where
  "is_quote c \<longleftrightarrow> c = CHR 0x22 \<or> c = CHR 0x27"

text \<open>The value of a line of the key, white space and quotes removed.\<close>

definition line_value :: "string \<Rightarrow> string \<Rightarrow> string" where
  "line_value key line =
     trim_func is_quote (trim_space (trim_prefix (trim_space line) (key @ '':'')))"

definition quoted_port :: "int \<Rightarrow> string" where
  "quoted_port port = ''listen_port: '' @ [CHR 0x22] @ itoa port @ [CHR 0x22]"

fun port_lines :: "int \<Rightarrow> string list \<Rightarrow> string list \<times> bool \<times> bool" where
  "port_lines requested [] = ([], False, False)"
| "port_lines requested (line # ls) =
     (case port_lines requested ls of
        (out, found, changed) \<Rightarrow>
          if \<not> line_is ''listen_port'' line then (line # out, found, changed)
          else if requested = 0 then (out, True, True)
          else if line_value ''listen_port'' line = itoa requested then (line # out, True, changed)
          else (quoted_port requested # out, True, True))"

definition updateListenPortYAML :: "string \<Rightarrow> int \<Rightarrow> string \<times> bool" where
  "updateListenPortYAML content requested =
     (case port_lines requested (file_lines content) of
        (out, found, changed) \<Rightarrow>
          if \<not> found \<and> 0 < requested
          then (join_lines (out @ [quoted_port requested]), True)
          else (join_lines out, changed))"

text \<open>\<open>HandleSwitchListenPort\<close>: the flag says that the process exits, to be restarted by its supervisor.\<close>

definition HandleSwitchListenPort ::
  "bool \<Rightarrow> bool \<Rightarrow> string \<Rightarrow> int option \<Rightarrow> world \<Rightarrow> (reply \<times> bool) \<times> world" where
  "HandleSwitchListenPort post authenticated configPath rbody w =
     (if \<not> post then ((writeError 405 ''Method not allowed'', False), w)
      else if \<not> authenticated then ((writeError 401 ''Unauthorized'', False), w)
      else
        (case rbody of
           None \<Rightarrow> ((writeError 400 ''Invalid request body'', False), w)
         | Some port \<Rightarrow>
             if port \<noteq> 0 \<and> (port < 1024 \<or> 65535 < port)
             then ((writeError 400 ''listen_port must be 0 or in 1024-65535'', False), w)
             else if configPath = [] then ((writeError 500 ''Config path not set'', False), w)
             else
               (case read_file configPath w of
                  (Inl _, w1) \<Rightarrow> ((writeError 500 ''Read config'', False), w1)
                | (Inr content, w1) \<Rightarrow>
                    (case updateListenPortYAML content port of
                       (new, changed) \<Rightarrow>
                         if \<not> changed
                         then ((writeOk [(''message'', JStr ''Listen port is already effective'')], False), w1)
                         else
                           (case atomicWriteConfig configPath new w1 of
                              (Some _, w2) \<Rightarrow> ((writeError 500 ''Write config'', False), w2)
                            | (None, w2) \<Rightarrow>
                                ((writeOk [(''message'', JStr (''Listen port set to '' @ itoa port @
                                    '', agent restarting...''))], True), w2))))))"

text \<open>\<open>persistListenPort\<close>: at start, after an occupied port was avoided.\<close>

definition persistListenPort :: "string \<Rightarrow> string \<Rightarrow> world \<Rightarrow> io_err option \<times> world" where
  "persistListenPort cfgFile newPort w =
     (if cfgFile = [] then (Some (ErrIO ''config file path empty''), w)
      else
        (case read_file cfgFile w of
           (Inl e, w1) \<Rightarrow> (Some e, w1)
         | (Inr content, w1) \<Rightarrow>
             write_file cfgFile
               (join_lines (put_line ''listen_port''
                  (''listen_port: '' @ [CHR 0x22] @ newPort @ [CHR 0x22]) (file_lines content))) w1))"

section \<open>The master's address\<close>

definition trim_slashes :: "string \<Rightarrow> string" where
  "trim_slashes s = trim_right (\<lambda>c. c = CHR 0x2F) (trim_space s)"

definition sameMasterURL :: "string \<Rightarrow> string \<Rightarrow> bool" where
  "sameMasterURL a b \<longleftrightarrow> trim_slashes a \<noteq> [] \<and> trim_slashes a = trim_slashes b"

text \<open>The first line of the key decides.\<close>

definition HandleUpdateMasterURL ::
  "bool \<Rightarrow> bool \<Rightarrow> string \<Rightarrow> string option \<Rightarrow> world \<Rightarrow> (reply \<times> string option) \<times> world" where
  "HandleUpdateMasterURL post authenticated configPath rbody w =
     (if \<not> post then ((writeError 405 ''Method not allowed'', None), w)
      else if \<not> authenticated then ((writeError 401 ''Unauthorized'', None), w)
      else
        (case rbody of
           None \<Rightarrow> ((writeError 400 ''master_url required'', None), w)
         | Some raw \<Rightarrow>
             if raw = [] then ((writeError 400 ''master_url required'', None), w)
             else
               (let url = trim_space raw
                in if \<not> IsHTTPURL url then ((writeError 400 ''master_url must be http(s)'', None), w)
                   else if configPath = [] then ((writeError 500 ''Config path not set'', None), w)
                   else
                     (case read_file configPath w of
                        (Inl _, w1) \<Rightarrow> ((writeError 500 ''Read config'', None), w1)
                      | (Inr content, w1) \<Rightarrow>
                          if (case find (line_is ''master_url'') (file_lines content) of
                                None \<Rightarrow> False
                              | Some line \<Rightarrow> sameMasterURL (line_value ''master_url'' line) url)
                          then ((writeOk [(''unchanged'', JBool True),
                                   (''message'', JStr ''master_url already up to date'')], None), w1)
                          else
                            (case write_file configPath
                                (join_lines (put_line ''master_url'' (''master_url: '' @ url) (file_lines content))) w1 of
                               (Some _, w2) \<Rightarrow> ((writeError 500 ''Write config'', None), w2)
                             | (None, w2) \<Rightarrow>
                                 ((writeOk [(''message'', JStr (''master_url updated to '' @ url))], Some url), w2))))))"

section \<open>Lemmas on lines\<close>

lemma file_join: "ls \<noteq> [] \<Longrightarrow> \<forall>l\<in>set ls. CHR 0x0A \<notin> set l \<Longrightarrow> file_lines (join_lines ls) = ls"
  unfolding file_lines_def join_lines_def by (rule split_join) auto

lemma join_file [simp]: "join_lines (file_lines s) = s"
  by (simp add: file_lines_def join_lines_def)

lemma file_lines_nl: "l \<in> set (file_lines s) \<Longrightarrow> CHR 0x0A \<notin> set l"
  by (simp add: file_lines_def split_on_parts)

lemma file_lines_nonempty [simp]: "file_lines s \<noteq> []"
  by (simp add: file_lines_def)

lemma NoControlChars_nl: "NoControlChars s \<Longrightarrow> CHR 0x0A \<notin> set s"
  by (auto simp: NoControlChars_def list_all_iff)

lemma dropWhile_append_cases:
  "dropWhile f (r @ p) = (if \<forall>x\<in>set r. f x then dropWhile f p else dropWhile f r @ p)"
  by (simp add: dropWhile_append)

text \<open>Trimming keeps a solid front.\<close>

lemma trim_space_solid:
  assumes "p \<noteq> []" and "\<not> is_space (hd p)" and "\<not> is_space (last p)"
  shows "has_prefix (trim_space (p @ r)) p"
proof -
  obtain a t where p: "p = a # t" using assms(1) by (cases p) auto
  have l: "trim_left is_space (p @ r) = p @ r" using assms(2) p by (simp add: trim_left_def)
  have "dropWhile is_space (rev p) = rev p" using assms(1,3) by (simp add: dropWhile_eq_self hd_rev)
  then have "\<exists>q. trim_right is_space (p @ r) = p @ q"
    unfolding trim_right_def rev_append dropWhile_append_cases by auto
  then show ?thesis unfolding trim_space_def trim_func_def l has_prefix_iff by blast
qed

text \<open>The keys the agent writes: not empty, no white space at either end.\<close>

definition plain_key :: "string \<Rightarrow> bool" where
  "plain_key key \<longleftrightarrow> key \<noteq> [] \<and> \<not> is_space (hd key) \<and> CHR 0x0A \<notin> set key"

lemma line_is_own: "plain_key key \<Longrightarrow> line_is key (key @ CHR 0x3A # r)"
proof -
  assume "plain_key key"
  then have "key @ '':'' \<noteq> []" "\<not> is_space (hd (key @ '':''))" "\<not> is_space (last (key @ '':''))"
    by (auto simp: plain_key_def is_space_def)
  from trim_space_solid [OF this, of r] show ?thesis by (simp add: line_is_def)
qed

lemma put_line_effect:
  assumes own: "line_is key new"
  shows "find (line_is key) (put_line key new ls) = Some new"
    and "filter (\<lambda>l. \<not> line_is key l) (put_line key new ls) = filter (\<lambda>l. \<not> line_is key l) ls"
    and "set (put_line key new ls) \<subseteq> insert new (set ls)" and "put_line key new ls \<noteq> []"
    and "length (put_line key new ls) \<le> length ls + 1"
proof -
  have "find (line_is key) (put_line key new ls) = Some new \<and>
      filter (\<lambda>l. \<not> line_is key l) (put_line key new ls) = filter (\<lambda>l. \<not> line_is key l) ls \<and>
      set (put_line key new ls) \<subseteq> insert new (set ls) \<and> put_line key new ls \<noteq> [] \<and>
      length (put_line key new ls) \<le> length ls + 1"
  proof (cases "find (line_is key) ls")
    case None
    then have n: "\<not> list_ex (line_is key) ls" by (auto simp: find_None_iff list_ex_iff)
    then have "find (line_is key) (ls @ [new]) = Some new" using own by (induction ls) auto
    with n own show ?thesis by (auto simp: put_line_def)
  next
    case (Some x)
    then have e: "list_ex (line_is key) ls" by (auto simp: find_Some_iff list_ex_iff)
    from update_first_split [OF Some, of "\<lambda>_. new"] obtain us vs where
      "ls = us @ x # vs" "update_first (line_is key) (\<lambda>_. new) ls = us @ new # vs" "line_is key x" by blast
    with e own show ?thesis
      using find_update_first [OF Some, of "\<lambda>_. new"] by (auto simp: put_line_def)
  qed
  then show "find (line_is key) (put_line key new ls) = Some new"
    and "filter (\<lambda>l. \<not> line_is key l) (put_line key new ls) = filter (\<lambda>l. \<not> line_is key l) ls"
    and "set (put_line key new ls) \<subseteq> insert new (set ls)" and "put_line key new ls \<noteq> []"
    and "length (put_line key new ls) \<le> length ls + 1" by auto
qed

lemma file_put_line:
  assumes "line_is key new" and "CHR 0x0A \<notin> set new"
  shows "file_lines (join_lines (put_line key new (file_lines s))) = put_line key new (file_lines s)"
proof (rule file_join)
  show "put_line key new (file_lines s) \<noteq> []" by (rule put_line_effect [OF assms(1)])
  show "\<forall>l\<in>set (put_line key new (file_lines s)). CHR 0x0A \<notin> set l"
    using put_line_effect(3) [OF assms(1), of "file_lines s"] assms(2) file_lines_nl by blast
qed

section \<open>Values cannot inject lines\<close>

text \<open>Persisting a field writes that field and nothing else. Whatever the value, and whatever it came
  from: after a successful call the field's first line carries exactly the value, all lines of other
  keys are there unchanged and in order, at most one line was added; no other file changed. A value with
  a control character is refused and nothing is touched, so no value can inject a line.\<close>

theorem persistConfigField_effect:
  assumes "plain_key key" and "persistConfigField key value w = (r, w')"
    and "file_at w agent_config_path = Some content"
  shows "if \<not> NoControlChars value then r \<noteq> None \<and> w' = w
         else (\<forall>q. q \<noteq> agent_config_path \<longrightarrow> file_at w' q = file_at w q) \<and>
           (r = None \<longrightarrow> file_at w' agent_config_path = Some content \<and> tape w \<noteq> [] \<and> hd (tape w) = Fails ErrNotExist \<or>
             (\<exists>new. file_at w' agent_config_path = Some new \<and>
               find (line_is key) (file_lines new) = Some (key @ '': '' @ value) \<and>
               filter (\<lambda>l. \<not> line_is key l) (file_lines new) = filter (\<lambda>l. \<not> line_is key l) (file_lines content) \<and>
               length (file_lines new) \<le> length (file_lines content) + 1))"
proof (cases "NoControlChars value")
  case False
  with assms(2) show ?thesis by (auto simp: persistConfigField_def)
next
  case True
  let ?new = "put_line key (key @ '': '' @ value) (file_lines content)"
  have own: "line_is key (key @ '': '' @ value)" using line_is_own [OF assms(1)] by simp
  have nl: "CHR 0x0A \<notin> set (key @ '': '' @ value)"
    using assms(1) NoControlChars_nl [OF True] by (simp add: plain_key_def)
  note fl = file_put_line [OF own nl, of content]
  obtain r1 w1 where 1: "read_file agent_config_path w = (r1, w1)" by fastforce
  obtain r2 w2 where 2: "read_file agent_config_path w1 = (r2, w2)" by fastforce
  have f: "file_at w1 q = file_at w q" "file_at w2 q = file_at w q" for q
    using read_file_at [OF 1] read_file_at [OF 2] by simp_all
  show ?thesis
  proof (cases "r1 = Inl ErrNotExist")
    case True': True
    with assms(2) True 1 have "r = None" "w' = w1" by (simp_all add: persistConfigField_def)
    moreover have "tape w \<noteq> [] \<and> hd (tape w) = Fails ErrNotExist"
      using 1 True' assms(3)
      by (auto simp: read_file_def next_outcome_def outcome_err_def split: list.splits outcome.splits option.splits)
    ultimately show ?thesis using True f assms(3) by simp
  next
    case False
    with assms(2) True 1 2 have w: "(r, w') = (case r2 of Inl e \<Rightarrow> (Some e, w2)
        | Inr c \<Rightarrow> write_file agent_config_path (join_lines (put_line key (key @ '': '' @ value) (file_lines c))) w2)"
      by (auto simp: persistConfigField_def split: sum.splits io_err.splits)
    show ?thesis
    proof (cases r2)
      case (Inl e)
      with w True f show ?thesis by simp
    next
      case (Inr c)
      with read_file_Inr 2 f assms(3) have "c = content" by fastforce
      with w Inr have wr: "write_file agent_config_path (join_lines ?new) w2 = (r, w')" by simp
      have "file_at w' q = file_at w q" if "q \<noteq> agent_config_path" for q
        using write_file_other [OF wr that] f by simp
      moreover have "r = None \<Longrightarrow> file_at w' agent_config_path = Some (join_lines ?new)"
        using write_file_ok wr by blast
      ultimately show ?thesis using True fl put_line_effect [OF own, of "file_lines content"] by auto
    qed
  qed
qed

lemma persistConfigField_effect_witness:
  "let w = \<lparr>files = [(agent_config_path, ''token: a\<newline>steal_mode: x'')], tape = [], running = None, api = []\<rparr>
   in file_at (snd (persistConfigField ''steal_mode'' ''tunnel'' w)) agent_config_path =
        Some ''token: a\<newline>steal_mode: tunnel'' \<and>
      snd (persistConfigField ''steal_mode'' ''x\<newline>token: evil'' w) = w"
proof -
  define w where "w = \<lparr>files = [(agent_config_path, ''token: a\<newline>steal_mode: x'')], tape = [], running = None, api = []\<rparr>"
  have k: "plain_key ''steal_mode''" by (simp add: plain_key_def is_space_def)
  have c: "file_at w agent_config_path = Some ''token: a\<newline>steal_mode: x''"
    by (simp add: w_def file_at_def)
  have "\<not> NoControlChars ''x\<newline>token: evil''" by (simp add: NoControlChars_def)
  moreover obtain r w' where "persistConfigField ''steal_mode'' ''x\<newline>token: evil'' w = (r, w')" by fastforce
  ultimately have "snd (persistConfigField ''steal_mode'' ''x\<newline>token: evil'' w) = w"
    using persistConfigField_effect [OF k _ c] by fastforce
  moreover have "file_at (snd (persistConfigField ''steal_mode'' ''tunnel'' w)) agent_config_path =
      Some ''token: a\<newline>steal_mode: tunnel''"
    by (simp add: persistConfigField_def NoControlChars_def read_file_def next_outcome_def write_file_def
        w_def file_at_def put_file_def join_lines_def put_line_def file_lines_def line_is_def
        trim_space_def trim_func_def trim_left_def trim_right_def is_space_def has_prefix_def)
  ultimately show ?thesis by (simp add: Let_def flip: w_def)
qed

text \<open>The file is rewritten in place: a failing write can leave a torn configuration, which the agent
  then cannot load. \<open>atomicWriteConfig\<close> exists to prevent exactly this.\<close>

lemma persist_may_tear:
  "file_at (snd (persistConfigField ''token'' ''b''
     \<lparr>files = [(agent_config_path, ''token: a'')], tape = [Works, Works, Torn []], running = None, api = []\<rparr>))
     agent_config_path = Some []"
  by (simp add: persistConfigField_def NoControlChars_def read_file_def next_outcome_def write_file_def
      file_at_def put_file_def)

section \<open>The listen port line\<close>

lemma nat_digits_chars: "set (nat_digits n) \<subseteq> set ''0123456789''"
proof (induction n rule: nat_digits.induct)
  case (1 n)
  have d: "[''0123456789'' ! k] \<noteq> [] \<and> set [''0123456789'' ! k] \<subseteq> set ''0123456789''" if "k < 10" for k :: nat
    using nth_mem [of k "''0123456789''"] that by simp
  show ?case
  proof (cases "n < 10")
    case True
    with d [OF this] show ?thesis by (subst nat_digits.simps) simp
  next
    case False
    with 1 d [of "n mod 10"] show ?thesis by (subst nat_digits.simps) simp
  qed
qed

lemma trim_func_solid: "s \<noteq> [] \<Longrightarrow> \<not> f (hd s) \<Longrightarrow> \<not> f (last s) \<Longrightarrow> trim_func f s = s"
  by (simp add: trim_func_def trim_left_def trim_right_def dropWhile_eq_self [THEN iffD2] hd_rev)

lemma quoted_port_value:
  assumes "0 \<le> port"
  shows "line_is ''listen_port'' (quoted_port port)" and "line_value ''listen_port'' (quoted_port port) = itoa port"
    and "CHR 0x0A \<notin> set (quoted_port port)"
proof -
  define d where "d = itoa port"
  have d: "d \<noteq> []" "set d \<subseteq> set ''0123456789''"
    using assms nat_digits_chars by (auto simp: d_def itoa_def)
  then have hl: "hd d \<in> set ''0123456789''" "last d \<in> set ''0123456789''"
    by (meson hd_in_set last_in_set subsetD)+
  have q: "quoted_port port = ''listen_port:'' @ '' '' @ [CHR 0x22] @ d @ [CHR 0x22]"
    by (simp add: quoted_port_def d_def)
  have t: "trim_space (quoted_port port) = quoted_port port"
    unfolding trim_space_def by (rule trim_func_solid) (simp_all add: q is_space_def)
  show "line_is ''listen_port'' (quoted_port port)"
    unfolding line_is_def t by (simp add: q)
  have "trim_prefix (quoted_port port) ''listen_port:'' = '' '' @ [CHR 0x22] @ d @ [CHR 0x22]"
    unfolding q by (rule trim_prefix_append)
  moreover have "trim_space ('' '' @ [CHR 0x22] @ d @ [CHR 0x22]) = [CHR 0x22] @ d @ [CHR 0x22]"
    by (simp add: trim_space_def trim_func_def trim_left_def trim_right_def is_space_def)
  moreover have "trim_func is_quote ([CHR 0x22] @ d @ [CHR 0x22]) = d"
  proof -
    have "\<not> is_quote (hd d)" "\<not> is_quote (last d)" using hl by (auto simp: is_quote_def)
    then have "dropWhile is_quote (d @ [CHR 0x22]) = d @ [CHR 0x22]" "dropWhile is_quote (rev d) = rev d"
      using d(1) by (simp_all add: dropWhile_eq_self hd_rev)
    then show ?thesis by (simp add: trim_func_def trim_left_def trim_right_def is_quote_def)
  qed
  ultimately show "line_value ''listen_port'' (quoted_port port) = itoa port"
    by (simp add: line_value_def t d_def)
  show "CHR 0x0A \<notin> set (quoted_port port)" using d(2) by (auto simp: q)
qed

lemma port_lines_effect:
  assumes "0 \<le> p" and "port_lines p ls = (out, found, changed)"
  shows "filter (\<lambda>l. \<not> line_is ''listen_port'' l) out = filter (\<lambda>l. \<not> line_is ''listen_port'' l) ls \<and>
    (\<forall>l\<in>set out. line_is ''listen_port'' l \<longrightarrow> p \<noteq> 0 \<and> line_value ''listen_port'' l = itoa p) \<and>
    (found \<longleftrightarrow> list_ex (line_is ''listen_port'') ls) \<and> (p \<noteq> 0 \<longrightarrow> length out = length ls \<and> (found \<longleftrightarrow> list_ex (line_is ''listen_port'') out)) \<and>
    (changed \<longleftrightarrow> out \<noteq> ls) \<and> length out \<le> length ls \<and> set out \<subseteq> insert (quoted_port p) (set ls)"
  using assms(2)
proof (induction ls arbitrary: out found changed)
  case (Cons l ls)
  obtain o1 f1 c1 where r: "port_lines p ls = (o1, f1, c1)" by (metis prod_cases3)
  note IH = Cons.IH [OF r]
  show ?case
  proof (cases "line_is ''listen_port'' l")
    case False
    with Cons.prems r have "out = l # o1" "found = f1" "changed = c1" by auto
    with IH False show ?thesis by auto
  next
    case True
    show ?thesis
    proof (cases "p = 0")
      case zero: True
      with Cons.prems r True have "out = o1" "found" "changed" by auto
      with IH True zero show ?thesis by auto
    next
      case nonzero: False
      show ?thesis
      proof (cases "line_value ''listen_port'' l = itoa p")
        case same: True
        with Cons.prems r True nonzero have "out = l # o1" "found" "changed = c1" by auto
        with IH True same nonzero show ?thesis by auto
      next
        case other: False
        with Cons.prems r True nonzero have "out = quoted_port p # o1" "found" "changed" by auto
        with IH True other nonzero quoted_port_value [OF assms(1)] show ?thesis by auto
      qed
    qed
  qed
qed simp

lemma port_lines_stable:
  assumes "\<forall>l\<in>set ls. line_is ''listen_port'' l \<longrightarrow> p \<noteq> 0 \<and> line_value ''listen_port'' l = itoa p"
  shows "fst (port_lines p ls) = ls" and "snd (snd (port_lines p ls)) = False"
  using assms by (induction ls) (auto simp: case_prod_beta)

lemma update_lines:
  assumes p: "0 \<le> p" and u: "updateListenPortYAML content p = (new, changed)"
    and other: "\<exists>l\<in>set (file_lines content). \<not> line_is ''listen_port'' l"
  shows "\<exists>out. new = join_lines out \<and> file_lines new = out \<and> (changed \<longleftrightarrow> out \<noteq> file_lines content) \<and>
    filter (\<lambda>l. \<not> line_is ''listen_port'' l) out = filter (\<lambda>l. \<not> line_is ''listen_port'' l) (file_lines content) \<and>
    (\<forall>l\<in>set out. line_is ''listen_port'' l \<longrightarrow> p \<noteq> 0 \<and> line_value ''listen_port'' l = itoa p) \<and>
    (p \<noteq> 0 \<longleftrightarrow> list_ex (line_is ''listen_port'') out)"
proof -
  obtain out found ch where r: "port_lines p (file_lines content) = (out, found, ch)" by (metis prod_cases3)
  note e = port_lines_effect [OF p r]
  note q = quoted_port_value [OF p]
  have nl: "\<forall>l\<in>set out. CHR 0x0A \<notin> set l" using e q(3) file_lines_nl by blast
  have ne: "out \<noteq> []"
  proof
    assume "out = []"
    with e have "filter (\<lambda>l. \<not> line_is ''listen_port'' l) (file_lines content) = []" by simp
    with other show False by (auto simp: filter_empty_conv)
  qed
  show ?thesis
  proof (cases "\<not> found \<and> 0 < p")
    case True
    with u r have "new = join_lines (out @ [quoted_port p])" "changed" by (auto simp: updateListenPortYAML_def)
    moreover have "file_lines (join_lines (out @ [quoted_port p])) = out @ [quoted_port p]"
      by (rule file_join) (use nl q(3) in auto)
    moreover have "out @ [quoted_port p] \<noteq> file_lines content"
    proof
      assume x: "out @ [quoted_port p] = file_lines content"
      have "list_ex (line_is ''listen_port'') (out @ [quoted_port p])" using q(1) by simp
      with x e True show False by simp
    qed
    ultimately show ?thesis using True e q(1,2) by (intro exI [of _ "out @ [quoted_port p]"]) auto
  next
    case False
    with u r have "new = join_lines out" "changed = ch" by (auto simp: updateListenPortYAML_def split: if_splits)
    moreover have "p \<noteq> 0 \<longleftrightarrow> list_ex (line_is ''listen_port'') out"
      using False e p by (auto simp: list_ex_iff)
    ultimately show ?thesis using e file_join [OF ne nl] by (intro exI [of _ out]) simp
  qed
qed

text \<open>Changing the listen port is exact and idempotent. Every line that is not a \<open>listen_port\<close> line
  survives unchanged and in order; every \<open>listen_port\<close> line left has the requested port as its value, and
  there is one unless the default was asked for (port 0), when there is none; the call reports a change
  exactly when the file differs, and doing it again changes nothing.\<close>

theorem updateListenPortYAML_exact:
  assumes "0 \<le> p" and "\<exists>l\<in>set (file_lines content). \<not> line_is ''listen_port'' l"
  shows "let (new, changed) = updateListenPortYAML content p
    in filter (\<lambda>l. \<not> line_is ''listen_port'' l) (file_lines new) =
         filter (\<lambda>l. \<not> line_is ''listen_port'' l) (file_lines content) \<and>
       (\<forall>l\<in>set (file_lines new). line_is ''listen_port'' l \<longrightarrow> line_value ''listen_port'' l = itoa p) \<and>
       (p \<noteq> 0 \<longleftrightarrow> list_ex (line_is ''listen_port'') (file_lines new)) \<and>
       (changed \<longleftrightarrow> new \<noteq> content) \<and>
       updateListenPortYAML new p = (new, False)"
proof -
  obtain new changed where u: "updateListenPortYAML content p = (new, changed)" by fastforce
  from update_lines [OF assms(1) u assms(2)] obtain out where o: "new = join_lines out" "file_lines new = out"
    "changed \<longleftrightarrow> out \<noteq> file_lines content"
    "filter (\<lambda>l. \<not> line_is ''listen_port'' l) out = filter (\<lambda>l. \<not> line_is ''listen_port'' l) (file_lines content)"
    "\<forall>l\<in>set out. line_is ''listen_port'' l \<longrightarrow> p \<noteq> 0 \<and> line_value ''listen_port'' l = itoa p"
    "p \<noteq> 0 \<longleftrightarrow> list_ex (line_is ''listen_port'') out" by blast
  have "changed \<longleftrightarrow> new \<noteq> content" using o(1-3) by auto
  moreover have "updateListenPortYAML new p = (new, False)"
  proof -
    obtain o1 f1 c1 where r: "port_lines p out = (o1, f1, c1)" by (metis prod_cases3)
    have s: "o1 = out" "\<not> c1" using port_lines_stable [OF o(5)] r by simp_all
    have "f1 \<longleftrightarrow> list_ex (line_is ''listen_port'') out" using port_lines_effect [OF assms(1) r] by simp
    moreover have "\<not> (\<not> list_ex (line_is ''listen_port'') out \<and> 0 < p)" using o(6) by auto
    ultimately show ?thesis using s r o(1,2) by (simp add: updateListenPortYAML_def)
  qed
  ultimately show ?thesis using u o by simp
qed

lemma updateListenPortYAML_exact_witness:
  "updateListenPortYAML ''a: 1\<newline>listen_port: 80\<newline>b: 2'' 8443 =
     (''a: 1\<newline>listen_port: \"8443\"\<newline>b: 2'', True) \<and>
   updateListenPortYAML ''a: 1\<newline>listen_port: \"8443\"\<newline>b: 2'' 8443 =
     (''a: 1\<newline>listen_port: \"8443\"\<newline>b: 2'', False)"
proof -
  have "nat_digits 8443 = ''8443''" by (simp add: nat_digits.simps)
  then have u: "updateListenPortYAML ''a: 1\<newline>listen_port: 80\<newline>b: 2'' 8443 =
     (''a: 1\<newline>listen_port: \"8443\"\<newline>b: 2'', True)"
    by (simp add: updateListenPortYAML_def file_lines_def line_is_def line_value_def quoted_port_def itoa_def
        trim_space_def trim_func_def trim_left_def trim_right_def is_space_def is_quote_def has_prefix_def
        trim_prefix_def join_lines_def)
  have "\<exists>l\<in>set (file_lines ''a: 1\<newline>listen_port: 80\<newline>b: 2''). \<not> line_is ''listen_port'' l"
    by (simp add: file_lines_def line_is_def trim_space_def trim_func_def trim_left_def trim_right_def
        is_space_def has_prefix_def)
  from updateListenPortYAML_exact [OF _ this, of 8443] u show ?thesis by simp
qed

text \<open>The handler exits the process exactly when the new file is in place; otherwise the file is as it
  was.\<close>

lemma HandleSwitchListenPort_atomic:
  assumes "HandleSwitchListenPort post authenticated configPath rbody w = ((rep, exits), w')"
  shows "if exits then
           (\<exists>content p. post \<and> authenticated \<and> rbody = Some p \<and> (p = 0 \<or> 1024 \<le> p \<and> p \<le> 65535) \<and>
             file_at w configPath = Some content \<and>
             file_at w' configPath = Some (fst (updateListenPortYAML content p)))
         else file_at w' configPath = file_at w configPath"
proof (cases "post \<and> authenticated \<and> (\<exists>p. rbody = Some p \<and> (p = 0 \<or> 1024 \<le> p \<and> p \<le> 65535)) \<and> configPath \<noteq> []")
  case False
  with assms have "\<not> exits \<and> w' = w"
    by (auto simp: HandleSwitchListenPort_def split: if_splits option.splits)
  then show ?thesis by simp
next
  case True
  then obtain p where p: "rbody = Some p" "p = 0 \<or> 1024 \<le> p \<and> p \<le> 65535" by blast
  obtain r1 w1 where 1: "read_file configPath w = (r1, w1)" by fastforce
  then have f1: "file_at w1 q = file_at w q" for q by (rule read_file_at)
  have bad: "\<not> (p \<noteq> 0 \<and> (p < 1024 \<or> 65535 < p))" using p(2) by auto
  note u = assms [unfolded HandleSwitchListenPort_def p(1) option.case 1 prod.case]
  show ?thesis
  proof (cases r1)
    case (Inl e)
    with u bad True f1 show ?thesis by auto
  next
    case (Inr content)
    obtain new changed where n: "updateListenPortYAML content p = (new, changed)" by fastforce
    obtain r2 w2 where 2: "atomicWriteConfig configPath new w1 = (r2, w2)" by fastforce
    from atomic_writes_all_or_nothing_cfg [OF 2]
    have f2: "file_at w2 configPath = (if r2 = None then Some new else file_at w1 configPath)" .
    from read_file_Inr 1 Inr have c: "file_at w configPath = Some content" by blast
    show ?thesis
    proof (cases "changed")
      case False
      with u bad True Inr n f1 show ?thesis by auto
    next
      case ch: True
      show ?thesis
        using u bad True Inr n 2 f2 f1 c p ch by (cases r2) auto
    qed
  qed
qed

text \<open>A new master address that is accepted is one line of an HTTP URL; nothing else changes.\<close>

lemma HandleUpdateMasterURL_effect:
  assumes "HandleUpdateMasterURL post authenticated configPath rbody w = ((rep, Some url), w')"
  shows "IsHTTPURL url \<and> (\<exists>content new. file_at w configPath = Some content \<and> file_at w' configPath = Some new \<and>
    find (line_is ''master_url'') (file_lines new) = Some (''master_url: '' @ url) \<and>
    filter (\<lambda>l. \<not> line_is ''master_url'' l) (file_lines new) =
      filter (\<lambda>l. \<not> line_is ''master_url'' l) (file_lines content))"
proof -
  from assms obtain raw where raw: "rbody = Some raw" "IsHTTPURL (trim_space raw)" "post" "authenticated" "raw \<noteq> []" "configPath \<noteq> []"
    by (auto simp: HandleUpdateMasterURL_def Let_def split: if_splits option.splits)
  obtain r1 w1 where 1: "read_file configPath w = (r1, w1)" by fastforce
  note u = assms [unfolded HandleUpdateMasterURL_def raw(1) option.case Let_def 1 prod.case]
  from u raw obtain content where c: "r1 = Inr content" by (cases r1) auto
  let ?new = "put_line ''master_url'' (''master_url: '' @ trim_space raw) (file_lines content)"
  obtain r2 w2 where 2: "write_file configPath (join_lines ?new) w1 = (r2, w2)" by fastforce
  from u raw c 2 have r: "r2 = None" "url = trim_space raw" "w' = w2"
    by (cases r2; auto split: if_splits)+
  have k: "plain_key ''master_url''" by (simp add: plain_key_def is_space_def)
  have own: "line_is ''master_url'' (''master_url: '' @ trim_space raw)"
    using line_is_own [OF k, of "'' '' @ trim_space raw"] by simp
  have nl: "CHR 0x0A \<notin> set (''master_url: '' @ trim_space raw)"
    using raw(2) NoControlChars_nl by (auto simp: IsHTTPURL_def)
  have "file_at w configPath = Some content" using read_file_Inr 1 c by blast
  moreover have "file_at w' configPath = Some (join_lines ?new)" using write_file_ok 2 r by blast
  ultimately show ?thesis
    using raw(2) r(2) file_put_line [OF own nl, of content] put_line_effect(1,2) [OF own, of "file_lines content"]
    by auto
qed

end
