(* ===== verification/Listen_Gate.thy ===== *)
theory Listen_Gate
  imports Go_Prelude
begin

text \<open>
  The inbound listener of the agent and how it is opened and hidden
  (\<open>listenGate\<close>, \<open>listenWithRetry\<close>, \<open>resolveListenPortConflict\<close> of \<open>cmd/mmw-agent/main.go\<close>).
  While the WebSocket to the master is up the port is closed after a grace period, when it drops it is
  opened again. A timer that has run out does not act at once: its callback waits for the mutex.
  \<open>Expire\<close> and \<open>Callback\<close> are these two steps; \<open>Fire\<close> is both at once.
\<close>

section \<open>The gate\<close>

text \<open>\<open>lg_timer\<close> is the \<open>timer\<close> field; \<open>lg_armed\<close> are the timers that run, \<open>lg_fired\<close> those that ran
  out and whose callback has not got the mutex yet.\<close>

record gate =
  lg_open :: bool
  lg_timer :: "nat option"
  lg_armed :: "nat list"
  lg_fired :: "nat list"
  lg_next :: nat
  lg_stopped :: bool

definition newListenGate :: gate where
  "newListenGate = \<lparr>lg_open = True, lg_timer = None, lg_armed = [], lg_fired = [], lg_next = 0, lg_stopped = False\<rparr>"

text \<open>\<open>timer.Stop\<close>: a timer that has run out is not stopped.\<close>

definition stop_timer :: "gate \<Rightarrow> gate" where
  "stop_timer g =
     (case lg_timer g of None \<Rightarrow> g | Some t \<Rightarrow> g\<lparr>lg_armed := filter (\<lambda>x. x \<noteq> t) (lg_armed g)\<rparr>)"

definition onWSConnected :: "gate \<Rightarrow> gate" where
  "onWSConnected g =
     (if lg_stopped g then g
      else
        (let g1 = stop_timer g
         in g1\<lparr>lg_timer := Some (lg_next g1), lg_armed := lg_next g1 # lg_armed g1, lg_next := lg_next g1 + 1\<rparr>))"

definition close_callback :: "gate \<Rightarrow> gate" where
  "close_callback g =
     (let g1 = g\<lparr>lg_timer := None\<rparr>
      in if lg_stopped g1 \<or> \<not> lg_open g1 then g1 else g1\<lparr>lg_open := False\<rparr>)"

text \<open>\<open>tries\<close>: the results of the calls of \<open>net.Listen\<close>, at most five.\<close>

definition onWSDisconnected :: "bool list \<Rightarrow> gate \<Rightarrow> gate" where
  "onWSDisconnected tries g =
     (if lg_stopped g then g
      else
        (let g1 = (stop_timer g)\<lparr>lg_timer := None\<rparr>
         in if lg_open g1 then g1
            else if True \<in> set (take 5 tries) then g1\<lparr>lg_open := True\<rparr> else g1))"

definition gate_stop :: "gate \<Rightarrow> gate" where
  "gate_stop g = (stop_timer g)\<lparr>lg_stopped := True, lg_timer := None\<rparr>"

datatype gate_event = Up | Down "bool list" | Expire nat | Callback nat | Fire nat | StopGate

text \<open>Running out of a timer and its callback.\<close>

definition expire :: "nat \<Rightarrow> gate \<Rightarrow> gate" where
  "expire t g =
     (if t \<in> set (lg_armed g)
      then g\<lparr>lg_armed := filter (\<lambda>x. x \<noteq> t) (lg_armed g), lg_fired := t # lg_fired g\<rparr> else g)"

definition callback :: "nat \<Rightarrow> gate \<Rightarrow> gate" where
  "callback t g =
     (if t \<in> set (lg_fired g) then close_callback (g\<lparr>lg_fired := filter (\<lambda>x. x \<noteq> t) (lg_fired g)\<rparr>) else g)"

fun gate_step :: "gate_event \<Rightarrow> gate \<Rightarrow> gate" where
  "gate_step Up g = onWSConnected g"
| "gate_step (Down tries) g = onWSDisconnected tries g"
| "gate_step (Expire t) g = expire t g"
| "gate_step (Callback t) g = callback t g"
| "gate_step (Fire t) g = callback t (expire t g)"
| "gate_step StopGate g = gate_stop g"

definition gate_run :: "gate_event list \<Rightarrow> gate \<Rightarrow> gate" where
  "gate_run es g = fold gate_step es g"

section \<open>Binding the port\<close>

datatype bind_result = Bound | InUse | BindError

text \<open>\<open>listenWithRetry\<close>: the results of the calls of \<open>net.Listen\<close> are given. \<open>Inr\<close> with the number of the
  successful attempt, or the last error and the number of pauses.\<close>

fun listen_loop :: "nat \<Rightarrow> nat \<Rightarrow> bind_result list \<Rightarrow> (bind_result \<times> nat) + nat" where
  "listen_loop attempts i [] = Inl (InUse, i)"
| "listen_loop attempts i (r # rs) =
     (if attempts \<le> i then Inl (InUse, i)
      else (case r of
              Bound \<Rightarrow> Inr i
            | BindError \<Rightarrow> Inl (BindError, i)
            | InUse \<Rightarrow> listen_loop attempts (i + 1) rs))"

definition listenWithRetry :: "nat \<Rightarrow> bind_result list \<Rightarrow> (bind_result \<times> nat) + nat" where
  "listenWithRetry attempts rs = listen_loop attempts 0 rs"

text \<open>\<open>resolveListenPortConflict\<close>: \<open>free p\<close> says whether port \<open>p\<close> can be bound.\<close>

fun scan_ports :: "(int \<Rightarrow> bool) \<Rightarrow> int \<Rightarrow> nat \<Rightarrow> nat \<Rightarrow> int \<times> bool" where
  "scan_ports free want offset 0 = (0, False)"
| "scan_ports free want offset (Suc n) =
     (let candidate = want + int offset
      in if 65535 < candidate then (0, False)
         else if free candidate then (candidate, True)
         else scan_ports free want (offset + 1) n)"

definition resolveListenPortConflict :: "(int \<Rightarrow> bool) \<Rightarrow> string \<Rightarrow> int \<times> bool" where
  "resolveListenPortConflict free currentPort =
     (case atoi (trim_space currentPort) of
        None \<Rightarrow> (0, False)
      | Some want \<Rightarrow>
          if want < 1024 \<or> 65535 < want then (0, False)
          else if free want then (want, False)
          else scan_ports free want 1 99)"

section \<open>Reachability\<close>

text \<open>Timers that are running are the one in the field; none is between its two steps.\<close>

definition gate_inv :: "gate \<Rightarrow> bool" where
  "gate_inv g \<longleftrightarrow> lg_fired g = [] \<and> set (lg_armed g) \<subseteq> set_option (lg_timer g) \<and>
     (\<forall>t\<in>set (lg_armed g). t < lg_next g)"

definition whole_steps :: "gate_event list \<Rightarrow> bool" where
  "whole_steps es \<longleftrightarrow> list_all (\<lambda>e. case e of Expire _ \<Rightarrow> False | Callback _ \<Rightarrow> False | _ \<Rightarrow> True) es"

lemma gate_inv_new: "gate_inv newListenGate"
  by (simp add: gate_inv_def newListenGate_def)

lemma stop_timer_all: "gate_inv g \<Longrightarrow> lg_armed (stop_timer g) = []"
  by (auto simp: gate_inv_def stop_timer_def filter_empty_conv split: option.splits)

lemma stop_timer_simps [simp]:
  "lg_open (stop_timer g) = lg_open g" "lg_fired (stop_timer g) = lg_fired g" "lg_next (stop_timer g) = lg_next g"
  "lg_stopped (stop_timer g) = lg_stopped g"
  by (simp_all add: stop_timer_def split: option.splits)

lemma callback_fired:
  "gate_inv g \<Longrightarrow> callback t (expire t g) =
     (if t \<in> set (lg_armed g) then close_callback (g\<lparr>lg_armed := [], lg_fired := []\<rparr>) else g)"
proof -
  assume i: "gate_inv g"
  show ?thesis
  proof (cases "t \<in> set (lg_armed g)")
    case True
    with i have "\<forall>x\<in>set (lg_armed g). x = t" "lg_fired g = []"
      by (cases "lg_timer g"; auto simp: gate_inv_def)+
    then have "filter (\<lambda>x. x \<noteq> t) (lg_armed g) = []" "lg_fired g = []"
      by (auto simp: filter_empty_conv)
    with True show ?thesis by (simp add: callback_def expire_def)
  next
    case False
    with i show ?thesis by (simp add: callback_def expire_def gate_inv_def)
  qed
qed

lemma gate_step_inv:
  assumes "gate_inv g" and "whole_steps [e]"
  shows "gate_inv (gate_step e g)"
proof (cases e)
  case Up
  with assms(1) stop_timer_all [OF assms(1)] show ?thesis
    by (auto simp: onWSConnected_def gate_inv_def Let_def)
next
  case (Down tries)
  with assms(1) stop_timer_all [OF assms(1)] show ?thesis
    by (auto simp: onWSDisconnected_def gate_inv_def Let_def)
next
  case (Fire t)
  with assms(1) callback_fired [OF assms(1), of t] show ?thesis
    by (auto simp: close_callback_def gate_inv_def Let_def)
next
  case StopGate
  with assms(1) stop_timer_all [OF assms(1)] show ?thesis
    by (auto simp: gate_stop_def gate_inv_def)
qed (use assms(2) in \<open>simp_all add: whole_steps_def\<close>)

lemma gate_run_inv: "gate_inv g \<Longrightarrow> whole_steps es \<Longrightarrow> gate_inv (gate_run es g)"
  unfolding gate_run_def
proof (induction es arbitrary: g)
  case (Cons e es)
  from Cons.prems have "whole_steps [e]" "whole_steps es" by (simp_all add: whole_steps_def)
  with Cons gate_step_inv show ?case by simp
qed simp

lemma quiet_stays_open:
  "gate_inv g \<Longrightarrow> lg_open g \<Longrightarrow> lg_armed g = [] \<Longrightarrow> list_all (\<lambda>e. \<exists>t. e = Fire t) fs \<Longrightarrow> gate_run fs g = g"
  unfolding gate_run_def
  by (induction fs) (auto simp: callback_fired)

text \<open>While the WebSocket is down the agent can be reached. After any history in which timer callbacks
  run at once, when the connection drops and the port can be bound in one of five attempts, the
  listener is open, and it stays open whatever timers run out until the next connection; the only
  exception is a process that is shutting down.\<close>

lemma gate_open_when_down:
  assumes "whole_steps es" and "list_all (\<lambda>e. \<exists>t. e = Fire t) fs" and "StopGate \<notin> set es"
    and "lg_open (gate_run es newListenGate) \<or> True \<in> set (take 5 tries)"
  shows "lg_open (gate_run (es @ [Down tries] @ fs) newListenGate)"
proof -
  let ?g = "gate_run es newListenGate"
  have i: "gate_inv ?g" using gate_run_inv gate_inv_new assms(1) by blast
  have "lg_stopped (gate_run es g) = lg_stopped g" for g
    using assms(3) unfolding gate_run_def
  proof (induction es arbitrary: g)
    case (Cons e es)
    from Cons.prems have "e \<noteq> StopGate" "StopGate \<notin> set es" by auto
    then have "lg_stopped (gate_step e g) = lg_stopped g"
      by (cases e) (simp_all add: onWSConnected_def onWSDisconnected_def expire_def callback_def
          close_callback_def Let_def)
    with Cons.IH [OF \<open>StopGate \<notin> set es\<close>, of "gate_step e g"] show ?case by simp
  qed simp
  then have s: "\<not> lg_stopped ?g" by (simp add: newListenGate_def)
  let ?d = "gate_step (Down tries) ?g"
  have o: "lg_open ?d" using s assms(4) by (auto simp: onWSDisconnected_def Let_def)
  have a: "lg_armed ?d = []" using s stop_timer_all [OF i] by (simp add: onWSDisconnected_def Let_def)
  have "gate_inv ?d" using gate_step_inv [OF i, of "Down tries"] by (simp add: whole_steps_def)
  from quiet_stays_open [OF this o a assms(2)] o show ?thesis by (simp add: gate_run_def)
qed

text \<open>The same for a callback that is a step of its own, which is what the code has: it must only not be pending at
  the moment the connection comes or goes.\<close>

fun in_time :: "gate_event list \<Rightarrow> gate \<Rightarrow> bool" where
  "in_time [] g = True"
| "in_time (e # es) g =
     ((case e of Up \<Rightarrow> lg_fired g = [] | Down tries \<Rightarrow> lg_fired g = [] | _ \<Rightarrow> True) \<and> in_time es (gate_step e g))"

definition timers_inv :: "gate \<Rightarrow> bool" where
  "timers_inv g \<longleftrightarrow> set (lg_armed g) \<union> set (lg_fired g) \<subseteq> set_option (lg_timer g) \<and>
     set (lg_armed g) \<inter> set (lg_fired g) = {}"

lemma timers_inv_new: "timers_inv newListenGate"
  by (simp add: timers_inv_def newListenGate_def)

lemma timers_none: "timers_inv g \<Longrightarrow> lg_armed (stop_timer g) = []"
  by (auto simp: timers_inv_def stop_timer_def filter_empty_conv split: option.splits)

lemma timers_expire: "timers_inv g \<Longrightarrow> timers_inv (expire t g)"
  unfolding timers_inv_def expire_def by auto

lemma timers_callback:
  assumes "timers_inv g"
  shows "timers_inv (callback t g)"
proof (cases "t \<in> set (lg_fired g)")
  case True
  from assms have i: "set (lg_armed g) \<subseteq> set_option (lg_timer g)" "set (lg_fired g) \<subseteq> set_option (lg_timer g)"
    "set (lg_armed g) \<inter> set (lg_fired g) = {}" by (simp_all add: timers_inv_def)
  then have "lg_timer g = Some t" using True by (cases "lg_timer g") auto
  with i True have "lg_armed g = []" "filter (\<lambda>x. x \<noteq> t) (lg_fired g) = []"
    by (cases "lg_armed g"; fastforce simp: filter_empty_conv)+
  with True show ?thesis by (simp add: timers_inv_def callback_def close_callback_def Let_def)
qed (use assms in \<open>simp add: callback_def\<close>)

lemma timers_step:
  assumes "timers_inv g" and "in_time [e] g" and "e \<noteq> StopGate"
  shows "timers_inv (gate_step e g)"
proof (cases e)
  case Up
  with assms timers_none [OF assms(1)] show ?thesis
    by (simp add: timers_inv_def onWSConnected_def Let_def)
next
  case (Down tries)
  with assms timers_none [OF assms(1)] show ?thesis
    by (simp add: timers_inv_def onWSDisconnected_def Let_def)
qed (use assms in \<open>simp_all add: timers_expire timers_callback\<close>)

text \<open>Nothing is left to close the listener once the connection is down.\<close>

definition settled :: "gate \<Rightarrow> bool" where
  "settled g \<longleftrightarrow> lg_open g \<and> lg_armed g = [] \<and> lg_fired g = []"

definition timer_event :: "gate_event \<Rightarrow> bool" where
  "timer_event e \<longleftrightarrow> (case e of Expire t \<Rightarrow> True | Callback t \<Rightarrow> True | Fire t \<Rightarrow> True | _ \<Rightarrow> False)"

lemma settled_stays: "settled g \<Longrightarrow> list_all timer_event fs \<Longrightarrow> gate_run fs g = g"
  unfolding gate_run_def
proof (induction fs)
  case (Cons f fs)
  then have "gate_step f g = g"
    by (cases f) (simp_all add: settled_def timer_event_def expire_def callback_def)
  with Cons show ?case by simp
qed simp

lemma in_time_run: "timers_inv g \<Longrightarrow> in_time es g \<Longrightarrow> StopGate \<notin> set es \<Longrightarrow>
    timers_inv (gate_run es g) \<and> lg_stopped (gate_run es g) = lg_stopped g"
  unfolding gate_run_def
proof (induction es arbitrary: g)
  case (Cons e es)
  from Cons.prems have "in_time [e] g" "in_time es (gate_step e g)" "e \<noteq> StopGate" "StopGate \<notin> set es"
    by (auto split: gate_event.splits)
  moreover from \<open>e \<noteq> StopGate\<close> have "lg_stopped (gate_step e g) = lg_stopped g"
    by (cases e) (simp_all add: onWSConnected_def onWSDisconnected_def expire_def callback_def close_callback_def Let_def)
  ultimately show ?case using Cons.IH [of "gate_step e g"] timers_step [OF Cons.prems(1), of e] by simp
qed simp

lemma in_time_append: "in_time (es @ fs) g \<longleftrightarrow> in_time es g \<and> in_time fs (gate_run es g)"
  unfolding gate_run_def by (induction es arbitrary: g) (auto split: gate_event.splits)

lemma settled_when_down:
  assumes "in_time (us @ [Down tries]) newListenGate" and "StopGate \<notin> set us" and "True \<in> set (take 5 tries)"
  shows "settled (gate_run (us @ [Down tries]) newListenGate)"
proof -
  let ?g = "gate_run us newListenGate"
  have "in_time us newListenGate" and f: "lg_fired ?g = []" using assms(1) by (simp_all add: in_time_append)
  with in_time_run [OF timers_inv_new] assms(2) have i: "timers_inv ?g" "\<not> lg_stopped ?g"
    by (simp_all add: newListenGate_def)
  have "gate_run (us @ [Down tries]) newListenGate = onWSDisconnected tries ?g" by (simp add: gate_run_def)
  with i f timers_none [OF i(1)] assms(3) show ?thesis by (simp add: settled_def onWSDisconnected_def Let_def)
qed

text \<open>The exception that is not meant: a callback that has run out but waits for the mutex while the
  connection drops closes the listener afterwards, and the agent is unreachable by either way.\<close>

lemma late_callback_closes:
  "\<not> lg_open (gate_run [Up, Expire 0, Down [True, True, True, True, True], Callback 0] newListenGate)"
  by (simp add: gate_run_def newListenGate_def onWSConnected_def onWSDisconnected_def stop_timer_def
      expire_def callback_def close_callback_def)

text \<open>It also forgets a newer timer, which then cannot be stopped any more.\<close>

lemma late_callback_forgets_timer:
  "\<not> lg_open (gate_run [Up, Expire 0, Down [True], Up, Callback 0, Down [True], Expire 1, Callback 1] newListenGate)"
  by (simp add: gate_run_def newListenGate_def onWSConnected_def onWSDisconnected_def stop_timer_def
      expire_def callback_def close_callback_def)

section \<open>Binding\<close>

text \<open>At most \<open>attempts\<close> calls; the first success or hard error ends the loop.\<close>

lemma listen_loop_bound:
  "listen_loop attempts i rs = Inr k \<Longrightarrow> i \<le> k \<and> k < attempts \<and> k - i < length rs \<and> rs ! (k - i) = Bound \<and>
   (\<forall>j<k - i. rs ! j = InUse)"
proof (induction attempts i rs rule: listen_loop.induct)
  case (2 attempts i r rs)
  then show ?case
  proof (cases r)
    case InUse
    with 2 have r: "Suc i \<le> k" "k < attempts" "k - Suc i < length rs" "rs ! (k - Suc i) = Bound"
      "\<forall>j<k - Suc i. rs ! j = InUse" by (auto split: if_splits)
    then have "k - i = Suc (k - Suc i)" by simp
    with r InUse show ?thesis by (auto simp: nth_Cons split: nat.splits)
  qed (auto split: if_splits)
qed simp

lemma scan_ports_result:
  "scan_ports free want offset n = (p, True) \<Longrightarrow>
   free p \<and> want + int offset \<le> p \<and> p < want + int offset + int n \<and> p \<le> 65535 \<and>
   (\<forall>q. want + int offset \<le> q \<and> q < p \<longrightarrow> \<not> free q)"
proof (induction n arbitrary: offset)
  case (Suc n)
  show ?case
  proof (cases "free (want + int offset) \<or> 65535 < want + int offset")
    case True
    with Suc.prems show ?thesis by (auto simp: Let_def split: if_splits)
  next
    case False
    with Suc.prems have "scan_ports free want (offset + 1) n = (p, True)" by (auto simp: Let_def)
    note r = Suc.IH [OF this]
    have "\<not> free q" if "want + int offset \<le> q" "q < p" for q
      using r that False by (cases "q = want + int offset") auto
    with r show ?thesis by auto
  qed
qed simp

lemma scan_ports_none:
  "scan_ports free want offset n = (p, False) \<Longrightarrow> 
   p = 0 \<and> (\<forall>q. want + int offset \<le> q \<and> q < want + int offset + int n \<and> q \<le> 65535 \<longrightarrow> \<not> free q)"
proof (induction n arbitrary: offset)
  case (Suc n)
  show ?case
  proof (cases "free (want + int offset) \<or> 65535 < want + int offset")
    case True
    with Suc.prems show ?thesis by (auto simp: Let_def split: if_splits)
  next
    case False
    with Suc.prems have "scan_ports free want (offset + 1) n = (p, False)" by (auto simp: Let_def)
    from Suc.IH [OF this]
    have r: "p = 0" "\<forall>q. want + int (offset + 1) \<le> q \<and> q < want + int (offset + 1) + int n \<and> q \<le> 65535 \<longrightarrow> \<not> free q"
      by blast+
    have "\<not> free q" if "want + int offset \<le> q" "q < want + int offset + int (Suc n)" "q \<le> 65535" for q
      using that r(2) False by (cases "q = want + int offset") auto
    with r(1) show ?thesis by blast
  qed
qed auto

text \<open>The port chosen is the first free one from the configured port on, within a hundred.\<close>

lemma resolveListenPortConflict_first:
  assumes "1024 \<le> want" and "want \<le> 65535"
  shows "case resolveListenPortConflict free (itoa want) of
      (p, True) \<Rightarrow> free p \<and> want < p \<and> p < want + 100 \<and> p \<le> 65535 \<and> (\<forall>q. want \<le> q \<and> q < p \<longrightarrow> \<not> free q)
    | (p, False) \<Rightarrow> (p = want \<and> free want) \<or>
        (p = 0 \<and> (\<forall>q. want \<le> q \<and> q < want + 100 \<and> q \<le> 65535 \<longrightarrow> \<not> free q))"
proof -
  have "set (itoa want) \<subseteq> {c. is_digit c}"
    using assms nat_digits_value [of "nat want"] by (auto simp: itoa_def list_all_iff)
  moreover have "\<not> is_space c" if "is_digit c" for c
    using that by (auto simp: is_digit_def is_space_def)
  ultimately have sp: "\<forall>c\<in>set (itoa want). \<not> is_space c" by blast
  have "itoa want \<noteq> []" using assms by (simp add: itoa_def)
  with sp have "trim_space (itoa want) = itoa want"
    unfolding trim_space_def trim_func_def trim_left_def trim_right_def
    by (simp add: dropWhile_eq_self [THEN iffD2] hd_rev)
  then have a: "atoi (trim_space (itoa want)) = Some want"
    using atoi_itoa [of want] assms by simp
  show ?thesis
  proof (cases "free want")
    case True
    with a assms show ?thesis by (simp add: resolveListenPortConflict_def)
  next
    case False
    obtain p b where s: "scan_ports free want 1 99 = (p, b)" by fastforce
    with a assms False have e: "resolveListenPortConflict free (itoa want) = (p, b)"
      by (simp add: resolveListenPortConflict_def)
    show ?thesis
    proof (cases b)
      case True
      with s have "scan_ports free want 1 99 = (p, True)" by simp
      note r = scan_ports_result [OF this]
      have "\<not> free q" if "want \<le> q" "q < p" for q
        using that r False by (cases "q = want") auto
      with r e True show ?thesis by auto
    next
      case nb: False
      with s have "scan_ports free want 1 99 = (p, False)" by simp
      note r = scan_ports_none [OF this]
      have "\<not> free q" if "want \<le> q" "q < want + 100" "q \<le> 65535" for q
        using that r False by (cases "q = want") auto
      with r e nb show ?thesis by auto
    qed
  qed
qed

end
