(* ===== verification/Reconnect.thy ===== *)
theory Reconnect
  imports Listen_Gate
begin

text \<open>
  How the agent keeps in touch with the master: the WebSocket loop with its back-off, the automatic
  mode with its fall-back from WebSocket to HTTP to pull, and the HTTP reporter
  (\<open>runWebSocket\<close>, \<open>calculateBackoff\<close>, \<open>connectAndRun\<close>, \<open>runAutoModeLoop\<close>, \<open>runHTTPReporterLoop\<close>,
  \<open>triggerReconnect\<close> of \<open>internal/agent/client.go\<close>). What the network does is given as data: one
  \<open>attempt\<close> per connection. Times are seconds. The loops run as long as there are attempts left;
  the theorems hold for every list of attempts, so for every prefix of an endless run.
\<close>

section \<open>Constants (internal/constants/defaults.go)\<close>

definition ReconnectBaseBackoff :: nat where "ReconnectBaseBackoff = 5"
definition ReconnectMaxBackoff :: nat where "ReconnectMaxBackoff = 300"
definition AuthFailureBackoffStep :: nat where "AuthFailureBackoffStep = 30"
definition AuthFailureMaxBackoff :: nat where "AuthFailureMaxBackoff = 600"
definition AuthFailureSleepBackoff :: nat where "AuthFailureSleepBackoff = 1800"
definition AutoModePullFallbackBackoff :: nat where "AutoModePullFallbackBackoff = 30"
definition WebSocketMaxConsecutiveFailures :: nat where "WebSocketMaxConsecutiveFailures = 5"
definition WebSocketMaxAuthFailures :: nat where "WebSocketMaxAuthFailures = 10"

lemmas backoff_consts = ReconnectBaseBackoff_def ReconnectMaxBackoff_def AuthFailureBackoffStep_def
  AuthFailureMaxBackoff_def AuthFailureSleepBackoff_def AutoModePullFallbackBackoff_def
  WebSocketMaxConsecutiveFailures_def WebSocketMaxAuthFailures_def

section \<open>Back-off\<close>

text \<open>The loop \<open>for i := 1; i < n && b < max; i++ { b *= 2 }\<close>.\<close>

function double_until :: "nat \<Rightarrow> nat \<Rightarrow> nat \<Rightarrow> nat \<Rightarrow> nat" where
  "double_until lim n i b = (if i < n \<and> b < lim then double_until lim n (i + 1) (2 * b) else b)"
  by pat_completeness auto
termination by (relation "measure (\<lambda>(lim, n, i, b). n - i)") auto

declare double_until.simps [simp del]

text \<open>The result and the new \<open>reconnects\<close>.\<close>

definition calculateBackoff :: "nat \<Rightarrow> nat \<times> nat" where
  "calculateBackoff reconnects =
     (let r = reconnects + 1;
          backoff = double_until ReconnectMaxBackoff r 1 ReconnectBaseBackoff
      in (if ReconnectMaxBackoff < backoff then ReconnectMaxBackoff else backoff, r))"

definition pull_duration :: "nat \<Rightarrow> nat" where
  "pull_duration autoRetries =
     (let d = double_until ReconnectMaxBackoff autoRetries 1 AutoModePullFallbackBackoff
      in if ReconnectMaxBackoff < d then ReconnectMaxBackoff else d)"

section \<open>One connection\<close>

datatype auth_answer = AuthIO | AuthReject bool | AuthAccept
datatype loop_end = EndStop | EndCancel | EndError

text \<open>What the network does to one attempt: does the address parse, is it dialled, does the key exchange
  succeed, what does the master answer (\<open>AuthReject\<close> with: is the token invalid), how does the
  message loop end.\<close>

record attempt =
  at_url :: bool
  at_dial :: bool
  at_kx :: bool
  at_auth :: auth_answer
  at_end :: loop_end

datatype ConnectionMode = ModeWebSocket | ModeHTTP | ModePull

text \<open>\<open>cl_hooks\<close>: the calls of the listener's hooks, in order (\<open>True\<close> is \<open>onWSConnected\<close>).\<close>

record client =
  cl_mode :: ConnectionMode
  cl_connected :: bool
  cl_session :: bool
  cl_reconnects :: nat
  cl_hooks :: "bool list"

datatype conn_error = ConnAuth bool | ConnCancelled | ConnOther

definition leave :: "client \<Rightarrow> client" where
  "leave c = c\<lparr>cl_connected := False, cl_session := False, cl_hooks := cl_hooks c @ [False]\<rparr>"

definition connectAndRun :: "bool \<Rightarrow> attempt \<Rightarrow> client \<Rightarrow> conn_error option \<times> client" where
  "connectAndRun encrypted a c =
     (if \<not> at_url a then (Some ConnOther, c)
      else if \<not> at_dial a then (Some ConnOther, c)
      else if encrypted \<and> \<not> at_kx a then (Some ConnOther, leave c)
      else
        (let c1 = (if encrypted then c\<lparr>cl_session := True\<rparr> else c)
         in (case at_auth a of
               AuthIO \<Rightarrow> (Some ConnOther, leave c1)
             | AuthReject invalid \<Rightarrow> (Some (ConnAuth invalid), leave c1)
             | AuthAccept \<Rightarrow>
                 (let c2 = c1\<lparr>cl_connected := True, cl_reconnects := 0, cl_hooks := cl_hooks c1 @ [True]\<rparr>
                  in (case at_end a of
                        EndStop \<Rightarrow> (None, leave c2)
                      | EndCancel \<Rightarrow> (Some ConnCancelled, leave c2)
                      | EndError \<Rightarrow> (Some ConnOther, leave c2))))))"

definition triggerReconnect :: "client \<Rightarrow> client" where
  "triggerReconnect c = c\<lparr>cl_reconnects := 0\<rparr>"

section \<open>The HTTP reporter\<close>

datatype http_tick = Traffic bool | Speed bool | Heartbeat bool | WsProbe bool | HttpStop
datatype http_exit = TooManyErrors | WsRecovered | HttpStopped | StillRunning

fun http_loop :: "nat \<Rightarrow> http_tick list \<Rightarrow> http_exit" where
  "http_loop errors [] = StillRunning"
| "http_loop errors (HttpStop # ts) = HttpStopped"
| "http_loop errors (Traffic ok # ts) =
     (if ok then http_loop 0 ts
      else if 5 \<le> errors + 1 then TooManyErrors else http_loop (errors + 1) ts)"
| "http_loop errors (Speed ok # ts) = http_loop errors ts"
| "http_loop errors (Heartbeat ok # ts) =
     (if ok then http_loop 0 ts
      else if 5 \<le> errors + 1 then TooManyErrors else http_loop (errors + 1) ts)"
| "http_loop errors (WsProbe ok # ts) = (if ok then WsRecovered else http_loop errors ts)"

definition runHTTPReporterLoop :: "http_tick list \<Rightarrow> http_exit" where
  "runHTTPReporterLoop ts = http_loop 0 ts"

section \<open>The automatic mode\<close>

text \<open>One round: the result of the WebSocket probe, the connection that follows it, the answer of the HTTP
  probe (its status), the ticks of the HTTP reporter.\<close>

record auto_round =
  ar_stopped :: bool
  ar_probe :: bool
  ar_attempt :: attempt
  ar_status :: "nat option"
  ar_ticks :: "http_tick list"

datatype auto_event = AutoWebSocket | AutoHTTP http_exit | AutoPull nat | AutoExit

definition tryHTTPOnce :: "nat option \<Rightarrow> bool" where
  "tryHTTPOnce status \<longleftrightarrow> status = Some 200 \<or> status = Some 401"

text \<open>The state is the client and \<open>autoRetries\<close>. \<open>AutoPull d\<close> waits for \<open>d\<close> seconds, or until a reconnect
  signal; the other rounds go on at once.\<close>

definition auto_step :: "bool \<Rightarrow> auto_round \<Rightarrow> client \<times> nat \<Rightarrow> auto_event \<times> client \<times> nat" where
  "auto_step encrypted r s =
     (case s of (c, autoRetries) \<Rightarrow>
        if ar_stopped r then (AutoExit, c, autoRetries)
        else if ar_probe r then
          (case connectAndRun encrypted (ar_attempt r) (c\<lparr>cl_mode := ModeWebSocket\<rparr>) of
             (Some ConnCancelled, c1) \<Rightarrow> (AutoExit, c1, autoRetries)
           | (_, c1) \<Rightarrow> (AutoWebSocket, c1\<lparr>cl_reconnects := 0\<rparr>, 0))
        else if tryHTTPOnce (ar_status r) then
          (AutoHTTP (runHTTPReporterLoop (ar_ticks r)), c\<lparr>cl_mode := ModeHTTP\<rparr>, 0)
        else
          (AutoPull (pull_duration (autoRetries + 1)), c\<lparr>cl_mode := ModePull\<rparr>, autoRetries + 1))"

fun runAutoModeLoop :: "bool \<Rightarrow> auto_round list \<Rightarrow> client \<times> nat \<Rightarrow> auto_event list \<times> client \<times> nat" where
  "runAutoModeLoop encrypted [] s = ([], s)"
| "runAutoModeLoop encrypted (r # rs) s =
     (case auto_step encrypted r s of
        (e, s1) \<Rightarrow>
          if e = AutoExit then ([e], s1)
          else (case runAutoModeLoop encrypted rs s1 of (es, s2) \<Rightarrow> (e # es, s2)))"

section \<open>The WebSocket mode\<close>

record ws_state =
  ws_client :: client
  ws_failures :: nat
  ws_auth :: nat

text \<open>How a wait (\<open>reconnect_wait\<close>) ends: its time runs out; a reconnect signal has been pending since the
  attempt and ends it at once; a signal comes, or the agent stops, after so many seconds of it. \<open>triggerReconnect\<close> also
  clears \<open>reconnects\<close>, before the wait in the second case and during it in the third.\<close>

datatype wait_stop = Elapsed | Pending | Signalled nat | Halted nat

text \<open>\<open>WsWait d t\<close>: the timer is set to \<open>d\<close> seconds, and \<open>t\<close> of them pass. \<open>WsAuto\<close>: hand over to the automatic mode,
  with what happens there; it comes back only when the agent stops, and then this loop stops too.\<close>

datatype ws_event = WsExit | WsWait nat nat | WsAuto "auto_event list"

text \<open>The timer, a reconnect signal, or the end of the agent, whichever comes first.\<close>

definition reconnect_wait :: "wait_stop \<Rightarrow> nat \<Rightarrow> ws_state \<Rightarrow> ws_event \<times> ws_state" where
  "reconnect_wait w d s =
     (case w of
        Elapsed \<Rightarrow> (WsWait d d, s)
      | Pending \<Rightarrow> (WsWait d 0, s)
      | Signalled k \<Rightarrow>
          if k < d then (WsWait d k, s\<lparr>ws_client := triggerReconnect (ws_client s)\<rparr>) else (WsWait d d, s)
      | Halted k \<Rightarrow> (WsWait d (min k d), s))"

text \<open>A signal that comes during the attempt.\<close>

definition signal_before :: "wait_stop \<Rightarrow> client \<Rightarrow> client" where
  "signal_before w c = (if w = Pending then triggerReconnect c else c)"

definition auth_backoff :: "nat \<Rightarrow> nat" where
  "auth_backoff failures =
     (let b = failures * AuthFailureBackoffStep
      in if AuthFailureMaxBackoff < b then AuthFailureMaxBackoff else b)"

definition ws_wait :: "wait_stop \<Rightarrow> ws_state \<Rightarrow> ws_event \<times> ws_state" where
  "ws_wait w s =
     (case calculateBackoff (cl_reconnects (ws_client s)) of
        (b, r) \<Rightarrow> reconnect_wait w b (s\<lparr>ws_client := (ws_client s)\<lparr>cl_reconnects := r\<rparr>\<rparr>))"

text \<open>One round: is the agent stopping, what happens to the connection, how does the wait after it end.\<close>

definition ws_step :: "bool \<Rightarrow> bool \<times> attempt \<times> wait_stop \<Rightarrow> ws_state \<Rightarrow> ws_event \<times> ws_state" where
  "ws_step encrypted x s =
     (case x of (stopped, a, w) \<Rightarrow>
        if stopped then (WsExit, s)
        else
          (case connectAndRun encrypted a ((ws_client s)\<lparr>cl_mode := ModeWebSocket\<rparr>) of
             (r, c0) \<Rightarrow>
               (let c = signal_before w c0
                in (case r of
                      Some ConnCancelled \<Rightarrow> (WsExit, s\<lparr>ws_client := c\<rparr>)
                    | Some (ConnAuth invalid) \<Rightarrow>
                        (let n = ws_auth s + 1
                         in if invalid \<and> WebSocketMaxAuthFailures \<le> n
                            then reconnect_wait w AuthFailureSleepBackoff (s\<lparr>ws_client := c, ws_auth := 0\<rparr>)
                            else reconnect_wait w (auth_backoff n) (s\<lparr>ws_client := c, ws_auth := n\<rparr>))
                    | Some ConnOther \<Rightarrow>
                        (let n = ws_failures s + 1
                         in if WebSocketMaxConsecutiveFailures \<le> n
                            then (WsAuto [], s\<lparr>ws_client := c, ws_failures := 0, ws_auth := 0\<rparr>)
                            else ws_wait w (s\<lparr>ws_client := c, ws_failures := n, ws_auth := 0\<rparr>))
                    | None \<Rightarrow> ws_wait w (s\<lparr>ws_client := c, ws_failures := 0, ws_auth := 0\<rparr>)))))"

fun runWebSocket ::
  "bool \<Rightarrow> auto_round list \<Rightarrow> (bool \<times> attempt \<times> wait_stop) list \<Rightarrow> ws_state \<Rightarrow> ws_event list \<times> ws_state" where
  "runWebSocket encrypted rounds [] s = ([], s)"
| "runWebSocket encrypted rounds (x # xs) s =
     (case ws_step encrypted x s of
        (WsExit, s1) \<Rightarrow> ([WsExit], s1)
      | (WsAuto _, s1) \<Rightarrow>
          (case runAutoModeLoop encrypted rounds (ws_client s1, 0) of
             (es, c, _) \<Rightarrow> ([WsAuto es], s1\<lparr>ws_client := c\<rparr>))
      | (WsWait d t, s1) \<Rightarrow>
          (case runWebSocket encrypted rounds xs s1 of (es, s2) \<Rightarrow> (WsWait d t # es, s2)))"

definition new_client :: client where
  "new_client = \<lparr>cl_mode = ModePull, cl_connected = False, cl_session = False, cl_reconnects = 0, cl_hooks = []\<rparr>"

definition ws_start :: ws_state where
  "ws_start = \<lparr>ws_client = new_client, ws_failures = 0, ws_auth = 0\<rparr>"

section \<open>The back-off is exponential with a ceiling\<close>

lemma double_until_min:
  "0 < b \<Longrightarrow> i \<le> n \<Longrightarrow> min lim (double_until lim n i b) = min lim (b * 2 ^ (n - i))"
proof (induction lim n i b rule: double_until.induct)
  case (1 lim n i b)
  show ?case
  proof (cases "i < n \<and> b < lim")
    case True
    then have "n - i = Suc (n - (i + 1))" by linarith
    with True 1 show ?thesis by (subst double_until.simps) (simp add: mult_ac)
  next
    case False
    have "lim \<le> b * 2 ^ (n - i)" if "lim \<le> b"
      using that by (metis le_trans mult.right_neutral mult_le_mono2 one_le_numeral one_le_power)
    with False 1 show ?thesis by (subst double_until.simps) (cases "i = n"; auto simp: min_def)
  qed
qed

lemma backoff_bounds: "5 \<le> fst (calculateBackoff r)" "fst (calculateBackoff r) \<le> 300"
proof -
  have m: "(if a < b then a else b) = min a b" for a b :: nat by (simp add: min_def)
  have "fst (calculateBackoff r) = min 300 (5 * 2 ^ r)"
    using double_until_min [of 5 1 "r + 1" 300] unfolding calculateBackoff_def m backoff_consts Let_def by simp
  moreover have "(1 :: nat) \<le> 2 ^ r" by simp
  ultimately show "5 \<le> fst (calculateBackoff r)" "fst (calculateBackoff r) \<le> 300" by simp_all
qed

text \<open>C31: The back-off is exact: the n-th reconnection in a row waits 5 s times 2 to the power n-1, capped at
  300 s; the pull fall-back 30 s times 2 to the power n-1 with the same ceiling. So every wait is between 5
  and 300 seconds and never shrinks while failures go on.\<close>

theorem backoff_exact:
  "fst (calculateBackoff r) = min 300 (5 * 2 ^ r) \<and> snd (calculateBackoff r) = r + 1 \<and>
   pull_duration (r + 1) = min 300 (30 * 2 ^ r) \<and>
   5 \<le> fst (calculateBackoff r) \<and> fst (calculateBackoff r) \<le> fst (calculateBackoff (r + 1))"
proof -
  have m: "(if a < b then a else b) = min a b" for a b :: nat by (simp add: min_def)
  have c: "fst (calculateBackoff r) = min 300 (5 * 2 ^ r)" for r
    using double_until_min [of 5 1 "r + 1" 300] unfolding calculateBackoff_def m backoff_consts Let_def by simp
  have p: "pull_duration (r + 1) = min 300 (30 * 2 ^ r)"
    using double_until_min [of 30 1 "r + 1" 300] unfolding pull_duration_def m backoff_consts Let_def by simp
  have "(1 :: nat) \<le> 2 ^ r" by simp
  with c [of r] c [of "r + 1"] p show ?thesis by (simp add: calculateBackoff_def Let_def min_def)
qed

section \<open>Pacing\<close>

text \<open>A wait: how long it may be, and when it is shorter.\<close>

definition paced :: "wait_stop \<Rightarrow> ws_event \<Rightarrow> bool" where
  "paced w e \<longleftrightarrow> (\<exists>d t. e = WsWait d t \<and> 5 \<le> d \<and> d \<le> 1800 \<and> t \<le> d \<and> (w = Elapsed \<longrightarrow> t = d))"

lemma wait_paced: "5 \<le> d \<Longrightarrow> d \<le> 1800 \<Longrightarrow> paced w (fst (reconnect_wait w d s))"
  by (cases w) (simp_all add: paced_def reconnect_wait_def)

lemma ws_wait_paced: "paced w (fst (ws_wait w s))"
proof -
  obtain b r where c: "calculateBackoff (cl_reconnects (ws_client s)) = (b, r)" by fastforce
  then have "5 \<le> b" "b \<le> 1800" using backoff_bounds [of "cl_reconnects (ws_client s)"] by auto
  then show ?thesis by (simp add: ws_wait_def c wait_paced)
qed

lemma ws_step_event:
  "paced w (fst (ws_step encrypted (stopped, a, w) s)) \<or>
   fst (ws_step encrypted (stopped, a, w) s) = WsExit \<or> fst (ws_step encrypted (stopped, a, w) s) = WsAuto []"
proof -
  obtain r c where r: "connectAndRun encrypted a ((ws_client s)\<lparr>cl_mode := ModeWebSocket\<rparr>) = (r, c)" by fastforce
  have b: "5 \<le> auth_backoff (n + 1) \<and> auth_backoff (n + 1) \<le> 1800" for n
    by (simp add: auth_backoff_def backoff_consts Let_def)
  have a: "5 \<le> AuthFailureSleepBackoff" "AuthFailureSleepBackoff \<le> 1800" by (simp_all add: AuthFailureSleepBackoff_def)
  show ?thesis
  proof (cases stopped)
    case False
    show ?thesis
    proof (cases r)
      case None
      with r False ws_wait_paced show ?thesis by (simp add: ws_step_def)
    next
      case (Some e)
      with r False ws_wait_paced wait_paced [OF a] wait_paced [OF conjunct1 [OF b] conjunct2 [OF b]] show ?thesis
        by (cases e) (simp_all add: ws_step_def Let_def)
    qed
  qed (simp add: ws_step_def)
qed

text \<open>C33: In WebSocket mode the agent paces its attempts. Whatever the network does, every attempt is followed by a wait
  whose timer is set to at least 5 seconds and at most half an hour, and which lasts that long unless a reconnect signal
  or the end of the agent cuts it short; only stopping and the hand-over to the automatic mode, after which the loop
  makes no attempt of its own, take the place of a wait.\<close>

theorem ws_mode_paced:
  "let es = fst (runWebSocket encrypted rounds xs s)
   in length es \<le> length xs \<and>
      (\<forall>i. i + 1 < length es \<longrightarrow> (\<exists>d t. es ! i = WsWait d t)) \<and>
      (\<forall>i d t. i < length es \<and> es ! i = WsWait d t \<longrightarrow>
         5 \<le> d \<and> d \<le> 1800 \<and> t \<le> d \<and> (snd (snd (xs ! i)) = Elapsed \<longrightarrow> t = d))"
proof (induction xs arbitrary: s)
  case Nil
  then show ?case by simp
next
  case (Cons x xs)
  obtain stopped a w where x: "x = (stopped, a, w)" by (metis prod_cases3)
  obtain e s1 where st: "ws_step encrypted x s = (e, s1)" by fastforce
  show ?case
  proof (cases e)
    case WsExit
    with st show ?thesis by simp
  next
    case (WsAuto l)
    with st show ?thesis by (simp add: case_prod_beta)
  next
    case (WsWait d t)
    with ws_step_event [of w encrypted stopped a s] st x
    have "5 \<le> d" "d \<le> 1800" "t \<le> d" "w = Elapsed \<longrightarrow> t = d" by (auto simp: paced_def)
    with Cons.IH [of s1] WsWait st x show ?thesis
      by (auto simp: Let_def case_prod_beta nth_Cons split: nat.splits)
  qed
qed

definition good_attempt :: "loop_end \<Rightarrow> attempt" where
  "good_attempt e = \<lparr>at_url = True, at_dial = True, at_kx = True, at_auth = AuthAccept, at_end = e\<rparr>"

definition refused_attempt :: attempt where
  "refused_attempt = \<lparr>at_url = True, at_dial = True, at_kx = True, at_auth = AuthReject True, at_end = EndError\<rparr>"

lemma ws_mode_paced_witness:
  "let xs = [(False, refused_attempt, Elapsed), (False, good_attempt EndError, Signalled 2), (True, refused_attempt, Elapsed)];
       es = fst (runWebSocket True [] xs ws_start)
   in es = [WsWait 30 30, WsWait 5 2, WsExit] \<and>
      (\<forall>i d t. i < 3 \<and> es ! i = WsWait d t \<longrightarrow> 5 \<le> d \<and> d \<le> 1800 \<and> t \<le> d)"
proof -
  let ?xs = "[(False, refused_attempt, Elapsed), (False, good_attempt EndError, Signalled 2), (True, refused_attempt, Elapsed)]"
  have c: "calculateBackoff 0 = (5, 1)"
    by (simp add: calculateBackoff_def double_until.simps backoff_consts)
  have r: "fst (runWebSocket True [] ?xs ws_start) = [WsWait 30 30, WsWait 5 2, WsExit]"
    by (simp add: ws_step_def connectAndRun_def refused_attempt_def good_attempt_def ws_start_def new_client_def
        leave_def ws_wait_def c auth_backoff_def backoff_consts reconnect_wait_def signal_before_def)
  have l: "length [WsWait 30 30, WsWait 5 2, WsExit] = 3" by simp
  show ?thesis
    using ws_mode_paced [of True "[]" ?xs ws_start] unfolding r Let_def l by blast
qed

text \<open>Signals do end waits: an agent whose addresses change during every attempt tries again without a pause.\<close>

lemma signals_end_waits:
  "fst (runWebSocket enc [] [(False, refused_attempt, Pending), (False, refused_attempt, Pending)] ws_start) =
     [WsWait 30 0, WsWait 60 0]"
  by (simp add: ws_step_def connectAndRun_def refused_attempt_def ws_start_def new_client_def
      leave_def auth_backoff_def backoff_consts reconnect_wait_def signal_before_def triggerReconnect_def)

text \<open>The counter of consecutive failures is not cleared by a connection that worked: five connections that
  were authenticated and dropped much later count as five failures, and the agent leaves the WebSocket
  mode it was configured for.\<close>

lemma healthy_drops_count:
  "fst (runWebSocket enc [] (replicate 5 (False, good_attempt EndError, Elapsed)) ws_start) =
     [WsWait 5 5, WsWait 5 5, WsWait 5 5, WsWait 5 5, WsAuto []]"
proof -
  have c: "calculateBackoff 0 = (5, 1)"
    by (simp add: calculateBackoff_def double_until.simps backoff_consts)
  have s: "ws_step enc (False, good_attempt EndError, Elapsed) s =
      (if 5 \<le> ws_failures s + 1 then (WsAuto [], s\<lparr>ws_client := leave ((ws_client s)\<lparr>cl_mode := ModeWebSocket,
          cl_session := (if enc then True else cl_session (ws_client s)), cl_connected := True, cl_reconnects := 0,
          cl_hooks := cl_hooks (ws_client s) @ [True]\<rparr>), ws_failures := 0, ws_auth := 0\<rparr>)
       else ws_wait Elapsed (s\<lparr>ws_client := leave ((ws_client s)\<lparr>cl_mode := ModeWebSocket,
          cl_session := (if enc then True else cl_session (ws_client s)), cl_connected := True, cl_reconnects := 0,
          cl_hooks := cl_hooks (ws_client s) @ [True]\<rparr>), ws_failures := ws_failures s + 1, ws_auth := 0\<rparr>))" for s
    by (simp add: ws_step_def connectAndRun_def good_attempt_def backoff_consts Let_def signal_before_def)
  show ?thesis
    by (simp add: eval_nat_numeral(3) s ws_wait_def c leave_def ws_start_def new_client_def numeral_nat
        reconnect_wait_def)
qed

text \<open>In the automatic mode a master that accepts connections but refuses the token is contacted again at
  once, without any pause, for ever.\<close>

lemma auto_mode_hot_loop:
  "fst (runAutoModeLoop enc (replicate n \<lparr>ar_stopped = False, ar_probe = True, ar_attempt = refused_attempt,
      ar_status = None, ar_ticks = []\<rparr>) s) = replicate n AutoWebSocket"
proof (induction n arbitrary: s)
  case (Suc n)
  obtain c k where s: "s = (c, k)" by fastforce
  from Suc show ?case
    by (simp add: s auto_step_def connectAndRun_def refused_attempt_def case_prod_beta Let_def)
qed simp

section \<open>The mode follows what works\<close>

lemma auto_mode_choice:
  assumes "auto_step encrypted r (c, k) = (e, c', k')" and "\<not> ar_stopped r"
  shows "cl_mode c' = (if ar_probe r then ModeWebSocket
                       else if tryHTTPOnce (ar_status r) then ModeHTTP else ModePull)"
  using assms by (auto simp: auto_step_def connectAndRun_def leave_def Let_def
      split: if_splits prod.splits option.splits conn_error.splits auth_answer.splits loop_end.splits)

section \<open>The agent is reachable one way or the other\<close>

text \<open>Between two attempts the client is not connected, has no session, and has told the listener so.\<close>

definition at_rest :: "client \<Rightarrow> bool" where
  "at_rest c \<longleftrightarrow> \<not> cl_connected c \<and> \<not> cl_session c \<and> (cl_hooks c \<noteq> [] \<longrightarrow> \<not> last (cl_hooks c))"

lemma at_rest_leave [simp]: "at_rest (leave c)"
  by (simp add: at_rest_def leave_def)

lemma at_rest_connect: "at_rest c \<Longrightarrow> at_rest (snd (connectAndRun enc a c))"
  by (auto simp: connectAndRun_def Let_def split: auth_answer.splits loop_end.splits)

lemma at_rest_signal [simp]: "at_rest (triggerReconnect c) = at_rest c" "at_rest (signal_before w c) = at_rest c"
  by (simp_all add: at_rest_def triggerReconnect_def signal_before_def)

lemma at_rest_wait: "ws_client (snd (reconnect_wait w d s)) = ws_client s \<or>
    ws_client (snd (reconnect_wait w d s)) = triggerReconnect (ws_client s)"
  by (cases w) (simp_all add: reconnect_wait_def)

lemma at_rest_waited: "at_rest (ws_client (snd (reconnect_wait w d s))) = at_rest (ws_client s)"
  using at_rest_wait [of w d s] by auto

lemma at_rest_updates [simp]:
  "at_rest (c\<lparr>cl_mode := m\<rparr>) = at_rest c" "at_rest (c\<lparr>cl_reconnects := r\<rparr>) = at_rest c"
  by (simp_all add: at_rest_def)

lemma at_rest_auto_step: "at_rest c \<Longrightarrow> at_rest (fst (snd (auto_step enc r (c, k))))"
proof -
  assume c: "at_rest c"
  obtain x c1 where r: "connectAndRun enc (ar_attempt r) (c\<lparr>cl_mode := ModeWebSocket\<rparr>) = (x, c1)" by fastforce
  have "at_rest c1" using at_rest_connect [of "c\<lparr>cl_mode := ModeWebSocket\<rparr>" enc "ar_attempt r"] c r by simp
  with c r show ?thesis by (auto simp: auto_step_def split: option.splits conn_error.splits)
qed

lemma at_rest_auto: "at_rest c \<Longrightarrow> at_rest (fst (snd (runAutoModeLoop enc rs (c, k))))"
proof (induction rs arbitrary: c k)
  case (Cons r rs)
  obtain e c1 k1 where st: "auto_step enc r (c, k) = (e, c1, k1)" by (metis prod_cases3)
  with at_rest_auto_step [OF Cons.prems, of enc r k] have c1: "at_rest c1" by simp
  from Cons.IH [OF c1] c1 st show ?case by (simp add: case_prod_beta)
qed simp

lemma at_rest_ws_step: "at_rest (ws_client s) \<Longrightarrow> at_rest (ws_client (snd (ws_step enc x s)))"
proof -
  assume c: "at_rest (ws_client s)"
  obtain stopped a w where x: "x = (stopped, a, w)" by (metis prod_cases3)
  obtain r c1 where r: "connectAndRun enc a ((ws_client s)\<lparr>cl_mode := ModeWebSocket\<rparr>) = (r, c1)" by fastforce
  have "at_rest c1" using at_rest_connect [of "(ws_client s)\<lparr>cl_mode := ModeWebSocket\<rparr>" enc a] c r by simp
  with c r x show ?thesis
    by (auto simp: ws_step_def ws_wait_def Let_def case_prod_beta at_rest_waited split: option.splits conn_error.splits)
qed

lemma at_rest_ws: "at_rest (ws_client s) \<Longrightarrow> at_rest (ws_client (snd (runWebSocket enc rounds xs s)))"
proof (induction xs arbitrary: s)
  case (Cons x xs)
  obtain e s1 where st: "ws_step enc x s = (e, s1)" by fastforce
  with at_rest_ws_step [OF Cons.prems, of enc x] have s1: "at_rest (ws_client s1)" by simp
  show ?case
  proof (cases e)
    case (WsAuto l)
    with st at_rest_auto [OF s1, of enc rounds 0] show ?thesis by (simp add: case_prod_beta)
  qed (use st s1 Cons.IH [OF s1] in \<open>simp_all add: case_prod_beta\<close>)
qed simp

text \<open>The hooks a history of the gate has seen.\<close>

fun hooks_of :: "gate_event list \<Rightarrow> bool list" where
  "hooks_of [] = []"
| "hooks_of (Up # es) = True # hooks_of es"
| "hooks_of (Down tries # es) = False # hooks_of es"
| "hooks_of (_ # es) = hooks_of es"

lemma hooks_of_append [simp]: "hooks_of (es @ fs) = hooks_of es @ hooks_of fs"
  by (induction es rule: hooks_of.induct) simp_all

lemma last_hook:
  assumes "hooks_of es \<noteq> []" and "\<not> last (hooks_of es)" and "StopGate \<notin> set es"
  shows "\<exists>us tries fs. es = (us @ [Down tries]) @ fs \<and> list_all timer_event fs"
  using assms
proof (induction es rule: rev_induct)
  case (snoc e es)
  have more: ?case if "timer_event e" "hooks_of [e] = []"
  proof -
    from snoc that obtain us tries fs where "es = (us @ [Down tries]) @ fs" "list_all timer_event fs" by auto
    with that show ?case by (intro exI [of _ us] exI [of _ tries] exI [of _ "fs @ [e]"]) simp
  qed
  show ?case
  proof (cases e)
    case (Down tries)
    then show ?thesis by (intro exI [of _ es] exI [of _ tries] exI [of _ "[]"]) simp
  qed (use snoc.prems more in \<open>auto simp: timer_event_def\<close>)
qed simp

lemma no_hook: "hooks_of es = [] \<Longrightarrow> StopGate \<notin> set es \<Longrightarrow> list_all timer_event es"
proof (induction es)
  case (Cons e es)
  then show ?case by (cases e) (auto simp: timer_event_def)
qed simp

text \<open>C16: Between its connections the agent can be reached over its port. Run the connection loop against any network
  and let the listener see the hooks the loop calls, with hide timers running out and their callbacks run at
  any time in between. After the loop's last attempt the WebSocket is down and its session keys are gone. The
  inbound listener is open then, provided that the process is not shutting down, that the port could be bound within
  five attempts each time, and that no callback of a hide timer that had run out was still waiting for the mutex
  when a connection came or went; with such a late callback the listener may be closed.\<close>

theorem agent_reachable:
  assumes "c = ws_client (snd (runWebSocket enc rounds xs ws_start))" and "hooks_of es = cl_hooks c"
  shows "\<not> cl_connected c \<and> \<not> cl_session c \<and>
    (StopGate \<notin> set es \<and> (\<forall>tries. Down tries \<in> set es \<longrightarrow> True \<in> set (take 5 tries)) \<and> in_time es newListenGate \<longrightarrow>
      lg_open (gate_run es newListenGate))"
proof -
  have "at_rest (ws_client ws_start)" by (simp add: ws_start_def new_client_def at_rest_def)
  from at_rest_ws [OF this] have c: "at_rest c" unfolding assms(1) .
  have "lg_open (gate_run es newListenGate)"
    if s: "StopGate \<notin> set es" and b: "\<forall>tries. Down tries \<in> set es \<longrightarrow> True \<in> set (take 5 tries)"
      and t: "in_time es newListenGate"
  proof (cases "hooks_of es = []")
    case True
    have n: "settled newListenGate" by (simp add: settled_def newListenGate_def)
    from settled_stays [OF n no_hook [OF True s]] n show ?thesis by (simp add: settled_def)
  next
    case False
    with c assms(2) have "\<not> last (hooks_of es)" by (simp add: at_rest_def)
    from last_hook [OF False this s] obtain us tries fs where
      es: "es = (us @ [Down tries]) @ fs" "list_all timer_event fs" by blast
    have "settled (gate_run (us @ [Down tries]) newListenGate)"
    proof (rule settled_when_down)
      show "in_time (us @ [Down tries]) newListenGate" using t unfolding es(1) in_time_append [of "us @ [Down tries]"] by simp
    qed (use s b es(1) in auto)
    moreover from settled_stays [OF this es(2)]
    have "gate_run es newListenGate = gate_run (us @ [Down tries]) newListenGate"
      by (simp add: es(1) gate_run_def)
    ultimately show ?thesis by (simp add: settled_def)
  qed
  with c show ?thesis by (simp add: at_rest_def)
qed

lemma agent_reachable_witness:
  "lg_open (gate_run [Up, Expire 0, Callback 0, Down [False, True], Expire 0] newListenGate)"
proof -
  let ?xs = "[(False, good_attempt EndError, Elapsed), (True, refused_attempt, Elapsed)]"
  let ?es = "[Up, Expire 0, Callback 0, Down [False, True], Expire 0]"
  have h: "cl_hooks (ws_client (snd (runWebSocket True [] ?xs ws_start))) = [True, False]"
    by (simp add: ws_step_def connectAndRun_def refused_attempt_def good_attempt_def ws_start_def new_client_def
        leave_def ws_wait_def case_prod_beta backoff_consts reconnect_wait_def signal_before_def)
  have t: "in_time ?es newListenGate" by code_simp
  show ?thesis
    using agent_reachable [OF refl, of ?es True "[]" ?xs] h t by simp
qed

end
