(* ===== verification/Speed_Monitor.thy ===== *)
theory Speed_Monitor
  imports Complex_Main Limiter
begin

text \<open>
  Automatic speed limits (\<open>internal/embedded/monitor.go\<close>): per-user speeds, the sustained and burst
  rules, the temporary limit and its end. Times are nanoseconds; an unset \<open>time.Time\<close> is \<open>None\<close>.
  Megabits per second are rationals; the conversions truncate as Go's do, on exact quotients (the
  rounding of \<open>float64\<close> is left out). The maps are association lists, visited in list order.
\<close>

record speed_rule =
  sr_type :: string
  sr_threshold :: rat
  sr_sustained :: int
  sr_window :: int
  sr_burst :: int
  sr_limit :: rat
  sr_duration :: int

record user_state =
  us_start :: "int option"
  us_events :: "int list"
  us_until :: "int option"

definition second :: int where
  "second = 1000000000"

text \<open>\<open>int64(x)\<close> of a number that fits.\<close>

definition truncate_rat :: "rat \<Rightarrow> int" where
  "truncate_rat x = (if x < 0 then \<lceil>x\<rceil> else \<lfloor>x\<rfloor>)"

definition mbps_bytes :: "rat \<Rightarrow> int" where
  "mbps_bytes x = truncate_rat (x * 1000000 / 8)"

definition before_until :: "int \<Rightarrow> user_state \<Rightarrow> bool" where
  "before_until now st = (case us_until st of None \<Rightarrow> False | Some t \<Rightarrow> now < t)"

definition after_until :: "int \<Rightarrow> user_state \<Rightarrow> bool" where
  "after_until now st = (case us_until st of None \<Rightarrow> True | Some t \<Rightarrow> t < now)"

definition idle_state :: user_state where
  "idle_state = \<lparr>us_start = None, us_events = [], us_until = None\<rparr>"

section \<open>One user\<close>

text \<open>The part of \<open>applyLimit\<close> that concerns the user's state.\<close>

definition mark_limited :: "speed_rule \<Rightarrow> int \<Rightarrow> user_state \<Rightarrow> user_state" where
  "mark_limited rule now st = st\<lparr>us_until := Some (now + sr_duration rule * second)\<rparr>"

text \<open>The new state, and whether the limit is applied.\<close>

definition evalSustained :: "speed_rule \<Rightarrow> bool \<Rightarrow> int \<Rightarrow> user_state \<Rightarrow> user_state \<times> bool" where
  "evalSustained rule exceeds now st =
     (if \<not> exceeds then (st\<lparr>us_start := None\<rparr>, False)
      else
        (case us_start st of
           None \<Rightarrow> (st\<lparr>us_start := Some now\<rparr>, False)
         | Some start \<Rightarrow>
             if sr_sustained rule * second \<le> now - start
             then ((mark_limited rule now st)\<lparr>us_start := None\<rparr>, True)
             else (st, False)))"

definition evalBurst :: "speed_rule \<Rightarrow> bool \<Rightarrow> int \<Rightarrow> user_state \<Rightarrow> user_state \<times> bool" where
  "evalBurst rule exceeds now st =
     (let cutoff = now - sr_window rule * second;
          st1 = st\<lparr>us_events := filter (\<lambda>t. cutoff < t) (us_events st)\<rparr>;
          st2 = (if exceeds
                 then (if us_start st1 = None then st1\<lparr>us_start := Some now\<rparr> else st1)
                 else
                   (let st3 = (case us_start st1 of
                                 None \<Rightarrow> st1
                               | Some start \<Rightarrow>
                                   if sr_sustained rule * second \<le> now - start
                                   then st1\<lparr>us_events := us_events st1 @ [now]\<rparr> else st1)
                    in st3\<lparr>us_start := None\<rparr>))
      in if sr_burst rule \<le> int (length (us_events st2))
         then ((mark_limited rule now st2)\<lparr>us_events := [], us_start := None\<rparr>, True)
         else (st2, False))"

text \<open>All rules in order; the first limit that is still running ends the round. The result lists the
  rules that applied.\<close>

fun eval_rules :: "speed_rule list \<Rightarrow> int \<Rightarrow> int \<Rightarrow> user_state \<Rightarrow> user_state \<times> speed_rule list" where
  "eval_rules [] speed now st = (st, [])"
| "eval_rules (rule # rules) speed now st =
     (let exceeds = mbps_bytes (sr_threshold rule) < speed
      in (case (if sr_type rule = ''sustained'' then evalSustained rule exceeds now st
                else if sr_type rule = ''burst'' then evalBurst rule exceeds now st
                else (st, False)) of
            (st1, hit) \<Rightarrow>
              if before_until now st1 then (st1, if hit then [rule] else [])
              else (case eval_rules rules speed now st1 of
                      (st2, hits) \<Rightarrow> (st2, if hit then rule # hits else hits))))"

definition eval_user :: "speed_rule list \<Rightarrow> int \<Rightarrow> int \<Rightarrow> user_state \<Rightarrow> user_state \<times> speed_rule list" where
  "eval_user rules speed now st = (if before_until now st then (st, []) else eval_rules rules speed now st)"

section \<open>The monitor\<close>

record monitor =
  mo_rules :: "speed_rule list"
  mo_states :: "(string \<times> user_state) list"
  mo_speeds :: "(string \<times> int) list"
  mo_limiter :: "limiter option"
  mo_timers :: "(int \<times> string) list"

definition NewSpeedMonitor :: monitor where
  "NewSpeedMonitor = \<lparr>mo_rules = [], mo_states = [], mo_speeds = [], mo_limiter = None, mo_timers = []\<rparr>"

definition SetLimiter :: "limiter \<Rightarrow> monitor \<Rightarrow> monitor" where
  "SetLimiter l m = m\<lparr>mo_limiter := Some l\<rparr>"

definition UpdateRules :: "speed_rule list \<Rightarrow> monitor \<Rightarrow> monitor" where
  "UpdateRules rules m = m\<lparr>mo_rules := rules\<rparr>"

definition GetUserSpeeds :: "monitor \<Rightarrow> (string \<times> int) list" where
  "GetUserSpeeds m = mo_speeds m"

definition set_everywhere :: "string \<Rightarrow> 64 word \<Rightarrow> limiter \<Rightarrow> limiter" where
  "set_everywhere email speed l =
     fold (\<lambda>tag l. SetUserSpeed l tag email speed) (List.map fst (lm_inbounds l)) l"

text \<open>The effects of \<open>applyLimit\<close> outside the user's state: the buckets and the timer.\<close>

definition applyLimit :: "string \<Rightarrow> int \<Rightarrow> speed_rule \<Rightarrow> monitor \<Rightarrow> monitor" where
  "applyLimit email now rule m =
     m\<lparr>mo_limiter := map_option (set_everywhere email (word_of_int (mbps_bytes (sr_limit rule)))) (mo_limiter m),
       mo_timers := mo_timers m @ [(now + sr_duration rule * second, email)]\<rparr>"

text \<open>A timer that runs out restores the user's own limit.\<close>

definition restore_limit :: "string \<Rightarrow> monitor \<Rightarrow> monitor" where
  "restore_limit email m = m\<lparr>mo_limiter := map_option (set_everywhere email 0) (mo_limiter m)\<rparr>"

definition state_of :: "monitor \<Rightarrow> string \<Rightarrow> user_state" where
  "state_of m email = (case map_of (mo_states m) email of None \<Rightarrow> idle_state | Some st \<Rightarrow> st)"

definition evaluate_one :: "int \<Rightarrow> string \<times> int \<Rightarrow> monitor \<Rightarrow> monitor" where
  "evaluate_one now x m =
     (case x of (email, speed) \<Rightarrow>
        (case eval_user (mo_rules m) speed now (state_of m email) of
           (st, hits) \<Rightarrow>
             fold (applyLimit email now) hits (m\<lparr>mo_states := AList.update email st (mo_states m)\<rparr>)))"

definition user_speed :: "int \<Rightarrow> int \<Rightarrow> int" where
  "user_speed elapsed delta =
     (let speed = truncate_rat (of_int delta * of_int second / of_int elapsed)
      in if speed < 0 then 0 else speed)"

definition Evaluate :: "int \<Rightarrow> (string \<times> int) list \<Rightarrow> int \<Rightarrow> monitor \<Rightarrow> monitor" where
  "Evaluate now userDeltas elapsed m =
     (if elapsed \<le> 0 then m
      else
        (let m1 = m\<lparr>mo_speeds := List.map (\<lambda>(email, delta). (email, user_speed elapsed delta)) userDeltas\<rparr>
         in if mo_rules m1 = [] \<or> mo_limiter m1 = None then m1
            else
              (let m2 = fold (evaluate_one now) (mo_speeds m1) m1
               in m2\<lparr>mo_states := filter (\<lambda>(email, st). email \<in> fst ` set userDeltas \<or> \<not> after_until now st)
                      (mo_states m2)\<rparr>)))"

section \<open>A history of the monitor\<close>

text \<open>What happens to a monitor: an evaluation of the users' traffic at a time, a timer that gives a user the own limit
  back, a new delivery of the limiter.\<close>

datatype monitor_event = Measure int "(string \<times> int) list" int | TimerEnds string | NewLimiter limiter

fun monitor_step :: "monitor_event \<Rightarrow> monitor \<Rightarrow> monitor" where
  "monitor_step (Measure now ds elapsed) m = Evaluate now ds elapsed m"
| "monitor_step (TimerEnds email) m = restore_limit email m"
| "monitor_step (NewLimiter l) m = SetLimiter l m"

definition monitor_run :: "monitor_event list \<Rightarrow> monitor \<Rightarrow> monitor" where
  "monitor_run es m = fold monitor_step es m"

text \<open>The speeds at which a user was seen; who is absent from an evaluation is idle.\<close>

fun measured :: "string \<Rightarrow> monitor_event list \<Rightarrow> (int \<times> int) list" where
  "measured email [] = []"
| "measured email (Measure now ds elapsed # es) =
     (if 0 < elapsed
      then (now, case map_of ds email of None \<Rightarrow> 0 | Some delta \<Rightarrow> user_speed elapsed delta) # measured email es
      else measured email es)"
| "measured email (_ # es) = measured email es"

lemma measured_append [simp]: "measured email (es @ fs) = measured email es @ measured email fs"
  by (induction email es rule: measured.induct) simp_all

text \<open>The ends of the limits a user was given, in order.\<close>

definition limit_ends :: "string \<Rightarrow> monitor \<Rightarrow> int list" where
  "limit_ends email m = List.map fst (filter (\<lambda>(t, e). e = email) (mo_timers m))"

definition auto_limited :: "string \<Rightarrow> monitor \<Rightarrow> bool" where
  "auto_limited email m = (case mo_limiter m of None \<Rightarrow> False | Some l \<Rightarrow> email \<in> set (lm_auto l))"

definition has_inbounds :: "monitor \<Rightarrow> bool" where
  "has_inbounds m = (case mo_limiter m of None \<Rightarrow> False | Some l \<Rightarrow> lm_inbounds l \<noteq> [])"

section \<open>What an evaluation does to one user\<close>

lemma speed_keys: "fst ` set (lm_inbounds (SetUserSpeed l tag email v)) = fst ` set (lm_inbounds l)"
proof -
  have u: "fst ` set (AList.update tag x al) = fst ` set al" if "map_of al tag = Some y" for al and x y :: inbound_info
    using that by (simp add: dom_update map_of_SomeD) (force dest: map_of_SomeD)
  show ?thesis by (auto simp: SetUserSpeed_def hub_load_or_store_def put_inbound_info_def Let_def u split: option.split)
qed

lemma speed_auto:
  "email' \<noteq> email \<Longrightarrow> email' \<in> set (lm_auto (SetUserSpeed l tag email v)) \<longleftrightarrow> email' \<in> set (lm_auto l)"
  "0 < v \<Longrightarrow> tag \<in> fst ` set (lm_inbounds l) \<Longrightarrow> email \<in> set (lm_auto (SetUserSpeed l tag email v))"
  "0 < v \<Longrightarrow> email \<in> set (lm_auto l) \<Longrightarrow> email \<in> set (lm_auto (SetUserSpeed l tag email v))"
proof -
  have s: "map_of (lm_inbounds l) tag \<noteq> None" if "tag \<in> fst ` set (lm_inbounds l)"
    using that by (simp add: map_of_eq_None_iff)
  show "email' \<noteq> email \<Longrightarrow> email' \<in> set (lm_auto (SetUserSpeed l tag email v)) \<longleftrightarrow> email' \<in> set (lm_auto l)"
    "0 < v \<Longrightarrow> email \<in> set (lm_auto l) \<Longrightarrow> email \<in> set (lm_auto (SetUserSpeed l tag email v))"
    by (auto simp: SetUserSpeed_def put_inbound_info_def Let_def split: option.split prod.split)
  show "0 < v \<Longrightarrow> tag \<in> fst ` set (lm_inbounds l) \<Longrightarrow> email \<in> set (lm_auto (SetUserSpeed l tag email v))"
    by (drule s) (auto simp: SetUserSpeed_def put_inbound_info_def Let_def split: option.split prod.split)
qed

lemma everywhere_others:
  "email' \<noteq> email \<Longrightarrow> email' \<in> set (lm_auto (set_everywhere email v l)) \<longleftrightarrow> email' \<in> set (lm_auto l)"
  unfolding set_everywhere_def
  by (rule fold_invariant [where P = "\<lambda>k. email' \<in> set (lm_auto k) \<longleftrightarrow> email' \<in> set (lm_auto l)"
      and Q = "\<lambda>_. True"]) (simp_all add: speed_auto(1))

lemma everywhere_keys: "fst ` set (lm_inbounds (set_everywhere email v l)) = fst ` set (lm_inbounds l)"
  unfolding set_everywhere_def
  by (rule fold_invariant [where P = "\<lambda>k. fst ` set (lm_inbounds k) = fst ` set (lm_inbounds l)" and Q = "\<lambda>_. True"])
    (simp_all add: speed_keys)

lemma everywhere_limits:
  assumes "0 < v" and "lm_inbounds l \<noteq> []"
  shows "email \<in> set (lm_auto (set_everywhere email v l))"
proof -
  obtain tag info rest where l: "lm_inbounds l = (tag, info) # rest" using assms(2) by (cases "lm_inbounds l") auto
  have "email \<in> set (lm_auto (SetUserSpeed l tag email v))" using speed_auto(2) [OF assms(1)] l by simp
  then have "email \<in> set (lm_auto (fold (\<lambda>tag l. SetUserSpeed l tag email v) tags (SetUserSpeed l tag email v)))" for tags
    by (intro fold_invariant [where P = "\<lambda>k. email \<in> set (lm_auto k)" and Q = "\<lambda>_. True"])
      (simp_all add: speed_auto(3) [OF assms(1)])
  then show ?thesis by (simp add: set_everywhere_def l)
qed

text \<open>What one user's turn leaves of the rest.\<close>

lemma limits_frame:
  "mo_states (fold (applyLimit email now) hits m) = mo_states m"
  "mo_rules (fold (applyLimit email now) hits m) = mo_rules m"
  "mo_speeds (fold (applyLimit email now) hits m) = mo_speeds m"
  "mo_timers (fold (applyLimit email now) hits m) =
     mo_timers m @ List.map (\<lambda>r. (now + sr_duration r * second, email)) hits"
  by (induction hits arbitrary: m) (simp_all add: applyLimit_def)

lemma limits_limiter:
  "(mo_limiter (fold (applyLimit email now) hits m) = None) = (mo_limiter m = None)"
  "has_inbounds (fold (applyLimit email now) hits m) = has_inbounds m"
  "email' \<noteq> email \<Longrightarrow> auto_limited email' (fold (applyLimit email now) hits m) = auto_limited email' m"
proof -
  have k: "(lm_inbounds (set_everywhere e v l) = []) = (lm_inbounds l = [])" for e v l
    using everywhere_keys [of e v l] by (metis image_is_empty set_empty)
  show "(mo_limiter (fold (applyLimit email now) hits m) = None) = (mo_limiter m = None)"
    "has_inbounds (fold (applyLimit email now) hits m) = has_inbounds m"
    "email' \<noteq> email \<Longrightarrow> auto_limited email' (fold (applyLimit email now) hits m) = auto_limited email' m"
    by (induction hits arbitrary: m)
      (auto simp: applyLimit_def auto_limited_def has_inbounds_def k everywhere_others split: option.split)
qed

definition same_for :: "string \<Rightarrow> monitor \<Rightarrow> monitor \<Rightarrow> bool" where
  "same_for email m m' \<longleftrightarrow>
     state_of m' email = state_of m email \<and> limit_ends email m' = limit_ends email m \<and>
     mo_rules m' = mo_rules m \<and> (mo_limiter m' = None) = (mo_limiter m = None) \<and>
     has_inbounds m' = has_inbounds m \<and> auto_limited email m' = auto_limited email m"

lemma same_for_trans: "same_for email a b \<Longrightarrow> same_for email b c \<Longrightarrow> same_for email a c"
  by (simp add: same_for_def)

lemma other_turn: "email' \<noteq> email \<Longrightarrow> same_for email m (evaluate_one now (email', speed) m)"
  by (simp add: same_for_def evaluate_one_def state_of_def limit_ends_def limits_frame limits_limiter
      update_conv auto_limited_def has_inbounds_def filter_map o_def split: prod.split)
    (simp add: limits_limiter [unfolded auto_limited_def has_inbounds_def])

lemma other_turns: "email \<notin> fst ` set xs \<Longrightarrow> same_for email m (fold (evaluate_one now) xs m)"
proof (induction xs arbitrary: m)
  case (Cons x xs)
  obtain e sp where x: "x = (e, sp)" by fastforce
  with Cons.prems have "e \<noteq> email" by auto
  with x have "same_for email m (evaluate_one now x m)" by (simp add: other_turn)
  with Cons show ?case by (auto intro: same_for_trans)
qed (simp add: same_for_def)

lemma own_turn:
  assumes "mo_rules m = [rule]" and "eval_user [rule] speed now (state_of m email) = (st, hits)"
  shows "state_of (evaluate_one now (email, speed) m) email = st"
    and "limit_ends email (evaluate_one now (email, speed) m) =
      limit_ends email m @ List.map (\<lambda>r. now + sr_duration r * second) hits"
    and "mo_rules (evaluate_one now (email, speed) m) = mo_rules m"
    and "(mo_limiter (evaluate_one now (email, speed) m) = None) = (mo_limiter m = None)"
    and "has_inbounds (evaluate_one now (email, speed) m) = has_inbounds m"
    and "hits = [] \<Longrightarrow> auto_limited email (evaluate_one now (email, speed) m) = auto_limited email m"
  using assms
  by (simp_all add: evaluate_one_def state_of_def limit_ends_def limits_frame limits_limiter update_conv
      filter_map o_def)
    (simp_all add: auto_limited_def has_inbounds_def)

lemma own_limit:
  assumes "mo_rules m = [rule]" and "eval_user [rule] speed now (state_of m email) = (st, [rule])"
    and "has_inbounds m" and "0 < (word_of_int (mbps_bytes (sr_limit rule)) :: 64 word)"
  shows "auto_limited email (evaluate_one now (email, speed) m)"
proof -
  obtain l where l: "mo_limiter m = Some l" "lm_inbounds l \<noteq> []"
    using assms(3) by (auto simp: has_inbounds_def split: option.splits)
  from everywhere_limits [OF assms(4) l(2), of email] show ?thesis
    using assms(1,2) l(1) by (simp add: evaluate_one_def auto_limited_def applyLimit_def)
qed

section \<open>The sustained rule\<close>

definition over :: "speed_rule \<Rightarrow> int \<Rightarrow> bool" where
  "over rule speed \<longleftrightarrow> mbps_bytes (sr_threshold rule) < speed"

text \<open>Since when the user has been over the threshold without interruption; \<open>xs\<close> are the evaluations, last one first.\<close>

fun since :: "speed_rule \<Rightarrow> (int \<times> int) list \<Rightarrow> int option" where
  "since rule [] = None"
| "since rule ((now, speed) # earlier) =
     (if over rule speed then (case since rule earlier of None \<Rightarrow> Some now | Some t \<Rightarrow> Some t) else None)"

text \<open>The specification: \<open>ends\<close> are the ends of the limits given so far, \<open>past\<close> the evaluations so far. No limit is
  running, the user is over the threshold now and has been at every evaluation of a stretch that begins after the
  last limit and reaches back at least the configured time.\<close>

definition free_of :: "int list \<Rightarrow> (int \<times> int) list \<Rightarrow> (int \<times> int) list" where
  "free_of ends past = filter (\<lambda>(t, _). \<forall>e\<in>set ends. e \<le> t) past"

definition limit_due :: "speed_rule \<Rightarrow> int list \<Rightarrow> (int \<times> int) list \<Rightarrow> int \<Rightarrow> int \<Rightarrow> bool" where
  "limit_due rule ends past now speed \<longleftrightarrow>
     (\<forall>e\<in>set ends. e \<le> now) \<and> over rule speed \<and>
     (case since rule (rev (free_of ends past)) of
        None \<Rightarrow> False
      | Some t0 \<Rightarrow> sr_sustained rule * second \<le> now - t0)"

lemma eval_sustained_one:
  assumes "sr_type rule = ''sustained''" and "\<not> before_until now st"
  shows "eval_user [rule] speed now st =
     (let (st1, hit) = evalSustained rule (over rule speed) now st in (st1, if hit then [rule] else []))"
  using assms by (simp add: eval_user_def over_def Let_def case_prod_beta)

text \<open>The user's state knows the history: the end of the last limit unless it is over, and the beginning of the
  stretch.\<close>

definition knows :: "speed_rule \<Rightarrow> int list \<Rightarrow> (int \<times> int) list \<Rightarrow> user_state \<Rightarrow> bool" where
  "knows rule ends past st \<longleftrightarrow>
     us_start st = since rule (rev (free_of ends past)) \<and>
     (case us_until st of
        None \<Rightarrow> \<forall>e\<in>set ends. \<exists>x\<in>set past. e \<le> fst x
      | Some u \<Rightarrow> u \<in> set ends \<and> (\<forall>e\<in>set ends. e \<le> u))"

lemma knows_running:
  assumes "knows rule ends past st" and "\<forall>x\<in>set past. fst x < now"
  shows "before_until now st \<longleftrightarrow> \<not> (\<forall>e\<in>set ends. e \<le> now)"
proof (cases "us_until st")
  case None
  with assms have "e \<le> now" if "e \<in> set ends" for e using that unfolding knows_def by fastforce
  with None show ?thesis by (simp add: before_until_def)
next
  case (Some u)
  with assms(1) show ?thesis unfolding knows_def before_until_def by fastforce
qed

lemma free_running: "\<not> (\<forall>e\<in>set ends. e \<le> now) \<Longrightarrow> free_of ends (past @ [(now, speed)]) = free_of ends past"
  by (simp add: free_of_def)

lemma free_open: "\<forall>e\<in>set ends. e \<le> now \<Longrightarrow> free_of ends (past @ [(now, speed)]) = free_of ends past @ [(now, speed)]"
  by (simp add: free_of_def)

lemma knows_more_past:
  assumes "knows rule ends past st" and "us_start st' = since rule (rev (free_of ends (past @ [x])))"
    and "us_until st' = us_until st"
  shows "knows rule ends (past @ [x]) st'"
  using assms unfolding knows_def by (cases "us_until st") auto

text \<open>One evaluation with the user in it.\<close>

lemma knows_step:
  assumes t: "sr_type rule = ''sustained''" and d: "0 < sr_duration rule"
    and k: "knows rule ends past st" and p: "\<forall>x\<in>set past. fst x < now"
    and e: "eval_user [rule] speed now st = (st1, hits)"
  shows "hits = (if limit_due rule ends past now speed then [rule] else [])"
    and "knows rule (ends @ List.map (\<lambda>r. now + sr_duration r * second) hits) (past @ [(now, speed)]) st1"
proof -
  let ?s = "since rule (rev (free_of ends past))"
  have u: "us_start st = ?s" using k by (simp add: knows_def)
  have "hits = (if limit_due rule ends past now speed then [rule] else []) \<and>
    knows rule (ends @ List.map (\<lambda>r. now + sr_duration r * second) hits) (past @ [(now, speed)]) st1"
  proof (cases "\<forall>e\<in>set ends. e \<le> now")
    case False
    with knows_running [OF k p] have "before_until now st" by simp
    with e have "st1 = st" "hits = []" by (simp_all add: eval_user_def)
    with False knows_more_past [OF k, of st "(now, speed)"] free_running [OF False] u show ?thesis
      by (auto simp: limit_due_def)
  next
    case True
    with knows_running [OF k p] have b: "\<not> before_until now st" by simp
    obtain st2 hit where s2: "evalSustained rule (over rule speed) now st = (st2, hit)" by fastforce
    with e eval_sustained_one [OF t b, of speed] have h: "st1 = st2" "hits = (if hit then [rule] else [])" by simp_all
    have hit: "hit = limit_due rule ends past now speed"
      using s2 u True by (auto simp: evalSustained_def limit_due_def split: if_splits option.splits)
    show ?thesis
    proof (cases hit)
      case False
      have "us_until st2 = us_until st" "us_start st2 = since rule (rev (free_of ends (past @ [(now, speed)])))"
        using s2 False u by (auto simp: evalSustained_def free_open [OF True] split: if_splits option.splits)
      with knows_more_past [OF k] False h hit show ?thesis by simp
    next
      case hit': True
      let ?n = "now + sr_duration rule * second"
      have pos: "now < ?n" using d by (simp add: second_def)
      have "us_until st2 = Some ?n" "us_start st2 = None"
        using s2 hit' by (auto simp: evalSustained_def mark_limited_def split: if_splits option.splits)
      moreover have "free_of (ends @ [?n]) (past @ [(now, speed)]) = []"
        using p pos by (auto simp: free_of_def filter_empty_conv)
      moreover have "e \<le> ?n" if "e \<in> set ends" for e using True that pos by fastforce
      ultimately show ?thesis using h hit hit' by (auto simp: knows_def)
    qed
  qed
  from conjunct1 [OF this] conjunct2 [OF this]
  show "hits = (if limit_due rule ends past now speed then [rule] else [])"
    "knows rule (ends @ List.map (\<lambda>r. now + sr_duration r * second) hits) (past @ [(now, speed)]) st1" .
qed

text \<open>One evaluation without: the state is kept while a limit is running and forgotten otherwise.\<close>

lemma knows_absent:
  assumes k: "knows rule ends past st" and p: "\<forall>x\<in>set past. fst x < now" and o: "\<not> over rule 0"
  shows "knows rule ends (past @ [(now, 0)]) (if after_until now st then idle_state else st)"
proof (cases "after_until now st")
  case True
  have "e \<le> now" if "e \<in> set ends" for e
    using k True p that unfolding knows_def after_until_def by (cases "us_until st") fastforce+
  with True o show ?thesis by (auto simp: knows_def idle_state_def free_open)
next
  case False
  then obtain u where u: "us_until st = Some u" "now \<le> u" by (cases "us_until st") (auto simp: after_until_def)
  with k have m: "u \<in> set ends" by (simp add: knows_def)
  have "free_of ends past = []" using p u(2) m by (fastforce simp: free_of_def filter_empty_conv)
  then have "us_start st = since rule (rev (free_of ends (past @ [(now, 0)])))"
    using k o by (simp add: knows_def free_of_def)
  with False knows_more_past [OF k] show ?thesis by simp
qed

section \<open>A whole evaluation\<close>

text \<open>The last step of an evaluation, which forgets the users it was not about.\<close>

definition forget :: "int \<Rightarrow> (string \<times> int) list \<Rightarrow> monitor \<Rightarrow> monitor" where
  "forget now ds m =
     m\<lparr>mo_states := filter (\<lambda>(email, st). email \<in> fst ` set ds \<or> \<not> after_until now st) (mo_states m)\<rparr>"

lemma map_of_filter_key:
  "distinct (List.map fst al) \<Longrightarrow>
     map_of (filter (\<lambda>(k, v). P k v) al) k = (case map_of al k of None \<Rightarrow> None | Some v \<Rightarrow> if P k v then Some v else None)"
proof (induction al)
  case (Cons a al)
  obtain k' v where a: "a = (k', v)" by fastforce
  have "map_of (filter (\<lambda>(k, v). P k v) al) k' = None" if "k' \<notin> fst ` set al"
    using that by (auto simp: map_of_eq_None_iff)
  with Cons a show ?case by (auto simp: map_of_eq_None_iff split: option.splits)
qed simp

lemma forget_state:
  assumes "distinct (List.map fst (mo_states m))"
  shows "state_of (forget now ds m) email =
    (if email \<in> fst ` set ds \<or> \<not> after_until now (state_of m email) then state_of m email else idle_state)"
  using assms by (simp add: state_of_def forget_def map_of_filter_key split: option.split)

lemma forget_frame:
  "limit_ends email (forget now ds m) = limit_ends email m" "mo_rules (forget now ds m) = mo_rules m"
  "mo_limiter (forget now ds m) = mo_limiter m" "has_inbounds (forget now ds m) = has_inbounds m"
  "auto_limited email (forget now ds m) = auto_limited email m"
  by (simp_all add: forget_def limit_ends_def has_inbounds_def auto_limited_def)

lemma turns_distinct:
  "distinct (List.map fst (mo_states m)) \<Longrightarrow> distinct (List.map fst (mo_states (fold (evaluate_one now) xs m)))"
proof (induction xs arbitrary: m)
  case (Cons x xs)
  have "distinct (List.map fst (mo_states (evaluate_one now x m)))"
    using Cons.prems by (simp add: evaluate_one_def limits_frame distinct_update split: prod.split)
  with Cons.IH show ?case by simp
qed simp

definition turns :: "int \<Rightarrow> (string \<times> int) list \<Rightarrow> int \<Rightarrow> monitor \<Rightarrow> monitor" where
  "turns now ds elapsed m =
     (let xs = List.map (\<lambda>(email, delta). (email, user_speed elapsed delta)) ds
      in fold (evaluate_one now) xs (m\<lparr>mo_speeds := xs\<rparr>))"

lemma turns_speeds: "mo_speeds (fold (evaluate_one now) xs m) = mo_speeds m"
  by (induction xs arbitrary: m) (simp_all add: evaluate_one_def limits_frame split: prod.split)

lemma evaluate_turns:
  assumes "0 < elapsed" and "mo_rules m = [rule]" and "mo_limiter m \<noteq> None"
  shows "Evaluate now ds elapsed m = forget now ds (turns now ds elapsed m)"
proof -
  obtain l where "mo_limiter m = Some l" using assms(3) by blast
  with assms(1,2) show ?thesis by (simp add: Evaluate_def turns_def forget_def Let_def)
qed

lemma same_for_speeds: "same_for email m (m\<lparr>mo_speeds := xs\<rparr>)"
  by (simp add: same_for_def state_of_def limit_ends_def auto_limited_def has_inbounds_def)

lemma speed_names: "fst ` set (List.map (\<lambda>(email, delta). (email, user_speed elapsed delta)) ds) = fst ` set ds"
  by (induction ds) auto

text \<open>All users' turns, seen by one of them.\<close>

lemma turns_absent: "map_of ds email = None \<Longrightarrow> same_for email m (turns now ds elapsed m)"
proof -
  let ?xs = "List.map (\<lambda>(email, delta). (email, user_speed elapsed delta)) ds"
  assume "map_of ds email = None"
  then have "email \<notin> fst ` set ?xs" by (simp only: map_of_eq_None_iff speed_names) simp
  from other_turns [OF this] same_for_speeds [of email m ?xs] show ?thesis
    unfolding turns_def Let_def by (blast intro: same_for_trans)
qed

lemma turns_present:
  assumes "distinct (List.map fst ds)" and "map_of ds email = Some delta"
  shows "\<exists>m1 m2. same_for email m m1 \<and> m2 = evaluate_one now (email, user_speed elapsed delta) m1 \<and>
    same_for email m2 (turns now ds elapsed m)"
proof -
  let ?f = "\<lambda>(email, delta). (email, user_speed elapsed delta)"
  have "(email, delta) \<in> set ds" by (rule map_of_SomeD [OF assms(2)])
  then obtain us vs where ds: "ds = us @ (email, delta) # vs" by (meson split_list)
  with assms(1) have n: "email \<notin> fst ` set (List.map ?f us)" "email \<notin> fst ` set (List.map ?f vs)"
    unfolding speed_names by simp_all
  define m1 where "m1 = fold (evaluate_one now) (List.map ?f us) (m\<lparr>mo_speeds := List.map ?f ds\<rparr>)"
  have "same_for email m m1"
    unfolding m1_def using other_turns [OF n(1)] same_for_speeds by (blast intro: same_for_trans)
  moreover have "turns now ds elapsed m =
      fold (evaluate_one now) (List.map ?f vs) (evaluate_one now (email, user_speed elapsed delta) m1)"
    by (simp add: turns_def m1_def ds Let_def)
  ultimately show ?thesis using other_turns [OF n(2)] by auto
qed

text \<open>The monitor's state for one user, after a history.\<close>

definition watches :: "speed_rule \<Rightarrow> string \<Rightarrow> (int \<times> int) list \<Rightarrow> monitor \<Rightarrow> bool" where
  "watches rule email past m \<longleftrightarrow>
     mo_rules m = [rule] \<and> mo_limiter m \<noteq> None \<and> distinct (List.map fst (mo_states m)) \<and>
     knows rule (limit_ends email m) past (state_of m email)"

text \<open>What one evaluation means for the user: the limits given, and the mark in the limiter.\<close>

lemma evaluate_watches:
  assumes t: "sr_type rule = ''sustained''" and d: "0 < sr_duration rule" and o: "\<not> over rule 0"
    and w: "watches rule email past m" and p: "\<forall>x\<in>set past. fst x < now"
    and e: "0 < elapsed" and ds: "distinct (List.map fst ds)"
    and s: "speed = (case map_of ds email of None \<Rightarrow> 0 | Some delta \<Rightarrow> user_speed elapsed delta)"
    and m': "m' = Evaluate now ds elapsed m"
  shows "limit_ends email m' = limit_ends email m @
      (if limit_due rule (limit_ends email m) past now speed then [now + sr_duration rule * second] else [])"
    and "watches rule email (past @ [(now, speed)]) m'"
    and "if limit_due rule (limit_ends email m) past now speed
      then has_inbounds m \<and> 0 < (word_of_int (mbps_bytes (sr_limit rule)) :: 64 word) \<longrightarrow> auto_limited email m'
      else auto_limited email m' = auto_limited email m"
proof -
  define m2 where "m2 = turns now ds elapsed m"
  have r: "mo_rules m = [rule]" "mo_limiter m \<noteq> None" "distinct (List.map fst (mo_states m))"
    and k: "knows rule (limit_ends email m) past (state_of m email)" using w by (simp_all add: watches_def)
  have m: "m' = forget now ds m2" using evaluate_turns [OF e r(1,2)] m' by (simp add: m2_def)
  have d2: "distinct (List.map fst (mo_states m2))" using r(3) by (simp add: m2_def turns_def Let_def turns_distinct)
  have d': "distinct (List.map fst (mo_states m'))"
    using d2 by (auto simp: m forget_def intro: distinct_map_filter)
  have all: "limit_ends email m' = limit_ends email m @
      (if limit_due rule (limit_ends email m) past now speed then [now + sr_duration rule * second] else []) \<and>
    watches rule email (past @ [(now, speed)]) m' \<and>
    (if limit_due rule (limit_ends email m) past now speed
      then has_inbounds m \<and> 0 < (word_of_int (mbps_bytes (sr_limit rule)) :: 64 word) \<longrightarrow> auto_limited email m'
      else auto_limited email m' = auto_limited email m)"
  proof (cases "map_of ds email")
    case None
    from turns_absent [OF this, of m now elapsed]
    have f: "same_for email m m2" by (simp add: m2_def)
    have a: "email \<notin> fst ` set ds" using None by (simp add: map_of_eq_None_iff)
    have nd: "\<not> limit_due rule (limit_ends email m) past now 0" using o by (simp add: limit_due_def)
    have st: "state_of m' email = (if after_until now (state_of m email) then idle_state else state_of m email)"
      using forget_state [OF d2, of now ds email] a f by (simp add: m same_for_def)
    from knows_absent [OF k p o] show ?thesis
      using f nd r d' s None st by (simp add: m forget_frame watches_def same_for_def)
  next
    case (Some delta)
    from turns_present [OF ds Some, of m now elapsed] obtain m1 where
      f1: "same_for email m m1" and f2: "same_for email (evaluate_one now (email, speed) m1) m2"
      using s Some by (auto simp: m2_def)
    obtain st hits where u: "eval_user [rule] speed now (state_of m1 email) = (st, hits)" by fastforce
    have r1: "mo_rules m1 = [rule]" and k1: "knows rule (limit_ends email m) past (state_of m1 email)"
      and b1: "has_inbounds m1 = has_inbounds m" using f1 r k by (simp_all add: same_for_def)
    note ks = knows_step [OF t d k1 p u]
    note ot = own_turn [OF r1 u]
    have a: "email \<in> fst ` set ds" using map_of_SomeD [OF Some] by force
    have st: "state_of m' email = st" using forget_state [OF d2, of now ds email] a f2 ot(1) by (simp add: m same_for_def)
    have le: "limit_ends email m' = limit_ends email m @ List.map (\<lambda>r. now + sr_duration r * second) hits"
      using f1 f2 ot(2) by (simp add: m forget_frame same_for_def)
    have "watches rule email (past @ [(now, speed)]) m'"
      using ks(2) st le d' f1 f2 ot(3,4) r by (simp add: m forget_frame same_for_def watches_def)
    moreover have "auto_limited email m' = auto_limited email (evaluate_one now (email, speed) m1)"
      using f2 by (simp add: m forget_frame same_for_def)
    ultimately show ?thesis
      using le ks(1) u own_limit [OF r1 _ _] ot(6) f1 b1 by (auto simp: same_for_def)
  qed
  then show "limit_ends email m' = limit_ends email m @
      (if limit_due rule (limit_ends email m) past now speed then [now + sr_duration rule * second] else [])"
    "watches rule email (past @ [(now, speed)]) m'"
    "if limit_due rule (limit_ends email m) past now speed
      then has_inbounds m \<and> 0 < (word_of_int (mbps_bytes (sr_limit rule)) :: 64 word) \<longrightarrow> auto_limited email m'
      else auto_limited email m' = auto_limited email m" by blast+
qed

text \<open>A history: evaluations at increasing times, each about different users.\<close>

definition proper_history :: "monitor_event list \<Rightarrow> bool" where
  "proper_history es \<longleftrightarrow>
     sorted_wrt (<) (List.map fst (measured [] es)) \<and>
     list_all (\<lambda>e. case e of Measure now ds elapsed \<Rightarrow> distinct (List.map fst ds) | _ \<Rightarrow> True) es"

lemma measured_times: "List.map fst (measured email es) = List.map fst (measured email' es)"
  by (induction email es rule: measured.induct) simp_all

lemma other_events:
  "watches rule email past m \<Longrightarrow> watches rule email past (restore_limit e m)"
  "watches rule email past m \<Longrightarrow> watches rule email past (SetLimiter l m)"
  by (simp_all add: watches_def restore_limit_def SetLimiter_def limit_ends_def state_of_def)

lemma history_watches:
  assumes "sr_type rule = ''sustained''" and "0 < sr_duration rule" and "\<not> over rule 0"
  shows "proper_history es \<Longrightarrow>
    watches rule email (measured email es) (monitor_run es (SetLimiter l (UpdateRules [rule] NewSpeedMonitor)))"
proof (induction es rule: rev_induct)
  case Nil
  show ?case
    by (simp add: monitor_run_def watches_def SetLimiter_def UpdateRules_def NewSpeedMonitor_def limit_ends_def
        state_of_def knows_def idle_state_def free_of_def)
next
  case (snoc e es)
  let ?m = "monitor_run es (SetLimiter l (UpdateRules [rule] NewSpeedMonitor))"
  have "proper_history es" using snoc.prems by (simp add: proper_history_def sorted_wrt_append)
  note w = snoc.IH [OF this]
  show ?case
  proof (cases e)
    case (Measure now ds elapsed)
    show ?thesis
    proof (cases "0 < elapsed")
      case True
      have p: "\<forall>x\<in>set (measured email es). fst x < now"
      proof -
        have "\<forall>t\<in>set (List.map fst (measured [] es)). t < now"
          using snoc.prems Measure True by (simp add: proper_history_def sorted_wrt_append)
        then show ?thesis unfolding measured_times [of "[]" es email] by simp
      qed
      have "distinct (List.map fst ds)" using snoc.prems Measure by (simp add: proper_history_def)
      from evaluate_watches(2) [OF assms w p True this refl refl] show ?thesis
        using Measure True by (simp add: monitor_run_def)
    qed (use w Measure in \<open>simp add: monitor_run_def Evaluate_def\<close>)
  qed (use w other_events in \<open>simp_all add: monitor_run_def\<close>)
qed

text \<open>C35: A sustained rule limits exactly the users it describes. The monitor has one rule, of the kind \<open>sustained\<close>, with
  a positive duration and a threshold that is not negative; evaluations come at increasing times, with whatever users
  and traffic, limits end and new limiters are delivered in between. Then an evaluation limits a user, and
  sets the end of the limit, if and only if no limit of the user is running, the measured speed is over the threshold,
  and it was at every evaluation of an unbroken stretch since the end of the last limit that reaches back at least the
  configured number of seconds; an evaluation below the threshold, or without the user, starts the count again. A
  positive limit marks the user as limited in the limiter when that has inbounds, and otherwise the mark is not
  touched.\<close>

theorem sustained_rule_exact:
  assumes "sr_type rule = ''sustained''" and "0 < sr_duration rule" and "\<not> over rule 0"
    and "proper_history (es @ [Measure now ds elapsed])" and "0 < elapsed"
    and "m = monitor_run es (SetLimiter l (UpdateRules [rule] NewSpeedMonitor))"
    and "speed = (case map_of ds email of None \<Rightarrow> 0 | Some delta \<Rightarrow> user_speed elapsed delta)"
    and "due = limit_due rule (limit_ends email m) (measured email es) now speed"
  shows "limit_ends email (Evaluate now ds elapsed m) =
      limit_ends email m @ (if due then [now + sr_duration rule * second] else []) \<and>
    (due \<and> has_inbounds m \<and> 0 < (word_of_int (mbps_bytes (sr_limit rule)) :: 64 word) \<longrightarrow>
      auto_limited email (Evaluate now ds elapsed m)) \<and>
    (\<not> due \<longrightarrow> auto_limited email (Evaluate now ds elapsed m) = auto_limited email m)"
proof -
  have "proper_history es" using assms(4) by (simp add: proper_history_def sorted_wrt_append)
  from history_watches [OF assms(1-3) this] have w: "watches rule email (measured email es) m" by (simp add: assms(6))
  have "\<forall>t\<in>set (List.map fst (measured [] es)). t < now"
    using assms(4,5) by (simp add: proper_history_def sorted_wrt_append)
  then have p: "\<forall>x\<in>set (measured email es). fst x < now" unfolding measured_times [of "[]" es email] by simp
  have "distinct (List.map fst ds)" using assms(4) by (simp add: proper_history_def)
  note e = evaluate_watches [OF assms(1-3) w p assms(5) this assms(7) refl]
  from e(1,3) assms(8) show ?thesis by simp
qed

definition demo_rule :: speed_rule where
  "demo_rule = \<lparr>sr_type = ''sustained'', sr_threshold = 8, sr_sustained = 10, sr_window = 0, sr_burst = 0,
     sr_limit = 1, sr_duration = 60\<rparr>"

lemma demo_over: "over demo_rule s \<longleftrightarrow> 1000000 < s"
  by (simp add: over_def demo_rule_def mbps_bytes_def truncate_rat_def)

definition demo_history :: "monitor_event list" where
  "demo_history = [Measure second [(''u'', 2000000), (''v'', 5)] second, TimerEnds ''v'',
     Measure (6 * second) [(''u'', 3000000)] second]"

lemma sustained_rule_exact_witness:
  "limit_ends ''u'' (Evaluate (11 * second) [(''u'', 2000000)] second
     (monitor_run demo_history (SetLimiter new_limiter (UpdateRules [demo_rule] NewSpeedMonitor)))) = [71 * second]"
proof -
  define m where "m = monitor_run demo_history (SetLimiter new_limiter (UpdateRules [demo_rule] NewSpeedMonitor))"
  have t: "sr_type demo_rule = ''sustained''" "0 < sr_duration demo_rule" by (simp_all add: demo_rule_def)
  have o: "\<not> over demo_rule 0" by (simp add: demo_over)
  have h: "proper_history (demo_history @ [Measure (11 * second) [(''u'', 2000000)] second])"
    by (simp add: proper_history_def demo_history_def second_def)
  have u: "user_speed second x = x" if "0 \<le> x" for x
    using that by (simp add: user_speed_def second_def truncate_rat_def)
  have p: "measured ''u'' demo_history = [(second, 2000000), (6 * second, 3000000)]"
    by (simp add: demo_history_def u) (simp add: second_def)
  have e: "limit_ends ''u'' m = []"
  proof -
    have u: "user_speed 1000000000 x = x" if "0 \<le> x" for x using u [OF that] by (simp add: second_def)
    have "''u'' \<noteq> ''v''" by simp
    moreover
    have "mbps_bytes 8 = 1000000" by (simp add: mbps_bytes_def truncate_rat_def)
    then show ?thesis
      by (simp add: m_def monitor_run_def demo_history_def SetLimiter_def UpdateRules_def NewSpeedMonitor_def limit_ends_def
          Evaluate_def restore_limit_def Let_def u evaluate_one_def state_of_def eval_user_def before_until_def
          idle_state_def evalSustained_def demo_rule_def second_def)
  qed
  have d: "limit_due demo_rule [] (measured ''u'' demo_history) (11 * second) 2000000"
    by (simp add: limit_due_def p free_of_def demo_over second_def) (simp add: demo_rule_def)
  have s: "(0 :: int) < second" by (simp add: second_def)
  from sustained_rule_exact [OF t o h s m_def refl refl, of "''u''"] show ?thesis
    using d by (simp add: e u m_def [symmetric]) (simp add: demo_rule_def second_def)
qed

section \<open>What the two rules share\<close>

text \<open>Both kinds of rule use the same start of the fast period. A sustained rule with a higher threshold
  in front of a burst rule clears it at every evaluation between the two thresholds, so that a burst which
  the burst rule alone limits is not seen.\<close>

definition burst_rule :: speed_rule where
  "burst_rule = \<lparr>sr_type = ''burst'', sr_threshold = 8, sr_sustained = 5, sr_window = 600, sr_burst = 1,
     sr_limit = 1, sr_duration = 60\<rparr>"

definition high_rule :: speed_rule where
  "high_rule = \<lparr>sr_type = ''sustained'', sr_threshold = 80, sr_sustained = 600, sr_window = 0, sr_burst = 0,
     sr_limit = 1, sr_duration = 60\<rparr>"

fun rules_run :: "speed_rule list \<Rightarrow> (int \<times> int) list \<Rightarrow> user_state \<Rightarrow> int list" where
  "rules_run rules [] st = []"
| "rules_run rules ((now, speed) # xs) st =
     (case eval_user rules speed now st of
        (st1, hits) \<Rightarrow> (if hits = [] then [] else [now]) @ rules_run rules xs st1)"

text \<open>With two sustained rules the statement fails for the lower one: both keep the start of the stretch in the same
  field, and the higher one clears it at every evaluation between the thresholds. A user whom the lower rule alone
  limits is never limited.\<close>

definition higher_rule :: speed_rule where
  "higher_rule = demo_rule\<lparr>sr_threshold := 80, sr_sustained := 600\<rparr>"

lemma rule_hidden_by_higher:
  "rules_run [demo_rule] [(0, 2000000), (10 * second, 2000000)] idle_state = [10 * second] \<and>
   rules_run [demo_rule, higher_rule] [(0, 2000000), (10 * second, 2000000)] idle_state = []"
proof -
  have m: "mbps_bytes 8 = 1000000" "mbps_bytes 80 = 10000000" by (simp_all add: mbps_bytes_def truncate_rat_def)
  show ?thesis
    by (simp add: eval_user_def before_until_def idle_state_def demo_rule_def higher_rule_def evalSustained_def
        mark_limited_def second_def m Let_def)
qed

lemma burst_hidden_by_sustained:
  "rules_run [burst_rule] [(0, 2000000), (10 * second, 2000000), (20 * second, 0)] idle_state = [20 * second] \<and>
   rules_run [high_rule, burst_rule] [(0, 2000000), (10 * second, 2000000), (20 * second, 0)] idle_state = []"
proof -
  have m: "mbps_bytes 8 = 1000000" "mbps_bytes 80 = 10000000" by (simp_all add: mbps_bytes_def truncate_rat_def)
  show ?thesis
    by (simp add: eval_user_def before_until_def idle_state_def burst_rule_def high_rule_def evalSustained_def
        evalBurst_def mark_limited_def second_def m Let_def)
qed

end
