(* ===== verification/Traffic.thy ===== *)
theory Traffic
  imports Speed_Monitor
begin

text \<open>
  Traffic accounting: the counters of the embedded Xray (\<open>internal/embedded/stats.go\<close>), the metrics of
  an external one (\<open>internal/collector/metrics.go\<close>), the network cards and the speeds computed from them
  (\<open>internal/agent/client.go\<close>). The counters are given as the list the statistics manager visits.
  Sums are 64-bit signed in Go; traffic totals stay far below 2^63 and are unbounded here.
\<close>

section \<open>Counters\<close>

text \<open>\<open>strings.Split(name, ">>>")\<close>.\<close>

fun split_gt :: "nat \<Rightarrow> string \<Rightarrow> string list" where
  "split_gt 0 s = [[]]"
| "split_gt (Suc n) [] = [[]]"
| "split_gt (Suc n) (c # s) =
     (if has_prefix (c # s) ''>>>'' then [] # split_gt n (drop 3 (c # s))
      else (case split_gt n s of [] \<Rightarrow> [[c]] | p # ps \<Rightarrow> (c # p) # ps))"

definition split_name :: "string \<Rightarrow> string list" where
  "split_name s = split_gt (length s) s"

record traffic_data =
  td_up :: int
  td_down :: int

definition no_traffic :: traffic_data where
  "no_traffic = \<lparr>td_up = 0, td_down = 0\<rparr>"

record xray_stats =
  xs_inbound :: "(string \<times> traffic_data) list"
  xs_outbound :: "(string \<times> traffic_data) list"
  xs_user :: "(string \<times> traffic_data) list"

definition empty_stats :: xray_stats where
  "empty_stats = \<lparr>xs_inbound = [], xs_outbound = [], xs_user = []\<rparr>"

definition visit_counter :: "string \<Rightarrow> string \<times> int \<Rightarrow> (string \<times> traffic_data) list \<Rightarrow> (string \<times> traffic_data) list" where
  "visit_counter category x dest =
     (case x of (name, v) \<Rightarrow>
        if \<not> has_prefix name (category @ ''>>>'') then dest
        else
          (let parts = split_name name
           in if length parts \<noteq> 4 \<or> parts ! 2 \<noteq> ''traffic'' then dest
              else
                (let tag = parts ! 1; direction = parts ! 3;
                     td = (case map_of dest tag of None \<Rightarrow> no_traffic | Some td \<Rightarrow> td)
                 in AList.update tag
                      (if direction = ''uplink'' then td\<lparr>td_up := v\<rparr>
                       else if direction = ''downlink'' then td\<lparr>td_down := v\<rparr> else td) dest)))"

definition collectCounterPair :: "(string \<times> int) list \<Rightarrow> string \<Rightarrow> (string \<times> traffic_data) list" where
  "collectCounterPair counters category = fold (visit_counter category) counters []"

text \<open>\<open>CollectStats\<close>: nothing without a statistics manager, empty tables without an instance.\<close>

definition CollectStats :: "(string \<times> int) list option \<Rightarrow> bool \<Rightarrow> xray_stats option" where
  "CollectStats manager instance_ok =
     (case manager of
        None \<Rightarrow> None
      | Some counters \<Rightarrow>
          if \<not> instance_ok then Some empty_stats
          else Some \<lparr>xs_inbound = collectCounterPair counters ''inbound'',
                     xs_outbound = collectCounterPair counters ''outbound'',
                     xs_user = collectCounterPair counters ''user''\<rparr>)"

definition visit_user :: "string \<times> int \<Rightarrow> (string \<times> int) list \<Rightarrow> (string \<times> int) list" where
  "visit_user x result =
     (case x of (name, v) \<Rightarrow>
        if \<not> has_prefix name ''user>>>'' then result
        else
          (let parts = split_name name
           in if length parts \<noteq> 4 \<or> parts ! 2 \<noteq> ''traffic'' then result
              else add_count (parts ! 1) v result))"

definition SnapshotUserTraffic :: "(string \<times> int) list option \<Rightarrow> (string \<times> int) list option" where
  "SnapshotUserTraffic manager = map_option (\<lambda>counters. fold visit_user counters []) manager"

definition merge_table :: "(string \<times> traffic_data) list \<Rightarrow> (string \<times> traffic_data) list \<Rightarrow> (string \<times> traffic_data) list" where
  "merge_table dest source = fold (\<lambda>(k, v) m. AList.update k v m) source dest"

definition MergeStats :: "xray_stats \<Rightarrow> xray_stats option \<Rightarrow> xray_stats" where
  "MergeStats dest source =
     (case source of
        None \<Rightarrow> dest
      | Some s \<Rightarrow> \<lparr>xs_inbound = merge_table (xs_inbound dest) (xs_inbound s),
                   xs_outbound = merge_table (xs_outbound dest) (xs_outbound s),
                   xs_user = merge_table (xs_user dest) (xs_user s)\<rparr>)"

text \<open>\<open>collectLocalMetrics\<close>: embedded, or the sum over the external servers. Each server comes with the result
  of finding its metrics port and of fetching its metrics (\<open>None\<close> for an error).\<close>

record local_xray =
  lx_embedded_mode :: bool
  lx_running :: bool
  lx_manager :: "(string \<times> int) list option"
  lx_processes :: nat
  lx_servers :: "xray_stats option option list"

definition collectLocalMetrics :: "local_xray \<Rightarrow> xray_stats" where
  "collectLocalMetrics x =
     (if lx_embedded_mode x then
        (if \<not> lx_running x then empty_stats
         else (case CollectStats (lx_manager x) (lx_running x) of None \<Rightarrow> empty_stats | Some s \<Rightarrow> s))
      else if lx_processes x = 0 then empty_stats
      else fold (\<lambda>r s. case r of None \<Rightarrow> s | Some m \<Rightarrow> MergeStats s m) (lx_servers x) empty_stats)"

section \<open>The metrics address\<close>

text \<open>The result of \<open>GetMetricsPortFromConfig\<close> for the value of \<open>metrics.listen\<close>.\<close>

definition metrics_address :: "string \<Rightarrow> (string \<times> int) option" where
  "metrics_address listen =
     (let parsed =
        (if list_ex (\<lambda>c. c = CHR 0x3A) listen then
           (case split_on (CHR 0x3A) listen of
              [h, p] \<Rightarrow>
                (case atoi p of None \<Rightarrow> None | Some n \<Rightarrow> Some (if h \<noteq> [] then h else ''127.0.0.1'', n))
            | _ \<Rightarrow> Some (''127.0.0.1'', 0))
         else map_option (\<lambda>n. (''127.0.0.1'', n)) (atoi listen))
      in (case parsed of
            None \<Rightarrow> None
          | Some (h, p) \<Rightarrow> if p \<le> 0 \<or> 65535 < p then None else Some (h, p)))"

section \<open>Network cards\<close>

definition virtualInterfacePrefixes :: "string list" where
  "virtualInterfacePrefixes =
     [''lo'', ''docker'', ''veth'', ''br-'', ''virbr'', ''vnet'', ''flannel'', ''cni'', ''calico'', ''tunl'', ''wg'',
      ''tailscale'', ''tun'', ''tap'', ''dummy'']"

definition isPhysicalInterface :: "string \<Rightarrow> bool" where
  "isPhysicalInterface name = (\<not> list_ex (has_prefix name) virtualInterfacePrefixes)"

text \<open>\<open>strings.Fields\<close>.\<close>

definition go_fields :: "string \<Rightarrow> string list" where
  "go_fields s = filter (\<lambda>p. p \<noteq> []) (split_on (CHR 0x20) (List.map (\<lambda>c. if is_space c then CHR 0x20 else c) s))"

text \<open>One line of \<open>/proc/net/dev\<close>.\<close>

definition net_line :: "string \<Rightarrow> (int \<times> int) option" where
  "net_line raw =
     (let line = trim_space raw
      in (case dropWhile (\<lambda>c. c \<noteq> CHR 0x3A) line of
            [] \<Rightarrow> None
          | _ # rest \<Rightarrow>
              (let iface = trim_space (takeWhile (\<lambda>c. c \<noteq> CHR 0x3A) line); fields = go_fields rest
               in if \<not> isPhysicalInterface iface \<or> length fields < 10 then None
                  else (case (atoi (fields ! 0), atoi (fields ! 8)) of
                          (Some rx, Some tx) \<Rightarrow> Some (rx, tx) | _ \<Rightarrow> None))))"

definition getSystemNetworkStats :: "string option \<Rightarrow> int \<times> int" where
  "getSystemNetworkStats file =
     (case file of
        None \<Rightarrow> (0, 0)
      | Some content \<Rightarrow>
          fold (\<lambda>line (rx, tx). case net_line line of None \<Rightarrow> (rx, tx) | Some (r, t) \<Rightarrow> (rx + r, tx + t))
            (split_on (CHR 0x0A) content) (0, 0))"

record speed_sample =
  sp_rx :: int
  sp_tx :: int
  sp_time :: "int option"

text \<open>\<open>collectSpeed\<close>: upload, download, the new sample.\<close>

definition collectSpeed :: "int \<Rightarrow> string option \<Rightarrow> speed_sample \<Rightarrow> int \<times> int \<times> speed_sample" where
  "collectSpeed now file s =
     (case getSystemNetworkStats file of
        (rx, tx) \<Rightarrow>
          (case (case sp_time s of
                   None \<Rightarrow> (0, 0)
                 | Some t \<Rightarrow>
                     if 0 < sp_rx s \<and> 0 < now - t
                     then (user_speed (now - t) (tx - sp_tx s), user_speed (now - t) (rx - sp_rx s))
                     else (0, 0)) of
             (up, down) \<Rightarrow> (up, down, \<lparr>sp_rx = rx, sp_tx = tx, sp_time = Some now\<rparr>)))"

section \<open>Feeding the speed monitor\<close>

record meter =
  mt_monitor :: monitor
  mt_traffic :: "int option"
  mt_eval :: "int option"
  mt_snapshot :: "(string \<times> int) list option"

definition new_meter :: meter where
  "new_meter = \<lparr>mt_monitor = NewSpeedMonitor, mt_traffic = None, mt_eval = None, mt_snapshot = None\<rparr>"

text \<open>\<open>evaluateSpeedLimits\<close>, at every speed tick.\<close>

definition evaluateSpeedLimits :: "int \<Rightarrow> (string \<times> int) list option \<Rightarrow> meter \<Rightarrow> meter" where
  "evaluateSpeedLimits now manager m =
     (case SnapshotUserTraffic manager of
        None \<Rightarrow> m
      | Some snapshot \<Rightarrow>
          (case (mt_eval m, mt_snapshot m) of
             (Some t0, Some prev) \<Rightarrow>
               (let elapsed = now - t0
                in if elapsed \<le> 0 then m
                   else
                     (let userDeltas = filter (\<lambda>(_, d). 0 < d)
                            (List.map (\<lambda>(email, total). (email, total - count_at prev email)) snapshot);
                          m1 = m\<lparr>mt_eval := Some now, mt_snapshot := Some snapshot\<rparr>
                      in if userDeltas = [] then m1
                         else m1\<lparr>mt_monitor := Evaluate now userDeltas elapsed (mt_monitor m1)\<rparr>))
           | _ \<Rightarrow> m\<lparr>mt_eval := Some now, mt_snapshot := Some snapshot\<rparr>))"

text \<open>The part of \<open>sendTrafficData\<close> that measures users, at every traffic tick in embedded mode.\<close>

definition meter_traffic :: "int \<Rightarrow> xray_stats \<Rightarrow> meter \<Rightarrow> meter" where
  "meter_traffic now stats m =
     (let m1 = m\<lparr>mt_snapshot := None, mt_eval := Some now\<rparr>;
          m2 = (case mt_traffic m1 of
                  None \<Rightarrow> m1
                | Some t0 \<Rightarrow>
                    m1\<lparr>mt_monitor := Evaluate now
                         (List.map (\<lambda>(email, td). (email, td_up td + td_down td)) (xs_user stats))
                         (now - t0) (mt_monitor m1)\<rparr>)
      in m2\<lparr>mt_traffic := Some now\<rparr>)"

section \<open>Lemmas\<close>

text \<open>A name is split at every separator, and only there.\<close>

lemma has_prefix_gt [simp]: "has_prefix (''>>>'' @ s) ''>>>''"
  by (rule has_prefix_append)

lemma split_gt_len: "length s \<le> n \<Longrightarrow> split_gt n s = split_gt (length s) s"
proof (induction "length s" arbitrary: s n rule: less_induct)
  case less
  show ?case
  proof (cases s)
    case Nil
    then show ?thesis by (cases n) simp_all
  next
    case (Cons c t)
    with less.prems obtain k where n: "n = Suc k" "length t \<le> k" by (cases n) auto
    have lt: "length t < length s" "length (drop 3 s) < length s" using Cons by simp_all
    have le: "length (drop 3 s) \<le> length t" using Cons by simp
    have 1: "split_gt k t = split_gt (length t) t" by (rule less.hyps [OF lt(1) n(2)])
    have 2: "split_gt k (drop 3 s) = split_gt (length (drop 3 s)) (drop 3 s)"
      by (rule less.hyps [OF lt(2)]) (use le n(2) in linarith)
    have 3: "split_gt (length t) (drop 3 s) = split_gt (length (drop 3 s)) (drop 3 s)"
      by (rule less.hyps [OF lt(2) le])
    have "split_gt k (drop 3 (c # t)) = split_gt (length t) (drop 3 (c # t))"
      unfolding Cons [symmetric] 2 3 ..
    with 1 show ?thesis unfolding n(1) Cons length_Cons split_gt.simps by (simp only:)
  qed
qed

definition no_gt :: "string \<Rightarrow> bool" where
  "no_gt s \<longleftrightarrow> CHR 0x3E \<notin> set s"

lemma split_name_plain: "no_gt s \<Longrightarrow> split_name s = [s]"
proof -
  have "no_gt s \<Longrightarrow> split_gt (length s) s = [s]"
    by (induction s) (auto simp: no_gt_def)
  then show "no_gt s \<Longrightarrow> split_name s = [s]" by (simp add: split_name_def)
qed

lemma split_name_sep: "no_gt p \<Longrightarrow> split_name (p @ ''>>>'' @ s) = p # split_name s"
proof -
  assume "no_gt p"
  then have "split_gt (length (p @ ''>>>'' @ s)) (p @ ''>>>'' @ s) = p # split_name s"
  proof (induction p)
    case Nil
    show ?case using split_gt_len [of s "length s + 2"] by (simp add: split_name_def numeral_2_eq_2)
  next
    case (Cons c p)
    then show ?case by (auto simp: no_gt_def)
  qed
  then show ?thesis by (simp add: split_name_def)
qed

definition counter_name :: "string \<Rightarrow> string \<Rightarrow> string \<Rightarrow> string" where
  "counter_name category tag direction = category @ ''>>>'' @ tag @ ''>>>'' @ ''traffic'' @ ''>>>'' @ direction"

lemma split_counter_name:
  "no_gt c \<Longrightarrow> no_gt t \<Longrightarrow> no_gt d \<Longrightarrow> split_name (counter_name c t d) = [c, t, ''traffic'', d]"
proof -
  assume g: "no_gt c" "no_gt t" "no_gt d"
  have "no_gt ''traffic''" by (simp add: no_gt_def)
  note sep = split_name_sep [OF g(1)] split_name_sep [OF g(2)] split_name_sep [OF this]
  show ?thesis unfolding counter_name_def sep split_name_plain [OF g(3)] ..
qed

text \<open>The value a list of counters gives to a name: the last one wins.\<close>

definition last_value :: "(string \<times> int) list \<Rightarrow> string \<Rightarrow> int" where
  "last_value counters name = (case map_of (rev counters) name of None \<Rightarrow> 0 | Some v \<Rightarrow> v)"

lemma join_split_gt: "length s \<le> n \<Longrightarrow> join_with ''>>>'' (split_gt n s) = s \<and> split_gt n s \<noteq> []"
proof (induction n s rule: split_gt.induct)
  case (3 n c s)
  show ?case
  proof (cases "has_prefix (c # s) ''>>>''")
    case True
    then obtain r where r: "c # s = ''>>>'' @ r" unfolding has_prefix_iff by blast
    with 3 True have "join_with ''>>>'' (split_gt n r) = r" "split_gt n r \<noteq> []" by (auto simp del: has_prefix_Cons)
    then have "join_with ''>>>'' ([] # split_gt n r) = ''>>>'' @ r" by (cases "split_gt n r") auto
    moreover have "split_gt (Suc n) (c # s) = [] # split_gt n r" using True r by (simp del: has_prefix_Cons)
    ultimately show ?thesis using r by simp
  next
    case False
    with 3 have "join_with ''>>>'' (split_gt n s) = s" "split_gt n s \<noteq> []" by auto
    then obtain p ps where p: "split_gt n s = p # ps" "join_with ''>>>'' (p # ps) = s" by (cases "split_gt n s") auto
    then have "join_with ''>>>'' ((c # p) # ps) = c # s" by (cases ps) auto
    with p False show ?thesis by (simp del: has_prefix_Cons)
  qed
qed simp_all

lemma four_parts:
  assumes "length ps = 4"
  shows "ps = [ps ! 0, ps ! 1, ps ! 2, ps ! 3]"
proof -
  obtain a b c d where "ps = [a, b, c, d]"
    using assms by (auto simp: length_Suc_conv eval_nat_numeral)
  then show ?thesis by simp
qed

lemma counter_name_iff:
  assumes "no_gt category"
  shows "has_prefix name (category @ ''>>>'') \<and> length (split_name name) = 4 \<and> split_name name ! 2 = ''traffic'' \<and>
      split_name name ! 1 = tag \<and> split_name name ! 3 = d \<longleftrightarrow>
    name = counter_name category tag d \<and> length (split_name name) = 4 \<and> split_name name ! 2 = ''traffic'' \<and>
      split_name name ! 1 = tag \<and> split_name name ! 3 = d"
proof -
  have "name = counter_name category tag d"
    if a: "has_prefix name (category @ ''>>>'')" "length (split_name name) = 4" "split_name name ! 2 = ''traffic''"
      "split_name name ! 1 = tag" "split_name name ! 3 = d"
  proof -
    from a(1) obtain r where r: "name = category @ ''>>>'' @ r" unfolding has_prefix_iff by auto
    with split_name_sep [OF assms] have "split_name name ! 0 = category" by simp
    with four_parts [OF a(2)] a have "split_name name = [category, tag, ''traffic'', d]" by simp
    with join_split_gt [of name "length name"] have "name = join_with ''>>>'' [category, tag, ''traffic'', d]"
      by (simp add: split_name_def)
    then show ?thesis by (simp add: counter_name_def)
  qed
  moreover have "has_prefix (counter_name category tag d) (category @ ''>>>'')"
    unfolding counter_name_def has_prefix_iff by simp
  ultimately show ?thesis by blast
qed

text \<open>What one visited counter does to one tag.\<close>

definition value_at :: "string \<Rightarrow> (string \<times> traffic_data) list \<Rightarrow> traffic_data" where
  "value_at tag dest = (case map_of dest tag of None \<Rightarrow> no_traffic | Some td \<Rightarrow> td)"

lemma visit_counter_effect:
  assumes "no_gt category" and "no_gt tag"
  shows "td_up (value_at tag (visit_counter category (name, v) dest)) =
           (if name = counter_name category tag ''uplink'' then v else td_up (value_at tag dest)) \<and>
         td_down (value_at tag (visit_counter category (name, v) dest)) =
           (if name = counter_name category tag ''downlink'' then v else td_down (value_at tag dest))"
proof -
  let ?p = "split_name name"
  have u: "no_gt ''uplink''" "no_gt ''downlink''" by (simp_all add: no_gt_def)
  have own: "split_name (counter_name category tag ''uplink'') = [category, tag, ''traffic'', ''uplink'']"
    "split_name (counter_name category tag ''downlink'') = [category, tag, ''traffic'', ''downlink'']"
    using split_counter_name assms u by blast+
  have pre: "has_prefix (counter_name category tag d) (category @ ''>>>'')" for d
    unfolding counter_name_def has_prefix_iff by simp
  note iff = counter_name_iff [OF assms(1), of name tag]
  show ?thesis
  proof (cases "has_prefix name (category @ ''>>>'') \<and> length ?p = 4 \<and> ?p ! 2 = ''traffic''")
    case False
    then have "visit_counter category (name, v) dest = dest"
      by (auto simp: visit_counter_def Let_def)
    moreover have "name \<noteq> counter_name category tag ''uplink''" "name \<noteq> counter_name category tag ''downlink''"
      using False own pre by auto
    ultimately show ?thesis by simp
  next
    case True
    then have v: "visit_counter category (name, v) dest = AList.update (?p ! 1)
        (if ?p ! 3 = ''uplink'' then (value_at (?p ! 1) dest)\<lparr>td_up := v\<rparr>
         else if ?p ! 3 = ''downlink'' then (value_at (?p ! 1) dest)\<lparr>td_down := v\<rparr> else value_at (?p ! 1) dest) dest"
      by (simp add: visit_counter_def value_at_def Let_def)
    show ?thesis
    proof (cases "?p ! 1 = tag")
      case False
      then have "name \<noteq> counter_name category tag ''uplink''" "name \<noteq> counter_name category tag ''downlink''"
        using own by auto
      with False show ?thesis by (simp add: v value_at_def update_conv)
    next
      case same: True
      have "?p ! 3 = d" if "split_name (counter_name category tag d) = [category, tag, ''traffic'', d]"
        "name = counter_name category tag d" for d
        using that by simp
      with own iff [of "''uplink''"] iff [of "''downlink''"] True same
      have "name = counter_name category tag ''uplink'' \<longleftrightarrow> ?p ! 3 = ''uplink''"
        "name = counter_name category tag ''downlink'' \<longleftrightarrow> ?p ! 3 = ''downlink''"
        by blast+
      with same show ?thesis by (auto simp: v value_at_def update_conv)
    qed
  qed
qed

text \<open>The counters end up where they belong. For every inbound, outbound or user, the reported up- and
  downlink are exactly the values of the counters of that very name (0 when there is none), whatever
  other counters there are and in whatever order they are visited.\<close>

theorem collect_counters_exact:
  assumes "no_gt category" and "no_gt tag"
  shows "value_at tag (collectCounterPair counters category) =
    \<lparr>td_up = last_value counters (counter_name category tag ''uplink''),
     td_down = last_value counters (counter_name category tag ''downlink'')\<rparr>"
proof -
  have "td_up (value_at tag (collectCounterPair counters category)) =
      last_value counters (counter_name category tag ''uplink'') \<and>
    td_down (value_at tag (collectCounterPair counters category)) =
      last_value counters (counter_name category tag ''downlink'')"
  proof (induction counters rule: rev_induct)
    case Nil
    show ?case by (simp add: collectCounterPair_def value_at_def last_value_def no_traffic_def)
  next
    case (snoc x counters)
    obtain name v where x: "x = (name, v)" by fastforce
    have "collectCounterPair (counters @ [x]) category = visit_counter category (name, v) (collectCounterPair counters category)"
      by (simp add: collectCounterPair_def x)
    with snoc visit_counter_effect [OF assms, of name v "collectCounterPair counters category"] show ?case
      by (simp add: last_value_def x)
  qed
  then show ?thesis by (metis traffic_data.surjective old.unit.exhaust)
qed

lemma collect_counters_exact_witness:
  "value_at ''a'' (collectCounterPair
     [(''user>>>a>>>traffic>>>uplink'', 3), (''user>>>b>>>traffic>>>uplink'', 9), (''user>>>a>>>traffic>>>downlink'', 4)]
     ''user'') = \<lparr>td_up = 3, td_down = 4\<rparr>"
proof -
  have g: "no_gt ''user''" "no_gt ''a''" by (simp_all add: no_gt_def)
  show ?thesis unfolding collect_counters_exact [OF g] by (simp add: last_value_def counter_name_def)
qed

section \<open>Cumulative counters as deltas\<close>

text \<open>\<open>CollectStats\<close> reads the counters without resetting them, so what it reports is the total since Xray
  started. \<open>sendTrafficData\<close> hands these totals to the monitor as the traffic of the last interval. A user
  who moved a gigabyte long ago and is idle now is measured at 200 MB/s, reported so, and limited.\<close>

lemma traffic_tick_speed:
  assumes "mt_traffic m = Some t0" and "t0 < now"
  shows "mo_speeds (mt_monitor (meter_traffic now stats m)) =
    List.map (\<lambda>(email, td). (email, user_speed (now - t0) (td_up td + td_down td))) (xs_user stats)"
proof -
  have k: "mo_speeds (fold (evaluate_one t) xs m) = mo_speeds m" for t xs m
  proof (induction xs arbitrary: m)
    case (Cons x xs)
    have h: "mo_speeds (fold (applyLimit e t) rs m) = mo_speeds m" for e rs and m :: monitor
      by (induction rs arbitrary: m) (simp_all add: applyLimit_def)
    have "mo_speeds (evaluate_one t x m) = mo_speeds m"
      by (simp add: evaluate_one_def case_prod_beta h)
    with Cons show ?case by simp
  qed simp
  show ?thesis using assms
    by (simp add: meter_traffic_def Evaluate_def Let_def k comp_def case_prod_beta)
qed

definition idle_stats :: xray_stats where
  "idle_stats = \<lparr>xs_inbound = [], xs_outbound = [], xs_user = [(''u'', \<lparr>td_up = 0, td_down = 1000000000\<rparr>)]\<rparr>"

lemma idle_user_is_limited:
  "let m0 = new_meter\<lparr>mt_monitor := SetLimiter new_limiter (UpdateRules [demo_rule] NewSpeedMonitor)\<rparr>;
       m1 = meter_traffic second idle_stats m0;
       m2 = meter_traffic (6 * second) idle_stats m1;
       m3 = meter_traffic (16 * second) idle_stats m2
   in mo_speeds (mt_monitor m2) = [(''u'', 200000000)] \<and> mo_timers (mt_monitor m3) = [(76 * second, ''u'')]"
proof -
  have m: "mbps_bytes 8 = 1000000" "mbps_bytes 1 = 125000" by (simp_all add: mbps_bytes_def truncate_rat_def)
  have u: "user_speed 5000000000 1000000000 = 200000000" "user_speed 10000000000 1000000000 = 100000000"
    by (simp_all add: user_speed_def truncate_rat_def second_def)
  show ?thesis
    by (simp add: meter_traffic_def new_meter_def Evaluate_def SetLimiter_def UpdateRules_def NewSpeedMonitor_def
        idle_stats_def demo_rule_def Let_def second_def u m evaluate_one_def eval_user_def state_of_def idle_state_def
        before_until_def after_until_def evalSustained_def mark_limited_def applyLimit_def set_everywhere_def
        new_limiter_def)
qed

text \<open>The speed tick does it right: the monitor gets the growth since the last snapshot.\<close>

lemma speed_tick_deltas:
  assumes "mt_eval m = Some t0" and "mt_snapshot m = Some prev" and "t0 < now"
    and "SnapshotUserTraffic manager = Some snapshot" and "\<exists>(e, v)\<in>set snapshot. count_at prev e < v"
  shows "mt_monitor (evaluateSpeedLimits now manager m) =
    Evaluate now (filter (\<lambda>(_, d). 0 < d) (List.map (\<lambda>(email, total). (email, total - count_at prev email)) snapshot))
      (now - t0) (mt_monitor m)"
proof -
  have "filter (\<lambda>(_, d). 0 < d) (List.map (\<lambda>(email, total). (email, total - count_at prev email)) snapshot) \<noteq> []"
    using assms(5) by (force simp: filter_empty_conv)
  with assms show ?thesis by (simp add: evaluateSpeedLimits_def Let_def)
qed

section \<open>Parsing\<close>

lemma metrics_address_examples:
  "metrics_address ''127.0.0.1:38889'' = Some (''127.0.0.1'', 38889)" "metrics_address '':99'' = Some (''127.0.0.1'', 99)"
  "metrics_address ''[::1]:99'' = None"
  by (simp_all add: metrics_address_def atoi_def is_digit_def digits_value_def Let_def)

lemma metrics_address_port: "metrics_address listen = Some (h, p) \<Longrightarrow> 1 \<le> p \<and> p \<le> 65535"
  by (auto simp: metrics_address_def Let_def split: option.splits if_splits list.splits)

text \<open>The first sample gives no speed, and speeds are never negative.\<close>

lemma collectSpeed_bounds:
  "collectSpeed now file s = (up, down, s') \<Longrightarrow> 0 \<le> up \<and> 0 \<le> down \<and> (sp_time s = None \<longrightarrow> up = 0 \<and> down = 0)"
  by (auto simp: collectSpeed_def user_speed_def Let_def split: prod.splits option.splits if_splits)

end
