(* ===== verification/Xray_Ensure.thy ===== *)
theory Xray_Ensure
  imports Config_Handlers
begin

text \<open>
  The sections of Xray's configuration the agent depends on: completing a configuration at every
  start (\<open>EnsureXrayConfig\<close> with its helpers), and the switches for metrics, statistics and the gRPC
  port (\<open>getXraySystemConfig\<close>, \<open>updateXraySystemConfig\<close>), all in
  \<open>internal/handler/management_handler.go\<close>. Sections are checked and repaired one after another;
  the locale \<open>section_repair\<close> states what a repair promises, and every repair is shown to keep it.
\<close>

section \<open>Checks and repairs\<close>

definition flag_at :: "obj \<Rightarrow> string \<Rightarrow> bool" where
  "flag_at m k = (case map_of m k of Some (JBool b) \<Rightarrow> b | _ \<Rightarrow> False)"

definition hasValidPolicy :: "obj \<Rightarrow> bool" where
  "hasValidPolicy config =
     (case get_obj config ''policy'' of
        None \<Rightarrow> False
      | Some policy \<Rightarrow>
          (case get_obj policy ''levels'' of
             None \<Rightarrow> False
           | Some levels \<Rightarrow>
               (case get_obj levels ''0'' of
                  None \<Rightarrow> False
                | Some level0 \<Rightarrow> flag_at level0 ''statsUserUplink'' \<and> flag_at level0 ''statsUserDownlink'')))"

definition getTemplatePolicy :: obj where
  "getTemplatePolicy =
     [(''levels'', JObj [(''0'', JObj
        [(''handshake'', JNum 5 0), (''connIdle'', JNum 300 0), (''uplinkOnly'', JNum 2 0), (''downlinkOnly'', JNum 2 0),
         (''statsUserUplink'', JBool True), (''statsUserDownlink'', JBool True)])]),
      (''system'', JObj
        [(''statsInboundUplink'', JBool True), (''statsInboundDownlink'', JBool True),
         (''statsOutboundUplink'', JBool True), (''statsOutboundDownlink'', JBool True)])]"

definition hasAPIInbound :: "obj \<Rightarrow> bool" where
  "hasAPIInbound config =
     (case get_arr config ''inbounds'' of None \<Rightarrow> False | Some inbounds \<Rightarrow> list_ex (has_tag ''api'') inbounds)"

definition api_inbound :: "int \<Rightarrow> json" where
  "api_inbound port =
     JObj [(''tag'', JStr ''api''), (''port'', JNum port 0), (''listen'', JStr ''127.0.0.1''),
           (''protocol'', JStr ''dokodemo-door''),
           (''settings'', JObj [(''address'', JStr ''127.0.0.1'')])]"

definition addAPIInbound :: "obj \<Rightarrow> obj" where
  "addAPIInbound config =
     jset ''inbounds'' (JArr (api_inbound 46736 # get_list config ''inbounds'')) config"

definition targets_api :: "json \<Rightarrow> bool" where
  "targets_api r = (case as_obj r of Some rule \<Rightarrow> get_str rule ''outboundTag'' = ''api'' | None \<Rightarrow> False)"

definition hasAPIRoutingRule :: "obj \<Rightarrow> bool" where
  "hasAPIRoutingRule config =
     (case get_obj config ''routing'' of
        None \<Rightarrow> False
      | Some routing \<Rightarrow>
          (case get_arr routing ''rules'' of None \<Rightarrow> False | Some rules \<Rightarrow> list_ex targets_api rules))"

definition api_rule :: json where
  "api_rule =
     JObj [(''type'', JStr ''field''), (''inboundTag'', JArr [JStr ''api'']), (''outboundTag'', JStr ''api'')]"

definition addAPIRoutingRule :: "obj \<Rightarrow> obj" where
  "addAPIRoutingRule config =
     (let routing = (case get_obj config ''routing'' of
                       Some r \<Rightarrow> r
                     | None \<Rightarrow> [(''domainStrategy'', JStr ''IPIfNonMatch''), (''rules'', JArr [])])
      in jset ''routing'' (JObj (jset ''rules'' (JArr (api_rule # get_list routing ''rules'')) routing)) config)"

definition hasRequiredOutbounds :: "obj \<Rightarrow> bool" where
  "hasRequiredOutbounds config =
     (case get_arr config ''outbounds'' of
        None \<Rightarrow> False
      | Some outbounds \<Rightarrow> list_ex (has_tag ''direct'') outbounds \<and> list_ex (has_tag ''block'') outbounds)"

definition addRequiredOutbounds :: "obj \<Rightarrow> obj" where
  "addRequiredOutbounds config =
     (let outbounds = get_list config ''outbounds''; tags = tags_of outbounds;
          o1 = (if ''direct'' \<notin> set tags
                then outbounds @ [JObj [(''tag'', JStr ''direct''), (''protocol'', JStr ''freedom'')]] else outbounds);
          o2 = (if ''block'' \<notin> set tags
                then o1 @ [JObj [(''tag'', JStr ''block''), (''protocol'', JStr ''blackhole'')]] else o1)
      in jset ''outbounds'' (JArr o2) config)"

definition default_rules :: "json list" where
  "default_rules =
     [JObj [(''type'', JStr ''field''), (''protocol'', JArr [JStr ''bittorrent'']), (''marktag'', JStr ''ban_bt''),
            (''outboundTag'', JStr ''block'')],
      JObj [(''type'', JStr ''field''), (''ip'', JArr [JStr ''geoip:private'']), (''outboundTag'', JStr ''block'')]]"

text \<open>The configuration and whether it changed.\<close>

definition ensureRoutingRules :: "obj \<Rightarrow> obj \<times> bool" where
  "ensureRoutingRules config =
     (case get_obj config ''routing'' of
        Some routing \<Rightarrow>
          (case get_arr routing ''rules'' of
             Some _ \<Rightarrow> (config, False)
           | None \<Rightarrow> (jset ''routing'' (JObj (jset ''rules'' (JArr default_rules) routing)) config, True))
      | None \<Rightarrow>
          (jset ''routing''
             (JObj (jset ''rules'' (JArr default_rules) [(''domainStrategy'', JStr ''IPIfNonMatch'')])) config, True))"

definition deprecated_rule :: "json \<Rightarrow> bool" where
  "deprecated_rule r = (case as_obj r of Some rule \<Rightarrow> get_str rule ''marktag'' = ''fix_openai'' | None \<Rightarrow> False)"

definition removeDeprecatedRoutingRules :: "obj \<Rightarrow> obj \<times> bool" where
  "removeDeprecatedRoutingRules config =
     (case get_obj config ''routing'' of
        None \<Rightarrow> (config, False)
      | Some routing \<Rightarrow>
          (let rules = get_list routing ''rules''; kept = filter (\<lambda>r. \<not> deprecated_rule r) rules
           in if rules = [] \<or> length kept = length rules then (config, False)
              else (jset ''routing'' (JObj (jset ''rules'' (JArr kept) routing)) config, True)))"

section \<open>EnsureXrayConfig\<close>

text \<open>A section is checked and, when the check fails, repaired and its name noted.\<close>

definition ensure_section ::
  "(obj \<Rightarrow> bool) \<Rightarrow> (obj \<Rightarrow> obj) \<Rightarrow> string \<Rightarrow> obj \<times> string list \<Rightarrow> obj \<times> string list" where
  "ensure_section ok fix name s =
     (case s of (config, added) \<Rightarrow> if ok config then s else (fix config, added @ [name]))"

definition ensure_change ::
  "(obj \<Rightarrow> obj \<times> bool) \<Rightarrow> string \<Rightarrow> obj \<times> string list \<Rightarrow> obj \<times> string list" where
  "ensure_change f name s =
     (case s of (config, added) \<Rightarrow>
        (case f config of (config', changed) \<Rightarrow> (config', if changed then added @ [name] else added)))"

definition ensure_dedupe :: "string \<Rightarrow> obj \<times> string list \<Rightarrow> obj \<times> string list" where
  "ensure_dedupe key s =
     (case s of (config, added) \<Rightarrow>
        (case dedupeTaggedArrayInPlace config key of
           (config', removed) \<Rightarrow>
             (config', if 0 < removed then added @ [''dedupe_'' @ key @ ''_removed='' @ itoa (int removed)] else added)))"

definition api_section :: json where
  "api_section =
     JObj [(''tag'', JStr ''api''),
           (''services'', JArr [JStr ''HandlerService'', JStr ''LoggerService'', JStr ''StatsService'', JStr ''RoutingService''])]"

definition add_api :: "obj \<Rightarrow> obj" where "add_api = jset ''api'' api_section"
definition add_stats :: "obj \<Rightarrow> obj" where "add_stats = jset ''stats'' (JObj [])"
definition add_policy :: "obj \<Rightarrow> obj" where "add_policy = jset ''policy'' (JObj getTemplatePolicy)"
definition add_metrics :: "obj \<Rightarrow> obj" where
  "add_metrics = jset ''metrics'' (JObj [(''tag'', JStr ''Metrics''), (''listen'', JStr ''127.0.0.1:38889'')])"
definition add_log :: "obj \<Rightarrow> obj" where "add_log = jset ''log'' (JObj [(''loglevel'', JStr ''error'')])"

definition ensure_sections :: "obj \<Rightarrow> obj \<times> string list" where
  "ensure_sections config =
     (let s1 = ensure_section (\<lambda>c. has_key c ''api'') add_api ''api'' (config, []);
          s2 = ensure_section (\<lambda>c. has_key c ''stats'') add_stats ''stats'' s1;
          s3 = ensure_section hasValidPolicy add_policy ''policy'' s2;
          s4 = ensure_section hasAPIInbound addAPIInbound ''api_inbound'' s3;
          s5 = ensure_section hasAPIRoutingRule addAPIRoutingRule ''api_routing_rule'' s4;
          s6 = ensure_section hasRequiredOutbounds addRequiredOutbounds ''outbounds'' s5;
          s7 = ensure_section (\<lambda>c. has_key c ''metrics'') add_metrics ''metrics'' s6;
          s8 = ensure_section (\<lambda>c. has_key c ''log'') add_log ''log'' s7;
          s9 = ensure_change ensureRoutingRules ''routing_rules'' s8;
          s10 = ensure_change removeDeprecatedRoutingRules ''removed_deprecated_routing_rules'' s9;
          s11 = ensure_dedupe ''inbounds'' s10
      in ensure_dedupe ''outbounds'' s11)"

record ensure_result =
  er_path :: string
  er_modified :: bool
  er_added :: "string list"
  er_error :: string

definition ensure_failed :: "string \<Rightarrow> string \<Rightarrow> ensure_result" where
  "ensure_failed path e = \<lparr>er_path = path, er_modified = False, er_added = [], er_error = e\<rparr>"

definition EnsureXrayConfig :: "cfg_env \<Rightarrow> world \<Rightarrow> ensure_result \<times> world" where
  "EnsureXrayConfig env w =
     (if ce_path env = [] then (ensure_failed [] ''Xray config not found'', w)
      else
        (case read_file (ce_path env) w of
           (Inl _, w1) \<Rightarrow> (ensure_failed (ce_path env) ''Failed to read config'', w1)
         | (Inr content, w1) \<Rightarrow>
             (case ce_dec env content of
                None \<Rightarrow> (ensure_failed (ce_path env) ''Invalid JSON'', w1)
              | Some config \<Rightarrow>
                  (case ensure_sections config of
                     (config', added) \<Rightarrow>
                       if added = []
                       then (\<lparr>er_path = ce_path env, er_modified = False, er_added = [], er_error = []\<rparr>, w1)
                       else
                         (let w2 = snd (write_file (ce_path env @ ''.backup'') content w1)
                          in (case write_file (ce_path env) (ce_enc env config') w2 of
                                (Some _, w3) \<Rightarrow>
                                  (\<lparr>er_path = ce_path env, er_modified = False, er_added = added,
                                    er_error = ''Failed to write config''\<rparr>, w3)
                              | (None, w3) \<Rightarrow>
                                  (\<lparr>er_path = ce_path env, er_modified = True, er_added = added, er_error = []\<rparr>, w3)))))))"

section \<open>The system switches\<close>

record sys_config =
  sc_metrics :: bool
  sc_listen :: string
  sc_stats :: bool
  sc_grpc :: bool
  sc_port :: int

definition sys_config_json :: "sys_config \<Rightarrow> json" where
  "sys_config_json s =
     JObj [(''metrics_enabled'', JBool (sc_metrics s)), (''metrics_listen'', JStr (sc_listen s)),
           (''stats_enabled'', JBool (sc_stats s)), (''grpc_enabled'', JBool (sc_grpc s)),
           (''grpc_port'', JNum (sc_port s) 0)]"

definition read_sys_config :: "obj \<Rightarrow> sys_config" where
  "read_sys_config config =
     \<lparr>sc_metrics = (get_obj config ''metrics'' \<noteq> None),
      sc_listen = (case get_obj config ''metrics'' of
                     Some metrics \<Rightarrow>
                       (case Option.bind (map_of metrics ''listen'') as_str of
                          Some listen \<Rightarrow> listen | None \<Rightarrow> ''127.0.0.1:38889'')
                   | None \<Rightarrow> ''127.0.0.1:38889''),
      sc_stats = has_key config ''stats'',
      sc_grpc = (case get_obj config ''api'' of Some section \<Rightarrow> has_key section ''tag'' | None \<Rightarrow> False),
      sc_port = (case find (has_tag ''api'') (get_list config ''inbounds'') of
                   Some (JObj inbound) \<Rightarrow>
                     (case map_of inbound ''port'' of Some (JNum a e) \<Rightarrow> num_trunc a e | _ \<Rightarrow> 46736)
                 | _ \<Rightarrow> 46736)\<rparr>"

definition getXraySystemConfig :: "cfg_env \<Rightarrow> world \<Rightarrow> reply \<times> world" where
  "getXraySystemConfig env w =
     (if ce_path env = [] then (writeError 404 ''Xray config not found'', w)
      else
        (case read_file (ce_path env) w of
           (Inl _, w1) \<Rightarrow> (writeError 500 ''Failed to read config'', w1)
         | (Inr content, w1) \<Rightarrow>
             (case ce_dec env content of
                None \<Rightarrow> (writeError 500 ''Invalid JSON'', w1)
              | Some config \<Rightarrow> (writeOk [(''config'', sys_config_json (read_sys_config config))], w1))))"

definition ensureAPIRoutingRule :: "obj \<Rightarrow> obj" where
  "ensureAPIRoutingRule config =
     (let config1 = (case get_obj config ''routing'' of
                       Some _ \<Rightarrow> config
                     | None \<Rightarrow> jset ''routing''
                         (JObj [(''domainStrategy'', JStr ''IPIfNonMatch''), (''rules'', JArr [])]) config);
          routing = (case get_obj config1 ''routing'' of Some r \<Rightarrow> r | None \<Rightarrow> []);
          rules = get_list routing ''rules''
      in if list_ex targets_api rules then config1
         else jset ''routing'' (JObj (jset ''rules'' (JArr (api_rule # rules)) routing)) config1)"

definition removeAPIRoutingRule :: "obj \<Rightarrow> obj" where
  "removeAPIRoutingRule config =
     (case get_obj config ''routing'' of
        None \<Rightarrow> config
      | Some routing \<Rightarrow>
          (case get_arr routing ''rules'' of
             None \<Rightarrow> config
           | Some rules \<Rightarrow>
               jset ''routing'' (JObj (jset ''rules''
                 (JArr (filter (\<lambda>r. as_obj r \<noteq> None \<and> \<not> targets_api r) rules)) routing)) config))"

definition set_port :: "int \<Rightarrow> json \<Rightarrow> json" where
  "set_port port x = (case as_obj x of Some m \<Rightarrow> JObj (jset ''port'' (JNum port 0) m) | None \<Rightarrow> x)"

definition set_metrics :: "sys_config \<Rightarrow> obj \<Rightarrow> obj" where
  "set_metrics req config =
     (if sc_metrics req
      then jset ''metrics'' (JObj [(''tag'', JStr ''Metrics''), (''listen'', JStr (sc_listen req))]) config
      else jdel ''metrics'' config)"

definition set_stats :: "sys_config \<Rightarrow> obj \<Rightarrow> obj" where
  "set_stats req config =
     (if sc_stats req then jset ''policy'' (JObj getTemplatePolicy) (jset ''stats'' (JObj []) config)
      else jdel ''policy'' (jdel ''stats'' config))"

definition set_grpc :: "sys_config \<Rightarrow> obj \<Rightarrow> obj" where
  "set_grpc req config =
     (if sc_grpc req then
        (let config1 = jset ''api'' api_section config;
             inbounds' = (case get_arr config1 ''inbounds'' of
                            Some inbounds \<Rightarrow>
                              (if list_ex (has_tag ''api'') inbounds
                               then update_first (has_tag ''api'') (set_port (sc_port req)) inbounds
                               else api_inbound (sc_port req) # inbounds)
                          | None \<Rightarrow> [api_inbound (sc_port req)])
         in ensureAPIRoutingRule (jset ''inbounds'' (JArr inbounds') config1))
      else
        (let config1 = jdel ''api'' config;
             config2 = (case get_arr config1 ''inbounds'' of
                          Some inbounds \<Rightarrow>
                            jset ''inbounds''
                              (JArr (filter (\<lambda>x. as_obj x \<noteq> None \<and> \<not> has_tag ''api'' x) inbounds)) config1
                        | None \<Rightarrow> config1)
         in removeAPIRoutingRule config2))"

definition set_system :: "sys_config \<Rightarrow> obj \<Rightarrow> obj" where
  "set_system req config = set_grpc req (set_stats req (set_metrics req config))"

text \<open>\<open>None\<close> is a body that does not decode.\<close>

definition updateXraySystemConfig :: "cfg_env \<Rightarrow> sys_config option \<Rightarrow> world \<Rightarrow> reply \<times> world" where
  "updateXraySystemConfig env payload w =
     (case payload of
        None \<Rightarrow> (writeError 400 ''Invalid request body'', w)
      | Some req \<Rightarrow>
          if ce_path env = [] then (writeError 404 ''Xray config not found'', w)
          else
            (case read_file (ce_path env) w of
               (Inl _, w1) \<Rightarrow> (writeError 500 ''Failed to read config'', w1)
             | (Inr content, w1) \<Rightarrow>
                 (case ce_dec env content of
                    None \<Rightarrow> (writeError 500 ''Invalid JSON'', w1)
                  | Some config \<Rightarrow>
                      (let w2 = snd (write_file (ce_path env @ ''.backup'') content w1)
                       in (case write_file (ce_path env) (ce_enc env (set_system req config)) w2 of
                             (Some _, w3) \<Rightarrow> (writeError 500 ''Failed to write config'', w3)
                           | (None, w3) \<Rightarrow>
                               (writeOk [(''message'', JStr ''System config updated, Xray restarted'')],
                                snd (restart_xray (ce_path env) w3)))))))"

definition HandleXraySystemConfig ::
  "bool \<Rightarrow> string \<Rightarrow> cfg_env \<Rightarrow> sys_config option \<Rightarrow> world \<Rightarrow> reply \<times> world" where
  "HandleXraySystemConfig authenticated meth env payload w =
     (if \<not> authenticated then (writeError 401 ''Unauthorized'', w)
      else if meth = ''GET'' then getXraySystemConfig env w
      else if meth = ''POST'' then updateXraySystemConfig env payload w
      else (writeError 405 ''Method not allowed'', w))"

section \<open>What a repair promises\<close>

text \<open>A section lives under one key: its check reads that key alone, its repair writes that key alone and makes the
  check succeed.\<close>

locale section_repair =
  fixes key :: string and ok :: "obj \<Rightarrow> bool" and repair :: "obj \<Rightarrow> obj"
  assumes repairs: "ok (repair c)"
    and frame: "k \<noteq> key \<Longrightarrow> map_of (repair c) k = map_of c k"
    and reads_key: "map_of c key = map_of d key \<Longrightarrow> ok c \<longleftrightarrow> ok d"
begin

lemma ensured: "ok (fst (ensure_section ok repair name s))"
  by (cases s) (simp add: ensure_section_def repairs)

lemma section_frame: "k \<noteq> key \<Longrightarrow> map_of (fst (ensure_section ok repair name s)) k = map_of (fst s) k"
  by (cases s) (simp add: ensure_section_def frame)

lemma quiet: "ok (fst s) \<Longrightarrow> ensure_section ok repair name s = s"
  by (cases s) (simp add: ensure_section_def)

lemma noted: "snd (ensure_section ok repair name s) = [] \<Longrightarrow> fst (ensure_section ok repair name s) = fst s \<and> snd s = []"
  by (cases s) (simp add: ensure_section_def split: if_splits)

lemma kept: "ok c \<Longrightarrow> map_of d key = map_of c key \<Longrightarrow> ok d"
  using reads_key [of d c] by simp

end

lemma get_by_key:
  "map_of c k = map_of d k \<Longrightarrow> get_arr c k = get_arr d k"
  "map_of c k = map_of d k \<Longrightarrow> get_obj c k = get_obj d k"
  "map_of c k = map_of d k \<Longrightarrow> get_list c k = get_list d k"
  "map_of c k = map_of d k \<Longrightarrow> has_key c k = has_key d k"
  by (simp_all add: get_arr_def get_obj_def get_list_def has_key_def)

lemma list_ex_tag: "tag \<noteq> [] \<Longrightarrow> list_ex (has_tag tag) xs \<longleftrightarrow> tag \<in> set (tags_of xs)"
  by (auto simp: list_ex_iff set_tags_of has_tag_tag_of)

interpretation api_repair: section_repair "''api''" "\<lambda>c. has_key c ''api''" add_api
  by unfold_locales (simp_all add: add_api_def has_key_def)

interpretation stats_repair: section_repair "''stats''" "\<lambda>c. has_key c ''stats''" add_stats
  by unfold_locales (simp_all add: add_stats_def has_key_def)

interpretation policy_repair: section_repair "''policy''" hasValidPolicy add_policy
proof
  fix c d :: obj and k :: string
  show "hasValidPolicy (add_policy c)"
    by (simp add: hasValidPolicy_def add_policy_def getTemplatePolicy_def flag_at_def)
  show "k \<noteq> ''policy'' \<Longrightarrow> map_of (add_policy c) k = map_of c k" by (simp add: add_policy_def)
  show "map_of c ''policy'' = map_of d ''policy'' \<Longrightarrow> hasValidPolicy c \<longleftrightarrow> hasValidPolicy d"
    by (simp add: hasValidPolicy_def get_by_key [of c "''policy''" d])
qed

interpretation metrics_repair: section_repair "''metrics''" "\<lambda>c. has_key c ''metrics''" add_metrics
  by unfold_locales (simp_all add: add_metrics_def has_key_def)

interpretation log_repair: section_repair "''log''" "\<lambda>c. has_key c ''log''" add_log
  by unfold_locales (simp_all add: add_log_def has_key_def)

interpretation inbound_repair: section_repair "''inbounds''" hasAPIInbound addAPIInbound
proof
  fix c d :: obj and k :: string
  show "hasAPIInbound (addAPIInbound c)"
    by (simp add: hasAPIInbound_def addAPIInbound_def api_inbound_def has_tag_def)
  show "k \<noteq> ''inbounds'' \<Longrightarrow> map_of (addAPIInbound c) k = map_of c k" by (simp add: addAPIInbound_def)
  show "map_of c ''inbounds'' = map_of d ''inbounds'' \<Longrightarrow> hasAPIInbound c \<longleftrightarrow> hasAPIInbound d"
    by (simp add: hasAPIInbound_def get_by_key [of c "''inbounds''" d])
qed

interpretation rule_repair: section_repair "''routing''" hasAPIRoutingRule addAPIRoutingRule
proof
  fix c d :: obj and k :: string
  show "hasAPIRoutingRule (addAPIRoutingRule c)"
    by (simp add: hasAPIRoutingRule_def addAPIRoutingRule_def api_rule_def targets_api_def Let_def)
  show "k \<noteq> ''routing'' \<Longrightarrow> map_of (addAPIRoutingRule c) k = map_of c k"
    by (simp add: addAPIRoutingRule_def Let_def)
  show "map_of c ''routing'' = map_of d ''routing'' \<Longrightarrow> hasAPIRoutingRule c \<longleftrightarrow> hasAPIRoutingRule d"
    by (simp add: hasAPIRoutingRule_def get_by_key [of c "''routing''" d])
qed

interpretation outbound_repair: section_repair "''outbounds''" hasRequiredOutbounds addRequiredOutbounds
proof
  fix c d :: obj and k :: string
  show "hasRequiredOutbounds (addRequiredOutbounds c)"
    by (simp add: hasRequiredOutbounds_def addRequiredOutbounds_def list_ex_tag Let_def)
  show "k \<noteq> ''outbounds'' \<Longrightarrow> map_of (addRequiredOutbounds c) k = map_of c k"
    by (simp add: addRequiredOutbounds_def Let_def)
  show "map_of c ''outbounds'' = map_of d ''outbounds'' \<Longrightarrow> hasRequiredOutbounds c \<longleftrightarrow> hasRequiredOutbounds d"
    by (simp add: hasRequiredOutbounds_def get_by_key [of c "''outbounds''" d])
qed

section \<open>The three steps on a key that is already in place\<close>

text \<open>\<open>ensureRoutingRules\<close> never does anything where it is called: the step before it made sure there is a
  routing rule for the API, so the rules are an array.\<close>

lemma ensureRoutingRules_dead: "hasAPIRoutingRule c \<Longrightarrow> ensureRoutingRules c = (c, False)"
  by (auto simp: hasAPIRoutingRule_def ensureRoutingRules_def split: option.splits)

lemma deprecated_effect:
  "rules_of (fst (removeDeprecatedRoutingRules c)) = filter (\<lambda>r. \<not> deprecated_rule r) (rules_of c)"
  "k \<noteq> ''routing'' \<Longrightarrow> map_of (fst (removeDeprecatedRoutingRules c)) k = map_of c k"
  "\<not> snd (removeDeprecatedRoutingRules c) \<Longrightarrow> fst (removeDeprecatedRoutingRules c) = c"
proof -
  have f: "length (filter p xs) = length xs \<Longrightarrow> filter p xs = xs" for p and xs :: "json list"
    by (metis filter_True length_filter_less less_irrefl)
  show "rules_of (fst (removeDeprecatedRoutingRules c)) = filter (\<lambda>r. \<not> deprecated_rule r) (rules_of c)"
    by (auto simp: removeDeprecatedRoutingRules_def rules_of_def Let_def f split: option.splits)
  show "k \<noteq> ''routing'' \<Longrightarrow> map_of (fst (removeDeprecatedRoutingRules c)) k = map_of c k"
    by (auto simp: removeDeprecatedRoutingRules_def Let_def split: option.splits)
  show "\<not> snd (removeDeprecatedRoutingRules c) \<Longrightarrow> fst (removeDeprecatedRoutingRules c) = c"
    by (auto simp: removeDeprecatedRoutingRules_def Let_def split: option.splits if_splits)
qed

lemma deprecated_quiet:
  "\<forall>r\<in>set (rules_of c). \<not> deprecated_rule r \<Longrightarrow> removeDeprecatedRoutingRules c = (c, False)"
  by (auto simp: removeDeprecatedRoutingRules_def rules_of_def Let_def split: option.splits)

lemma api_rule_in: "hasAPIRoutingRule c \<longleftrightarrow> (\<exists>r\<in>set (rules_of c). targets_api r)"
  by (auto simp: hasAPIRoutingRule_def rules_of_def get_list_def list_ex_iff split: option.splits)

lemma deprecated_keeps_api:
  assumes "\<exists>r\<in>set (rules_of c). targets_api r \<and> \<not> deprecated_rule r"
  shows "hasAPIRoutingRule (fst (removeDeprecatedRoutingRules c))"
  using assms by (auto simp: api_rule_in deprecated_effect(1))

lemma dedupe_list_tag_set: "set (tags_of (fst (dedupe_list key arr))) = set (tags_of arr)"
  using dedupe_loop_tags [OF index_ok_empty, of key arr 0]
  by (simp add: dedupe_list_def dedup_by_id_distinct)

lemma dedupe_arr:
  "get_arr (fst (dedupeTaggedArrayInPlace c key)) key = map_option (\<lambda>a. fst (dedupe_list key a)) (get_arr c key)"
  using dedupe_list_zero [of key]
  by (auto simp: dedupeTaggedArrayInPlace_def split: option.splits prod.splits) (metis fst_conv snd_conv)

lemma dedupe_quiet: "unique_tags (get_list c key) \<Longrightarrow> ensure_dedupe key (c, added) = (c, added)"
  by (auto simp: ensure_dedupe_def dedupeTaggedArrayInPlace_def get_list_def dedupe_list_same split: option.splits)

lemma dedupe_keeps_api: "hasAPIInbound c \<Longrightarrow> hasAPIInbound (fst (dedupeTaggedArrayInPlace c ''inbounds''))"
  by (auto simp: hasAPIInbound_def dedupe_arr list_ex_tag dedupe_list_tag_set split: option.splits)

lemma dedupe_keeps_outbounds:
  "hasRequiredOutbounds c \<Longrightarrow> hasRequiredOutbounds (fst (dedupeTaggedArrayInPlace c ''outbounds''))"
  by (auto simp: hasRequiredOutbounds_def dedupe_arr list_ex_tag dedupe_list_tag_set split: option.splits)

section \<open>A completed configuration\<close>

definition complete_config :: "obj \<Rightarrow> bool" where
  "complete_config c \<longleftrightarrow>
     has_key c ''api'' \<and> has_key c ''stats'' \<and> hasValidPolicy c \<and> hasAPIInbound c \<and> hasAPIRoutingRule c \<and>
     hasRequiredOutbounds c \<and> has_key c ''metrics'' \<and> has_key c ''log'' \<and>
     (\<forall>r\<in>set (rules_of c). \<not> deprecated_rule r) \<and>
     unique_tags (get_list c ''inbounds'') \<and> unique_tags (get_list c ''outbounds'')"

text \<open>The configuration alone, step by step.\<close>

definition repaired :: "obj \<Rightarrow> obj" where
  "repaired c =
     (let c1 = (if has_key c ''api'' then c else add_api c);
          c2 = (if has_key c1 ''stats'' then c1 else add_stats c1);
          c3 = (if hasValidPolicy c2 then c2 else add_policy c2);
          c4 = (if hasAPIInbound c3 then c3 else addAPIInbound c3);
          c5 = (if hasAPIRoutingRule c4 then c4 else addAPIRoutingRule c4);
          c6 = (if hasRequiredOutbounds c5 then c5 else addRequiredOutbounds c5);
          c7 = (if has_key c6 ''metrics'' then c6 else add_metrics c6)
      in (if has_key c7 ''log'' then c7 else add_log c7))"

definition swept :: "obj \<Rightarrow> obj" where
  "swept c =
     fst (dedupeTaggedArrayInPlace
       (fst (dedupeTaggedArrayInPlace (fst (removeDeprecatedRoutingRules c)) ''inbounds'')) ''outbounds'')"

lemma fst_ensure_section: "fst (ensure_section ok f n s) = (if ok (fst s) then fst s else f (fst s))"
  by (cases s) (simp add: ensure_section_def)

lemma fst_ensure_change: "fst (ensure_change f n s) = fst (f (fst s))"
  by (cases s) (simp add: ensure_change_def case_prod_beta)

lemma fst_ensure_dedupe: "fst (ensure_dedupe key s) = fst (dedupeTaggedArrayInPlace (fst s) key)"
  by (cases s) (simp add: ensure_dedupe_def case_prod_beta)

lemma repaired_ok:
  "has_key (repaired c) ''api''" "has_key (repaired c) ''stats''" "hasValidPolicy (repaired c)"
  "hasAPIInbound (repaired c)" "hasAPIRoutingRule (repaired c)" "hasRequiredOutbounds (repaired c)"
  "has_key (repaired c) ''metrics''" "has_key (repaired c) ''log''"
proof -
  note ok = api_repair.repairs stats_repair.repairs policy_repair.repairs inbound_repair.repairs
    rule_repair.repairs outbound_repair.repairs metrics_repair.repairs log_repair.repairs
  define c1 where "c1 = (if has_key c ''api'' then c else add_api c)"
  define c2 where "c2 = (if has_key c1 ''stats'' then c1 else add_stats c1)"
  define c3 where "c3 = (if hasValidPolicy c2 then c2 else add_policy c2)"
  define c4 where "c4 = (if hasAPIInbound c3 then c3 else addAPIInbound c3)"
  define c5 where "c5 = (if hasAPIRoutingRule c4 then c4 else addAPIRoutingRule c4)"
  define c6 where "c6 = (if hasRequiredOutbounds c5 then c5 else addRequiredOutbounds c5)"
  define c7 where "c7 = (if has_key c6 ''metrics'' then c6 else add_metrics c6)"
  define c8 where "c8 = (if has_key c7 ''log'' then c7 else add_log c7)"
  have r: "repaired c = c8"
    by (simp add: repaired_def Let_def c1_def c2_def c3_def c4_def c5_def c6_def c7_def c8_def)
  have f2: "k \<noteq> ''stats'' \<Longrightarrow> map_of c2 k = map_of c1 k" for k by (simp add: c2_def stats_repair.frame)
  have f3: "k \<noteq> ''policy'' \<Longrightarrow> map_of c3 k = map_of c2 k" for k by (simp add: c3_def policy_repair.frame)
  have f4: "k \<noteq> ''inbounds'' \<Longrightarrow> map_of c4 k = map_of c3 k" for k by (simp add: c4_def inbound_repair.frame)
  have f5: "k \<noteq> ''routing'' \<Longrightarrow> map_of c5 k = map_of c4 k" for k by (simp add: c5_def rule_repair.frame)
  have f6: "k \<noteq> ''outbounds'' \<Longrightarrow> map_of c6 k = map_of c5 k" for k by (simp add: c6_def outbound_repair.frame)
  have f7: "k \<noteq> ''metrics'' \<Longrightarrow> map_of c7 k = map_of c6 k" for k by (simp add: c7_def metrics_repair.frame)
  have f8: "k \<noteq> ''log'' \<Longrightarrow> map_of c8 k = map_of c7 k" for k by (simp add: c8_def log_repair.frame)
  have "has_key c1 ''api''" by (simp add: c1_def ok)
  then show "has_key (repaired c) ''api''" unfolding r
    by (rule api_repair.kept) (simp add: f2 f3 f4 f5 f6 f7 f8)
  have "has_key c2 ''stats''" by (simp add: c2_def ok)
  then show "has_key (repaired c) ''stats''" unfolding r
    by (rule stats_repair.kept) (simp add: f3 f4 f5 f6 f7 f8)
  have "hasValidPolicy c3" by (simp add: c3_def ok)
  then show "hasValidPolicy (repaired c)" unfolding r
    by (rule policy_repair.kept) (simp add: f4 f5 f6 f7 f8)
  have "hasAPIInbound c4" by (simp add: c4_def ok)
  then show "hasAPIInbound (repaired c)" unfolding r
    by (rule inbound_repair.kept) (simp add: f5 f6 f7 f8)
  have "hasAPIRoutingRule c5" by (simp add: c5_def ok)
  then show "hasAPIRoutingRule (repaired c)" unfolding r
    by (rule rule_repair.kept) (simp add: f6 f7 f8)
  have "hasRequiredOutbounds c6" by (simp add: c6_def ok)
  then show "hasRequiredOutbounds (repaired c)" unfolding r
    by (rule outbound_repair.kept) (simp add: f7 f8)
  have "has_key c7 ''metrics''" by (simp add: c7_def ok)
  then show "has_key (repaired c) ''metrics''" unfolding r
    by (rule metrics_repair.kept) (simp add: f8)
  show "has_key (repaired c) ''log''" unfolding r by (simp add: c8_def ok)
qed

lemma ensure_fst: "fst (ensure_sections c) = swept (repaired c)"
proof -
  have "hasAPIRoutingRule (repaired c)" by (rule repaired_ok)
  note d = ensureRoutingRules_dead [OF this]
  show ?thesis
    unfolding ensure_sections_def Let_def fst_ensure_dedupe fst_ensure_change
    unfolding fst_ensure_section fst_conv
    using d by (simp only: repaired_def Let_def swept_def fst_conv)
qed

lemma snd_ensure_section: "snd (ensure_section ok f n s) = snd s @ (if ok (fst s) then [] else [n])"
  by (cases s) (simp add: ensure_section_def)

lemma ensure_quiet: "complete_config c \<Longrightarrow> ensure_sections c = (c, [])"
  unfolding complete_config_def ensure_sections_def Let_def
  by (simp add: ensure_section_def ensure_change_def ensureRoutingRules_dead deprecated_quiet dedupe_quiet)

text \<open>Nothing noted, nothing changed.\<close>

lemma ensure_unnoted: "snd (ensure_sections c) = [] \<Longrightarrow> fst (ensure_sections c) = c"
proof -
  have a: "snd (ensure_section ok f n s) = [] \<Longrightarrow> ensure_section ok f n s = s" for ok f n s
    by (cases s) (simp add: ensure_section_def split: if_splits)
  have b: "snd (ensure_change f n s) = [] \<Longrightarrow> (\<And>x. \<not> snd (f x) \<Longrightarrow> fst (f x) = x) \<Longrightarrow> ensure_change f n s = s" for f n s
    by (cases s) (auto simp: ensure_change_def case_prod_beta split: if_splits)
  have e: "snd (ensure_dedupe key s) = [] \<Longrightarrow> ensure_dedupe key s = s" for key s
    by (cases s) (auto simp: ensure_dedupe_def dedupeTaggedArrayInPlace_def case_prod_beta split: if_splits option.splits)
  have g: "\<not> snd (ensureRoutingRules x) \<Longrightarrow> fst (ensureRoutingRules x) = x" for x
    by (auto simp: ensureRoutingRules_def split: option.splits)
  have compose: "(\<And>s. snd (f s) = [] \<Longrightarrow> f s = s) \<Longrightarrow> (snd s = [] \<Longrightarrow> s = t) \<Longrightarrow> snd (f s) = [] \<Longrightarrow> f s = t"
    for f and s t :: "obj \<times> string list" by metis
  have "ensure_sections c = (c, [])" if "snd (ensure_sections c) = []"
    using that unfolding ensure_sections_def Let_def
    by (intro compose [OF e] compose [OF b [OF _ deprecated_effect(3)]] compose [OF b [OF _ g]] compose [OF a]) simp_all
  then show "snd (ensure_sections c) = [] \<Longrightarrow> fst (ensure_sections c) = c" by simp
qed

lemma rules_by_key: "map_of c ''routing'' = map_of d ''routing'' \<Longrightarrow> rules_of c = rules_of d"
  unfolding rules_of_def by (simp only: get_by_key(2) [of c _ d])

lemma swept_map:
  "k \<noteq> ''inbounds'' \<Longrightarrow> k \<noteq> ''outbounds'' \<Longrightarrow> map_of (swept c) k = map_of (fst (removeDeprecatedRoutingRules c)) k"
  "k \<noteq> ''inbounds'' \<Longrightarrow> k \<noteq> ''outbounds'' \<Longrightarrow> k \<noteq> ''routing'' \<Longrightarrow> map_of (swept c) k = map_of c k"
  by (simp_all add: swept_def dedupe_in_place_other deprecated_effect(2))

lemma swept_lists:
  "get_list (swept c) ''inbounds'' = fst (dedupe_list ''inbounds'' (get_list c ''inbounds''))"
  "get_list (swept c) ''outbounds'' = fst (dedupe_list ''outbounds'' (get_list c ''outbounds''))"
  by (simp_all add: swept_def dedupe_in_place_list get_by_key [OF deprecated_effect(2)])

lemma swept_complete:
  assumes "has_key c ''api''" "has_key c ''stats''" "hasValidPolicy c" "hasAPIInbound c" "hasAPIRoutingRule c"
    "hasRequiredOutbounds c" "has_key c ''metrics''" "has_key c ''log''"
    and "\<exists>r\<in>set (rules_of c). targets_api r \<and> \<not> deprecated_rule r"
  shows "complete_config (swept c)"
proof -
  let ?r = "fst (removeDeprecatedRoutingRules c)"
  let ?i = "fst (dedupeTaggedArrayInPlace ?r ''inbounds'')"
  have "hasAPIInbound ?r" using assms(4) by (rule inbound_repair.kept) (simp add: deprecated_effect(2))
  then have "hasAPIInbound ?i" by (rule dedupe_keeps_api)
  then have i: "hasAPIInbound (swept c)"
    by (rule inbound_repair.kept) (simp add: swept_def dedupe_in_place_other)
  have "hasRequiredOutbounds ?i" using assms(6)
    by (rule outbound_repair.kept) (simp add: dedupe_in_place_other deprecated_effect(2))
  then have o: "hasRequiredOutbounds (swept c)" unfolding swept_def by (rule dedupe_keeps_outbounds)
  have "hasAPIRoutingRule ?r" using assms(9) by (rule deprecated_keeps_api)
  then have r: "hasAPIRoutingRule (swept c)" by (rule rule_repair.kept) (simp add: swept_map(1))
  have d: "rules_of (swept c) = filter (\<lambda>r. \<not> deprecated_rule r) (rules_of c)"
    using rules_by_key [of "swept c" ?r] deprecated_effect(1) [of c] by (simp add: swept_map(1))
  have p: "hasValidPolicy (swept c)" using assms(3) by (rule policy_repair.kept) (simp add: swept_map deprecated_effect(2))
  have "has_key (swept c) k" if "has_key c k" and "k \<in> {''api'', ''stats'', ''metrics'', ''log''}" for k
    using that get_by_key(4) [of "swept c" k c] by (auto simp: swept_map deprecated_effect(2))
  with assms i o r d p show ?thesis by (simp add: complete_config_def swept_lists keeps_tags)
qed

lemma repaired_lists:
  "get_list (repaired c) ''inbounds'' = (if hasAPIInbound c then [] else [api_inbound 46736]) @ get_list c ''inbounds''"
  "rules_of (repaired c) = (if hasAPIRoutingRule c then [] else [api_rule]) @ rules_of c"
  "k \<notin> {''api'', ''stats'', ''policy'', ''inbounds'', ''routing'', ''outbounds'', ''metrics'', ''log''} \<Longrightarrow>
   map_of (repaired c) k = map_of c k"
proof -
  define c1 where "c1 = (if has_key c ''api'' then c else add_api c)"
  define c2 where "c2 = (if has_key c1 ''stats'' then c1 else add_stats c1)"
  define c3 where "c3 = (if hasValidPolicy c2 then c2 else add_policy c2)"
  define c4 where "c4 = (if hasAPIInbound c3 then c3 else addAPIInbound c3)"
  define c5 where "c5 = (if hasAPIRoutingRule c4 then c4 else addAPIRoutingRule c4)"
  define c6 where "c6 = (if hasRequiredOutbounds c5 then c5 else addRequiredOutbounds c5)"
  define c7 where "c7 = (if has_key c6 ''metrics'' then c6 else add_metrics c6)"
  define c8 where "c8 = (if has_key c7 ''log'' then c7 else add_log c7)"
  have r: "repaired c = c8"
    by (simp add: repaired_def Let_def c1_def c2_def c3_def c4_def c5_def c6_def c7_def c8_def)
  have f3: "k \<notin> {''api'', ''stats'', ''policy''} \<Longrightarrow> map_of c3 k = map_of c k" for k
    by (simp add: c3_def c2_def c1_def policy_repair.frame stats_repair.frame api_repair.frame)
  have f4: "k \<noteq> ''inbounds'' \<Longrightarrow> map_of c4 k = map_of c3 k" for k by (simp add: c4_def inbound_repair.frame)
  have f5: "k \<noteq> ''routing'' \<Longrightarrow> map_of c5 k = map_of c4 k" for k by (simp add: c5_def rule_repair.frame)
  have f8: "k \<notin> {''outbounds'', ''metrics'', ''log''} \<Longrightarrow> map_of c8 k = map_of c5 k" for k
    by (simp add: c8_def c7_def c6_def outbound_repair.frame metrics_repair.frame log_repair.frame)
  have "get_list c8 ''inbounds'' = get_list c4 ''inbounds''"
    by (rule get_by_key(3)) (simp add: f8 f5)
  moreover have "hasAPIInbound c3 \<longleftrightarrow> hasAPIInbound c" by (rule inbound_repair.reads_key) (simp add: f3)
  moreover have "get_list c3 ''inbounds'' = get_list c ''inbounds''" by (rule get_by_key(3)) (simp add: f3)
  ultimately show "get_list (repaired c) ''inbounds'' =
      (if hasAPIInbound c then [] else [api_inbound 46736]) @ get_list c ''inbounds''"
    by (simp add: r c4_def addAPIInbound_def)
  have "rules_of c8 = rules_of c5" by (rule rules_by_key) (simp add: f8)
  moreover have "hasAPIRoutingRule c4 \<longleftrightarrow> hasAPIRoutingRule c" by (rule rule_repair.reads_key) (simp add: f3 f4)
  moreover have "rules_of c4 = rules_of c" by (rule rules_by_key) (simp add: f3 f4)
  moreover have "rules_of (addAPIRoutingRule c4) = api_rule # rules_of c4"
    by (simp add: rules_of_def addAPIRoutingRule_def Let_def split: option.splits)
  ultimately show "rules_of (repaired c) = (if hasAPIRoutingRule c then [] else [api_rule]) @ rules_of c"
    by (simp add: r c5_def)
  show "k \<notin> {''api'', ''stats'', ''policy'', ''inbounds'', ''routing'', ''outbounds'', ''metrics'', ''log''} \<Longrightarrow>
      map_of (repaired c) k = map_of c k"
    by (simp add: r f8 f5 f4 f3)
qed

lemma api_rule_kept [simp]: "\<not> deprecated_rule api_rule"
  by (simp add: deprecated_rule_def api_rule_def)

text \<open>The other keys: what is there is kept, what is missing is added.\<close>

definition kept_or :: "obj \<Rightarrow> string \<Rightarrow> json \<Rightarrow> json option" where
  "kept_or c k v = (case map_of c k of None \<Rightarrow> Some v | Some x \<Rightarrow> Some x)"

definition with_outbounds :: "json list \<Rightarrow> json list" where
  "with_outbounds outbounds =
     outbounds @
     (if ''direct'' \<in> set (tags_of outbounds) then [] else [JObj [(''tag'', JStr ''direct''), (''protocol'', JStr ''freedom'')]]) @
     (if ''block'' \<in> set (tags_of outbounds) then [] else [JObj [(''tag'', JStr ''block''), (''protocol'', JStr ''blackhole'')]])"

definition routing_or_new :: "obj \<Rightarrow> obj" where
  "routing_or_new c =
     (case get_obj c ''routing'' of Some r \<Rightarrow> r | None \<Rightarrow> [(''domainStrategy'', JStr ''IPIfNonMatch'')])"

lemma outbounds_completed:
  "get_list (if hasRequiredOutbounds c then c else addRequiredOutbounds c) ''outbounds'' =
     with_outbounds (get_list c ''outbounds'')"
proof (cases "hasRequiredOutbounds c")
  case True
  then have "''direct'' \<in> set (tags_of (get_list c ''outbounds''))" "''block'' \<in> set (tags_of (get_list c ''outbounds''))"
    by (auto simp: hasRequiredOutbounds_def get_list_def list_ex_tag split: option.splits)
  with True show ?thesis by (simp add: with_outbounds_def)
next
  case False
  then show ?thesis by (simp add: with_outbounds_def addRequiredOutbounds_def Let_def)
qed

lemma routing_completed:
  "\<exists>r. get_obj (if hasAPIRoutingRule c then c else addAPIRoutingRule c) ''routing'' = Some r \<and>
     (\<forall>k. k \<noteq> ''rules'' \<longrightarrow> map_of r k = map_of (routing_or_new c) k)"
  by (auto simp: hasAPIRoutingRule_def addAPIRoutingRule_def routing_or_new_def Let_def split: option.splits)

lemma repaired_keys:
  "map_of (repaired c) ''api'' = kept_or c ''api'' api_section"
  "map_of (repaired c) ''stats'' = kept_or c ''stats'' (JObj [])"
  "map_of (repaired c) ''policy'' = (if hasValidPolicy c then map_of c ''policy'' else Some (JObj getTemplatePolicy))"
  "map_of (repaired c) ''metrics'' = kept_or c ''metrics'' (JObj [(''tag'', JStr ''Metrics''), (''listen'', JStr ''127.0.0.1:38889'')])"
  "map_of (repaired c) ''log'' = kept_or c ''log'' (JObj [(''loglevel'', JStr ''error'')])"
  "get_list (repaired c) ''outbounds'' = with_outbounds (get_list c ''outbounds'')"
  "\<exists>r. get_obj (repaired c) ''routing'' = Some r \<and> (\<forall>k. k \<noteq> ''rules'' \<longrightarrow> map_of r k = map_of (routing_or_new c) k)"
proof -
  define c1 where "c1 = (if has_key c ''api'' then c else add_api c)"
  define c2 where "c2 = (if has_key c1 ''stats'' then c1 else add_stats c1)"
  define c3 where "c3 = (if hasValidPolicy c2 then c2 else add_policy c2)"
  define c4 where "c4 = (if hasAPIInbound c3 then c3 else addAPIInbound c3)"
  define c5 where "c5 = (if hasAPIRoutingRule c4 then c4 else addAPIRoutingRule c4)"
  define c6 where "c6 = (if hasRequiredOutbounds c5 then c5 else addRequiredOutbounds c5)"
  define c7 where "c7 = (if has_key c6 ''metrics'' then c6 else add_metrics c6)"
  define c8 where "c8 = (if has_key c7 ''log'' then c7 else add_log c7)"
  have r: "repaired c = c8"
    by (simp add: repaired_def Let_def c1_def c2_def c3_def c4_def c5_def c6_def c7_def c8_def)
  have f1: "k \<noteq> ''api'' \<Longrightarrow> map_of c1 k = map_of c k" for k by (simp add: c1_def api_repair.frame)
  have f2: "k \<noteq> ''stats'' \<Longrightarrow> map_of c2 k = map_of c1 k" for k by (simp add: c2_def stats_repair.frame)
  have f3: "k \<noteq> ''policy'' \<Longrightarrow> map_of c3 k = map_of c2 k" for k by (simp add: c3_def policy_repair.frame)
  have f4: "k \<noteq> ''inbounds'' \<Longrightarrow> map_of c4 k = map_of c3 k" for k by (simp add: c4_def inbound_repair.frame)
  have f5: "k \<noteq> ''routing'' \<Longrightarrow> map_of c5 k = map_of c4 k" for k by (simp add: c5_def rule_repair.frame)
  have f6: "k \<noteq> ''outbounds'' \<Longrightarrow> map_of c6 k = map_of c5 k" for k by (simp add: c6_def outbound_repair.frame)
  have f7: "k \<noteq> ''metrics'' \<Longrightarrow> map_of c7 k = map_of c6 k" for k by (simp add: c7_def metrics_repair.frame)
  have f8: "k \<noteq> ''log'' \<Longrightarrow> map_of c8 k = map_of c7 k" for k by (simp add: c8_def log_repair.frame)
  note k = kept_or_def has_key_def
  have "map_of c1 ''api'' = kept_or c ''api'' api_section" by (auto simp: c1_def add_api_def k)
  then show "map_of (repaired c) ''api'' = kept_or c ''api'' api_section" by (simp add: r f2 f3 f4 f5 f6 f7 f8)
  have "map_of c2 ''stats'' = kept_or c ''stats'' (JObj [])" by (auto simp: c2_def add_stats_def k f1)
  then show "map_of (repaired c) ''stats'' = kept_or c ''stats'' (JObj [])" by (simp add: r f3 f4 f5 f6 f7 f8)
  have "hasValidPolicy c2 \<longleftrightarrow> hasValidPolicy c" by (rule policy_repair.reads_key) (simp add: f1 f2)
  then have "map_of c3 ''policy'' = (if hasValidPolicy c then map_of c ''policy'' else Some (JObj getTemplatePolicy))"
    by (simp add: c3_def add_policy_def f1 f2)
  then show "map_of (repaired c) ''policy'' = (if hasValidPolicy c then map_of c ''policy'' else Some (JObj getTemplatePolicy))"
    by (simp add: r f4 f5 f6 f7 f8)
  have "map_of c7 ''metrics'' = kept_or c ''metrics'' (JObj [(''tag'', JStr ''Metrics''), (''listen'', JStr ''127.0.0.1:38889'')])"
    by (auto simp: c7_def add_metrics_def k f1 f2 f3 f4 f5 f6)
  then show "map_of (repaired c) ''metrics'' = kept_or c ''metrics'' (JObj [(''tag'', JStr ''Metrics''), (''listen'', JStr ''127.0.0.1:38889'')])"
    by (simp add: r f8)
  show "map_of (repaired c) ''log'' = kept_or c ''log'' (JObj [(''loglevel'', JStr ''error'')])"
    by (auto simp: r c8_def add_log_def k f1 f2 f3 f4 f5 f6 f7)
  have "get_list c5 ''outbounds'' = get_list c ''outbounds''" by (rule get_by_key(3)) (simp add: f1 f2 f3 f4 f5)
  moreover have "get_list c8 ''outbounds'' = get_list c6 ''outbounds''" by (rule get_by_key(3)) (simp add: f7 f8)
  ultimately show "get_list (repaired c) ''outbounds'' = with_outbounds (get_list c ''outbounds'')"
    using outbounds_completed [of c5] by (simp add: r c6_def)
  have "get_obj c4 ''routing'' = get_obj c ''routing''" by (rule get_by_key(2)) (simp add: f1 f2 f3 f4)
  moreover have "get_obj c8 ''routing'' = get_obj c5 ''routing''" by (rule get_by_key(2)) (simp add: f6 f7 f8)
  ultimately show "\<exists>r. get_obj (repaired c) ''routing'' = Some r \<and> (\<forall>k. k \<noteq> ''rules'' \<longrightarrow> map_of r k = map_of (routing_or_new c) k)"
    using routing_completed [of c4] by (simp add: r c5_def routing_or_new_def)
qed

lemma deprecated_routing:
  "get_obj c ''routing'' = Some r \<Longrightarrow>
     \<exists>r'. get_obj (fst (removeDeprecatedRoutingRules c)) ''routing'' = Some r' \<and> (\<forall>k. k \<noteq> ''rules'' \<longrightarrow> map_of r' k = map_of r k)"
  by (simp add: removeDeprecatedRoutingRules_def Let_def)

text \<open>C32: Completing a configuration. Unless every rule that leads to the API carries the deprecated mark, the
  result has every section the agent needs, valid statistics flags, the API's inbound and rule, the direct
  and block outbounds, no deprecated rule and no duplicate tag. Nothing of the user's is lost: the rules are the old ones
  in order without the deprecated ones, the inbounds and the outbounds the old ones after the folding of duplicate tags,
  with the API's own entry in front and the two outbounds at the end if they were missing; the other keys of the
  routing section, the sections for the API, statistics, metrics and the log, and a policy with valid flags stay as
  they were, and keys of other sections are untouched. Completing again changes nothing, and an empty report means
  nothing changed.\<close>

theorem ensure_complete:
  assumes "hasAPIRoutingRule c \<longrightarrow> (\<exists>r\<in>set (rules_of c). targets_api r \<and> \<not> deprecated_rule r)"
    and "c' = fst (ensure_sections c)"
  shows "complete_config c' \<and>
    rules_of c' = (if hasAPIRoutingRule c then [] else [api_rule]) @ filter (\<lambda>r. \<not> deprecated_rule r) (rules_of c) \<and>
    (\<exists>r. get_obj c' ''routing'' = Some r \<and> (\<forall>k. k \<noteq> ''rules'' \<longrightarrow> map_of r k = map_of (routing_or_new c) k)) \<and>
    get_list c' ''inbounds'' =
      fst (dedupe_list ''inbounds''
        ((if hasAPIInbound c then [] else [api_inbound 46736]) @ get_list c ''inbounds'')) \<and>
    get_list c' ''outbounds'' = fst (dedupe_list ''outbounds'' (with_outbounds (get_list c ''outbounds''))) \<and>
    map_of c' ''policy'' = (if hasValidPolicy c then map_of c ''policy'' else Some (JObj getTemplatePolicy)) \<and>
    map_of c' ''api'' = kept_or c ''api'' api_section \<and>
    map_of c' ''stats'' = kept_or c ''stats'' (JObj []) \<and>
    map_of c' ''metrics'' =
      kept_or c ''metrics'' (JObj [(''tag'', JStr ''Metrics''), (''listen'', JStr ''127.0.0.1:38889'')]) \<and>
    map_of c' ''log'' = kept_or c ''log'' (JObj [(''loglevel'', JStr ''error'')]) \<and>
    (\<forall>k. k \<notin> {''api'', ''stats'', ''policy'', ''inbounds'', ''routing'', ''outbounds'', ''metrics'', ''log''} \<longrightarrow>
       map_of c' k = map_of c k) \<and>
    ensure_sections c' = (c', []) \<and>
    (snd (ensure_sections c) = [] \<longrightarrow> c' = c)"
proof -
  have c': "c' = swept (repaired c)" by (simp add: assms(2) ensure_fst)
  have "\<exists>r\<in>set (rules_of (repaired c)). targets_api r \<and> \<not> deprecated_rule r"
    using assms(1) by (auto simp: repaired_lists targets_api_def api_rule_def deprecated_rule_def)
  then have ok: "complete_config c'" unfolding c' by (rule swept_complete [OF repaired_ok])
  have rr: "map_of (swept (repaired c)) ''routing'' = map_of (fst (removeDeprecatedRoutingRules (repaired c))) ''routing''"
    by (simp add: swept_map(1))
  have r: "rules_of c' = (if hasAPIRoutingRule c then [] else [api_rule]) @ filter (\<lambda>r. \<not> deprecated_rule r) (rules_of c)"
    using rules_by_key [OF rr] by (simp add: c' deprecated_effect(1) repaired_lists(2))
  have i: "get_list c' ''inbounds'' =
      fst (dedupe_list ''inbounds'' ((if hasAPIInbound c then [] else [api_inbound 46736]) @ get_list c ''inbounds''))"
    by (simp add: c' swept_lists repaired_lists(1))
  have o: "get_list c' ''outbounds'' = fst (dedupe_list ''outbounds'' (with_outbounds (get_list c ''outbounds'')))"
    by (simp add: c' swept_lists repaired_keys(6))
  have g: "\<exists>r. get_obj c' ''routing'' = Some r \<and> (\<forall>k. k \<noteq> ''rules'' \<longrightarrow> map_of r k = map_of (routing_or_new c) k)"
  proof -
    obtain q where q: "get_obj (repaired c) ''routing'' = Some q"
      "\<forall>k. k \<noteq> ''rules'' \<longrightarrow> map_of q k = map_of (routing_or_new c) k"
      using repaired_keys(7) [of c] by blast
    from deprecated_routing [OF q(1)] q(2) show ?thesis using get_by_key(2) [OF rr] by (auto simp: c')
  qed
  have p: "map_of c' ''policy'' = (if hasValidPolicy c then map_of c ''policy'' else Some (JObj getTemplatePolicy))"
    and s: "map_of c' ''api'' = kept_or c ''api'' api_section" "map_of c' ''stats'' = kept_or c ''stats'' (JObj [])"
      "map_of c' ''metrics'' =
        kept_or c ''metrics'' (JObj [(''tag'', JStr ''Metrics''), (''listen'', JStr ''127.0.0.1:38889'')])"
      "map_of c' ''log'' = kept_or c ''log'' (JObj [(''loglevel'', JStr ''error'')])"
    using repaired_keys(1-5) [of c] by (simp_all add: c' swept_map(1) deprecated_effect(2))
  have k: "map_of c' k = map_of c k"
    if "k \<notin> {''api'', ''stats'', ''policy'', ''inbounds'', ''routing'', ''outbounds'', ''metrics'', ''log''}" for k
    using that repaired_lists(3) [of k c] by (simp add: c' swept_map(1) deprecated_effect(2))
  show ?thesis
    by (intro conjI allI impI ok r g i o p s k ensure_quiet [OF ok]) (simp_all add: assms(2) ensure_unnoted)
qed

text \<open>An example: a bare configuration whose one rule is deprecated.\<close>

definition bare_config :: obj where
  "bare_config = [(''routing'', JObj [(''rules'', JArr [JObj [(''marktag'', JStr ''fix_openai'')]])]), (''dns'', JNull)]"

lemma ensure_complete_witness:
  "rules_of (fst (ensure_sections bare_config)) = [api_rule] \<and>
   get_list (fst (ensure_sections bare_config)) ''inbounds'' = [api_inbound 46736] \<and>
   length (get_list (fst (ensure_sections bare_config)) ''outbounds'') = 2 \<and>
   map_of (fst (ensure_sections bare_config)) ''dns'' = Some JNull \<and>
   complete_config (fst (ensure_sections bare_config))"
proof -
  have c: "\<not> hasAPIRoutingRule bare_config" "\<not> hasAPIInbound bare_config" "get_list bare_config ''inbounds'' = []"
    "filter (\<lambda>r. \<not> deprecated_rule r) (rules_of bare_config) = []" "map_of bare_config ''dns'' = Some JNull"
    by (simp_all add: bare_config_def rules_of_def targets_api_def deprecated_rule_def hasAPIRoutingRule_def
        hasAPIInbound_def)
  have o: "length (fst (dedupe_list ''outbounds'' (with_outbounds (get_list bare_config ''outbounds'')))) = 2" by code_simp
  have u: "unique_tags [api_inbound 46736]" by (simp add: unique_tags_def api_inbound_def)
  have h: "hasAPIRoutingRule bare_config \<longrightarrow> (\<exists>r\<in>set (rules_of bare_config). targets_api r \<and> \<not> deprecated_rule r)"
    using c(1) by simp
  from ensure_complete [OF h refl] c o u show ?thesis by (simp add: dedupe_list_same)
qed

text \<open>Without that condition the rule for the API is lost, and every start adds and removes it anew.\<close>

lemma deprecated_api_rule_lost:
  assumes "\<forall>r\<in>set (rules_of c). targets_api r \<longrightarrow> deprecated_rule r"
  shows "\<not> hasAPIRoutingRule (fst (removeDeprecatedRoutingRules c))"
proof -
  have "hasAPIRoutingRule x \<Longrightarrow> \<exists>r\<in>set (rules_of x). targets_api r" for x
    by (auto simp: hasAPIRoutingRule_def rules_of_def get_list_def list_ex_iff split: option.splits)
  moreover have "\<not> (\<exists>r\<in>set (rules_of (fst (removeDeprecatedRoutingRules c))). targets_api r)"
    using assms by (auto simp: deprecated_effect(1))
  ultimately show ?thesis by blast
qed

text \<open>On disk: a complete configuration is not written; otherwise the file holds the completed one, or the call
  reports that it does not. Xray is never restarted here.\<close>

lemma EnsureXrayConfig_effect:
  assumes "ce_path env \<noteq> []" and "fst (read_file (ce_path env) w) = Inr content" and "ce_dec env content = Some c"
  shows "let r = fst (EnsureXrayConfig env w); w' = snd (EnsureXrayConfig env w)
    in running w' = running w \<and> er_added r = snd (ensure_sections c) \<and>
       (er_error r = [] \<longrightarrow> er_modified r = (snd (ensure_sections c) \<noteq> []) \<and>
          file_at w' (ce_path env) =
            (if er_modified r then Some (ce_enc env (fst (ensure_sections c))) else Some content))"
proof -
  obtain w1 where 1: "read_file (ce_path env) w = (Inr content, w1)" using assms(2) by (metis prod.collapse)
  obtain c' added where e: "ensure_sections c = (c', added)" by fastforce
  let ?w2 = "snd (write_file (ce_path env @ ''.backup'') content w1)"
  obtain r w3 where 3: "write_file (ce_path env) (ce_enc env c') ?w2 = (r, w3)" by fastforce
  have f1: "file_at w1 (ce_path env) = Some content" "running w1 = running w"
    using read_file_Inr [OF 1] read_file_at [OF 1] read_file_frame [OF 1] by simp_all
  have f3: "running w3 = running w" using write_file_running [OF 3] f1 by simp
  have g3: "r = None \<Longrightarrow> file_at w3 (ce_path env) = Some (ce_enc env c')" using write_file_ok 3 by blast
  show ?thesis
  proof (cases "added = []")
    case True
    with 1 e assms f1 show ?thesis by (simp add: EnsureXrayConfig_def)
  next
    case False
    with 1 e 3 assms f1 f3 g3 show ?thesis by (cases r) (simp_all add: EnsureXrayConfig_def Let_def)
  qed
qed

section \<open>The system switches are read back as they were set\<close>

definition normal_config :: "sys_config \<Rightarrow> sys_config" where
  "normal_config req =
     req\<lparr>sc_listen := (if sc_metrics req then sc_listen req else ''127.0.0.1:38889''),
         sc_port := (if sc_grpc req then sc_port req else 46736)\<rparr>"

lemma num_trunc_int [simp]: "num_trunc p 0 = p"
  by (simp add: num_trunc_def)

lemma find_set_port:
  "list_ex (has_tag tag) xs \<Longrightarrow>
   \<exists>m. find (has_tag tag) (update_first (has_tag tag) (set_port p) xs) = Some (JObj m) \<and>
     map_of m ''port'' = Some (JNum p 0)"
proof (induction xs)
  case (Cons x xs)
  show ?case
  proof (cases "has_tag tag x")
    case True
    then obtain m where "x = JObj m" "get_str m ''tag'' = tag"
      by (auto simp: has_tag_def split: option.splits)
    then show ?thesis by (simp add: has_tag_def set_port_def)
  next
    case False
    with Cons show ?thesis by simp
  qed
qed simp

lemma rule_edits_frame:
  "k \<noteq> ''routing'' \<Longrightarrow> map_of (ensureAPIRoutingRule c) k = map_of c k"
  "k \<noteq> ''routing'' \<Longrightarrow> map_of (removeAPIRoutingRule c) k = map_of c k"
  by (simp_all add: ensureAPIRoutingRule_def removeAPIRoutingRule_def Let_def split: option.splits)

lemma get_by_frame:
  "(\<And>k. k \<noteq> ''routing'' \<Longrightarrow> map_of d k = map_of c k) \<Longrightarrow> read_sys_config d = read_sys_config c"
  by (simp add: read_sys_config_def get_obj_def get_list_def get_arr_def has_key_def)

lemma find_none: "find p xs = None \<longleftrightarrow> \<not> list_ex p xs"
  by (induction xs) auto

lemma read_set_system: "read_sys_config (set_system req c) = normal_config req"
proof -
  define d where "d = set_stats req (set_metrics req c)"
  have m: "get_obj d ''metrics'' =
      (if sc_metrics req then Some [(''tag'', JStr ''Metrics''), (''listen'', JStr (sc_listen req))] else None)"
    by (simp add: d_def set_stats_def set_metrics_def get_obj_def)
  have s: "has_key d ''stats'' = sc_stats req"
    by (simp add: d_def set_stats_def set_metrics_def has_key_def)
  show ?thesis
  proof (cases "sc_grpc req")
    case True
    define ibs where "ibs = (case get_arr (jset ''api'' api_section d) ''inbounds'' of
                            Some inbounds \<Rightarrow>
                              (if list_ex (has_tag ''api'') inbounds
                               then update_first (has_tag ''api'') (set_port (sc_port req)) inbounds
                               else api_inbound (sc_port req) # inbounds)
                          | None \<Rightarrow> [api_inbound (sc_port req)])"
    have f: "\<exists>m. find (has_tag ''api'') ibs = Some (JObj m) \<and> map_of m ''port'' = Some (JNum (sc_port req) 0)"
      using find_set_port [of "''api''"] unfolding ibs_def
      by (auto simp: api_inbound_def has_tag_def split: option.splits)
    have "read_sys_config (set_system req c) =
        read_sys_config (jset ''inbounds'' (JArr ibs) (jset ''api'' api_section d))"
      using True get_by_frame [OF rule_edits_frame(1)] by (simp add: set_system_def set_grpc_def Let_def d_def ibs_def)
    also have "\<dots> = normal_config req"
      using f m s True by (auto simp: read_sys_config_def normal_config_def api_section_def has_key_def)
    finally show ?thesis .
  next
    case False
    define e where "e = (case get_arr (jdel ''api'' d) ''inbounds'' of
                          Some inbounds \<Rightarrow>
                            jset ''inbounds''
                              (JArr (filter (\<lambda>x. as_obj x \<noteq> None \<and> \<not> has_tag ''api'' x) inbounds)) (jdel ''api'' d)
                        | None \<Rightarrow> jdel ''api'' d)"
    have k: "k \<noteq> ''inbounds'' \<Longrightarrow> k \<noteq> ''api'' \<Longrightarrow> map_of e k = map_of d k" "map_of e ''api'' = None" for k
      by (simp_all add: e_def split: option.splits)
    have "find (has_tag ''api'') (get_list e ''inbounds'') = None"
      by (auto simp: e_def find_none get_list_def list_ex_iff split: option.splits)
    moreover have "set_system req c = removeAPIRoutingRule e"
      using False by (simp add: set_system_def set_grpc_def Let_def d_def [symmetric] e_def)
    then have "read_sys_config (set_system req c) = read_sys_config e"
      using get_by_frame [OF rule_edits_frame(2)] by simp
    ultimately show ?thesis
      using False m s k by (simp add: read_sys_config_def normal_config_def get_obj_def has_key_def)
  qed
qed

text \<open>What \<open>json.MarshalIndent\<close> and \<open>json.Unmarshal\<close> make of a document: the keys of every object are sorted.\<close>

fun canon :: "json \<Rightarrow> json" where
  "canon (JArr xs) = JArr (List.map canon xs)"
| "canon (JObj m) = JObj (sort_key fst (List.map (\<lambda>(k, v). (k, canon v)) m))"
| "canon v = v"

definition canon_obj :: "obj \<Rightarrow> obj" where
  "canon_obj m = sort_key fst (List.map (\<lambda>(k, v). (k, canon v)) m)"

lemma map_of_filter: "map_of m k = (case filter (\<lambda>p. fst p = k) m of [] \<Rightarrow> None | p # _ \<Rightarrow> Some (snd p))"
  by (induction m) auto

lemma map_of_canon [simp]: "map_of (canon_obj m) k = map_option canon (map_of m k)"
proof -
  have "map_of (sort_key fst xs) k = map_of xs k" for xs :: obj
    unfolding map_of_filter by (simp add: sort_key_stable)
  moreover have "map_of (List.map (\<lambda>(k, v). (k, canon v)) m) k = map_option canon (map_of m k)"
    by (induction m) auto
  ultimately show ?thesis by (simp add: canon_obj_def)
qed

lemma canon_JObj [simp]: "canon (JObj m) = JObj (canon_obj m)"
  by (simp add: canon_obj_def)

declare canon.simps(2) [simp del]

lemma get_obj_canon [simp]: "get_obj (canon_obj m) k = map_option canon_obj (get_obj m k)"
proof (cases "map_of m k")
  case (Some v)
  then show ?thesis by (cases v) (simp_all add: get_obj_def)
qed (simp add: get_obj_def)

lemma get_list_canon [simp]: "get_list (canon_obj m) k = List.map canon (get_list m k)"
proof (cases "map_of m k")
  case (Some v)
  then show ?thesis by (cases v) (simp_all add: get_list_def get_arr_def)
qed (simp add: get_list_def get_arr_def)

lemma has_key_canon [simp]: "has_key (canon_obj m) k = has_key m k"
  by (simp add: has_key_def)

lemma get_str_canon [simp]: "get_str (canon_obj m) k = get_str m k"
proof (cases "map_of m k")
  case (Some v)
  then show ?thesis by (cases v) (simp_all add: get_str_def)
qed (simp add: get_str_def)

lemma has_tag_canon [simp]: "has_tag tag (canon x) = has_tag tag x"
  by (cases x) (simp_all add: has_tag_def)

lemma find_canon: "find (has_tag tag) (List.map canon xs) = map_option canon (find (has_tag tag) xs)"
  by (induction xs) auto

lemma read_canon: "read_sys_config (canon_obj c) = read_sys_config c"
proof -
  have s: "Option.bind (map_option canon x) as_str = Option.bind x as_str" for x
    by (cases x; cases "the x") auto
  have p: "(case canon v of JNum a e \<Rightarrow> f a e | _ \<Rightarrow> d) = (case v of JNum a e \<Rightarrow> f a e | _ \<Rightarrow> d)"
    for v and f :: "int \<Rightarrow> int \<Rightarrow> int" and d
    by (cases v) auto
  have i: "(case canon v of
              JObj inbound \<Rightarrow> (case map_of inbound ''port'' of Some (JNum a e) \<Rightarrow> num_trunc a e | _ \<Rightarrow> 46736)
            | _ \<Rightarrow> 46736) =
      (case v of
         JObj inbound \<Rightarrow> (case map_of inbound ''port'' of Some (JNum a e) \<Rightarrow> num_trunc a e | _ \<Rightarrow> 46736)
       | _ \<Rightarrow> 46736)" for v
    by (cases v) (auto simp: p split: option.split)
  show ?thesis
    by (cases "get_obj c ''metrics''"; cases "get_obj c ''api''")
      (simp_all add: read_sys_config_def find_canon i s split: option.split)
qed

text \<open>The system switches are read back as they were set. When an update is answered with success, asking for
  the switches afterwards answers with the ones of the request, the metrics address and the gRPC port being
  the defaults when their switch is off. The codec is assumed to give a written document back with its keys
  sorted, and the file to be readable.\<close>

theorem system_config_roundtrip:
  assumes "status (fst (HandleXraySystemConfig True ''POST'' env (Some req) w)) = 200"
    and "file_at w (ce_path env) = Some content" and "ce_dec env content = Some c"
    and "ce_dec env (ce_enc env (set_system req c)) = Some (canon_obj (set_system req c))"
    and "w' = (snd (HandleXraySystemConfig True ''POST'' env (Some req) w))\<lparr>tape := []\<rparr>"
  shows "fst (HandleXraySystemConfig True ''GET'' env None w') =
    writeOk [(''config'', sys_config_json (normal_config req))]"
proof -
  note u = HandleXraySystemConfig_def updateXraySystemConfig_def
  from assms(1) have p: "ce_path env \<noteq> []" by (auto simp: u)
  obtain r w1 where 1: "read_file (ce_path env) w = (r, w1)" by fastforce
  from assms(1) 1 p have r: "r = Inr content"
    using read_file_Inr [of "ce_path env" w _ w1] assms(2) by (cases r) (auto simp: u)
  let ?w2 = "snd (write_file (ce_path env @ ''.backup'') content w1)"
  obtain e w3 where 3: "write_file (ce_path env) (ce_enc env (set_system req c)) ?w2 = (e, w3)" by fastforce
  from assms(1,3) 1 p r 3 have e: "e = None" by (cases e) (auto simp: u)
  with 3 have f: "file_at w3 (ce_path env) = Some (ce_enc env (set_system req c))" using write_file_ok by blast
  have "w' = (snd (restart_xray (ce_path env) w3))\<lparr>tape := []\<rparr>"
    using assms(3,5) 1 p r 3 e by (simp add: u)
  with f have "file_at w' (ce_path env) = Some (ce_enc env (set_system req c))" "tape w' = []" by simp_all
  then have "fst (read_file (ce_path env) w') = Inr (ce_enc env (set_system req c))" by (simp add: read_fst_Works)
  then obtain w4 where "read_file (ce_path env) w' = (Inr (ce_enc env (set_system req c)), w4)" by (metis prod.collapse)
  with p assms(4) show ?thesis
    by (simp add: HandleXraySystemConfig_def getXraySystemConfig_def read_canon read_set_system)
qed

definition demo_switches :: sys_config where
  "demo_switches =
     \<lparr>sc_metrics = True, sc_listen = ''127.0.0.1:9'', sc_stats = False, sc_grpc = True, sc_port = 4000\<rparr>"

definition demo_switch_env :: cfg_env where
  "demo_switch_env = demo_cfg_env\<lparr>ce_dec := (\<lambda>s. if s = ''A'' then Some demo_config
     else Some (canon_obj (set_system demo_switches demo_config)))\<rparr>"

lemma system_config_roundtrip_witness:
  "fst (HandleXraySystemConfig True ''GET'' demo_switch_env None
     ((snd (HandleXraySystemConfig True ''POST'' demo_switch_env (Some demo_switches) (demo_start [])))\<lparr>tape := []\<rparr>)) =
   writeOk [(''config'', sys_config_json demo_switches)]"
proof -
  have n: "normal_config demo_switches = demo_switches" by (simp add: normal_config_def demo_switches_def)
  have s: "status (fst (HandleXraySystemConfig True ''POST'' demo_switch_env (Some demo_switches) (demo_start []))) = 200"
    by (simp add: HandleXraySystemConfig_def updateXraySystemConfig_def demo_switch_env_def demo_cfg_env_def
        demo_start_def read_file_def next_outcome_def file_at_def write_file_def put_file_def Let_def)
  have a: "file_at (demo_start []) (ce_path demo_switch_env) = Some ''A''"
    "ce_dec demo_switch_env ''A'' = Some demo_config"
    "ce_dec demo_switch_env (ce_enc demo_switch_env (set_system demo_switches demo_config)) =
      Some (canon_obj (set_system demo_switches demo_config))"
    by (simp_all add: demo_switch_env_def demo_cfg_env_def demo_start_def file_at_def)
  show ?thesis using system_config_roundtrip [OF s a refl] n by simp
qed

text \<open>The answer says that Xray was restarted, also when the restart failed.\<close>

lemma system_config_claims_restart:
  "let r = HandleXraySystemConfig True ''POST'' demo_switch_env (Some demo_switches)
             (demo_start [Works, Works, Works, Fails (ErrIO ''no'')])
   in fst r = writeOk [(''message'', JStr ''System config updated, Xray restarted'')] \<and> running (snd r) = None"
  by (simp add: HandleXraySystemConfig_def updateXraySystemConfig_def demo_switch_env_def demo_cfg_env_def
        demo_start_def read_file_def next_outcome_def file_at_def write_file_def put_file_def Let_def restart_xray_def)

end
