(* ===== verification/Master_Http.thy ===== *)
theory Master_Http
  imports Auth Agent_Yaml Reconnect
begin

text \<open>
  What the agent sends to the master over HTTP and what it makes of the answers
  (\<open>doEncryptedHTTP\<close>, \<open>doHTTPKeyExchange\<close>, \<open>sendHeartbeatHTTP\<close>, \<open>runMasterRecoveryLoop\<close>,
  \<open>tryRecoveryHeartbeat\<close>, \<open>ApplyMasterURL\<close> of \<open>internal/agent/client.go\<close>). The network is the list of
  the answers still to come, \<open>None\<close> for a request that fails; every request is logged. Fresh key pairs
  are drawn from a list. Parsing of addresses (\<open>net/url\<close>) and of answers (\<open>encoding/json\<close>) are
  fields of \<open>net_lib\<close>.
\<close>

section \<open>State\<close>

record url_parts =
  up_scheme :: string
  up_host :: string
  up_hostname :: string

text \<open>A recovery answer: \<open>success\<close> and \<open>master_url\<close>.\<close>

record net_lib =
  nl_url :: "string \<Rightarrow> url_parts option"
  nl_recovery :: "bytes \<Rightarrow> (bool \<times> string) option"

text \<open>A request: the address it goes to, the path, the token in the authorization header, the public key in
  \<open>X-Key-Exchange\<close>, whether \<open>X-Encrypted\<close> is set, the body.\<close>

record out_req =
  or_base :: string
  or_path :: string
  or_token :: string
  or_kx :: "bytes option"
  or_encrypted :: bool
  or_body :: bytes

record agent =
  ag_token :: string
  ag_master :: string
  ag_recovery :: string
  ag_contact :: int
  ag_activated :: bool
  ag_pubkey :: "bytes option"
  ag_http :: "session option"
  ag_answers :: "http_resp option list"
  ag_keys :: "(bytes \<times> bytes) option list"
  ag_sent :: "out_req list"
  ag_client :: client
  ag_signal :: bool

text \<open>One round trip, and one key pair.\<close>

definition http_do :: "out_req \<Rightarrow> 'a agent_scheme \<Rightarrow> http_resp option \<times> 'a agent_scheme" where
  "http_do r a =
     (let a1 = a\<lparr>ag_sent := ag_sent a @ [r]\<rparr>
      in (case ag_answers a of [] \<Rightarrow> (None, a1) | x # xs \<Rightarrow> (x, a1\<lparr>ag_answers := xs\<rparr>)))"

definition generate_ephemeral :: "'a agent_scheme \<Rightarrow> (bytes \<times> bytes) option \<times> 'a agent_scheme" where
  "generate_ephemeral a = (case ag_keys a of [] \<Rightarrow> (None, a) | k # ks \<Rightarrow> (k, a\<lparr>ag_keys := ks\<rparr>))"

definition rhdr :: "http_resp \<Rightarrow> string \<Rightarrow> string" where
  "rhdr r k = (case map_of (rs_headers r) k of None \<Rightarrow> [] | Some v \<Rightarrow> v)"

section \<open>Requests\<close>

datatype http_err = NetErr | KeyErr | HttpStatus nat bytes | DecryptErr chan_error

definition plain_req :: "string \<Rightarrow> string \<Rightarrow> 'a agent_scheme \<Rightarrow> bytes \<Rightarrow> out_req" where
  "plain_req base path a payload =
     \<lparr>or_base = base, or_path = path, or_token = ag_token a, or_kx = None, or_encrypted = False, or_body = payload\<rparr>"

text \<open>The session a key-exchange answer establishes, if it is sound in every respect.\<close>

definition exchanged_session ::
  "crypto_lib \<Rightarrow> bytes \<Rightarrow> bytes \<Rightarrow> bytes \<Rightarrow> string \<Rightarrow> session option" where
  "exchanged_session lib pk agentPriv agentPub kxResp =
     (if kxResp = [] then None
      else
        (case split_bar kxResp of
           None \<Rightarrow> None
         | Some (p0, p1) \<Rightarrow>
             (case (b64_decode lib p0, b64_decode lib p1) of
                (Some masterEphPub, Some sig) \<Rightarrow>
                  if length masterEphPub = 32 \<and> ed_verify lib pk masterEphPub sig then
                    (case x_ecdh lib agentPriv masterEphPub of
                       None \<Rightarrow> None
                     | Some sharedSecret \<Rightarrow> DeriveSession (hkdf lib) sharedSecret agentPub masterEphPub False)
                  else None
              | _ \<Rightarrow> None)))"

definition doHTTPKeyExchange ::
  "crypto_lib \<Rightarrow> bytes \<Rightarrow> string \<Rightarrow> string \<Rightarrow> bytes \<Rightarrow> 'a agent_scheme \<Rightarrow> (http_err + bytes) \<times> 'a agent_scheme" where
  "doHTTPKeyExchange lib pk base path payload a =
     (case generate_ephemeral a of
        (None, a1) \<Rightarrow> (Inl KeyErr, a1)
      | (Some (agentPriv, agentPub), a1) \<Rightarrow>
          (case http_do ((plain_req base path a1 payload)\<lparr>or_kx := Some agentPub\<rparr>) a1 of
             (None, a2) \<Rightarrow> (Inl NetErr, a2)
           | (Some resp, a2) \<Rightarrow>
               if rs_status resp \<noteq> 200 then (Inl (HttpStatus (rs_status resp) (rs_body resp)), a2)
               else
                 (case exchanged_session lib pk agentPriv agentPub (rhdr resp ''X-Key-Exchange'') of
                    None \<Rightarrow> (Inr (rs_body resp), a2)
                  | Some s \<Rightarrow> (Inr (rs_body resp), a2\<lparr>ag_http := Some s\<rparr>))))"

definition doEncryptedHTTP ::
  "crypto_lib \<Rightarrow> string \<Rightarrow> string \<Rightarrow> bytes \<Rightarrow> 'a agent_scheme \<Rightarrow> (http_err + bytes) \<times> 'a agent_scheme" where
  "doEncryptedHTTP lib base path payload a =
     (case ag_pubkey a of
        None \<Rightarrow>
          (case http_do (plain_req base path a payload) a of
             (None, a1) \<Rightarrow> (Inl NetErr, a1)
           | (Some resp, a1) \<Rightarrow>
               if rs_status resp \<noteq> 200 then (Inl (HttpStatus (rs_status resp) (rs_body resp)), a1)
               else (Inr (rs_body resp), a1))
      | Some pk \<Rightarrow>
          (case ag_http a of
             None \<Rightarrow> doHTTPKeyExchange lib pk base path payload a
           | Some s \<Rightarrow>
               (case Encrypt (gcm_seal lib) s payload of
                  (encrypted, s1) \<Rightarrow>
                    (let a1 = a\<lparr>ag_http := Some s1\<rparr>
                     in (case http_do ((plain_req base path a1 encrypted)\<lparr>or_encrypted := True\<rparr>) a1 of
                           (None, a2) \<Rightarrow> (Inl NetErr, a2)
                         | (Some resp, a2) \<Rightarrow>
                             if rs_status resp = 412
                             then doHTTPKeyExchange lib pk base path payload (a2\<lparr>ag_http := None\<rparr>)
                             else if rs_status resp \<noteq> 200
                             then (Inl (HttpStatus (rs_status resp) (rs_body resp)), a2)
                             else if rhdr resp ''X-Encrypted'' = ''1'' then
                               (case Decrypt (gcm_unseal lib) s1 (rs_body resp) of
                                  (Inl e, s2) \<Rightarrow> (Inl (DecryptErr e), a2\<lparr>ag_http := Some s2\<rparr>)
                                | (Inr clear, s2) \<Rightarrow> (Inr clear, a2\<lparr>ag_http := Some s2\<rparr>))
                             else (Inr (rs_body resp), a2))))))"

section \<open>Heartbeats and recovery\<close>

definition PathRemoteHeartbeat :: string where
  "PathRemoteHeartbeat = ''/api/remote/heartbeat''"

text \<open>\<open>payload\<close> is the encoded report; \<open>now\<close> the clock, in seconds. The answer is only read for a clock
  warning in the log.\<close>

definition sendHeartbeatHTTP ::
  "crypto_lib \<Rightarrow> net_lib \<Rightarrow> int \<Rightarrow> bytes \<Rightarrow> 'a agent_scheme \<Rightarrow> bool \<times> 'a agent_scheme" where
  "sendHeartbeatHTTP lib net now payload a =
     (case nl_url net (ag_master a) of
        None \<Rightarrow> (False, a)
      | Some _ \<Rightarrow>
          (case doEncryptedHTTP lib (ag_master a) PathRemoteHeartbeat payload a of
             (Inl _, a1) \<Rightarrow> (False, a1)
           | (Inr _, a1) \<Rightarrow> (True, a1\<lparr>ag_contact := now\<rparr>)))"

definition wake :: "'a agent_scheme \<Rightarrow> 'a agent_scheme" where
  "wake a = a\<lparr>ag_client := triggerReconnect (ag_client a), ag_signal := True\<rparr>"

definition ApplyMasterURL :: "string \<Rightarrow> 'a agent_scheme \<Rightarrow> 'a agent_scheme" where
  "ApplyMasterURL masterURL a = wake (a\<lparr>ag_master := trim_slashes masterURL, ag_activated := False\<rparr>)"

definition httpsRecoveryEligible :: "net_lib \<Rightarrow> 'a agent_scheme \<Rightarrow> bool" where
  "httpsRecoveryEligible net a =
     (case nl_url net (trim_space (ag_master a)) of
        None \<Rightarrow> False
      | Some u \<Rightarrow> to_lower (up_scheme u) = ''https'' \<and> up_host u \<noteq> [])"

datatype recovery_err =
  NotEligible | BadRecoveryURL | ProbeFailed http_err | BadAnswer | NotHTTP | PersistFailed io_err

definition tryRecoveryHeartbeat ::
  "crypto_lib \<Rightarrow> net_lib \<Rightarrow> int \<Rightarrow> bytes \<Rightarrow> 'a agent_scheme \<Rightarrow> world \<Rightarrow>
   recovery_err option \<times> 'a agent_scheme \<times> world" where
  "tryRecoveryHeartbeat lib net now payload a w =
     (if \<not> httpsRecoveryEligible net a then (Some NotEligible, a, w)
      else
        (let recovery = trim_slashes (ag_recovery a)
         in (case nl_url net recovery of
               None \<Rightarrow> (Some BadRecoveryURL, a, w)
             | Some u \<Rightarrow>
                 if up_scheme u \<noteq> ''http'' \<or> up_hostname u = [] then (Some BadRecoveryURL, a, w)
                 else
                   (case doEncryptedHTTP lib recovery PathRemoteHeartbeat payload a of
                      (Inl e, a1) \<Rightarrow> (Some (ProbeFailed e), a1, w)
                    | (Inr answer, a1) \<Rightarrow>
                        (case nl_recovery net answer of
                           Some (True, url) \<Rightarrow>
                             (let a2 = a1\<lparr>ag_contact := now\<rparr>; url1 = trim_slashes url;
                                  newURL = (if url1 = [] then recovery else url1)
                              in if \<not> has_prefix newURL ''http://'' then (Some NotHTTP, a2, w)
                                 else if ag_activated a2 then (None, a2, w)
                                 else
                                   (case persistConfigField ''master_url'' newURL w of
                                      (Some e, w1) \<Rightarrow> (Some (PersistFailed e), a2\<lparr>ag_activated := False\<rparr>, w1)
                                    | (None, w1) \<Rightarrow>
                                        (None, wake (a2\<lparr>ag_activated := True, ag_master := newURL, ag_contact := now\<rparr>), w1)))
                         | _ \<Rightarrow> (Some BadAnswer, a1, w))))))"

text \<open>One tick of the recovery loop, every 30 seconds.\<close>

definition recovery_due :: "net_lib \<Rightarrow> int \<Rightarrow> 'a agent_scheme \<Rightarrow> bool" where
  "recovery_due net now a \<longleftrightarrow>
     httpsRecoveryEligible net a \<and> trim_space (ag_recovery a) \<noteq> [] \<and>
     300 \<le> now - ag_contact a \<and> \<not> ag_activated a"

definition recovery_tick ::
  "crypto_lib \<Rightarrow> net_lib \<Rightarrow> int \<Rightarrow> bytes \<Rightarrow> 'a agent_scheme \<times> world \<Rightarrow> 'a agent_scheme \<times> world" where
  "recovery_tick lib net now payload s =
     (case s of (a, w) \<Rightarrow>
        if recovery_due net now a then snd (tryRecoveryHeartbeat lib net now payload a w) else (a, w))"

fun runMasterRecoveryLoop ::
  "crypto_lib \<Rightarrow> net_lib \<Rightarrow> (int \<times> bytes) list \<Rightarrow> 'a agent_scheme \<times> world \<Rightarrow> 'a agent_scheme \<times> world" where
  "runMasterRecoveryLoop lib net [] s = s"
| "runMasterRecoveryLoop lib net ((now, payload) # ts) s =
     runMasterRecoveryLoop lib net ts (recovery_tick lib net now payload s)"

section \<open>Which sessions are used, and what goes out in the clear\<close>

text \<open>A session comes from an exchange whose other half was signed by the master's key, whatever has been sent and
  received over it since.\<close>

definition same_keys :: "session \<Rightarrow> session \<Rightarrow> bool" where
  "same_keys s t \<longleftrightarrow>
     sendKey s = sendKey t \<and> recvKey s = recvKey t \<and> sendNonce s = sendNonce t \<and> recvNonce s = recvNonce t"

definition signed_session :: "crypto_lib \<Rightarrow> bytes \<Rightarrow> session \<Rightarrow> bool" where
  "signed_session lib pk s \<longleftrightarrow>
     (\<exists>priv pub eph sig secret s0.
        ed_verify lib pk eph sig \<and> x_ecdh lib priv eph = Some secret \<and>
        DeriveSession (hkdf lib) secret pub eph False = Some s0 \<and> same_keys s s0)"

definition sessions_signed :: "crypto_lib \<Rightarrow> 'a agent_scheme \<Rightarrow> bool" where
  "sessions_signed lib a \<longleftrightarrow>
     (\<forall>pk s. ag_pubkey a = Some pk \<longrightarrow> ag_http a = Some s \<longrightarrow> signed_session lib pk s)"

text \<open>A request that shows its payload, and one that hides it.\<close>

definition clear_req :: "'a agent_scheme \<Rightarrow> string \<Rightarrow> string \<Rightarrow> bytes \<Rightarrow> out_req \<Rightarrow> bool" where
  "clear_req a base path payload r \<longleftrightarrow>
     or_base r = base \<and> or_path r = path \<and> or_token r = ag_token a \<and> \<not> or_encrypted r \<and> or_body r = payload"

definition sealed_req :: "crypto_lib \<Rightarrow> 'a agent_scheme \<Rightarrow> string \<Rightarrow> string \<Rightarrow> bytes \<Rightarrow> out_req \<Rightarrow> bool" where
  "sealed_req lib a base path payload r \<longleftrightarrow>
     or_base r = base \<and> or_path r = path \<and> or_token r = ag_token a \<and> or_encrypted r \<and>
     (\<exists>s. ag_http a = Some s \<and> or_body r = fst (Encrypt (gcm_seal lib) s payload))"

lemma encrypt_keys: "same_keys (snd (Encrypt f s p)) s"
  by (simp add: same_keys_def Encrypt_def Let_def)

lemma decrypt_keys: "same_keys (snd (Decrypt f s p)) s"
  by (auto simp: same_keys_def Decrypt_def Let_def split: prod.splits option.splits)

lemma same_keys_trans: "same_keys s t \<Longrightarrow> same_keys t u \<Longrightarrow> same_keys s u"
  by (simp add: same_keys_def)

lemma signed_keys: "signed_session lib pk t \<Longrightarrow> same_keys s t \<Longrightarrow> signed_session lib pk s"
  unfolding signed_session_def by (blast intro: same_keys_trans)

lemma exchanged_signed: "exchanged_session lib pk priv pub kx = Some s \<Longrightarrow> signed_session lib pk s"
  by (force simp: exchanged_session_def signed_session_def same_keys_def split: if_splits option.splits prod.splits)

lemma http_do_simps [simp]:
  "ag_sent (snd (http_do r a)) = ag_sent a @ [r]" "ag_http (snd (http_do r a)) = ag_http a"
  "ag_pubkey (snd (http_do r a)) = ag_pubkey a" "ag_token (snd (http_do r a)) = ag_token a"
  "ag_master (snd (http_do r a)) = ag_master a" "ag_activated (snd (http_do r a)) = ag_activated a"
  "ag_recovery (snd (http_do r a)) = ag_recovery a" "ag_contact (snd (http_do r a)) = ag_contact a"
  by (simp_all add: http_do_def Let_def split: list.split)

lemma ephemeral_simps [simp]:
  "ag_sent (snd (generate_ephemeral a)) = ag_sent a" "ag_http (snd (generate_ephemeral a)) = ag_http a"
  "ag_pubkey (snd (generate_ephemeral a)) = ag_pubkey a" "ag_token (snd (generate_ephemeral a)) = ag_token a"
  "ag_master (snd (generate_ephemeral a)) = ag_master a" "ag_activated (snd (generate_ephemeral a)) = ag_activated a"
  "ag_recovery (snd (generate_ephemeral a)) = ag_recovery a" "ag_contact (snd (generate_ephemeral a)) = ag_contact a"
  by (simp_all add: generate_ephemeral_def split: list.split)

lemma kx_state:
  assumes "doHTTPKeyExchange lib pk base path payload a = (r, a')"
  shows "ag_pubkey a' = ag_pubkey a \<and> ag_token a' = ag_token a \<and> ag_master a' = ag_master a \<and>
    ag_activated a' = ag_activated a \<and> ag_recovery a' = ag_recovery a \<and> ag_contact a' = ag_contact a \<and>
    (ag_http a' = ag_http a \<or> (\<exists>s. ag_http a' = Some s \<and> signed_session lib pk s)) \<and>
    (\<exists>new. ag_sent a' = ag_sent a @ new \<and> length new \<le> 1 \<and>
       (\<forall>q\<in>set new. clear_req a base path payload q \<and> or_kx q \<noteq> None))"
proof -
  obtain k a1 where k: "generate_ephemeral a = (k, a1)" by fastforce
  have 1: "ag_sent a1 = ag_sent a" "ag_http a1 = ag_http a" "ag_pubkey a1 = ag_pubkey a" "ag_token a1 = ag_token a"
    "ag_master a1 = ag_master a" "ag_activated a1 = ag_activated a" "ag_recovery a1 = ag_recovery a"
    "ag_contact a1 = ag_contact a"
    using ephemeral_simps [of a] k by simp_all
  show ?thesis
  proof (cases k)
    case None
    with assms k 1 show ?thesis by (simp add: doHTTPKeyExchange_def)
  next
    case (Some pq)
    obtain priv pub where pq: "pq = (priv, pub)" by fastforce
    let ?q = "(plain_req base path a1 payload)\<lparr>or_kx := Some pub\<rparr>"
    obtain resp a2 where d: "http_do ?q a1 = (resp, a2)" by fastforce
    have 2: "ag_sent a2 = ag_sent a1 @ [?q]" "ag_http a2 = ag_http a1" "ag_pubkey a2 = ag_pubkey a1"
      "ag_token a2 = ag_token a1" "ag_master a2 = ag_master a1" "ag_activated a2 = ag_activated a1"
      "ag_recovery a2 = ag_recovery a1" "ag_contact a2 = ag_contact a1"
      using http_do_simps [of ?q a1] d by simp_all
    have "a' = a2 \<or> (\<exists>s. a' = a2\<lparr>ag_http := Some s\<rparr> \<and> signed_session lib pk s)"
      using assms k Some pq d
      by (auto simp: doHTTPKeyExchange_def dest: exchanged_signed split: option.splits if_splits)
    moreover have "clear_req a base path payload ?q \<and> or_kx ?q \<noteq> None"
      by (simp add: clear_req_def plain_req_def 1)
    ultimately show ?thesis using 1 2 by auto
  qed
qed

text \<open>A request sealed under the session \<open>s\<close>: the master does not know the session, or it is at most used to open
  the answer.\<close>

lemma encrypted_call:
  assumes "ag_pubkey a = Some pk" and "ag_http a = Some s" and "Encrypt (gcm_seal lib) s payload = (enc, s1)"
    and "http_do ((plain_req base path (a\<lparr>ag_http := Some s1\<rparr>) enc)\<lparr>or_encrypted := True\<rparr>) (a\<lparr>ag_http := Some s1\<rparr>) =
      (resp, a2)"
    and "doEncryptedHTTP lib base path payload a = (r, a')"
  shows "(\<exists>x. resp = Some x \<and> rs_status x = 412 \<and>
            doHTTPKeyExchange lib pk base path payload (a2\<lparr>ag_http := None\<rparr>) = (r, a')) \<or>
    a' = a2 \<or> (\<exists>b. a' = a2\<lparr>ag_http := Some (snd (Decrypt (gcm_unseal lib) s1 b))\<rparr>)"
proof (cases resp)
  case None
  with assms show ?thesis by (simp add: doEncryptedHTTP_def Let_def)
next
  case (Some x)
  have "doEncryptedHTTP lib base path payload a =
      (if rs_status x = 412 then doHTTPKeyExchange lib pk base path payload (a2\<lparr>ag_http := None\<rparr>)
       else if rs_status x \<noteq> 200 then (Inl (HttpStatus (rs_status x) (rs_body x)), a2)
       else if rhdr x ''X-Encrypted'' = ''1'' then
         (case Decrypt (gcm_unseal lib) s1 (rs_body x) of
            (Inl e, s2) \<Rightarrow> (Inl (DecryptErr e), a2\<lparr>ag_http := Some s2\<rparr>)
          | (Inr clear, s2) \<Rightarrow> (Inr clear, a2\<lparr>ag_http := Some s2\<rparr>))
       else (Inr (rs_body x), a2))"
    using assms(1-4) Some by (simp add: doEncryptedHTTP_def Let_def)
  note eq = this [unfolded assms(5)]
  obtain dec s2 where d: "Decrypt (gcm_unseal lib) s1 (rs_body x) = (dec, s2)" by fastforce
  show ?thesis
  proof (cases "rs_status x = 412")
    case True
    with eq Some show ?thesis by simp
  next
    case False
    with eq d have "a' = a2 \<or> a' = a2\<lparr>ag_http := Some s2\<rparr>" by (cases dec) (simp_all split: if_splits)
    moreover have "s2 = snd (Decrypt (gcm_unseal lib) s1 (rs_body x))" by (simp add: d)
    ultimately show ?thesis by blast
  qed
qed

lemma http_protected:
  assumes "ag_pubkey a = Some pk" and "sessions_signed lib a"
    and "doEncryptedHTTP lib base path payload a = (r, a')"
  shows "sessions_signed lib a' \<and> ag_pubkey a' = Some pk \<and>
    (\<exists>new. ag_sent a' = ag_sent a @ new \<and> length new \<le> 2 \<and>
       (\<forall>q\<in>set new. sealed_req lib a base path payload q \<or> clear_req a base path payload q \<and> or_kx q \<noteq> None) \<and>
       (ag_http a \<noteq> None \<longrightarrow> (\<exists>q\<in>set new. clear_req a base path payload q) \<longrightarrow>
          (\<exists>resp rest. ag_answers a = Some resp # rest \<and> rs_status resp = 412)))"
proof (cases "ag_http a")
  case None
  with assms(1,3) have k: "doHTTPKeyExchange lib pk base path payload a = (r, a')" by (simp add: doEncryptedHTTP_def)
  from kx_state [OF k] obtain new where "ag_sent a' = ag_sent a @ new" "length new \<le> 1"
    "\<forall>q\<in>set new. clear_req a base path payload q \<and> or_kx q \<noteq> None" by blast
  moreover from kx_state [OF k] assms(1,2) have "sessions_signed lib a'" "ag_pubkey a' = Some pk"
    by (auto simp: sessions_signed_def)
  ultimately show ?thesis using None by (intro conjI exI [of _ new]) simp_all
next
  case (Some s)
  obtain enc s1 where e: "Encrypt (gcm_seal lib) s payload = (enc, s1)" by fastforce
  let ?a1 = "a\<lparr>ag_http := Some s1\<rparr>"
  let ?q = "(plain_req base path ?a1 enc)\<lparr>or_encrypted := True\<rparr>"
  obtain resp a2 where d: "http_do ?q ?a1 = (resp, a2)" by fastforce
  have 2: "ag_sent a2 = ag_sent a @ [?q]" "ag_http a2 = Some s1" "ag_pubkey a2 = Some pk" "ag_token a2 = ag_token a"
    using http_do_simps [of ?q ?a1] d assms(1) by simp_all
  have sealed: "sealed_req lib a base path payload ?q" "\<not> clear_req a base path payload ?q"
    using Some e by (simp_all add: sealed_req_def clear_req_def plain_req_def)
  have ss: "signed_session lib pk s" using assms(1,2) Some by (simp add: sessions_signed_def)
  have s1: "signed_session lib pk s1" using signed_keys [OF ss] encrypt_keys [of "gcm_seal lib" s payload] e by simp
  have s2: "signed_session lib pk (snd (Decrypt f s1 b))" for f b by (rule signed_keys [OF s1 decrypt_keys])
  show ?thesis
  proof (cases "\<exists>x. resp = Some x \<and> rs_status x = 412")
    case True
    then obtain x where x: "resp = Some x" "rs_status x = 412" by blast
    then have k: "doHTTPKeyExchange lib pk base path payload (a2\<lparr>ag_http := None\<rparr>) = (r, a')"
      using assms(1,3) Some e d by (simp add: doEncryptedHTTP_def Let_def)
    from kx_state [OF k] obtain new where n: "ag_sent a' = ag_sent a2 @ new" "length new \<le> 1"
      "\<forall>q\<in>set new. clear_req a base path payload q \<and> or_kx q \<noteq> None"
      using 2 by (auto simp: clear_req_def)
    have "\<exists>rest. ag_answers a = Some x # rest"
      using d x by (auto simp: http_do_def Let_def split: list.splits)
    moreover have "sessions_signed lib a'" "ag_pubkey a' = Some pk"
      using kx_state [OF k] 2 by (auto simp: sessions_signed_def)
    ultimately show ?thesis
      using n 2 sealed x by (intro conjI exI [of _ "?q # new"]) auto
  next
    case False
    have "a' = a2 \<or> (\<exists>b. a' = a2\<lparr>ag_http := Some (snd (Decrypt (gcm_unseal lib) s1 b))\<rparr>)"
      using encrypted_call [OF assms(1) Some e d assms(3)] False by blast
    then have "sessions_signed lib a'" "ag_pubkey a' = Some pk" "ag_sent a' = ag_sent a @ [?q]"
      using 2 s1 s2 by (auto simp: sessions_signed_def)
    then show ?thesis using sealed by (intro conjI exI [of _ "[?q]"]) auto
  qed
qed

text \<open>C14: What a pinned master key guarantees for one encrypted call, whatever the network answers, for an agent whose present session, if
  it has one, came from a key exchange signed by that key. The session it has afterwards came from such an exchange
  too. At most two requests are made. A request either carries the payload sealed under the session in force at the call,
  or is a key exchange, and a key exchange carries the payload in the clear; with a session in force it is made only after the
  master has answered that it does not know the session (412).\<close>

theorem http_requests_protected:
  assumes "ag_pubkey a = Some pk" and "sessions_signed lib a"
    and "doEncryptedHTTP lib base path payload a = (r, a')"
  shows "sessions_signed lib a' \<and> ag_pubkey a' = Some pk \<and>
    (\<exists>new. ag_sent a' = ag_sent a @ new \<and> length new \<le> 2 \<and>
       (\<forall>q\<in>set new. sealed_req lib a base path payload q \<or> clear_req a base path payload q \<and> or_kx q \<noteq> None) \<and>
       (ag_http a \<noteq> None \<longrightarrow> (\<exists>q\<in>set new. clear_req a base path payload q) \<longrightarrow>
          (\<exists>resp rest. ag_answers a = Some resp # rest \<and> rs_status resp = 412)))"
  by (rule http_protected [OF assms])

text \<open>An example: a library whose only signed key is the one of 32 zeros.\<close>

definition toy_lib :: crypto_lib where
  "toy_lib = \<lparr>b64_decode = (\<lambda>s. Some (replicate (length s) 0)), b64_encode = (\<lambda>b. replicate (length b) (CHR ''A'')),
     ed_verify = (\<lambda>pk m sig. pk = [1]), x_ecdh = (\<lambda>priv pub. Some [9]), hkdf = toy_kdf, gcm_seal = toy_seal,
     gcm_unseal = toy_unseal\<rparr>"

definition toy_agent :: agent where
  "toy_agent = \<lparr>ag_token = ''t'', ag_master = ''https://m'', ag_recovery = ''http://r'', ag_contact = 0,
     ag_activated = False, ag_pubkey = Some [1], ag_http = None, ag_answers = [], ag_keys = [], ag_sent = [],
     ag_client = new_client, ag_signal = False\<rparr>"

definition unknown_session :: "agent" where
  "unknown_session = toy_agent\<lparr>ag_http := Some \<lparr>sendKey = replicate 32 7, recvKey = replicate 32 7, sendSeq = 3,
       sendNonce = replicate 12 7, recvNonce = replicate 12 7, recvWindow = newWindow\<rparr>,
     ag_answers := [Some (http_error ''x'' 412), None], ag_keys := [Some ([5], [6])]\<rparr>"

lemma http_requests_protected_witness:
  "List.map or_encrypted (ag_sent (snd (doEncryptedHTTP toy_lib ''https://m'' ''/p'' [1, 2] unknown_session))) =
     [True, False] \<and>
   sessions_signed toy_lib (snd (doEncryptedHTTP toy_lib ''https://m'' ''/p'' [1, 2] unknown_session))"
proof -
  have k: "ag_pubkey unknown_session = Some [1]" by (simp add: unknown_session_def toy_agent_def)
  have "signed_session toy_lib [1] \<lparr>sendKey = replicate 32 7, recvKey = replicate 32 7, sendSeq = 3,
       sendNonce = replicate 12 7, recvNonce = replicate 12 7, recvWindow = newWindow\<rparr>"
    unfolding signed_session_def
    by (rule exI [of _ "[]"], rule exI [of _ "[]"], rule exI [of _ "[]"], rule exI [of _ "[]"], rule exI [of _ "[9]"],
        rule exI [of _ "\<lparr>sendKey = replicate 32 7, recvKey = replicate 32 7, sendSeq = 0,
          sendNonce = replicate 12 7, recvNonce = replicate 12 7, recvWindow = newWindow\<rparr>"])
      (simp add: toy_lib_def DeriveSession_def toy_kdf_def same_keys_def)
  then have s: "sessions_signed toy_lib unknown_session"
    by (simp add: sessions_signed_def unknown_session_def toy_agent_def)
  obtain r a' where d: "doEncryptedHTTP toy_lib ''https://m'' ''/p'' [1, 2] unknown_session = (r, a')" by fastforce
  have "List.map or_encrypted (ag_sent (snd (doEncryptedHTTP toy_lib ''https://m'' ''/p'' [1, 2] unknown_session))) =
     [True, False]"
    by (simp add: doEncryptedHTTP_def doHTTPKeyExchange_def unknown_session_def toy_agent_def http_do_def Let_def
        generate_ephemeral_def plain_req_def Encrypt_def http_error_def)
  with http_requests_protected [OF k s d] d show ?thesis by simp
qed

text \<open>An answer that is not sealed is believed all the same, session or not.\<close>

lemma unsealed_answer_believed:
  assumes "ag_http a = Some s" and "ag_pubkey a = Some pk"
    and "ag_answers a = Some \<lparr>rs_status = 200, rs_headers = [], rs_body = b\<rparr> # rest"
  shows "fst (doEncryptedHTTP lib base path payload a) = Inr b"
  using assms by (simp add: doEncryptedHTTP_def http_do_def Let_def rhdr_def case_prod_beta)

section \<open>Recovery\<close>

lemma http_state:
  assumes "doEncryptedHTTP lib base path payload a = (r, a')"
  shows "ag_master a' = ag_master a \<and> ag_token a' = ag_token a \<and> ag_activated a' = ag_activated a \<and>
    ag_recovery a' = ag_recovery a"
proof (cases "ag_pubkey a")
  case None
  obtain resp a1 where h: "http_do (plain_req base path a payload) a = (resp, a1)" by fastforce
  from assms None h have "a' = a1" by (cases resp) (simp_all add: doEncryptedHTTP_def split: if_splits)
  with http_do_simps [of "plain_req base path a payload" a] h show ?thesis by simp
next
  case pk: (Some pk)
  show ?thesis
  proof (cases "ag_http a")
    case None
    with assms pk have "doHTTPKeyExchange lib pk base path payload a = (r, a')" by (simp add: doEncryptedHTTP_def)
    from kx_state [OF this] show ?thesis by simp
  next
    case (Some s)
    obtain enc s1 where e: "Encrypt (gcm_seal lib) s payload = (enc, s1)" by fastforce
    let ?a1 = "a\<lparr>ag_http := Some s1\<rparr>"
    let ?q = "(plain_req base path ?a1 enc)\<lparr>or_encrypted := True\<rparr>"
    obtain resp a2 where d: "http_do ?q ?a1 = (resp, a2)" by fastforce
    have 2: "ag_master a2 = ag_master a" "ag_token a2 = ag_token a" "ag_activated a2 = ag_activated a"
      "ag_recovery a2 = ag_recovery a"
      using http_do_simps [of ?q ?a1] d by simp_all
    from encrypted_call [OF pk Some e d assms]
    consider (kx) "doHTTPKeyExchange lib pk base path payload (a2\<lparr>ag_http := None\<rparr>) = (r, a')"
      | (same) "a' = a2" | (used) t where "a' = a2\<lparr>ag_http := t\<rparr>" by blast
    then show ?thesis
    proof cases
      case kx
      from kx_state [OF kx] 2 show ?thesis by simp
    qed (simp_all add: 2)
  qed
qed

text \<open>What one recovery attempt may do to the address of the master.\<close>

definition switched :: "'a agent_scheme \<Rightarrow> world \<Rightarrow> bool" where
  "switched a w \<longleftrightarrow>
     ag_activated a \<and> has_prefix (ag_master a) ''http://'' \<and>
     (\<exists>w0. persistConfigField ''master_url'' (ag_master a) w0 = (None, w))"

lemma recovery_attempt:
  assumes "tryRecoveryHeartbeat lib net now payload a w = (r, a', w')"
  shows "ag_token a' = ag_token a \<and> ag_recovery a' = ag_recovery a \<and>
    (ag_master a' = ag_master a \<and> (\<not> ag_activated a \<longrightarrow> \<not> ag_activated a') \<or>
     httpsRecoveryEligible net a \<and> \<not> ag_activated a \<and> r = None \<and> switched a' w' \<and>
     cl_reconnects (ag_client a') = 0 \<and> ag_signal a' \<and>
     (\<exists>u. nl_url net (trim_slashes (ag_recovery a)) = Some u \<and> up_scheme u = ''http''))"
proof (cases "httpsRecoveryEligible net a")
  case False
  with assms show ?thesis by (simp add: tryRecoveryHeartbeat_def)
next
  case True
  let ?rec = "trim_slashes (ag_recovery a)"
  show ?thesis
  proof (cases "\<exists>u. nl_url net ?rec = Some u \<and> up_scheme u = ''http'' \<and> up_hostname u \<noteq> []")
    case False
    with assms True show ?thesis
      by (auto simp: tryRecoveryHeartbeat_def Let_def split: option.splits)
  next
    case u: True
    then obtain u where u: "nl_url net ?rec = Some u" "up_scheme u = ''http''" "up_hostname u \<noteq> []" by blast
    obtain ans a1 where d: "doEncryptedHTTP lib ?rec PathRemoteHeartbeat payload a = (ans, a1)" by fastforce
    note st = http_state [OF d]
    show ?thesis
    proof (cases "\<exists>b url. ans = Inr b \<and> nl_recovery net b = Some (True, url)")
      case False
      then have "a' = a1"
        using assms True u d
        by (auto simp: tryRecoveryHeartbeat_def Let_def split: sum.splits option.splits bool.splits)
      with st show ?thesis by simp
    next
      case ok: True
      then obtain b url where ok: "ans = Inr b" "nl_recovery net b = Some (True, url)" by blast
      let ?a2 = "a1\<lparr>ag_contact := now\<rparr>"
      let ?new = "if trim_slashes url = [] then ?rec else trim_slashes url"
      have r: "tryRecoveryHeartbeat lib net now payload a w =
          (if \<not> has_prefix ?new ''http://'' then (Some NotHTTP, ?a2, w)
           else if ag_activated ?a2 then (None, ?a2, w)
           else (case persistConfigField ''master_url'' ?new w of
                   (Some e, w1) \<Rightarrow> (Some (PersistFailed e), ?a2\<lparr>ag_activated := False\<rparr>, w1)
                 | (None, w1) \<Rightarrow>
                     (None, wake (?a2\<lparr>ag_activated := True, ag_master := ?new, ag_contact := now\<rparr>), w1)))"
        using True u d ok by (simp add: tryRecoveryHeartbeat_def Let_def del: if_split)
      show ?thesis
      proof (cases "has_prefix ?new ''http://'' \<and> \<not> ag_activated a")
        case False
        with r assms st show ?thesis by (auto split: if_splits simp del: has_prefix_Cons)
      next
        case hp: True
        obtain e w1 where pe: "persistConfigField ''master_url'' ?new w = (e, w1)" by fastforce
        from hp r st have r': "tryRecoveryHeartbeat lib net now payload a w =
            (case e of Some e \<Rightarrow> (Some (PersistFailed e), ?a2\<lparr>ag_activated := False\<rparr>, w1)
             | None \<Rightarrow> (None, wake (?a2\<lparr>ag_activated := True, ag_master := ?new, ag_contact := now\<rparr>), w1))"
          unfolding pe by (simp del: has_prefix_Cons)
        show ?thesis
        proof (cases e)
          case (Some x)
          with r' assms st show ?thesis by simp
        next
          case None
          with r' assms have a': "r = None" "w' = w1"
            "a' = wake (?a2\<lparr>ag_activated := True, ag_master := ?new, ag_contact := now\<rparr>)" by simp_all
          have "switched a' w'"
            unfolding switched_def using a' pe hp None
            by (intro conjI exI [of _ w]) (simp_all add: wake_def del: has_prefix_Cons)
          with a' st True hp u show ?thesis by (simp add: wake_def triggerReconnect_def)
        qed
      qed
    qed
  qed
qed

lemma recovery_loop_active: "ag_activated a \<Longrightarrow> runMasterRecoveryLoop lib net ts (a, w) = (a, w)"
  by (induction ts) (auto simp: recovery_tick_def recovery_due_def)

text \<open>The recovery changes the master's address at most once, and only from HTTPS to HTTP. Run the loop for any
  ticks against any network and any disk: the address is what it was, or it is an http address that
  \<open>persistConfigField\<close> had accepted before it was used, the loop is disarmed and the reconnection was
  triggered without back-off. An agent whose address is not HTTPS, or that has no http recovery address, is
  never redirected; the token never changes. Once switched, further ticks do nothing.\<close>

theorem recovery_switches_once:
  assumes "\<not> ag_activated a" and "runMasterRecoveryLoop lib net ts (a, w) = (a', w')"
  shows "ag_token a' = ag_token a \<and>
    (ag_master a' = ag_master a \<and> \<not> ag_activated a' \<or>
     httpsRecoveryEligible net a \<and> switched a' w' \<and> cl_reconnects (ag_client a') = 0 \<and> ag_signal a' \<and>
     (\<exists>u. nl_url net (trim_slashes (ag_recovery a)) = Some u \<and> up_scheme u = ''http'') \<and>
     (\<forall>more. runMasterRecoveryLoop lib net more (a', w') = (a', w')))"
  using assms
proof (induction ts arbitrary: a w)
  case (Cons t ts)
  obtain now payload where t: "t = (now, payload)" by fastforce
  obtain r a1 w1 where 1: "tryRecoveryHeartbeat lib net now payload a w = (r, a1, w1)" by (metis prod_cases3)
  show ?case
  proof (cases "recovery_due net now a")
    case False
    with Cons t show ?thesis by (simp add: recovery_tick_def)
  next
    case True
    with Cons.prems t 1 have run: "runMasterRecoveryLoop lib net ts (a1, w1) = (a', w')" by (simp add: recovery_tick_def)
    note att = recovery_attempt [OF 1]
    show ?thesis
    proof (cases "ag_master a1 = ag_master a \<and> \<not> ag_activated a1")
      case keep: True
      then have "httpsRecoveryEligible net a1 = httpsRecoveryEligible net a" by (simp add: httpsRecoveryEligible_def)
      with Cons.IH [OF _ run] keep att show ?thesis by simp
    next
      case False
      with att Cons.prems(1) have sw: "httpsRecoveryEligible net a" "switched a1 w1"
        "cl_reconnects (ag_client a1) = 0" "ag_signal a1"
        "\<exists>u. nl_url net (trim_slashes (ag_recovery a)) = Some u \<and> up_scheme u = ''http''" by auto
      then have "ag_activated a1" by (simp add: switched_def)
      with run have "a' = a1" "w' = w1" by (simp_all add: recovery_loop_active)
      with sw att recovery_loop_active [OF \<open>ag_activated a1\<close>] show ?thesis by simp
    qed
  qed
qed simp

text \<open>A network that answers the recovery probe, and parsers that know three addresses.\<close>

definition toy_net :: net_lib where
  "toy_net = \<lparr>nl_url = (\<lambda>s. if s = ''https://m'' then Some \<lparr>up_scheme = ''https'', up_host = ''m'', up_hostname = ''m''\<rparr>
       else if s = ''http://r'' then Some \<lparr>up_scheme = ''http'', up_host = ''r'', up_hostname = ''r''\<rparr> else None),
     nl_recovery = (\<lambda>b. Some (True, ''http://evil''))\<rparr>"

definition empty_world :: world where
  "empty_world = \<lparr>files = [], tape = [], running = None, api = []\<rparr>"

definition answered_agent :: agent where
  "answered_agent = toy_agent\<lparr>ag_answers := [Some \<lparr>rs_status = 200, rs_headers = [], rs_body = []\<rparr>],
     ag_keys := [Some ([5], [6])]\<rparr>"

lemma recovery_example:
  "runMasterRecoveryLoop toy_lib toy_net [(300, [])] (answered_agent, empty_world) =
   (wake (answered_agent\<lparr>ag_activated := True, ag_master := ''http://evil'', ag_contact := 300, ag_answers := [],
      ag_keys := [],
      ag_sent := [\<lparr>or_base = ''http://r'', or_path = PathRemoteHeartbeat, or_token = ''t'', or_kx = Some [6],
        or_encrypted = False, or_body = []\<rparr>]\<rparr>), empty_world)"
proof -
  have t: "trim_space ''https://m'' = ''https://m''" "trim_space ''http://r'' = ''http://r''"
    "trim_slashes ''http://r'' = ''http://r''" "trim_slashes ''http://evil'' = ''http://evil''"
    by (simp_all add: trim_space_def trim_slashes_def trim_func_def trim_left_def trim_right_def is_space_def)
  have l: "to_lower ''https'' = ''https''" by (simp add: to_lower_def to_lower_char_def)
  have n: "NoControlChars ''http://evil''" by (simp add: NoControlChars_def)
  have p: "persistConfigField ''master_url'' ''http://evil'' empty_world = (None, empty_world)"
    using n by (simp add: persistConfigField_def read_file_def next_outcome_def empty_world_def file_at_def)
  show ?thesis
    by (simp add: recovery_tick_def recovery_due_def httpsRecoveryEligible_def tryRecoveryHeartbeat_def Let_def
        answered_agent_def toy_agent_def toy_net_def t l p doEncryptedHTTP_def doHTTPKeyExchange_def
        generate_ephemeral_def http_do_def plain_req_def exchanged_session_def rhdr_def wake_def)
qed

lemma recovery_switches_once_witness:
  "switched (fst (runMasterRecoveryLoop toy_lib toy_net [(300, [])] (answered_agent, empty_world))) empty_world"
proof -
  have a: "\<not> ag_activated answered_agent" by (simp add: answered_agent_def toy_agent_def)
  from recovery_switches_once [OF a recovery_example]
  show ?thesis unfolding recovery_example by (auto simp: answered_agent_def toy_agent_def wake_def)
qed

text \<open>The key of the master does not protect the recovery: an answer with no signature and no encryption
  redirects the agent for good, and the request carries the token in the clear.\<close>

lemma forged_recovery_answer:
  "let a' = fst (runMasterRecoveryLoop (toy_lib\<lparr>ed_verify := \<lambda>_ _ _. False\<rparr>) toy_net [(300, [])]
                   (answered_agent, empty_world))
   in ag_pubkey answered_agent \<noteq> None \<and> ag_master a' = ''http://evil'' \<and> List.map or_token (ag_sent a') = [''t'']"
proof -
  have t: "trim_space ''https://m'' = ''https://m''" "trim_space ''http://r'' = ''http://r''"
    "trim_slashes ''http://r'' = ''http://r''" "trim_slashes ''http://evil'' = ''http://evil''"
    by (simp_all add: trim_space_def trim_slashes_def trim_func_def trim_left_def trim_right_def is_space_def)
  have l: "to_lower ''https'' = ''https''" by (simp add: to_lower_def to_lower_char_def)
  have n: "NoControlChars ''http://evil''" by (simp add: NoControlChars_def)
  have p: "persistConfigField ''master_url'' ''http://evil'' empty_world = (None, empty_world)"
    using n by (simp add: persistConfigField_def read_file_def next_outcome_def empty_world_def file_at_def)
  show ?thesis
    by (simp add: recovery_tick_def recovery_due_def httpsRecoveryEligible_def tryRecoveryHeartbeat_def Let_def
        answered_agent_def toy_agent_def toy_net_def t l p doEncryptedHTTP_def doHTTPKeyExchange_def
        generate_ephemeral_def http_do_def plain_req_def exchanged_session_def rhdr_def wake_def)
qed

end
