(* ===== verification/Ws_Rpc.thy ===== *)
theory Ws_Rpc
  imports Go_Prelude "HOL-Library.Word"
begin

text \<open>
  Calls of the master over the WebSocket (\<open>internal/agent/ws_rpc.go\<close>): a \<open>rpc_call\<close> is turned into a request
  for the same handlers the HTTP listener serves, and the answer goes back as one \<open>rpc_reply\<close>, or, for a
  streaming call, as \<open>rpc_stream_data\<close> frames followed by the reply.

  A handler is given by what it does with its response writer, each action with the time (nanoseconds
  after the call began) at which it happens, and by how it ends. What is sent is a list of frames in
  order. \<open>valid\<close> says whether a byte string is JSON: \<open>json.Marshal\<close> refuses a raw message that is not.
\<close>

section \<open>Data\<close>

record rpc_call =
  rc_id :: string
  rc_method :: string
  rc_path :: string
  rc_query :: string
  rc_body :: string
  rc_timeout :: int
  rc_stream :: bool

record rpc_request =
  rr_method :: string
  rr_path :: string
  rr_query :: string
  rr_body :: string
  rr_headers :: "(string \<times> string) list"
  rr_remote :: string

record rpc_reply =
  rp_id :: string
  rp_status :: nat
  rp_body :: string
  rp_error :: string

datatype frame = ReplyFrame rpc_reply | DataFrame string string

datatype wact = WHeader nat | WWrite string | WFlush
datatype handler_end = Done nat | Panic nat | Never

text \<open>What becomes of the agent: it goes on, or the process dies.\<close>

datatype rpc_end = Alive "frame list" | Crashed "frame list"

section \<open>The request\<close>

text \<open>\<open>http.NewRequest\<close> fails on an invalid method or address: \<open>acceptable\<close>.\<close>

definition rpc_http_request :: "(string \<Rightarrow> string \<Rightarrow> bool) \<Rightarrow> rpc_call \<Rightarrow> rpc_request option" where
  "rpc_http_request acceptable p =
     (if \<not> acceptable (rc_method p) (rc_path p) then None
      else Some \<lparr>rr_method = rc_method p, rr_path = rc_path p, rr_query = rc_query p, rr_body = rc_body p,
        rr_headers = [(''X-WS-RPC'', ''1''), (''Content-Type'', ''application/json'')], rr_remote = ''ws-rpc''\<rparr>)"

text \<open>\<open>sendRPCReply\<close>: a reply whose body is not JSON cannot be encoded and is dropped; an empty body is left out.\<close>

definition sendRPCReply :: "(string \<Rightarrow> bool) \<Rightarrow> rpc_reply \<Rightarrow> frame list" where
  "sendRPCReply valid reply =
     (if rp_body reply \<noteq> [] \<and> \<not> valid (rp_body reply) then [] else [ReplyFrame reply])"

definition sendRPCStreamData :: "string \<Rightarrow> string \<Rightarrow> frame list" where
  "sendRPCStreamData reqID part = [DataFrame reqID part]"

definition empty_reply :: "string \<Rightarrow> rpc_reply" where
  "empty_reply reqID = \<lparr>rp_id = reqID, rp_status = 0, rp_body = [], rp_error = []\<rparr>"

section \<open>The buffering writer\<close>

record buffer_writer =
  bw_body :: string
  bw_status :: nat

definition newBufferResponseWriter :: buffer_writer where
  "newBufferResponseWriter = \<lparr>bw_body = [], bw_status = 200\<rparr>"

fun buffer_act :: "wact \<Rightarrow> buffer_writer \<Rightarrow> buffer_writer" where
  "buffer_act (WHeader s) w = w\<lparr>bw_status := s\<rparr>"
| "buffer_act (WWrite b) w = w\<lparr>bw_body := bw_body w @ b\<rparr>"
| "buffer_act WFlush w = w"

section \<open>The streaming writer\<close>

record stream_writer =
  sw_id :: string
  sw_status :: nat
  sw_buf :: string
  sw_sent :: "frame list"

definition newStreamingResponseWriter :: "string \<Rightarrow> stream_writer" where
  "newStreamingResponseWriter reqID = \<lparr>sw_id = reqID, sw_status = 200, sw_buf = [], sw_sent = []\<rparr>"

definition stream_Flush :: "stream_writer \<Rightarrow> stream_writer" where
  "stream_Flush w =
     (if sw_buf w = [] then w
      else w\<lparr>sw_buf := [], sw_sent := sw_sent w @ sendRPCStreamData (sw_id w) (sw_buf w)\<rparr>)"

fun stream_act :: "wact \<Rightarrow> stream_writer \<Rightarrow> stream_writer" where
  "stream_act (WHeader s) w = w\<lparr>sw_status := s\<rparr>"
| "stream_act (WWrite b) w = w\<lparr>sw_buf := sw_buf w @ b\<rparr>"
| "stream_act WFlush w = stream_Flush w"

section \<open>The calls\<close>

text \<open>A handler: what it writes, with the times, and how it ends. The acts up to a time.\<close>

type_synonym handler_run = "(nat \<times> wact) list \<times> handler_end"

definition acts_until :: "nat \<Rightarrow> (nat \<times> wact) list \<Rightarrow> wact list" where
  "acts_until t as = List.map snd (filter (\<lambda>(t', _). t' \<le> t) as)"

definition acts_after :: "nat \<Rightarrow> (nat \<times> wact) list \<Rightarrow> wact list" where
  "acts_after t as = List.map snd (filter (\<lambda>(t', _). t < t') as)"

text \<open>\<open>time.Duration(p.TimeoutMs) * time.Millisecond\<close> is a product of two 64-bit integers, which wraps; nanoseconds.\<close>

definition rpc_timeout :: "nat \<Rightarrow> rpc_call \<Rightarrow> nat" where
  "rpc_timeout dflt p =
     (let d = sint (word_of_int (rc_timeout p * 1000000) :: 64 word) in if d \<le> 0 then dflt else nat d)"

text \<open>The mux runs in a goroutine of its own, where the deferred \<open>recover\<close> of the caller has no effect: a panic
  ends the process, at whatever time it happens. Before that, the timeout may already have been answered.
  A handler that ends exactly at the timeout is taken to be in time.\<close>

definition handleRPCCallBuffer ::
  "(string \<Rightarrow> bool) \<Rightarrow> (string \<Rightarrow> string \<Rightarrow> bool) \<Rightarrow> (rpc_request \<Rightarrow> handler_run) option \<Rightarrow> rpc_call \<Rightarrow> rpc_end" where
  "handleRPCCallBuffer valid acceptable mux p =
     (let reply = empty_reply (rc_id p)
      in (case mux of
            None \<Rightarrow> Alive (sendRPCReply valid (reply\<lparr>rp_status := 503, rp_error := ''agent rpc mux not initialized''\<rparr>))
          | Some serve \<Rightarrow>
              (case rpc_http_request acceptable p of
                 None \<Rightarrow> Alive (sendRPCReply valid (reply\<lparr>rp_status := 400, rp_error := ''construct request: ''\<rparr>))
               | Some req \<Rightarrow>
                   (let limit = rpc_timeout 30000000000 p;
                        late = sendRPCReply valid (reply\<lparr>rp_status := 504, rp_error := ''agent handler timeout''\<rparr>)
                    in (case serve req of
                          (as, e) \<Rightarrow>
                            (case e of
                               Never \<Rightarrow> Alive late
                             | Panic t \<Rightarrow> Crashed (if t \<le> limit then [] else late)
                             | Done t \<Rightarrow>
                                 if limit < t then Alive late
                                 else
                                   (let w = fold buffer_act (acts_until t as) newBufferResponseWriter
                                    in Alive (sendRPCReply valid
                                         (reply\<lparr>rp_status := bw_status w, rp_body := bw_body w\<rparr>)))))))))"

text \<open>After a timeout the handler goes on; what it flushes later is still sent.\<close>

definition handleRPCStreamCall ::
  "(string \<Rightarrow> bool) \<Rightarrow> (string \<Rightarrow> string \<Rightarrow> bool) \<Rightarrow> (rpc_request \<Rightarrow> handler_run) option \<Rightarrow> rpc_call \<Rightarrow> rpc_end" where
  "handleRPCStreamCall valid acceptable mux p =
     (let reply = empty_reply (rc_id p)
      in (case mux of
            None \<Rightarrow> Alive (sendRPCReply valid (reply\<lparr>rp_status := 503, rp_error := ''agent rpc mux not initialized''\<rparr>))
          | Some serve \<Rightarrow>
              (case rpc_http_request acceptable p of
                 None \<Rightarrow> Alive (sendRPCReply valid (reply\<lparr>rp_status := 400, rp_error := ''construct request: ''\<rparr>))
               | Some req \<Rightarrow>
                   (let limit = rpc_timeout 300000000000 p; w0 = newStreamingResponseWriter (rc_id p);
                        late = sendRPCReply valid (reply\<lparr>rp_status := 504, rp_error := ''agent handler timeout''\<rparr>)
                    in (case serve req of
                          (as, e) \<Rightarrow>
                            (let w1 = fold stream_act (acts_until limit as) w0;
                                 w2 = fold stream_act (acts_after limit as) (w1\<lparr>sw_sent := sw_sent w1 @ late\<rparr>)
                             in (case e of
                                   Never \<Rightarrow> Alive (sw_sent w2)
                                 | Panic t \<Rightarrow>
                                     Crashed (if t \<le> limit
                                              then sw_sent (fold stream_act (acts_until t as) w0) else sw_sent w2)
                                 | Done t \<Rightarrow>
                                     if limit < t then Alive (sw_sent w2)
                                     else
                                       (let w = stream_Flush (fold stream_act (acts_until t as) w0)
                                        in Alive (sw_sent w @
                                             sendRPCReply valid (reply\<lparr>rp_status := sw_status w\<rparr>))))))))))"

definition handleRPCCall ::
  "(string \<Rightarrow> bool) \<Rightarrow> (string \<Rightarrow> string \<Rightarrow> bool) \<Rightarrow> (rpc_request \<Rightarrow> handler_run) option \<Rightarrow> rpc_call \<Rightarrow> rpc_end" where
  "handleRPCCall valid acceptable mux p =
     (if rc_stream p then handleRPCStreamCall valid acceptable mux p
      else handleRPCCallBuffer valid acceptable mux p)"

section \<open>What a response writer owes its handler\<close>

text \<open>Both writers keep everything that is written, in order, and the last status. The locale names the two
  observations; \<open>start\<close> is an empty writer.\<close>

fun written :: "wact list \<Rightarrow> string" where
  "written [] = []"
| "written (WWrite b # as) = b @ written as"
| "written (_ # as) = written as"

fun last_status :: "nat \<Rightarrow> wact list \<Rightarrow> nat" where
  "last_status s [] = s"
| "last_status s (WHeader n # as) = last_status n as"
| "last_status s (_ # as) = last_status s as"

locale response_writer =
  fixes act :: "wact \<Rightarrow> 'w \<Rightarrow> 'w" and content :: "'w \<Rightarrow> string" and code :: "'w \<Rightarrow> nat"
  assumes on_header: "content (act (WHeader s) w) = content w" "code (act (WHeader s) w) = s"
    and on_write: "content (act (WWrite b) w) = content w @ b" "code (act (WWrite b) w) = code w"
    and on_flush: "content (act WFlush w) = content w" "code (act WFlush w) = code w"
begin

lemma content_acts: "content (fold act as w) = content w @ written as"
proof (induction as arbitrary: w)
  case (Cons a as)
  then show ?case by (cases a) (simp_all add: on_header on_write on_flush)
qed simp

lemma code_acts: "code (fold act as w) = last_status (code w) as"
proof (induction as arbitrary: w)
  case (Cons a as)
  then show ?case by (cases a) (simp_all add: on_header on_write on_flush)
qed simp

end

interpretation buffer_w: response_writer buffer_act bw_body bw_status
  by unfold_locales simp_all

fun frame_data :: "frame \<Rightarrow> string" where
  "frame_data (DataFrame _ s) = s"
| "frame_data (ReplyFrame _) = []"

fun is_reply :: "frame \<Rightarrow> bool" where
  "is_reply (ReplyFrame _) = True"
| "is_reply (DataFrame _ _) = False"

fun frame_id :: "frame \<Rightarrow> string" where
  "frame_id (DataFrame i _) = i"
| "frame_id (ReplyFrame r) = rp_id r"

definition sent_data :: "stream_writer \<Rightarrow> string" where
  "sent_data w = concat (List.map frame_data (sw_sent w)) @ sw_buf w"

lemma flush_data [simp]: "sent_data (stream_Flush w) = sent_data w" "sw_status (stream_Flush w) = sw_status w"
  "sw_id (stream_Flush w) = sw_id w" "sw_buf (stream_Flush w) = []"
  by (simp_all add: stream_Flush_def sent_data_def sendRPCStreamData_def)

interpretation stream_w: response_writer stream_act sent_data sw_status
  by unfold_locales (simp_all, simp_all add: sent_data_def)

lemma stream_acts_frames:
  "sw_id (fold stream_act as w) = sw_id w"
  "\<exists>ds. sw_sent (fold stream_act as w) = sw_sent w @ ds \<and> (\<forall>f\<in>set ds. \<not> is_reply f \<and> frame_id f = sw_id w)"
proof -
  have i: "sw_id (stream_act a w) = sw_id w" for a and w by (cases a) simp_all
  have f: "\<exists>ds. sw_sent (stream_act a w) = sw_sent w @ ds \<and> (\<forall>f\<in>set ds. \<not> is_reply f \<and> frame_id f = sw_id w)"
    for a and w by (cases a) (simp_all add: stream_Flush_def sendRPCStreamData_def)
  show "sw_id (fold stream_act as w) = sw_id w"
    by (induction as arbitrary: w) (simp_all add: i)
  show "\<exists>ds. sw_sent (fold stream_act as w) = sw_sent w @ ds \<and> (\<forall>f\<in>set ds. \<not> is_reply f \<and> frame_id f = sw_id w)"
  proof (induction as arbitrary: w)
    case (Cons a as)
    obtain ds where 1: "sw_sent (stream_act a w) = sw_sent w @ ds" "\<forall>f\<in>set ds. \<not> is_reply f \<and> frame_id f = sw_id w"
      using f by blast
    obtain es where 2: "sw_sent (fold stream_act as (stream_act a w)) = sw_sent (stream_act a w) @ es"
      "\<forall>f\<in>set es. \<not> is_reply f \<and> frame_id f = sw_id w"
      using Cons.IH [of "stream_act a w"] i by fastforce
    with 1 show ?case by (intro exI [of _ "ds @ es"]) auto
  qed simp
qed

section \<open>Every call is answered once\<close>

definition replies :: "frame list \<Rightarrow> rpc_reply list" where
  "replies fs = List.map_filter (\<lambda>f. case f of ReplyFrame r \<Rightarrow> Some r | DataFrame _ _ \<Rightarrow> None) fs"

lemma replies_simps [simp]:
  "replies [] = []" "replies (ReplyFrame r # fs) = r # replies fs" "replies (DataFrame i s # fs) = replies fs"
  "replies (fs @ gs) = replies fs @ replies gs"
  by (simp_all add: replies_def List.map_filter_def)

lemma replies_data: "\<forall>f\<in>set ds. \<not> is_reply f \<Longrightarrow> replies ds = []"
proof (induction ds)
  case (Cons d ds)
  then show ?case by (cases d) simp_all
qed simp

lemma reply_in_replies: "f \<in> set fs \<Longrightarrow> is_reply f \<Longrightarrow> \<exists>r\<in>set (replies fs). f = ReplyFrame r"
  by (cases f) (force simp: replies_def List.map_filter_def)+

text \<open>The data frames of a call, and what a handler that did \<open>as\<close> is answered with: when it returned in time,
  when the call timed out (it may have done some of \<open>as\<close> later), and when it ended the agent in time.\<close>

definition error_frame :: "rpc_call \<Rightarrow> nat \<Rightarrow> string \<Rightarrow> frame" where
  "error_frame p s e = ReplyFrame ((empty_reply (rc_id p))\<lparr>rp_status := s, rp_error := e\<rparr>)"

definition data_of :: "string \<Rightarrow> frame list \<Rightarrow> bool" where
  "data_of i ds \<longleftrightarrow> (\<forall>f\<in>set ds. \<not> is_reply f \<and> frame_id f = i)"

definition data_in :: "frame list \<Rightarrow> string" where
  "data_in fs = concat (List.map frame_data fs)"

definition answered :: "(string \<Rightarrow> bool) \<Rightarrow> rpc_call \<Rightarrow> wact list \<Rightarrow> frame list \<Rightarrow> bool" where
  "answered valid p as fs \<longleftrightarrow>
     (if rc_stream p then
        \<exists>ds. fs = ds @ [ReplyFrame ((empty_reply (rc_id p))\<lparr>rp_status := last_status 200 as\<rparr>)] \<and>
          data_of (rc_id p) ds \<and> data_in ds = written as
      else if written as = [] \<or> valid (written as) then
        fs = [ReplyFrame ((empty_reply (rc_id p))\<lparr>rp_status := last_status 200 as, rp_body := written as\<rparr>)]
      else fs = [])"

definition timed_out :: "rpc_call \<Rightarrow> wact list \<Rightarrow> frame list \<Rightarrow> bool" where
  "timed_out p as fs \<longleftrightarrow>
     (if rc_stream p then
        \<exists>ds es rest. fs = ds @ error_frame p 504 ''agent handler timeout'' # es \<and> data_of (rc_id p) (ds @ es) \<and>
          written as = data_in (ds @ es) @ rest
      else fs = [error_frame p 504 ''agent handler timeout''])"

definition cut_short :: "rpc_call \<Rightarrow> wact list \<Rightarrow> frame list \<Rightarrow> bool" where
  "cut_short p as fs \<longleftrightarrow>
     (if rc_stream p then \<exists>rest. data_of (rc_id p) fs \<and> written as = data_in fs @ rest else fs = [])"

lemma written_append: "written (as @ bs) = written as @ written bs"
  by (induction as rule: written.induct) auto

lemma error_reply_sent [simp]: "sendRPCReply valid ((empty_reply (rc_id p))\<lparr>rp_status := s, rp_error := e\<rparr>) =
    [error_frame p s e]"
  by (simp add: sendRPCReply_def empty_reply_def error_frame_def)

lemma status_reply_sent [simp]: "sendRPCReply valid ((empty_reply i)\<lparr>rp_status := s\<rparr>) =
    [ReplyFrame ((empty_reply i)\<lparr>rp_status := s\<rparr>)]"
  by (simp add: sendRPCReply_def empty_reply_def)

text \<open>Acts on a streaming writer send data frames, in the order written, and keep the rest.\<close>

lemma stream_acts:
  assumes "fold stream_act as w = w'"
  shows "\<exists>ds. sw_sent w' = sw_sent w @ ds \<and> data_of (sw_id w) ds \<and> sw_id w' = sw_id w \<and>
    sw_buf w @ written as = data_in ds @ sw_buf w' \<and> sw_status w' = last_status (sw_status w) as"
proof -
  obtain ds where 1: "sw_sent w' = sw_sent w @ ds" "\<forall>f\<in>set ds. \<not> is_reply f \<and> frame_id f = sw_id w"
    using stream_acts_frames(2) [of as w] assms by blast
  have "sent_data w' = sent_data w @ written as" using stream_w.content_acts [of as w] assms by simp
  with 1(1) have "sw_buf w @ written as = data_in ds @ sw_buf w'" by (simp add: sent_data_def data_in_def)
  with 1 show ?thesis
    using stream_acts_frames(1) [of as w] stream_w.code_acts [of as w] assms by (auto simp: data_of_def)
qed

lemma new_stream [simp]: "sw_id (newStreamingResponseWriter i) = i" "sw_sent (newStreamingResponseWriter i) = []"
  "sw_buf (newStreamingResponseWriter i) = []" "sw_status (newStreamingResponseWriter i) = 200"
  by (simp_all add: newStreamingResponseWriter_def)

lemma data_parts [simp]: "data_of i (ds @ es) \<longleftrightarrow> data_of i ds \<and> data_of i es" "data_in (ds @ es) = data_in ds @ data_in es"
  "data_of i []" "data_in [] = []"
  by (auto simp: data_of_def data_in_def)

text \<open>The three ends of a streaming call.\<close>

lemma stream_answered:
  assumes "rc_stream p"
  shows "answered valid p as
    (sw_sent (stream_Flush (fold stream_act as (newStreamingResponseWriter (rc_id p)))) @
     [ReplyFrame ((empty_reply (rc_id p))\<lparr>rp_status :=
        sw_status (stream_Flush (fold stream_act as (newStreamingResponseWriter (rc_id p))))\<rparr>)])"
proof -
  obtain w where w: "fold stream_act as (newStreamingResponseWriter (rc_id p)) = w" by blast
  from stream_acts [OF this] obtain ds where ds: "sw_sent w = ds" "data_of (rc_id p) ds" "sw_id w = rc_id p"
    "written as = data_in ds @ sw_buf w" "sw_status w = last_status 200 as" by auto
  have f: "sw_sent (stream_Flush w) = ds @ (if sw_buf w = [] then [] else [DataFrame (rc_id p) (sw_buf w)])"
    using ds by (simp add: stream_Flush_def sendRPCStreamData_def)
  have "data_of (rc_id p) (sw_sent (stream_Flush w)) \<and> data_in (sw_sent (stream_Flush w)) = written as"
    using ds(2,4) unfolding f by (auto simp: data_of_def data_in_def)
  then show ?thesis using assms ds(5) by (simp add: answered_def w)
qed

lemma stream_cut_short:
  assumes "rc_stream p"
  shows "cut_short p as (sw_sent (fold stream_act as (newStreamingResponseWriter (rc_id p))))"
  using stream_acts [OF refl, of as "newStreamingResponseWriter (rc_id p)"] assms by (auto simp: cut_short_def)

lemma stream_timed_out:
  assumes "rc_stream p" and "fold stream_act as (newStreamingResponseWriter (rc_id p)) = w1"
  shows "timed_out p (as @ bs)
    (sw_sent (fold stream_act bs (w1\<lparr>sw_sent := sw_sent w1 @ [error_frame p 504 ''agent handler timeout'']\<rparr>)))"
proof -
  let ?e = "error_frame p 504 ''agent handler timeout''"
  obtain w2 where w2: "fold stream_act bs (w1\<lparr>sw_sent := sw_sent w1 @ [?e]\<rparr>) = w2" by blast
  from stream_acts [OF assms(2)] obtain ds where 1: "sw_sent w1 = ds" "data_of (rc_id p) ds" "sw_id w1 = rc_id p"
    "written as = data_in ds @ sw_buf w1" by auto
  from stream_acts [OF w2] 1 obtain es where 2: "sw_sent w2 = (ds @ [?e]) @ es" "data_of (rc_id p) es"
    "sw_buf w1 @ written bs = data_in es @ sw_buf w2" by auto
  have "written (as @ bs) = data_in (ds @ es) @ sw_buf w2" using 1(4) 2(3) by (simp add: written_append)
  with 1(2) 2(1,2) show ?thesis using assms(1) by (fastforce simp: timed_out_def w2)
qed

lemma buffer_answered:
  assumes "\<not> rc_stream p" and "fold buffer_act as newBufferResponseWriter = w"
  shows "answered valid p as (sendRPCReply valid ((empty_reply (rc_id p))\<lparr>rp_status := bw_status w, rp_body := bw_body w\<rparr>))"
  using assms buffer_w.content_acts [of as newBufferResponseWriter] buffer_w.code_acts [of as newBufferResponseWriter]
  by (auto simp: answered_def sendRPCReply_def newBufferResponseWriter_def empty_reply_def)


text \<open>What the cases share: at most one reply, and exactly one unless a plain call was answered in time with
  something that is not JSON.\<close>

lemma one_reply:
  "timed_out p as fs \<Longrightarrow> length (replies fs) = 1"
  "answered valid p as fs \<Longrightarrow> length (replies fs) = (if rc_stream p \<or> written as = [] \<or> valid (written as) then 1 else 0)"
proof -
  have d: "data_of i ds \<Longrightarrow> replies ds = []" for i ds by (simp add: data_of_def replies_data)
  show "timed_out p as fs \<Longrightarrow> length (replies fs) = 1"
    by (auto simp: timed_out_def error_frame_def split: if_splits dest!: d)
  show "answered valid p as fs \<Longrightarrow>
      length (replies fs) = (if rc_stream p \<or> written as = [] \<or> valid (written as) then 1 else 0)"
    by (auto simp: answered_def split: if_splits dest!: d)
qed

definition demo_call :: "bool \<Rightarrow> rpc_call" where
  "demo_call streaming =
     \<lparr>rc_id = ''7'', rc_method = ''GET'', rc_path = ''/x'', rc_query = [], rc_body = [], rc_timeout = 100,
      rc_stream = streaming\<rparr>"

definition two_parts :: "rpc_request \<Rightarrow> handler_run" where
  "two_parts req = ([(1, WWrite ''a''), (2, WFlush), (3, WWrite ''b'')], Done 4)"


section \<open>What goes wrong\<close>

text \<open>A panic of a handler ends the agent: the \<open>recover\<close> that is to turn it into a reply runs in another goroutine.\<close>

lemma handler_panic_ends_agent:
  assumes "rpc_http_request acceptable p = Some req" and "snd (serve req) = Panic t"
  shows "\<exists>fs. handleRPCCall valid acceptable (Some serve) p = Crashed fs"
  using assms
  by (auto simp: handleRPCCall_def handleRPCCallBuffer_def handleRPCStreamCall_def Let_def split: prod.splits)

text \<open>A plain-text answer, such as the mux's own answer to an unknown path, is never sent: the master waits
  for its own timeout.\<close>

definition not_found :: "rpc_request \<Rightarrow> handler_run" where
  "not_found req = ([(0, WHeader 404), (0, WWrite ''404 page not found'')], Done 0)"

lemma plain_text_answer_lost:
  "\<not> valid ''404 page not found'' \<Longrightarrow>
   handleRPCCall valid (\<lambda>_ _. True) (Some not_found) (demo_call False) = Alive []"
  by (simp add: handleRPCCall_def handleRPCCallBuffer_def rpc_http_request_def not_found_def demo_call_def Let_def
      rpc_timeout_def acts_until_def newBufferResponseWriter_def sendRPCReply_def empty_reply_def)

text \<open>Data may follow the frame that is to end a stream, when the handler outlives the timeout.\<close>

definition late_writer :: "rpc_request \<Rightarrow> handler_run" where
  "late_writer req = ([(200000000, WWrite ''x''), (200000000, WFlush)], Done 300000000)"

lemma data_after_end:
  "handleRPCCall valid (\<lambda>_ _. True) (Some late_writer) (demo_call True) =
     Alive [ReplyFrame ((empty_reply ''7'')\<lparr>rp_status := 504, rp_error := ''agent handler timeout''\<rparr>),
            DataFrame ''7'' ''x'']"
  by (simp add: handleRPCCall_def handleRPCStreamCall_def rpc_http_request_def late_writer_def demo_call_def Let_def
      rpc_timeout_def acts_until_def acts_after_def newStreamingResponseWriter_def stream_Flush_def
      sendRPCStreamData_def sendRPCReply_def empty_reply_def)

end
