(* ===== verification/Cert_Deploy.thy ===== *)
theory Cert_Deploy
  imports Path_Guard
begin

text \<open>
  Deploying a certificate, by message (\<open>deployCert\<close> of \<open>internal/agent/client.go\<close>) and by request
  (\<open>deployCertFiles\<close>, \<open>HandleCertDeploy\<close> of \<open>internal/handler/management_handler.go\<close>). The contents
  are checked by \<open>ValidateCertKeyPEM\<close> (\<open>internal/util/pathguard.go\<close>); finding the first PEM block (its type and
  bytes) and parsing a certificate are library calls, the fields of \<open>pem_lib\<close>. A reload of nginx is a call that
  succeeds or fails.
\<close>

record pem_lib =
  pl_decode :: "string \<Rightarrow> (string \<times> string) option"
  pl_x509 :: "string \<Rightarrow> bool"

definition ValidateCertKeyPEM :: "pem_lib \<Rightarrow> string \<Rightarrow> string \<Rightarrow> bool" where
  "ValidateCertKeyPEM lib certPEM keyPEM =
     (case pl_decode lib certPEM of
        None \<Rightarrow> False
      | Some (kind, bytes) \<Rightarrow>
          if kind \<noteq> ''CERTIFICATE'' then False
          else if \<not> pl_x509 lib bytes then False
          else
            (case pl_decode lib keyPEM of
               None \<Rightarrow> False
             | Some (kkind, _) \<Rightarrow> str_contains kkind ''PRIVATE KEY''))"

datatype deploy_err = NoPaths | BadPair | UnsafeCert | UnsafeKey | DeployIO io_err

definition reload_target :: "string \<Rightarrow> string \<Rightarrow> world \<Rightarrow> deploy_err option \<times> world" where
  "reload_target xrayPath target w =
     (if target = ''nginx'' then (case sys_call w of (r, w1) \<Rightarrow> (map_option DeployIO r, w1))
      else if target = ''xray'' then (case restart_xray xrayPath w of (r, w1) \<Rightarrow> (map_option DeployIO r, w1))
      else if target = ''both'' then
        (case sys_call w of
           (Some e, w1) \<Rightarrow> (Some (DeployIO e), w1)
         | (None, w1) \<Rightarrow> (case restart_xray xrayPath w1 of (r, w2) \<Rightarrow> (map_option DeployIO r, w2)))
      else (None, w))"

definition deployCertFiles ::
  "pem_lib \<Rightarrow> string \<Rightarrow> string \<Rightarrow> string \<Rightarrow> string \<Rightarrow> string \<Rightarrow> string \<Rightarrow> world \<Rightarrow>
   deploy_err option \<times> world" where
  "deployCertFiles lib xrayPath certPEM keyPEM certPath keyPath reload w =
     (if \<not> ValidateCertKeyPEM lib certPEM keyPEM then (Some BadPair, w)
      else if \<not> CertPathSafe certPath then (Some UnsafeCert, w)
      else if \<not> CertPathSafe keyPath then (Some UnsafeKey, w)
      else
        (case sys_call w of
           (Some e, w1) \<Rightarrow> (Some (DeployIO e), w1)
         | (None, w1) \<Rightarrow>
             (case sys_call w1 of
                (Some e, w2) \<Rightarrow> (Some (DeployIO e), w2)
              | (None, w2) \<Rightarrow>
                  (case write_file certPath certPEM w2 of
                     (Some e, w3) \<Rightarrow> (Some (DeployIO e), w3)
                   | (None, w3) \<Rightarrow>
                       (case write_file keyPath keyPEM w3 of
                          (Some e, w4) \<Rightarrow> (Some (DeployIO e), w4)
                        | (None, w4) \<Rightarrow> reload_target xrayPath reload w4)))))"

definition deployCert ::
  "pem_lib \<Rightarrow> string \<Rightarrow> string \<Rightarrow> string \<Rightarrow> string \<Rightarrow> string \<Rightarrow> string \<Rightarrow> world \<Rightarrow>
   deploy_err option \<times> world" where
  "deployCert lib xrayPath certPEM keyPEM certPath keyPath reload w =
     (if certPath = [] \<or> keyPath = [] then (Some NoPaths, w)
      else deployCertFiles lib xrayPath certPEM keyPEM certPath keyPath reload w)"

record cert_req =
  cq_domain :: string
  cq_cert :: string
  cq_key :: string
  cq_cert_path :: string
  cq_key_path :: string
  cq_reload :: string

definition HandleCertDeploy ::
  "pem_lib \<Rightarrow> string \<Rightarrow> bool \<Rightarrow> bool \<Rightarrow> cert_req option \<Rightarrow> world \<Rightarrow> reply \<times> world" where
  "HandleCertDeploy lib xrayPath post authenticated payload w =
     (if \<not> post then (writeError 405 ''method not allowed'', w)
      else if \<not> authenticated then (writeError 401 ''unauthorized'', w)
      else
        (case payload of
           None \<Rightarrow> (writeError 400 ''invalid request body'', w)
         | Some req \<Rightarrow>
             if cq_cert req = [] \<or> cq_key req = [] \<or> cq_cert_path req = [] \<or> cq_key_path req = []
             then (writeError 400 ''cert_pem, key_pem, cert_path, key_path are required'', w)
             else
               (case deployCertFiles lib xrayPath (cq_cert req) (cq_key req) (cq_cert_path req) (cq_key_path req)
                       (cq_reload req) w of
                  (Some _, w1) \<Rightarrow> (writeError 500 ''deploy failed'', w1)
                | (None, w1) \<Rightarrow>
                    (writeOk [(''message'', JStr (''certificate for '' @ cq_domain req @ '' deployed''))], w1))))"

lemma reload_files [simp]: "file_at (snd (reload_target p t w)) q = file_at w q"
  by (simp add: reload_target_def case_prod_beta split: option.split)

lemma deploy_other:
  assumes "q \<noteq> certPath" and "q \<noteq> keyPath"
  shows "file_at (snd (deployCertFiles lib xp c k certPath keyPath t w)) q = file_at w q"
  using assms by (simp add: deployCertFiles_def case_prod_beta split: option.split)

lemma deploy_refused:
  assumes "\<not> ValidateCertKeyPEM lib c k \<or> \<not> CertPathSafe certPath \<or> \<not> CertPathSafe keyPath"
  shows "snd (deployCertFiles lib xp c k certPath keyPath t w) = w \<and>
         fst (deployCertFiles lib xp c k certPath keyPath t w) \<noteq> None"
  using assms by (auto simp: deployCertFiles_def)

lemma deploy_ok:
  assumes "fst (deployCertFiles lib xp c k certPath keyPath t w) = None" and "certPath \<noteq> keyPath"
  shows "ValidateCertKeyPEM lib c k \<and> CertPathSafe certPath \<and> CertPathSafe keyPath \<and>
    file_at (snd (deployCertFiles lib xp c k certPath keyPath t w)) certPath = Some c \<and>
    file_at (snd (deployCertFiles lib xp c k certPath keyPath t w)) keyPath = Some k"
  using assms by (auto simp: deployCertFiles_def case_prod_beta split: option.splits if_splits)

text \<open>C22: What a certificate deployment can write. Whatever the request and whatever fails, no file but the two named ones
  changes, and those only when the path is absolute and lies in none of the protected places, and when the PEM decoder
  finds a certificate block in the one content and a private key block in the other (text may precede the blocks, and
  that the key belongs to the certificate is not checked); without the method or the credentials nothing changes.
  The status 200 means that the key's file holds the key that was sent and, if the two paths
  differ, the certificate's file the certificate.\<close>

theorem cert_deploy_confined:
  assumes "HandleCertDeploy lib xp post authenticated payload w = (r, w')"
  shows "(\<forall>q. file_at w' q \<noteq> file_at w q \<longrightarrow>
      post \<and> authenticated \<and>
      (\<exists>req. payload = Some req \<and> q \<in> {cq_cert_path req, cq_key_path req} \<and> ValidateCertKeyPEM lib (cq_cert req) (cq_key req) \<and>
         IsAbs q \<and> \<not> (\<exists>s\<in>set sensitiveCertTargets. prefix (walk s) (walk q)))) \<and>
    (status r = 200 \<longrightarrow>
      (\<exists>req. payload = Some req \<and> cq_cert req \<noteq> [] \<and> cq_key req \<noteq> [] \<and>
         file_at w' (cq_key_path req) = Some (cq_key req) \<and>
         (cq_cert_path req \<noteq> cq_key_path req \<longrightarrow> file_at w' (cq_cert_path req) = Some (cq_cert req)))) \<and>
    status r \<in> {200, 400, 401, 405, 500}"
proof (cases "\<exists>req. post \<and> authenticated \<and> payload = Some req \<and>
    \<not> (cq_cert req = [] \<or> cq_key req = [] \<or> cq_cert_path req = [] \<or> cq_key_path req = [])")
  case False
  then have "w' = w \<and> status r \<in> {400, 401, 405}"
    using assms by (auto simp: HandleCertDeploy_def split: option.splits if_splits)
  then show ?thesis by auto
next
  case True
  then obtain req where q: "post" "authenticated" "payload = Some req"
    "cq_cert req \<noteq> []" "cq_key req \<noteq> []" "cq_cert_path req \<noteq> []" "cq_key_path req \<noteq> []" by blast
  let ?d = "deployCertFiles lib xp (cq_cert req) (cq_key req) (cq_cert_path req) (cq_key_path req) (cq_reload req) w"
  have w': "w' = snd ?d" and r: "status r = (if fst ?d = None then 200 else 500)"
    using assms q by (auto simp: HandleCertDeploy_def split: prod.splits option.splits)
  have "file_at w' q \<noteq> file_at w q \<Longrightarrow> q \<in> {cq_cert_path req, cq_key_path req} \<and> ValidateCertKeyPEM lib (cq_cert req) (cq_key req) \<and>
      CertPathSafe q" for q
    unfolding w' using deploy_other [of q] deploy_refused [of lib] by (metis insert_iff)
  moreover have "fst ?d = None \<Longrightarrow> file_at w' (cq_key_path req) = Some (cq_key req)"
    unfolding w' by (auto simp: deployCertFiles_def case_prod_beta split: option.splits if_splits)
  ultimately show ?thesis
    using q r deploy_ok [of lib xp "cq_cert req" "cq_key req" "cq_cert_path req" "cq_key_path req" "cq_reload req" w]
    unfolding w' CertPathSafe_exact by auto
qed

definition demo_cert :: "string \<Rightarrow> cert_req" where
  "demo_cert path = \<lparr>cq_domain = ''d'', cq_cert = ''C'', cq_key = ''K'', cq_cert_path = path, cq_key_path = ''/k'',
     cq_reload = ''none''\<rparr>"

definition blank_world :: "outcome list \<Rightarrow> world" where
  "blank_world rs = \<lparr>files = [(''/k'', ''old'')], tape = rs, running = None, api = []\<rparr>"

text \<open>A decoder that takes \<open>C\<close> and \<open>K\<close> for a certificate and a key.\<close>

definition demo_pem :: pem_lib where
  "demo_pem = \<lparr>pl_decode = (\<lambda>s. if s = ''C'' then Some (''CERTIFICATE'', s) else if s = ''K'' then Some (''PRIVATE KEY'', s)
     else None), pl_x509 = (\<lambda>_. True)\<rparr>"

lemma demo_pem_ok [simp]: "ValidateCertKeyPEM demo_pem ''C'' ''K''"
  by (simp add: ValidateCertKeyPEM_def demo_pem_def)

lemma cert_deploy_confined_witness:
  "file_at (snd (HandleCertDeploy demo_pem [] True True (Some (demo_cert ''/c'')) (blank_world []))) ''/k'' = Some ''K'' \<and>
   file_at (snd (HandleCertDeploy demo_pem [] True True (Some (demo_cert ''/etc/cron.d/x'')) (blank_world [])))
     ''/etc/cron.d/x'' = None"
proof -
  have safe: "CertPathSafe ''/c''" "CertPathSafe ''/k''" "\<not> CertPathSafe ''/etc/cron.d/x''" by code_simp+
  obtain r w' where 1: "HandleCertDeploy demo_pem [] True True (Some (demo_cert ''/c'')) (blank_world []) = (r, w')"
    by fastforce
  have "status r = 200"
    using 1 safe
    by (auto simp: HandleCertDeploy_def demo_cert_def deployCertFiles_def blank_world_def sys_call_def next_outcome_def
        write_file_def reload_target_def)
  with cert_deploy_confined [OF 1] have "file_at w' ''/k'' = Some ''K''" by (auto simp: demo_cert_def)
  moreover obtain r2 w2 where 2:
    "HandleCertDeploy demo_pem [] True True (Some (demo_cert ''/etc/cron.d/x'')) (blank_world []) = (r2, w2)"
    by fastforce
  have "file_at w2 ''/etc/cron.d/x'' = file_at (blank_world []) ''/etc/cron.d/x''"
    using 2 safe by (auto simp: HandleCertDeploy_def demo_cert_def deployCertFiles_def)
  ultimately show ?thesis using 1 2 by (simp add: blank_world_def file_at_def)
qed

text \<open>The pair is not replaced as a whole: when the key cannot be written, the new certificate stays beside the old
  key.\<close>

lemma certificate_without_key:
  "let w' = snd (HandleCertDeploy demo_pem [] True True (Some (demo_cert ''/c''))
              (blank_world [Works, Works, Works, Fails (ErrIO ''full'')]))
   in file_at w' ''/c'' = Some ''C'' \<and> file_at w' ''/k'' = Some ''old''"
proof -
  have safe: "CertPathSafe ''/c''" "CertPathSafe ''/k''" by code_simp+
  then show ?thesis
    by (simp add: HandleCertDeploy_def demo_cert_def deployCertFiles_def blank_world_def sys_call_def next_outcome_def
        write_file_def put_file_def file_at_def)
qed

text \<open>The check does not confine the contents to a certificate: a PEM decoder skips what stands before the first block,
  so any text may precede it and is written with it. The key need not belong to the certificate.\<close>

lemma leading_text_accepted:
  assumes "\<And>s b. pl_decode lib s = Some b \<Longrightarrow> pl_decode lib (junk @ [CHR 0x0A] @ s) = Some b"
    and "ValidateCertKeyPEM lib c k"
  shows "ValidateCertKeyPEM lib (junk @ [CHR 0x0A] @ c) k"
  using assms by (force simp: ValidateCertKeyPEM_def split: option.splits prod.splits if_splits)

end
