(* ===== verification/Client_Messages.thy ===== *)
theory Client_Messages
  imports Master_Http Speed_Monitor Ws_Rpc Cert_Deploy
begin

text \<open>
  The messages of the master (\<open>internal/agent/client.go\<close>): opening and queueing what the WebSocket delivers
  (\<open>decryptMessage\<close>, \<open>runMessageLoop\<close>), the dispatcher \<open>handleMessage\<close>, and the handlers that change the
  client: \<open>handleConfigUpdate\<close>, \<open>handleProbeConfigUpdate\<close>, \<open>handleTokenUpdate\<close>,
  \<open>handleLicenseStatus\<close>, \<open>handleLimiterConfig\<close>. Decoding a JSON message and its payload is the parameter
  \<open>parse\<close>; durations are nanoseconds.
\<close>

section \<open>State\<close>

record ping_target =
  pt_key :: string
  pt_host :: string
  pt_port :: int
  pt_type :: string

record probe_config =
  pc_info :: bool
  pc_cpu :: bool
  pc_mem :: bool
  pc_disk :: bool
  pc_ping :: bool
  pc_targets :: "ping_target list"
  pc_interval :: int

record license_plan =
  lp_name :: string
  lp_display :: string
  lp_features :: "string list"

record license =
  li_valid :: bool
  li_plan :: "license_plan option"

text \<open>\<open>mc_tickers\<close>: the periods of the traffic tickers that run. \<open>mc_auth_calls\<close>: the calls of
  \<open>onXrayAuthChange\<close>, in order.\<close>

record mclient = agent +
  mc_steal :: string
  mc_interval :: int
  mc_tickers :: "int list"
  mc_authorized :: "bool option"
  mc_auth_calls :: "bool list"
  mc_debug :: bool
  mc_probe :: probe_config
  mc_license :: "license option"
  mc_embedded :: bool
  mc_limiter :: "limiter option"
  mc_monitor :: "monitor option"

section \<open>What the WebSocket delivers and takes\<close>

definition decryptMessage :: "crypto_lib \<Rightarrow> bytes \<Rightarrow> session option \<Rightarrow> bytes \<times> session option" where
  "decryptMessage lib message s =
     (case s of
        Some session \<Rightarrow>
          (if message \<noteq> [] \<and> hd message = 1 then
             (case Decrypt (gcm_unseal lib) session message of
                (Inr clear, s1) \<Rightarrow> (clear, Some s1)
              | (Inl _, s1) \<Rightarrow> (message, Some s1))
           else (message, s))
      | None \<Rightarrow> (message, None))"

datatype ws_frame = TextFrame bytes | BinaryFrame bytes

definition writeEncrypted :: "crypto_lib \<Rightarrow> bytes \<Rightarrow> session option \<Rightarrow> ws_frame \<times> session option" where
  "writeEncrypted lib bytes s =
     (case s of
        Some session \<Rightarrow> (case Encrypt (gcm_seal lib) session bytes of (e, s1) \<Rightarrow> (BinaryFrame e, Some s1))
      | None \<Rightarrow> (TextFrame bytes, None))"

text \<open>The channel between the reader and the loop holds ten messages; what does not fit is dropped.\<close>

definition enqueue :: "bytes \<Rightarrow> bytes list \<Rightarrow> bytes list" where
  "enqueue m q = (if length q < 10 then q @ [m] else q)"

section \<open>Configuration updates\<close>

type_synonym updates = "string \<rightharpoonup> string"

definition truthy :: "string \<Rightarrow> bool" where
  "truthy raw \<longleftrightarrow> raw = ''1'' \<or> to_lower raw = ''true''"

definition clamp :: "int \<Rightarrow> int \<Rightarrow> int \<Rightarrow> int" where
  "clamp lo hi x = (let y = (if x < lo then lo else x) in if hi < y then hi else y)"

definition probe_flag :: "updates \<Rightarrow> string \<Rightarrow> bool \<Rightarrow> bool" where
  "probe_flag us key old = (case us key of None \<Rightarrow> old | Some v \<Rightarrow> v = ''1'')"

definition probe_keys :: "string list" where
  "probe_keys = [''probe_collect_info'', ''probe_collect_cpu'', ''probe_collect_mem'', ''probe_collect_disk'',
     ''probe_collect_ping'', ''probe_ping_targets'', ''probe_ping_interval_ms'']"

definition handleProbeConfigUpdate ::
  "(string \<Rightarrow> ping_target list option) \<Rightarrow> updates \<Rightarrow> probe_config \<Rightarrow> probe_config" where
  "handleProbeConfigUpdate targets us p =
     (if \<not> list_ex (\<lambda>k. us k \<noteq> None) probe_keys then p
      else
        \<lparr>pc_info = probe_flag us ''probe_collect_info'' (pc_info p),
         pc_cpu = probe_flag us ''probe_collect_cpu'' (pc_cpu p),
         pc_mem = probe_flag us ''probe_collect_mem'' (pc_mem p),
         pc_disk = probe_flag us ''probe_collect_disk'' (pc_disk p),
         pc_ping = probe_flag us ''probe_collect_ping'' (pc_ping p),
         pc_targets = (case us ''probe_ping_targets'' of
                         None \<Rightarrow> pc_targets p
                       | Some v \<Rightarrow> (case targets v of None \<Rightarrow> pc_targets p | Some ts \<Rightarrow> ts)),
         pc_interval = (case us ''probe_ping_interval_ms'' of
                          None \<Rightarrow> pc_interval p
                        | Some v \<Rightarrow> (case atoi v of None \<Rightarrow> pc_interval p | Some ms \<Rightarrow> clamp 2000 300000 ms))\<rparr>)"

definition probeAnyEnabled :: "probe_config \<Rightarrow> bool" where
  "probeAnyEnabled p \<longleftrightarrow> pc_info p \<or> pc_cpu p \<or> pc_mem p \<or> pc_disk p \<or> pc_ping p"

definition update_recovery :: "net_lib \<Rightarrow> updates \<Rightarrow> mclient \<times> world \<Rightarrow> mclient \<times> world" where
  "update_recovery net us s =
     (case s of (c, w) \<Rightarrow>
        (case us ''recovery_url'' of
           None \<Rightarrow> s
         | Some recoveryURL \<Rightarrow>
             if trim_space recoveryURL = [] \<or> recoveryURL = ag_recovery c then s
             else
               (case nl_url net recoveryURL of
                  None \<Rightarrow> s
                | Some u \<Rightarrow>
                    if up_scheme u = ''http'' \<and> up_hostname u \<noteq> [] then
                      (let url = trim_right (\<lambda>x. x = CHR 0x2F) recoveryURL
                       in (c\<lparr>ag_recovery := url\<rparr>, snd (persistConfigField ''recovery_url'' url w)))
                    else s)))"

definition update_steal :: "updates \<Rightarrow> mclient \<times> world \<Rightarrow> mclient \<times> world" where
  "update_steal us s =
     (case s of (c, w) \<Rightarrow>
        (case us ''steal_mode'' of
           None \<Rightarrow> s
         | Some stealMode \<Rightarrow>
             if stealMode = mc_steal c then s
             else (c\<lparr>mc_steal := stealMode\<rparr>, snd (persistConfigField ''steal_mode'' stealMode w))))"

definition update_interval :: "updates \<Rightarrow> mclient \<Rightarrow> mclient" where
  "update_interval us c =
     (case us ''traffic_report_interval_ms'' of
        None \<Rightarrow> c
      | Some raw \<Rightarrow>
          (case atoi raw of
             None \<Rightarrow> c
           | Some ms \<Rightarrow>
               (let d = clamp 1000 60000 ms * 1000000
                in if d = mc_interval c then c
                   else c\<lparr>mc_interval := d, mc_tickers := List.map (\<lambda>_. d) (mc_tickers c)\<rparr>)))"

definition update_debug :: "updates \<Rightarrow> mclient \<Rightarrow> mclient" where
  "update_debug us c =
     (case us ''agent_log_enabled'' of None \<Rightarrow> c | Some raw \<Rightarrow> c\<lparr>mc_debug := truthy raw\<rparr>)"

text \<open>\<open>(*FlexBool).Bool\<close> and \<open>strconv.FormatBool\<close>.\<close>

definition flex_bool :: "bool option \<Rightarrow> bool \<Rightarrow> bool" where
  "flex_bool b dflt = (case b of None \<Rightarrow> dflt | Some x \<Rightarrow> x)"

definition format_bool :: "bool \<Rightarrow> string" where
  "format_bool b = (if b then ''true'' else ''false'')"

definition update_authorized :: "updates \<Rightarrow> mclient \<times> world \<Rightarrow> mclient \<times> world" where
  "update_authorized us s =
     (case s of (c, w) \<Rightarrow>
        (case us ''xray_authorized'' of
           None \<Rightarrow> s
         | Some raw \<Rightarrow>
             (let authorized = truthy raw
              in if authorized = flex_bool (mc_authorized c) True then s
                 else (c\<lparr>mc_authorized := Some authorized, mc_auth_calls := mc_auth_calls c @ [authorized]\<rparr>,
                       snd (persistConfigField ''xray_authorized'' (format_bool authorized) w)))))"

definition handleConfigUpdate ::
  "net_lib \<Rightarrow> (string \<Rightarrow> ping_target list option) \<Rightarrow> updates \<Rightarrow> mclient \<times> world \<Rightarrow> mclient \<times> world" where
  "handleConfigUpdate net targets us s =
     (case update_steal us (update_recovery net us s) of
        (c1, w1) \<Rightarrow>
          (case update_authorized us (update_debug us (update_interval us c1), w1) of
             (c2, w2) \<Rightarrow> (c2\<lparr>mc_probe := handleProbeConfigUpdate targets us (mc_probe c2)\<rparr>, w2)))"

section \<open>Token, licence, limits\<close>

definition handleTokenUpdate :: "string \<Rightarrow> 'a agent_scheme \<Rightarrow> 'a agent_scheme" where
  "handleTokenUpdate serverToken c = c\<lparr>ag_token := serverToken\<rparr>"

definition handleLicenseStatus :: "license \<Rightarrow> mclient \<Rightarrow> mclient" where
  "handleLicenseStatus l c = c\<lparr>mc_license := Some l\<rparr>"

definition HasFeature :: "license option \<Rightarrow> string \<Rightarrow> bool" where
  "HasFeature s name =
     (case s of None \<Rightarrow> False
      | Some l \<Rightarrow> (case li_plan l of None \<Rightarrow> False | Some p \<Rightarrow> list_ex (\<lambda>f. f = name) (lp_features p)))"

record limiter_payload =
  lq_tag :: string
  lq_node :: "64 word"
  lq_users :: "user_info list"
  lq_rules :: "speed_rule list"

text \<open>The monitor keeps a pointer to the limiter; here it gets the limiter as it is after the synchronisation.\<close>

definition handleLimiterConfig :: "limiter_payload \<Rightarrow> mclient \<Rightarrow> mclient" where
  "handleLimiterConfig p c =
     (if \<not> mc_embedded c then c
      else if \<not> HasFeature (mc_license c) ''limiter'' then c
      else
        (case mc_limiter c of
           None \<Rightarrow> c
         | Some l \<Rightarrow>
             (let l1 = SyncInboundLimiter l (lq_tag p) (lq_node p) (lq_users p); c1 = c\<lparr>mc_limiter := Some l1\<rparr>
              in (case mc_monitor c1 of
                    None \<Rightarrow> c1
                  | Some m \<Rightarrow>
                      (let m1 = SetLimiter l1 m
                       in c1\<lparr>mc_monitor := Some (if lq_rules p \<noteq> [] then UpdateRules (lq_rules p) m1 else m1)\<rparr>)))))"

section \<open>The dispatcher\<close>

datatype ws_msg =
    MsgCertDeploy cert_req
  | MsgTokenUpdate string
  | MsgLatencyProbe string "string list" int
  | MsgHeartbeatAck int
  | MsgLimiterConfig limiter_payload
  | MsgLicenseStatus license
  | MsgConfigUpdate updates
  | MsgRPCCall rpc_call
  | MsgOther string

text \<open>The work a message starts in a goroutine of its own.\<close>

datatype ws_task = TaskCert cert_req | TaskProbe string "string list" int | TaskRPC rpc_call

definition handleMessage ::
  "(bytes \<Rightarrow> ws_msg option) \<Rightarrow> net_lib \<Rightarrow> (string \<Rightarrow> ping_target list option) \<Rightarrow> bytes \<Rightarrow> mclient \<times> world \<Rightarrow>
   ws_task list \<times> mclient \<times> world" where
  "handleMessage parse net targets message s =
     (case s of (c, w) \<Rightarrow>
        (case parse message of
           None \<Rightarrow> ([], c, w)
         | Some m \<Rightarrow>
             (case m of
                MsgCertDeploy p \<Rightarrow> ([TaskCert p], c, w)
              | MsgTokenUpdate t \<Rightarrow> ([], handleTokenUpdate t c, w)
              | MsgLatencyProbe i ds t \<Rightarrow> ([TaskProbe i ds t], c, w)
              | MsgHeartbeatAck t \<Rightarrow> ([], c, w)
              | MsgLimiterConfig p \<Rightarrow> ([], handleLimiterConfig p c, w)
              | MsgLicenseStatus l \<Rightarrow> ([], handleLicenseStatus l c, w)
              | MsgConfigUpdate us \<Rightarrow> ([], handleConfigUpdate net targets us (c, w))
              | MsgRPCCall p \<Rightarrow> ([TaskRPC p], c, w)
              | MsgOther t \<Rightarrow> ([], c, w))))"

section \<open>What an update changes\<close>

lemma persist_frame [simp]:
  "q \<noteq> agent_config_path \<Longrightarrow> file_at (snd (persistConfigField k v w)) q = file_at w q"
  "running (snd (persistConfigField k v w)) = running w"
proof -
  obtain r1 w1 where 1: "read_file agent_config_path w = (r1, w1)" by fastforce
  obtain r2 w2 where 2: "read_file agent_config_path w1 = (r2, w2)" by fastforce
  have f: "file_at w2 x = file_at w x" "file_at w1 x = file_at w x" "running w2 = running w" "running w1 = running w" for x
    using read_file_at [OF 1] read_file_at [OF 2] read_file_frame [OF 1] read_file_frame [OF 2] by simp_all
  have "persistConfigField k v w =
      (if \<not> NoControlChars v then (Some (ErrIO ''control characters''), w)
       else if r1 = Inl ErrNotExist then (None, w1)
       else (case r2 of Inl e \<Rightarrow> (Some e, w2)
             | Inr content \<Rightarrow> write_file agent_config_path (join_lines (put_line k (k @ '': '' @ v) (file_lines content))) w2))"
    using 1 2 by (auto simp: persistConfigField_def split: sum.splits io_err.splits)
  then show "q \<noteq> agent_config_path \<Longrightarrow> file_at (snd (persistConfigField k v w)) q = file_at w q"
    "running (snd (persistConfigField k v w)) = running w"
    using f by (auto split: sum.split)
qed

lemmas update_defs = update_recovery_def update_steal_def update_interval_def update_debug_def update_authorized_def

lemma clamp_bounds: "lo \<le> hi \<Longrightarrow> lo \<le> clamp lo hi x \<and> clamp lo hi x \<le> hi"
  by (simp add: clamp_def Let_def)

lemma update_interval_simps [simp]:
  "ag_token (update_interval us c) = ag_token c" "ag_master (update_interval us c) = ag_master c"
  "ag_recovery (update_interval us c) = ag_recovery c" "mc_steal (update_interval us c) = mc_steal c"
  "mc_authorized (update_interval us c) = mc_authorized c" "mc_auth_calls (update_interval us c) = mc_auth_calls c"
  "mc_probe (update_interval us c) = mc_probe c" "mc_limiter (update_interval us c) = mc_limiter c"
  "mc_monitor (update_interval us c) = mc_monitor c" "mc_license (update_interval us c) = mc_license c"
  by (simp_all add: update_interval_def Let_def split: option.split)

lemma update_debug_simps [simp]:
  "ag_token (update_debug us c) = ag_token c" "ag_master (update_debug us c) = ag_master c"
  "ag_recovery (update_debug us c) = ag_recovery c" "mc_steal (update_debug us c) = mc_steal c"
  "mc_authorized (update_debug us c) = mc_authorized c" "mc_auth_calls (update_debug us c) = mc_auth_calls c"
  "mc_probe (update_debug us c) = mc_probe c" "mc_limiter (update_debug us c) = mc_limiter c"
  "mc_monitor (update_debug us c) = mc_monitor c" "mc_license (update_debug us c) = mc_license c"
  "mc_interval (update_debug us c) = mc_interval c" "mc_tickers (update_debug us c) = mc_tickers c"
  by (simp_all add: update_debug_def split: option.split)

lemma update_recovery_simps [simp]:
  "ag_token (fst (update_recovery net us s)) = ag_token (fst s)"
  "ag_master (fst (update_recovery net us s)) = ag_master (fst s)"
  "mc_steal (fst (update_recovery net us s)) = mc_steal (fst s)"
  "mc_authorized (fst (update_recovery net us s)) = mc_authorized (fst s)"
  "mc_auth_calls (fst (update_recovery net us s)) = mc_auth_calls (fst s)"
  "mc_probe (fst (update_recovery net us s)) = mc_probe (fst s)"
  "mc_limiter (fst (update_recovery net us s)) = mc_limiter (fst s)"
  "mc_monitor (fst (update_recovery net us s)) = mc_monitor (fst s)"
  "mc_interval (fst (update_recovery net us s)) = mc_interval (fst s)"
  "mc_tickers (fst (update_recovery net us s)) = mc_tickers (fst s)"
  "q \<noteq> agent_config_path \<Longrightarrow> file_at (snd (update_recovery net us s)) q = file_at (snd s) q"
  by (cases s; simp add: update_recovery_def Let_def split: option.split)+

lemma update_steal_simps [simp]:
  "ag_token (fst (update_steal us s)) = ag_token (fst s)"
  "ag_master (fst (update_steal us s)) = ag_master (fst s)"
  "ag_recovery (fst (update_steal us s)) = ag_recovery (fst s)"
  "mc_authorized (fst (update_steal us s)) = mc_authorized (fst s)"
  "mc_auth_calls (fst (update_steal us s)) = mc_auth_calls (fst s)"
  "mc_probe (fst (update_steal us s)) = mc_probe (fst s)"
  "mc_limiter (fst (update_steal us s)) = mc_limiter (fst s)"
  "mc_monitor (fst (update_steal us s)) = mc_monitor (fst s)"
  "mc_interval (fst (update_steal us s)) = mc_interval (fst s)"
  "mc_tickers (fst (update_steal us s)) = mc_tickers (fst s)"
  "q \<noteq> agent_config_path \<Longrightarrow> file_at (snd (update_steal us s)) q = file_at (snd s) q"
  by (cases s; simp add: update_steal_def split: option.split)+

lemma update_authorized_simps [simp]:
  "ag_token (fst (update_authorized us s)) = ag_token (fst s)"
  "ag_master (fst (update_authorized us s)) = ag_master (fst s)"
  "ag_recovery (fst (update_authorized us s)) = ag_recovery (fst s)"
  "mc_steal (fst (update_authorized us s)) = mc_steal (fst s)"
  "mc_probe (fst (update_authorized us s)) = mc_probe (fst s)"
  "mc_limiter (fst (update_authorized us s)) = mc_limiter (fst s)"
  "mc_monitor (fst (update_authorized us s)) = mc_monitor (fst s)"
  "mc_interval (fst (update_authorized us s)) = mc_interval (fst s)"
  "mc_tickers (fst (update_authorized us s)) = mc_tickers (fst s)"
  "mc_debug (fst (update_authorized us s)) = mc_debug (fst s)"
  "q \<noteq> agent_config_path \<Longrightarrow> file_at (snd (update_authorized us s)) q = file_at (snd s) q"
  by (cases s; simp add: update_authorized_def Let_def split: option.split)+

lemma config_update_split:
  "handleConfigUpdate net targets us s =
   (let s1 = update_steal us (update_recovery net us s);
        s2 = update_authorized us (update_debug us (update_interval us (fst s1)), snd s1)
    in ((fst s2)\<lparr>mc_probe := handleProbeConfigUpdate targets us (mc_probe (fst s2))\<rparr>, snd s2))"
  by (simp add: handleConfigUpdate_def Let_def case_prod_beta)

text \<open>An update leaves the connection and its sessions alone.\<close>

lemma config_update_frame:
  "ag_client (fst (handleConfigUpdate net targets us (c, w))) = ag_client c"
  "ag_pubkey (fst (handleConfigUpdate net targets us (c, w))) = ag_pubkey c"
  "ag_http (fst (handleConfigUpdate net targets us (c, w))) = ag_http c"
  "ag_sent (fst (handleConfigUpdate net targets us (c, w))) = ag_sent c"
proof -
  define same :: "mclient \<Rightarrow> mclient \<Rightarrow> bool" where
    "same x y \<longleftrightarrow> ag_client x = ag_client y \<and> ag_pubkey x = ag_pubkey y \<and> ag_http x = ag_http y \<and> ag_sent x = ag_sent y" for x y
  have a: "same (fst (update_authorized us (x, y))) x" "same (fst (update_recovery net us (x, y))) x" for x y
    by (simp_all add: same_def update_authorized_def update_recovery_def Let_def split: option.split)
  have b: "same (update_interval us x) x" "same (update_debug us x) x" for x
    by (simp_all add: same_def update_interval_def update_debug_def Let_def split: option.split)
  have s: "same (fst (update_steal us p)) (fst p)" for p
    by (simp add: same_def update_steal_def split: option.split prod.split)
  have t: "same x y \<Longrightarrow> same y z \<Longrightarrow> same x z" for x y z by (simp add: same_def)
  let ?s1 = "update_steal us (update_recovery net us (c, w))"
  have "same (fst (update_authorized us (update_debug us (update_interval us (fst ?s1)), snd ?s1))) c"
    by (rule t [OF a(1) t [OF b(2) t [OF b(1) t [OF s a(2)]]]])
  then show "ag_client (fst (handleConfigUpdate net targets us (c, w))) = ag_client c"
    "ag_pubkey (fst (handleConfigUpdate net targets us (c, w))) = ag_pubkey c"
    "ag_http (fst (handleConfigUpdate net targets us (c, w))) = ag_http c"
    "ag_sent (fst (handleConfigUpdate net targets us (c, w))) = ag_sent c"
    by (simp_all add: config_update_split Let_def same_def)
qed

text \<open>What an update asks for, field by field.\<close>

definition or_old :: "'a \<Rightarrow> 'a option \<Rightarrow> 'a" where
  "or_old old asked = (case asked of None \<Rightarrow> old | Some x \<Rightarrow> x)"

definition says_true :: "string \<Rightarrow> bool" where
  "says_true raw \<longleftrightarrow> raw = ''1'' \<or> to_lower raw = ''true''"

definition asked_recovery :: "net_lib \<Rightarrow> updates \<Rightarrow> mclient \<Rightarrow> string option" where
  "asked_recovery net us c =
     (case us ''recovery_url'' of
        None \<Rightarrow> None
      | Some u \<Rightarrow>
          if trim_space u \<noteq> [] \<and> u \<noteq> ag_recovery c \<and>
             (case nl_url net u of None \<Rightarrow> False | Some p \<Rightarrow> up_scheme p = ''http'' \<and> up_hostname p \<noteq> [])
          then Some (trim_right (\<lambda>x. x = CHR 0x2F) u) else None)"

definition asked_steal :: "updates \<Rightarrow> mclient \<Rightarrow> string option" where
  "asked_steal us c =
     (case us ''steal_mode'' of None \<Rightarrow> None | Some m \<Rightarrow> if m = mc_steal c then None else Some m)"

definition asked_interval :: "updates \<Rightarrow> int option" where
  "asked_interval us =
     map_option (\<lambda>ms. max 1000 (min 60000 ms) * 1000000) (Option.bind (us ''traffic_report_interval_ms'') atoi)"

definition asked_authorization :: "updates \<Rightarrow> mclient \<Rightarrow> bool option" where
  "asked_authorization us c =
     (case us ''xray_authorized'' of
        None \<Rightarrow> None
      | Some raw \<Rightarrow> if says_true raw = (mc_authorized c \<noteq> Some False) then None else Some (says_true raw))"

definition asked_flag :: "updates \<Rightarrow> string \<Rightarrow> bool \<Rightarrow> bool" where
  "asked_flag us key old = or_old old (map_option (\<lambda>v. v = ''1'') (us key))"

definition asked_probe :: "(string \<Rightarrow> ping_target list option) \<Rightarrow> updates \<Rightarrow> probe_config \<Rightarrow> probe_config" where
  "asked_probe targets us p =
     \<lparr>pc_info = asked_flag us ''probe_collect_info'' (pc_info p),
      pc_cpu = asked_flag us ''probe_collect_cpu'' (pc_cpu p),
      pc_mem = asked_flag us ''probe_collect_mem'' (pc_mem p),
      pc_disk = asked_flag us ''probe_collect_disk'' (pc_disk p),
      pc_ping = asked_flag us ''probe_collect_ping'' (pc_ping p),
      pc_targets = or_old (pc_targets p) (Option.bind (us ''probe_ping_targets'') targets),
      pc_interval = or_old (pc_interval p)
        (map_option (\<lambda>ms. max 2000 (min 300000 ms)) (Option.bind (us ''probe_ping_interval_ms'') atoi))\<rparr>"

text \<open>What the agent's own configuration file says of a key: the first line of it.\<close>

definition config_says :: "string \<Rightarrow> world \<Rightarrow> string option" where
  "config_says key w =
     (case file_at w agent_config_path of None \<Rightarrow> None | Some content \<Rightarrow> find (line_is key) (file_lines content))"

text \<open>The client after an update.\<close>

definition updated :: "net_lib \<Rightarrow> (string \<Rightarrow> ping_target list option) \<Rightarrow> updates \<Rightarrow> mclient \<Rightarrow> mclient" where
  "updated net targets us c =
     c\<lparr>ag_recovery := or_old (ag_recovery c) (asked_recovery net us c),
       mc_steal := or_old (mc_steal c) (asked_steal us c),
       mc_interval := or_old (mc_interval c) (asked_interval us),
       mc_tickers := (case asked_interval us of
                        None \<Rightarrow> mc_tickers c
                      | Some d \<Rightarrow> if d = mc_interval c then mc_tickers c else List.map (\<lambda>_. d) (mc_tickers c)),
       mc_debug := or_old (mc_debug c) (map_option says_true (us ''agent_log_enabled'')),
       mc_authorized := (case asked_authorization us c of None \<Rightarrow> mc_authorized c | Some b \<Rightarrow> Some b),
       mc_auth_calls := mc_auth_calls c @ (case asked_authorization us c of None \<Rightarrow> [] | Some b \<Rightarrow> [b]),
       mc_probe := asked_probe targets us (mc_probe c)\<rparr>"

lemma clamp_max: "lo \<le> hi \<Longrightarrow> clamp lo hi x = max lo (min hi x)"
  by (simp add: clamp_def Let_def)

lemma probe_asked: "handleProbeConfigUpdate targets us p = asked_probe targets us p"
proof -
  have f: "probe_flag us k old = asked_flag us k old" for k old
    by (simp add: probe_flag_def asked_flag_def or_old_def split: option.split)
  show ?thesis
  proof (cases "list_ex (\<lambda>k. us k \<noteq> None) probe_keys")
    case True
    then show ?thesis
      by (simp add: handleProbeConfigUpdate_def asked_probe_def f or_old_def clamp_max split: option.split)
  next
    case False
    then have "us ''probe_collect_info'' = None" "us ''probe_collect_cpu'' = None" "us ''probe_collect_mem'' = None"
      "us ''probe_collect_disk'' = None" "us ''probe_collect_ping'' = None" "us ''probe_ping_targets'' = None"
      "us ''probe_ping_interval_ms'' = None" by (simp_all add: probe_keys_def)
    with False show ?thesis by (simp add: handleProbeConfigUpdate_def asked_probe_def asked_flag_def or_old_def)
  qed
qed

lemma update_steps:
  "update_recovery net us (c, w) =
     (c\<lparr>ag_recovery := or_old (ag_recovery c) (asked_recovery net us c)\<rparr>,
      case asked_recovery net us c of None \<Rightarrow> w | Some u \<Rightarrow> snd (persistConfigField ''recovery_url'' u w))"
  "update_steal us (c, w) =
     (c\<lparr>mc_steal := or_old (mc_steal c) (asked_steal us c)\<rparr>,
      case asked_steal us c of None \<Rightarrow> w | Some m \<Rightarrow> snd (persistConfigField ''steal_mode'' m w))"
  "update_interval us c =
     c\<lparr>mc_interval := or_old (mc_interval c) (asked_interval us),
       mc_tickers := (case asked_interval us of
                        None \<Rightarrow> mc_tickers c
                      | Some d \<Rightarrow> if d = mc_interval c then mc_tickers c else List.map (\<lambda>_. d) (mc_tickers c))\<rparr>"
  "update_debug us c = c\<lparr>mc_debug := or_old (mc_debug c) (map_option says_true (us ''agent_log_enabled''))\<rparr>"
  "update_authorized us (c, w) =
     (c\<lparr>mc_authorized := (case asked_authorization us c of None \<Rightarrow> mc_authorized c | Some b \<Rightarrow> Some b),
        mc_auth_calls := mc_auth_calls c @ (case asked_authorization us c of None \<Rightarrow> [] | Some b \<Rightarrow> [b])\<rparr>,
      case asked_authorization us c of None \<Rightarrow> w
      | Some b \<Rightarrow> snd (persistConfigField ''xray_authorized'' (if b then ''true'' else ''false'') w))"
proof -
  show "update_recovery net us (c, w) =
     (c\<lparr>ag_recovery := or_old (ag_recovery c) (asked_recovery net us c)\<rparr>,
      case asked_recovery net us c of None \<Rightarrow> w | Some u \<Rightarrow> snd (persistConfigField ''recovery_url'' u w))"
    by (auto simp: update_recovery_def asked_recovery_def or_old_def Let_def split: option.split)
  show "update_steal us (c, w) =
     (c\<lparr>mc_steal := or_old (mc_steal c) (asked_steal us c)\<rparr>,
      case asked_steal us c of None \<Rightarrow> w | Some m \<Rightarrow> snd (persistConfigField ''steal_mode'' m w))"
    by (auto simp: update_steal_def asked_steal_def or_old_def split: option.split)
  show "update_interval us c =
     c\<lparr>mc_interval := or_old (mc_interval c) (asked_interval us),
       mc_tickers := (case asked_interval us of
                        None \<Rightarrow> mc_tickers c
                      | Some d \<Rightarrow> if d = mc_interval c then mc_tickers c else List.map (\<lambda>_. d) (mc_tickers c))\<rparr>"
    by (auto simp: update_interval_def asked_interval_def or_old_def clamp_max Let_def split: option.split)
  show "update_debug us c = c\<lparr>mc_debug := or_old (mc_debug c) (map_option says_true (us ''agent_log_enabled''))\<rparr>"
    by (auto simp: update_debug_def or_old_def truthy_def says_true_def split: option.split)
  have t: "truthy raw = says_true raw" "flex_bool a True = (a \<noteq> Some False)" "format_bool b = (if b then ''true'' else ''false'')"
    for raw a b by (auto simp: truthy_def says_true_def flex_bool_def format_bool_def split: option.split)
  show "update_authorized us (c, w) =
     (c\<lparr>mc_authorized := (case asked_authorization us c of None \<Rightarrow> mc_authorized c | Some b \<Rightarrow> Some b),
        mc_auth_calls := mc_auth_calls c @ (case asked_authorization us c of None \<Rightarrow> [] | Some b \<Rightarrow> [b])\<rparr>,
      case asked_authorization us c of None \<Rightarrow> w
      | Some b \<Rightarrow> snd (persistConfigField ''xray_authorized'' (if b then ''true'' else ''false'') w))"
    by (cases "us ''xray_authorized''") (auto simp: update_authorized_def asked_authorization_def t Let_def)
qed

lemma asked_after:
  "asked_steal us (c\<lparr>ag_recovery := r\<rparr>) = asked_steal us c"
  "asked_authorization us (c\<lparr>ag_recovery := r, mc_steal := m, mc_interval := i, mc_tickers := ts, mc_debug := d\<rparr>) =
     asked_authorization us c"
  by (auto simp: asked_steal_def asked_authorization_def split: option.split)

lemma update_client: "fst (handleConfigUpdate net targets us (c, w)) = updated net targets us c"
  unfolding config_update_split Let_def update_steps fst_conv snd_conv probe_asked asked_after
  by (auto simp: updated_def split: option.split)

text \<open>The three fields that are stored; no line is one of two of them.\<close>

lemma one_key:
  "line_is k l \<Longrightarrow> line_is k' l \<Longrightarrow> k \<in> {''recovery_url'', ''steal_mode'', ''xray_authorized''} \<Longrightarrow>
     k' \<in> {''recovery_url'', ''steal_mode'', ''xray_authorized''} \<Longrightarrow> k' = k"
  by (cases "trim_space l") (auto simp: line_is_def has_prefix_def)

lemma find_filtered: "(\<And>l. p l \<Longrightarrow> q l) \<Longrightarrow> find p (filter q ls) = find p ls"
  by (induction ls) auto

lemma persist_says:
  assumes "key \<in> {''recovery_url'', ''steal_mode'', ''xray_authorized''}"
    and "tape w = []" and "file_at w agent_config_path = Some content" and "w' = snd (persistConfigField key v w)"
  shows "tape w' = [] \<and> file_at w' agent_config_path \<noteq> None \<and>
    (NoControlChars v \<longrightarrow> config_says key w' = Some (key @ '': '' @ v)) \<and>
    (\<forall>k. k \<in> {''recovery_url'', ''steal_mode'', ''xray_authorized''} \<and> (k \<noteq> key \<or> \<not> NoControlChars v) \<longrightarrow>
       config_says k w' = config_says k w)"
proof (cases "NoControlChars v")
  case False
  with assms show ?thesis by (simp add: persistConfigField_def)
next
  case True
  have pk: "plain_key key" using assms(1) by (auto simp: plain_key_def is_space_def)
  define l where "l = key @ '': '' @ v"
  have own: "line_is key l" using line_is_own [OF pk] by (simp add: l_def)
  have nl: "CHR 0x0A \<notin> set l" using pk NoControlChars_nl [OF True] by (simp add: plain_key_def l_def)
  define new where "new = put_line key l (file_lines content)"
  have w': "w' = put_file agent_config_path (join_lines new) w"
    using assms(2-4) True by (simp add: persistConfigField_def read_file_def write_file_def next_outcome_def new_def l_def)
  note p = put_line_effect [OF own, of "file_lines content", folded new_def]
    and fl = file_put_line [OF own nl, of content, folded new_def]
  have says: "config_says k w' = find (line_is k) new" for k by (simp add: config_says_def w' fl)
  have others: "config_says k w' = config_says k w"
    if k: "k \<in> {''recovery_url'', ''steal_mode'', ''xray_authorized''}" "k \<noteq> key" for k
  proof -
    have d: "line_is k l \<Longrightarrow> \<not> line_is key l" for l using one_key [OF _ _ k(1) assms(1)] k(2) by metis
    have "find (line_is k) new = find (line_is k) (filter (\<lambda>l. \<not> line_is key l) new)"
      by (rule find_filtered [symmetric]) (rule d)
    also have "\<dots> = find (line_is k) (file_lines content)" unfolding p(2) by (rule find_filtered) (rule d)
    finally show ?thesis using says assms(3) by (simp add: config_says_def)
  qed
  have t: "tape w' = []" "file_at w' agent_config_path \<noteq> None" using assms(2) by (simp_all add: w' tape_put)
  have "config_says key w' = Some (key @ '': '' @ v)" unfolding says p(1) l_def ..
  then show ?thesis using True t others by (intro conjI allI impI) (assumption | elim conjE disjE | rule others | simp)+
qed

definition stored_field :: "string \<Rightarrow> string option \<Rightarrow> world \<Rightarrow> string option" where
  "stored_field key asked w =
     (case asked of None \<Rightarrow> config_says key w
      | Some v \<Rightarrow> if NoControlChars v then Some (key @ '': '' @ v) else config_says key w)"

text \<open>C27: A configuration update sets exactly what it asks for. The recovery address, when an HTTP address with a host is asked for
  that is not the present one, without its final slashes; the mode; the traffic interval, clamped to between one second
  and one minute, with every running traffic ticker; the log switch; each flag of the probe, its targets if they
  decode, its interval, clamped to between two seconds and five minutes. Xray is started or stopped, by one call, exactly
  when the update flips the authorization in force, an agent that was never told counting as authorized. What the
  update does not name, and numbers and addresses that do not parse, change nothing, and no other field of
  the client changes. On a disk that works and has the agent's configuration file, the three stored fields have in it the
  value asked for, if they change and it has no control character, and what they had otherwise; no other
  file is ever written.\<close>

theorem config_update_effect:
  assumes "handleConfigUpdate net targets us (c, w) = (c', w')"
  shows "c' = updated net targets us c \<and>
    (\<forall>q. q \<noteq> agent_config_path \<longrightarrow> file_at w' q = file_at w q) \<and>
    (tape w = [] \<and> file_at w agent_config_path \<noteq> None \<longrightarrow>
       config_says ''recovery_url'' w' = stored_field ''recovery_url'' (asked_recovery net us c) w \<and>
       config_says ''steal_mode'' w' = stored_field ''steal_mode'' (asked_steal us c) w \<and>
       config_says ''xray_authorized'' w' =
         stored_field ''xray_authorized'' (map_option (\<lambda>b. if b then ''true'' else ''false'') (asked_authorization us c)) w)"
proof -
  define w1 where "w1 = (case asked_recovery net us c of None \<Rightarrow> w | Some u \<Rightarrow> snd (persistConfigField ''recovery_url'' u w))"
  define w2 where "w2 = (case asked_steal us c of None \<Rightarrow> w1 | Some m \<Rightarrow> snd (persistConfigField ''steal_mode'' m w1))"
  define w3 where "w3 = (case asked_authorization us c of None \<Rightarrow> w2
      | Some b \<Rightarrow> snd (persistConfigField ''xray_authorized'' (if b then ''true'' else ''false'') w2))"
  have c': "c' = updated net targets us c" using assms update_client [of net targets us c w] by simp
  have "snd (handleConfigUpdate net targets us (c, w)) = w3"
    unfolding config_update_split Let_def update_steps fst_conv snd_conv w3_def w2_def w1_def asked_after ..
  then have w': "w' = w3" using assms by simp
  have "w' = snd (handleConfigUpdate net targets us (c, w))" using assms by simp
  then have other: "file_at w' q = file_at w q" if "q \<noteq> agent_config_path" for q
    using that by (simp add: config_update_split Let_def)
  have disk: "config_says ''recovery_url'' w' = stored_field ''recovery_url'' (asked_recovery net us c) w \<and>
       config_says ''steal_mode'' w' = stored_field ''steal_mode'' (asked_steal us c) w \<and>
       config_says ''xray_authorized'' w' =
         stored_field ''xray_authorized'' (map_option (\<lambda>b. if b then ''true'' else ''false'') (asked_authorization us c)) w"
    if t: "tape w = []" and f: "file_at w agent_config_path \<noteq> None"
  proof -
    have step: "tape y = [] \<and> file_at y agent_config_path \<noteq> None \<and> config_says key y = stored_field key asked x \<and>
        (\<forall>k. k \<in> {''recovery_url'', ''steal_mode'', ''xray_authorized''} \<and> k \<noteq> key \<longrightarrow> config_says k y = config_says k x)"
      if k: "key \<in> {''recovery_url'', ''steal_mode'', ''xray_authorized''}" and x: "tape x = []" "file_at x agent_config_path \<noteq> None"
        and y: "y = (case asked of None \<Rightarrow> x | Some v \<Rightarrow> snd (persistConfigField key v x))" for key asked x y
    proof (cases asked)
      case None
      with x y show ?thesis by (simp add: stored_field_def)
    next
      case (Some v)
      obtain content where "file_at x agent_config_path = Some content" using x(2) by blast
      from persist_says [OF k x(1) this, of y v] y Some k show ?thesis by (simp add: stored_field_def)
    qed
    have s1: "w1 = (case asked_recovery net us c of None \<Rightarrow> w | Some v \<Rightarrow> snd (persistConfigField ''recovery_url'' v w))"
      and s2: "w2 = (case asked_steal us c of None \<Rightarrow> w1 | Some v \<Rightarrow> snd (persistConfigField ''steal_mode'' v w1))"
      and s3: "w3 = (case map_option (\<lambda>b. if b then ''true'' else ''false'') (asked_authorization us c) of
        None \<Rightarrow> w2 | Some v \<Rightarrow> snd (persistConfigField ''xray_authorized'' v w2))"
      by (simp_all add: w1_def w2_def w3_def split: option.split)
    have k: "''recovery_url'' \<in> {''recovery_url'', ''steal_mode'', ''xray_authorized''}"
      "''steal_mode'' \<in> {''recovery_url'', ''steal_mode'', ''xray_authorized''}"
      "''xray_authorized'' \<in> {''recovery_url'', ''steal_mode'', ''xray_authorized''}" by simp_all
    note r1 = step [OF k(1) t f s1]
    note r2 = step [OF k(2) conjunct1 [OF r1] conjunct1 [OF conjunct2 [OF r1]] s2]
    note r3 = step [OF k(3) conjunct1 [OF r2] conjunct1 [OF conjunct2 [OF r2]] s3]
    have "stored_field k a w2 = stored_field k a w" if "config_says k w2 = config_says k w" for k a
      using that by (simp add: stored_field_def split: option.split)
    moreover have "stored_field k a w1 = stored_field k a w" if "config_says k w1 = config_says k w" for k a
      using that by (simp add: stored_field_def split: option.split)
    ultimately show ?thesis using r1 r2 r3 w' by simp
  qed
  from c' other disk show ?thesis by blast
qed

text \<open>Updates are idempotent: the master may push the same one again, as it does every few minutes. Provided the
  recovery address in it does not end in a slash, the second push changes nothing in the client, starts or
  stops nothing and does not touch the disk.\<close>

theorem config_update_idempotent:
  assumes "\<forall>u. us ''recovery_url'' = Some u \<longrightarrow> trim_right (\<lambda>x. x = CHR 0x2F) u = u"
  shows "handleConfigUpdate net targets us (handleConfigUpdate net targets us s) = handleConfigUpdate net targets us s"
proof -
  define s1 where "s1 = update_steal us (update_recovery net us s)"
  define s2 where "s2 = update_authorized us (update_debug us (update_interval us (fst s1)), snd s1)"
  define c where "c = (fst s2)\<lparr>mc_probe := handleProbeConfigUpdate targets us (mc_probe (fst s2))\<rparr>"
  have r: "handleConfigUpdate net targets us s = (c, snd s2)"
    by (simp add: config_update_split s1_def s2_def c_def Let_def)
  have 1: "update_recovery net us (c, snd s2) = (c, snd s2)"
  proof -
    have "ag_recovery c = ag_recovery (fst (update_recovery net us s))" by (simp add: c_def s2_def s1_def)
    then show ?thesis using assms by (cases s) (auto simp: update_recovery_def Let_def split: option.splits if_splits)
  qed
  have 2: "update_steal us (c, snd s2) = (c, snd s2)"
  proof -
    have "mc_steal c = mc_steal (fst s1)" by (simp add: c_def s2_def)
    then show ?thesis unfolding s1_def
      by (cases "update_recovery net us s") (auto simp: update_steal_def split: option.splits if_splits)
  qed
  have 3: "update_interval us c = c"
  proof -
    have "mc_interval c = mc_interval (update_interval us (fst s1))" by (simp add: c_def s2_def)
    then show ?thesis by (auto simp: update_interval_def Let_def split: option.splits if_splits)
  qed
  have 4: "update_debug us c = c"
  proof -
    have "mc_debug c = mc_debug (update_debug us (update_interval us (fst s1)))" by (simp add: c_def s2_def)
    then show ?thesis by (auto simp: update_debug_def split: option.splits)
  qed
  have 5: "update_authorized us (c, snd s2) = (c, snd s2)"
  proof -
    have "mc_authorized c = mc_authorized (fst s2)" by (simp add: c_def)
    then show ?thesis unfolding s2_def
      by (auto simp: update_authorized_def Let_def flex_bool_def split: option.splits if_splits)
  qed
  have 6: "handleProbeConfigUpdate targets us (mc_probe c) = mc_probe c"
    by (auto simp: c_def handleProbeConfigUpdate_def probe_flag_def split: option.splits)
  show ?thesis unfolding r by (simp add: config_update_split Let_def 1 2 3 4 5 6)
qed

section \<open>Examples\<close>

definition toy_client :: mclient where
  "toy_client = \<lparr>ag_token = ''t'', ag_master = ''https://m'', ag_recovery = ''http://r'', ag_contact = 0,
     ag_activated = False, ag_pubkey = Some [1], ag_http = None, ag_answers = [], ag_keys = [], ag_sent = [],
     ag_client = new_client, ag_signal = False, mc_steal = [], mc_interval = 5000000000,
     mc_tickers = [5000000000, 5000000000], mc_authorized = None, mc_auth_calls = [], mc_debug = False,
     mc_probe = \<lparr>pc_info = False, pc_cpu = False, pc_mem = False, pc_disk = False, pc_ping = False, pc_targets = [],
       pc_interval = 30000\<rparr>,
     mc_license = None, mc_embedded = True, mc_limiter = Some new_limiter, mc_monitor = Some NewSpeedMonitor\<rparr>"

definition demo_updates :: updates where
  "demo_updates = [''traffic_report_interval_ms'' \<mapsto> ''100'', ''xray_authorized'' \<mapsto> ''0'']"

lemma demo_update_asks:
  "asked_interval demo_updates = Some 1000000000" "asked_authorization demo_updates toy_client = Some False"
  "asked_steal demo_updates toy_client = None" "asked_recovery toy_net demo_updates toy_client = None"
  by (simp_all add: asked_interval_def asked_authorization_def asked_steal_def asked_recovery_def demo_updates_def
      toy_client_def atoi_def is_digit_def digits_value_def says_true_def to_lower_def to_lower_char_def Let_def)

lemma config_update_effect_witness:
  "let (c', w') = handleConfigUpdate toy_net (\<lambda>_. None) demo_updates
        (toy_client, empty_world\<lparr>files := [(agent_config_path, ''token: t'')]\<rparr>)
   in mc_interval c' = 1000000000 \<and> mc_tickers c' = [1000000000, 1000000000] \<and> mc_auth_calls c' = [False] \<and>
      ag_token c' = ''t'' \<and> config_says ''xray_authorized'' w' = Some ''xray_authorized: false''"
proof -
  define w where "w = empty_world\<lparr>files := [(agent_config_path, ''token: t'')]\<rparr>"
  obtain c' w' where r: "handleConfigUpdate toy_net (\<lambda>_. None) demo_updates (toy_client, w) = (c', w')"
    by fastforce
  have w: "tape w = []" "file_at w agent_config_path \<noteq> None" by (simp_all add: w_def empty_world_def file_at_def)
  have n: "NoControlChars ''false''" by code_simp
  from config_update_effect [OF r] w
  have c: "c' = updated toy_net (\<lambda>_. None) demo_updates toy_client"
    and f: "config_says ''xray_authorized'' w' = Some ''xray_authorized: false''"
    using n by (simp_all add: stored_field_def demo_update_asks)
  have "mc_interval c' = 1000000000" "mc_tickers c' = [1000000000, 1000000000]" "mc_auth_calls c' = [False]" "ag_token c' = ''t''"
    by (simp_all add: c updated_def demo_update_asks or_old_def) (simp_all add: toy_client_def)
  with f r show ?thesis unfolding w_def by simp
qed

lemma config_update_idempotent_witness:
  "let s1 = handleConfigUpdate toy_net (\<lambda>_. None) demo_updates (toy_client, empty_world)
   in mc_auth_calls (fst (handleConfigUpdate toy_net (\<lambda>_. None) demo_updates s1)) = [False]"
proof -
  have n: "\<forall>u. demo_updates ''recovery_url'' = Some u \<longrightarrow> trim_right (\<lambda>x. x = CHR 0x2F) u = u"
    by (simp add: demo_updates_def)
  have "mc_auth_calls (fst (handleConfigUpdate toy_net (\<lambda>_. None) demo_updates (toy_client, empty_world))) = [False]"
    by (simp add: config_update_split Let_def update_defs demo_updates_def toy_client_def truthy_def to_lower_def
        to_lower_char_def flex_bool_def atoi_def is_digit_def digits_value_def clamp_def empty_world_def)
  with config_update_idempotent [where us = demo_updates, OF n] show ?thesis by (simp add: Let_def)
qed

text \<open>A recovery address with a slash at its end is written to disk again at every push: the stored one, which has
  none, is compared with the one received.\<close>

definition slash_net :: net_lib where
  "slash_net = toy_net\<lparr>nl_url := \<lambda>_. Some \<lparr>up_scheme = ''http'', up_host = ''r'', up_hostname = ''r''\<rparr>\<rparr>"

lemma slash_rewritten:
  assumes "ag_recovery c = ''http://r''"
  shows "update_recovery slash_net [''recovery_url'' \<mapsto> ''http://r/''] (c, w) =
    (c, snd (persistConfigField ''recovery_url'' ''http://r'' w))"
proof -
  have t: "trim_space ''http://r/'' = ''http://r/''" "trim_right (\<lambda>x. x = CHR 0x2F) ''http://r/'' = ''http://r''"
    by (simp_all add: trim_space_def trim_func_def trim_left_def trim_right_def is_space_def)
  have "c\<lparr>ag_recovery := ''http://r''\<rparr> = c" using assms by simp
  then show ?thesis by (simp add: update_recovery_def slash_net_def toy_net_def t assms Let_def)
qed

section \<open>The dispatcher\<close>

text \<open>What a message may do. Whatever bytes arrive, the handler changes no file but the agent's own
  configuration, starts at most one task and leaves the master's address alone; bytes that are no message
  change nothing. The token changes by a token update only. The limiter and the speed rules change by a limiter
  message only, and only while an embedded Xray runs and the plan has the limiter feature.\<close>

theorem message_effects:
  assumes "handleMessage parse net targets message (c, w) = (ts, c', w')"
  shows "(\<forall>q. q \<noteq> agent_config_path \<longrightarrow> file_at w' q = file_at w q) \<and> length ts \<le> 1 \<and> ag_master c' = ag_master c \<and>
    (parse message = None \<longrightarrow> ts = [] \<and> c' = c \<and> w' = w) \<and>
    (ag_token c' \<noteq> ag_token c \<longrightarrow> parse message = Some (MsgTokenUpdate (ag_token c'))) \<and>
    (mc_limiter c' \<noteq> mc_limiter c \<or> mc_monitor c' \<noteq> mc_monitor c \<longrightarrow>
       (\<exists>p. parse message = Some (MsgLimiterConfig p)) \<and> mc_embedded c \<and> HasFeature (mc_license c) ''limiter'')"
proof (cases "parse message")
  case None
  with assms show ?thesis by (simp add: handleMessage_def)
next
  case (Some m)
  have l: "ag_token (handleLimiterConfig p c) = ag_token c" "ag_master (handleLimiterConfig p c) = ag_master c"
    "mc_limiter (handleLimiterConfig p c) \<noteq> mc_limiter c \<or> mc_monitor (handleLimiterConfig p c) \<noteq> mc_monitor c \<longrightarrow>
       mc_embedded c \<and> HasFeature (mc_license c) ''limiter''" for p
    by (simp_all add: handleLimiterConfig_def Let_def split: option.split)
  have u: "ag_token (fst (handleConfigUpdate net targets us (c, w))) = ag_token c"
    "ag_master (fst (handleConfigUpdate net targets us (c, w))) = ag_master c"
    "mc_limiter (fst (handleConfigUpdate net targets us (c, w))) = mc_limiter c"
    "mc_monitor (fst (handleConfigUpdate net targets us (c, w))) = mc_monitor c"
    "q \<noteq> agent_config_path \<Longrightarrow> file_at (snd (handleConfigUpdate net targets us (c, w))) q = file_at w q" for us q
    by (simp_all add: config_update_split Let_def)
  show ?thesis
  proof (cases m)
    case (MsgConfigUpdate us)
    with assms Some have "ts = []" "c' = fst (handleConfigUpdate net targets us (c, w))"
      "w' = snd (handleConfigUpdate net targets us (c, w))" by (simp_all add: handleMessage_def)
    with u Some MsgConfigUpdate show ?thesis by simp
  next
    case (MsgLimiterConfig p)
    with assms Some have "ts = []" "c' = handleLimiterConfig p c" "w' = w" by (simp_all add: handleMessage_def)
    with l [of p] Some MsgLimiterConfig show ?thesis by simp
  qed (use assms Some in \<open>auto simp: handleMessage_def handleTokenUpdate_def handleLicenseStatus_def\<close>)
qed

definition limiter_message :: "bytes \<Rightarrow> ws_msg option" where
  "limiter_message b = Some (MsgLimiterConfig \<lparr>lq_tag = ''in'', lq_node = 0, lq_users = [], lq_rules = []\<rparr>)"

lemma message_effects_witness:
  "let (ts, c', w') = handleMessage limiter_message toy_net (\<lambda>_. None) [] (toy_client, empty_world)
   in mc_limiter c' = Some new_limiter \<and> ag_token c' = ''t''"
proof -
  obtain ts c' w' where r: "handleMessage limiter_message toy_net (\<lambda>_. None) [] (toy_client, empty_world) = (ts, c', w')"
    by (metis prod_cases3)
  have "\<not> HasFeature (mc_license toy_client) ''limiter''" by (simp add: HasFeature_def toy_client_def)
  with message_effects [OF r] have "mc_limiter c' = mc_limiter toy_client" "ag_token c' = ag_token toy_client"
    by (auto simp: limiter_message_def)
  with r show ?thesis by (simp add: toy_client_def)
qed

section \<open>What the handlers leave open\<close>

text \<open>Encryption does not keep others from giving orders: with a session in force, a message that does not begin with
  the version byte is taken as it stands.\<close>

lemma plaintext_taken: "m \<noteq> [] \<Longrightarrow> hd m \<noteq> 1 \<Longrightarrow> decryptMessage lib m (Some s) = (m, Some s)"
  by (simp add: decryptMessage_def)

lemma plaintext_call_runs:
  assumes "hd m \<noteq> 1" and "m \<noteq> []" and "parse m = Some (MsgRPCCall p)"
  shows "fst (handleMessage parse net targets (fst (decryptMessage lib m (Some s))) (c, w)) = [TaskRPC p]"
  using assms by (simp add: plaintext_taken handleMessage_def)

text \<open>An eleventh message that arrives while ten are waiting is lost, whatever it asks for.\<close>

lemma full_queue_drops: "length q = 10 \<Longrightarrow> enqueue m q = q"
  by (simp add: enqueue_def)

text \<open>No message counts as contact with the master: five minutes after the connection was made, the recovery is due,
  however busy the connection.\<close>

lemma messages_are_no_contact:
  "ag_contact (fst (snd (handleMessage parse net targets message (c, w)))) = ag_contact c"
proof -
  have 1: "ag_contact (handleLimiterConfig p c) = ag_contact c" for p
    by (simp add: handleLimiterConfig_def Let_def split: option.split)
  have a: "ag_contact (fst (update_authorized us s)) = ag_contact (fst s)"
    "ag_contact (update_debug us x) = ag_contact x" "ag_contact (update_interval us x) = ag_contact x"
    "ag_contact (fst (update_steal us s)) = ag_contact (fst s)"
    "ag_contact (fst (update_recovery net us s)) = ag_contact (fst s)" for us s x
    by (cases s; simp add: update_defs Let_def split: option.split)+
  show ?thesis
    by (simp add: handleMessage_def config_update_split Let_def a 1 handleTokenUpdate_def handleLicenseStatus_def
        split: option.split ws_msg.split)
qed

lemma recovery_due_while_connected:
  "recovery_due toy_net 300 (fst (snd (handleMessage (\<lambda>_. Some (MsgHeartbeatAck 299)) toy_net targets m (toy_client, w))))"
proof -
  have t: "trim_space ''https://m'' = ''https://m''" "trim_space ''http://r'' = ''http://r''" "to_lower ''https'' = ''https''"
    by (simp_all add: trim_space_def trim_func_def trim_left_def trim_right_def is_space_def to_lower_def to_lower_char_def)
  show ?thesis
    by (simp add: recovery_due_def httpsRecoveryEligible_def handleMessage_def toy_net_def toy_client_def t)
qed

text \<open>A limiter message without rules leaves the old rules in force: the last rule cannot be removed.\<close>

lemma rules_cannot_be_cleared:
  assumes "mc_monitor c = Some m" and "lq_rules p = []"
  shows "\<exists>m'. mc_monitor (handleLimiterConfig p c) = Some m' \<and> mo_rules m' = mo_rules m"
  using assms by (auto simp: handleLimiterConfig_def Let_def SetLimiter_def split: option.split)

text \<open>The features of a licence count although it is marked invalid, and an update may set an empty token.\<close>

lemma invalid_licence_unlocks:
  "li_plan l = Some p \<Longrightarrow> ''limiter'' \<in> set (lp_features p) \<Longrightarrow> \<not> li_valid l \<Longrightarrow>
   HasFeature (mc_license (handleLicenseStatus l c)) ''limiter''"
  by (auto simp: HasFeature_def handleLicenseStatus_def list_ex_iff)

lemma empty_token_taken: "ag_token (handleTokenUpdate [] c) = []"
  by (simp add: handleTokenUpdate_def)

end
