(* ===== verification/Config_Load.thy ===== *)
theory Config_Load
  imports Client_Messages
begin

text \<open>
  Where the agent's configuration comes from: the YAML file, the environment, the defaults
  (\<open>internal/config/config.go\<close>) and their order at start (\<open>cmd/mmw-agent/main.go\<close>). Parsing YAML is
  a library call: \<open>yaml\<close> gives the fields of the file, boolean fields as the text of their scalar,
  \<open>None\<close> for anything that is not one. \<open>dur\<close> is \<open>time.ParseDuration\<close>; \<open>env\<close> is the environment,
  empty where a variable is not set; \<open>found\<close> are the paths \<open>discovery.Discover\<close> returns. Durations are
  nanoseconds.
\<close>

record xray_server =
  xs_name :: string
  xs_config :: string
  xs_confdir :: string

record config =
  cf_master :: string
  cf_recovery :: string
  cf_token :: string
  cf_mode :: string
  cf_port :: string
  cf_xray :: string
  cf_steal :: string
  cf_servers :: "xray_server list"
  cf_traffic :: int
  cf_speed :: int
  cf_rmethod :: string
  cf_rcommand :: string
  cf_pubkey :: string
  cf_log :: string
  cf_hide :: "bool option"
  cf_auth :: "bool option"

section \<open>Lenient booleans\<close>

text \<open>\<open>FlexBool.UnmarshalYAML\<close> on the text of a scalar; \<open>None\<close> is an error, which fails the load.\<close>

definition flex_parse :: "string \<Rightarrow> bool option" where
  "flex_parse value =
     (let v = to_lower (trim_space value)
      in if v \<in> {''1'', ''true'', ''yes'', ''y'', ''on'', ''t''} then Some True
         else if v \<in> {''0'', ''false'', ''no'', ''n'', ''off'', ''f'', [], ''~'', ''null''} then Some False
         else None)"

section \<open>Sources\<close>

definition firstNonEmpty :: "string list \<Rightarrow> string" where
  "firstNonEmpty values = (case find (\<lambda>v. trim_space v \<noteq> []) values of None \<Rightarrow> [] | Some v \<Rightarrow> trim_space v)"

definition discoverXrayServers :: "string \<times> string \<Rightarrow> xray_server list" where
  "discoverXrayServers found =
     (case found of (configPath, confDir) \<Rightarrow>
        if configPath \<noteq> [] \<or> confDir \<noteq> []
        then [\<lparr>xs_name = ''xray-1'', xs_config = configPath, xs_confdir = confDir\<rparr>] else [])"

definition applyDefaults :: "string \<times> string \<Rightarrow> config \<Rightarrow> config" where
  "applyDefaults found c =
     c\<lparr>cf_mode := (if cf_mode c = [] then ''auto'' else cf_mode c),
       cf_port := (if cf_port c = [] then ''23889'' else cf_port c),
       cf_traffic := (if cf_traffic c = 0 then 5000000000 else cf_traffic c),
       cf_speed := (if cf_speed c = 0 then 3000000000 else cf_speed c),
       cf_rmethod := (if cf_rmethod c = [] then ''auto'' else cf_rmethod c),
       cf_xray := (if cf_xray c = [] then ''external'' else cf_xray c),
       cf_log := (if cf_log c = [] then ''/var/log/mmw-agent/mmw-agent.log'' else cf_log c),
       cf_hide := (if cf_hide c = None then Some True else cf_hide c),
       cf_servers := (if cf_servers c = [] then discoverXrayServers found else cf_servers c)\<rparr>"

definition fromEnvRaw :: "(string \<Rightarrow> int option) \<Rightarrow> (string \<Rightarrow> string) \<Rightarrow> config" where
  "fromEnvRaw dur env =
     \<lparr>cf_master = env ''MMWX_MASTER_URL'', cf_recovery = env ''MMWX_RECOVERY_URL'',
      cf_token = firstNonEmpty [env ''MMWX_MASTER_TOKEN'', env ''MMWX_TOKEN''],
      cf_mode = env ''MMWX_CONNECTION_MODE'', cf_port = env ''MMWX_LISTEN_PORT'', cf_xray = env ''MMWX_XRAY_MODE'',
      cf_steal = [],
      cf_servers = (if env ''MMWX_XRAY_CONFIG'' \<noteq> []
         then [\<lparr>xs_name = ''primary'', xs_config = env ''MMWX_XRAY_CONFIG'', xs_confdir = env ''MMWX_XRAY_CONFDIR''\<rparr>]
         else []),
      cf_traffic = (if env ''MMWX_TRAFFIC_INTERVAL'' \<noteq> []
         then (case dur (env ''MMWX_TRAFFIC_INTERVAL'') of None \<Rightarrow> 0 | Some d \<Rightarrow> d) else 0),
      cf_speed = (if env ''MMWX_SPEED_INTERVAL'' \<noteq> []
         then (case dur (env ''MMWX_SPEED_INTERVAL'') of None \<Rightarrow> 0 | Some d \<Rightarrow> d) else 0),
      cf_rmethod = env ''MMWX_RESTART_METHOD'', cf_rcommand = env ''MMWX_RESTART_COMMAND'',
      cf_pubkey = env ''MMWX_MASTER_PUBLIC_KEY'', cf_log = env ''MMWX_LOG_PATH'',
      cf_hide = (if env ''MMWX_HIDE_PORT_ON_WS'' \<noteq> []
         then Some (env ''MMWX_HIDE_PORT_ON_WS'' = ''1'' \<or> env ''MMWX_HIDE_PORT_ON_WS'' = ''true'') else None),
      cf_auth = None\<rparr>"

definition config_Merge :: "config \<Rightarrow> config \<Rightarrow> config" where
  "config_Merge c env =
     c\<lparr>cf_master := (if cf_master env \<noteq> [] then cf_master env else cf_master c),
       cf_recovery := (if cf_recovery env \<noteq> [] then cf_recovery env else cf_recovery c),
       cf_token := (if cf_token env \<noteq> [] then cf_token env else cf_token c),
       cf_mode := (if cf_mode env \<noteq> [] then cf_mode env else cf_mode c),
       cf_port := (if cf_port env \<noteq> [] then cf_port env else cf_port c),
       cf_xray := (if cf_xray env \<noteq> [] then cf_xray env else cf_xray c),
       cf_servers := (if cf_servers env \<noteq> [] then cf_servers env else cf_servers c),
       cf_traffic := (if 0 < cf_traffic env then cf_traffic env else cf_traffic c),
       cf_speed := (if 0 < cf_speed env then cf_speed env else cf_speed c),
       cf_rmethod := (if cf_rmethod env \<noteq> [] then cf_rmethod env else cf_rmethod c),
       cf_rcommand := (if cf_rcommand env \<noteq> [] then cf_rcommand env else cf_rcommand c),
       cf_pubkey := (if cf_pubkey env \<noteq> [] then cf_pubkey env else cf_pubkey c),
       cf_log := (if cf_log env \<noteq> [] then cf_log env else cf_log c),
       cf_hide := (if cf_hide env \<noteq> None then cf_hide env else cf_hide c)\<rparr>"

definition FromEnv :: "(string \<Rightarrow> int option) \<Rightarrow> (string \<Rightarrow> string) \<Rightarrow> string \<times> string \<Rightarrow> config" where
  "FromEnv dur env found = applyDefaults found (fromEnvRaw dur env)"

definition MergeEnv :: "(string \<Rightarrow> int option) \<Rightarrow> (string \<Rightarrow> string) \<Rightarrow> config \<Rightarrow> config" where
  "MergeEnv dur env c = config_Merge c (fromEnvRaw dur env)"

text \<open>The file's fields with the two booleans still as text.\<close>

type_synonym yaml_lib = "string \<Rightarrow> (config \<times> string option \<times> string option) option"

definition yaml_config :: "yaml_lib \<Rightarrow> string \<Rightarrow> config option" where
  "yaml_config yaml content =
     (case yaml content of
        None \<Rightarrow> None
      | Some (c, hide, auth) \<Rightarrow>
          (case (map_option flex_parse hide, map_option flex_parse auth) of
             (Some None, _) \<Rightarrow> None
           | (_, Some None) \<Rightarrow> None
           | (h, a) \<Rightarrow> Some (c\<lparr>cf_hide := Option.bind h id, cf_auth := Option.bind a id\<rparr>)))"

definition config_Load :: "yaml_lib \<Rightarrow> string \<times> string \<Rightarrow> string \<Rightarrow> world \<Rightarrow> config option \<times> world" where
  "config_Load yaml found path w =
     (case read_file path w of
        (Inl _, w1) \<Rightarrow> (None, w1)
      | (Inr content, w1) \<Rightarrow> (map_option (applyDefaults found) (yaml_config yaml content), w1))"

definition Validate :: "config \<Rightarrow> bool" where
  "Validate c \<longleftrightarrow>
     \<not> (cf_mode c \<noteq> ''pull'' \<and> trim_space (cf_token c) = []) \<and>
     \<not> (trim_space (cf_master c) = [] \<and> cf_mode c \<noteq> ''pull'')"

text \<open>The file main uses: the one asked for, or the first of the two places that exists.\<close>

definition choose_config :: "string \<Rightarrow> string \<Rightarrow> world \<Rightarrow> string" where
  "choose_config long short w =
     (let cfgFile = (if long = [] then short else long)
      in if cfgFile \<noteq> [] then cfgFile
         else (case find (\<lambda>p. file_at w p \<noteq> None) [''config.yaml'', ''/etc/mmw-agent/config.yaml''] of
                 None \<Rightarrow> [] | Some p \<Rightarrow> p))"

text \<open>\<open>None\<close>: the process gives up.\<close>

definition start_config ::
  "yaml_lib \<Rightarrow> (string \<Rightarrow> int option) \<Rightarrow> (string \<Rightarrow> string) \<Rightarrow> string \<times> string \<Rightarrow> string \<Rightarrow> world \<Rightarrow>
   config option \<times> world" where
  "start_config yaml dur env found cfgFile w =
     (case (if cfgFile \<noteq> [] then (case config_Load yaml found cfgFile w of (c, w1) \<Rightarrow> (map_option (MergeEnv dur env) c, w1))
            else (Some (FromEnv dur env found), w)) of
        (None, w1) \<Rightarrow> (None, w1)
      | (Some c, w1) \<Rightarrow> (if Validate c then Some c else None, w1))"

section \<open>The order of the sources\<close>

lemma Merge_left_neutral: "config_Merge c (fromEnvRaw dur (\<lambda>_. [])) = c"
  by (simp add: config_Merge_def fromEnvRaw_def firstNonEmpty_def trim_space_def trim_func_def trim_left_def trim_right_def)

lemma Merge_assoc:
  "0 \<le> cf_traffic a \<and> 0 \<le> cf_speed a \<Longrightarrow> config_Merge c (config_Merge a b) = config_Merge (config_Merge c a) b"
  by (simp add: config_Merge_def)

lemma Merge_idem: "config_Merge (config_Merge c e) e = config_Merge c e"
  by (simp add: config_Merge_def)

lemma defaults_idem: "applyDefaults found (applyDefaults found c) = applyDefaults found c"
  by (simp add: applyDefaults_def)

lemma applyDefaults_sel:
  "cf_mode (applyDefaults found c) = (if cf_mode c = [] then ''auto'' else cf_mode c)"
  "cf_port (applyDefaults found c) = (if cf_port c = [] then ''23889'' else cf_port c)"
  "cf_traffic (applyDefaults found c) = (if cf_traffic c = 0 then 5000000000 else cf_traffic c)"
  "cf_speed (applyDefaults found c) = (if cf_speed c = 0 then 3000000000 else cf_speed c)"
  "cf_rmethod (applyDefaults found c) = (if cf_rmethod c = [] then ''auto'' else cf_rmethod c)"
  "cf_xray (applyDefaults found c) = (if cf_xray c = [] then ''external'' else cf_xray c)"
  "cf_log (applyDefaults found c) = (if cf_log c = [] then ''/var/log/mmw-agent/mmw-agent.log'' else cf_log c)"
  "cf_hide (applyDefaults found c) = (if cf_hide c = None then Some True else cf_hide c)"
  "cf_servers (applyDefaults found c) = (if cf_servers c = [] then discoverXrayServers found else cf_servers c)"
  "cf_master (applyDefaults found c) = cf_master c"
  "cf_recovery (applyDefaults found c) = cf_recovery c"
  "cf_token (applyDefaults found c) = cf_token c"
  "cf_steal (applyDefaults found c) = cf_steal c"
  "cf_rcommand (applyDefaults found c) = cf_rcommand c"
  "cf_pubkey (applyDefaults found c) = cf_pubkey c"
  "cf_auth (applyDefaults found c) = cf_auth c"
  by (simp_all add: applyDefaults_def)

lemma config_Merge_sel:
  "cf_master (config_Merge c env) = (if cf_master env \<noteq> [] then cf_master env else cf_master c)"
  "cf_recovery (config_Merge c env) = (if cf_recovery env \<noteq> [] then cf_recovery env else cf_recovery c)"
  "cf_token (config_Merge c env) = (if cf_token env \<noteq> [] then cf_token env else cf_token c)"
  "cf_mode (config_Merge c env) = (if cf_mode env \<noteq> [] then cf_mode env else cf_mode c)"
  "cf_port (config_Merge c env) = (if cf_port env \<noteq> [] then cf_port env else cf_port c)"
  "cf_xray (config_Merge c env) = (if cf_xray env \<noteq> [] then cf_xray env else cf_xray c)"
  "cf_servers (config_Merge c env) = (if cf_servers env \<noteq> [] then cf_servers env else cf_servers c)"
  "cf_traffic (config_Merge c env) = (if 0 < cf_traffic env then cf_traffic env else cf_traffic c)"
  "cf_speed (config_Merge c env) = (if 0 < cf_speed env then cf_speed env else cf_speed c)"
  "cf_rmethod (config_Merge c env) = (if cf_rmethod env \<noteq> [] then cf_rmethod env else cf_rmethod c)"
  "cf_rcommand (config_Merge c env) = (if cf_rcommand env \<noteq> [] then cf_rcommand env else cf_rcommand c)"
  "cf_pubkey (config_Merge c env) = (if cf_pubkey env \<noteq> [] then cf_pubkey env else cf_pubkey c)"
  "cf_log (config_Merge c env) = (if cf_log env \<noteq> [] then cf_log env else cf_log c)"
  "cf_hide (config_Merge c env) = (if cf_hide env \<noteq> None then cf_hide env else cf_hide c)"
  "cf_steal (config_Merge c env) = cf_steal c"
  "cf_auth (config_Merge c env) = cf_auth c"
  by (simp_all add: config_Merge_def)

text \<open>The first source that says something.\<close>

definition pick :: "('a \<Rightarrow> bool) \<Rightarrow> 'a \<Rightarrow> 'a \<Rightarrow> 'a \<Rightarrow> 'a" where
  "pick says a b d = (if says a then a else if says b then b else d)"

definition filled :: "config \<Rightarrow> bool" where
  "filled c \<longleftrightarrow> cf_mode c \<noteq> [] \<and> cf_port c \<noteq> [] \<and> cf_rmethod c \<noteq> [] \<and> cf_xray c \<noteq> [] \<and> cf_log c \<noteq> [] \<and>
     cf_hide c \<noteq> None \<and> cf_traffic c \<noteq> 0 \<and> cf_speed c \<noteq> 0"

lemma applyDefaults_filled: "filled (applyDefaults found c)"
  by (auto simp: filled_def applyDefaults_def)

lemma Merge_filled: "filled c \<Longrightarrow> filled (config_Merge c e)"
  by (auto simp: filled_def config_Merge_def)

lemma start_config_cases:
  assumes "start_config yaml dur env found cfgFile w = (Some c, w')"
  shows "Validate c \<and>
    ((\<exists>f. cfgFile \<noteq> [] \<and> c = config_Merge (applyDefaults found f) (fromEnvRaw dur env)) \<or>
     cfgFile = [] \<and> c = applyDefaults found (fromEnvRaw dur env))"
  using assms
  by (auto simp: start_config_def config_Load_def MergeEnv_def FromEnv_def
           split: if_splits prod.splits sum.splits option.splits)

text \<open>C38: whatever file and environment the agent starts from, a configuration that main accepts has every field that has a
  default set, names a master and a token unless the agent is in pull mode, and so no later stage meets an empty mode,
  port, restart method, log path or a zero interval.\<close>

theorem started_config_complete:
  assumes "start_config yaml dur env found cfgFile w = (Some c, w')"
  shows "filled c \<and> (cf_mode c \<noteq> ''pull'' \<longrightarrow> trim_space (cf_token c) \<noteq> [] \<and> trim_space (cf_master c) \<noteq> [])"
proof -
  have v: "Validate c" and f: "filled c"
    using start_config_cases [OF assms] by (auto simp: applyDefaults_filled Merge_filled)
  then show ?thesis unfolding Validate_def by blast
qed

text \<open>What the file says, without the defaults.\<close>

definition empty_config :: config where
  "empty_config = \<lparr>cf_master = [], cf_recovery = [], cf_token = [], cf_mode = [], cf_port = [], cf_xray = [], cf_steal = [],
     cf_servers = [], cf_traffic = 0, cf_speed = 0, cf_rmethod = [], cf_rcommand = [], cf_pubkey = [], cf_log = [],
     cf_hide = None, cf_auth = None\<rparr>"

definition cfg_yaml :: yaml_lib where
  "cfg_yaml content = (if content = ''f'' then Some (empty_config\<lparr>cf_token := ''filetok'', cf_master := ''http://m'',
      cf_port := ''7000''\<rparr>, Some ''no'', Some ''1'') else None)"

definition cfg_env :: "string \<Rightarrow> string" where
  "cfg_env k = (if k = ''MMWX_TOKEN'' then ''envtok'' else if k = ''MMWX_TRAFFIC_INTERVAL'' then ''9s'' else [])"

definition cfg_dur :: "string \<Rightarrow> int option" where
  "cfg_dur s = (if s = ''9s'' then Some 9000000000 else None)"

definition cfg_world :: world where
  "cfg_world = empty_world\<lparr>files := [(''c'', ''f'')]\<rparr>"

lemmas trims = trim_space_def trim_func_def trim_left_def trim_right_def is_space_def

lemma cfg_start:
  "start_config cfg_yaml cfg_dur cfg_env ([], []) ''c'' cfg_world =
     (Some (empty_config\<lparr>cf_token := ''envtok'', cf_master := ''http://m'', cf_mode := ''auto'', cf_port := ''7000'',
        cf_xray := ''external'', cf_traffic := 9000000000, cf_speed := 3000000000, cf_rmethod := ''auto'',
        cf_log := ''/var/log/mmw-agent/mmw-agent.log'', cf_hide := Some False, cf_auth := Some True\<rparr>), cfg_world)"
proof -
  have r: "read_file ''c'' cfg_world = (Inr ''f'', cfg_world)"
    by (simp add: read_file_def cfg_world_def empty_world_def next_outcome_def file_at_def)
  have p: "flex_parse ''no'' = Some False" "flex_parse ''1'' = Some True"
    by (simp_all add: flex_parse_def trims to_lower_def to_lower_char_def Let_def)
  have t: "trim_space ''envtok'' = ''envtok''" "trim_space [] = []" "trim_space ''http://m'' = ''http://m''"
    by (simp_all add: trims)
  show ?thesis
    by (simp add: start_config_def config_Load_def r yaml_config_def cfg_yaml_def p MergeEnv_def fromEnvRaw_def
        firstNonEmpty_def cfg_env_def cfg_dur_def t config_Merge_def applyDefaults_def discoverXrayServers_def
        Validate_def empty_config_def)
qed

theorem started_config_complete_witness:
  "\<exists>c. start_config cfg_yaml cfg_dur cfg_env ([], []) ''c'' cfg_world = (Some c, cfg_world) \<and> filled c \<and> cf_token c = ''envtok''"
  using started_config_complete [OF cfg_start] by (auto simp: cfg_start)

text \<open>the order of the sources is environment, then file, then default, field by field: with a file that loads, every
  field main runs with is the environment's if the environment sets it, else the file's if the file sets it, else the
  default. Two fields have one source: \<open>steal_mode\<close> and \<open>xray_authorized\<close> come from the file alone.\<close>

theorem config_sources_in_order:
  assumes "cfgFile \<noteq> []" "read_file cfgFile w = (Inr content, w1)" "yaml_config yaml content = Some f"
    and "start_config yaml dur env found cfgFile w = (Some c, w')"
  shows "let e = fromEnvRaw dur env; set = (\<lambda>s. s \<noteq> [])
    in cf_mode c = pick set (cf_mode e) (cf_mode f) ''auto'' \<and>
       cf_port c = pick set (cf_port e) (cf_port f) ''23889'' \<and>
       cf_xray c = pick set (cf_xray e) (cf_xray f) ''external'' \<and>
       cf_rmethod c = pick set (cf_rmethod e) (cf_rmethod f) ''auto'' \<and>
       cf_log c = pick set (cf_log e) (cf_log f) ''/var/log/mmw-agent/mmw-agent.log'' \<and>
       cf_servers c = pick (\<lambda>l. l \<noteq> []) (cf_servers e) (cf_servers f) (discoverXrayServers found) \<and>
       cf_hide c = pick (\<lambda>h. h \<noteq> None) (cf_hide e) (cf_hide f) (Some True) \<and>
       cf_traffic c = (if 0 < cf_traffic e then cf_traffic e else if cf_traffic f = 0 then 5000000000 else cf_traffic f) \<and>
       cf_speed c = (if 0 < cf_speed e then cf_speed e else if cf_speed f = 0 then 3000000000 else cf_speed f) \<and>
       cf_token c = pick set (cf_token e) (cf_token f) [] \<and> cf_master c = pick set (cf_master e) (cf_master f) [] \<and>
       cf_recovery c = pick set (cf_recovery e) (cf_recovery f) [] \<and>
       cf_pubkey c = pick set (cf_pubkey e) (cf_pubkey f) [] \<and>
       cf_rcommand c = pick set (cf_rcommand e) (cf_rcommand f) [] \<and>
       cf_steal c = cf_steal f \<and> cf_auth c = cf_auth f"
proof -
  have "c = config_Merge (applyDefaults found f) (fromEnvRaw dur env)"
    using assms by (auto simp: start_config_def config_Load_def MergeEnv_def split: if_splits)
  then show ?thesis
    unfolding Let_def pick_def by (intro conjI) (auto simp: config_Merge_sel applyDefaults_sel)
qed

theorem config_sources_in_order_witness:
  "\<exists>c. start_config cfg_yaml cfg_dur cfg_env ([], []) ''c'' cfg_world = (Some c, cfg_world) \<and>
     cf_token c = pick (\<lambda>s. s \<noteq> []) (cf_token (fromEnvRaw cfg_dur cfg_env)) ''filetok'' []"
proof -
  have r: "read_file ''c'' cfg_world = (Inr ''f'', cfg_world)"
    by (simp add: read_file_def cfg_world_def empty_world_def next_outcome_def file_at_def)
  have y: "yaml_config cfg_yaml ''f'' = Some (empty_config\<lparr>cf_token := ''filetok'', cf_master := ''http://m'',
      cf_port := ''7000'', cf_hide := Some False, cf_auth := Some True\<rparr>)"
    by (simp add: yaml_config_def cfg_yaml_def flex_parse_def trims to_lower_def to_lower_char_def Let_def)
  have "''c'' \<noteq> []" by simp
  from config_sources_in_order [OF this r y cfg_start] show ?thesis
    by (simp add: cfg_start Let_def)
qed

section \<open>What the agent writes it can read\<close>

text \<open>the quota answer the agent writes into its file (true or false, as \<open>strconv.FormatBool\<close> spells them) is read back as
  it was at the next start, and so are the 1 and 0 that earlier versions wrote; in any letter case and with any
  spaces around it, so that an old file does not stop the agent from starting.\<close>

theorem quota_flag_roundtrip:
  "flex_parse (format_bool b) = Some b \<and> flex_parse (if b then ''1'' else ''0'') = Some b \<and>
   flex_parse (trim_space v) = flex_parse v"
proof -
  have "trim_space (trim_space v) = trim_space v" by (rule trim_space_idem)
  then show ?thesis
    by (auto simp: flex_parse_def format_bool_def trims to_lower_def to_lower_char_def Let_def)
qed

section \<open>Departures\<close>

text \<open>
  \<open>MMWX_HIDE_PORT_ON_WS=yes\<close> switches port hiding off, where \<open>hide_port_on_ws: yes\<close> in the file switches it on.
\<close>

lemma yes_means_no:
  "cf_hide (fromEnvRaw dur (\<lambda>k. if k = ''MMWX_HIDE_PORT_ON_WS'' then ''yes'' else [])) = Some False \<and>
   flex_parse ''yes'' = Some True"
  by (simp add: fromEnvRaw_def flex_parse_def trims to_lower_def to_lower_char_def Let_def)

text \<open>A negative interval in the file passes the defaults and the validation; the tickers made of it panic.\<close>

lemma negative_interval_accepted:
  "\<exists>c. start_config (\<lambda>_. Some (empty_config\<lparr>cf_mode := ''pull'', cf_traffic := -1\<rparr>, None, None)) dur (\<lambda>_. []) ([], []) ''c''
     cfg_world = (Some c, cfg_world) \<and> cf_traffic c < 0"
  by (simp add: start_config_def config_Load_def read_file_def cfg_world_def empty_world_def next_outcome_def file_at_def
      yaml_config_def applyDefaults_def MergeEnv_def Merge_left_neutral Validate_def)

end
