(* ===== verification/Nginx_Text.thy ===== *)
theory Nginx_Text
  imports Path_Guard
begin

text \<open>
  What the agent reads in nginx's configuration, as text: the scanner that finds the end of the \<open>http\<close> block, the
  insertion of the managed include, the search for include directives (\<open>internal/handler/nginx_control.go\<close>), and
  the port of an SSL listener (\<open>extractSSLListenPort\<close> of \<open>internal/agent/client.go\<close>). The regular expressions are
  written out as the leftmost match they stand for, with their greedy choices.
\<close>

section \<open>Paths in general\<close>

text \<open>\<open>filepath.Dir\<close>, \<open>Base\<close> and \<open>Join\<close>.\<close>

definition go_Dir :: "string \<Rightarrow> string" where
  "go_Dir p = Clean (rev (dropWhile (\<lambda>c. c \<noteq> CHR 0x2F) (rev p)))"

definition go_Base :: "string \<Rightarrow> string" where
  "go_Base p =
     (if p = [] then ''.''
      else
        (let q = trim_right (\<lambda>c. c = CHR 0x2F) p
         in if q = [] then ''/'' else rev (takeWhile (\<lambda>c. c \<noteq> CHR 0x2F) (rev q))))"

definition go_Join :: "string \<Rightarrow> string \<Rightarrow> string" where
  "go_Join a b =
     (if a = [] \<and> b = [] then []
      else if a = [] then Clean b else if b = [] then Clean a else Clean (a @ ''/'' @ b))"

section \<open>The http block\<close>

definition is_blank :: "char \<Rightarrow> bool" where
  "is_blank c \<longleftrightarrow> c = CHR 0x09 \<or> c = CHR 0x20"

text \<open>The expression \<open>^[\t ]*http[\t ]*{\<close> at the start of a line: the offset of the brace.\<close>

definition match_http :: "string \<Rightarrow> nat option" where
  "match_http s =
     (let r1 = dropWhile is_blank s
      in if \<not> has_prefix r1 ''http'' then None
         else
           (let r2 = dropWhile is_blank (drop 4 r1)
            in if r2 \<noteq> [] \<and> hd r2 = CHR 0x7B then Some (length s - length r2) else None))"

fun find_http :: "bool \<Rightarrow> nat \<Rightarrow> string \<Rightarrow> nat option" where
  "find_http ls i [] = None"
| "find_http ls i (c # s) =
     (case (if ls then match_http (c # s) else None) of
        Some k \<Rightarrow> Some (i + k)
      | None \<Rightarrow> find_http (c = CHR 0x0A) (Suc i) s)"

text \<open>The scanner's state: in the code, in a comment, in a quoted string, after a backslash in one.\<close>

datatype lex = Code | Comment | Quoted char | Escaped char

fun lex_next :: "lex \<Rightarrow> char \<Rightarrow> lex" where
  "lex_next Comment c = (if c = CHR 0x0A then Code else Comment)"
| "lex_next (Escaped q) c = Quoted q"
| "lex_next (Quoted q) c = (if c = CHR 0x5C then Escaped q else if c = q then Code else Quoted q)"
| "lex_next Code c =
     (if c = CHR 0x23 then Comment else if c = CHR 0x22 \<or> c = CHR 0x27 then Quoted c else Code)"

fun depth_next :: "lex \<Rightarrow> char \<Rightarrow> int \<Rightarrow> int" where
  "depth_next Code c d = (if c = CHR 0x7B then d + 1 else if c = CHR 0x7D then d - 1 else d)"
| "depth_next _ c d = d"

fun block_end :: "lex \<Rightarrow> int \<Rightarrow> nat \<Rightarrow> string \<Rightarrow> nat option" where
  "block_end st d i [] = None"
| "block_end st d i (c # s) =
     (if st = Code \<and> c = CHR 0x7D \<and> d - 1 = 0 then Some i
      else block_end (lex_next st c) (depth_next st c d) (Suc i) s)"

definition nginxHTTPBlockEnd :: "string \<Rightarrow> nat option" where
  "nginxHTTPBlockEnd config =
     (case find_http True 0 config of
        None \<Rightarrow> None
      | Some opn \<Rightarrow> block_end Code 0 opn (drop opn config))"

definition managed_include :: string where
  "managed_include = ''    include servers/*.conf;'' @ [CHR 0x0A]"

definition addNginxManagedInclude :: "string \<Rightarrow> string option" where
  "addNginxManagedInclude config =
     (case nginxHTTPBlockEnd config of
        None \<Rightarrow> None
      | Some e \<Rightarrow>
          (let p = take e config; p1 = (if has_suffix p [CHR 0x0A] then p else p @ [CHR 0x0A])
           in Some (p1 @ managed_include @ drop e config)))"

section \<open>Include directives\<close>

text \<open>The expression \<open>^[\t ]*include[\t ]+([^;#]+);\<close> at the start of a line: the group and what follows the match.
  When the group would be empty, the last blank before it is given back to it.\<close>

definition include_at :: "string \<Rightarrow> (string \<times> string) option" where
  "include_at s =
     (let r1 = dropWhile is_blank s
      in if \<not> has_prefix r1 ''include'' then None
         else
           (let r2 = drop 7 r1; ws = takeWhile is_blank r2; r3 = dropWhile is_blank r2;
                g = takeWhile (\<lambda>c. c \<noteq> CHR 0x3B \<and> c \<noteq> CHR 0x23) r3; r4 = drop (length g) r3
            in if ws = [] \<or> r4 = [] \<or> hd r4 \<noteq> CHR 0x3B then None
               else if g \<noteq> [] then Some (g, tl r4)
               else if 2 \<le> length ws then Some ([last ws], tl r4)
               else None))"

lemma include_at_shorter: "include_at s = Some (g, r) \<Longrightarrow> length r < length s"
proof -
  assume a: "include_at s = Some (g, r)"
  let ?r1 = "dropWhile is_blank s"
  let ?r3 = "dropWhile is_blank (drop 7 ?r1)"
  let ?g = "takeWhile (\<lambda>c. c \<noteq> CHR 0x3B \<and> c \<noteq> CHR 0x23) ?r3"
  let ?r4 = "drop (length ?g) ?r3"
  have r: "r = tl ?r4" "?r4 \<noteq> []"
    using a by (auto simp: include_at_def Let_def split: if_splits)
  have "length r < length ?r4" using r by (cases ?r4) auto
  also have "length ?r4 \<le> length ?r3" by simp
  also have "length ?r3 \<le> length (drop 7 ?r1)" by (rule length_dropWhile_le)
  also have "length (drop 7 ?r1) \<le> length ?r1" by simp
  also have "length ?r1 \<le> length s" by (rule length_dropWhile_le)
  finally show ?thesis .
qed

function find_includes :: "bool \<Rightarrow> string \<Rightarrow> string list" where
  "find_includes ls [] = []"
| "find_includes ls (c # s) =
     (case (if ls then include_at (c # s) else None) of
        Some (g, r) \<Rightarrow> g # find_includes False r
      | None \<Rightarrow> find_includes (c = CHR 0x0A) s)"
  by pat_completeness auto
termination
  by (relation "measure (\<lambda>(ls, s). length s)") (auto split: if_splits dest: include_at_shorter)

definition is_quote :: "char \<Rightarrow> bool" where
  "is_quote c \<longleftrightarrow> c = CHR 0x22 \<or> c = CHR 0x27"

text \<open>What one directive says: \<open>None\<close> where the loop goes on.\<close>

definition include_dir :: "string \<Rightarrow> string \<Rightarrow> string option" where
  "include_dir configPath g =
     (let pat = trim_func is_quote (trim_space g)
      in if CHR 0x24 \<in> set pat then None
         else
           (let clean = Clean pat; base = go_Base (go_Dir clean)
            in if base \<noteq> ''servers'' \<and> base \<noteq> ''conf.d'' \<and> base \<noteq> ''sites-enabled'' then None
               else
                 (let dir = go_Dir clean
                  in Some (Clean (if IsAbs dir then dir else go_Join (go_Dir configPath) dir)))))"

definition nginxIncludedServerDir :: "string \<Rightarrow> string \<Rightarrow> string" where
  "nginxIncludedServerDir configPath config =
     (case find (\<lambda>x. x \<noteq> None) (List.map (include_dir configPath) (find_includes True config)) of
        Some (Some d) \<Rightarrow> d
      | _ \<Rightarrow> [])"

section \<open>SSL listeners\<close>

text \<open>\<open>strings.Fields\<close>.\<close>

function go_fields :: "string \<Rightarrow> string list" where
  "go_fields s =
     (let r = dropWhile is_space s
      in if r = [] then [] else takeWhile (\<lambda>c. \<not> is_space c) r # go_fields (dropWhile (\<lambda>c. \<not> is_space c) r))"
  by pat_completeness auto
termination
proof (relation "measure length", goal_cases)
  case 1 then show ?case by simp
next
  case (2 s r)
  then obtain c t where r: "dropWhile is_space s = c # t" and c: "\<not> is_space c"
    by (metis hd_dropWhile list.collapse)
  have "length (dropWhile (\<lambda>c. \<not> is_space c) (c # t)) \<le> length t"
    using c by (simp add: length_dropWhile_le)
  moreover have "length (c # t) \<le> length s"
    unfolding r [symmetric] by (rule length_dropWhile_le)
  ultimately show ?case using 2 r by simp
qed

declare go_fields.simps [simp del]

definition ssl_port_of_line :: "string \<Rightarrow> int option" where
  "ssl_port_of_line raw =
     (let line = trim_space raw
      in if \<not> has_prefix line ''listen'' then None
         else
           (let rest = trim_space (trim_right (\<lambda>c. c = CHR 0x3B) (trim_prefix line ''listen''));
                fields = go_fields rest
            in if length fields < 2 then None
               else if ''ssl'' \<notin> set (tl fields) then None
               else
                 (let portStr = last (split_on (CHR 0x3A) (hd fields))
                  in case atoi portStr of
                       None \<Rightarrow> None
                     | Some port \<Rightarrow> if 0 < port then Some port else None)))"

fun first_ssl_port :: "string list \<Rightarrow> int" where
  "first_ssl_port [] = 0"
| "first_ssl_port (l # ls) = (case ssl_port_of_line l of Some p \<Rightarrow> p | None \<Rightarrow> first_ssl_port ls)"

definition extractSSLListenPort :: "string \<Rightarrow> int" where
  "extractSSLListenPort conf = first_ssl_port (split_on (CHR 0x0A) conf)"

section \<open>What nginx -V says\<close>

definition not_space :: "char \<Rightarrow> bool" where
  "not_space c \<longleftrightarrow> \<not> is_space c"

text \<open>The first occurrence of a mark that is followed by a word (\<open>mark([^\s]+)\<close>).\<close>

fun word_after :: "string \<Rightarrow> string \<Rightarrow> string" where
  "word_after mark [] = []"
| "word_after mark (c # s) =
     (if has_prefix (c # s) mark \<and> takeWhile not_space (drop (length mark) (c # s)) \<noteq> []
      then takeWhile not_space (drop (length mark) (c # s)) else word_after mark s)"

text \<open>The expression of \<open>parseNginxVersionOutput\<close>, which allows white space between the two marks.\<close>

fun parseNginxVersionOutput :: "string \<Rightarrow> string" where
  "parseNginxVersionOutput [] = []"
| "parseNginxVersionOutput (c # s) =
     (let v = dropWhile is_space (drop 14 (c # s)); word = takeWhile not_space (drop 6 v)
      in if has_prefix (c # s) ''nginx version:'' \<and> has_prefix v ''nginx/'' \<and> word \<noteq> []
         then word else parseNginxVersionOutput s)"

section \<open>Websites\<close>

text \<open>The expression \<open>^\s*KW\s+([^;]+);\<close> at the start of a line, white space including newlines. When the group
  would be empty, the last space before it is given back to it.\<close>

definition keyword_at :: "string \<Rightarrow> string \<Rightarrow> string option" where
  "keyword_at kw s =
     (let r1 = dropWhile is_space s
      in if \<not> has_prefix r1 kw then None
         else
           (let r2 = drop (length kw) r1; ws = takeWhile is_space r2; r3 = dropWhile is_space r2;
                g = takeWhile (\<lambda>c. c \<noteq> CHR 0x3B) r3; r4 = drop (length g) r3
            in if ws = [] \<or> r4 = [] then None
               else if g \<noteq> [] then Some g
               else if 2 \<le> length ws then Some [last ws]
               else None))"

fun find_keyword :: "bool \<Rightarrow> string \<Rightarrow> string \<Rightarrow> string option" where
  "find_keyword ls kw [] = None"
| "find_keyword ls kw (c # s) =
     (case (if ls then keyword_at kw (c # s) else None) of
        Some g \<Rightarrow> Some g
      | None \<Rightarrow> find_keyword (c = CHR 0x0A) kw s)"

text \<open>The expression \<open>^\s*location\s+[^\s{]+\s*{\<close>: what follows the match.\<close>

definition location_at :: "string \<Rightarrow> string option" where
  "location_at s =
     (let r1 = dropWhile is_space s
      in if \<not> has_prefix r1 ''location'' then None
         else
           (let r2 = drop 8 r1; r3 = dropWhile is_space r2; name = takeWhile (\<lambda>c. \<not> is_space c \<and> c \<noteq> CHR 0x7B) r3;
                r4 = dropWhile is_space (drop (length name) r3)
            in if r3 = r2 then None else if name = [] then None
               else (case r4 of [] \<Rightarrow> None | c # t \<Rightarrow> if c = CHR 0x7B then Some t else None)))"

lemma location_at_shorter: "location_at s = Some r \<Longrightarrow> length r < length s"
proof -
  assume a: "location_at s = Some r"
  let ?r1 = "dropWhile is_space s"
  let ?r3 = "dropWhile is_space (drop 8 ?r1)"
  let ?d = "drop (length (takeWhile (\<lambda>c. \<not> is_space c \<and> c \<noteq> CHR 0x7B) ?r3)) ?r3"
  let ?r4 = "dropWhile is_space ?d"
  have r: "?r4 = CHR 0x7B # r"
    using a unfolding location_at_def Let_def
    by (simp del: has_prefix_Cons dropWhile_eq_Nil_conv takeWhile_eq_Nil_iff split: if_splits list.splits)
  have "length r < length ?r4" unfolding r by simp
  also have "length ?r4 \<le> length ?d" by (rule length_dropWhile_le)
  also have "length ?d \<le> length ?r3" by simp
  also have "length ?r3 \<le> length (drop 8 ?r1)" by (rule length_dropWhile_le)
  also have "length (drop 8 ?r1) \<le> length ?r1" by simp
  also have "length ?r1 \<le> length s" by (rule length_dropWhile_le)
  finally show ?thesis .
qed

function count_locations :: "bool \<Rightarrow> string \<Rightarrow> nat" where
  "count_locations ls [] = 0"
| "count_locations ls (c # s) =
     (case (if ls then location_at (c # s) else None) of
        Some r \<Rightarrow> Suc (count_locations False r)
      | None \<Rightarrow> count_locations (c = CHR 0x0A) s)"
  by pat_completeness auto
termination
  by (relation "measure (\<lambda>(ls, s). length s)") (auto split: if_splits dest: location_at_shorter)

text \<open>\<open>^\s*proxy_pass\s+http://127\.0\.0\.1:\d+;\<close> somewhere.\<close>

definition local_proxy_at :: "string \<Rightarrow> bool" where
  "local_proxy_at s =
     (let r1 = dropWhile is_space s; r2 = drop 10 r1; r3 = dropWhile is_space r2;
          r4 = drop 17 r3; r5 = dropWhile is_digit r4
      in has_prefix r1 ''proxy_pass'' \<and> r3 \<noteq> r2 \<and> has_prefix r3 ''http://127.0.0.1:'' \<and>
         r5 \<noteq> r4 \<and> has_prefix r5 '';'')"

fun has_local_proxy :: "bool \<Rightarrow> string \<Rightarrow> bool" where
  "has_local_proxy ls [] = False"
| "has_local_proxy ls (c # s) = (ls \<and> local_proxy_at (c # s) \<or> has_local_proxy (c = CHR 0x0A) s)"

text \<open>The fields of \<open>nginxWebsite\<close> the agent acts on. What is only shown (value, size, time, the wording of the
  reason) is left out. The mark of the oldest generated files is a line of Chinese text, given as \<open>legacy\<close>.\<close>

record website =
  ws_domain :: string
  ws_type :: string
  ws_path :: string
  ws_managed :: bool
  ws_legacy :: bool
  ws_protected :: bool

definition file_stem :: "string \<Rightarrow> string" where
  "file_stem path =
     (let base = go_Base path; tail = takeWhile (\<lambda>c. c \<noteq> CHR 0x2E) (rev base)
      in if CHR 0x2E \<in> set base then rev (drop (Suc (length tail)) (rev base)) else base)"

definition website_domain :: "string \<Rightarrow> string \<Rightarrow> string" where
  "website_domain path content =
     (case find_keyword True ''server_name'' content of
        Some g \<Rightarrow>
          (case go_fields g of
             f # _ \<Rightarrow> if f \<noteq> ''_'' then to_lower f else to_lower (file_stem path)
           | [] \<Rightarrow> to_lower (file_stem path))
      | None \<Rightarrow> to_lower (file_stem path))"

definition website_type :: "string \<Rightarrow> string" where
  "website_type content =
     (let ls = split_on (CHR 0x0A) content
      in case find (\<lambda>l. l = ''# mmwx-site-type: static'' \<or> l = ''# mmwx-site-type: proxy'') ls of
           Some l \<Rightarrow> drop 18 l
         | None \<Rightarrow>
             (if find_keyword True ''proxy_pass'' content \<noteq> None then ''proxy''
              else if find_keyword True ''root'' content \<noteq> None then ''static''
              else ''unknown''))"

definition website_marked :: "string \<Rightarrow> string \<Rightarrow> bool" where
  "website_marked legacy content \<longleftrightarrow>
     str_contains content ''# MMWX-WEBSITE v1'' \<or> str_contains content ''# MMWX-WSS v1'' \<or> str_contains content legacy"

definition website_protected :: "string \<Rightarrow> bool" where
  "website_protected content \<longleftrightarrow>
     str_contains content (''if ($http_upgrade != '' @ [CHR 0x22] @ ''websocket'' @ [CHR 0x22] @ '')'') \<and>
       has_local_proxy True content \<or>
     1 < count_locations True content \<or> str_contains content ''grpc_pass '' \<or> str_contains content ''# MMWX-SYSTEM''"

definition classifyNginxWebsite :: "string \<Rightarrow> string \<Rightarrow> string \<Rightarrow> website" where
  "classifyNginxWebsite legacy path content =
     (let typ = website_type content; managed = website_marked legacy content; prot = website_protected content;
          old = (\<not> managed \<and> \<not> prot \<and> typ \<noteq> ''unknown'' \<and> count_locations True content = 1 \<and>
                 str_contains content ''127.0.0.1:8001'')
      in \<lparr>ws_domain = website_domain path content, ws_type = typ, ws_path = path,
          ws_managed = managed \<or> old, ws_legacy = old, ws_protected = prot\<rparr>)"

section \<open>The insertion stays in the block\<close>

text \<open>The scanner's state after a text.\<close>

fun lex_run :: "lex \<Rightarrow> int \<Rightarrow> string \<Rightarrow> lex \<times> int" where
  "lex_run st d [] = (st, d)"
| "lex_run st d (c # s) = lex_run (lex_next st c) (depth_next st c d) s"

lemma block_end_split:
  "block_end st d i s = Some e \<Longrightarrow>
   \<exists>pre post. s = pre @ CHR 0x7D # post \<and> e = i + length pre \<and> block_end st d i pre = None \<and> lex_run st d pre = (Code, 1)"
proof (induction s arbitrary: st d i)
  case Nil
  then show ?case by simp
next
  case (Cons c s)
  show ?case
  proof (cases "st = Code \<and> c = CHR 0x7D \<and> d - 1 = 0")
    case True
    then have "e = i" using Cons.prems by simp
    then have "c # s = [] @ CHR 0x7D # s \<and> e = i + length [] \<and> block_end st d i [] = None \<and> lex_run st d [] = (Code, 1)"
      using True by simp
    then show ?thesis by blast
  next
    case False
    then have "block_end (lex_next st c) (depth_next st c d) (Suc i) s = Some e"
      using Cons.prems by (simp only: block_end.simps if_False)
    from Cons.IH [OF this] obtain pre post where
      "s = pre @ CHR 0x7D # post" "e = Suc i + length pre"
      "block_end (lex_next st c) (depth_next st c d) (Suc i) pre = None"
      "lex_run (lex_next st c) (depth_next st c d) pre = (Code, 1)" by blast
    then have "c # s = (c # pre) @ CHR 0x7D # post \<and> e = i + length (c # pre) \<and> block_end st d i (c # pre) = None \<and>
        lex_run st d (c # pre) = (Code, 1)"
      using False by (simp only: block_end.simps if_False lex_run.simps append_Cons list.size(4)) simp
    then show ?thesis by blast
  qed
qed

lemma block_end_append:
  "block_end st d i a = None \<Longrightarrow> lex_run st d a = (st', d') \<Longrightarrow>
   block_end st d i (a @ b) = block_end st' d' (i + length a) b"
proof (induction a arbitrary: st d i)
  case Nil
  then show ?case by simp
next
  case (Cons c a)
  then have n: "\<not> (st = Code \<and> c = CHR 0x7D \<and> d - 1 = 0)"
    and "block_end (lex_next st c) (depth_next st c d) (Suc i) a = None"
    by (auto split: if_splits)
  with Cons show ?case by (simp only: append_Cons block_end.simps if_False lex_run.simps list.size(4)) simp
qed

lemma lex_run_append: "lex_run st d (a @ b) = (case lex_run st d a of (st', d') \<Rightarrow> lex_run st' d' b)"
  by (induction a arbitrary: st d) auto

lemma dropWhile_until: "\<exists>c\<in>set a. \<not> f c \<Longrightarrow> dropWhile f (a @ b) = dropWhile f a @ b"
  by (induction a) auto

lemma prefix_until:
  "x \<in> set a \<Longrightarrow> x \<notin> set p \<Longrightarrow>
   has_prefix (a @ b) p = has_prefix a p \<and>
   (has_prefix a p \<longrightarrow> length p \<le> length a \<and> x \<in> set (drop (length p) a))"
proof (induction p arbitrary: a)
  case Nil
  then show ?case by simp
next
  case (Cons q p)
  show ?case
  proof (cases a)
    case Nil
    then show ?thesis using Cons.prems by simp
  next
    case (Cons y ys)
    show ?thesis
    proof (cases "y = q")
      case True
      then have "x \<in> set ys" using Cons Cons.prems by auto
      then show ?thesis using Cons.IH [of ys] Cons.prems Cons True by simp
    next
      case False
      then show ?thesis using Cons by simp
    qed
  qed
qed

lemma match_http_local:
  assumes "CHR 0x7B \<in> set a"
  shows "match_http (a @ b) = match_http (a @ b')"
proof -
  have nb: "\<exists>c\<in>set a. \<not> is_blank c" using assms by (intro bexI [of _ "CHR 0x7B"]) (simp_all add: is_blank_def)
  let ?a1 = "dropWhile is_blank a"
  have in1: "CHR 0x7B \<in> set ?a1"
    using assms
  proof (induction a)
    case (Cons c a)
    then show ?case by (cases "is_blank c") (auto simp: is_blank_def)
  qed simp
  have np: "CHR 0x7B \<notin> set ''http''" by simp
  note p = prefix_until [OF in1 np]
  have h: "has_prefix (?a1 @ c) ''http'' = has_prefix ?a1 ''http''" for c
    by (rule conjunct1 [OF p])
  let ?a2 = "drop (length ''http'') ?a1"
  have d: "dropWhile is_blank (a @ c) = ?a1 @ c" for c by (rule dropWhile_until [OF nb])
  show ?thesis
  proof (cases "has_prefix ?a1 ''http''")
    case False
    show ?thesis unfolding match_http_def Let_def d h using False by simp
  next
    case True
    note q = mp [OF conjunct2 [OF p] True]
    have in2: "CHR 0x7B \<in> set ?a2" by (rule conjunct2 [OF q])
    have le: "length ''http'' \<le> length ?a1" by (rule conjunct1 [OF q])
    have "\<not> is_blank (CHR 0x7B)" by (simp add: is_blank_def)
    then have nb2: "\<exists>c\<in>set ?a2. \<not> is_blank c" using in2 by blast
    then have ne: "dropWhile is_blank ?a2 \<noteq> []" by (simp only: dropWhile_eq_Nil_conv) blast
    have d2: "dropWhile is_blank (drop 4 (?a1 @ c)) = dropWhile is_blank ?a2 @ c" for c
    proof -
      have "drop 4 (?a1 @ c) = ?a2 @ c" using le by (simp add: eval_nat_numeral)
      then show ?thesis by (simp only: dropWhile_until [OF nb2])
    qed
    show ?thesis unfolding match_http_def Let_def d h d2 using ne True by (simp del: has_prefix_Cons)
  qed
qed

lemma match_http_place: "match_http s = Some k \<Longrightarrow> k < length s \<and> s ! k = CHR 0x7B"
proof -
  assume a: "match_http s = Some k"
  let ?r1 = "dropWhile is_blank s"
  let ?r2 = "dropWhile is_blank (drop 4 ?r1)"
  have r: "?r2 \<noteq> []" "hd ?r2 = CHR 0x7B" "k = length s - length ?r2"
    using a by (auto simp: match_http_def Let_def simp del: has_prefix_Cons split: if_splits)
  define pre where "pre = takeWhile is_blank s @ take 4 ?r1 @ takeWhile is_blank (drop 4 ?r1)"
  have s: "s = pre @ ?r2" unfolding pre_def append.assoc takeWhile_dropWhile_id append_take_drop_id by (rule refl)
  have l: "length s = length pre + length ?r2" by (subst s) (rule length_append)
  then have k: "k = length pre" using r(3) by simp
  have "(pre @ ?r2) ! k = CHR 0x7B" using r k by (simp add: nth_append hd_conv_nth)
  then have "s ! k = CHR 0x7B" by (simp only: s [symmetric])
  moreover have "k < length s" using l k r(1) by (cases ?r2) auto
  ultimately show ?thesis by blast
qed

lemma find_http_place: "find_http ls i s = Some k \<Longrightarrow> i \<le> k \<and> k < i + length s \<and> s ! (k - i) = CHR 0x7B"
proof (induction ls i s rule: find_http.induct)
  case (2 ls i c s)
  show ?case
  proof (cases "if ls then match_http (c # s) else None")
    case None
    then have "find_http (c = CHR 0x0A) (Suc i) s = Some k" using "2.prems" by simp
    from "2.IH" [OF None this] show ?thesis by (cases "k - i") (auto simp: diff_Suc)
  next
    case (Some j)
    then have "k = i + j" and "match_http (c # s) = Some j" using "2.prems" by (auto split: if_splits)
    then show ?thesis using match_http_place by fastforce
  qed
qed simp

lemma find_http_local:
  "find_http ls i (a @ b) = Some k \<Longrightarrow> k < i + length a \<Longrightarrow> find_http ls i (a @ b') = Some k"
proof (induction a arbitrary: ls i)
  case Nil
  then show ?case using find_http_place by fastforce
next
  case (Cons c a)
  have "((c # a) @ b) ! (k - i) = CHR 0x7B" "i \<le> k" using find_http_place [OF Cons.prems(1)] by auto
  moreover then have "k - i < length (c # a)" using Cons.prems(2) by simp
  ultimately have "(c # a) ! (k - i) = CHR 0x7B" "k - i < length (c # a)" by (simp_all only: nth_append if_True)
  then have m: "CHR 0x7B \<in> set (c # a)" by (metis nth_mem)
  have e: "match_http (c # a @ b) = match_http (c # a @ b')"
    using match_http_local [OF m] by simp
  show ?case
  proof (cases "if ls then match_http (c # a @ b) else None")
    case (Some j)
    then have "ls" "match_http (c # a @ b') = Some j" using e by (auto split: if_splits)
    then show ?thesis using Cons.prems(1) Some by simp
  next
    case None
    then have f: "find_http (c = CHR 0x0A) (Suc i) (a @ b) = Some k" using Cons.prems(1) by simp
    have "find_http (c = CHR 0x0A) (Suc i) (a @ b') = Some k"
      using Cons.IH [OF f] Cons.prems(2) by simp
    then show ?thesis using None e by (auto split: if_splits option.splits)
  qed
qed

lemma has_suffix_char: "has_suffix s [c] \<longleftrightarrow> s \<noteq> [] \<and> last s = c"
  by (cases s rule: rev_cases) (auto simp: has_suffix_def)

lemma include_transparent:
  "lex_run Code d managed_include = (Code, d)" "d \<noteq> 0 \<Longrightarrow> block_end Code d i managed_include = None"
  by (simp_all add: managed_include_def)

lemma newline_transparent: "lex_run Code d (CHR 0x0A # s) = lex_run Code d s"
  "block_end Code d i (CHR 0x0A # s) = block_end Code d (Suc i) s"
  by simp_all

text \<open>the managed include goes into the http block, at its top level and outside comments and quotes, right before the
  brace that closes it. The rest of the text is kept as it is, the block is found again and ends right after the
  new line; a text without a complete http block is refused.\<close>

theorem managed_include_inside_http:
  "case addNginxManagedInclude config of
     None \<Rightarrow> nginxHTTPBlockEnd config = None
   | Some updated \<Rightarrow>
       (\<exists>opn before after.
          config = before @ CHR 0x7D # after \<and> find_http True 0 config = Some opn \<and> opn < length before \<and>
          lex_run Code 0 (drop opn before) = (Code, 1) \<and>
          (let gap = (if last before = CHR 0x0A then [] else [CHR 0x0A])
           in updated = before @ gap @ managed_include @ CHR 0x7D # after \<and>
              nginxHTTPBlockEnd updated = Some (length before + length gap + length managed_include)))"
proof (cases "nginxHTTPBlockEnd config")
  case None
  then show ?thesis by (simp add: addNginxManagedInclude_def)
next
  case (Some e)
  then obtain opn where o: "find_http True 0 config = Some opn" and b: "block_end Code 0 opn (drop opn config) = Some e"
    by (auto simp: nginxHTTPBlockEnd_def split: option.splits)
  obtain pre after where d: "drop opn config = pre @ CHR 0x7D # after" and e: "e = opn + length pre"
    and pn: "block_end Code 0 opn pre = None" and run: "lex_run Code 0 pre = (Code, 1)"
    using block_end_split [OF b] by blast
  have pre: "pre \<noteq> []" using run by auto
  have ol: "opn < length config" using find_http_place [OF o] by simp
  define before where "before = take opn config @ pre"
  have lb: "length before = e" and tb: "take opn before = take opn config" and db: "drop opn before = pre"
    using ol e by (simp_all add: before_def)
  have c: "config = before @ CHR 0x7D # after"
    unfolding before_def append.assoc d [symmetric] by simp
  have ob: "opn < length before" using lb e pre by simp
  define gap where "gap = (if last before = CHR 0x0A then [] else [CHR 0x0A])"
  define updated where "updated = before @ gap @ managed_include @ CHR 0x7D # after"
  have bn: "before \<noteq> []" using ob by auto
  have te: "take e config = before" "drop e config = CHR 0x7D # after"
    using c lb by (metis append_eq_conv_conj)+
  have up: "addNginxManagedInclude config = Some updated"
    using bn by (simp add: addNginxManagedInclude_def Some te has_suffix_char updated_def gap_def)
  have "find_http True 0 (before @ (CHR 0x7D # after)) = Some opn" using o c by simp
  then have o2: "find_http True 0 updated = Some opn"
    unfolding updated_def by (rule find_http_local) (use ob in simp)
  have du: "drop opn updated = pre @ gap @ managed_include @ CHR 0x7D # after"
    using ob db by (simp add: updated_def)
  have g: "block_end Code 1 i (gap @ rest) = block_end Code 1 (i + length gap) rest" for i rest
    by (simp add: gap_def)
  have inc: "block_end Code 1 i (managed_include @ rest) = block_end Code 1 (i + length managed_include) rest" for i rest
    using block_end_append [OF include_transparent(2) include_transparent(1), of 1 i rest] by simp
  have "block_end Code 0 opn (drop opn updated) = Some (length before + length gap + length managed_include)"
    unfolding du block_end_append [OF pn run] g inc using e lb by simp
  then have "nginxHTTPBlockEnd updated = Some (length before + length gap + length managed_include)"
    by (simp add: nginxHTTPBlockEnd_def o2)
  then have main: "config = before @ CHR 0x7D # after \<and> find_http True 0 config = Some opn \<and> opn < length before \<and>
      lex_run Code 0 (drop opn before) = (Code, 1) \<and>
      (let gap = (if last before = CHR 0x0A then [] else [CHR 0x0A])
       in updated = before @ gap @ managed_include @ CHR 0x7D # after \<and>
          nginxHTTPBlockEnd updated = Some (length before + length gap + length managed_include))"
    unfolding gap_def [symmetric] Let_def using c o ob db run updated_def by simp
  show ?thesis unfolding up option.case by (intro exI) (rule main)
qed

end
