(* ===== verification/Nginx_Control.thy ===== *)
theory Nginx_Control
  imports Nginx_Text
begin

text \<open>
  How the agent inspects and steers nginx (\<open>internal/handler/nginx_control.go\<close>, \<open>nginx_websites.go\<close>, and the nginx
  handlers of \<open>management_handler.go\<close>). What the machine is like is a record \<open>nginx_host\<close>: the binary found, the
  output of \<open>nginx -V\<close>, the commands present, the state of the service managers. A command that is run to act or to
  ask succeeds or fails: the answers still to come are a list beside the world, and a command beyond its end
  succeeds. Files have no links and no size limit; times are given as the text they are formatted to.
\<close>

section \<open>The machine\<close>

record nginx_host =
  nh_bin :: string
  nh_flags :: "string option"
  nh_has :: "string \<Rightarrow> bool"
  nh_init :: bool
  nh_systemd :: bool
  nh_unit :: "string option"
  nh_sup :: "string option"
  nh_dir :: "string \<Rightarrow> bool"

type_synonym nworld = "world \<times> bool list"

definition run_cmd :: "nworld \<Rightarrow> bool \<times> nworld" where
  "run_cmd s = (case s of (w, []) \<Rightarrow> (True, (w, [])) | (w, b # bs) \<Rightarrow> (b, (w, bs)))"

definition NginxPrimaryPrefixDir :: string where
  "NginxPrimaryPrefixDir = ''/usr/local/nginx''"

definition DefaultNginxConfigPaths :: "string list" where
  "DefaultNginxConfigPaths = [''/etc/nginx/nginx.conf'', ''/usr/local/nginx/conf/nginx.conf'']"

definition NginxConfigDirPaths :: "string list" where
  "NginxConfigDirPaths =
     [''/etc/nginx'', ''/etc/nginx/sites-available'', ''/etc/nginx/sites-enabled'', ''/etc/nginx/conf.d'',
      ''/usr/local/nginx/conf'']"

definition NginxSSLServerDirPaths :: "string list" where
  "NginxSSLServerDirPaths =
     [''/usr/local/nginx/servers'', ''/usr/local/nginx/conf/servers'', ''/etc/nginx/servers'', ''/etc/nginx/conf.d'']"

section \<open>Managers and commands\<close>

definition systemdNginxUnitExists :: "nginx_host \<Rightarrow> bool" where
  "systemdNginxUnitExists h =
     (case nh_unit h of None \<Rightarrow> False | Some out \<Rightarrow> trim_space out \<noteq> [] \<and> trim_space out \<noteq> ''not-found'')"

definition detectNginxManager :: "nginx_host \<Rightarrow> string" where
  "detectNginxManager h =
     (if nh_has h ''systemctl'' \<and> nh_systemd h \<and> systemdNginxUnitExists h then ''systemd''
      else if nh_has h ''rc-service'' \<and> nh_init h then ''openrc''
      else if nh_has h ''service'' \<and> nh_init h then ''sysv''
      else if nh_init h then ''initd''
      else if nh_has h ''supervisorctl'' then
        (case nh_sup h of
           None \<Rightarrow> ''command''
         | Some out \<Rightarrow> if str_contains (to_lower out) ''no such process'' then ''command'' else ''supervisor'')
      else ''command'')"

definition nginxIsActive :: "nginx_host \<Rightarrow> nworld \<Rightarrow> bool \<times> nworld" where
  "nginxIsActive h s =
     (case (if nh_has h ''pgrep'' then run_cmd s else (False, s)) of
        (True, s1) \<Rightarrow> (True, s1)
      | (False, s1) \<Rightarrow>
          (let m = detectNginxManager h
           in if m \<in> {''systemd'', ''openrc'', ''sysv'', ''initd''} then run_cmd s1
              else if m = ''supervisor'' then
                (case nh_sup h of None \<Rightarrow> (False, s1) | Some out \<Rightarrow> (str_contains out ''RUNNING'', s1))
              else (False, s1)))"

definition runNginxServiceAction :: "nginx_host \<Rightarrow> nworld \<Rightarrow> bool \<times> nworld" where
  "runNginxServiceAction h s =
     (if detectNginxManager h \<in> {''systemd'', ''openrc'', ''sysv'', ''initd'', ''supervisor''} then run_cmd s else (False, s))"

definition nginxTest :: "nginx_host \<Rightarrow> nworld \<Rightarrow> bool \<times> nworld" where
  "nginxTest h s = (if nh_bin h = [] then (False, s) else run_cmd s)"

definition nginxStart :: "nginx_host \<Rightarrow> nworld \<Rightarrow> bool \<times> nworld" where
  "nginxStart h s =
     (case nginxIsActive h s of
        (True, s1) \<Rightarrow> (True, s1)
      | (False, s1) \<Rightarrow>
          (case nginxTest h s1 of
             (False, s2) \<Rightarrow> (False, s2)
           | (True, s2) \<Rightarrow>
               (case runNginxServiceAction h s2 of
                  (True, s3) \<Rightarrow> (True, s3)
                | (False, s3) \<Rightarrow> if nh_bin h = [] then (False, s3) else run_cmd s3)))"

definition nginxReload :: "nginx_host \<Rightarrow> nworld \<Rightarrow> bool \<times> nworld" where
  "nginxReload h s =
     (case nginxTest h s of
        (False, s1) \<Rightarrow> (False, s1)
      | (True, s1) \<Rightarrow>
          (case (if nh_bin h \<noteq> [] then nginxIsActive h s1 else (False, s1)) of
             (True, s2) \<Rightarrow>
               (case run_cmd s2 of
                  (True, s3) \<Rightarrow> (True, s3)
                | (False, s3) \<Rightarrow> runNginxServiceAction h s3)
           | (False, s2) \<Rightarrow> nginxStart h s2))"

definition nginxStop :: "nginx_host \<Rightarrow> nworld \<Rightarrow> bool \<times> nworld" where
  "nginxStop h s =
     (case nginxIsActive h s of
        (False, s1) \<Rightarrow> (True, s1)
      | (True, s1) \<Rightarrow>
          (case (if nh_bin h \<noteq> [] then run_cmd s1 else (False, s1)) of
             (True, s2) \<Rightarrow> (True, s2)
           | (False, s2) \<Rightarrow> runNginxServiceAction h s2))"

definition reloadNginx :: "nginx_host \<Rightarrow> nworld \<Rightarrow> bool \<times> nworld" where
  "reloadNginx h s = run_cmd s"

section \<open>The runtime\<close>

record nginx_runtime =
  nr_installed :: bool
  nr_running :: bool
  nr_version :: string
  nr_binary :: string
  nr_config :: string
  nr_configdir :: string
  nr_pid :: string
  nr_manager :: string
  nr_can :: bool
  nr_managed :: string

definition blank_runtime :: "string \<Rightarrow> nginx_runtime" where
  "blank_runtime bin =
     \<lparr>nr_installed = False, nr_running = False, nr_version = [], nr_binary = bin, nr_config = [], nr_configdir = [],
      nr_pid = [], nr_manager = ''none'', nr_can = False, nr_managed = []\<rparr>"

definition finalizeNginxRuntime :: "nginx_runtime \<Rightarrow> bool \<Rightarrow> nginx_runtime" where
  "finalizeNginxRuntime rt systemdHost =
     (if nr_installed rt \<and> systemdHost \<and> nr_manager rt = ''command'' \<and> \<not> nr_running rt
      then rt\<lparr>nr_installed := False, nr_can := False, nr_managed := []\<rparr> else rt)"

definition runtime_config :: "string \<Rightarrow> world \<Rightarrow> string" where
  "runtime_config flags w =
     (let p = word_after ''--conf-path='' flags
      in if p \<noteq> [] then p
         else (case find (\<lambda>c. file_at w c \<noteq> None) DefaultNginxConfigPaths of None \<Rightarrow> [] | Some c \<Rightarrow> c))"

definition inspectNginxRuntime :: "nginx_host \<Rightarrow> nworld \<Rightarrow> nginx_runtime \<times> nworld" where
  "inspectNginxRuntime h s =
     (if nh_bin h = [] then (blank_runtime [], s)
      else
        (case nh_flags h of
           None \<Rightarrow> (blank_runtime (nh_bin h), s)
         | Some flags \<Rightarrow>
             (let (w, cs) = s;
                  rt1 = (blank_runtime (nh_bin h))\<lparr>nr_installed := True, nr_manager := detectNginxManager h,
                     nr_version := parseNginxVersionOutput flags, nr_config := runtime_config flags w\<rparr>;
                  (rt2, w1) =
                    (if nr_config rt1 = [] then (rt1, w)
                     else
                       (case read_file (nr_config rt1) w of
                          (Inl _, w1) \<Rightarrow> (rt1\<lparr>nr_configdir := go_Dir (nr_config rt1)\<rparr>, w1)
                        | (Inr text, w1) \<Rightarrow>
                            (let d = nginxIncludedServerDir (nr_config rt1) text
                             in (rt1\<lparr>nr_configdir := go_Dir (nr_config rt1), nr_managed := d, nr_can := (d \<noteq> [])\<rparr>, w1))));
                  (act, s2) = nginxIsActive h (w1, cs)
              in (finalizeNginxRuntime (rt2\<lparr>nr_pid := word_after ''--pid-path='' flags, nr_running := act\<rparr>) (nh_systemd h), s2))))"

section \<open>Adding the managed include\<close>

datatype nginx_err =
  NotInstalled | ExternalInstall | NoConfigPath | CannotRead io_err | NoHttpBlock | CannotMkdir io_err
| CannotWrite io_err | TestFailed | ReloadFailed

definition ensureNginxManagedConfig :: "nginx_host \<Rightarrow> nworld \<Rightarrow> nginx_err option \<times> nworld" where
  "ensureNginxManagedConfig h s =
     (case inspectNginxRuntime h s of
        (rt, (w, cs)) \<Rightarrow>
          (if \<not> nr_installed rt then (Some NotInstalled, (w, cs))
           else if nr_can rt then (None, (w, cs))
           else if Clean (nr_binary rt) \<noteq> ''/usr/local/nginx/sbin/nginx'' then (Some ExternalInstall, (w, cs))
           else if nr_config rt = [] then (Some NoConfigPath, (w, cs))
           else
             (case read_file (nr_config rt) w of
                (Inl e, w1) \<Rightarrow> (Some (CannotRead e), (w1, cs))
              | (Inr original, w1) \<Rightarrow>
                  (case addNginxManagedInclude original of
                     None \<Rightarrow> (Some NoHttpBlock, (w1, cs))
                   | Some updated \<Rightarrow>
                       (case sys_call w1 of
                          (Some e, w2) \<Rightarrow> (Some (CannotMkdir e), (w2, cs))
                        | (None, w2) \<Rightarrow>
                            (case write_file (nr_config rt) updated w2 of
                               (Some e, w3) \<Rightarrow> (Some (CannotWrite e), (w3, cs))
                             | (None, w3) \<Rightarrow>
                                 (case nginxTest h (w3, cs) of
                                    (False, (w4, cs4)) \<Rightarrow>
                                      (Some TestFailed, (snd (write_file (nr_config rt) original w4), cs4))
                                  | (True, (w4, cs4)) \<Rightarrow>
                                      if \<not> nr_running rt then (None, (w4, cs4))
                                      else
                                        (case nginxReload h (w4, cs4) of
                                           (True, s5) \<Rightarrow> (None, s5)
                                         | (False, (w5, cs5)) \<Rightarrow>
                                             (Some ReloadFailed,
                                              snd (nginxReload h (snd (write_file (nr_config rt) original w5), cs5)))))))))))"

section \<open>Websites\<close>

definition nginxWebsiteDirs :: "nginx_runtime \<Rightarrow> string list" where
  "nginxWebsiteDirs rt =
     dedup_by id {} (List.map Clean
       ((if nr_managed rt \<noteq> [] then [nr_managed rt]
         else if nr_configdir rt \<noteq> [] then [go_Join (nr_configdir rt) ''servers''] else [])
        @ NginxSSLServerDirPaths))"

text \<open>The files a directory holds, read; what cannot be read is passed over. \<open>os.ReadDir\<close> sorts by name.\<close>

fun scan_sites :: "string \<Rightarrow> string list \<Rightarrow> world \<Rightarrow> website list \<times> world" where
  "scan_sites legacy [] w = ([], w)"
| "scan_sites legacy (p # ps) w =
     (case read_file p w of
        (Inl _, w1) \<Rightarrow> scan_sites legacy ps w1
      | (Inr content, w1) \<Rightarrow>
          (case scan_sites legacy ps w1 of
             (sites, w2) \<Rightarrow> (classifyNginxWebsite legacy p content # sites, w2)))"

definition site_files :: "nginx_runtime \<Rightarrow> world \<Rightarrow> string list" where
  "site_files rt w =
     concat (List.map (\<lambda>d. List.map (path_join d)
       (filter (\<lambda>n. has_suffix (to_lower n) ''.conf'') (sort (dir_files w d)))) (nginxWebsiteDirs rt))"

definition scanNginxWebsites :: "nginx_host \<Rightarrow> string \<Rightarrow> nworld \<Rightarrow> website list \<times> nworld" where
  "scanNginxWebsites h legacy s =
     (case inspectNginxRuntime h s of
        (rt, (w, cs)) \<Rightarrow>
          (case scan_sites legacy (site_files rt w) w of
             (sites, w1) \<Rightarrow> (sort_key ws_domain (dedup_by ws_domain {} sites), (w1, cs))))"

definition delete_backup :: "string \<Rightarrow> string" where
  "delete_backup path = path @ ''.mmwx-delete-backup''"

text \<open>\<open>None\<close> stands for a body that is not JSON.\<close>

definition deleteNginxWebsite :: "nginx_host \<Rightarrow> string \<Rightarrow> string option \<Rightarrow> nworld \<Rightarrow> reply \<times> nworld" where
  "deleteNginxWebsite h legacy req s =
     (case req of
        None \<Rightarrow> (writeError 400 ''domain required'', s)
      | Some raw \<Rightarrow>
          if trim_space raw = [] then (writeError 400 ''domain required'', s)
          else
            (let domain = to_lower (trim_space raw)
             in (case scanNginxWebsites h legacy s of
                   (sites, (w, cs)) \<Rightarrow>
                     (case find (\<lambda>x. ws_domain x = domain) sites of
                        None \<Rightarrow> (writeError 404 ''website not found'', (w, cs))
                      | Some site \<Rightarrow>
                          if \<not> ws_managed site \<or> ws_protected site
                          then (writeError 409 ''website config is external or protected'', (w, cs))
                          else
                            (let path = ws_path site; backup = delete_backup path; w1 = snd (remove_file backup w)
                             in (case rename_file path backup w1 of
                                   (Some _, w2) \<Rightarrow> (writeError 500 ''rename'', (w2, cs))
                                 | (None, w2) \<Rightarrow>
                                     (case nginxReload h (w2, cs) of
                                        (False, (w3, cs3)) \<Rightarrow>
                                          (writeError 500 ''nginx reload'',
                                           snd (nginxReload h (snd (rename_file backup path w3), cs3)))
                                      | (True, (w3, cs3)) \<Rightarrow>
                                          (case remove_file backup w3 of
                                             (Some _, w4) \<Rightarrow>
                                               (writeError 500 ''remove'',
                                                snd (nginxReload h (snd (rename_file backup path w4), cs3)))
                                           | (None, w4) \<Rightarrow>
                                               (writeOk [(''message'', JStr ''website removed''), (''domain'', JStr domain)],
                                                (w4, cs3))))))))))"

section \<open>Stream ports\<close>

definition stream_dir :: string where
  "stream_dir = ''/usr/local/nginx/stream_servers''"

fun clear_streams :: "string \<Rightarrow> string list \<Rightarrow> world \<Rightarrow> string list \<times> world" where
  "clear_streams pat [] w = ([], w)"
| "clear_streams pat (n # ns) w =
     (case read_file (path_join stream_dir n) w of
        (Inl _, w1) \<Rightarrow> clear_streams pat ns w1
      | (Inr content, w1) \<Rightarrow>
          if str_contains content pat then
            (case remove_file (path_join stream_dir n) w1 of
               (None, w2) \<Rightarrow> (case clear_streams pat ns w2 of (r, w3) \<Rightarrow> (n # r, w3))
             | (Some _, w2) \<Rightarrow> clear_streams pat ns w2)
          else clear_streams pat ns w1)"

text \<open>\<open>strings.Replace\<close> of the first occurrence.\<close>

fun replace_first :: "string \<Rightarrow> string \<Rightarrow> string \<Rightarrow> string" where
  "replace_first old new [] = (if old = [] then new else [])"
| "replace_first old new (c # s) =
     (if has_prefix (c # s) old then new @ drop (length old) (c # s) else c # replace_first old new s)"

definition nl :: string where "nl = [CHR 0x0A]"

definition stream_block :: string where
  "stream_block = nl @ ''stream {'' @ nl @ ''    include stream_servers/*.conf;'' @ nl @ ''}'' @ nl"

definition drop_stream_block :: "world \<Rightarrow> world" where
  "drop_stream_block w =
     (let conf = ''/usr/local/nginx/nginx.conf''
      in (case read_file conf w of
            (Inl _, w1) \<Rightarrow> w1
          | (Inr text, w1) \<Rightarrow>
              (let cleaned = replace_first stream_block nl text
               in if cleaned \<noteq> text then snd (write_file conf cleaned w1) else w1)))"

definition HandleClearStreamPort :: "nginx_host \<Rightarrow> bool \<Rightarrow> bool \<Rightarrow> int option \<Rightarrow> nworld \<Rightarrow> reply \<times> nworld" where
  "HandleClearStreamPort h post auth req s =
     (if \<not> post then (writeError 405 ''Method not allowed'', s)
      else if \<not> auth then (writeError 401 ''Unauthorized'', s)
      else
        (case req of
           None \<Rightarrow> (writeError 400 ''valid port required'', s)
         | Some port \<Rightarrow>
             if port \<le> 0 then (writeError 400 ''valid port required'', s)
             else if \<not> nh_dir h stream_dir then
               (writeOk [(''removed'', JNum 0 0),
                  (''message'', JStr ''stream_servers directory not found, nothing to clean'')], s)
             else
               (let (w, cs) = s
                in (case sys_call w of
                      (Some _, w1) \<Rightarrow> (writeError 500 ''failed to read stream_servers'', (w1, cs))
                    | (None, w1) \<Rightarrow>
                        (case clear_streams (''listen '' @ itoa port) (sort (dir_files w1 stream_dir)) w1 of
                           (removed, w2) \<Rightarrow>
                             (let done = writeOk [(''removed'', JNum (int (length removed)) 0),
                                    (''files'', JArr (List.map JStr removed))]
                              in if removed = [] then (done, (w2, cs))
                                 else
                                   (case reloadNginx h (drop_stream_block w2, cs) of
                                      (False, s3) \<Rightarrow> (writeError 500 ''nginx reload failed'', s3)
                                    | (True, s3) \<Rightarrow> (done, s3))))))))"

section \<open>Setting up SSL\<close>

text \<open>\<open>--conf-path=(\S+)/nginx\.conf\<close>, with the longest group.\<close>

definition conf_dir_of :: "string \<Rightarrow> string" where
  "conf_dir_of word =
     (case find (\<lambda>n. has_prefix (drop n word) ''/nginx.conf'') (rev [1..<Suc (length word)]) of
        None \<Rightarrow> [] | Some n \<Rightarrow> take n word)"

fun conf_dir_in :: "string \<Rightarrow> string" where
  "conf_dir_in [] = []"
| "conf_dir_in (c # s) =
     (let d = conf_dir_of (takeWhile not_space (drop 12 (c # s)))
      in if has_prefix (c # s) ''--conf-path='' \<and> d \<noteq> [] then d else conf_dir_in s)"

definition detectNginxConfDirFromBinary :: "nginx_host \<Rightarrow> string" where
  "detectNginxConfDirFromBinary h =
     (if nh_bin h = [] then [] else (case nh_flags h of None \<Rightarrow> [] | Some flags \<Rightarrow> conf_dir_in flags))"

definition ssl_server_block :: "string \<Rightarrow> string" where
  "ssl_server_block domain =
     join_with nl
       [''server {'', ''    listen 443 ssl default_server;'', ''    listen [::]:443 ssl;'', ''    http2 on;'',
        ''    server_name '' @ domain @ '';'', ''    ssl_certificate  cert/'' @ domain @ ''.pem;'',
        ''    ssl_certificate_key cert/'' @ domain @ ''.key;'', ''    ssl_session_timeout 5m;'',
        ''    ssl_ciphers ECDHE-RSA-AES128-GCM-SHA256:ECDHE:ECDH:AES:HIGH:!NULL:!aNULL:!MD5:!ADH:!RC4;'',
        ''    ssl_protocols TLSv1 TLSv1.1 TLSv1.2;'', [], ''    location / {'', ''        root /usr/local/nginx/html;'',
        ''        index index.html;'', ''    }'', ''}'', []]"

text \<open>The insertion before the last brace of the text.\<close>

definition before_last_brace :: "string \<Rightarrow> string \<Rightarrow> string option" where
  "before_last_brace ins text =
     (let tail = takeWhile (\<lambda>c. c \<noteq> CHR 0x7D) (rev text); k = length text - Suc (length tail)
      in if CHR 0x7D \<in> set text \<and> 0 < k then Some (take k text @ ins @ drop k text) else None)"

definition deployNginxSSLConfig :: "nginx_host \<Rightarrow> string \<Rightarrow> world \<Rightarrow> world" where
  "deployNginxSSLConfig h raw w =
     (let domain = trim_space raw;
          confDir = (if nh_dir h ''/usr/local/nginx/conf'' then ''/usr/local/nginx/conf'' else ''/etc/nginx'')
      in if domain = [] then w
         else
           (let w1 = snd (sys_call w); w2 = snd (sys_call w1); mainConf = path_join confDir ''nginx.conf''
            in (case write_file (path_join confDir ''conf.d/ssl.conf'') (ssl_server_block domain) w2 of
                  (Some _, w3) \<Rightarrow> w3
                | (None, w3) \<Rightarrow>
                    (case read_file mainConf w3 of
                       (Inl _, w4) \<Rightarrow> w4
                     | (Inr content, w4) \<Rightarrow>
                         if str_contains content ''include conf.d/*.conf;'' then w4
                         else
                           (case before_last_brace (''    include conf.d/*.conf;'' @ nl) content of
                              None \<Rightarrow> w4
                            | Some text \<Rightarrow> snd (write_file mainConf text w4))))))"

record ssl_req =
  sr_domain :: string
  sr_nginx :: string
  sr_site :: string

text \<open>The main file with its backup; \<open>Some\<close> is an error.\<close>

definition deploy_main_conf :: "string \<Rightarrow> string \<Rightarrow> string \<Rightarrow> world \<Rightarrow> io_err option \<times> world" where
  "deploy_main_conf confDir stamp text w =
     (let mainConf = path_join confDir ''nginx.conf''
      in if text = [] then (None, w)
         else
           (case read_file mainConf w of
              (Inl _, w1) \<Rightarrow> write_file mainConf text w1
            | (Inr content, w1) \<Rightarrow> write_file mainConf text (snd (write_file (mainConf @ ''.bak.'' @ stamp) content w1))))"

definition HandleNginxSetupSSL ::
  "nginx_host \<Rightarrow> string \<Rightarrow> bool \<Rightarrow> bool \<Rightarrow> ssl_req option \<Rightarrow> nworld \<Rightarrow> reply \<times> nworld" where
  "HandleNginxSetupSSL h stamp post auth req s =
     (if \<not> post then (writeError 405 ''Method not allowed'', s)
      else if \<not> auth then (writeError 401 ''Unauthorized'', s)
      else
        (case req of
           None \<Rightarrow> (writeError 400 ''domain is required'', s)
         | Some q \<Rightarrow>
             if sr_domain q = [] then (writeError 400 ''domain is required'', s)
             else
               (let domain = to_lower (trim_space (sr_domain q))
                in if \<not> ValidHostname domain then (writeError 400 ''invalid domain'', s)
                   else
                     (let found = detectNginxConfDirFromBinary h;
                          confDir = (if found \<noteq> [] then found
                             else if nh_dir h NginxPrimaryPrefixDir then NginxPrimaryPrefixDir else ''/etc/nginx'');
                          (w, cs) = s; w1 = snd (sys_call w); w2 = snd (sys_call w1)
                      in (case deploy_main_conf confDir stamp (sr_nginx q) w2 of
                            (Some _, w3) \<Rightarrow> (writeError 500 ''Failed to write nginx.conf'', (w3, cs))
                          | (None, w3) \<Rightarrow>
                              (case (if sr_site q \<noteq> []
                                     then write_file (path_join confDir (''servers/'' @ domain @ ''.conf'')) (sr_site q) w3
                                     else (None, deployNginxSSLConfig h domain w3)) of
                                 (Some _, w4) \<Rightarrow> (writeError 500 ''Failed to write domain config'', (w4, cs))
                               | (None, w4) \<Rightarrow>
                                   (case reloadNginx h (w4, cs) of
                                      (ok, s5) \<Rightarrow>
                                        if \<not> ok \<and> found = []
                                        then (writeError 500 ''nginx reload failed and confDir was guessed'', s5)
                                        else (writeOk [(''message'', JStr (''SSL config deployed for '' @ domain))], s5))))))))"

section \<open>Commands leave the files alone\<close>

lemma run_cmd_world: "run_cmd (w, cs) = (b, (w', cs')) \<Longrightarrow> w' = w"
  by (auto simp: run_cmd_def split: list.splits)

lemma active_world: "nginxIsActive h (w, cs) = (b, (w', cs')) \<Longrightarrow> w' = w"
  by (auto simp: nginxIsActive_def Let_def dest!: run_cmd_world split: prod.splits bool.splits option.splits if_splits)

lemma action_world: "runNginxServiceAction h (w, cs) = (b, (w', cs')) \<Longrightarrow> w' = w"
  by (auto simp: runNginxServiceAction_def dest!: run_cmd_world split: if_splits)

lemma test_world: "nginxTest h (w, cs) = (b, (w', cs')) \<Longrightarrow> w' = w"
  by (auto simp: nginxTest_def dest!: run_cmd_world split: if_splits)

lemma start_world: "nginxStart h (w, cs) = (b, (w', cs')) \<Longrightarrow> w' = w"
  by (auto simp: nginxStart_def dest!: run_cmd_world active_world action_world test_world
      split: prod.splits bool.splits if_splits)

lemma reload_world: "nginxReload h (w, cs) = (b, (w', cs')) \<Longrightarrow> w' = w"
  by (auto simp: nginxReload_def dest!: run_cmd_world active_world action_world test_world start_world
      split: prod.splits bool.splits if_splits)

lemma plain_reload_world: "reloadNginx h (w, cs) = (b, (w', cs')) \<Longrightarrow> w' = w"
  by (auto simp: reloadNginx_def dest!: run_cmd_world)

lemmas command_worlds = active_world test_world reload_world plain_reload_world

text \<open>On a disk that works nothing is drawn from the tape.\<close>

lemma calm_read: "tape w = [] \<Longrightarrow>
    read_file p w = (case file_at w p of None \<Rightarrow> (Inl ErrNotExist, w) | Some t \<Rightarrow> (Inr t, w))"
  by (simp add: read_file_def next_outcome_def)

lemma calm_calls: "tape w = [] \<Longrightarrow> sys_call w = (None, w)"
  "tape w = [] \<Longrightarrow> write_file p t w = (None, put_file p t w)"
  by (simp_all add: sys_call_def write_file_def next_outcome_def)

text \<open>The runtime's configuration path, and the read that inspects it.\<close>

lemma inspect_config: "inspectNginxRuntime h (w, cs) = (rt, (w', cs')) \<Longrightarrow>
    w' = w \<or> w' = snd (read_file (nr_config rt) w)"
  by (auto simp: inspectNginxRuntime_def finalizeNginxRuntime_def Let_def blank_runtime_def dest!: active_world
      split: prod.splits sum.splits if_splits option.splits)

lemma inspect_files:
  assumes "inspectNginxRuntime h (w, cs) = (rt, (w', cs'))"
  shows "file_at w' q = file_at w q" and "tape w = [] \<Longrightarrow> w' = w" and "running w' = running w"
proof -
  obtain x w1 where r: "read_file (nr_config rt) w = (x, w1)" by (metis prod.collapse)
  have c: "w' = w \<or> w' = w1" using inspect_config [OF assms] r by simp
  show "file_at w' q = file_at w q" "running w' = running w" using c read_file_at [OF r] read_file_frame [OF r] by auto
  show "tape w = [] \<Longrightarrow> w' = w" using c r by (auto simp: calm_read split: option.splits)
qed

section \<open>The managed include\<close>

text \<open>C29: on a disk that works, adding the include is all or nothing: when the agent reports success nginx's configuration
  is the old one with the include added, or could be managed already and is untouched; when it reports an error, whatever
  command of nginx failed, every file is as it was. No other file is touched even when the disk fails.\<close>

theorem managed_config_all_or_nothing:
  assumes "ensureNginxManagedConfig h (w, cs) = (r, (w', cs'))"
    and "inspectNginxRuntime h (w, cs) = (rt, s1)"
  shows "(tape w = [] \<and> r \<noteq> None \<longrightarrow> (\<forall>q. file_at w' q = file_at w q)) \<and>
    (r = None \<longrightarrow>
       nr_can rt \<and> (\<forall>q. file_at w' q = file_at w q) \<or>
       (\<exists>old. file_at w (nr_config rt) = Some old \<and> file_at w' (nr_config rt) = addNginxManagedInclude old)) \<and>
    (\<forall>q. q \<noteq> nr_config rt \<longrightarrow> file_at w' q = file_at w q)"
proof -
  obtain w1 cs1 where s1: "s1 = (w1, cs1)" by (cases s1)
  note i = inspect_files [OF assms(2) [unfolded s1]]
  let ?p = "nr_config rt"
  show ?thesis
  proof (cases "nr_installed rt \<and> \<not> nr_can rt \<and> Clean (nr_binary rt) = ''/usr/local/nginx/sbin/nginx'' \<and> ?p \<noteq> []")
    case False
    then show ?thesis using assms(1) i
      by (auto simp: ensureNginxManagedConfig_def assms(2) s1 split: if_splits)
  next
    case True
    obtain x w2 where rd: "read_file ?p w1 = (x, w2)" by fastforce
    note f2 = read_file_at [OF rd]
    show ?thesis
    proof (cases "case x of Inl _ \<Rightarrow> None | Inr old \<Rightarrow> addNginxManagedInclude old")
      case None
      then show ?thesis using assms(1) True rd f2 i
        by (auto simp: ensureNginxManagedConfig_def assms(2) s1 split: sum.splits)
    next
      case (Some new)
      then obtain old where x: "x = Inr old" "addNginxManagedInclude old = Some new" by (auto split: sum.splits)
      have old: "file_at w1 ?p = Some old" using rd x read_file_Inr by simp
      obtain e w3 where mk: "sys_call w2 = (e, w3)" by fastforce
      obtain e' w4 where wr: "write_file ?p new w3 = (e', w4)" by fastforce
      obtain t cs5 where te: "nginxTest h (w4, cs1) = (t, (w4, cs5))" by (metis prod_cases3 test_world)
      obtain b cs6 where re: "nginxReload h (w4, cs5) = (b, (w4, cs6))" by (metis prod_cases3 reload_world)
      let ?u = "snd (write_file ?p old w4)"
      obtain b' cs7 where re': "nginxReload h (?u, cs6) = (b', (?u, cs7))" by (metis prod_cases3 reload_world)
      have f3: "file_at w3 q = file_at w1 q" for q using f2 sys_call_at [OF mk] by simp
      have f4: "q \<noteq> ?p \<Longrightarrow> file_at w4 q = file_at w1 q" for q using f3 write_file_other [OF wr] by simp
      have undo: "q \<noteq> ?p \<Longrightarrow> file_at ?u q = file_at w4 q" for q
        using write_file_other [of ?p old w4] by (metis prod.collapse)
      have calm: "tape w = [] \<Longrightarrow> e = None \<and> e' = None \<and> tape w4 = [] \<and> w4 = put_file ?p new w1 \<and> w1 = w"
        using i(2) rd mk wr old by (auto simp: calm_read calm_calls)
      have r: "(r, w') =
          (if e \<noteq> None then (Some (CannotMkdir (the e)), w3)
           else if e' \<noteq> None then (Some (CannotWrite (the e')), w4)
           else if \<not> t then (Some TestFailed, ?u)
           else if \<not> nr_running rt \<or> b then (None, w4)
           else (Some ReloadFailed, ?u))"
        using assms(1) True
        by (auto simp: ensureNginxManagedConfig_def assms(2) s1 rd x mk wr te re re' split: option.splits bool.splits if_splits)
      show ?thesis
      proof (intro conjI impI allI)
        fix q
        assume "tape w = [] \<and> r \<noteq> None"
        then show "file_at w' q = file_at w q"
          using calm r old by (auto simp: calm_calls split: if_splits)
      next
        assume "r = None"
        then have "e' = None" "w' = w4" using r by (auto split: if_splits)
        then show "nr_can rt \<and> (\<forall>q. file_at w' q = file_at w q) \<or>
            (\<exists>old. file_at w ?p = Some old \<and> file_at w' ?p = addNginxManagedInclude old)"
          using write_file_ok [of ?p new w3] wr x old i(1) by auto
      next
        fix q assume "q \<noteq> ?p"
        then show "file_at w' q = file_at w q" using r f3 f4 undo i(1) by (auto split: if_splits)
      qed
    qed
  qed
qed

section \<open>Removing a website\<close>

lemma scan_sites_sound:
  "scan_sites legacy ps w = (sites, w1) \<Longrightarrow>
   (\<forall>q. file_at w1 q = file_at w q) \<and> (tape w = [] \<longrightarrow> w1 = w) \<and>
   (\<forall>x\<in>set sites. \<exists>content. file_at w (ws_path x) = Some content \<and> x = classifyNginxWebsite legacy (ws_path x) content)"
proof (induction ps arbitrary: w sites w1)
  case Nil
  then show ?case by simp
next
  case (Cons p ps)
  obtain x w2 where r: "read_file p w = (x, w2)" by fastforce
  have f: "file_at w2 q = file_at w q" for q by (rule read_file_at [OF r])
  have c: "tape w = [] \<longrightarrow> w2 = w" using r by (auto simp: calm_read split: option.splits)
  obtain ss w3 where s: "scan_sites legacy ps w2 = (ss, w3)" by fastforce
  note IH = Cons.IH [OF s]
  show ?case
  proof (cases x)
    case (Inl e)
    then show ?thesis using Cons.prems r s IH f c by auto
  next
    case (Inr content)
    have "file_at w p = Some content" using r Inr read_file_Inr by simp
    then show ?thesis using Cons.prems r s IH f c Inr by (auto simp: classifyNginxWebsite_def Let_def)
  qed
qed

lemma scan_sound:
  assumes "scanNginxWebsites h legacy (w, cs) = (sites, (w1, cs1))"
  shows "file_at w1 q = file_at w q" and "tape w = [] \<Longrightarrow> w1 = w"
    and "x \<in> set sites \<Longrightarrow>
      \<exists>content. file_at w (ws_path x) = Some content \<and> x = classifyNginxWebsite legacy (ws_path x) content"
proof -
  obtain rt w2 cs2 where i: "inspectNginxRuntime h (w, cs) = (rt, (w2, cs2))" by (metis prod_cases3)
  obtain ss w3 where s: "scan_sites legacy (site_files rt w2) w2 = (ss, w3)" by fastforce
  have e: "sites = sort_key ws_domain (dedup_by ws_domain {} ss)" "w1 = w3"
    using assms by (simp_all add: scanNginxWebsites_def i s)
  note S = scan_sites_sound [OF s] and I = inspect_files [OF i]
  show "file_at w1 q = file_at w q" using S I(1) e by simp
  show "tape w = [] \<Longrightarrow> w1 = w" using S I(2) e by metis
  show "x \<in> set sites \<Longrightarrow>
      \<exists>content. file_at w (ws_path x) = Some content \<and> x = classifyNginxWebsite legacy (ws_path x) content"
    using S I(1) e dedup_by_set [of ws_domain "{}" ss] by auto
qed

lemma calm_moves: "tape w = [] \<Longrightarrow>
    rename_file p q w = (case file_at w p of None \<Rightarrow> (Some ErrNotExist, w) | Some t \<Rightarrow> (None, put_file q t (del_file p w)))"
  "tape w = [] \<Longrightarrow>
    remove_file p w = (case file_at w p of None \<Rightarrow> (Some ErrNotExist, w) | Some _ \<Rightarrow> (None, del_file p w))"
  by (simp_all add: rename_file_def remove_file_def next_outcome_def)

lemma backup_other [simp]: "delete_backup p \<noteq> p" "p \<noteq> delete_backup p"
  by (simp_all add: delete_backup_def)

text \<open>on a disk that works, deleting a website removes one file, and only one whose text the agent recognises as its own
  and as carrying no node; when nginx does not take the change, or the request is refused, every site file is as it was.
  Besides the site only the name of its backup is ever touched.\<close>

theorem delete_website_safe:
  assumes "deleteNginxWebsite h legacy req (w, cs) = (r, (w', cs'))" and "tape w = []"
  shows "if status r = 200
    then \<exists>p content site. file_at w p = Some content \<and> site = classifyNginxWebsite legacy p content \<and>
           req \<noteq> None \<and> ws_domain site = to_lower (trim_space (the req)) \<and>
           ws_managed site \<and> \<not> ws_protected site \<and> file_at w' p = None \<and>
           (\<forall>q. q \<noteq> p \<and> q \<noteq> delete_backup p \<longrightarrow> file_at w' q = file_at w q)
    else (\<exists>b. \<forall>q. q \<noteq> delete_backup b \<longrightarrow> file_at w' q = file_at w q)"
proof (cases "\<exists>raw. req = Some raw \<and> trim_space raw \<noteq> []")
  case False
  then show ?thesis using assms by (auto simp: deleteNginxWebsite_def split: option.splits if_splits)
next
  case True
  then obtain raw where raw: "req = Some raw" "trim_space raw \<noteq> []" by blast
  obtain sites w1 cs1 where sc: "scanNginxWebsites h legacy (w, cs) = (sites, (w1, cs1))" by (metis prod_cases3)
  have w1: "w1 = w" using scan_sound(2) [OF sc] assms(2) by simp
  let ?find = "find (\<lambda>x. ws_domain x = to_lower (trim_space raw)) sites"
  show ?thesis
  proof (cases "\<exists>x. ?find = Some x \<and> ws_managed x \<and> \<not> ws_protected x")
    case False
    then show ?thesis using assms raw sc w1
      by (auto simp: deleteNginxWebsite_def Let_def split: option.splits if_splits)
  next
    case True
    then obtain x where x: "?find = Some x" "ws_managed x" "\<not> ws_protected x" by blast
    then have dom: "ws_domain x = to_lower (trim_space raw)" "x \<in> set sites" by (auto simp: find_Some_iff)
    from scan_sound(3) [OF sc dom(2)] obtain content where
      c: "file_at w (ws_path x) = Some content" "x = classifyNginxWebsite legacy (ws_path x) content" by blast
    let ?p = "ws_path x" and ?b = "delete_backup (ws_path x)"
    define w2 where "w2 = snd (remove_file ?b w)"
    have w2: "tape w2 = []" "file_at w2 q = (if q = ?b then None else file_at w q)" for q
      using assms(2) by (auto simp: w2_def calm_moves split: option.splits)
    define w3 where "w3 = put_file ?b content (del_file ?p w2)"
    have mv: "rename_file ?p ?b w2 = (None, w3)" using w2 c by (simp add: calm_moves w3_def)
    have w3: "tape w3 = []" "file_at w3 ?b = Some content" using w2 by (simp_all add: w3_def)
    obtain b cs3 where re: "nginxReload h (w3, cs1) = (b, (w3, cs3))" by (metis prod_cases3 reload_world)
    define w4 where "w4 = put_file ?p content (del_file ?b w3)"
    have un: "rename_file ?b ?p w3 = (None, w4)" using w3 by (simp add: calm_moves w4_def)
    have rm: "remove_file ?b w3 = (None, del_file ?b w3)" using w3 by (simp add: calm_moves)
    obtain b' cs4 where re': "nginxReload h (w4, cs3) = (b', (w4, cs4))" by (metis prod_cases3 reload_world)
    have w4: "file_at w4 q = (if q = ?b then None else file_at w q)" for q
      using w2(2) c by (simp add: w4_def w3_def)
    have w5: "file_at (del_file ?b w3) q = (if q = ?b \<or> q = ?p then None else file_at w q)" for q
      using w2(2) by (simp add: w3_def)
    have res: "(status r, w') = (if b then (200, del_file ?b w3) else (500, w4))"
      using assms raw sc w1 x mv re rm un re'
      by (auto simp: deleteNginxWebsite_def Let_def w2_def split: if_splits)
    show ?thesis
    proof (cases b)
      case True
      then have "status r = 200" "w' = del_file ?b w3" using res by auto
      have "file_at w ?p = Some content \<and> x = classifyNginxWebsite legacy ?p content \<and>
          req \<noteq> None \<and> ws_domain x = to_lower (trim_space (the req)) \<and> ws_managed x \<and> \<not> ws_protected x \<and>
          file_at w' ?p = None \<and> (\<forall>q. q \<noteq> ?p \<and> q \<noteq> ?b \<longrightarrow> file_at w' q = file_at w q)"
        unfolding \<open>w' = del_file ?b w3\<close> using c raw dom(1) x w5 by (simp only: option.simps option.sel simp_thms if_True) auto
      then show ?thesis unfolding if_P [OF \<open>status r = 200\<close>] by (intro exI)
    next
      case False
      then have "status r \<noteq> 200" "w' = w4" using res by auto
      then show ?thesis using w4 by auto
    qed
  qed
qed

section \<open>What a set-up may write\<close>

definition conf_dir_used :: "nginx_host \<Rightarrow> string" where
  "conf_dir_used h =
     (let found = detectNginxConfDirFromBinary h
      in if found \<noteq> [] then found else if nh_dir h NginxPrimaryPrefixDir then NginxPrimaryPrefixDir else ''/etc/nginx'')"

definition ssl_targets :: "nginx_host \<Rightarrow> string \<Rightarrow> string \<Rightarrow> string set" where
  "ssl_targets h stamp domain =
     {path_join (conf_dir_used h) ''nginx.conf'', path_join (conf_dir_used h) ''nginx.conf'' @ ''.bak.'' @ stamp,
      path_join (conf_dir_used h) (''servers/'' @ domain @ ''.conf'')} \<union>
     (\<Union>d\<in>{''/usr/local/nginx/conf'', ''/etc/nginx''}. {path_join d ''conf.d/ssl.conf'', path_join d ''nginx.conf''})"

lemma snd_write_other: "q \<noteq> p \<Longrightarrow> file_at (snd (write_file p t w)) q = file_at w q"
  using write_file_other [of p t w] by (metis prod.collapse)

lemma snd_sys_at: "file_at (snd (sys_call w)) q = file_at w q"
  using sys_call_at [of w] by (metis prod.collapse)

lemma deploy_ssl_other:
  assumes "q \<notin> (\<Union>d\<in>{''/usr/local/nginx/conf'', ''/etc/nginx''}. {path_join d ''conf.d/ssl.conf'', path_join d ''nginx.conf''})"
  shows "file_at (deployNginxSSLConfig h raw w) q = file_at w q"
proof -
  define d where "d = (if nh_dir h ''/usr/local/nginx/conf'' then ''/usr/local/nginx/conf'' else ''/etc/nginx'')"
  have q: "q \<noteq> path_join d ''conf.d/ssl.conf''" "q \<noteq> path_join d ''nginx.conf''" using assms by (auto simp: d_def)
  define w2 where "w2 = snd (sys_call (snd (sys_call w)))"
  have w2: "file_at w2 q = file_at w q" by (simp add: w2_def snd_sys_at)
  obtain e w3 where wr: "write_file (path_join d ''conf.d/ssl.conf'') (ssl_server_block (trim_space raw)) w2 = (e, w3)"
    by fastforce
  have w3: "file_at w3 q = file_at w q" using write_file_other [OF wr q(1)] w2 by simp
  obtain x w4 where rd: "read_file (path_join d ''nginx.conf'') w3 = (x, w4)" by fastforce
  have w4: "file_at w4 q = file_at w q" using read_file_at [OF rd] w3 by simp
  show ?thesis
    unfolding deployNginxSSLConfig_def Let_def d_def [symmetric] w2_def [symmetric]
    using w3 w4 snd_write_other [OF q(2)] by (simp add: wr rd split: option.splits sum.splits)
qed

lemma main_conf_other:
  assumes "deploy_main_conf d stamp t w = (e, w')"
    and "q \<noteq> path_join d ''nginx.conf''" and "q \<noteq> path_join d ''nginx.conf'' @ ''.bak.'' @ stamp"
  shows "file_at w' q = file_at w q"
  using assms(1) write_file_other [OF _ assms(2)] read_file_at snd_write_other [OF assms(3)]
  by (auto simp: deploy_main_conf_def Let_def split: if_splits sum.splits prod.splits) 

lemma setup_ssl_confined:
  assumes "HandleNginxSetupSSL h stamp post auth (Some req) (w, cs) = (r, (w', cs'))"
  shows "(status r \<in> {400, 401, 405} \<longrightarrow> w' = w) \<and>
    (\<forall>q. q \<notin> ssl_targets h stamp (to_lower (trim_space (sr_domain req))) \<longrightarrow> file_at w' q = file_at w q)"
proof (cases "post \<and> auth \<and> sr_domain req \<noteq> [] \<and> ValidHostname (to_lower (trim_space (sr_domain req)))")
  case False
  then show ?thesis using assms by (auto simp: HandleNginxSetupSSL_def split: if_splits)
next
  case True
  let ?d = "conf_dir_used h" and ?dom = "to_lower (trim_space (sr_domain req))"
  define w2 where "w2 = snd (sys_call (snd (sys_call w)))"
  have w2: "file_at w2 q = file_at w q" for q by (simp add: w2_def snd_sys_at)
  obtain e w3 where m: "deploy_main_conf ?d stamp (sr_nginx req) w2 = (e, w3)" by fastforce
  let ?site = "if sr_site req \<noteq> []
      then write_file (path_join ?d (''servers/'' @ ?dom @ ''.conf'')) (sr_site req) w3
      else (None, deployNginxSSLConfig h ?dom w3)"
  obtain e' w4 where s: "?site = (e', w4)" by fastforce
  obtain ok cs5 where re: "reloadNginx h (w4, cs) = (ok, (w4, cs5))" by (metis prod_cases3 plain_reload_world)
  have r: "(status r \<notin> {400, 401, 405}) \<and> w' = (if e \<noteq> None then w3 else w4)"
    using assms True s
    by (cases "sr_site req = []"; cases e; cases e')
      (auto simp: HandleNginxSetupSSL_def Let_def conf_dir_used_def [unfolded Let_def, symmetric] w2_def [symmetric] m re split: if_splits)
  have "file_at w' q = file_at w q" if q: "q \<notin> ssl_targets h stamp ?dom" for q
  proof -
    have q3: "file_at w3 q = file_at w q" using main_conf_other [OF m] q w2 by (auto simp: ssl_targets_def)
    have "file_at w4 q = file_at w3 q"
      using s q deploy_ssl_other [of q h ?dom w3] write_file_other [of _ "sr_site req" w3 _ w4 q]
      by (auto simp: ssl_targets_def split: if_splits)
    with q3 r show ?thesis by simp
  qed
  then show ?thesis using r by blast
qed

section \<open>Instances\<close>

definition demo_host :: nginx_host where
  "demo_host = \<lparr>nh_bin = ''/usr/local/nginx/sbin/nginx'', nh_flags = None, nh_has = (\<lambda>_. False), nh_init = False,
     nh_systemd = False, nh_unit = None, nh_sup = None, nh_dir = (\<lambda>_. True)\<rparr>"

definition site_world :: world where
  "site_world = \<lparr>files = [(''/etc/nginx/conf.d/a.conf'', ''# MMWX-WEBSITE v1''), (''/etc/nginx/conf.d/b.conf'', ''x'')],
     tape = [], running = None, api = []\<rparr>"

lemma site_scan:
  "scanNginxWebsites demo_host ''old'' (site_world, []) =
     ([\<lparr>ws_domain = ''a'', ws_type = ''unknown'', ws_path = ''/etc/nginx/conf.d/a.conf'', ws_managed = True,
        ws_legacy = False, ws_protected = False\<rparr>,
       \<lparr>ws_domain = ''b'', ws_type = ''unknown'', ws_path = ''/etc/nginx/conf.d/b.conf'', ws_managed = False,
        ws_legacy = False, ws_protected = False\<rparr>], (site_world, []))"
  by code_simp

definition http_text :: string where
  "http_text = ''http {'' @ nl @ ''}'' @ nl"

definition include_world :: "outcome list \<Rightarrow> world" where
  "include_world t = \<lparr>files = [(''/n'', http_text)], tape = t, running = None, api = []\<rparr>"

definition include_host :: nginx_host where
  "include_host = demo_host\<lparr>nh_flags := Some ''--conf-path=/n''\<rparr>"

lemma include_run:
  "inspectNginxRuntime include_host (include_world [], [False]) =
     ((blank_runtime (nh_bin demo_host))\<lparr>nr_installed := True, nr_manager := ''command'', nr_config := ''/n'',
        nr_configdir := ''/''\<rparr>, (include_world [], [False]))"
  by code_simp

text \<open>The test of nginx fails after the include was added.\<close>

lemma include_refused:
  "ensureNginxManagedConfig include_host (include_world [], [False]) =
     (Some TestFailed, (include_world [], []))"
  by code_simp

theorem managed_config_all_or_nothing_witness:
  "file_at (include_world []) ''/n'' = Some http_text \<and>
   ensureNginxManagedConfig include_host (include_world [], [False]) = (Some TestFailed, (include_world [], []))"
  using managed_config_all_or_nothing [OF include_refused include_run]
  by (simp add: include_refused) (simp add: include_world_def file_at_def)

lemma site_deleted:
  "deleteNginxWebsite demo_host ''old'' (Some '' A '') (site_world, []) =
     (writeOk [(''message'', JStr ''website removed''), (''domain'', JStr ''a'')],
      (site_world\<lparr>files := [(''/etc/nginx/conf.d/b.conf'', ''x'')]\<rparr>, []))"
  by code_simp

theorem delete_website_safe_witness:
  "\<exists>p. file_at site_world p \<noteq> None \<and> file_at (site_world\<lparr>files := [(''/etc/nginx/conf.d/b.conf'', ''x'')]\<rparr>) p = None"
proof -
  have "tape site_world = []" by (simp add: site_world_def)
  from delete_website_safe [OF site_deleted this] show ?thesis
    unfolding reply_simps if_True simp_thms by blast
qed

section \<open>Departures\<close>

text \<open>A disk that fails during the way back leaves the new configuration in place, while the error says it was rolled back.\<close>

lemma rollback_claimed:
  "let (r, (w', _)) = ensureNginxManagedConfig include_host
         (include_world [Works, Works, Works, Works, Fails (ErrIO ''full'')], [False])
   in r = Some TestFailed \<and> file_at w' ''/n'' = addNginxManagedInclude http_text \<and> file_at w' ''/n'' \<noteq> Some http_text"
  by code_simp

text \<open>Clearing port 80 also removes the file of port 8080, and the stream block goes although another stream is left.\<close>

definition stream_world :: world where
  "stream_world = \<lparr>files = [(stream_dir @ ''/a.conf'', ''server { listen 8080; }''),
      (stream_dir @ ''/b.conf'', ''server { listen 9000; }''),
      (''/usr/local/nginx/nginx.conf'', ''http {}'' @ stream_block)], tape = [], running = None, api = []\<rparr>"

lemma other_port_cleared:
  "let (r, (w', _)) = HandleClearStreamPort demo_host True True (Some 80) (stream_world, [])
   in status r = 200 \<and> file_at w' (stream_dir @ ''/a.conf'') = None \<and>
      file_at w' (stream_dir @ ''/b.conf'') \<noteq> None \<and>
      file_at w' ''/usr/local/nginx/nginx.conf'' = Some (''http {}'' @ nl)"
  by code_simp

text \<open>The include of the SSL configuration is meant for the http block, but goes into whatever block is the last.\<close>

definition stream_text :: string where
  "stream_text = ''http {'' @ nl @ ''}'' @ nl @ ''stream {'' @ nl @ ''}'' @ nl"

lemma include_lands_in_stream:
  "before_last_brace (''    include conf.d/*.conf;'' @ nl) stream_text =
     Some (''http {'' @ nl @ ''}'' @ nl @ ''stream {'' @ nl @ ''    include conf.d/*.conf;'' @ nl @ ''}'' @ nl)"
  by code_simp

text \<open>An include in another block than http makes the configuration count as manageable.\<close>

lemma stream_include_counts:
  "nginxIncludedServerDir ''/n/nginx.conf'' (''stream {'' @ nl @ '' include servers/*.conf;'' @ nl @ ''}'') = ''/n/servers''"
  by code_simp

text \<open>The block the agent writes is one its own scan recognises.\<close>

lemma deployed_port: "extractSSLListenPort (ssl_server_block domain) = 443"
proof -
  have s: "ssl_server_block domain =
     ''server {'' @ CHR 0x0A # (''    listen 443 ssl default_server;'' @ CHR 0x0A #
        drop 44 (ssl_server_block domain))"
    by (simp add: ssl_server_block_def nl_def)
  have l: "ssl_port_of_line ''server {'' = None" "ssl_port_of_line ''    listen 443 ssl default_server;'' = Some 443"
    by code_simp+
  show ?thesis
    by (subst s) (simp add: extractSSLListenPort_def split_on_append_sep l del: append_Cons append.simps(2))
qed

end
