(* ===== verification/Config_Files.thy ===== *)
theory Config_Files
  imports Inbound_Clients Nginx_Control Failures
begin

text \<open>
  The endpoints that hand out and replace whole configuration files (\<open>internal/handler/management_handler.go\<close>), with
  the directories they may write to (\<open>pathguard_dirs.go\<close>). \<open>dirs\<close> says which directories exist, \<open>stamp\<close> is the time as
  the backup's name spells it. Xray's own check of a configuration is a command when Xray is installed and runs on its
  own, a library call otherwise: \<open>xray_check\<close>.
\<close>

section \<open>Directories\<close>

definition DefaultXrayConfigPaths :: "string list" where
  "DefaultXrayConfigPaths = [''/usr/local/etc/xray/config.json'', ''/etc/xray/config.json'', ''/opt/xray/config.json'']"

definition XrayConfigDirPaths :: "string list" where
  "XrayConfigDirPaths = [''/usr/local/etc/xray'', ''/etc/xray'', ''/opt/xray'']"

definition xrayWriteDirs :: "string list" where
  "xrayWriteDirs = XrayConfigDirPaths @ List.map go_Dir DefaultXrayConfigPaths"

definition nginxWriteDirs :: "string list" where
  "nginxWriteDirs =
     NginxConfigDirPaths @ NginxSSLServerDirPaths @ [NginxPrimaryPrefixDir] @ List.map go_Dir DefaultNginxConfigPaths"

section \<open>Checking a configuration\<close>

record xray_check =
  xc_mode :: string
  xc_cli :: "(string \<Rightarrow> bool) option"
  xc_lib :: "string \<Rightarrow> bool"

text \<open>The temporary file has a name that nobody else uses and is gone afterwards, so it is not kept among the files. The
  error of writing it is ignored: Xray tests what has reached it.\<close>

definition temp_holds :: "string \<Rightarrow> world \<Rightarrow> string \<times> world" where
  "temp_holds raw w =
     (case next_outcome w of
        (Works, w1) \<Rightarrow> (raw, w1)
      | (Torn part, w1) \<Rightarrow> (part, w1)
      | (Fails e, w1) \<Rightarrow> ([], w1))"

definition runXrayTest :: "xray_check \<Rightarrow> string \<Rightarrow> world \<Rightarrow> (bool \<times> string) \<times> world" where
  "runXrayTest x raw w =
     (case (if xc_mode x \<noteq> ''embedded'' then xc_cli x else None) of
        None \<Rightarrow> ((xc_lib x raw, ''xray-library''), w)
      | Some cli \<Rightarrow>
          (case sys_call w of
             (None, w1) \<Rightarrow>
               (case temp_holds raw w1 of (seen, w2) \<Rightarrow> ((cli seen, ''xray-cli''), snd (sys_call w2)))
           | (Some _, w1) \<Rightarrow> ((xc_lib x raw, ''xray-library''), w1)))"

text \<open>\<open>None\<close> stands for a body that is not JSON.\<close>

definition HandleXrayTestConfig :: "xray_check \<Rightarrow> bool \<Rightarrow> bool \<Rightarrow> string option \<Rightarrow> world \<Rightarrow> reply \<times> world" where
  "HandleXrayTestConfig x auth post req w =
     (if \<not> auth then (writeError 401 ''Unauthorized'', w)
      else if \<not> post then (writeError 405 ''Method not allowed'', w)
      else
        (case req of
           None \<Rightarrow> (writeError 400 ''Invalid request body'', w)
         | Some config \<Rightarrow>
             if trim_space config = [] then (writeError 400 ''config is empty'', w)
             else
               (case runXrayTest x config w of
                  ((ok, how), w1) \<Rightarrow> (Reply 200 [(''ok'', JBool ok), (''method'', JStr how)], w1))))"

section \<open>Xray's files\<close>

fun first_readable :: "string list \<Rightarrow> world \<Rightarrow> (string \<times> string) option \<times> world" where
  "first_readable [] w = (None, w)"
| "first_readable (p # ps) w =
     (case read_file p w of
        (Inr content, w1) \<Rightarrow> (Some (p, content), w1)
      | (Inl _, w1) \<Rightarrow> first_readable ps w1)"

definition getXrayConfig :: "world \<Rightarrow> reply \<times> world" where
  "getXrayConfig w =
     (case first_readable DefaultXrayConfigPaths w of
        (None, w1) \<Rightarrow>
          (writeOk [(''path'', JStr (hd DefaultXrayConfigPaths)), (''config'', JStr []), (''is_empty'', JBool True)], w1)
      | (Some (p, content), w1) \<Rightarrow> (writeOk [(''path'', JStr p), (''config'', JStr content)], w1))"

record set_req =
  st_config :: string
  st_path :: string
  st_force :: bool

text \<open>The codec of configurations; \<open>cd_valid\<close>: the text is JSON; \<open>cd_dec\<close>: it is an object.\<close>

record codec =
  cd_valid :: "string \<Rightarrow> bool"
  cd_dec :: "string \<Rightarrow> obj option"
  cd_enc :: "obj \<Rightarrow> string"

definition deduped_text :: "codec \<Rightarrow> string \<Rightarrow> string" where
  "deduped_text cd raw =
     (case cd_dec cd raw of
        None \<Rightarrow> raw
      | Some parsed \<Rightarrow>
          (let (c1, n1) = dedupeTaggedArrayInPlace parsed ''inbounds'';
               (c2, n2) = dedupeTaggedArrayInPlace c1 ''outbounds''
           in if 0 < n1 \<or> 0 < n2 then cd_enc cd c2 else raw))"

definition setXrayConfig :: "codec \<Rightarrow> xray_check \<Rightarrow> set_req option \<Rightarrow> world \<Rightarrow> reply \<times> world" where
  "setXrayConfig cd x req w =
     (case req of
        None \<Rightarrow> (writeError 400 ''Invalid request body'', w)
      | Some q \<Rightarrow>
          if \<not> cd_valid cd (st_config q) then (writeError 400 ''Invalid JSON config'', w)
          else
            (let configPath = (if st_path q = [] then hd DefaultXrayConfigPaths else st_path q)
             in if st_path q \<noteq> [] \<and> \<not> PathWithinDirs (st_path q) xrayWriteDirs
                then (writeError 403 ''config path outside allowed xray directories'', w)
                else
                  (case sys_call w of
                     (Some _, w1) \<Rightarrow> (writeError 500 ''Failed to create directory'', w1)
                   | (None, w1) \<Rightarrow>
                       (let rawConfig = deduped_text cd (st_config q)
                        in (case (if st_force q then ((True, []), w1) else runXrayTest x rawConfig w1) of
                              ((False, how), w2) \<Rightarrow>
                                (Reply 400 [(''success'', JBool False), (''message'', JStr ''xray config test failed''),
                                   (''method'', JStr how)], w2)
                            | ((True, _), w2) \<Rightarrow>
                                (case write_file configPath rawConfig w2 of
                                   (Some _, w3) \<Rightarrow> (writeError 500 ''Failed to write config'', w3)
                                 | (None, w3) \<Rightarrow>
                                     (writeOk [(''message'', JStr ''Config saved successfully''),
                                        (''path'', JStr configPath)], w3)))))))"

definition listXrayConfigFiles :: "(string \<Rightarrow> bool) \<Rightarrow> world \<Rightarrow> reply \<times> world" where
  "listXrayConfigFiles dirs w =
     (case find dirs XrayConfigDirPaths of
        None \<Rightarrow> (writeOk [(''base_dir'', JStr []), (''files'', JArr [])], w)
      | Some d \<Rightarrow>
          (case sys_call w of
             (Some _, w1) \<Rightarrow> (writeOk [(''base_dir'', JStr d), (''files'', JArr [])], w1)
           | (None, w1) \<Rightarrow>
               (writeOk [(''base_dir'', JStr d),
                  (''files'', JArr (List.map (\<lambda>n. JStr (path_join d n))
                     (filter (\<lambda>n. has_suffix n ''.json'') (sort (dir_files w1 d)))))], w1)))"

definition getXrayConfigFile :: "string \<Rightarrow> world \<Rightarrow> reply \<times> world" where
  "getXrayConfigFile raw w =
     (let file = Clean raw
      in (case find (\<lambda>d. has_prefix (go_Join d file) d \<and> file_at w (go_Join d file) \<noteq> None) XrayConfigDirPaths of
            None \<Rightarrow> (writeError 404 ''File not found'', w)
          | Some d \<Rightarrow>
              (case read_file (go_Join d file) w of
                 (Inl _, w1) \<Rightarrow> (writeError 500 ''Failed to read file'', w1)
               | (Inr content, w1) \<Rightarrow>
                   (writeOk [(''path'', JStr (go_Join d file)), (''content'', JStr content)], w1))))"

definition saveXrayConfigFile :: "codec \<Rightarrow> (string \<Rightarrow> bool) \<Rightarrow> (string \<times> string) option \<Rightarrow> world \<Rightarrow> reply \<times> world" where
  "saveXrayConfigFile cd dirs req w =
     (case req of
        None \<Rightarrow> (writeError 400 ''Invalid request body'', w)
      | Some (file, content) \<Rightarrow>
          if file = [] then (writeError 400 ''File name required'', w)
          else
            (let base = go_Base file; name = (if has_suffix base ''.json'' then base else base @ ''.json'')
             in (case (case find dirs XrayConfigDirPaths of
                         Some d \<Rightarrow> (Inr d, w)
                       | None \<Rightarrow>
                           (case sys_call w of
                              (Some e, w1) \<Rightarrow> (Inl e, w1)
                            | (None, w1) \<Rightarrow> (Inr (hd XrayConfigDirPaths), w1))) of
                   (Inl _, w1) \<Rightarrow> (writeError 500 ''Failed to create config directory'', w1)
                 | (Inr d, w1) \<Rightarrow>
                     if \<not> cd_valid cd content then (writeError 400 ''Invalid JSON content'', w1)
                     else
                       (case write_file (go_Join d name) content w1 of
                          (Some _, w2) \<Rightarrow> (writeError 500 ''Failed to write file'', w2)
                        | (None, w2) \<Rightarrow>
                            (writeOk [(''message'', JStr ''File saved successfully''),
                               (''path'', JStr (go_Join d name))], w2)))))"

section \<open>Nginx's files\<close>

definition getNginxConfig :: "world \<Rightarrow> reply \<times> world" where
  "getNginxConfig w =
     (case first_readable DefaultNginxConfigPaths w of
        (None, w1) \<Rightarrow> (writeError 404 ''Nginx config not found'', w1)
      | (Some (p, content), w1) \<Rightarrow> (writeOk [(''path'', JStr p), (''config'', JStr content)], w1))"

definition nginx_backup :: "string \<Rightarrow> string \<Rightarrow> string" where
  "nginx_backup path stamp = path @ ''.bak.'' @ stamp"

definition back_up :: "string \<Rightarrow> string \<Rightarrow> world \<Rightarrow> world" where
  "back_up path stamp w =
     (case read_file path w of
        (Inl _, w1) \<Rightarrow> w1
      | (Inr content, w1) \<Rightarrow> snd (write_file (nginx_backup path stamp) content w1))"

definition bring_back :: "string \<Rightarrow> string \<Rightarrow> world \<Rightarrow> world" where
  "bring_back path stamp w =
     (case read_file (nginx_backup path stamp) w of
        (Inl _, w1) \<Rightarrow> w1
      | (Inr content, w1) \<Rightarrow> snd (write_file path content w1))"

definition setNginxConfig :: "string \<Rightarrow> (string \<times> string) option \<Rightarrow> nworld \<Rightarrow> reply \<times> nworld" where
  "setNginxConfig stamp req s =
     (case req of
        None \<Rightarrow> (writeError 400 ''Invalid request body'', s)
      | Some (config, path) \<Rightarrow>
          (let configPath = (if path = [] then hd DefaultNginxConfigPaths else path)
           in if path \<noteq> [] \<and> \<not> PathWithinDirs path nginxWriteDirs
              then (writeError 403 ''config path outside allowed nginx directories'', s)
              else
                (let (w, cs) = s
                 in (case write_file configPath config (back_up configPath stamp w) of
                       (Some _, w1) \<Rightarrow> (writeError 500 ''Failed to write config'', (w1, cs))
                     | (None, w1) \<Rightarrow>
                         (case run_cmd (w1, cs) of
                            (False, (w2, cs2)) \<Rightarrow>
                              (writeError 400 ''Invalid nginx config'', (bring_back configPath stamp w2, cs2))
                          | (True, s2) \<Rightarrow>
                              (writeOk [(''message'', JStr ''Config saved successfully''), (''path'', JStr configPath)],
                               s2))))))"

definition getNginxConfigFile :: "string \<Rightarrow> world \<Rightarrow> reply \<times> world" where
  "getNginxConfigFile raw w =
     (let file = Clean raw;
          filePath = (if IsAbs file
             then (if list_ex (\<lambda>d. has_prefix file d \<and> file_at w file \<noteq> None) NginxConfigDirPaths then file else [])
             else (case find (\<lambda>d. file_at w (go_Join d file) \<noteq> None) NginxConfigDirPaths of
                     None \<Rightarrow> [] | Some d \<Rightarrow> go_Join d file))
      in if filePath = [] then (writeError 404 ''File not found'', w)
         else
           (case read_file filePath w of
              (Inl _, w1) \<Rightarrow> (writeError 500 ''Failed to read file'', w1)
            | (Inr content, w1) \<Rightarrow> (writeOk [(''path'', JStr filePath), (''content'', JStr content)], w1)))"

text \<open>The backup is named by one reading of the clock, looked for by another: \<open>stamp\<close> and \<open>later\<close>.\<close>

definition saveNginxConfigFile :: "string \<Rightarrow> string \<Rightarrow> (string \<times> string) option \<Rightarrow> nworld \<Rightarrow> reply \<times> nworld" where
  "saveNginxConfigFile stamp later req s =
     (case req of
        None \<Rightarrow> (writeError 400 ''Invalid request body'', s)
      | Some (raw, content) \<Rightarrow>
          if raw = [] then (writeError 400 ''File path required'', s)
          else
            (let path = Clean raw
             in if \<not> PathWithinDirs path nginxWriteDirs then (writeError 403 ''Path not allowed'', s)
                else
                  (let (w, cs) = s; w1 = (if file_at w path \<noteq> None then back_up path stamp w else w)
                   in (case sys_call w1 of
                         (Some _, w2) \<Rightarrow> (writeError 500 ''Failed to create directory'', (w2, cs))
                       | (None, w2) \<Rightarrow>
                           (case write_file path content w2 of
                              (Some _, w3) \<Rightarrow> (writeError 500 ''Failed to write file'', (w3, cs))
                            | (None, w3) \<Rightarrow>
                                (case run_cmd (w3, cs) of
                                   (False, (w4, cs4)) \<Rightarrow>
                                     (writeError 400 ''Invalid nginx config'', (bring_back path (take 14 later) w4, cs4))
                                 | (True, s4) \<Rightarrow>
                                     (writeOk [(''message'', JStr ''File saved successfully''), (''path'', JStr path)],
                                      s4)))))))"

section \<open>Where a joined name leads\<close>

lemma within_dirs:
  assumes "\<forall>d\<in>set dirs. IsAbs d" and "IsAbs t" and "d \<in> set dirs" and "prefix (walk d) (walk t)"
  shows "PathWithinDirs t dirs"
  using assms Rel_inside [of _ t] by (auto simp: PathWithinDirs_def Let_def list_ex_iff)

lemma split_on_joined: "split_on sep (a @ sep # b) = split_on sep a @ split_on sep b"
  by (induction a) (auto split: list.splits)

definition walk_step :: "string list \<Rightarrow> string \<Rightarrow> string list" where
  "walk_step pos c = (if c = [] \<or> c = ''.'' then pos else if c = ''..'' then butlast pos else pos @ [c])"

lemma walk_foldl: "walk p = foldl walk_step [] (split_on (CHR 0x2F) p)"
  unfolding walk_def walk_step_def ..

lemma walk_joined: "walk (a @ CHR 0x2F # b) = foldl walk_step (walk a) (split_on (CHR 0x2F) b)"
  by (simp add: walk_foldl split_on_joined)

lemma foldl_down: "''..'' \<notin> set cs \<Longrightarrow> prefix pos (foldl walk_step pos cs)"
proof (induction cs arbitrary: pos)
  case (Cons c cs)
  then have "prefix (walk_step pos c) (foldl walk_step pos (c # cs))" by simp
  moreover have "prefix pos (walk_step pos c)" using Cons.prems by (auto simp: walk_step_def)
  ultimately show ?case by (rule prefix_order.trans [rotated])
qed simp

lemma foldl_plain: "\<forall>c\<in>set cs. plain c \<Longrightarrow> foldl walk_step pos cs = pos @ cs"
  by (induction cs arbitrary: pos) (auto simp: walk_step_def plain_def)

lemma walk_Clean: "IsAbs p \<Longrightarrow> walk (Clean p) = walk p"
proof -
  assume a: "IsAbs p"
  note c = Clean_abs [OF a]
  have "walk (Clean p) = foldl walk_step [] (split_on (CHR 0x2F) (join_with ''/'' (walk p)))"
    by (simp add: c(1) walk_foldl walk_step_def)
  also have "\<dots> = walk p"
  proof (cases "walk p")
    case Nil
    then show ?thesis by (simp add: walk_step_def)
  next
    case (Cons x xs)
    have "split_on (CHR 0x2F) (join_with [CHR 0x2F] (walk p)) = walk p"
      by (rule split_join) (use Cons c(2) in \<open>auto simp: plain_def\<close>)
    then show ?thesis using foldl_plain [OF c(2)] by simp
  qed
  finally show ?thesis .
qed

lemma go_Base_plain: "go_Base p = ''/'' \<or> CHR 0x2F \<notin> set (go_Base p)"
  by (auto simp: go_Base_def Let_def dest: set_takeWhileD)

definition json_name :: "string \<Rightarrow> string" where
  "json_name file = (if has_suffix (go_Base file) ''.json'' then go_Base file else go_Base file @ ''.json'')"

lemma json_name_down: "json_name f \<noteq> [] \<and> ''..'' \<notin> set (split_on (CHR 0x2F) (json_name f))"
proof -
  have s: "has_suffix (json_name f) ''.json''" by (simp add: json_name_def has_suffix_def)
  then have ne: "json_name f \<noteq> []" "json_name f \<noteq> ''..''" by (auto simp: has_suffix_def)
  consider "go_Base f = ''/''" | "CHR 0x2F \<notin> set (json_name f)"
    using go_Base_plain [of f] by (auto simp: json_name_def)
  then show ?thesis
  proof cases
    case 1
    then have "json_name f = ''/.json''" by (simp add: json_name_def has_suffix_def)
    then show ?thesis by simp
  next
    case 2
    then show ?thesis using ne by (simp add: split_on_no_sep)
  qed
qed

lemma joined_within:
  assumes "d \<in> set XrayConfigDirPaths"
  shows "PathWithinDirs (go_Join d (json_name f)) XrayConfigDirPaths"
proof (rule within_dirs [OF _ _ assms])
  show "\<forall>d\<in>set XrayConfigDirPaths. IsAbs d" by (simp add: XrayConfigDirPaths_def IsAbs_def)
  then have a: "IsAbs d" using assms by blast
  then have "d \<noteq> []" and aj: "IsAbs (d @ CHR 0x2F # json_name f)" by (cases d; simp add: IsAbs_def)+
  then have j: "go_Join d (json_name f) = Clean (d @ CHR 0x2F # json_name f)"
    using json_name_down [of f] by (simp add: go_Join_def)
  show "IsAbs (go_Join d (json_name f))" using j aj by simp
  show "prefix (walk d) (walk (go_Join d (json_name f)))"
    unfolding j walk_Clean [OF aj] walk_joined using json_name_down [of f] by (intro foldl_down) blast
qed

section \<open>What may be written\<close>

lemma temp_holds_at: "temp_holds raw w = (t, w') \<Longrightarrow> file_at w' q = file_at w q"
  by (auto simp: temp_holds_def dest: next_outcome_file_at split: prod.splits outcome.splits)

lemma temp_holds_count:
  "temp_holds raw w = (t, w') \<Longrightarrow> failures w' \<le> failures w \<and> (t \<noteq> raw \<longrightarrow> failures w' < failures w)"
  by (auto simp: temp_holds_def dest!: next_failures split: prod.splits outcome.splits if_splits)

text \<open>What Xray says of a text when nothing fails.\<close>

definition verdict :: "xray_check \<Rightarrow> string \<Rightarrow> bool" where
  "verdict x t = (case xc_cli x of None \<Rightarrow> xc_lib x t | Some cli \<Rightarrow> if xc_mode x = ''embedded'' then xc_lib x t else cli t)"

text \<open>A failure around the temporary file: the library is asked instead, or the command about another text.\<close>

definition misled :: "xray_check \<Rightarrow> string \<Rightarrow> bool" where
  "misled x t \<longleftrightarrow>
     xc_mode x \<noteq> ''embedded'' \<and> (\<exists>cli. xc_cli x = Some cli \<and> (xc_lib x t \<or> (\<exists>seen. seen \<noteq> t \<and> cli seen)))"

lemma test_effect:
  assumes "runXrayTest x raw w = ((ok, how), w')"
  shows "file_at w' q = file_at w q" and "failures w' \<le> failures w"
    and "ok \<Longrightarrow> verdict x raw \<or> 0 < failures w \<and> misled x raw" and "failures w = 0 \<Longrightarrow> ok = verdict x raw"
proof -
  have "file_at w' q = file_at w q \<and> failures w' \<le> failures w \<and>
    (ok \<longrightarrow> verdict x raw \<or> 0 < failures w \<and> misled x raw) \<and> (failures w = 0 \<longrightarrow> ok = verdict x raw)"
  proof (cases "xc_mode x \<noteq> ''embedded'' \<and> xc_cli x \<noteq> None")
    case False
    then have n: "(if xc_mode x \<noteq> ''embedded'' then xc_cli x else None) = None" by auto
    from assms have "ok = xc_lib x raw" "w' = w" by (simp_all add: runXrayTest_def n)
    with False show ?thesis by (auto simp: verdict_def split: option.split)
  next
    case True
    then obtain cli where c: "xc_cli x = Some cli" by blast
    obtain e w1 where 1: "sys_call w = (e, w1)" by fastforce
    note u1 = primitive_used(1) [of w] primitive_mono(2) [of w]
    show ?thesis
    proof (cases e)
      case (Some y)
      with assms True c 1 have "ok = xc_lib x raw" "w' = w1" by (simp_all add: runXrayTest_def)
      with Some u1 1 c True show ?thesis by (auto simp: misled_def dest: sys_call_at)
    next
      case None
      obtain seen w2 where 2: "temp_holds raw w1 = (seen, w2)" by fastforce
      with None assms True c 1 have r: "ok = cli seen" "w' = snd (sys_call w2)" by (simp_all add: runXrayTest_def)
      have "failures w' \<le> failures w" "seen \<noteq> raw \<Longrightarrow> 0 < failures w"
        using temp_holds_count [OF 2] u1(2) 1 primitive_mono(2) [of w2] r(2) by auto
      moreover have "file_at w' q = file_at w q"
        using sys_call_at [OF 1] temp_holds_at [OF 2] r(2) snd_sys_at by simp
      ultimately show ?thesis using True c r(1) by (cases "seen = raw") (auto simp: verdict_def misled_def)
    qed
  qed
  then show "file_at w' q = file_at w q" "failures w' \<le> failures w"
    "ok \<Longrightarrow> verdict x raw \<or> 0 < failures w \<and> misled x raw" "failures w = 0 \<Longrightarrow> ok = verdict x raw" by blast+
qed

lemma test_files: "runXrayTest x raw w = (r, w') \<Longrightarrow> file_at w' q = file_at w q"
  using test_effect(1) by (cases r) blast

lemma first_readable_at: "first_readable ps w = (r, w') \<Longrightarrow> file_at w' q = file_at w q"
  by (induction ps arbitrary: w) (auto dest: read_file_at split: prod.splits sum.splits)

lemma back_up_at: "q \<noteq> nginx_backup p stamp \<Longrightarrow> file_at (back_up p stamp w) q = file_at w q"
  using snd_write_other by (auto simp: back_up_def dest: read_file_at split: prod.splits sum.splits)

lemma bring_back_at: "q \<noteq> p \<Longrightarrow> file_at (bring_back p stamp w) q = file_at w q"
  using snd_write_other by (auto simp: bring_back_def dest: read_file_at split: prod.splits sum.splits)

lemma default_within: "PathWithinDirs (hd DefaultXrayConfigPaths) xrayWriteDirs"
  "PathWithinDirs (hd DefaultNginxConfigPaths) nginxWriteDirs"
  by code_simp+

lemma setXray_frame:
  assumes "setXrayConfig cd x req w = (r, w')" and "file_at w' q \<noteq> file_at w q"
  shows "PathWithinDirs q xrayWriteDirs"
proof -
  obtain s where req: "req = Some s" using assms by (cases req) (auto simp: setXrayConfig_def)
  define p where "p = (if st_path s = [] then hd DefaultXrayConfigPaths else st_path s)"
  obtain e w1 where mk: "sys_call w = (e, w1)" by fastforce
  define raw where "raw = deduped_text cd (st_config s)"
  obtain ok how w2 where t: "(if st_force s then ((True, []), w1) else runXrayTest x raw w1) = ((ok, how), w2)"
    by (metis prod.collapse)
  obtain e3 w3 where wr: "write_file p raw w2 = (e3, w3)" by fastforce
  have w1: "file_at w1 q = file_at w q" by (rule sys_call_at [OF mk])
  have w2: "file_at w2 q = file_at w q" using t w1 test_files by (auto split: if_splits)
  have w3: "q \<noteq> p \<Longrightarrow> file_at w3 q = file_at w q" using write_file_other [OF wr] w2 by simp
  have "w' \<in> {w, w1, w2, w3}" and g: "w' \<noteq> w \<Longrightarrow> st_path s = [] \<or> PathWithinDirs (st_path s) xrayWriteDirs"
    using assms(1)
    unfolding setXrayConfig_def req option.case Let_def p_def [symmetric] raw_def [symmetric] mk prod.case t wr
    by (auto split: if_splits option.splits bool.splits)
  then have "q = p" "w' \<noteq> w" using assms(2) w1 w2 w3 by auto
  then show ?thesis using g default_within by (auto simp: p_def)
qed

lemma saveXray_frame:
  assumes "saveXrayConfigFile cd dirs req w = (r, w')" and "file_at w' q \<noteq> file_at w q"
  shows "PathWithinDirs q XrayConfigDirPaths"
proof -
  obtain f content where req: "req = Some (f, content)" using assms by (cases req) (auto simp: saveXrayConfigFile_def)
  obtain x w1 where d: "(case find dirs XrayConfigDirPaths of
      Some d \<Rightarrow> (Inr d, w)
    | None \<Rightarrow> (case sys_call w of (Some e, w1) \<Rightarrow> (Inl e, w1) | (None, w1) \<Rightarrow> (Inr (hd XrayConfigDirPaths), w1))) = (x, w1)"
    by fastforce
  have w1: "file_at w1 q = file_at w q"
    using d by (auto dest: sys_call_at split: option.splits prod.splits)
  have x: "x = Inr v \<Longrightarrow> v \<in> set XrayConfigDirPaths" for v
    using d hd_in_set [of XrayConfigDirPaths]
    by (auto simp: find_Some_iff XrayConfigDirPaths_def [THEN arg_cong [where f = "\<lambda>l. l = []"]] split: option.splits prod.splits)
  show ?thesis
  proof (cases x)
    case (Inl e)
    then show ?thesis using assms w1 d
      by (auto simp: saveXrayConfigFile_def req Let_def split: if_splits)
  next
    case (Inr v)
    obtain e2 w2 where wr: "write_file (go_Join v (json_name f)) content w1 = (e2, w2)" by fastforce
    have "w' \<in> {w, w1, w2}"
      using assms(1) unfolding saveXrayConfigFile_def req option.case prod.case Let_def json_name_def [symmetric] d Inr sum.case wr
      by (auto split: if_splits option.splits)
    moreover have "q \<noteq> go_Join v (json_name f) \<Longrightarrow> file_at w2 q = file_at w q"
      using w1 write_file_other [OF wr] by simp
    ultimately have "q = go_Join v (json_name f)" using assms(2) w1 by blast
    then show ?thesis using joined_within [OF x [OF Inr]] by simp
  qed
qed

lemma nginx_save_world: "run_cmd (w, cs) = (b, s) \<Longrightarrow> fst s = w"
  using run_cmd_world by (cases s) fastforce

lemma setNginx_frame:
  assumes "setNginxConfig stamp req (w, cs) = (r, (w', cs'))" and "file_at w' q \<noteq> file_at w q"
  shows "\<exists>p. PathWithinDirs p nginxWriteDirs \<and> q \<in> {p, nginx_backup p stamp}"
proof -
  obtain config path where req: "req = Some (config, path)" using assms by (cases req) (auto simp: setNginxConfig_def)
  define p where "p = (if path = [] then hd DefaultNginxConfigPaths else path)"
  obtain e w1 where wr: "write_file p config (back_up p stamp w) = (e, w1)" by fastforce
  obtain ok cs2 where c: "run_cmd (w1, cs) = (ok, (w1, cs2))" by (metis prod_cases3 run_cmd_world)
  have "w' \<in> {w, w1, bring_back p stamp w1}" and g: "w' \<noteq> w \<Longrightarrow> path = [] \<or> PathWithinDirs path nginxWriteDirs"
    using assms(1)
    unfolding setNginxConfig_def req option.case prod.case Let_def p_def [symmetric] wr
    by (auto simp: c split: if_splits option.splits bool.splits)
  moreover have "q \<noteq> p \<Longrightarrow> q \<noteq> nginx_backup p stamp \<Longrightarrow> file_at w1 q = file_at w q"
    using write_file_other [OF wr] back_up_at by simp
  moreover from calculation have "q \<noteq> p \<Longrightarrow> q \<noteq> nginx_backup p stamp \<Longrightarrow> file_at (bring_back p stamp w1) q = file_at w q"
    by (simp add: bring_back_at)
  ultimately have "q \<in> {p, nginx_backup p stamp}" "w' \<noteq> w"
    using assms(2) by blast+
  then show ?thesis using g default_within by (auto simp: p_def intro!: exI [of _ p])
qed

lemma saveNginx_frame:
  assumes "saveNginxConfigFile stamp later req (w, cs) = (r, (w', cs'))" and "file_at w' q \<noteq> file_at w q"
  shows "\<exists>p. PathWithinDirs p nginxWriteDirs \<and> q \<in> {p, nginx_backup p stamp}"
proof -
  obtain raw content where req: "req = Some (raw, content)" using assms by (cases req) (auto simp: saveNginxConfigFile_def)
  define p where "p = Clean raw"
  define w1 where "w1 = (if file_at w p \<noteq> None then back_up p stamp w else w)"
  obtain m w2 where mk: "sys_call w1 = (m, w2)" by fastforce
  obtain e w3 where wr: "write_file p content w2 = (e, w3)" by fastforce
  obtain ok cs2 where c: "run_cmd (w3, cs) = (ok, (w3, cs2))" by (metis prod_cases3 run_cmd_world)
  have "w' \<in> {w, w2, w3, bring_back p (take 14 later) w3}" and g: "w' \<noteq> w \<Longrightarrow> PathWithinDirs p nginxWriteDirs"
    using assms(1)
    unfolding saveNginxConfigFile_def req option.case prod.case Let_def p_def [symmetric] w1_def [symmetric] mk
    by (auto simp: wr c split: if_splits option.splits bool.splits)
  moreover have w2: "q \<noteq> nginx_backup p stamp \<Longrightarrow> file_at w2 q = file_at w q"
    using sys_call_at [OF mk, of q] back_up_at by (simp add: w1_def)
  moreover have "q \<noteq> p \<Longrightarrow> q \<noteq> nginx_backup p stamp \<Longrightarrow> file_at w3 q = file_at w q"
    using write_file_other [OF wr] w2 by simp
  moreover from calculation have "q \<noteq> p \<Longrightarrow> q \<noteq> nginx_backup p stamp \<Longrightarrow> file_at (bring_back p (take 14 later) w3) q = file_at w q"
    by (simp add: bring_back_at)
  ultimately have "q \<in> {p, nginx_backup p stamp}" "w' \<noteq> w"
    using assms(2) by blast+
  then show ?thesis using g by blast
qed

text \<open>C24: whatever the four endpoints that replace configuration files are asked for, and whatever fails on the way, a file that
  changes lies in a directory of Xray's or nginx's configuration, or is the backup of one that does. The path of the
  request does not matter: absolute, with double dots, or a bare name.\<close>

theorem config_writes_confined:
  "(setXrayConfig cd x xreq w = (r1, w1) \<longrightarrow>
      (\<forall>q. file_at w1 q \<noteq> file_at w q \<longrightarrow> PathWithinDirs q xrayWriteDirs)) \<and>
   (saveXrayConfigFile cd dirs freq w = (r2, w2) \<longrightarrow>
      (\<forall>q. file_at w2 q \<noteq> file_at w q \<longrightarrow> PathWithinDirs q XrayConfigDirPaths)) \<and>
   (setNginxConfig stamp nreq (w, cs) = (r3, (w3, cs3)) \<longrightarrow>
      (\<forall>q. file_at w3 q \<noteq> file_at w q \<longrightarrow>
         (\<exists>p. PathWithinDirs p nginxWriteDirs \<and> q \<in> {p, nginx_backup p stamp}))) \<and>
   (saveNginxConfigFile stamp later sreq (w, cs) = (r4, (w4, cs4)) \<longrightarrow>
      (\<forall>q. file_at w4 q \<noteq> file_at w q \<longrightarrow>
         (\<exists>p. PathWithinDirs p nginxWriteDirs \<and> q \<in> {p, nginx_backup p stamp})))"
  by (intro conjI impI allI)
    (erule (1) setXray_frame, erule (1) saveXray_frame, erule (1) setNginx_frame, erule (1) saveNginx_frame)

theorem config_writes_confined_witness:
  "\<exists>r w'. saveNginxConfigFile ''s'' ''s'' (Some (''/etc/nginx/../cron.d/x'', ''y'')) (site_world, []) = (r, (w', [])) \<and>
     file_at w' ''/etc/cron.d/x'' = file_at site_world ''/etc/cron.d/x''"
proof -
  have e: "saveNginxConfigFile ''s'' ''s'' (Some (''/etc/nginx/../cron.d/x'', ''y'')) (site_world, []) =
      (writeError 403 ''Path not allowed'', (site_world, []))"
    by code_simp
  have n: "\<not> PathWithinDirs p nginxWriteDirs \<or> ''/etc/cron.d/x'' \<noteq> p" for p
  proof -
    have "\<not> PathWithinDirs ''/etc/cron.d/x'' nginxWriteDirs" by code_simp
    then show ?thesis by auto
  qed
  have "file_at site_world ''/etc/cron.d/x'' \<noteq> file_at site_world ''/etc/cron.d/x'' \<longrightarrow>
      (\<exists>p. PathWithinDirs p nginxWriteDirs \<and> ''/etc/cron.d/x'' \<in> {p, nginx_backup p ''s''})"
    using config_writes_confined e by blast
  then show ?thesis using e by blast
qed

section \<open>What is written\<close>

lemma deduped_unique:
  assumes "cd_dec cd (deduped_text cd raw) = Some c" and "\<And>v. cd_dec cd (cd_enc cd v) \<in> {None, Some v}"
  shows "unique_tags (get_list c ''inbounds'')" and "unique_tags (get_list c ''outbounds'')"
proof -
  obtain parsed where p: "cd_dec cd raw = Some parsed" using assms(1) by (cases "cd_dec cd raw") (auto simp: deduped_text_def)
  obtain c1 n1 where 1: "dedupeTaggedArrayInPlace parsed ''inbounds'' = (c1, n1)" by fastforce
  obtain c2 n2 where 2: "dedupeTaggedArrayInPlace c1 ''outbounds'' = (c2, n2)" by fastforce
  have u1: "get_list c1 k = (if k = ''inbounds'' then fst (dedupe_list k (get_list parsed k)) else get_list parsed k)" for k
    using dedupe_in_place_list [of parsed "''inbounds''" k] 1 by auto
  have u2: "get_list c2 k = (if k = ''outbounds'' then fst (dedupe_list k (get_list c1 k)) else get_list c1 k)" for k
    using dedupe_in_place_list [of c1 "''outbounds''" k] 2 by auto
  have n0: "n1 = 0 \<Longrightarrow> c1 = parsed" "n2 = 0 \<Longrightarrow> c2 = c1"
    using 1 2 by (auto simp: dedupeTaggedArrayInPlace_def split: option.splits prod.splits if_splits)
  have "c = c2"
    using assms(1) assms(2) [of c2] p 1 2 n0 by (auto simp: deduped_text_def split: if_splits)
  then show "unique_tags (get_list c ''inbounds'')" "unique_tags (get_list c ''outbounds'')"
    by (simp_all add: u2 u1 keeps_tags)
qed

text \<open>C25: A whole configuration is stored only when Xray accepts it, unless the check is switched off. Whatever fails on the
  way, only the file asked for may change, and only when the text is JSON, its path is in Xray's directories and the check
  was switched off or passed; an answer of success means that the file holds the text with duplicate tags
  folded, in which, if it is an object, every tag is unique. The check passes on Xray's verdict: that of the installed
  command in the external mode, that of the library otherwise; when a call around the command's temporary file
  fails, the library may be asked instead, or the command about what reached that file. When nothing fails the
  request succeeds in exactly these cases. The codec's decoder, where it decodes what was encoded, gives that back.\<close>

theorem stored_config_checked:
  assumes "setXrayConfig cd x (Some s) w = (r, w')" and "\<And>v. cd_dec cd (cd_enc cd v) \<in> {None, Some v}"
    and "p = (if st_path s = [] then hd DefaultXrayConfigPaths else st_path s)" and "t = deduped_text cd (st_config s)"
    and "good \<longleftrightarrow> cd_valid cd (st_config s) \<and> (st_path s = [] \<or> PathWithinDirs (st_path s) xrayWriteDirs)"
  shows "(\<forall>q. q \<noteq> p \<longrightarrow> file_at w' q = file_at w q) \<and>
    (status r = 200 \<or> file_at w' p \<noteq> file_at w p \<longrightarrow>
       good \<and> (st_force s \<or> verdict x t \<or> 0 < failures w \<and> misled x t)) \<and>
    (status r = 200 \<longrightarrow> file_at w' p = Some t \<and>
       (\<forall>c. cd_dec cd t = Some c \<longrightarrow>
          unique_tags (get_list c ''inbounds'') \<and> unique_tags (get_list c ''outbounds''))) \<and>
    (failures w = 0 \<longrightarrow> (status r = 200) = (good \<and> (st_force s \<or> verdict x t)))"
proof -
  obtain e w1 where mk: "sys_call w = (e, w1)" by fastforce
  obtain ok how w2 where te: "(if st_force s then ((True, []), w1) else runXrayTest x t w1) = ((ok, how), w2)"
    by (metis prod.collapse)
  obtain e3 w3 where wr: "write_file p t w2 = (e3, w3)" by fastforce
  note m1 = primitive_mono(2) [of w] primitive_used(1) [of w]
  have w1: "file_at w1 q = file_at w q" for q by (rule sys_call_at [OF mk])
  have w2: "file_at w2 q = file_at w q" for q
    using te w1 test_effect(1) by (auto split: if_splits)
  have f2: "failures w2 \<le> failures w"
    using te m1(1) mk test_effect(2) [of x t w1 ok how w2] by (auto split: if_splits)
  have acc: "ok \<longrightarrow> st_force s \<or> verdict x t \<or> 0 < failures w \<and> misled x t"
    using te m1(1) mk test_effect(3) [of x t w1 ok how w2] by (auto split: if_splits)
  have ex: "failures w = 0 \<longrightarrow> e = None \<and> ok = (st_force s \<or> verdict x t) \<and> e3 = None"
  proof
    assume z: "failures w = 0"
    then have z1: "failures w1 = 0" "failures w2 = 0" using m1(1) mk f2 by simp_all
    have "e = None" using m1(2) mk z by (cases e) auto
    moreover have "e3 = None" using primitive_used(2) [of p t w2] wr z1(2) by (cases e3) auto
    moreover have "ok = (st_force s \<or> verdict x t)"
      using te test_effect(4) [of x t w1 ok how w2] z1(1) by (cases "st_force s") simp_all
    ultimately show "e = None \<and> ok = (st_force s \<or> verdict x t) \<and> e3 = None" by blast
  qed
  consider (bad) "\<not> good" "status r \<noteq> 200" "w' = w" | (dir) "good" "e \<noteq> None" "status r \<noteq> 200" "w' = w1"
    | (refused) "good" "\<not> ok" "status r \<noteq> 200" "w' = w2"
    | (written) "good" "ok" "w' = w3" "(status r = 200) = (e3 = None)"
    using assms(1,3,5)
    unfolding setXrayConfig_def option.case Let_def assms(3) [symmetric] assms(4) [symmetric] mk prod.case te wr
    by (auto split: if_splits option.splits bool.splits)
  then show ?thesis
  proof cases
    case bad
    then show ?thesis by simp
  next
    case dir
    then show ?thesis using w1 ex by auto
  next
    case refused
    then show ?thesis using w2 ex by auto
  next
    case written
    have "q \<noteq> p \<longrightarrow> file_at w3 q = file_at w q" for q using write_file_other [OF wr] w2 by simp
    moreover have "e3 = None \<longrightarrow> file_at w3 p = Some t" using wr write_file_ok by auto
    moreover have "cd_dec cd t = Some c \<longrightarrow>
        unique_tags (get_list c ''inbounds'') \<and> unique_tags (get_list c ''outbounds'')" for c
      using deduped_unique [OF _ assms(2)] assms(4) by blast
    ultimately show ?thesis using written acc ex by auto
  qed
qed

definition twin :: json where
  "twin = JObj [(''tag'', JStr ''a'')]"

definition demo_codec_json :: codec where
  "demo_codec_json = \<lparr>cd_valid = (\<lambda>_. True),
     cd_dec = (\<lambda>t. if t = ''twins'' then Some [(''inbounds'', JArr [twin, twin])]
                    else if t = ''one'' then Some [(''inbounds'', JArr [twin])] else None),
     cd_enc = (\<lambda>v. if v = [(''inbounds'', JArr [twin])] then ''one'' else ''other'')\<rparr>"

definition lib_check :: xray_check where
  "lib_check = \<lparr>xc_mode = ''embedded'', xc_cli = None, xc_lib = (\<lambda>t. t = ''one'')\<rparr>"

lemma twins_stored:
  "setXrayConfig demo_codec_json lib_check (Some \<lparr>st_config = ''twins'', st_path = [], st_force = False\<rparr>) (blank []) =
     (writeOk [(''message'', JStr ''Config saved successfully''), (''path'', JStr ''/usr/local/etc/xray/config.json'')],
      (blank [])\<lparr>files := [(''/usr/local/etc/xray/config.json'', ''one'')]\<rparr>)"
  if "blank = (\<lambda>t. \<lparr>files = [], tape = t, running = None, api = []\<rparr>)" for blank
  unfolding that by code_simp

definition cli_check :: xray_check where
  "cli_check = \<lparr>xc_mode = ''external'', xc_cli = Some (\<lambda>t. t = ''one''), xc_lib = (\<lambda>_. True)\<rparr>"

theorem stored_config_checked_witness:
  "verdict lib_check ''one'' \<and> file_at (\<lparr>files = [(''/usr/local/etc/xray/config.json'', ''one'')], tape = [],
        running = None, api = []\<rparr>) (hd DefaultXrayConfigPaths) = Some ''one''"
proof -
  let ?s = "\<lparr>st_config = ''twins'', st_path = [], st_force = False\<rparr>"
  let ?w = "\<lparr>files = [], tape = [], running = None, api = []\<rparr>"
  have c: "cd_dec demo_codec_json (cd_enc demo_codec_json v) \<in> {None, Some v}" for v
    by (simp add: demo_codec_json_def)
  have t: "deduped_text demo_codec_json ''twins'' = ''one''" by code_simp
  from stored_config_checked [OF twins_stored [OF refl] c refl refl refl] show ?thesis
    by (simp add: t failures_def)
qed

section \<open>Nginx takes the file back\<close>

text \<open>On a disk that works, and within one second, a configuration nginx refuses is replaced by the one before, where
  there was one.\<close>

lemma refused_nginx_file_restored:
  assumes "saveNginxConfigFile stamp stamp (Some (raw, content)) (w, False # cs) = (r, (w', cs'))"
    and "PathWithinDirs (Clean raw) nginxWriteDirs" "raw \<noteq> []" "tape w = []" "length stamp = 14"
    and "file_at w (Clean raw) = Some old"
  shows "status r = 400 \<and> file_at w' (Clean raw) = Some old"
proof -
  have n: "nginx_backup (Clean raw) stamp \<noteq> Clean raw" by (simp add: nginx_backup_def)
  have b: "back_up (Clean raw) stamp w = put_file (nginx_backup (Clean raw) stamp) old w"
    using assms by (simp add: back_up_def calm_read calm_calls)
  show ?thesis using assms n b
    by (auto simp: saveNginxConfigFile_def calm_read calm_calls run_cmd_def bring_back_def Let_def)
qed

section \<open>Departures\<close>

text \<open>The error of writing the temporary file is ignored. On a disk that is full the command judges what reached the
  file, and a correct configuration is refused as invalid.\<close>

lemma torn_test_refuses:
  "let w = \<lparr>files = [], tape = [Works, Works, Fails (ErrIO ''no space''), Works], running = None, api = []\<rparr>;
       (r, w') = setXrayConfig demo_codec_json cli_check (Some \<lparr>st_config = ''one'', st_path = [], st_force = False\<rparr>) w
   in status r = 400 \<and> verdict cli_check ''one''"
  by code_simp

text \<open>The backup is looked for under the time of the second look at the clock. When the second has changed meanwhile, it
  is not found: the file nginx refused stays in place, and the next restart of nginx fails.\<close>

lemma backup_not_found:
  "let (r, (w', _)) = saveNginxConfigFile ''20240101000001'' ''20240101000002''
         (Some (''/etc/nginx/conf.d/b.conf'', ''broken'')) (site_world, [False])
   in status r = 400 \<and> file_at w' ''/etc/nginx/conf.d/b.conf'' = Some ''broken''"
  by code_simp

text \<open>A refused file that is new stays in place as well.\<close>

lemma refused_new_file_stays:
  "let (r, (w', _)) = saveNginxConfigFile ''20240101000001'' ''20240101000001''
         (Some (''/etc/nginx/conf.d/new.conf'', ''broken'')) (site_world, [False])
   in status r = 400 \<and> file_at w' ''/etc/nginx/conf.d/new.conf'' = Some ''broken''"
  by code_simp

text \<open>Reading is guarded by a prefix of the text, not of the path: neighbours of the directories can be read.\<close>

lemma neighbour_read:
  "let w = \<lparr>files = [(''/usr/local/etc/xray-keys/id'', ''secret'')], tape = [], running = None, api = []\<rparr>
   in status (fst (getXrayConfigFile ''../xray-keys/id'' w)) = 200 \<and>
      \<not> PathWithinDirs ''/usr/local/etc/xray-keys/id'' XrayConfigDirPaths"
  by code_simp

end
