(* ===== verification/Discovery.thy ===== *)
theory Discovery
  imports Config_Files Atomic_File
begin

text \<open>
  Where Xray's configuration is (\<open>internal/discovery\<close>), and whose private keys an external Xray may read
  (\<open>internal/xrayctl/certfiles.go\<close>). The process table, the answers of \<open>systemctl\<close> and the user database are the
  machine's: a record \<open>xray_host\<close>, with one entry of the process table per directory entry of \<open>/proc\<close>. A path
  exists when the file table has it or has a file below it. Owner and mode of a file are a map beside the world; a call
  that changes them succeeds or fails as the tape says.
\<close>

section \<open>Arguments\<close>

record xray_paths =
  ConfigPath :: string
  ConfDir :: string

definition no_paths :: xray_paths where
  "no_paths = \<lparr>ConfigPath = [], ConfDir = []\<rparr>"

definition cut_at :: "char \<Rightarrow> string \<Rightarrow> (string \<times> string) option" where
  "cut_at c s = (if c \<in> set s then Some (takeWhile (\<lambda>x. x \<noteq> c) s, tl (dropWhile (\<lambda>x. x \<noteq> c) s)) else None)"

definition is_config_flag :: "string \<Rightarrow> bool" where
  "is_config_flag a \<longleftrightarrow> a = ''-config'' \<or> a = ''-c'' \<or> a = ''--config''"

definition is_confdir_flag :: "string \<Rightarrow> bool" where
  "is_confdir_flag a \<longleftrightarrow> a = ''-confdir'' \<or> a = ''-d'' \<or> a = ''--confdir''"

definition take_flag :: "string \<Rightarrow> string \<Rightarrow> xray_paths \<Rightarrow> xray_paths" where
  "take_flag k v p =
     (if is_config_flag k then p\<lparr>ConfigPath := v\<rparr>
      else if is_confdir_flag k then p\<lparr>ConfDir := v\<rparr> else p)"

fun parse_args :: "xray_paths \<Rightarrow> string list \<Rightarrow> xray_paths" where
  "parse_args p [] = p"
| "parse_args p (arg # rest) =
     (case cut_at (CHR 0x3D) arg of
        Some (k, v) \<Rightarrow> parse_args (take_flag k v p) rest
      | None \<Rightarrow>
          if is_config_flag arg \<or> is_confdir_flag arg
          then (case rest of [] \<Rightarrow> p | v # rest' \<Rightarrow> parse_args (take_flag arg v p) rest')
          else parse_args p rest)"

definition ParseXrayArgs :: "string list \<Rightarrow> xray_paths" where
  "ParseXrayArgs args = parse_args no_paths args"

section \<open>The machine\<close>

record proc =
  pr_name :: string
  pr_dir :: bool
  pr_comm :: "string option"
  pr_exe :: "string option"
  pr_cmdline :: "string option"
  pr_owner :: "(int \<times> int) option"

record xray_host =
  xh_procs :: "proc list"
  xh_fragment :: "string option"
  xh_systemctl :: bool
  xh_user :: "string option"
  xh_group :: "string option"
  xh_account :: "string \<Rightarrow> (string \<times> string) option"
  xh_group_id :: "string \<Rightarrow> string option"
  xh_euid :: int
  xh_egid :: int
  xh_link :: "string \<Rightarrow> string"
  xh_dec :: "string \<Rightarrow> json option"

definition proc_at :: "xray_host \<Rightarrow> int \<Rightarrow> proc option" where
  "proc_at h pid = find (\<lambda>e. pr_name e = itoa pid) (xh_procs h)"

section \<open>Processes\<close>

definition isXrayProcess :: "xray_host \<Rightarrow> int \<Rightarrow> bool" where
  "isXrayProcess h pid =
     (case proc_at h pid of
        None \<Rightarrow> False
      | Some e \<Rightarrow>
          (case pr_comm e of
             None \<Rightarrow> False
           | Some comm \<Rightarrow>
               if trim_space comm = ''xray'' then True
               else (case pr_exe e of None \<Rightarrow> False | Some exe \<Rightarrow> go_Base exe = ''xray'')))"

definition FindXrayPIDs :: "xray_host \<Rightarrow> int list" where
  "FindXrayPIDs h =
     filter (isXrayProcess h)
       (List.map_filter (\<lambda>e. if pr_dir e then atoi (pr_name e) else None) (xh_procs h))"

definition ParseXrayCmdline :: "xray_host \<Rightarrow> int \<Rightarrow> xray_paths" where
  "ParseXrayCmdline h pid =
     (case proc_at h pid of
        None \<Rightarrow> no_paths
      | Some e \<Rightarrow>
          (case pr_cmdline e of
             None \<Rightarrow> no_paths
           | Some data \<Rightarrow>
               if data = [] then no_paths
               else
                 (let args = split_on (CHR 0x00) (trim_right (\<lambda>c. c = CHR 0x00) data)
                  in if length args > 1 then ParseXrayArgs (tl args) else no_paths)))"

fun first_paths :: "xray_host \<Rightarrow> int list \<Rightarrow> xray_paths" where
  "first_paths h [] = no_paths"
| "first_paths h (pid # pids) =
     (let p = ParseXrayCmdline h pid
      in if ConfigPath p \<noteq> [] \<or> ConfDir p \<noteq> [] then p else first_paths h pids)"

definition DiscoverFromProcess :: "xray_host \<Rightarrow> xray_paths" where
  "DiscoverFromProcess h = first_paths h (FindXrayPIDs h)"

section \<open>The systemd unit\<close>

definition defaultServiceFiles :: "string list" where
  "defaultServiceFiles =
     [''/etc/systemd/system/xray.service'', ''/etc/systemd/system/xray@.service'',
      ''/lib/systemd/system/xray.service'', ''/lib/systemd/system/xray@.service'',
      ''/usr/lib/systemd/system/xray.service'', ''/usr/lib/systemd/system/xray@.service'']"

definition findServiceFileContent :: "xray_host \<Rightarrow> world \<Rightarrow> string \<times> world" where
  "findServiceFileContent h w =
     (case first_readable defaultServiceFiles w of
        (Some (_, data), w1) \<Rightarrow> (data, w1)
      | (None, w1) \<Rightarrow>
          (case xh_fragment h of
             None \<Rightarrow> ([], w1)
           | Some out \<Rightarrow>
               if trim_space out = [] then ([], w1)
               else
                 (case read_file (trim_space out) w1 of
                    (Inl _, w2) \<Rightarrow> ([], w2)
                  | (Inr data, w2) \<Rightarrow> (data, w2))))"

definition exec_line :: "string \<Rightarrow> string \<Rightarrow> string" where
  "exec_line acc raw =
     (let line = trim_space raw
      in if has_prefix line ''ExecStart='' then trim_prefix line ''ExecStart='' else acc)"

definition parseExecStart :: "string \<Rightarrow> xray_paths" where
  "parseExecStart unitContent =
     (let execStart = foldl exec_line [] (split_on (CHR 0x0A) unitContent)
      in if execStart = [] then no_paths
         else
           (let args = go_fields (trim_left (\<lambda>c. c = CHR 0x2D) execStart)
            in if length args < 2 then no_paths else ParseXrayArgs (tl args)))"

definition DiscoverFromSystemd :: "xray_host \<Rightarrow> world \<Rightarrow> xray_paths \<times> world" where
  "DiscoverFromSystemd h w =
     (case findServiceFileContent h w of
        (content, w1) \<Rightarrow> (if content = [] then no_paths else parseExecStart content, w1))"

section \<open>Discovery\<close>

definition path_exists :: "world \<Rightarrow> string \<Rightarrow> bool" where
  "path_exists w p \<longleftrightarrow> file_at w p \<noteq> None \<or> list_ex (\<lambda>q. has_prefix q (p @ ''/'')) (List.map fst (files w))"

definition pathsUsable :: "world \<Rightarrow> xray_paths \<Rightarrow> bool" where
  "pathsUsable w p =
     (if ConfigPath p = [] \<and> ConfDir p = [] then False
      else if ConfigPath p \<noteq> [] then path_exists w (ConfigPath p)
      else True)"

definition discoverFromStaticPaths :: "world \<Rightarrow> xray_paths" where
  "discoverFromStaticPaths w =
     (case find (path_exists w) DefaultXrayConfigPaths of
        Some p \<Rightarrow> \<lparr>ConfigPath = p, ConfDir = []\<rparr>
      | None \<Rightarrow> no_paths)"

definition Discover :: "xray_host \<Rightarrow> world \<Rightarrow> xray_paths \<times> world" where
  "Discover h w =
     (if pathsUsable w (DiscoverFromProcess h) then (DiscoverFromProcess h, w)
      else
        (case DiscoverFromSystemd h w of
           (p, w1) \<Rightarrow> if pathsUsable w1 p then (p, w1) else (discoverFromStaticPaths w1, w1)))"

section \<open>The keys an external Xray reads\<close>

record fmeta =
  fm_uid :: int
  fm_gid :: int
  fm_mode :: nat

type_synonym owners = "string \<Rightarrow> fmeta"

fun collectKeyFiles :: "json \<Rightarrow> string list" where
  "collectKeyFiles (JObj m) =
     concat (List.map (\<lambda>(k, v).
       (case v of
          JStr p \<Rightarrow> if k = ''keyFile'' \<and> IsAbs p then [p] else []
        | _ \<Rightarrow> []) @ collectKeyFiles v) m)"
| "collectKeyFiles (JArr xs) = concat (List.map collectKeyFiles xs)"
| "collectKeyFiles _ = []"

definition systemdProperty :: "string option \<Rightarrow> string option" where
  "systemdProperty answer = map_option trim_space answer"

definition lookup_ids :: "xray_host \<Rightarrow> string \<Rightarrow> (string + (int \<times> int))" where
  "lookup_ids h userValue =
     (case xh_account h userValue of
        None \<Rightarrow> Inl ''lookup user''
      | Some (uid, gid) \<Rightarrow>
          (case atoi uid of
             None \<Rightarrow> Inl ''parse uid''
           | Some u \<Rightarrow>
               (case systemdProperty (xh_group h) of
                  None \<Rightarrow> Inl ''systemctl show''
                | Some gv \<Rightarrow>
                    (let gidValue = (if gv = [] then gid
                                     else (case xh_group_id h gv of Some g \<Rightarrow> g | None \<Rightarrow> gv))
                     in (case atoi gidValue of None \<Rightarrow> Inl ''parse gid'' | Some g \<Rightarrow> Inr (u, g))))))"

definition xrayRuntimeIdentity :: "xray_host \<Rightarrow> (string + (int \<times> int))" where
  "xrayRuntimeIdentity h =
     (case List.map_filter (\<lambda>pid. Option.bind (proc_at h pid) pr_owner) (FindXrayPIDs h) of
        ids # _ \<Rightarrow> Inr ids
      | [] \<Rightarrow>
          if \<not> xh_systemctl h then Inr (xh_euid h, xh_egid h)
          else
            (case systemdProperty (xh_user h) of
               None \<Rightarrow> Inr (xh_euid h, xh_egid h)
             | Some u \<Rightarrow> if u = [] \<or> u = ''root'' then Inr (0, 0) else lookup_ids h u))"

fun repair_keys :: "xray_host \<Rightarrow> int \<times> int \<Rightarrow> string list \<Rightarrow> world \<times> owners \<Rightarrow> io_err option \<times> world \<times> owners" where
  "repair_keys h ids [] s = (None, s)"
| "repair_keys h ids (k # ks) (w, own) =
     (if \<not> CertPathSafe k then repair_keys h ids ks (w, own)
      else
        (case sys_call w of
           (Some ErrNotExist, w1) \<Rightarrow> repair_keys h ids ks (w1, own)
         | (Some e, w1) \<Rightarrow> (Some e, w1, own)
         | (None, w1) \<Rightarrow>
             (let resolved = xh_link h k
              in if file_at w1 resolved = None then repair_keys h ids ks (w1, own)
                 else if \<not> CertPathSafe resolved then repair_keys h ids ks (w1, own)
                 else
                   (case sys_call w1 of
                      (Some e, w2) \<Rightarrow> (Some e, w2, own)
                    | (None, w2) \<Rightarrow>
                        (let own1 = own(resolved := (own resolved)\<lparr>fm_uid := fst ids, fm_gid := snd ids\<rparr>)
                         in (case sys_call w2 of
                               (Some e, w3) \<Rightarrow> (Some e, w3, own1)
                             | (None, w3) \<Rightarrow>
                                 repair_keys h ids ks
                                   (w3, own1(resolved := (own1 resolved)\<lparr>fm_mode := 0x180\<rparr>))))))))"

definition config_candidates :: "xray_paths \<Rightarrow> world \<Rightarrow> string list" where
  "config_candidates p w =
     (if ConfigPath p \<noteq> [] then [ConfigPath p] else []) @
     (if ConfDir p \<noteq> []
      then List.map (go_Join (ConfDir p)) (filter (\<lambda>n. has_suffix (to_lower n) ''.json'') (dir_files w (Clean (ConfDir p))))
      else [])"

fun referenced_keys :: "xray_host \<Rightarrow> string list \<Rightarrow> world \<Rightarrow> string list \<times> world" where
  "referenced_keys h [] w = ([], w)"
| "referenced_keys h (f # fs) w =
     (case read_file f w of
        (Inl _, w1) \<Rightarrow> referenced_keys h fs w1
      | (Inr raw, w1) \<Rightarrow>
          (let here = (case xh_dec h raw of None \<Rightarrow> [] | Some v \<Rightarrow> collectKeyFiles v)
           in (case referenced_keys h fs w1 of (ks, w2) \<Rightarrow> (here @ ks, w2))))"

definition RepairReferencedPrivateKeyPermissions ::
  "xray_host \<Rightarrow> world \<times> owners \<Rightarrow> string option \<times> world \<times> owners" where
  "RepairReferencedPrivateKeyPermissions h s =
     (case s of (w, own) \<Rightarrow>
        (case Discover h w of
           (paths, w1) \<Rightarrow>
             (case referenced_keys h (config_candidates paths w1) w1 of
                (keys, w2) \<Rightarrow>
                  if keys = [] then (None, w2, own)
                  else
                    (case xrayRuntimeIdentity h of
                       Inl e \<Rightarrow> (Some e, w2, own)
                     | Inr ids \<Rightarrow>
                         (case repair_keys h ids (remdups keys) (w2, own) of
                            (None, s3) \<Rightarrow> (None, s3)
                          | (Some e, s3) \<Rightarrow> (Some ''repair'', s3))))))"

section \<open>Writing a certificate pair\<close>

text \<open>\<open>writeAtomicOwned\<close>: the temporary file is filled, owned and closed before it takes the target's place; the deferred
  removal runs only when an error is returned. \<open>os.Rename\<close> keeps owner and mode.\<close>

definition fill_owned :: "string \<Rightarrow> string \<Rightarrow> nat \<Rightarrow> int \<times> int \<Rightarrow> world \<times> owners \<Rightarrow> io_err option \<times> world \<times> owners" where
  "fill_owned tmp data mode ids s =
     (case s of (w, own) \<Rightarrow>
        (case write_file tmp data w of
           (Some e, w1) \<Rightarrow> (Some e, w1, own)
         | (None, w1) \<Rightarrow>
             (case sys_call w1 of
                (Some e, w2) \<Rightarrow> (Some e, w2, own)
              | (None, w2) \<Rightarrow>
                  (case sys_call w2 of
                     (Some e, w3) \<Rightarrow> (Some e, w3, own)
                   | (None, w3) \<Rightarrow>
                       (let own1 = own(tmp := (own tmp)\<lparr>fm_mode := mode\<rparr>)
                        in (case sys_call w3 of
                              (Some e, w4) \<Rightarrow> (Some e, w4, own1)
                            | (None, w4) \<Rightarrow>
                                (let own2 = own1(tmp := (own1 tmp)\<lparr>fm_uid := fst ids, fm_gid := snd ids\<rparr>)
                                 in (case sys_call w4 of
                                       (Some e, w5) \<Rightarrow> (Some e, w5, own2)
                                     | (None, w5) \<Rightarrow> (None, w5, own2)))))))))"

definition writeAtomicOwned ::
  "string \<Rightarrow> string \<Rightarrow> nat \<Rightarrow> int \<times> int \<Rightarrow> world \<times> owners \<Rightarrow> io_err option \<times> world \<times> owners" where
  "writeAtomicOwned target data mode ids s =
     (case s of (w, own) \<Rightarrow>
        (case sys_call w of
           (Some e, w1) \<Rightarrow> (Some e, w1, own)
         | (None, w1) \<Rightarrow>
             (let tmp = temp_name ''.mmwx-cert-'' target w1
              in (case sys_call w1 of
                    (Some e, w2) \<Rightarrow> (Some e, w2, own)
                  | (None, w2) \<Rightarrow>
                      (case fill_owned tmp data mode ids (put_file tmp [] w2, own) of
                         (Some e, w3, own3) \<Rightarrow> (Some e, snd (remove_file tmp w3), own3)
                       | (None, w3, own3) \<Rightarrow>
                           (case rename_file tmp target w3 of
                              (Some e, w4) \<Rightarrow> (Some e, snd (remove_file tmp w4), own3)
                            | (None, w4) \<Rightarrow> (None, w4, own3(target := own3 tmp))))))))"

datatype pair_err = NoIdentity string | CertWrite io_err | KeyWrite io_err

definition WriteCertificatePair ::
  "xray_host \<Rightarrow> string \<Rightarrow> string \<Rightarrow> string \<Rightarrow> string \<Rightarrow> bool \<Rightarrow> world \<times> owners \<Rightarrow>
   pair_err option \<times> world \<times> owners" where
  "WriteCertificatePair h certPath keyPath certPEM keyPEM forXray s =
     (case (if forXray then xrayRuntimeIdentity h else Inr (xh_euid h, xh_egid h)) of
        Inl e \<Rightarrow> (Some (NoIdentity e), s)
      | Inr ids \<Rightarrow>
          (case writeAtomicOwned certPath certPEM 0x1A4 (xh_euid h, xh_egid h) s of
             (Some e, s1) \<Rightarrow> (Some (CertWrite e), s1)
           | (None, s1) \<Rightarrow>
               (case writeAtomicOwned keyPath keyPEM 0x180 ids s1 of
                  (Some e, s2) \<Rightarrow> (Some (KeyWrite e), s2)
                | (None, s2) \<Rightarrow> (None, s2))))"

section \<open>Lemmas\<close>

lemma flags_no_eq [simp]:
  "is_config_flag a \<Longrightarrow> cut_at (CHR 0x3D) a = None" "is_confdir_flag a \<Longrightarrow> cut_at (CHR 0x3D) a = None"
  by (auto simp: is_config_flag_def is_confdir_flag_def cut_at_def)

lemma flags_differ [simp]: "is_confdir_flag a \<Longrightarrow> \<not> is_config_flag a"
  by (auto simp: is_config_flag_def is_confdir_flag_def)

text \<open>A flag with its value sets that field and nothing else, whatever the value looks like.\<close>

lemma parse_flag_value:
  "is_config_flag a \<Longrightarrow> parse_args p (a # v # rest) = parse_args (p\<lparr>ConfigPath := v\<rparr>) rest"
  "is_confdir_flag a \<Longrightarrow> parse_args p (a # v # rest) = parse_args (p\<lparr>ConfDir := v\<rparr>) rest"
  by (simp_all add: take_flag_def)

lemma first_usable_default:
  "find (path_exists w) DefaultXrayConfigPaths = Some p \<Longrightarrow> path_exists w p"
  by (metis find_Some_iff)

lemma first_readable_files: "first_readable ps w = (r, w') \<Longrightarrow> files w' = files w"
  by (induction ps arbitrary: w) (auto dest: read_file_frame split: prod.splits sum.splits)

lemma systemd_at: "files (snd (DiscoverFromSystemd h w)) = files w"
  by (auto simp: DiscoverFromSystemd_def findServiceFileContent_def dest!: first_readable_files dest: read_file_frame
      split: prod.splits option.splits sum.splits)

lemma path_exists_cong: "files w = files w' \<Longrightarrow> path_exists w p = path_exists w' p"
  by (simp add: path_exists_def file_at_def)

lemma discover_files: "Discover h w = (p, w') \<Longrightarrow> files w' = files w"
  using systemd_at [of h w] by (auto simp: Discover_def split: if_splits prod.splits)

lemma referenced_files: "referenced_keys h fs w = (ks, w') \<Longrightarrow> files w' = files w"
proof (induction fs arbitrary: w ks)
  case (Cons f fs)
  obtain r w1 where 1: "read_file f w = (r, w1)" by fastforce
  obtain ks' w2 where 2: "referenced_keys h fs w1 = (ks', w2)" by fastforce
  from Cons 1 2 read_file_frame [OF 1] show ?case by (auto split: sum.splits)
qed simp

section \<open>The arguments\<close>

text \<open>The arguments Xray was started with hold the last path given for each kind; earlier ones are lost.\<close>

lemma last_config_wins:
  "ParseXrayArgs [''run'', ''-c'', ''/a.json'', ''-c'', ''/b.json''] = \<lparr>ConfigPath = ''/b.json'', ConfDir = []\<rparr>"
  by code_simp

section \<open>A usable configuration\<close>

text \<open>What discovery returns is usable: a configuration path that exists, or none at all. A running Xray comes
  before the systemd unit, and both come before the default paths; a source that names a missing file is passed over.\<close>

theorem Discover_usable:
  assumes "Discover h w = (p, w')"
  shows "(ConfigPath p = [] \<or> path_exists w (ConfigPath p)) \<and> files w' = files w \<and>
    (pathsUsable w (DiscoverFromProcess h) \<longrightarrow> p = DiscoverFromProcess h) \<and>
    (\<not> pathsUsable w (DiscoverFromProcess h) \<longrightarrow>
       (let unit = fst (DiscoverFromSystemd h w)
        in p = (if pathsUsable w unit then unit else discoverFromStaticPaths w)))"
proof -
  obtain u w1 where u: "DiscoverFromSystemd h w = (u, w1)" by fastforce
  have f: "files w1 = files w" using systemd_at [of h w] u by simp
  have c: "path_exists w1 = path_exists w" by (rule ext) (rule path_exists_cong [OF f])
  have use: "pathsUsable w1 = pathsUsable w" by (rule ext) (simp add: pathsUsable_def c)
  have st: "discoverFromStaticPaths w1 = discoverFromStaticPaths w" by (simp add: discoverFromStaticPaths_def c)
  have ok: "ConfigPath q = [] \<or> path_exists w (ConfigPath q)" if "pathsUsable w q" for q
    using that by (auto simp: pathsUsable_def split: if_splits)
  have sok: "ConfigPath (discoverFromStaticPaths w) = [] \<or> path_exists w (ConfigPath (discoverFromStaticPaths w))"
    using first_usable_default [of w] by (auto simp: discoverFromStaticPaths_def no_paths_def split: option.splits)
  from assms ok sok show ?thesis
    unfolding Discover_def u using f use st by (auto split: if_splits)
qed

definition demo_xray :: "string option \<Rightarrow> xray_host" where
  "demo_xray cmd =
     \<lparr>xh_procs = [\<lparr>pr_name = ''7'', pr_dir = True, pr_comm = Some ''xray'', pr_exe = None, pr_cmdline = cmd, pr_owner = Some (65534, 65534)\<rparr>],
      xh_fragment = None, xh_systemctl = True, xh_user = None, xh_group = None, xh_account = (\<lambda>_. None),
      xh_group_id = (\<lambda>_. None), xh_euid = 0, xh_egid = 0, xh_link = id,
      xh_dec = (\<lambda>s. if s = ''K'' then Some (JObj [(''keyFile'', JStr ''/x/k.pem'')]) else None)\<rparr>"

definition demo_files :: "(string \<times> string) list \<Rightarrow> world" where
  "demo_files fs = \<lparr>files = fs, tape = [], running = None, api = []\<rparr>"

lemma Discover_usable_witness:
  "(let h = demo_xray (Some (''/bin/xray'' @ [CHR 0x00] @ ''-c'' @ [CHR 0x00] @ ''/x/c.json'' @ [CHR 0x00]));
        w = demo_files [(''/x/c.json'', ''K'')]
    in Discover h w = (\<lparr>ConfigPath = ''/x/c.json'', ConfDir = []\<rparr>, w) \<and> path_exists w ''/x/c.json'')"
proof -
  define h where "h = demo_xray (Some (''/bin/xray'' @ [CHR 0x00] @ ''-c'' @ [CHR 0x00] @ ''/x/c.json'' @ [CHR 0x00]))"
  define w where "w = demo_files [(''/x/c.json'', ''K'')]"
  have d: "Discover h w = (\<lparr>ConfigPath = ''/x/c.json'', ConfDir = []\<rparr>, w)" unfolding h_def w_def by code_simp
  from Discover_usable [OF d] d show ?thesis unfolding h_def [symmetric] w_def [symmetric] Let_def by simp
qed

section \<open>The referenced keys\<close>

inductive key_file_in :: "string \<Rightarrow> json \<Rightarrow> bool" where
  here: "(''keyFile'', JStr p) \<in> set m \<Longrightarrow> IsAbs p \<Longrightarrow> key_file_in p (JObj m)"
| in_obj: "(k, v) \<in> set m \<Longrightarrow> key_file_in p v \<Longrightarrow> key_file_in p (JObj m)"
| in_arr: "v \<in> set xs \<Longrightarrow> key_file_in p v \<Longrightarrow> key_file_in p (JArr xs)"

inductive_cases key_file_objE: "key_file_in p (JObj m)"
inductive_cases key_file_arrE: "key_file_in p (JArr xs)"
inductive_simps key_file_leaf [simp]:
  "key_file_in p JNull" "key_file_in p (JBool b)" "key_file_in p (JNum n e)" "key_file_in p (JStr s)"

text \<open>The search for keys finds exactly the absolute paths that stand as a \<open>keyFile\<close> at any depth of a
  configuration.\<close>

theorem collectKeyFiles_exact: "p \<in> set (collectKeyFiles v) \<longleftrightarrow> key_file_in p v"
proof
  show "p \<in> set (collectKeyFiles v) \<Longrightarrow> key_file_in p v"
    by (induction v rule: collectKeyFiles.induct)
      (auto split: json.splits if_splits intro: key_file_in.intros)
  show "key_file_in p v \<Longrightarrow> p \<in> set (collectKeyFiles v)"
    by (induction rule: key_file_in.induct) force+
qed

section \<open>Repairing their owners\<close>

definition repairable :: "xray_host \<Rightarrow> world \<Rightarrow> string \<Rightarrow> bool" where
  "repairable h w k \<longleftrightarrow> CertPathSafe k \<and> CertPathSafe (xh_link h k) \<and> file_at w (xh_link h k) \<noteq> None"

lemma repair_keys_frame:
  "repair_keys h ids ks (w, own) = (r, w', own') \<Longrightarrow>
     files w' = files w \<and> (\<forall>q. own' q = own q \<or> (\<exists>k\<in>set ks. repairable h w k \<and> q = xh_link h k))"
proof (induction ks arbitrary: w own)
  case (Cons k ks)
  have f: "files w2 = files w1" if "sys_call w1 = (e, w2)" for e w1 w2 using that by (simp add: sys_call_frame)
  have rep: "repairable h v = repairable h w" if "files v = files w" for v
    using that by (auto simp: repairable_def file_at_def fun_eq_iff)
  obtain a w1 where 1: "sys_call w = (a, w1)" by fastforce
  obtain b w2 where 2: "sys_call w1 = (b, w2)" by fastforce
  obtain c w3 where 3: "sys_call w2 = (c, w3)" by fastforce
  note fs = f [OF 1] f [OF 2] f [OF 3]
  have skip1: ?case if "repair_keys h ids ks (w, own) = (r, w', own')"
    using Cons.IH [OF that] by auto
  have skip2: ?case if "repair_keys h ids ks (w1, own) = (r, w', own')"
    using Cons.IH [OF that] rep [OF fs(1)] fs by auto
  have step: ?case if "repair_keys h ids ks (w3, own1) = (r, w', own')" "repairable h w k"
    "\<forall>q. own1 q = own q \<or> q = xh_link h k" for own1
    using Cons.IH [OF that(1)] rep [of w3] fs that(2,3) by (metis list.set_intros(1,2))
  have at: "file_at w1 q = file_at w q" for q using fs by (simp add: file_at_def)
  show ?case
    using Cons.prems skip1 skip2 step 1 2 3 fs at
    by (auto simp: Let_def repairable_def split: if_splits option.splits io_err.splits)
qed simp

text \<open>When no call fails, every referenced key that is there and safe ends up with Xray's identity and mode 0600.\<close>

lemma repair_keys_done:
  "tape w = [] \<Longrightarrow> repair_keys h ids ks (w, own) =
     (None, w, \<lambda>q. if \<exists>k\<in>set ks. repairable h w k \<and> q = xh_link h k
                  then \<lparr>fm_uid = fst ids, fm_gid = snd ids, fm_mode = 0x180\<rparr> else own q)"
proof (induction ks arbitrary: own)
  case (Cons k ks)
  have calm: "sys_call w = (None, w)" using Cons.prems by (simp add: sys_call_def next_outcome_def)
  show ?case
  proof (cases "repairable h w k")
    case True
    define own1 where "own1 = own(xh_link h k := \<lparr>fm_uid = fst ids, fm_gid = snd ids, fm_mode = 0x180\<rparr>)"
    have "repair_keys h ids (k # ks) (w, own) = repair_keys h ids ks (w, own1)"
      using True unfolding own1_def by (cases "own (xh_link h k)") (auto simp: calm repairable_def Let_def)
    with Cons True show ?thesis by (auto simp: own1_def fun_eq_iff)
  next
    case False
    have "repair_keys h ids (k # ks) (w, own) = repair_keys h ids ks (w, own)"
      using False by (auto simp: calm repairable_def Let_def)
    with Cons False show ?thesis by auto
  qed
qed simp

lemma referenced_sound:
  "referenced_keys h fs w = (ks, w') \<Longrightarrow> k \<in> set ks \<Longrightarrow>
     \<exists>c\<in>set fs. \<exists>raw v. file_at w c = Some raw \<and> xh_dec h raw = Some v \<and> k \<in> set (collectKeyFiles v)"
proof (induction fs arbitrary: w ks w')
  case (Cons f fs)
  obtain r w1 where 1: "read_file f w = (r, w1)" by fastforce
  obtain ks' w2 where 2: "referenced_keys h fs w1 = (ks', w2)" by fastforce
  have at: "file_at w1 q = file_at w q" for q by (rule read_file_at [OF 1])
  show ?case
  proof (cases "k \<in> set ks'")
    case True
    from Cons.IH [OF 2 True] at show ?thesis by auto
  next
    case False
    with Cons.prems 1 2 obtain raw v where "r = Inr raw" "xh_dec h raw = Some v" "k \<in> set (collectKeyFiles v)"
      by (auto split: sum.splits option.splits)
    with read_file_Inr 1 show ?thesis by (metis list.set_intros(1))
  qed
qed simp

text \<open>Before an external Xray restarts, the agent changes the owner and mode only of files some configuration
  names as a private key and only where both the name and what it resolves to are safe; no content changes.\<close>

theorem repair_confined:
  assumes "RepairReferencedPrivateKeyPermissions h (w, own) = (r, w', own')"
  shows "files w' = files w \<and>
    (\<forall>q. own' q = own q \<or>
       (\<exists>c raw v k. file_at w c = Some raw \<and> xh_dec h raw = Some v \<and> k \<in> set (collectKeyFiles v) \<and>
          q = xh_link h k \<and> CertPathSafe k \<and> CertPathSafe q))"
proof -
  obtain p w1 where 1: "Discover h w = (p, w1)" by fastforce
  obtain ks w2 where 2: "referenced_keys h (config_candidates p w1) w1 = (ks, w2)" by fastforce
  have f: "files w1 = files w" "files w2 = files w" using discover_files [OF 1] referenced_files [OF 2] by simp_all
  have snd_ref: "\<exists>c raw v. file_at w c = Some raw \<and> xh_dec h raw = Some v \<and> k \<in> set (collectKeyFiles v)"
    if "k \<in> set ks" for k
    using referenced_sound [OF 2 that] f by (auto simp: file_at_def)
  have fin: ?thesis if "repair_keys h ids (remdups ks) (w2, own) = (a, w', own')" for ids a
    using repair_keys_frame [OF that] f snd_ref by (auto simp: repairable_def) metis
  from assms 1 2 f fin show ?thesis
    by (auto simp: RepairReferencedPrivateKeyPermissions_def split: if_splits sum.splits prod.splits option.splits)
qed

lemma repair_confined_witness:
  "(let h = demo_xray (Some (''/bin/xray'' @ [CHR 0x00] @ ''-c'' @ [CHR 0x00] @ ''/x/c.json'' @ [CHR 0x00]));
        w = demo_files [(''/x/c.json'', ''K''), (''/x/k.pem'', ''key'')];
        own = (\<lambda>_. \<lparr>fm_uid = 0, fm_gid = 0, fm_mode = 0x180\<rparr>);
        res = RepairReferencedPrivateKeyPermissions h (w, own)
    in fst res = None \<and> files (fst (snd res)) = files w \<and> fm_uid (snd (snd res) ''/x/k.pem'') = 65534)"
proof -
  define h where "h = demo_xray (Some (''/bin/xray'' @ [CHR 0x00] @ ''-c'' @ [CHR 0x00] @ ''/x/c.json'' @ [CHR 0x00]))"
  define w where "w = demo_files [(''/x/c.json'', ''K''), (''/x/k.pem'', ''key'')]"
  define own :: owners where "own = (\<lambda>_. \<lparr>fm_uid = 0, fm_gid = 0, fm_mode = 0x180\<rparr>)"
  define res where "res = RepairReferencedPrivateKeyPermissions h (w, own)"
  have d: "fst res = None" "fm_uid (snd (snd res) ''/x/k.pem'') = 65534"
    unfolding res_def h_def w_def own_def by code_simp+
  have "RepairReferencedPrivateKeyPermissions h (w, own) = (fst res, fst (snd res), snd (snd res))"
    by (simp add: res_def)
  from repair_confined [OF this] d show ?thesis
    unfolding h_def [symmetric] w_def [symmetric] own_def [symmetric] res_def [symmetric] Let_def by simp
qed

section \<open>The pair\<close>

lemma fill_owned_effect:
  assumes "fill_owned tmp data mode ids (w, own) = (r, w', own')"
  shows "running w' = running w" and "q \<noteq> tmp \<Longrightarrow> file_at w' q = file_at w q \<and> own' q = own q"
    and "r = None \<Longrightarrow> file_at w' tmp = Some data \<and> own' tmp = \<lparr>fm_uid = fst ids, fm_gid = snd ids, fm_mode = mode\<rparr>"
  using assms
  by (auto simp: fill_owned_def Let_def go_frame sys_call_at [where q = tmp] sys_call_at [where q = q]
      write_file_other [where q = q] write_file_ok
      dest!: sys_call_frame write_file_running split: prod.splits option.splits)

text \<open>A certificate file is replaced whole or not at all, and the file that appears has its owner and mode from the
  first moment on; no other file changes but the temporary one.\<close>

theorem writeAtomicOwned_effect:
  assumes "writeAtomicOwned target data mode ids (w, own) = (r, w', own')"
  shows "if r = None
    then file_at w' target = Some data \<and> own' target = \<lparr>fm_uid = fst ids, fm_gid = snd ids, fm_mode = mode\<rparr>
    else file_at w' target = file_at w target \<and> own' target = own target"
proof -
  obtain a w1 where 1: "sys_call w = (a, w1)" by fastforce
  define tmp where "tmp = temp_name ''.mmwx-cert-'' target w1"
  have ne: "target \<noteq> tmp" unfolding tmp_def by (metis temp_name_neq le_refl)
  obtain b w2 where 2: "sys_call w1 = (b, w2)" by fastforce
  obtain c w3 own3 where 3: "fill_owned tmp data mode ids (put_file tmp [] w2, own) = (c, w3, own3)"
    by (metis prod_cases3)
  obtain d w4 where 4: "rename_file tmp target w3 = (d, w4)" by fastforce
  have at2: "file_at w2 q = file_at w q" "file_at w1 q = file_at w q" for q
    using sys_call_at [OF 1] sys_call_at [OF 2] by simp_all
  have at3: "file_at w3 target = file_at w target" "own3 target = own target"
    using fill_owned_effect(2) [OF 3 ne] at2 ne by simp_all
  have filled: "c = None \<Longrightarrow> file_at w3 tmp = Some data \<and> own3 tmp = \<lparr>fm_uid = fst ids, fm_gid = snd ids, fm_mode = mode\<rparr>"
    by (rule fill_owned_effect(3) [OF 3])
  have rem: "file_at (snd (remove_file tmp v)) target = file_at v target" for v
    using ne by (simp add: remove_snd_other)
  have body: "writeAtomicOwned target data mode ids (w, own) =
    (case a of Some e \<Rightarrow> (Some e, w1, own)
     | None \<Rightarrow> (case b of Some e \<Rightarrow> (Some e, w2, own)
        | None \<Rightarrow> (case c of Some e \<Rightarrow> (Some e, snd (remove_file tmp w3), own3)
           | None \<Rightarrow> (case d of Some e \<Rightarrow> (Some e, snd (remove_file tmp w4), own3)
              | None \<Rightarrow> (None, w4, own3(target := own3 tmp))))))"
    unfolding writeAtomicOwned_def by (simp add: 1 2 3 4 tmp_def [symmetric] split: option.splits)
  note ren = rename_file_target [OF 4]
  show ?thesis
    using assms at2 at3 rem filled ren unfolding body by (cases a; cases b; cases c; cases d) auto
qed

definition cert_world :: world where
  "cert_world = demo_files [(''/x/k.pem'', ''old'')]"

lemma writeAtomicOwned_effect_witness:
  "(let own = (\<lambda>_. \<lparr>fm_uid = 0, fm_gid = 0, fm_mode = 0x1A4\<rparr>);
        res = writeAtomicOwned ''/x/k.pem'' ''new'' 0x180 (5, 6) (cert_world, own)
    in fst res = None \<and> file_at (fst (snd res)) ''/x/k.pem'' = Some ''new'' \<and>
       snd (snd res) ''/x/k.pem'' = \<lparr>fm_uid = 5, fm_gid = 6, fm_mode = 0x180\<rparr>)"
proof -
  define own :: owners where "own = (\<lambda>_. \<lparr>fm_uid = 0, fm_gid = 0, fm_mode = 0x1A4\<rparr>)"
  define res where "res = writeAtomicOwned ''/x/k.pem'' ''new'' 0x180 (5, 6) (cert_world, own)"
  have d: "fst res = None" unfolding res_def own_def by code_simp
  have "writeAtomicOwned ''/x/k.pem'' ''new'' 0x180 (5, 6) (cert_world, own) = (fst res, fst (snd res), snd (snd res))"
    by (simp add: res_def)
  from writeAtomicOwned_effect [OF this] d show ?thesis
    unfolding own_def [symmetric] res_def [symmetric] Let_def by simp
qed

text \<open>The pair is not replaced as one: a key that cannot be written leaves the new certificate beside the old key.\<close>

lemma pair_torn:
  "(let own = (\<lambda>_. \<lparr>fm_uid = 0, fm_gid = 0, fm_mode = 0x1A4\<rparr>);
        w = \<lparr>files = [(''/x/c.pem'', ''C0''), (''/x/k.pem'', ''K0'')], tape = replicate 9 Works @ [Fails (ErrIO ''full'')],
             running = None, api = []\<rparr>;
        res = WriteCertificatePair (demo_xray None) ''/x/c.pem'' ''/x/k.pem'' ''C1'' ''K1'' False (w, own)
    in file_at (fst (snd res)) ''/x/c.pem'' = Some ''C1'' \<and> file_at (fst (snd res)) ''/x/k.pem'' = Some ''K0'')"
  by code_simp

end
