(* ===== verification/Xray_Service.thy ===== *)
theory Xray_Service
  imports Discovery Agent_Yaml Xray_Ensure
begin

text \<open>
  Starting and stopping Xray: the embedded instance (\<open>internal/embedded/xray.go\<close>), an external process
  (\<open>internal/xrayctl/restart.go\<close>), and the management handlers above both, which hand port 443 over between Xray and
  nginx (\<open>internal/handler/management_handler.go\<close>). The state is a record \<open>svc\<close>: the file world with the answers of
  commands, the owners of files, the answers of the Xray library, the embedded instance, the stops that are deferred to a
  goroutine, and the log of what was asked of nginx, Xray and the service manager, in order.
\<close>

section \<open>The state\<close>

datatype svc_call =
    NginxStopped
  | NginxStarted
  | NginxReloaded
  | XrayUp string
  | XrayFailed
  | XrayDown
  | Systemctl string
  | Killed int
  | Spawned string "string list"
  | Ran string
  | Installed

record emb =
  em_path :: string
  em_run :: "string option"

record svc =
  sv_sys :: nworld
  sv_own :: owners
  sv_core :: "bool list"
  sv_emb :: "emb option"
  sv_pending :: nat
  sv_calls :: "svc_call list"

record svc_env =
  se_nginx :: nginx_host
  se_xray :: xray_host
  se_mode :: string
  se_method :: string
  se_custom :: string
  se_docker :: bool
  se_enc :: "obj \<Rightarrow> string"
  se_access :: string
  se_binary :: bool

abbreviation disk :: "svc \<Rightarrow> world" where
  "disk st \<equiv> fst (sv_sys st)"

definition called :: "svc_call \<Rightarrow> svc \<Rightarrow> svc" where
  "called c st = st\<lparr>sv_calls := sv_calls st @ [c]\<rparr>"

definition on_world :: "(world \<Rightarrow> 'a \<times> world) \<Rightarrow> svc \<Rightarrow> 'a \<times> svc" where
  "on_world f st = (case f (disk st) of (r, w) \<Rightarrow> (r, st\<lparr>sv_sys := (w, snd (sv_sys st))\<rparr>))"

definition on_sys :: "(nworld \<Rightarrow> 'a \<times> nworld) \<Rightarrow> svc \<Rightarrow> 'a \<times> svc" where
  "on_sys f st = (case f (sv_sys st) of (r, s) \<Rightarrow> (r, st\<lparr>sv_sys := s\<rparr>))"

text \<open>A call of the Xray library: it works, or returns an error or panics, which the deferred handlers turn into an error.\<close>

definition core_call :: "svc \<Rightarrow> bool \<times> svc" where
  "core_call st = (case sv_core st of [] \<Rightarrow> (True, st) | b # bs \<Rightarrow> (b, st\<lparr>sv_core := bs\<rparr>))"

section \<open>The embedded instance\<close>

text \<open>What Xray is built from: the file's text with the access log set.\<close>

definition core_text :: "svc_env \<Rightarrow> string \<Rightarrow> string" where
  "core_text env data = injectAccessLog (\<lambda>s. Option.bind (xh_dec (se_xray env) s) as_obj) (se_enc env) (se_access env) data"

definition embedded_Start :: "svc_env \<Rightarrow> emb \<Rightarrow> svc \<Rightarrow> bool \<times> emb \<times> svc" where
  "embedded_Start env e st =
     (case on_world (read_file (em_path e)) st of
        (Inl _, st1) \<Rightarrow> (False, e, called XrayFailed st1)
      | (Inr data, st1) \<Rightarrow>
          (case core_call st1 of
             (False, st2) \<Rightarrow> (False, e, called XrayFailed st2)
           | (True, st2) \<Rightarrow>
               (case core_call st2 of
                  (False, st3) \<Rightarrow> (False, e, called XrayFailed st3)
                | (True, st3) \<Rightarrow>
                    (case core_call st3 of
                       (False, st4) \<Rightarrow> (False, e, called XrayFailed (snd (core_call st4)))
                     | (True, st4) \<Rightarrow> (True, e\<lparr>em_run := Some (core_text env data)\<rparr>, called (XrayUp (core_text env data)) st4)))))"

definition embedded_Stop :: "emb \<Rightarrow> svc \<Rightarrow> bool \<times> emb \<times> svc" where
  "embedded_Stop e st =
     (if em_run e = None then (True, e, st)
      else (case core_call st of (ok, st1) \<Rightarrow> (ok, e\<lparr>em_run := None\<rparr>, called XrayDown st1)))"

fun start_attempts :: "nat \<Rightarrow> svc_env \<Rightarrow> emb \<Rightarrow> svc \<Rightarrow> bool \<times> emb \<times> svc" where
  "start_attempts 0 env e st = (False, e, st)"
| "start_attempts (Suc n) env e st =
     (case embedded_Start env e st of
        (True, e1, st1) \<Rightarrow> (True, e1, st1)
      | (False, e1, st1) \<Rightarrow> start_attempts n env e1 st1)"

definition embedded_Restart :: "svc_env \<Rightarrow> emb \<Rightarrow> svc \<Rightarrow> bool \<times> emb \<times> svc" where
  "embedded_Restart env e st =
     (case embedded_Stop e st of (_, e1, st1) \<Rightarrow> start_attempts 3 env e1 st1)"

definition IsRunning :: "svc \<Rightarrow> bool" where
  "IsRunning st = (case sv_emb st of None \<Rightarrow> False | Some e \<Rightarrow> em_run e \<noteq> None)"

section \<open>Port 443\<close>

text \<open>\<open>json.Number\<close>: a number literal, or a string that is one. \<open>Int64\<close> takes whole literals only; its error is
  ignored and gives 0. \<open>None\<close> is an error of \<open>Unmarshal\<close>.\<close>

definition digits1 :: "string \<Rightarrow> bool" where
  "digits1 s \<longleftrightarrow> s \<noteq> [] \<and> list_all is_digit s"

definition valid_exp :: "string \<Rightarrow> bool" where
  "valid_exp s \<longleftrightarrow>
     s = [] \<or>
     (hd s \<in> {CHR 0x65, CHR 0x45} \<and>
      (case tl s of
         [] \<Rightarrow> False
       | c # r \<Rightarrow> digits1 (if c \<in> {CHR 0x2B, CHR 0x2D} then r else c # r)))"

definition isValidNumber :: "string \<Rightarrow> bool" where
  "isValidNumber s =
     (let t = (case s of c # r \<Rightarrow> if c = CHR 0x2D then r else s | [] \<Rightarrow> s);
          whole = takeWhile is_digit t; r1 = dropWhile is_digit t
      in whole \<noteq> [] \<and> (hd whole = CHR 0x30 \<longrightarrow> tl whole = []) \<and>
         (if r1 \<noteq> [] \<and> hd r1 = CHR 0x2E
          then takeWhile is_digit (tl r1) \<noteq> [] \<and> valid_exp (dropWhile is_digit (tl r1))
          else valid_exp r1))"

definition number_port :: "json option \<Rightarrow> int option" where
  "number_port v =
     (case v of
        None \<Rightarrow> Some 0
      | Some JNull \<Rightarrow> Some 0
      | Some (JNum n e) \<Rightarrow> Some (if e = 0 then n else 0)
      | Some (JStr s) \<Rightarrow> if isValidNumber s then Some (case atoi s of Some n \<Rightarrow> n | None \<Rightarrow> 0) else None
      | Some _ \<Rightarrow> None)"

definition inbound_port :: "json \<Rightarrow> int option" where
  "inbound_port v =
     (case v of
        JNull \<Rightarrow> Some 0
      | JObj m \<Rightarrow> number_port (map_of m ''port'')
      | _ \<Rightarrow> None)"

definition inbound_ports :: "json \<Rightarrow> int list option" where
  "inbound_ports v =
     (case v of
        JNull \<Rightarrow> Some []
      | JObj m \<Rightarrow>
          (case map_of m ''inbounds'' of
             None \<Rightarrow> Some []
           | Some JNull \<Rightarrow> Some []
           | Some (JArr xs) \<Rightarrow>
               if list_ex (\<lambda>x. inbound_port x = None) xs then None else Some (List.map (the \<circ> inbound_port) xs)
           | Some _ \<Rightarrow> None)
      | _ \<Rightarrow> None)"

fun needs_443_in :: "svc_env \<Rightarrow> string list \<Rightarrow> world \<Rightarrow> bool \<times> world" where
  "needs_443_in env [] w = (False, w)"
| "needs_443_in env (p # ps) w =
     (case read_file p w of
        (Inl _, w1) \<Rightarrow> needs_443_in env ps w1
      | (Inr data, w1) \<Rightarrow>
          (case Option.bind (xh_dec (se_xray env) data) inbound_ports of
             None \<Rightarrow> needs_443_in env ps w1
           | Some ports \<Rightarrow> (443 \<in> set ports, w1)))"

definition configNeedsPort443 :: "svc_env \<Rightarrow> svc \<Rightarrow> bool \<times> svc" where
  "configNeedsPort443 env st = on_world (needs_443_in env DefaultXrayConfigPaths) st"

definition fallback443Conf :: string where
  "fallback443Conf =
     join_with [CHR 0x0A]
       [''server {'', ''    listen 443;'', ''    listen [::]:443;'', ''    proxy_pass 127.0.0.1:8001;'',
        ''    proxy_protocol on;'', ''}'', []]"

definition fallback443Path :: string where
  "fallback443Path = ''/usr/local/nginx/stream_servers/xray_fallback_443.conf''"

definition deployFallback443 :: "svc \<Rightarrow> svc" where
  "deployFallback443 st =
     (let st1 = snd (on_world sys_call st) in snd (on_world (write_file fallback443Path fallback443Conf) st1))"

definition removeFallback443 :: "svc \<Rightarrow> svc" where
  "removeFallback443 st = snd (on_world (remove_file fallback443Path) st)"

definition manage_reloadNginx :: "svc \<Rightarrow> svc" where
  "manage_reloadNginx st = called NginxReloaded (snd (on_sys run_cmd st))"

definition systemctl :: "string \<Rightarrow> svc \<Rightarrow> bool \<times> svc" where
  "systemctl args st = (case on_sys run_cmd st of (ok, st1) \<Rightarrow> (ok, called (Systemctl args) st1))"

section \<open>Restarting\<close>

text \<open>Around a start of Xray nginx is stopped when it is active, and started again whatever comes out.\<close>

definition pause_nginx :: "svc_env \<Rightarrow> svc \<Rightarrow> bool \<times> svc" where
  "pause_nginx env st =
     (case on_sys (nginxIsActive (se_nginx env)) st of
        (False, st1) \<Rightarrow> (False, st1)
      | (True, st1) \<Rightarrow> (True, called NginxStopped (snd (on_sys (nginxStop (se_nginx env)) st1))))"

definition resume_nginx :: "svc_env \<Rightarrow> bool \<Rightarrow> svc \<Rightarrow> svc" where
  "resume_nginx env stopped st =
     (if stopped then called NginxStarted (snd (on_sys (nginxStart (se_nginx env)) st)) else st)"

definition restartEmbeddedXray :: "svc_env \<Rightarrow> emb \<Rightarrow> svc \<Rightarrow> bool \<times> svc" where
  "restartEmbeddedXray env e st =
     (case configNeedsPort443 env st of
        (need, st1) \<Rightarrow>
          (case (if need then pause_nginx env st1 else (False, st1)) of
             (stopped, st2) \<Rightarrow>
               (case embedded_Restart env e st2 of
                  (ok, e3, st3) \<Rightarrow> (ok, resume_nginx env stopped (st3\<lparr>sv_emb := Some e3\<rparr>)))))"

definition lazyStartEmbeddedXray :: "svc_env \<Rightarrow> svc \<Rightarrow> bool \<times> svc" where
  "lazyStartEmbeddedXray env st =
     (case find (path_exists (disk st)) DefaultXrayConfigPaths of
        None \<Rightarrow> (False, st)
      | Some p \<Rightarrow>
          (let st1 = (if se_docker env then st
                      else snd (systemctl ''disable xray'' (snd (systemctl ''stop xray'' st))))
           in (case pause_nginx env st1 of
                 (stopped, st2) \<Rightarrow>
                   (case embedded_Start env \<lparr>em_path = p, em_run = None\<rparr> st2 of
                      (False, _, st3) \<Rightarrow> (False, resume_nginx env stopped st3)
                    | (True, e3, st3) \<Rightarrow> (True, resume_nginx env stopped (st3\<lparr>sv_emb := Some e3\<rparr>))))))"

section \<open>An external process\<close>

definition findXrayBinary :: "svc_env \<Rightarrow> int \<Rightarrow> svc \<Rightarrow> string \<times> svc" where
  "findXrayBinary env pid st =
     (case on_sys run_cmd st of
        (False, st1) \<Rightarrow> ([], st1)
      | (True, st1) \<Rightarrow>
          (case Option.bind (proc_at (se_xray env) pid) pr_exe of None \<Rightarrow> ([], st1) | Some exe \<Rightarrow> (exe, st1)))"

definition relaunch_args :: "xray_paths \<Rightarrow> string list" where
  "relaunch_args p =
     [''run''] @ (if ConfigPath p \<noteq> [] then [''-config'', ConfigPath p] else []) @
     (if ConfDir p \<noteq> [] then [''-confdir'', ConfDir p] else [])"

definition restartViaSignal :: "svc_env \<Rightarrow> svc \<Rightarrow> bool \<times> svc" where
  "restartViaSignal env st =
     (case FindXrayPIDs (se_xray env) of
        [] \<Rightarrow> (False, st)
      | pid # pids \<Rightarrow>
          (let paths = ParseXrayCmdline (se_xray env) pid
           in (case findXrayBinary env pid st of
                 (bin, st1) \<Rightarrow>
                   (let st2 = fold (\<lambda>q. called (Killed q)) (pid # pids) st1
                    in if bin = [] then (False, st2)
                       else
                         (case on_sys run_cmd st2 of
                            (False, st3) \<Rightarrow> (False, st3)
                          | (True, st3) \<Rightarrow> (True, called (Spawned bin (relaunch_args paths)) st3))))))"

definition detectMethod :: "svc_env \<Rightarrow> svc \<Rightarrow> string \<times> svc" where
  "detectMethod env st =
     (case on_sys run_cmd st of
        (True, st1) \<Rightarrow> (''systemctl'', st1)
      | (False, st1) \<Rightarrow> (if FindXrayPIDs (se_xray env) \<noteq> [] then ''signal'' else ''systemctl'', st1))"

definition repair_step :: "svc_env \<Rightarrow> svc \<Rightarrow> string option \<times> svc" where
  "repair_step env st =
     (case RepairReferencedPrivateKeyPermissions (se_xray env) (disk st, sv_own st) of
        (r, w, own) \<Rightarrow> (r, st\<lparr>sv_sys := (w, snd (sv_sys st)), sv_own := own\<rparr>))"

definition xrayctl_RestartXray :: "svc_env \<Rightarrow> svc \<Rightarrow> bool \<times> svc" where
  "xrayctl_RestartXray env st =
     (case (if se_method env = [] \<or> se_method env = ''auto'' then detectMethod env st else (se_method env, st)) of
        (m, st1) \<Rightarrow>
          (case repair_step env st1 of
             (Some _, st2) \<Rightarrow> (False, st2)
           | (None, st2) \<Rightarrow>
               if m = ''signal'' then restartViaSignal env st2
               else if m = ''custom'' then
                 (if se_custom env = [] then (False, st2)
                  else (case on_sys run_cmd st2 of (ok, st3) \<Rightarrow> (ok, called (Ran (se_custom env)) st3)))
               else systemctl ''restart xray'' st2))"

section \<open>The handlers\<close>

definition RestartXray :: "svc_env \<Rightarrow> svc \<Rightarrow> bool \<times> svc" where
  "RestartXray env st =
     (if se_mode env = ''embedded'' then
        (case sv_emb st of
           Some e \<Rightarrow> restartEmbeddedXray env e st
         | None \<Rightarrow> lazyStartEmbeddedXray env st)
      else xrayctl_RestartXray env st)"

definition restore_fallback :: "svc_env \<Rightarrow> svc \<Rightarrow> svc" where
  "restore_fallback env st =
     (case configNeedsPort443 env st of
        (need, st1) \<Rightarrow> if need then manage_reloadNginx (deployFallback443 st1) else st1)"

definition halt_xray :: "svc \<Rightarrow> svc" where
  "halt_xray st =
     (case sv_emb st of
        Some e \<Rightarrow> (case embedded_Stop e st of (_, e1, st1) \<Rightarrow> st1\<lparr>sv_emb := Some e1\<rparr>)
      | None \<Rightarrow> snd (systemctl ''stop xray'' st))"

definition StopXray :: "svc_env \<Rightarrow> svc \<Rightarrow> svc" where
  "StopXray env st = halt_xray (restore_fallback env st)"

definition StartXray :: "svc_env \<Rightarrow> svc \<Rightarrow> bool \<times> svc" where
  "StartXray env st =
     (case configNeedsPort443 env st of
        (need, st1) \<Rightarrow>
          (case RestartXray env (if need then manage_reloadNginx (removeFallback443 st1) else st1) of
             (True, st2) \<Rightarrow> (True, st2)
           | (False, st2) \<Rightarrow> (False, restore_fallback env st2)))"

definition service_ok :: "string \<Rightarrow> string \<Rightarrow> reply" where
  "service_ok service action =
     writeOk [(''message'', JStr (''Service '' @ service @ '' '' @ action @ ''ed successfully''))]"

text \<open>A stop is answered first; the goroutine that carries it out is counted in \<open>sv_pending\<close>.\<close>

definition HandleServiceControl :: "svc_env \<Rightarrow> bool \<Rightarrow> bool \<Rightarrow> (string \<times> string) option \<Rightarrow> svc \<Rightarrow> reply \<times> svc" where
  "HandleServiceControl env post authenticated req st =
     (if \<not> post then (writeError 405 ''Method not allowed'', st)
      else if \<not> authenticated then (writeError 401 ''Unauthorized'', st)
      else
        (case req of
           None \<Rightarrow> (writeError 400 ''Invalid request body'', st)
         | Some (service, action) \<Rightarrow>
             if service \<noteq> ''xray'' \<and> service \<noteq> ''nginx''
             then (writeError 400 (''Invalid service. Must be 'xray' or 'nginx'' @ [CHR 0x27]), st)
             else if action \<noteq> ''start'' \<and> action \<noteq> ''stop'' \<and> action \<noteq> ''restart''
             then (writeError 400 (''Invalid action. Must be 'start', 'stop', or 'restart'' @ [CHR 0x27]), st)
             else if service = ''xray'' \<and> action = ''restart'' then
               (case RestartXray env st of
                  (True, st1) \<Rightarrow> (service_ok service action, st1)
                | (False, st1) \<Rightarrow> (writeError 500 ''restart xray'', st1))
             else if service = ''xray'' \<and> action = ''stop'' then
               (let st1 = restore_fallback env st
                in (writeOk [(''message'', JStr ''Service xray stopped successfully'')],
                    st1\<lparr>sv_pending := Suc (sv_pending st1)\<rparr>))
             else if service = ''xray'' \<and> action = ''start'' then
               (case StartXray env st of
                  (True, st1) \<Rightarrow> (service_ok service action, st1)
                | (False, st1) \<Rightarrow> (writeError 500 ''start xray'', st1))
             else
               (case systemctl (action @ '' '' @ service) st of
                  (True, st1) \<Rightarrow> (service_ok service action, st1)
                | (False, st1) \<Rightarrow> (writeError 500 ''systemctl'', st1))))"

text \<open>The deferred goroutine of a stop.\<close>

definition deferred_stop :: "svc \<Rightarrow> svc" where
  "deferred_stop st =
     (case sv_pending st of 0 \<Rightarrow> st | Suc n \<Rightarrow> halt_xray (st\<lparr>sv_pending := n\<rparr>))"

definition getXrayStatus :: "svc_env \<Rightarrow> svc \<Rightarrow> (bool \<times> bool) \<times> svc" where
  "getXrayStatus env st =
     (if se_mode env = ''embedded'' then ((True, IsRunning st), st)
      else
        (let installed = se_binary env;
             st0 = (if installed then snd (on_sys run_cmd st) else st)
         in (case on_sys run_cmd st0 of
               (True, st1) \<Rightarrow> ((installed, True), st1)
             | (False, st1) \<Rightarrow>
                 (case on_sys run_cmd st1 of
                    (True, st2) \<Rightarrow> ((installed, True), st2)
                  | (False, st2) \<Rightarrow> (case on_sys run_cmd st2 of (up, st3) \<Rightarrow> ((installed, up), st3))))))"

section \<open>The two modes\<close>

definition ensureExternalXray :: "svc_env \<Rightarrow> svc \<Rightarrow> bool \<times> svc" where
  "ensureExternalXray env st =
     (case (if se_binary env then (True, st)
            else (case on_sys run_cmd st of (ok, st0) \<Rightarrow> (ok, called Installed st0))) of
        (False, st1) \<Rightarrow> (False, st1)
      | (True, st1) \<Rightarrow> systemctl ''start xray'' (snd (systemctl ''enable xray'' st1)))"

definition HandleSwitchXrayMode ::
  "svc_env \<Rightarrow> bool \<Rightarrow> bool \<Rightarrow> string \<Rightarrow> string option \<Rightarrow> svc \<Rightarrow> (reply \<times> bool) \<times> svc" where
  "HandleSwitchXrayMode env post authenticated configPath req st =
     (if \<not> post then ((writeError 405 ''Method not allowed'', False), st)
      else if \<not> authenticated then ((writeError 401 ''Unauthorized'', False), st)
      else
        (case req of
           None \<Rightarrow> ((writeError 400 ''Invalid request body'', False), st)
         | Some mode \<Rightarrow>
             if mode \<noteq> ''external'' \<and> mode \<noteq> ''embedded''
             then ((writeError 400 (''xray_mode must be 'external' or 'embedded'' @ [CHR 0x27]), False), st)
             else if configPath = [] then ((writeError 500 ''Config path not set'', False), st)
             else
               (case on_world (read_file configPath) st of
                  (Inl _, st1) \<Rightarrow> ((writeError 500 ''Read config'', False), st1)
                | (Inr data, st1) \<Rightarrow>
                    (case on_world (write_file configPath
                            (join_lines (put_line ''xray_mode'' (''xray_mode: '' @ mode) (file_lines data)))) st1 of
                       (Some _, st2) \<Rightarrow> ((writeError 500 ''Write config'', False), st2)
                     | (None, st2) \<Rightarrow>
                         (case (if mode = ''external'' then ensureExternalXray env st2 else (True, st2)) of
                            (False, st3) \<Rightarrow> ((writeError 500 ''Ensure external xray'', False), st3)
                          | (True, st3) \<Rightarrow>
                              ((writeOk [(''message'',
                                  JStr (''Switching to '' @ mode @ '' mode, agent restarting...''))], True), st3))))))"

section \<open>The default configuration\<close>

definition default_path :: string where
  "default_path = ''/usr/local/etc/xray/config.json''"

text \<open>The default configuration is a file embedded in the program: the parameter \<open>txt\<close>. The result says whether it was
  written.\<close>

definition DeployDefaultXrayConfigFile :: "string \<Rightarrow> world \<Rightarrow> bool \<times> world" where
  "DeployDefaultXrayConfigFile txt w =
     (if path_exists w default_path then (False, w)
      else
        (case sys_call w of
           (Some _, w1) \<Rightarrow> (False, w1)
         | (None, w1) \<Rightarrow>
             (case write_file default_path txt w1 of (r, w2) \<Rightarrow> (r = None, w2))))"

definition findXrayConfigPath :: "svc_env \<Rightarrow> svc \<Rightarrow> string \<times> svc" where
  "findXrayConfigPath env st =
     (if se_mode env = ''embedded'' \<and> path_exists (disk st) default_path then (default_path, st)
      else (case on_world (Discover (se_xray env)) st of (p, st1) \<Rightarrow> (ConfigPath p, st1)))"

definition DeployDefaultXrayConfig :: "svc_env \<Rightarrow> cfg_env \<Rightarrow> string \<Rightarrow> svc \<Rightarrow> svc" where
  "DeployDefaultXrayConfig env cenv txt st =
     (if path_exists (disk st) default_path then
        (case findXrayConfigPath env st of
           (path, st1) \<Rightarrow>
             (case on_world (EnsureXrayConfig (cenv\<lparr>ce_path := path\<rparr>)) st1 of
                (res, st2) \<Rightarrow> if er_modified res then snd (RestartXray env st2) else st2))
      else
        (case on_world (DeployDefaultXrayConfigFile txt) st of
           (True, st1) \<Rightarrow> snd (RestartXray env st1)
         | (False, st1) \<Rightarrow> st1))"

section \<open>Frames\<close>

text \<open>What a step leaves alone: files and pending stops, a calm disk stays calm, and the log only grows, by calls of
  the kind \<open>P\<close>.\<close>

definition grows :: "(svc_call \<Rightarrow> bool) \<Rightarrow> svc \<Rightarrow> svc \<Rightarrow> bool" where
  "grows P st st' \<longleftrightarrow>
     files (disk st') = files (disk st) \<and> sv_pending st' = sv_pending st \<and>
     (tape (disk st) = [] \<longrightarrow> tape (disk st') = []) \<and>
     (\<exists>cs. sv_calls st' = sv_calls st @ cs \<and> list_all P cs)"

definition xray_call :: "svc_call \<Rightarrow> bool" where
  "xray_call c \<longleftrightarrow> c = XrayFailed \<or> c = XrayDown \<or> (\<exists>t. c = XrayUp t)"

definition nginx_call :: "svc_call \<Rightarrow> bool" where
  "nginx_call c \<longleftrightarrow> c = NginxStopped \<or> c = NginxStarted \<or> c = NginxReloaded"

lemma grows_refl [simp, intro]: "grows P st st"
  by (simp add: grows_def)

lemma grows_trans [trans]: "grows P a b \<Longrightarrow> grows P b c \<Longrightarrow> grows P a c"
  by (fastforce simp: grows_def)

lemma grows_mono: "grows P a b \<Longrightarrow> (\<And>c. P c \<Longrightarrow> Q c) \<Longrightarrow> grows Q a b"
  by (auto simp: grows_def list_all_iff)

lemma grows_called: "P c \<Longrightarrow> grows P st (called c st)"
  by (simp add: grows_def called_def)

lemma grows_call: "grows P a b \<Longrightarrow> P c \<Longrightarrow> grows P a (called c b)"
  by (erule grows_trans) (rule grows_called)

lemma grows_emb [simp]: "grows P st (st'\<lparr>sv_emb := e\<rparr>) \<longleftrightarrow> grows P st st'"
  by (simp add: grows_def)

lemma called_sel [simp]: "sv_emb (called c st) = sv_emb st" "sv_sys (called c st) = sv_sys st"
  "sv_pending (called c st) = sv_pending st" "sv_calls (called c st) = sv_calls st @ [c]"
  by (simp_all add: called_def)

lemma world_grows:
  assumes "on_world f st = (r, st')" and "\<And>w x w'. f w = (x, w') \<Longrightarrow> files w' = files w"
    and "\<And>w. tape w = [] \<Longrightarrow> tape (snd (f w)) = []"
  shows "grows P st st'" and "sv_emb st' = sv_emb st"
  using assms(1) assms(2) [of "disk st"] assms(3) [of "disk st"]
  by (auto simp: on_world_def grows_def split: prod.splits)

lemma read_tape: "tape w = [] \<Longrightarrow> tape (snd (read_file p w)) = []"
  by (auto simp: calm_read split: option.splits)

lemma read_grows: "on_world (read_file p) st = (r, st') \<Longrightarrow> grows P st st' \<and> sv_emb st' = sv_emb st"
  by (rule conjI; erule world_grows) (auto dest: read_file_frame simp: read_tape)

lemma sys_grows:
  assumes "on_sys f st = (r, st')" and "\<And>w cs b w' cs'. f (w, cs) = (b, (w', cs')) \<Longrightarrow> w' = w"
  shows "grows P st st' \<and> sv_emb st' = sv_emb st \<and> disk st' = disk st"
  using assms(1) assms(2) [of "disk st" "snd (sv_sys st)"]
  by (auto simp: on_sys_def grows_def split: prod.splits)

lemma stop_world: "nginxStop h (w, cs) = (b, (w', cs')) \<Longrightarrow> w' = w"
  by (auto simp: nginxStop_def dest!: run_cmd_world active_world action_world split: prod.splits bool.splits if_splits)

lemma nginx_grows:
  "on_sys run_cmd st = (r, st') \<Longrightarrow> grows P st st' \<and> sv_emb st' = sv_emb st \<and> disk st' = disk st"
  "on_sys (nginxIsActive h) st = (r, st') \<Longrightarrow> grows P st st' \<and> sv_emb st' = sv_emb st \<and> disk st' = disk st"
  "on_sys (nginxStop h) st = (r, st') \<Longrightarrow> grows P st st' \<and> sv_emb st' = sv_emb st \<and> disk st' = disk st"
  "on_sys (nginxStart h) st = (r, st') \<Longrightarrow> grows P st st' \<and> sv_emb st' = sv_emb st \<and> disk st' = disk st"
  by (erule sys_grows; erule run_cmd_world active_world stop_world start_world)+

lemma core_grows: "core_call st = (b, st') \<Longrightarrow> grows P st st' \<and> sv_emb st' = sv_emb st"
  by (auto simp: core_call_def grows_def split: list.splits)

lemma needs_files: "needs_443_in env ps w = (b, w') \<Longrightarrow> files w' = files w"
  by (induction ps arbitrary: w) (auto dest: read_file_frame split: prod.splits sum.splits option.splits)

lemma needs_tape: "tape w = [] \<Longrightarrow> snd (needs_443_in env ps w) = w"
  by (induction ps) (auto simp: calm_read split: prod.splits sum.splits option.splits)

lemma needs_grows: "configNeedsPort443 env st = (b, st') \<Longrightarrow> grows P st st' \<and> sv_emb st' = sv_emb st"
  unfolding configNeedsPort443_def
  by (rule conjI; erule world_grows) (auto dest: needs_files simp: needs_tape)

section \<open>The embedded instance\<close>

lemma start_grows:
  "embedded_Start env e st = (ok, e', st') \<Longrightarrow> grows xray_call st st' \<and> sv_emb st' = sv_emb st"
proof -
  have c: "grows xray_call a (called XrayFailed b)" "grows xray_call a (called (XrayUp t) b)"
    if "grows xray_call a b" for a b t
    using that by (auto intro!: grows_call simp: xray_call_def)
  assume a: "embedded_Start env e st = (ok, e', st')"
  obtain r st1 where 1: "on_world (read_file (em_path e)) st = (r, st1)" by fastforce
  obtain b2 st2 where 2: "core_call st1 = (b2, st2)" by fastforce
  obtain b3 st3 where 3: "core_call st2 = (b3, st3)" by fastforce
  obtain b4 st4 where 4: "core_call st3 = (b4, st4)" by fastforce
  obtain b5 st5 where 5: "core_call st4 = (b5, st5)" by fastforce
  note g1 = read_grows [OF 1, of xray_call]
  note g2 = grows_trans [OF conjunct1 [OF g1] conjunct1 [OF core_grows [OF 2]]]
  note g3 = grows_trans [OF g2 conjunct1 [OF core_grows [OF 3]]]
  note g4 = grows_trans [OF g3 conjunct1 [OF core_grows [OF 4]]]
  note g5 = grows_trans [OF g4 conjunct1 [OF core_grows [OF 5]]]
  from a g1 g2 g3 g4 g5 c show ?thesis
    using core_grows [OF 2] core_grows [OF 3] core_grows [OF 4] core_grows [OF 5]
    by (auto simp: embedded_Start_def 1 2 3 4 5 split: sum.splits bool.splits)
qed

lemma start_result:
  assumes "embedded_Start env e st = (ok, e', st')"
  shows "if ok then em_path e' = em_path e \<and>
      (\<exists>data. file_at (disk st) (em_path e) = Some data \<and> em_run e' = Some (core_text env data))
    else e' = e"
  using assms read_file_Inr [of "em_path e" "disk st"]
  by (fastforce simp: embedded_Start_def on_world_def split: prod.splits sum.splits bool.splits)

lemma stop_grows: "embedded_Stop e st = (ok, e', st') \<Longrightarrow> grows xray_call st st' \<and> sv_emb st' = sv_emb st"
  by (auto simp: embedded_Stop_def xray_call_def dest!: core_grows [where P = xray_call] split: if_splits prod.splits
      intro: grows_call)

lemma stop_result: "embedded_Stop e st = (ok, e', st') \<Longrightarrow> em_run e' = None \<and> em_path e' = em_path e"
  by (auto simp: embedded_Stop_def split: if_splits prod.splits)

lemma attempts_grows: "start_attempts n env e st = (ok, e', st') \<Longrightarrow> grows xray_call st st' \<and> sv_emb st' = sv_emb st"
proof (induction n arbitrary: e st)
  case (Suc n)
  obtain a e1 st1 where 1: "embedded_Start env e st = (a, e1, st1)" by (metis prod_cases3)
  from Suc 1 start_grows [OF 1] show ?case by (auto split: bool.splits intro: grows_trans)
qed simp

lemma attempts_result:
  "start_attempts n env e st = (ok, e', st') \<Longrightarrow>
     if ok then em_path e' = em_path e \<and>
       (\<exists>data. file_at (disk st) (em_path e) = Some data \<and> em_run e' = Some (core_text env data))
     else e' = e"
proof (induction n arbitrary: e st)
  case (Suc n)
  obtain a e1 st1 where 1: "embedded_Start env e st = (a, e1, st1)" by (metis prod_cases3)
  have f: "file_at (disk st1) q = file_at (disk st) q" for q
    using start_grows [OF 1] by (simp add: grows_def file_at_def)
  show ?case
  proof (cases a)
    case True
    with Suc.prems 1 start_result [OF 1] show ?thesis by simp
  next
    case False
    with 1 start_result [OF 1] have "e1 = e" by simp
    with Suc.prems Suc.IH [of e st1] 1 False f show ?thesis by (auto split: if_splits)
  qed
qed simp

lemma restart_emb_grows:
  assumes "embedded_Restart env e st = (ok, e', st')"
  shows "grows xray_call st st' \<and> sv_emb st' = sv_emb st"
proof -
  obtain a e1 st1 where 1: "embedded_Stop e st = (a, e1, st1)" by (metis prod_cases3)
  from assms 1 have "start_attempts 3 env e1 st1 = (ok, e', st')" by (simp add: embedded_Restart_def)
  from attempts_grows [OF this] stop_grows [OF 1] show ?thesis by (auto intro: grows_trans)
qed

text \<open>After a restart the instance runs what is in its file now, or nothing.\<close>

lemma restart_emb_result:
  assumes "embedded_Restart env e st = (ok, e', st')"
  shows "em_path e' = em_path e \<and>
    (if ok then \<exists>data. file_at (disk st) (em_path e) = Some data \<and> em_run e' = Some (core_text env data)
     else em_run e' = None)"
proof -
  obtain a e1 st1 where 1: "embedded_Stop e st = (a, e1, st1)" by (metis prod_cases3)
  from assms 1 have 2: "start_attempts 3 env e1 st1 = (ok, e', st')" by (simp add: embedded_Restart_def)
  have f: "file_at (disk st1) q = file_at (disk st) q" for q
    using stop_grows [OF 1] by (simp add: grows_def file_at_def)
  from attempts_result [OF 2] stop_result [OF 1] f show ?thesis by (auto split: if_splits)
qed

section \<open>The hand-over around a restart\<close>

definition bracketed :: "svc_call list \<Rightarrow> bool" where
  "bracketed cs \<longleftrightarrow>
     list_all (\<lambda>c. \<not> nginx_call c) cs \<or>
     (\<exists>pre xs. cs = pre @ NginxStopped # xs @ [NginxStarted] \<and> list_all (\<lambda>c. \<not> nginx_call c) pre \<and> list_all xray_call xs)"

lemma xray_not_nginx: "xray_call c \<Longrightarrow> \<not> nginx_call c"
  by (auto simp: xray_call_def nginx_call_def)

lemma pause_effect:
  assumes "pause_nginx env st = (stopped, st')"
  shows "files (disk st') = files (disk st) \<and> disk st' = disk st \<and> sv_pending st' = sv_pending st \<and> sv_emb st' = sv_emb st \<and>
    sv_calls st' = sv_calls st @ (if stopped then [NginxStopped] else [])"
proof -
  obtain a st1 where 1: "on_sys (nginxIsActive (se_nginx env)) st = (a, st1)" by fastforce
  obtain b st2 where 2: "on_sys (nginxStop (se_nginx env)) st1 = (b, st2)" by fastforce
  have "sv_calls st1 = sv_calls st" "sv_calls st2 = sv_calls st1"
    using 1 2 by (auto simp: on_sys_def split: prod.splits)
  with assms 1 2 nginx_grows(2) [OF 1] nginx_grows(3) [OF 2] show ?thesis
    by (auto simp: pause_nginx_def grows_def split: bool.splits)
qed

lemma resume_effect:
  "disk (resume_nginx env stopped st) = disk st \<and> sv_pending (resume_nginx env stopped st) = sv_pending st \<and>
   sv_emb (resume_nginx env stopped st) = sv_emb st \<and>
   sv_calls (resume_nginx env stopped st) = sv_calls st @ (if stopped then [NginxStarted] else [])"
proof -
  obtain b st2 where 2: "on_sys (nginxStart (se_nginx env)) st = (b, st2)" by fastforce
  have "sv_calls st2 = sv_calls st" using 2 by (auto simp: on_sys_def split: prod.splits)
  with 2 nginx_grows(4) [OF 2] show ?thesis by (auto simp: resume_nginx_def grows_def)
qed

text \<open>The frame of a restart: nginx is paused before, Xray's own calls come in between, nginx is resumed after.\<close>

lemma paused_run:
  assumes p: "pause_nginx env a = (stopped, b)" and g: "grows xray_call b c"
    and pre: "sv_calls a = sv_calls st @ cs" "list_all (\<lambda>c. \<not> nginx_call c) cs"
  shows "\<exists>ds. sv_calls (resume_nginx env stopped (c\<lparr>sv_emb := e\<rparr>)) = sv_calls st @ ds \<and> bracketed ds"
proof -
  obtain xs where x: "sv_calls c = sv_calls b @ xs" "list_all xray_call xs" using g by (auto simp: grows_def)
  have nx: "list_all (\<lambda>c. \<not> nginx_call c) xs" using x(2) by (auto simp: list_all_iff xray_not_nginx)
  have r: "sv_calls (resume_nginx env stopped (c\<lparr>sv_emb := e\<rparr>)) =
      sv_calls st @ cs @ (if stopped then [NginxStopped] else []) @ xs @ (if stopped then [NginxStarted] else [])"
    using pause_effect [OF p] x(1) pre(1) resume_effect [of env stopped "c\<lparr>sv_emb := e\<rparr>"] by simp
  have "bracketed (cs @ (if stopped then [NginxStopped] else []) @ xs @ (if stopped then [NginxStarted] else []))"
  proof (cases stopped)
    case True
    then show ?thesis using pre(2) x(2) unfolding bracketed_def by (intro disjI2 exI [of _ cs] exI [of _ xs]) simp
  next
    case False
    then show ?thesis using pre(2) nx by (simp add: bracketed_def)
  qed
  with r show ?thesis by blast
qed

definition restarted :: "svc_env \<Rightarrow> svc \<Rightarrow> bool \<Rightarrow> svc \<Rightarrow> bool" where
  "restarted env st ok st' \<longleftrightarrow>
     files (disk st') = files (disk st) \<and> sv_pending st' = sv_pending st \<and>
     (tape (disk st) = [] \<longrightarrow> tape (disk st') = []) \<and>
     (if ok then \<exists>p data. file_at (disk st) p = Some data \<and>
                 sv_emb st' = Some \<lparr>em_path = p, em_run = Some (core_text env data)\<rparr>
      else \<not> IsRunning st') \<and>
     (\<exists>cs. sv_calls st' = sv_calls st @ cs \<and> bracketed cs)"

lemma restart_embedded:
  assumes "restartEmbeddedXray env e st = (ok, st')"
  shows "restarted env st ok st'"
proof -
  obtain need st1 where 1: "configNeedsPort443 env st = (need, st1)" by fastforce
  obtain stopped st2 where 2: "(if need then pause_nginx env st1 else (False, st1)) = (stopped, st2)" by fastforce
  obtain a e3 st3 where 3: "embedded_Restart env e st2 = (a, e3, st3)" by (metis prod_cases3)
  have r: "ok = a" "st' = resume_nginx env stopped (st3\<lparr>sv_emb := Some e3\<rparr>)"
    using assms by (simp_all add: restartEmbeddedXray_def 1 2 3)
  note g1 = needs_grows [OF 1, of "\<lambda>_. False"]
  have c1: "sv_calls st1 = sv_calls st" using g1 by (auto simp: grows_def list_all_iff)
  have d2: "files (disk st2) = files (disk st1)" "disk st2 = disk st1" "sv_pending st2 = sv_pending st1"
    using 2 pause_effect [of env st1 stopped st2] by (auto split: if_splits)
  note g3 = restart_emb_grows [OF 3] and q3 = restart_emb_result [OF 3]
  have log: "\<exists>ds. sv_calls st' = sv_calls st @ ds \<and> bracketed ds"
  proof (cases need)
    case True
    with 2 have p: "pause_nginx env st1 = (stopped, st2)" by simp
    from paused_run [OF p, of st3 st "[]"] g3 c1 show ?thesis unfolding r(2) by simp
  next
    case False
    with 2 have s: "stopped = False" "st2 = st1" by simp_all
    from g3 c1 s show ?thesis unfolding r(2)
      by (auto simp: grows_def resume_nginx_def bracketed_def list_all_iff xray_not_nginx)
  qed
  have f: "file_at (disk st2) q = file_at (disk st) q" for q using d2 g1 by (simp add: file_at_def grows_def)
  have em: "sv_emb st' = Some e3" using resume_effect [of env stopped "st3\<lparr>sv_emb := Some e3\<rparr>"] r(2) by simp
  have res: "if ok then \<exists>p data. file_at (disk st) p = Some data \<and>
      sv_emb st' = Some \<lparr>em_path = p, em_run = Some (core_text env data)\<rparr> else \<not> IsRunning st'"
    using q3 f em r(1) by (cases e3) (auto simp: IsRunning_def)
  show ?thesis
    using res log g1 d2 g3 resume_effect [of env stopped "st3\<lparr>sv_emb := Some e3\<rparr>"] r(2)
    unfolding restarted_def by (auto simp: grows_def)
qed

lemma systemctl_grows:
  "systemctl args st = (b, st') \<Longrightarrow>
     disk st' = disk st \<and> sv_pending st' = sv_pending st \<and> sv_emb st' = sv_emb st \<and> sv_calls st' = sv_calls st @ [Systemctl args]"
  using run_cmd_world [of "disk st" "snd (sv_sys st)"] by (auto simp: systemctl_def on_sys_def split: prod.splits)

lemma lazy_start:
  assumes "lazyStartEmbeddedXray env st = (ok, st')" and none: "sv_emb st = None"
  shows "restarted env st ok st'"
proof (cases "find (path_exists (disk st)) DefaultXrayConfigPaths")
  case None
  with assms show ?thesis
    by (auto simp: lazyStartEmbeddedXray_def restarted_def IsRunning_def bracketed_def intro!: exI [of _ "[]"])
next
  case (Some p)
  define st1 where "st1 = (if se_docker env then st else snd (systemctl ''disable xray'' (snd (systemctl ''stop xray'' st))))"
  obtain cs where c: "sv_calls st1 = sv_calls st @ cs" "list_all (\<lambda>c. \<not> nginx_call c) cs"
    and d1: "disk st1 = disk st" "sv_pending st1 = sv_pending st" "sv_emb st1 = sv_emb st"
  proof (cases "se_docker env")
    case True
    then have "st1 = st" by (simp add: st1_def)
    then show ?thesis using that [of "[]"] by simp
  next
    case False
    obtain a sa where a: "systemctl ''stop xray'' st = (a, sa)" by fastforce
    obtain b sb where b: "systemctl ''disable xray'' sa = (b, sb)" by fastforce
    from False a b have "st1 = sb" by (simp add: st1_def)
    then show ?thesis
      using that [of "[Systemctl ''stop xray'', Systemctl ''disable xray'']"] systemctl_grows [OF a] systemctl_grows [OF b]
      by (simp add: nginx_call_def)
  qed
  obtain stopped st2 where 2: "pause_nginx env st1 = (stopped, st2)" by fastforce
  obtain a e3 st3 where 3: "embedded_Start env \<lparr>em_path = p, em_run = None\<rparr> st2 = (a, e3, st3)" by (metis prod_cases3)
  define kept where "kept = (if a then Some e3 else sv_emb st3)"
  have r: "ok = a" "st' = resume_nginx env stopped (st3\<lparr>sv_emb := kept\<rparr>)"
    using assms start_grows [OF 3] unfolding lazyStartEmbeddedXray_def Some option.case Let_def st1_def [symmetric] 2 prod.case 3
    by (cases a; cases st3; simp add: kept_def)+
  note d2 = pause_effect [OF 2]
  note g3 = start_grows [OF 3] and q3 = start_result [OF 3]
  have f: "file_at (disk st2) q = file_at (disk st) q" for q using d2 d1 by simp
  have em: "sv_emb st' = kept" using resume_effect [of env stopped "st3\<lparr>sv_emb := kept\<rparr>"] r(2) by simp
  have res: "if ok then \<exists>p data. file_at (disk st) p = Some data \<and>
      sv_emb st' = Some \<lparr>em_path = p, em_run = Some (core_text env data)\<rparr> else \<not> IsRunning st'"
    using q3 f em r(1) g3 d2 d1 none by (cases e3) (auto simp: IsRunning_def kept_def)
  from paused_run [OF 2 conjunct1 [OF g3] c, of kept] have log: "\<exists>ds. sv_calls st' = sv_calls st @ ds \<and> bracketed ds"
    unfolding r(2) by simp
  show ?thesis
    using res log d1 d2 g3 resume_effect [of env stopped "st3\<lparr>sv_emb := kept\<rparr>"] r(2)
    unfolding restarted_def by (auto simp: grows_def)
qed

text \<open>In the embedded mode a restart leaves Xray running the configuration that is on disk, or not running at all;
  it changes no file; and whenever it stops nginx to free the ports, it starts it again after Xray's start has
  succeeded or failed, with nothing but Xray's own steps in between.\<close>

theorem restart_resumes_nginx:
  assumes "se_mode env = ''embedded''" and "RestartXray env st = (ok, st')"
  shows "files (disk st') = files (disk st) \<and>
    (if ok then \<exists>p data. file_at (disk st) p = Some data \<and>
        sv_emb st' = Some \<lparr>em_path = p, em_run = Some (core_text env data)\<rparr>
     else \<not> IsRunning st') \<and>
    (\<exists>cs. sv_calls st' = sv_calls st @ cs \<and> bracketed cs)"
proof -
  have "restarted env st ok st'"
    using assms restart_embedded [of env _ st ok st'] lazy_start [of env st ok st']
    by (auto simp: RestartXray_def split: option.splits)
  then show ?thesis unfolding restarted_def by (simp split: if_splits)
qed

definition demo_svc_env :: svc_env where
  "demo_svc_env =
     \<lparr>se_nginx = demo_host, se_xray = (demo_xray None)\<lparr>xh_dec := (\<lambda>s.
        if s = ''tunnel'' then Some (JObj [(''inbounds'', JArr [JObj [(''port'', JNum 443 0)]])])
        else if s = ''range'' then
          Some (JObj [(''inbounds'', JArr [JObj [(''port'', JNum 443 0)], JObj [(''port'', JStr ''1000-2000'')]])])
        else None)\<rparr>,
      se_mode = ''embedded'', se_method = [], se_custom = [], se_docker = False, se_enc = (\<lambda>_. []), se_access = [],
      se_binary = True\<rparr>"

definition demo_svc :: "string \<Rightarrow> bool list \<Rightarrow> svc" where
  "demo_svc txt core =
     \<lparr>sv_sys = (demo_files [(default_path, txt)], []), sv_own = (\<lambda>_. \<lparr>fm_uid = 0, fm_gid = 0, fm_mode = 0\<rparr>),
      sv_core = core, sv_emb = None, sv_pending = 0, sv_calls = []\<rparr>"

lemma restart_resumes_nginx_witness:
  "(let res = RestartXray demo_svc_env (demo_svc ''tunnel'' [])
    in fst res \<and> IsRunning (snd res) \<and> files (disk (snd res)) = [(default_path, ''tunnel'')])"
proof -
  define res where "res = RestartXray demo_svc_env (demo_svc ''tunnel'' [])"
  have d: "fst res = True" unfolding res_def by code_simp
  have e: "se_mode demo_svc_env = ''embedded''" by (simp add: demo_svc_env_def)
  have r: "RestartXray demo_svc_env (demo_svc ''tunnel'' []) = (True, snd res)" using d by (simp add: res_def prod_eq_iff)
  from restart_resumes_nginx [OF e r] have "IsRunning (snd res)"
    and "files (disk (snd res)) = files (disk (demo_svc ''tunnel'' []))"
    by (auto simp: IsRunning_def)
  with d show ?thesis unfolding res_def [symmetric] Let_def by (simp add: demo_svc_def demo_files_def)
qed

section \<open>The owner of port 443\<close>

lemma needs_cong:
  "tape w = [] \<Longrightarrow> tape w' = [] \<Longrightarrow> \<forall>p\<in>set ps. file_at w' p = file_at w p \<Longrightarrow>
     fst (needs_443_in env ps w') = fst (needs_443_in env ps w)"
  by (induction ps) (auto simp: calm_read split: prod.splits sum.splits option.splits)

definition tunnel :: "svc_env \<Rightarrow> svc \<Rightarrow> bool" where
  "tunnel env st \<longleftrightarrow>
     se_mode env = ''embedded'' \<and> tape (disk st) = [] \<and> fst (needs_443_in env DefaultXrayConfigPaths (disk st))"

definition one_owner :: "svc \<Rightarrow> bool" where
  "one_owner st \<longleftrightarrow>
     (file_at (disk st) fallback443Path = None \<and> IsRunning st) \<or>
     (file_at (disk st) fallback443Path = Some fallback443Conf \<and> \<not> IsRunning st)"

lemma fallback_elsewhere: "p \<in> set DefaultXrayConfigPaths \<Longrightarrow> p \<noteq> fallback443Path"
  by (auto simp: DefaultXrayConfigPaths_def fallback443Path_def)

lemma tunnel_frame:
  "tunnel env st \<Longrightarrow> tape (disk st') = [] \<Longrightarrow>
     (\<And>p. p \<noteq> fallback443Path \<Longrightarrow> file_at (disk st') p = file_at (disk st) p) \<Longrightarrow> tunnel env st'"
  using needs_cong [of "disk st" "disk st'" DefaultXrayConfigPaths env] fallback_elsewhere by (auto simp: tunnel_def)

lemma tunnel_needs: "tunnel env st \<Longrightarrow> configNeedsPort443 env st = (True, st)"
  using needs_tape [of "disk st" env DefaultXrayConfigPaths]
  by (cases "needs_443_in env DefaultXrayConfigPaths (disk st)")
    (auto simp: tunnel_def configNeedsPort443_def on_world_def)

lemma reload_disk: "disk (manage_reloadNginx st) = disk st \<and> sv_emb (manage_reloadNginx st) = sv_emb st \<and>
    sv_pending (manage_reloadNginx st) = sv_pending st"
  using run_cmd_world [of "disk st" "snd (sv_sys st)"]
  by (auto simp: manage_reloadNginx_def on_sys_def split: prod.splits)

lemma restore_effect:
  assumes "tunnel env st"
  shows "disk (restore_fallback env st) = put_file fallback443Path fallback443Conf (disk st) \<and>
    sv_emb (restore_fallback env st) = sv_emb st \<and> sv_pending (restore_fallback env st) = sv_pending st"
  using assms reload_disk
  by (simp add: restore_fallback_def tunnel_needs deployFallback443_def on_world_def calm_calls tunnel_def)

lemma remove_effect:
  assumes "tape (disk st) = []"
  shows "tape (disk (removeFallback443 st)) = [] \<and> file_at (disk (removeFallback443 st)) fallback443Path = None \<and>
    (p \<noteq> fallback443Path \<longrightarrow> file_at (disk (removeFallback443 st)) p = file_at (disk st) p) \<and>
    sv_emb (removeFallback443 st) = sv_emb st \<and> sv_pending (removeFallback443 st) = sv_pending st"
  using assms by (auto simp: removeFallback443_def on_world_def calm_moves split: option.splits)

lemma start_owner:
  assumes t: "tunnel env st" and r: "StartXray env st = (ok, st')"
  shows "tunnel env st' \<and> one_owner st' \<and> IsRunning st' = ok \<and> sv_pending st' = sv_pending st"
proof -
  define a where "a = manage_reloadNginx (removeFallback443 st)"
  have ta: "tape (disk st) = []" using t by (simp add: tunnel_def)
  have fa: "tape (disk a) = []" "file_at (disk a) fallback443Path = None" "sv_pending a = sv_pending st"
    "p \<noteq> fallback443Path \<Longrightarrow> file_at (disk a) p = file_at (disk st) p" for p
    using remove_effect [OF ta] reload_disk [of "removeFallback443 st"] by (simp_all add: a_def)
  have tua: "tunnel env a" by (rule tunnel_frame [OF t fa(1)]) (rule fa(4))
  obtain b st2 where 2: "RestartXray env a = (b, st2)" by fastforce
  have em: "se_mode env = ''embedded''" using t by (simp add: tunnel_def)
  have re: "restarted env a b st2"
    using 2 em restart_embedded [of env _ a b st2] lazy_start [of env a b st2]
    by (auto simp: RestartXray_def split: option.splits)
  then have f2: "tape (disk st2) = []" "file_at (disk st2) p = file_at (disk a) p" "sv_pending st2 = sv_pending st" for p
    using fa(1,3) by (auto simp: restarted_def file_at_def)
  have tu2: "tunnel env st2" by (rule tunnel_frame [OF tua f2(1)]) (rule f2(2))
  have res: "ok = b" "st' = (if b then st2 else restore_fallback env st2)"
    using r 2 by (auto simp: StartXray_def tunnel_needs [OF t] a_def split: bool.splits)
  show ?thesis
  proof (cases b)
    case True
    with re have "IsRunning st2" by (auto simp: restarted_def IsRunning_def)
    with True res tu2 f2 fa(2) show ?thesis by (simp add: one_owner_def)
  next
    case False
    with re have n: "\<not> IsRunning st2" by (simp add: restarted_def)
    note e = restore_effect [OF tu2]
    have "tunnel env (restore_fallback env st2)" by (rule tunnel_frame [OF tu2]) (simp_all add: e f2(1) tape_put)
    with False res e n f2(3) show ?thesis by (simp add: one_owner_def IsRunning_def)
  qed
qed

lemma halt_effect:
  "files (disk (halt_xray st)) = files (disk st) \<and> (tape (disk st) = [] \<longrightarrow> tape (disk (halt_xray st)) = []) \<and>
   \<not> IsRunning (halt_xray st) \<and> sv_pending (halt_xray st) = sv_pending st"
proof (cases "sv_emb st")
  case None
  then show ?thesis using systemctl_grows [of "''stop xray''" st]
    by (cases "systemctl ''stop xray'' st") (auto simp: halt_xray_def IsRunning_def)
next
  case (Some e)
  obtain a e1 st1 where 1: "embedded_Stop e st = (a, e1, st1)" by (metis prod_cases3)
  from stop_grows [OF 1] stop_result [OF 1] show ?thesis
    by (auto simp: halt_xray_def Some 1 IsRunning_def grows_def)
qed

lemma stop_owner:
  assumes t: "tunnel env st"
  shows "tunnel env (StopXray env st) \<and> one_owner (StopXray env st) \<and> \<not> IsRunning (StopXray env st) \<and>
    sv_pending (StopXray env st) = sv_pending st"
proof -
  note e = restore_effect [OF t] and h = halt_effect [of "restore_fallback env st"]
  have f: "file_at (disk (StopXray env st)) p = (if p = fallback443Path then Some fallback443Conf else file_at (disk st) p)" for p
    using e h by (simp add: StopXray_def file_at_def) (metis file_at_def file_at_put)
  have ta: "tape (disk (StopXray env st)) = []" using t e h by (simp add: StopXray_def tunnel_def tape_put)
  have "tunnel env (StopXray env st)" by (rule tunnel_frame [OF t ta]) (simp add: f)
  with f h e show ?thesis by (simp add: one_owner_def StopXray_def)
qed

text \<open>What happens to the service: a request is served, or a goroutine that a stop request has left behind does its
  work, half a second later.\<close>

datatype service_event = Asked string | StopRuns

fun service_step :: "svc_env \<Rightarrow> service_event \<Rightarrow> svc \<Rightarrow> svc" where
  "service_step env (Asked action) st = snd (HandleServiceControl env True True (Some (''xray'', action)) st)"
| "service_step env StopRuns st = deferred_stop st"

definition service_run :: "svc_env \<Rightarrow> service_event list \<Rightarrow> svc \<Rightarrow> svc" where
  "service_run env es st = fold (service_step env) es st"

text \<open>Start and stop requests, no start being served while a stop is still to be carried out.\<close>

fun in_order :: "svc_env \<Rightarrow> service_event list \<Rightarrow> svc \<Rightarrow> bool" where
  "in_order env [] st = True"
| "in_order env (e # es) st =
     ((case e of Asked action \<Rightarrow> action = ''stop'' \<or> action = ''start'' \<and> sv_pending st = 0 | StopRuns \<Rightarrow> True) \<and>
      in_order env es (service_step env e st))"

text \<open>The owners of the port between two events: one, or nginx and an Xray that is still to be stopped.\<close>

definition owned :: "svc \<Rightarrow> bool" where
  "owned st \<longleftrightarrow>
     (if sv_pending st = 0 then one_owner st else file_at (disk st) fallback443Path = Some fallback443Conf)"

lemma start_step: "service_step env (Asked ''start'') st = snd (StartXray env st)"
  by (auto simp: HandleServiceControl_def split: prod.splits bool.splits)

lemma stop_step:
  "service_step env (Asked ''stop'') st =
     (let st1 = restore_fallback env st in st1\<lparr>sv_pending := Suc (sv_pending st1)\<rparr>)"
  by (simp add: HandleServiceControl_def Let_def)

lemma asked_owned:
  assumes t: "tunnel env st" and a: "a = ''stop'' \<or> a = ''start'' \<and> sv_pending st = 0"
  shows "tunnel env (service_step env (Asked a) st) \<and> owned (service_step env (Asked a) st)"
proof (cases "a = ''stop''")
  case True
  let ?s = "service_step env (Asked a) st"
  have d: "disk ?s = put_file fallback443Path fallback443Conf (disk st)" "sv_pending ?s = Suc (sv_pending st)"
    using restore_effect [OF t] by (simp_all add: True stop_step Let_def del: service_step.simps)
  have "tape (disk st) = []" using t by (simp add: tunnel_def)
  then have "tunnel env ?s" by (intro tunnel_frame [OF t]) (simp_all add: d tape_put del: service_step.simps)
  with d show ?thesis by (simp add: owned_def del: service_step.simps)
next
  case False
  with a have s: "a = ''start''" "sv_pending st = 0" by simp_all
  obtain ok st' where r: "StartXray env st = (ok, st')" by fastforce
  from start_owner [OF t r] s r show ?thesis by (simp add: start_step owned_def del: service_step.simps)
qed

lemma stop_runs_owned:
  assumes t: "tunnel env st" and o: "owned st"
  shows "tunnel env (service_step env StopRuns st) \<and> owned (service_step env StopRuns st)"
proof (cases "sv_pending st")
  case (Suc n)
  let ?s = "st\<lparr>sv_pending := n\<rparr>"
  note h = halt_effect [of ?s]
  have f: "file_at (disk (halt_xray ?s)) p = file_at (disk st) p" for p using h by (simp add: file_at_def)
  have ta: "tape (disk (halt_xray ?s)) = []" using t h by (simp add: tunnel_def)
  have "tunnel env (halt_xray ?s)" by (rule tunnel_frame [OF t ta]) (rule f)
  moreover have "owned (halt_xray ?s)" using o h f Suc by (cases n) (simp_all add: owned_def one_owner_def)
  ultimately show ?thesis using Suc by (simp add: deferred_stop_def)
qed (use t o in \<open>simp add: deferred_stop_def\<close>)

lemma run_owned: "tunnel env st \<Longrightarrow> owned st \<Longrightarrow> in_order env es st \<Longrightarrow>
    tunnel env (service_run env es st) \<and> owned (service_run env es st)"
  unfolding service_run_def
proof (induction es arbitrary: st)
  case (Cons e es)
  have "tunnel env (service_step env e st) \<and> owned (service_step env e st)"
  proof (cases e)
    case (Asked a)
    with Cons.prems have "a = ''stop'' \<or> a = ''start'' \<and> sv_pending st = 0" by (auto simp del: service_step.simps)
    from asked_owned [OF Cons.prems(1) this] show ?thesis unfolding Asked .
  next
    case StopRuns
    from stop_runs_owned [OF Cons.prems(1,2)] show ?thesis unfolding StopRuns .
  qed
  with Cons show ?case by (simp del: service_step.simps)
qed simp



section \<open>The arguments of a relaunch\<close>

text \<open>An Xray relaunched by signal gets the configuration and the directory it had: reading the new arguments gives
  back the paths that were read from the old ones, whatever characters they contain.\<close>

theorem relaunch_keeps_paths: "ParseXrayArgs (relaunch_args p) = p"
proof -
  have f: "is_config_flag ''-config''" "is_confdir_flag ''-confdir''" "\<not> is_config_flag ''run''"
    "\<not> is_confdir_flag ''run''" "cut_at (CHR 0x3D) ''run'' = None"
    by (simp_all add: is_config_flag_def is_confdir_flag_def cut_at_def)
  have r: "parse_args q (''run'' # rest) = parse_args q rest" for q rest using f by simp
  show ?thesis
    by (cases p; cases "ConfigPath p = []"; cases "ConfDir p = []")
      (simp_all only: ParseXrayArgs_def relaunch_args_def r append.simps if_True if_False simp_thms
        parse_flag_value f parse_args.simps(1), simp_all add: no_paths_def)
qed

section \<open>Departures\<close>

text \<open>A restart that fails leaves port 443 to nobody: only start puts the fallback back.\<close>

lemma restart_leaves_443_unserved:
  "(let env = demo_svc_env;
        st = service_run env [Asked ''start''] (demo_svc ''tunnel'' ([True, True, True] @ replicate 20 False));
        st' = service_run env [Asked ''restart''] st
    in one_owner st \<and> IsRunning st \<and> \<not> IsRunning st' \<and> file_at (disk st') fallback443Path = None)"
  by code_simp

text \<open>After a stop, a restart runs Xray while the fallback that gives nginx the same port stays.\<close>

lemma restart_after_stop_two_owners:
  "(let env = demo_svc_env;
        st' = service_run env [Asked ''start'', Asked ''stop'', StopRuns, Asked ''restart''] (demo_svc ''tunnel'' [])
    in IsRunning st' \<and> file_at (disk st') fallback443Path = Some fallback443Conf)"
  by code_simp

text \<open>The stop is carried out half a second after its answer, without looking at what happened since: it ends the Xray
  that a start request has started in between, and the fallback is gone.\<close>

lemma late_stop_ends_new_start:
  "(let env = demo_svc_env; st = service_run env [Asked ''start''] (demo_svc ''tunnel'' []);
        st1 = service_run env [Asked ''stop''] st;
        (r, st2) = HandleServiceControl env True True (Some (''xray'', ''start'')) st1;
        st3 = service_run env [StopRuns] st2
    in status r = 200 \<and> IsRunning st2 \<and> \<not> IsRunning st3 \<and> file_at (disk st3) fallback443Path = None)"
  by code_simp

text \<open>One inbound with a range of ports hides that another wants port 443: the whole file counts as unreadable.\<close>

lemma port_range_hides_443: "fst (configNeedsPort443 demo_svc_env (demo_svc ''range'' [])) = False"
  by code_simp

text \<open>Restarting by signal kills first and looks at the binary afterwards: without one Xray stays down.\<close>

lemma signal_kills_without_relaunch:
  "(let env = demo_svc_env\<lparr>se_mode := ''external'', se_method := ''signal''\<rparr>; (ok, st) = RestartXray env (demo_svc [] [])
    in \<not> ok \<and> sv_calls st = [Killed 7])"
  by code_simp

text \<open>A change of mode that is refused because the external Xray does not start is stored all the same.\<close>

lemma refused_switch_is_stored:
  "(let w = demo_files [(''/c.yaml'', ''xray_mode: embedded'')];
        st = (demo_svc [] [])\<lparr>sv_sys := (w, [True, False])\<rparr>;
        ((r, leaves), st') = HandleSwitchXrayMode demo_svc_env True True ''/c.yaml'' (Some ''external'') st
    in status r = 500 \<and> \<not> leaves \<and> file_at (disk st') ''/c.yaml'' = Some ''xray_mode: external'')"
  by code_simp

end
