(* ===== verification/Ws_Session.thy ===== *)
theory Ws_Session
  imports Client_Messages
begin

text \<open>
  One WebSocket connection in full (\<open>internal/agent/client.go\<close>): the dial and the addresses it depends on, the key
  exchange (\<open>performKeyExchange\<close>), the authentication (\<open>authenticateMode\<close>), the message loop with its reader
  (\<open>runMessageLoop\<close>), and the probe of another master (\<open>ProbeMasterURL\<close>). \<open>Reconnect\<close> has the same connection with the
  outcomes as data; the refinement lemma says that every connection here is one of those.

  The connection is a record \<open>conn\<close>: the messages still to arrive (\<open>None\<close> ends them), the outcomes of the writes to
  come (a write beyond the list works), the frames handed to it so far. Encoding and decoding of messages
  (\<open>encoding/json\<close>) are the fields of \<open>codec\<close>.
\<close>

section \<open>Addresses\<close>

record addresses =
  ip4 :: string
  ip6 :: string

text \<open>\<open>sameHostAsMaster\<close>: \<open>lookup\<close> is the resolver, \<open>None\<close> an error.\<close>

definition sameHostAsMaster :: "net_lib \<Rightarrow> (string \<Rightarrow> string list option) \<Rightarrow> addresses \<Rightarrow> string \<Rightarrow> bool" where
  "sameHostAsMaster net lookup ips masterURL =
     (case nl_url net masterURL of
        None \<Rightarrow> False
      | Some u \<Rightarrow>
          (let host = up_hostname u; low = to_lower host
           in if low = [] then False
              else if low = ''localhost'' \<or> low = ''127.0.0.1'' \<or> low = ''::1'' then True
              else if ip4 ips \<noteq> [] \<and> host = ip4 ips then True
              else if ip6 ips \<noteq> [] \<and> host = ip6 ips then True
              else
                (case lookup host of
                   None \<Rightarrow> False
                 | Some resolved \<Rightarrow>
                     list_ex (\<lambda>ip. ip4 ips \<noteq> [] \<and> ip = ip4 ips \<or> ip6 ips \<noteq> [] \<and> ip = ip6 ips) resolved)))"

text \<open>One round of \<open>ipProbeLoop\<close>: \<open>v4\<close> and \<open>v6\<close> are what was detected, empty when nothing was.\<close>

definition probeOnce :: "string \<Rightarrow> string \<Rightarrow> addresses \<times> 'a agent_scheme \<Rightarrow> addresses \<times> 'a agent_scheme" where
  "probeOnce v4 v6 s =
     (case s of (ips, a) \<Rightarrow>
        (let new4 = (if v4 = [] then ip4 ips else v4); new6 = (if v6 = [] then ip6 ips else v6)
         in if new4 \<noteq> ip4 ips \<or> new6 \<noteq> ip6 ips then (\<lparr>ip4 = new4, ip6 = new6\<rparr>, wake a) else s))"

definition probe_delay :: "addresses \<Rightarrow> nat" where
  "probe_delay ips = (if ip4 ips = [] then 30 else 60)"

text \<open>The answers of the services that tell the own address, in order: the first that is an address of the right
  family. \<open>parse\<close> is \<open>net.ParseIP\<close>: whether the text is an IPv4 address, \<open>None\<close> when it is none at all.\<close>

fun detect_ip :: "(string \<Rightarrow> bool option) \<Rightarrow> bool \<Rightarrow> string option list \<Rightarrow> string" where
  "detect_ip parse want4 [] = []"
| "detect_ip parse want4 (None # rs) = detect_ip parse want4 rs"
| "detect_ip parse want4 (Some raw # rs) =
     (let ip = trim_space raw
      in (case parse ip of
            None \<Rightarrow> detect_ip parse want4 rs
          | Some is4 \<Rightarrow> if is4 = want4 then ip else detect_ip parse want4 rs))"

definition preferV4DialContext :: "addresses \<Rightarrow> bool \<Rightarrow> bool \<Rightarrow> bool" where
  "preferV4DialContext ips v4 v6 = (if ip4 ips \<noteq> [] then v4 else if v4 then True else v6)"

section \<open>The connection\<close>

record conn =
  cn_in :: "bytes option list"
  cn_writes :: "bool list"
  cn_out :: "ws_frame list"

record auth_info =
  ai_token :: string
  ai_probe :: bool
  ai_ip4 :: string
  ai_ip6 :: string
  ai_warp :: bool
  ai_same_host :: bool
  ai_version :: string
  ai_mode :: string
  ai_rpc :: bool

text \<open>\<open>cd_auth_result\<close>: type, success and message of an answer; \<open>cd_kx_resp\<close>: type, public key and signature.\<close>

record codec =
  cd_kx :: "string \<Rightarrow> bytes"
  cd_auth :: "auth_info \<Rightarrow> bytes"
  cd_probe_auth :: "string \<Rightarrow> bytes"
  cd_kx_resp :: "bytes \<Rightarrow> (string \<times> string \<times> string) option"
  cd_auth_result :: "bytes \<Rightarrow> (string \<times> bool \<times> string) option"

definition read_message :: "conn \<Rightarrow> bytes option \<times> conn" where
  "read_message cn = (case cn_in cn of [] \<Rightarrow> (None, cn) | m # ms \<Rightarrow> (m, cn\<lparr>cn_in := ms\<rparr>))"

definition write_frame :: "ws_frame \<Rightarrow> conn \<Rightarrow> bool \<times> conn" where
  "write_frame f cn =
     (let cn1 = cn\<lparr>cn_out := cn_out cn @ [f]\<rparr>
      in (case cn_writes cn of [] \<Rightarrow> (True, cn1) | b # bs \<Rightarrow> (b, cn1\<lparr>cn_writes := bs\<rparr>)))"

definition send_msg :: "crypto_lib \<Rightarrow> bytes \<Rightarrow> session option \<times> conn \<Rightarrow> bool \<times> session option \<times> conn" where
  "send_msg lib data s =
     (case s of (ses, cn) \<Rightarrow>
        (case writeEncrypted lib data ses of
           (f, ses1) \<Rightarrow> (case write_frame f cn of (ok, cn1) \<Rightarrow> (ok, ses1, cn1))))"

section \<open>The key exchange\<close>

definition kx_session ::
  "crypto_lib \<Rightarrow> codec \<Rightarrow> bytes \<Rightarrow> bytes \<Rightarrow> bytes \<Rightarrow> bytes \<Rightarrow> session option" where
  "kx_session lib cd pk agentPriv agentPub message =
     (case cd_kx_resp cd message of
        None \<Rightarrow> None
      | Some (ty, p, sg) \<Rightarrow>
          if ty \<noteq> ''key_exchange_resp'' then None
          else
            (case b64_decode lib p of
               None \<Rightarrow> None
             | Some masterEphPub \<Rightarrow>
                 if length masterEphPub \<noteq> 32 then None
                 else
                   (case b64_decode lib sg of
                      None \<Rightarrow> None
                    | Some sig \<Rightarrow>
                        if \<not> ed_verify lib pk masterEphPub sig then None
                        else
                          (case x_ecdh lib agentPriv masterEphPub of
                             None \<Rightarrow> None
                           | Some shared \<Rightarrow> DeriveSession (hkdf lib) shared agentPub masterEphPub False))))"

definition performKeyExchange ::
  "crypto_lib \<Rightarrow> codec \<Rightarrow> bytes \<Rightarrow> 'a agent_scheme \<times> conn \<Rightarrow> session option \<times> 'a agent_scheme \<times> conn" where
  "performKeyExchange lib cd pk s =
     (case s of (a, cn) \<Rightarrow>
        (case generate_ephemeral a of
           (None, a1) \<Rightarrow> (None, a1, cn)
         | (Some (agentPriv, agentPub), a1) \<Rightarrow>
             (case write_frame (TextFrame (cd_kx cd (b64_encode lib agentPub))) cn of
                (False, cn1) \<Rightarrow> (None, a1, cn1)
              | (True, cn1) \<Rightarrow>
                  (case read_message cn1 of
                     (None, cn2) \<Rightarrow> (None, a1, cn2)
                   | (Some message, cn2) \<Rightarrow> (kx_session lib cd pk agentPriv agentPub message, a1, cn2)))))"

section \<open>Authentication\<close>

text \<open>The error's code is never set, so only the text of the answer tells an invalid token.\<close>

definition IsTokenInvalid :: "string \<Rightarrow> string \<Rightarrow> bool" where
  "IsTokenInvalid code message \<longleftrightarrow> code = ''token_invalid'' \<or> message = ''Invalid token''"

definition authenticateMode ::
  "crypto_lib \<Rightarrow> codec \<Rightarrow> auth_info \<Rightarrow> session option \<times> conn \<Rightarrow> auth_answer \<times> session option \<times> conn" where
  "authenticateMode lib cd info s =
     (case send_msg lib (cd_auth cd info) s of
        (False, s1) \<Rightarrow> (AuthIO, s1)
      | (True, ses1, cn1) \<Rightarrow>
          (case read_message cn1 of
             (None, cn2) \<Rightarrow> (AuthIO, ses1, cn2)
           | (Some message, cn2) \<Rightarrow>
               (case decryptMessage lib message ses1 of
                  (clear, ses2) \<Rightarrow>
                    (case cd_auth_result cd clear of
                       None \<Rightarrow> (AuthIO, ses2, cn2)
                     | Some (ty, success, msg) \<Rightarrow>
                         if ty \<noteq> ''auth_result'' \<or> \<not> success then (AuthReject (IsTokenInvalid [] msg), ses2, cn2)
                         else (AuthAccept, ses2, cn2)))))"

section \<open>The message loop\<close>

text \<open>What happens next in the loop: the context or the client is stopped; the reader gets a message or an error; the
  loop takes a queued message or the reader's error; a ticker fires, with what is to be reported; a goroutine sends
  something of its own (an answer to a call, the result of a scan).\<close>

datatype loop_event =
    LoopCancel
  | LoopStop
  | Arrive
  | TakeMessage
  | TakeError
  | TrafficTick bytes
  | SpeedTick bytes
  | HeartbeatTick bytes
  | Background bytes

record ws_loop =
  wl_conn :: conn
  wl_session :: "session option"
  wl_queue :: "bytes list"
  wl_failed :: bool
  wl_client :: mclient
  wl_disk :: world
  wl_tasks :: "ws_task list"

definition loop_send :: "crypto_lib \<Rightarrow> bytes \<Rightarrow> ws_loop \<Rightarrow> bool \<times> ws_loop" where
  "loop_send lib data st =
     (case send_msg lib data (wl_session st, wl_conn st) of
        (ok, ses, cn) \<Rightarrow> (ok, st\<lparr>wl_session := ses, wl_conn := cn\<rparr>))"

definition loop_arrive :: "crypto_lib \<Rightarrow> ws_loop \<Rightarrow> ws_loop" where
  "loop_arrive lib st =
     (if wl_failed st then st
      else
        (case read_message (wl_conn st) of
           (None, cn) \<Rightarrow> st\<lparr>wl_conn := cn, wl_failed := True\<rparr>
         | (Some message, cn) \<Rightarrow>
             (case decryptMessage lib message (wl_session st) of
                (clear, ses) \<Rightarrow> st\<lparr>wl_conn := cn, wl_session := ses, wl_queue := enqueue clear (wl_queue st)\<rparr>)))"

record msg_env =
  me_parse :: "bytes \<Rightarrow> ws_msg option"
  me_net :: net_lib
  me_targets :: "string \<Rightarrow> ping_target list option"

definition loop_take :: "msg_env \<Rightarrow> ws_loop \<Rightarrow> ws_loop" where
  "loop_take me st =
     (case wl_queue st of
        [] \<Rightarrow> st
      | m # ms \<Rightarrow>
          (case handleMessage (me_parse me) (me_net me) (me_targets me) m (wl_client st, wl_disk st) of
             (ts, c, w) \<Rightarrow> st\<lparr>wl_queue := ms, wl_client := c, wl_disk := w, wl_tasks := wl_tasks st @ ts\<rparr>))"

fun loop_step :: "crypto_lib \<Rightarrow> msg_env \<Rightarrow> loop_event \<Rightarrow> ws_loop \<Rightarrow> loop_end option \<times> ws_loop" where
  "loop_step lib me LoopCancel st = (Some EndCancel, st)"
| "loop_step lib me LoopStop st = (Some EndStop, st)"
| "loop_step lib me Arrive st = (None, loop_arrive lib st)"
| "loop_step lib me TakeMessage st = (None, loop_take me st)"
| "loop_step lib me TakeError st = (if wl_failed st then Some EndError else None, st)"
| "loop_step lib me (TrafficTick p) st =
     (case loop_send lib p st of (ok, st1) \<Rightarrow> (if ok then None else Some EndError, st1))"
| "loop_step lib me (SpeedTick p) st =
     (case loop_send lib p st of (ok, st1) \<Rightarrow> (if ok then None else Some EndError, st1))"
| "loop_step lib me (HeartbeatTick p) st =
     (case loop_send lib p st of (ok, st1) \<Rightarrow> (if ok then None else Some EndError, st1))"
| "loop_step lib me (Background p) st = (None, snd (loop_send lib p st))"

text \<open>The list of events ends when the agent is stopped.\<close>

fun run_loop :: "crypto_lib \<Rightarrow> msg_env \<Rightarrow> loop_event list \<Rightarrow> ws_loop \<Rightarrow> loop_end \<times> ws_loop" where
  "run_loop lib me [] st = (EndStop, st)"
| "run_loop lib me (e # es) st =
     (case loop_step lib me e st of
        (Some r, st1) \<Rightarrow> (r, st1)
      | (None, st1) \<Rightarrow> run_loop lib me es st1)"

definition runMessageLoop :: "crypto_lib \<Rightarrow> msg_env \<Rightarrow> bytes \<Rightarrow> bytes \<Rightarrow> loop_event list \<Rightarrow> ws_loop \<Rightarrow> loop_end \<times> ws_loop" where
  "runMessageLoop lib me traffic speed es st =
     run_loop lib me es (snd (loop_send lib speed (snd (loop_send lib traffic st))))"

section \<open>The whole connection\<close>

text \<open>What a connection meets: is it dialled, what is told at authentication, the reports, the events of the loop, and
  what goroutines the loop has started still write while the deferred function has dropped the session and not
  yet closed the connection.\<close>

record ws_plan =
  wp_dial :: bool
  wp_info :: auth_info
  wp_now :: int
  wp_heartbeat :: bytes
  wp_traffic :: bytes
  wp_speed :: bytes
  wp_events :: "loop_event list"
  wp_late :: "bytes list"

definition on_client :: "(client \<Rightarrow> client) \<Rightarrow> mclient \<Rightarrow> mclient" where
  "on_client f c = c\<lparr>ag_client := f (ag_client c)\<rparr>"

text \<open>The deferred function, in its order: \<open>connected\<close> is cleared and then the session is dropped; whatever goroutines
  write now finds no session; the connection is closed and the listener's hook is called.\<close>

definition drop_session :: "ws_loop \<Rightarrow> ws_loop" where
  "drop_session st =
     st\<lparr>wl_session := None, wl_client := on_client (\<lambda>x. x\<lparr>cl_connected := False, cl_session := False\<rparr>) (wl_client st)\<rparr>"

definition write_late :: "crypto_lib \<Rightarrow> bytes list \<Rightarrow> ws_loop \<Rightarrow> ws_loop" where
  "write_late lib late st = fold (\<lambda>p s. snd (loop_send lib p s)) late st"

definition hang_up :: "crypto_lib \<Rightarrow> bytes list \<Rightarrow> ws_loop \<Rightarrow> ws_loop" where
  "hang_up lib late st =
     (let st1 = write_late lib late (drop_session st) in st1\<lparr>wl_client := on_client leave (wl_client st1)\<rparr>)"

definition exchange_keys :: "crypto_lib \<Rightarrow> codec \<Rightarrow> ws_loop \<Rightarrow> bool \<times> ws_loop" where
  "exchange_keys lib cd st =
     (case ag_pubkey (wl_client st) of
        None \<Rightarrow> (True, st)
      | Some pk \<Rightarrow>
          (case performKeyExchange lib cd pk (wl_client st, wl_conn st) of
             (None, c1, cn1) \<Rightarrow> (False, st\<lparr>wl_client := c1, wl_conn := cn1\<rparr>)
           | (Some s, c1, cn1) \<Rightarrow>
               (True, st\<lparr>wl_client := on_client (\<lambda>x. x\<lparr>cl_session := True\<rparr>) c1, wl_conn := cn1, wl_session := Some s\<rparr>)))"

definition ws_connectAndRun :: "crypto_lib \<Rightarrow> codec \<Rightarrow> msg_env \<Rightarrow> ws_plan \<Rightarrow> ws_loop \<Rightarrow> conn_error option \<times> ws_loop" where
  "ws_connectAndRun lib cd me plan st =
     (if nl_url (me_net me) (ag_master (wl_client st)) = None then (Some ConnOther, st)
      else if \<not> wp_dial plan then (Some ConnOther, st)
      else
        (case exchange_keys lib cd st of
           (False, st1) \<Rightarrow> (Some ConnOther, hang_up lib [] st1)
         | (True, st1) \<Rightarrow>
             (case authenticateMode lib cd (wp_info plan) (wl_session st1, wl_conn st1) of
                (r, ses2, cn2) \<Rightarrow>
                  (let st2 = st1\<lparr>wl_session := ses2, wl_conn := cn2\<rparr>
                   in (case r of
                         AuthIO \<Rightarrow> (Some ConnOther, hang_up lib [] st2)
                       | AuthReject invalid \<Rightarrow> (Some (ConnAuth invalid), hang_up lib [] st2)
                       | AuthAccept \<Rightarrow>
                           (let st3 = st2\<lparr>wl_client := (on_client (\<lambda>x. x\<lparr>cl_connected := True, cl_reconnects := 0,
                                          cl_hooks := cl_hooks x @ [True]\<rparr>) (wl_client st2))\<lparr>ag_contact := wp_now plan\<rparr>\<rparr>;
                                st4 = snd (loop_send lib (wp_heartbeat plan) st3)
                            in (case runMessageLoop lib me (wp_traffic plan) (wp_speed plan) (wp_events plan) st4 of
                                  (EndStop, st5) \<Rightarrow> (None, hang_up lib (wp_late plan) st5)
                                | (EndCancel, st5) \<Rightarrow> (Some ConnCancelled, hang_up lib (wp_late plan) st5)
                                | (EndError, st5) \<Rightarrow> (Some ConnOther, hang_up lib (wp_late plan) st5))))))))"

definition tryWebSocketOnce :: "net_lib \<Rightarrow> bool \<Rightarrow> 'a agent_scheme \<Rightarrow> bool" where
  "tryWebSocketOnce net dial a = (nl_url net (ag_master a) \<noteq> None \<and> dial)"

section \<open>Probing another master\<close>

definition ProbeMasterURL ::
  "crypto_lib \<Rightarrow> codec \<Rightarrow> net_lib \<Rightarrow> bool \<Rightarrow> string \<Rightarrow> 'a agent_scheme \<times> conn \<Rightarrow> bool \<times> 'a agent_scheme \<times> conn" where
  "ProbeMasterURL lib cd net dial masterURL s =
     (case s of (a, cn) \<Rightarrow>
        (case nl_url net (trim_slashes masterURL) of
           None \<Rightarrow> (False, s)
         | Some u \<Rightarrow>
             if up_scheme u \<noteq> ''http'' \<and> up_scheme u \<noteq> ''https'' \<or> up_host u = [] then (False, s)
             else if \<not> dial then (False, s)
             else
               (case (case ag_pubkey a of
                        None \<Rightarrow> (Some None, a, cn)
                      | Some pk \<Rightarrow>
                          (case performKeyExchange lib cd pk s of
                             (None, s1) \<Rightarrow> (None, s1)
                           | (Some ses, s1) \<Rightarrow> (Some (Some ses), s1))) of
                  (None, s1) \<Rightarrow> (False, s1)
                | (Some ses, a1, cn1) \<Rightarrow>
                    (case send_msg lib (cd_probe_auth cd (ag_token a)) (ses, cn1) of
                       (False, _, cn2) \<Rightarrow> (False, a1, cn2)
                     | (True, _, cn2) \<Rightarrow>
                         (case read_message cn2 of
                            (None, cn3) \<Rightarrow> (False, a1, cn3)
                          | (Some response, cn3) \<Rightarrow>
                              (case cd_auth_result cd response of
                                 Some (ty, success, _) \<Rightarrow> (ty = ''auth_result'' \<and> success, a1, cn3)
                               | None \<Rightarrow> (False, a1, cn3)))))))"

section \<open>What a message leaves alone\<close>

lemma limiter_keeps:
  "ag_client (handleLimiterConfig p c) = ag_client c" "ag_pubkey (handleLimiterConfig p c) = ag_pubkey c"
  by (simp_all add: handleLimiterConfig_def Let_def split: option.split)

lemma message_keeps:
  assumes "handleMessage parse net targets message (c, w) = (ts, c', w')"
  shows "ag_client c' = ag_client c \<and> ag_pubkey c' = ag_pubkey c"
proof (cases "parse message")
  case None
  with assms show ?thesis by (simp add: handleMessage_def)
next
  case (Some m)
  show ?thesis
  proof (cases m)
    case (MsgConfigUpdate us)
    with assms Some have "c' = fst (handleConfigUpdate net targets us (c, w))" by (simp add: handleMessage_def)
    then show ?thesis by (simp add: config_update_frame)
  qed (use assms Some in \<open>auto simp: handleMessage_def limiter_keeps handleTokenUpdate_def handleLicenseStatus_def\<close>)
qed

section \<open>Refinement\<close>

text \<open>The loop changes neither the connection state the reconnection works on nor the pinned key.\<close>

definition keeps_client :: "ws_loop \<Rightarrow> ws_loop \<Rightarrow> bool" where
  "keeps_client st st' \<longleftrightarrow>
     ag_client (wl_client st') = ag_client (wl_client st) \<and> ag_pubkey (wl_client st') = ag_pubkey (wl_client st)"

lemma keeps_trans: "keeps_client a b \<Longrightarrow> keeps_client b c \<Longrightarrow> keeps_client a c"
  by (simp add: keeps_client_def)

lemma loop_send_keeps: "keeps_client st (snd (loop_send lib p st))"
  by (simp add: keeps_client_def loop_send_def split: prod.split)

lemma loop_step_keeps: "keeps_client st (snd (loop_step lib me e st))"
proof -
  have s: "keeps_client st st1" if "loop_send lib p st = (ok, st1)" for p ok st1
    using loop_send_keeps [of st lib p] that by simp
  have t: "keeps_client st (loop_take me st)"
    by (auto simp: loop_take_def keeps_client_def dest: message_keeps split: list.split prod.split)
  have a: "keeps_client st (loop_arrive lib st)"
    by (simp add: loop_arrive_def keeps_client_def split: prod.split option.split)
  show ?thesis
    using t a loop_send_keeps
    by (cases e) (auto simp: keeps_client_def dest!: s split: prod.split)
qed

lemma run_loop_keeps: "keeps_client st (snd (run_loop lib me es st))"
proof (induction es arbitrary: st)
  case Nil
  then show ?case by (simp add: keeps_client_def)
next
  case (Cons e es)
  obtain r st1 where 1: "loop_step lib me e st = (r, st1)" by fastforce
  have "keeps_client st st1" using loop_step_keeps [of st lib me e] 1 by simp
  with Cons.IH [of st1] 1 show ?case by (cases r) (auto intro: keeps_trans)
qed

lemma message_loop_keeps: "keeps_client st (snd (runMessageLoop lib me t s es st))"
  unfolding runMessageLoop_def using run_loop_keeps loop_send_keeps keeps_trans by metis

lemma kx_keeps: "performKeyExchange lib cd pk (a, cn) = (r, a', cn') \<Longrightarrow> ag_pubkey a' = ag_pubkey a \<and> ag_client a' = ag_client a"
proof -
  assume k: "performKeyExchange lib cd pk (a, cn) = (r, a', cn')"
  obtain d a1 where 1: "generate_ephemeral a = (d, a1)" by fastforce
  have "ag_pubkey a1 = ag_pubkey a" "ag_client a1 = ag_client a"
    using 1 by (auto simp: generate_ephemeral_def split: list.splits)
  moreover have "a' = a1" using k 1
    by (auto simp: performKeyExchange_def split: option.splits prod.splits bool.splits)
  ultimately show ?thesis by simp
qed

lemma exchange_keeps:
  assumes "exchange_keys lib cd st = (ok, st1)"
  shows "ag_pubkey (wl_client st1) = ag_pubkey (wl_client st)"
    and "ag_client (wl_client st1) =
      (if ok \<and> ag_pubkey (wl_client st) \<noteq> None then (ag_client (wl_client st))\<lparr>cl_session := True\<rparr> else ag_client (wl_client st))"
  using assms by (auto simp: exchange_keys_def on_client_def dest!: kx_keeps split: option.splits prod.splits)

text \<open>What is written late does not matter for the client, and goes out as it is.\<close>

lemma late_keeps: "keeps_client st (write_late lib late st)"
  unfolding write_late_def
proof (induction late arbitrary: st)
  case Nil
  then show ?case by (simp add: keeps_client_def)
next
  case (Cons p late)
  show ?case using keeps_trans [OF loop_send_keeps [of st lib p] Cons.IH] by simp
qed

lemma late_clear:
  "wl_session st = None \<Longrightarrow> wl_session (write_late lib late st) = None \<and>
     cn_out (wl_conn (write_late lib late st)) = cn_out (wl_conn st) @ map TextFrame late"
  unfolding write_late_def
proof (induction late arbitrary: st)
  case (Cons p late)
  obtain ok st1 where 1: "loop_send lib p st = (ok, st1)" by fastforce
  with Cons.prems have "wl_session st1 = None" "cn_out (wl_conn st1) = cn_out (wl_conn st) @ [TextFrame p]"
    by (auto simp: loop_send_def send_msg_def writeEncrypted_def write_frame_def Let_def split: list.splits prod.splits)
  with Cons.IH [of st1] 1 show ?case by simp
qed simp

lemma drop_session_simps [simp]:
  "wl_session (drop_session st) = None" "wl_conn (drop_session st) = wl_conn st"
  "ag_pubkey (wl_client (drop_session st)) = ag_pubkey (wl_client st)"
  "ag_client (wl_client (drop_session st)) = (ag_client (wl_client st))\<lparr>cl_connected := False, cl_session := False\<rparr>"
  by (simp_all add: drop_session_def on_client_def)

lemma hang_up_client: "ag_client (wl_client (hang_up lib late st)) = leave (ag_client (wl_client st))"
  using late_keeps [of "drop_session st" lib late]
  by (simp add: hang_up_def on_client_def keeps_client_def leave_def Let_def)

lemma hang_up_simps [simp]:
  "ag_pubkey (wl_client (hang_up lib late st)) = ag_pubkey (wl_client st)"
  "cn_out (wl_conn (hang_up lib late st)) = cn_out (wl_conn st) @ map TextFrame late"
  using late_keeps [of "drop_session st" lib late] late_clear [of "drop_session st" lib late]
  by (simp_all add: hang_up_def on_client_def keeps_client_def Let_def)

text \<open>Every connection of the detailed model is one of \<open>Reconnect\<close>'s: there are outcomes (does the
  address parse, is it dialled, does the key exchange succeed, what does the master answer, how does the loop end) with
  which the abstract connection gives the same error and leaves the client in the same state, hooks included, whatever
  frames are exchanged.\<close>

lemma connection_refines:
  "\<exists>a. at_url a = (nl_url (me_net me) (ag_master (wl_client st)) \<noteq> None) \<and> at_dial a = wp_dial plan \<and>
     connectAndRun (ag_pubkey (wl_client st) \<noteq> None) a (ag_client (wl_client st)) =
       (fst (ws_connectAndRun lib cd me plan st), ag_client (wl_client (snd (ws_connectAndRun lib cd me plan st))))"
proof -
  obtain kx st1 where 1: "exchange_keys lib cd st = (kx, st1)" by fastforce
  obtain r ses2 cn2 where 2: "authenticateMode lib cd (wp_info plan) (wl_session st1, wl_conn st1) = (r, ses2, cn2)"
    by (metis prod_cases3)
  define st2 where "st2 = st1\<lparr>wl_session := ses2, wl_conn := cn2\<rparr>"
  define st3 where "st3 = st2\<lparr>wl_client := (on_client (\<lambda>x. x\<lparr>cl_connected := True, cl_reconnects := 0,
      cl_hooks := cl_hooks x @ [True]\<rparr>) (wl_client st2))\<lparr>ag_contact := wp_now plan\<rparr>\<rparr>"
  define st4 where "st4 = snd (loop_send lib (wp_heartbeat plan) st3)"
  obtain e st5 where 5: "runMessageLoop lib me (wp_traffic plan) (wp_speed plan) (wp_events plan) st4 = (e, st5)" by fastforce
  have k5: "ag_client (wl_client st5) = ag_client (wl_client st3)"
    using message_loop_keeps [of st4 lib me "wp_traffic plan" "wp_speed plan" "wp_events plan"] 5
      loop_send_keeps [of st3 lib "wp_heartbeat plan"] by (simp add: keeps_client_def st4_def)
  have k3: "ag_client (wl_client st3) = (ag_client (wl_client st1))\<lparr>cl_connected := True, cl_reconnects := 0,
      cl_hooks := cl_hooks (ag_client (wl_client st1)) @ [True]\<rparr>" "ag_client (wl_client st2) = ag_client (wl_client st1)"
    by (simp_all add: st3_def st2_def on_client_def)
  note k1 = exchange_keeps [OF 1]
  have full: "ws_connectAndRun lib cd me plan st =
    (if nl_url (me_net me) (ag_master (wl_client st)) = None then (Some ConnOther, st)
     else if \<not> wp_dial plan then (Some ConnOther, st)
     else if \<not> kx then (Some ConnOther, hang_up lib [] st1)
     else (case r of AuthIO \<Rightarrow> (Some ConnOther, hang_up lib [] st2)
           | AuthReject invalid \<Rightarrow> (Some (ConnAuth invalid), hang_up lib [] st2)
           | AuthAccept \<Rightarrow> (case e of EndStop \<Rightarrow> (None, hang_up lib (wp_late plan) st5)
               | EndCancel \<Rightarrow> (Some ConnCancelled, hang_up lib (wp_late plan) st5)
               | EndError \<Rightarrow> (Some ConnOther, hang_up lib (wp_late plan) st5))))"
    unfolding ws_connectAndRun_def 1 prod.case 2 Let_def st2_def [symmetric] st3_def [symmetric] st4_def [symmetric] 5
    by (simp split: bool.split auth_answer.split loop_end.split)
  have h: "ag_client (wl_client (hang_up lib late x)) = leave (ag_client (wl_client x))" for late x
    by (rule hang_up_client)
  have plain: "kx" if "ag_pubkey (wl_client st) = None" using that 1 by (simp add: exchange_keys_def)
  define a where "a = \<lparr>at_url = nl_url (me_net me) (ag_master (wl_client st)) \<noteq> None, at_dial = wp_dial plan,
    at_kx = kx, at_auth = r, at_end = e\<rparr>"
  have sel: "at_url a = (nl_url (me_net me) (ag_master (wl_client st)) \<noteq> None)" "at_dial a = wp_dial plan" "at_kx a = kx"
    "at_auth a = r" "at_end a = e" by (simp_all add: a_def)
  have "connectAndRun (ag_pubkey (wl_client st) \<noteq> None) a (ag_client (wl_client st)) =
      (fst (ws_connectAndRun lib cd me plan st), ag_client (wl_client (snd (ws_connectAndRun lib cd me plan st))))"
    unfolding connectAndRun_def sel full Let_def using plain
    by (cases r; cases e) (auto simp: h k1(2) k3 k5)
  with sel(1,2) show ?thesis by blast
qed

lemma connection_pubkey: "ag_pubkey (wl_client (snd (ws_connectAndRun lib cd me plan st))) = ag_pubkey (wl_client st)"
proof -
  obtain kx st1 where 1: "exchange_keys lib cd st = (kx, st1)" by fastforce
  obtain r ses2 cn2 where 2: "authenticateMode lib cd (wp_info plan) (wl_session st1, wl_conn st1) = (r, ses2, cn2)"
    by (metis prod_cases3)
  have k: "ag_pubkey (wl_client (snd (runMessageLoop lib me t s es (snd (loop_send lib h x))))) = ag_pubkey (wl_client x)"
    for t s es h x
    using message_loop_keeps [of "snd (loop_send lib h x)" lib me t s es] loop_send_keeps [of x lib h]
    by (simp add: keeps_client_def)
  have k': "ag_pubkey (wl_client y) = ag_pubkey (wl_client x)"
    if "runMessageLoop lib me t s es (snd (loop_send lib h x)) = (e, y)" for t s es h x e y
    using k [of t s es h x] that by simp
  show ?thesis
    unfolding ws_connectAndRun_def 1 prod.case 2 Let_def
    using exchange_keeps(1) [OF 1]
    by (auto simp: on_client_def dest!: k' split: bool.split auth_answer.split loop_end.split prod.split)
qed

section \<open>The WebSocket mode over real connections\<close>

definition ws_after :: "wait_stop \<Rightarrow> conn_error option \<Rightarrow> ws_state \<Rightarrow> ws_event \<times> ws_state" where
  "ws_after w r s0 =
     (let s = s0\<lparr>ws_client := signal_before w (ws_client s0)\<rparr>
      in (case r of
            Some ConnCancelled \<Rightarrow> (WsExit, s)
          | Some (ConnAuth invalid) \<Rightarrow>
              (let n = ws_auth s + 1
               in if invalid \<and> WebSocketMaxAuthFailures \<le> n
                  then reconnect_wait w AuthFailureSleepBackoff (s\<lparr>ws_auth := 0\<rparr>)
                  else reconnect_wait w (auth_backoff n) (s\<lparr>ws_auth := n\<rparr>))
          | Some ConnOther \<Rightarrow>
              (let n = ws_failures s + 1
               in if WebSocketMaxConsecutiveFailures \<le> n then (WsAuto [], s\<lparr>ws_failures := 0, ws_auth := 0\<rparr>)
                  else ws_wait w (s\<lparr>ws_failures := n, ws_auth := 0\<rparr>))
          | None \<Rightarrow> ws_wait w (s\<lparr>ws_failures := 0, ws_auth := 0\<rparr>)))"

text \<open>A fresh connection is dialled with an empty queue and no session.\<close>

definition dialled :: "conn \<Rightarrow> ws_loop \<Rightarrow> ws_loop" where
  "dialled cn st =
     st\<lparr>wl_conn := cn, wl_session := None, wl_queue := [], wl_failed := False,
        wl_client := on_client (\<lambda>x. x\<lparr>cl_mode := ModeWebSocket\<rparr>) (wl_client st)\<rparr>"

text \<open>The loop's state: the connection's state and the two counters.\<close>

definition ws_abs :: "ws_loop \<times> nat \<times> nat \<Rightarrow> ws_state" where
  "ws_abs t = (case t of (st, f, au) \<Rightarrow> \<lparr>ws_client = ag_client (wl_client st), ws_failures = f, ws_auth = au\<rparr>)"

definition ws_back :: "ws_loop \<Rightarrow> ws_state \<Rightarrow> ws_loop \<times> nat \<times> nat" where
  "ws_back st s = (st\<lparr>wl_client := on_client (\<lambda>_. ws_client s) (wl_client st)\<rparr>, ws_failures s, ws_auth s)"

fun ws_mode ::
  "crypto_lib \<Rightarrow> codec \<Rightarrow> msg_env \<Rightarrow> auto_round list \<Rightarrow> (bool \<times> ws_plan \<times> conn \<times> wait_stop) list \<Rightarrow> ws_loop \<times> nat \<times> nat \<Rightarrow>
   ws_event list \<times> ws_loop \<times> nat \<times> nat" where
  "ws_mode lib cd me rounds [] t = ([], t)"
| "ws_mode lib cd me rounds ((stopped, plan, cn, w) # ps) (st, f, au) =
     (if stopped then ([WsExit], (st, f, au))
      else
        (case ws_connectAndRun lib cd me plan (dialled cn st) of
           (r, st1) \<Rightarrow>
             (case ws_after w r (ws_abs (st1, f, au)) of
                (WsExit, s1) \<Rightarrow> ([WsExit], ws_back st1 s1)
              | (WsAuto _, s1) \<Rightarrow>
                  (case runAutoModeLoop (ag_pubkey (wl_client st1) \<noteq> None) rounds (ws_client s1, 0) of
                     (es, c, _) \<Rightarrow> ([WsAuto es], ws_back st1 (s1\<lparr>ws_client := c\<rparr>)))
              | (WsWait d k, s1) \<Rightarrow>
                  (case ws_mode lib cd me rounds ps (ws_back st1 s1) of (es, t2) \<Rightarrow> (WsWait d k # es, t2)))))"

lemma ws_abs_back [simp]: "ws_abs (ws_back st s) = s"
  by (simp add: ws_abs_def ws_back_def on_client_def)

lemma ws_step_after:
  "ws_step encrypted (False, a, w) s =
     (case connectAndRun encrypted a ((ws_client s)\<lparr>cl_mode := ModeWebSocket\<rparr>) of (r, c) \<Rightarrow> ws_after w r (s\<lparr>ws_client := c\<rparr>))"
  by (auto simp: ws_step_def ws_after_def Let_def split: prod.split option.split conn_error.split)

text \<open>C37: The WebSocket mode refines its abstract model. For every sequence of real connections, with every frame that
  is sent and received on them, there is a sequence of outcomes under which \<open>Reconnect\<close>'s loop makes the same waits and
  hand-overs and ends in the same state; so what is proved of that loop holds of this one.\<close>

theorem ws_mode_refines:
  "\<exists>xs. length xs = length ps \<and>
     runWebSocket (ag_pubkey (wl_client (fst t)) \<noteq> None) rounds xs (ws_abs t) =
       (fst (ws_mode lib cd me rounds ps t), ws_abs (snd (ws_mode lib cd me rounds ps t)))"
proof (induction ps arbitrary: t)
  case Nil
  then show ?case by simp
next
  case (Cons p ps)
  obtain stopped plan cn w where p: "p = (stopped, plan, cn, w)" by (metis prod_cases4)
  obtain st f au where t: "t = (st, f, au)" by (metis prod_cases3)
  show ?case
  proof (cases stopped)
    case True
    obtain a :: attempt where True by blast
    show ?thesis
      by (rule exI [of _ "(True, a, w) # replicate (length ps) (True, a, w)"]) (simp add: p t True ws_step_def)
  next
    case False
    let ?enc = "ag_pubkey (wl_client st) \<noteq> None"
    define st0 where "st0 = dialled cn st"
    have d: "ag_client (wl_client st0) = (ag_client (wl_client st))\<lparr>cl_mode := ModeWebSocket\<rparr>"
      "ag_pubkey (wl_client st0) = ag_pubkey (wl_client st)" by (simp_all add: st0_def dialled_def on_client_def)
    obtain r st1 where 1: "ws_connectAndRun lib cd me plan st0 = (r, st1)" by fastforce
    obtain a where a: "connectAndRun ?enc a (ag_client (wl_client st0)) = (r, ag_client (wl_client st1))"
      using connection_refines [of me st0 plan lib cd] 1 d(2) by auto
    obtain e s1 where e: "ws_after w r (ws_abs (st1, f, au)) = (e, s1)" by fastforce
    have step: "ws_step ?enc (False, a, w) (ws_abs t) = (e, s1)"
      using a d(1) e by (simp add: ws_step_after t ws_abs_def)
    have pk: "ag_pubkey (wl_client (fst (ws_back st1 s))) = ag_pubkey (wl_client st)" for s
      using connection_pubkey [of lib cd me plan st0] 1 d(2) by (simp add: ws_back_def on_client_def)
    have pk1: "ag_pubkey (wl_client st1) = ag_pubkey (wl_client st)"
      using connection_pubkey [of lib cd me plan st0] 1 d(2) by simp
    have run: "ws_mode lib cd me rounds (p # ps) t =
      (case e of WsExit \<Rightarrow> ([WsExit], ws_back st1 s1)
       | WsAuto _ \<Rightarrow> (case runAutoModeLoop ?enc rounds (ws_client s1, 0) of
            (es, c, _) \<Rightarrow> ([WsAuto es], ws_back st1 (s1\<lparr>ws_client := c\<rparr>)))
       | WsWait d k \<Rightarrow> (case ws_mode lib cd me rounds ps (ws_back st1 s1) of (es, t2) \<Rightarrow> (WsWait d k # es, t2)))"
      by (simp add: p t False st0_def [symmetric] 1 e pk1 split: ws_event.split)
    show ?thesis
    proof (cases e)
      case WsExit
      with step run show ?thesis
        by (intro exI [of _ "(False, a, w) # replicate (length ps) (True, a, w)"]) (simp add: t)
    next
      case (WsAuto l)
      obtain es c k where c: "runAutoModeLoop ?enc rounds (ws_client s1, 0) = (es, c, k)" by (metis prod_cases3)
      with WsAuto step run show ?thesis
        by (intro exI [of _ "(False, a, w) # replicate (length ps) (True, a, w)"]) (simp add: t)
    next
      case (WsWait d k)
      obtain xs where x: "length xs = length ps" "runWebSocket ?enc rounds xs s1 =
          (fst (ws_mode lib cd me rounds ps (ws_back st1 s1)), ws_abs (snd (ws_mode lib cd me rounds ps (ws_back st1 s1))))"
        using Cons.IH [of "ws_back st1 s1"] pk by auto
      with WsWait step run show ?thesis
        by (intro exI [of _ "(False, a, w) # xs"]) (simp add: t case_prod_beta)
    qed
  qed
qed

section \<open>What leaves the agent\<close>

text \<open>A frame sealed under a session the master signed; and a frame that offers a key.\<close>

definition sealed_frame :: "crypto_lib \<Rightarrow> bytes \<Rightarrow> ws_frame \<Rightarrow> bool" where
  "sealed_frame lib pk f \<longleftrightarrow>
     (\<exists>s data. signed_session lib pk s \<and> f = BinaryFrame (fst (Encrypt (gcm_seal lib) s data)))"

definition sealed_growth :: "crypto_lib \<Rightarrow> bytes \<Rightarrow> conn \<Rightarrow> conn \<Rightarrow> bool" where
  "sealed_growth lib pk cn cn' \<longleftrightarrow> (\<exists>fs. cn_out cn' = cn_out cn @ fs \<and> (\<forall>f\<in>set fs. sealed_frame lib pk f))"

definition live_session :: "crypto_lib \<Rightarrow> bytes \<Rightarrow> session option \<Rightarrow> bool" where
  "live_session lib pk ses \<longleftrightarrow> (\<exists>s. ses = Some s \<and> signed_session lib pk s)"

lemma growth_refl [simp]: "cn_out cn' = cn_out cn \<Longrightarrow> sealed_growth lib pk cn cn'"
  by (simp add: sealed_growth_def)

lemma growth_trans: "sealed_growth lib pk a b \<Longrightarrow> sealed_growth lib pk b c \<Longrightarrow> sealed_growth lib pk a c"
  by (fastforce simp: sealed_growth_def)

lemma read_out: "read_message cn = (m, cn') \<Longrightarrow> cn_out cn' = cn_out cn"
  by (auto simp: read_message_def split: list.splits)

lemma send_sealed:
  assumes "live_session lib pk ses" and "send_msg lib data (ses, cn) = (ok, ses', cn')"
  shows "live_session lib pk ses' \<and> sealed_growth lib pk cn cn'"
proof -
  obtain s where s: "ses = Some s" "signed_session lib pk s" using assms(1) by (auto simp: live_session_def)
  obtain env s1 where e: "Encrypt (gcm_seal lib) s data = (env, s1)" by fastforce
  have s1: "signed_session lib pk s1" using signed_keys [OF s(2)] encrypt_keys [of "gcm_seal lib" s data] e by simp
  have f: "sealed_frame lib pk (BinaryFrame env)" using s(2) e by (auto simp: sealed_frame_def intro!: exI [of _ s] exI [of _ data])
  have "ses' = Some s1" "cn_out cn' = cn_out cn @ [BinaryFrame env]"
    using assms(2) s(1) e by (auto simp: send_msg_def writeEncrypted_def write_frame_def Let_def split: prod.splits list.splits)
  with s1 f show ?thesis by (auto simp: live_session_def sealed_growth_def)
qed

lemma decrypt_live: "live_session lib pk ses \<Longrightarrow> decryptMessage lib m ses = (clear, ses') \<Longrightarrow> live_session lib pk ses'"
proof -
  assume a: "live_session lib pk ses" and d: "decryptMessage lib m ses = (clear, ses')"
  obtain s where s: "ses = Some s" "signed_session lib pk s" using a by (auto simp: live_session_def)
  obtain x s1 where x: "Decrypt (gcm_unseal lib) s m = (x, s1)" by fastforce
  have "signed_session lib pk s1" using signed_keys [OF s(2)] decrypt_keys [of "gcm_unseal lib" s m] x by simp
  moreover have "ses' = Some s \<or> ses' = Some s1"
    using d s(1) x by (auto simp: decryptMessage_def split: if_splits sum.splits)
  ultimately show ?thesis using s(2) by (auto simp: live_session_def)
qed

definition sealed_step :: "crypto_lib \<Rightarrow> bytes \<Rightarrow> ws_loop \<Rightarrow> ws_loop \<Rightarrow> bool" where
  "sealed_step lib pk st st' \<longleftrightarrow>
     live_session lib pk (wl_session st') \<and> sealed_growth lib pk (wl_conn st) (wl_conn st')"

lemma loop_send_sealed:
  "live_session lib pk (wl_session st) \<Longrightarrow> loop_send lib p st = (ok, st') \<Longrightarrow> sealed_step lib pk st st'"
  by (auto simp: loop_send_def sealed_step_def dest: send_sealed split: prod.splits)

lemma loop_step_sealed:
  assumes "live_session lib pk (wl_session st)" and "loop_step lib me e st = (r, st')"
  shows "sealed_step lib pk st st'"
proof -
  have arrive: "sealed_step lib pk st (loop_arrive lib st)"
    using assms(1) by (auto simp: loop_arrive_def sealed_step_def dest: read_out decrypt_live split: prod.split option.split)
  have take: "sealed_step lib pk st (loop_take me st)"
    using assms(1) by (auto simp: loop_take_def sealed_step_def split: list.split prod.split)
  have bg: "sealed_step lib pk st (snd (loop_send lib p st))" for p
    using loop_send_sealed [OF assms(1), of p] by (metis prod.collapse)
  show ?thesis
    using assms arrive take bg loop_send_sealed [OF assms(1)]
    by (cases e) (auto simp: sealed_step_def split: prod.splits)
qed

lemma run_loop_sealed:
  "live_session lib pk (wl_session st) \<Longrightarrow> run_loop lib me es st = (r, st') \<Longrightarrow> sealed_step lib pk st st'"
proof (induction es arbitrary: st)
  case Nil
  then show ?case by (simp add: sealed_step_def)
next
  case (Cons e es)
  obtain x st1 where 1: "loop_step lib me e st = (x, st1)" by fastforce
  have s: "sealed_step lib pk st st1" by (rule loop_step_sealed [OF Cons.prems(1) 1])
  show ?case
  proof (cases x)
    case None
    with Cons.IH [of st1] Cons.prems 1 s show ?thesis by (auto simp: sealed_step_def intro: growth_trans)
  next
    case (Some y)
    with Cons.prems 1 s show ?thesis by simp
  qed
qed

lemma message_loop_sealed:
  assumes "live_session lib pk (wl_session st)" and "runMessageLoop lib me t s es (snd (loop_send lib h st)) = (r, st')"
  shows "sealed_growth lib pk (wl_conn st) (wl_conn st')"
proof -
  obtain b1 st1 where 1: "loop_send lib h st = (b1, st1)" by fastforce
  obtain b2 st2 where 2: "loop_send lib t st1 = (b2, st2)" by fastforce
  obtain b3 st3 where 3: "loop_send lib s st2 = (b3, st3)" by fastforce
  have 4: "run_loop lib me es st3 = (r, st')" using assms(2) 1 2 3 by (simp add: runMessageLoop_def)
  note g1 = loop_send_sealed [OF assms(1) 1]
  then have l1: "live_session lib pk (wl_session st1)" by (simp add: sealed_step_def)
  note g2 = loop_send_sealed [OF l1 2]
  then have l2: "live_session lib pk (wl_session st2)" by (simp add: sealed_step_def)
  note g3 = loop_send_sealed [OF l2 3]
  then have l3: "live_session lib pk (wl_session st3)" by (simp add: sealed_step_def)
  note g4 = run_loop_sealed [OF l3 4]
  show ?thesis using g1 g2 g3 g4 by (auto simp: sealed_step_def intro: growth_trans)
qed

lemma kx_session_signed: "kx_session lib cd pk priv pub m = Some s \<Longrightarrow> signed_session lib pk s"
  by (force simp: kx_session_def signed_session_def same_keys_def split: option.splits if_splits prod.splits)

text \<open>A key exchange sends one frame at most, the offer of a fresh key, and its session is signed by the master.\<close>

lemma kx_effect:
  assumes "performKeyExchange lib cd pk (a, cn) = (r, a', cn')"
  shows "(r = None \<or> live_session lib pk r) \<and>
    (cn_out cn' = cn_out cn \<or> (\<exists>pub. cn_out cn' = cn_out cn @ [TextFrame (cd_kx cd (b64_encode lib pub))]))"
proof -
  have w: "cn_out x = cn_out cn @ [f]" if "write_frame f cn = (b, x)" for f b x
    using that by (auto simp: write_frame_def Let_def split: list.splits)
  have k: "kx_session lib cd pk p q m = None \<or> live_session lib pk (kx_session lib cd pk p q m)" for p q m
    by (cases "kx_session lib cd pk p q m") (auto dest: kx_session_signed simp: live_session_def)
  from assms k show ?thesis
    unfolding performKeyExchange_def
    by (auto dest!: w read_out split: option.splits prod.splits bool.splits)
qed

text \<open>C39: With a pinned master key nothing leaves the agent in the clear on a WebSocket but the offer of a fresh public
  key, with one exception: what goroutines write, on a connection the master had accepted, after the session was dropped
  and before the connection is closed goes out in the clear. Every other frame, the one with the token included, is
  sealed under a session whose other half the master's key has signed, whatever the network delivers and whatever the
  agent has to report; without such a session the connection is given up.\<close>

theorem ws_frames_sealed:
  assumes "ag_pubkey (wl_client st) = Some pk" and "ws_connectAndRun lib cd me plan st = (r, st')"
  shows "\<exists>offer fs late. cn_out (wl_conn st') = cn_out (wl_conn st) @ offer @ fs @ map TextFrame late \<and>
    (offer = [] \<or> (\<exists>pub. offer = [TextFrame (cd_kx cd (b64_encode lib pub))])) \<and>
    (\<forall>f\<in>set fs. sealed_frame lib pk f) \<and>
    (late = [] \<or> late = wp_late plan \<and>
       cl_hooks (ag_client (wl_client st')) = cl_hooks (ag_client (wl_client st)) @ [True, False])"
proof -
  obtain x c1 cn1 where 1: "performKeyExchange lib cd pk (wl_client st, wl_conn st) = (x, c1, cn1)" by (metis prod_cases3)
  note k = kx_effect [OF 1]
  obtain offer where o: "cn_out cn1 = cn_out (wl_conn st) @ offer"
    "offer = [] \<or> (\<exists>pub. offer = [TextFrame (cd_kx cd (b64_encode lib pub))])" using k by auto
  have after: ?thesis if "sealed_growth lib pk cn1 cn" "cn_out (wl_conn st') = cn_out cn @ map TextFrame late"
    "late = [] \<or> late = wp_late plan \<and>
       cl_hooks (ag_client (wl_client st')) = cl_hooks (ag_client (wl_client st)) @ [True, False]" for cn late
    using that o unfolding sealed_growth_def by (metis append.assoc)
  have idle: ?thesis if "st' = st" using that by (intro exI [of _ "[]"]) simp
  show ?thesis
  proof (cases x)
    case None
    then have "st' = st \<or> cn_out (wl_conn st') = cn_out cn1"
      using assms 1 by (auto simp: ws_connectAndRun_def exchange_keys_def split: if_splits)
    then show ?thesis using idle after [of cn1 "[]"] by auto
  next
    case (Some s)
    define st1 where "st1 = st\<lparr>wl_client := on_client (\<lambda>x. x\<lparr>cl_session := True\<rparr>) c1, wl_conn := cn1, wl_session := Some s\<rparr>"
    have ex: "exchange_keys lib cd st = (True, st1)" using assms(1) 1 Some by (simp add: exchange_keys_def st1_def)
    have live: "live_session lib pk (wl_session st1)" using k Some by (simp add: st1_def)
    obtain ans ses2 cn2 where 2: "authenticateMode lib cd (wp_info plan) (wl_session st1, wl_conn st1) = (ans, ses2, cn2)"
      by (metis prod_cases3)
    have auth: "live_session lib pk ses2 \<and> sealed_growth lib pk cn1 cn2"
    proof -
      obtain ok s3 cn3 where 3: "send_msg lib (cd_auth cd (wp_info plan)) (wl_session st1, wl_conn st1) = (ok, s3, cn3)"
        by (metis prod_cases3)
      have g: "live_session lib pk s3" "sealed_growth lib pk cn1 cn3" using send_sealed [OF live 3] by (simp_all add: st1_def)
      have "cn_out cn2 = cn_out cn3 \<and> (ses2 = s3 \<or> (\<exists>m clear. decryptMessage lib m s3 = (clear, ses2)))"
        using 2 3 by (auto simp: authenticateMode_def dest: read_out split: bool.splits option.splits prod.splits if_splits)
      with g show ?thesis by (auto simp: sealed_growth_def dest: decrypt_live)
    qed
    show ?thesis
    proof (cases "ans = AuthAccept")
      case False
      then have "st' = st \<or> cn_out (wl_conn st') = cn_out cn2"
        using assms(2) unfolding ws_connectAndRun_def ex prod.case 2 Let_def
        by (auto split: if_splits auth_answer.splits)
      then show ?thesis using idle after [of cn2 "[]"] auth by auto
    next
      case True
      define st2 where "st2 = st1\<lparr>wl_session := ses2, wl_conn := cn2\<rparr>"
      define st3 where "st3 = st2\<lparr>wl_client := (on_client (\<lambda>x. x\<lparr>cl_connected := True, cl_reconnects := 0,
          cl_hooks := cl_hooks x @ [True]\<rparr>) (wl_client st2))\<lparr>ag_contact := wp_now plan\<rparr>\<rparr>"
      define st4 where "st4 = snd (loop_send lib (wp_heartbeat plan) st3)"
      obtain e st5 where 5: "runMessageLoop lib me (wp_traffic plan) (wp_speed plan) (wp_events plan) st4 = (e, st5)"
        by fastforce
      have "st' = st \<or> st' = hang_up lib (wp_late plan) st5"
        using assms(2) unfolding ws_connectAndRun_def ex prod.case 2 Let_def True auth_answer.case
          st2_def [symmetric] st3_def [symmetric] st4_def [symmetric] 5
        by (auto split: if_splits loop_end.splits)
      moreover have "sealed_growth lib pk cn1 (wl_conn st5)"
      proof -
        have "live_session lib pk (wl_session st3)" "wl_conn st3 = cn2" using auth by (simp_all add: st3_def st2_def)
        with message_loop_sealed [of lib pk st3 me _ _ _ "wp_heartbeat plan"] 5 auth show ?thesis
          unfolding st4_def by (metis growth_trans)
      qed
      moreover have "cl_hooks (ag_client (wl_client st5)) = cl_hooks (ag_client (wl_client st)) @ [True]"
      proof -
        have "ag_client (wl_client st5) = ag_client (wl_client st3)"
          using message_loop_keeps [of st4 lib me "wp_traffic plan" "wp_speed plan" "wp_events plan"] 5
            loop_send_keeps [of st3 lib "wp_heartbeat plan"] by (simp add: keeps_client_def st4_def)
        moreover have "ag_client c1 = ag_client (wl_client st)" using kx_keeps [OF 1] by simp
        ultimately show ?thesis by (simp add: st3_def st2_def st1_def on_client_def)
      qed
      ultimately show ?thesis
        using idle after [of "wl_conn st5" "wp_late plan"] by (auto simp: hang_up_client leave_def)
    qed
  qed
qed

section \<open>An example\<close>

definition demo_codec :: codec where
  "demo_codec = \<lparr>cd_kx = (\<lambda>_. [107]), cd_auth = (\<lambda>_. [97]), cd_probe_auth = (\<lambda>_. [97]),
     cd_kx_resp = (\<lambda>m. if m = [2] then Some (''key_exchange_resp'', replicate 32 (CHR ''A''), ''s'') else None),
     cd_auth_result = (\<lambda>m. if m = [3] then Some (''auth_result'', True, []) else None)\<rparr>"

definition demo_info :: auth_info where
  "demo_info = \<lparr>ai_token = ''t'', ai_probe = False, ai_ip4 = [], ai_ip6 = [], ai_warp = False, ai_same_host = False,
     ai_version = ''1'', ai_mode = ''embedded'', ai_rpc = True\<rparr>"

definition demo_plan :: ws_plan where
  "demo_plan = \<lparr>wp_dial = True, wp_info = demo_info, wp_now = 9, wp_heartbeat = [10], wp_traffic = [11], wp_speed = [12],
     wp_events = [HeartbeatTick [13], LoopCancel], wp_late = [[14]]\<rparr>"

definition any_url :: net_lib where
  "any_url = \<lparr>nl_url = (\<lambda>_. Some \<lparr>up_scheme = ''https'', up_host = ''m'', up_hostname = ''m''\<rparr>), nl_recovery = (\<lambda>_. None)\<rparr>"

definition demo_loop :: "bytes option list \<Rightarrow> ws_loop" where
  "demo_loop ms = \<lparr>wl_conn = \<lparr>cn_in = ms, cn_writes = [], cn_out = []\<rparr>, wl_session = None, wl_queue = [],
     wl_failed = False, wl_client = toy_client\<lparr>ag_pubkey := Some [1], ag_keys := [Some ([5], [6])]\<rparr>,
     wl_disk = empty_world, wl_tasks = []\<rparr>"

definition demo_msgs :: msg_env where
  "demo_msgs = \<lparr>me_parse = (\<lambda>_. None), me_net = any_url, me_targets = (\<lambda>_. None)\<rparr>"

lemma ws_frames_sealed_witness:
  "(let res = ws_connectAndRun toy_lib demo_codec demo_msgs demo_plan (demo_loop [Some [2], Some [3]]);
        out = cn_out (wl_conn (snd res))
    in fst res = Some ConnCancelled \<and> length out = 7 \<and> hd out = TextFrame [107] \<and>
       (\<exists>offer fs late. out = offer @ fs @ map TextFrame late \<and> length offer \<le> 1 \<and> length late \<le> 1 \<and>
          (\<forall>f\<in>set fs. sealed_frame toy_lib [1] f)))"
proof -
  define st where "st = demo_loop [Some [2], Some [3]]"
  define res where "res = ws_connectAndRun toy_lib demo_codec demo_msgs demo_plan st"
  have pk: "ag_pubkey (wl_client st) = Some [1]" by (simp add: st_def demo_loop_def)
  have o: "cn_out (wl_conn st) = []" by (simp add: st_def demo_loop_def)
  have v: "fst res = Some ConnCancelled" "length (cn_out (wl_conn (snd res))) = 7"
    "hd (cn_out (wl_conn (snd res))) = TextFrame [107]"
    unfolding res_def st_def by code_simp+
  have p: "wp_late demo_plan = [[14]]" by (simp add: demo_plan_def)
  have r: "ws_connectAndRun toy_lib demo_codec demo_msgs demo_plan st = (fst res, snd res)" by (simp add: res_def)
  from ws_frames_sealed [OF pk r, unfolded o append_Nil] obtain offer fs late where
    f: "cn_out (wl_conn (snd res)) = offer @ fs @ map TextFrame late" "\<forall>f\<in>set fs. sealed_frame toy_lib [1] f"
    and "offer = [] \<or> (\<exists>pub. offer = [TextFrame (cd_kx demo_codec (b64_encode toy_lib pub))])"
    and "late = [] \<or> late = wp_late demo_plan" by blast
  then have "length offer \<le> 1" "length late \<le> 1" unfolding p by auto
  with f v show ?thesis unfolding st_def [symmetric] res_def [symmetric] Let_def by blast
qed

section \<open>Departures\<close>

text \<open>The deferred function drops the session before it closes the connection. An answer to a call that is written in
  between leaves the agent unsealed, though the master's key is pinned.\<close>

lemma late_answer_in_clear:
  "(let res = ws_connectAndRun toy_lib demo_codec demo_msgs demo_plan (demo_loop [Some [2], Some [3]])
    in ag_pubkey (wl_client (snd res)) \<noteq> None \<and> last (cn_out (wl_conn (snd res))) = TextFrame [14])"
  by code_simp

text \<open>The probe of another master does not open the answer: a master that seals it, as this one's master does, is refused,
  though the answer says success.\<close>

lemma probe_reads_no_sealed_answer:
  "(let s = \<lparr>sendKey = replicate 32 7, recvKey = replicate 32 7, sendSeq = 0, sendNonce = replicate 12 7,
             recvNonce = replicate 12 7, recvWindow = newWindow\<rparr>;
        answer = fst (Encrypt toy_seal s [3]); st = demo_loop []
    in fst (decryptMessage toy_lib answer (Some s)) = [3] \<and>
       \<not> fst (ProbeMasterURL toy_lib demo_codec any_url True ''https://m''
                (wl_client st, \<lparr>cn_in = [Some [2], Some answer], cn_writes = [], cn_out = []\<rparr>)))"
  by code_simp

text \<open>A public IPv4 address, once seen, is never forgotten, and while it is kept only IPv4 is dialled: a machine that has
  lost its IPv4 cannot reach the master over IPv6 any more.\<close>

lemma lost_v4_never_dials_v6:
  "ip4 ips \<noteq> [] \<Longrightarrow> \<not> preferV4DialContext (fst (probeOnce [] v6 (ips, a))) False works6"
  by (simp add: probeOnce_def preferV4DialContext_def Let_def)

text \<open>The code of an authentication error is never filled in; a token that has expired is not told from another error.\<close>

lemma only_the_text_counts: "IsTokenInvalid [] msg \<longleftrightarrow> msg = ''Invalid token''"
  by (simp add: IsTokenInvalid_def)

end
