(* ===== verification/Reports.thy ===== *)
theory Reports
  imports Client_Messages
begin

text \<open>
  What the agent reports over HTTP, and when (\<open>internal/agent/client.go\<close>): the traffic report with the configuration
  updates that come back with it, the speed report, the reporter of the HTTP mode (\<open>runHTTPReporterLoop\<close>), and the
  two waits that go on reporting (\<open>waitWithTrafficReport\<close>, \<open>runPullModeWithTrafficReport\<close>). The payload of a report
  is built from what was measured, as a JSON object; encoding it is the library's.
\<close>

section \<open>Payloads\<close>

text \<open>What a traffic report is made of; the lists and maps are given as the JSON they are encoded to, \<open>None\<close> when they are
  empty. The last four exist with an embedded Xray only.\<close>

record measured =
  ms_stats :: json
  ms_rx :: int
  ms_tx :: int
  ms_boot :: int
  ms_sysmetrics :: "json option"
  ms_latency :: "json option"
  ms_online :: "json option"
  ms_conns :: "json option"
  ms_nodes :: "json option"
  ms_speeds :: "json option"

definition opt_field :: "string \<Rightarrow> json option \<Rightarrow> obj" where
  "opt_field k v = (case v of None \<Rightarrow> [] | Some x \<Rightarrow> [(k, x)])"

definition common_fields :: "measured \<Rightarrow> obj" where
  "common_fields m =
     [(''stats'', ms_stats m),
      (''system'', JObj [(''rx_total'', JNum (ms_rx m) 0), (''tx_total'', JNum (ms_tx m) 0), (''boot_time_unix'', JNum (ms_boot m) 0)])]"

definition probe_fields :: "bool \<Rightarrow> measured \<Rightarrow> obj" where
  "probe_fields any m =
     (if any then opt_field ''sysmetrics'' (ms_sysmetrics m) @ opt_field ''latency'' (ms_latency m) else [])"

definition embedded_fields :: "bool \<Rightarrow> measured \<Rightarrow> obj" where
  "embedded_fields embedded m =
     (if embedded
      then opt_field ''online_users'' (ms_online m) @ opt_field ''conn_counts'' (ms_conns m) @
           opt_field ''node_conn_counts'' (ms_nodes m) @ opt_field ''user_speeds'' (ms_speeds m)
      else [])"

definition ws_traffic_payload :: "probe_config \<Rightarrow> bool \<Rightarrow> measured \<Rightarrow> obj" where
  "ws_traffic_payload p embedded m =
     common_fields m @ embedded_fields embedded m @ probe_fields (probeAnyEnabled p) m"

definition http_traffic_payload :: "probe_config \<Rightarrow> measured \<Rightarrow> obj" where
  "http_traffic_payload p m = common_fields m @ probe_fields (probeAnyEnabled p) m"

definition speed_payload :: "int \<Rightarrow> int \<Rightarrow> obj" where
  "speed_payload up down = [(''upload_speed'', JNum up 0), (''download_speed'', JNum down 0)]"

section \<open>Requests\<close>

definition PathRemoteTraffic :: string where "PathRemoteTraffic = ''/api/remote/traffic''"
definition PathRemoteSpeed :: string where "PathRemoteSpeed = ''/api/remote/speed''"

text \<open>\<open>re_enc\<close> encodes a payload; \<open>re_updates\<close> reads the configuration updates of an answer, \<open>None\<close> when it has none.\<close>

record report_env =
  re_lib :: crypto_lib
  re_net :: net_lib
  re_targets :: "string \<Rightarrow> ping_target list option"
  re_enc :: "obj \<Rightarrow> bytes"
  re_updates :: "bytes \<Rightarrow> updates option"

type_synonym rstate = "mclient \<times> world"

definition sendTrafficHTTP :: "report_env \<Rightarrow> measured \<Rightarrow> rstate \<Rightarrow> bool \<times> rstate" where
  "sendTrafficHTTP env m s =
     (case s of (c, w) \<Rightarrow>
        (case nl_url (re_net env) (ag_master c) of
           None \<Rightarrow> (False, s)
         | Some _ \<Rightarrow>
             (case doEncryptedHTTP (re_lib env) (ag_master c) PathRemoteTraffic
                     (re_enc env (http_traffic_payload (mc_probe c) m)) c of
                (Inl _, c1) \<Rightarrow> (False, (c1, w))
              | (Inr resp, c1) \<Rightarrow>
                  (case re_updates env resp of
                     None \<Rightarrow> (True, (c1, w))
                   | Some us \<Rightarrow> (True, handleConfigUpdate (re_net env) (re_targets env) us (c1, w))))))"

definition sendSpeedHTTP :: "report_env \<Rightarrow> int \<times> int \<Rightarrow> rstate \<Rightarrow> bool \<times> rstate" where
  "sendSpeedHTTP env speeds s =
     (case s of (c, w) \<Rightarrow>
        (case nl_url (re_net env) (ag_master c) of
           None \<Rightarrow> (False, s)
         | Some _ \<Rightarrow>
             (case doEncryptedHTTP (re_lib env) (ag_master c) PathRemoteSpeed
                     (re_enc env (speed_payload (fst speeds) (snd speeds))) c of
                (Inl _, c1) \<Rightarrow> (False, (c1, w))
              | (Inr _, c1) \<Rightarrow> (True, (c1, w)))))"

definition sendBeat :: "report_env \<Rightarrow> int \<times> obj \<Rightarrow> rstate \<Rightarrow> bool \<times> rstate" where
  "sendBeat env b s =
     (case s of (c, w) \<Rightarrow>
        (case sendHeartbeatHTTP (re_lib env) (re_net env) (fst b) (re_enc env (snd b)) c of (ok, c1) \<Rightarrow> (ok, (c1, w))))"

section \<open>The loops\<close>

text \<open>What happens next: the agent is stopped; the time is over; the reconnect signal arrives; a ticker fires, with what is
  reported; the WebSocket probe of the HTTP mode, with its outcome.\<close>

datatype tick =
    TickStop
  | TickTimeout
  | TickSignal
  | TickTraffic measured
  | TickSpeed "int \<times> int"
  | TickBeat "int \<times> obj"
  | TickProbe bool

datatype wait_end = WaitStopped | WaitOver | WaitSignalled | WaitGoesOn

definition reports :: "report_env \<Rightarrow> tick \<Rightarrow> rstate \<Rightarrow> bool \<times> rstate" where
  "reports env t s =
     (case t of
        TickTraffic m \<Rightarrow> sendTrafficHTTP env m s
      | TickSpeed v \<Rightarrow> sendSpeedHTTP env v s
      | TickBeat b \<Rightarrow> sendBeat env b s
      | _ \<Rightarrow> (True, s))"

fun wait_loop :: "report_env \<Rightarrow> tick list \<Rightarrow> rstate \<Rightarrow> wait_end \<times> rstate" where
  "wait_loop env [] s = (WaitGoesOn, s)"
| "wait_loop env (TickStop # ts) s = (WaitStopped, s)"
| "wait_loop env (TickTimeout # ts) s = (WaitOver, s)"
| "wait_loop env (TickSignal # ts) s = (WaitSignalled, s)"
| "wait_loop env (t # ts) s = wait_loop env ts (snd (reports env t s))"

definition PullModeTrafficReportThreshold :: int where "PullModeTrafficReportThreshold = 30"

text \<open>\<open>now\<close> holds what the three reports at the start say.\<close>

definition waitWithTrafficReport ::
  "report_env \<Rightarrow> int \<Rightarrow> (int \<times> obj) \<times> measured \<times> (int \<times> int) \<Rightarrow> tick list \<Rightarrow> rstate \<Rightarrow> wait_end \<times> rstate" where
  "waitWithTrafficReport env duration now ts s =
     (if duration \<le> 0 then (WaitOver, s)
      else
        (case now of (b, m, v) \<Rightarrow>
           wait_loop env ts
             (if PullModeTrafficReportThreshold < duration
              then snd (sendSpeedHTTP env v (snd (sendTrafficHTTP env m (snd (sendBeat env b s))))) else s)))"

text \<open>The pull mode reports traffic only: its other tickers do not exist.\<close>

definition runPullModeWithTrafficReport :: "report_env \<Rightarrow> measured \<Rightarrow> tick list \<Rightarrow> rstate \<Rightarrow> wait_end \<times> rstate" where
  "runPullModeWithTrafficReport env m ts s =
     wait_loop env (filter (\<lambda>t. case t of TickSpeed _ \<Rightarrow> False | TickBeat _ \<Rightarrow> False | _ \<Rightarrow> True) ts)
       (snd (sendTrafficHTTP env m s))"

text \<open>The reporter of the HTTP mode; \<open>errors\<close> counts failures in a row.\<close>

fun report_loop :: "report_env \<Rightarrow> nat \<Rightarrow> tick list \<Rightarrow> rstate \<Rightarrow> http_exit \<times> rstate" where
  "report_loop env errors [] s = (StillRunning, s)"
| "report_loop env errors (TickStop # ts) s = (HttpStopped, s)"
| "report_loop env errors (TickTraffic m # ts) s =
     (case sendTrafficHTTP env m s of
        (True, s1) \<Rightarrow> report_loop env 0 ts s1
      | (False, s1) \<Rightarrow> if 5 \<le> errors + 1 then (TooManyErrors, s1) else report_loop env (errors + 1) ts s1)"
| "report_loop env errors (TickSpeed v # ts) s = report_loop env errors ts (snd (sendSpeedHTTP env v s))"
| "report_loop env errors (TickBeat b # ts) s =
     (case sendBeat env b s of
        (True, s1) \<Rightarrow> report_loop env 0 ts s1
      | (False, s1) \<Rightarrow> if 5 \<le> errors + 1 then (TooManyErrors, s1) else report_loop env (errors + 1) ts s1)"
| "report_loop env errors (TickProbe ok # ts) s =
     (if nl_url (re_net env) (ag_master (fst s)) \<noteq> None \<and> ok then (WsRecovered, s) else report_loop env errors ts s)"
| "report_loop env errors (t # ts) s = report_loop env errors ts s"

definition run_http_reporter ::
  "report_env \<Rightarrow> (int \<times> obj) \<times> measured \<times> (int \<times> int) \<Rightarrow> tick list \<Rightarrow> rstate \<Rightarrow> http_exit \<times> rstate" where
  "run_http_reporter env now ts s =
     (case now of (b, m, v) \<Rightarrow>
        report_loop env 0 ts (snd (sendSpeedHTTP env v (snd (sendTrafficHTTP env m (snd (sendBeat env b s)))))))"

section \<open>What the reports show\<close>

text \<open>A request that hides its payload under a session the master signed, or offers a key for such a session.\<close>

definition shielded :: "crypto_lib \<Rightarrow> bytes \<Rightarrow> out_req \<Rightarrow> bool" where
  "shielded lib pk q \<longleftrightarrow>
     (if or_encrypted q then \<exists>s d. signed_session lib pk s \<and> or_body q = fst (Encrypt (gcm_seal lib) s d)
      else or_kx q \<noteq> None)"

definition shielded_run :: "crypto_lib \<Rightarrow> bytes \<Rightarrow> rstate \<Rightarrow> rstate \<Rightarrow> bool" where
  "shielded_run lib pk s s' \<longleftrightarrow>
     (ag_pubkey (fst s) = Some pk \<and> sessions_signed lib (fst s) \<longrightarrow>
       ag_pubkey (fst s') = Some pk \<and> sessions_signed lib (fst s') \<and>
       (\<exists>new. ag_sent (fst s') = ag_sent (fst s) @ new \<and> (\<forall>q\<in>set new. shielded lib pk q)))"

lemma shielded_refl [simp]: "shielded_run lib pk s s"
  by (simp add: shielded_run_def)

lemma shielded_trans: "shielded_run lib pk a b \<Longrightarrow> shielded_run lib pk b c \<Longrightarrow> shielded_run lib pk a c"
  unfolding shielded_run_def by (auto intro: exI [of _ "_ @ _"])

lemma call_shielded:
  assumes "doEncryptedHTTP lib base path payload c = (r, c1)"
  shows "shielded_run lib pk (c, w) (c1, w1)"
  unfolding shielded_run_def fst_conv
proof
  assume a: "ag_pubkey c = Some pk \<and> sessions_signed lib c"
  have q: "shielded lib pk q"
    if "sealed_req lib c base path payload q \<or> clear_req c base path payload q \<and> or_kx q \<noteq> None" for q
    using that a by (auto simp: sealed_req_def clear_req_def shielded_def sessions_signed_def)
  note p = http_protected [OF conjunct1 [OF a] conjunct2 [OF a] assms]
  then obtain new where "ag_sent c1 = ag_sent c @ new"
    "\<forall>q\<in>set new. sealed_req lib c base path payload q \<or> clear_req c base path payload q \<and> or_kx q \<noteq> None" by blast
  with p q show "ag_pubkey c1 = Some pk \<and> sessions_signed lib c1 \<and>
      (\<exists>new. ag_sent c1 = ag_sent c @ new \<and> (\<forall>q\<in>set new. shielded lib pk q))" by (simp only: simp_thms) metis
qed

lemma update_shielded: "shielded_run lib pk (c, w) (handleConfigUpdate net targets us (c, w))"
  by (simp add: shielded_run_def sessions_signed_def config_update_frame)

lemma traffic_shielded: "shielded_run (re_lib env) pk s (snd (sendTrafficHTTP env m s))"
proof -
  obtain c w where s: "s = (c, w)" by fastforce
  obtain r c1 where d: "doEncryptedHTTP (re_lib env) (ag_master c) PathRemoteTraffic
    (re_enc env (http_traffic_payload (mc_probe c) m)) c = (r, c1)" by fastforce
  note c1 = call_shielded [OF d, of pk w w]
  have u: "shielded_run (re_lib env) pk (c, w) (handleConfigUpdate (re_net env) (re_targets env) us (c1, w))" for us
    by (rule shielded_trans [OF c1 update_shielded])
  show ?thesis
    unfolding sendTrafficHTTP_def s prod.case d
    by (simp add: c1 u split: option.split sum.split)
qed

lemma speed_shielded: "shielded_run (re_lib env) pk s (snd (sendSpeedHTTP env v s))"
proof -
  obtain c w where s: "s = (c, w)" by fastforce
  obtain r c1 where d: "doEncryptedHTTP (re_lib env) (ag_master c) PathRemoteSpeed
    (re_enc env (speed_payload (fst v) (snd v))) c = (r, c1)" by fastforce
  have "snd (sendSpeedHTTP env v s) = s \<or> snd (sendSpeedHTTP env v s) = (c1, w)"
    by (simp add: sendSpeedHTTP_def s d split: option.split sum.split)
  then show ?thesis using call_shielded [OF d, of pk w w] s by (metis shielded_refl)
qed

lemma beat_shielded: "shielded_run (re_lib env) pk s (snd (sendBeat env b s))"
proof -
  obtain c w where s: "s = (c, w)" by fastforce
  obtain r c1 where d: "doEncryptedHTTP (re_lib env) (ag_master c) PathRemoteHeartbeat (re_enc env (snd b)) c = (r, c1)"
    by fastforce
  have t: "shielded_run (re_lib env) pk (c1, w) (c1\<lparr>ag_contact := n\<rparr>, w)" for n
    by (simp add: shielded_run_def sessions_signed_def)
  have "snd (sendBeat env b s) = s \<or> snd (sendBeat env b s) = (c1, w) \<or>
    snd (sendBeat env b s) = (c1\<lparr>ag_contact := fst b\<rparr>, w)"
    by (simp add: sendBeat_def sendHeartbeatHTTP_def s d split: option.split sum.split)
  then show ?thesis using call_shielded [OF d, of pk w w] t s by (metis shielded_refl shielded_trans)
qed

lemmas send_shielded = traffic_shielded speed_shielded beat_shielded

lemma reports_shielded: "shielded_run (re_lib env) pk s (snd (reports env t s))"
  by (cases t) (simp_all add: reports_def send_shielded)

lemma wait_loop_shielded: "shielded_run (re_lib env) pk s (snd (wait_loop env ts s))"
proof (induction env ts s rule: wait_loop.induct)
qed (auto intro: shielded_trans [OF reports_shielded])

lemma report_loop_shielded: "shielded_run (re_lib env) pk s (snd (report_loop env n ts s))"
proof (induction env n ts s rule: report_loop.induct)
  case (3 env errors m ts s)
  obtain ok s1 where 1: "sendTrafficHTTP env m s = (ok, s1)" by (metis surj_pair)
  have "shielded_run (re_lib env) pk s s1" using traffic_shielded [of env pk s m] 1 by simp
  with 3 1 show ?case by (auto intro: shielded_trans split: bool.split)
next
  case (4 env errors v ts s)
  then show ?case using speed_shielded [of env pk s v] by (auto intro: shielded_trans)
next
  case (5 env errors b ts s)
  obtain ok s1 where 1: "sendBeat env b s = (ok, s1)" by (metis surj_pair)
  have "shielded_run (re_lib env) pk s s1" using beat_shielded [of env pk s b] 1 by simp
  with 5 1 show ?case by (auto intro: shielded_trans split: bool.split)
qed simp_all

text \<open>With a pinned master key, whatever the reporters send over HTTP in any mode - waiting for a reconnection, pulling,
  or reporting - each request is sealed under a session the master has signed or is the offer of a key for one, and
  the sessions stay signed, whatever the network answers and whatever configuration updates come back.\<close>

theorem reports_protected:
  assumes "ag_pubkey c = Some pk" and "sessions_signed (re_lib env) c"
    and "s' = snd (waitWithTrafficReport env d now ts (c, w)) \<or> s' = snd (runPullModeWithTrafficReport env m ts (c, w)) \<or>
      s' = snd (run_http_reporter env now ts (c, w))"
  shows "ag_pubkey (fst s') = Some pk \<and> sessions_signed (re_lib env) (fst s') \<and>
    (\<exists>new. ag_sent (fst s') = ag_sent c @ new \<and> (\<forall>q\<in>set new. shielded (re_lib env) pk q))"
proof -
  note steps = shielded_trans [OF beat_shielded shielded_trans [OF traffic_shielded shielded_trans [OF speed_shielded]]]
  have "shielded_run (re_lib env) pk (c, w) (snd (waitWithTrafficReport env d now ts (c, w)))"
    by (auto simp: waitWithTrafficReport_def split: prod.split intro: steps wait_loop_shielded)
  moreover have "shielded_run (re_lib env) pk (c, w) (snd (runPullModeWithTrafficReport env m ts (c, w)))"
    unfolding runPullModeWithTrafficReport_def by (rule shielded_trans [OF traffic_shielded wait_loop_shielded])
  moreover have "shielded_run (re_lib env) pk (c, w) (snd (run_http_reporter env now ts (c, w)))"
    by (auto simp: run_http_reporter_def split: prod.split intro: steps report_loop_shielded)
  ultimately have "shielded_run (re_lib env) pk (c, w) s'" using assms(3) by auto
  then show ?thesis using assms(1,2) by (simp add: shielded_run_def)
qed

section \<open>The reporter and its model\<close>

text \<open>The reporter of the HTTP mode refines its abstract model: whatever is reported and whatever the master answers,
  there is a list of outcomes with which \<open>Reconnect\<close>'s loop leaves for the same reason.\<close>

theorem http_reporter_refines:
  "\<exists>xs. length xs \<le> length ts \<and> http_loop n xs = fst (report_loop env n ts s)"
proof (induction env n ts s rule: report_loop.induct)
  case (1 env errors s)
  show ?case by (rule exI [of _ "[]"]) simp
next
  case (2 env errors ts s)
  show ?case by (rule exI [of _ "[HttpStop]"]) simp
next
  case (3 env errors m ts s)
  obtain ok s1 where 1: "sendTrafficHTTP env m s = (ok, s1)" by (metis surj_pair)
  show ?case
  proof (cases "ok \<or> \<not> 5 \<le> errors + 1")
    case True
    with 3 1 obtain xs where "length xs \<le> length ts"
      "http_loop (if ok then 0 else errors + 1) xs = fst (report_loop env (if ok then 0 else errors + 1) ts s1)"
      by (cases ok) auto
    with True 1 show ?thesis by (intro exI [of _ "Traffic ok # xs"]) (auto split: bool.split)
  next
    case False
    with 1 show ?thesis by (intro exI [of _ "[Traffic False]"]) simp
  qed
next
  case (4 env errors v ts s)
  then obtain xs where "length xs \<le> length ts"
    "http_loop errors xs = fst (report_loop env errors ts (snd (sendSpeedHTTP env v s)))" by blast
  then show ?case by (intro exI [of _ "Speed True # xs"]) simp
next
  case (5 env errors b ts s)
  obtain ok s1 where 1: "sendBeat env b s = (ok, s1)" by (metis surj_pair)
  show ?case
  proof (cases "ok \<or> \<not> 5 \<le> errors + 1")
    case True
    with 5 1 obtain xs where "length xs \<le> length ts"
      "http_loop (if ok then 0 else errors + 1) xs = fst (report_loop env (if ok then 0 else errors + 1) ts s1)"
      by (cases ok) auto
    with True 1 show ?thesis by (intro exI [of _ "Heartbeat ok # xs"]) (auto split: bool.split)
  next
    case False
    with 1 show ?thesis by (intro exI [of _ "[Heartbeat False]"]) simp
  qed
next
  case (6 env errors ok ts s)
  show ?case
  proof (cases "nl_url (re_net env) (ag_master (fst s)) \<noteq> None \<and> ok")
    case True
    then show ?thesis by (intro exI [of _ "[WsProbe True]"]) simp
  next
    case False
    with 6 obtain xs where "length xs \<le> length ts" "http_loop errors xs = fst (report_loop env errors ts s)" by blast
    with False show ?thesis by (intro exI [of _ xs]) auto
  qed
qed (force intro: le_SucI)+

definition demo_report_env :: report_env where
  "demo_report_env = \<lparr>re_lib = toy_lib, re_net = slash_net, re_targets = (\<lambda>_. None), re_enc = (\<lambda>_. [1]),
     re_updates = (\<lambda>_. None)\<rparr>"

definition demo_measured :: measured where
  "demo_measured = \<lparr>ms_stats = JObj [], ms_rx = 0, ms_tx = 0, ms_boot = 0, ms_sysmetrics = None, ms_latency = None,
     ms_online = None, ms_conns = None, ms_nodes = None, ms_speeds = None\<rparr>"

lemma reports_protected_witness:
  "(let c = toy_client\<lparr>ag_keys := [Some ([5], [6])]\<rparr>;
        s' = snd (waitWithTrafficReport demo_report_env 40 ((1, []), demo_measured, 0, 0) [TickTimeout] (c, empty_world))
    in length (ag_sent (fst s')) = 1 \<and> shielded toy_lib [1] (hd (ag_sent (fst s'))))"
proof -
  define c where "c = toy_client\<lparr>ag_keys := [Some ([5], [6])]\<rparr>"
  define s' where "s' = snd (waitWithTrafficReport demo_report_env 40 ((1, []), demo_measured, 0, 0) [TickTimeout] (c, empty_world))"
  have k: "ag_pubkey c = Some [1]" "sessions_signed (re_lib demo_report_env) c" "ag_sent c = []"
    by (simp_all add: c_def toy_client_def sessions_signed_def)
  have n: "length (ag_sent (fst s')) = 1" unfolding s'_def c_def by code_simp
  have "\<exists>new. ag_sent (fst s') = ag_sent c @ new \<and> (\<forall>q\<in>set new. shielded (re_lib demo_report_env) [1] q)"
    using reports_protected [OF k(1,2), of s' 40 "((1, []), demo_measured, 0, 0)" "[TickTimeout]" empty_world] by (simp add: s'_def)
  with n k(3) show ?thesis
    unfolding c_def [symmetric] s'_def [symmetric] Let_def by (cases "ag_sent (fst s')") (auto simp: demo_report_env_def)
qed

text \<open>Over HTTP the counts and speeds of the embedded Xray are not reported; without one both reports are the same.\<close>

lemma payloads_agree: "ws_traffic_payload p False m = http_traffic_payload p m"
  by (simp add: ws_traffic_payload_def http_traffic_payload_def embedded_fields_def)

end
