(* ===== verification/Warp.thy ===== *)
theory Warp
  imports Auth Config_Handlers
begin

text \<open>
  The WARP exit of the agent: the account at Cloudflare and its file (\<open>internal/warp/service.go\<close>, \<open>client.go\<close>, \<open>wg.go\<close>)
  and the requests that install, show, upgrade and remove it (\<open>internal/handler/warp_handler.go\<close>). Cloudflare is the
  list of the answers still to come (\<open>None\<close> for a call that fails); every request is logged. Key pairs are drawn from
  a list. The JSON codecs and the two base64 decoders are the fields of \<open>warp_lib\<close>; the clock is an argument.
\<close>

section \<open>State\<close>

record warp_state =
  PrivateKey :: string
  PublicKey :: string
  DeviceID :: string
  AccessToken :: string
  LicenseKey :: string
  ClientID :: string
  AddrV4 :: string
  AddrV6 :: string
  PeerPubKey :: string
  PeerEndpoint :: string
  RegisteredAt :: int

record reg_resp =
  rr_id :: string
  rr_token :: string
  rr_license :: string
  rr_client_id :: string
  rr_v4 :: string
  rr_v6 :: string
  rr_peers :: "(string \<times> string) list"

datatype cf_req =
    CfRegister string
  | CfGet string string
  | CfLicense string string string
  | CfDelete string string

record warp_svc =
  wa_path :: string
  wa_state :: "warp_state option"
  wa_disk :: world
  wa_cloud :: "(nat \<times> string) option list"
  wa_sent :: "cf_req list"
  wa_keys :: "(string \<times> string) option list"

record warp_lib =
  wl_enc :: "warp_state \<Rightarrow> string"
  wl_dec :: "string \<Rightarrow> warp_state option"
  wl_resp :: "string \<Rightarrow> reg_resp option"
  wl_errors :: "string \<Rightarrow> string list option"
  wl_std :: "string \<Rightarrow> nat list option"
  wl_raw :: "string \<Rightarrow> nat list option"

section \<open>The calls to Cloudflare\<close>

datatype warp_err =
  NoKeypair | CfFailed | CfSaid string | CfStatus nat string | CfDecode | CfIncomplete | NotRegistered | SaveFailed io_err
  | RemoveFailed io_err | BadClientID

definition cf_do :: "cf_req \<Rightarrow> warp_svc \<Rightarrow> (nat \<times> string) option \<times> warp_svc" where
  "cf_do r s =
     (let s1 = s\<lparr>wa_sent := wa_sent s @ [r]\<rparr>
      in (case wa_cloud s of [] \<Rightarrow> (None, s1) | x # xs \<Rightarrow> (x, s1\<lparr>wa_cloud := xs\<rparr>)))"

definition parseWarpError :: "warp_lib \<Rightarrow> string \<Rightarrow> string" where
  "parseWarpError lib data =
     (case wl_errors lib data of None \<Rightarrow> [] | Some [] \<Rightarrow> [] | Some (m # _) \<Rightarrow> m)"

definition doRequest :: "warp_lib \<Rightarrow> cf_req \<Rightarrow> warp_svc \<Rightarrow> (warp_err + string) \<times> warp_svc" where
  "doRequest lib r s =
     (case cf_do r s of
        (None, s1) \<Rightarrow> (Inl CfFailed, s1)
      | (Some (code, data), s1) \<Rightarrow>
          if code < 200 \<or> 300 \<le> code then
            (if parseWarpError lib data \<noteq> [] then (Inl (CfSaid (parseWarpError lib data)), s1)
             else (Inl (CfStatus code data), s1))
          else (Inr data, s1))"

definition Register :: "warp_lib \<Rightarrow> string \<Rightarrow> warp_svc \<Rightarrow> (warp_err + reg_resp) \<times> warp_svc" where
  "Register lib publicKey s =
     (case doRequest lib (CfRegister publicKey) s of
        (Inl e, s1) \<Rightarrow> (Inl e, s1)
      | (Inr data, s1) \<Rightarrow>
          (case wl_resp lib data of
             None \<Rightarrow> (Inl CfDecode, s1)
           | Some out \<Rightarrow> if rr_id out = [] \<or> rr_token out = [] then (Inl CfIncomplete, s1) else (Inr out, s1)))"

definition GetConfig :: "warp_lib \<Rightarrow> string \<Rightarrow> string \<Rightarrow> warp_svc \<Rightarrow> (warp_err + reg_resp) \<times> warp_svc" where
  "GetConfig lib deviceID accessToken s =
     (case doRequest lib (CfGet deviceID accessToken) s of
        (Inl e, s1) \<Rightarrow> (Inl e, s1)
      | (Inr data, s1) \<Rightarrow> (case wl_resp lib data of None \<Rightarrow> (Inl CfDecode, s1) | Some out \<Rightarrow> (Inr out, s1)))"

definition UpdateLicense :: "warp_lib \<Rightarrow> string \<Rightarrow> string \<Rightarrow> string \<Rightarrow> warp_svc \<Rightarrow> warp_err option \<times> warp_svc" where
  "UpdateLicense lib deviceID accessToken license s =
     (case doRequest lib (CfLicense deviceID accessToken license) s of
        (Inl e, s1) \<Rightarrow> (Some e, s1)
      | (Inr _, s1) \<Rightarrow> (None, s1))"

definition cf_Delete :: "string \<Rightarrow> string \<Rightarrow> warp_svc \<Rightarrow> warp_err option \<times> warp_svc" where
  "cf_Delete deviceID accessToken s =
     (case cf_do (CfDelete deviceID accessToken) s of
        (None, s1) \<Rightarrow> (Some CfFailed, s1)
      | (Some (code, data), s1) \<Rightarrow>
          if code = 204 \<or> code = 200 \<or> code = 404 then (None, s1) else (Some (CfStatus code data), s1))"

section \<open>Keys\<close>

definition GenerateKeypair :: "warp_svc \<Rightarrow> (string \<times> string) option \<times> warp_svc" where
  "GenerateKeypair s = (case wa_keys s of [] \<Rightarrow> (None, s) | k # ks \<Rightarrow> (k, s\<lparr>wa_keys := ks\<rparr>))"

definition reservedFromClientID :: "warp_lib \<Rightarrow> string \<Rightarrow> nat list option" where
  "reservedFromClientID lib clientIDB64 =
     (if clientIDB64 = [] then None
      else
        (case (case wl_std lib clientIDB64 of None \<Rightarrow> wl_raw lib clientIDB64 | Some raw \<Rightarrow> Some raw) of
           None \<Rightarrow> None
         | Some raw \<Rightarrow> if length raw < 3 then None else Some (take 3 raw)))"

section \<open>The service\<close>

definition firstPeerPubKey :: "reg_resp \<Rightarrow> string" where
  "firstPeerPubKey r = (case rr_peers r of (k, _) # _ \<Rightarrow> k | [] \<Rightarrow> [])"

definition firstPeerEndpoint :: "reg_resp \<Rightarrow> string" where
  "firstPeerEndpoint r = (case rr_peers r of (_, h) # _ \<Rightarrow> h | [] \<Rightarrow> [])"

definition warp_load :: "warp_lib \<Rightarrow> string \<Rightarrow> world \<Rightarrow> warp_state option \<times> world" where
  "warp_load lib path w =
     (case read_file path w of (Inl _, w1) \<Rightarrow> (None, w1) | (Inr data, w1) \<Rightarrow> (wl_dec lib data, w1))"

definition NewService :: "warp_lib \<Rightarrow> string \<Rightarrow> warp_svc \<Rightarrow> warp_svc" where
  "NewService lib path s =
     (case warp_load lib path (wa_disk s) of (st, w1) \<Rightarrow> s\<lparr>wa_path := path, wa_state := st, wa_disk := w1\<rparr>)"

definition IsInstalled :: "warp_svc \<Rightarrow> bool" where
  "IsInstalled s = (case wa_state s of None \<Rightarrow> False | Some st \<Rightarrow> DeviceID st \<noteq> [])"

definition HasLicense :: "warp_svc \<Rightarrow> bool" where
  "HasLicense s = (case wa_state s of None \<Rightarrow> False | Some st \<Rightarrow> LicenseKey st \<noteq> [])"

definition saveLocked :: "warp_lib \<Rightarrow> warp_state \<Rightarrow> warp_svc \<Rightarrow> warp_err option \<times> warp_svc" where
  "saveLocked lib st s =
     (case sys_call (wa_disk s) of
        (Some e, w1) \<Rightarrow> (Some (SaveFailed e), s\<lparr>wa_disk := w1\<rparr>)
      | (None, w1) \<Rightarrow>
          (case write_file (wa_path s) (wl_enc lib st) w1 of
             (Some e, w2) \<Rightarrow> (Some (SaveFailed e), s\<lparr>wa_disk := w2\<rparr>)
           | (None, w2) \<Rightarrow> (None, s\<lparr>wa_disk := w2\<rparr>)))"

definition with_config :: "reg_resp \<Rightarrow> warp_state \<Rightarrow> warp_state" where
  "with_config r st =
     st\<lparr>LicenseKey := rr_license r, ClientID := rr_client_id r, AddrV4 := rr_v4 r, AddrV6 := rr_v6 r,
        PeerPubKey := firstPeerPubKey r, PeerEndpoint := firstPeerEndpoint r\<rparr>"

definition EnsureRegistered :: "warp_lib \<Rightarrow> int \<Rightarrow> warp_svc \<Rightarrow> (warp_err + warp_state) \<times> warp_svc" where
  "EnsureRegistered lib now s =
     (if IsInstalled s then (Inr (the (wa_state s)), s)
      else
        (case GenerateKeypair s of
           (None, s1) \<Rightarrow> (Inl NoKeypair, s1)
         | (Some (privB64, pubB64), s1) \<Rightarrow>
             (case Register lib pubB64 s1 of
                (Inl e, s2) \<Rightarrow> (Inl e, s2)
              | (Inr resp, s2) \<Rightarrow>
                  (let st = with_config resp
                        \<lparr>PrivateKey = privB64, PublicKey = pubB64, DeviceID = rr_id resp, AccessToken = rr_token resp,
                         LicenseKey = [], ClientID = [], AddrV4 = [], AddrV6 = [], PeerPubKey = [], PeerEndpoint = [],
                         RegisteredAt = now\<rparr>
                   in (case saveLocked lib st s2 of
                         (Some e, s3) \<Rightarrow> (Inl e, s3)
                       | (None, s3) \<Rightarrow> (Inr st, s3\<lparr>wa_state := Some st\<rparr>))))))"

definition RefreshConfig :: "warp_lib \<Rightarrow> warp_svc \<Rightarrow> (warp_err + warp_state) \<times> warp_svc" where
  "RefreshConfig lib s =
     (if \<not> IsInstalled s then (Inl NotRegistered, s)
      else
        (let old = the (wa_state s)
         in (case GetConfig lib (DeviceID old) (AccessToken old) s of
               (Inl e, s1) \<Rightarrow> (Inl e, s1)
             | (Inr resp, s1) \<Rightarrow>
                 (let st = with_config resp old
                  in (case saveLocked lib st s1 of
                        (Some e, s2) \<Rightarrow> (Inl e, s2)
                      | (None, s2) \<Rightarrow> (Inr st, s2\<lparr>wa_state := Some st\<rparr>))))))"

definition SetLicense :: "warp_lib \<Rightarrow> string \<Rightarrow> warp_svc \<Rightarrow> (warp_err + warp_state) \<times> warp_svc" where
  "SetLicense lib license s =
     (case wa_state s of
        None \<Rightarrow> (Inl NotRegistered, s)
      | Some st \<Rightarrow>
          (case UpdateLicense lib (DeviceID st) (AccessToken st) license s of
             (Some e, s1) \<Rightarrow> (Inl e, s1)
           | (None, s1) \<Rightarrow> RefreshConfig lib s1))"

definition Uninstall :: "warp_svc \<Rightarrow> warp_err option \<times> warp_svc" where
  "Uninstall s =
     (case wa_state s of
        None \<Rightarrow> (None, s)
      | Some st \<Rightarrow>
          (let s1 = (snd (cf_Delete (DeviceID st) (AccessToken st) s))\<lparr>wa_state := None\<rparr>
           in (case remove_file (wa_path s1) (wa_disk s1) of
                 (None, w2) \<Rightarrow> (None, s1\<lparr>wa_disk := w2\<rparr>)
               | (Some ErrNotExist, w2) \<Rightarrow> (None, s1\<lparr>wa_disk := w2\<rparr>)
               | (Some e, w2) \<Rightarrow> (Some (RemoveFailed e), s1\<lparr>wa_disk := w2\<rparr>))))"

section \<open>The outbounds\<close>

definition warp_outbound :: "warp_state \<Rightarrow> string list \<Rightarrow> nat list \<Rightarrow> string \<Rightarrow> string \<Rightarrow> obj" where
  "warp_outbound st address reserved tag domainStrategy =
     [(''tag'', JStr tag), (''protocol'', JStr ''wireguard''),
      (''settings'', JObj
        [(''secretKey'', JStr (PrivateKey st)), (''address'', JArr (List.map JStr address)),
         (''peers'', JArr [JObj [(''publicKey'', JStr (PeerPubKey st)), (''endpoint'', JStr (PeerEndpoint st))]]),
         (''reserved'', JArr (List.map (\<lambda>n. JNum (int n) 0) reserved)), (''mtu'', JNum 1420 0),
         (''noKernelTun'', JBool False), (''domainStrategy'', JStr domainStrategy)])]"

definition BuildOutbounds :: "warp_lib \<Rightarrow> warp_svc \<Rightarrow> warp_err + obj list" where
  "BuildOutbounds lib s =
     (case wa_state s of
        None \<Rightarrow> Inl NotRegistered
      | Some st \<Rightarrow>
          (case reservedFromClientID lib (ClientID st) of
             None \<Rightarrow> Inl BadClientID
           | Some reserved \<Rightarrow>
               (let address = (if AddrV4 st \<noteq> [] then [AddrV4 st @ ''/32''] else []) @
                              (if AddrV6 st \<noteq> [] then [AddrV6 st @ ''/128''] else [])
                in Inr [warp_outbound st address reserved ''warp-v4'' ''ForceIPv4v6'',
                        warp_outbound st address reserved ''warp-v6'' ''ForceIPv6v4''])))"

section \<open>The handlers\<close>

text \<open>The configuration file and Xray are in the same world as the account's file.\<close>

definition warp_world :: "(world \<Rightarrow> 'a \<times> world) \<Rightarrow> warp_svc \<Rightarrow> 'a \<times> warp_svc" where
  "warp_world f s = (case f (wa_disk s) of (r, w) \<Rightarrow> (r, s\<lparr>wa_disk := w\<rparr>))"

fun apply_each :: "cfg_env \<Rightarrow> obj list \<Rightarrow> world \<Rightarrow> string option \<times> world" where
  "apply_each env [] w = (None, w)"
| "apply_each env (ob # obs) w =
     (let w1 = snd (api_call (DelOut (get_str ob ''tag'')) w)
      in (case addOutbound env ob w1 of
            (Some _, w2) \<Rightarrow> (Some ''add outbound'', w2)
          | (None, w2) \<Rightarrow> apply_each env obs (snd (persistOutbound env ob w2))))"

definition applyOutbounds :: "warp_lib \<Rightarrow> cfg_env \<Rightarrow> warp_svc \<Rightarrow> string option \<times> warp_svc" where
  "applyOutbounds lib env s =
     (case BuildOutbounds lib s of
        Inl _ \<Rightarrow> (Some ''build outbounds'', s)
      | Inr obs \<Rightarrow>
          (case warp_world (findXrayAPIPort env) s of
             (port, s1) \<Rightarrow>
               if port = 0 then (Some ''xray API not available'', s1)
               else
                 (case warp_world sys_call s1 of
                    (Some _, s2) \<Rightarrow> (Some ''connect xray gRPC'', s2)
                  | (None, s2) \<Rightarrow> warp_world (apply_each env obs) s2)))"

fun remove_each :: "cfg_env \<Rightarrow> string list \<Rightarrow> world \<Rightarrow> world" where
  "remove_each env [] w = w"
| "remove_each env (tag # tags) w =
     remove_each env tags (snd (removeOutboundFromConfig env tag (snd (api_call (DelOut tag) w))))"

definition removeOutboundTags :: "cfg_env \<Rightarrow> string list \<Rightarrow> warp_svc \<Rightarrow> string option \<times> warp_svc" where
  "removeOutboundTags env tags s =
     (case warp_world (findXrayAPIPort env) s of
        (port, s1) \<Rightarrow>
          if port = 0 then (Some ''xray API not available'', s1)
          else
            (case warp_world sys_call s1 of
               (Some _, s2) \<Rightarrow> (Some ''connect xray gRPC'', s2)
             | (None, s2) \<Rightarrow> (None, snd (warp_world (\<lambda>w. ((), remove_each env tags w)) s2))))"

definition statusResponse :: "warp_state option \<Rightarrow> obj" where
  "statusResponse st =
     (case st of
        None \<Rightarrow> [(''installed'', JBool False)]
      | Some x \<Rightarrow>
          if DeviceID x = [] then [(''installed'', JBool False)]
          else [(''installed'', JBool True), (''license_active'', JBool (LicenseKey x \<noteq> [])), (''device_id'', JStr (DeviceID x)),
                (''addr_v4'', JStr (AddrV4 x)), (''addr_v6'', JStr (AddrV6 x)), (''registered_at'', JNum (RegisteredAt x) 0)])"

definition HandleInstall :: "warp_lib \<Rightarrow> cfg_env \<Rightarrow> int \<Rightarrow> bool \<Rightarrow> warp_svc \<Rightarrow> reply \<times> warp_svc" where
  "HandleInstall lib env now auth s =
     (if \<not> auth then (writeError 401 ''Unauthorized'', s)
      else
        (case EnsureRegistered lib now s of
           (Inl _, s1) \<Rightarrow> (writeError 500 ''WARP register failed'', s1)
         | (Inr st, s1) \<Rightarrow>
             (case applyOutbounds lib env s1 of
                (Some _, s2) \<Rightarrow> (writeError 500 ''Apply WARP outbounds failed'', s2)
              | (None, s2) \<Rightarrow> (Reply 200 (statusResponse (Some st)), s2))))"

definition HandleStatus :: "bool \<Rightarrow> warp_svc \<Rightarrow> reply \<times> warp_svc" where
  "HandleStatus auth s =
     (if \<not> auth then (writeError 401 ''Unauthorized'', s) else (Reply 200 (statusResponse (wa_state s)), s))"

definition HandleLicense :: "warp_lib \<Rightarrow> cfg_env \<Rightarrow> bool \<Rightarrow> string option \<Rightarrow> warp_svc \<Rightarrow> reply \<times> warp_svc" where
  "HandleLicense lib env auth req s =
     (if \<not> auth then (writeError 401 ''Unauthorized'', s)
      else
        (case req of
           None \<Rightarrow> (writeError 400 ''license is required'', s)
         | Some license \<Rightarrow>
             if license = [] then (writeError 400 ''license is required'', s)
             else
               (case SetLicense lib license s of
                  (Inl _, s1) \<Rightarrow> (writeError 500 ''WARP set license failed'', s1)
                | (Inr st, s1) \<Rightarrow> (Reply 200 (statusResponse (Some st)), snd (applyOutbounds lib env s1)))))"

definition HandleRemove :: "cfg_env \<Rightarrow> bool \<Rightarrow> warp_svc \<Rightarrow> reply \<times> warp_svc" where
  "HandleRemove env auth s =
     (if \<not> auth then (writeError 401 ''Unauthorized'', s)
      else
        (case Uninstall (snd (removeOutboundTags env [''warp-v4'', ''warp-v6''] s)) of
           (Some _, s1) \<Rightarrow> (writeError 500 ''WARP uninstall failed'', s1)
         | (None, s1) \<Rightarrow> (writeOk [], s1)))"

section \<open>What is kept\<close>

text \<open>The calls to Cloudflare and the key pairs leave the account and the disk alone.\<close>

definition same_store :: "warp_svc \<Rightarrow> warp_svc \<Rightarrow> bool" where
  "same_store s s' \<longleftrightarrow> wa_state s' = wa_state s \<and> wa_disk s' = wa_disk s \<and> wa_path s' = wa_path s"

lemma cf_store: "cf_do r s = (x, s') \<Longrightarrow> same_store s s'"
  by (auto simp: cf_do_def same_store_def Let_def split: list.splits)

lemma request_store: "doRequest lib r s = (x, s') \<Longrightarrow> same_store s s'"
  by (auto simp: doRequest_def dest: cf_store split: prod.splits option.splits if_splits)

lemma call_stores:
  "Register lib k s = (x, s') \<Longrightarrow> same_store s s'" "GetConfig lib d t s = (x, s') \<Longrightarrow> same_store s s'"
  "UpdateLicense lib d t l s = (y, s') \<Longrightarrow> same_store s s'" "cf_Delete d t s = (y, s') \<Longrightarrow> same_store s s'"
  "GenerateKeypair s = (z, s') \<Longrightarrow> same_store s s'"
  by (auto simp: Register_def GetConfig_def UpdateLicense_def cf_Delete_def GenerateKeypair_def same_store_def
      dest!: request_store cf_store split: prod.splits sum.splits option.splits if_splits list.splits)

definition stored :: "warp_lib \<Rightarrow> warp_svc \<Rightarrow> warp_err + warp_state \<Rightarrow> warp_svc \<Rightarrow> bool" where
  "stored lib s r s' \<longleftrightarrow>
     (case r of
        Inl _ \<Rightarrow> wa_state s' = wa_state s
      | Inr st \<Rightarrow> wa_state s' = Some st \<and> (s' = s \<or> file_at (wa_disk s') (wa_path s') = Some (wl_enc lib st)))"

lemma save_effect:
  assumes "saveLocked lib st s = (r, s')"
  shows "wa_state s' = wa_state s \<and> wa_path s' = wa_path s \<and>
    (r = None \<longrightarrow> file_at (wa_disk s') (wa_path s') = Some (wl_enc lib st)) \<and>
    (\<forall>q. q \<noteq> wa_path s \<longrightarrow> file_at (wa_disk s') q = file_at (wa_disk s) q) \<and>
    (tape (wa_disk s) = [] \<longrightarrow> r = None \<and> wa_disk s' = put_file (wa_path s) (wl_enc lib st) (wa_disk s))"
proof -
  obtain a w1 where 1: "sys_call (wa_disk s) = (a, w1)" by fastforce
  obtain b w2 where 2: "write_file (wa_path s) (wl_enc lib st) w1 = (b, w2)" by fastforce
  have calm: "a = None \<and> w1 = wa_disk s \<and> b = None \<and> w2 = put_file (wa_path s) (wl_enc lib st) (wa_disk s)"
    if "tape (wa_disk s) = []"
    using 1 2 that by (auto simp: sys_call_def write_file_def next_outcome_def)
  show ?thesis
  proof (cases a)
    case (Some e)
    then have "(r, s') = (Some (SaveFailed e), s\<lparr>wa_disk := w1\<rparr>)" using assms 1 by (simp add: saveLocked_def)
    moreover from Some calm have "tape (wa_disk s) \<noteq> []" by blast
    moreover have "file_at w1 q = file_at (wa_disk s) q" for q by (rule sys_call_at [OF 1])
    ultimately show ?thesis by simp
  next
    case None
    then have rs: "(r, s') = (map_option SaveFailed b, s\<lparr>wa_disk := w2\<rparr>)"
      using assms 1 2 by (cases b) (simp_all add: saveLocked_def)
    have o: "\<forall>q. q \<noteq> wa_path s \<longrightarrow> file_at w2 q = file_at (wa_disk s) q"
      using write_file_other [OF 2] sys_call_at [OF 1] by simp
    have k: "b = None \<longrightarrow> file_at w2 (wa_path s) = Some (wl_enc lib st)" using 2 write_file_ok by blast
    have c: "tape (wa_disk s) = [] \<longrightarrow> b = None \<and> w2 = put_file (wa_path s) (wl_enc lib st) (wa_disk s)"
      using calm by blast
    from rs have "r = map_option SaveFailed b" "wa_state s' = wa_state s" "wa_path s' = wa_path s" "wa_disk s' = w2"
      by simp_all
    with o k c show ?thesis by (simp only: option.map_disc_iff simp_thms)
  qed
qed

lemma ensure_cases:
  assumes "EnsureRegistered lib now s = (r, s')"
  obtains (known) st where "IsInstalled s" "wa_state s = Some st" "r = Inr st" "s' = s"
    | (failed) e where "\<not> IsInstalled s" "r = Inl e" "same_store s s'"
    | (saved) st x s1 where "\<not> IsInstalled s" "same_store s s1" "saveLocked lib st s1 = (x, s')" "r = Inl (the x)" "x \<noteq> None"
    | (new) st s1 s2 where "\<not> IsInstalled s" "same_store s s1" "saveLocked lib st s1 = (None, s2)" "r = Inr st"
        "s' = s2\<lparr>wa_state := Some st\<rparr>"
proof (cases "IsInstalled s")
  case True
  then obtain st where "wa_state s = Some st" by (auto simp: IsInstalled_def split: option.splits)
  moreover have "r = Inr st" "s' = s" using True assms \<open>wa_state s = Some st\<close> by (simp_all add: EnsureRegistered_def)
  ultimately show ?thesis using True known by blast
next
  case False
  obtain k s1 where 1: "GenerateKeypair s = (k, s1)" by fastforce
  show ?thesis
  proof (cases k)
    case None
    have "(r, s') = (Inl NoKeypair, s1)" using assms False 1 None unfolding EnsureRegistered_def by simp
    then show ?thesis using call_stores(5) [OF 1] by (intro failed [OF False, of NoKeypair]) simp_all
  next
    case (Some kp)
    obtain priv pub where kp: "kp = (priv, pub)" by fastforce
    obtain g s2 where 2: "Register lib pub s1 = (g, s2)" by fastforce
    have ss: "same_store s s2" using call_stores(5) [OF 1] call_stores(1) [OF 2] by (simp add: same_store_def)
    show ?thesis
    proof (cases g)
      case (Inl e)
      have "(r, s') = (Inl e, s2)" using assms False 1 2 Some kp Inl unfolding EnsureRegistered_def by simp
      then show ?thesis using ss by (intro failed [OF False, of e]) simp_all
    next
      case (Inr resp)
      define st where "st = with_config resp \<lparr>PrivateKey = priv, PublicKey = pub, DeviceID = rr_id resp,
        AccessToken = rr_token resp, LicenseKey = [], ClientID = [], AddrV4 = [], AddrV6 = [], PeerPubKey = [],
        PeerEndpoint = [], RegisteredAt = now\<rparr>"
      obtain x s3 where 3: "saveLocked lib st s2 = (x, s3)" by fastforce
      have r: "(r, s') = (case x of Some e \<Rightarrow> (Inl e, s3) | None \<Rightarrow> (Inr st, s3\<lparr>wa_state := Some st\<rparr>))"
        using assms False 1 2 Some kp Inr 3 unfolding EnsureRegistered_def st_def by (simp add: Let_def)
      show ?thesis
      proof (cases x)
        case None
        with r 3 show ?thesis by (intro new [OF False ss]) simp_all
      next
        case x: (Some e)
        with r 3 show ?thesis by (intro saved [OF False ss, of st x]) simp_all
      qed
    qed
  qed
qed

lemma refresh_cases:
  assumes "RefreshConfig lib s = (r, s')"
  obtains (failed) e where "r = Inl e" "same_store s s'"
    | (saved) st x s1 where "same_store s s1" "saveLocked lib st s1 = (x, s')" "r = Inl (the x)" "x \<noteq> None"
    | (new) st s1 s2 where "same_store s s1" "saveLocked lib st s1 = (None, s2)" "r = Inr st" "s' = s2\<lparr>wa_state := Some st\<rparr>"
proof (cases "IsInstalled s")
  case False
  with assms show ?thesis by (intro failed [of NotRegistered]) (simp_all add: RefreshConfig_def same_store_def)
next
  case True
  define old where "old = the (wa_state s)"
  obtain g s1 where 1: "GetConfig lib (DeviceID old) (AccessToken old) s = (g, s1)" by fastforce
  note ss = call_stores(2) [OF 1]
  show ?thesis
  proof (cases g)
    case (Inl e)
    have "(r, s') = (Inl e, s1)" using assms True 1 Inl unfolding RefreshConfig_def old_def by (simp add: Let_def)
    then show ?thesis using ss by (intro failed [of e]) simp_all
  next
    case (Inr resp)
    define st where "st = with_config resp old"
    obtain x s2 where 2: "saveLocked lib st s1 = (x, s2)" by fastforce
    have r: "(r, s') = (case x of Some e \<Rightarrow> (Inl e, s2) | None \<Rightarrow> (Inr st, s2\<lparr>wa_state := Some st\<rparr>))"
      using assms True 1 Inr 2 unfolding RefreshConfig_def old_def st_def by (simp add: Let_def)
    show ?thesis
    proof (cases x)
      case None
      with r 2 show ?thesis by (intro new [OF ss]) simp_all
    next
      case x: (Some e)
      with r 2 show ?thesis by (intro saved [OF ss, of st x]) simp_all
    qed
  qed
qed

lemma ensure_stored: "EnsureRegistered lib now s = (r, s') \<Longrightarrow> stored lib s r s'"
  by (erule ensure_cases) (auto simp: stored_def same_store_def dest!: save_effect)

lemma refresh_stored: "RefreshConfig lib s = (r, s') \<Longrightarrow> stored lib s r s'"
  by (erule refresh_cases) (auto simp: stored_def same_store_def dest!: save_effect)

text \<open>A registration, a refresh or an upgrade that fails leaves the account in memory as it was; one that succeeds has
  written it first, so that the file then holds exactly the account that is returned.\<close>

theorem account_written_first:
  "stored lib s (fst (EnsureRegistered lib now s)) (snd (EnsureRegistered lib now s)) \<and>
   stored lib s (fst (RefreshConfig lib s)) (snd (RefreshConfig lib s)) \<and>
   stored lib s (fst (SetLicense lib license s)) (snd (SetLicense lib license s))"
proof -
  have "stored lib s r s'" if l: "SetLicense lib license s = (r, s')" for r s'
  proof (cases "wa_state s")
    case None
    with l show ?thesis by (auto simp: SetLicense_def stored_def)
  next
    case (Some st)
    obtain e s1 where 1: "UpdateLicense lib (DeviceID st) (AccessToken st) license s = (e, s1)" by fastforce
    note ss = call_stores(3) [OF 1]
    show ?thesis
    proof (cases e)
      case (Some x)
      with l \<open>wa_state s = Some st\<close> 1 ss show ?thesis by (auto simp: SetLicense_def stored_def same_store_def)
    next
      case None
      with l \<open>wa_state s = Some st\<close> 1 have r: "RefreshConfig lib s1 = (r, s')" by (simp add: SetLicense_def)
      then show ?thesis using ss
        by (elim refresh_cases) (auto simp: stored_def same_store_def dest!: save_effect)
    qed
  qed
  with ensure_stored refresh_stored show ?thesis by (metis prod.collapse)
qed

section \<open>A machine that works\<close>

text \<open>While no call of the operating system fails, memory and file stay in step.\<close>

lemma warp_calm [simp]:
  assumes "tape w = []"
  shows "next_outcome w = (Works, w)" "sys_call w = (None, w)" "write_file p d w = (None, put_file p d w)"
    "read_file p w = ((case file_at w p of None \<Rightarrow> Inl ErrNotExist | Some d \<Rightarrow> Inr d), w)"
    "remove_file p w = (case file_at w p of None \<Rightarrow> (Some ErrNotExist, w) | Some _ \<Rightarrow> (None, del_file p w))"
    "api_call c w = (None, w\<lparr>api := api w @ [c]\<rparr>)"
  using assms
  by (simp_all add: next_outcome_def sys_call_def write_file_def read_file_def remove_file_def api_call_def
      split: option.splits)

lemma calm_tape [simp]:
  assumes "tape w = []"
  shows "tape (snd (api_call c w)) = []" "tape (snd (rewrite_config env f w)) = []"
    "tape (snd (findXrayAPIPort env w)) = []" "tape (snd (addOutbound env ob w)) = []"
  using assms
  by (simp_all add: rewrite_config_def findXrayAPIPort_def addOutbound_def split: option.splits)

definition on_disk :: "warp_lib \<Rightarrow> warp_svc \<Rightarrow> warp_state option" where
  "on_disk lib s = (case file_at (wa_disk s) (wa_path s) of None \<Rightarrow> None | Some d \<Rightarrow> wl_dec lib d)"

definition in_step :: "warp_lib \<Rightarrow> warp_svc \<Rightarrow> bool" where
  "in_step lib s \<longleftrightarrow> tape (wa_disk s) = [] \<and> on_disk lib s = wa_state s"

lemma calm_load: "tape w = [] \<Longrightarrow>
    warp_load lib path w = ((case file_at w path of None \<Rightarrow> None | Some d \<Rightarrow> wl_dec lib d), w)"
  by (simp add: warp_load_def split: option.splits)

lemma restart_in_step: "tape (wa_disk s) = [] \<Longrightarrow> in_step lib (NewService lib path s)"
  by (simp add: NewService_def calm_load in_step_def on_disk_def)

lemma in_step_store: "in_step lib s \<Longrightarrow> same_store s s' \<Longrightarrow> in_step lib s'"
  by (simp add: in_step_def on_disk_def same_store_def)

lemma save_in_step:
  assumes codec: "\<And>x. wl_dec lib (wl_enc lib x) = Some x" and "in_step lib s" and "saveLocked lib st s = (r, s')"
  shows "r = None \<and> in_step lib (s'\<lparr>wa_state := Some st\<rparr>)"
  using assms by (auto simp: saveLocked_def in_step_def on_disk_def)

lemma uninstall_in_step: "in_step lib s \<Longrightarrow> in_step lib (snd (Uninstall s))"
proof -
  assume i: "in_step lib s"
  show ?thesis
  proof (cases "wa_state s")
    case None
    with i show ?thesis by (simp add: Uninstall_def)
  next
    case (Some st)
    obtain e s1 where 1: "cf_Delete (DeviceID st) (AccessToken st) s = (e, s1)" by fastforce
    have "wa_disk s1 = wa_disk s" "wa_path s1 = wa_path s" using call_stores(4) [OF 1] by (simp_all add: same_store_def)
    with i Some 1 show ?thesis
      by (auto simp: Uninstall_def Let_def in_step_def on_disk_def split: option.splits)
  qed
qed

text \<open>What only touches Xray and its configuration.\<close>

definition same_account :: "warp_svc \<Rightarrow> warp_svc \<Rightarrow> bool" where
  "same_account s s' \<longleftrightarrow>
     wa_state s' = wa_state s \<and> wa_path s' = wa_path s \<and> wa_sent s' = wa_sent s \<and>
     file_at (wa_disk s') (wa_path s) = file_at (wa_disk s) (wa_path s) \<and>
     (tape (wa_disk s) = [] \<longrightarrow> tape (wa_disk s') = [])"

lemma in_step_account: "in_step lib s \<Longrightarrow> same_account s s' \<Longrightarrow> in_step lib s'"
  by (simp add: in_step_def on_disk_def same_account_def)

lemma account_refl: "same_account s s"
  by (simp add: same_account_def)

lemma account_trans: "same_account s s1 \<Longrightarrow> same_account s1 s2 \<Longrightarrow> same_account s s2"
  by (simp add: same_account_def)

lemma world_account:
  "(\<And>w. file_at (snd (f w)) (wa_path s) = file_at w (wa_path s)) \<Longrightarrow>
   (\<And>w. tape w = [] \<Longrightarrow> tape (snd (f w)) = []) \<Longrightarrow> same_account s (snd (warp_world f s))"
  by (simp add: warp_world_def same_account_def case_prod_beta)

lemma apply_each_frame:
  "q \<noteq> ce_path env \<Longrightarrow> file_at (snd (apply_each env obs w)) q = file_at w q"
  "tape w = [] \<Longrightarrow> tape (snd (apply_each env obs w)) = []"
  by (induction obs arbitrary: w)
    (simp_all add: Let_def persistOutbound_def case_prod_beta split: option.splits)

lemma remove_each_frame:
  "q \<noteq> ce_path env \<Longrightarrow> file_at (remove_each env tags w) q = file_at w q"
  "tape w = [] \<Longrightarrow> tape (remove_each env tags w) = []"
  by (induction tags arbitrary: w) (simp_all add: removeOutboundFromConfig_def del: warp_calm)

lemma sys_account: "same_account s (snd (warp_world sys_call s))"
  by (intro world_account) simp_all

lemma outbounds_account:
  assumes "wa_path s \<noteq> ce_path env"
  shows "same_account s (snd (applyOutbounds lib env s))" "same_account s (snd (removeOutboundTags env tags s))"
proof -
  have p: "same_account s (snd (warp_world (findXrayAPIPort env) s))" by (intro world_account) simp_all
  have c: "same_account s s2"
    if "warp_world (findXrayAPIPort env) s = (port, s1)" "warp_world sys_call s1 = (e, s2)" for port s1 e s2
    using p sys_account [of s1] that account_trans by simp
  have a: "same_account s2 (snd (warp_world (apply_each env obs) s2))" if "wa_path s2 = wa_path s" for obs s2
    using assms that by (intro world_account apply_each_frame) simp_all
  have r: "same_account s2 (snd (warp_world (\<lambda>w. ((), remove_each env tags w)) s2))" if "wa_path s2 = wa_path s" for s2
    using assms that by (intro world_account) (simp_all add: remove_each_frame del: warp_calm)
  obtain port s1 where 1: "warp_world (findXrayAPIPort env) s = (port, s1)" by fastforce
  obtain e s2 where 2: "warp_world sys_call s1 = (e, s2)" by fastforce
  from p 1 have s1: "same_account s s1" by simp
  from c [OF 1 2] have s2: "same_account s s2" and w: "wa_path s2 = wa_path s" by (simp_all add: same_account_def)
  show "same_account s (snd (removeOutboundTags env tags s))"
    using s1 s2 account_trans [OF s2 r [OF w]] 1 2 by (simp add: removeOutboundTags_def split: option.splits)
  show "same_account s (snd (applyOutbounds lib env s))"
    using s1 s2 account_trans [OF s2 a [OF w]] 1 2 account_refl
    by (simp add: applyOutbounds_def split: option.splits sum.splits)
qed

section \<open>Requests and restarts\<close>

text \<open>What happens to the service: a request to one of the four routes, with its headers, or a restart of the agent.\<close>

datatype warp_event =
  InstallReq http_req int | StatusReq http_req | LicenseReq http_req "string option" | RemoveReq http_req | AgentRestart

fun warp_serve :: "warp_lib \<Rightarrow> cfg_env \<Rightarrow> string \<Rightarrow> warp_event \<Rightarrow> warp_svc \<Rightarrow> warp_svc" where
  "warp_serve lib env token (InstallReq r now) s = snd (HandleInstall lib env now (warp_auth r token) s)"
| "warp_serve lib env token (StatusReq r) s = snd (HandleStatus (warp_auth r token) s)"
| "warp_serve lib env token (LicenseReq r lic) s = snd (HandleLicense lib env (warp_auth r token) lic s)"
| "warp_serve lib env token (RemoveReq r) s = snd (HandleRemove env (warp_auth r token) s)"
| "warp_serve lib env token AgentRestart s = NewService lib (wa_path s) s"

fun warp_days :: "warp_lib \<Rightarrow> cfg_env \<Rightarrow> string \<Rightarrow> warp_event list \<Rightarrow> warp_svc \<Rightarrow> warp_svc" where
  "warp_days lib env token [] s = s"
| "warp_days lib env token (e # es) s = warp_days lib env token es (warp_serve lib env token e s)"

lemma ensure_in_step:
  assumes codec: "\<And>x. wl_dec lib (wl_enc lib x) = Some x" and i: "in_step lib s"
    and e: "EnsureRegistered lib now s = (r, s')"
  shows "in_step lib s' \<and> wa_path s' = wa_path s"
  using e
proof (cases rule: ensure_cases)
  case known with i show ?thesis by simp
next
  case failed with i in_step_store show ?thesis by (auto simp: same_store_def)
next
  case (saved st x s1)
  with save_in_step [OF codec in_step_store [OF i] saved(3)] show ?thesis by simp
next
  case (new st s1 s2)
  with save_in_step [OF codec in_step_store [OF i] new(3)] save_effect [OF new(3)] show ?thesis
    by (simp add: same_store_def)
qed

lemma refresh_in_step:
  assumes codec: "\<And>x. wl_dec lib (wl_enc lib x) = Some x" and i: "in_step lib s"
    and e: "RefreshConfig lib s = (r, s')"
  shows "in_step lib s' \<and> wa_path s' = wa_path s"
  using e
proof (cases rule: refresh_cases)
  case failed with i in_step_store show ?thesis by (auto simp: same_store_def)
next
  case (saved st x s1)
  with save_in_step [OF codec in_step_store [OF i] saved(2)] show ?thesis by simp
next
  case (new st s1 s2)
  with save_in_step [OF codec in_step_store [OF i] new(2)] save_effect [OF new(2)] show ?thesis
    by (simp add: same_store_def)
qed

lemma license_in_step:
  assumes codec: "\<And>x. wl_dec lib (wl_enc lib x) = Some x" and i: "in_step lib s"
    and e: "SetLicense lib license s = (r, s')"
  shows "in_step lib s' \<and> wa_path s' = wa_path s"
proof (cases "wa_state s")
  case None
  with i e show ?thesis by (simp add: SetLicense_def)
next
  case (Some st)
  obtain x s1 where 1: "UpdateLicense lib (DeviceID st) (AccessToken st) license s = (x, s1)" by fastforce
  note ss = call_stores(3) [OF 1]
  from in_step_store [OF i ss] have i1: "in_step lib s1" .
  show ?thesis
  proof (cases x)
    case None
    with e Some 1 have "RefreshConfig lib s1 = (r, s')" by (simp add: SetLicense_def)
    with refresh_in_step [OF codec i1] ss show ?thesis by (simp add: same_store_def)
  next
    case x: (Some y)
    with e Some 1 have "s' = s1" by (simp add: SetLicense_def)
    with i1 ss show ?thesis by (simp add: same_store_def)
  qed
qed

lemma serve_in_step:
  assumes codec: "\<And>x. wl_dec lib (wl_enc lib x) = Some x" and i: "in_step lib s" and p: "wa_path s \<noteq> ce_path env"
  shows "in_step lib (warp_serve lib env token e s) \<and> wa_path (warp_serve lib env token e s) = wa_path s"
proof (cases e)
  case (InstallReq r now)
  obtain x s1 where 1: "EnsureRegistered lib now s = (x, s1)" by fastforce
  from ensure_in_step [OF codec i 1] have i1: "in_step lib s1" and p1: "wa_path s1 = wa_path s" by simp_all
  from outbounds_account(1) [of s1 env lib] p p1 have "same_account s1 (snd (applyOutbounds lib env s1))" by simp
  with in_step_account [OF i1] have "in_step lib (snd (applyOutbounds lib env s1))"
    and "wa_path (snd (applyOutbounds lib env s1)) = wa_path s" using p1 by (simp_all add: same_account_def)
  with InstallReq 1 i i1 p1 show ?thesis
    by (simp add: HandleInstall_def case_prod_beta split: sum.splits option.splits)
next
  case (StatusReq r)
  with i show ?thesis by (simp add: HandleStatus_def)
next
  case (LicenseReq r lic)
  obtain x s1 where 1: "SetLicense lib (the lic) s = (x, s1)" by fastforce
  from license_in_step [OF codec i 1] have i1: "in_step lib s1" and p1: "wa_path s1 = wa_path s" by simp_all
  from outbounds_account(1) [of s1 env lib] p p1 have "same_account s1 (snd (applyOutbounds lib env s1))" by simp
  with in_step_account [OF i1] have "in_step lib (snd (applyOutbounds lib env s1))"
    and "wa_path (snd (applyOutbounds lib env s1)) = wa_path s" using p1 by (simp_all add: same_account_def)
  with LicenseReq 1 i i1 p1 show ?thesis
    by (cases lic) (simp_all add: HandleLicense_def split: sum.splits)
next
  case (RemoveReq r)
  define s1 where "s1 = snd (removeOutboundTags env [''warp-v4'', ''warp-v6''] s)"
  from outbounds_account(2) [OF p, of "[''warp-v4'', ''warp-v6'']"] have a: "same_account s s1" by (simp add: s1_def)
  from uninstall_in_step [OF in_step_account [OF i a]] have u: "in_step lib (snd (Uninstall s1))" .
  have "wa_path (snd (Uninstall s1)) = wa_path s1"
    by (auto simp: Uninstall_def Let_def case_prod_beta call_stores(4) [OF surjective_pairing, unfolded same_store_def]
        split: option.splits io_err.splits)
  with u a RemoveReq i show ?thesis
    by (simp add: HandleRemove_def s1_def [symmetric] case_prod_beta same_account_def split: option.splits)
next
  case AgentRestart
  with i show ?thesis by (simp add: in_step_def NewService_def calm_load on_disk_def)
qed

lemma days_in_step:
  assumes codec: "\<And>x. wl_dec lib (wl_enc lib x) = Some x"
  shows "in_step lib s \<Longrightarrow> wa_path s \<noteq> ce_path env \<Longrightarrow> in_step lib (warp_days lib env token es s)"
  by (induction es arbitrary: s) (simp_all add: serve_in_step [OF codec])

text \<open>C40: As long as every file operation succeeds, the JSON library reads back what it writes and the account's file is not the Xray
  configuration: whatever requests are served, whatever Cloudflare answers and
  however often the agent is restarted, a further restart finds in the file exactly the account that is in memory, or
  none when there is none. The first condition is needed: a refresh cut off while it writes loses the account, and an account whose
  file could not be removed comes back.\<close>

theorem restart_finds_account:
  fixes es :: "warp_event list" and token :: string
  assumes codec: "\<And>x. wl_dec lib (wl_enc lib x) = Some x" and calm: "tape (wa_disk s) = []"
    and paths: "path \<noteq> ce_path env"
  defines "s' \<equiv> warp_days lib env token es (NewService lib path s)"
  shows "wa_state (NewService lib (wa_path s') s') = wa_state s'"
proof -
  have "wa_path (NewService lib path s) = path" by (simp add: NewService_def case_prod_beta)
  with days_in_step [OF codec restart_in_step [OF calm]] paths have "in_step lib s'" by (simp add: s'_def)
  then show ?thesis by (simp add: in_step_def on_disk_def NewService_def calm_load)
qed

section \<open>The outbounds in Xray and in its configuration\<close>

lemma built_tags:
  assumes "BuildOutbounds lib s = Inr obs"
  obtains a b where "obs = [a, b]" "get_str a ''tag'' = ''warp-v4''" "get_str b ''tag'' = ''warp-v6''"
  using assms
  by (auto simp: BuildOutbounds_def warp_outbound_def get_str_def Let_def split: option.splits)

definition ready :: "cfg_env \<Rightarrow> obj \<Rightarrow> world \<Rightarrow> bool" where
  "ready env config w \<longleftrightarrow>
     tape w = [] \<and> ce_path env \<noteq> [] \<and> file_at w (ce_path env) = Some (ce_enc env config)"

lemma api_put: "api (put_file p d w) = api w"
  by (simp add: put_file_def)

lemma rewrite_ready:
  assumes codec: "ce_dec env (ce_enc env config) = Some config" and "ready env config w"
  shows "ready env (f config) (snd (rewrite_config env f w)) \<and> api (snd (rewrite_config env f w)) = api w"
  using assms by (simp add: ready_def rewrite_config_def api_put)

lemma api_ready: "ready env config w \<Longrightarrow>
    ready env config (snd (api_call c w)) \<and> api (snd (api_call c w)) = api w @ [c] \<and> fst (api_call c w) = None"
  by (simp add: ready_def)

lemma apply_one:
  assumes codec: "ce_dec env (ce_enc env config) = Some config" and built: "ce_build_out env ob"
    and r: "ready env config w"
  obtains w' where "apply_each env (ob # obs) w = apply_each env obs w'" "ready env (persist_outbound ob config) w'"
    "api w' = api w @ [DelOut (get_str ob ''tag''), AddOut ob]"
proof -
  define w1 where "w1 = snd (api_call (DelOut (get_str ob ''tag'')) w)"
  define w2 where "w2 = snd (api_call (AddOut ob) w1)"
  define w3 where "w3 = snd (persistOutbound env ob w2)"
  have 1: "ready env config w1" "api w1 = api w @ [DelOut (get_str ob ''tag'')]" using api_ready [OF r] by (simp_all add: w1_def)
  have 2: "ready env config w2" "api w2 = api w1 @ [AddOut ob]" "fst (api_call (AddOut ob) w1) = None"
    using api_ready [OF 1(1)] by (simp_all add: w2_def)
  have 3: "ready env (persist_outbound ob config) w3" "api w3 = api w2"
    using rewrite_ready [OF codec 2(1)] by (simp_all add: w3_def persistOutbound_def)
  have "addOutbound env ob w1 = (None, w2)"
    using built 2(3) by (simp add: addOutbound_def w2_def prod_eq_iff)
  then have "apply_each env (ob # obs) w = apply_each env obs w3"
    by (simp add: Let_def w1_def [symmetric] w3_def del: warp_calm)
  then show ?thesis using that 3 1(2) 2(2) by simp
qed

definition warp_config :: "obj list \<Rightarrow> obj \<Rightarrow> obj" where
  "warp_config obs config = foldl (\<lambda>c ob. persist_outbound ob c) config obs"

lemma outbounds_list: "get_list (persist_outbound ob config) ''outbounds'' = get_list config ''outbounds'' @ [JObj ob]"
  by (simp add: persist_outbound_def get_list_def get_arr_def)

lemma warp_config_list:
  "get_list (warp_config obs config) ''outbounds'' = get_list config ''outbounds'' @ List.map JObj obs"
  by (induction obs arbitrary: config) (simp_all add: warp_config_def outbounds_list)

text \<open>When Xray answers and its files can be written, applying the WARP outbounds replaces both of them in the
  running process, first \<open>warp-v4\<close> and then \<open>warp-v6\<close>, each removed before it is added; the configuration file gets
  both appended to its outbounds, whatever it already holds.\<close>

theorem applyOutbounds_effect:
  assumes codec: "ce_dec env (ce_enc env config) = Some config"
      "ce_dec env (ce_enc env (persist_outbound (obs ! 0) config)) = Some (persist_outbound (obs ! 0) config)"
    and built: "ce_build_out env (obs ! 0)" "ce_build_out env (obs ! 1)"
    and r: "ready env config (wa_disk s)" and port: "api_port_of config \<noteq> 0"
    and obs: "BuildOutbounds lib s = Inr obs"
  shows "fst (applyOutbounds lib env s) = None \<and>
    api (wa_disk (snd (applyOutbounds lib env s))) =
      api (wa_disk s) @ [DelOut ''warp-v4'', AddOut (obs ! 0), DelOut ''warp-v6'', AddOut (obs ! 1)] \<and>
    file_at (wa_disk (snd (applyOutbounds lib env s))) (ce_path env) = Some (ce_enc env (warp_config obs config)) \<and>
    get_list (warp_config obs config) ''outbounds'' = get_list config ''outbounds'' @ List.map JObj obs"
proof -
  obtain a b where ab: "obs = [a, b]" "get_str a ''tag'' = ''warp-v4''" "get_str b ''tag'' = ''warp-v6''"
    using built_tags [OF obs] .
  obtain w1 where 1: "apply_each env [a, b] (wa_disk s) = apply_each env [b] w1" "ready env (persist_outbound a config) w1"
    "api w1 = api (wa_disk s) @ [DelOut ''warp-v4'', AddOut a]"
    by (rule apply_one [OF codec(1) _ r, of a "[b]"]) (use built(1) ab in simp_all)
  obtain w2 where 2: "apply_each env [b] w1 = apply_each env [] w2"
    "ready env (persist_outbound b (persist_outbound a config)) w2" "api w2 = api w1 @ [DelOut ''warp-v6'', AddOut b]"
    by (rule apply_one [OF _ _ 1(2), of b "[]"]) (use codec(2) built(2) ab in simp_all)
  have p: "findXrayAPIPort env (wa_disk s) = (api_port_of config, wa_disk s)" "sys_call (wa_disk s) = (None, wa_disk s)"
    using r codec by (simp_all add: ready_def findXrayAPIPort_def)
  have "applyOutbounds lib env s = (None, s\<lparr>wa_disk := w2\<rparr>)"
    using obs p port 1(1) 2(1) ab(1) by (simp add: applyOutbounds_def warp_world_def)
  then show ?thesis using 1(3) 2(2,3) ab(1) by (simp add: ready_def warp_config_def outbounds_list)
qed

section \<open>Who is served\<close>

text \<open>A request that the WARP handlers do not accept is answered 401; it reaches neither Cloudflare nor the file nor
  Xray. The accepted ones are those with the configured token, and every request that carries the header
  \<open>X-WS-RPC: 1\<close>.\<close>

theorem warp_refuses:
  assumes "\<not> warp_auth r token"
  shows "HandleInstall lib env now (warp_auth r token) s = (writeError 401 ''Unauthorized'', s) \<and>
    HandleStatus (warp_auth r token) s = (writeError 401 ''Unauthorized'', s) \<and>
    HandleLicense lib env (warp_auth r token) lic s = (writeError 401 ''Unauthorized'', s) \<and>
    HandleRemove env (warp_auth r token) s = (writeError 401 ''Unauthorized'', s)"
  using assms by (simp add: HandleInstall_def HandleStatus_def HandleLicense_def HandleRemove_def)

section \<open>A small Cloudflare\<close>

definition toy_enc :: "warp_state \<Rightarrow> string" where
  "toy_enc st = pack
     [PrivateKey st, PublicKey st, DeviceID st, AccessToken st, LicenseKey st, ClientID st, AddrV4 st, AddrV6 st,
      PeerPubKey st, PeerEndpoint st, replicate (nat (RegisteredAt st)) CHR ''1'',
      replicate (nat (- RegisteredAt st)) CHR ''1'']"

definition toy_dec :: "string \<Rightarrow> warp_state option" where
  "toy_dec s =
     (case unpack [] s of
        Some [a, b, c, d, e, f, g, h, i, j, k, l] \<Rightarrow>
          Some \<lparr>PrivateKey = a, PublicKey = b, DeviceID = c, AccessToken = d, LicenseKey = e, ClientID = f,
                AddrV4 = g, AddrV6 = h, PeerPubKey = i, PeerEndpoint = j,
                RegisteredAt = int (length k) - int (length l)\<rparr>
      | _ \<Rightarrow> None)"

lemma toy_codec: "toy_dec (toy_enc st) = Some st"
  by (simp add: toy_dec_def toy_enc_def del: pack.simps)

definition toy_warp :: warp_lib where
  "toy_warp = \<lparr>wl_enc = toy_enc, wl_dec = toy_dec,
     wl_resp = (\<lambda>s. if s = ''R'' then Some \<lparr>rr_id = ''d'', rr_token = ''t'', rr_license = ''free'', rr_client_id = ''c'',
                       rr_v4 = ''172.16.0.2'', rr_v6 = ''fd01::2'', rr_peers = [(''k'', ''h:2408'')]\<rparr> else None),
     wl_errors = (\<lambda>_. None), wl_std = (\<lambda>_. Some [1, 2, 3, 4]), wl_raw = (\<lambda>_. None)\<rparr>"

definition toy_cloud :: "outcome list \<Rightarrow> (nat \<times> string) option list \<Rightarrow> warp_svc" where
  "toy_cloud rs xs = \<lparr>wa_path = ''/w'', wa_state = None, wa_disk = (demo_start rs)\<lparr>files := [(''/c'', [])]\<rparr>, wa_cloud = xs, wa_sent = [],
     wa_keys = [Some (''p'', ''q'')]\<rparr>"

definition toy_request :: http_req where
  "toy_request = \<lparr>rq_headers = [(''Authorization'', ''Bearer T'')], rq_remote = ''1.2.3.4:5'', rq_body = []\<rparr>"

definition toy_conf :: "nat \<Rightarrow> obj" where
  "toy_conf n = [(''outbounds'', JArr (replicate n JNull)),
     (''inbounds'', JArr [JObj [(''tag'', JStr ''api''), (''port'', JNum 10085 0)]])]"

text \<open>A codec that tells three configurations apart: the first one, and it with one and with two WARP outbounds.\<close>

definition toy_account :: warp_state where
  "toy_account = \<lparr>PrivateKey = ''p'', PublicKey = ''q'', DeviceID = ''d'', AccessToken = ''t'', LicenseKey = ''free'',
     ClientID = ''c'', AddrV4 = ''172.16.0.2'', AddrV6 = ''fd01::2'', PeerPubKey = ''k'', PeerEndpoint = ''h:2408'',
     RegisteredAt = 7\<rparr>"

definition toy_obs :: "obj list" where
  "toy_obs = (case BuildOutbounds toy_warp ((toy_cloud [] [])\<lparr>wa_state := Some toy_account\<rparr>) of Inr obs \<Rightarrow> obs | Inl _ \<Rightarrow> [])"

definition toy_cfgs :: "obj list" where
  "toy_cfgs = List.map (\<lambda>n. warp_config (take n (toy_obs @ toy_obs)) (toy_conf 0)) [0..<5]"

definition toy_index :: "obj \<Rightarrow> nat" where
  "toy_index m = length (get_list m ''outbounds'')"

definition toy_cfg_env :: cfg_env where
  "toy_cfg_env = demo_cfg_env\<lparr>ce_enc := (\<lambda>m. replicate (toy_index m) CHR ''x''),
     ce_dec := (\<lambda>s. if length s < 5 then Some (toy_cfgs ! length s) else None),
     ce_build_out := (\<lambda>_. True)\<rparr>"

lemma account_written_first_witness:
  "stored toy_warp (toy_cloud [] [Some (200, ''R'')]) (Inr toy_account)
     (snd (EnsureRegistered toy_warp 7 (toy_cloud [] [Some (200, ''R'')])))"
proof -
  have "fst (EnsureRegistered toy_warp 7 (toy_cloud [] [Some (200, ''R'')])) = Inr toy_account" by code_simp
  then show ?thesis using account_written_first [of toy_warp "toy_cloud [] [Some (200, ''R'')]" 7] by metis
qed

lemma restart_finds_account_witness:
  "wa_state (NewService toy_warp ''/w''
     (warp_days toy_warp toy_cfg_env ''T'' [InstallReq toy_request 7, AgentRestart]
       (NewService toy_warp ''/w'' (toy_cloud [] [Some (200, ''R'')])))) = Some toy_account"
proof -
  let ?s = "warp_days toy_warp toy_cfg_env ''T'' [InstallReq toy_request 7, AgentRestart]
       (NewService toy_warp ''/w'' (toy_cloud [] [Some (200, ''R'')]))"
  have "wl_dec toy_warp (wl_enc toy_warp x) = Some x" for x by (simp add: toy_warp_def toy_codec)
  moreover have "tape (wa_disk (toy_cloud [] [Some (200, ''R'')])) = []" "''/w'' \<noteq> ce_path toy_cfg_env"
    by (simp_all add: toy_cloud_def demo_start_def toy_cfg_env_def)
  ultimately have "wa_state (NewService toy_warp (wa_path ?s) ?s) = wa_state ?s"
    by (rule restart_finds_account)
  moreover have "wa_path ?s = ''/w''" "wa_state ?s = Some toy_account" by code_simp+
  ultimately show ?thesis by simp
qed

lemma applyOutbounds_effect_witness:
  "let s = (toy_cloud [] [])\<lparr>wa_state := Some toy_account\<rparr>; s' = snd (applyOutbounds toy_warp toy_cfg_env s)
   in api (wa_disk s') = [DelOut ''warp-v4'', AddOut (toy_obs ! 0), DelOut ''warp-v6'', AddOut (toy_obs ! 1)] \<and>
      file_at (wa_disk s') ''/c'' = Some ''xx''"
proof -
  let ?s = "(toy_cloud [] [])\<lparr>wa_state := Some toy_account\<rparr>"
  have 1: "ce_dec toy_cfg_env (ce_enc toy_cfg_env (toy_conf 0)) = Some (toy_conf 0)"
    "ce_dec toy_cfg_env (ce_enc toy_cfg_env (persist_outbound (toy_obs ! 0) (toy_conf 0))) =
       Some (persist_outbound (toy_obs ! 0) (toy_conf 0))"
    "ce_build_out toy_cfg_env (toy_obs ! 0)" "ce_build_out toy_cfg_env (toy_obs ! 1)"
    "ready toy_cfg_env (toy_conf 0) (wa_disk ?s)" "api_port_of (toy_conf 0) \<noteq> 0"
    "BuildOutbounds toy_warp ?s = Inr toy_obs"
    by code_simp+
  have 2: "api (wa_disk ?s) = []" "ce_path toy_cfg_env = ''/c''"
    "ce_enc toy_cfg_env (warp_config toy_obs (toy_conf 0)) = ''xx''" by code_simp+
  show ?thesis using applyOutbounds_effect [OF 1] unfolding Let_def 2 by simp
qed

lemma warp_refuses_witness:
  "status (fst (HandleRemove toy_cfg_env (warp_auth toy_request ''U'') (toy_cloud [] []))) = 401"
proof -
  have "\<not> warp_auth toy_request ''U''" by code_simp
  from warp_refuses [OF this, where env = toy_cfg_env] show ?thesis by simp
qed

section \<open>Where the code and its comments part\<close>

text \<open>\<open>HandleInstall\<close> is said to be idempotent; every further call appends both outbounds to the file once more.\<close>

lemma install_twice_duplicates:
  "let s1 = snd (HandleInstall toy_warp toy_cfg_env 7 True (toy_cloud [] [Some (200, ''R'')]));
       r2 = HandleInstall toy_warp toy_cfg_env 8 True s1
   in status (fst r2) = 200 \<and>
      ce_dec toy_cfg_env (the (file_at (wa_disk (snd r2)) ''/c'')) = Some (warp_config (toy_obs @ toy_obs) (toy_conf 0)) \<and>
      List.map tag_of (get_list (warp_config (toy_obs @ toy_obs) (toy_conf 0)) ''outbounds'') =
        [''warp-v4'', ''warp-v6'', ''warp-v4'', ''warp-v6'']"
  by code_simp

text \<open>A removal whose port look-up fails answers success and leaves the outbounds where they are.\<close>

lemma remove_keeps_outbounds:
  "let s1 = snd (HandleInstall toy_warp toy_cfg_env 7 True (toy_cloud [] [Some (200, ''R''), Some (204, [])]));
       r2 = HandleRemove toy_cfg_env True (s1\<lparr>wa_disk := (wa_disk s1)\<lparr>tape := [Fails (ErrIO ''io'')]\<rparr>\<rparr>)
   in status (fst r2) = 200 \<and> wa_state (snd r2) = None \<and> file_at (wa_disk (snd r2)) ''/c'' = Some ''xx''"
  by code_simp

text \<open>A registration whose account cannot be written is answered with an error; the device stays registered at Cloudflare
  and its identity is forgotten: the next attempt registers another one.\<close>

lemma registered_then_forgotten:
  "let s0 = (toy_cloud [Works, Fails (ErrIO ''full'')] [Some (200, ''R''), Some (200, ''R'')])
              \<lparr>wa_keys := [Some (''p'', ''q''), Some (''p2'', ''q2'')]\<rparr>;
       r1 = EnsureRegistered toy_warp 7 s0; r2 = EnsureRegistered toy_warp 8 (snd r1)
   in fst r1 = Inl (SaveFailed (ErrIO ''full'')) \<and> wa_state (snd r1) = None \<and>
      wa_sent (snd r2) = [CfRegister ''q'', CfRegister ''q2'']"
  by code_simp

text \<open>A refresh that is cut short destroys the file of an account that is in use: the next start finds none.\<close>

lemma torn_refresh_loses_account:
  "let s0 = (snd (EnsureRegistered toy_warp 7 (toy_cloud [] [Some (200, ''R''), Some (200, ''R'')])));
       r = RefreshConfig toy_warp (s0\<lparr>wa_disk := (wa_disk s0)\<lparr>tape := [Works, Torn []]\<rparr>\<rparr>)
   in fst r \<noteq> Inr toy_account \<and> wa_state (snd r) = Some toy_account \<and>
      wa_state (NewService toy_warp ''/w'' (snd r)) = None"
  by code_simp

text \<open>When the file cannot be removed the account is forgotten in memory only, and comes back with the next start.\<close>

lemma uninstall_comes_back:
  "let s0 = snd (EnsureRegistered toy_warp 7 (toy_cloud [] [Some (200, ''R''), Some (204, [])]));
       r = Uninstall (s0\<lparr>wa_disk := (wa_disk s0)\<lparr>tape := [Fails (ErrIO ''busy'')]\<rparr>\<rparr>)
   in wa_state (snd r) = None \<and> snd (Uninstall (snd r)) = snd r \<and>
      wa_state (NewService toy_warp ''/w'' (snd r)) = Some toy_account"
  by code_simp

text \<open>A free account has a license key too, so a fresh registration is reported as an activated WARP+.\<close>

lemma free_account_licensed:
  "let r = HandleInstall toy_warp toy_cfg_env 7 True (toy_cloud [] [Some (200, ''R'')])
   in map_of (body (fst r)) ''license_active'' = Some (JBool True) \<and> HasLicense (snd r)"
  by code_simp

end
