(* ===== verification/Agent_Logs.thy ===== *)
theory Agent_Logs
  imports Nginx_Text Sorting
begin

text \<open>
  The agent's logs and its memory limit: the last lines of a log and the request for them, the list of log files and their
  removal (\<open>internal/handler/management_handler.go\<close>, \<open>log_files.go\<close>), the rotation of Xray's access log, the limit on
  the number of files and the soft limit on memory (\<open>cmd/mmw-agent/main.go\<close>). Times of modification are natural numbers;
  what \<open>journalctl\<close> answers is a function of the unit and the number of lines.
\<close>

section \<open>The last lines\<close>

fun clamp_loop :: "nat \<Rightarrow> nat \<Rightarrow> string \<Rightarrow> nat \<Rightarrow> nat" where
  "clamp_loop lo hi [] n = (if n < lo then 0 else n)"
| "clamp_loop lo hi (c # s) n =
     (if \<not> is_digit c then 0
      else (let n' = n * 10 + (of_char c - 48) in if hi < n' then hi else clamp_loop lo hi s n'))"

definition parseIntClamp :: "string \<Rightarrow> nat \<Rightarrow> nat \<Rightarrow> nat" where
  "parseIntClamp s lo hi = clamp_loop lo hi s 0"

abbreviation newline :: char where "newline \<equiv> CHR 0x0A"

definition tail_chunk :: nat where
  "tail_chunk = 8192"

function tail_loop :: "nat \<Rightarrow> string \<Rightarrow> nat \<Rightarrow> string \<Rightarrow> world \<Rightarrow> (io_err + string) \<times> world" where
  "tail_loop n data off buf w =
     (if \<not> (0 < off \<and> count_list buf newline \<le> n) then (Inr buf, w)
      else
        (let rd = min tail_chunk off; off' = off - rd
         in (case sys_call w of
               (Some e, w1) \<Rightarrow> (Inl e, w1)
             | (None, w1) \<Rightarrow> tail_loop n data off' (take rd (drop off' data) @ buf) w1)))"
  by pat_completeness auto
termination by (relation "measure (\<lambda>(n, data, off, buf, w). off)") (auto simp: tail_chunk_def)

declare tail_loop.simps [simp del]

definition last_lines :: "nat \<Rightarrow> string \<Rightarrow> string" where
  "last_lines n s =
     (let ls = split_on newline (trim_right (\<lambda>c. c = newline) s)
      in join_with [newline] (if n < length ls then drop (length ls - n) ls else ls))"

definition tailLogFile :: "string \<Rightarrow> nat \<Rightarrow> world \<Rightarrow> (io_err + string) \<times> world" where
  "tailLogFile path n w =
     (case read_file path w of
        (Inl e, w1) \<Rightarrow> (Inl e, w1)
      | (Inr data, w1) \<Rightarrow>
          (case sys_call w1 of
             (Some e, w2) \<Rightarrow> (Inl e, w2)
           | (None, w2) \<Rightarrow>
               if length data = 0 then (Inr [], w2)
               else
                 (case tail_loop n data (length data) [] w2 of
                    (Inl e, w3) \<Rightarrow> (Inl e, w3)
                  | (Inr buf, w3) \<Rightarrow> (Inr (last_lines n buf), w3))))"

record log_env =
  le_logPath :: string
  le_accessLog :: string
  le_embedded :: bool
  le_journal :: "string \<Rightarrow> nat \<Rightarrow> string + string"

definition logServiceUnits :: "string \<Rightarrow> string option" where
  "logServiceUnits = [''xray'' \<mapsto> ''xray'', ''nginx'' \<mapsto> ''nginx'']"

definition log_lines :: "string \<Rightarrow> nat" where
  "log_lines v = (if v \<noteq> [] \<and> 0 < parseIntClamp v 1 2000 then parseIntClamp v 1 2000 else 200)"

definition logs_refused :: "string \<Rightarrow> string \<Rightarrow> reply" where
  "logs_refused msg logs = Reply 200 [(''success'', JBool False), (''message'', JStr msg), (''logs'', JStr logs)]"

definition logs_answer :: "string \<Rightarrow> string \<Rightarrow> reply" where
  "logs_answer service content = Reply 200 [(''success'', JBool True), (''service'', JStr service), (''logs'', JStr content)]"

definition HandleGetLogs :: "log_env \<Rightarrow> string \<Rightarrow> bool \<Rightarrow> string \<Rightarrow> string \<Rightarrow> world \<Rightarrow> reply \<times> world" where
  "HandleGetLogs env method auth q_service q_lines w =
     (if method \<noteq> ''GET'' then (writeError 405 ''Method not allowed'', w)
      else if \<not> auth then (writeError 401 ''Unauthorized'', w)
      else
        (let s0 = to_lower (trim_space q_service);
             service = (if s0 = [] then ''agent'' else s0);
             lines = log_lines q_lines
         in if service = ''agent'' then
              (if le_logPath env = [] then (writeError 500 ''agent log path not configured'', w)
               else
                 (case tailLogFile (le_logPath env) lines w of
                    (Inl _, w1) \<Rightarrow> (writeError 500 ''read agent log'', w1)
                  | (Inr out, w1) \<Rightarrow> (logs_answer service out, w1)))
            else if service = ''xray'' \<or> service = ''nginx'' then
              (if service = ''xray'' \<and> le_embedded env then
                 (if le_accessLog env = [] then (logs_refused ''embedded access log not configured'' [], w)
                  else
                    (case tailLogFile (le_accessLog env) lines w of
                       (Inl _, w1) \<Rightarrow> (logs_refused ''access log not readable'' [], w1)
                     | (Inr out, w1) \<Rightarrow> (logs_answer service out, w1)))
               else
                 (case le_journal env (the (logServiceUnits service)) lines of
                    Inl out \<Rightarrow> (logs_refused ''journalctl not available'' (trim_space out), w)
                  | Inr out \<Rightarrow> (logs_answer service (trim_space out), w)))
            else (writeError 400 ''unsupported service (agent/xray/nginx)'', w)))"

section \<open>The files\<close>

record log_file =
  lf_name :: string
  lf_size :: nat
  lf_modified :: nat
  lf_active :: bool

definition log_before :: "log_file \<Rightarrow> log_file \<Rightarrow> bool" where
  "log_before a b = (if lf_active a \<noteq> lf_active b then lf_active a else lf_modified b < lf_modified a)"

interpretation log_order: comparison log_before
  by unfold_locales (auto simp: log_before_def split: if_splits)

text \<open>\<open>mtime\<close> gives the time of a file's last modification, or none when the file is gone again.\<close>

definition log_info :: "(string \<Rightarrow> nat option) \<Rightarrow> log_env \<Rightarrow> world \<Rightarrow> string \<Rightarrow> log_file option" where
  "log_info mtime env w name =
     (case mtime name of
        None \<Rightarrow> None
      | Some t \<Rightarrow>
          Some \<lparr>lf_name = name,
                lf_size = length (the (file_at w (path_join (path_dir (le_logPath env)) name))),
                lf_modified = t, lf_active = (name \<in> set (activeLogNames (le_logPath env) (le_accessLog env)))\<rparr>)"

definition collectLogFiles ::
  "(string \<Rightarrow> nat option) \<Rightarrow> log_env \<Rightarrow> world \<Rightarrow> (io_err + log_file list \<times> nat) \<times> world" where
  "collectLogFiles mtime env w =
     (case sys_call w of
        (Some ErrNotExist, w1) \<Rightarrow> (Inr ([], 0), w1)
      | (Some e, w1) \<Rightarrow> (Inl e, w1)
      | (None, w1) \<Rightarrow>
          (let out = List.map_filter (log_info mtime env w1) (dir_files w1 (path_dir (le_logPath env)))
           in (Inr (sort_by log_before out, sum_list (List.map lf_size out)), w1)))"

fun purge_all :: "log_env \<Rightarrow> log_file list \<Rightarrow> nat \<Rightarrow> nat \<Rightarrow> world \<Rightarrow> (nat \<times> nat) \<times> world" where
  "purge_all env [] removed freed w = ((removed, freed), w)"
| "purge_all env (f # fs) removed freed w =
     (case purgeLogFile (le_logPath env) (le_accessLog env) (lf_name f) w of
        (Some _, w1) \<Rightarrow> purge_all env fs removed freed w1
      | (None, w1) \<Rightarrow> purge_all env fs (removed + 1) (freed + lf_size f) w1)"

definition handleDeleteLogFiles ::
  "(string \<Rightarrow> nat option) \<Rightarrow> log_env \<Rightarrow> string \<Rightarrow> string \<Rightarrow> world \<Rightarrow> reply \<times> world" where
  "handleDeleteLogFiles mtime env q_all q_name w =
     (if q_all = ''1'' then
        (case collectLogFiles mtime env w of
           (Inl _, w1) \<Rightarrow> (writeError 500 ''read log dir'', w1)
         | (Inr (fs, _), w1) \<Rightarrow>
             (case purge_all env fs 0 0 w1 of
                ((removed, freed), w2) \<Rightarrow>
                  (writeOk [(''removed'', JNum (int removed) 0), (''freed'', JNum (int freed) 0)], w2)))
      else
        (let name = trim_space q_name
         in if name = [] then (writeError 400 ''name is empty'', w)
            else
              (case purgeLogFile (le_logPath env) (le_accessLog env) name w of
                 (Some _, w1) \<Rightarrow> (writeError 400 ''log file not removed'', w1)
               | (None, w1) \<Rightarrow> (writeOk [], w1))))"

definition log_entry :: "log_file \<Rightarrow> json" where
  "log_entry f = JObj [(''name'', JStr (lf_name f)), (''size'', JNum (int (lf_size f)) 0),
     (''modified'', JNum (int (lf_modified f)) 0), (''active'', JBool (lf_active f))]"

definition HandleLogFiles ::
  "(string \<Rightarrow> nat option) \<Rightarrow> log_env \<Rightarrow> string \<Rightarrow> bool \<Rightarrow> string \<Rightarrow> string \<Rightarrow> world \<Rightarrow> reply \<times> world" where
  "HandleLogFiles mtime env method auth q_all q_name w =
     (if \<not> auth then (writeError 401 ''Unauthorized'', w)
      else if le_logPath env = [] then (writeError 500 ''agent log path not configured'', w)
      else if method = ''GET'' then
        (case collectLogFiles mtime env w of
           (Inl _, w1) \<Rightarrow> (writeError 500 ''read log dir'', w1)
         | (Inr (fs, sz), w1) \<Rightarrow>
             (writeOk [(''files'', JArr (List.map log_entry fs)), (''total_size'', JNum (int sz) 0),
                       (''dir'', JStr (path_dir (le_logPath env)))], w1))
      else if method = ''DELETE'' then handleDeleteLogFiles mtime env q_all q_name w
      else (writeError 405 ''Method not allowed'', w))"

section \<open>Rotation\<close>

definition rotate_max :: nat where
  "rotate_max = 50 * 2 ^ 20"

definition second_half :: "string \<Rightarrow> string" where
  "second_half data =
     (let half = drop (length data div 2) data; r = dropWhile (\<lambda>c. c \<noteq> newline) half
      in if 1 < length r then drop 1 r else half)"

text \<open>One tick of \<open>xrayAccessLogRotateLoop\<close>; \<open>os.Truncate\<close> of a file that exists.\<close>

definition rotate_tick :: "string \<Rightarrow> world \<Rightarrow> world" where
  "rotate_tick path w =
     (case sys_call w of
        (Some _, w1) \<Rightarrow> w1
      | (None, w1) \<Rightarrow>
          (case file_at w1 path of
             None \<Rightarrow> w1
           | Some cur \<Rightarrow>
               if length cur < rotate_max then w1
               else
                 (let w2 = (case read_file path w1 of
                              (Inl _, w2) \<Rightarrow> w2
                            | (Inr data, w2) \<Rightarrow> snd (write_file (path @ ''.1'') (second_half data) w2))
                  in snd (write_file path [] w2))))"

definition logs_by_prefix :: "(string \<Rightarrow> nat option) \<Rightarrow> string \<Rightarrow> string \<Rightarrow> world \<Rightarrow> (string \<times> nat) list" where
  "logs_by_prefix mtime dir pre w =
     List.map_filter (\<lambda>n. map_option (Pair n) (mtime n)) (filter (\<lambda>n. has_prefix n pre) (dir_files w dir))"

definition newest_first :: "(string \<times> nat) list \<Rightarrow> (string \<times> nat) list" where
  "newest_first xs = sort_key (\<lambda>f. - int (snd f)) xs"

fun remove_logs :: "string \<Rightarrow> (string \<times> nat) list \<Rightarrow> world \<Rightarrow> world" where
  "remove_logs dir [] w = w"
| "remove_logs dir (f # fs) w = remove_logs dir fs (snd (remove_file (path_join dir (fst f)) w))"

definition enforceMaxLogFiles :: "(string \<Rightarrow> nat option) \<Rightarrow> string \<Rightarrow> string \<Rightarrow> nat \<Rightarrow> world \<Rightarrow> world" where
  "enforceMaxLogFiles mtime dir pre keep w =
     (case sys_call w of
        (Some _, w1) \<Rightarrow> w1
      | (None, w1) \<Rightarrow>
          (let fs = logs_by_prefix mtime dir pre w1
           in if length fs \<le> keep then w1 else remove_logs dir (drop keep (newest_first fs)) w1))"

section \<open>The memory limit\<close>

text \<open>Two's complement of 64 bits.\<close>

definition wrap64 :: "int \<Rightarrow> int" where
  "wrap64 i = (i + 2 ^ 63) mod 2 ^ 64 - 2 ^ 63"

fun mem_total_line :: "string list \<Rightarrow> int" where
  "mem_total_line [] = 0"
| "mem_total_line (l # ls) =
     (if \<not> has_prefix l ''MemTotal:'' then mem_total_line ls
      else
        (case go_fields l of
           _ # f # _ \<Rightarrow> (case atoi f of Some kb \<Rightarrow> wrap64 (kb * 1024) | None \<Rightarrow> 0)
         | _ \<Rightarrow> 0))"

definition parseMemTotalBytes :: "string \<Rightarrow> int" where
  "parseMemTotalBytes meminfo = mem_total_line (split_on newline meminfo)"

definition readMemTotalBytes :: "world \<Rightarrow> int \<times> world" where
  "readMemTotalBytes w =
     (case read_file ''/proc/meminfo'' w of (Inl _, w1) \<Rightarrow> (0, w1) | (Inr data, w1) \<Rightarrow> (parseMemTotalBytes data, w1))"

text \<open>Go's integer division truncates towards zero; here the dividend is positive. The limit that is set, if any.\<close>

definition auto_limit :: "bool \<Rightarrow> world \<Rightarrow> int option \<times> world" where
  "auto_limit embedded w =
     (if \<not> embedded then (None, w)
      else
        (case readMemTotalBytes w of
           (mem, w1) \<Rightarrow> (if 0 < mem then Some (mem div 4 * 3) else None, w1)))"

definition setupMemoryLimit :: "bool \<Rightarrow> int \<Rightarrow> string \<Rightarrow> world \<Rightarrow> int option \<times> world" where
  "setupMemoryLimit embedded current limit_mb w =
     (if current \<noteq> 2 ^ 63 - 1 then (None, w)
      else
        (case (if limit_mb = [] then None else atoi limit_mb) of
           Some mb \<Rightarrow> if 0 < mb then (Some (wrap64 (mb * 2 ^ 20)), w) else auto_limit embedded w
         | None \<Rightarrow> auto_limit embedded w))"

section \<open>The last lines are the last lines\<close>

lemma count_split: "length (split_on newline s) = Suc (count_list s newline)"
  by (induction s) (auto split: list.splits)

lemma split_append:
  "split_on newline (a @ b) =
   butlast (split_on newline a) @ (last (split_on newline a) @ hd (split_on newline b)) # tl (split_on newline b)"
proof (induction a)
  case Nil
  then show ?case by simp
next
  case (Cons c a)
  then show ?case by (cases "split_on newline a") (auto split: list.splits)
qed

text \<open>The lines of a suffix with enough of them are the lines of the whole.\<close>

lemma last_parts:
  assumes "n \<le> count_list b newline"
  shows "drop (length (split_on newline (a @ b)) - n) (split_on newline (a @ b)) =
    drop (length (split_on newline b) - n) (split_on newline b)"
proof -
  obtain h t where b: "split_on newline b = h # t" by (cases "split_on newline b") auto
  then have "length t = count_list b newline" using count_split [of b] by simp
  with assms b show ?thesis by (simp add: split_append Suc_diff_le)
qed

lemma drop_lines: "(if n < length ls then drop (length ls - n) ls else ls) = drop (length ls - n) ls"
  by simp

lemma trim_suffix:
  assumes "trim_right f b \<noteq> []" shows "trim_right f (a @ b) = a @ trim_right f b"
proof -
  have "\<exists>x \<in> set (rev b). \<not> f x" using assms by (metis dropWhile_eq_Nil_conv rev_is_Nil_conv trim_right_def)
  then show ?thesis by (auto simp: trim_right_def dropWhile_append)
qed

lemma trim_blank: "\<exists>j. s = trim_right (\<lambda>c. c = x) s @ replicate j x"
proof -
  define t where "t = takeWhile (\<lambda>c. c = x) (rev s)"
  have "t = replicate (length t) x"
    by (intro replicate_length_same [symmetric]) (auto simp: t_def dest: set_takeWhileD)
  then have "rev t = replicate (length t) x" by (metis rev_replicate)
  moreover have "s = trim_right (\<lambda>c. c = x) s @ rev t"
    unfolding trim_right_def t_def rev_append [symmetric] takeWhile_dropWhile_id by simp
  ultimately show ?thesis by metis
qed

lemma count_replicate: "count_list (replicate j x) x = j"
  by (induction j) simp_all

lemma last_lines_suffix:
  assumes "n \<le> count_list (trim_right (\<lambda>c. c = newline) b) newline" and "0 < n"
  shows "last_lines n (a @ b) = last_lines n b"
proof -
  have "trim_right (\<lambda>c. c = newline) b \<noteq> []" using assms by auto
  then show ?thesis using last_parts [OF assms(1)] by (simp add: last_lines_def Let_def trim_suffix drop_lines)
qed

text \<open>The loop, while reading works: a suffix of the file that holds more than \<open>n\<close> line ends, or the whole file.\<close>

lemma tail_loop_suffix:
  assumes "tape w = []" and "off \<le> length data" and "buf = drop off data"
  shows "\<exists>k. tail_loop n data off buf w = (Inr (drop k data), w) \<and> (k = 0 \<or> n < count_list (drop k data) newline)"
  using assms
proof (induction n data off buf w rule: tail_loop.induct)
  case (1 n data off buf w)
  show ?case
  proof (cases "0 < off \<and> count_list buf newline \<le> n")
    case False
    with 1(4) show ?thesis by (auto simp: tail_loop.simps [of n data off])
  next
    case True
    let ?rd = "min tail_chunk off"
    have s: "sys_call w = (None, w)" using 1(2) by (simp add: sys_call_def next_outcome_def)
    have b: "take ?rd (drop (off - ?rd) data) @ buf = drop (off - ?rd) data"
      using append_take_drop_id [of ?rd "drop (off - ?rd) data"] by (simp add: 1(4))
    have "\<exists>k. tail_loop n data (off - ?rd) (drop (off - ?rd) data) w = (Inr (drop k data), w) \<and>
        (k = 0 \<or> n < count_list (drop k data) newline)"
      using 1(1) [OF _ refl refl s [symmetric] refl] True 1(2,3) b by simp
    then show ?thesis using True s b by (simp add: tail_loop.simps [of n data off] Let_def)
  qed
qed

lemma tail_loop_result:
  assumes "tape w = []"
  obtains k where "tail_loop n data (length data) [] w = (Inr (drop k data), w)" "k = 0 \<or> n < count_list (drop k data) newline"
  using tail_loop_suffix [OF assms, of "length data" data "[]" n] by auto

lemma tail_calm:
  assumes "tape w = []" and "file_at w path = Some data"
  shows "tailLogFile path n w =
    (if data = [] then (Inr [], w)
     else (case tail_loop n data (length data) [] w of
             (Inl e, w3) \<Rightarrow> (Inl e, w3) | (Inr buf, w3) \<Rightarrow> (Inr (last_lines n buf), w3)))"
  using assms by (simp add: tailLogFile_def read_file_def sys_call_def next_outcome_def)

text \<open>Reading a log backwards in chunks of 8192 bytes until enough line ends were seen gives the last \<open>n\<close> lines of
  the whole file, for a file that ends in at most one empty line.\<close>

theorem tailLogFile_exact:
  assumes calm: "tape w = []" and f: "file_at w path = Some data" and n: "0 < n"
    and blank: "\<not> has_suffix data [newline, newline]"
  shows "tailLogFile path n w = (Inr (last_lines n data), w)"
proof -
  let ?T = "trim_right (\<lambda>c. c = newline)"
  obtain k where k: "tail_loop n data (length data) [] w = (Inr (drop k data), w)"
    "k = 0 \<or> n < count_list (drop k data) newline" using tail_loop_result [OF calm] .
  have "last_lines n (drop k data) = last_lines n data"
  proof (cases "k = 0")
    case False
    let ?b = "drop k data"
    obtain j where j: "?b = ?T ?b @ replicate j newline" using trim_blank by blast
    then have c: "count_list ?b newline = count_list (?T ?b) newline + j"
      by (metis count_list_append count_replicate)
    have "j \<le> 1"
    proof (rule ccontr)
      assume "\<not> j \<le> 1"
      then obtain i where "j = i + 2" by (metis add.commute le_add_diff_inverse2 not_less_eq_eq numeral_2_eq_2 One_nat_def)
      then have "replicate j newline = replicate i newline @ [newline, newline]"
        by (simp only: replicate_add) (simp add: eval_nat_numeral)
      with j have "data = (take k data @ ?T ?b @ replicate i newline) @ [newline, newline]"
        by (metis append.assoc append_take_drop_id)
      moreover have "has_suffix (x @ [newline, newline]) [newline, newline]" for x by (simp add: has_suffix_def)
      ultimately have "has_suffix data [newline, newline]" by metis
      with blank show False by contradiction
    qed
    with c k(2) False have "n \<le> count_list (?T ?b) newline" by simp
    from last_lines_suffix [OF this n, of "take k data"] show ?thesis by simp
  qed simp
  moreover have "last_lines n [] = []" using n by (simp add: last_lines_def trim_right_def)
  ultimately show ?thesis using k(1) by (simp add: tail_calm [OF calm f])
qed

text \<open>A log that ends in a long run of empty lines is shown as empty.\<close>

lemma blank_tail_hides:
  assumes "tape w = []" and "file_at w path = Some (x @ replicate k newline)" and "n < tail_chunk" and "tail_chunk \<le> k"
  shows "tailLogFile path n w = (Inr [], w)"
proof -
  let ?data = "x @ replicate k newline"
  have "sys_call w = (None, w)" using assms(1) by (simp add: sys_call_def next_outcome_def)
  moreover have "take tail_chunk (drop (length ?data - tail_chunk) ?data) = replicate tail_chunk newline"
    using assms(4) by simp
  moreover have "0 < length ?data" "min tail_chunk (length ?data) = tail_chunk" using assms(4) by (auto simp: tail_chunk_def)
  ultimately have "tail_loop n ?data (length ?data) [] w =
      tail_loop n ?data (length ?data - tail_chunk) (replicate tail_chunk newline) w"
    by (simp only: tail_loop.simps [of n ?data "length ?data"] Let_def) simp
  also have "\<dots> = (Inr (replicate tail_chunk newline), w)"
    using assms(3) by (subst tail_loop.simps) (simp add: count_replicate)
  finally have "tail_loop n ?data (length ?data) [] w = (Inr (replicate tail_chunk newline), w)" .
  moreover have "trim_right (\<lambda>c. c = newline) (replicate j newline) = []" for j
    by (simp add: trim_right_def)
  then have "last_lines n (replicate tail_chunk newline) = []"
    by (cases n) (simp_all add: last_lines_def)
  ultimately show ?thesis using assms(4)
    by (simp only: tail_calm [OF assms(1,2)]) (auto simp: tail_chunk_def)
qed

section \<open>The request for a log\<close>

lemma clamp_le:
  assumes "lo \<le> hi" "n \<le> hi"
  shows "clamp_loop lo hi s n = 0 \<or> lo \<le> clamp_loop lo hi s n \<and> clamp_loop lo hi s n \<le> hi"
  using assms(2)
proof (induction s arbitrary: n)
  case (Cons c s)
  show ?case
  proof (cases "is_digit c \<and> n * 10 + (of_char c - 48) \<le> hi")
    case True
    with Cons.IH [of "n * 10 + (of_char c - 48)"] show ?thesis by (simp add: Let_def not_less)
  next
    case False
    with assms(1) show ?thesis by (auto simp: Let_def)
  qed
qed simp

lemma digits_mono: "n \<le> foldl (\<lambda>n c. 10 * n + (of_char c - 48 :: nat)) n s"
proof (induction s arbitrary: n)
  case (Cons c s)
  have "n \<le> 10 * n + (of_char c - 48)" by simp
  also note Cons.IH
  finally show ?case by simp
qed simp

lemma log_lines_range: "1 \<le> log_lines v \<and> log_lines v \<le> 2000"
  using clamp_le [of 1 2000 0 v] by (auto simp: log_lines_def parseIntClamp_def)

lemma clamp_digits:
  assumes "list_all is_digit s" and "lo \<le> hi" and "n \<le> hi"
  shows "clamp_loop lo hi s n =
    (let v = foldl (\<lambda>n c. 10 * n + (of_char c - 48)) n s in if v < lo then 0 else min v hi)"
  using assms
proof (induction s arbitrary: n)
  case (Cons c s)
  show ?case
  proof (cases "hi < n * 10 + (of_char c - 48)")
    case True
    with digits_mono [of "n * 10 + (of_char c - 48)" s] Cons.prems show ?thesis
      by (simp add: Let_def mult.commute min_def)
  next
    case False
    with Cons.IH [of "n * 10 + (of_char c - 48)"] Cons.prems show ?thesis
      by (simp add: Let_def mult.commute)
  qed
qed (simp add: Let_def)

text \<open>The number of lines asked for is read as a decimal number and held between 1 and 2000; the request is
  answered from the two log files or, for the units \<open>xray\<close> and \<open>nginx\<close> alone, from the journal, and for no other unit
  whatever the request says.\<close>

theorem HandleGetLogs_confined:
  assumes "\<And>u n. u = ''xray'' \<or> u = ''nginx'' \<Longrightarrow> 1 \<le> n \<Longrightarrow> n \<le> 2000 \<Longrightarrow> j1 u n = j2 u n"
  shows "HandleGetLogs (env\<lparr>le_journal := j1\<rparr>) meth auth q_service q_lines w =
      HandleGetLogs (env\<lparr>le_journal := j2\<rparr>) meth auth q_service q_lines w \<and>
    (list_all is_digit q_lines \<and> q_lines \<noteq> [] \<longrightarrow>
      log_lines q_lines = (if digits_value q_lines = 0 then 200 else min (digits_value q_lines) 2000))"
proof -
  have "j1 u (log_lines q_lines) = j2 u (log_lines q_lines)" if "u = ''xray'' \<or> u = ''nginx''" for u
    using assms that log_lines_range by blast
  then have "HandleGetLogs (env\<lparr>le_journal := j1\<rparr>) meth auth q_service q_lines w =
      HandleGetLogs (env\<lparr>le_journal := j2\<rparr>) meth auth q_service q_lines w"
    unfolding HandleGetLogs_def by (simp add: Let_def logServiceUnits_def)
  moreover have "log_lines q_lines = (if digits_value q_lines = 0 then 200 else min (digits_value q_lines) 2000)"
    if "list_all is_digit q_lines \<and> q_lines \<noteq> []"
    using clamp_digits [of q_lines 1 2000 0] that by (auto simp: log_lines_def parseIntClamp_def digits_value_def Let_def)
  ultimately show ?thesis by blast
qed

section \<open>Removing log files\<close>

lemma purge_active:
  assumes p: "path_dir q = Clean (path_dir (le_logPath env))"
    and a: "path_base q \<in> set (activeLogNames (le_logPath env) (le_accessLog env))"
    and r: "purgeLogFile (le_logPath env) (le_accessLog env) name w = (r, w')" and f: "file_at w q \<noteq> None"
  shows "file_at w' q \<noteq> None"
proof (cases "safeLogFilePath (path_dir (le_logPath env)) name")
  case None
  with r f show ?thesis by (simp add: purgeLogFile_def)
next
  case (Some path)
  show ?thesis
  proof (cases "path = q")
    case True
    with r Some a f show ?thesis
      by (auto simp: purgeLogFile_def write_file_def next_outcome_file_at split: prod.splits outcome.splits)
  next
    case False
    with purgeLogFile_only [OF r, of q] Some have "file_at w' q = file_at w q" by auto
    with f show ?thesis by simp
  qed
qed

definition log_safe :: "log_env \<Rightarrow> world \<Rightarrow> world \<Rightarrow> bool" where
  "log_safe env w w' \<longleftrightarrow>
     (\<forall>q. path_dir q \<noteq> Clean (path_dir (le_logPath env)) \<longrightarrow> file_at w' q = file_at w q) \<and>
     (\<forall>q. path_dir q = Clean (path_dir (le_logPath env)) \<and>
          path_base q \<in> set (activeLogNames (le_logPath env) (le_accessLog env)) \<and> file_at w q \<noteq> None \<longrightarrow>
          file_at w' q \<noteq> None)"

lemma log_safe_trans: "log_safe env w w1 \<Longrightarrow> log_safe env w1 w2 \<Longrightarrow> log_safe env w w2"
  by (simp add: log_safe_def)

lemma log_safe_same: "files w' = files w \<Longrightarrow> log_safe env w w'"
  by (simp add: log_safe_def file_at_def)

lemma purge_safe: "purgeLogFile (le_logPath env) (le_accessLog env) name w = (r, w') \<Longrightarrow> log_safe env w w'"
  unfolding log_safe_def using purgeLogFile_only purge_active by blast

lemma purge_all_safe: "log_safe env w (snd (purge_all env fs removed freed w))"
proof (induction fs arbitrary: removed freed w)
  case Nil
  show ?case by (simp add: log_safe_same)
next
  case (Cons f fs)
  obtain r w1 where "purgeLogFile (le_logPath env) (le_accessLog env) (lf_name f) w = (r, w1)" by fastforce
  with Cons.IH log_safe_trans [OF purge_safe] show ?case by (cases r) auto
qed

lemma collect_same: "files (snd (collectLogFiles mtime env w)) = files w"
  by (auto simp: collectLogFiles_def Let_def dest: sys_call_frame split: prod.splits option.splits io_err.splits)

text \<open>Whatever log file the master asks to remove, or when it asks for all of them, and whatever call fails: no file
  outside the directory of the agent's log changes, and the logs that are being written to are emptied but never
  removed.\<close>

theorem HandleLogFiles_safe:
  assumes "HandleLogFiles mtime env meth auth q_all q_name w = (r, w')"
  shows "(path_dir q \<noteq> Clean (path_dir (le_logPath env)) \<longrightarrow> file_at w' q = file_at w q) \<and>
    (path_dir q = Clean (path_dir (le_logPath env)) \<and>
     path_base q \<in> set (activeLogNames (le_logPath env) (le_accessLog env)) \<and> file_at w q \<noteq> None \<longrightarrow>
     file_at w' q \<noteq> None)"
proof -
  have c: "log_safe env w (snd (collectLogFiles mtime env w))" by (rule log_safe_same, rule collect_same)
  have "log_safe env w (snd (handleDeleteLogFiles mtime env q_all q_name w))"
  proof (cases "q_all = ''1''")
    case True
    obtain x w1 where 1: "collectLogFiles mtime env w = (x, w1)" by fastforce
    with c have "log_safe env w w1" by simp
    with log_safe_trans [OF this purge_all_safe] True 1 show ?thesis
      by (auto simp: handleDeleteLogFiles_def case_prod_beta split: sum.splits)
  next
    case False
    with purge_safe [OF surjective_pairing] show ?thesis
      by (auto simp: handleDeleteLogFiles_def Let_def case_prod_beta log_safe_same split: option.splits)
  qed
  with c have "log_safe env w (snd (HandleLogFiles mtime env meth auth q_all q_name w))"
    by (auto simp: HandleLogFiles_def case_prod_beta log_safe_same split: sum.splits)
  with assms show ?thesis by (simp add: log_safe_def)
qed

text \<open>The directory is not the agent's own: with the log in a shared directory a request for all removes every other file
  of it.\<close>

lemma purge_all_takes_strangers:
  "let env = \<lparr>le_logPath = ''/var/log/agent.log'', le_accessLog = [], le_embedded = False, le_journal = (\<lambda>_ _. Inl [])\<rparr>;
       w = \<lparr>files = [(''/var/log/agent.log'', ''a''), (''/var/log/auth.log'', ''b'')], tape = [], running = None, api = []\<rparr>
   in files (snd (HandleLogFiles (\<lambda>_. Some 0) env ''DELETE'' True ''1'' [] w)) = [(''/var/log/agent.log'', [])]"
  by code_simp

section \<open>Rotation and the number of files\<close>

lemma half_suffix: "\<exists>x. data = x @ second_half data"
proof -
  define h where "h = drop (length data div 2) data"
  have h: "data = take (length data div 2) data @ h" by (simp add: h_def)
  obtain y where y: "h = y @ drop 1 (dropWhile (\<lambda>c. c \<noteq> newline) h)"
    by (metis append.assoc append_take_drop_id takeWhile_dropWhile_id)
  show ?thesis
  proof (cases "1 < length (dropWhile (\<lambda>c. c \<noteq> newline) h)")
    case True
    then have "second_half data = drop 1 (dropWhile (\<lambda>c. c \<noteq> newline) h)"
      by (simp add: second_half_def Let_def h_def [symmetric])
    with h y show ?thesis by (metis append.assoc)
  next
    case False
    then have "second_half data = h" by (simp add: second_half_def Let_def h_def [symmetric])
    with h show ?thesis by metis
  qed
qed

lemma half_starts_line:
  assumes "newline \<in> set (butlast (drop (length data div 2) data))"
  shows "\<exists>x. data = x @ newline # second_half data"
proof -
  let ?h = "drop (length data div 2) data"
  let ?r = "dropWhile (\<lambda>c. c \<noteq> newline) ?h"
  have ne: "?h \<noteq> []" using assms by force
  obtain u v where uv: "butlast ?h = u @ newline # v" "newline \<notin> set u" using split_list_first [OF assms] by blast
  then have h: "?h = u @ newline # v @ [last ?h]" using append_butlast_last_id [OF ne] by (metis append.assoc append_Cons)
  have "dropWhile (\<lambda>c. c \<noteq> newline) (u @ newline # v @ [last ?h]) = newline # v @ [last ?h]"
    using uv(2) by (subst dropWhile_append2) auto
  then have "?r = newline # v @ [last ?h]" using h by metis
  then have "second_half data = v @ [last ?h]" by (simp add: second_half_def Let_def)
  moreover have "data = take (length data div 2) data @ u @ newline # v @ [last ?h]"
    using h append_take_drop_id [of "length data div 2" data] by metis
  ultimately have "data = (take (length data div 2) data @ u) @ newline # second_half data" by simp
  then show ?thesis ..
qed

text \<open>A tick of the rotation leaves a log below 50 MB alone. Above, when every call succeeds, the log is emptied and
  its copy holds the end of it, beginning with a whole line whenever the second half has a line end before its last
  byte; no other file changes, whatever fails.\<close>

theorem rotate_tick_effect:
  assumes f: "file_at w path = Some data"
  shows "(length data < rotate_max \<longrightarrow> files (rotate_tick path w) = files w) \<and>
    (rotate_max \<le> length data \<and> tape w = [] \<longrightarrow>
       file_at (rotate_tick path w) path = Some [] \<and>
       (\<exists>x. data = x @ second_half data \<and> file_at (rotate_tick path w) (path @ ''.1'') = Some (second_half data)) \<and>
       (newline \<in> set (butlast (drop (length data div 2) data)) \<longrightarrow> (\<exists>x. data = x @ newline # second_half data))) \<and>
    (q \<noteq> path \<and> q \<noteq> path @ ''.1'' \<longrightarrow> file_at (rotate_tick path w) q = file_at w q)"
proof -
  obtain e w1 where 1: "sys_call w = (e, w1)" by fastforce
  have f1: "file_at w1 x = file_at w x" for x using sys_call_at [OF 1] .
  have fs: "files w1 = files w" using sys_call_frame [OF 1] by simp
  have small: "files (rotate_tick path w) = files w" if "length data < rotate_max"
    using that 1 f f1 fs by (simp add: rotate_tick_def split: option.splits)
  have other: "file_at (rotate_tick path w) q = file_at w q" if "q \<noteq> path" "q \<noteq> path @ ''.1''"
    using that 1 f f1 by (simp add: rotate_tick_def Let_def case_prod_beta split: option.splits sum.splits)
  have calm: "rotate_tick path w = put_file path [] (put_file (path @ ''.1'') (second_half data) w)"
    if "rotate_max \<le> length data" "tape w = []"
    using that f by (simp add: rotate_tick_def Let_def sys_call_def read_file_def write_file_def next_outcome_def)
  have "file_at (rotate_tick path w) path = Some [] \<and> file_at (rotate_tick path w) (path @ ''.1'') = Some (second_half data)"
    if "rotate_max \<le> length data" "tape w = []" unfolding calm [OF that] by simp
  with small other half_suffix [of data] half_starts_line [of data] show ?thesis by blast
qed

lemma remove_logs_other:
  "q \<notin> (\<lambda>f. path_join dir (fst f)) ` set fs \<Longrightarrow> file_at (remove_logs dir fs w) q = file_at w q"
  by (induction fs arbitrary: w) auto

lemma remove_logs_calm:
  "tape w = [] \<Longrightarrow>
   tape (remove_logs dir fs w) = [] \<and>
   file_at (remove_logs dir fs w) q = (if q \<in> (\<lambda>f. path_join dir (fst f)) ` set fs then None else file_at w q)"
proof (induction fs arbitrary: w)
  case (Cons f fs)
  let ?w = "snd (remove_file (path_join dir (fst f)) w)"
  have "tape ?w = [] \<and> file_at ?w q = (if q = path_join dir (fst f) then None else file_at w q)"
    using Cons.prems by (auto simp: remove_file_def next_outcome_def split: option.splits)
  with Cons.IH [of ?w] show ?case by auto
qed simp

lemma newest_sorted: "sorted_wrt (\<lambda>a b. snd b \<le> snd a) (newest_first fs)"
proof -
  have "sorted (List.map (\<lambda>f. - int (snd f)) (newest_first fs))" by (simp add: newest_first_def)
  then show ?thesis by (simp add: sorted_map)
qed

lemma set_newest [simp]: "set (newest_first fs) = set fs" "length (newest_first fs) = length fs"
  by (simp_all add: newest_first_def)

lemma distinct_newest:
  assumes "distinct (List.map fst fs)" shows "distinct (List.map fst (newest_first fs))"
proof -
  have "mset (List.map fst (newest_first fs)) = mset (List.map fst fs)" by (simp add: newest_first_def)
  then show ?thesis using assms mset_eq_imp_distinct_iff by blast
qed

lemma dir_files_inside: "n \<in> set (dir_files w dir) \<Longrightarrow> CHR 0x2F \<notin> set n"
  by (auto simp: dir_files_def)

lemma dir_files_distinct:
  assumes "distinct (List.map fst (files w))" shows "distinct (dir_files w dir)"
proof -
  have inj: "inj_on (\<lambda>p. drop (length dir + 1) p) {p. has_prefix p (dir @ ''/'')}"
    by (rule inj_onI) (auto simp: has_prefix_iff simp del: has_prefix_Cons)
  show ?thesis unfolding dir_files_def distinct_map
    using assms by (intro conjI distinct_filter inj_on_subset [OF inj]) (auto simp del: has_prefix_Cons)
qed

lemma distinct_map_filter:
  "distinct xs \<Longrightarrow> distinct (List.map fst (List.map_filter (\<lambda>n. map_option (Pair n) (g n)) xs))"
proof (induction xs)
  case (Cons x xs)
  have "fst ` set (List.map_filter (\<lambda>n. map_option (Pair n) (g n)) xs) \<subseteq> set xs"
    by (auto simp: List.map_filter_def)
  with Cons show ?case by (cases "g x") (auto simp: List.map_filter_simps)
qed (simp add: List.map_filter_simps)

text \<open>The limit on the number of log files touches no file that does not bear the prefix; when every call succeeds it
  keeps exactly the newest ones, as many as asked for, untouched, and each removed one is at most as new as each kept
  one.\<close>

theorem enforceMaxLogFiles_newest:
  fixes mtime :: "string \<Rightarrow> nat option" and dir pre :: string
  assumes d: "distinct (List.map fst (files w))"
  defines "fs \<equiv> newest_first (logs_by_prefix mtime dir pre w)"
  shows "((\<forall>n. q = path_join dir n \<longrightarrow> \<not> has_prefix n pre) \<longrightarrow>
      file_at (enforceMaxLogFiles mtime dir pre keep w) q = file_at w q) \<and>
    (tape w = [] \<longrightarrow>
      (\<forall>f \<in> set fs. file_at (enforceMaxLogFiles mtime dir pre keep w) (path_join dir (fst f)) =
         (if f \<in> set (take keep fs) then file_at w (path_join dir (fst f)) else None))) \<and>
    (\<forall>a \<in> set (take keep fs). \<forall>b \<in> set (drop keep fs). snd b \<le> snd a)"
proof (intro conjI impI ballI)
  let ?w = "enforceMaxLogFiles mtime dir pre keep w"
  obtain e w1 where 1: "sys_call w = (e, w1)" by fastforce
  have w1: "files w1 = files w" "\<And>x. file_at w1 x = file_at w x" using sys_call_frame [OF 1] sys_call_at [OF 1] by simp_all
  then have logs: "logs_by_prefix mtime dir pre w1 = logs_by_prefix mtime dir pre w"
    by (simp add: logs_by_prefix_def dir_files_def)
  have names: "has_prefix (fst f) pre \<and> CHR 0x2F \<notin> set (fst f)" if "f \<in> set fs" for f
    using that dir_files_inside by (auto simp: fs_def logs_by_prefix_def List.map_filter_def)
  show "file_at ?w q = file_at w q" if "\<forall>n. q = path_join dir n \<longrightarrow> \<not> has_prefix n pre"
  proof -
    have "q \<notin> (\<lambda>f. path_join dir (fst f)) ` set (drop keep fs)"
      using that names by (auto dest: in_set_dropD)
    from remove_logs_other [OF this, of w1] show ?thesis
      using 1 w1 by (simp add: enforceMaxLogFiles_def Let_def logs fs_def split: option.splits)
  qed
  have dn: "distinct (List.map fst fs)"
    unfolding fs_def logs_by_prefix_def
    by (intro distinct_newest distinct_map_filter distinct_filter dir_files_distinct [OF d])
  show "file_at ?w (path_join dir (fst f)) = (if f \<in> set (take keep fs) then file_at w (path_join dir (fst f)) else None)"
    if calm: "tape w = []" and f: "f \<in> set fs" for f
  proof -
    have 2: "sys_call w = (None, w)" using calm by (simp add: sys_call_def next_outcome_def)
    have split: "f \<in> set (take keep fs) \<or> f \<in> set (drop keep fs)"
      using f by (metis append_take_drop_id set_append UnE)
    have dj: "fst f \<notin> fst ` set (drop keep fs)" if "f \<in> set (take keep fs)"
    proof -
      have "distinct (List.map fst (take keep fs) @ List.map fst (drop keep fs))"
        using dn by (simp flip: map_append)
      with that show ?thesis by auto
    qed
    have img: "path_join dir (fst f) \<in> (\<lambda>f. path_join dir (fst f)) ` set (drop keep fs) \<longleftrightarrow> fst f \<in> fst ` set (drop keep fs)"
      by (auto simp: image_iff path_join_def)
    have "file_at ?w (path_join dir (fst f)) =
        (if fst f \<in> fst ` set (drop keep fs) then None else file_at w (path_join dir (fst f)))"
    proof (cases "length fs \<le> keep")
      case True
      with 2 show ?thesis by (simp add: enforceMaxLogFiles_def Let_def fs_def)
    next
      case False
      then have "?w = remove_logs dir (drop keep fs) w" using 2 by (simp add: enforceMaxLogFiles_def Let_def fs_def)
      with remove_logs_calm [OF calm, of dir "drop keep fs" "path_join dir (fst f)"] img show ?thesis by simp
    qed
    with split dj show ?thesis by (auto simp: image_iff)
  qed
  show "snd b \<le> snd a" if "a \<in> set (take keep fs)" "b \<in> set (drop keep fs)" for a b
    using that newest_sorted [of "logs_by_prefix mtime dir pre w"]
    by (metis append_take_drop_id fs_def sorted_wrt_append)
qed

section \<open>Memory\<close>

lemma wrap64_id: "- (2 ^ 63) \<le> i \<Longrightarrow> i < 2 ^ 63 \<Longrightarrow> wrap64 i = i"
  by (simp add: wrap64_def)

lemma wrap64_range: "- (2 ^ 63) \<le> wrap64 i \<and> wrap64 i < 2 ^ 63"
proof -
  have "0 \<le> (i + 2 ^ 63) mod 2 ^ 64" "(i + 2 ^ 63) mod 2 ^ 64 < 2 ^ 64" by (rule pos_mod_sign, simp) (rule pos_mod_bound, simp)
  then show ?thesis by (simp add: wrap64_def)
qed

lemma mem_total_skip: "(\<And>l. l \<in> set ls \<Longrightarrow> \<not> has_prefix l ''MemTotal:'') \<Longrightarrow> mem_total_line (ls @ x # xs) = mem_total_line (x # xs)"
  by (induction ls) (simp_all del: has_prefix_Cons)

text \<open>The automatic limit of an embedded agent is three quarters of the memory that \<open>/proc/meminfo\<close> gives, exactly and
  without overflow; a limit the user has set is not touched, and outside the embedded mode nothing is set by itself.\<close>

theorem memory_limit_exact:
  assumes line: "has_prefix l ''MemTotal:''" "newline \<notin> set l" "go_fields l = ''MemTotal:'' # itoa (int kb) # rest"
    and before: "\<And>x. x \<in> set ls \<Longrightarrow> \<not> has_prefix x ''MemTotal:'' \<and> newline \<notin> set x"
    and kb: "0 < kb" "kb < 2 ^ 53" and calm: "tape w = []"
    and f: "file_at w ''/proc/meminfo'' = Some (join_with [newline] (ls @ l # ls'))"
    and after: "\<And>x. x \<in> set ls' \<Longrightarrow> newline \<notin> set x"
  shows "setupMemoryLimit True (2 ^ 63 - 1) [] w = (Some (768 * int kb), w) \<and>
    setupMemoryLimit False (2 ^ 63 - 1) [] w = (None, w) \<and>
    (current \<noteq> 2 ^ 63 - 1 \<longrightarrow> setupMemoryLimit True current mb w = (None, w))"
proof -
  have s: "split_on newline (join_with [newline] (ls @ l # ls')) = ls @ l # ls'"
    using before line(2) after by (intro split_join) auto
  have k: "wrap64 (int kb * 1024) = int kb * 1024" using kb by (intro wrap64_id) auto
  have a: "atoi (itoa (int kb)) = Some (int kb)" using kb by (intro atoi_itoa) auto
  have "mem_total_line (ls @ l # ls') = mem_total_line (l # ls')" using before by (intro mem_total_skip) blast
  then have "parseMemTotalBytes (join_with [newline] (ls @ l # ls')) = int kb * 1024"
    using line k a by (simp add: parseMemTotalBytes_def s del: has_prefix_Cons)
  then have "readMemTotalBytes w = (int kb * 1024, w)"
    using calm f by (simp add: readMemTotalBytes_def read_file_def next_outcome_def)
  moreover have "int kb * 1024 div 4 * 3 = 768 * int kb" by simp
  ultimately show ?thesis using kb by (simp add: setupMemoryLimit_def auto_limit_def)
qed

section \<open>Examples\<close>

definition log_dir :: "(string \<times> string) list \<Rightarrow> world" where
  "log_dir fs = \<lparr>files = fs, tape = [], running = None, api = []\<rparr>"

definition toy_logs :: "(string \<Rightarrow> nat \<Rightarrow> string + string) \<Rightarrow> log_env" where
  "toy_logs j = \<lparr>le_logPath = ''/l/a.log'', le_accessLog = ''/l/x.log'', le_embedded = True, le_journal = j\<rparr>"

lemma tailLogFile_exact_witness:
  "tailLogFile ''/l/a.log'' 2 (log_dir [(''/l/a.log'', ''one'' @ [newline] @ ''two'' @ [newline] @ ''three'' @ [newline])]) =
   (Inr (''two'' @ [newline] @ ''three''),
    log_dir [(''/l/a.log'', ''one'' @ [newline] @ ''two'' @ [newline] @ ''three'' @ [newline])])"
proof -
  let ?d = "''one'' @ [newline] @ ''two'' @ [newline] @ ''three'' @ [newline]"
  have h: "tape (log_dir [(''/l/a.log'', ?d)]) = []" "file_at (log_dir [(''/l/a.log'', ?d)]) ''/l/a.log'' = Some ?d"
    "0 < (2::nat)" "\<not> has_suffix ?d [newline, newline]" by code_simp+
  have "last_lines 2 ?d = ''two'' @ [newline] @ ''three''" by code_simp
  with tailLogFile_exact [OF h] show ?thesis by metis
qed

lemma HandleGetLogs_confined_witness:
  "HandleGetLogs (toy_logs (\<lambda>u n. Inr u)) ''GET'' True ''ssh'' ''5000'' (log_dir []) =
   HandleGetLogs (toy_logs (\<lambda>u n. if u = ''xray'' \<or> u = ''nginx'' then Inr u else Inl [])) ''GET'' True ''ssh'' ''5000'' (log_dir []) \<and>
   log_lines ''5000'' = 2000"
proof -
  have "Inr u = (if u = ''xray'' \<or> u = ''nginx'' then Inr u else Inl [])" if "u = ''xray'' \<or> u = ''nginx''"
    for u :: string and n :: nat using that by simp
  from HandleGetLogs_confined [OF this, where env = "toy_logs (\<lambda>u n. Inr u)" and meth = "''GET''" and auth = True
      and q_service = "''ssh''" and q_lines = "''5000''" and w = "log_dir []"]
  have "HandleGetLogs (toy_logs (\<lambda>u n. Inr u)) ''GET'' True ''ssh'' ''5000'' (log_dir []) =
   HandleGetLogs (toy_logs (\<lambda>u n. if u = ''xray'' \<or> u = ''nginx'' then Inr u else Inl [])) ''GET'' True ''ssh'' ''5000'' (log_dir [])"
    by (simp add: toy_logs_def)
  moreover have "log_lines ''5000'' = 2000" by code_simp
  ultimately show ?thesis by blast
qed

lemma HandleLogFiles_safe_witness:
  "file_at (snd (HandleLogFiles (\<lambda>_. Some 0) (toy_logs (\<lambda>_ _. Inl [])) ''DELETE'' True ''1'' []
     (log_dir [(''/l/a.log'', ''a''), (''/l/old.log'', ''b''), (''/etc/c'', ''c'')]))) ''/etc/c'' = Some ''c''"
proof -
  let ?w = "log_dir [(''/l/a.log'', ''a''), (''/l/old.log'', ''b''), (''/etc/c'', ''c'')]"
  have "path_dir ''/etc/c'' \<noteq> Clean (path_dir (le_logPath (toy_logs (\<lambda>_ _. Inl []))))" "file_at ?w ''/etc/c'' = Some ''c''"
    by code_simp+
  with HandleLogFiles_safe [OF surjective_pairing, where mtime = "\<lambda>_. Some 0" and env = "toy_logs (\<lambda>_ _. Inl [])"
      and meth = "''DELETE''" and auth = True and q_all = "''1''" and q_name = "[]" and w = ?w and q = "''/etc/c''"]
  show ?thesis by simp
qed

lemma rotate_tick_effect_witness:
  "file_at (rotate_tick ''/x'' (log_dir [(''/x'', replicate rotate_max CHR ''x'')])) ''/x'' = Some [] \<and>
   file_at (rotate_tick ''/x'' (log_dir [(''/x'', ''short'')])) ''/x'' = Some ''short''"
proof -
  have "file_at (log_dir [(''/x'', replicate rotate_max CHR ''x'')]) ''/x'' = Some (replicate rotate_max CHR ''x'')"
    by (simp add: log_dir_def file_at_def)
  from rotate_tick_effect [OF this]
  have "file_at (rotate_tick ''/x'' (log_dir [(''/x'', replicate rotate_max CHR ''x'')])) ''/x'' = Some []"
    by (simp add: log_dir_def)
  moreover have s: "file_at (log_dir [(''/x'', ''short'')]) ''/x'' = Some ''short''" by (simp add: log_dir_def file_at_def)
  from rotate_tick_effect [OF s]
  have "file_at (rotate_tick ''/x'' (log_dir [(''/x'', ''short'')])) ''/x'' = Some ''short''"
    using s by (simp add: rotate_max_def file_at_def)
  ultimately show ?thesis by blast
qed

lemma enforceMaxLogFiles_newest_witness:
  "let w = enforceMaxLogFiles (\<lambda>n. Some (length n)) ''/l'' ''mmw-agent'' 1
     (log_dir [(''/l/mmw-agent.log'', ''a''), (''/l/mmw-agent-1.log'', ''b'')])
   in file_at w ''/l/mmw-agent.log'' = None \<and> file_at w ''/l/mmw-agent-1.log'' = Some ''b''"
proof -
  let ?w = "log_dir [(''/l/mmw-agent.log'', ''a''), (''/l/mmw-agent-1.log'', ''b'')]"
  have "distinct (List.map fst (files ?w))" by code_simp
  note t = enforceMaxLogFiles_newest [OF this, of undefined "''/l''" "''mmw-agent''" "\<lambda>n. Some (length n)" 1]
  have "newest_first (logs_by_prefix (\<lambda>n. Some (length n)) ''/l'' ''mmw-agent'' ?w) = [(''mmw-agent-1.log'', 15), (''mmw-agent.log'', 13)]"
    "tape ?w = []" "path_join ''/l'' ''mmw-agent.log'' = ''/l/mmw-agent.log''"
    "path_join ''/l'' ''mmw-agent-1.log'' = ''/l/mmw-agent-1.log''" "file_at ?w ''/l/mmw-agent-1.log'' = Some ''b''"
    by code_simp+
  with t show ?thesis by (simp add: Let_def)
qed

lemma memory_limit_exact_witness:
  "fst (setupMemoryLimit True (2 ^ 63 - 1) []
     (log_dir [(''/proc/meminfo'', ''A: 1'' @ [newline] @ ''MemTotal:  1000 kB'' @ [newline])])) = Some 768000"
proof -
  let ?w = "log_dir [(''/proc/meminfo'', ''A: 1'' @ [newline] @ ''MemTotal:  1000 kB'' @ [newline])]"
  have h: "has_prefix ''MemTotal:  1000 kB'' ''MemTotal:''" "newline \<notin> set ''MemTotal:  1000 kB''"
    "go_fields ''MemTotal:  1000 kB'' = ''MemTotal:'' # itoa (int 1000) # [''kB'']"
    "tape ?w = []" "file_at ?w ''/proc/meminfo'' = Some (join_with [newline] ([''A: 1''] @ ''MemTotal:  1000 kB'' # [[]]))"
    by code_simp+
  have b: "\<not> has_prefix x ''MemTotal:'' \<and> newline \<notin> set x" if "x \<in> set [''A: 1'']" for x
  proof -
    have "\<not> has_prefix ''A: 1'' ''MemTotal:'' \<and> newline \<notin> set ''A: 1''" by code_simp
    with that show ?thesis by simp
  qed
  have a: "newline \<notin> set x" if "x \<in> set [[]]" for x :: string using that by simp
  have k: "0 < (1000::nat)" "(1000::nat) < 2 ^ 53" by simp_all
  from memory_limit_exact [OF h(1-3) b k h(4,5) a] show ?thesis by simp
qed

text \<open>The list shows the logs that are being written first, and of the others the newest first.\<close>

lemma collected_sorted:
  assumes "collectLogFiles mtime env w = (Inr (fs, sz), w')"
  shows "sorted_wrt (\<lambda>a b. (lf_active b \<longrightarrow> lf_active a) \<and> (lf_active a = lf_active b \<longrightarrow> lf_modified b \<le> lf_modified a)) fs"
proof -
  have "sorted_wrt (\<lambda>a b. \<not> log_before b a) fs"
    using assms log_order.sort_sorted
    by (auto simp: collectLogFiles_def Let_def split: prod.splits option.splits io_err.splits)
  then show ?thesis by (rule sorted_wrt_mono_rel [rotated]) (auto simp: log_before_def split: if_splits)
qed

end
