(* ===== verification/Return_Route.thy ===== *)
theory Return_Route
  imports Nginx_Text
begin

text \<open>
  The test of the way back to China (\<open>internal/handler/return_route_handler.go\<close>): the request, the tool and its check sum,
  the reading of what \<open>nexttrace\<close>, \<open>mtr\<close> and \<open>traceroute\<close> print, and the classification. Commands are logged with their
  arguments and their answers come from a list; the JSON decoder, SHA-256, the search path and the download are
  parameters. Texts are UTF-8 bytes; the wording of a reason is kept as a list of notes, round-trip times in nanoseconds.
\<close>

section \<open>State\<close>

record route_target =
  rt_carrier :: string
  rt_region :: string
  rt_host :: string
  rt_port :: int

record route_request =
  rtq_version :: int
  rtq_timeout :: int
  rtq_targets :: "route_target list"

record route_hop =
  rh_hop :: int
  rh_ip :: string
  rh_asn :: string
  rh_country :: string
  rh_region :: string
  rh_owner :: string
  rh_rtt :: int

datatype route_note = NoEntryHop | EntryHop string string "string list" | Ordinary163 | AfterFailure string

record route_result =
  re_target :: route_target
  re_success :: bool
  re_route :: string
  re_entry :: "route_hop option"
  re_path :: "string list"
  re_hops :: "route_hop list"
  re_notes :: "route_note list"
  re_error :: "string list"
  re_source :: string

record nt_geo =
  ng_asn :: string
  ng_country :: string
  ng_prov :: string
  ng_owner :: string
  ng_isp :: string

record nt_probe =
  np_success :: bool
  np_ip :: "string option"
  np_ttl :: int
  np_rtt :: int
  np_geo :: "nt_geo option"

datatype run_out = RunOk string | RunFailed string | RunTimeout string

record route_world =
  rw_disk :: world
  rw_runs :: "run_out list"
  rw_log :: "(string \<times> string list \<times> int) list"

record route_env =
  rv_look :: "string \<Rightarrow> string option"
  rv_os :: string
  rv_arch :: string
  rv_sha :: "string \<Rightarrow> string"
  rv_download :: "(nat \<times> string \<times> bool) option"
  rv_dec :: "string \<Rightarrow> nt_probe list list option"

definition run_cmd :: "string \<Rightarrow> string list \<Rightarrow> int \<Rightarrow> route_world \<Rightarrow> run_out \<times> route_world" where
  "run_cmd bin args t s =
     (let s1 = s\<lparr>rw_log := rw_log s @ [(bin, args, t)]\<rparr>
      in (case rw_runs s of [] \<Rightarrow> (RunFailed [], s1) | r # rs \<Rightarrow> (r, s1\<lparr>rw_runs := rs\<rparr>)))"

section \<open>Texts\<close>

definition is_alnum :: "char \<Rightarrow> bool" where
  "is_alnum c \<longleftrightarrow> is_digit c \<or> (let n = (of_char c :: nat) in 65 \<le> n \<and> n \<le> 90 \<or> 97 \<le> n \<and> n \<le> 122)"

definition is_word :: "char \<Rightarrow> bool" where
  "is_word c \<longleftrightarrow> is_alnum c \<or> c = CHR ''_''"

definition to_upper :: "string \<Rightarrow> string" where
  "to_upper s = List.map (\<lambda>c. let n = (of_char c :: nat) in if 97 \<le> n \<and> n \<le> 122 then char_of (n - 32) else c) s"

text \<open>\<open>routeTargetPattern\<close>.\<close>

definition route_target_ok :: "string \<Rightarrow> bool" where
  "route_target_ok s \<longleftrightarrow>
     s \<noteq> [] \<and> length s \<le> 253 \<and> is_alnum (hd s) \<and> list_all (\<lambda>c. is_alnum c \<or> c = CHR ''.'' \<or> c = CHR ''-'') (tl s)"

text \<open>\<open>ansiEscapePattern\<close>: a control sequence, or an operating-system command up to the first bell, or without a bell up to
  the last string terminator. The text behind a match, if there is one at the escape.\<close>

fun csi_end :: "string \<Rightarrow> string option" where
  "csi_end s =
     (let r = dropWhile (\<lambda>c. let n = (of_char c :: nat) in 32 \<le> n \<and> n \<le> 47)
                (dropWhile (\<lambda>c. let n = (of_char c :: nat) in 48 \<le> n \<and> n \<le> 63) s)
      in (case r of [] \<Rightarrow> None
          | c # t \<Rightarrow> (let n = (of_char c :: nat) in if 64 \<le> n \<and> n \<le> 126 then Some t else None)))"

fun last_terminator :: "string \<Rightarrow> string option" where
  "last_terminator (a # b # s) =
     (case last_terminator (b # s) of
        Some t \<Rightarrow> Some t
      | None \<Rightarrow> if a = CHR 0x1B \<and> b = CHR 0x5C then Some s else None)"
| "last_terminator _ = None"

definition osc_end :: "string \<Rightarrow> string option" where
  "osc_end s =
     (if CHR 0x07 \<in> set s then Some (drop 1 (dropWhile (\<lambda>c. c \<noteq> CHR 0x07) s)) else last_terminator s)"

definition escape_end :: "string \<Rightarrow> string option" where
  "escape_end s = (case s of [] \<Rightarrow> None | c # t \<Rightarrow> if c = CHR ''['' then csi_end t else if c = CHR '']'' then osc_end t else None)"

lemma last_terminator_shorter: "last_terminator s = Some t \<Longrightarrow> length t < length s"
  by (induction s arbitrary: t rule: last_terminator.induct) (auto split: option.splits if_splits)

lemma escape_shorter: "escape_end s = Some t \<Longrightarrow> length t < length s"
proof -
  assume e: "escape_end s = Some t"
  then obtain c r where s: "s = c # r" by (auto simp: escape_end_def split: list.splits)
  have d: "length (dropWhile P (x :: string)) \<le> length x" for P x by (rule length_dropWhile_le)
  show ?thesis
  proof (cases "c = CHR ''[''")
    case True
    let ?u = "dropWhile (\<lambda>c. let n = (of_char c :: nat) in 32 \<le> n \<and> n \<le> 47)
                (dropWhile (\<lambda>c. let n = (of_char c :: nat) in 48 \<le> n \<and> n \<le> 63) r)"
    from e s True obtain x where "?u = x # t" by (auto simp: escape_end_def Let_def split: list.splits if_splits)
    moreover have "length ?u \<le> length r" using d le_trans by blast
    ultimately show ?thesis using s by simp
  next
    case False
    with e s have "osc_end r = Some t" by (auto simp: escape_end_def split: if_splits)
    then show ?thesis using s d [of "\<lambda>c. c \<noteq> CHR 0x07" r] last_terminator_shorter [of r t]
      by (auto simp: osc_end_def split: if_splits)
  qed
qed

function strip_ansi :: "string \<Rightarrow> string" where
  "strip_ansi [] = []"
| "strip_ansi (c # s) =
     (if c = CHR 0x1B then (case escape_end s of Some t \<Rightarrow> strip_ansi t | None \<Rightarrow> c # strip_ansi s)
      else c # strip_ansi s)"
  by pat_completeness auto
termination by (relation "measure length") (auto dest: escape_shorter)

declare strip_ansi.simps(2) [simp del]

text \<open>\<open>traceIPPattern\<close>: one to three digits, four times, between blanks or brackets.\<close>

definition octet :: "string \<Rightarrow> (string \<times> string) option" where
  "octet s =
     (let d = takeWhile is_digit s
      in if 1 \<le> length d \<and> length d \<le> 3 then Some (d, drop (length d) s) else None)"

fun octets :: "nat \<Rightarrow> string \<Rightarrow> (string \<times> string) option" where
  "octets 0 s = octet s"
| "octets (Suc n) s =
     (case octet s of
        Some (d, c # r) \<Rightarrow>
          if c = CHR ''.'' then (case octets n r of Some (q, t) \<Rightarrow> Some (d @ CHR ''.'' # q, t) | None \<Rightarrow> None) else None
      | _ \<Rightarrow> None)"

definition quad_here :: "string \<Rightarrow> string option" where
  "quad_here s =
     (case octets 3 s of
        Some (q, t) \<Rightarrow> if t = [] \<or> hd t = CHR '' '' \<or> hd t = CHR '')'' then Some q else None
      | None \<Rightarrow> None)"

fun quad_after :: "string \<Rightarrow> string option" where
  "quad_after [] = None"
| "quad_after (c # s) =
     (case (if c = CHR '' '' \<or> c = CHR ''('' then quad_here s else None) of
        Some q \<Rightarrow> Some q
      | None \<Rightarrow> quad_after s)"

definition trace_ip :: "string \<Rightarrow> string option" where
  "trace_ip line = (case quad_here line of Some q \<Rightarrow> Some q | None \<Rightarrow> quad_after line)"

text \<open>\<open>traceASNPattern\<close>: \<open>AS\<close> in either case at the beginning of a word, then two to ten digits to the end of the word.\<close>

definition asn_here :: "string \<Rightarrow> string option" where
  "asn_here s =
     (if to_upper (take 2 s) = ''AS'' then
        (let d = takeWhile is_digit (drop 2 s); t = drop (2 + length d) s
         in if 2 \<le> length d \<and> length d \<le> 10 \<and> (t = [] \<or> \<not> is_word (hd t)) then Some d else None)
      else None)"

fun asn_from :: "bool \<Rightarrow> string \<Rightarrow> string option" where
  "asn_from inword [] = None"
| "asn_from inword (c # s) =
     (case (if inword then None else asn_here (c # s)) of
        Some d \<Rightarrow> Some d
      | None \<Rightarrow> asn_from (is_word c) s)"

definition trace_asn :: "string \<Rightarrow> string option" where
  "trace_asn line = asn_from False line"

section \<open>Hops\<close>

definition normalizeASN :: "string \<Rightarrow> string" where
  "normalizeASN v = trim_prefix (to_upper (trim_space v)) ''AS''"

definition cn_china :: string where "cn_china = [CHR 0xE4, CHR 0xB8, CHR 0xAD, CHR 0xE5, CHR 0x9B, CHR 0xBD]"
definition cn_hongkong :: string where "cn_hongkong = [CHR 0xE9, CHR 0xA6, CHR 0x99, CHR 0xE6, CHR 0xB8, CHR 0xAF]"
definition cn_macau :: string where "cn_macau = [CHR 0xE6, CHR 0xBE, CHR 0xB3, CHR 0xE9, CHR 0x97, CHR 0xA8]"
definition cn_taiwan :: string where "cn_taiwan = [CHR 0xE5, CHR 0x8F, CHR 0xB0, CHR 0xE6, CHR 0xB9, CHR 0xBE]"

definition isMainlandChina :: "string \<Rightarrow> bool" where
  "isMainlandChina country =
     (let v = to_lower (trim_space country)
      in (str_contains v cn_china \<or> v = ''china'') \<and> \<not> str_contains v cn_hongkong \<and> \<not> str_contains v cn_macau \<and>
         \<not> str_contains v cn_taiwan)"

definition mainland_asns :: "string list" where
  "mainland_asns =
     [''23764'', ''4809'', ''4134'', ''4837'', ''9929'', ''10099'', ''58453'', ''9808'', ''58807'', ''4538'', ''7497'']"

definition isMainlandEntryHop :: "route_hop \<Rightarrow> bool" where
  "isMainlandEntryHop hop =
     (if isMainlandChina (rh_country hop) \<or> has_prefix (rh_ip hop) ''59.43.'' then True
      else normalizeASN (rh_asn hop) \<in> set mainland_asns)"

definition classifyReturnRoute :: "route_hop option \<Rightarrow> string list \<Rightarrow> string \<times> route_note list" where
  "classifyReturnRoute entry path =
     (case entry of
        None \<Rightarrow> (''Unknown'', [NoEntryHop])
      | Some e \<Rightarrow>
          (let has = (\<lambda>asn. asn \<in> set path);
               route =
                 (if has ''23764'' then ''CTG GIA'' else if has ''4809'' then ''CN2 GIA'' else if has ''58807'' then ''CMIN2''
                  else if has ''9929'' then ''9929'' else if has ''10099'' then ''10099'' else if has ''4134'' then ''163''
                  else if has ''4837'' then ''4837'' else if has ''58453'' \<or> has ''9808'' then ''CMI''
                  else if rh_asn e = ''4538'' then ''CERNET'' else if rh_asn e = ''7497'' then ''CSTNET'' else ''Unknown'')
           in (route, [EntryHop (rh_ip e) (rh_asn e) path])))"

definition new_result :: "route_target \<Rightarrow> string \<Rightarrow> route_result" where
  "new_result target source =
     \<lparr>re_target = target, re_success = False, re_route = [], re_entry = None, re_path = [], re_hops = [], re_notes = [],
      re_error = [], re_source = source\<rparr>"

definition add_hop :: "route_hop \<Rightarrow> route_result \<Rightarrow> route_result" where
  "add_hop hop r =
     r\<lparr>re_hops := re_hops r @ [hop],
       re_path := (if rh_asn hop \<noteq> [] \<and> rh_asn hop \<notin> set (re_path r) then re_path r @ [rh_asn hop] else re_path r),
       re_entry := (if re_entry r = None \<and> isMainlandEntryHop hop then Some hop else re_entry r)\<rparr>"

definition classified :: "route_target \<Rightarrow> route_result \<Rightarrow> route_result" where
  "classified target r =
     (case classifyReturnRoute (re_entry r) (re_path r) of
        (route, notes) \<Rightarrow>
          if route = ''Unknown'' \<and> rt_carrier target = ''telecom'' \<and> re_entry r \<noteq> None
          then r\<lparr>re_route := ''163'', re_notes := notes @ [Ordinary163]\<rparr>
          else r\<lparr>re_route := route, re_notes := notes\<rparr>)"

section \<open>What the tools print\<close>

definition tool_hop :: "nat \<Rightarrow> string \<Rightarrow> route_hop option" where
  "tool_hop index line =
     (case trace_ip line of
        None \<Rightarrow> None
      | Some ip \<Rightarrow>
          (let asn = (case trace_asn line of Some d \<Rightarrow> normalizeASN d | None \<Rightarrow> [])
           in Some \<lparr>rh_hop = int index + 1, rh_ip = ip, rh_asn = (if has_prefix ip ''59.43.'' then ''4809'' else asn),
                    rh_country = [], rh_region = [], rh_owner = [], rh_rtt = 0\<rparr>))"

definition tool_hops :: "string \<Rightarrow> route_hop list" where
  "tool_hops out =
     List.map_filter (\<lambda>(i, l). tool_hop i l) (List.enumerate 0 (split_on (CHR 0x0A) (strip_ansi out)))"

definition parseRouteToolOutput :: "route_target \<Rightarrow> string \<Rightarrow> string \<Rightarrow> route_result" where
  "parseRouteToolOutput target source out =
     (let r = classified target (fold add_hop (tool_hops out) (new_result target source))
      in r\<lparr>re_success := (re_entry r \<noteq> None)\<rparr>)"

definition probe_hop :: "nt_probe \<Rightarrow> route_hop" where
  "probe_hop p =
     (let ip = the (np_ip p);
          hop0 = \<lparr>rh_hop = np_ttl p, rh_ip = ip, rh_asn = [], rh_country = [], rh_region = [], rh_owner = [], rh_rtt = np_rtt p\<rparr>;
          hop1 = (case np_geo p of
                    None \<Rightarrow> hop0
                  | Some g \<Rightarrow> hop0\<lparr>rh_asn := normalizeASN (ng_asn g), rh_country := ng_country g, rh_region := ng_prov g,
                               rh_owner := trim_space (trim_space (ng_owner g) @ '' '' @ trim_space (ng_isp g))\<rparr>);
          hop2 = (if has_prefix ip ''59.43.'' then hop1\<lparr>rh_asn := ''4809''\<rparr> else hop1)
      in if str_contains (to_lower (rh_owner hop2)) ''ctgnet'' then hop2\<lparr>rh_asn := ''23764''\<rparr> else hop2)"

definition nexttrace_hops :: "nt_probe list list \<Rightarrow> route_hop list" where
  "nexttrace_hops raw =
     List.map_filter (\<lambda>probes. map_option probe_hop (find (\<lambda>p. np_success p \<and> np_ip p \<noteq> None) probes)) raw"

definition unmarshalNextTraceJSON :: "route_env \<Rightarrow> string \<Rightarrow> nt_probe list list option" where
  "unmarshalNextTraceJSON env out =
     (let clean = strip_ansi out; from = dropWhile (\<lambda>c. c \<noteq> CHR 0x7B) clean;
          before_end = rev (dropWhile (\<lambda>c. c \<noteq> CHR 0x7D) (rev from))
      in if from = [] \<or> before_end = [] then None else rv_dec env before_end)"

section \<open>Running them\<close>

definition ip_flag :: "int \<Rightarrow> string" where
  "ip_flag ipVersion = (if ipVersion = 6 then ''-6'' else ''-4'')"

definition fallback_commands :: "route_target \<Rightarrow> int \<Rightarrow> (string \<times> string list) list" where
  "fallback_commands target ipVersion =
     [(''mtr'', [ip_flag ipVersion, ''-T'', ''-P'', itoa (rt_port target), ''-r'', ''-c'', ''5'', ''-n'', ''-z'', rt_host target]),
      (''traceroute'', [ip_flag ipVersion, ''-T'', ''-p'', itoa (rt_port target), ''-n'', ''-q'', ''2'', ''-w'', ''2'', rt_host target])]"

fun try_tools ::
  "route_env \<Rightarrow> route_target \<Rightarrow> int \<Rightarrow> (string \<times> string list) list \<Rightarrow> string list \<Rightarrow> route_world \<Rightarrow> route_result \<times> route_world" where
  "try_tools env target t [] errs s = ((new_result target ''nexttrace'')\<lparr>re_error := errs\<rparr>, s)"
| "try_tools env target t ((name, args) # cs) errs s =
     (case rv_look env name of
        None \<Rightarrow> try_tools env target t cs (errs @ [name @ '' not installed'']) s
      | Some path \<Rightarrow>
          (case run_cmd path args t s of
             (r, s1) \<Rightarrow>
               (case (case r of RunOk out \<Rightarrow> Some out | RunFailed out \<Rightarrow> if out = [] then None else Some out
                      | RunTimeout out \<Rightarrow> if out = [] then None else Some out) of
                  None \<Rightarrow> try_tools env target t cs (errs @ [name @ '': failed'']) s1
                | Some out \<Rightarrow>
                    (let result = parseRouteToolOutput target name out
                     in if re_success result then (result\<lparr>re_notes := re_notes result @ [AfterFailure name]\<rparr>, s1)
                        else try_tools env target t cs (errs @ [name @ '': no mainland China hop found'']) s1))))"

definition traceReturnRouteFallback ::
  "route_env \<Rightarrow> route_target \<Rightarrow> int \<Rightarrow> int \<Rightarrow> string \<Rightarrow> route_world \<Rightarrow> route_result \<times> route_world" where
  "traceReturnRouteFallback env target ipVersion t primaryErr s =
     try_tools env target t (fallback_commands target ipVersion) [primaryErr] s"

definition traceReturnRoute ::
  "route_env \<Rightarrow> string \<Rightarrow> route_target \<Rightarrow> int \<Rightarrow> int \<Rightarrow> route_world \<Rightarrow> route_result \<times> route_world" where
  "traceReturnRoute env bin target ipVersion t s =
     (case run_cmd bin
             [ip_flag ipVersion, ''-T'', ''-p'', itoa (rt_port target), ''-q'', ''2'', ''--max-attempts'', ''2'', ''--timeout'',
              ''1500'', ''--no-rdns'', ''-j'', rt_host target] t s of
        (RunTimeout _, s1) \<Rightarrow> traceReturnRouteFallback env target ipVersion t ''route trace timed out'' s1
      | (RunFailed _, s1) \<Rightarrow> traceReturnRouteFallback env target ipVersion t ''nexttrace failed'' s1
      | (RunOk out, s1) \<Rightarrow>
          (case unmarshalNextTraceJSON env out of
             None \<Rightarrow> traceReturnRouteFallback env target ipVersion t ''invalid nexttrace response'' s1
           | Some raw \<Rightarrow>
               (let r = classified target (fold add_hop (nexttrace_hops raw) (new_result target ''nexttrace''))
                in if re_hops r \<noteq> [] \<and> re_entry r \<noteq> None then (r\<lparr>re_success := True\<rparr>, s1)
                   else traceReturnRouteFallback env target ipVersion t ''no mainland China hop found'' s1)))"

section \<open>The tool\<close>

definition nextTraceSHA256 :: "string \<Rightarrow> string option" where
  "nextTraceSHA256 =
     [''386'' \<mapsto> ''ae188b8f4fb3f5fec70ddf4cf5adc4391d9536698ed29c0d4f25b3b4dd29ca34'',
      ''amd64'' \<mapsto> ''093849f1012b065c29d307b8e47fedec667206829c14e105f83a852f60c628d1'',
      ''arm64'' \<mapsto> ''8b134f6c6a7864b1ecc98b1f7cfae1d058ef6dcf8f0da862e3260752ce1858bd'',
      ''arm'' \<mapsto> ''71014f2707372cee22ab80f546aa6cff79d869faab0fb516005e8bb0e2d2f000'']"

definition fileSHA256 :: "route_env \<Rightarrow> string \<Rightarrow> world \<Rightarrow> string \<times> world" where
  "fileSHA256 env path w = (case read_file path w of (Inl _, w1) \<Rightarrow> ([], w1) | (Inr d, w1) \<Rightarrow> (rv_sha env d, w1))"

definition nexttrace_path :: string where
  "nexttrace_path = ''/tmp/mmwx-tools/v1.7.1/nexttrace''"

text \<open>Open, copy what was received (with whether it was received to the end), close, check.\<close>

definition store_download :: "route_env \<Rightarrow> string \<Rightarrow> string \<Rightarrow> bool \<Rightarrow> world \<Rightarrow> bool \<times> world" where
  "store_download env sha data complete w =
     (let tmp = nexttrace_path @ ''.tmp''
      in (case write_file tmp [] w of
            (Some _, w1) \<Rightarrow> (False, w1)
          | (None, w1) \<Rightarrow>
              (case write_file tmp (take (50 * 2 ^ 20) data) w1 of
                 (e2, w2) \<Rightarrow>
                   (case sys_call w2 of
                      (e3, w3) \<Rightarrow>
                        (case (if e2 \<noteq> None \<or> \<not> complete \<or> e3 \<noteq> None then ([], w3) else fileSHA256 env tmp w3) of
                           (h, w4) \<Rightarrow>
                             if h \<noteq> sha then (False, snd (remove_file tmp w4))
                             else
                               (case rename_file tmp nexttrace_path w4 of
                                  (Some _, w5) \<Rightarrow> (False, w5)
                                | (None, w5) \<Rightarrow> (True, w5)))))))"

definition ensureNextTrace :: "route_env \<Rightarrow> world \<Rightarrow> string option \<times> world" where
  "ensureNextTrace env w =
     (case rv_look env ''nexttrace'' of
        Some p \<Rightarrow> (Some p, w)
      | None \<Rightarrow>
          if rv_os env \<noteq> ''linux'' then (None, w)
          else
            (case nextTraceSHA256 (rv_arch env) of
               None \<Rightarrow> (None, w)
             | Some sha \<Rightarrow>
                 (case fileSHA256 env nexttrace_path w of
                    (h, w1) \<Rightarrow>
                      if h = sha then (Some nexttrace_path, w1)
                      else
                        (case sys_call w1 of
                           (Some _, w2) \<Rightarrow> (None, w2)
                         | (None, w2) \<Rightarrow>
                             (case rv_download env of
                                None \<Rightarrow> (None, w2)
                              | Some (code, data, complete) \<Rightarrow>
                                  if code \<noteq> 200 then (None, w2)
                                  else
                                    (case store_download env sha data complete w2 of
                                       (ok, w3) \<Rightarrow> (if ok then Some nexttrace_path else None, w3)))))))"

section \<open>The request\<close>

definition clean_target :: "route_target \<Rightarrow> route_target" where
  "clean_target t = t\<lparr>rt_carrier := to_lower (trim_space (rt_carrier t)), rt_host := trim_space (rt_host t)\<rparr>"

definition target_valid :: "route_target \<Rightarrow> bool" where
  "target_valid t \<longleftrightarrow>
     (rt_carrier t = ''telecom'' \<or> rt_carrier t = ''unicom'' \<or> rt_carrier t = ''mobile'') \<and> route_target_ok (rt_host t)"

definition with_port :: "route_target \<Rightarrow> route_target" where
  "with_port t = (if rt_port t \<le> 0 \<or> 65535 < rt_port t then t\<lparr>rt_port := 80\<rparr> else t)"

definition route_timeout :: "int \<Rightarrow> int" where
  "route_timeout t = (let t1 = (if t < 10 then 25 else t) in if 45 < t1 then 45 else t1)"

fun trace_targets ::
  "route_env \<Rightarrow> string \<Rightarrow> int \<Rightarrow> int \<Rightarrow> route_target list \<Rightarrow> route_world \<Rightarrow> route_result list \<times> route_world" where
  "trace_targets env bin v t [] s = ([], s)"
| "trace_targets env bin v t (x # xs) s =
     (case traceReturnRoute env bin x v t s of
        (r, s1) \<Rightarrow> (case trace_targets env bin v t xs s1 of (rs, s2) \<Rightarrow> (r # rs, s2)))"

definition HandleReturnRouteTest ::
  "route_env \<Rightarrow> string \<Rightarrow> bool \<Rightarrow> route_request option \<Rightarrow> route_world \<Rightarrow> (nat + route_result list) \<times> route_world" where
  "HandleReturnRouteTest env meth auth data s =
     (if meth \<noteq> ''POST'' then (Inl 405, s)
      else if \<not> auth then (Inl 401, s)
      else
        (case data of
           None \<Rightarrow> (Inl 400, s)
         | Some req \<Rightarrow>
             if rtq_targets req = [] \<or> 3 < length (rtq_targets req) then (Inl 400, s)
             else
               (let v = (if rtq_version req \<noteq> 6 then 4 else 6); t = route_timeout (rtq_timeout req);
                    targets = List.map clean_target (rtq_targets req)
                in if \<not> list_all target_valid targets then (Inl 400, s)
                   else
                     (case ensureNextTrace env (rw_disk s) of
                        (None, w1) \<Rightarrow> (Inl 503, s\<lparr>rw_disk := w1\<rparr>)
                      | (Some bin, w1) \<Rightarrow>
                          (case trace_targets env bin v t (List.map with_port targets) (s\<lparr>rw_disk := w1\<rparr>) of
                             (rs, s2) \<Rightarrow> (Inr rs, s2))))))"

section \<open>What an answer says\<close>

lemma fold_hops:
  "re_hops (fold add_hop hs r) = re_hops r @ hs"
  "re_path (fold add_hop hs r) =
     re_path r @ dedup_by (\<lambda>a. a) (set (re_path r)) (filter (\<lambda>a. a \<noteq> []) (List.map rh_asn hs))"
  "re_entry (fold add_hop hs r) = (case re_entry r of Some e \<Rightarrow> Some e | None \<Rightarrow> find isMainlandEntryHop hs)"
  by (induction hs arbitrary: r) (auto simp: add_hop_def split: option.splits)

lemma fold_frame:
  "re_target (fold add_hop hs r) = re_target r" "re_success (fold add_hop hs r) = re_success r"
  by (induction hs arbitrary: r) (simp_all add: add_hop_def)

lemma classified_frame:
  "re_hops (classified t r) = re_hops r" "re_path (classified t r) = re_path r" "re_entry (classified t r) = re_entry r"
  "re_target (classified t r) = re_target r" "re_success (classified t r) = re_success r"
  by (simp_all add: classified_def case_prod_beta)

lemma classified_telecom:
  "rt_carrier t = ''telecom'' \<Longrightarrow> re_entry r \<noteq> None \<Longrightarrow> re_route (classified t r) \<noteq> ''Unknown''"
  by (simp add: classified_def case_prod_beta)

definition route_sound :: "route_target \<Rightarrow> route_result \<Rightarrow> bool" where
  "route_sound target r \<longleftrightarrow>
     re_target r = target \<and> re_hops r \<noteq> [] \<and>
     re_path r = dedup_by (\<lambda>a. a) {} (filter (\<lambda>a. a \<noteq> []) (List.map rh_asn (re_hops r))) \<and>
     re_entry r = find isMainlandEntryHop (re_hops r) \<and> re_entry r \<noteq> None \<and>
     (\<forall>h \<in> set (re_hops r). has_prefix (rh_ip h) ''59.43.'' \<longrightarrow> rh_asn h = ''4809'' \<or> rh_asn h = ''23764'') \<and>
     (rt_carrier target = ''telecom'' \<longrightarrow> re_route r \<noteq> ''Unknown'')"

lemma tool_hop_cn2: "h \<in> set (tool_hops out) \<Longrightarrow> has_prefix (rh_ip h) ''59.43.'' \<Longrightarrow> rh_asn h = ''4809''"
  by (auto simp: tool_hops_def List.map_filter_def tool_hop_def simp del: has_prefix_Cons split: option.splits)

lemma probe_hop_ip: "rh_ip (probe_hop p) = the (np_ip p)"
  by (simp add: probe_hop_def Let_def split: option.splits)

lemma probe_hop_cn2: "has_prefix (rh_ip (probe_hop p)) ''59.43.'' \<Longrightarrow>
    rh_asn (probe_hop p) = ''4809'' \<or> rh_asn (probe_hop p) = ''23764''"
  unfolding probe_hop_ip by (simp add: probe_hop_def Let_def del: has_prefix_Cons)

lemma classified_sound:
  assumes "\<And>h. h \<in> set hs \<Longrightarrow> has_prefix (rh_ip h) ''59.43.'' \<Longrightarrow> rh_asn h = ''4809'' \<or> rh_asn h = ''23764''"
    and "re_entry (classified target (fold add_hop hs (new_result target src))) \<noteq> None"
  shows "route_sound target (classified target (fold add_hop hs (new_result target src)))"
proof -
  let ?r = "fold add_hop hs (new_result target src)"
  have e: "re_entry ?r = find isMainlandEntryHop hs" by (simp add: fold_hops new_result_def)
  with assms(2) have ne: "find isMainlandEntryHop hs \<noteq> None" by (simp add: classified_frame)
  then have "hs \<noteq> []" by auto
  moreover have "rt_carrier target = ''telecom'' \<longrightarrow> re_route (classified target ?r) \<noteq> ''Unknown''"
    using classified_telecom ne e by metis
  ultimately show ?thesis using assms(1) ne e
    unfolding route_sound_def classified_frame fold_hops fold_frame by (simp add: new_result_def del: has_prefix_Cons)
qed

lemma route_sound_updates [simp]:
  "route_sound t (r\<lparr>re_success := b\<rparr>) = route_sound t r" "route_sound t (r\<lparr>re_notes := n\<rparr>) = route_sound t r"
  by (simp_all add: route_sound_def)

lemma tool_sound: "re_success (parseRouteToolOutput target src out) \<Longrightarrow> route_sound target (parseRouteToolOutput target src out)"
  unfolding parseRouteToolOutput_def Let_def route_sound_updates
  by (rule classified_sound) (use tool_hop_cn2 in \<open>auto simp del: has_prefix_Cons\<close>)

definition route_answer :: "route_target \<Rightarrow> route_result \<Rightarrow> bool" where
  "route_answer target r \<longleftrightarrow>
     (if re_success r then route_sound target r
      else re_target r = target \<and> re_hops r = [] \<and> re_entry r = None \<and> re_route r = [] \<and> re_error r \<noteq> [])"

lemma try_tools_answer: "errs \<noteq> [] \<Longrightarrow> route_answer target (fst (try_tools env target t cs errs s))"
proof (induction cs arbitrary: errs s)
  case Nil
  then show ?case by (simp add: route_answer_def new_result_def)
next
  case (Cons c cs)
  obtain name args where c: "c = (name, args)" by fastforce
  show ?case
  proof (cases "rv_look env name")
    case None
    with c Cons show ?thesis by simp
  next
    case (Some path)
    obtain r s1 where 1: "run_cmd path args t s = (r, s1)" by fastforce
    define o' where "o' = (case r of RunOk out \<Rightarrow> Some out | RunFailed out \<Rightarrow> if out = [] then None else Some out
                      | RunTimeout out \<Rightarrow> if out = [] then None else Some out)"
    show ?thesis
    proof (cases o')
      case None
      with c Some 1 Cons show ?thesis by (simp add: o'_def [symmetric])
    next
      case o: (Some out)
      show ?thesis
      proof (cases "re_success (parseRouteToolOutput target name out)")
        case True
        with tool_sound [OF True] c Some 1 o show ?thesis by (simp add: o'_def [symmetric] Let_def route_answer_def)
      next
        case False
        with c Some 1 o Cons show ?thesis by (simp add: o'_def [symmetric] Let_def)
      qed
    qed
  qed
qed

lemma trace_answer: "route_answer target (fst (traceReturnRoute env bin target v t s))"
proof -
  have f: "route_answer target (fst (traceReturnRouteFallback env target v t e s1))" for e s1
    unfolding traceReturnRouteFallback_def by (rule try_tools_answer) simp
  have n: "route_answer target ((classified target (fold add_hop (nexttrace_hops raw) (new_result target ''nexttrace'')))\<lparr>re_success := True\<rparr>)"
    if "re_entry (classified target (fold add_hop (nexttrace_hops raw) (new_result target ''nexttrace''))) \<noteq> None" for raw
  proof -
    have "rh_asn h = ''4809'' \<or> rh_asn h = ''23764''"
      if "h \<in> set (nexttrace_hops raw)" "has_prefix (rh_ip h) ''59.43.''" for h
    proof -
      have "\<exists>p. h = probe_hop p" using that(1) by (auto simp: nexttrace_hops_def List.map_filter_def)
      then obtain p where "h = probe_hop p" ..
      with that(2) show ?thesis using probe_hop_cn2 by blast
    qed
    from classified_sound [OF this that] show ?thesis by (simp add: route_answer_def)
  qed
  show ?thesis
    using f n by (auto simp: traceReturnRoute_def Let_def split: prod.splits run_out.splits option.splits)
qed

text \<open>A successful trace, by whatever tool, names as its path exactly the systems of its hops in the order they are
  first met, and as its entry the first hop on the mainland; hops of China Telecom's premium network carry its number,
  and a telecom target always gets a class. A trace without an entry is a failure with a reason and no hops.\<close>

theorem return_route_answer:
  assumes "HandleReturnRouteTest env meth auth (Some req) s = (Inr rs, s')"
  shows "list_all2 (\<lambda>t r. route_answer (with_port (clean_target t)) r) (rtq_targets req) rs"
proof -
  have "list_all2 route_answer xs rs1" if "trace_targets env bin v t xs s1 = (rs1, s2)" for bin v t xs s1 rs1 s2
    using that
  proof (induction xs arbitrary: s1 rs1 s2)
    case (Cons x xs)
    obtain r s3 where 1: "traceReturnRoute env bin x v t s1 = (r, s3)" by fastforce
    then have "route_answer x r" using trace_answer [of x env bin v t s1] by simp
    with Cons.IH [of s3] Cons.prems 1 show ?case by (auto split: prod.splits)
  qed simp
  then have "list_all2 route_answer (List.map with_port (List.map clean_target (rtq_targets req))) rs"
    using assms
    unfolding HandleReturnRouteTest_def by (auto simp: Let_def split: if_splits prod.splits option.splits)
  then show ?thesis by (simp add: list.rel_map comp_def)
qed

section \<open>What is run\<close>

definition command_safe :: "route_env \<Rightarrow> string \<Rightarrow> string \<times> string list \<times> int \<Rightarrow> bool" where
  "command_safe env bin c \<longleftrightarrow>
     (case c of (b, args, t) \<Rightarrow>
        (b = bin \<or> rv_look env ''mtr'' = Some b \<or> rv_look env ''traceroute'' = Some b) \<and>
        args \<noteq> [] \<and> (hd args = ''-4'' \<or> hd args = ''-6'') \<and> route_target_ok (last args) \<and> hd (last args) \<noteq> CHR ''-'' \<and>
        (\<exists>port. 1 \<le> port \<and> port \<le> 65535 \<and> args ! 3 = itoa port) \<and> 10 \<le> t \<and> t \<le> 45)"

definition ran :: "nat \<Rightarrow> (string \<times> string list \<times> int \<Rightarrow> bool) \<Rightarrow> route_world \<Rightarrow> route_world \<Rightarrow> bool" where
  "ran n P s s' \<longleftrightarrow> (\<exists>cs. rw_log s' = rw_log s @ cs \<and> length cs \<le> n \<and> list_all P cs)"

lemma ran_none: "rw_log s' = rw_log s \<Longrightarrow> ran n P s s'"
  by (simp add: ran_def)

lemma ran_one: "run_cmd b a t s = (r, s') \<Longrightarrow> P (b, a, t) \<Longrightarrow> ran 1 P s s'"
  by (auto simp: ran_def run_cmd_def Let_def split: list.splits)

lemma ran_trans:
  assumes "ran n P s s1" and "ran m P s1 s2" shows "ran (n + m) P s s2"
proof -
  obtain cs ds where "rw_log s1 = rw_log s @ cs" "length cs \<le> n" "list_all P cs"
    "rw_log s2 = rw_log s1 @ ds" "length ds \<le> m" "list_all P ds" using assms by (auto simp: ran_def)
  then show ?thesis unfolding ran_def by (intro exI [of _ "cs @ ds"]) simp
qed

lemma ran_mono: "ran n P s s' \<Longrightarrow> n \<le> m \<Longrightarrow> ran m P s s'"
  by (auto simp: ran_def)

lemma try_tools_ran:
  "(\<And>name args path. (name, args) \<in> set cs \<Longrightarrow> rv_look env name = Some path \<Longrightarrow> P (path, args, t)) \<Longrightarrow>
   ran (length cs) P s (snd (try_tools env target t cs errs s))"
proof (induction cs arbitrary: errs s)
  case Nil
  then show ?case by (simp add: ran_none)
next
  case (Cons c cs)
  obtain name args where c: "c = (name, args)" by fastforce
  have IH: "ran (length cs) P s1 (snd (try_tools env target t cs errs s1))" for errs s1
    by (rule Cons.IH) (rule Cons.prems, auto)
  show ?case
  proof (cases "rv_look env name")
    case None
    with c ran_mono [OF IH] show ?thesis by simp
  next
    case (Some path)
    obtain r s1 where 1: "run_cmd path args t s = (r, s1)" by fastforce
    from Cons.prems Some c have one: "ran 1 P s s1" by (intro ran_one [OF 1]) auto
    have "ran (1 + length cs) P s (snd (try_tools env target t cs errs s1))" for errs
      by (rule ran_trans [OF one IH])
    moreover have "ran (1 + length cs) P s s1" by (rule ran_mono [OF one]) simp
    ultimately show ?thesis using c Some 1
      by (auto simp: Let_def split: run_out.splits option.splits)
  qed
qed

lemma alnum_not_dash: "is_alnum c \<Longrightarrow> c \<noteq> CHR ''-''"
  by (auto simp: is_alnum_def is_digit_def)

lemma trace_ran:
  assumes h: "route_target_ok (rt_host x)" and p: "1 \<le> rt_port x" "rt_port x \<le> 65535" and t: "10 \<le> t" "t \<le> 45"
  shows "ran 3 (command_safe env bin) s (snd (traceReturnRoute env bin x v t s))"
proof -
  have d: "hd (rt_host x) \<noteq> CHR ''-''" using h alnum_not_dash by (auto simp: route_target_ok_def)
  have safe: "command_safe env bin (b, [ip_flag v, a1, a2, itoa (rt_port x)] @ more @ [rt_host x], t)"
    if "b = bin \<or> rv_look env ''mtr'' = Some b \<or> rv_look env ''traceroute'' = Some b" for b a1 a2 more
    using that h d p t by (auto simp: command_safe_def ip_flag_def)
  have f: "ran 2 (command_safe env bin) s1 (snd (traceReturnRouteFallback env x v t e s1))" for e s1
  proof -
    have "ran (length (fallback_commands x v)) (command_safe env bin) s1
        (snd (try_tools env x t (fallback_commands x v) [e] s1))"
    proof (rule try_tools_ran)
      fix name args path
      assume "(name, args) \<in> set (fallback_commands x v)" and l: "rv_look env name = Some path"
      then consider "name = ''mtr''" "args = [ip_flag v, ''-T'', ''-P'', itoa (rt_port x)] @ [''-r'', ''-c'', ''5'', ''-n'', ''-z''] @ [rt_host x]"
        | "name = ''traceroute''" "args = [ip_flag v, ''-T'', ''-p'', itoa (rt_port x)] @ [''-n'', ''-q'', ''2'', ''-w'', ''2''] @ [rt_host x]"
        by (auto simp: fallback_commands_def)
      then show "command_safe env bin (path, args, t)" using l by cases (simp only: , rule safe, simp)+
    qed
    moreover have "length (fallback_commands x v) = 2" by (simp add: fallback_commands_def)
    ultimately show ?thesis by (simp only: traceReturnRouteFallback_def)
  qed
  let ?args = "[ip_flag v, ''-T'', ''-p'', itoa (rt_port x)] @ [''-q'', ''2'', ''--max-attempts'', ''2'', ''--timeout'',
              ''1500'', ''--no-rdns'', ''-j''] @ [rt_host x]"
  obtain r s1 where 1: "run_cmd bin ?args t s = (r, s1)" by fastforce
  have one: "ran 1 (command_safe env bin) s s1" by (rule ran_one [OF 1]) (rule safe, simp)
  have "ran 3 (command_safe env bin) s (snd (traceReturnRouteFallback env x v t e s1))" for e
    by (rule ran_mono [OF ran_trans [OF one f]]) simp
  moreover have "ran 3 (command_safe env bin) s s1" by (rule ran_mono [OF one]) simp
  ultimately show ?thesis using 1
    by (auto simp: traceReturnRoute_def Let_def split: run_out.splits option.splits)
qed

lemma targets_ran:
  "(\<And>x. x \<in> set xs \<Longrightarrow> route_target_ok (rt_host x) \<and> 1 \<le> rt_port x \<and> rt_port x \<le> 65535) \<Longrightarrow> 10 \<le> t \<Longrightarrow> t \<le> 45 \<Longrightarrow>
   ran (3 * length xs) (command_safe env bin) s (snd (trace_targets env bin v t xs s))"
proof (induction xs arbitrary: s)
  case Nil
  then show ?case by (simp add: ran_none)
next
  case (Cons x xs)
  obtain r s1 where 1: "traceReturnRoute env bin x v t s = (r, s1)" by fastforce
  have a: "ran 3 (command_safe env bin) s s1" using trace_ran [of x t env bin s v] Cons.prems 1 by simp
  have "ran (3 + 3 * length xs) (command_safe env bin) s (snd (trace_targets env bin v t xs s1))"
    using ran_trans [OF a Cons.IH] Cons.prems by simp
  with 1 show ?case by (simp add: case_prod_beta)
qed

text \<open>Whatever the master sends, at most nine commands are run for a request, none for a refused one: the tool that was
  found or checked, \<open>mtr\<close> or \<open>traceroute\<close>, each for at most 45 seconds, with a port that is a number and a host that cannot
  be taken for an option.\<close>

theorem return_route_commands:
  assumes "HandleReturnRouteTest env meth auth data s = (r, s')"
  shows "\<exists>cs bin. rw_log s' = rw_log s @ cs \<and> length cs \<le> 9 \<and> list_all (command_safe env bin) cs \<and>
    ((\<exists>e. r = Inl e) \<longrightarrow> cs = []) \<and> (cs \<noteq> [] \<longrightarrow> fst (ensureNextTrace env (rw_disk s)) = Some bin)"
proof (cases r)
  case (Inl e)
  with assms have "rw_log s' = rw_log s"
    by (auto simp: HandleReturnRouteTest_def Let_def split: if_splits option.splits prod.splits)
  then show ?thesis by auto
next
  case (Inr rs)
  obtain req where d: "data = Some req" using assms Inr by (auto simp: HandleReturnRouteTest_def split: if_splits option.splits)
  let ?ts = "List.map with_port (List.map clean_target (rtq_targets req))"
  let ?v = "if rtq_version req \<noteq> 6 then 4 else 6 :: int"
  let ?t = "route_timeout (rtq_timeout req)"
  have g: "length (rtq_targets req) \<le> 3" "list_all target_valid (List.map clean_target (rtq_targets req))"
    using assms Inr d by (auto simp: HandleReturnRouteTest_def Let_def split: if_splits option.splits prod.splits)
  obtain bin w1 where b: "ensureNextTrace env (rw_disk s) = (Some bin, w1)"
    using assms Inr d by (auto simp: HandleReturnRouteTest_def Let_def split: if_splits option.splits prod.splits)
  have s': "s' = snd (trace_targets env bin ?v ?t ?ts (s\<lparr>rw_disk := w1\<rparr>))"
    using assms Inr d b by (auto simp: HandleReturnRouteTest_def Let_def split: if_splits prod.splits)
  have "10 \<le> ?t" "?t \<le> 45" by (simp_all add: route_timeout_def Let_def)
  moreover have "route_target_ok (rt_host x) \<and> 1 \<le> rt_port x \<and> rt_port x \<le> 65535" if "x \<in> set ?ts" for x
    using that g(2) by (auto simp: list_all_iff target_valid_def with_port_def)
  ultimately have "ran (3 * length ?ts) (command_safe env bin) (s\<lparr>rw_disk := w1\<rparr>) s'"
    unfolding s' by (intro targets_ran) blast+
  then have "ran 9 (command_safe env bin) (s\<lparr>rw_disk := w1\<rparr>) s'" using g(1) by (auto elim: ran_mono)
  with Inr b show ?thesis by (auto simp: ran_def)
qed

lemma fileSHA_frame: "fileSHA256 env p w = (h, w') \<Longrightarrow> file_at w' q = file_at w q"
  by (auto simp: fileSHA256_def read_file_at split: prod.splits sum.splits)

lemma fileSHA_reads: "fileSHA256 env p w = (h, w') \<Longrightarrow> h \<noteq> [] \<Longrightarrow> \<exists>d. file_at w p = Some d \<and> rv_sha env d = h"
  by (auto simp: fileSHA256_def dest: read_file_Inr split: prod.splits sum.splits)

lemma store_checked:
  assumes "store_download env sha data complete w = (True, w')" and "sha \<noteq> []"
  shows "\<exists>d. file_at w' nexttrace_path = Some d \<and> rv_sha env d = sha"
proof -
  let ?tmp = "nexttrace_path @ ''.tmp''"
  obtain e1 w1 where 1: "write_file ?tmp [] w = (e1, w1)" by fastforce
  obtain e2 w2 where 2: "write_file ?tmp (take (50 * 2 ^ 20) data) w1 = (e2, w2)" by fastforce
  obtain e3 w3 where 3: "sys_call w2 = (e3, w3)" by fastforce
  obtain h w4 where 4: "(if e2 \<noteq> None \<or> \<not> complete \<or> e3 \<noteq> None then ([], w3) else fileSHA256 env ?tmp w3) = (h, w4)" by fastforce
  obtain e5 w5 where 5: "rename_file ?tmp nexttrace_path w4 = (e5, w5)" by fastforce
  from assms(1) 1 2 3 4 5 have r: "e1 = None" "h = sha" "e5 = None" "w' = w5"
    by (simp_all add: store_download_def Let_def split: option.splits if_splits)
  with 4 assms(2) have f: "fileSHA256 env ?tmp w3 = (sha, w4)" by (auto split: if_splits)
  obtain d where "file_at w3 ?tmp = Some d" "rv_sha env d = sha" using fileSHA_reads [OF f assms(2)] by blast
  moreover have "file_at w4 ?tmp = file_at w3 ?tmp" by (rule fileSHA_frame [OF f])
  moreover have "file_at w5 nexttrace_path = file_at w4 ?tmp" using rename_file_target [OF 5] r(3) by blast
  ultimately show ?thesis using r(4) by auto
qed

text \<open>The tool that is run is one the machine already has, or a file whose check sum is the one written in the code for
  this architecture, whatever was downloaded and whatever failed on the way.\<close>

theorem nexttrace_pinned:
  assumes "ensureNextTrace env w = (Some p, w')"
  shows "rv_look env ''nexttrace'' = Some p \<or>
    p = nexttrace_path \<and>
    (\<exists>d sha. file_at w' p = Some d \<and> nextTraceSHA256 (rv_arch env) = Some sha \<and> rv_sha env d = sha)"
proof (cases "rv_look env ''nexttrace''")
  case (Some q)
  with assms show ?thesis by (simp add: ensureNextTrace_def)
next
  case None
  obtain sha where sha: "nextTraceSHA256 (rv_arch env) = Some sha"
    using assms None by (auto simp: ensureNextTrace_def split: if_splits option.splits)
  then have ne: "sha \<noteq> []" by (auto simp: nextTraceSHA256_def split: if_splits)
  obtain h w1 where 1: "fileSHA256 env nexttrace_path w = (h, w1)" by fastforce
  show ?thesis
  proof (cases "h = sha")
    case True
    with assms None sha 1 have "p = nexttrace_path" "w' = w1"
      by (auto simp: ensureNextTrace_def split: if_splits)
    with fileSHA_reads [OF 1] fileSHA_frame [OF 1] True ne sha show ?thesis by auto
  next
    case False
    obtain e2 w2 where 2: "sys_call w1 = (e2, w2)" by fastforce
    obtain data complete where s: "store_download env sha data complete w2 = (True, w')" and p: "p = nexttrace_path"
      using assms None sha 1 False 2
      by (auto simp: ensureNextTrace_def split: if_splits option.splits prod.splits)
    from store_checked [OF s ne] p sha show ?thesis by blast
  qed
qed

section \<open>Where the fallback is wrong\<close>

definition toy_host :: route_target where
  "toy_host = \<lparr>rt_carrier = ''unicom'', rt_region = [], rt_host = ''h.example'', rt_port = 80\<rparr>"

text \<open>\<open>traceroute\<close> prints a heading with the address of the target: it becomes a hop, and every hop is counted one too
  far.\<close>

lemma heading_is_a_hop:
  "List.map (\<lambda>h. (rh_hop h, rh_ip h)) (tool_hops (''traceroute to h.example (9.9.9.9), 30 hops max'' @ [CHR 0x0A] @
     '' 1  10.0.0.1  0.5 ms'' @ [CHR 0x0A] @ '' 2  10.0.0.2  0.7 ms'')) =
   [(1, ''9.9.9.9''), (2, ''10.0.0.1''), (3, ''10.0.0.2'')]"
  by code_simp

text \<open>It is not asked for the numbers of the systems, so its output has none, and only China Telecom's premium addresses can be
  recognised in it.\<close>

lemma no_number_no_entry:
  assumes "\<And>l. l \<in> set (split_on (CHR 0x0A) (strip_ansi out)) \<Longrightarrow> trace_asn l = None"
    and "re_success (parseRouteToolOutput target src out)"
  shows "\<exists>h \<in> set (tool_hops out). has_prefix (rh_ip h) ''59.43.''"
proof -
  let ?r = "fold add_hop (tool_hops out) (new_result target src)"
  have "re_entry ?r \<noteq> None"
    using assms(2) by (simp add: parseRouteToolOutput_def Let_def classified_frame)
  then obtain h where h: "h \<in> set (tool_hops out)" "isMainlandEntryHop h"
    by (auto simp: fold_hops new_result_def find_Some_iff intro: nth_mem)
  let ?ls = "split_on (CHR 0x0A) (strip_ansi out)"
  have "\<exists>i l. (i, l) \<in> set (List.enumerate 0 ?ls) \<and> tool_hop i l = Some h"
    using h(1) by (auto simp: tool_hops_def List.map_filter_def) blast
  then obtain i l where il: "(i, l) \<in> set (List.enumerate 0 ?ls)" "tool_hop i l = Some h" by blast
  have "l \<in> set (List.map snd (List.enumerate 0 ?ls))" using imageI [OF il(1), of snd] by (simp only: set_map snd_conv)
  with il(2) have l: "l \<in> set ?ls" "tool_hop i l = Some h" by simp_all
  have "has_prefix (rh_ip h) ''59.43.''"
  proof (rule ccontr)
    assume n: "\<not> has_prefix (rh_ip h) ''59.43.''"
    with l assms(1) [OF l(1)] have "rh_asn h = []" "rh_country h = []"
      by (auto simp: tool_hop_def simp del: has_prefix_Cons split: option.splits)
    moreover have "\<not> isMainlandChina []" "normalizeASN [] \<notin> set mainland_asns" by code_simp+
    ultimately show False using h(2) n by (simp add: isMainlandEntryHop_def del: has_prefix_Cons)
  qed
  with h(1) show ?thesis by blast
qed

text \<open>The pattern of an address knows IPv4 only, so after a failure of \<open>nexttrace\<close> no route over IPv6 is ever recognised.\<close>

lemma ipv6_never_found:
  "tool_hops (''  1. AS4134  240e::1  0.0%'' @ [CHR 0x0A] @ ''  2. AS4809  240e:f::2  0.0%'') = []"
  by code_simp

section \<open>Examples\<close>

definition toy_route_env :: route_env where
  "toy_route_env = \<lparr>rv_look = (\<lambda>n. if n = ''nexttrace'' \<or> n = ''mtr'' then Some (''/bin/'' @ n) else None), rv_os = ''linux'',
     rv_arch = ''amd64'', rv_sha = (\<lambda>d. d), rv_download = None, rv_dec = (\<lambda>_. None)\<rparr>"

definition toy_route_world :: route_world where
  "toy_route_world = \<lparr>rw_disk = \<lparr>files = [], tape = [], running = None, api = []\<rparr>,
     rw_runs = [RunFailed [], RunOk (''Start'' @ [CHR 0x0A] @ '' 1. AS???  10.0.0.1 0'' @ [CHR 0x0A] @ '' 2. AS4837  219.1.1.1 0'')],
     rw_log = []\<rparr>"

definition toy_route_request :: route_request where
  "toy_route_request = \<lparr>rtq_version = 0, rtq_timeout = 0, rtq_targets = [\<lparr>rt_carrier = ''Unicom'', rt_region = [], rt_host = '' h.example'', rt_port = 0\<rparr>]\<rparr>"

definition toy_route_result :: route_result where
  "toy_route_result = (let h2 = \<lparr>rh_hop = 3, rh_ip = ''219.1.1.1'', rh_asn = ''4837'', rh_country = [], rh_region = [], rh_owner = [], rh_rtt = 0\<rparr>
     in \<lparr>re_target = toy_host, re_success = True, re_route = ''4837'', re_entry = Some h2, re_path = [''4837''],
         re_hops = [\<lparr>rh_hop = 2, rh_ip = ''10.0.0.1'', rh_asn = [], rh_country = [], rh_region = [], rh_owner = [], rh_rtt = 0\<rparr>, h2],
         re_notes = [EntryHop ''219.1.1.1'' ''4837'' [''4837''], AfterFailure ''mtr''], re_error = [], re_source = ''mtr''\<rparr>)"

lemma toy_route_run: "fst (HandleReturnRouteTest toy_route_env ''POST'' True (Some toy_route_request) toy_route_world) = Inr [toy_route_result]"
  by code_simp

lemma return_route_answer_witness: "route_answer toy_host toy_route_result"
proof -
  have "HandleReturnRouteTest toy_route_env ''POST'' True (Some toy_route_request) toy_route_world =
      (Inr [toy_route_result], snd (HandleReturnRouteTest toy_route_env ''POST'' True (Some toy_route_request) toy_route_world))"
    by (simp add: toy_route_run prod_eq_iff)
  from return_route_answer [OF this] have "route_answer (with_port (clean_target (rtq_targets toy_route_request ! 0))) toy_route_result"
    by (simp add: toy_route_request_def)
  moreover have "with_port (clean_target (rtq_targets toy_route_request ! 0)) = toy_host" by code_simp
  ultimately show ?thesis by simp
qed

lemma return_route_commands_witness:
  "\<exists>cs bin. rw_log (snd (HandleReturnRouteTest toy_route_env ''POST'' True (Some toy_route_request) toy_route_world)) = cs \<and>
     length cs = 2 \<and> list_all (command_safe toy_route_env bin) cs"
proof -
  have "length (rw_log (snd (HandleReturnRouteTest toy_route_env ''POST'' True (Some toy_route_request) toy_route_world))) = 2"
    "rw_log toy_route_world = []" by code_simp+
  with return_route_commands [OF surjective_pairing, of toy_route_env "''POST''" True "Some toy_route_request" toy_route_world]
  show ?thesis by auto
qed

lemma nexttrace_pinned_witness:
  "let sha = the (nextTraceSHA256 ''amd64''); env = toy_route_env\<lparr>rv_look := (\<lambda>_. None), rv_download := Some (200, sha, True)\<rparr>;
       w' = snd (ensureNextTrace env (rw_disk toy_route_world))
   in file_at w' nexttrace_path = Some sha"
proof -
  let ?sha = "the (nextTraceSHA256 ''amd64'')"
  let ?env = "toy_route_env\<lparr>rv_look := (\<lambda>_. None), rv_download := Some (200, ?sha, True)\<rparr>"
  obtain sha where k: "nextTraceSHA256 ''amd64'' = Some sha" "sha \<noteq> []" "length sha \<le> 50 * 2 ^ 20"
    by (simp add: nextTraceSHA256_def)
  have none: "file_at \<lparr>files = [], tape = [], running = None, api = []\<rparr> p = None" for p by (simp add: file_at_def)
  have "fst (ensureNextTrace (toy_route_env\<lparr>rv_look := (\<lambda>_. None), rv_download := Some (200, sha, True)\<rparr>)
      (rw_disk toy_route_world)) = Some nexttrace_path"
    using k by (simp add: none ensureNextTrace_def store_download_def toy_route_env_def toy_route_world_def fileSHA256_def read_file_def
        write_file_def sys_call_def next_outcome_def rename_file_def Let_def)
  then have "fst (ensureNextTrace ?env (rw_disk toy_route_world)) = Some nexttrace_path" using k(1) by simp
  then have "ensureNextTrace ?env (rw_disk toy_route_world) =
      (Some nexttrace_path, snd (ensureNextTrace ?env (rw_disk toy_route_world)))" by (simp add: prod_eq_iff)
  from nexttrace_pinned [OF this] k show ?thesis by (simp add: toy_route_env_def)
qed

end
