(* ===== verification/Domain_Probe.thy ===== *)
theory Domain_Probe
  imports Nginx_Control Sorting
begin

text \<open>
  How fast a domain answers: the request of the master (\<open>internal/handler/domain_latency_handler.go\<close>) and the older
  message over the WebSocket (\<open>handleDomainLatencyProbe\<close> and \<open>readNginxSSLPorts\<close> in \<open>internal/agent/client.go\<close>). What the network does
  is a function: the milliseconds a connection to an address took within a timeout, or none; the same for ICMP, with
  whether the machine may send it at all. The probes run side by side, so their results arrive in any order.
\<close>

section \<open>Hosts and ports\<close>

definition last_index :: "char \<Rightarrow> string \<Rightarrow> nat option" where
  "last_index c s =
     (if c \<in> set s then Some (length s - 1 - length (takeWhile (\<lambda>x. x \<noteq> c) (rev s))) else None)"

definition first_index :: "char \<Rightarrow> string \<Rightarrow> nat option" where
  "first_index c s = (if c \<in> set s then Some (length (takeWhile (\<lambda>x. x \<noteq> c) s)) else None)"

fun find_sub :: "string \<Rightarrow> string \<Rightarrow> nat option" where
  "find_sub p [] = (if p = [] then Some 0 else None)"
| "find_sub p (c # s) = (if has_prefix (c # s) p then Some 0 else map_option Suc (find_sub p s))"

definition trim_suffix_char :: "char \<Rightarrow> string \<Rightarrow> string" where
  "trim_suffix_char c s = (if s \<noteq> [] \<and> last s = c then butlast s else s)"

text \<open>\<open>net.SplitHostPort\<close> and \<open>net.JoinHostPort\<close>.\<close>

definition SplitHostPort :: "string \<Rightarrow> (string \<times> string) option" where
  "SplitHostPort s =
     (case last_index (CHR '':'') s of
        None \<Rightarrow> None
      | Some i \<Rightarrow>
          if s ! 0 = CHR ''['' then
            (case first_index (CHR '']'') s of
               None \<Rightarrow> None
             | Some e \<Rightarrow>
                 if e + 1 \<noteq> i then None
                 else if CHR ''['' \<in> set (drop 1 s) \<or> CHR '']'' \<in> set (drop (e + 1) s) then None
                 else Some (drop 1 (take e s), drop (i + 1) s))
          else
            (let host = take i s
             in if CHR '':'' \<in> set host then None
                else if CHR ''['' \<in> set s \<or> CHR '']'' \<in> set s then None
                else Some (host, drop (i + 1) s)))"

definition JoinHostPort :: "string \<Rightarrow> string \<Rightarrow> string" where
  "JoinHostPort host port =
     (if CHR '':'' \<in> set host then CHR ''['' # host @ '']:'' @ port else host @ '':'' @ port)"

definition normalizeProbeInput :: "string \<Rightarrow> string" where
  "normalizeProbeInput raw =
     (let s0 = trim_space raw
      in if s0 = [] then []
         else
           (let s1 = (case find_sub ''://'' s0 of
                        Some idx \<Rightarrow> if idx + 3 < length s0 then drop (idx + 3) s0 else s0
                      | None \<Rightarrow> s0);
                s2 = trim_space (takeWhile (\<lambda>c. c \<noteq> CHR 0x2F) s1)
            in if s2 = [] then [] else trim_suffix_char (CHR '']'') (trim_prefix s2 ''['')))"

definition uniqueProbeDomains :: "string list \<Rightarrow> string list" where
  "uniqueProbeDomains raws =
     dedup_by (\<lambda>s. s) {} (filter (\<lambda>s. s \<noteq> []) (List.map normalizeProbeInput raws))"

definition strict_host_port :: "string \<Rightarrow> (string \<times> string) option" where
  "strict_host_port s =
     (case SplitHostPort s of
        None \<Rightarrow> None
      | Some (h, p) \<Rightarrow> if h \<noteq> [] \<and> p \<noteq> [] then Some (h, p) else None)"

definition splitHostPortLoose :: "string \<Rightarrow> (string \<times> string) option" where
  "splitHostPortLoose input =
     (let s = trim_space input
      in if s = [] then None
         else
           (case strict_host_port s of
              Some hp \<Rightarrow> Some hp
            | None \<Rightarrow>
                (case last_index (CHR '':'') s of
                   None \<Rightarrow> None
                 | Some idx \<Rightarrow>
                     if idx = 0 \<or> length s - 1 \<le> idx then None
                     else (case atoi (drop (idx + 1) s) of
                             None \<Rightarrow> None
                           | Some _ \<Rightarrow> Some (take idx s, drop (idx + 1) s)))))"

section \<open>One probe\<close>

record probe_env =
  pe_dial :: "string \<Rightarrow> nat \<Rightarrow> nat option"
  pe_icmp :: "(string \<Rightarrow> nat \<Rightarrow> nat option) option"

record probe_result =
  pr_domain :: string
  pr_target :: string
  pr_success :: bool
  pr_latency :: nat
  pr_method :: string
  pr_nginx :: int

definition probe_host :: "string \<Rightarrow> string \<times> string" where
  "probe_host domain = (case splitHostPortLoose domain of Some hp \<Rightarrow> hp | None \<Rightarrow> (domain, ''443''))"

definition probeOneDomainLatency :: "probe_env \<Rightarrow> nat \<Rightarrow> bool \<Rightarrow> string \<Rightarrow> probe_result" where
  "probeOneDomainLatency env t allowICMP domain =
     (case probe_host domain of
        (host, port) \<Rightarrow>
          if host = [] then
            \<lparr>pr_domain = domain, pr_target = domain, pr_success = False, pr_latency = 0, pr_method = [], pr_nginx = 0\<rparr>
          else
            (let target = JoinHostPort host port;
                 failed = \<lparr>pr_domain = host, pr_target = target, pr_success = False, pr_latency = 0,
                           pr_method = ''tcp'', pr_nginx = 0\<rparr>
             in (case pe_dial env target t of
                   Some ms \<Rightarrow> failed\<lparr>pr_success := True, pr_latency := ms\<rparr>
                 | None \<Rightarrow>
                     (case (if allowICMP then pe_icmp env else None) of
                        None \<Rightarrow> failed
                      | Some ping \<Rightarrow>
                          (case ping host t of
                             Some rtt \<Rightarrow> failed\<lparr>pr_success := True, pr_latency := rtt, pr_method := ''icmp''\<rparr>
                           | None \<Rightarrow> failed)))))"

definition probe_before :: "probe_result \<Rightarrow> probe_result \<Rightarrow> bool" where
  "probe_before a b =
     (if pr_success a \<noteq> pr_success b then pr_success a
      else if \<not> pr_success a then pr_domain a < pr_domain b
      else if pr_latency a = pr_latency b then pr_domain a < pr_domain b
      else pr_latency a < pr_latency b)"

definition probe_timeout :: "int \<Rightarrow> nat" where
  "probe_timeout timeoutMs =
     (let t0 = (if timeoutMs \<le> 0 then 2000 else timeoutMs);
          t1 = (if t0 < 200 then 200 else t0)
      in nat (if 10000 < t1 then 10000 else t1))"

definition probe_json :: "probe_result \<Rightarrow> json" where
  "probe_json r = JObj
     ([(''domain'', JStr (pr_domain r)), (''target'', JStr (pr_target r)), (''success'', JBool (pr_success r))] @
      (if pr_latency r \<noteq> 0 then [(''latency_ms'', JNum (int (pr_latency r)) 0)] else []) @
      (if pr_method r \<noteq> [] then [(''method'', JStr (pr_method r))] else []) @
      (if pr_nginx r \<noteq> 0 then [(''nginx_ssl_port'', JNum (pr_nginx r) 0)] else []))"

section \<open>The request\<close>

record probe_request =
  pq_domains :: "string list"
  pq_timeout :: int
  pq_icmp :: bool

definition DomainProbeMaxCount :: nat where
  "DomainProbeMaxCount = 200"

text \<open>\<open>arrive\<close> is the order in which the results come out of the channel.\<close>

definition HandleDomainLatencyProbe ::
  "probe_env \<Rightarrow> (probe_result list \<Rightarrow> probe_result list) \<Rightarrow> string \<Rightarrow> bool \<Rightarrow> probe_request option \<Rightarrow> reply" where
  "HandleDomainLatencyProbe env arrive meth auth data =
     (if meth \<noteq> ''POST'' then writeError 405 ''Method not allowed''
      else if \<not> auth then writeError 401 ''Unauthorized''
      else
        (case data of
           None \<Rightarrow> writeError 400 ''Invalid request body''
         | Some req \<Rightarrow>
             if pq_domains req = [] then writeError 400 ''domains is required''
             else
               (let t = probe_timeout (pq_timeout req); domains = uniqueProbeDomains (pq_domains req)
                in if domains = [] then writeError 400 ''no valid domain to probe''
                   else
                     (let ds = (if DomainProbeMaxCount < length domains then take DomainProbeMaxCount domains else domains);
                          results = sort_by probe_before (arrive (List.map (probeOneDomainLatency env t (pq_icmp req)) ds))
                      in writeOk [(''results'', JArr (List.map probe_json results)),
                                  (''count'', JNum (int (length results)) 0)]))))"

section \<open>The message over the WebSocket\<close>

fun ssl_port_in :: "string \<Rightarrow> string list \<Rightarrow> world \<Rightarrow> int option \<times> world" where
  "ssl_port_in host [] w = (None, w)"
| "ssl_port_in host (d # ds) w =
     (case read_file (Clean (path_join d (host @ ''.conf''))) w of
        (Inl _, w1) \<Rightarrow> ssl_port_in host ds w1
      | (Inr data, w1) \<Rightarrow>
          if 0 < extractSSLListenPort data then (Some (extractSSLListenPort data), w1) else ssl_port_in host ds w1)"

fun ssl_ports :: "string list \<Rightarrow> (string \<rightharpoonup> int) \<Rightarrow> world \<Rightarrow> (string \<rightharpoonup> int) \<times> world" where
  "ssl_ports [] m w = (m, w)"
| "ssl_ports (domain # ds) m w =
     (let host = (case SplitHostPort domain of Some (h, _) \<Rightarrow> if h \<noteq> [] then h else domain | None \<Rightarrow> domain)
      in (case ssl_port_in host NginxSSLServerDirPaths w of
            (None, w1) \<Rightarrow> ssl_ports ds m w1
          | (Some p, w1) \<Rightarrow> ssl_ports ds (m(host \<mapsto> p)) w1))"

definition readNginxSSLPorts :: "string list \<Rightarrow> world \<Rightarrow> (string \<rightharpoonup> int) \<times> world" where
  "readNginxSSLPorts domains w = ssl_ports domains Map.empty w"

definition ws_probe_one :: "probe_env \<Rightarrow> nat \<Rightarrow> (string \<rightharpoonup> int) \<Rightarrow> string \<Rightarrow> probe_result" where
  "ws_probe_one env t nginxPortMap domain =
     (case (case strict_host_port domain of Some hp \<Rightarrow> hp | None \<Rightarrow> (domain, ''443'')) of
        (host, port) \<Rightarrow>
          if host = [] then
            \<lparr>pr_domain = domain, pr_target = domain, pr_success = False, pr_latency = 0, pr_method = [], pr_nginx = 0\<rparr>
          else
            (let target = JoinHostPort host port
             in (case pe_dial env target t of
                   None \<Rightarrow> \<lparr>pr_domain = host, pr_target = target, pr_success = False, pr_latency = 0, pr_method = [], pr_nginx = 0\<rparr>
                 | Some ms \<Rightarrow> \<lparr>pr_domain = host, pr_target = target, pr_success = True, pr_latency = ms, pr_method = [],
                              pr_nginx = (case nginxPortMap host of None \<Rightarrow> 0 | Some p \<Rightarrow> p)\<rparr>)))"

text \<open>The frame that is handed to the sealing writer.\<close>

definition handleDomainLatencyProbe ::
  "probe_env \<Rightarrow> (probe_result list \<Rightarrow> probe_result list) \<Rightarrow> string \<Rightarrow> string list \<Rightarrow> int \<Rightarrow> world \<Rightarrow> obj \<times> world" where
  "handleDomainLatencyProbe env arrive request_id domains timeoutMs w =
     (case readNginxSSLPorts domains w of
        (ports, w1) \<Rightarrow>
          (let results = sort_by probe_before (arrive (List.map (ws_probe_one env (probe_timeout timeoutMs) ports) domains))
           in ([(''type'', JStr ''domain_latency_result''),
                (''payload'', JObj [(''request_id'', JStr request_id), (''success'', JBool True),
                                    (''results'', JArr (List.map probe_json results))])], w1)))"

section \<open>The order of arrival\<close>

interpretation probe_order: comparison probe_before
proof
  show "\<And>a b. probe_before a b \<Longrightarrow> \<not> probe_before b a" by (auto simp: probe_before_def split: if_splits)
  show "\<And>b a c. \<not> probe_before b a \<Longrightarrow> \<not> probe_before c b \<Longrightarrow> \<not> probe_before c a"
    by (auto simp: probe_before_def not_less split: if_splits)
qed

lemma probe_told_apart: "pr_domain a \<noteq> pr_domain b \<Longrightarrow> probe_before a b \<or> probe_before b a"
  by (auto simp: probe_before_def)

lemma sorted_whatever_order:
  assumes "mset (arrive (List.map f ds)) = mset (List.map f ds)" and "inj_on (\<lambda>d. pr_domain (f d)) (set ds)"
  shows "sort_by probe_before (arrive (List.map f ds)) = sort_by probe_before (List.map f ds)"
proof (rule probe_order.sort_unique [OF assms(1)])
  fix a b
  assume "a \<in> set (arrive (List.map f ds))" "b \<in> set (arrive (List.map f ds))" "a \<noteq> b"
  then obtain x y where "a = f x" "b = f y" "x \<in> set ds" "y \<in> set ds" "x \<noteq> y"
    using mset_eq_setD [OF assms(1)] by auto
  with assms(2) have "pr_domain a \<noteq> pr_domain b" by (auto dest: inj_onD)
  then show "probe_before a b \<or> probe_before b a" by (rule probe_told_apart)
qed

lemma probe_timeout_range: "200 \<le> probe_timeout t \<and> probe_timeout t \<le> 10000"
  by (auto simp: probe_timeout_def Let_def)

text \<open>A well-formed request is answered with one result per distinct domain, two hundred at most, each from one
  probe with a timeout between 0.2 and 10 seconds; whatever order the probes end in, the answer is the same: the
  successful ones first, by latency and then by name, the others by name. (Two entries for one host may change places.)\<close>

theorem domain_probe_answer:
  fixes env :: probe_env
  assumes arrive: "\<And>xs. mset (arrive xs) = mset xs" and some: "uniqueProbeDomains (pq_domains req) \<noteq> []"
  defines "ds \<equiv> take DomainProbeMaxCount (uniqueProbeDomains (pq_domains req))"
    and "probe \<equiv> probeOneDomainLatency env (probe_timeout (pq_timeout req)) (pq_icmp req)"
  assumes hosts: "inj_on (\<lambda>d. pr_domain (probe d)) (set ds)"
  shows "HandleDomainLatencyProbe env arrive ''POST'' True (Some req) =
      writeOk [(''results'', JArr (List.map probe_json (sort_by probe_before (List.map probe ds)))),
               (''count'', JNum (int (length ds)) 0)] \<and>
    distinct ds \<and> length ds \<le> 200 \<and> 200 \<le> probe_timeout (pq_timeout req) \<and> probe_timeout (pq_timeout req) \<le> 10000 \<and>
    sorted_wrt (\<lambda>a b. (pr_success b \<longrightarrow> pr_success a) \<and> (pr_success b \<longrightarrow> pr_latency a \<le> pr_latency b))
      (sort_by probe_before (List.map probe ds))"
proof -
  have q: "pq_domains req \<noteq> []" using some by (auto simp: uniqueProbeDomains_def)
  have t: "(if DomainProbeMaxCount < length xs then take DomainProbeMaxCount xs else xs) = take DomainProbeMaxCount xs"
    for xs :: "string list" by simp
  have s: "sort_by probe_before (arrive (List.map probe ds)) = sort_by probe_before (List.map probe ds)"
    using arrive hosts by (rule sorted_whatever_order)
  have "distinct (uniqueProbeDomains (pq_domains req))"
    using dedup_by_distinct [of "\<lambda>s. s"] by (simp add: uniqueProbeDomains_def)
  then have d: "distinct ds" by (simp add: ds_def)
  have la: "length (arrive (List.map probe ds)) = length ds"
    using mset_eq_length [OF arrive, of "List.map probe ds"] by simp
  have o: "sorted_wrt (\<lambda>a b. (pr_success b \<longrightarrow> pr_success a) \<and> (pr_success b \<longrightarrow> pr_latency a \<le> pr_latency b))
      (sort_by probe_before (List.map probe ds))"
    by (rule sorted_wrt_mono_rel [rotated], rule probe_order.sort_sorted) (auto simp: probe_before_def split: if_splits)
  have "HandleDomainLatencyProbe env arrive ''POST'' True (Some req) =
      writeOk [(''results'', JArr (List.map probe_json (sort_by probe_before (List.map probe ds)))),
               (''count'', JNum (int (length ds)) 0)]"
    using q some s la by (simp add: HandleDomainLatencyProbe_def Let_def t ds_def [symmetric] probe_def [symmetric])
  with d o probe_timeout_range show ?thesis by (simp add: ds_def DomainProbeMaxCount_def)
qed

section \<open>Round trips, and where they fail\<close>

lemma last_index_append: "c \<notin> set p \<Longrightarrow> last_index c (h @ c # p) = Some (length h)"
  by (simp add: last_index_def takeWhile_append)

text \<open>The address that is dialled is taken apart again into the host and the port it was made of, for a host name
  without a colon and for an IPv6 address alike.\<close>

theorem host_port_roundtrip:
  assumes "CHR ''['' \<notin> set h" "CHR '']'' \<notin> set h" "CHR ''['' \<notin> set p" "CHR '']'' \<notin> set p" "CHR '':'' \<notin> set p"
  shows "SplitHostPort (JoinHostPort h p) = Some (h, p)"
proof (cases "CHR '':'' \<in> set h")
  case True
  have l: "last_index (CHR '':'') (CHR ''['' # h @ CHR '']'' # CHR '':'' # p) = Some (length h + 2)"
    using last_index_append [OF assms(5), of "CHR ''['' # h @ '']''"] by simp
  have f: "first_index (CHR '']'') (CHR ''['' # h @ CHR '']'' # CHR '':'' # p) = Some (length h + 1)"
    using assms(2) by (simp add: first_index_def takeWhile_append)
  from True assms show ?thesis by (simp add: SplitHostPort_def JoinHostPort_def l f)
next
  case False
  have l: "last_index (CHR '':'') (h @ CHR '':'' # p) = Some (length h)"
    using last_index_append [OF assms(5), of h] by simp
  have "(h @ CHR '':'' # p) ! 0 \<noteq> CHR ''[''" using assms(1) by (cases h) auto
  with False assms show ?thesis by (simp add: SplitHostPort_def JoinHostPort_def l Let_def)
qed

text \<open>An IPv6 address without a port loses its last part to the port.\<close>

lemma ipv6_taken_apart:
  "normalizeProbeInput ''[2001:db8::1]'' = ''2001:db8::1'' \<and> probe_host ''2001:db8::1'' = (''2001:db8:'', ''1'')"
  by code_simp

text \<open>With brackets and a port only the opening bracket is taken off, and the address that is dialled is none.\<close>

lemma ipv6_bracket_left:
  "normalizeProbeInput ''[2001:db8::1]:443'' = ''2001:db8::1]:443'' \<and>
   JoinHostPort (fst (probe_host ''2001:db8::1]:443'')) (snd (probe_host ''2001:db8::1]:443'')) = ''[2001:db8::1]]:443''"
  by code_simp

section \<open>Examples\<close>

definition toy_net :: probe_env where
  "toy_net = \<lparr>pe_dial = (\<lambda>a t. if a = ''b.example:443'' then Some 20 else if a = ''a.example:8443'' then Some 10 else None),
     pe_icmp = None\<rparr>"

lemma domain_probe_answer_witness:
  "HandleDomainLatencyProbe toy_net rev ''POST'' True
     (Some \<lparr>pq_domains = [''https://b.example/x'', ''a.example:8443'', ''b.example'', ''c.example''], pq_timeout = 0, pq_icmp = False\<rparr>) =
   writeOk [(''results'', JArr (List.map probe_json
      [probeOneDomainLatency toy_net 2000 False ''a.example:8443'', probeOneDomainLatency toy_net 2000 False ''b.example'',
       probeOneDomainLatency toy_net 2000 False ''c.example''])), (''count'', JNum 3 0)]"
proof -
  let ?q = "\<lparr>pq_domains = [''https://b.example/x'', ''a.example:8443'', ''b.example'', ''c.example''], pq_timeout = 0, pq_icmp = False\<rparr>"
  let ?p = "probeOneDomainLatency toy_net (probe_timeout (pq_timeout ?q)) (pq_icmp ?q)"
  have u: "uniqueProbeDomains (pq_domains ?q) = [''b.example'', ''a.example:8443'', ''c.example'']" by code_simp
  then have t: "take DomainProbeMaxCount (uniqueProbeDomains (pq_domains ?q)) = [''b.example'', ''a.example:8443'', ''c.example'']"
    by (simp add: DomainProbeMaxCount_def)
  have i: "inj_on (\<lambda>d. pr_domain (?p d)) (set (take DomainProbeMaxCount (uniqueProbeDomains (pq_domains ?q))))"
    unfolding t by code_simp
  have s: "sort_by probe_before (List.map ?p [''b.example'', ''a.example:8443'', ''c.example'']) =
      List.map (probeOneDomainLatency toy_net 2000 False) [''a.example:8443'', ''b.example'', ''c.example'']"
    by code_simp
  from domain_probe_answer [of rev ?q toy_net, OF _ _ i] u show ?thesis unfolding t s by simp
qed

lemma host_port_roundtrip_witness: "SplitHostPort (JoinHostPort ''2001:db8::1'' ''443'') = Some (''2001:db8::1'', ''443'')"
  by (rule host_port_roundtrip) simp_all

end
