(* ===== verification/Dispatcher.thy ===== *)
theory Dispatcher
  imports Limiter
begin

text \<open>
  The dispatcher the agent puts into the embedded Xray (\<open>internal/dispatcher/default.go\<close>): the two ways a connection comes
  in, with its place in the connection limit, its token bucket and its counters; the reader that keeps what was
  sniffed; the sniffing loop; the choice of a new destination and of an outbound. The pipes' ends are named, a wrapper is
  a constructor around what it wraps, and what the context runs when the connection ends is kept as a list of
  actions. Sniffers, policies, routing and the list of outbounds are Xray's own: parameters.
\<close>

section \<open>Links and state\<close>

datatype pipe_end = Up | Down

datatype dp_writer = PipeWriter nat pipe_end | RateWriter nat dp_writer | SizeStatWriter string dp_writer

datatype dp_reader = PipeReader nat pipe_end

record dp_link =
  dl_reader :: dp_reader
  dl_writer :: dp_writer

datatype dp_after = AfterConn string nat conn_lease | AfterOnline string string

record dp_user =
  du_email :: string
  du_level :: nat

record dp_session =
  ss_id :: nat
  ss_tag :: string
  ss_user :: "dp_user option"
  ss_ip :: string

record dp_policy =
  pp_uplink :: bool
  pp_downlink :: bool
  pp_online :: bool

record dispatcher =
  dp_lim :: limiter
  dp_closed :: "(nat \<times> pipe_end) list"
  dp_counters :: "string list"
  dp_onlines :: "(string \<times> string) list"
  dp_after :: "(nat \<times> dp_after) list"

definition close_both :: "nat \<Rightarrow> dispatcher \<Rightarrow> dispatcher" where
  "close_both c d = d\<lparr>dp_closed := dp_closed d @ [(c, Down), (c, Up)]\<rparr>"

section \<open>A connection comes in\<close>

text \<open>The part \<open>getLink\<close> and \<open>DispatchLink\<close> share: the place in the connection limit, and what gives it back.\<close>

definition take_place :: "nat \<Rightarrow> string \<Rightarrow> string \<Rightarrow> dispatcher \<Rightarrow> bool \<times> dispatcher" where
  "take_place c tag email d =
     (case AcquireConn (dp_lim d) tag email of
        ((ok, lease), l1) \<Rightarrow>
          if \<not> ok then (False, close_both c (d\<lparr>dp_lim := l1\<rparr>))
          else if cl_quota lease \<noteq> [] then
            (True, d\<lparr>dp_lim := TrackConn l1 (cl_quota lease) c,
                     dp_after := dp_after d @ [(c, AfterConn (cl_quota lease) c lease)]\<rparr>)
          else (True, d\<lparr>dp_lim := l1\<rparr>))"

definition stat_name :: "string \<Rightarrow> string \<Rightarrow> string" where
  "stat_name email kind = ''user>>>'' @ email @ ''>>>'' @ kind"

definition counted :: "bool \<Rightarrow> string \<Rightarrow> dp_writer \<Rightarrow> dispatcher \<Rightarrow> dp_writer \<times> dispatcher" where
  "counted wanted name wr d =
     (if wanted then (SizeStatWriter name wr, d\<lparr>dp_counters := List.insert name (dp_counters d)\<rparr>) else (wr, d))"

definition getLink :: "(nat \<Rightarrow> dp_policy) \<Rightarrow> dp_session \<Rightarrow> dispatcher \<Rightarrow> (dp_link \<times> dp_link) option \<times> dispatcher" where
  "getLink policy s d =
     (let c = ss_id s;
          inLink = \<lparr>dl_reader = PipeReader c Down, dl_writer = PipeWriter c Up\<rparr>;
          outLink = \<lparr>dl_reader = PipeReader c Up, dl_writer = PipeWriter c Down\<rparr>
      in (case ss_user s of
            None \<Rightarrow> (Some (inLink, outLink), d)
          | Some u \<Rightarrow>
              if du_email u = [] then (Some (inLink, outLink), d)
              else
                (case take_place c (ss_tag s) (du_email u) d of
                   (False, d1) \<Rightarrow> (None, d1)
                 | (True, d1) \<Rightarrow>
                     (case GetUserBucket (dp_lim d1) (ss_tag s) (du_email u) (ss_ip s) of
                        (bucket, l2) \<Rightarrow>
                          (let wrap = (\<lambda>wr. case bucket of None \<Rightarrow> wr | Some a \<Rightarrow> RateWriter a wr);
                               p = policy (du_level u);
                               d2 = d1\<lparr>dp_lim := l2\<rparr>
                           in (case counted (pp_uplink p) (stat_name (du_email u) ''traffic>>>uplink'') (wrap (PipeWriter c Up)) d2 of
                                 (up, d3) \<Rightarrow>
                                   (case counted (pp_downlink p) (stat_name (du_email u) ''traffic>>>downlink'') (wrap (PipeWriter c Down)) d3 of
                                      (down, d4) \<Rightarrow>
                                        (let name = stat_name (du_email u) ''online'';
                                             d5 = (if pp_online p
                                                   then d4\<lparr>dp_onlines := dp_onlines d4 @ [(name, ss_ip s)],
                                                           dp_after := dp_after d4 @ [(c, AfterOnline name (ss_ip s))]\<rparr>
                                                   else d4)
                                         in (Some (inLink\<lparr>dl_writer := up\<rparr>, outLink\<lparr>dl_writer := down\<rparr>), d5)))))))))"

text \<open>The entry of \<open>DispatchLink\<close>: whether the connection goes on.\<close>

definition link_entry :: "dp_session \<Rightarrow> dispatcher \<Rightarrow> bool \<times> dispatcher" where
  "link_entry s d =
     (case ss_user s of
        None \<Rightarrow> (True, d)
      | Some u \<Rightarrow> if du_email u = [] then (True, d) else take_place (ss_id s) (ss_tag s) (du_email u) d)"

text \<open>The context of a connection ends: \<open>context.AfterFunc\<close>.\<close>

fun run_after :: "dp_after \<Rightarrow> dispatcher \<Rightarrow> dispatcher" where
  "run_after (AfterConn grp c lease) d = d\<lparr>dp_lim := ReleaseConn (untrack (dp_lim d) grp c) lease\<rparr>"
| "run_after (AfterOnline name ip) d = d\<lparr>dp_onlines := remove1 (name, ip) (dp_onlines d)\<rparr>"

definition end_context :: "nat \<Rightarrow> dispatcher \<Rightarrow> dispatcher" where
  "end_context c d =
     fold (\<lambda>(_, a). run_after a) (filter (\<lambda>(k, _). k = c) (dp_after d))
       (d\<lparr>dp_after := filter (\<lambda>(k, _). k \<noteq> c) (dp_after d)\<rparr>)"

section \<open>Reading ahead\<close>

text \<open>What the reader below gives next: data after some milliseconds, or an error (a deadline that passed, an end).\<close>

datatype arrival = Arrive string nat | ReadError

record cachedReader =
  cr_src :: "arrival list"
  cr_cache :: string

definition payload_cap :: nat where
  "payload_cap = 32767"

definition Cache :: "cachedReader \<Rightarrow> (string \<times> nat) option \<times> cachedReader" where
  "Cache r =
     (case cr_src r of
        [] \<Rightarrow> (None, r)
      | ReadError # rest \<Rightarrow> (None, r\<lparr>cr_src := rest\<rparr>)
      | Arrive mb ms # rest \<Rightarrow>
          (Some (take payload_cap (cr_cache r @ mb), ms), r\<lparr>cr_src := rest, cr_cache := cr_cache r @ mb\<rparr>))"

definition readInternal :: "cachedReader \<Rightarrow> string option \<times> cachedReader" where
  "readInternal r = (if cr_cache r \<noteq> [] then (Some (cr_cache r), r\<lparr>cr_cache := []\<rparr>) else (None, r))"

definition ReadMultiBuffer :: "cachedReader \<Rightarrow> string option \<times> cachedReader" where
  "ReadMultiBuffer r =
     (case readInternal r of
        (Some mb, r1) \<Rightarrow> (Some mb, r1)
      | (None, r1) \<Rightarrow>
          (case cr_src r1 of
             [] \<Rightarrow> (None, r1)
           | ReadError # rest \<Rightarrow> (None, r1\<lparr>cr_src := rest\<rparr>)
           | Arrive mb ms # rest \<Rightarrow> (Some mb, r1\<lparr>cr_src := rest\<rparr>)))"

section \<open>Sniffing\<close>

record sniff_result =
  sr_protocol :: string
  sr_domain :: string
  sr_domain_protocol :: "string option"
  sr_subset :: "(string \<Rightarrow> bool) option"

datatype sniff_out = NoClue | NeedMoreData | Sniffed sniff_result | SniffFailed

function sniff_content :: "(string \<Rightarrow> sniff_out) \<Rightarrow> int \<Rightarrow> nat \<Rightarrow> cachedReader \<Rightarrow> sniff_result option \<times> cachedReader" where
  "sniff_content sniff deadline attempts r =
     (if cr_src r = [] then (None, r)
      else
        (case Cache r of
           (None, r1) \<Rightarrow> (None, r1)
         | (Some (payload, ms), r1) \<Rightarrow>
             (let left_ms = deadline - int ms;
                  again = (\<lambda>n. if 2 \<le> n \<or> left_ms \<le> 0 then (None, r1) else sniff_content sniff left_ms n r1)
              in if payload = [] then again (attempts + 1)
                 else (case sniff payload of
                         NoClue \<Rightarrow> again (attempts + 1)
                       | NeedMoreData \<Rightarrow> again attempts
                       | Sniffed x \<Rightarrow> (Some x, r1)
                       | SniffFailed \<Rightarrow> (None, r1)))))"
  by pat_completeness auto
termination
  by (relation "measure (\<lambda>(sniff, deadline, attempts, r). length (cr_src r))")
    (auto simp: Cache_def split: list.splits arrival.splits)

declare sniff_content.simps [simp del]

definition sniffer ::
  "sniff_result option \<Rightarrow> (string \<Rightarrow> sniff_out) \<Rightarrow> (sniff_result \<Rightarrow> sniff_result \<Rightarrow> sniff_result) \<Rightarrow> bool \<Rightarrow>
   cachedReader \<Rightarrow> sniff_result option \<times> cachedReader" where
  "sniffer meta sniff compose metadataOnly r =
     (if metadataOnly then (meta, r)
      else
        (case sniff_content sniff 200 0 r of
           (None, r1) \<Rightarrow> (case meta of Some m \<Rightarrow> (Some m, r1) | None \<Rightarrow> (None, r1))
         | (Some x, r1) \<Rightarrow> (case meta of Some m \<Rightarrow> (Some (compose m x), r1) | None \<Rightarrow> (Some x, r1))))"

record sniff_request =
  sq_enabled :: bool
  sq_metadata_only :: bool
  sq_route_only :: bool
  sq_exclude :: "string list"
  sq_override :: "string list"

text \<open>\<open>re_match\<close> compiles a pattern and matches it; \<open>fake\<close> says whether the destination is an address of the fake DNS pool.\<close>

fun excluded :: "(string \<Rightarrow> string \<Rightarrow> bool option) \<Rightarrow> string \<Rightarrow> string list \<Rightarrow> bool" where
  "excluded re_match domain [] = False"
| "excluded re_match domain (dd # ds) =
     (if has_prefix dd ''regexp:'' then
        (case re_match (drop 7 dd) domain of
           None \<Rightarrow> excluded re_match domain ds
         | Some m \<Rightarrow> if m then True else excluded re_match domain ds)
      else if to_lower domain = dd then True
      else excluded re_match domain ds)"

definition domain_protocol :: "sniff_result \<Rightarrow> string" where
  "domain_protocol x = (case sr_domain_protocol x of Some p \<Rightarrow> p | None \<Rightarrow> sr_protocol x)"

definition shouldOverride :: "(string \<Rightarrow> string \<Rightarrow> bool option) \<Rightarrow> bool \<Rightarrow> sniff_result \<Rightarrow> sniff_request \<Rightarrow> bool" where
  "shouldOverride re_match fake result request =
     (if sr_domain result = [] then False
      else if excluded re_match (sr_domain result) (sq_exclude request) then False
      else
        (let proto = domain_protocol result
         in list_ex (\<lambda>p. has_prefix proto p \<or> has_prefix p proto \<or>
              (fake \<and> proto \<noteq> ''bittorrent'' \<and> p = ''fakedns'') \<or>
              (case sr_subset result of None \<Rightarrow> False | Some f \<Rightarrow> f p)) (sq_override request)))"

record dp_dest =
  dd_address :: string
  dd_port :: nat
  dd_network :: nat

record dp_outbound =
  ob_original :: dp_dest
  ob_target :: dp_dest
  ob_route :: "dp_dest option"

text \<open>What \<open>Dispatch\<close> and \<open>DispatchLink\<close> do with what was sniffed: the outbound's targets, the protocol that is noted, and the
  destination that is routed.\<close>

definition sniffed_target ::
  "(string \<Rightarrow> string \<Rightarrow> bool option) \<Rightarrow> bool \<Rightarrow> sniff_request \<Rightarrow> sniff_result option \<Rightarrow> dp_dest \<Rightarrow>
   dp_outbound \<times> string option \<times> dp_dest" where
  "sniffed_target re_match fake request result destination =
     (let ob = \<lparr>ob_original = destination, ob_target = destination, ob_route = None\<rparr>
      in (case result of
            None \<Rightarrow> (ob, None, destination)
          | Some x \<Rightarrow>
              if shouldOverride re_match fake x request then
                (let proto = domain_protocol x;
                     there = destination\<lparr>dd_address := sr_domain x\<rparr>
                 in if sq_route_only request \<and> proto \<noteq> ''fakedns'' \<and> proto \<noteq> ''fakedns+others'' \<and> \<not> fake
                    then (ob\<lparr>ob_route := Some there\<rparr>, Some (sr_protocol x), there)
                    else (ob\<lparr>ob_target := there\<rparr>, Some (sr_protocol x), there))
              else (ob, Some (sr_protocol x), destination)))"

section \<open>Routing\<close>

record route_table =
  rb_handlers :: "string list"
  rb_default :: "string option"
  rb_pick :: "(string option) option"

datatype picked = PickDefault | PickForced | PickRouted

datatype routed = Handed string picked | Dropped

text \<open>\<open>rb_pick\<close>: none without a router, the tag a route gives, or none when no rule matches.\<close>

definition routedDispatch :: "route_table \<Rightarrow> string \<Rightarrow> nat \<Rightarrow> dispatcher \<Rightarrow> routed \<times> dispatcher" where
  "routedDispatch rb forced c d =
     (let dropped = (Dropped, close_both c d);
          fall = (case rb_default rb of None \<Rightarrow> dropped | Some tag \<Rightarrow> (Handed tag PickDefault, d))
      in if forced \<noteq> [] then
           (if forced \<in> set (rb_handlers rb) then (Handed forced PickForced, d) else dropped)
         else
           (case rb_pick rb of
              Some (Some tag) \<Rightarrow> if tag \<in> set (rb_handlers rb) then (Handed tag PickRouted, d) else dropped
            | _ \<Rightarrow> fall))"

definition detour :: "string \<Rightarrow> routed \<Rightarrow> string option" where
  "detour inTag out =
     (case out of
        Dropped \<Rightarrow> None
      | Handed tag k \<Rightarrow>
          if tag = [] then None
          else if inTag = [] then Some tag
          else Some (inTag @ (case k of PickForced \<Rightarrow> '' ==> '' | PickRouted \<Rightarrow> '' -> '' | PickDefault \<Rightarrow> '' >> '') @ tag))"

section \<open>The two entries\<close>

record dp_env =
  de_policy :: "nat \<Rightarrow> dp_policy"
  de_match :: "string \<Rightarrow> string \<Rightarrow> bool option"
  de_fake :: "string \<Rightarrow> bool"
  de_meta :: "sniff_result option"
  de_sniff :: "string \<Rightarrow> sniff_out"
  de_compose :: "sniff_result \<Rightarrow> sniff_result \<Rightarrow> sniff_result"
  de_routes :: "dp_dest \<Rightarrow> route_table"
  de_forced :: string
  de_valid :: "dp_dest \<Rightarrow> bool"

datatype dp_result = DpPanic | DpError | DpOk "dp_link option" dp_outbound dp_dest routed cachedReader

text \<open>Sniffing, when it is asked for, the targets, and the outbound; \<open>de_routes\<close> is what routing knows for a destination.\<close>

definition dispatched ::
  "dp_env \<Rightarrow> sniff_request \<Rightarrow> nat \<Rightarrow> dp_link option \<Rightarrow> dp_dest \<Rightarrow> cachedReader \<Rightarrow> dispatcher \<Rightarrow> dp_result \<times> dispatcher" where
  "dispatched env request c link destination r d =
     (case (if sq_enabled request then sniffer (de_meta env) (de_sniff env) (de_compose env) (sq_metadata_only request) r
            else (None, r)) of
        (found, r1) \<Rightarrow>
          (case sniffed_target (de_match env) (de_fake env (dd_address destination)) request found destination of
             (ob, _, dest) \<Rightarrow>
               (case routedDispatch (de_routes env (case ob_route ob of Some t \<Rightarrow> t | None \<Rightarrow> ob_target ob)) (de_forced env) c d of
                  (out, d1) \<Rightarrow> (DpOk link ob dest out r1, d1))))"

definition Dispatch ::
  "dp_env \<Rightarrow> dp_session \<Rightarrow> sniff_request \<Rightarrow> dp_dest \<Rightarrow> cachedReader \<Rightarrow> dispatcher \<Rightarrow> dp_result \<times> dispatcher" where
  "Dispatch env s request destination r d =
     (if \<not> de_valid env destination then (DpPanic, d)
      else
        (case getLink (de_policy env) s d of
           (None, d1) \<Rightarrow> (DpError, d1)
         | (Some (inLink, outLink), d1) \<Rightarrow> dispatched env request (ss_id s) (Some inLink) destination r d1))"

definition DispatchLink ::
  "dp_env \<Rightarrow> dp_session \<Rightarrow> sniff_request \<Rightarrow> dp_dest \<Rightarrow> cachedReader \<Rightarrow> dispatcher \<Rightarrow> dp_result \<times> dispatcher" where
  "DispatchLink env s request destination r d =
     (if \<not> de_valid env destination then (DpError, d)
      else
        (case link_entry s d of
           (False, d1) \<Rightarrow> (DpError, d1)
         | (True, d1) \<Rightarrow> dispatched env request (ss_id s) None destination r d1))"

lemma close_both_frame [simp]: "dp_lim (close_both c d) = dp_lim d" "dp_after (close_both c d) = dp_after d"
  by (simp_all add: close_both_def)

lemma routedDispatch_frame:
  assumes "routedDispatch rb f c d = (out, d')"
  shows "dp_lim d' = dp_lim d \<and> dp_after d' = dp_after d"
  using assms by (auto simp: routedDispatch_def Let_def simp del: close_both_frame split: if_splits option.splits)
    (simp_all add: close_both_frame)

lemma dispatched_frame:
  "dp_lim (snd (dispatched env request c link destination r d)) = dp_lim d \<and>
   dp_after (snd (dispatched env request c link destination r d)) = dp_after d"
proof -
  obtain found r1 where sn: "(if sq_enabled request
      then sniffer (de_meta env) (de_sniff env) (de_compose env) (sq_metadata_only request) r else (None, r)) = (found, r1)"
    by (metis surj_pair)
  obtain ob y dest where t:
    "sniffed_target (de_match env) (de_fake env (dd_address destination)) request found destination = (ob, y, dest)"
    by (metis surj_pair)
  obtain out d1 where rd:
    "routedDispatch (de_routes env (case ob_route ob of Some t \<Rightarrow> t | None \<Rightarrow> ob_target ob)) (de_forced env) c d = (out, d1)"
    by (metis surj_pair)
  have "snd (dispatched env request c link destination r d) = d1"
    unfolding dispatched_def sn t prod.case rd by simp
  then show ?thesis using routedDispatch_frame [OF rd] by simp
qed

section \<open>Places are given back\<close>

text \<open>What happens to the dispatcher: a connection comes in either way, a context ends, or the limits are changed.\<close>

datatype dp_event =
    DpDispatch dp_session sniff_request dp_dest cachedReader
  | DpLink dp_session sniff_request dp_dest cachedReader
  | DpEnd nat
  | DpLimits lim_op

fun dp_step :: "dp_env \<Rightarrow> dp_event \<Rightarrow> dispatcher \<Rightarrow> dispatcher" where
  "dp_step env (DpDispatch s q dest r) d = snd (Dispatch env s q dest r d)"
| "dp_step env (DpLink s q dest r) d = snd (DispatchLink env s q dest r d)"
| "dp_step env (DpEnd c) d = end_context c d"
| "dp_step env (DpLimits op) d = d\<lparr>dp_lim := lim_step op (dp_lim d)\<rparr>"

fun lease_of :: "nat \<times> dp_after \<Rightarrow> conn_lease option" where
  "lease_of (c, AfterConn g i x) = Some x"
| "lease_of (c, AfterOnline n ip) = None"

definition open_leases :: "(nat \<times> dp_after) list \<Rightarrow> conn_lease list" where
  "open_leases as = List.map_filter lease_of as"

lemma open_leases_simps [simp]:
  "open_leases [] = []" "open_leases (as @ bs) = open_leases as @ open_leases bs"
  "open_leases ((c, AfterConn g i x) # as) = x # open_leases as"
  "open_leases ((c, AfterOnline n ip) # as) = open_leases as"
  by (simp_all add: open_leases_def List.map_filter_def)

lemma held_split: "held g (open_leases as) =
    held g (open_leases (filter P as)) + held g (open_leases (filter (\<lambda>a. \<not> P a) as))"
  "held_node g (open_leases as) =
    held_node g (open_leases (filter P as)) + held_node g (open_leases (filter (\<lambda>a. \<not> P a) as))"
proof (induction as)
  case (Cons a as)
  {
    case 1
    then show ?case using Cons by (cases a rule: lease_of.cases) (simp_all add: ab_semigroup_add_class.add_ac)
  next
    case 2
    then show ?case using Cons by (cases a rule: lease_of.cases) (simp_all add: ab_semigroup_add_class.add_ac)
  }
qed simp_all

definition places :: "limiter \<Rightarrow> conn_lease list \<Rightarrow> bool" where
  "places l xs \<longleftrightarrow>
     (\<forall>g. g \<noteq> [] \<longrightarrow> count_at (lm_conn l) g = held g xs) \<and> (\<forall>g. g \<noteq> [] \<longrightarrow> held_node g xs \<le> count_at (lm_node l) g) \<and>
     (\<forall>x \<in> set xs. cl_quota x \<noteq> [] \<longrightarrow> cl_stat x \<noteq> [])"

lemma places_same_counts: "lm_conn l' = lm_conn l \<Longrightarrow> lm_node l' = lm_node l \<Longrightarrow> places l' xs = places l xs"
  by (simp add: places_def)

lemma places_release: "places l (x # xs) \<Longrightarrow> places (ReleaseConn l x) xs"
proof -
  assume p: "places l (x # xs)"
  have "0 < held (cl_quota x) (x # xs)" using held_nonneg(1) [of "cl_quota x" xs] by (simp del: held_nonneg)
  then have c: "cl_quota x = [] \<or> 0 < count_at (lm_conn l) (cl_quota x)" using p by (auto simp: places_def)
  have "cl_stat x \<noteq> []" if "cl_quota x \<noteq> []" using p that by (simp add: places_def)
  moreover have "0 < held_node (cl_stat x) (x # xs)" if "cl_quota x \<noteq> []"
    using that held_nonneg(2) [of "cl_stat x" xs] by (simp del: held_nonneg)
  ultimately have n: "cl_quota x = [] \<or> 0 < count_at (lm_node l) (cl_stat x) \<and> cl_stat x \<noteq> []"
    using p unfolding places_def by (metis order.strict_trans2)
  show ?thesis
    using p ReleaseConn_effect(2,3) [OF c n] by (auto simp: places_def)
qed

lemma untrack_counts [simp]: "lm_conn (untrack l g c) = lm_conn l" "lm_node (untrack l g c) = lm_node l"
  by (simp_all add: untrack_def Let_def split: option.splits)

lemma track_counts [simp]:
  "lm_conn (TrackConn l g c) = lm_conn l" "lm_node (TrackConn l g c) = lm_node l" "lm_inbounds (TrackConn l g c) = lm_inbounds l"
  by (simp_all add: TrackConn_def)

lemma bucket_counts [simp]:
  "lm_conn (snd (GetUserBucket l t e ip)) = lm_conn l" "lm_node (snd (GetUserBucket l t e ip)) = lm_node l"
  by (simp_all add: GetUserBucket_def hub_load_or_store_def put_inbound_info_def Let_def split: option.splits)

lemma kick_counts [simp]:
  "lm_conn (fold (\<lambda>g l. kickConnGroup l g) gs l) = lm_conn l" "lm_node (fold (\<lambda>g l. kickConnGroup l g) gs l) = lm_node l"
  by (induction gs arbitrary: l) (simp_all add: kickConnGroup_def split: option.splits)

lemma limits_counts [simp]: "lm_conn (lim_step op l) = lm_conn l" "lm_node (lim_step op l) = lm_node l"
  by (cases op; simp add: SyncInboundLimiter_def AddInboundLimiter_def UpdateInboundLimiter_def SetUserSpeed_def
      GetOnlineUsers_def DeleteInboundLimiter_def put_inbound_info_def hub_load_or_store_def Let_def split: option.splits)+

lemma run_after_places:
  "places (dp_lim d) (open_leases as @ xs) \<Longrightarrow> places (dp_lim (fold (\<lambda>(_, a). run_after a) as d)) xs"
proof (induction as arbitrary: d)
  case (Cons a as)
  show ?case
  proof (cases a rule: lease_of.cases)
    case (1 c g i x)
    have "places (ReleaseConn (untrack (dp_lim d) g i) x) (open_leases as @ xs)"
      using Cons.prems 1 by (intro places_release) (simp add: places_same_counts [of "untrack (dp_lim d) g i" "dp_lim d"])
    with Cons.IH 1 show ?thesis by simp
  next
    case (2 c n ip)
    with Cons show ?thesis by simp
  qed
qed simp

lemma fold_after_keeps: "dp_after (fold (\<lambda>(_ :: nat, a). run_after a) as d) = dp_after d"
proof (induction as arbitrary: d)
  case (Cons a as)
  then show ?case by (cases a rule: lease_of.cases) simp_all
qed simp

definition dp_inv :: "dispatcher \<Rightarrow> bool" where
  "dp_inv d \<longleftrightarrow> places (dp_lim d) (open_leases (dp_after d))"

lemma end_inv: "dp_inv d \<Longrightarrow> dp_inv (end_context c d)"
proof -
  assume i: "dp_inv d"
  let ?as = "filter (\<lambda>(k, _). k = c) (dp_after d)" and ?bs = "filter (\<lambda>(k, _). k \<noteq> c) (dp_after d)"
  have b: "?bs = filter (\<lambda>a. \<not> (case a of (k, _) \<Rightarrow> k = c)) (dp_after d)" by (rule filter_cong) auto
  have sub: "set (open_leases ?as @ open_leases ?bs) \<subseteq> set (open_leases (dp_after d))"
    by (auto simp: open_leases_def List.map_filter_def)
  have "places (dp_lim d) (open_leases ?as @ open_leases ?bs)"
    using i sub unfolding dp_inv_def places_def held_simps(2,5) held_split [of _ "dp_after d" "\<lambda>(k, _). k = c"] b by blast
  then have "places (dp_lim (d\<lparr>dp_after := ?bs\<rparr>)) (open_leases ?as @ open_leases ?bs)" by simp
  from run_after_places [OF this] show ?thesis
    by (simp add: dp_inv_def end_context_def fold_after_keeps)
qed

text \<open>Taking a place, in terms of the leases that are open.\<close>

lemma take_place_inv:
  assumes i: "dp_inv d" and t: "take_place c tag email d = (ok, d')"
  shows "dp_inv d'"
    and "\<not> ok \<Longrightarrow> dp_after d' = dp_after d \<and> dp_closed d' = dp_closed d @ [(c, Down), (c, Up)]"
    and "lookupUserInfo (dp_lim d) tag email = Some u \<Longrightarrow> 0 < ui_device u \<Longrightarrow> email \<noteq> [] \<Longrightarrow>
      (ok \<longleftrightarrow> held (quota_group email u) (open_leases (dp_after d)) < ui_device u) \<and>
      held (quota_group email u) (open_leases (dp_after d')) \<le> max (ui_device u) (held (quota_group email u) (open_leases (dp_after d)))"
proof -
  obtain a lease l1 where 1: "AcquireConn (dp_lim d) tag email = ((a, lease), l1)" by (metis surj_pair)
  note eff = AcquireConn_effect [OF 1]
  have r: "ok = a" "\<not> a \<Longrightarrow> d' = close_both c (d\<lparr>dp_lim := l1\<rparr>)"
    "a \<Longrightarrow> cl_quota lease \<noteq> [] \<Longrightarrow> d' = d\<lparr>dp_lim := TrackConn l1 (cl_quota lease) c,
       dp_after := dp_after d @ [(c, AfterConn (cl_quota lease) c lease)]\<rparr>"
    "a \<Longrightarrow> cl_quota lease = [] \<Longrightarrow> d' = d\<lparr>dp_lim := l1\<rparr>"
    using t 1 by (auto simp: take_place_def split: if_splits)
  have new: "places l1 (open_leases (dp_after d) @ (if a then [lease] else []))"
    unfolding places_def
  proof (intro conjI allI impI ballI)
    fix g :: string
    assume g: "g \<noteq> []"
    have "count_at (lm_conn (dp_lim d)) g = held g (open_leases (dp_after d))"
      "held_node g (open_leases (dp_after d)) \<le> count_at (lm_node (dp_lim d)) g"
      using i g by (simp_all add: dp_inv_def places_def)
    with eff(2,3) [OF g] show "count_at (lm_conn l1) g = held g (open_leases (dp_after d) @ (if a then [lease] else []))"
      "held_node g (open_leases (dp_after d) @ (if a then [lease] else [])) \<le> count_at (lm_node l1) g"
      by (cases a; simp)+
  next
    fix x
    assume "x \<in> set (open_leases (dp_after d) @ (if a then [lease] else []))" "cl_quota x \<noteq> []"
    then show "cl_stat x \<noteq> []" using i eff(4) by (auto simp: dp_inv_def places_def split: if_splits)
  qed
  show inv: "dp_inv d'"
  proof (cases "a \<and> cl_quota lease \<noteq> []")
    case True
    with new r(3) show ?thesis by (simp add: dp_inv_def places_same_counts [of "TrackConn l1 (cl_quota lease) c" l1])
  next
    case False
    then have "places l1 (open_leases (dp_after d))"
      using new by (auto simp: places_def held_def held_node_def split: if_splits)
    with False r(2,4) show ?thesis by (cases a) (auto simp: dp_inv_def close_both_def)
  qed
  show "\<not> ok \<Longrightarrow> dp_after d' = dp_after d \<and> dp_closed d' = dp_closed d @ [(c, Down), (c, Up)]"
    using r(1,2) by (simp add: close_both_def)
  show "(ok \<longleftrightarrow> held (quota_group email u) (open_leases (dp_after d)) < ui_device u) \<and>
      held (quota_group email u) (open_leases (dp_after d')) \<le> max (ui_device u) (held (quota_group email u) (open_leases (dp_after d)))"
    if u: "lookupUserInfo (dp_lim d) tag email = Some u" "0 < ui_device u" "email \<noteq> []"
  proof -
    have g: "quota_group email u \<noteq> []" using u(3) by (simp add: quota_group_def)
    have h: "held (quota_group email u) (open_leases (dp_after d)) = count_at (lm_conn (dp_lim d)) (quota_group email u)"
      using i g by (simp add: dp_inv_def places_def)
    have ok: "ok \<longleftrightarrow> held (quota_group email u) (open_leases (dp_after d)) < ui_device u"
      using eff(5) [OF u(1)] u(2) r(1) h by auto
    have "held (quota_group email u) (open_leases (dp_after d')) \<le>
        held (quota_group email u) (open_leases (dp_after d)) + (if ok then 1 else 0)"
      using r by (cases a; cases "cl_quota lease = []") (simp_all add: close_both_def)
    with ok show ?thesis by (auto split: if_splits)
  qed
qed

lemma counted_frame:
  assumes "counted b n wr d = (wr', d')"
  shows "dp_lim d' = dp_lim d" "dp_after d' = dp_after d" "dp_closed d' = dp_closed d"
    "wr' = (if b then SizeStatWriter n wr else wr)"
  using assms by (auto simp: counted_def split: if_splits)

lemma getLink_cases:
  assumes "getLink policy s d = (r, d')"
  shows "(\<exists>u. ss_user s = Some u \<and> du_email u \<noteq> [] \<and>
      (\<exists>d1. take_place (ss_id s) (ss_tag s) (du_email u) d = (r \<noteq> None, d1) \<and> dp_closed d' = dp_closed d1 \<and>
        (r = None \<longrightarrow> d' = d1) \<and> open_leases (dp_after d') = open_leases (dp_after d1) \<and>
        lm_conn (dp_lim d') = lm_conn (dp_lim d1) \<and> lm_node (dp_lim d') = lm_node (dp_lim d1))) \<or>
    ((ss_user s = None \<or> (\<exists>u. ss_user s = Some u \<and> du_email u = [])) \<and> r \<noteq> None \<and> d' = d)"
proof (cases "\<exists>u. ss_user s = Some u \<and> du_email u \<noteq> []")
  case False
  with assms show ?thesis by (auto simp: getLink_def Let_def split: option.splits)
next
  case True
  then obtain u where u: "ss_user s = Some u" "du_email u \<noteq> []" by blast
  obtain ok d1 where 1: "take_place (ss_id s) (ss_tag s) (du_email u) d = (ok, d1)" by fastforce
  show ?thesis
  proof (cases ok)
    case False
    with assms u 1 have "r = None" "d' = d1" by (auto simp: getLink_def Let_def)
    with u 1 False show ?thesis by auto
  next
    case True
    obtain bucket l2 where 2: "GetUserBucket (dp_lim d1) (ss_tag s) (du_email u) (ss_ip s) = (bucket, l2)" by fastforce
    define wrap where "wrap = (\<lambda>wr. case bucket of None \<Rightarrow> wr | Some a \<Rightarrow> RateWriter a wr)"
    obtain up d3 where 3: "counted (pp_uplink (policy (du_level u))) (stat_name (du_email u) ''traffic>>>uplink'')
        (wrap (PipeWriter (ss_id s) Up)) (d1\<lparr>dp_lim := l2\<rparr>) = (up, d3)" by fastforce
    obtain down d4 where 4: "counted (pp_downlink (policy (du_level u))) (stat_name (du_email u) ''traffic>>>downlink'')
        (wrap (PipeWriter (ss_id s) Down)) d3 = (down, d4)" by fastforce
    have r: "r \<noteq> None" "dp_closed d' = dp_closed d4" "dp_lim d' = dp_lim d4"
      "open_leases (dp_after d') = open_leases (dp_after d4)"
      using assms u 1 True 2 3 4 by (auto simp: getLink_def Let_def wrap_def)
    have l: "lm_conn l2 = lm_conn (dp_lim d1)" "lm_node l2 = lm_node (dp_lim d1)"
      using bucket_counts [of "dp_lim d1" "ss_tag s" "du_email u" "ss_ip s"] 2 by simp_all
    have "dp_closed d4 = dp_closed d1" "dp_lim d4 = l2" "dp_after d4 = dp_after d1"
      using counted_frame [OF 3] counted_frame [OF 4] by simp_all
    with r l u 1 True show ?thesis by auto
  qed
qed

lemma dp_inv_counts:
  "dp_inv d1 \<Longrightarrow> open_leases (dp_after d') = open_leases (dp_after d1) \<Longrightarrow> lm_conn (dp_lim d') = lm_conn (dp_lim d1) \<Longrightarrow>
   lm_node (dp_lim d') = lm_node (dp_lim d1) \<Longrightarrow> dp_inv d'"
  by (simp add: dp_inv_def places_def)

lemma dispatched_inv: "dp_inv d \<Longrightarrow> dp_inv (snd (dispatched env request c link destination r d))"
  by (simp add: dp_inv_def dispatched_frame)

lemma getLink_inv:
  assumes i: "dp_inv d" and g: "getLink policy s d = (r, d')" shows "dp_inv d'"
  using getLink_cases [OF g]
proof (elim disjE exE conjE)
  fix u d1
  assume "take_place (ss_id s) (ss_tag s) (du_email u) d = (r \<noteq> None, d1)"
    "open_leases (dp_after d') = open_leases (dp_after d1)" "lm_conn (dp_lim d') = lm_conn (dp_lim d1)"
    "lm_node (dp_lim d') = lm_node (dp_lim d1)"
  with dp_inv_counts [OF take_place_inv(1) [OF i]] show "dp_inv d'" by blast
qed (use i in simp_all)

lemma link_inv:
  assumes "dp_inv d" and "link_entry s d = (ok, d')" shows "dp_inv d'"
  using assms take_place_inv(1) [OF assms(1)] by (auto simp: link_entry_def split: option.splits if_splits)

lemma step_inv:
  assumes i: "dp_inv d" shows "dp_inv (dp_step env e d)"
proof (cases e)
  case (DpDispatch s q dest r)
  obtain x d1 where 1: "getLink (de_policy env) s d = (x, d1)" by fastforce
  with i DpDispatch dispatched_inv [OF getLink_inv [OF i 1]] getLink_inv [OF i 1] show ?thesis
    by (auto simp: Dispatch_def split: option.splits)
next
  case (DpLink s q dest r)
  obtain ok d1 where 1: "link_entry s d = (ok, d1)" by fastforce
  with i DpLink dispatched_inv [OF link_inv [OF i 1]] link_inv [OF i 1] show ?thesis
    by (cases ok) (simp_all add: DispatchLink_def)
next
  case (DpEnd c)
  with end_inv [OF i] show ?thesis by simp
next
  case (DpLimits op)
  with i show ?thesis by (simp add: dp_inv_def places_same_counts [of "lim_step op (dp_lim d)" "dp_lim d"])
qed

definition dp_start :: "limiter \<Rightarrow> dispatcher" where
  "dp_start l = \<lparr>dp_lim = l, dp_closed = [], dp_counters = [], dp_onlines = [], dp_after = []\<rparr>"

definition open_in :: "string \<Rightarrow> dispatcher \<Rightarrow> int" where
  "open_in g d = held g (open_leases (dp_after d))"

lemma run_inv: "lm_conn l = [] \<Longrightarrow> lm_node l = [] \<Longrightarrow> dp_inv (fold (dp_step env) es (dp_start l))"
proof -
  assume "lm_conn l = []" "lm_node l = []"
  then have "dp_inv (dp_start l)" by (simp add: dp_inv_def dp_start_def places_def count_at_def)
  then show ?thesis by (induction es arbitrary: l rule: rev_induct) (simp_all add: step_inv)
qed

text \<open>C34: However connections come in, by pipes or by a link of their own, end, and have their limits changed in between:
  the count of a group is the number of its connections that are open, so it is zero when all have ended; and a
  connection of a user with a limit is let in exactly while fewer than that many are open, and closed at both ends
  otherwise, whichever way it came.\<close>

theorem dispatcher_places:
  fixes env :: dp_env and es :: "dp_event list"
  assumes new: "lm_conn l = []" "lm_node l = []"
  defines "d \<equiv> fold (dp_step env) es (dp_start l)"
  assumes user: "ss_user s = Some v" "du_email v \<noteq> []" "lookupUserInfo (dp_lim d) (ss_tag s) (du_email v) = Some u" "0 < ui_device u"
  shows "(g \<noteq> [] \<longrightarrow> count_at (lm_conn (dp_lim d)) g = open_in g d \<and> (dp_after d = [] \<longrightarrow> count_at (lm_conn (dp_lim d)) g = 0)) \<and>
    (fst (getLink (de_policy env) s d) \<noteq> None \<longleftrightarrow> open_in (quota_group (du_email v) u) d < ui_device u) \<and>
    (fst (link_entry s d) \<longleftrightarrow> open_in (quota_group (du_email v) u) d < ui_device u) \<and>
    (\<not> open_in (quota_group (du_email v) u) d < ui_device u \<longrightarrow>
       dp_closed (snd (getLink (de_policy env) s d)) = dp_closed d @ [(ss_id s, Down), (ss_id s, Up)] \<and>
       dp_closed (snd (link_entry s d)) = dp_closed d @ [(ss_id s, Down), (ss_id s, Up)])"
proof -
  have i: "dp_inv d" unfolding d_def by (rule run_inv [OF new])
  obtain ok d1 where 1: "take_place (ss_id s) (ss_tag s) (du_email v) d = (ok, d1)" by fastforce
  note t = take_place_inv [OF i 1]
  have ok: "ok \<longleftrightarrow> open_in (quota_group (du_email v) u) d < ui_device u"
    using t(3) [OF user(3,4,2)] by (simp add: open_in_def)
  obtain r d' where 2: "getLink (de_policy env) s d = (r, d')" by fastforce
  have g: "(r \<noteq> None) = ok" "\<not> ok \<longrightarrow> d' = d1" using getLink_cases [OF 2] user(1,2) 1 by auto
  have k: "link_entry s d = (ok, d1)" using user(1,2) 1 by (simp add: link_entry_def)
  have "count_at (lm_conn (dp_lim d)) g = open_in g d" if "g \<noteq> []"
    using i that by (simp add: dp_inv_def places_def open_in_def)
  moreover have "open_in g d = 0" if "dp_after d = []" using that by (simp add: open_in_def)
  ultimately show ?thesis using ok g k t(2) 2 by simp
qed

section \<open>Where the bytes go\<close>

text \<open>The two directions of a user's connection go through one and the same bucket, which is the user's, and are
  counted before they wait for it: uplink by the writer of the inbound side, downlink by that of the outbound side.\<close>

theorem getLink_shape:
  assumes "getLink policy s d = (Some (inLink, outLink), d')" and "ss_user s = Some u" and "du_email u \<noteq> []"
  shows "\<exists>wrap. (wrap = id \<or> (\<exists>a. wrap = RateWriter a \<and> hub_addr (dp_lim d') (ss_tag s) (du_email u) = Some a)) \<and>
    (wrap = id \<longleftrightarrow> map_of (lm_inbounds (dp_lim d)) (ss_tag s) = None) \<and>
    dl_writer inLink = (if pp_uplink (policy (du_level u))
       then SizeStatWriter (stat_name (du_email u) ''traffic>>>uplink'') else id) (wrap (PipeWriter (ss_id s) Up)) \<and>
    dl_writer outLink = (if pp_downlink (policy (du_level u))
       then SizeStatWriter (stat_name (du_email u) ''traffic>>>downlink'') else id) (wrap (PipeWriter (ss_id s) Down)) \<and>
    dl_reader inLink = PipeReader (ss_id s) Down \<and> dl_reader outLink = PipeReader (ss_id s) Up"
proof -
  obtain ok d1 where 1: "take_place (ss_id s) (ss_tag s) (du_email u) d = (ok, d1)" by fastforce
  with assms have ok: "ok" by (auto simp: getLink_def Let_def split: bool.splits)
  obtain bucket l2 where 2: "GetUserBucket (dp_lim d1) (ss_tag s) (du_email u) (ss_ip s) = (bucket, l2)" by fastforce
  define wrap where "wrap = (case bucket of None \<Rightarrow> id | Some a \<Rightarrow> RateWriter a)"
  have w: "(case bucket of None \<Rightarrow> wr | Some a \<Rightarrow> RateWriter a wr) = wrap wr" for wr
    by (simp add: wrap_def split: option.splits)
  obtain up d3 where 3: "counted (pp_uplink (policy (du_level u))) (stat_name (du_email u) ''traffic>>>uplink'')
      (wrap (PipeWriter (ss_id s) Up)) (d1\<lparr>dp_lim := l2\<rparr>) = (up, d3)" by fastforce
  obtain down d4 where 4: "counted (pp_downlink (policy (du_level u))) (stat_name (du_email u) ''traffic>>>downlink'')
      (wrap (PipeWriter (ss_id s) Down)) d3 = (down, d4)" by fastforce
  have r: "dl_writer inLink = up" "dl_writer outLink = down" "dl_reader inLink = PipeReader (ss_id s) Down"
    "dl_reader outLink = PipeReader (ss_id s) Up" "dp_lim d' = dp_lim d4"
    using assms 1 ok 2 3 4 by (auto simp: getLink_def Let_def w)
  have l: "dp_lim d4 = l2" using counted_frame [OF 3] counted_frame [OF 4] by simp
  have ib: "lm_inbounds (dp_lim d1) = lm_inbounds (dp_lim d)"
  proof -
    obtain a lease l1 where a: "AcquireConn (dp_lim d) (ss_tag s) (du_email u) = ((a, lease), l1)" by (metis surj_pair)
    with 1 ok AcquireConn_effect(1) [OF a] show ?thesis
      by (auto simp: take_place_def split: if_splits)
  qed
  have b: "bucket = None \<longleftrightarrow> map_of (lm_inbounds (dp_lim d)) (ss_tag s) = None"
    using 2 ib by (auto simp: GetUserBucket_def hub_load_or_store_def Let_def split: option.splits) (metis+)
  have a: "hub_addr l2 (ss_tag s) (du_email u) = Some a" if "bucket = Some a" for a
    using get_bucket_addr(1) [OF 2] that by simp
  have "wrap = id \<or> (\<exists>a. wrap = RateWriter a \<and> hub_addr l2 (ss_tag s) (du_email u) = Some a)"
    using a by (auto simp: wrap_def split: option.splits)
  moreover have "wrap = id \<longleftrightarrow> bucket = None"
    by (auto simp: wrap_def fun_eq_iff split: option.splits)
  ultimately show ?thesis using counted_frame(4) [OF 3] counted_frame(4) [OF 4] r l b by (intro exI [of _ wrap]) simp
qed

section \<open>Nothing is lost by looking\<close>

datatype reader_op = LookOp | ReadOp

fun arrived :: "arrival list \<Rightarrow> string" where
  "arrived [] = []"
| "arrived (Arrive mb ms # r) = mb @ arrived r"
| "arrived (ReadError # r) = arrived r"

fun reader_run :: "reader_op list \<Rightarrow> cachedReader \<Rightarrow> string \<times> cachedReader" where
  "reader_run [] r = ([], r)"
| "reader_run (LookOp # ops) r = reader_run ops (snd (Cache r))"
| "reader_run (ReadOp # ops) r =
     (case ReadMultiBuffer r of (mb, r1) \<Rightarrow> (case reader_run ops r1 of (out, r2) \<Rightarrow> ((case mb of None \<Rightarrow> [] | Some x \<Rightarrow> x) @ out, r2)))"

definition pending :: "cachedReader \<Rightarrow> string" where
  "pending r = cr_cache r @ arrived (cr_src r)"

lemma look_pending: "Cache r = (x, r') \<Longrightarrow> pending r' = pending r"
  by (auto simp: Cache_def pending_def split: list.splits arrival.splits)

lemma read_pending: "ReadMultiBuffer r = (mb, r') \<Longrightarrow> (case mb of None \<Rightarrow> [] | Some x \<Rightarrow> x) @ pending r' = pending r"
  by (auto simp: ReadMultiBuffer_def readInternal_def pending_def split: list.splits arrival.splits if_splits)

lemma sniff_pending: "pending (snd (sniff_content sniff deadline n r)) = pending r"
proof (induction sniff deadline n r rule: sniff_content.induct)
  case (1 sniff deadline attempts r)
  show ?case
  proof (cases "cr_src r = []")
    case True
    then show ?thesis by (simp add: sniff_content.simps [of sniff deadline attempts r])
  next
    case False
    obtain x r1 where c: "Cache r = (x, r1)" by fastforce
    show ?thesis
    proof (cases x)
      case None
      with False c look_pending [OF c] show ?thesis by (simp add: sniff_content.simps [of sniff deadline attempts r])
    next
      case (Some pm)
      obtain payload ms where pm: "pm = (payload, ms)" by fastforce
      have IH: "pending (snd (sniff_content sniff (deadline - int ms) m r1)) = pending r"
        if "\<not> (2 \<le> m \<or> deadline - int ms \<le> 0)" for m
        using that 1 [OF False c [symmetric] Some pm [symmetric] refl] look_pending [OF c] by metis
      show ?thesis using False c Some pm IH look_pending [OF c]
        by (auto simp: sniff_content.simps [of sniff deadline attempts r] Let_def split: sniff_out.splits)
    qed
  qed
qed

text \<open>Sniffing takes nothing out of a connection: whatever looks and reads follow each other, and after the whole
  sniffing loop, what was delivered and what is still kept or to come are together exactly the bytes that arrived, in their
  order.\<close>

theorem sniffing_loses_nothing:
  "fst (reader_run ops r) @ pending (snd (reader_run ops r)) = pending r \<and>
   pending (snd (sniffer meta sniff compose metadataOnly r)) = pending r"
proof
  show "fst (reader_run ops r) @ pending (snd (reader_run ops r)) = pending r"
  proof (induction ops arbitrary: r)
    case (Cons op ops)
    show ?case
    proof (cases op)
      case LookOp
      with Cons look_pending [of r "fst (Cache r)" "snd (Cache r)"] show ?thesis by simp
    next
      case ReadOp
      obtain mb r1 where 1: "ReadMultiBuffer r = (mb, r1)" by fastforce
      with ReadOp Cons [of r1] read_pending [OF 1] show ?thesis by (auto simp: case_prod_beta)
    qed
  qed simp
  show "pending (snd (sniffer meta sniff compose metadataOnly r)) = pending r"
    using sniff_pending [of sniff 200 0 r] by (auto simp: sniffer_def split: prod.splits option.splits)
qed

section \<open>Where it goes\<close>

text \<open>A connection is handed to exactly one outbound, which exists, or closed at both ends; an outbound that is forced or
  chosen by a rule but does not exist is never replaced by the default one; sniffing changes the routed destination
  exactly when the request says so, and the target that is dialled only if it is not for routing alone.\<close>

theorem dispatch_destination:
  assumes "routedDispatch rb forced c d = (out, d')"
    and "sniffed_target re_match fake request result destination = (ob, noted, dest)"
  shows "(case out of
      Dropped \<Rightarrow> dp_closed d' = dp_closed d @ [(c, Down), (c, Up)]
    | Handed tag k \<Rightarrow> d' = d \<and>
        (case k of PickForced \<Rightarrow> tag = forced \<and> tag \<in> set (rb_handlers rb)
         | PickRouted \<Rightarrow> forced = [] \<and> rb_pick rb = Some (Some tag) \<and> tag \<in> set (rb_handlers rb)
         | PickDefault \<Rightarrow> forced = [] \<and> (rb_pick rb = None \<or> rb_pick rb = Some None) \<and> rb_default rb = Some tag)) \<and>
    ob_original ob = destination \<and>
    (dest = destination \<or> (\<exists>x. result = Some x \<and> shouldOverride re_match fake x request \<and> dest = destination\<lparr>dd_address := sr_domain x\<rparr>)) \<and>
    (ob_target ob = destination \<or> ob_target ob = dest \<and> \<not> (sq_route_only request \<and> \<not> fake \<and>
        (\<forall>x. result = Some x \<longrightarrow> domain_protocol x \<noteq> ''fakedns'' \<and> domain_protocol x \<noteq> ''fakedns+others''))) \<and>
    (ob_route ob = None \<or> ob_route ob = Some dest \<and> ob_target ob = destination)"
proof -
  have "case out of
      Dropped \<Rightarrow> dp_closed d' = dp_closed d @ [(c, Down), (c, Up)]
    | Handed tag k \<Rightarrow> d' = d \<and>
        (case k of PickForced \<Rightarrow> tag = forced \<and> tag \<in> set (rb_handlers rb)
         | PickRouted \<Rightarrow> forced = [] \<and> rb_pick rb = Some (Some tag) \<and> tag \<in> set (rb_handlers rb)
         | PickDefault \<Rightarrow> forced = [] \<and> (rb_pick rb = None \<or> rb_pick rb = Some None) \<and> rb_default rb = Some tag)"
    using assms(1) by (auto simp: routedDispatch_def Let_def close_both_def split: if_splits option.splits)
  moreover have "ob_original ob = destination \<and>
    (dest = destination \<or> (\<exists>x. result = Some x \<and> shouldOverride re_match fake x request \<and> dest = destination\<lparr>dd_address := sr_domain x\<rparr>)) \<and>
    (ob_target ob = destination \<or> ob_target ob = dest \<and> \<not> (sq_route_only request \<and> \<not> fake \<and>
        (\<forall>x. result = Some x \<longrightarrow> domain_protocol x \<noteq> ''fakedns'' \<and> domain_protocol x \<noteq> ''fakedns+others''))) \<and>
    (ob_route ob = None \<or> ob_route ob = Some dest \<and> ob_target ob = destination)"
    using assms(2) by (auto simp: sniffed_target_def Let_def split: option.splits if_splits)
  ultimately show ?thesis by blast
qed

section \<open>The path the dispatcher does not limit\<close>

text \<open>Connections that come in by \<open>DispatchLink\<close> are limited by the hook that looks for the user's bucket. It passes over a
  user without a rate of his own, even when the node has one.\<close>

lemma hook_ignores_node_limit:
  assumes "\<And>t i k v. (t, i) \<in> set (lm_inbounds l) \<Longrightarrow> (k, v) \<in> set (ii_users i) \<Longrightarrow> ui_email v = email \<Longrightarrow> ui_speed v = 0"
  shows "LookupBucketByEmail l email = (None, l)"
proof -
  have "lookup_bucket_in email xs l = (None, l)"
    if "\<And>t i k v. (t, i) \<in> set xs \<Longrightarrow> (k, v) \<in> set (ii_users i) \<Longrightarrow> ui_email v = email \<Longrightarrow> ui_speed v = 0" for xs
    using that
  proof (induction xs)
    case (Cons x xs)
    obtain t i where x: "x = (t, i)" by fastforce
    have z: "(case find (\<lambda>(_, u). ui_email u = email) (ii_users i) of None \<Rightarrow> 0 | Some (_, u) \<Rightarrow> ui_speed u) = 0"
    proof (cases "find (\<lambda>(_, u). ui_email u = email) (ii_users i)")
      case (Some kv)
      obtain k v where kv: "kv = (k, v)" by fastforce
      with Some have "(k, v) \<in> set (ii_users i)" "ui_email v = email" by (auto simp: find_Some_iff) (metis nth_mem)
      with Cons.prems [of t i k v] x Some kv show ?thesis by simp
    qed simp
    have "lookup_bucket_in email xs l = (None, l)" using Cons.IH Cons.prems by (meson list.set_intros(2))
    with x z show ?case by (simp add: Let_def)
  qed simp
  then show ?thesis using assms by (simp add: LookupBucketByEmail_def)
qed

definition slow_node :: limiter where
  "slow_node = AddInboundLimiter new_limiter ''in'' 100000 [demo_user\<lparr>ui_speed := 0\<rparr>]"

lemma node_limit_on_one_path_only:
  "(case GetUserBucket slow_node ''in'' ''u'' ''1.1.1.1'' of (Some a, l) \<Rightarrow> lm_store l ! a = bucket_for 100000 | _ \<Rightarrow> False) \<and>
   LookupBucketByEmail slow_node ''u'' = (None, slow_node) \<and>
   LookupBucketByEmail (SetUserSpeed slow_node ''in'' ''u'' 50000) ''u'' = (None, SetUserSpeed slow_node ''in'' ''u'' 50000)"
proof (intro conjI)
  show "case GetUserBucket slow_node ''in'' ''u'' ''1.1.1.1'' of (Some a, l) \<Rightarrow> lm_store l ! a = bucket_for 100000 | _ \<Rightarrow> False"
    by code_simp
  show "LookupBucketByEmail slow_node ''u'' = (None, slow_node)"
    by (rule hook_ignores_node_limit)
      (auto simp: slow_node_def AddInboundLimiter_def put_inbound_info_def new_limiter_def user_table_def demo_user_def)
  show "LookupBucketByEmail (SetUserSpeed slow_node ''in'' ''u'' 50000) ''u'' = (None, SetUserSpeed slow_node ''in'' ''u'' 50000)"
    by (rule hook_ignores_node_limit)
      (auto simp: slow_node_def AddInboundLimiter_def put_inbound_info_def new_limiter_def user_table_def demo_user_def
        SetUserSpeed_def hub_load_or_store_def Let_def)
qed

text \<open>It does not note that the user is online either, so the next look at who is online forgets the bucket of a connection
  that is open, and the next connection gets another one beside it.\<close>

lemma open_bucket_forgotten:
  "let l1 = snd (LookupBucketByEmail demo_limiter ''u''); l2 = snd (GetOnlineUsers l1 ''in'')
   in fst (LookupBucketByEmail demo_limiter ''u'') = Some 0 \<and> fst (LookupBucketByEmail l2 ''u'') = Some 1 \<and>
      lm_store (snd (LookupBucketByEmail l2 ''u'')) = [bucket_for 100000, bucket_for 100000]"
  by code_simp

section \<open>Examples\<close>

definition all_counted :: "nat \<Rightarrow> dp_policy" where
  "all_counted _ = \<lparr>pp_uplink = True, pp_downlink = True, pp_online = True\<rparr>"

definition user_session :: "nat \<Rightarrow> dp_session" where
  "user_session c = \<lparr>ss_id = c, ss_tag = ''in'', ss_user = Some \<lparr>du_email = ''u'', du_level = 0\<rparr>, ss_ip = ''1.1.1.1''\<rparr>"

definition toy_dispatch :: dp_env where
  "toy_dispatch = \<lparr>de_policy = all_counted, de_match = (\<lambda>_ _. None), de_fake = (\<lambda>_. False), de_meta = None, de_sniff = (\<lambda>_. NoClue),
     de_compose = (\<lambda>_ x. x), de_routes = (\<lambda>_. \<lparr>rb_handlers = [], rb_default = Some ''direct'', rb_pick = None\<rparr>), de_forced = [],
     de_valid = (\<lambda>_. True)\<rparr>"

definition no_sniff :: sniff_request where
  "no_sniff = \<lparr>sq_enabled = False, sq_metadata_only = False, sq_route_only = False, sq_exclude = [], sq_override = []\<rparr>"

definition toy_dest :: dp_dest where
  "toy_dest = \<lparr>dd_address = ''h'', dd_port = 443, dd_network = 2\<rparr>"

definition toy_days :: "dp_event list" where
  "toy_days = (let r = \<lparr>cr_src = [], cr_cache = []\<rparr> in
     [DpDispatch (user_session 1) no_sniff toy_dest r, DpLink (user_session 2) no_sniff toy_dest r, DpEnd 1,
      DpLink (user_session 3) no_sniff toy_dest r])"

lemma dispatcher_places_witness:
  "let d = fold (dp_step toy_dispatch) toy_days (dp_start demo_limiter)
   in count_at (lm_conn (dp_lim d)) ''g'' = open_in ''g'' d \<and> fst (getLink (de_policy toy_dispatch) (user_session 4) d) = None"
proof -
  let ?d = "fold (dp_step toy_dispatch) toy_days (dp_start demo_limiter)"
  have h: "lm_conn demo_limiter = []" "lm_node demo_limiter = []"
    "ss_user (user_session 4) = Some \<lparr>du_email = ''u'', du_level = 0\<rparr>" "du_email \<lparr>du_email = ''u'', du_level = 0\<rparr> \<noteq> []"
    "lookupUserInfo (dp_lim ?d) (ss_tag (user_session 4)) (du_email \<lparr>du_email = ''u'', du_level = 0\<rparr>) = Some demo_user"
    "0 < ui_device demo_user" "\<not> open_in (quota_group ''u'' demo_user) ?d < ui_device demo_user"
    by code_simp+
  have e: "du_email \<lparr>du_email = ''u'', du_level = 0\<rparr> = ''u''" "''g'' \<noteq> ([] :: string)" by simp_all
  show ?thesis unfolding Let_def
    using dispatcher_places [OF h(1-6), of "''g''", unfolded e(1)] h(7) e(2) by blast
qed

lemma getLink_shape_witness:
  "\<exists>inLink outLink d' a. getLink all_counted (user_session 1) (dp_start demo_limiter) = (Some (inLink, outLink), d') \<and>
     dl_writer inLink = SizeStatWriter ''user>>>u>>>traffic>>>uplink'' (RateWriter a (PipeWriter 1 Up))"
proof -
  obtain inLink outLink d' where g: "getLink all_counted (user_session 1) (dp_start demo_limiter) = (Some (inLink, outLink), d')"
  proof -
    have "fst (getLink all_counted (user_session 1) (dp_start demo_limiter)) \<noteq> None" by code_simp
    with that show ?thesis by (metis option.exhaust prod.collapse)
  qed
  have u: "ss_user (user_session 1) = Some \<lparr>du_email = ''u'', du_level = 0\<rparr>" "du_email \<lparr>du_email = ''u'', du_level = 0\<rparr> \<noteq> []"
    "map_of (lm_inbounds (dp_lim (dp_start demo_limiter))) (ss_tag (user_session 1)) \<noteq> None" by code_simp+
  obtain a where "dl_writer inLink = SizeStatWriter (stat_name ''u'' ''traffic>>>uplink'') (RateWriter a (PipeWriter 1 Up))"
    using getLink_shape [OF g u(1,2)] u(3) by (auto simp: all_counted_def user_session_def)
  moreover have "stat_name ''u'' ''traffic>>>uplink'' = ''user>>>u>>>traffic>>>uplink''" by code_simp
  ultimately show ?thesis using g by auto
qed

lemma dispatch_destination_witness:
  "fst (routedDispatch \<lparr>rb_handlers = [''direct''], rb_default = Some ''direct'', rb_pick = Some (Some ''gone'')\<rparr> [] 1 (dp_start demo_limiter)) = Dropped \<and>
   dp_closed (snd (routedDispatch \<lparr>rb_handlers = [''direct''], rb_default = Some ''direct'', rb_pick = Some (Some ''gone'')\<rparr> [] 1 (dp_start demo_limiter))) =
     [(1, Down), (1, Up)]"
proof -
  let ?rb = "\<lparr>rb_handlers = [''direct''], rb_default = Some ''direct'', rb_pick = Some (Some ''gone'')\<rparr>"
  have 1: "fst (routedDispatch ?rb [] 1 (dp_start demo_limiter)) = Dropped" by code_simp
  then have r: "routedDispatch ?rb [] 1 (dp_start demo_limiter) = (Dropped, snd (routedDispatch ?rb [] 1 (dp_start demo_limiter)))"
    by (simp add: prod_eq_iff)
  have s: "sniffed_target (\<lambda>_ _. None) False \<lparr>sq_enabled = True, sq_metadata_only = False, sq_route_only = False, sq_exclude = [], sq_override = []\<rparr>
      None toy_dest = (\<lparr>ob_original = toy_dest, ob_target = toy_dest, ob_route = None\<rparr>, None, toy_dest)" by (simp add: sniffed_target_def Let_def)
  from dispatch_destination [OF r s] 1 show ?thesis by (simp add: dp_start_def)
qed

end
