(* ===== verification/Start_Up.thy ===== *)
theory Start_Up
  imports Path_Guard Xray_Service Confdir_Merge Config_Edits Config_Load Config_Handlers Listen_Gate
begin

text \<open>
  The start of the agent (\<open>main\<close> of \<open>cmd/mmw-agent/main.go\<close>) as the composition of the parts modelled elsewhere: the
  protection of a master on the same host, the import of an external Xray's configuration, the data files, the
  templates, the completion and the repairs, the first start of Xray, the tags, the route table and the port that is
  bound. The file world, the answers of commands and of the Xray library are those of \<open>svc\<close>; mirrors, processes and the
  results of binding a port are parameters.
\<close>

section \<open>What the start depends on\<close>

record start_env =
  up_svc :: svc_env
  up_stamp :: string
  up_tunnel :: string
  up_default :: string
  up_exe :: "string option"
  up_get :: "string \<Rightarrow> (nat \<times> string \<times> bool) option"

definition XrayAccessLogPathFor :: "string \<Rightarrow> string" where
  "XrayAccessLogPathFor agentLogPath =
     (let p = (if agentLogPath = [] then ''/var/log/mmw-agent/mmw-agent.log'' else agentLogPath)
      in path_join (path_dir p) ''xray-access.log'')"

text \<open>The handlers as \<open>main\<close> sets them up from the configuration.\<close>

definition handlers_for :: "start_env \<Rightarrow> config \<Rightarrow> svc_env" where
  "handlers_for env c =
     (up_svc env)\<lparr>se_mode := cf_xray c, se_method := cf_rmethod c, se_custom := cf_rcommand c,
       se_access := (if cf_xray c = ''embedded'' then XrayAccessLogPathFor (cf_log c) else se_access (up_svc env))\<rparr>"

definition obj_dec :: "svc_env \<Rightarrow> string \<Rightarrow> obj option" where
  "obj_dec env s = Option.bind (xh_dec (se_xray env) s) as_obj"

section \<open>The log\<close>

text \<open>Whether the log goes to a file.\<close>

definition setupLogging :: "string \<Rightarrow> world \<Rightarrow> string option \<times> world" where
  "setupLogging logPath w =
     (let p = (if logPath = [] then ''/var/log/mmw-agent/mmw-agent.log'' else logPath)
      in (case sys_call w of
            (Some _, w1) \<Rightarrow> (None, w1)
          | (None, w1) \<Rightarrow> (Some p, w1)))"

section \<open>The data files\<close>

definition geoMirrorTemplates :: "string list" where
  "geoMirrorTemplates =
     [''https://cdn.jsdelivr.net/gh/Loyalsoldier/v2ray-rules-dat@release/'',
      ''https://gh-proxy.com/https://github.com/Loyalsoldier/v2ray-rules-dat/releases/latest/download/'',
      ''https://github.com/Loyalsoldier/v2ray-rules-dat/releases/latest/download/'']"

text \<open>An answer is a status, the body as far as it arrived, and whether it arrived whole.\<close>

definition downloadFile :: "(string \<Rightarrow> (nat \<times> string \<times> bool) option) \<Rightarrow> string \<Rightarrow> string \<Rightarrow> world \<Rightarrow> bool \<times> world" where
  "downloadFile get dest url w =
     (case get url of
        None \<Rightarrow> (False, w)
      | Some (code, data, whole) \<Rightarrow>
          if code \<noteq> 200 then (False, w)
          else
            (let tmp = dest @ ''.tmp''
             in (case write_file tmp [] w of
                   (Some _, w1) \<Rightarrow> (False, w1)
                 | (None, w1) \<Rightarrow>
                     (case write_file tmp data w1 of
                        (r, w2) \<Rightarrow>
                          if r \<noteq> None \<or> \<not> whole then (False, snd (remove_file tmp w2))
                          else
                            (case rename_file tmp dest (snd (sys_call w2)) of
                               (r, w3) \<Rightarrow> (r = None, w3))))))"

fun try_mirrors :: "(string \<Rightarrow> (nat \<times> string \<times> bool) option) \<Rightarrow> string \<Rightarrow> string \<Rightarrow> string list \<Rightarrow> world \<Rightarrow> world" where
  "try_mirrors get dest name [] w = w"
| "try_mirrors get dest name (tpl # tpls) w =
     (case downloadFile get dest (tpl @ name) w of
        (True, w1) \<Rightarrow> w1
      | (False, w1) \<Rightarrow> try_mirrors get dest name tpls w1)"

definition geo_file :: "(string \<Rightarrow> (nat \<times> string \<times> bool) option) \<Rightarrow> string \<Rightarrow> string \<Rightarrow> world \<Rightarrow> world" where
  "geo_file get dir name w =
     (if path_exists w (path_join dir name) then w
      else try_mirrors get (path_join dir name) name geoMirrorTemplates w)"

definition ensureGeoData :: "string option \<Rightarrow> (string \<Rightarrow> (nat \<times> string \<times> bool) option) \<Rightarrow> world \<Rightarrow> world" where
  "ensureGeoData exe get w =
     (case exe of
        None \<Rightarrow> w
      | Some p \<Rightarrow> fold (geo_file get (path_dir p)) [''geoip.dat'', ''geosite.dat''] w)"

section \<open>Processes that hold the port\<close>

text \<open>The digits of a directory's name, none if another character comes before the end.\<close>

fun pid_of :: "int \<Rightarrow> string \<Rightarrow> int" where
  "pid_of n [] = n"
| "pid_of n (c # cs) = (if is_digit c then pid_of (n * 10 + int (of_char c - 48)) cs else 0)"

definition is_agent_exe :: "string \<Rightarrow> bool" where
  "is_agent_exe exe \<longleftrightarrow> has_suffix exe ''/mmw-agent'' \<or> str_contains exe ''mmw-agent ''"

definition killOtherMmwAgentProcesses :: "int \<Rightarrow> proc list \<Rightarrow> int list" where
  "killOtherMmwAgentProcesses self procs =
     List.map_filter (\<lambda>e.
       if \<not> pr_dir e then None
       else
         (let pid = pid_of 0 (pr_name e)
          in if pid = 0 \<or> pid = self then None
             else (case pr_exe e of None \<Rightarrow> None | Some exe \<Rightarrow> if is_agent_exe exe then Some pid else None))) procs"

section \<open>Xray's configuration at start\<close>

definition manage_EnsureXrayConfig :: "svc_env \<Rightarrow> svc \<Rightarrow> ensure_result \<times> svc" where
  "manage_EnsureXrayConfig env st =
     (case findXrayConfigPath env st of
        (path, st1) \<Rightarrow>
          on_world (EnsureXrayConfig
            \<lparr>ce_dec = obj_dec env, ce_enc = se_enc env, ce_build_in = (\<lambda>_. True), ce_build_out = (\<lambda>_. True),
             ce_path = path, ce_confdir = [], ce_embedded = (se_mode env = ''embedded'')\<rparr>) st1)"

definition findXrayConfigInfo :: "svc_env \<Rightarrow> svc \<Rightarrow> xray_paths \<times> svc" where
  "findXrayConfigInfo env st =
     (if se_mode env = ''embedded'' \<and> path_exists (disk st) default_path
      then (\<lparr>ConfigPath = default_path, ConfDir = []\<rparr>, st)
      else on_world (Discover (se_xray env)) st)"

definition on_file :: "(world \<Rightarrow> world) \<Rightarrow> svc \<Rightarrow> svc" where
  "on_file f st = snd (on_world (\<lambda>w. ((), f w)) st)"

fun promote_fragments :: "svc_env \<Rightarrow> string \<Rightarrow> string list \<Rightarrow> svc \<Rightarrow> svc" where
  "promote_fragments env dir [] st = st"
| "promote_fragments env dir (name # names) st =
     (if is_json_name name
      then promote_fragments env dir names
             (on_file (promoteInboundTagsInFile (obj_dec env) (se_enc env) (path_join dir name)) st)
      else promote_fragments env dir names st)"

definition promoteInboundTagsToConfig :: "svc_env \<Rightarrow> svc \<Rightarrow> svc" where
  "promoteInboundTagsToConfig env st =
     (case findXrayConfigInfo env st of
        (paths, st1) \<Rightarrow>
          (let st2 = (if ConfigPath paths = [] then st1
                      else on_file (promoteInboundTagsInFile (obj_dec env) (se_enc env) (ConfigPath paths)) st1)
           in if ConfDir paths = [] then st2
              else
                (case on_world sys_call st2 of
                   (Some _, st3) \<Rightarrow> st3
                 | (None, st3) \<Rightarrow> promote_fragments env (ConfDir paths) (dir_files (disk st3) (ConfDir paths)) st3)))"

definition PromoteAllTagsOnStartup :: "svc_env \<Rightarrow> svc \<Rightarrow> svc" where
  "PromoteAllTagsOnStartup env st =
     (let st1 = promoteInboundTagsToConfig env st
      in (case findXrayConfigPath env st1 of
            (p, st2) \<Rightarrow>
              (let st3 = (if p = [] then st2 else on_file (promoteOutboundTagsInFile (obj_dec env) (se_enc env) p) st2)
               in (case findXrayConfigPath env st3 of
                     (q, st4) \<Rightarrow> on_file (dedupeXrayConfigTagsOnDisk (obj_dec env) (se_enc env) q) st4))))"

section \<open>The start of Xray\<close>

definition https_master :: "config \<Rightarrow> bool" where
  "https_master c \<longleftrightarrow> has_prefix (to_lower (trim_space (cf_master c))) ''https://''"

text \<open>A master on this host that serves HTTPS keeps port 443: the mode is taken back and the configuration cleaned.\<close>

definition protect_local_master :: "svc_env \<Rightarrow> config \<Rightarrow> svc \<Rightarrow> string \<times> svc" where
  "protect_local_master env c st =
     (if (cf_steal c = ''tunnel'' \<or> cf_steal c = ''fallback'') \<and> https_master c \<and>
         (path_exists (disk st) ''/etc/mmwx'' \<or> path_exists (disk st) ''/var/lib/mmwx'')
      then ([], on_file (protectMasterHTTPSPort443 (obj_dec env) (se_enc env) default_path) st)
      else (cf_steal c, st))"

definition import_external :: "svc_env \<Rightarrow> string \<Rightarrow> svc \<Rightarrow> svc" where
  "import_external env stamp st =
     (case on_world (Discover (se_xray env)) st of
        (found, st1) \<Rightarrow>
          (let merge = on_world (MergeXrayConfdirInto (obj_dec env) (se_enc env) stamp (ConfigPath found) (ConfDir found) default_path)
           in if ConfigPath found \<noteq> [] \<and> ConfigPath found \<noteq> default_path then
                (case merge st1 of
                   (Inl _, st2) \<Rightarrow> st2
                 | (Inr _, st2) \<Rightarrow>
                     snd (on_world (rename_file (ConfigPath found) (ConfigPath found @ ''.before-mmwx-'' @ stamp)) st2))
              else if ConfigPath found = default_path \<and> ConfDir found \<noteq> [] then snd (merge st1)
              else st1))"

definition stop_external :: "svc_env \<Rightarrow> svc \<Rightarrow> svc" where
  "stop_external env st =
     (if se_docker env then st else snd (systemctl ''disable xray'' (snd (systemctl ''stop xray'' st))))"

text \<open>The configuration the embedded instance is started with.\<close>

definition prepare_embedded :: "start_env \<Rightarrow> svc_env \<Rightarrow> string \<Rightarrow> svc \<Rightarrow> svc" where
  "prepare_embedded env h steal st =
     (let st1 = stop_external h (import_external h (up_stamp env) st);
          st2 = on_file (ensureGeoData (up_exe env) (up_get env)) st1;
          st3 = on_file (initXrayConfig (obj_dec h) (se_enc h) (up_tunnel env) (up_default env) default_path steal) st2;
          st4 = snd (manage_EnsureXrayConfig h st3)
      in on_file (patchTunnelForwardUDPFullcone (obj_dec h) (se_enc h) default_path) st4)"

definition launch_embedded :: "svc_env \<Rightarrow> svc \<Rightarrow> svc" where
  "launch_embedded h st =
     (case embedded_Start h \<lparr>em_path = default_path, em_run = None\<rparr> st of
        (True, e, st1) \<Rightarrow> st1\<lparr>sv_emb := Some e\<rparr>
      | (False, _, st1) \<Rightarrow> st1)"

text \<open>What is done when no embedded instance runs: the external mode, or an embedded start that did not happen or failed.\<close>

definition start_external :: "svc_env \<Rightarrow> bool \<Rightarrow> svc \<Rightarrow> svc" where
  "start_external h authorized st =
     (if \<not> authorized then StopXray h st
      else
        (case manage_EnsureXrayConfig h st of
           (res, st1) \<Rightarrow> if er_modified res then snd (RestartXray h st1) else st1))"

definition authorized_at_start :: "config \<Rightarrow> bool" where
  "authorized_at_start c = (case cf_auth c of None \<Rightarrow> True | Some b \<Rightarrow> b)"

text \<open>In the external mode a goroutine fetches the data files meanwhile; nothing else reads or writes them, so they are fetched at
  one point here.\<close>

definition start_xray :: "start_env \<Rightarrow> config \<Rightarrow> svc \<Rightarrow> svc" where
  "start_xray env c st =
     (let h = handlers_for env c
      in (case protect_local_master h c st of
            (steal, st1) \<Rightarrow>
              (let st2 = (if cf_xray c = ''embedded'' then
                            (let p = prepare_embedded env h steal st1
                             in if authorized_at_start c then launch_embedded h p else p)
                          else on_file (ensureGeoData (up_exe env) (up_get env)) st1);
                   st3 = (if sv_emb st2 = None then start_external h (authorized_at_start c) st2 else st2)
               in PromoteAllTagsOnStartup h st3)))"

section \<open>The routes\<close>

datatype endpoint =
    Api_ServeHTTP | Api_ServeSpeedHTTP | Ep_ServicesStatus | Ep_ServiceControl | Ep_XrayInstall | Ep_XrayRemove
  | Ep_XrayConfig | Ep_XraySystemConfig | Ep_XrayConfigFiles | Ep_XrayTestConfig | Ep_XrayConfigTransaction
  | Ep_NginxInstall | Ep_NginxRemove | Ep_NginxConfig | Ep_NginxConfigFiles | Ep_SystemInfo | Ep_SystemNICs
  | Ep_GetLogs | Ep_LogFiles | Ep_Inbounds | Ep_Outbounds | Ep_Routing | Ep_BatchApply | Ep_Scan | Ep_CertDeploy
  | Ep_NginxSetupSSL | Ep_NginxServersList | Ep_NginxWebsites | Ep_DomainLatencyProbe | Ep_ReturnRouteTest
  | Ep_ClearStreamPort | Ep_ValidateSite | Ep_Limiter | Ep_SwitchXrayMode | Ep_SwitchListenPort | Ep_UpdateMasterURL
  | Ep_ProbeMasterURL | Ep_TakeoverExternalXray | Ep_XrayInstallStream | Ep_XrayRemoveStream | Ep_NginxInstallStream
  | Ep_NginxRemoveStream | Ep_AgentUpgradeStream | Ep_AgentUninstallStream | Warp_Install | Warp_Status
  | Warp_License | Warp_Remove | Ep_Health

definition warp_routes :: "(string \<times> endpoint) list" where
  "warp_routes =
     [(''/api/child/warp/install'', Warp_Install), (''/api/child/warp/status'', Warp_Status),
      (''/api/child/warp/license'', Warp_License), (''/api/child/warp/remove'', Warp_Remove)]"

definition RegisterChildRoutes :: "bool \<Rightarrow> (string \<times> endpoint) list" where
  "RegisterChildRoutes warp =
     [(''/api/child/traffic'', Api_ServeHTTP), (''/api/child/speed'', Api_ServeSpeedHTTP),
      (''/api/child/services/status'', Ep_ServicesStatus), (''/api/child/services/control'', Ep_ServiceControl),
      (''/api/child/xray/install'', Ep_XrayInstall), (''/api/child/xray/remove'', Ep_XrayRemove),
      (''/api/child/xray/config'', Ep_XrayConfig), (''/api/child/xray/system-config'', Ep_XraySystemConfig),
      (''/api/child/xray/config-files'', Ep_XrayConfigFiles), (''/api/child/xray/test-config'', Ep_XrayTestConfig),
      (''/api/child/xray/config-transaction'', Ep_XrayConfigTransaction),
      (''/api/child/nginx/install'', Ep_NginxInstall), (''/api/child/nginx/remove'', Ep_NginxRemove),
      (''/api/child/nginx/config'', Ep_NginxConfig), (''/api/child/nginx/config-files'', Ep_NginxConfigFiles),
      (''/api/child/system/info'', Ep_SystemInfo), (''/api/child/system/nics'', Ep_SystemNICs),
      (''/api/child/logs'', Ep_GetLogs), (''/api/child/logs/files'', Ep_LogFiles),
      (''/api/child/inbounds'', Ep_Inbounds), (''/api/child/outbounds'', Ep_Outbounds),
      (''/api/child/routing'', Ep_Routing), (''/api/child/batch-apply'', Ep_BatchApply), (''/api/child/scan'', Ep_Scan),
      (''/api/child/cert/deploy'', Ep_CertDeploy), (''/api/child/nginx/setup-ssl'', Ep_NginxSetupSSL),
      (''/api/child/nginx/servers-list'', Ep_NginxServersList), (''/api/child/nginx/websites'', Ep_NginxWebsites),
      (''/api/child/domains/latency'', Ep_DomainLatencyProbe),
      (''/api/child/network/return-route-test'', Ep_ReturnRouteTest),
      (''/api/child/nginx/clear-stream-port'', Ep_ClearStreamPort), (''/api/child/validate-site'', Ep_ValidateSite),
      (''/api/child/limiter'', Ep_Limiter), (''/api/child/agent/switch-xray-mode'', Ep_SwitchXrayMode),
      (''/api/child/agent/switch-listen-port'', Ep_SwitchListenPort),
      (''/api/child/agent/update-master-url'', Ep_UpdateMasterURL),
      (''/api/child/agent/probe-master-url'', Ep_ProbeMasterURL),
      (''/api/child/external-xray/takeover'', Ep_TakeoverExternalXray),
      (''/api/child/xray/install-stream'', Ep_XrayInstallStream), (''/api/child/xray/remove-stream'', Ep_XrayRemoveStream),
      (''/api/child/nginx/install-stream'', Ep_NginxInstallStream), (''/api/child/nginx/remove-stream'', Ep_NginxRemoveStream),
      (''/api/child/agent/upgrade-stream'', Ep_AgentUpgradeStream),
      (''/api/child/agent/uninstall-stream'', Ep_AgentUninstallStream)] @
     (if warp then warp_routes else [])"

text \<open>\<open>ServeMux\<close>: none of the patterns ends in a slash, so a path is served by the pattern that equals it. A pattern that
  is registered twice makes the program panic: \<open>None\<close>.\<close>

definition start_mux :: "bool \<Rightarrow> (string \<times> endpoint) list option" where
  "start_mux warp =
     (let rs = RegisterChildRoutes warp @ [(''/health'', Ep_Health)]
      in if distinct (List.map fst rs) then Some rs else None)"

section \<open>The port\<close>

text \<open>The results of the attempts on the configured port, which ports are free afterwards, and the last attempt.\<close>

definition bind_port ::
  "bind_result list \<Rightarrow> (int \<Rightarrow> bool) \<Rightarrow> bool \<Rightarrow> string \<Rightarrow> config \<Rightarrow> world \<Rightarrow> (string option \<times> config) \<times> world" where
  "bind_port results free again cfgFile c w =
     (case listenWithRetry 6 results of
        Inr _ \<Rightarrow> ((Some (cf_port c), c), w)
      | Inl _ \<Rightarrow>
          (case resolveListenPortConflict free (cf_port c) of
             (p, True) \<Rightarrow>
               (let c1 = c\<lparr>cf_port := itoa p\<rparr>;
                    w1 = snd (persistListenPort cfgFile (cf_port c1) w)
                in ((if again then Some (cf_port c1) else None, c1), w1))
           | (_, False) \<Rightarrow> ((None, c), w)))"

section \<open>What the disk calls do\<close>

lemma path_exists_dom:
  "path_exists w p \<longleftrightarrow> file_at w p \<noteq> None \<or> (\<exists>q. has_prefix q (p @ ''/'') \<and> file_at w q \<noteq> None)"
proof -
  have "list_ex (\<lambda>q. has_prefix q (p @ ''/'')) (List.map fst (files w)) \<longleftrightarrow> (\<exists>q. has_prefix q (p @ ''/'') \<and> file_at w q \<noteq> None)"
    by (force simp: list_ex_iff file_at_def map_of_eq_None_iff)
  then show ?thesis by (simp add: path_exists_def)
qed

lemma download_effect:
  assumes "downloadFile get dest url w = (ok, w')"
  shows "(\<forall>q. q \<noteq> dest \<longrightarrow> q \<noteq> dest @ ''.tmp'' \<longrightarrow> file_at w' q = file_at w q) \<and>
    (if ok then \<exists>data. get url = Some (200, data, True) \<and> file_at w' dest = Some data else file_at w' dest = file_at w dest) \<and>
    (tape w = [] \<longrightarrow> tape w' = [] \<and> (ok \<longleftrightarrow> (\<exists>data. get url = Some (200, data, True))))"
proof (cases "get url")
  case None
  with assms show ?thesis by (simp add: downloadFile_def)
next
  case (Some x)
  obtain code data whole where x: "x = (code, data, whole)" by (metis surj_pair)
  show ?thesis
  proof (cases "code = 200")
    case False
    with assms Some x show ?thesis by (simp add: downloadFile_def)
  next
    case True
    let ?tmp = "dest @ ''.tmp''"
    obtain r1 w1 where 1: "write_file ?tmp [] w = (r1, w1)" by fastforce
    obtain r2 w2 where 2: "write_file ?tmp data w1 = (r2, w2)" by fastforce
    obtain r3 w3 where 3: "rename_file ?tmp dest (snd (sys_call w2)) = (r3, w3)" by fastforce
    note o = write_file_other [OF 1] write_file_other [OF 2] rename_file_other [OF 3]
    have e: "(ok, w') = (if r1 \<noteq> None then (False, w1)
        else if r2 \<noteq> None \<or> \<not> whole then (False, snd (remove_file ?tmp w2)) else (r3 = None, w3))"
      using assms Some x True 1 2 3 by (auto simp: downloadFile_def Let_def split: option.splits if_splits)
    have calm: "tape w = [] \<longrightarrow> tape w' = [] \<and> (ok \<longleftrightarrow> whole)"
      using e 1 2 3 by (auto simp: calm_calls calm_moves split: if_splits option.splits)
    have other: "\<forall>q. q \<noteq> dest \<longrightarrow> q \<noteq> ?tmp \<longrightarrow> file_at w' q = file_at w q"
      using e o by (auto split: if_splits)
    show ?thesis
    proof (cases ok)
      case True
      with e have r: "r1 = None" "r2 = None" whole "r3 = None" "w' = w3" by (auto split: if_splits)
      have "file_at w2 ?tmp = Some data" using write_file_ok [of ?tmp data w1 w2] 2 r by simp
      then have "file_at w3 dest = Some data" using rename_file_target [OF 3] r by simp
      with True r other calm Some x \<open>code = 200\<close> show ?thesis by simp
    next
      case False
      with e o rename_file_target [OF 3] have "file_at w' dest = file_at w dest" by (auto split: if_splits)
      with False other calm Some x \<open>code = 200\<close> show ?thesis by simp
    qed
  qed
qed

lemma mirrors_effect:
  "let w' = try_mirrors get dest name tpls w
   in (\<forall>q. q \<noteq> dest \<longrightarrow> q \<noteq> dest @ ''.tmp'' \<longrightarrow> file_at w' q = file_at w q) \<and>
      (file_at w' dest = file_at w dest \<or>
       (\<exists>tpl\<in>set tpls. \<exists>data. get (tpl @ name) = Some (200, data, True) \<and> file_at w' dest = Some data)) \<and>
      (tape w = [] \<longrightarrow> tape w' = [] \<and>
        (\<forall>tpl\<in>set tpls. \<forall>data. get (tpl @ name) = Some (200, data, True) \<longrightarrow> file_at w' dest \<noteq> None))"
proof (induction tpls arbitrary: w)
  case (Cons tpl tpls)
  obtain ok w1 where d: "downloadFile get dest (tpl @ name) w = (ok, w1)" by fastforce
  note e = download_effect [OF d]
  show ?case
  proof (cases ok)
    case True
    with d e show ?thesis by (auto simp: Let_def)
  next
    case False
    with d e Cons [of w1] show ?thesis by (auto simp: Let_def)
  qed
qed simp

definition geo_paths :: "string \<Rightarrow> string list" where
  "geo_paths dir = concat (List.map (\<lambda>n. [path_join dir n, path_join dir n @ ''.tmp'']) [''geoip.dat'', ''geosite.dat''])"

lemma geo_effect:
  assumes "w' = geo_file get dir name w"
  shows "(\<forall>q. q \<noteq> path_join dir name \<longrightarrow> q \<noteq> path_join dir name @ ''.tmp'' \<longrightarrow> file_at w' q = file_at w q) \<and>
    (file_at w (path_join dir name) \<noteq> None \<longrightarrow> w' = w) \<and>
    (file_at w' (path_join dir name) = file_at w (path_join dir name) \<or>
     (\<exists>tpl\<in>set geoMirrorTemplates. \<exists>data. get (tpl @ name) = Some (200, data, True) \<and>
        file_at w' (path_join dir name) = Some data)) \<and>
    (tape w = [] \<longrightarrow> tape w' = [] \<and>
      (\<forall>tpl\<in>set geoMirrorTemplates. \<forall>data. get (tpl @ name) = Some (200, data, True) \<longrightarrow> path_exists w' (path_join dir name)))"
  using mirrors_effect [of get "path_join dir name" name geoMirrorTemplates w] assms
  by (cases "path_exists w (path_join dir name)") (auto simp: geo_file_def Let_def path_exists_dom)

text \<open>Whatever the mirrors answer and whichever disk call fails, the two data files of routing end up as they were or as
  the whole body that some mirror answered with 200, never in part; a file that is there is left alone; nothing else is
  touched but the temporary name beside each; and on a disk that works a file is there afterwards as soon as one mirror
  has it.\<close>

theorem geo_data_whole:
  fixes exe :: string and get :: "string \<Rightarrow> (nat \<times> string \<times> bool) option" and w :: world
  assumes "name \<in> {''geoip.dat'', ''geosite.dat''}"
  defines "dest \<equiv> path_join (path_dir exe) name" and "w' \<equiv> ensureGeoData (Some exe) get w"
  shows "(file_at w dest \<noteq> None \<longrightarrow> file_at w' dest = file_at w dest) \<and>
    (file_at w' dest = file_at w dest \<or>
     (\<exists>tpl\<in>set geoMirrorTemplates. \<exists>data. get (tpl @ name) = Some (200, data, True) \<and> file_at w' dest = Some data)) \<and>
    (\<forall>q. q \<notin> set (geo_paths (path_dir exe)) \<longrightarrow> file_at w' q = file_at w q) \<and>
    (tape w = [] \<longrightarrow> (\<forall>tpl\<in>set geoMirrorTemplates. \<forall>data. get (tpl @ name) = Some (200, data, True) \<longrightarrow> path_exists w' dest))"
proof -
  let ?d = "path_dir exe"
  define w1 where "w1 = geo_file get ?d ''geoip.dat'' w"
  have w': "w' = geo_file get ?d ''geosite.dat'' w1" by (simp add: w'_def w1_def ensureGeoData_def)
  note 1 = geo_effect [OF w1_def] and 2 = geo_effect [OF w']
  have ne: "path_join ?d ''geoip.dat'' \<noteq> path_join ?d ''geosite.dat''" "path_join ?d ''geoip.dat'' \<noteq> path_join ?d ''geosite.dat'' @ ''.tmp''"
    "path_join ?d ''geosite.dat'' \<noteq> path_join ?d ''geoip.dat'' @ ''.tmp''" by (simp_all add: path_join_def)
  have ex: "path_exists w1 (path_join ?d ''geoip.dat'') \<Longrightarrow> path_exists w' (path_join ?d ''geoip.dat'')"
  proof -
    have "\<not> has_prefix (path_join ?d ''geosite.dat'') (path_join ?d ''geoip.dat'' @ ''/'')"
      "\<not> has_prefix (path_join ?d ''geosite.dat'' @ ''.tmp'') (path_join ?d ''geoip.dat'' @ ''/'')"
      by (simp_all add: path_join_def has_prefix_def)
    with 2 ne show "path_exists w1 (path_join ?d ''geoip.dat'') \<Longrightarrow> path_exists w' (path_join ?d ''geoip.dat'')"
      unfolding path_exists_dom by metis
  qed
  have other: "\<forall>q. q \<notin> set (geo_paths ?d) \<longrightarrow> file_at w' q = file_at w q"
    using 1 2 by (simp add: geo_paths_def)
  from assms(1) show ?thesis
  proof
    assume "name = ''geoip.dat''"
    with 1 2 ne ex other show ?thesis unfolding dest_def by (intro conjI) auto
  next
    assume "name \<in> {''geosite.dat''}"
    with 1 2 ne other show ?thesis unfolding dest_def by (intro conjI) auto
  qed
qed

section \<open>Routes\<close>

lemma served_endpoints:
  "e \<in> set (List.map snd (RegisterChildRoutes True @ [(''/health'', Ep_Health)]))"
  "e \<in> set (List.map snd (RegisterChildRoutes False @ [(''/health'', Ep_Health)])) \<longleftrightarrow>
   e \<notin> {Warp_Install, Warp_Status, Warp_License, Warp_Remove}"
  by (induct e; code_simp)+

text \<open>The route table never makes the program panic: no path is registered twice. Every endpoint has exactly one path,
  the WARP ones only when there is a WARP service; and every path but the health check is below \<open>/api/child/\<close>, in its
  canonical form, so that it is reached under that very name.\<close>

theorem routes_exact:
  "\<exists>rs. start_mux warp = Some rs \<and> distinct (List.map fst rs) \<and> distinct (List.map snd rs) \<and>
     (\<forall>e. (\<exists>p. (p, e) \<in> set rs) \<longleftrightarrow> warp \<or> e \<notin> {Warp_Install, Warp_Status, Warp_License, Warp_Remove}) \<and>
     list_all (\<lambda>(p, e). (e = Ep_Health \<longleftrightarrow> p = ''/health'') \<and> (e \<noteq> Ep_Health \<longrightarrow> has_prefix p ''/api/child/'') \<and>
        Clean p = p) rs"
proof -
  define rs where "rs = RegisterChildRoutes warp @ [(''/health'', Ep_Health)]"
  have "distinct (List.map fst (RegisterChildRoutes True @ [(''/health'', Ep_Health)]))"
    "distinct (List.map fst (RegisterChildRoutes False @ [(''/health'', Ep_Health)]))" by code_simp+
  then have d: "distinct (List.map fst (RegisterChildRoutes warp @ [(''/health'', Ep_Health)]))"
    by (cases warp) (simp_all only:)
  have "distinct (List.map snd (RegisterChildRoutes True @ [(''/health'', Ep_Health)]))"
    "distinct (List.map snd (RegisterChildRoutes False @ [(''/health'', Ep_Health)]))" by code_simp+
  then have s: "distinct (List.map snd (RegisterChildRoutes warp @ [(''/health'', Ep_Health)]))"
    by (cases warp) (simp_all only:)
  have "list_all (\<lambda>(p, e). (e = Ep_Health \<longleftrightarrow> p = ''/health'') \<and> (e \<noteq> Ep_Health \<longrightarrow> has_prefix p ''/api/child/'') \<and> Clean p = p)
      (RegisterChildRoutes True @ [(''/health'', Ep_Health)])"
    "list_all (\<lambda>(p, e). (e = Ep_Health \<longleftrightarrow> p = ''/health'') \<and> (e \<noteq> Ep_Health \<longrightarrow> has_prefix p ''/api/child/'') \<and> Clean p = p)
      (RegisterChildRoutes False @ [(''/health'', Ep_Health)])" by code_simp+
  then have l: "list_all (\<lambda>(p, e). (e = Ep_Health \<longleftrightarrow> p = ''/health'') \<and> (e \<noteq> Ep_Health \<longrightarrow> has_prefix p ''/api/child/'') \<and> Clean p = p)
      (RegisterChildRoutes warp @ [(''/health'', Ep_Health)])"
    by (cases warp) (simp_all only:)
  have e: "e \<in> set (List.map snd rs) \<longleftrightarrow> warp \<or> e \<notin> {Warp_Install, Warp_Status, Warp_License, Warp_Remove}" for e
    using served_endpoints [of e] unfolding rs_def by (cases warp) (simp_all only:, simp_all)
  have "(\<exists>p. (p, e) \<in> set rs) \<longleftrightarrow> e \<in> set (List.map snd rs)" for e by (force simp: image_iff)
  with d s l e show ?thesis
    by (intro exI [of _ rs] conjI) (simp_all add: start_mux_def rs_def)
qed

section \<open>The port that is bound\<close>

lemma listen_loop_fails:
  "listen_loop attempts i rs = Inl x \<Longrightarrow> \<not> (\<exists>k<length rs. i + k < attempts \<and> rs ! k = Bound \<and> (\<forall>j<k. rs ! j = InUse))"
proof (induction attempts i rs rule: listen_loop.induct)
  case (2 attempts i r rs)
  show ?case
  proof (cases "attempts \<le> i")
    case False
    show ?thesis
    proof
      assume "\<exists>k<length (r # rs). i + k < attempts \<and> (r # rs) ! k = Bound \<and> (\<forall>j<k. (r # rs) ! j = InUse)"
      then obtain k where k: "k < length (r # rs)" "i + k < attempts" "(r # rs) ! k = Bound" "\<forall>j<k. (r # rs) ! j = InUse"
        by blast
      show False
      proof (cases k)
        case 0
        with k 2(2) False show False by simp
      next
        case (Suc n)
        with k have "r = InUse" by auto
        with 2 False have "\<not> (\<exists>k<length rs. i + 1 + k < attempts \<and> rs ! k = Bound \<and> (\<forall>j<k. rs ! j = InUse))" by simp
        with k Suc show False by force
      qed
    qed
  qed simp
qed simp

lemma persist_port_other: "y \<noteq> cfgFile \<Longrightarrow> file_at (snd (persistListenPort cfgFile q w)) y = file_at w y"
  by (auto simp: persistListenPort_def dest: read_file_at write_file_other split: prod.splits sum.splits)

text \<open>What is stored: the first line of the key says the port, lines of other keys stay.\<close>

definition port_stored :: "int \<Rightarrow> string \<Rightarrow> string \<Rightarrow> bool" where
  "port_stored p content new \<longleftrightarrow>
     (\<exists>l. find (line_is ''listen_port'') (file_lines new) = Some l \<and> line_value ''listen_port'' l = itoa p) \<and>
     filter (\<lambda>l. \<not> line_is ''listen_port'' l) (file_lines new) = filter (\<lambda>l. \<not> line_is ''listen_port'' l) (file_lines content)"

lemma persist_port_stores:
  assumes "0 \<le> p" and "cfgFile \<noteq> []" and "tape w = []" and "file_at w cfgFile = Some content"
  shows "\<exists>new. file_at (snd (persistListenPort cfgFile (itoa p) w)) cfgFile = Some new \<and> port_stored p content new"
proof -
  note q = quoted_port_value [OF assms(1)]
  let ?new = "join_lines (put_line ''listen_port'' (quoted_port p) (file_lines content))"
  have "file_at (snd (persistListenPort cfgFile (itoa p) w)) cfgFile = Some ?new"
    using assms(2-4) by (simp add: persistListenPort_def calm_read calm_calls quoted_port_def)
  moreover have "port_stored p content ?new"
    using put_line_effect [OF q(1), of "file_lines content"] q(2) by (simp add: port_stored_def file_put_line [OF q(1,3)])
  ultimately show ?thesis by blast
qed

text \<open>C28: The port the agent listens on. It is the configured one, and nothing is stored, exactly when one of the first six
  attempts works after attempts that only found it in use. Otherwise, when it is still not free and one of the next 99
  ports is, the first of these becomes the configured port, is stored in the configuration file (when that can be
  read and written, with no line of another key changed) and is used if it can be bound now; and otherwise - when
  the configured port has become free meanwhile, or none of the others is - the agent gives up and stores
  nothing. No other file is written.\<close>

theorem port_kept_or_next:
  assumes "cf_port c = itoa want" "1024 \<le> want" "want \<le> 65535"
    and "bind_port results free again cfgFile c w = ((r, c'), w')"
  shows "(\<forall>q. q \<noteq> cfgFile \<longrightarrow> file_at w' q = file_at w q) \<and>
    (if \<exists>k<length results. k < 6 \<and> results ! k = Bound \<and> (\<forall>j<k. results ! j = InUse)
     then r = Some (itoa want) \<and> c' = c \<and> w' = w
     else if free want \<or> \<not> (\<exists>p. want < p \<and> p < want + 100 \<and> p \<le> 65535 \<and> free p)
     then r = None \<and> c' = c \<and> w' = w
     else \<exists>p. want < p \<and> p < want + 100 \<and> p \<le> 65535 \<and> free p \<and> (\<forall>x. want \<le> x \<and> x < p \<longrightarrow> \<not> free x) \<and>
            r = (if again then Some (itoa p) else None) \<and> c' = c\<lparr>cf_port := itoa p\<rparr> \<and>
            (\<forall>content. cfgFile \<noteq> [] \<and> tape w = [] \<and> file_at w cfgFile = Some content \<longrightarrow>
               (\<exists>new. file_at w' cfgFile = Some new \<and> port_stored p content new)))"
proof (cases "listenWithRetry 6 results")
  case (Inr i)
  then have "i < 6 \<and> i < length results \<and> results ! i = Bound \<and> (\<forall>j<i. results ! j = InUse)"
    using listen_loop_bound [of 6 0 results i] by (simp add: listenWithRetry_def)
  then have y: "\<exists>k<length results. k < 6 \<and> results ! k = Bound \<and> (\<forall>j<k. results ! j = InUse)" by blast
  have "r = Some (itoa want) \<and> c' = c \<and> w' = w" using assms(1,4) Inr by (simp add: bind_port_def)
  then show ?thesis unfolding if_P [OF y] by simp
next
  case (Inl x)
  have no: "\<not> (\<exists>k<length results. k < 6 \<and> results ! k = Bound \<and> (\<forall>j<k. results ! j = InUse))"
    using listen_loop_fails [of 6 0 results x] Inl by (simp add: listenWithRetry_def)
  obtain p b where b: "resolveListenPortConflict free (cf_port c) = (p, b)" by fastforce
  note first = resolveListenPortConflict_first [OF assms(2,3), of free]
  show ?thesis
  proof (cases b)
    case True
    with Inl b assms(4) have e: "r = (if again then Some (itoa p) else None)" "c' = c\<lparr>cf_port := itoa p\<rparr>"
      "w' = snd (persistListenPort cfgFile (itoa p) w)" by (auto simp: bind_port_def Let_def)
    have p: "free p" "want < p" "p < want + 100" "p \<le> 65535" "\<forall>x. want \<le> x \<and> x < p \<longrightarrow> \<not> free x"
      using first b True assms(1) by simp_all
    have n2: "\<not> (free want \<or> \<not> (\<exists>p. want < p \<and> p < want + 100 \<and> p \<le> 65535 \<and> free p))" using p by auto
    have st: "\<forall>content. cfgFile \<noteq> [] \<and> tape w = [] \<and> file_at w cfgFile = Some content \<longrightarrow>
        (\<exists>new. file_at w' cfgFile = Some new \<and> port_stored p content new)"
      using persist_port_stores [of p cfgFile w] p(2) assms(2) e(3) by simp
    have ot: "\<forall>q. q \<noteq> cfgFile \<longrightarrow> file_at w' q = file_at w q" using persist_port_other e(3) by simp
    show ?thesis unfolding if_not_P [OF no] if_not_P [OF n2] using p st e(1,2) ot by blast
  next
    case False
    with Inl b assms(4) have e: "r = None" "w' = w" "c' = c" by (auto simp: bind_port_def)
    have "free want \<or> \<not> (\<exists>p. want < p \<and> p < want + 100 \<and> p \<le> 65535 \<and> free p)"
      using first b False assms(1) by auto
    with e show ?thesis unfolding if_not_P [OF no] by simp
  qed
qed

text \<open>A port that has become free after the last attempt is not taken: the program ends.\<close>

lemma port_freed_but_fatal:
  assumes "cf_port c = itoa want" "1024 \<le> want" "want \<le> 65535" "free want"
  shows "fst (fst (bind_port (replicate 6 InUse) free again cfgFile c w)) = None"
proof -
  have l: "listenWithRetry 6 (replicate 6 InUse) = Inl (InUse, 6)" by code_simp
  obtain p b where r: "resolveListenPortConflict free (itoa want) = (p, b)" by fastforce
  with resolveListenPortConflict_first [OF assms(2,3), of free] assms(4) have "\<not> b" by (cases b) auto
  with r l assms(1) show ?thesis by (simp add: bind_port_def)
qed

section \<open>Processes that are killed\<close>

lemma pid_of_fold: "list_all is_digit s \<Longrightarrow> pid_of n s = foldl (\<lambda>n c. n * 10 + int (of_char c - 48)) n s"
  by (induction s arbitrary: n) simp_all

lemma pid_of_digits: "list_all is_digit s \<Longrightarrow> pid_of 0 s = int (digits_value s)"
  unfolding pid_of_fold by (induction s rule: rev_induct) (simp_all add: digits_value_snoc, simp add: digits_value_def)

section \<open>What the start leaves alone\<close>

lemma on_file_sel [simp]:
  "sv_calls (on_file f st) = sv_calls st" "sv_emb (on_file f st) = sv_emb st" "disk (on_file f st) = f (disk st)"
  by (simp_all add: on_file_def on_world_def)

lemma on_world_sel:
  assumes "on_world f st = (r, st')"
  shows "sv_calls st' = sv_calls st" "sv_emb st' = sv_emb st" "disk st' = snd (f (disk st))" "r = fst (f (disk st))"
  using assms by (auto simp: on_world_def split: prod.splits)

lemma systemctl_sel:
  "sv_calls (snd (systemctl a st)) = sv_calls st @ [Systemctl a]" "sv_emb (snd (systemctl a st)) = sv_emb st"
  "disk (snd (systemctl a st)) = disk st"
  by (auto simp: systemctl_def on_sys_def run_cmd_def called_def split: prod.splits list.splits)

lemma find_path_sel:
  assumes "findXrayConfigPath env st = (p, st')"
  shows "sv_calls st' = sv_calls st" "sv_emb st' = sv_emb st"
  using assms by (auto simp: findXrayConfigPath_def dest: on_world_sel split: if_splits prod.splits)

lemma find_info_sel:
  assumes "findXrayConfigInfo env st = (p, st')"
  shows "sv_calls st' = sv_calls st" "sv_emb st' = sv_emb st"
  using assms by (auto simp: findXrayConfigInfo_def dest: on_world_sel split: if_splits)

lemma manage_ensure_sel:
  assumes "manage_EnsureXrayConfig env st = (p, st')"
  shows "sv_calls st' = sv_calls st" "sv_emb st' = sv_emb st"
  using assms by (auto simp: manage_EnsureXrayConfig_def split: prod.splits) (use on_world_sel find_path_sel in metis)+

lemma promote_fragments_sel:
  "sv_calls (promote_fragments env dir names st) = sv_calls st \<and> sv_emb (promote_fragments env dir names st) = sv_emb st"
  by (induction names arbitrary: st) simp_all

lemma promote_sel:
  "sv_calls (PromoteAllTagsOnStartup env st) = sv_calls st" "sv_emb (PromoteAllTagsOnStartup env st) = sv_emb st"
proof -
  obtain paths a where 1: "findXrayConfigInfo env st = (paths, a)" by fastforce
  define b where "b = (if ConfigPath paths = [] then a
      else on_file (promoteInboundTagsInFile (obj_dec env) (se_enc env) (ConfigPath paths)) a)"
  obtain r c where 2: "on_world sys_call b = (r, c)" by fastforce
  define d where "d = promoteInboundTagsToConfig env st"
  have "sv_calls b = sv_calls st \<and> sv_emb b = sv_emb st" using find_info_sel [OF 1] by (simp add: b_def)
  then have d: "sv_calls d = sv_calls st \<and> sv_emb d = sv_emb st"
    using on_world_sel(1,2) [OF 2] promote_fragments_sel
    unfolding d_def promoteInboundTagsToConfig_def 1 prod.case Let_def b_def [symmetric] 2
    by (simp split: option.splits)
  obtain p e where 3: "findXrayConfigPath env d = (p, e)" by fastforce
  define f where "f = (if p = [] then e else on_file (promoteOutboundTagsInFile (obj_dec env) (se_enc env) p) e)"
  obtain q g where 4: "findXrayConfigPath env f = (q, g)" by fastforce
  have r: "PromoteAllTagsOnStartup env st = on_file (dedupeXrayConfigTagsOnDisk (obj_dec env) (se_enc env) q) g"
    unfolding PromoteAllTagsOnStartup_def d_def [symmetric] Let_def 3 prod.case f_def [symmetric] 4 by simp
  have "sv_calls f = sv_calls e \<and> sv_emb f = sv_emb e" by (simp add: f_def)
  then show "sv_calls (PromoteAllTagsOnStartup env st) = sv_calls st" "sv_emb (PromoteAllTagsOnStartup env st) = sv_emb st"
    unfolding r using d find_path_sel [OF 3] find_path_sel [OF 4] by simp_all
qed

section \<open>An agent that is over its quota\<close>

definition quiet_call :: "svc_call \<Rightarrow> bool" where
  "quiet_call c \<longleftrightarrow> c = Systemctl ''stop xray'' \<or> c = Systemctl ''disable xray'' \<or> c = NginxReloaded"

lemma import_sel:
  "sv_calls (import_external env stamp st) = sv_calls st \<and> sv_emb (import_external env stamp st) = sv_emb st"
proof -
  obtain found a where 1: "on_world (Discover (se_xray env)) st = (found, a)" by fastforce
  obtain r b where 2: "on_world (MergeXrayConfdirInto (obj_dec env) (se_enc env) stamp (ConfigPath found) (ConfDir found) default_path) a = (r, b)"
    by fastforce
  obtain r' b' where 3: "on_world (rename_file (ConfigPath found) (ConfigPath found @ ''.before-mmwx-'' @ stamp)) b = (r', b')"
    by fastforce
  show ?thesis
    unfolding import_external_def 1 prod.case Let_def 2 3 snd_conv
    using on_world_sel(1,2) [OF 1] on_world_sel(1,2) [OF 2] on_world_sel(1,2) [OF 3] by (simp split: sum.splits)
qed

lemma stop_external_sel:
  "\<exists>cs. sv_calls (stop_external env st) = sv_calls st @ cs \<and> list_all quiet_call cs"
  "sv_emb (stop_external env st) = sv_emb st" "disk (stop_external env st) = disk st"
  by (cases "se_docker env"; simp add: stop_external_def systemctl_sel quiet_call_def)+

lemma prepare_sel:
  "(\<exists>cs. sv_calls (prepare_embedded env h steal st) = sv_calls st @ cs \<and> list_all quiet_call cs) \<and>
   sv_emb (prepare_embedded env h steal st) = sv_emb st"
proof -
  define a where "a = stop_external h (import_external h (up_stamp env) st)"
  define b where "b = on_file (initXrayConfig (obj_dec h) (se_enc h) (up_tunnel env) (up_default env) default_path steal)
      (on_file (ensureGeoData (up_exe env) (up_get env)) a)"
  obtain res d where 1: "manage_EnsureXrayConfig h b = (res, d)" by fastforce
  have "sv_calls (prepare_embedded env h steal st) = sv_calls a \<and> sv_emb (prepare_embedded env h steal st) = sv_emb a"
    using manage_ensure_sel [OF 1] unfolding prepare_embedded_def Let_def a_def [symmetric] b_def [symmetric] 1
    by (simp add: b_def)
  moreover have "\<exists>cs. sv_calls a = sv_calls st @ cs \<and> list_all quiet_call cs" "sv_emb a = sv_emb st"
    using stop_external_sel(1,2) [of h "import_external h (up_stamp env) st"] import_sel [of h "up_stamp env" st]
    by (simp_all add: a_def)
  ultimately show ?thesis by simp
qed

lemma protect_sel:
  assumes "protect_local_master h c st = (steal, st')"
  shows "sv_calls st' = sv_calls st" "sv_emb st' = sv_emb st"
  using assms by (auto simp: protect_local_master_def split: if_splits)

lemma stop_xray_quiet:
  assumes "sv_emb st = None"
  shows "sv_emb (StopXray h st) = None \<and>
    (\<exists>cs. sv_calls (StopXray h st) = sv_calls st @ cs @ [Systemctl ''stop xray''] \<and> list_all quiet_call cs)"
proof -
  obtain need a where 1: "configNeedsPort443 h st = (need, a)" by fastforce
  have a: "sv_calls a = sv_calls st" "sv_emb a = sv_emb st"
    using 1 on_world_sel [of "needs_443_in h DefaultXrayConfigPaths"] by (simp_all add: configNeedsPort443_def)
  have r: "sv_calls (manage_reloadNginx (deployFallback443 a)) = sv_calls a @ [NginxReloaded]"
    "sv_emb (manage_reloadNginx (deployFallback443 a)) = sv_emb a"
    by (auto simp: manage_reloadNginx_def deployFallback443_def on_sys_def on_world_def run_cmd_def Let_def split: prod.splits list.splits)
  show ?thesis
    unfolding StopXray_def restore_fallback_def 1 prod.case
    using a r assms by (cases need) (simp_all add: halt_xray_def systemctl_sel quiet_call_def)
qed

lemma start_xray_unauthorised:
  assumes "cf_auth c = Some False" and "sv_emb st = None"
  shows "sv_emb (start_xray env c st) = None \<and>
    (\<exists>cs. sv_calls (start_xray env c st) = sv_calls st @ cs \<and> Systemctl ''stop xray'' \<in> set cs \<and> list_all quiet_call cs)"
proof -
  let ?h = "handlers_for env c"
  obtain steal a where 1: "protect_local_master ?h c st = (steal, a)" by fastforce
  define b where "b = (if cf_xray c = ''embedded'' then prepare_embedded env ?h steal a
      else on_file (ensureGeoData (up_exe env) (up_get env)) a)"
  have "\<exists>cs. sv_calls b = sv_calls st @ cs \<and> list_all quiet_call cs" and n: "sv_emb b = None"
    using protect_sel [OF 1] prepare_sel [of env ?h steal a] assms(2)
    by (cases "cf_xray c = ''embedded''"; simp add: b_def)+
  then obtain cs where cs: "sv_calls b = sv_calls st @ cs" "list_all quiet_call cs" by blast
  obtain ds where ds: "sv_calls (StopXray ?h b) = sv_calls b @ ds @ [Systemctl ''stop xray'']" "list_all quiet_call ds"
    and e: "sv_emb (StopXray ?h b) = None" using stop_xray_quiet [OF n] by blast
  have "start_xray env c st = PromoteAllTagsOnStartup ?h (StopXray ?h b)"
    unfolding start_xray_def Let_def 1 prod.case using n assms(1)
    by (cases "cf_xray c = ''embedded''") (simp_all add: authorized_at_start_def b_def start_external_def)
  then show ?thesis
    using cs ds e by (intro conjI exI [of _ "cs @ ds @ [Systemctl ''stop xray'']"])
      (simp_all add: promote_sel quiet_call_def)
qed

section \<open>Examples\<close>

definition demo_mirror :: "string \<Rightarrow> (nat \<times> string \<times> bool) option" where
  "demo_mirror url = (if has_prefix url ''https://github.com'' then Some (200, ''data'', True) else Some (200, ''da'', False))"

lemma geo_data_whole_witness:
  "path_exists (ensureGeoData (Some ''/opt/mmw-agent'') demo_mirror empty_world) ''/opt/geoip.dat'' \<and>
   file_at (ensureGeoData (Some ''/opt/mmw-agent'') demo_mirror empty_world) ''/opt/geoip.dat'' \<in> {None, Some ''data''}"
proof -
  let ?w = "ensureGeoData (Some ''/opt/mmw-agent'') demo_mirror empty_world"
  have d: "path_dir ''/opt/mmw-agent'' = ''/opt''" by code_simp
  have p: "path_join ''/opt'' ''geoip.dat'' = ''/opt/geoip.dat''" by code_simp
  have n: "file_at empty_world ''/opt/geoip.dat'' = None" by (simp add: empty_world_def file_at_def)
  have w: "tape empty_world = []" by (simp add: empty_world_def)
  have m: "\<exists>tpl\<in>set geoMirrorTemplates. demo_mirror (tpl @ ''geoip.dat'') = Some (200, ''data'', True)" by code_simp
  have o: "demo_mirror url = Some (200, x, True) \<Longrightarrow> x = ''data''" for url x
    by (simp add: demo_mirror_def split: if_splits)
  have in1: "''geoip.dat'' \<in> {''geoip.dat'', ''geosite.dat''}" by simp
  note g = geo_data_whole [where exe = "''/opt/mmw-agent''" and get = demo_mirror and w = empty_world, OF in1, unfolded d p]
  have e: "path_exists ?w ''/opt/geoip.dat''" using g w m by blast
  from g consider "file_at ?w ''/opt/geoip.dat'' = file_at empty_world ''/opt/geoip.dat''"
    | tpl x where "demo_mirror (tpl @ ''geoip.dat'') = Some (200, x, True)" "file_at ?w ''/opt/geoip.dat'' = Some x" by blast
  then have "file_at ?w ''/opt/geoip.dat'' \<in> {None, Some ''data''}"
  proof cases
    case 1
    with n show ?thesis by simp
  next
    case 2
    with o [OF 2(1)] show ?thesis by simp
  qed
  with e show ?thesis by blast
qed

lemma port_kept_or_next_witness:
  "(let ((r, c'), w') = bind_port (replicate 6 InUse) (\<lambda>p. p = 23891) True ''c'' (empty_config\<lparr>cf_port := itoa 23889\<rparr>)
         (empty_world\<lparr>files := [(''c'', ''token: t'')]\<rparr>)
    in r = Some ''23891'' \<and> cf_port c' = ''23891'' \<and>
       (\<exists>new. file_at w' ''c'' = Some new \<and> port_stored 23891 ''token: t'' new))"
proof -
  define w where "w = empty_world\<lparr>files := [(''c'', ''token: t'')]\<rparr>"
  obtain r c' w' where b: "bind_port (replicate 6 InUse) (\<lambda>p. p = 23891) True ''c'' (empty_config\<lparr>cf_port := itoa 23889\<rparr>) w = ((r, c'), w')"
    by (metis surj_pair)
  have i: "itoa 23891 = ''23891''" by (simp add: itoa_def nat_digits.simps)
  have n: "\<not> (\<exists>k<length (replicate 6 InUse). k < 6 \<and> replicate 6 InUse ! k = Bound \<and> (\<forall>j<k. replicate 6 InUse ! j = InUse))"
    by (metis bind_result.distinct(1) length_replicate nth_replicate)
  have c: "cf_port (empty_config\<lparr>cf_port := itoa 23889\<rparr>) = itoa 23889" "(1024 :: int) \<le> 23889" "(23889 :: int) \<le> 65535"
    by simp_all
  have n2: "\<not> ((23889 :: int) = 23891 \<or> \<not> (\<exists>p :: int. 23889 < p \<and> p < 23889 + 100 \<and> p \<le> 65535 \<and> p = 23891))" by simp
  from port_kept_or_next [OF c b, unfolded if_not_P [OF n] if_not_P [OF n2]] obtain p where
    p: "p = 23891" "r = (if True then Some (itoa p) else None)" "c' = empty_config\<lparr>cf_port := itoa 23889, cf_port := itoa p\<rparr>"
    "\<forall>content. ''c'' \<noteq> [] \<and> tape w = [] \<and> file_at w ''c'' = Some content \<longrightarrow>
       (\<exists>new. file_at w' ''c'' = Some new \<and> port_stored p content new)" by blast
  have "tape w = []" "file_at w ''c'' = Some ''token: t''" by (simp_all add: w_def empty_world_def file_at_def)
  with p i show ?thesis unfolding w_def [symmetric] b by simp
qed


end
