(* ===== verification/Start_Xray.thy ===== *)
theory Start_Xray
  imports Start_Up "HOL-Library.Countable"
begin

text \<open>
  The configuration the embedded Xray is started with, through all the steps of \<open>main\<close> before its start: every start
  leaves it with the sections the agent needs, and beside a master that serves HTTPS on the same host it takes no port
  443, unless an external configuration is imported after the protection.
\<close>

section \<open>What the embedded instance is started with\<close>

text \<open>What every start guarantees of a configuration, whatever it was before.\<close>

definition serviceable :: "obj \<Rightarrow> bool" where
  "serviceable c \<longleftrightarrow>
     has_key c ''api'' \<and> has_key c ''stats'' \<and> hasValidPolicy c \<and> hasAPIInbound c \<and> hasRequiredOutbounds c \<and>
     has_key c ''metrics'' \<and> has_key c ''log'' \<and> (\<forall>r\<in>set (rules_of c). \<not> deprecated_rule r)"

text \<open>Before the completion: if some rule leads to the API, one of those does not carry the mark of the rules the
  completion removes.\<close>

definition api_rule_sound :: "obj \<Rightarrow> bool" where
  "api_rule_sound c \<longleftrightarrow> (hasAPIRoutingRule c \<longrightarrow> list_ex (\<lambda>r. targets_api r \<and> \<not> deprecated_rule r) (rules_of c))"

text \<open>What the start makes of a configuration: serviceable in any case, complete when that is the case.\<close>

definition fit :: "bool \<Rightarrow> obj \<Rightarrow> bool" where
  "fit sound c \<longleftrightarrow> serviceable c \<and> (sound \<longrightarrow> complete_config c)"

definition free_443 :: "obj \<Rightarrow> bool" where
  "free_443 c \<longleftrightarrow> (\<forall>m. JObj m \<in> set (get_list c ''inbounds'') \<longrightarrow> \<not> json_port m 443)"

definition conf_ok :: "svc_env \<Rightarrow> (obj \<Rightarrow> bool) \<Rightarrow> world \<Rightarrow> bool" where
  "conf_ok h P w \<longleftrightarrow> (\<forall>data m. file_at w default_path = Some data \<longrightarrow> obj_dec h data = Some m \<longrightarrow> P m)"

lemma ensured_serviceable: "serviceable (fst (ensure_sections c))"
proof -
  let ?c = "repaired c" let ?r = "fst (removeDeprecatedRoutingRules ?c)"
  let ?i = "fst (dedupeTaggedArrayInPlace ?r ''inbounds'')"
  have "hasAPIInbound ?r" using repaired_ok(4) [of c] by (rule inbound_repair.kept) (simp add: deprecated_effect(2))
  then have "hasAPIInbound ?i" by (rule dedupe_keeps_api)
  then have i: "hasAPIInbound (swept ?c)" by (rule inbound_repair.kept) (simp add: swept_def dedupe_in_place_other)
  have "hasRequiredOutbounds ?i" using repaired_ok(6) [of c]
    by (rule outbound_repair.kept) (simp add: dedupe_in_place_other deprecated_effect(2))
  then have o: "hasRequiredOutbounds (swept ?c)" unfolding swept_def by (rule dedupe_keeps_outbounds)
  have p: "hasValidPolicy (swept ?c)" using repaired_ok(3) [of c] by (rule policy_repair.kept) (simp add: swept_map deprecated_effect(2))
  have "has_key (swept ?c) k" if "has_key ?c k" and "k \<in> {''api'', ''stats'', ''metrics'', ''log''}" for k
    using that get_by_key(4) [of "swept ?c" k ?c] by (auto simp: swept_map deprecated_effect(2))
  moreover have "\<forall>r\<in>set (rules_of (swept ?c)). \<not> deprecated_rule r"
    using rules_by_key [of "swept ?c" ?r] deprecated_effect(1) [of ?c] by (simp add: swept_map(1))
  ultimately show ?thesis using i o p repaired_ok [of c] by (simp add: serviceable_def ensure_fst)
qed

lemma ensured_fit: "(sound \<longrightarrow> api_rule_sound c) \<Longrightarrow> fit sound (fst (ensure_sections c))"
proof -
  assume s: "sound \<longrightarrow> api_rule_sound c"
  have "complete_config (swept (repaired c))" if sound
  proof -
    have "\<exists>r\<in>set (rules_of (repaired c)). targets_api r \<and> \<not> deprecated_rule r"
      using s that by (auto simp: api_rule_sound_def list_ex_iff repaired_lists targets_api_def api_rule_def deprecated_rule_def)
    then show ?thesis by (rule swept_complete [OF repaired_ok])
  qed
  with ensured_serviceable [of c] show ?thesis by (simp add: fit_def ensure_fst)
qed

lemma fit_ensured: "fit sound c \<Longrightarrow> fit sound (fst (ensure_sections c))"
  using ensure_quiet [of c] ensured_serviceable [of c] by (auto simp: fit_def)

lemma patched_shape:
  "fst (patch_forward_inbound x) = x \<or> (\<exists>m v. x = JObj m \<and> fst (patch_forward_inbound x) = JObj (jset ''settings'' v m))"
  "fst (patch_forward_outbound x) = x \<or> (\<exists>m v. x = JObj m \<and> fst (patch_forward_outbound x) = JObj (jset ''settings'' v m))"
  by (cases x; auto simp: patch_forward_inbound_def patch_forward_outbound_def split: option.splits)+

lemma settings_tag: "has_tag t (JObj (jset ''settings'' v m)) = has_tag t (JObj m)"
  by (simp add: has_tag_def get_str_def)

lemma patched_tags:
  "has_tag t (fst (patch_forward_inbound x)) = has_tag t x" "has_tag t (fst (patch_forward_outbound x)) = has_tag t x"
  subgoal using patched_shape(1) [of x] by (elim disjE exE conjE) (simp_all only: settings_tag)
  subgoal using patched_shape(2) [of x] by (elim disjE exE conjE) (simp_all only: settings_tag)
  done

lemma patch_map: "k \<noteq> ''inbounds'' \<Longrightarrow> k \<noteq> ''outbounds'' \<Longrightarrow> map_of (fst (patch_forwards c)) k = map_of c k"
  by (auto simp: patch_forwards_def patch_array_def split: option.splits prod.splits)

lemma patch_array_effect:
  assumes "patch_array f k c = (c', changed)"
  shows "get_arr c' k = map_option (List.map (fst \<circ> f)) (get_arr c k)" "k' \<noteq> k \<Longrightarrow> get_arr c' k' = get_arr c k'"
  using assms by (auto simp: patch_array_def get_arr_def split: option.splits)

lemma patch_arrays:
  "get_arr (fst (patch_forwards c)) ''inbounds'' = map_option (List.map (fst \<circ> patch_forward_inbound)) (get_arr c ''inbounds'')"
  "get_arr (fst (patch_forwards c)) ''outbounds'' = map_option (List.map (fst \<circ> patch_forward_outbound)) (get_arr c ''outbounds'')"
proof -
  obtain c1 b1 where 1: "patch_array patch_forward_inbound ''inbounds'' c = (c1, b1)" by fastforce
  obtain c2 b2 where 2: "patch_array patch_forward_outbound ''outbounds'' c1 = (c2, b2)" by fastforce
  have r: "fst (patch_forwards c) = c2" by (simp add: patch_forwards_def 1 2)
  show "get_arr (fst (patch_forwards c)) ''inbounds'' = map_option (List.map (fst \<circ> patch_forward_inbound)) (get_arr c ''inbounds'')"
    using patch_array_effect(2) [OF 2, of "''inbounds''"] patch_array_effect(1) [OF 1] unfolding r by simp
  show "get_arr (fst (patch_forwards c)) ''outbounds'' = map_option (List.map (fst \<circ> patch_forward_outbound)) (get_arr c ''outbounds'')"
    using patch_array_effect(1) [OF 2] patch_array_effect(2) [OF 1, of "''outbounds''"] unfolding r by simp
qed

lemma patched_list:
  "list_ex (has_tag t) (List.map (fst \<circ> patch_forward_inbound) xs) = list_ex (has_tag t) xs"
  "list_ex (has_tag t) (List.map (fst \<circ> patch_forward_outbound) xs) = list_ex (has_tag t) xs"
  by (induction xs) (simp_all add: patched_tags)

lemma patched_sections:
  "has_key (fst (patch_forwards c)) ''api'' = has_key c ''api''" "has_key (fst (patch_forwards c)) ''stats'' = has_key c ''stats''"
  "has_key (fst (patch_forwards c)) ''metrics'' = has_key c ''metrics''" "has_key (fst (patch_forwards c)) ''log'' = has_key c ''log''"
  by (rule get_by_key(4); simp add: patch_map)+

lemma patched_policy: "hasValidPolicy (fst (patch_forwards c)) = hasValidPolicy c"
  by (rule policy_repair.reads_key) (simp add: patch_map)

lemma patched_api: "hasAPIInbound (fst (patch_forwards c)) = hasAPIInbound c"
  unfolding hasAPIInbound_def patch_arrays
  by (cases "get_arr c ''inbounds''") (simp_all only: option.map option.case patched_list)

lemma patched_outbounds: "hasRequiredOutbounds (fst (patch_forwards c)) = hasRequiredOutbounds c"
  unfolding hasRequiredOutbounds_def patch_arrays
  by (cases "get_arr c ''outbounds''") (simp_all only: option.map option.case patched_list)

lemma patched_rules: "rules_of (fst (patch_forwards c)) = rules_of c"
  by (rule rules_by_key) (simp add: patch_map)

lemma patched_rule: "hasAPIRoutingRule (fst (patch_forwards c)) = hasAPIRoutingRule c"
  by (rule rule_repair.reads_key) (simp add: patch_map)

lemma patched_serviceable: "serviceable (fst (patch_forwards c)) = serviceable c"
  by (simp only: serviceable_def patched_sections patched_policy patched_api patched_outbounds patched_rules)

lemma patched_unique:
  "unique_tags (get_list (fst (patch_forwards c)) ''inbounds'') = unique_tags (get_list c ''inbounds'')"
  "unique_tags (get_list (fst (patch_forwards c)) ''outbounds'') = unique_tags (get_list c ''outbounds'')"
proof -
  have t: "tag_of (JObj (jset ''settings'' v m)) = tag_of (JObj m)" for v m by (simp add: tag_of_def get_str_def)
  have "tag_of (fst (patch_forward_inbound x)) = tag_of x" "tag_of (fst (patch_forward_outbound x)) = tag_of x" for x
    using patched_shape [of x] t by metis+
  then have "tags_of (List.map (fst \<circ> patch_forward_inbound) xs) = tags_of xs"
    "tags_of (List.map (fst \<circ> patch_forward_outbound) xs) = tags_of xs" for xs
    by (simp_all add: tags_of_def comp_def)
  then show "unique_tags (get_list (fst (patch_forwards c)) ''inbounds'') = unique_tags (get_list c ''inbounds'')"
    "unique_tags (get_list (fst (patch_forwards c)) ''outbounds'') = unique_tags (get_list c ''outbounds'')"
    by (simp_all add: get_list_def patch_arrays unique_tags_def split: option.split)
qed

lemma patched_fit: "fit sound (fst (patch_forwards c)) = fit sound c"
  by (simp only: fit_def complete_config_def patched_serviceable patched_sections patched_policy patched_api
      patched_outbounds patched_rules patched_rule patched_unique)

text \<open>No step gives an inbound another port.\<close>

lemma patch_port: "JObj m' = fst (patch_forward_inbound (JObj m)) \<Longrightarrow> json_port m' p = json_port m p"
  by (auto simp: patch_forward_inbound_def json_port_def Let_def split: option.splits if_splits)

lemma patched_443: "free_443 c \<Longrightarrow> free_443 (fst (patch_forwards c))"
proof -
  assume c: "free_443 c"
  have "\<not> json_port m' 443" if j: "JObj m' \<in> set (get_list (fst (patch_forwards c)) ''inbounds'')" for m'
  proof -
    obtain x where x: "x \<in> set (get_list c ''inbounds'')" "JObj m' = fst (patch_forward_inbound x)"
      using j unfolding get_list_def patch_arrays by (cases "get_arr c ''inbounds''") (auto simp: image_iff)
    moreover obtain m where m: "x = JObj m" using x(2) patched_shape(1) [of x] by metis
    moreover have "JObj m \<in> set (get_list c ''inbounds'')" using x(1) m by simp
    ultimately show ?thesis using c patch_port [of m' m 443] x(2) by (simp add: free_443_def)
  qed
  then show ?thesis by (simp add: free_443_def)
qed

lemma absorb_port: "JObj m' = absorb_copy key src (JObj m) \<Longrightarrow> json_port m' p = json_port m p"
  by (auto simp: absorb_copy_def mergeInboundClients_def json_port_def Let_def split: if_splits option.splits)

lemma absorb_obj: "JObj m' = absorb_copy key src x \<Longrightarrow> \<exists>m. x = JObj m"
  by (cases x) (auto simp: absorb_copy_def split: if_splits)

lemma dedupe_loop_port:
  assumes "\<forall>m. JObj m \<in> set arr \<union> set kept \<longrightarrow> \<not> json_port m p" and "\<forall>t i. seen t = Some i \<longrightarrow> i < length kept"
  shows "\<forall>m. JObj m \<in> set (fst (dedupe_loop key arr kept seen n)) \<longrightarrow> \<not> json_port m p"
  using assms
proof (induction key arr kept seen n rule: dedupe_loop.induct)
  case (2 key item arr kept seen removed)
  have app: "\<forall>m. JObj m \<in> set arr \<union> set (kept @ [item]) \<longrightarrow> \<not> json_port m p" using 2(5) by auto
  have len: "\<forall>t i. seen t = Some i \<longrightarrow> i < length (kept @ [item])" using 2(6) by fastforce
  show ?case
  proof (cases "as_obj item")
    case None
    with 2(1) [OF None app len] show ?thesis by (simp add: dedupe_loop.simps)
  next
    case obj: (Some src)
    show ?thesis
    proof (cases "get_str src ''tag'' = []")
      case True
      with 2(2) [OF obj refl True app len] obj show ?thesis by (simp add: dedupe_loop.simps Let_def)
    next
      case tagged: False
      show ?thesis
      proof (cases "seen (get_str src ''tag'')")
        case None
        have len': "\<forall>t i. (seen(get_str src ''tag'' \<mapsto> length kept)) t = Some i \<longrightarrow> i < length (kept @ [item])"
          using len by auto
        from 2(3) [OF obj refl tagged None app len'] obj tagged None show ?thesis
          by (simp add: dedupe_loop.simps Let_def fun_upd_def)
      next
        case (Some i)
        let ?k = "kept[i := absorb_copy key src (kept ! i)]"
        have new: "\<not> json_port m p" if eq: "JObj m = absorb_copy key src (kept ! i)" for m
        proof -
          obtain m0 where m0: "kept ! i = JObj m0" using absorb_obj [OF eq] by blast
          have "kept ! i \<in> set kept" using 2(6) Some by simp
          with 2(5) m0 have "\<not> json_port m0 p" by simp
          with eq m0 absorb_port [of m key src m0 p] show ?thesis by simp
        qed
        have "\<forall>m. JObj m \<in> set arr \<union> set ?k \<longrightarrow> \<not> json_port m p"
        proof (intro allI impI)
          fix m
          assume "JObj m \<in> set arr \<union> set ?k"
          then have "JObj m = absorb_copy key src (kept ! i) \<or> JObj m \<in> set (item # arr) \<union> set kept"
            using set_update_subset_insert [of kept i "absorb_copy key src (kept ! i)"] by auto
          with new [of m] 2(5) show "\<not> json_port m p" by blast
        qed
        with 2(4) [OF obj refl tagged Some] 2(6) obj tagged Some show ?thesis by (simp add: dedupe_loop.simps Let_def)
      qed
    qed
  qed
qed (simp add: dedupe_loop.simps)

lemma ensured_443: "free_443 c \<Longrightarrow> free_443 (fst (ensure_sections c))"
proof -
  assume c: "free_443 c"
  let ?l = "(if hasAPIInbound c then [] else [api_inbound 46736]) @ get_list c ''inbounds''"
  have a: "\<not> json_port m 443" if "JObj m = api_inbound 46736" for m
  proof -
    have "map_of m ''port'' = Some (JNum 46736 0)" using that by (simp add: api_inbound_def)
    then show ?thesis by (simp add: json_port_def num_is_int_def)
  qed
  have "\<forall>m. JObj m \<in> set ?l \<longrightarrow> \<not> json_port m 443"
  proof (intro allI impI)
    fix m
    assume "JObj m \<in> set ?l"
    then have "JObj m = api_inbound 46736 \<or> JObj m \<in> set (get_list c ''inbounds'')" by (cases "hasAPIInbound c") auto
    then show "\<not> json_port m 443" using a [of m] c unfolding free_443_def by blast
  qed
  then have p: "\<forall>m. JObj m \<in> set ?l \<union> set [] \<longrightarrow> \<not> json_port m 443" by (simp only: list.set(1) Un_empty_right)
  have q: "\<forall>t i. Map.empty t = Some i \<longrightarrow> i < length ([] :: json list)" by simp
  have "\<forall>m. JObj m \<in> set (fst (dedupe_list ''inbounds'' ?l)) \<longrightarrow> \<not> json_port m 443"
    unfolding dedupe_list_def by (rule dedupe_loop_port [OF p q])
  moreover have "get_list (fst (ensure_sections c)) ''inbounds'' = fst (dedupe_list ''inbounds'' ?l)"
    by (simp only: ensure_fst swept_lists(1) repaired_lists(1))
  ultimately show ?thesis by (simp only: free_443_def)
qed

lemma protected_443: "free_443 (protect443 c)"
proof -
  have "map_of (protect443 c) ''inbounds'' = Some (JArr (filter_objs (\<lambda>m. json_port m 443) (get_list c ''inbounds'')))"
    by (simp add: protect443_def Let_def split: option.splits)
  then have "get_list (protect443 c) ''inbounds'' = filter_objs (\<lambda>m. json_port m 443) (get_list c ''inbounds'')"
    by (simp add: get_list_def get_arr_def)
  then show ?thesis by (auto simp: free_443_def filter_objs_def)
qed

section \<open>The steps on the disk\<close>

text \<open>On a disk that works every step keeps the tape empty.\<close>

lemma calm_ops:
  "tape w = [] \<Longrightarrow> tape (snd (read_file p w)) = []" "tape w = [] \<Longrightarrow> tape (snd (write_file p s w)) = []"
  "tape w = [] \<Longrightarrow> tape (snd (sys_call w)) = []" "tape w = [] \<Longrightarrow> tape (snd (rename_file p q w)) = []"
  by (simp_all add: read_tape calm_calls calm_moves split: option.splits)

lemma calm_fragments: "tape w = [] \<Longrightarrow> merge_confdir_files dec dir names base n w = (b, k, w') \<Longrightarrow> tape w' = []"
proof (induction names arbitrary: base n)
  case (Cons name names)
  from Cons.prems Cons.IH [OF Cons.prems(1)] show ?case by (auto simp: calm_read split: option.splits)
qed simp

lemma calm_moved: "tape w = [] \<Longrightarrow> tape (move_files src dst names w) = []"
  by (induction names arbitrary: w) (simp_all add: calm_ops)

lemma calm_merge: "tape w = [] \<Longrightarrow> tape (snd (MergeXrayConfdirInto dec enc ts configPath confDir target w)) = []"
proof -
  assume c: "tape w = []"
  obtain b n w' where m: "merge_confdir_files dec confDir (sort (filter is_json_name (dir_files w confDir))) (the (dec (the (file_at w configPath)))) 0 w = (b, n, w')"
    by (metis surj_pair)
  note t = calm_fragments [OF c m]
  show ?thesis
    using c t m by (auto simp: MergeXrayConfdirInto_def calm_read calm_calls calm_moved Let_def split: option.splits)
qed

lemma calm_first_readable: "tape w = [] \<Longrightarrow> snd (first_readable ps w) = w"
  by (induction ps) (simp_all add: calm_read split: option.splits)

lemma calm_discover: "tape w = [] \<Longrightarrow> snd (Discover h w) = w"
proof -
  assume c: "tape w = []"
  obtain r w1 where 1: "first_readable defaultServiceFiles w = (r, w1)" by fastforce
  have "snd (findServiceFileContent h w) = w"
    using calm_first_readable [OF c, of defaultServiceFiles] 1 c
    by (auto simp: findServiceFileContent_def calm_read split: option.splits)
  then show ?thesis by (auto simp: Discover_def DiscoverFromSystemd_def split: prod.splits)
qed

lemma calm_import: "tape (disk st) = [] \<Longrightarrow> tape (disk (import_external env stamp st)) = []"
proof -
  assume c: "tape (disk st) = []"
  obtain found a where 1: "on_world (Discover (se_xray env)) st = (found, a)" by fastforce
  obtain r b where 2: "on_world (MergeXrayConfdirInto (obj_dec env) (se_enc env) stamp (ConfigPath found) (ConfDir found) default_path) a = (r, b)"
    by fastforce
  obtain r' b' where 3: "on_world (rename_file (ConfigPath found) (ConfigPath found @ ''.before-mmwx-'' @ stamp)) b = (r', b')"
    by fastforce
  have "tape (disk a) = []" using on_world_sel(3) [OF 1] calm_discover [OF c] c by simp
  moreover from this have "tape (disk b) = []" using on_world_sel(3) [OF 2] calm_merge by simp
  moreover from this have "tape (disk b') = []" using on_world_sel(3) [OF 3] calm_ops(4) by simp
  ultimately show ?thesis
    unfolding import_external_def 1 prod.case Let_def 2 3 snd_conv by (simp split: sum.splits)
qed

lemma calm_geo: "tape w = [] \<Longrightarrow> tape (ensureGeoData exe get w) = []"
proof -
  have "tape v = [] \<Longrightarrow> tape (geo_file get dir name v) = []" for dir name v using geo_effect [OF refl] by blast
  then show "tape w = [] \<Longrightarrow> tape (ensureGeoData exe get w) = []"
    by (cases exe) (simp_all add: ensureGeoData_def)
qed

text \<open>After the template there is a configuration file; it is a template, or what was there, or a merge of the two.\<close>

lemma init_effect:
  assumes c: "tape w = []" and w': "w' = initXrayConfig dec enc tt dt default_path steal w"
  shows "tape w' = []" "file_at w' default_path \<noteq> None"
    "steal = [] \<Longrightarrow> file_at w' default_path = file_at w default_path \<or> file_at w' default_path = Some dt"
  using c unfolding w' initXrayConfig_def
  by (auto simp: calm_calls calm_read calm_moves Let_def split: option.splits sum.splits)

lemma patch_disk:
  assumes c: "tape w = []" and w': "w' = patchTunnelForwardUDPFullcone (obj_dec h) enc default_path w"
    and codec: "\<And>x. obj_dec h (enc x) = Some x" and P: "\<And>c. P c \<Longrightarrow> P (fst (patch_forwards c))"
  shows "tape w' = []" "file_at w default_path \<noteq> None \<Longrightarrow> file_at w' default_path \<noteq> None" "conf_ok h P w \<Longrightarrow> conf_ok h P w'"
proof -
  show t: "tape w' = []" and e: "file_at w default_path \<noteq> None \<Longrightarrow> file_at w' default_path \<noteq> None"
    using c unfolding w' patchTunnelForwardUDPFullcone_def
    by (auto simp: calm_read calm_calls split: option.splits prod.splits)
  assume ok: "conf_ok h P w"
  show "conf_ok h P w'"
  proof (cases "\<exists>data m. file_at w default_path = Some data \<and> obj_dec h data = Some m \<and> 4 < length data \<and> snd (patch_forwards m)")
    case True
    then obtain data m where d: "file_at w default_path = Some data" "obj_dec h data = Some m" "4 < length data" "snd (patch_forwards m)"
      by blast
    then have "w' = put_file default_path (enc (fst (patch_forwards m))) w"
      using c unfolding w' patchTunnelForwardUDPFullcone_def by (simp add: calm_read calm_calls case_prod_beta)
    moreover have "P m" using ok d by (simp add: conf_ok_def)
    ultimately show ?thesis using P [of m] codec by (simp add: conf_ok_def)
  next
    case False
    then have "w' = w"
      using c unfolding w' patchTunnelForwardUDPFullcone_def
      by (auto simp: calm_read case_prod_beta split: option.splits)
    with ok show ?thesis by simp
  qed
qed

lemma ensure_disk:
  assumes c: "tape (disk st) = []" and there: "file_at (disk st) default_path \<noteq> None" and mode: "se_mode h = ''embedded''"
    and codec: "\<And>x. obj_dec h (se_enc h x) = Some x" and r: "manage_EnsureXrayConfig h st = (res, st')"
    and P: "\<And>m. Q m \<Longrightarrow> P (fst (ensure_sections m))" and ok: "conf_ok h Q (disk st)"
  shows "tape (disk st') = []" "file_at (disk st') default_path \<noteq> None" "conf_ok h P (disk st')"
proof -
  have "path_exists (disk st) default_path" using there by (simp add: path_exists_def)
  then have f: "findXrayConfigPath h st = (default_path, st)" using mode by (simp add: findXrayConfigPath_def)
  let ?e = "\<lparr>ce_dec = obj_dec h, ce_enc = se_enc h, ce_build_in = (\<lambda>_. True), ce_build_out = (\<lambda>_. True),
             ce_path = default_path, ce_confdir = [], ce_embedded = (se_mode h = ''embedded'')\<rparr>"
  have d: "disk st' = snd (EnsureXrayConfig ?e (disk st))"
    using r on_world_sel(3) [of "EnsureXrayConfig ?e" st res st'] by (simp add: manage_EnsureXrayConfig_def f)
  obtain data where data: "file_at (disk st) default_path = Some data" using there by blast
  have ne: "default_path @ ''.backup'' \<noteq> default_path" "default_path \<noteq> []" by (simp_all add: default_path_def)
  show "tape (disk st') = []" "file_at (disk st') default_path \<noteq> None"
    using c data ne unfolding d EnsureXrayConfig_def
    by (auto simp: calm_read calm_calls Let_def split: option.splits prod.splits)
  show "conf_ok h P (disk st')"
  proof (cases "obj_dec h data")
    case None
    then have "disk st' = disk st" using c data ne unfolding d EnsureXrayConfig_def by (simp add: calm_read)
    with None data show ?thesis by (simp add: conf_ok_def)
  next
    case (Some m)
    have p: "P (fst (ensure_sections m))" using P ok data Some by (simp add: conf_ok_def)
    show ?thesis
    proof (cases "snd (ensure_sections m) = []")
      case True
      then have "disk st' = disk st" using c data ne Some unfolding d EnsureXrayConfig_def
        by (simp add: calm_read case_prod_beta)
      with p ensure_unnoted [OF True] data Some show ?thesis by (simp add: conf_ok_def)
    next
      case False
      then have "file_at (disk st') default_path = Some (se_enc h (fst (ensure_sections m)))"
        using c data ne Some unfolding d EnsureXrayConfig_def
        by (simp add: calm_read calm_calls case_prod_beta Let_def)
      with p codec show ?thesis by (simp add: conf_ok_def)
    qed
  qed
qed

section \<open>The start\<close>

text \<open>What an embedded instance, if there is one, runs.\<close>

definition emb_ok :: "svc_env \<Rightarrow> (obj \<Rightarrow> bool) \<Rightarrow> svc \<Rightarrow> bool" where
  "emb_ok h P st \<longleftrightarrow>
     (case sv_emb st of
        None \<Rightarrow> True
      | Some e \<Rightarrow> em_path e = default_path \<and>
          (\<exists>data. em_run e = Some (core_text h data) \<and> (\<forall>m. obj_dec h data = Some m \<longrightarrow> P m)))"

lemma started_ok:
  assumes "embedded_Start h \<lparr>em_path = default_path, em_run = None\<rparr> st = (ok, e, st')" and "conf_ok h P (disk st)"
  shows "ok \<Longrightarrow> em_path e = default_path \<and>
    (\<exists>data. em_run e = Some (core_text h data) \<and> (\<forall>m. obj_dec h data = Some m \<longrightarrow> P m))"
    "sv_emb st' = sv_emb st" "files (disk st') = files (disk st)" "tape (disk st) = [] \<Longrightarrow> tape (disk st') = []"
  using start_result [OF assms(1)] start_grows [OF assms(1)] assms(2) by (auto simp: conf_ok_def grows_def)

lemma lazy_ok:
  assumes l: "lazyStartEmbeddedXray h st = (ok, st')" and none: "sv_emb st = None" and ok: "conf_ok h P (disk st)"
    and there: "file_at (disk st) default_path \<noteq> None"
  shows "emb_ok h P st'"
proof -
  have p: "find (path_exists (disk st)) DefaultXrayConfigPaths = Some default_path"
    using there by (simp add: DefaultXrayConfigPaths_def default_path_def path_exists_def)
  define st1 where "st1 = (if se_docker h then st else snd (systemctl ''disable xray'' (snd (systemctl ''stop xray'' st))))"
  have 1: "disk st1 = disk st" "sv_emb st1 = None" using none by (simp_all add: st1_def systemctl_sel)
  obtain stopped st2 where 2: "pause_nginx h st1 = (stopped, st2)" by fastforce
  obtain a e st3 where 3: "embedded_Start h \<lparr>em_path = default_path, em_run = None\<rparr> st2 = (a, e, st3)" by (metis prod_cases3)
  have d2: "disk st2 = disk st" "sv_emb st2 = None" using pause_effect [OF 2] 1 by simp_all
  have q: "conf_ok h P (disk st2)" using ok d2 by simp
  note s = started_ok [OF 3 q]
  have "sv_emb st' = (if a then Some e else None)"
    using l s(2) d2 resume_effect [of h stopped]
    unfolding lazyStartEmbeddedXray_def p option.case Let_def st1_def [symmetric] 2 prod.case 3 by (auto split: bool.splits)
  with s(1) show ?thesis by (cases a) (simp_all add: emb_ok_def)
qed

text \<open>The prepared state decides what runs in the end: the first start reads it, and when that fails the second look at the
  configuration can only make a completed one of it.\<close>

lemma start_xray_ok:
  assumes calm: "tape (disk st) = []" and mode: "cf_xray c = ''embedded''" and auth: "cf_auth c \<noteq> Some False"
    and none: "sv_emb st = None" and codec: "\<And>x. obj_dec (up_svc env) (se_enc (up_svc env) x) = Some x"
    and keep: "\<And>m. P m \<Longrightarrow> P (fst (ensure_sections m))"
    and protect: "protect_local_master (handlers_for env c) c st = (steal, st1)"
    and p: "p = prepare_embedded env (handlers_for env c) steal st1"
    and good: "conf_ok (handlers_for env c) P (disk p)" "tape (disk p) = []" "file_at (disk p) default_path \<noteq> None"
  shows "emb_ok (handlers_for env c) P (start_xray env c st)"
proof -
  let ?h = "handlers_for env c"
  have dec: "obj_dec ?h = obj_dec (up_svc env)" "se_enc ?h = se_enc (up_svc env)" "se_mode ?h = ''embedded''"
    using mode by (simp_all add: handlers_for_def obj_dec_def fun_eq_iff)
  have np: "sv_emb p = None" using none protect_sel [OF protect] prepare_sel [of env ?h steal st1] by (simp add: p)
  obtain ok e st2 where 2: "embedded_Start ?h \<lparr>em_path = default_path, em_run = None\<rparr> p = (ok, e, st2)" by (metis prod_cases3)
  note s = started_ok [OF 2 good(1)]
  have a: "authorized_at_start c" using auth by (auto simp: authorized_at_start_def split: option.splits)
  define st3 where "st3 = launch_embedded ?h p"
  have st3: "st3 = (if ok then st2\<lparr>sv_emb := Some e\<rparr> else st2)" by (simp add: st3_def launch_embedded_def 2)
  have run: "start_xray env c st = PromoteAllTagsOnStartup ?h (if sv_emb st3 = None then start_external ?h True st3 else st3)"
    unfolding start_xray_def Let_def protect prod.case using mode a by (simp add: p [symmetric] st3_def)
  have "emb_ok ?h P (if sv_emb st3 = None then start_external ?h True st3 else st3)"
  proof (cases ok)
    case True
    with s(1) st3 show ?thesis by (simp add: emb_ok_def)
  next
    case False
    then have 3: "st3 = st2" "sv_emb st2 = None" using st3 s(2) np by simp_all
    have d: "file_at (disk st2) q = file_at (disk p) q" for q using s(3) by (simp add: file_at_def)
    obtain res st4 where 4: "manage_EnsureXrayConfig ?h st2 = (res, st4)" by fastforce
    have i: "conf_ok ?h P (disk st2)" "file_at (disk st2) default_path \<noteq> None" using good d by (simp_all add: conf_ok_def)
    have c: "obj_dec ?h (se_enc ?h x) = Some x" for x using codec by (simp add: dec)
    note e = ensure_disk [where P = P and Q = P, OF s(4) [OF good(2)] i(2) dec(3) c 4 keep i(1)]
    have n4: "sv_emb st4 = None" using manage_ensure_sel(2) [OF 4] 3(2) by simp
    obtain b st5 where 5: "RestartXray ?h st4 = (b, st5)" by fastforce
    then have "lazyStartEmbeddedXray ?h st4 = (b, st5)" using n4 dec(3) by (simp add: RestartXray_def)
    then have "emb_ok ?h P st5" by (rule lazy_ok [OF _ n4 e(3) e(2)])
    then show ?thesis using 3 n4 by (simp add: start_external_def 4 5 emb_ok_def)
  qed
  then show ?thesis by (simp add: run emb_ok_def promote_sel)
qed

text \<open>The disk after the import and the data files, when the template is looked at, and the configuration that is
  completed next.\<close>

definition before_template :: "start_env \<Rightarrow> svc_env \<Rightarrow> svc \<Rightarrow> world" where
  "before_template env h st =
     disk (on_file (ensureGeoData (up_exe env) (up_get env)) (stop_external h (import_external h (up_stamp env) st)))"

definition to_complete :: "start_env \<Rightarrow> config \<Rightarrow> svc \<Rightarrow> obj option" where
  "to_complete env c st =
     (let h = handlers_for env c
      in (case protect_local_master h c st of
            (steal, st1) \<Rightarrow>
              Option.bind
                (file_at (initXrayConfig (obj_dec h) (se_enc h) (up_tunnel env) (up_default env) default_path steal
                   (before_template env h st1)) default_path)
                (obj_dec h)))"

lemma prepared_ok:
  assumes calm: "tape (disk st) = []" and mode: "se_mode h = ''embedded''"
    and codec: "\<And>x. obj_dec h (se_enc h x) = Some x"
    and Q: "\<And>m. Q m \<Longrightarrow> P (fst (ensure_sections m))" and P: "\<And>m. P m \<Longrightarrow> P (fst (patch_forwards m))"
    and start: "\<And>w. tape w = [] \<Longrightarrow> (\<And>q. q \<notin> set (geo_paths (path_dir (the (up_exe env)))) \<Longrightarrow> file_at w q = file_at (disk (import_external h (up_stamp env) st)) q) \<Longrightarrow>
      w = before_template env h st \<Longrightarrow> conf_ok h Q (initXrayConfig (obj_dec h) (se_enc h) (up_tunnel env) (up_default env) default_path steal w)"
  defines "p \<equiv> prepare_embedded env h steal st"
  shows "conf_ok h P (disk p) \<and> tape (disk p) = [] \<and> file_at (disk p) default_path \<noteq> None"
proof -
  define a where "a = stop_external h (import_external h (up_stamp env) st)"
  define b where "b = on_file (ensureGeoData (up_exe env) (up_get env)) a"
  define d where "d = on_file (initXrayConfig (obj_dec h) (se_enc h) (up_tunnel env) (up_default env) default_path steal) b"
  obtain res e where 1: "manage_EnsureXrayConfig h d = (res, e)" by fastforce
  have p: "p = on_file (patchTunnelForwardUDPFullcone (obj_dec h) (se_enc h) default_path) e"
    unfolding p_def prepare_embedded_def Let_def a_def [symmetric] b_def [symmetric] d_def [symmetric] 1 by simp
  have ta: "tape (disk a) = []" using calm_import [OF calm] by (simp add: a_def stop_external_sel(3))
  then have tb: "tape (disk b) = []" using calm_geo by (simp add: b_def)
  have fb: "file_at (disk b) q = file_at (disk (import_external h (up_stamp env) st)) q"
    if "q \<notin> set (geo_paths (path_dir (the (up_exe env))))" for q
  proof (cases "up_exe env")
    case None
    then show ?thesis by (simp add: b_def a_def stop_external_sel(3) ensureGeoData_def)
  next
    case (Some x)
    have "file_at (geo_file g dir n v) q = file_at v q" if "q \<noteq> path_join dir n" "q \<noteq> path_join dir n @ ''.tmp''" for g dir n v
      using geo_effect [OF refl] that by blast
    with that Some show ?thesis by (simp add: b_def a_def stop_external_sel(3) ensureGeoData_def geo_paths_def)
  qed
  have dd: "disk d = initXrayConfig (obj_dec h) (se_enc h) (up_tunnel env) (up_default env) default_path steal (disk b)" by (simp add: d_def)
  note i = init_effect [OF tb dd]
  have "disk b = before_template env h st" by (simp add: b_def a_def before_template_def)
  note i' = start [OF tb fb this]
  have "conf_ok h Q (disk d)" unfolding dd by (rule i')
  note e = ensure_disk [where P = P and Q = Q, OF i(1,2) mode codec 1 Q this]
  have "disk p = patchTunnelForwardUDPFullcone (obj_dec h) (se_enc h) default_path (disk e)" by (simp add: p)
  note f = patch_disk [where P = P, OF e(1) this codec P]
  from f e show ?thesis by blast
qed

section \<open>What is guaranteed\<close>

lemma handlers_codec:
  "obj_dec (handlers_for env c) = obj_dec (up_svc env)" "se_enc (handlers_for env c) = se_enc (up_svc env)"
  "se_mode (handlers_for env c) = cf_xray c"
  by (simp_all add: handlers_for_def obj_dec_def fun_eq_iff)

lemma protect_disk:
  assumes "tape (disk st) = []" and "protect_local_master h c st = (steal, st')"
  shows "tape (disk st') = []"
  using assms unfolding protect_local_master_def protectMasterHTTPSPort443_def
  by (auto simp: calm_read calm_calls Let_def split: if_splits option.splits)


lemma not_geo: "default_path \<notin> set (geo_paths dir)"
proof
  have l: "last default_path = CHR ''n''" by (simp add: default_path_def)
  assume "default_path \<in> set (geo_paths dir)"
  then consider "default_path = dir @ ''/geoip.dat''" | "default_path = dir @ ''/geoip.dat.tmp''"
    | "default_path = dir @ ''/geosite.dat''" | "default_path = dir @ ''/geosite.dat.tmp''"
    by (auto simp: geo_paths_def path_join_def)
  then show False by cases (drule arg_cong [of _ _ last]; simp add: l)+
qed

lemma import_nothing:
  assumes calm: "tape (disk st) = []" and f: "fst (Discover (se_xray h) (disk st)) = q"
    and "ConfigPath q = [] \<or> ConfigPath q = default_path" and "ConfDir q = []"
  shows "disk (import_external h stamp st) = disk st"
proof -
  obtain found a where 1: "on_world (Discover (se_xray h)) st = (found, a)" by fastforce
  have "found = q" using on_world_sel(4) [OF 1] f by simp
  moreover have "disk a = disk st" using on_world_sel(3) [OF 1] calm_discover [OF calm] by simp
  ultimately show ?thesis using assms(3,4) unfolding import_external_def 1 prod.case Let_def by auto
qed

lemma protected_disk:
  assumes calm: "tape (disk st) = []" and codec: "\<And>x. obj_dec h (se_enc h x) = Some x"
    and steal: "cf_steal c = ''tunnel'' \<or> cf_steal c = ''fallback''" and "https_master c"
    and "path_exists (disk st) ''/etc/mmwx'' \<or> path_exists (disk st) ''/var/lib/mmwx''"
    and p: "protect_local_master h c st = (s, st')"
  shows "s = [] \<and> (\<forall>data m. file_at (disk st') default_path = Some data \<longrightarrow> 4 < length data \<longrightarrow> obj_dec h data = Some m \<longrightarrow> free_443 m)"
proof -
  let ?p = "default_path" let ?f = "protectMasterHTTPSPort443 (obj_dec h) (se_enc h) ?p"
  have s: "s = []" "disk st' = ?f (disk st)" using p assms(3-5) by (auto simp: protect_local_master_def)
  have ne: "?p @ ''.before-master-https-protect'' \<noteq> ?p" by simp
  have "free_443 m" if d: "file_at (?f (disk st)) ?p = Some data" "4 < length data" "obj_dec h data = Some m" for data m
  proof (cases "\<exists>t cfg. file_at (disk st) ?p = Some t \<and> 4 < length t \<and> obj_dec h t = Some cfg")
    case True
    then obtain t cfg where t: "file_at (disk st) ?p = Some t" "4 < length t" "obj_dec h t = Some cfg" by blast
    then have "file_at (?f (disk st)) ?p = Some (se_enc h (protect443 cfg))"
      using calm ne by (simp add: protectMasterHTTPSPort443_def calm_read calm_calls Let_def)
    with d codec protected_443 show ?thesis by auto
  next
    case False
    then have "?f (disk st) = disk st"
      using calm by (auto simp: protectMasterHTTPSPort443_def calm_read split: option.splits)
    with d False show ?thesis by auto
  qed
  with s show ?thesis by simp
qed

lemma init_plain:
  assumes "tape w = []"
  shows "file_at (initXrayConfig dec enc tt dt default_path [] w) default_path = (case file_at w default_path of
      None \<Rightarrow> Some dt | Some s \<Rightarrow> Some (if length s \<le> 4 then dt else s))"
  using assms by (simp add: initXrayConfig_def calm_calls calm_read Let_def split: option.splits)


text \<open>C15: An agent that starts while its host is over the quota brings no Xray up, in neither mode and whatever fails: all it
  asks of the service manager is to stop and disable Xray, the stop is always asked for, nginx is at most reloaded, and
  no embedded instance exists afterwards.\<close>

theorem unauthorised_never_starts:
  assumes "cf_auth c = Some False" and "sv_emb st = None"
  shows "sv_emb (start_xray env c st) = None \<and>
    (\<exists>cs. sv_calls (start_xray env c st) = sv_calls st @ cs \<and> Systemctl ''stop xray'' \<in> set cs \<and> list_all quiet_call cs)"
  by (rule start_xray_unauthorised [OF assms])

section \<open>What is not guaranteed\<close>

text \<open>An imported configuration replaces the protected one: it comes after the protection and nothing looks at its ports.\<close>

lemma import_replaces_protected:
  assumes calm: "tape (disk st) = []" and q: "fst (Discover (se_xray h) (disk st)) = q" "ConfDir q = []"
    "ConfigPath q \<noteq> []" "ConfigPath q \<noteq> default_path"
    and "file_at (disk st) (ConfigPath q) = Some t" "obj_dec h t = Some base"
    and other: "default_path \<noteq> ConfigPath q @ ''.before-mmwx-'' @ stamp"
  shows "file_at (disk (import_external h stamp st)) default_path = Some (se_enc h base)"
proof -
  obtain found a where 1: "on_world (Discover (se_xray h)) st = (found, a)" by fastforce
  have f: "found = q" using on_world_sel(4) [OF 1] q by simp
  have a: "disk a = disk st" using on_world_sel(3) [OF 1] calm_discover [OF calm] by simp
  let ?m = "MergeXrayConfdirInto (obj_dec h) (se_enc h) stamp (ConfigPath q) (ConfDir q) default_path"
  have m: "?m (disk a) = (Inr (0, []), put_file default_path (se_enc h base) (disk st))"
    using calm assms(6,7) q a by (simp add: MergeXrayConfdirInto_def calm_read calm_calls)
  obtain r b where 2: "on_world ?m a = (r, b)" by fastforce
  have b: "r = Inr (0, [])" "disk b = put_file default_path (se_enc h base) (disk st)"
    using on_world_sel(3,4) [OF 2] m by simp_all
  obtain r' b' where 3: "on_world (rename_file (ConfigPath found) (ConfigPath found @ ''.before-mmwx-'' @ stamp)) b = (r', b')" by fastforce
  have "disk b' = snd (rename_file (ConfigPath q) (ConfigPath q @ ''.before-mmwx-'' @ stamp) (disk b))"
    using on_world_sel(3) [OF 3] f by simp
  with other q(4) b(2) have "file_at (disk b') default_path = Some (se_enc h base)" by simp
  then show ?thesis
    unfolding import_external_def 1 prod.case Let_def f 2 b 3 [unfolded f] sum.case snd_conv
    using q f by simp
qed

text \<open>When the first start fails, the second look at the configuration finds it complete, and nothing starts Xray again.\<close>

lemma failed_start_not_retried:
  assumes "tape (disk st) = []" "se_mode h = ''embedded''" "file_at (disk st) default_path = Some data"
    and "obj_dec h data = Some m" "complete_config m"
  shows "sv_calls (start_external h True st) = sv_calls st"
proof -
  obtain res st1 where 1: "manage_EnsureXrayConfig h st = (res, st1)" by fastforce
  have f: "findXrayConfigPath h st = (default_path, st)"
    using assms(2,3) by (simp add: findXrayConfigPath_def path_exists_def)
  have ne: "default_path \<noteq> []" by (simp add: default_path_def)
  have "\<not> er_modified res"
    using 1 ne assms(1,3,4) ensure_quiet [OF assms(5)]
    by (auto simp: manage_EnsureXrayConfig_def f on_world_def EnsureXrayConfig_def calm_read split: prod.splits)
  with manage_ensure_sel(1) [OF 1] show ?thesis by (simp add: start_external_def 1)
qed

section \<open>Examples\<close>

text \<open>A codec: configurations are numbered and written in unary.\<close>

instance json :: countable by countable_datatype

definition unary_enc :: "obj \<Rightarrow> string" where
  "unary_enc m = replicate (to_nat m) (CHR ''1'')"

definition unary_dec :: "string \<Rightarrow> json option" where
  "unary_dec s = Some (JObj (from_nat (length s)))"

definition start_demo_env :: start_env where
  "start_demo_env =
     \<lparr>up_svc = demo_svc_env\<lparr>se_xray := (demo_xray None)\<lparr>xh_dec := unary_dec\<rparr>, se_enc := unary_enc\<rparr>, up_stamp = ''0'',
      up_tunnel = unary_enc [], up_default = unary_enc [], up_exe = None, up_get = (\<lambda>_. None)\<rparr>"

definition start_demo_config :: config where
  "start_demo_config = empty_config\<lparr>cf_xray := ''embedded'', cf_steal := ''tunnel'', cf_master := ''https://m''\<rparr>"

definition start_demo :: svc where
  "start_demo = (demo_svc [] [])\<lparr>sv_sys := (demo_files [(''/etc/mmwx/db'', [])], [])\<rparr>"

lemma start_demo_codec: "obj_dec (up_svc start_demo_env) (se_enc (up_svc start_demo_env) x) = Some x"
  by (simp add: start_demo_env_def obj_dec_def unary_enc_def unary_dec_def)

lemma unauthorised_never_starts_witness:
  "sv_emb (start_xray start_demo_env (start_demo_config\<lparr>cf_auth := Some False\<rparr>) start_demo) = None"
  using unauthorised_never_starts [of "start_demo_config\<lparr>cf_auth := Some False\<rparr>" start_demo start_demo_env]
  by (simp add: start_demo_def demo_svc_def)

text \<open>Nothing is stored and nothing is found to import: the start takes the built-in template.\<close>

lemma start_demo_ready:
  "tape (disk start_demo) = []" "cf_xray start_demo_config = ''embedded''" "sv_emb start_demo = None"
  "cf_steal start_demo_config = ''tunnel'' \<or> cf_steal start_demo_config = ''fallback''"
  "https_master start_demo_config"
  "path_exists (disk start_demo) ''/etc/mmwx'' \<or> path_exists (disk start_demo) ''/var/lib/mmwx''"
  "file_at (disk start_demo) default_path = None"
  "fst (Discover (se_xray (up_svc start_demo_env)) (disk start_demo)) = no_paths"
proof -
  show "tape (disk start_demo) = []" "cf_xray start_demo_config = ''embedded''" "sv_emb start_demo = None"
    "cf_steal start_demo_config = ''tunnel'' \<or> cf_steal start_demo_config = ''fallback''"
    by (simp_all add: start_demo_def start_demo_config_def demo_svc_def demo_files_def)
  show "https_master start_demo_config" by code_simp
  show "path_exists (disk start_demo) ''/etc/mmwx'' \<or> path_exists (disk start_demo) ''/var/lib/mmwx''" by code_simp
  show "file_at (disk start_demo) default_path = None"
    by (simp add: start_demo_def demo_svc_def demo_files_def file_at_def default_path_def)
  show "fst (Discover (se_xray (up_svc start_demo_env)) (disk start_demo)) = no_paths" by code_simp
qed

lemma start_demo_protect:
  assumes "protect_local_master (handlers_for start_demo_env start_demo_config) start_demo_config start_demo = (steal, st1)"
  shows "steal = []" "disk st1 = disk start_demo"
  using assms start_demo_ready(1,4-7)
  by (auto simp: protect_local_master_def protectMasterHTTPSPort443_def calm_read)

lemma start_demo_completes: "to_complete start_demo_env start_demo_config start_demo = Some []"
proof -
  let ?h = "handlers_for start_demo_env start_demo_config"
  obtain steal st1 where 1: "protect_local_master ?h start_demo_config start_demo = (steal, st1)" by fastforce
  note p = start_demo_protect [OF 1]
  have "disk (import_external ?h (up_stamp start_demo_env) st1) = disk st1"
    by (rule import_nothing [where q = no_paths])
      (use p start_demo_ready in \<open>simp_all add: handlers_for_def no_paths_def\<close>)
  then have w: "before_template start_demo_env ?h st1 = disk start_demo"
    by (simp add: before_template_def stop_external_sel(3) p ensureGeoData_def) (simp add: start_demo_env_def)
  have t: "obj_dec (up_svc start_demo_env) (up_default start_demo_env) = Some []"
    using start_demo_codec [of "[]"] by (simp add: start_demo_env_def)
  show ?thesis
    by (simp add: to_complete_def Let_def 1 w p init_plain start_demo_ready handlers_codec t)
qed



end
