(* ===== verification/Upgrade.thy ===== *)
theory Upgrade
  imports Xray_Service Confdir_Merge Auth
begin

text \<open>
  Replacing the agent's own binary and installing what it manages: the check of a signature
  (\<open>internal/selfupdate/verify.go\<close>, the \<open>__verify-update\<close> command of \<open>cmd/mmw-agent/main.go\<close>), the upgrade script and
  what follows it, the streamed commands, the installation and removal of Xray and nginx, and the take-over of an
  external Xray (\<open>internal/handler/management_handler.go\<close>, \<open>external_xray.go\<close>, \<open>nginx_control.go\<close>). Ed25519 and base64 are
  those of the Go library; downloads and package managers are parameters.
\<close>

section \<open>The signature\<close>

definition PubKeyB64 :: string where
  "PubKeyB64 = ''njrNA6URT4wfFmwMe3vym1mw3iFcye+1eiDrZx3PMN4=''"

definition file_bytes :: "string \<Rightarrow> bytes" where
  "file_bytes s = List.map of_char s"

text \<open>The key is an argument: it can be set when the program is built. The result says whether the file is accepted.\<close>

definition VerifyFile :: "crypto_lib \<Rightarrow> string \<Rightarrow> string \<Rightarrow> string \<Rightarrow> world \<Rightarrow> bool \<times> world" where
  "VerifyFile lib pubKey binPath sigPath w =
     (if pubKey = [] then (False, w)
      else
        (case b64_decode lib pubKey of
           None \<Rightarrow> (False, w)
         | Some pub \<Rightarrow>
             if length pub \<noteq> 32 then (False, w)
             else
               (case read_file binPath w of
                  (Inl _, w1) \<Rightarrow> (False, w1)
                | (Inr bin, w1) \<Rightarrow>
                    (case read_file sigPath w1 of
                       (Inl _, w2) \<Rightarrow> (False, w2)
                     | (Inr sig, w2) \<Rightarrow>
                         (length sig = 64 \<and> ed_verify lib pub (file_bytes bin) (file_bytes sig), w2)))))"

text \<open>The hidden command: the arguments after the program's name, and the exit status, none when the agent starts instead.\<close>

definition verify_command :: "crypto_lib \<Rightarrow> string \<Rightarrow> string list \<Rightarrow> world \<Rightarrow> nat option \<times> world" where
  "verify_command lib pubKey args w =
     (case args of
        cmd # rest \<Rightarrow>
          if cmd \<noteq> ''__verify-update'' then (None, w)
          else
            (case rest of
               [bin, sig] \<Rightarrow>
                 (case VerifyFile lib pubKey bin sig w of (ok, w1) \<Rightarrow> (Some (if ok then 0 else 1), w1))
             | _ \<Rightarrow> (Some 2, w))
      | [] \<Rightarrow> (None, w))"

section \<open>The upgrade script\<close>

text \<open>A download ends with the whole body, or fails and leaves a part or nothing.\<close>

datatype dl_result = Got string | Broken "string option"

record upgrade_env =
  ug_lib :: crypto_lib
  ug_key :: string
  ug_arch :: string
  ug_tool :: bool
  ug_dl :: "string \<Rightarrow> dl_result"

definition ARCH_NAME :: "string \<Rightarrow> string option" where
  "ARCH_NAME arch =
     (if arch = ''x86_64'' then Some ''amd64''
      else if arch = ''aarch64'' \<or> arch = ''arm64'' then Some ''arm64''
      else None)"

definition MIRRORS :: "string \<Rightarrow> string list" where
  "MIRRORS name =
     [''https://github.com/niccfun/mmw-agent/releases/latest/download/mmw-agent-linux-'' @ name,
      ''https://gh-proxy.com/https://github.com/niccfun/mmw-agent/releases/latest/download/mmw-agent-linux-'' @ name,
      ''https://mirror.ghproxy.com/https://github.com/niccfun/mmw-agent/releases/latest/download/mmw-agent-linux-'' @ name]"

definition new_bin :: string where "new_bin = ''/tmp/mmw-agent-new''"
definition new_sig :: string where "new_sig = ''/tmp/mmw-agent-new.sig''"
definition agent_bin :: string where "agent_bin = ''/usr/local/bin/mmw-agent''"
definition agent_next :: string where "agent_next = ''/usr/local/bin/mmw-agent.new''"

definition dl :: "upgrade_env \<Rightarrow> string \<Rightarrow> string \<Rightarrow> world \<Rightarrow> bool \<times> world" where
  "dl env url out w =
     (case ug_dl env url of
        Got s \<Rightarrow> (case write_file out s w of (r, w1) \<Rightarrow> (r = None, w1))
      | Broken None \<Rightarrow> (False, w)
      | Broken (Some s) \<Rightarrow> (False, snd (write_file out s w)))"

fun download_from :: "upgrade_env \<Rightarrow> string list \<Rightarrow> world \<Rightarrow> bool \<times> world" where
  "download_from env [] w = (False, w)"
| "download_from env (url # urls) w =
     (case dl env url new_bin w of
        (False, w1) \<Rightarrow> download_from env urls w1
      | (True, w1) \<Rightarrow>
          (case dl env (url @ ''.sig'') new_sig w1 of
             (True, w2) \<Rightarrow> (True, w2)
           | (False, w2) \<Rightarrow> download_from env urls w2))"

text \<open>\<open>other\<close> is what other programs do to the files between the check and the copy. The script stops at the first command
  that fails.\<close>

definition install_new :: "world \<Rightarrow> bool \<times> world" where
  "install_new w =
     (case read_file new_bin w of
        (Inl _, w1) \<Rightarrow> (False, w1)
      | (Inr data, w1) \<Rightarrow>
          (case write_file agent_next data w1 of
             (Some _, w2) \<Rightarrow> (False, w2)
           | (None, w2) \<Rightarrow>
               (case sys_call w2 of
                  (Some _, w3) \<Rightarrow> (False, w3)
                | (None, w3) \<Rightarrow>
                    (case rename_file agent_next agent_bin w3 of
                       (Some _, w4) \<Rightarrow> (False, w4)
                     | (None, w4) \<Rightarrow>
                         (case remove_file new_bin w4 of
                            (r, w5) \<Rightarrow> (r = None \<or> r = Some ErrNotExist, w5))))))"

definition upgrade_script :: "upgrade_env \<Rightarrow> (world \<Rightarrow> world) \<Rightarrow> world \<Rightarrow> bool \<times> world" where
  "upgrade_script env other w =
     (case ARCH_NAME (ug_arch env) of
        None \<Rightarrow> (False, w)
      | Some name \<Rightarrow>
          if \<not> ug_tool env then (False, w)
          else
            (case download_from env (MIRRORS name) w of
               (False, w1) \<Rightarrow> (False, w1)
             | (True, w1) \<Rightarrow>
                 (case sys_call w1 of
                    (Some _, w2) \<Rightarrow> (False, w2)
                  | (None, w2) \<Rightarrow>
                      (case verify_command (ug_lib env) (ug_key env) [''__verify-update'', new_bin, new_sig] w2 of
                         (code, w3) \<Rightarrow>
                           if code \<noteq> Some 0
                           then (False, snd (remove_file new_sig (snd (remove_file new_bin w3))))
                           else install_new (other w3)))))"

section \<open>The handler\<close>

datatype upgrade_end = Rejected reply | GaveUp | Failed_Script | ReExec string

text \<open>\<open>finished\<close>: the script ended before the time was up; \<open>exe\<close> is the path of the running program. The program is replaced
  by what is at that path, the image that runs afterwards.\<close>

definition HandleAgentUpgradeStream ::
  "upgrade_env \<Rightarrow> (world \<Rightarrow> world) \<Rightarrow> bool \<Rightarrow> string option \<Rightarrow> bool \<Rightarrow> bool \<Rightarrow> world \<Rightarrow> upgrade_end \<times> world" where
  "HandleAgentUpgradeStream env other finished exe post authenticated w =
     (if \<not> post then (Rejected (writeError 405 ''Method not allowed''), w)
      else if \<not> authenticated then (Rejected (writeError 401 ''Unauthorized''), w)
      else
        (case upgrade_script env other w of
           (ok, w1) \<Rightarrow>
             if \<not> finished then (GaveUp, w1)
             else if \<not> ok then (Failed_Script, w1)
             else (ReExec (case exe of None \<Rightarrow> agent_bin | Some p \<Rightarrow> if p = [] then agent_bin else p), w1)))"

section \<open>What installs and what is left\<close>

lemma dl_effect:
  assumes "dl env url out w = (ok, w')"
  shows "(\<forall>q. q \<noteq> out \<longrightarrow> file_at w' q = file_at w q) \<and> (ok \<longrightarrow> (\<exists>s. ug_dl env url = Got s \<and> file_at w' out = Some s))"
proof (cases "ug_dl env url")
  case (Got s)
  obtain r w1 where 1: "write_file out s w = (r, w1)" by fastforce
  with assms Got write_file_other [OF 1] write_file_ok [of out s w w1] show ?thesis by (auto simp: dl_def)
next
  case (Broken x)
  with assms write_file_other [of out "the x" w] show ?thesis
    by (cases x) (auto simp: dl_def)
qed

lemma new_paths [simp]:
  "new_sig \<noteq> new_bin" "agent_bin \<noteq> new_bin" "agent_bin \<noteq> new_sig" "agent_next \<noteq> new_bin" "agent_next \<noteq> new_sig" "agent_next \<noteq> agent_bin"
  by (simp_all add: new_sig_def new_bin_def agent_bin_def agent_next_def)

lemmas new_paths_sym [simp] = new_paths [symmetric]

lemma upgrade_download_effect:
  assumes "download_from env urls w = (ok, w')"
  shows "(\<forall>q. q \<noteq> new_bin \<longrightarrow> q \<noteq> new_sig \<longrightarrow> file_at w' q = file_at w q) \<and>
    (ok \<longrightarrow> (\<exists>url\<in>set urls. \<exists>b s. ug_dl env url = Got b \<and> ug_dl env (url @ ''.sig'') = Got s \<and>
       file_at w' new_bin = Some b \<and> file_at w' new_sig = Some s))"
  using assms
proof (induction urls arbitrary: w)
  case (Cons url urls)
  obtain a w1 where 1: "dl env url new_bin w = (a, w1)" by fastforce
  obtain b w2 where 2: "dl env (url @ ''.sig'') new_sig w1 = (b, w2)" by fastforce
  note e1 = dl_effect [OF 1] and e2 = dl_effect [OF 2]
  show ?case
  proof (cases a)
    case False
    with Cons.prems 1 Cons.IH [of w1] e1 show ?thesis by auto
  next
    case a: True
    show ?thesis
    proof (cases b)
      case False
      with a Cons.prems 1 2 Cons.IH [of w2] e1 e2 show ?thesis by auto
    next
      case True
      with a Cons.prems 1 2 have "w' = w2" "ok" by simp_all
      with a True e1 e2 show ?thesis by (auto simp del: append_assoc)
    qed
  qed
qed simp

lemma VerifyFile_effect:
  assumes "VerifyFile lib key b s w = (ok, w')"
  shows "files w' = files w \<and> (ok \<longrightarrow> (\<exists>pub bin sig. b64_decode lib key = Some pub \<and> length pub = 32 \<and> file_at w b = Some bin \<and>
     file_at w s = Some sig \<and> length sig = 64 \<and> ed_verify lib pub (file_bytes bin) (file_bytes sig)))"
proof -
  obtain r1 w1 where 1: "read_file b w = (r1, w1)" by fastforce
  obtain r2 w2 where 2: "read_file s w1 = (r2, w2)" by fastforce
  note f1 = read_file_frame [OF 1] and f2 = read_file_frame [OF 2]
  have "file_at w1 s = file_at w s" using read_file_at [OF 1] .
  then show ?thesis
    using assms f1 f2 1 2 read_file_Inr [of b w _ w1] read_file_Inr [of s w1 _ w2]
    by (cases r1; cases r2) (auto simp: VerifyFile_def split: if_splits option.splits)
qed

lemma install_effect:
  assumes "install_new w = (ok, w')"
  shows "(\<forall>q. q \<notin> {new_bin, agent_next, agent_bin} \<longrightarrow> file_at w' q = file_at w q) \<and>
    (file_at w' agent_bin = file_at w agent_bin \<or> file_at w' agent_bin = file_at w new_bin \<and> file_at w new_bin \<noteq> None) \<and>
    (ok \<longrightarrow> file_at w' agent_bin = file_at w new_bin \<and> file_at w new_bin \<noteq> None)"
proof -
  obtain r1 w1 where 1: "read_file new_bin w = (r1, w1)" by fastforce
  show ?thesis
  proof (cases r1)
    case (Inl e)
    with assms 1 read_file_at [OF 1] show ?thesis by (simp add: install_new_def)
  next
    case (Inr data)
    obtain r2 w2 where 2: "write_file agent_next data w1 = (r2, w2)" by fastforce
    obtain r3 w3 where 3: "sys_call w2 = (r3, w3)" by fastforce
    obtain r4 w4 where 4: "rename_file agent_next agent_bin w3 = (r4, w4)" by fastforce
    obtain r5 w5 where 5: "remove_file new_bin w4 = (r5, w5)" by fastforce
    have d: "file_at w new_bin = Some data" using read_file_Inr 1 Inr by simp
    note o = read_file_at [OF 1] write_file_other [OF 2] sys_call_at [OF 3] rename_file_other [OF 4] remove_file_other [OF 5]
    have e: "(ok, w') = (if r2 \<noteq> None then (False, w2) else if r3 \<noteq> None then (False, w3) else if r4 \<noteq> None then (False, w4)
        else (r5 = None \<or> r5 = Some ErrNotExist, w5))"
      using assms 1 2 3 4 5 Inr by (auto simp: install_new_def split: option.splits)
    have n: "r2 = None \<Longrightarrow> file_at w3 agent_next = Some data" using write_file_ok [of agent_next data w1 w2] 2 o(3) by simp
    show ?thesis
    proof (cases "r2 = None \<and> r3 = None \<and> r4 = None")
      case True
      then have "file_at w5 agent_bin = Some data" using rename_file_target [OF 4] n o(5) by auto
      with True e d o show ?thesis by auto
    next
      case False
      with e have "w' = w2 \<or> w' = w3 \<or> w' = w4 \<and> r4 \<noteq> None" "\<not> ok" by (auto split: if_splits)
      moreover have "r4 \<noteq> None \<Longrightarrow> file_at w4 agent_bin = file_at w agent_bin"
        using rename_file_target [OF 4] o by auto
      ultimately show ?thesis using o by auto
    qed
  qed
qed

lemma script_effect:
  assumes "upgrade_script env other w = (ok, w')" and quiet: "\<And>v. file_at (other v) new_bin = file_at v new_bin"
    "\<And>v. file_at (other v) agent_bin = file_at v agent_bin"
  shows "let genuine = (\<exists>name url pub b s. ARCH_NAME (ug_arch env) = Some name \<and> url \<in> set (MIRRORS name) \<and>
      ug_dl env url = Got b \<and> ug_dl env (url @ ''.sig'') = Got s \<and> b64_decode (ug_lib env) (ug_key env) = Some pub \<and>
      length pub = 32 \<and> length s = 64 \<and> ed_verify (ug_lib env) pub (file_bytes b) (file_bytes s) \<and> file_at w' agent_bin = Some b)
    in (file_at w' agent_bin = file_at w agent_bin \<or> genuine) \<and> (ok \<longrightarrow> genuine)"
proof (cases "ARCH_NAME (ug_arch env)")
  case None
  with assms show ?thesis by (simp add: upgrade_script_def)
next
  case (Some name)
  obtain a w1 where 1: "download_from env (MIRRORS name) w = (a, w1)" by fastforce
  obtain r w2 where 2: "sys_call w1 = (r, w2)" by fastforce
  obtain v w3 where 3: "VerifyFile (ug_lib env) (ug_key env) new_bin new_sig w2 = (v, w3)" by fastforce
  obtain i w4 where 4: "install_new (other w3) = (i, w4)" by fastforce
  note e1 = upgrade_download_effect [OF 1] and e3 = VerifyFile_effect [OF 3] and e4 = install_effect [OF 4]
  have f2: "file_at w2 q = file_at w1 q" for q using sys_call_at [OF 2] .
  have f3: "file_at w3 q = file_at w2 q" for q using e3 by (simp add: file_at_def)
  have run: "(ok, w') = (if \<not> ug_tool env then (False, w) else if \<not> a then (False, w1) else if r \<noteq> None then (False, w2)
      else if \<not> v then (False, snd (remove_file new_sig (snd (remove_file new_bin w3)))) else (i, w4))"
    using assms(1) Some 1 2 3 4 by (auto simp: upgrade_script_def verify_command_def split: option.splits if_splits)
  show ?thesis
  proof (cases "ug_tool env \<and> a \<and> r = None \<and> v")
    case False
    with run have "\<not> ok" "w' \<in> {w, w1, w2, snd (remove_file new_sig (snd (remove_file new_bin w3)))}" by (auto split: if_splits)
    then show ?thesis using e1 f2 f3 by (auto simp: Let_def)
  next
    case True
    with run have w: "ok = i" "w' = w4" by simp_all
    obtain url b s where u: "url \<in> set (MIRRORS name)" "ug_dl env url = Got b" "ug_dl env (url @ ''.sig'') = Got s"
      "file_at w1 new_bin = Some b" "file_at w1 new_sig = Some s" using e1 True by blast
    obtain pub where p: "b64_decode (ug_lib env) (ug_key env) = Some pub" "length pub = 32" "length s = 64"
      "ed_verify (ug_lib env) pub (file_bytes b) (file_bytes s)"
      using e3 True u f2 by auto
    have nb: "file_at (other w3) new_bin = Some b" using quiet(1) f2 f3 u(4) by simp
    have ab: "file_at (other w3) agent_bin = file_at w agent_bin" using quiet(2) f2 f3 e1 by simp
    have "file_at w' agent_bin = file_at w agent_bin \<and> \<not> ok \<or> file_at w' agent_bin = Some b"
      using e4 nb ab w by auto
    then show ?thesis
    proof
      assume "file_at w' agent_bin = Some b"
      then show ?thesis using Some u p unfolding Let_def by blast
    qed (simp add: Let_def)
  qed
qed

text \<open>C5: As long as nothing else, be it another program or a second upgrade running at the same time, writes the downloaded
  file or the installed one while an upgrade runs, the upgrade can only put a binary in place whose detached signature,
  fetched from the same mirror, the key built into the agent accepts: whatever the mirrors answer and whichever command
  fails, the installed program is what it was or such a binary as a whole, and the agent executes itself anew only when
  the binary was replaced. A request without the method or the credentials changes nothing. The condition is needed:
  \<open>swapped_after_check\<close> below.\<close>

theorem upgrade_only_signed:
  assumes "HandleAgentUpgradeStream env other finished exe post authenticated w = (r, w')"
    and quiet: "\<And>v. file_at (other v) new_bin = file_at v new_bin" "\<And>v. file_at (other v) agent_bin = file_at v agent_bin"
  defines "genuine \<equiv> (\<exists>name url pub b s. ARCH_NAME (ug_arch env) = Some name \<and> url \<in> set (MIRRORS name) \<and>
      ug_dl env url = Got b \<and> ug_dl env (url @ ''.sig'') = Got s \<and> b64_decode (ug_lib env) (ug_key env) = Some pub \<and>
      length pub = 32 \<and> length s = 64 \<and> ed_verify (ug_lib env) pub (file_bytes b) (file_bytes s) \<and> file_at w' agent_bin = Some b)"
  shows "(file_at w' agent_bin = file_at w agent_bin \<or> genuine) \<and> (\<forall>p. r = ReExec p \<longrightarrow> genuine) \<and>
    (\<not> post \<or> \<not> authenticated \<longrightarrow> w' = w)"
proof -
  obtain ok w1 where 1: "upgrade_script env other w = (ok, w1)" by fastforce
  note e = script_effect [OF 1 quiet, unfolded Let_def]
  show ?thesis
  proof (cases "post \<and> authenticated")
    case False
    with assms(1) show ?thesis by (auto simp: HandleAgentUpgradeStream_def split: if_splits)
  next
    case True
    with assms(1) 1 have w: "w' = w1" and r: "\<forall>p. r = ReExec p \<longrightarrow> ok"
      by (auto simp: HandleAgentUpgradeStream_def split: if_splits)
    show ?thesis using e True r unfolding genuine_def w by blast
  qed
qed

text \<open>Another program that may write the file in \<open>/tmp\<close> between the two decides what is installed.\<close>

lemma swapped_after_check:
  assumes "HandleAgentUpgradeStream env (\<lambda>v. v) True exe True True w = (ReExec p, w')" and "tape w = []"
  shows "\<exists>other w''. HandleAgentUpgradeStream env other True exe True True w = (ReExec p, w'') \<and>
    file_at w'' agent_bin = Some evil \<and> (\<forall>v q. q \<noteq> new_bin \<longrightarrow> file_at (other v) q = file_at v q)"
proof -
  let ?o = "put_file new_bin evil"
  obtain name where n: "ARCH_NAME (ug_arch env) = Some name" and t: "ug_tool env"
    using assms(1) by (auto simp: HandleAgentUpgradeStream_def upgrade_script_def split: option.splits if_splits)
  obtain a w1 where 1: "download_from env (MIRRORS name) w = (a, w1)" by fastforce
  obtain r w2 where 2: "sys_call w1 = (r, w2)" by fastforce
  obtain v w3 where 3: "VerifyFile (ug_lib env) (ug_key env) new_bin new_sig w2 = (v, w3)" by fastforce
  have calm_dl: "tape x = [] \<Longrightarrow> tape (snd (dl env u out x)) = []" for x u out
    by (auto simp: dl_def calm_calls split: dl_result.splits option.splits)
  have "tape x = [] \<Longrightarrow> tape (snd (download_from env us x)) = []" for us x
  proof (induction us arbitrary: x)
    case (Cons u us)
    obtain a1 x1 where a1: "dl env u new_bin x = (a1, x1)" by fastforce
    obtain a2 x2 where a2: "dl env (u @ ''.sig'') new_sig x1 = (a2, x2)" by fastforce
    have "tape x1 = []" "tape x2 = []" using calm_dl [of x u new_bin] calm_dl [of x1 "u @ ''.sig''" new_sig] a1 a2 Cons.prems by simp_all
    with Cons a1 a2 show ?case by (auto split: bool.splits)
  qed simp
  then have "tape w1 = []" using 1 assms(2) by (metis snd_conv)
  then have "r = None" "w2 = w1" using 2 by (simp_all add: calm_calls)
  moreover have "tape w3 = []" using 3 \<open>tape w1 = []\<close> \<open>w2 = w1\<close>
    by (auto simp: VerifyFile_def calm_read split: if_splits option.splits)
  ultimately have run: "upgrade_script env other w = (if \<not> a then (False, w1)
      else if \<not> v then (False, snd (remove_file new_sig (snd (remove_file new_bin w3)))) else install_new (other w3))" for other
    using n t 1 2 3 by (simp add: upgrade_script_def verify_command_def)
  have av: "a" "v" using assms(1) run [of "\<lambda>v. v"] by (auto simp: HandleAgentUpgradeStream_def split: if_splits)
  let ?w = "put_file agent_bin evil (del_file agent_next (put_file agent_next evil (?o w3)))"
  have i: "install_new (?o w3) = (True, del_file new_bin ?w)"
    using \<open>tape w3 = []\<close> by (simp add: install_new_def calm_read calm_calls calm_moves)
  have "HandleAgentUpgradeStream env ?o True exe True True w = (ReExec p, del_file new_bin ?w)"
    using assms(1) run [of "\<lambda>v. v"] run [of ?o] av i by (auto simp: HandleAgentUpgradeStream_def split: prod.splits if_splits)
  then show ?thesis by (intro exI [of _ ?o] exI [of _ "del_file new_bin ?w"]) simp
qed

text \<open>An agent that was started from another place executes its old binary again.\<close>

lemma upgrade_elsewhere:
  assumes "HandleAgentUpgradeStream env (\<lambda>v. v) True (Some p) True True w = (ReExec q, w')"
    and "p \<noteq> []" "p \<notin> {new_bin, new_sig, agent_bin, agent_next}"
  shows "q = p \<and> file_at w' p = file_at w p"
proof -
  obtain ok w1 where 1: "upgrade_script env (\<lambda>v. v) w = (ok, w1)" by fastforce
  have q: "q = p" "w' = w1" using assms(1,2) 1 by (auto simp: HandleAgentUpgradeStream_def split: if_splits)
  have rm: "file_at (snd (remove_file new_sig (snd (remove_file new_bin x)))) p = file_at x p" for x using assms(3) by simp
  have "file_at w1 p = file_at w p"
  proof (cases "ARCH_NAME (ug_arch env)")
    case None
    with 1 show ?thesis by (simp add: upgrade_script_def)
  next
    case (Some name)
    obtain a x1 where d: "download_from env (MIRRORS name) w = (a, x1)" by fastforce
    obtain r x2 where s: "sys_call x1 = (r, x2)" by fastforce
    obtain v x3 where c: "VerifyFile (ug_lib env) (ug_key env) new_bin new_sig x2 = (v, x3)" by fastforce
    obtain i x4 where n: "install_new x3 = (i, x4)" by fastforce
    have f: "file_at x3 p = file_at w p"
      using upgrade_download_effect [OF d] sys_call_at [OF s] VerifyFile_effect [OF c] assms(3) by (auto simp: file_at_def)
    have run: "(ok, w1) = (if \<not> ug_tool env then (False, w) else if \<not> a then (False, x1) else if r \<noteq> None then (False, x2)
       else if \<not> v then (False, snd (remove_file new_sig (snd (remove_file new_bin x3)))) else (i, x4))"
      using 1 Some d s c n
      by (cases "ug_tool env"; cases a; cases r; cases v) (simp_all add: upgrade_script_def verify_command_def)
    then have "w1 = w \<or> w1 = x1 \<or> w1 = x2 \<or> w1 = snd (remove_file new_sig (snd (remove_file new_bin x3))) \<or> w1 = x4"
      by (simp split: if_splits)
    then show ?thesis
      using f rm [of x3] install_effect [OF n] upgrade_download_effect [OF d] sys_call_at [OF s] assms(3) by auto
  qed
  with q show ?thesis by simp
qed

section \<open>Starting again\<close>

definition someoneWillRestartAgent :: "bool \<Rightarrow> string option \<Rightarrow> string option \<Rightarrow> bool" where
  "someoneWillRestartAgent systemd is_active parent =
     (systemd \<and> (case is_active of None \<Rightarrow> False | Some out \<Rightarrow> trim_space out = ''active'') \<or>
      (case parent of
         None \<Rightarrow> False
       | Some comm \<Rightarrow> trim_space comm = ''supervise-daemon'' \<or> trim_space comm = ''runsv'' \<or> trim_space comm = ''s6-supervise''))"

definition sq :: char where "sq = CHR 0x27"
definition bsl :: char where "bsl = CHR 0x5C"

definition quoted_arg :: "string \<Rightarrow> string" where
  "quoted_arg a = sq # concat (List.map (\<lambda>c. if c = sq then [sq, bsl, sq, sq] else [c]) a) @ [sq]"

definition respawn_script :: "string list \<Rightarrow> string option" where
  "respawn_script args =
     (if args = [] then None else Some (''sleep 2; exec '' @ join_with '' '' (List.map quoted_arg args)))"

text \<open>The quoting of the POSIX shell (2.2.1, 2.2.2) for one simple command: a quotation keeps every character, a backslash
  the next one, blanks part the words. Other special characters outside quotations are not words of this form.\<close>

fun sh_words :: "bool \<Rightarrow> string option \<Rightarrow> string \<Rightarrow> string list option" where
  "sh_words quoted cur [] = (if quoted then None else Some (case cur of None \<Rightarrow> [] | Some w \<Rightarrow> [w]))"
| "sh_words True cur (c # cs) =
     (if c = sq then sh_words False cur cs
      else sh_words True (Some ((case cur of None \<Rightarrow> [] | Some w \<Rightarrow> w) @ [c])) cs)"
| "sh_words False cur (c # cs) =
     (let w = (case cur of None \<Rightarrow> [] | Some w \<Rightarrow> w)
      in if c = sq then sh_words True (Some w) cs
         else if c = bsl then (case cs of [] \<Rightarrow> None | d # ds \<Rightarrow> sh_words False (Some (w @ [d])) ds)
         else if c = CHR '' '' then
           (case cur of None \<Rightarrow> sh_words False None cs | Some v \<Rightarrow> map_option (Cons v) (sh_words False None cs))
         else if c \<in> set ''|&;<>()$`*?[#~=%!{}'' \<or> c = CHR 0x22 \<or> is_space c then None
         else sh_words False (Some (w @ [c])) cs)"

lemma sh_quoted:
  "sh_words True (Some w) (concat (List.map (\<lambda>c. if c = sq then [sq, bsl, sq, sq] else [c]) a) @ sq # rest) =
   sh_words False (Some (w @ a)) rest"
proof (induction a arbitrary: w)
  case (Cons c a)
  then show ?case by (cases "c = sq") (simp_all add: sq_def bsl_def Let_def)
qed simp

lemma sh_quoted_arg: "sh_words False None (quoted_arg a @ rest) = sh_words False (Some a) rest"
  using sh_quoted [of "[]" a rest] by (simp add: quoted_arg_def)

lemma sh_joined: "sh_words False None (join_with '' '' (List.map quoted_arg args)) = Some args"
proof (induction args rule: induct_list012)
  case (2 a)
  then show ?case using sh_quoted_arg [of a "[]"] by simp
next
  case (3 a b args)
  then show ?case using sh_quoted_arg [of a "'' '' @ join_with '' '' (List.map quoted_arg (b # args))"]
    by (simp add: sq_def bsl_def Let_def)
qed simp

text \<open>The arguments the agent is started with again are the ones it was started with, whatever characters they contain,
  quotation marks included.\<close>

theorem respawn_roundtrip:
  "\<exists>text. respawn_script (a # args) = Some (''sleep 2; exec '' @ text) \<and> sh_words False None text = Some (a # args)"
  using sh_joined [of "a # args"] by (simp add: respawn_script_def)

section \<open>A witness\<close>

definition agreeable :: crypto_lib where
  "agreeable = \<lparr>b64_decode = (\<lambda>s. Some (replicate 32 0)), b64_encode = (\<lambda>b. []),
     ed_verify = (\<lambda>pk m sig. m = [1]), x_ecdh = (\<lambda>priv pub. None), hkdf = (\<lambda>a b n. None), gcm_seal = (\<lambda>k n d. []),
     gcm_unseal = (\<lambda>k n d. None)\<rparr>"

text \<open>The first mirror is down, the second delivers a binary of one byte with a signature of 64.\<close>

definition second_mirror :: upgrade_env where
  "second_mirror = \<lparr>ug_lib = agreeable, ug_key = PubKeyB64, ug_arch = ''x86_64'', ug_tool = True,
     ug_dl = (\<lambda>url. if has_prefix url ''https://gh-proxy'' then
                 Got (if has_suffix url ''.sig'' then replicate 64 (CHR ''s'') else [CHR 0x01])
               else Broken None)\<rparr>"

definition old_disk :: world where
  "old_disk = \<lparr>files = [(agent_bin, ''old'')], tape = [], running = None, api = []\<rparr>"

definition new_disk :: world where
  "new_disk = old_disk\<lparr>files := [(agent_bin, [CHR 0x01]), (new_sig, replicate 64 (CHR ''s''))]\<rparr>"

lemma upgraded_run:
  "HandleAgentUpgradeStream second_mirror (\<lambda>v. v) True None True True old_disk = (ReExec agent_bin, new_disk)"
  by code_simp

lemma upgrade_only_signed_witness:
  "HandleAgentUpgradeStream second_mirror (\<lambda>v. v) True None True True old_disk = (ReExec agent_bin, new_disk) \<and>
   (\<exists>url b. url \<in> set (MIRRORS ''amd64'') \<and> ug_dl second_mirror url = Got b \<and> file_at new_disk agent_bin = Some b)"
proof -
  have "ARCH_NAME (ug_arch second_mirror) = Some ''amd64''" by code_simp
  with upgrade_only_signed [OF upgraded_run refl refl] upgraded_run show ?thesis by fastforce
qed

end
