(* ===== verification/Installers.thy ===== *)
theory Installers
  imports Upgrade Start_Up
begin

text \<open>
  The commands whose output is streamed to the master while they run, and the installers started that way or at once:
  \<open>sseStreamCmd\<close>, the handlers that install and remove Xray, nginx and the agent, and the take-over of an external Xray
  (\<open>internal/handler/management_handler.go\<close>, \<open>external_xray.go\<close>, \<open>nginx_control.go\<close>). The scripts are fetched from
  elsewhere and run by a shell: a run succeeds or fails.
\<close>

section \<open>A streamed command\<close>

datatype sse = Output string | ErrorEvent string | Complete string

text \<open>The child is alive, has exited, or was waited for, which also closes the agent's ends of its pipes.\<close>

datatype child = Alive | Exited bool | Waited bool

text \<open>A scanner waits for a line, has one, has seen that the request is still there, or is done.\<close>

datatype scanner = Scanning | Has string | Passed string | Stopped

datatype streamer = Selecting | Draining bool | Returned

text \<open>The pipes and scanners are indexed: \<open>True\<close> is the standard error. \<open>so_said\<close> is all the child printed.\<close>

record stream =
  so_said :: "bool \<Rightarrow> string list"
  so_pipe :: "bool \<Rightarrow> string list"
  so_open :: bool
  so_child :: child
  so_scan :: "bool \<Rightarrow> scanner"
  so_main :: streamer
  so_gone :: bool
  so_events :: "sse list"

datatype stream_act =
    Print bool string
  | Exit bool
  | Wait
  | Scan bool
  | Check bool
  | Emit bool
  | Stop bool
  | Cancel
  | Done
  | Finish
  | Abort

definition scan_limit :: nat where "scan_limit = 256 * 1024"

definition stream_started :: stream where
  "stream_started = \<lparr>so_said = (\<lambda>k. []), so_pipe = (\<lambda>k. []), so_open = True, so_child = Alive, so_scan = (\<lambda>k. Scanning),
     so_main = Selecting, so_gone = False, so_events = []\<rparr>"

text \<open>One step, none when it cannot be taken. A scanner stops at the end of its pipe, at a line beyond its buffer, when the
  request is gone, and at any point once the pipe was closed: what it had read ahead is still delivered, the rest is lost.\<close>

fun stream_step :: "string \<Rightarrow> stream_act \<Rightarrow> stream \<Rightarrow> stream option" where
  "stream_step msg (Print k l) s =
     (if so_child s = Alive
      then Some (s\<lparr>so_said := (so_said s)(k := so_said s k @ [l]), so_pipe := (so_pipe s)(k := so_pipe s k @ [l])\<rparr>)
      else None)"
| "stream_step msg (Exit ok) s = (if so_child s = Alive then Some (s\<lparr>so_child := Exited ok\<rparr>) else None)"
| "stream_step msg Wait s =
     (case so_child s of Exited ok \<Rightarrow> Some (s\<lparr>so_child := Waited ok, so_open := False\<rparr>) | _ \<Rightarrow> None)"
| "stream_step msg (Scan k) s =
     (case so_pipe s k of
        [] \<Rightarrow> None
      | l # ls \<Rightarrow>
          if so_scan s k \<noteq> Scanning then None
          else if scan_limit \<le> length l then Some (s\<lparr>so_scan := (so_scan s)(k := Stopped)\<rparr>)
          else Some (s\<lparr>so_scan := (so_scan s)(k := Has l), so_pipe := (so_pipe s)(k := ls)\<rparr>))"
| "stream_step msg (Check k) s =
     (case so_scan s k of
        Has l \<Rightarrow> Some (s\<lparr>so_scan := (so_scan s)(k := (if so_gone s then Stopped else Passed l))\<rparr>)
      | _ \<Rightarrow> None)"
| "stream_step msg (Emit k) s =
     (case so_scan s k of
        Passed l \<Rightarrow> Some (s\<lparr>so_scan := (so_scan s)(k := Scanning), so_events := so_events s @ [Output l]\<rparr>)
      | _ \<Rightarrow> None)"
| "stream_step msg (Stop k) s =
     (if so_scan s k = Scanning \<and> (\<not> so_open s \<or> so_pipe s k = [] \<and> so_child s \<noteq> Alive)
      then Some (s\<lparr>so_scan := (so_scan s)(k := Stopped)\<rparr>) else None)"
| "stream_step msg Cancel s = Some (s\<lparr>so_gone := True\<rparr>)"
| "stream_step msg Done s =
     (case so_child s of
        Waited ok \<Rightarrow> if so_main s = Selecting then Some (s\<lparr>so_main := Draining ok\<rparr>) else None
      | _ \<Rightarrow> None)"
| "stream_step msg Finish s =
     (case so_main s of
        Draining ok \<Rightarrow>
          if so_scan s False = Stopped \<and> so_scan s True = Stopped
          then Some (s\<lparr>so_main := Returned, so_events := so_events s @ [if ok then Complete msg else ErrorEvent ''exit status'']\<rparr>)
          else None
      | _ \<Rightarrow> None)"
| "stream_step msg Abort s =
     (if so_main s = Selecting \<and> so_gone s
      then Some (s\<lparr>so_child := (if so_child s = Alive then Exited False else so_child s), so_open := False, so_main := Returned,
             so_events := so_events s @ [ErrorEvent ''request cancelled'']\<rparr>)
      else None)"

fun stream_run :: "string \<Rightarrow> stream_act list \<Rightarrow> stream \<Rightarrow> stream option" where
  "stream_run msg [] s = Some s"
| "stream_run msg (a # as) s = (case stream_step msg a s of None \<Rightarrow> None | Some t \<Rightarrow> stream_run msg as t)"

text \<open>What comes before the stream: the writer must support flushing, the pipes be made and the command start.\<close>

definition sseStreamCmd_begin :: "bool \<Rightarrow> bool \<Rightarrow> bool \<Rightarrow> (reply + sse list) + stream" where
  "sseStreamCmd_begin flusher pipes starts =
     (if \<not> flusher then Inl (Inl (writeError 500 ''streaming not supported''))
      else if \<not> pipes then Inl (Inr [ErrorEvent ''pipe''])
      else if \<not> starts then Inl (Inr [ErrorEvent ''start''])
      else Inr stream_started)"

definition stream_end :: "string \<Rightarrow> bool \<Rightarrow> sse" where
  "stream_end msg ok = (if ok then Complete msg else ErrorEvent ''exit status'')"

definition pending :: "scanner \<Rightarrow> string list" where
  "pending x = (case x of Has l \<Rightarrow> [l] | Passed l \<Rightarrow> [l] | _ \<Rightarrow> [])"

text \<open>The invariant while nobody cancels: what was sent is a merge of a beginning of either stream.\<close>

definition flow :: "(bool \<Rightarrow> string list) \<Rightarrow> stream \<Rightarrow> bool \<Rightarrow> bool" where
  "flow d s k \<longleftrightarrow> (\<exists>rest. so_said s k = d k @ pending (so_scan s k) @ rest \<and> (so_scan s k \<noteq> Stopped \<longrightarrow> rest = so_pipe s k))"

definition sent :: "string \<Rightarrow> string list \<Rightarrow> stream \<Rightarrow> bool" where
  "sent msg outs s \<longleftrightarrow>
     (case so_main s of
        Returned \<Rightarrow> (\<exists>ok. so_child s = Waited ok \<and> so_events s = List.map Output outs @ [stream_end msg ok]) \<and>
          so_scan s False = Stopped \<and> so_scan s True = Stopped
      | Draining ok \<Rightarrow> so_child s = Waited ok \<and> so_events s = List.map Output outs
      | Selecting \<Rightarrow> so_events s = List.map Output outs)"

definition told :: "string \<Rightarrow> stream \<Rightarrow> bool" where
  "told msg s \<longleftrightarrow> \<not> so_gone s \<and>
     (\<exists>d outs. outs \<in> shuffles (d False) (d True) \<and> (\<forall>k. flow d s k) \<and> sent msg outs s)"

lemma shuffles_snoc1: "xs \<in> shuffles as bs \<Longrightarrow> xs @ [x] \<in> shuffles (as @ [x]) bs"
proof (induction as bs arbitrary: xs rule: shuffles.induct)
  case (1 ys)
  then show ?case by (induction ys arbitrary: xs) (auto simp: Cons_in_shuffles_iff)
next
  case (3 a as b bs)
  then show ?case by (auto simp: image_iff)
qed simp

lemma shuffles_snoc2: "xs \<in> shuffles as bs \<Longrightarrow> xs @ [x] \<in> shuffles as (bs @ [x])"
  using shuffles_snoc1 [of xs bs as x] by (simp add: shuffles_commutes)

lemma told_start: "told msg stream_started"
  unfolding told_def
  by (intro conjI exI [of _ "\<lambda>k. []"] exI [of _ "[]"]) (auto simp: stream_started_def flow_def sent_def pending_def)

lemma flow_cong:
  "flow d s k \<Longrightarrow> so_said t k = so_said s k \<Longrightarrow> so_pipe t k = so_pipe s k \<Longrightarrow> so_scan t k = so_scan s k \<Longrightarrow> flow d t k"
  by (simp add: flow_def)

lemma flow_d: "flow d s k \<Longrightarrow> e k = d k \<Longrightarrow> flow e s k"
  by (simp add: flow_def)

lemma told_emit:
  assumes "told msg s" "stream_step msg (Emit k) s = Some t"
  shows "told msg t"
proof -
  obtain d outs where m: "outs \<in> shuffles (d False) (d True)" and f: "\<And>k. flow d s k" and e: "sent msg outs s" and g: "\<not> so_gone s"
    using assms(1) by (auto simp: told_def)
  obtain l where l: "so_scan s k = Passed l"
    and t: "t = s\<lparr>so_scan := (so_scan s)(k := Scanning), so_events := so_events s @ [Output l]\<rparr>"
    using assms(2) by (auto split: scanner.splits)
  have "so_scan s False = Stopped \<and> so_scan s True = Stopped \<Longrightarrow> False" using l by (cases k) auto
  with e t have "sent msg (outs @ [l]) t" by (cases "so_main s") (auto simp: sent_def)
  moreover have "outs @ [l] \<in> shuffles ((d(k := d k @ [l])) False) ((d(k := d k @ [l])) True)"
    using m shuffles_snoc1 shuffles_snoc2 by (cases k) simp_all
  moreover have "flow (d(k := d k @ [l])) t j" for j
    using f [of j] t l by (cases "j = k") (auto simp: flow_def pending_def)
  ultimately show ?thesis unfolding told_def using g t by (intro conjI exI [of _ "d(k := d k @ [l])"] exI [of _ "outs @ [l]"] allI) simp_all
qed

lemma told_other:
  assumes "told msg s" "so_gone t = so_gone s" "\<And>d k. flow d s k \<Longrightarrow> flow d t k" "\<And>outs. sent msg outs s \<Longrightarrow> sent msg outs t"
  shows "told msg t"
  using assms unfolding told_def by blast

lemma told_step:
  assumes "told msg s" "stream_step msg a s = Some t" "a \<noteq> Cancel"
  shows "told msg t"
proof (cases a)
  case (Emit k)
  with assms told_emit show ?thesis by simp
next
  case (Print k l)
  with assms(2) have t: "so_child s = Alive" "t = s\<lparr>so_said := (so_said s)(k := so_said s k @ [l]), so_pipe := (so_pipe s)(k := so_pipe s k @ [l])\<rparr>"
    by (simp_all split: if_splits)
  show ?thesis
    by (rule told_other [OF assms(1)]) (auto simp: t flow_def sent_def split: streamer.splits)
next
  case (Exit ok)
  with assms(2) have t: "so_child s = Alive" "t = s\<lparr>so_child := Exited ok\<rparr>" by (simp_all split: if_splits)
  then have "sent msg outs s \<Longrightarrow> sent msg outs t" for outs by (cases "so_main s") (simp_all add: sent_def)
  then show ?thesis using t by (intro told_other [OF assms(1)]) (simp_all add: flow_def)
next
  case Wait
  with assms(2) obtain ok where t: "so_child s = Exited ok" "t = s\<lparr>so_child := Waited ok, so_open := False\<rparr>" by (auto split: child.splits)
  then have "sent msg outs s \<Longrightarrow> sent msg outs t" for outs by (cases "so_main s") (simp_all add: sent_def)
  then show ?thesis using t by (intro told_other [OF assms(1)]) (simp_all add: flow_def)
next
  case (Scan k)
  with assms(2) obtain l ls where p: "so_pipe s k = l # ls" and c: "so_scan s k = Scanning"
    and t: "t = (if scan_limit \<le> length l then s\<lparr>so_scan := (so_scan s)(k := Stopped)\<rparr>
                else s\<lparr>so_scan := (so_scan s)(k := Has l), so_pipe := (so_pipe s)(k := ls)\<rparr>)"
    by (auto split: list.splits if_splits)
  have "\<not> (so_scan s False = Stopped \<and> so_scan s True = Stopped)" using c by (cases k) auto
  then have "sent msg outs s \<Longrightarrow> sent msg outs t" for outs using t by (cases "so_main s") (auto simp: sent_def)
  moreover have "flow d s j \<Longrightarrow> flow d t j" for d j using c p t by (cases "j = k") (auto simp: flow_def pending_def)
  ultimately show ?thesis using t by (intro told_other [OF assms(1)]) simp_all
next
  case (Check k)
  have "\<not> so_gone s" using assms(1) by (simp add: told_def)
  with Check assms(2) obtain l where l: "so_scan s k = Has l" and t: "t = s\<lparr>so_scan := (so_scan s)(k := Passed l)\<rparr>"
    by (auto split: scanner.splits)
  have "\<not> (so_scan s False = Stopped \<and> so_scan s True = Stopped)" using l by (cases k) auto
  then have "sent msg outs s \<Longrightarrow> sent msg outs t" for outs using t by (cases "so_main s") (auto simp: sent_def)
  moreover have "flow d s j \<Longrightarrow> flow d t j" for d j using l t by (cases "j = k") (auto simp: flow_def pending_def)
  ultimately show ?thesis using t by (intro told_other [OF assms(1)]) simp_all
next
  case (Stop k)
  with assms(2) have c: "so_scan s k = Scanning" and t: "t = s\<lparr>so_scan := (so_scan s)(k := Stopped)\<rparr>" by (simp_all split: if_splits)
  have "\<not> (so_scan s False = Stopped \<and> so_scan s True = Stopped)" using c by (cases k) auto
  then have "sent msg outs s \<Longrightarrow> sent msg outs t" for outs using t by (cases "so_main s") (auto simp: sent_def)
  moreover have "flow d s j \<Longrightarrow> flow d t j" for d j using c t by (cases "j = k") (auto simp: flow_def pending_def)
  ultimately show ?thesis using t by (intro told_other [OF assms(1)]) simp_all
next
  case Done
  with assms(2) obtain ok where t: "so_child s = Waited ok" "so_main s = Selecting" "t = s\<lparr>so_main := Draining ok\<rparr>"
    by (auto split: child.splits if_splits)
  then show ?thesis by (intro told_other [OF assms(1)]) (simp_all add: flow_def sent_def)
next
  case Finish
  with assms(2) obtain ok where t: "so_main s = Draining ok" "so_scan s False = Stopped" "so_scan s True = Stopped"
    "t = s\<lparr>so_main := Returned, so_events := so_events s @ [stream_end msg ok]\<rparr>"
    by (auto simp: stream_end_def split: streamer.splits if_splits)
  then show ?thesis by (intro told_other [OF assms(1)]) (simp_all add: flow_def sent_def)
next
  case Abort
  with assms(1,2) show ?thesis by (simp add: told_def split: if_splits)
qed (use assms(3) in simp)

lemma told_run:
  "told msg s \<Longrightarrow> stream_run msg as s = Some t \<Longrightarrow> Cancel \<notin> set as \<Longrightarrow> told msg t"
  by (induction as arbitrary: s) (auto split: option.splits dest: told_step)

lemma finished_silent:
  assumes "so_main s = Returned" "so_scan s False = Stopped" "so_scan s True = Stopped" "stream_step msg a s = Some t"
  shows "so_events t = so_events s \<and> so_main t = Returned \<and> so_scan t False = Stopped \<and> so_scan t True = Stopped"
proof -
  have "so_scan s k = Stopped" for k using assms(2,3) by (cases k) simp_all
  with assms(1,4) show ?thesis by (cases a) (auto split: if_splits child.splits list.splits)
qed

lemma finished_silent_run:
  assumes "so_main s = Returned" "so_scan s False = Stopped" "so_scan s True = Stopped" "stream_run msg as s = Some t"
  shows "so_events t = so_events s"
  using assms
proof (induction as arbitrary: s)
  case (Cons a as)
  then obtain u where u: "stream_step msg a s = Some u" "stream_run msg as u = Some t" by (auto split: option.splits)
  with finished_silent [OF Cons.prems(1-3) u(1)] Cons.IH [of u] show ?case by simp
qed simp

text \<open>While the request is not cancelled, a streamed command tells the master a merge of beginnings of its two
  outputs, in order and unchanged; when the handler returns, exactly one closing event follows them, the completion when
  the command succeeded and an error otherwise, and nothing is sent after it.\<close>

theorem stream_told_in_order:
  assumes "stream_run msg acts stream_started = Some s" "Cancel \<notin> set acts"
  shows "\<exists>out err outs rest rest'. outs \<in> shuffles out err \<and> so_said s False = out @ rest \<and> so_said s True = err @ rest' \<and>
    (so_main s \<noteq> Returned \<longrightarrow> so_events s = List.map Output outs) \<and>
    (so_main s = Returned \<longrightarrow>
       (\<exists>ok. so_child s = Waited ok \<and> so_events s = List.map Output outs @ [stream_end msg ok]) \<and>
       (\<forall>more t. stream_run msg more s = Some t \<longrightarrow> so_events t = so_events s))"
proof -
  from told_run [OF told_start assms] obtain d outs where m: "outs \<in> shuffles (d False) (d True)"
    and f: "flow d s False" "flow d s True" and e: "sent msg outs s" by (auto simp: told_def)
  from f obtain r r' where "so_said s False = d False @ r" "so_said s True = d True @ r'" by (auto simp: flow_def)
  moreover have "so_main s \<noteq> Returned \<longrightarrow> so_events s = List.map Output outs"
    using e by (cases "so_main s") (simp_all add: sent_def)
  moreover have "so_main s = Returned \<longrightarrow>
       (\<exists>ok. so_child s = Waited ok \<and> so_events s = List.map Output outs @ [stream_end msg ok]) \<and>
       (\<forall>more t. stream_run msg more s = Some t \<longrightarrow> so_events t = so_events s)"
    using e finished_silent_run [of s msg] by (auto simp: sent_def)
  ultimately show ?thesis using m by blast
qed

definition both_outputs :: "stream_act list" where
  "both_outputs = [Print False ''one'', Print True ''two'', Scan True, Check True, Scan False, Emit True, Check False, Emit False,
     Exit True, Stop False, Stop True, Wait, Done, Finish]"

lemma stream_told_in_order_witness:
  "map_option so_events (stream_run ''ready'' both_outputs stream_started) = Some [Output ''two'', Output ''one'', Complete ''ready'']"
proof -
  obtain s where s: "stream_run ''ready'' both_outputs stream_started = Some s"
    and e: "so_events s = [Output ''two'', Output ''one'', Complete ''ready'']" "so_main s = Returned"
    by (simp add: both_outputs_def stream_started_def scan_limit_def)
  have "Cancel \<notin> set both_outputs" by (simp add: both_outputs_def)
  from stream_told_in_order [OF s this] e s show ?thesis by auto
qed

text \<open>The child is waited for while its pipes are still read: a command that succeeds may have its output lost.\<close>

lemma stream_loses_output:
  "map_option so_events (stream_run ''ready'' [Print False ''one'', Exit True, Wait, Stop False, Stop True, Done, Finish]
     stream_started) = Some [Complete ''ready'']"
  by (simp add: stream_started_def)

text \<open>A cancelled request is answered while a scanner may still be about to write: that line is written to the answer after
  the handler has returned.\<close>

lemma stream_writes_after_return:
  "\<exists>s t. stream_run ''ready'' [Print False ''one'', Scan False, Check False, Cancel, Abort] stream_started = Some s \<and>
     so_main s = Returned \<and> stream_run ''ready'' [Emit False] s = Some t \<and> so_events t = so_events s @ [Output ''one'']"
  by (simp add: stream_started_def scan_limit_def)

text \<open>A line of 256 KiB ends the reading of its stream; the lines behind it are never sent, whatever the command does.\<close>

lemma stream_long_line:
  assumes "scan_limit \<le> length l" "so_pipe s k = l # ls" "so_scan s k = Scanning"
  shows "\<exists>t. stream_step msg (Scan k) s = Some t \<and> so_scan t k = Stopped \<and> so_pipe t k = l # ls"
  using assms by simp

lemma scanner_can_stop:
  assumes "\<not> so_open s" "so_scan s k \<noteq> Stopped"
  shows "\<exists>acts t. stream_run msg acts s = Some t \<and> t = s\<lparr>so_scan := (so_scan s)(k := Stopped), so_events := so_events t\<rparr>"
proof (cases "so_scan s k")
  case Scanning
  then show ?thesis using assms(1) by (intro exI [of _ "[Stop k]"]) simp
next
  case (Has l)
  then show ?thesis using assms(1)
    by (cases "so_gone s") (intro exI [of _ "[Check k]"], simp, intro exI [of _ "[Check k, Emit k, Stop k]"], simp)
next
  case (Passed l)
  then show ?thesis using assms(1) by (intro exI [of _ "[Emit k, Stop k]"]) simp
qed (use assms(2) in simp)

lemma stream_run_append:
  "stream_run msg (as @ bs) s = Option.bind (stream_run msg as s) (stream_run msg bs)"
  by (induction as arbitrary: s) (auto split: option.splits)

lemma scanner_stops:
  assumes "\<not> so_open s"
  shows "\<exists>acts t. stream_run msg acts s = Some t \<and> so_scan t k = Stopped \<and> (so_scan s (\<not> k) = Stopped \<longrightarrow> so_scan t (\<not> k) = Stopped) \<and>
    \<not> so_open t \<and> so_main t = so_main s \<and> so_child t = so_child s"
proof (cases "so_scan s k = Stopped")
  case True
  then show ?thesis using assms by (intro exI [of _ "[]"]) simp
next
  case False
  from scanner_can_stop [OF assms this] obtain acts t where
    t: "stream_run msg acts s = Some t" "t = s\<lparr>so_scan := (so_scan s)(k := Stopped), so_events := so_events t\<rparr>" by blast
  have "so_scan t = (so_scan s)(k := Stopped)" "so_open t = so_open s" "so_main t = so_main s" "so_child t = so_child s"
    by (subst t(2); simp)+
  with t(1) assms show ?thesis by (intro exI [of _ acts] exI [of _ t]) auto
qed

text \<open>A streaming handler does not hang on its command's output: once the child was waited for, whatever is left in the
  pipes and however far its scanners are, the handler can return, and its last event is the closing one.\<close>

theorem stream_can_finish:
  assumes "so_child s = Waited ok" "\<not> so_open s" "so_main s = Selecting"
  shows "\<exists>acts t. stream_run msg acts s = Some t \<and> so_main t = Returned \<and> last (so_events t) = stream_end msg ok"
proof -
  obtain a1 s1 where 1: "stream_run msg a1 s = Some s1" "so_scan s1 False = Stopped" "\<not> so_open s1" "so_main s1 = Selecting"
    "so_child s1 = Waited ok" using scanner_stops [OF assms(2), of msg False] assms by auto
  obtain a2 s2 where 2: "stream_run msg a2 s1 = Some s2" "so_scan s2 True = Stopped" "so_scan s2 False = Stopped"
    "so_main s2 = Selecting" "so_child s2 = Waited ok" using scanner_stops [OF 1(3), of msg True] 1 by auto
  then have "\<exists>t. stream_run msg [Done, Finish] s2 = Some t \<and> so_main t = Returned \<and> last (so_events t) = stream_end msg ok"
    by (simp add: stream_end_def)
  then obtain t where "stream_run msg [Done, Finish] s2 = Some t" "so_main t = Returned" "last (so_events t) = stream_end msg ok" by blast
  with 1(1) 2(1) have "stream_run msg (a1 @ a2 @ [Done, Finish]) s = Some t" by (simp add: stream_run_append)
  with \<open>so_main t = Returned\<close> \<open>last (so_events t) = stream_end msg ok\<close> show ?thesis by blast
qed

lemma stream_can_finish_witness:
  "\<exists>s acts t. stream_run ''ready'' [Print False ''one'', Print False ''two'', Scan False, Exit False, Wait] stream_started = Some s \<and>
     so_pipe s False = [''two''] \<and> stream_run ''ready'' acts s = Some t \<and> so_main t = Returned \<and>
     last (so_events t) = ErrorEvent ''exit status''"
proof -
  obtain s where s: "stream_run ''ready'' [Print False ''one'', Print False ''two'', Scan False, Exit False, Wait] stream_started = Some s"
      "so_pipe s False = [''two'']" "so_child s = Waited False" "\<not> so_open s" "so_main s = Selecting"
    by (simp add: stream_started_def scan_limit_def)
  from stream_can_finish [OF s(3-5), of "''ready''"] s(1,2) show ?thesis by (auto simp: stream_end_def)
qed

section \<open>Installing and removing Xray\<close>

definition xray_script :: "string \<Rightarrow> string" where
  "xray_script verb =
     ''bash -c \"$(curl -L https://github.com/XTLS/Xray-install/raw/main/install-release.sh)\" @ '' @ verb"

definition run_shell :: "string \<Rightarrow> svc \<Rightarrow> bool \<times> svc" where
  "run_shell script st = (case on_sys run_cmd st of (ok, st1) \<Rightarrow> (ok, called (Ran script) st1))"

definition HandleXrayInstall :: "svc_env \<Rightarrow> cfg_env \<Rightarrow> string \<Rightarrow> bool \<Rightarrow> bool \<Rightarrow> svc \<Rightarrow> reply \<times> svc" where
  "HandleXrayInstall env cenv txt post authenticated st =
     (if \<not> post then (writeError 405 ''Method not allowed'', st)
      else if \<not> authenticated then (writeError 401 ''Unauthorized'', st)
      else if se_docker env then (writeOk [(''message'', JStr ''embedded'')], st)
      else
        (case run_shell (xray_script ''install'') st of
           (False, st1) \<Rightarrow> (writeError 500 ''Installation failed'', st1)
         | (True, st1) \<Rightarrow>
             (writeOk [(''message'', JStr ''Xray installed successfully'')], DeployDefaultXrayConfig env cenv txt st1)))"

definition HandleXrayRemove :: "bool \<Rightarrow> bool \<Rightarrow> svc \<Rightarrow> reply \<times> svc" where
  "HandleXrayRemove post authenticated st =
     (if \<not> post then (writeError 405 ''Method not allowed'', st)
      else if \<not> authenticated then (writeError 401 ''Unauthorized'', st)
      else
        (case run_shell (xray_script ''remove'') st of
           (False, st1) \<Rightarrow> (writeError 500 ''Removal failed'', st1)
         | (True, st1) \<Rightarrow> (writeOk [(''message'', JStr ''Xray removed successfully'')], st1)))"

text \<open>A streamed handler answers with a reply, or with a stream whose closing message is given here.\<close>

datatype streamed = Refused reply | Streamed string

definition HandleXrayInstallStream :: "svc_env \<Rightarrow> cfg_env \<Rightarrow> string \<Rightarrow> bool \<Rightarrow> bool \<Rightarrow> svc \<Rightarrow> streamed \<times> svc" where
  "HandleXrayInstallStream env cenv txt post authenticated st =
     (if \<not> post then (Refused (writeError 405 ''Method not allowed''), st)
      else if \<not> authenticated then (Refused (writeError 401 ''Unauthorized''), st)
      else
        (case run_shell (xray_script ''install'') st of
           (_, st1) \<Rightarrow> (Streamed ''Xray installed successfully'', DeployDefaultXrayConfig env cenv txt st1)))"

definition HandleXrayRemoveStream :: "bool \<Rightarrow> bool \<Rightarrow> svc \<Rightarrow> streamed \<times> svc" where
  "HandleXrayRemoveStream post authenticated st =
     (if \<not> post then (Refused (writeError 405 ''Method not allowed''), st)
      else if \<not> authenticated then (Refused (writeError 401 ''Unauthorized''), st)
      else (Streamed ''Xray removed successfully'', snd (run_shell (xray_script ''remove'') st)))"

definition HandleAgentUninstallStream :: "string \<Rightarrow> bool \<Rightarrow> bool \<Rightarrow> svc \<Rightarrow> streamed \<times> svc" where
  "HandleAgentUninstallStream agentUninstallScheduleScript post authenticated st =
     (if \<not> post then (Refused (writeError 405 ''Method not allowed''), st)
      else if \<not> authenticated then (Refused (writeError 401 ''Unauthorized''), st)
      else (Streamed ''Agent uninstall scheduled'', snd (run_shell agentUninstallScheduleScript st)))"

text \<open>The streamed installation deploys the default configuration and starts Xray also when the installation failed or
  was cancelled; the plain one does not.\<close>

lemma failed_install_deploys:
  assumes "run_shell (xray_script ''install'') st = (False, st1)" "\<not> se_docker env"
  shows "snd (HandleXrayInstall env cenv txt True True st) = st1"
    and "snd (HandleXrayInstallStream env cenv txt True True st) = DeployDefaultXrayConfig env cenv txt st1"
  using assms by (simp_all add: HandleXrayInstall_def HandleXrayInstallStream_def)

section \<open>Installing and removing nginx\<close>

text \<open>The flag \<open>nginxInstalling\<close> and the installations that run in the background, each with its domain.\<close>

record installer =
  in_svc :: svc
  in_flag :: bool
  in_jobs :: "string list"

definition nginx_script :: string where
  "nginx_script = ''curl -fsSL https://raw.githubusercontent.com/niccfun/miaomiaox/main/install-nginx.sh | bash''"

definition nginx_stream_script :: string where
  "nginx_stream_script = ''set -e; SCRIPT=$(mktemp); curl -fsSL https://raw.githubusercontent.com/niccfun/miaomiaox/main/install-nginx.sh -o \"$SCRIPT\"; bash \"$SCRIPT\"; rm -f \"$SCRIPT\"''"

definition nginx_remove_script :: string where
  "nginx_remove_script = ''curl -fsSL https://raw.githubusercontent.com/niccfun/miaomiaox/main/uninstall-nginx.sh | bash -s -- -y''"

text \<open>A body that does not parse is an empty domain.\<close>

definition HandleNginxInstall :: "bool \<Rightarrow> bool \<Rightarrow> bool \<Rightarrow> string \<Rightarrow> installer \<Rightarrow> reply \<times> installer" where
  "HandleNginxInstall docker post authenticated domain s =
     (if \<not> post then (writeError 405 ''Method not allowed'', s)
      else if \<not> authenticated then (writeError 401 ''Unauthorized'', s)
      else if in_flag s then (writeError 409 ''Nginx installation already in progress'', s)
      else if docker then (writeOk [(''message'', JStr ''nginx'')], s)
      else (writeOk [(''message'', JStr ''Nginx installation started, please check status later'')],
            s\<lparr>in_flag := True, in_jobs := in_jobs s @ [domain]\<rparr>))"

definition deploy_ssl :: "svc_env \<Rightarrow> string \<Rightarrow> svc \<Rightarrow> svc" where
  "deploy_ssl env domain st = (if domain = [] then st else on_file (deployNginxSSLConfig (se_nginx env) domain) st)"

text \<open>The goroutine, and its deferred end.\<close>

definition nginx_install_job :: "svc_env \<Rightarrow> nat \<Rightarrow> installer \<Rightarrow> installer" where
  "nginx_install_job env i s =
     (if length (in_jobs s) \<le> i then s
      else s\<lparr>in_svc := (case run_shell nginx_script (in_svc s) of
                          (False, st) \<Rightarrow> st
                        | (True, st) \<Rightarrow> deploy_ssl env (in_jobs s ! i) st),
             in_flag := False, in_jobs := take i (in_jobs s) @ drop (Suc i) (in_jobs s)\<rparr>)"

definition HandleNginxRemove :: "bool \<Rightarrow> bool \<Rightarrow> svc \<Rightarrow> reply \<times> svc" where
  "HandleNginxRemove post authenticated st =
     (if \<not> post then (writeError 405 ''Method not allowed'', st)
      else if \<not> authenticated then (writeError 401 ''Unauthorized'', st)
      else
        (case run_shell nginx_remove_script st of
           (False, st1) \<Rightarrow> (writeError 500 ''Removal failed'', st1)
         | (True, st1) \<Rightarrow> (writeOk [(''message'', JStr ''Nginx removed successfully'')], st1)))"

text \<open>The streamed installation runs inside its request: the flag is set while it does and cleared when it ends.\<close>

definition HandleNginxInstallStream :: "svc_env \<Rightarrow> bool \<Rightarrow> bool \<Rightarrow> string \<Rightarrow> installer \<Rightarrow> streamed \<times> installer" where
  "HandleNginxInstallStream env post authenticated domain s =
     (if \<not> post then (Refused (writeError 405 ''Method not allowed''), s)
      else if \<not> authenticated then (Refused (writeError 401 ''Unauthorized''), s)
      else if in_flag s then (Refused (writeError 409 ''Nginx installation already in progress''), s)
      else
        (case run_shell nginx_stream_script (in_svc s) of
           (_, st) \<Rightarrow> (Streamed ''Nginx installed successfully'', s\<lparr>in_svc := deploy_ssl env domain st, in_flag := False\<rparr>)))"

definition HandleNginxRemoveStream :: "bool \<Rightarrow> bool \<Rightarrow> svc \<Rightarrow> streamed \<times> svc" where
  "HandleNginxRemoveStream post authenticated st =
     (if \<not> post then (Refused (writeError 405 ''Method not allowed''), st)
      else if \<not> authenticated then (Refused (writeError 401 ''Unauthorized''), st)
      else (Streamed ''Nginx removed successfully'', snd (run_shell nginx_remove_script st)))"

definition installNginxPackage_commands :: "nginx_host \<Rightarrow> string list option" where
  "installNginxPackage_commands h =
     (if nh_has h ''apk'' then Some [''apk add --no-cache nginx'']
      else if nh_has h ''apt-get'' then Some [''apt-get update'', ''apt-get install -y nginx'']
      else if nh_has h ''dnf'' then Some [''dnf install -y nginx'']
      else if nh_has h ''yum'' then Some [''yum install -y nginx'']
      else if nh_has h ''pacman'' then Some [''pacman -Sy --noconfirm nginx'']
      else None)"

fun run_all :: "string list \<Rightarrow> svc \<Rightarrow> bool \<times> svc" where
  "run_all [] st = (True, st)"
| "run_all (c # cs) st = (case run_shell c st of (True, st1) \<Rightarrow> run_all cs st1 | (False, st1) \<Rightarrow> (False, st1))"

text \<open>\<open>found\<close> says whether there is an nginx binary afterwards.\<close>

definition installNginxPackage :: "nginx_host \<Rightarrow> (svc \<Rightarrow> bool) \<Rightarrow> svc \<Rightarrow> bool \<times> svc" where
  "installNginxPackage h found st =
     (case installNginxPackage_commands h of
        None \<Rightarrow> (False, st)
      | Some cs \<Rightarrow> (case run_all cs st of (False, st1) \<Rightarrow> (False, st1) | (True, st1) \<Rightarrow> (found st1, st1)))"

text \<open>Requests and ends of installations as they follow one another.\<close>

datatype nginx_event = Ask_Install bool bool bool string | Ask_Stream bool bool string | Job_Ends nat

fun nginx_serve :: "svc_env \<Rightarrow> nginx_event list \<Rightarrow> installer \<Rightarrow> installer" where
  "nginx_serve env [] s = s"
| "nginx_serve env (Ask_Install docker post auth domain # es) s =
     nginx_serve env es (snd (HandleNginxInstall docker post auth domain s))"
| "nginx_serve env (Ask_Stream post auth domain # es) s =
     nginx_serve env es (snd (HandleNginxInstallStream env post auth domain s))"
| "nginx_serve env (Job_Ends i # es) s = nginx_serve env es (nginx_install_job env i s)"

definition one_install :: "installer \<Rightarrow> bool" where
  "one_install s \<longleftrightarrow> length (in_jobs s) \<le> 1 \<and> (in_flag s \<longleftrightarrow> in_jobs s \<noteq> [])"

lemma job_jobs:
  "in_jobs (nginx_install_job env i s) = take i (in_jobs s) @ drop (Suc i) (in_jobs s)"
  by (simp add: nginx_install_job_def)

lemma one_install_job: "one_install s \<Longrightarrow> one_install (nginx_install_job env i s)"
proof (cases "length (in_jobs s) \<le> i")
  case False
  moreover assume "one_install s"
  ultimately have "i = 0" "length (in_jobs s) = 1" by (auto simp: one_install_def)
  then show ?thesis using False by (auto simp: one_install_def nginx_install_job_def)
qed (simp add: nginx_install_job_def)

lemma one_install_served: "one_install s \<Longrightarrow> one_install (nginx_serve env es s)"
proof (induction es arbitrary: s)
  case (Cons e es)
  have "one_install (snd (HandleNginxInstall d p a dom s))" for d p a dom
    using Cons.prems by (auto simp: HandleNginxInstall_def one_install_def)
  moreover have "one_install (snd (HandleNginxInstallStream env p a dom s))" for p a dom
    using Cons.prems by (auto simp: HandleNginxInstallStream_def one_install_def split: prod.splits)
  ultimately show ?case using Cons one_install_job by (cases e) simp_all
qed simp

text \<open>As long as the test of the flag and its setting are not separated by another request, at most one installation of
  nginx runs in the background, the flag says whether one does, and every request meanwhile is refused and changes nothing.\<close>

theorem nginx_install_exclusive:
  fixes env :: svc_env and es :: "nginx_event list"
  assumes "one_install s"
  defines "t \<equiv> nginx_serve env es s"
  shows "length (in_jobs t) \<le> 1 \<and> (in_flag t \<longleftrightarrow> in_jobs t \<noteq> []) \<and>
    (in_jobs t \<noteq> [] \<longrightarrow> snd (HandleNginxInstall docker post auth domain t) = t \<and>
       snd (HandleNginxInstallStream env post auth domain t) = t)"
proof -
  have t: "length (in_jobs t) \<le> 1" "in_flag t \<longleftrightarrow> in_jobs t \<noteq> []"
    using one_install_served [OF assms(1)] by (simp_all add: t_def one_install_def)
  then show ?thesis by (auto simp: HandleNginxInstall_def HandleNginxInstallStream_def)
qed

definition idle_installer :: "svc \<Rightarrow> installer" where
  "idle_installer st = \<lparr>in_svc = st, in_flag = False, in_jobs = []\<rparr>"

lemma nginx_install_exclusive_witness:
  "in_jobs (nginx_serve env [Ask_Install False True True ''a'', Ask_Install False True True ''b'', Ask_Stream True True ''c'']
     (idle_installer st)) = [''a''] \<and>
   in_flag (nginx_serve env [Ask_Install False True True ''a'', Ask_Install False True True ''b'', Ask_Stream True True ''c'']
     (idle_installer st))"
proof -
  have "one_install (idle_installer st)" by (simp add: idle_installer_def one_install_def)
  from nginx_install_exclusive [OF this, where env = env and es = "[Ask_Install False True True ''a'',
      Ask_Install False True True ''b'', Ask_Stream True True ''c'']"]
  show ?thesis by (simp add: idle_installer_def HandleNginxInstall_def HandleNginxInstallStream_def)
qed

text \<open>The test and the setting are two operations, though: the requests of the two kinds interleaved by them.\<close>

record flagged =
  fl_flag :: bool
  fl_checked :: nat
  fl_running :: nat

datatype flag_act = Load | Store | End

fun flag_step :: "flag_act \<Rightarrow> flagged \<Rightarrow> flagged" where
  "flag_step Load s = (if fl_flag s then s else s\<lparr>fl_checked := Suc (fl_checked s)\<rparr>)"
| "flag_step Store s =
     (if fl_checked s = 0 then s
      else s\<lparr>fl_flag := True, fl_checked := fl_checked s - 1, fl_running := Suc (fl_running s)\<rparr>)"
| "flag_step End s = (if fl_running s = 0 then s else s\<lparr>fl_flag := False, fl_running := fl_running s - 1\<rparr>)"

lemma two_installations:
  "fold flag_step [Load, Load, Store, Store] \<lparr>fl_flag = False, fl_checked = 0, fl_running = 0\<rparr> =
     \<lparr>fl_flag = True, fl_checked = 0, fl_running = 2\<rparr>"
  "fold flag_step [Load, Load, Store, Store, End, Load, Store] \<lparr>fl_flag = False, fl_checked = 0, fl_running = 0\<rparr> =
     \<lparr>fl_flag = True, fl_checked = 0, fl_running = 2\<rparr>"
  by simp_all

section \<open>The take-over of an external Xray\<close>

record takeover =
  tk_detected :: bool
  tk_config :: string
  tk_confdir :: string
  tk_merged :: nat
  tk_backup :: string
  tk_restarted :: bool

definition HandleTakeoverExternalXray :: "svc_env \<Rightarrow> string \<Rightarrow> bool \<Rightarrow> svc \<Rightarrow> (reply + takeover) \<times> svc" where
  "HandleTakeoverExternalXray env stamp post st =
     (if \<not> post then (Inl (writeError 405 ''Method not allowed''), st)
      else
        (case on_world (Discover (se_xray env)) st of
           (p, st1) \<Rightarrow>
             if ConfigPath p = [] then
               (Inr \<lparr>tk_detected = (ConfDir p \<noteq> []), tk_config = [], tk_confdir = ConfDir p, tk_merged = 0, tk_backup = [],
                   tk_restarted = False\<rparr>, st1)
             else
               (case on_world (MergeXrayConfdirInto (obj_dec env) (se_enc env) stamp (ConfigPath p) (ConfDir p) (ConfigPath p)) st1 of
                  (Inl e, st2) \<Rightarrow> (Inl (writeError 500 e), st2)
                | (Inr (n, backup), st2) \<Rightarrow>
                    (case RestartXray env st2 of
                       (ok, st3) \<Rightarrow>
                         (Inr \<lparr>tk_detected = True, tk_config = ConfigPath p, tk_confdir = ConfDir p, tk_merged = n,
                             tk_backup = backup, tk_restarted = ok\<rparr>, st3)))))"

text \<open>A take-over that cannot merge leaves Xray running as it was.\<close>

lemma takeover_error_no_restart:
  assumes "HandleTakeoverExternalXray env stamp post st = (Inl e, st')"
  shows "sv_calls st' = sv_calls st"
proof (cases post)
  case False
  with assms show ?thesis by (simp add: HandleTakeoverExternalXray_def)
next
  case True
  obtain p st1 where 1: "on_world (Discover (se_xray env)) st = (p, st1)" by fastforce
  obtain r st2 where 2: "on_world (MergeXrayConfdirInto (obj_dec env) (se_enc env) stamp (ConfigPath p) (ConfDir p) (ConfigPath p)) st1 = (r, st2)"
    by fastforce
  from True assms 1 2 have "st' = st2"
    by (auto simp: HandleTakeoverExternalXray_def split: if_splits sum.splits prod.splits)
  with on_world_sel(1) [OF 1] on_world_sel(1) [OF 2] show ?thesis by simp
qed

end
