(* ===== verification/Sys_Metrics.thy ===== *)
theory Sys_Metrics
  imports Agent_Logs Discovery Client_Messages
begin

text \<open>
  The system metrics the probe reports (\<open>internal/agent/sysmetrics.go\<close>, \<open>collectProbeSysMetrics\<close> of \<open>client.go\<close>): processor
  time from \<open>/proc/stat\<close> as the difference of two readings of 64-bit counters, memory from \<open>/proc/meminfo\<close>, the root file
  system, and the facts read once. The percentage is computed in the rationals where the code has a float64. The
  number of processors, the kernel's name and the numbers of the file system are parameters.
\<close>

section \<open>Processor time\<close>

text \<open>\<open>strconv.ParseUint(s, 10, 64)\<close>.\<close>

definition parse_uint64 :: "string \<Rightarrow> 64 word option" where
  "parse_uint64 s =
     (if s = [] \<or> \<not> list_all is_digit s \<or> 2 ^ 64 \<le> digits_value s then None else Some (of_nat (digits_value s)))"

record cpuTimes =
  idle :: "64 word"
  total_time :: "64 word"

fun add_times :: "nat \<Rightarrow> string list \<Rightarrow> cpuTimes \<Rightarrow> cpuTimes" where
  "add_times i [] t = t"
| "add_times i (f # fs) t =
     add_times (Suc i) fs
       (case parse_uint64 f of
          None \<Rightarrow> t
        | Some v \<Rightarrow> t\<lparr>total_time := total_time t + v, idle := (if i = 4 \<or> i = 5 then idle t + v else idle t)\<rparr>)"

definition cpu_line :: "string \<Rightarrow> cpuTimes option" where
  "cpu_line data =
     (let fields = go_fields (hd (split_on newline data))
      in if length fields < 5 \<or> hd fields \<noteq> ''cpu'' then None
         else Some (add_times 1 (tl fields) \<lparr>idle = 0, total_time = 0\<rparr>))"

definition readCPUTimes :: "world \<Rightarrow> cpuTimes option \<times> world" where
  "readCPUTimes w =
     (case read_file ''/proc/stat'' w of (Inl _, w1) \<Rightarrow> (None, w1) | (Inr data, w1) \<Rightarrow> (cpu_line data, w1))"

text \<open>The differences wrap as \<open>int64\<close> does.\<close>

definition cpuPct :: "cpuTimes \<Rightarrow> cpuTimes \<Rightarrow> rat" where
  "cpuPct prev cur =
     (let dTotal = total_time cur - total_time prev; dIdle = idle cur - idle prev
      in if sint dTotal \<le> 0 then 0
         else (let busy = sint (dTotal - dIdle)
               in of_int (if busy < 0 then 0 else busy) / of_int (sint dTotal) * 100))"

section \<open>Memory, disk, load, time\<close>

fun mem_lines :: "string list \<Rightarrow> int \<times> int \<Rightarrow> int \<times> int" where
  "mem_lines [] acc = acc"
| "mem_lines (line # ls) (t, a) =
     mem_lines ls
       (case cut_at (CHR '':'') line of
          None \<Rightarrow> (t, a)
        | Some (k, v) \<Rightarrow>
            (case go_fields (trim_space v) of
               [] \<Rightarrow> (t, a)
             | f # _ \<Rightarrow>
                 (case atoi f of
                    None \<Rightarrow> (t, a)
                  | Some kb \<Rightarrow>
                      if trim_space k = ''MemTotal'' then (wrap64 (kb * 1024), a)
                      else if trim_space k = ''MemAvailable'' then (t, wrap64 (kb * 1024))
                      else (t, a))))"

definition mem_numbers :: "string \<Rightarrow> (int \<times> int) option" where
  "mem_numbers data =
     (case mem_lines (split_on newline data) (0, 0) of
        (memTotal, memAvail) \<Rightarrow>
          if memTotal = 0 then None
          else (let used = wrap64 (memTotal - memAvail) in Some (if used < 0 then 0 else used, memTotal)))"

definition readMem :: "world \<Rightarrow> (int \<times> int) option \<times> world" where
  "readMem w =
     (case read_file ''/proc/meminfo'' w of (Inl _, w1) \<Rightarrow> (None, w1) | (Inr data, w1) \<Rightarrow> (mem_numbers data, w1))"

text \<open>What \<open>statfs\<close> answers: the size of a block, the blocks, and those that are available.\<close>

definition readDisk :: "(int \<times> int \<times> int) option \<Rightarrow> (int \<times> int) option" where
  "readDisk st =
     (case st of
        None \<Rightarrow> None
      | Some (bs, blocks, bavail) \<Rightarrow>
          (let whole = wrap64 (blocks * bs); avail = wrap64 (bavail * bs)
           in if whole \<le> 0 then None else Some (wrap64 (whole - avail), whole)))"

definition readLoadAvg :: "world \<Rightarrow> string \<times> world" where
  "readLoadAvg w =
     (case read_file ''/proc/loadavg'' w of (Inl _, w1) \<Rightarrow> ([], w1) | (Inr data, w1) \<Rightarrow> (trim_space data, w1))"

text \<open>\<open>strconv.ParseFloat\<close> and the truncation to an integer, for the form the kernel writes: digits and a fraction.\<close>

definition whole_seconds :: "string \<Rightarrow> int" where
  "whole_seconds f =
     (let ds = takeWhile is_digit f; rest = drop (length ds) f
      in if (rest = [] \<and> ds \<noteq> []) \<or> (rest \<noteq> [] \<and> hd rest = CHR ''.'' \<and> list_all is_digit (tl rest) \<and> (ds \<noteq> [] \<or> tl rest \<noteq> []))
         then int (digits_value ds) else 0)"

definition readUptimeSeconds :: "world \<Rightarrow> int \<times> world" where
  "readUptimeSeconds w =
     (case read_file ''/proc/uptime'' w of
        (Inl _, w1) \<Rightarrow> (0, w1)
      | (Inr data, w1) \<Rightarrow> (case go_fields data of [] \<Rightarrow> (0, w1) | f # _ \<Rightarrow> (whole_seconds f, w1)))"

section \<open>The facts read once\<close>

record static_info =
  si_model :: string
  si_cores :: nat
  si_threads :: nat
  si_os :: string
  si_kernel :: string
  si_arch :: string

text \<open>The scan of \<open>/proc/cpuinfo\<close>: the model, the current processor's package and core, and the cores seen.\<close>

record core_scan =
  cs_model :: string
  cs_package :: string
  cs_core :: string
  cs_seen :: "string list"

definition flush_core :: "core_scan \<Rightarrow> core_scan" where
  "flush_core s =
     (if cs_core s = [] then s
      else s\<lparr>cs_seen := List.insert (cs_package s @ '':'' @ cs_core s) (cs_seen s), cs_package := ''0'', cs_core := []\<rparr>)"

definition cpuinfo_line :: "string \<Rightarrow> core_scan \<Rightarrow> core_scan" where
  "cpuinfo_line line s =
     (case cut_at (CHR '':'') line of
        Some (k, v) \<Rightarrow>
          (let key = trim_space k; val = trim_space v;
               s1 = (if cs_model s = [] \<and> (key = ''model name'' \<or> key = ''Hardware'') then s\<lparr>cs_model := val\<rparr> else s);
               s2 = (if key = ''physical id'' then s1\<lparr>cs_package := val\<rparr> else s1)
           in if key = ''core id'' then s2\<lparr>cs_core := val\<rparr> else s2)
      | None \<Rightarrow> if trim_space line = [] then flush_core s else s)"

text \<open>The lines of a \<open>bufio.Scanner\<close>: without their ends, none after the last end. Lines are shorter than its buffer.\<close>

definition scan_text :: "string \<Rightarrow> string list" where
  "scan_text data =
     (let ls = split_on newline data; ms = (if last ls = [] then butlast ls else ls)
      in List.map (\<lambda>l. if l \<noteq> [] \<and> last l = CHR 0x0D then butlast l else l) ms)"

definition cpuinfo_scan :: "string \<Rightarrow> core_scan" where
  "cpuinfo_scan data =
     flush_core (fold cpuinfo_line (scan_text data) \<lparr>cs_model = [], cs_package = ''0'', cs_core = [], cs_seen = []\<rparr>)"

definition pretty_name :: "string \<Rightarrow> string" where
  "pretty_name data =
     (case find (\<lambda>l. has_prefix l ''PRETTY_NAME='') (split_on newline data) of
        None \<Rightarrow> []
      | Some l \<Rightarrow>
          (let v = trim_prefix l ''PRETTY_NAME=''; left = dropWhile (\<lambda>c. c = CHR 0x22) v
           in rev (dropWhile (\<lambda>c. c = CHR 0x22) (rev left))))"

definition charsToString :: "string \<Rightarrow> string" where
  "charsToString s = takeWhile (\<lambda>c. c \<noteq> CHR 0x00) s"

definition readProbeStaticSystemInfo :: "nat \<Rightarrow> string \<Rightarrow> string option \<Rightarrow> world \<Rightarrow> static_info \<times> world" where
  "readProbeStaticSystemInfo ncpu arch uname w =
     (case read_file ''/proc/cpuinfo'' w of
        (info, w1) \<Rightarrow>
          (let s = (case info of Inl _ \<Rightarrow> None | Inr data \<Rightarrow> Some (cpuinfo_scan data))
           in (case read_file ''/etc/os-release'' w1 of
                 (os, w2) \<Rightarrow>
                   (\<lparr>si_model = (case s of None \<Rightarrow> [] | Some c \<Rightarrow> cs_model c),
                     si_cores = (case s of None \<Rightarrow> ncpu | Some c \<Rightarrow> if cs_seen c = [] then ncpu else length (cs_seen c)),
                     si_threads = ncpu,
                     si_os = (case os of Inl _ \<Rightarrow> [] | Inr data \<Rightarrow> pretty_name data),
                     si_kernel = (case uname of None \<Rightarrow> [] | Some r \<Rightarrow> charsToString r),
                     si_arch = arch\<rparr>, w2))))"

section \<open>One sample\<close>

record metrics =
  sm_cpu :: rat
  sm_load :: string
  sm_mem :: "int \<times> int"
  sm_disk :: "int \<times> int"
  sm_uptime :: int
  sm_static :: static_info
  sm_has_cpu :: bool
  sm_has_mem :: bool
  sm_has_disk :: bool

record collector =
  co_last :: "cpuTimes option"
  co_static :: static_info

text \<open>The baseline is \<open>Some\<close> exactly when the code's \<open>hasLastCPU\<close> is set.\<close>

definition sample_cpu :: "bool \<Rightarrow> collector \<Rightarrow> metrics \<Rightarrow> world \<Rightarrow> (collector \<times> metrics) \<times> world" where
  "sample_cpu on c m w =
     (if \<not> on then ((c, m), w)
      else
        (case readCPUTimes w of
           (None, w1) \<Rightarrow> ((c, m), w1)
         | (Some cur, w1) \<Rightarrow>
             (case readLoadAvg w1 of
                (load, w2) \<Rightarrow>
                  ((c\<lparr>co_last := Some cur\<rparr>,
                    m\<lparr>sm_cpu := (case co_last c of None \<Rightarrow> 0 | Some prev \<Rightarrow> cpuPct prev cur), sm_load := load,
                      sm_has_cpu := True\<rparr>), w2))))"

definition sample :: "(int \<times> int \<times> int) option \<Rightarrow> bool \<Rightarrow> bool \<Rightarrow> bool \<Rightarrow> collector \<Rightarrow> world \<Rightarrow> (metrics \<times> collector) \<times> world" where
  "sample statfs cpu mem disk c w =
     (case readUptimeSeconds w of
        (up, w1) \<Rightarrow>
          (let m0 = \<lparr>sm_cpu = 0, sm_load = [], sm_mem = (0, 0), sm_disk = (0, 0), sm_uptime = up, sm_static = co_static c,
                     sm_has_cpu = False, sm_has_mem = False, sm_has_disk = False\<rparr>
           in (case sample_cpu cpu c m0 w1 of
                 ((c1, m1), w2) \<Rightarrow>
                   (case (if mem then readMem w2 else (None, w2)) of
                      (r, w3) \<Rightarrow>
                        (let m2 = (case r of None \<Rightarrow> m1 | Some x \<Rightarrow> m1\<lparr>sm_mem := x, sm_has_mem := True\<rparr>);
                             m3 = (case (if disk then readDisk statfs else None) of
                                     None \<Rightarrow> m2 | Some x \<Rightarrow> m2\<lparr>sm_disk := x, sm_has_disk := True\<rparr>)
                         in ((m3, c1), w3))))))"

text \<open>\<open>machine\<close> is what the collector reads when it is made, at the first traffic report with the probe on.\<close>

definition collectProbeSysMetrics ::
  "(world \<Rightarrow> static_info \<times> world) \<Rightarrow> (int \<times> int \<times> int) option \<Rightarrow> probe_config \<Rightarrow> collector option \<Rightarrow> world \<Rightarrow>
   (metrics option \<times> collector) \<times> world" where
  "collectProbeSysMetrics machine statfs p sys w =
     (case (case sys of
              Some c \<Rightarrow> (c, w)
            | None \<Rightarrow> (case machine w of (info, w1) \<Rightarrow> (\<lparr>co_last = None, co_static = info\<rparr>, w1))) of
        (c, w1) \<Rightarrow>
          if \<not> pc_info p \<and> \<not> pc_cpu p \<and> \<not> pc_mem p \<and> \<not> pc_disk p then ((None, c), w1)
          else
            (case sample statfs (pc_cpu p) (pc_mem p) (pc_disk p) c w1 of
               ((m, c1), w2) \<Rightarrow> ((Some m, c1), w2)))"

section \<open>What the numbers say\<close>

lemma digits_u64: "n < 2 ^ 64 \<Longrightarrow> parse_uint64 (nat_digits n) = Some (of_nat n)"
  using nat_digits_value [of n] by (simp add: parse_uint64_def)

lemma four: "4 \<le> length xs \<Longrightarrow> \<exists>a b c d ys. xs = a # b # c # d # ys"
  by (cases xs; cases "tl xs"; cases "tl (tl xs)"; cases "tl (tl (tl xs))") auto

definition idle_part :: "nat list \<Rightarrow> nat" where
  "idle_part xs = (if 3 < length xs then xs ! 3 else 0) + (if 4 < length xs then xs ! 4 else 0)"

lemma add_times_sum:
  assumes "list_all (\<lambda>x. x < 2 ^ 64) xs"
  shows "total_time (add_times i (List.map nat_digits xs) t) = total_time t + of_nat (sum_list xs)"
  using assms by (induction xs arbitrary: i t) (simp_all add: digits_u64)

lemma add_times_late:
  "5 < i \<Longrightarrow> idle (add_times i fs t) = idle t"
  by (induction fs arbitrary: i t) (auto split: option.splits)

lemma add_times_idle:
  assumes "list_all (\<lambda>x. x < 2 ^ 64) xs" "4 \<le> length xs"
  shows "idle (add_times 1 (List.map nat_digits xs) t) = idle t + of_nat (idle_part xs)"
proof -
  obtain a b c d ys where xs: "xs = a # b # c # d # ys"
    using four [OF assms(2)] by blast
  have p: "x \<in> set xs \<Longrightarrow> parse_uint64 (nat_digits x) = Some (of_nat x)" for x
    using assms(1) by (intro digits_u64) (simp add: list_all_iff)
  show ?thesis
  proof (cases ys)
    case Nil
    with p show ?thesis by (simp add: xs idle_part_def)
  next
    case (Cons e zs)
    with p show ?thesis by (simp add: xs idle_part_def add_times_late)
  qed
qed

lemma cpu_line_values:
  assumes "go_fields (hd (split_on newline data)) = ''cpu'' # List.map nat_digits xs"
    and "list_all (\<lambda>x. x < 2 ^ 64) xs" "4 \<le> length xs"
  shows "\<exists>t. cpu_line data = Some t \<and> total_time t = of_nat (sum_list xs) \<and> idle t = of_nat (idle_part xs)"
  using add_times_sum [OF assms(2)] add_times_idle [OF assms(2,3)] assms by (simp add: cpu_line_def)

lemma idle_part_le: "4 \<le> length xs \<Longrightarrow> idle_part xs \<le> sum_list xs"
proof -
  assume "4 \<le> length xs"
  from four [OF this] obtain a b c d ys where xs: "xs = a # b # c # d # ys" by blast
  show ?thesis by (cases ys) (simp_all add: xs idle_part_def eval_nat_numeral)
qed

lemma grown_parts:
  assumes "list_all2 (\<le>) xs ys" "4 \<le> length xs"
  shows "idle_part xs \<le> idle_part ys" "idle_part ys - idle_part xs \<le> sum_list ys - sum_list xs" "sum_list xs \<le> sum_list ys"
proof -
  obtain a b c d us where xs: "xs = a # b # c # d # us" using four [OF assms(2)] by blast
  with assms(1) obtain a' b' c' d' vs where ys: "ys = a' # b' # c' # d' # vs"
    and le: "a \<le> a'" "b \<le> b'" "c \<le> c'" "d \<le> d'" "list_all2 (\<le>) us vs"
    by (auto simp: list_all2_Cons1)
  have s: "list_all2 (\<le>) ps qs \<Longrightarrow> sum_list ps \<le> sum_list qs" for ps qs :: "nat list"
    by (induction rule: list_all2_induct) auto
  show "sum_list xs \<le> sum_list ys" using s [OF le(5)] le(1-4) by (simp add: xs ys)
  have "idle_part xs \<le> idle_part ys \<and> idle_part ys - idle_part xs \<le> sum_list ys - sum_list xs"
  proof (cases us)
    case Nil
    with le(5) have "vs = []" by simp
    with Nil le show ?thesis by (simp add: xs ys idle_part_def eval_nat_numeral)
  next
    case (Cons u us')
    with le(5) obtain v vs' where v: "vs = v # vs'" "u \<le> v" "list_all2 (\<le>) us' vs'" by (auto simp: list_all2_Cons1)
    with s [OF v(3)] Cons le(1-4) show ?thesis by (simp add: xs ys idle_part_def eval_nat_numeral)
  qed
  then show "idle_part xs \<le> idle_part ys" "idle_part ys - idle_part xs \<le> sum_list ys - sum_list xs" by simp_all
qed

lemma sint_small: "n < 2 ^ 63 \<Longrightarrow> sint (of_nat n :: 64 word) = int n"
  by (simp add: sint_uint unat_of_nat uint_nat take_bit_nat_eq_self signed_take_bit_int_eq_self)

lemma cpuPct_diff:
  assumes "a \<le> b" "i \<le> j" "j - i \<le> b - a" "b - a < 2 ^ 63"
  shows "cpuPct \<lparr>idle = of_nat i, total_time = of_nat a\<rparr> \<lparr>idle = of_nat j, total_time = of_nat b\<rparr> =
    (if a = b then 0 else of_nat (b - a - (j - i)) / of_nat (b - a) * 100)"
proof -
  have d: "(of_nat b :: 64 word) - of_nat a = of_nat (b - a)" "(of_nat j :: 64 word) - of_nat i = of_nat (j - i)"
    "(of_nat (b - a) :: 64 word) - of_nat (j - i) = of_nat (b - a - (j - i))"
    using assms(1-3) by (simp_all only: of_nat_diff)
  have "b - a - (j - i) < 2 ^ 63" using assms(4) by simp
  with d sint_small [OF assms(4)] sint_small [of "b - a - (j - i)"] assms(1) show ?thesis
    by (simp add: cpuPct_def Let_def of_int_of_nat_eq)
qed

text \<open>The processor usage reported is exactly the share of the time between two readings that was not idle, a number between
  0 and 100, as long as no counter of the kernel goes back, also when the sums of the counters wrap around 64 bits.\<close>

theorem cpu_usage_exact:
  assumes "go_fields (hd (split_on newline data)) = ''cpu'' # List.map nat_digits xs"
    and "go_fields (hd (split_on newline data')) = ''cpu'' # List.map nat_digits ys"
    and "list_all2 (\<le>) xs ys" "4 \<le> length xs" "list_all (\<lambda>y. y < 2 ^ 64) ys"
  defines "passed \<equiv> sum_list ys - sum_list xs"
  assumes "0 < passed" "passed < 2 ^ 63"
  shows "\<exists>t t'. cpu_line data = Some t \<and> cpu_line data' = Some t' \<and>
    cpuPct t t' = of_nat (passed - (idle_part ys - idle_part xs)) / of_nat passed * 100 \<and> 0 \<le> cpuPct t t' \<and> cpuPct t t' \<le> 100"
proof -
  have l: "length xs = length ys" using assms(3) by (rule list_all2_lengthD)
  have "list_all (\<lambda>x. x < 2 ^ 64) xs" using assms(3,5) l by (force simp: list_all2_conv_all_nth list_all_length)
  from cpu_line_values [OF assms(1) this assms(4)] obtain t where t: "cpu_line data = Some t"
    "t = \<lparr>idle = of_nat (idle_part xs), total_time = of_nat (sum_list xs)\<rparr>" by (metis cpuTimes.surjective old.unit.exhaust)
  from cpu_line_values [OF assms(2,5)] l assms(4) obtain t' where t': "cpu_line data' = Some t'"
    "t' = \<lparr>idle = of_nat (idle_part ys), total_time = of_nat (sum_list ys)\<rparr>" by (metis cpuTimes.surjective old.unit.exhaust)
  note g = grown_parts [OF assms(3,4)]
  define q where "q = (of_nat (passed - (idle_part ys - idle_part xs)) :: rat) / of_nat passed"
  have p: "cpuPct t t' = q * 100"
    unfolding t t' q_def using cpuPct_diff [OF g(3,1,2)] assms(7,8) by (auto simp: passed_def)
  have "(of_nat (passed - (idle_part ys - idle_part xs)) :: rat) \<le> of_nat passed" by (simp only: of_nat_le_iff diff_le_self)
  then have "q \<le> 1" using assms(7) by (simp add: q_def divide_le_eq_1)
  moreover have "0 \<le> q" by (simp add: q_def)
  ultimately have "0 \<le> q * 100" "q * 100 \<le> 100" by simp_all
  then show ?thesis using p t(1) t'(1) unfolding q_def [symmetric] by simp
qed

lemma cpu_usage_exact_witness:
  "\<exists>t t'. cpu_line ''cpu  10 0 10 80 0'' = Some t \<and> cpu_line (''cpu  40 0 30 130 0'' @ [newline] @ ''cpu0 1 2 3'') = Some t' \<and> cpuPct t t' = 50"
proof -
  have 1: "go_fields (hd (split_on newline ''cpu  10 0 10 80 0'')) = ''cpu'' # List.map nat_digits [10, 0, 10, 80, 0]" by code_simp
  have 2: "go_fields (hd (split_on newline (''cpu  40 0 30 130 0'' @ [newline] @ ''cpu0 1 2 3''))) =
    ''cpu'' # List.map nat_digits [40, 0, 30, 130, 0]" by code_simp
  have "0 < sum_list [40, 0, 30, 130, 0] - sum_list [10, 0, 10, 80, 0 :: nat]" "sum_list [40, 0, 30, 130, 0] - sum_list [10, 0, 10, 80, 0 :: nat] < 2 ^ 63"
    by simp_all
  from cpu_usage_exact [OF 1 2 _ _ _ this] show ?thesis by (auto simp: idle_part_def)
qed

text \<open>The kernel's counter of waiting time may go back; then more than the whole is reported.\<close>

lemma more_than_all:
  "cpuPct \<lparr>idle = 100, total_time = 1000\<rparr> \<lparr>idle = 90, total_time = 1010\<rparr> = 200"
  by code_simp

text \<open>The time of guests is part of the user time, and is added once more: a host that spends half of its time for its guests
  reports two thirds.\<close>

lemma guests_counted_twice:
  "add_times 1 [''50'', ''0'', ''0'', ''50'', ''0'', ''0'', ''0'', ''0'', ''50'', ''0''] \<lparr>idle = 0, total_time = 0\<rparr> =
     \<lparr>idle = 50, total_time = 150\<rparr>"
  "cpuPct \<lparr>idle = 0, total_time = 0\<rparr> \<lparr>idle = 50, total_time = 150\<rparr> = 200 / 3"
proof -
  have p: "parse_uint64 ''0'' = Some 0" "parse_uint64 ''50'' = Some 50"
    by (simp_all add: parse_uint64_def digits_value_def is_digit_def)
  show "add_times 1 [''50'', ''0'', ''0'', ''50'', ''0'', ''0'', ''0'', ''0'', ''50'', ''0''] \<lparr>idle = 0, total_time = 0\<rparr> =
     \<lparr>idle = 50, total_time = 150\<rparr>" by (simp add: p)
  show "cpuPct \<lparr>idle = 0, total_time = 0\<rparr> \<lparr>idle = 50, total_time = 150\<rparr> = 200 / 3"
    using cpuPct_diff [of 0 150 0 50] by simp
qed

section \<open>Memory\<close>

lemma mem_used_nonneg:
  assumes "mem_numbers data = Some (u, t)"
  shows "0 \<le> u"
  using assms by (auto simp: mem_numbers_def Let_def split: prod.splits if_splits)

definition mem_line :: "string \<Rightarrow> nat \<Rightarrow> string" where
  "mem_line key kb = key @ '':'' @ replicate 8 (CHR 0x20) @ nat_digits kb @ '' kB''"

definition other_mem_line :: "string \<Rightarrow> bool" where
  "other_mem_line l \<longleftrightarrow> newline \<notin> set l \<and>
     (case cut_at (CHR '':'') l of None \<Rightarrow> True | Some (k, _) \<Rightarrow> trim_space k \<noteq> ''MemTotal'' \<and> trim_space k \<noteq> ''MemAvailable'')"

lemma mem_lines_skip:
  "list_all other_mem_line ls \<Longrightarrow> mem_lines (ls @ rest) acc = mem_lines rest acc"
  by (induction ls arbitrary: acc) (auto simp: other_mem_line_def split: option.splits list.splits prod.splits)

lemma mem_lines_set:
  assumes "cut_at (CHR '':'') l = Some (key, v)" "go_fields (trim_space v) = itoa (int kb) # others" "kb < 2 ^ 53"
  shows "trim_space key = ''MemTotal'' \<Longrightarrow> mem_lines (l # ls) (t, a) = mem_lines ls (int kb * 1024, a)"
    and "trim_space key = ''MemAvailable'' \<Longrightarrow> mem_lines (l # ls) (t, a) = mem_lines ls (t, int kb * 1024)"
proof -
  have "atoi (itoa (int kb)) = Some (int kb)" using assms(3) by (intro atoi_itoa) auto
  moreover have "wrap64 (int kb * 1024) = int kb * 1024" using assms(3) by (intro wrap64_id) auto
  ultimately show "trim_space key = ''MemTotal'' \<Longrightarrow> mem_lines (l # ls) (t, a) = mem_lines ls (int kb * 1024, a)"
    "trim_space key = ''MemAvailable'' \<Longrightarrow> mem_lines (l # ls) (t, a) = mem_lines ls (t, int kb * 1024)"
    using assms by simp_all
qed

text \<open>Whatever else \<open>/proc/meminfo\<close> holds, the memory in use is what its two lines say, in bytes.\<close>

theorem memory_exact:
  assumes m: "cut_at (CHR '':'') lt = Some (''MemTotal'', vt)" "go_fields (trim_space vt) = itoa (int kt) # mt"
    and av: "cut_at (CHR '':'') la = Some (''MemAvailable'', va)" "go_fields (trim_space va) = itoa (int ka) # ma"
    and o: "list_all other_mem_line as" "list_all other_mem_line bs" "list_all other_mem_line cs"
    and nl: "newline \<notin> set lt" "newline \<notin> set la" and k: "0 < kt" "ka \<le> kt" "kt < 2 ^ 53"
  shows "mem_numbers (join_with [newline] (as @ lt # bs @ la # cs)) = Some (1024 * int (kt - ka), 1024 * int kt)"
proof -
  have s: "split_on newline (join_with [newline] (as @ lt # bs @ la # cs)) = as @ lt # bs @ la # cs"
    using o nl by (intro split_join) (auto simp: other_mem_line_def list_all_iff)
  have t: "trim_space ''MemTotal'' = ''MemTotal''" "trim_space ''MemAvailable'' = ''MemAvailable''" by code_simp+
  have "ka < 2 ^ 53" using k by simp
  note st = mem_lines_set(1) [OF m k(3) t(1)] and sa = mem_lines_set(2) [OF av this t(2)]
  have "mem_lines (as @ lt # bs @ la # cs) (0, 0) = mem_lines (lt # bs @ la # cs) (0, 0)" by (rule mem_lines_skip [OF o(1)])
  also have "\<dots> = mem_lines (la # cs) (int kt * 1024, 0)" using st mem_lines_skip [OF o(2)] by metis
  also have "\<dots> = mem_lines cs (int kt * 1024, int ka * 1024)" by (rule sa)
  also have "\<dots> = (int kt * 1024, int ka * 1024)" using mem_lines_skip [OF o(3), of "[]"] by simp
  finally have r: "mem_lines (as @ lt # bs @ la # cs) (0, 0) = (int kt * 1024, int ka * 1024)" .
  have "wrap64 (int kt * 1024 - int ka * 1024) = int kt * 1024 - int ka * 1024" using k by (intro wrap64_id) auto
  then show ?thesis using r s k by (simp add: mem_numbers_def Let_def of_nat_diff algebra_simps)
qed

lemma memory_exact_witness:
  "mem_numbers (join_with [newline] ([] @ ''MemTotal:  2048 kB'' # [''MemFree: 7 kB''] @ ''MemAvailable: 1536 kB'' # [''Junk'', []])) =
     Some (524288, 2097152)"
proof -
  have h: "cut_at (CHR '':'') ''MemTotal:  2048 kB'' = Some (''MemTotal'', ''  2048 kB'')"
    "go_fields (trim_space ''  2048 kB'') = itoa (int 2048) # [''kB'']"
    "cut_at (CHR '':'') ''MemAvailable: 1536 kB'' = Some (''MemAvailable'', '' 1536 kB'')"
    "go_fields (trim_space '' 1536 kB'') = itoa (int 1536) # [''kB'']"
    "list_all other_mem_line []" "list_all other_mem_line [''MemFree: 7 kB'']" "list_all other_mem_line [''Junk'', []]"
    "newline \<notin> set ''MemTotal:  2048 kB''" "newline \<notin> set ''MemAvailable: 1536 kB''" by code_simp+
  from memory_exact [OF h] show ?thesis by simp
qed

text \<open>A kernel that does not report the available memory has all of it reported as used.\<close>

lemma all_used_without_available:
  "mem_numbers (''MemTotal: 2048 kB'' @ [newline] @ ''MemFree: 1024 kB'') = Some (2097152, 2097152)"
  by code_simp

section \<open>Samples\<close>

lemma readCPU_files: "readCPUTimes w = (r, w') \<Longrightarrow> files w' = files w"
  by (auto simp: readCPUTimes_def dest: read_file_frame split: sum.splits prod.splits)

lemma readMem_files: "readMem w = (r, w') \<Longrightarrow> files w' = files w"
  by (auto simp: readMem_def dest: read_file_frame split: sum.splits prod.splits)

lemma readLoad_files: "readLoadAvg w = (r, w') \<Longrightarrow> files w' = files w"
  by (auto simp: readLoadAvg_def dest: read_file_frame split: sum.splits prod.splits)

lemma readUptime_files: "readUptimeSeconds w = (r, w') \<Longrightarrow> files w' = files w"
  by (auto simp: readUptimeSeconds_def dest: read_file_frame split: sum.splits prod.splits list.splits)

lemma sample_cpu_effect:
  assumes "sample_cpu on c m w = ((c', m'), w')"
  shows "files w' = files w \<and>
    (c' = c \<and> m' = m \<or>
     on \<and> (\<exists>cur load. c' = c\<lparr>co_last := Some cur\<rparr> \<and>
       m' = m\<lparr>sm_cpu := (case co_last c of None \<Rightarrow> 0 | Some prev \<Rightarrow> cpuPct prev cur), sm_load := load, sm_has_cpu := True\<rparr>))"
proof -
  obtain t w1 where 1: "readCPUTimes w = (t, w1)" by fastforce
  obtain ld w2 where 2: "readLoadAvg w1 = (ld, w2)" by fastforce
  show ?thesis using assms 1 2 readCPU_files [OF 1] readLoad_files [OF 2]
    by (cases on; cases t) (auto simp: sample_cpu_def)
qed

text \<open>A sample holds a figure exactly for what was asked for and could be read, and zeros for the rest; the usage of the
  processor is the one since the last reading, and the baseline is the newest reading. Nothing is changed on the disk.\<close>

theorem sample_masks:
  assumes "sample statfs cpu mem disk c w = ((m, c'), w')"
  shows "(sm_has_cpu m \<longrightarrow> cpu) \<and> (sm_has_mem m \<longrightarrow> mem) \<and> (sm_has_disk m \<longleftrightarrow> disk \<and> readDisk statfs \<noteq> None) \<and>
    (\<not> sm_has_cpu m \<longrightarrow> sm_cpu m = 0 \<and> sm_load m = [] \<and> co_last c' = co_last c) \<and>
    (\<not> sm_has_mem m \<longrightarrow> sm_mem m = (0, 0)) \<and> (\<not> sm_has_disk m \<longrightarrow> sm_disk m = (0, 0)) \<and>
    (sm_has_cpu m \<longrightarrow> (\<exists>cur. co_last c' = Some cur \<and>
       sm_cpu m = (case co_last c of None \<Rightarrow> 0 | Some prev \<Rightarrow> cpuPct prev cur))) \<and>
    sm_static m = co_static c \<and> co_static c' = co_static c \<and> files w' = files w"
proof -
  obtain up w1 where 1: "readUptimeSeconds w = (up, w1)" by fastforce
  define m0 where "m0 = \<lparr>sm_cpu = 0, sm_load = [], sm_mem = (0, 0), sm_disk = (0, 0), sm_uptime = up, sm_static = co_static c,
                     sm_has_cpu = False, sm_has_mem = False, sm_has_disk = False\<rparr>"
  obtain c1 m1 w2 where 2: "sample_cpu cpu c m0 w1 = ((c1, m1), w2)" by (metis surj_pair)
  obtain r w3 where 3: "(if mem then readMem w2 else (None, w2)) = (r, w3)" by fastforce
  have f: "files w3 = files w2" "r \<noteq> None \<longrightarrow> mem" using 3 readMem_files by (auto split: if_splits)
  note e = sample_cpu_effect [OF 2] readUptime_files [OF 1]
  have "c' = c1" "w' = w3" and m: "m = (let m2 = (case r of None \<Rightarrow> m1 | Some x \<Rightarrow> m1\<lparr>sm_mem := x, sm_has_mem := True\<rparr>)
      in (case (if disk then readDisk statfs else None) of None \<Rightarrow> m2 | Some x \<Rightarrow> m2\<lparr>sm_disk := x, sm_has_disk := True\<rparr>))"
    using assms 1 2 3 unfolding sample_def Let_def m0_def by (simp_all only: prod.case prod.inject)
  from e(1) show ?thesis
  proof (elim conjE disjE exE)
    assume "c1 = c" "m1 = m0"
    then show ?thesis using m e f \<open>c' = c1\<close> \<open>w' = w3\<close>
      by (cases r; cases "if disk then readDisk statfs else None") (auto simp: m0_def split: if_splits)
  next
    fix cur load
    assume "cpu" "c1 = c\<lparr>co_last := Some cur\<rparr>"
      "m1 = m0\<lparr>sm_cpu := (case co_last c of None \<Rightarrow> 0 | Some prev \<Rightarrow> cpuPct prev cur), sm_load := load, sm_has_cpu := True\<rparr>"
    then show ?thesis using m e(2) f \<open>c' = c1\<close> \<open>w' = w3\<close> sample_cpu_effect [OF 2]
      by (cases r; cases "if disk then readDisk statfs else None") (auto simp: m0_def split: if_splits)
  qed
qed

end
