(* ===== verification/Region_Ping.thy ===== *)
theory Region_Ping
  imports Domain_Probe Client_Messages
begin

unbundle bit_operations_syntax

text \<open>
  The probe's pings: ICMP echo with its fall-back to TCP (\<open>internal/agent/icmpping.go\<close>), a round over the targets the
  master sets (\<open>regionping.go\<close>), and the loop that keeps the latest round for the traffic reports (\<open>runProbePingLoop\<close>,
  \<open>probeLatestPingSnapshot\<close> of \<open>client.go\<close>). Sockets, names and the packets that come in are parameters.
\<close>

section \<open>ICMP\<close>

datatype icmp_mode = IcmpRaw | IcmpUDP | IcmpUnavailable

record icmp_env =
  ie_raw :: bool
  ie_udp :: bool
  ie_resolve :: "string \<Rightarrow> (string \<times> bool) option"
  ie_listen :: "string \<Rightarrow> bool"
  ie_send :: bool

definition icmp_probe :: "icmp_env \<Rightarrow> icmp_mode" where
  "icmp_probe env = (if ie_raw env then IcmpRaw else if ie_udp env then IcmpUDP else IcmpUnavailable)"

text \<open>What is kept between pings: the mode found by the first call, and the counter.\<close>

record icmp_state =
  ic_mode :: "icmp_mode option"
  ic_seq :: "32 word"

definition detectICMPMode :: "icmp_env \<Rightarrow> icmp_state \<Rightarrow> icmp_mode \<times> icmp_state" where
  "detectICMPMode env s =
     (case ic_mode s of
        Some m \<Rightarrow> (m, s)
      | None \<Rightarrow> (icmp_probe env, s\<lparr>ic_mode := Some (icmp_probe env)\<rparr>))"

definition icmpAvailable :: "icmp_env \<Rightarrow> icmp_state \<Rightarrow> bool \<times> icmp_state" where
  "icmpAvailable env s = (case detectICMPMode env s of (m, s1) \<Rightarrow> (m = IcmpRaw \<or> m = IcmpUDP, s1))"

definition icmp_network :: "icmp_mode \<Rightarrow> bool \<Rightarrow> string" where
  "icmp_network mode v6 =
     (if v6 then (if mode = IcmpUDP then ''udp6'' else ''ip6:ipv6-icmp'')
      else (if mode = IcmpUDP then ''udp4'' else ''ip4:icmp''))"

text \<open>A packet that came in, with the time since the request: not an ICMP message, a message that is no echo, or an echo
  with its sequence number, its data, and whether it is a reply of either version.\<close>

datatype packet = Garbled | OtherMessage | Echo nat string bool

definition ping_payload :: string where "ping_payload = ''mmw-agent-probe--''"

definition own_reply :: "nat \<Rightarrow> packet \<Rightarrow> bool" where
  "own_reply seq p = (case p of Echo n d rep \<Rightarrow> n = seq \<and> d = ping_payload \<and> rep | _ \<Rightarrow> False)"

text \<open>The list ends where the deadline is reached or reading fails.\<close>

fun await_reply :: "nat \<Rightarrow> (packet \<times> int) list \<Rightarrow> int option" where
  "await_reply seq [] = None"
| "await_reply seq ((p, t) # ps) = (if own_reply seq p then Some t else await_reply seq ps)"

definition next_seq :: "icmp_state \<Rightarrow> nat \<times> icmp_state" where
  "next_seq s = (unat ((ic_seq s + 1) AND 0xffff), s\<lparr>ic_seq := ic_seq s + 1\<rparr>)"

definition icmpPing :: "icmp_env \<Rightarrow> (nat \<Rightarrow> (packet \<times> int) list) \<Rightarrow> string \<Rightarrow> icmp_state \<Rightarrow> int option \<times> icmp_state" where
  "icmpPing env incoming host s =
     (case detectICMPMode env s of
        (mode, s1) \<Rightarrow>
          if mode = IcmpUnavailable then (None, s1)
          else
            (case ie_resolve env host of
               None \<Rightarrow> (None, s1)
             | Some (_, v6) \<Rightarrow>
                 if \<not> ie_listen env (icmp_network mode v6) then (None, s1)
                 else
                   (case next_seq s1 of
                      (seq, s2) \<Rightarrow> if \<not> ie_send env then (None, s2) else (await_reply seq (incoming seq), s2))))"

definition ICMPPing :: "icmp_env \<Rightarrow> (nat \<Rightarrow> (packet \<times> int) list) \<Rightarrow> string \<Rightarrow> icmp_state \<Rightarrow> int option \<times> icmp_state" where
  "ICMPPing = icmpPing"

definition ICMPAvailable :: "icmp_env \<Rightarrow> icmp_state \<Rightarrow> bool \<times> icmp_state" where
  "ICMPAvailable = icmpAvailable"

lemma await_own: "await_reply seq ps = Some t \<Longrightarrow> (Echo seq ping_payload True, t) \<in> set ps"
proof (induction ps)
  case (Cons p ps)
  obtain q u where p: "p = (q, u)" by fastforce
  show ?case
  proof (cases "own_reply seq q")
    case True
    then have "q = Echo seq ping_payload True" by (auto simp: own_reply_def split: packet.splits)
    with True Cons.prems p show ?thesis by simp
  qed (use Cons p in auto)
qed simp

lemma await_first:
  assumes "(Echo seq ping_payload True, t) \<in> set ps"
  shows "\<exists>u. await_reply seq ps = Some u"
  using assms by (induction ps) (auto simp: own_reply_def)

text \<open>The numbers of the pings: the \<open>n\<close>-th after the state \<open>s\<close>.\<close>

definition ping_number :: "icmp_state \<Rightarrow> nat \<Rightarrow> nat" where
  "ping_number s n = unat ((ic_seq s + of_nat n) AND 0xffff)"

lemma ping_number_mod: "ping_number s n = (unat (ic_seq s) + n) mod 65536"
proof -
  have "(ic_seq s + of_nat n) AND 0xffff = take_bit 16 (ic_seq s + of_nat n)"
    by (simp add: take_bit_eq_mask mask_eq_exp_minus_1)
  then have "ping_number s n = take_bit 16 (unat (ic_seq s + of_nat n))"
    by (simp add: ping_number_def unsigned_take_bit_eq)
  also have "\<dots> = take_bit 16 (take_bit 32 (unat (ic_seq s) + n))"
    by (simp add: unat_word_ariths unat_of_nat take_bit_eq_mod mod_simps)
  finally show ?thesis by (simp add: take_bit_eq_mod mod_mod_cancel)
qed

lemma next_seq_number: "next_seq s = (ping_number s 1, s\<lparr>ic_seq := ic_seq s + 1\<rparr>)"
  by (simp add: next_seq_def ping_number_def)

text \<open>A ping ends with success only on a reply with its own number, and of two pings fewer than 65536 apart neither takes the
  reply of the other, also when the 32-bit counter wraps in between.\<close>

theorem ping_takes_own_reply:
  assumes "icmpPing env incoming host s = (Some t, s')"
  shows "\<exists>mode s1. detectICMPMode env s = (mode, s1) \<and> mode \<noteq> IcmpUnavailable \<and>
    (Echo (ping_number s 1) ping_payload True, t) \<in> set (incoming (ping_number s 1)) \<and> ic_seq s' = ic_seq s + 1 \<and>
    (\<forall>k. 1 < k \<longrightarrow> k \<le> 65536 \<longrightarrow> \<not> own_reply (ping_number s k) (Echo (ping_number s 1) ping_payload True))"
proof -
  obtain mode s1 where d: "detectICMPMode env s = (mode, s1)" by fastforce
  then have q: "ic_seq s1 = ic_seq s" by (auto simp: detectICMPMode_def split: option.splits)
  then have n: "ping_number s1 1 = ping_number s 1" by (simp add: ping_number_def)
  have r: "mode \<noteq> IcmpUnavailable" "await_reply (ping_number s 1) (incoming (ping_number s 1)) = Some t" "ic_seq s' = ic_seq s + 1"
    using assms d q n by (auto simp: icmpPing_def next_seq_number split: if_splits option.splits)
  have ne: "ping_number s k \<noteq> ping_number s 1" if k: "1 < k" "k \<le> 65536" for k
  proof
    assume "ping_number s k = ping_number s 1"
    then have "(unat (ic_seq s) + 1 + (k - 1)) mod 65536 = (unat (ic_seq s) + 1) mod 65536"
      using k by (simp add: ping_number_mod)
    then have "65536 dvd (unat (ic_seq s) + 1 + (k - 1)) - (unat (ic_seq s) + 1)"
      by (subst (asm) mod_eq_dvd_iff_nat) simp_all
    then have "65536 dvd k - 1" by simp
    with k show False by (auto dest: dvd_imp_le)
  qed
  then have "\<not> own_reply (ping_number s k) (Echo (ping_number s 1) ping_payload True)" if "1 < k" "k \<le> 65536" for k
    using not_sym [OF ne [OF that]] by (simp add: own_reply_def)
  then show ?thesis using d r await_own [OF r(2)] by blast
qed

section \<open>A round\<close>

record latency_sample =
  ls_key :: string
  ls_success :: bool
  ls_latency :: int
  ls_at :: int

definition probePingMaxTargets :: nat where "probePingMaxTargets = 30"
definition probePingConcurrency :: nat where "probePingConcurrency = 10"

text \<open>\<open>dial\<close> is the time a TCP connection to an address takes, or a failure. Latencies are milliseconds.\<close>

definition pingOneTarget ::
  "icmp_env \<Rightarrow> (nat \<Rightarrow> (packet \<times> int) list) \<Rightarrow> (string \<Rightarrow> int option) \<Rightarrow> ping_target \<Rightarrow> icmp_state \<Rightarrow> latency_sample \<times> icmp_state" where
  "pingOneTarget env incoming dial t s =
     (let answered = (\<lambda>r. case r of
            None \<Rightarrow> \<lparr>ls_key = pt_key t, ls_success = False, ls_latency = 0, ls_at = 0\<rparr>
          | Some ms \<Rightarrow> \<lparr>ls_key = pt_key t, ls_success = True, ls_latency = ms, ls_at = 0\<rparr>);
          tcp = answered (dial (JoinHostPort (pt_host t) (itoa (if pt_port t \<le> 0 then 80 else pt_port t))))
      in if pt_type t = ''icmp'' then
           (case icmpAvailable env s of
              (True, s1) \<Rightarrow> (case icmpPing env incoming (pt_host t) s1 of (r, s2) \<Rightarrow> (answered r, s2))
            | (False, s1) \<Rightarrow> (tcp, s1))
         else (tcp, s))"

text \<open>The goroutines of a round: each waits for a place, pings, and records its sample in its own slot.\<close>

datatype task = Queued | Pinging | Recorded

datatype round_act = Enter nat | Record nat

fun round_step :: "(nat \<Rightarrow> latency_sample) \<Rightarrow> round_act \<Rightarrow> task list \<times> latency_sample option list \<Rightarrow>
    (task list \<times> latency_sample option list) option" where
  "round_step ans (Enter i) (ts, out) =
     (if i < length ts \<and> ts ! i = Queued \<and> count_list ts Pinging < probePingConcurrency
      then Some (ts[i := Pinging], out) else None)"
| "round_step ans (Record i) (ts, out) =
     (if i < length ts \<and> ts ! i = Pinging then Some (ts[i := Recorded], out[i := Some (ans i)]) else None)"

fun round_run :: "(nat \<Rightarrow> latency_sample) \<Rightarrow> round_act list \<Rightarrow> task list \<times> latency_sample option list \<Rightarrow>
    (task list \<times> latency_sample option list) option" where
  "round_run ans [] s = Some s"
| "round_run ans (a # as) s = (case round_step ans a s of None \<Rightarrow> None | Some t \<Rightarrow> round_run ans as t)"

definition probed_targets :: "'a list \<Rightarrow> 'a list" where
  "probed_targets ts = take probePingMaxTargets ts"

definition round_start :: "nat \<Rightarrow> task list \<times> latency_sample option list" where
  "round_start n = (replicate n Queued, replicate n None)"

definition round_over :: "task list \<times> latency_sample option list \<Rightarrow> bool" where
  "round_over s \<longleftrightarrow> list_all (\<lambda>t. t = Recorded) (fst s)"

text \<open>What \<open>probeRegions\<close> returns when its goroutines are done; one time for the whole round.\<close>

definition probeRegions :: "int \<Rightarrow> (ping_target \<Rightarrow> latency_sample) \<Rightarrow> ping_target list \<Rightarrow> round_act list \<Rightarrow> latency_sample list option" where
  "probeRegions now ping targets schedule =
     (let ts = probed_targets targets
      in (case round_run (\<lambda>i. (ping (ts ! i))\<lparr>ls_at := now\<rparr>) schedule (round_start (length ts)) of
            None \<Rightarrow> None
          | Some s \<Rightarrow> if round_over s then Some (List.map the (snd s)) else None))"

definition round_ok :: "(nat \<Rightarrow> latency_sample) \<Rightarrow> nat \<Rightarrow> task list \<times> latency_sample option list \<Rightarrow> bool" where
  "round_ok ans n s \<longleftrightarrow> length (fst s) = n \<and> length (snd s) = n \<and> count_list (fst s) Pinging \<le> probePingConcurrency \<and>
     (\<forall>i<n. snd s ! i = (if fst s ! i = Recorded then Some (ans i) else None))"

lemma count_list_update:
  "i < length xs \<Longrightarrow> count_list (xs[i := y]) z + (if xs ! i = z then 1 else 0) = count_list xs z + (if y = z then 1 else 0)"
proof (induction xs arbitrary: i)
  case (Cons x xs)
  show ?case
  proof (cases i)
    case (Suc j)
    with Cons.prems Cons.IH [of j] show ?thesis by (auto split: if_splits)
  qed simp
qed simp

lemma round_ok_step:
  assumes "round_ok ans n s" "round_step ans a s = Some t"
  shows "round_ok ans n t"
proof -
  obtain ts out where s: "s = (ts, out)" by fastforce
  show ?thesis
  proof (cases a)
    case (Enter i)
    with assms s count_list_update [of i ts Pinging Pinging] show ?thesis
      by (auto simp: round_ok_def nth_list_update split: if_splits)
  next
    case (Record i)
    with assms s count_list_update [of i ts Recorded Pinging] show ?thesis
      by (auto simp: round_ok_def nth_list_update split: if_splits)
  qed
qed

lemma round_ok_run: "round_ok ans n s \<Longrightarrow> round_run ans as s = Some t \<Longrightarrow> round_ok ans n t"
  by (induction as arbitrary: s) (auto split: option.splits dest: round_ok_step)

lemma round_ok_start: "round_ok ans n (round_start n)"
proof -
  have "count_list (replicate n Queued) Pinging = 0" by (induction n) simp_all
  then show ?thesis by (simp add: round_ok_def round_start_def)
qed

definition work_left :: "task list \<times> latency_sample option list \<Rightarrow> nat" where
  "work_left s = 2 * count_list (fst s) Queued + count_list (fst s) Pinging"

lemma work_step: "round_step ans a s = Some t \<Longrightarrow> work_left t < work_left s"
proof -
  assume step: "round_step ans a s = Some t"
  obtain ts out where s: "s = (ts, out)" by fastforce
  show ?thesis
  proof (cases a)
    case (Enter i)
    with step s count_list_update [of i ts Pinging Pinging] count_list_update [of i ts Pinging Queued] show ?thesis
      by (auto simp: work_left_def split: if_splits)
  next
    case (Record i)
    with step s count_list_update [of i ts Recorded Pinging] count_list_update [of i ts Recorded Queued] show ?thesis
      by (auto simp: work_left_def split: if_splits)
  qed
qed

lemma round_not_stuck:
  assumes "\<not> round_over s"
  shows "\<exists>a t. round_step ans a s = Some t"
proof -
  obtain ts out where s: "s = (ts, out)" by fastforce
  show ?thesis
  proof (cases "Pinging \<in> set ts")
    case True
    then obtain i where "i < length ts" "ts ! i = Pinging" by (auto simp: in_set_conv_nth)
    then show ?thesis using s by (intro exI [of _ "Record i"]) simp
  next
    case False
    with assms s obtain i where i: "i < length ts" "ts ! i \<noteq> Recorded" by (auto simp: round_over_def list_all_length)
    with False have "ts ! i = Queued" by (metis nth_mem task.exhaust)
    moreover have "count_list ts Pinging = 0" using False by (simp add: count_list_0_iff)
    ultimately show ?thesis using s i by (intro exI [of _ "Enter i"]) (simp add: probePingConcurrency_def)
  qed
qed

text \<open>A round of pings ends after at most two steps per target, whatever the order its goroutines run in, with never more than
  ten at a time; it never blocks before; and it returns one sample for each of the first thirty targets, in their order,
  all with the same time.\<close>

theorem ping_round_ends:
  fixes targets :: "ping_target list" and ping :: "ping_target \<Rightarrow> latency_sample" and now :: int
  defines "ts \<equiv> probed_targets targets" and "ans \<equiv> \<lambda>i. (ping (probed_targets targets ! i))\<lparr>ls_at := now\<rparr>"
  assumes "round_run ans schedule (round_start (length ts)) = Some s"
  shows "length schedule \<le> 2 * length ts \<and> length ts \<le> 30 \<and> count_list (fst s) Pinging \<le> 10 \<and>
    (if round_over s then probeRegions now ping targets schedule = Some (List.map (\<lambda>t. (ping t)\<lparr>ls_at := now\<rparr>) ts)
     else \<exists>a t. round_step ans a s = Some t)"
proof -
  have ok: "round_ok ans (length ts) s" by (rule round_ok_run [OF round_ok_start assms(3)])
  have w: "round_run ans as u = Some v \<Longrightarrow> length as + work_left v \<le> work_left u" for as u v
  proof (induction as arbitrary: u)
    case (Cons a as)
    then obtain x where "round_step ans a u = Some x" "round_run ans as x = Some v" by (auto split: option.splits)
    with work_step [of ans a u x] Cons.IH [of x] show ?case by simp
  qed simp
  have c: "count_list (replicate n Queued) Queued = n" "count_list (replicate n Queued) Pinging = 0" for n
    by (induction n) simp_all
  have "length schedule \<le> 2 * length ts" using w [OF assms(3)] c by (simp add: work_left_def round_start_def)
  moreover have "length ts \<le> 30" by (simp add: ts_def probed_targets_def probePingMaxTargets_def)
  moreover have "count_list (fst s) Pinging \<le> 10" using ok by (simp add: round_ok_def probePingConcurrency_def)
  moreover have "probeRegions now ping targets schedule = Some (List.map (\<lambda>t. (ping t)\<lparr>ls_at := now\<rparr>) ts)" if over: "round_over s"
  proof -
    have l: "length (snd s) = length ts" "\<forall>i<length ts. snd s ! i = Some (ans i)"
      using ok over by (auto simp: round_ok_def round_over_def list_all_length)
    then have "List.map the (snd s) = List.map (\<lambda>t. (ping t)\<lparr>ls_at := now\<rparr>) ts"
      by (intro nth_equalityI) (simp_all add: ans_def ts_def)
    then show ?thesis using assms(3) over by (simp add: probeRegions_def Let_def ans_def ts_def)
  qed
  ultimately show ?thesis using round_not_stuck [of s ans] by simp
qed

section \<open>From the loop to the reports\<close>

record ping_book =
  pb_latest :: "latency_sample list"
  pb_at :: int
  pb_sent :: int

definition new_book :: ping_book where "new_book = \<lparr>pb_latest = [], pb_at = 0, pb_sent = 0\<rparr>"

text \<open>A tick of the ping loop; \<open>samples\<close> is what \<open>probeRegions\<close> returns for the targets.\<close>

definition ping_tick :: "probe_config \<Rightarrow> latency_sample list \<Rightarrow> ping_book \<Rightarrow> ping_book" where
  "ping_tick p samples b =
     (if \<not> pc_ping p \<or> pc_targets p = [] then b
      else b\<lparr>pb_latest := samples, pb_at := (case samples of [] \<Rightarrow> pb_at b | x # _ \<Rightarrow> ls_at x)\<rparr>)"

text \<open>The period of the loop's ticker, in milliseconds, after a tick.\<close>

definition ping_period :: "probe_config \<Rightarrow> int \<Rightarrow> int" where
  "ping_period p old = (if 2000 \<le> pc_interval p then pc_interval p else old)"

definition probeLatestPingSnapshot :: "probe_config \<Rightarrow> ping_book \<Rightarrow> latency_sample list option \<times> ping_book" where
  "probeLatestPingSnapshot p b =
     (if \<not> pc_ping p \<or> pb_latest b = [] then (None, b)
      else if pb_sent b = pb_at b then (None, b)
      else (Some (pb_latest b), b\<lparr>pb_sent := pb_at b\<rparr>))"

text \<open>Ticks and reports as they come. The configuration may be another at each.\<close>

datatype probe_event = Round probe_config "latency_sample list" | Report probe_config

fun probe_run :: "probe_event list \<Rightarrow> ping_book \<Rightarrow> latency_sample list list" where
  "probe_run [] b = []"
| "probe_run (Round p xs # es) b = probe_run es (ping_tick p xs b)"
| "probe_run (Report p # es) b =
     (case probeLatestPingSnapshot p b of
        (None, b1) \<Rightarrow> probe_run es b1
      | (Some xs, b1) \<Rightarrow> xs # probe_run es b1)"

text \<open>The rounds that are made: not empty, all with one time, later than the rounds before.\<close>

fun rounds_after :: "int \<Rightarrow> probe_event list \<Rightarrow> bool" where
  "rounds_after t [] = True"
| "rounds_after t (Report p # es) = rounds_after t es"
| "rounds_after t (Round p xs # es) = (xs \<noteq> [] \<and> t < ls_at (hd xs) \<and> rounds_after (ls_at (hd xs)) es)"

definition rounds_of :: "probe_event list \<Rightarrow> latency_sample list list" where
  "rounds_of es = concat (List.map (\<lambda>e. case e of Round _ xs \<Rightarrow> [xs] | Report _ \<Rightarrow> []) es)"

definition round_time :: "latency_sample list \<Rightarrow> int" where "round_time xs = ls_at (hd xs)"

lemma rounds_after_mono: "rounds_after t es \<Longrightarrow> u \<le> t \<Longrightarrow> rounds_after u es"
  by (induction es arbitrary: t u rule: rounds_after.induct) auto

lemma probe_run_once:
  assumes "rounds_after t es" "pb_sent b \<le> pb_at b" "pb_at b \<le> t" "pb_latest b \<noteq> [] \<longrightarrow> pb_at b = round_time (pb_latest b)"
  shows "sorted_wrt (<) (pb_sent b # List.map round_time (probe_run es b)) \<and>
    set (probe_run es b) \<subseteq> set (rounds_of es) \<union> (if pb_sent b < pb_at b then {pb_latest b} else {})"
  using assms
proof (induction es arbitrary: t b)
  case Nil
  then show ?case by simp
next
  case (Cons e es)
  show ?case
  proof (cases e)
    case (Round p xs)
    have a: "xs \<noteq> []" "t < ls_at (hd xs)" "rounds_after (ls_at (hd xs)) es" using Cons.prems(1) Round by simp_all
    define c where "c = ping_tick p xs b"
    have c: "c = b \<or> c = b\<lparr>pb_latest := xs, pb_at := ls_at (hd xs)\<rparr>"
      using a(1) by (auto simp: c_def ping_tick_def split: list.splits)
    then have "pb_sent c \<le> pb_at c" "pb_at c \<le> ls_at (hd xs)" "pb_latest c \<noteq> [] \<longrightarrow> pb_at c = round_time (pb_latest c)" "pb_sent c = pb_sent b"
      using Cons.prems(2-4) a(2) by (auto simp: round_time_def)
    with Cons.IH [OF a(3), of c] c have "sorted_wrt (<) (pb_sent b # List.map round_time (probe_run es c))"
      "set (probe_run es c) \<subseteq> set (rounds_of es) \<union> (if pb_sent b < pb_at c then {pb_latest c} else {})" by simp_all
    moreover have "(if pb_sent b < pb_at c then {pb_latest c} else {}) \<subseteq> (if pb_sent b < pb_at b then {pb_latest b} else {}) \<union> {xs}"
      using c by auto
    ultimately show ?thesis using Round by (auto simp: c_def rounds_of_def)
  next
    case (Report p)
    have a: "rounds_after t es" using Cons.prems(1) Report by simp
    show ?thesis
    proof (cases "pc_ping p \<and> pb_latest b \<noteq> [] \<and> pb_sent b \<noteq> pb_at b")
      case False
      then have "probeLatestPingSnapshot p b = (None, b)" by (auto simp: probeLatestPingSnapshot_def)
      with Cons.IH [OF a Cons.prems(2-4)] Report show ?thesis by (simp add: rounds_of_def)
    next
      case True
      define c where "c = b\<lparr>pb_sent := pb_at b\<rparr>"
      have s: "probeLatestPingSnapshot p b = (Some (pb_latest b), c)" using True by (simp add: probeLatestPingSnapshot_def c_def)
      have "sorted_wrt (<) (pb_at b # List.map round_time (probe_run es c))" "set (probe_run es c) \<subseteq> set (rounds_of es)"
        using Cons.IH [OF a, of c] Cons.prems(3,4) by (simp_all add: c_def)
      moreover have "pb_sent b < pb_at b" "round_time (pb_latest b) = pb_at b" using True Cons.prems(2,4) by auto
      ultimately show ?thesis using Report s by (auto simp: rounds_of_def)
    qed
  qed
qed

text \<open>Every round of pings is reported at most once, in the order the rounds were made, each as it was made, whatever the order
  of rounds, reports and changes of the configuration.\<close>

theorem ping_rounds_reported_once:
  assumes "rounds_after 0 es"
  shows "set (probe_run es new_book) \<subseteq> set (rounds_of es) \<and> sorted_wrt (<) (List.map round_time (probe_run es new_book)) \<and>
    distinct (probe_run es new_book)"
proof -
  have r: "sorted_wrt (<) (List.map round_time (probe_run es new_book))" "set (probe_run es new_book) \<subseteq> set (rounds_of es)"
    using probe_run_once [OF assms, of new_book] by (simp_all add: new_book_def)
  then have "distinct (List.map round_time (probe_run es new_book))" using strict_sorted_iff by blast
  with r show ?thesis by (simp add: distinct_map)
qed

text \<open>A round counts as reported when it is taken, before the message is sent: when sending fails it is lost.\<close>

lemma round_lost_with_report:
  assumes "probeLatestPingSnapshot p b = (Some xs, b')"
  shows "probeLatestPingSnapshot p b' = (None, b')"
  using assms by (auto simp: probeLatestPingSnapshot_def split: if_splits)

text \<open>The latest round wins: one made between two reports replaces the one before, which is never reported.\<close>

lemma round_replaced:
  assumes "pc_ping p" "pc_targets p \<noteq> []" "ls_at a \<noteq> 0" "ls_at b \<noteq> 0"
  shows "probe_run [Round p [a], Round p [b], Report p] new_book = [[b]]"
  using assms by (simp add: ping_tick_def probeLatestPingSnapshot_def new_book_def)

section \<open>Witnesses\<close>

definition icmp_host :: icmp_env where
  "icmp_host = \<lparr>ie_raw = True, ie_udp = False, ie_resolve = (\<lambda>h. Some (''192.0.2.1'', False)), ie_listen = (\<lambda>n. True), ie_send = True\<rparr>"

definition some_packets :: "nat \<Rightarrow> (packet \<times> int) list" where
  "some_packets n = [(Garbled, 1), (Echo 7 ping_payload True, 2), (Echo n ping_payload False, 3), (Echo n ping_payload True, 12)]"

lemma ping_takes_own_reply_witness:
  "fst (icmpPing icmp_host some_packets ''h'' \<lparr>ic_mode = None, ic_seq = - 1\<rparr>) = Some 12 \<and>
   ping_number \<lparr>ic_mode = None, ic_seq = - 1\<rparr> 1 = 0 \<and>
   \<not> own_reply (ping_number \<lparr>ic_mode = None, ic_seq = - 1\<rparr> 2) (Echo 0 ping_payload True)"
proof -
  let ?s = "\<lparr>ic_mode = None, ic_seq = - 1\<rparr> :: icmp_state"
  have n: "ping_number ?s 1 = 0" by (simp add: ping_number_def)
  have r: "icmpPing icmp_host some_packets ''h'' ?s = (Some 12, \<lparr>ic_mode = Some IcmpRaw, ic_seq = 0\<rparr>)"
    by (simp add: icmpPing_def icmp_host_def detectICMPMode_def icmp_probe_def next_seq_def some_packets_def own_reply_def)
  from ping_takes_own_reply [OF r] have "\<not> own_reply (ping_number ?s 2) (Echo (ping_number ?s 1) ping_payload True)" by auto
  with n r show ?thesis by simp
qed

definition two_targets :: "ping_target list" where
  "two_targets = [\<lparr>pt_key = ''a'', pt_host = ''h'', pt_port = 0, pt_type = []\<rparr>, \<lparr>pt_key = ''b'', pt_host = ''i'', pt_port = 443, pt_type = []\<rparr>]"

lemma ping_round_ends_witness:
  "probeRegions 9 (\<lambda>t. \<lparr>ls_key = pt_key t, ls_success = True, ls_latency = 3, ls_at = 0\<rparr>) two_targets [Enter 1, Enter 0, Record 0, Record 1] =
     Some [\<lparr>ls_key = ''a'', ls_success = True, ls_latency = 3, ls_at = 9\<rparr>, \<lparr>ls_key = ''b'', ls_success = True, ls_latency = 3, ls_at = 9\<rparr>]"
proof -
  let ?ping = "\<lambda>t. \<lparr>ls_key = pt_key t, ls_success = True, ls_latency = 3, ls_at = 0\<rparr>"
  have p: "probed_targets two_targets = two_targets" by (simp add: probed_targets_def two_targets_def probePingMaxTargets_def)
  have "round_run (\<lambda>i. (?ping (probed_targets two_targets ! i))\<lparr>ls_at := 9\<rparr>) [Enter 1, Enter 0, Record 0, Record 1]
      (round_start (length (probed_targets two_targets))) = Some ([Recorded, Recorded],
        [Some ((?ping (two_targets ! 0))\<lparr>ls_at := 9\<rparr>), Some ((?ping (two_targets ! 1))\<lparr>ls_at := 9\<rparr>)])"
    by (simp add: p, simp add: two_targets_def round_start_def probePingConcurrency_def numeral_2_eq_2)
  from ping_round_ends [OF this] show ?thesis by (simp add: round_over_def p, simp add: two_targets_def)
qed

lemma ping_rounds_reported_once_witness:
  "distinct (probe_run [Round p [a\<lparr>ls_at := 5\<rparr>], Report p, Report p, Round p [a\<lparr>ls_at := 8\<rparr>], Report p] new_book)"
  using ping_rounds_reported_once [of "[Round p [a\<lparr>ls_at := 5\<rparr>], Report p, Report p, Round p [a\<lparr>ls_at := 8\<rparr>], Report p]"] by simp

end
