(* ===== verification/Config_Views.thy ===== *)
theory Config_Views
  imports Start_Xray Config_Files Speed_Monitor
begin

text \<open>
  The endpoints that show Xray's configuration and the ones that route a request by its method
  (\<open>internal/handler/management_handler.go\<close>): the lists of inbounds and outbounds, the routing, the scan, and the limiter's
  settings in the embedded mode. What Xray lists over gRPC is a parameter.
\<close>

section \<open>Routing by method\<close>

definition by_method :: "bool \<Rightarrow> string \<Rightarrow> (string \<times> ('s \<Rightarrow> reply \<times> 's)) list \<Rightarrow> 's \<Rightarrow> reply \<times> 's" where
  "by_method authenticated meth handlers s =
     (if \<not> authenticated then (writeError 401 ''Unauthorized'', s)
      else (case map_of handlers meth of None \<Rightarrow> (writeError 405 ''Method not allowed'', s) | Some h \<Rightarrow> h s))"

definition HandleXrayConfig :: "(world \<Rightarrow> reply \<times> world) \<Rightarrow> bool \<Rightarrow> string \<Rightarrow> world \<Rightarrow> reply \<times> world" where
  "HandleXrayConfig setter authenticated meth = by_method authenticated meth [(''GET'', getXrayConfig), (''POST'', setter)]"

definition HandleXrayConfigFiles ::
  "(string \<Rightarrow> bool) \<Rightarrow> (world \<Rightarrow> reply \<times> world) \<Rightarrow> bool \<Rightarrow> string \<Rightarrow> string \<Rightarrow> world \<Rightarrow> reply \<times> world" where
  "HandleXrayConfigFiles dirs saver authenticated meth file =
     by_method authenticated meth
       [(''GET'', if file \<noteq> [] then getXrayConfigFile file else listXrayConfigFiles dirs), (''PUT'', saver), (''POST'', saver)]"

definition HandleNginxConfig :: "(world \<Rightarrow> reply \<times> world) \<Rightarrow> (world \<Rightarrow> reply \<times> world) \<Rightarrow> bool \<Rightarrow> string \<Rightarrow> world \<Rightarrow> reply \<times> world" where
  "HandleNginxConfig getter setter authenticated meth = by_method authenticated meth [(''GET'', getter), (''POST'', setter)]"

text \<open>The four directories that are listed, each under its name; a directory that cannot be read is left out.\<close>

fun list_nginx_dirs :: "(string \<Rightarrow> bool) \<Rightarrow> (string \<times> string) list \<Rightarrow> world \<Rightarrow> obj \<times> world" where
  "list_nginx_dirs there [] w = ([], w)"
| "list_nginx_dirs there ((d, name) # ds) w =
     (if \<not> there d then list_nginx_dirs there ds w
      else
        (case sys_call w of
           (Some _, w1) \<Rightarrow> list_nginx_dirs there ds w1
         | (None, w1) \<Rightarrow>
             (case list_nginx_dirs there ds w1 of
                (m, w2) \<Rightarrow> ((name, JArr (List.map (\<lambda>n. JStr (path_join d n)) (sort (dir_files w1 d)))) # m, w2))))"

definition listNginxConfigFiles :: "(string \<Rightarrow> bool) \<Rightarrow> world \<Rightarrow> reply \<times> world" where
  "listNginxConfigFiles there w =
     (case list_nginx_dirs there (zip NginxConfigDirPaths [''main'', ''sites-available'', ''sites-enabled'', ''conf.d'']) w of
        (m, w1) \<Rightarrow> (writeOk [(''files'', JObj m)], w1))"

definition HandleNginxConfigFiles ::
  "(string \<Rightarrow> bool) \<Rightarrow> (world \<Rightarrow> reply \<times> world) \<Rightarrow> bool \<Rightarrow> string \<Rightarrow> string \<Rightarrow> world \<Rightarrow> reply \<times> world" where
  "HandleNginxConfigFiles there saver authenticated meth file =
     by_method authenticated meth
       [(''GET'', if file \<noteq> [] then getNginxConfigFile file else listNginxConfigFiles there), (''PUT'', saver), (''POST'', saver)]"

section \<open>The inbounds\<close>

definition readInboundsFromJSONFile :: "(string \<Rightarrow> obj option) \<Rightarrow> string \<Rightarrow> world \<Rightarrow> obj list \<times> world" where
  "readInboundsFromJSONFile dec path w =
     (case read_file path w of
        (Inl _, w1) \<Rightarrow> ([], w1)
      | (Inr content, w1) \<Rightarrow> (case dec content of None \<Rightarrow> ([], w1) | Some raw \<Rightarrow> (readInboundsFromJSON raw, w1)))"

fun read_fragments :: "(string \<Rightarrow> obj option) \<Rightarrow> string \<Rightarrow> string list \<Rightarrow> world \<Rightarrow> obj list \<times> world" where
  "read_fragments dec dir [] w = ([], w)"
| "read_fragments dec dir (n # ns) w =
     (if \<not> is_json_name n then read_fragments dec dir ns w
      else
        (case readInboundsFromJSONFile dec (path_join dir n) w of
           (xs, w1) \<Rightarrow> (case read_fragments dec dir ns w1 of (ys, w2) \<Rightarrow> (xs @ ys, w2))))"

definition getInboundsFromConfig :: "svc_env \<Rightarrow> svc \<Rightarrow> obj list \<times> svc" where
  "getInboundsFromConfig env st =
     (case findXrayConfigInfo env st of
        (paths, st1) \<Rightarrow>
          (case (if ConfigPath paths = [] then ([], st1)
                 else on_world (readInboundsFromJSONFile (obj_dec env) (ConfigPath paths)) st1) of
             (xs, st2) \<Rightarrow>
               if ConfDir paths = [] then (xs, st2)
               else
                 (case on_world sys_call st2 of
                    (Some _, st3) \<Rightarrow> (xs, st3)
                  | (None, st3) \<Rightarrow>
                      (case on_world (read_fragments (obj_dec env) (ConfDir paths) (sort (dir_files (disk st3) (ConfDir paths)))) st3 of
                         (ys, st4) \<Rightarrow> (xs @ ys, st4)))))"

definition view_env :: "svc_env \<Rightarrow> string \<Rightarrow> cfg_env" where
  "view_env env path =
     \<lparr>ce_dec = obj_dec env, ce_enc = se_enc env, ce_build_in = (\<lambda>_. True), ce_build_out = (\<lambda>_. True),
      ce_path = path, ce_confdir = [], ce_embedded = (se_mode env = ''embedded'')\<rparr>"

definition manage_findXrayAPIPort :: "svc_env \<Rightarrow> svc \<Rightarrow> int \<times> svc" where
  "manage_findXrayAPIPort env st =
     (case findXrayConfigPath env st of (path, st1) \<Rightarrow> on_world (findXrayAPIPort (view_env env path)) st1)"

text \<open>\<open>grpc\<close>: what Xray answers at a port, the tags of its inbounds, or nothing.\<close>

definition getInboundTagsFromGRPC :: "svc_env \<Rightarrow> (int \<Rightarrow> string list option) \<Rightarrow> svc \<Rightarrow> string list \<times> svc" where
  "getInboundTagsFromGRPC env grpc st =
     (case manage_findXrayAPIPort env st of
        (port, st1) \<Rightarrow>
          if port = 0 then ([], st1)
          else (case grpc port of None \<Rightarrow> ([], st1) | Some tags \<Rightarrow> (filter (\<lambda>t. t \<noteq> [] \<and> t \<noteq> ''api'') tags, st1)))"

definition listInbounds :: "svc_env \<Rightarrow> (int \<Rightarrow> string list option) \<Rightarrow> svc \<Rightarrow> reply \<times> svc" where
  "listInbounds env grpc st =
     (case getInboundsFromConfig env (promoteInboundTagsToConfig env st) of
        (ibs, st1) \<Rightarrow>
          (case getInboundTagsFromGRPC env grpc st1 of
             (tags, st2) \<Rightarrow> (writeOk [(''inbounds'', JArr (List.map JObj (mergeInbounds ibs tags)))], st2)))"

definition HandleInbounds :: "svc_env \<Rightarrow> (int \<Rightarrow> string list option) \<Rightarrow> (svc \<Rightarrow> reply \<times> svc) \<Rightarrow> bool \<Rightarrow> string \<Rightarrow> svc \<Rightarrow> reply \<times> svc" where
  "HandleInbounds env grpc manage authenticated meth =
     by_method authenticated meth [(''GET'', listInbounds env grpc), (''POST'', manage)]"

section \<open>The outbounds and the routing\<close>

text \<open>A field that is missing or has another shape is shown as null.\<close>

definition listOutbounds :: "svc_env \<Rightarrow> svc \<Rightarrow> reply \<times> svc" where
  "listOutbounds env st =
     (case findXrayConfigPath env st of
        (path, st1) \<Rightarrow>
          if path = [] then (writeError 404 ''Xray config not found'', st1)
          else
            (case on_world (read_file path) (on_file (promoteOutboundTagsInFile (obj_dec env) (se_enc env) path) st1) of
               (Inl _, st2) \<Rightarrow> (writeError 500 ''Failed to read config'', st2)
             | (Inr content, st2) \<Rightarrow>
                 (case obj_dec env content of
                    None \<Rightarrow> (writeError 500 ''Failed to parse config'', st2)
                  | Some config \<Rightarrow>
                      (writeOk [(''outbounds'', (case get_arr config ''outbounds'' of None \<Rightarrow> JNull | Some xs \<Rightarrow> JArr xs))], st2))))"

definition getRouting :: "svc_env \<Rightarrow> svc \<Rightarrow> reply \<times> svc" where
  "getRouting env st =
     (case findXrayConfigPath env st of
        (path, st1) \<Rightarrow>
          if path = [] then (writeError 404 ''Xray config not found'', st1)
          else
            (case on_world (read_file path) st1 of
               (Inl _, st2) \<Rightarrow> (writeError 500 ''Failed to read config'', st2)
             | (Inr content, st2) \<Rightarrow>
                 (case obj_dec env content of
                    None \<Rightarrow> (writeError 500 ''Failed to parse config'', st2)
                  | Some config \<Rightarrow>
                      (writeOk [(''routing'', (case get_obj config ''routing'' of None \<Rightarrow> JNull | Some m \<Rightarrow> JObj m))], st2))))"

definition HandleOutbounds :: "svc_env \<Rightarrow> (svc \<Rightarrow> reply \<times> svc) \<Rightarrow> bool \<Rightarrow> string \<Rightarrow> svc \<Rightarrow> reply \<times> svc" where
  "HandleOutbounds env manage authenticated meth = by_method authenticated meth [(''GET'', listOutbounds env), (''POST'', manage)]"

definition HandleRouting :: "svc_env \<Rightarrow> (svc \<Rightarrow> reply \<times> svc) \<Rightarrow> bool \<Rightarrow> string \<Rightarrow> svc \<Rightarrow> reply \<times> svc" where
  "HandleRouting env manage authenticated meth = by_method authenticated meth [(''GET'', getRouting env), (''POST'', manage)]"

section \<open>The scan\<close>

record scan_response =
  sn_running :: bool
  sn_installed :: bool
  sn_port :: int
  sn_path :: string
  sn_inbounds :: "obj list"
  sn_modified :: bool
  sn_sections :: "string list"

definition scan_inbounds :: "obj \<Rightarrow> obj list" where
  "scan_inbounds config =
     (case get_arr config ''inbounds'' of
        None \<Rightarrow> []
      | Some ibs \<Rightarrow> filter (\<lambda>m. get_str m ''tag'' \<noteq> ''api'') (List.map_filter as_obj ibs))"

definition scan_file :: "svc_env \<Rightarrow> string \<Rightarrow> svc \<Rightarrow> (int \<times> obj list) \<times> svc" where
  "scan_file env path st =
     (if path = [] then ((0, []), st)
      else
        (case manage_findXrayAPIPort env st of
           (port, st1) \<Rightarrow>
             (case on_world (read_file path) st1 of
                (Inl _, st2) \<Rightarrow> ((port, []), st2)
              | (Inr content, st2) \<Rightarrow>
                  (case obj_dec env content of None \<Rightarrow> ((port, []), st2) | Some config \<Rightarrow> ((port, scan_inbounds config), st2)))))"

definition HandleScan :: "svc_env \<Rightarrow> bool \<Rightarrow> bool \<Rightarrow> svc \<Rightarrow> (reply + scan_response) \<times> svc" where
  "HandleScan env post authenticated st =
     (if \<not> post then (Inl (writeError 405 ''Method not allowed''), st)
      else if \<not> authenticated then (Inl (writeError 401 ''Unauthorized''), st)
      else
        (case manage_EnsureXrayConfig env st of
           (res, st1) \<Rightarrow>
             (let st2 = (if er_modified res then snd (RestartXray env st1) else st1)
              in (case getXrayStatus env st2 of
                    ((installed, up), st3) \<Rightarrow>
                      (case findXrayConfigPath env st3 of
                         (path, st4) \<Rightarrow>
                           (case scan_file env path st4 of
                              ((port, ibs), st5) \<Rightarrow>
                                (Inr \<lparr>sn_running = up, sn_installed = installed, sn_port = port, sn_path = path, sn_inbounds = ibs,
                                    sn_modified = er_modified res, sn_sections = (if er_modified res then er_added res else [])\<rparr>, st5)))))))"

section \<open>The limiter\<close>

record limiter_req =
  lr_tag :: string
  lr_node :: "64 word"
  lr_users :: "user_info list"
  lr_rules :: "speed_rule list"

text \<open>The embedded instance's limiter and monitor, none in the external mode. They are pointers: the monitor is given the
  limiter as it is afterwards.\<close>

definition HandleLimiter ::
  "bool \<Rightarrow> bool \<Rightarrow> limiter_req option \<Rightarrow> (limiter option \<times> monitor option) option \<Rightarrow>
   reply \<times> (limiter option \<times> monitor option) option" where
  "HandleLimiter post authenticated req emb =
     (if \<not> post then (writeError 405 ''Method not allowed'', emb)
      else if \<not> authenticated then (writeError 401 ''Unauthorized'', emb)
      else
        (case emb of
           None \<Rightarrow> (writeError 400 ''Not in embedded mode'', emb)
         | Some (lmt, mon) \<Rightarrow>
             (case req of
                None \<Rightarrow> (writeError 400 ''Invalid request body'', emb)
              | Some q \<Rightarrow>
                  (case lmt of
                     None \<Rightarrow> (writeError 500 ''Limiter not available'', emb)
                   | Some l \<Rightarrow>
                       (let l1 = AddInboundLimiter l (lr_tag q) (lr_node q) (lr_users q);
                            mon1 = (if lr_rules q = [] then mon
                                    else map_option (\<lambda>m. SetLimiter l1 (UpdateRules (lr_rules q) m)) mon)
                        in (writeOk [], Some (Some l1, mon1)))))))"

section \<open>What is shown\<close>

lemma on_world_same: "f (disk st) = (r, disk st) \<Longrightarrow> on_world f st = (r, st)"
  by (cases st) (simp add: on_world_def)

lemma default_found:
  assumes "se_mode env = ''embedded''" "file_at (disk st) default_path \<noteq> None"
  shows "findXrayConfigPath env st = (default_path, st)"
    "findXrayConfigInfo env st = (\<lparr>ConfigPath = default_path, ConfDir = []\<rparr>, st)"
  using assms by (auto simp: findXrayConfigPath_def findXrayConfigInfo_def path_exists_def)

lemma default_nonempty [simp]: "default_path \<noteq> []" "default_path @ ''.backup'' \<noteq> default_path"
  by (simp_all add: default_path_def)

lemma port_at:
  assumes "se_mode env = ''embedded''" "tape (disk st) = []" "file_at (disk st) default_path = Some data" "obj_dec env data = Some c"
  shows "manage_findXrayAPIPort env st = (api_port_of c, st)"
proof -
  have "findXrayAPIPort (view_env env default_path) (disk st) = (api_port_of c, disk st)"
    using assms by (simp add: findXrayAPIPort_def view_env_def calm_read)
  with on_world_same show ?thesis using default_found(1) [OF assms(1)] assms(3) by (simp add: manage_findXrayAPIPort_def)
qed

lemma scan_file_at:
  assumes "se_mode env = ''embedded''" "tape (disk st) = []" "file_at (disk st) default_path = Some data" "obj_dec env data = Some c"
  shows "scan_file env default_path st = ((api_port_of c, scan_inbounds c), st)"
proof -
  have "on_world (read_file default_path) st = (Inr data, st)" using assms by (intro on_world_same) (simp add: calm_read)
  with port_at [OF assms] assms(4) show ?thesis by (simp add: scan_file_def)
qed

lemma scan_ensure:
  assumes m: "se_mode env = ''embedded''" and c: "tape (disk st) = []" and f: "file_at (disk st) default_path = Some data"
    and d: "obj_dec env data = Some c" and codec: "\<And>x. obj_dec env (se_enc env x) = Some x"
    and r: "manage_EnsureXrayConfig env st = (res, st1)"
  shows "er_modified res \<longleftrightarrow> snd (ensure_sections c) \<noteq> []" "er_added res = snd (ensure_sections c)"
    "tape (disk st1) = []" "sv_calls st1 = sv_calls st" "sv_emb st1 = sv_emb st"
    "\<exists>data1. file_at (disk st1) default_path = Some data1 \<and> obj_dec env data1 = Some (fst (ensure_sections c))"
    "snd (ensure_sections c) = [] \<Longrightarrow> st1 = st"
proof -
  let ?e = "\<lparr>ce_dec = obj_dec env, ce_enc = se_enc env, ce_build_in = (\<lambda>_. True), ce_build_out = (\<lambda>_. True),
             ce_path = default_path, ce_confdir = [], ce_embedded = (se_mode env = ''embedded'')\<rparr>"
  obtain c' added where e: "ensure_sections c = (c', added)" by fastforce
  have o: "on_world (EnsureXrayConfig ?e) st = (res, st1)"
    using r default_found(1) [OF m, of st] f by (simp add: manage_EnsureXrayConfig_def)
  note sel = on_world_sel [OF o]
  have x: "EnsureXrayConfig ?e (disk st) =
    (\<lparr>er_path = default_path, er_modified = (added \<noteq> []), er_added = added, er_error = []\<rparr>,
     if added = [] then disk st else put_file default_path (se_enc env c') (put_file (default_path @ ''.backup'') data (disk st)))"
    using c f d e by (simp add: EnsureXrayConfig_def calm_read calm_calls Let_def)
  show "er_modified res \<longleftrightarrow> snd (ensure_sections c) \<noteq> []" "er_added res = snd (ensure_sections c)"
    "tape (disk st1) = []" "sv_calls st1 = sv_calls st" "sv_emb st1 = sv_emb st" using sel x e c by simp_all
  show "\<exists>data1. file_at (disk st1) default_path = Some data1 \<and> obj_dec env data1 = Some (fst (ensure_sections c))"
    using sel(3) x e f d codec ensure_unnoted [of c] by (cases "added = []") simp_all
  show "st1 = st" if "snd (ensure_sections c) = []"
    using on_world_same [of "EnsureXrayConfig ?e" st] o x e that by simp
qed

lemma scan_run:
  assumes m: "se_mode env = ''embedded''" and c: "tape (disk st) = []" and f: "file_at (disk st) default_path = Some data"
    and d: "obj_dec env data = Some c" and codec: "\<And>x. obj_dec env (se_enc env x) = Some x"
    and r: "HandleScan env True True st = (Inr r, st')"
  shows "r = \<lparr>sn_running = IsRunning st', sn_installed = True, sn_port = api_port_of (fst (ensure_sections c)), sn_path = default_path,
      sn_inbounds = scan_inbounds (fst (ensure_sections c)), sn_modified = (snd (ensure_sections c) \<noteq> []),
      sn_sections = snd (ensure_sections c)\<rparr>"
    "tape (disk st') = []" "\<exists>data1. file_at (disk st') default_path = Some data1 \<and> obj_dec env data1 = Some (fst (ensure_sections c))"
    "snd (ensure_sections c) = [] \<Longrightarrow> st' = st"
proof -
  obtain res st1 where 1: "manage_EnsureXrayConfig env st = (res, st1)" by fastforce
  note e = scan_ensure [OF m c f d codec 1]
  define st2 where "st2 = (if er_modified res then snd (RestartXray env st1) else st1)"
  have 2: "tape (disk st2) = []" "files (disk st2) = files (disk st1)"
  proof -
    obtain ok st3 where 3: "RestartXray env st1 = (ok, st3)" by fastforce
    have "restarted env st1 ok st3"
      using 3 m restart_embedded [of env _ st1 ok st3] lazy_start [of env st1 ok st3]
      by (auto simp: RestartXray_def split: option.splits)
    then show "tape (disk st2) = []" "files (disk st2) = files (disk st1)"
      using 3 e(3) by (auto simp: st2_def restarted_def)
  qed
  obtain data1 where f2: "file_at (disk st2) default_path = Some data1" "obj_dec env data1 = Some (fst (ensure_sections c))"
    using e(6) 2(2) by (auto simp: file_at_def)
  have s: "getXrayStatus env st2 = ((True, IsRunning st2), st2)" using m by (simp add: getXrayStatus_def)
  have p: "findXrayConfigPath env st2 = (default_path, st2)" using default_found(1) [OF m] f2 by simp
  define seen where "seen = \<lparr>sn_running = IsRunning st2, sn_installed = True,
      sn_port = api_port_of (fst (ensure_sections c)), sn_path = default_path, sn_inbounds = scan_inbounds (fst (ensure_sections c)),
      sn_modified = er_modified res, sn_sections = (if er_modified res then er_added res else [])\<rparr>"
  have "HandleScan env True True st = (Inr seen, st2)"
    unfolding HandleScan_def 1 prod.case Let_def st2_def [symmetric] s p scan_file_at [OF m 2(1) f2] seen_def by simp
  with r have st': "st' = st2" and rr: "r = seen" by simp_all
  show "st' = st" if "snd (ensure_sections c) = []" using e(1,7) that st' by (simp add: st2_def)
  show "tape (disk st') = []" "\<exists>data1. file_at (disk st') default_path = Some data1 \<and> obj_dec env data1 = Some (fst (ensure_sections c))"
    using 2(1) f2 st' by simp_all
  show "r = \<lparr>sn_running = IsRunning st', sn_installed = True, sn_port = api_port_of (fst (ensure_sections c)), sn_path = default_path,
      sn_inbounds = scan_inbounds (fst (ensure_sections c)), sn_modified = (snd (ensure_sections c) \<noteq> []),
      sn_sections = snd (ensure_sections c)\<rparr>"
    using e(1,2) by (cases "snd (ensure_sections c) = []") (simp_all add: rr seen_def st')
qed

lemma ensure_idle:
  assumes "hasAPIRoutingRule c \<longrightarrow> (\<exists>r\<in>set (rules_of c). targets_api r \<and> \<not> deprecated_rule r)"
  shows "ensure_sections (fst (ensure_sections c)) = (fst (ensure_sections c), [])"
proof -
  have "\<exists>r\<in>set (rules_of (repaired c)). targets_api r \<and> \<not> deprecated_rule r"
    using assms by (auto simp: repaired_lists targets_api_def api_rule_def deprecated_rule_def)
  then have "complete_config (fst (ensure_sections c))" unfolding ensure_fst by (rule swept_complete [OF repaired_ok])
  then show ?thesis by (rule ensure_quiet)
qed

text \<open>A scan of an embedded agent completes the configuration once: a second scan finds nothing to add, does not touch Xray,
  the files or anything else, and shows the same inbounds, none of them the agent's own.\<close>

theorem scan_settles:
  assumes m: "se_mode env = ''embedded''" and c: "tape (disk st) = []" and f: "file_at (disk st) default_path = Some data"
    and d: "obj_dec env data = Some c" and codec: "\<And>x. obj_dec env (se_enc env x) = Some x"
    and api: "hasAPIRoutingRule c \<longrightarrow> (\<exists>r\<in>set (rules_of c). targets_api r \<and> \<not> deprecated_rule r)"
    and r: "HandleScan env True True st = (Inr r, st')"
  shows "(sn_modified r \<longleftrightarrow> snd (ensure_sections c) \<noteq> []) \<and> (\<forall>m\<in>set (sn_inbounds r). get_str m ''tag'' \<noteq> ''api'') \<and>
    HandleScan env True True st' = (Inr (r\<lparr>sn_modified := False, sn_sections := []\<rparr>), st')"
proof -
  note 1 = scan_run [OF m c f d codec r]
  obtain data1 where f1: "file_at (disk st') default_path = Some data1" "obj_dec env data1 = Some (fst (ensure_sections c))"
    using 1(3) by blast
  note idle = ensure_idle [OF api]
  obtain x st2 where x: "HandleScan env True True st' = (x, st2)" by fastforce
  then obtain r' where r': "x = Inr r'" by (auto simp: HandleScan_def Let_def split: prod.splits)
  note s = scan_run [OF m 1(2) f1 codec x [unfolded r'], unfolded idle fst_conv snd_conv]
  have st2: "st2 = st'" by (rule s(4)) simp
  have "r' = r\<lparr>sn_modified := False, sn_sections := []\<rparr>" using s(1) 1(1) st2 by simp
  then have "HandleScan env True True st' = (Inr (r\<lparr>sn_modified := False, sn_sections := []\<rparr>), st')" using x r' st2 by simp
  moreover have "sn_modified r \<longleftrightarrow> snd (ensure_sections c) \<noteq> []" "sn_inbounds r = scan_inbounds (fst (ensure_sections c))"
    by (simp_all add: 1(1))
  ultimately show ?thesis by (auto simp: scan_inbounds_def split: option.splits)
qed

definition view_demo :: "obj \<Rightarrow> svc" where
  "view_demo c = (demo_svc [] [])\<lparr>sv_sys := (demo_files [(default_path, unary_enc c)], [])\<rparr>"

lemma scan_settles_witness:
  "HandleScan (up_svc start_demo_env) True True (snd (HandleScan (up_svc start_demo_env) True True (view_demo bare_config))) =
     (case fst (HandleScan (up_svc start_demo_env) True True (view_demo bare_config)) of
        Inl e \<Rightarrow> (Inl e, snd (HandleScan (up_svc start_demo_env) True True (view_demo bare_config)))
      | Inr r \<Rightarrow> (Inr (r\<lparr>sn_modified := False, sn_sections := []\<rparr>), snd (HandleScan (up_svc start_demo_env) True True (view_demo bare_config))))"
proof -
  have m: "se_mode (up_svc start_demo_env) = ''embedded''" by (simp add: start_demo_env_def demo_svc_env_def)
  have f: "tape (disk (view_demo bare_config)) = []" "file_at (disk (view_demo bare_config)) default_path = Some (unary_enc bare_config)"
    by (simp_all add: view_demo_def demo_svc_def demo_files_def file_at_def)
  have d: "obj_dec (up_svc start_demo_env) (unary_enc bare_config) = Some bare_config"
    using start_demo_codec [of bare_config] by (simp add: start_demo_env_def)
  have a: "hasAPIRoutingRule bare_config \<longrightarrow> (\<exists>r\<in>set (rules_of bare_config). targets_api r \<and> \<not> deprecated_rule r)"
    by (simp add: bare_config_def hasAPIRoutingRule_def targets_api_def)
  obtain x st' where x: "HandleScan (up_svc start_demo_env) True True (view_demo bare_config) = (x, st')" by fastforce
  then obtain r where r: "x = Inr r" by (auto simp: HandleScan_def Let_def split: prod.splits)
  from scan_settles [OF m f d start_demo_codec a x [unfolded r]] show ?thesis by (simp add: x r)
qed

text \<open>The name an inbound has once missing tags were filled in.\<close>

definition inbound_name :: "obj \<Rightarrow> string" where
  "inbound_name m =
     (if get_str m ''tag'' \<noteq> [] then get_str m ''tag'' else generated_tag (get_str m ''protocol'') (get_int m ''port''))"

definition nameable :: "obj \<Rightarrow> bool" where
  "nameable m \<longleftrightarrow> get_str m ''tag'' \<noteq> [] \<or> get_str m ''protocol'' \<noteq> [] \<and> 0 < get_int m ''port''"

definition named :: "obj \<Rightarrow> obj" where
  "named m = fst (promoteOneInboundTag m)"

lemma named_tag: "nameable m \<Longrightarrow> map_of (named m) ''tag'' = Some (JStr (inbound_name m)) \<and> inbound_name m \<noteq> []"
  by (auto simp: named_def promoteOneInboundTag_def nameable_def inbound_name_def generated_tag_def get_str_def Let_def
      split: option.splits json.splits)

lemma merge_names:
  assumes "\<forall>m\<in>set ms. map_of m ''tag'' = Some (JStr (nm m)) \<and> nm m \<noteq> []"
  shows "List.map (\<lambda>e. get_str e ''tag'') (mergeInbounds ms up) =
      filter (\<lambda>t. t \<noteq> ''api'') (List.map nm ms) @ filter (\<lambda>t. t \<notin> set (List.map nm ms)) up"
    and "\<forall>e\<in>set (mergeInbounds ms up). map_of e ''_runtime_status'' =
      Some (JStr (if get_str e ''tag'' \<in> set up then ''running'' else ''not_running''))"
proof -
  have t: "List.map_filter (\<lambda>ib. Option.bind (map_of ib ''tag'') as_str) ms = List.map nm ms"
    using assms by (induction ms) (simp_all add: List.map_filter_simps)
  have g: "get_str m ''tag'' = nm m" if "m \<in> set ms" for m using assms that by (simp add: get_str_def)
  have l: "list_config_inbound up m = (if nm m = ''api'' then None else Some (jset ''_source'' (JStr ''config'')
      (jset ''_runtime_status'' (JStr (if nm m \<in> set up then ''running'' else ''not_running'')) m)))" if "m \<in> set ms" for m
    using assms g [OF that] that by (simp add: list_config_inbound_def Let_def)
  have a: "List.map (\<lambda>e. get_str e ''tag'') (List.map_filter (list_config_inbound up) xs) = filter (\<lambda>t. t \<noteq> ''api'') (List.map nm xs)"
    if "set xs \<subseteq> set ms" for xs
    using that by (induction xs) (simp_all add: List.map_filter_simps l g get_str_jset)
  show "List.map (\<lambda>e. get_str e ''tag'') (mergeInbounds ms up) =
      filter (\<lambda>t. t \<noteq> ''api'') (List.map nm ms) @ filter (\<lambda>t. t \<notin> set (List.map nm ms)) up"
    using a [of ms] by (simp add: mergeInbounds_def Let_def t comp_def runtime_only_inbound_def get_str_def)
  show "\<forall>e\<in>set (mergeInbounds ms up). map_of e ''_runtime_status'' =
      Some (JStr (if get_str e ''tag'' \<in> set up then ''running'' else ''not_running''))"
  proof
    fix e assume "e \<in> set (mergeInbounds ms up)"
    then consider m where "m \<in> set ms" "list_config_inbound up m = Some e" | x where "x \<in> set up" "e = runtime_only_inbound x"
      by (auto simp: mergeInbounds_def Let_def List.map_filter_def)
    then show "map_of e ''_runtime_status'' =
      Some (JStr (if get_str e ''tag'' \<in> set up then ''running'' else ''not_running''))"
    proof cases
      case 1
      then show ?thesis using l [OF 1(1)] g [OF 1(1)] by (auto split: if_splits)
    next
      case 2
      then show ?thesis by (simp add: runtime_only_inbound_def get_str_def)
    qed
  qed
qed

lemma promote_all:
  assumes "get_arr c ''inbounds'' = Some (List.map JObj ms)"
  shows "get_arr (fst (promote_inbounds c)) ''inbounds'' = Some (List.map JObj (List.map named ms))"
    and "readInboundsFromJSON (fst (promote_inbounds c)) = List.map named ms"
    and "\<forall>m\<in>set ms. get_str m ''tag'' \<noteq> [] \<Longrightarrow> \<not> snd (promote_inbounds c)"
proof -
  have n: "fst (promote_item (JObj m)) = JObj (named m)" for m
    by (simp add: promote_item_def named_def case_prod_beta)
  have q: "named m = m" if "\<not> snd (promote_item (JObj m))" for m
    using that by (auto simp: promote_item_def named_def promoteOneInboundTag_def Let_def split: if_splits)
  show 1: "get_arr (fst (promote_inbounds c)) ''inbounds'' = Some (List.map JObj (List.map named ms))"
  proof (cases "list_ex (snd \<circ> promote_item) (List.map JObj ms)")
    case True
    with assms n show ?thesis by (simp add: promote_inbounds_def Let_def comp_def)
  next
    case False
    then have "\<forall>x\<in>set ms. named x = x" by (auto simp: list_ex_iff intro: q)
    then have "List.map named ms = ms" by (intro map_idI) blast
    with False assms show ?thesis by (simp add: promote_inbounds_def Let_def)
  qed
  have "List.map_filter as_obj (List.map JObj xs) = xs" for xs
    by (induction xs) (simp_all add: List.map_filter_simps)
  with 1 show "readInboundsFromJSON (fst (promote_inbounds c)) = List.map named ms"
    unfolding readInboundsFromJSON_def 1 option.case by blast
  show "\<not> snd (promote_inbounds c)" if "\<forall>m\<in>set ms. get_str m ''tag'' \<noteq> []"
    using that assms by (auto simp: promote_inbounds_def promote_item_def promoteOneInboundTag_def list_ex_iff Let_def)
qed

lemma on_file_put: "on_file f st = st\<lparr>sv_sys := (f (disk st), snd (sv_sys st))\<rparr>"
  by (simp add: on_file_def on_world_def)

lemma promoted_state:
  assumes m: "se_mode env = ''embedded''" and c: "tape (disk st) = []" and f: "file_at (disk st) default_path = Some data"
    and d: "obj_dec env data = Some c" and codec: "\<And>x. obj_dec env (se_enc env x) = Some x"
  shows "tape (disk (promoteInboundTagsToConfig env st)) = []"
    "\<exists>data1. file_at (disk (promoteInboundTagsToConfig env st)) default_path = Some data1 \<and>
       obj_dec env data1 = Some (fst (promote_inbounds c))"
    "\<not> snd (promote_inbounds c) \<Longrightarrow> promoteInboundTagsToConfig env st = st"
proof -
  have p: "promoteInboundTagsToConfig env st = on_file (promoteInboundTagsInFile (obj_dec env) (se_enc env) default_path) st"
    using default_found(2) [OF m, of st] f by (simp add: promoteInboundTagsToConfig_def)
  obtain c' ch where e: "promote_inbounds c = (c', ch)" by fastforce
  have w: "promoteInboundTagsInFile (obj_dec env) (se_enc env) default_path (disk st) =
      (if ch then put_file default_path (se_enc env c') (disk st) else disk st)"
    using c f d e by (simp add: promoteInboundTagsInFile_def calm_read calm_calls)
  have u: "\<not> ch \<Longrightarrow> c' = c" using e by (auto simp: promote_inbounds_def promoteOneInboundTag_def Let_def split: option.splits json.splits if_splits)
  show "tape (disk (promoteInboundTagsToConfig env st)) = []"
    "\<exists>data1. file_at (disk (promoteInboundTagsToConfig env st)) default_path = Some data1 \<and>
       obj_dec env data1 = Some (fst (promote_inbounds c))"
    using c f d codec u e w by (auto simp: p)
  show "promoteInboundTagsToConfig env st = st" if "\<not> snd (promote_inbounds c)"
    using that e w by (simp add: p on_file_put)
qed

text \<open>The list of inbounds the master sees has every inbound of the configuration, in order and under the name it has or was
  given, but for the agent's own, then the inbounds that only run; each is shown as running exactly when Xray lists it.
  Listing writes nothing when no tag is missing.\<close>

theorem inbound_listing_exact:
  fixes grpc :: "int \<Rightarrow> string list option"
  assumes m: "se_mode env = ''embedded''" and c: "tape (disk st) = []" and f: "file_at (disk st) default_path = Some data"
    and d: "obj_dec env data = Some conf" and codec: "\<And>x. obj_dec env (se_enc env x) = Some x"
    and arr: "get_arr conf ''inbounds'' = Some (List.map JObj ms)" and ok: "\<forall>x\<in>set ms. nameable x"
  defines "port \<equiv> api_port_of (fst (promote_inbounds conf))"
  defines "up \<equiv> (if port = 0 then [] else case grpc port of None \<Rightarrow> [] | Some ts \<Rightarrow> filter (\<lambda>t. t \<noteq> [] \<and> t \<noteq> ''api'') ts)"
    and "names \<equiv> List.map inbound_name ms"
  shows "\<exists>shown. fst (listInbounds env grpc st) = writeOk [(''inbounds'', JArr (List.map JObj shown))] \<and>
    List.map (\<lambda>e. get_str e ''tag'') shown = filter (\<lambda>t. t \<noteq> ''api'') names @ filter (\<lambda>t. t \<notin> set names) up \<and>
    (\<forall>e\<in>set shown. map_of e ''_runtime_status'' = Some (JStr (if get_str e ''tag'' \<in> set up then ''running'' else ''not_running''))) \<and>
    ((\<forall>x\<in>set ms. get_str x ''tag'' \<noteq> []) \<longrightarrow> snd (listInbounds env grpc st) = st)"
proof -
  define st1 where "st1 = promoteInboundTagsToConfig env st"
  note s = promoted_state [OF m c f d codec, folded st1_def]
  obtain data1 where f1: "file_at (disk st1) default_path = Some data1" "obj_dec env data1 = Some (fst (promote_inbounds conf))"
    using s(2) by blast
  have r: "on_world (readInboundsFromJSONFile (obj_dec env) default_path) st1 = (List.map named ms, st1)"
    using f1 s(1) promote_all(2) [OF arr] by (intro on_world_same) (simp add: readInboundsFromJSONFile_def calm_read)
  have g: "getInboundsFromConfig env st1 = (List.map named ms, st1)"
    using default_found(2) [OF m, of st1] f1 r by (simp add: getInboundsFromConfig_def)
  have t: "getInboundTagsFromGRPC env grpc st1 = (up, st1)"
    using port_at [OF m s(1) f1] by (auto simp: getInboundTagsFromGRPC_def up_def port_def split: option.splits)
  have l: "listInbounds env grpc st = (writeOk [(''inbounds'', JArr (List.map JObj (mergeInbounds (List.map named ms) up)))], st1)"
    by (simp add: listInbounds_def st1_def [symmetric] g t)
  have nm: "\<forall>x\<in>set (List.map named ms). map_of x ''tag'' = Some (JStr (get_str x ''tag'')) \<and> get_str x ''tag'' \<noteq> []"
    using ok named_tag by (auto simp: get_str_def)
  have nn: "List.map (\<lambda>x. get_str x ''tag'') (List.map named ms) = names"
    using ok named_tag by (simp add: names_def get_str_def)
  note mn = merge_names [OF nm, of up, unfolded nn]
  have "snd (listInbounds env grpc st) = st" if "\<forall>x\<in>set ms. get_str x ''tag'' \<noteq> []"
    using promote_all(3) [OF arr that] s(3) l by simp
  with l mn show ?thesis by (intro exI [of _ "mergeInbounds (List.map named ms) up"]) simp
qed

definition two_inbounds :: obj where
  "two_inbounds = [(''inbounds'', JArr [JObj [(''tag'', JStr ''api''), (''port'', JNum 46736 0)],
     JObj [(''protocol'', JStr ''vless''), (''port'', JNum 443 0)]])]"

lemma inbound_listing_exact_witness:
  "\<exists>shown. fst (listInbounds (up_svc start_demo_env) (\<lambda>p. Some [''api'', ''lost'']) (view_demo two_inbounds)) =
     writeOk [(''inbounds'', JArr (List.map JObj shown))] \<and> List.map (\<lambda>e. get_str e ''tag'') shown = [''vless-443'', ''lost'']"
proof -
  have m: "se_mode (up_svc start_demo_env) = ''embedded''" by (simp add: start_demo_env_def demo_svc_env_def)
  have f: "tape (disk (view_demo two_inbounds)) = []" "file_at (disk (view_demo two_inbounds)) default_path = Some (unary_enc two_inbounds)"
    by (simp_all add: view_demo_def demo_svc_def demo_files_def file_at_def)
  have d: "obj_dec (up_svc start_demo_env) (unary_enc two_inbounds) = Some two_inbounds"
    using start_demo_codec [of two_inbounds] by (simp add: start_demo_env_def)
  have a: "get_arr two_inbounds ''inbounds'' = Some (List.map JObj [[(''tag'', JStr ''api''), (''port'', JNum 46736 0)],
     [(''protocol'', JStr ''vless''), (''port'', JNum 443 0)]])" by (simp add: two_inbounds_def get_arr_def)
  have n: "\<forall>x\<in>set [[(''tag'', JStr ''api''), (''port'', JNum 46736 0)], [(''protocol'', JStr ''vless''), (''port'', JNum 443 0)]]. nameable x"
    by (simp add: nameable_def get_str_def get_int_def)
  have p: "api_port_of (fst (promote_inbounds two_inbounds)) = 46736" by code_simp
  have i: "List.map inbound_name [[(''tag'', JStr ''api''), (''port'', JNum 46736 0)], [(''protocol'', JStr ''vless''), (''port'', JNum 443 0)]] =
    [''api'', ''vless-443'']" by code_simp
  from inbound_listing_exact [OF m f d start_demo_codec a n, of "\<lambda>p. Some [''api'', ''lost'']", unfolded p i] show ?thesis by auto
qed

section \<open>What the master may set and see\<close>

text \<open>A request with a method no handler takes, or without authentication, changes nothing.\<close>

lemma by_method_refused:
  assumes "\<not> authenticated \<or> map_of hs meth = None"
  shows "\<exists>code. by_method authenticated meth hs s = (writeError code (if authenticated then ''Method not allowed'' else ''Unauthorized''), s)"
  using assms by (auto simp: by_method_def)

text \<open>Only a request with a limiter in the embedded mode has an effect, and then on that inbound's settings.\<close>

lemma limiter_refused:
  "fst (HandleLimiter post authenticated req emb) \<noteq> writeOk [] \<Longrightarrow> snd (HandleLimiter post authenticated req emb) = emb"
  by (auto simp: HandleLimiter_def Let_def split: option.splits)

text \<open>Unlike the message of the WebSocket, this endpoint gives the monitor its limiter only together with rules.\<close>

lemma limiter_without_rules:
  assumes "lr_rules q = []"
  shows "snd (HandleLimiter True True (Some q) (Some (Some l, mon))) =
    Some (Some (AddInboundLimiter l (lr_tag q) (lr_node q) (lr_users q)), mon)"
  using assms by (simp add: HandleLimiter_def Let_def)

end
