(* ===== verification/Host_Views.thy ===== *)
theory Host_Views
  imports Xray_Service Auth Traffic Config_Files
begin

unbundle bit_operations_syntax

text \<open>
  What the agent tells about its host (\<open>internal/handler/management_handler.go\<close>, \<open>nginx_websites.go\<close>,
  \<open>pull_api_handler.go\<close>, \<open>internal/util/netifaces.go\<close>): the addresses a connection can be bound to, the owner of a port, the
  state of nginx and Xray, the reason of a failure, the system, the sites of nginx, and the checks of a site and of a
  master's address. The outputs of commands and the answers of the network are parameters; an address is the list of
  its bytes.
\<close>

section \<open>Addresses\<close>

definition To4 :: "bytes \<Rightarrow> bytes option" where
  "To4 ip =
     (if length ip = 4 then Some ip
      else if length ip = 16 \<and> take 10 ip = replicate 10 0 \<and> ip ! 10 = 0xff \<and> ip ! 11 = 0xff then Some (drop 12 ip)
      else None)"

definition IsLoopback :: "bytes \<Rightarrow> bool" where
  "IsLoopback ip = (case To4 ip of Some a \<Rightarrow> a ! 0 = 127 | None \<Rightarrow> ip = replicate 15 0 @ [1])"

definition IsUnspecified :: "bytes \<Rightarrow> bool" where
  "IsUnspecified ip = (case To4 ip of Some a \<Rightarrow> a = replicate 4 0 | None \<Rightarrow> ip = replicate 16 0)"

definition IsLinkLocalUnicast :: "bytes \<Rightarrow> bool" where
  "IsLinkLocalUnicast ip =
     (case To4 ip of
        Some a \<Rightarrow> a ! 0 = 169 \<and> a ! 1 = 254
      | None \<Rightarrow> length ip = 16 \<and> ip ! 0 = 0xfe \<and> ip ! 1 AND 0xc0 = 0x80)"

definition IsLinkLocalMulticast :: "bytes \<Rightarrow> bool" where
  "IsLinkLocalMulticast ip =
     (case To4 ip of
        Some a \<Rightarrow> a ! 0 = 224 \<and> a ! 1 = 0 \<and> a ! 2 = 0
      | None \<Rightarrow> length ip = 16 \<and> ip ! 0 = 0xff \<and> ip ! 1 AND 0x0f = 0x02)"

definition IsPrivate :: "bytes \<Rightarrow> bool" where
  "IsPrivate ip =
     (case To4 ip of
        Some a \<Rightarrow> a ! 0 = 10 \<or> a ! 0 = 172 \<and> a ! 1 AND 0xf0 = 16 \<or> a ! 0 = 192 \<and> a ! 1 = 168
      | None \<Rightarrow> length ip = 16 \<and> ip ! 0 AND 0xfe = 0xfc)"

definition addrScope :: "bytes \<Rightarrow> string" where
  "addrScope ip =
     (if To4 ip = None \<and> length ip = 16 \<and> ip ! 0 AND 0xfe = 0xfc then ''ula''
      else if IsPrivate ip then ''private''
      else (case To4 ip of
              Some a \<Rightarrow> if a ! 0 = 100 \<and> a ! 1 AND 0xc0 = 64 then ''private'' else ''global''
            | None \<Rightarrow> ''global''))"

record nic_addr =
  na_ip :: bytes
  na_family :: string
  na_bits :: nat
  na_scope :: string

text \<open>An address that is no \<open>IPNet\<close>, or has no bytes, is \<open>None\<close>.\<close>

definition nic_addr_of :: "(bytes \<times> nat) option \<Rightarrow> nic_addr option" where
  "nic_addr_of a =
     (case a of
        None \<Rightarrow> None
      | Some (ip, bits) \<Rightarrow>
          if IsLoopback ip \<or> IsLinkLocalUnicast ip \<or> IsLinkLocalMulticast ip \<or> IsUnspecified ip then None
          else Some \<lparr>na_ip = ip, na_family = (if To4 ip \<noteq> None then ''v4'' else ''v6''), na_bits = bits, na_scope = addrScope ip\<rparr>)"

definition filterNICAddrs :: "(bytes \<times> nat) option list \<Rightarrow> nic_addr list" where
  "filterNICAddrs addrs = List.map_filter nic_addr_of addrs"

record iface =
  if_name :: string
  if_up :: bool
  if_loopback :: bool
  if_addrs :: "(bytes \<times> nat) option list option"

definition nic_of :: "iface \<Rightarrow> (string \<times> nic_addr list) option" where
  "nic_of i =
     (if \<not> if_up i \<or> if_loopback i then None
      else (case if_addrs i of
              None \<Rightarrow> None
            | Some addrs \<Rightarrow> if filterNICAddrs addrs = [] then None else Some (if_name i, filterNICAddrs addrs)))"

definition ListNICs :: "iface list option \<Rightarrow> (string \<times> nic_addr list) list option" where
  "ListNICs ifaces = map_option (List.map_filter nic_of) ifaces"

definition HandleSystemNICs :: "iface list option \<Rightarrow> bool \<Rightarrow> bool \<Rightarrow> reply + (string \<times> nic_addr list) list" where
  "HandleSystemNICs ifaces get authenticated =
     (if \<not> get then Inl (writeError 405 ''Method not allowed'')
      else if \<not> authenticated then Inl (writeError 401 ''Unauthorized'')
      else (case ListNICs ifaces of None \<Rightarrow> Inl (writeError 500 ''list'') | Some nics \<Rightarrow> Inr nics))"

section \<open>The owner of a port\<close>

fun owner_in :: "string \<Rightarrow> string list \<Rightarrow> string option" where
  "owner_in needle [] = None"
| "owner_in needle (line # ls) =
     (if str_contains line needle then
        (let lower = to_lower line
         in Some (if str_contains lower ''nginx'' then ''nginx''
                  else if str_contains lower ''xray'' \<or> str_contains lower ''mmw-agent'' then ''xray''
                  else trim_space line))
      else owner_in needle ls)"

text \<open>The outputs of \<open>ss\<close> and \<open>netstat\<close>, none for a command that is missing.\<close>

fun owner_by :: "string \<Rightarrow> string option list \<Rightarrow> bool \<Rightarrow> string" where
  "owner_by needle [] had = (if had then [] else ''unknown'')"
| "owner_by needle (None # os) had = owner_by needle os had"
| "owner_by needle (Some out # os) had =
     (case owner_in needle (split_on (CHR 0x0A) out) of Some s \<Rightarrow> s | None \<Rightarrow> owner_by needle os True)"

definition portOwner :: "string option \<Rightarrow> string option \<Rightarrow> int \<Rightarrow> string" where
  "portOwner ss netstat port = owner_by ('':'' @ itoa port) [ss, netstat] False"

section \<open>Services\<close>

text \<open>\<open>path_bin\<close>: nginx is on the path; \<open>stat\<close>: which other places exist. The version is only shown.\<close>

definition NginxBinarySearchPaths :: "string list" where
  "NginxBinarySearchPaths =
     [''/usr/local/nginx/sbin/nginx'', ''nginx'']"

definition getNginxStatus :: "bool \<Rightarrow> (string \<Rightarrow> bool) \<Rightarrow> svc \<Rightarrow> (bool \<times> bool) \<times> svc" where
  "getNginxStatus path_bin stat st =
     (let installed = (path_bin \<or> list_ex (\<lambda>c. CHR 0x2F \<in> set c \<and> stat c) NginxBinarySearchPaths);
          st0 = (if installed then snd (on_sys run_cmd st) else st)
      in (case on_sys run_cmd st0 of
            (True, st1) \<Rightarrow> ((installed, True), st1)
          | (False, st1) \<Rightarrow>
              (case on_sys run_cmd st1 of
                 (True, st2) \<Rightarrow> ((installed, True), st2)
               | (False, st2) \<Rightarrow> (case on_sys run_cmd st2 of (up, st3) \<Rightarrow> ((installed, up), st3)))))"

definition HandleServicesStatus ::
  "svc_env \<Rightarrow> bool \<Rightarrow> (string \<Rightarrow> bool) \<Rightarrow> bool \<Rightarrow> bool \<Rightarrow> svc \<Rightarrow> (reply + (bool \<times> bool) \<times> (bool \<times> bool)) \<times> svc" where
  "HandleServicesStatus env path_bin stat get authenticated st =
     (if \<not> get then (Inl (writeError 405 ''Method not allowed''), st)
      else if \<not> authenticated then (Inl (writeError 401 ''Unauthorized''), st)
      else
        (case getXrayStatus env st of
           (xray, st1) \<Rightarrow> (case getNginxStatus path_bin stat st1 of (nginx, st2) \<Rightarrow> (Inr (xray, nginx), st2))))"

definition cn_config_check :: string where
  "cn_config_check = ''xray '' @ [CHR 0xE9, CHR 0x85, CHR 0x8D, CHR 0xE7, CHR 0xBD, CHR 0xAE, CHR 0xE6, CHR 0xA3, CHR 0x80,
     CHR 0xE6, CHR 0x9F, CHR 0xA5] @ '': ''"

definition cn_log :: string where
  "cn_log = [CHR 0xE6, CHR 0x97, CHR 0xA5, CHR 0xE5, CHR 0xBF, CHR 0x97] @ '': ''"

text \<open>The outputs of \<open>nginx -t\<close> (none without a binary), of the test of the first configuration there is (none without the
  binary or a configuration), and of the journal.\<close>

definition serviceFailureDetail :: "string option \<Rightarrow> string option \<Rightarrow> string \<Rightarrow> string \<Rightarrow> string" where
  "serviceFailureDetail nginx_t xray_t journal service =
     (let note = (\<lambda>label out. if trim_space out = [] then [] else [label @ trim_space out]);
          test = (if service = ''nginx'' then (case nginx_t of None \<Rightarrow> [] | Some out \<Rightarrow> note ''nginx -t: '' out)
                  else if service = ''xray'' then (case xray_t of None \<Rightarrow> [] | Some out \<Rightarrow> note cn_config_check out)
                  else [])
      in join_with '' | '' (test @ note cn_log journal))"

section \<open>The system\<close>

definition mem_facts :: "string \<Rightarrow> obj" where
  "mem_facts data =
     fold (\<lambda>line m.
       (case cut_at (CHR '':'') line of
          None \<Rightarrow> m
        | Some (k, v) \<Rightarrow>
            if trim_space k \<in> set [''MemTotal'', ''MemFree'', ''MemAvailable'']
            then jset (trim_space k) (JStr (trim_space v)) m else m))
       (split_on (CHR 0x0A) data) []"

definition HandleSystemInfo :: "string \<Rightarrow> string option \<Rightarrow> bool \<Rightarrow> bool \<Rightarrow> world \<Rightarrow> reply \<times> world" where
  "HandleSystemInfo version hostname get authenticated w =
     (if \<not> get then (writeError 405 ''Method not allowed'', w)
      else if \<not> authenticated then (writeError 401 ''Unauthorized'', w)
      else
        (case read_file ''/proc/uptime'' w of
           (up, w1) \<Rightarrow>
             (case read_file ''/proc/meminfo'' w1 of
                (mem, w2) \<Rightarrow>
                  (case read_file ''/proc/loadavg'' w2 of
                     (load, w3) \<Rightarrow>
                       (writeOk ([(''agent_version'', JStr version)] @
                          (case hostname of None \<Rightarrow> [] | Some h \<Rightarrow> [(''hostname'', JStr h)]) @
                          (case up of
                             Inr d \<Rightarrow> (case go_fields d of [] \<Rightarrow> [] | f # _ \<Rightarrow> [(''uptime'', JStr f)])
                           | Inl _ \<Rightarrow> []) @
                          (case mem of Inr d \<Rightarrow> [(''memory'', JObj (mem_facts d))] | Inl _ \<Rightarrow> []) @
                          (case load of Inr d \<Rightarrow> [(''loadavg'', JStr (trim_space d))] | Inl _ \<Rightarrow> [])), w3)))))"

section \<open>The sites of nginx\<close>

text \<open>\<open>names\<close>: the files of a directory in their order, or none when it cannot be read.\<close>

fun server_entries :: "string list \<Rightarrow> string set \<Rightarrow> string \<Rightarrow> (string \<times> string) list \<times> string set" where
  "server_entries [] seen dir = ([], seen)"
| "server_entries (n # ns) seen dir =
     (let domain = to_lower (take (length n - 5) n)
      in if \<not> has_suffix n ''.conf'' \<or> domain \<in> seen then server_entries ns seen dir
         else (case server_entries ns (insert domain seen) dir of (es, s) \<Rightarrow> ((domain, path_join dir n) # es, s)))"

fun server_dirs :: "(string \<Rightarrow> string list option) \<Rightarrow> string list \<Rightarrow> string set \<Rightarrow> (string \<times> string) list" where
  "server_dirs names [] seen = []"
| "server_dirs names (d # ds) seen =
     (case names d of
        None \<Rightarrow> server_dirs names ds seen
      | Some ns \<Rightarrow> (case server_entries ns seen d of (es, s) \<Rightarrow> es @ server_dirs names ds s))"

definition HandleNginxServersList ::
  "nginx_host \<Rightarrow> (string \<Rightarrow> string list option) \<Rightarrow> bool \<Rightarrow> bool \<Rightarrow> reply + (string \<times> string) list" where
  "HandleNginxServersList h names get authenticated =
     (if \<not> get then Inl (writeError 405 ''Method not allowed'')
      else if \<not> authenticated then Inl (writeError 401 ''Unauthorized'')
      else
        (let confDir = detectNginxConfDirFromBinary h
         in Inr (server_dirs names ((if confDir = [] then [] else [go_Join confDir ''servers'']) @ NginxSSLServerDirPaths) {})))"

definition HandleNginxWebsites ::
  "nginx_host \<Rightarrow> string \<Rightarrow> (int \<Rightarrow> string) \<Rightarrow> (nworld \<Rightarrow> reply \<times> nworld) \<Rightarrow> bool \<Rightarrow> string \<Rightarrow> nworld \<Rightarrow>
   (reply + website list \<times> nginx_runtime \<times> string \<times> string) \<times> nworld" where
  "HandleNginxWebsites h legacy owner deleter authenticated meth s =
     (if \<not> authenticated then (Inl (writeError 401 ''Unauthorized''), s)
      else if meth = ''GET'' then
        (case scanNginxWebsites h legacy s of
           (sites, s1) \<Rightarrow> (case inspectNginxRuntime h s1 of (rt, s2) \<Rightarrow> (Inr (sites, rt, owner 80, owner 443), s2)))
      else if meth = ''DELETE'' then (case deleter s of (r, s1) \<Rightarrow> (Inl r, s1))
      else (Inl (writeError 405 ''Method not allowed''), s))"

section \<open>Checks\<close>

text \<open>\<open>curl\<close>: the status it prints for an address, or none when it fails. Messages are not all literal.\<close>

definition quoted :: "string \<Rightarrow> string" where
  "quoted s = CHR 0x27 # s @ [CHR 0x27]"

definition HandleValidateSite :: "(string \<Rightarrow> bool) \<Rightarrow> (string \<Rightarrow> string option) \<Rightarrow> bool \<Rightarrow> bool \<Rightarrow> (string \<times> string) option \<Rightarrow> reply" where
  "HandleValidateSite stat curl post authenticated req =
     (if \<not> post then writeError 405 ''Method not allowed''
      else if \<not> authenticated then writeError 401 ''Unauthorized''
      else
        (case req of
           None \<Rightarrow> writeError 400 ''site_value is required''
         | Some (type, val) \<Rightarrow>
             if val = [] then writeError 400 ''site_value is required''
             else if type = ''static'' then
               (if stat (go_Join val ''index.html'') then writeOk [(''message'', JStr ''index.html exists'')]
                else Reply 200 [(''success'', JBool False), (''message'', JStr (''index.html not found at '' @ val))])
             else if type = ''proxy'' then
               (if \<not> IsHTTPURL (trim_space val) then Reply 200 [(''success'', JBool False), (''message'', JStr ''site_value'')]
                else
                  (case curl val of
                     None \<Rightarrow> Reply 200 [(''success'', JBool False), (''message'', JStr ''connection failed'')]
                   | Some out \<Rightarrow> writeOk [(''message'', JStr (''HTTP '' @ trim_space out))]))
             else writeError 400 (''site_type must be '' @ quoted ''static'' @ '' or '' @ quoted ''proxy'')))"

definition HandleProbeMasterURL :: "(string \<Rightarrow> (string + int)) option \<Rightarrow> bool \<Rightarrow> bool \<Rightarrow> string option \<Rightarrow> reply" where
  "HandleProbeMasterURL probe post authenticated url =
     (if \<not> post then writeError 405 ''Method not allowed''
      else if \<not> authenticated then writeError 401 ''Unauthorized''
      else
        (case url of
           None \<Rightarrow> writeError 400 ''master_url must be a valid HTTP(S) URL''
         | Some u \<Rightarrow>
             if \<not> IsHTTPURL (trim_space u) then writeError 400 ''master_url must be a valid HTTP(S) URL''
             else
               (case probe of
                  None \<Rightarrow> writeError 503 ''master probe is not ready''
                | Some p \<Rightarrow>
                    (case p (trim_right (\<lambda>c. c = CHR 0x2F) (trim_space u)) of
                       Inl e \<Rightarrow> Reply 200 [(''success'', JBool False), (''message'', JStr e)]
                     | Inr ms \<Rightarrow> writeOk [(''latency_ms'', JNum ms 0)]))))"

section \<open>Polling\<close>

text \<open>The two endpoints a polling master reads: the status and the answer, whose error texts are fixed.\<close>

definition pull_ServeHTTP :: "string \<Rightarrow> xray_stats option \<Rightarrow> bool \<Rightarrow> http_req \<Rightarrow> nat \<times> xray_stats option" where
  "pull_ServeHTTP token stats get r =
     (if \<not> get then (405, None)
      else if \<not> pull_authenticate r token then (401, None)
      else (case stats of None \<Rightarrow> (500, None) | Some s \<Rightarrow> (200, Some s)))"

definition pull_ServeSpeedHTTP :: "string \<Rightarrow> int \<times> int \<Rightarrow> bool \<Rightarrow> http_req \<Rightarrow> nat \<times> (int \<times> int) option" where
  "pull_ServeSpeedHTTP token speed get r =
     (if \<not> get then (405, None)
      else if \<not> pull_authenticate r token then (401, None)
      else (200, Some speed))"

section \<open>Scopes as intervals\<close>

definition v4_number :: "bytes \<Rightarrow> nat" where
  "v4_number a = ((unat (a ! 0) * 256 + unat (a ! 1)) * 256 + unat (a ! 2)) * 256 + unat (a ! 3)"

definition dotted :: "nat \<Rightarrow> nat \<Rightarrow> nat \<Rightarrow> nat \<Rightarrow> nat" where
  "dotted a b c d = ((a * 256 + b) * 256 + c) * 256 + d"

lemma masks_checked:
  "list_all (\<lambda>n. ((of_nat n :: 8 word) AND 0xf0 = 16 \<longleftrightarrow> 16 \<le> n \<and> n < 32) \<and> ((of_nat n :: 8 word) AND 0xc0 = 64 \<longleftrightarrow> 64 \<le> n \<and> n < 128) \<and>
     ((of_nat n :: 8 word) AND 0xfe = 0xfc \<longleftrightarrow> n = 252 \<or> n = 253)) [0..<256]"
  by code_simp

lemma byte_bound: "unat (b :: 8 word) < 256"
proof -
  have "unat b < 2 ^ LENGTH(8)" by (rule unsigned_less)
  then show ?thesis by simp
qed

lemma masks:
  "(b :: 8 word) AND 0xf0 = 16 \<longleftrightarrow> 16 \<le> unat b \<and> unat b < 32"
  "b AND 0xc0 = 64 \<longleftrightarrow> 64 \<le> unat b \<and> unat b < 128"
  "b AND 0xfe = 0xfc \<longleftrightarrow> unat b = 252 \<or> unat b = 253"
proof -
  have "unat b < 256" by (rule byte_bound)
  then have "unat b \<in> set [0..<256]" by simp
  with masks_checked have "((of_nat (unat b) :: 8 word) AND 0xf0 = 16 \<longleftrightarrow> 16 \<le> unat b \<and> unat b < 32) \<and>
     ((of_nat (unat b) :: 8 word) AND 0xc0 = 64 \<longleftrightarrow> 64 \<le> unat b \<and> unat b < 128) \<and>
     ((of_nat (unat b) :: 8 word) AND 0xfe = 0xfc \<longleftrightarrow> unat b = 252 \<or> unat b = 253)"
    unfolding list_all_iff by blast
  then show "b AND 0xf0 = 16 \<longleftrightarrow> 16 \<le> unat b \<and> unat b < 32" "b AND 0xc0 = 64 \<longleftrightarrow> 64 \<le> unat b \<and> unat b < 128"
    "b AND 0xfe = 0xfc \<longleftrightarrow> unat b = 252 \<or> unat b = 253" by simp_all
qed

lemma byte_eq: "(b :: 8 word) = numeral k \<longleftrightarrow> unat b = unat (numeral k :: 8 word)"
  by (simp add: word_unat_eq_iff)

lemma high_part: "r < k \<Longrightarrow> p * k \<le> m * k + r \<longleftrightarrow> p \<le> (m :: nat)"
proof
  assume r: "r < k" and "p * k \<le> m * k + r"
  then have "p * k < Suc m * k" by simp
  then show "p \<le> m" using r by (simp only: mult_less_cancel2 less_Suc_eq_le)
qed (metis mult_le_mono1 trans_le_add1)

lemma low_part: "r < k \<Longrightarrow> m * k + r \<le> q * k + (k - 1) \<longleftrightarrow> (m :: nat) \<le> q"
proof
  assume r: "r < k" and "m * k + r \<le> q * k + (k - 1)"
  then have "m * k < Suc q * k" by simp
  then show "m \<le> q" using r by (simp only: mult_less_cancel2 less_Suc_eq_le)
next
  assume "r < k" "m \<le> q"
  then have "m * k \<le> q * k" "r \<le> k - 1" by simp_all
  then show "m * k + r \<le> q * k + (k - 1)" by (rule add_mono)
qed

lemma v4_interval:
  assumes "q < 256" "r < 256"
  shows "dotted p q 0 0 \<le> v4_number a \<and> v4_number a \<le> dotted p r 255 255 \<longleftrightarrow>
    unat (a ! 0) = p \<and> q \<le> unat (a ! 1) \<and> unat (a ! 1) \<le> r"
proof -
  define w x y z where "w = unat (a ! 0)" and "x = unat (a ! 1)" and "y = unat (a ! 2)" and "z = unat (a ! 3)"
  have lt: "x < 256" "y < 256" "z < 256" by (simp_all add: x_def y_def z_def byte_bound)
  have n: "v4_number a = (w * 256 + x) * 65536 + (y * 256 + z)"
    unfolding v4_number_def w_def x_def y_def z_def by (simp add: algebra_simps)
  have k: "y * 256 + z < 65536" using lt by simp
  have "dotted p q 0 0 = (p * 256 + q) * 65536" "dotted p r 255 255 = (p * 256 + r) * 65536 + (65536 - 1)"
    by (simp_all add: dotted_def algebra_simps)
  then have "dotted p q 0 0 \<le> v4_number a \<and> v4_number a \<le> dotted p r 255 255 \<longleftrightarrow>
      p * 256 + q \<le> w * 256 + x \<and> w * 256 + x \<le> p * 256 + r"
    unfolding n by (simp only: high_part [OF k] low_part [OF k])
  also have "\<dots> \<longleftrightarrow> w = p \<and> q \<le> x \<and> x \<le> r"
    using assms lt(1) by (cases w p rule: linorder_cases) auto
  finally show ?thesis by (simp only: w_def x_def)
qed

lemma v4_scope:
  assumes "length a = 4"
  shows "addrScope a =
    (if unat (a ! 0) = 10 \<or> unat (a ! 0) = 172 \<and> 16 \<le> unat (a ! 1) \<and> unat (a ! 1) \<le> 31 \<or>
        unat (a ! 0) = 192 \<and> unat (a ! 1) = 168 \<or> unat (a ! 0) = 100 \<and> 64 \<le> unat (a ! 1) \<and> unat (a ! 1) \<le> 127
     then ''private'' else ''global'')"
proof -
  have e: "a ! 0 = 10 \<longleftrightarrow> unat (a ! 0) = 10" "a ! 0 = 172 \<longleftrightarrow> unat (a ! 0) = 172" "a ! 0 = 192 \<longleftrightarrow> unat (a ! 0) = 192"
    "a ! 0 = 100 \<longleftrightarrow> unat (a ! 0) = 100" "a ! 1 = 168 \<longleftrightarrow> unat (a ! 1) = 168"
    by (simp_all add: byte_eq)
  have t: "To4 a = Some a" using assms by (simp add: To4_def)
  have l: "(x :: nat) < 32 \<longleftrightarrow> x \<le> 31" "x < 128 \<longleftrightarrow> x \<le> 127" for x by auto
  show ?thesis unfolding addrScope_def IsPrivate_def t option.case masks e l by simp
qed

text \<open>The scope shown with an IPv4 address is private exactly for the numbers of the four private and shared ranges, and with
  an IPv6 address exactly for those that begin with fc or fd.\<close>

theorem nic_scope_exact:
  "(length a = 4 \<longrightarrow> addrScope a =
     (if dotted 10 0 0 0 \<le> v4_number a \<and> v4_number a \<le> dotted 10 255 255 255 \<or>
         dotted 172 16 0 0 \<le> v4_number a \<and> v4_number a \<le> dotted 172 31 255 255 \<or>
         dotted 192 168 0 0 \<le> v4_number a \<and> v4_number a \<le> dotted 192 168 255 255 \<or>
         dotted 100 64 0 0 \<le> v4_number a \<and> v4_number a \<le> dotted 100 127 255 255
      then ''private'' else ''global'')) \<and>
   (To4 ip = None \<and> length ip = 16 \<longrightarrow> addrScope ip = (if unat (ip ! 0) \<in> {252, 253} then ''ula'' else ''global''))"
proof (intro conjI impI)
  assume l: "length a = 4"
  have b: "unat (a ! 1) \<le> 255" using byte_bound [of "a ! 1"] by simp
  have i: "dotted 10 0 0 0 \<le> v4_number a \<and> v4_number a \<le> dotted 10 255 255 255 \<longleftrightarrow> unat (a ! 0) = 10"
    using v4_interval [of 0 255 10 a] b by simp
  have j: "dotted 172 16 0 0 \<le> v4_number a \<and> v4_number a \<le> dotted 172 31 255 255 \<longleftrightarrow>
      unat (a ! 0) = 172 \<and> 16 \<le> unat (a ! 1) \<and> unat (a ! 1) \<le> 31"
    "dotted 192 168 0 0 \<le> v4_number a \<and> v4_number a \<le> dotted 192 168 255 255 \<longleftrightarrow> unat (a ! 0) = 192 \<and> unat (a ! 1) = 168"
    "dotted 100 64 0 0 \<le> v4_number a \<and> v4_number a \<le> dotted 100 127 255 255 \<longleftrightarrow>
      unat (a ! 0) = 100 \<and> 64 \<le> unat (a ! 1) \<and> unat (a ! 1) \<le> 127"
    using v4_interval [of 16 31 172 a] v4_interval [of 168 168 192 a] v4_interval [of 64 127 100 a] by auto
  show "addrScope a =
     (if dotted 10 0 0 0 \<le> v4_number a \<and> v4_number a \<le> dotted 10 255 255 255 \<or>
         dotted 172 16 0 0 \<le> v4_number a \<and> v4_number a \<le> dotted 172 31 255 255 \<or>
         dotted 192 168 0 0 \<le> v4_number a \<and> v4_number a \<le> dotted 192 168 255 255 \<or>
         dotted 100 64 0 0 \<le> v4_number a \<and> v4_number a \<le> dotted 100 127 255 255
      then ''private'' else ''global'')"
    unfolding i j by (rule v4_scope [OF l])
next
  assume "To4 ip = None \<and> length ip = 16"
  then show "addrScope ip = (if unat (ip ! 0) \<in> {252, 253} then ''ula'' else ''global'')"
    by (simp add: addrScope_def IsPrivate_def masks)
qed

lemma nic_scope_exact_witness:
  "addrScope [100, 127, 255, 1] = ''private'' \<and> addrScope [172, 32, 0, 1] = ''global''"
  using nic_scope_exact [of "[100, 127, 255, 1]"] nic_scope_exact [of "[172, 32, 0, 1]"]
  by (simp add: v4_number_def dotted_def)

text \<open>An address written as an IPv6 address that stands for an IPv4 one is treated as that.\<close>

lemma mapped_like_v4:
  assumes "length a = 4"
  defines "ip \<equiv> replicate 10 0 @ [0xff, 0xff] @ a"
  shows "To4 ip = Some a" "addrScope ip = addrScope a" "IsLoopback ip = IsLoopback a" "IsUnspecified ip = IsUnspecified a"
    "IsLinkLocalUnicast ip = IsLinkLocalUnicast a" "IsLinkLocalMulticast ip = IsLinkLocalMulticast a"
proof -
  have t: "To4 ip = Some a" "To4 a = Some a" using assms(1) by (simp_all add: To4_def ip_def nth_append)
  then show "To4 ip = Some a" "addrScope ip = addrScope a" "IsLoopback ip = IsLoopback a" "IsUnspecified ip = IsUnspecified a"
    "IsLinkLocalUnicast ip = IsLinkLocalUnicast a" "IsLinkLocalMulticast ip = IsLinkLocalMulticast a"
    by (simp_all add: addrScope_def IsPrivate_def IsLoopback_def IsUnspecified_def IsLinkLocalUnicast_def IsLinkLocalMulticast_def)
qed

lemma in_map_filter: "x \<in> set (List.map_filter f xs) \<longleftrightarrow> (\<exists>y\<in>set xs. f y = Some x)"
  by (induction xs) (auto simp: List.map_filter_simps split: option.splits)

text \<open>Exactly the addresses that are neither of the host itself, nor of the link, nor unspecified are offered, in order, and
  only for interfaces that are up; an interface without any is left out.\<close>

lemma listed_addrs:
  "set (filterNICAddrs addrs) = {n. \<exists>ip bits. Some (ip, bits) \<in> set addrs \<and> \<not> IsLoopback ip \<and> \<not> IsLinkLocalUnicast ip \<and>
     \<not> IsLinkLocalMulticast ip \<and> \<not> IsUnspecified ip \<and>
     n = \<lparr>na_ip = ip, na_family = (if To4 ip \<noteq> None then ''v4'' else ''v6''), na_bits = bits, na_scope = addrScope ip\<rparr>}"
proof -
  have "x \<in> set (filterNICAddrs addrs) \<longleftrightarrow> (\<exists>ip bits. Some (ip, bits) \<in> set addrs \<and> nic_addr_of (Some (ip, bits)) = Some x)" for x
  proof -
    have "nic_addr_of None = None" by (simp add: nic_addr_of_def)
    then show ?thesis unfolding filterNICAddrs_def in_map_filter by (metis option.distinct(1) option.exhaust surj_pair)
  qed
  moreover have "nic_addr_of (Some (ip, bits)) = Some x \<longleftrightarrow> \<not> IsLoopback ip \<and> \<not> IsLinkLocalUnicast ip \<and>
     \<not> IsLinkLocalMulticast ip \<and> \<not> IsUnspecified ip \<and>
     x = \<lparr>na_ip = ip, na_family = (if To4 ip \<noteq> None then ''v4'' else ''v6''), na_bits = bits, na_scope = addrScope ip\<rparr>" for ip bits x
    by (auto simp: nic_addr_of_def)
  ultimately show ?thesis by (intro set_eqI) (simp only: mem_Collect_eq)
qed

lemma listed_nics:
  assumes "ListNICs (Some ifaces) = Some nics" "(name, as) \<in> set nics"
  shows "as \<noteq> [] \<and> (\<exists>i\<in>set ifaces. if_name i = name \<and> if_up i \<and> \<not> if_loopback i \<and> (\<exists>raw. if_addrs i = Some raw \<and> as = filterNICAddrs raw))"
proof -
  obtain i where "i \<in> set ifaces" "nic_of i = Some (name, as)" using assms by (auto simp: ListNICs_def in_map_filter)
  then show ?thesis by (auto simp: nic_of_def split: if_splits option.splits)
qed

section \<open>What is told wrongly\<close>

text \<open>The owner of port 80 is looked for as the text \<open>:80\<close>, which the line of port 8080 contains.\<close>

lemma owner_of_longer_port:
  "portOwner (Some ''LISTEN 0 511 *:8080 *:* users:((nginx,pid=7))'') None 80 = ''nginx''"
  by code_simp

lemma owner_tools:
  "portOwner None None p = ''unknown''"
  by (simp add: portOwner_def)

text \<open>The first directory with a file for a domain decides, and no domain is shown twice.\<close>

lemma server_entries_seen:
  "server_entries ns seen dir = (es, s) \<Longrightarrow>
     distinct (List.map fst es) \<and> set (List.map fst es) \<inter> seen = {} \<and> s = seen \<union> set (List.map fst es)"
proof (induction ns arbitrary: seen es s)
  case (Cons n ns)
  define dom where "dom = to_lower (take (length n - 5) n)"
  show ?case
  proof (cases "\<not> has_suffix n ''.conf'' \<or> dom \<in> seen")
    case True
    with Cons show ?thesis by (simp add: dom_def Let_def)
  next
    case False
    obtain es' s' where r: "server_entries ns (insert dom seen) dir = (es', s')" by fastforce
    with False Cons.prems have "es = (dom, path_join dir n) # es'" "s = s'" by (auto simp: dom_def Let_def)
    with Cons.IH [OF r] False show ?thesis by auto
  qed
qed simp

lemma server_dirs_seen:
  "distinct (List.map fst (server_dirs names ds seen)) \<and> set (List.map fst (server_dirs names ds seen)) \<inter> seen = {}"
proof (induction ds arbitrary: seen)
  case (Cons d ds)
  show ?case
  proof (cases "names d")
    case None
    with Cons show ?thesis by simp
  next
    case (Some ns)
    obtain es s where r: "server_entries ns seen d = (es, s)" by fastforce
    from server_entries_seen [OF r] Cons [of s] Some r show ?thesis by auto
  qed
qed simp

lemma servers_once:
  assumes "HandleNginxServersList h names True True = Inr es"
  shows "distinct (List.map fst es)"
  using assms server_dirs_seen by (auto simp: HandleNginxServersList_def Let_def)

text \<open>Without a token nothing is told to a polling master.\<close>

lemma polling_needs_token:
  "\<not> pull_authenticate r token \<Longrightarrow> snd (pull_ServeHTTP token stats get r) = None \<and> snd (pull_ServeSpeedHTTP token speed get r) = None"
  by (simp add: pull_ServeHTTP_def pull_ServeSpeedHTTP_def)

text \<open>Only an address with a scheme of the web is fetched to check a site.\<close>

lemma validate_fetches_web_only:
  assumes "\<not> IsHTTPURL (trim_space v)"
  shows "HandleValidateSite stat curl post auth (Some (''proxy'', v)) = HandleValidateSite stat curl' post auth (Some (''proxy'', v))"
  using assms by (simp add: HandleValidateSite_def)

end
