(* ===== verification/Live_Core.thy ===== *)
theory Live_Core
  imports Xray_Service Limiter Traffic
begin

text \<open>
  The embedded instance in detail (\<open>internal/embedded/xray.go\<close>, \<open>internal/embedded/config.go\<close>): the applications it is
  built with, its start, stop and restart with every outcome of the Xray library, panics included, the calls on a running
  instance, and what is read of it: counters and the users online. The Xray library is a parameter: the events of a start
  (\<open>boot\<close>) and the operations of its managers (\<open>core_lib\<close>). The last part reads the metrics of an external Xray
  (\<open>internal/collector/metrics.go\<close>).
\<close>

section \<open>Outcomes of library calls\<close>

text \<open>A call of the library returns, fails or panics. \<open>recovered\<close> is the deferred \<open>recover\<close> of the wrappers.\<close>

datatype 'a call = Returned 'a | Failed string | Panicked string

fun recovered :: "string \<Rightarrow> 'a call \<Rightarrow> string + 'a" where
  "recovered what (Returned a) = Inr a"
| "recovered what (Failed m) = Inl m"
| "recovered what (Panicked m) = Inl (what @ '' panicked: '' @ m)"

section \<open>The applications\<close>

text \<open>A typed message is its type's name and its content. Of the contents only the ones written here are known.\<close>

record policy_stats =
  ps_uplink :: bool
  ps_downlink :: bool
  ps_online :: bool

record system_stats =
  ss_inbound_up :: bool
  ss_inbound_down :: bool
  ss_outbound_up :: bool
  ss_outbound_down :: bool

datatype app_value = NoFields | Policies "(nat \<times> policy_stats) list" system_stats | Encoded string

record app =
  app_type :: string
  app_value :: app_value

record core_config =
  cc_apps :: "app list"
  cc_rest :: string

definition our_dispatcher :: string where "our_dispatcher = ''mmw.app.dispatcher.Config''"
definition official_dispatcher :: string where "official_dispatcher = ''xray.app.dispatcher.Config''"
definition stats_app :: string where "stats_app = ''xray.app.stats.Config''"
definition policy_app :: string where "policy_app = ''xray.app.policy.Config''"
definition metrics_app :: string where "metrics_app = ''xray.app.metrics.Config''"

lemmas app_names = our_dispatcher_def official_dispatcher_def stats_app_def policy_app_def metrics_app_def

definition customApps :: "app list" where
  "customApps =
     [\<lparr>app_type = our_dispatcher, app_value = NoFields\<rparr>,
      \<lparr>app_type = stats_app, app_value = NoFields\<rparr>,
      \<lparr>app_type = policy_app,
       app_value = Policies [(0, \<lparr>ps_uplink = True, ps_downlink = True, ps_online = True\<rparr>)]
         \<lparr>ss_inbound_up = True, ss_inbound_down = True, ss_outbound_up = True, ss_outbound_down = True\<rparr>\<rparr>]"

definition skipTypes :: "string list" where
  "skipTypes = [official_dispatcher, stats_app, policy_app, our_dispatcher, metrics_app]"

definition replace_apps :: "core_config \<Rightarrow> core_config" where
  "replace_apps c = c\<lparr>cc_apps := customApps @ filter (\<lambda>a. app_type a \<notin> set skipTypes) (cc_apps c)\<rparr>"

text \<open>\<open>file\<close> is what reading the configuration gave, \<open>inject\<close> sets the access log, \<open>load\<close> is \<open>confserial.LoadJSONConfig\<close>.\<close>

fun buildCoreConfig :: "(string \<Rightarrow> core_config call) \<Rightarrow> (string \<Rightarrow> string) \<Rightarrow> string call \<Rightarrow> core_config call" where
  "buildCoreConfig load inject (Failed m) = Failed m"
| "buildCoreConfig load inject (Panicked m) = Panicked m"
| "buildCoreConfig load inject (Returned data) =
     (case load (inject data) of Returned c \<Rightarrow> Returned (replace_apps c) | r \<Rightarrow> r)"

section \<open>Start, stop and restart\<close>

text \<open>The events of one start. \<open>bt_disp\<close> is the feature of type \<open>routing.Dispatcher\<close>: absent, of another type, or the
  agent's own with its limiter.\<close>

record ('i, 's) boot =
  bt_file :: "string call"
  bt_load :: "string \<Rightarrow> core_config call"
  bt_new :: "core_config \<Rightarrow> 'i call"
  bt_start :: "unit call"
  bt_close :: "unit call"
  bt_stats :: "'s option"
  bt_disp :: "limiter option option"

text \<open>\<open>EmbeddedXray\<close>: the instance, the limiter of its dispatcher, its counters; \<open>ex_lost\<close> counts the instances that were
  started and were dropped without having been closed.\<close>

record ('i, 's) embedded =
  ex_inst :: "'i option"
  ex_disp :: "limiter option"
  ex_stats :: "'s option"
  ex_lost :: nat

definition new_embedded :: "('i, 's) embedded" where
  "new_embedded = \<lparr>ex_inst = None, ex_disp = None, ex_stats = None, ex_lost = 0\<rparr>"

definition taken_over :: "('i, 's) boot \<Rightarrow> 'i \<Rightarrow> ('i, 's) embedded \<Rightarrow> ('i, 's) embedded" where
  "taken_over b i e =
     e\<lparr>ex_inst := Some i, ex_stats := bt_stats b,
       ex_disp := (case bt_disp b of None \<Rightarrow> ex_disp e | Some d \<Rightarrow> d),
       ex_lost := (if ex_inst e = None then ex_lost e else Suc (ex_lost e))\<rparr>"

definition core_Start :: "(string \<Rightarrow> string) \<Rightarrow> ('i, 's) boot \<Rightarrow> ('i, 's) embedded \<Rightarrow> string option \<times> ('i, 's) embedded" where
  "core_Start inject b e =
     (case recovered ''xray start'' (buildCoreConfig (bt_load b) inject (bt_file b)) of
        Inl m \<Rightarrow> (Some m, e)
      | Inr c \<Rightarrow>
          (case recovered ''xray core.New'' (bt_new b c) of
             Inl m \<Rightarrow> (Some m, e)
           | Inr i \<Rightarrow>
               (case recovered ''xray instance.Start'' (bt_start b) of
                  Inl m \<Rightarrow> (case bt_close b of Panicked p \<Rightarrow> (Some (''xray start panicked: '' @ p), e) | _ \<Rightarrow> (Some m, e))
                | Inr _ \<Rightarrow> (None, taken_over b i e))))"

definition core_Stop :: "unit call \<Rightarrow> ('i, 's) embedded \<Rightarrow> string option \<times> ('i, 's) embedded" where
  "core_Stop close e =
     (let e1 = e\<lparr>ex_inst := None, ex_disp := None, ex_stats := None\<rparr>
      in if ex_inst e = None then (None, e1)
         else (case recovered ''xray stop'' close of
                 Inl m \<Rightarrow> (Some m, e1\<lparr>ex_lost := Suc (ex_lost e)\<rparr>)
               | Inr _ \<Rightarrow> (None, e1)))"

fun core_attempts :: "(string \<Rightarrow> string) \<Rightarrow> ('i, 's) boot list \<Rightarrow> string option \<Rightarrow> ('i, 's) embedded \<Rightarrow> string option \<times> ('i, 's) embedded" where
  "core_attempts inject [] lastErr e = (lastErr, e)"
| "core_attempts inject (b # bs) lastErr e =
     (case core_Start inject b e of
        (None, e1) \<Rightarrow> (None, e1)
      | (Some m, e1) \<Rightarrow> core_attempts inject bs (Some m) e1)"

definition core_Restart ::
  "(string \<Rightarrow> string) \<Rightarrow> unit call \<Rightarrow> ('i, 's) boot \<times> ('i, 's) boot \<times> ('i, 's) boot \<Rightarrow> ('i, 's) embedded \<Rightarrow> string option \<times> ('i, 's) embedded" where
  "core_Restart inject close boots e =
     (case boots of (b1, b2, b3) \<Rightarrow> core_attempts inject [b1, b2, b3] None (snd (core_Stop close e)))"

definition core_running :: "('i, 's) embedded \<Rightarrow> bool" where
  "core_running e \<longleftrightarrow> ex_inst e \<noteq> None"

section \<open>Calls on a running instance\<close>

text \<open>The operations of Xray's managers: an error, or success. \<open>cl_create\<close> is \<open>core.CreateObject\<close>, which may give an object
  that is no handler.\<close>

record ('i, 'c, 'h, 'u) core_lib =
  cl_handler :: "'i \<Rightarrow> string \<Rightarrow> string option"
  cl_add_user :: "string \<Rightarrow> 'u \<Rightarrow> 'i \<Rightarrow> string option \<times> 'i"
  cl_remove_user :: "string \<Rightarrow> string \<Rightarrow> 'i \<Rightarrow> string option \<times> 'i"
  cl_create :: "'c \<Rightarrow> 'i \<Rightarrow> (string + 'h option) \<times> 'i"
  cl_add_in :: "'h \<Rightarrow> 'i \<Rightarrow> string option \<times> 'i"
  cl_remove_in :: "string \<Rightarrow> 'i \<Rightarrow> string option \<times> 'i"
  cl_list_in :: "'i \<Rightarrow> string list"
  cl_add_out :: "'h \<Rightarrow> 'i \<Rightarrow> string option \<times> 'i"
  cl_remove_out :: "string \<Rightarrow> 'i \<Rightarrow> string option \<times> 'i"

datatype emb_error = NotRunning | InvalidHandler | CoreError string

fun emb_message :: "emb_error \<Rightarrow> string" where
  "emb_message NotRunning = ''xray instance not running''"
| "emb_message InvalidHandler = ''created object is not a valid handler''"
| "emb_message (CoreError m) = m"

definition on_instance :: "('i \<Rightarrow> emb_error option \<times> 'i) \<Rightarrow> ('i, 's) embedded \<Rightarrow> emb_error option \<times> ('i, 's) embedded" where
  "on_instance f e =
     (case ex_inst e of
        None \<Rightarrow> (Some NotRunning, e)
      | Some i \<Rightarrow> (case f i of (r, i1) \<Rightarrow> (r, e\<lparr>ex_inst := Some i1\<rparr>)))"

definition core_result :: "string option \<times> 'i \<Rightarrow> emb_error option \<times> 'i" where
  "core_result x = (map_option CoreError (fst x), snd x)"

definition on_handler :: "('i, 'c, 'h, 'u) core_lib \<Rightarrow> string \<Rightarrow> ('i \<Rightarrow> string option \<times> 'i) \<Rightarrow> 'i \<Rightarrow> emb_error option \<times> 'i" where
  "on_handler L tag f i = (case cl_handler L i tag of Some m \<Rightarrow> (Some (CoreError m), i) | None \<Rightarrow> core_result (f i))"

definition created :: "('i, 'c, 'h, 'u) core_lib \<Rightarrow> 'c \<Rightarrow> ('h \<Rightarrow> 'i \<Rightarrow> string option \<times> 'i) \<Rightarrow> 'i \<Rightarrow> emb_error option \<times> 'i" where
  "created L c add i =
     (case cl_create L c i of
        (Inl m, i1) \<Rightarrow> (Some (CoreError m), i1)
      | (Inr None, i1) \<Rightarrow> (Some InvalidHandler, i1)
      | (Inr (Some h), i1) \<Rightarrow> core_result (add h i1))"

definition AddUser :: "('i, 'c, 'h, 'u) core_lib \<Rightarrow> string \<Rightarrow> 'u \<Rightarrow> ('i, 's) embedded \<Rightarrow> emb_error option \<times> ('i, 's) embedded" where
  "AddUser L inboundTag user = on_instance (on_handler L inboundTag (cl_add_user L inboundTag user))"

definition RemoveUser :: "('i, 'c, 'h, 'u) core_lib \<Rightarrow> string \<Rightarrow> string \<Rightarrow> ('i, 's) embedded \<Rightarrow> emb_error option \<times> ('i, 's) embedded" where
  "RemoveUser L inboundTag email = on_instance (on_handler L inboundTag (cl_remove_user L inboundTag email))"

definition AddInbound :: "('i, 'c, 'h, 'u) core_lib \<Rightarrow> 'c \<Rightarrow> ('i, 's) embedded \<Rightarrow> emb_error option \<times> ('i, 's) embedded" where
  "AddInbound L config = on_instance (created L config (cl_add_in L))"

definition RemoveInbound :: "('i, 'c, 'h, 'u) core_lib \<Rightarrow> string \<Rightarrow> ('i, 's) embedded \<Rightarrow> emb_error option \<times> ('i, 's) embedded" where
  "RemoveInbound L tag = on_instance (\<lambda>i. core_result (cl_remove_in L tag i))"

definition ListInbounds :: "('i, 'c, 'h, 'u) core_lib \<Rightarrow> ('i, 's) embedded \<Rightarrow> string list" where
  "ListInbounds L e = (case ex_inst e of None \<Rightarrow> [] | Some i \<Rightarrow> cl_list_in L i)"

definition AddOutbound :: "('i, 'c, 'h, 'u) core_lib \<Rightarrow> 'c \<Rightarrow> ('i, 's) embedded \<Rightarrow> emb_error option \<times> ('i, 's) embedded" where
  "AddOutbound L config = on_instance (created L config (cl_add_out L))"

definition RemoveOutbound :: "('i, 'c, 'h, 'u) core_lib \<Rightarrow> string \<Rightarrow> ('i, 's) embedded \<Rightarrow> emb_error option \<times> ('i, 's) embedded" where
  "RemoveOutbound L tag = on_instance (\<lambda>i. core_result (cl_remove_out L tag i))"

text \<open>What \<open>replaceRuntimeInbound\<close> does to the embedded instance: the old inbound goes first, whatever becomes of the new one.\<close>

definition replace_live :: "('i, 'c, 'h, 'u) core_lib \<Rightarrow> string \<Rightarrow> 'c \<Rightarrow> ('i, 's) embedded \<Rightarrow> emb_error option \<times> ('i, 's) embedded" where
  "replace_live L tag config e = AddInbound L config (snd (RemoveInbound L tag e))"

section \<open>Counters, limits and users online\<close>

definition GetTraffic :: "('s \<Rightarrow> string \<Rightarrow> int option) \<Rightarrow> string \<Rightarrow> ('i, 's) embedded \<Rightarrow> int" where
  "GetTraffic counter name e =
     (case ex_stats e of None \<Rightarrow> 0 | Some s \<Rightarrow> (case counter s name of None \<Rightarrow> 0 | Some v \<Rightarrow> v))"

definition GetLimiter :: "('i, 's) embedded \<Rightarrow> limiter option" where
  "GetLimiter e = ex_disp e"

definition UpdateLimiter :: "string \<Rightarrow> user_info list \<Rightarrow> ('i, 's) embedded \<Rightarrow> ('i, 's) embedded" where
  "UpdateLimiter tag users e =
     (case GetLimiter e of None \<Rightarrow> e | Some l \<Rightarrow> e\<lparr>ex_disp := Some (UpdateInboundLimiter l tag users)\<rparr>)"

definition embedded_online :: "string \<Rightarrow> ('i, 's) embedded \<Rightarrow> (string \<times> string list) list option \<times> ('i, 's) embedded" where
  "embedded_online tag e =
     (case GetLimiter e of
        None \<Rightarrow> (None, e)
      | Some l \<Rightarrow> (case GetOnlineUsers l tag of (r, l1) \<Rightarrow> (r, e\<lparr>ex_disp := Some l1\<rparr>)))"

text \<open>The hook for spliced connections: the bucket the raw connection is wrapped with, if any.\<close>

definition vision_hook :: "string \<Rightarrow> ('i, 's) embedded \<Rightarrow> nat option \<times> ('i, 's) embedded" where
  "vision_hook email e =
     (case GetLimiter e of
        None \<Rightarrow> (None, e)
      | Some l \<Rightarrow> (case LookupBucketByEmail l email of (b, l1) \<Rightarrow> (b, e\<lparr>ex_disp := Some l1\<rparr>)))"

text \<open>\<open>collectOnlineUsers\<close> of the client: the answers of all inbounds in one map, so that a later inbound's answer for a user
  replaces an earlier one's.\<close>

definition merge_ips :: "(string \<times> string list) list \<Rightarrow> (string \<times> string list) list \<Rightarrow> (string \<times> string list) list" where
  "merge_ips users result = fold (\<lambda>(email, ips) m. AList.update email ips m) users result"

definition online_of :: "string \<Rightarrow> (string \<times> string list) list \<times> ('i, 's) embedded \<Rightarrow> (string \<times> string list) list \<times> ('i, 's) embedded" where
  "online_of tag x =
     (case embedded_online tag (snd x) of
        (None, e1) \<Rightarrow> (fst x, e1)
      | (Some users, e1) \<Rightarrow> (merge_ips users (fst x), e1))"

definition collectOnlineUsers ::
  "('i, 'c, 'h, 'u) core_lib \<Rightarrow> ('i, 's) embedded option \<Rightarrow> (string \<times> string list) list option \<times> ('i, 's) embedded option" where
  "collectOnlineUsers L x =
     (case x of
        None \<Rightarrow> (None, None)
      | Some e \<Rightarrow> (case fold online_of (ListInbounds L e) ([], e) of (r, e1) \<Rightarrow> (Some r, Some e1)))"

section \<open>The applications of the core\<close>

definition of_type :: "string \<Rightarrow> core_config \<Rightarrow> app list" where
  "of_type t c = filter (\<lambda>a. app_type a = t) (cc_apps c)"

lemma custom_types: "map app_type customApps = [our_dispatcher, stats_app, policy_app]"
  by (simp add: customApps_def)

lemma skipped_type: "t \<in> set skipTypes \<Longrightarrow> of_type t (replace_apps c) = filter (\<lambda>a. app_type a = t) customApps"
  by (auto simp: of_type_def replace_apps_def filter_empty_conv)

lemma kept_apps:
  "filter (\<lambda>a. app_type a \<notin> set skipTypes) (cc_apps (replace_apps c)) = filter (\<lambda>a. app_type a \<notin> set skipTypes) (cc_apps c)"
  by (simp add: replace_apps_def customApps_def skipTypes_def)

lemma customs:
  "filter (\<lambda>a. app_type a = our_dispatcher) customApps = [customApps ! 0]"
  "filter (\<lambda>a. app_type a = stats_app) customApps = [customApps ! 1]"
  "filter (\<lambda>a. app_type a = policy_app) customApps = [customApps ! 2]"
  "filter (\<lambda>a. app_type a = official_dispatcher) customApps = []"
  "filter (\<lambda>a. app_type a = metrics_app) customApps = []"
  by (simp_all add: customApps_def app_names)

text \<open>Whatever applications a configuration asks for, the embedded core is built with exactly one dispatcher, the
  agent's own (through which limits and counters work), never Xray's; with exactly one statistics application and one
  policy, which counts every user's traffic and the users online; without the metrics listener; and with all the other
  applications, in their order.\<close>
theorem core_apps_replaced:
  assumes "buildCoreConfig load inject f = Returned c'"
  shows "\<exists>data c. f = Returned data \<and> load (inject data) = Returned c \<and> cc_rest c' = cc_rest c \<and>
    of_type our_dispatcher c' = [\<lparr>app_type = our_dispatcher, app_value = NoFields\<rparr>] \<and>
    of_type official_dispatcher c' = [] \<and> of_type metrics_app c' = [] \<and> length (of_type stats_app c') = 1 \<and>
    (\<exists>sys. of_type policy_app c' =
        [\<lparr>app_type = policy_app, app_value = Policies [(0, \<lparr>ps_uplink = True, ps_downlink = True, ps_online = True\<rparr>)] sys\<rparr>]) \<and>
    filter (\<lambda>a. app_type a \<notin> set skipTypes) (cc_apps c') = filter (\<lambda>a. app_type a \<notin> set skipTypes) (cc_apps c)"
proof -
  obtain data c where c: "f = Returned data" "load (inject data) = Returned c" "c' = replace_apps c"
    using assms by (cases f) (auto split: call.splits)
  have t: "our_dispatcher \<in> set skipTypes" "official_dispatcher \<in> set skipTypes" "metrics_app \<in> set skipTypes"
    "stats_app \<in> set skipTypes" "policy_app \<in> set skipTypes" by (simp_all add: skipTypes_def)
  show ?thesis
    using c kept_apps [of c] by (simp add: t [THEN skipped_type] customs) (simp add: customApps_def replace_apps_def)
qed

definition demo_load :: "string \<Rightarrow> core_config call" where
  "demo_load data = Returned \<lparr>cc_apps = [\<lparr>app_type = official_dispatcher, app_value = NoFields\<rparr>,
     \<lparr>app_type = ''xray.app.router.Config'', app_value = Encoded ''rules''\<rparr>,
     \<lparr>app_type = metrics_app, app_value = Encoded ''listen''\<rparr>], cc_rest = data\<rparr>"

theorem core_apps_replaced_witness:
  "\<exists>c'. buildCoreConfig demo_load id (Returned ''conf'') = Returned c' \<and>
     of_type our_dispatcher c' = [\<lparr>app_type = our_dispatcher, app_value = NoFields\<rparr>] \<and>
     of_type official_dispatcher c' = []"
  using core_apps_replaced [of demo_load id "Returned ''conf''" "replace_apps
      \<lparr>cc_apps = [\<lparr>app_type = official_dispatcher, app_value = NoFields\<rparr>,
         \<lparr>app_type = ''xray.app.router.Config'', app_value = Encoded ''rules''\<rparr>,
         \<lparr>app_type = metrics_app, app_value = Encoded ''listen''\<rparr>], cc_rest = ''conf''\<rparr>"]
  by (simp add: demo_load_def)

section \<open>The detailed start refines the abstract one\<close>

text \<open>What the theory \<open>Xray_Service\<close> sees of the events of a start: for each call of the library whether it worked.\<close>

fun worked :: "'a call \<Rightarrow> bool" where
  "worked (Returned _) = True"
| "worked (Failed _) = False"
| "worked (Panicked _) = False"

definition boot_tape :: "(string \<Rightarrow> string) \<Rightarrow> ('i, 's) boot \<Rightarrow> string \<Rightarrow> bool list" where
  "boot_tape inject b data =
     (case bt_load b (inject data) of
        Returned c \<Rightarrow>
          (case bt_new b (replace_apps c) of
             Returned i \<Rightarrow> [True, True, worked (bt_start b), worked (bt_close b)]
           | _ \<Rightarrow> [True, False])
      | _ \<Rightarrow> [False])"

lemma start_effect:
  assumes "core_Start inject b e = (r, e')"
  shows "r \<noteq> None \<Longrightarrow> e' = e" "r = None \<Longrightarrow> \<exists>i. e' = taken_over b i e"
  using assms by (auto simp: core_Start_def split: sum.splits call.splits)

lemma read_keeps_core:
  "on_world (read_file p) st = (r, st1) \<Longrightarrow> sv_core st1 = sv_core st"
  by (auto simp: on_world_def split: prod.splits)

text \<open>The start of the embedded instance as the other theories see it is what the detailed one does: it succeeds for
  the same events of the library, whichever call fails or panics, and leaves an instance running in the same cases, built
  from the same text.\<close>
theorem start_refines:
  assumes "on_world (read_file (em_path a)) st = (f, st1)"
    and "case f of Inl _ \<Rightarrow> \<exists>m. bt_file b = Failed m | Inr data \<Rightarrow> bt_file b = Returned data"
    and "\<And>data. f = Inr data \<Longrightarrow> sv_core st = boot_tape (core_text env) b data"
    and "em_run a = None \<longleftrightarrow> ex_inst e = None"
    and "embedded_Start env a st = (ok, a', st')" "core_Start (core_text env) b e = (r, e')"
  shows "(ok \<longleftrightarrow> r = None) \<and> (em_run a' = None \<longleftrightarrow> ex_inst e' = None) \<and>
    (ok \<longrightarrow> (\<exists>data. f = Inr data \<and> em_run a' = Some (core_text env data)))"
proof (cases f)
  case (Inl m)
  with assms show ?thesis by (auto simp: embedded_Start_def core_Start_def)
next
  case (Inr data)
  have t: "sv_core st1 = boot_tape (core_text env) b data" using read_keeps_core [OF assms(1)] assms(3) [OF Inr] by simp
  show ?thesis
    using assms(1,2,4-6) Inr t
    by (cases "bt_load b (core_text env data)"; cases "bt_start b"; cases "bt_close b")
      (auto simp: embedded_Start_def core_Start_def core_call_def boot_tape_def taken_over_def split: call.splits)
qed

text \<open>A core whose inbounds are tags with ports, for the examples.\<close>

definition demo_lib :: "((string \<times> nat) list, string \<times> nat, string \<times> nat, string) core_lib" where
  "demo_lib =
     \<lparr>cl_handler = (\<lambda>i tag. if map_of i tag = None then Some ''not found'' else None),
      cl_add_user = (\<lambda>_ _ i. (None, i)), cl_remove_user = (\<lambda>_ _ i. (None, i)),
      cl_create = (\<lambda>c i. (if snd c = 0 then Inl ''invalid port'' else Inr (Some c), i)),
      cl_add_in = (\<lambda>h i. if map_of i (fst h) \<noteq> None then (Some ''existing tag found'', i)
                         else if snd h \<in> snd ` set i then (Some ''address already in use'', i) else (None, i @ [h])),
      cl_remove_in = (\<lambda>tag i. if map_of i tag = None then (Some ''not found'', i) else (None, filter (\<lambda>h. fst h \<noteq> tag) i)),
      cl_list_in = map fst, cl_add_out = (\<lambda>_ i. (None, i)), cl_remove_out = (\<lambda>_ i. (None, i))\<rparr>"

definition demo_boot :: "((string \<times> nat) list, nat) boot" where
  "demo_boot = \<lparr>bt_file = Returned ''tunnel'', bt_load = demo_load, bt_new = (\<lambda>_. Returned [(''in-1'', 443), (''in-2'', 8443)]),
     bt_start = Failed ''listen tcp 0.0.0.0:443: address already in use'', bt_close = Returned (), bt_stats = Some 7,
     bt_disp = Some (Some new_limiter)\<rparr>"

definition demo_start_svc :: svc where
  "demo_start_svc = demo_svc ''tunnel'' [True, True, False, True]"

theorem start_refines_witness:
  "(let a = \<lparr>em_path = default_path, em_run = None\<rparr>;
        (ok, a', st') = embedded_Start demo_svc_env a demo_start_svc;
        (r, e') = core_Start (core_text demo_svc_env) demo_boot new_embedded
    in (ok \<longleftrightarrow> r = None) \<and> (em_run a' = None \<longleftrightarrow> ex_inst e' = None) \<and>
       r = Some ''listen tcp 0.0.0.0:443: address already in use'')"
proof -
  define a where "a = \<lparr>em_path = default_path, em_run = None\<rparr>"
  obtain f st1 where f: "on_world (read_file (em_path a)) demo_start_svc = (f, st1)" by (metis surj_pair)
  have d: "f = Inr ''tunnel''"
    using f by (simp add: a_def demo_start_svc_def demo_svc_def on_world_def demo_files_def calm_read file_at_def)
  obtain ok a' st' where s: "embedded_Start demo_svc_env a demo_start_svc = (ok, a', st')" by (metis prod_cases3)
  obtain r e' where c: "core_Start (core_text demo_svc_env) demo_boot new_embedded = (r, e')" by (metis surj_pair)
  have t: "sv_core demo_start_svc = boot_tape (core_text demo_svc_env) demo_boot ''tunnel''"
    by (simp add: demo_start_svc_def demo_svc_def boot_tape_def demo_boot_def demo_load_def)
  have "(ok \<longleftrightarrow> r = None) \<and> (em_run a' = None \<longleftrightarrow> ex_inst e' = None) \<and>
      (ok \<longrightarrow> (\<exists>data. f = Inr data \<and> em_run a' = Some (core_text demo_svc_env data)))"
    by (rule start_refines [OF f _ _ _ s c])
      (use d t in \<open>simp_all add: demo_boot_def new_embedded_def a_def\<close>)
  moreover have "r = Some ''listen tcp 0.0.0.0:443: address already in use''"
    using c by (simp add: core_Start_def demo_boot_def demo_load_def)
  ultimately show ?thesis using s c by (simp add: a_def Let_def)
qed

section \<open>Runs of the embedded instance\<close>

datatype ('i, 's, 'c, 'u) live_op =
    LStart "('i, 's) boot"
  | LStop "unit call"
  | LRestart "unit call" "('i, 's) boot" "('i, 's) boot" "('i, 's) boot"
  | LAddUser string 'u
  | LRemoveUser string string
  | LAddInbound 'c
  | LRemoveInbound string
  | LReplace string 'c
  | LAddOutbound 'c
  | LRemoveOutbound string
  | LLimits string "user_info list"
  | LOnline string
  | LSplice string

fun live_step ::
  "('i, 'c, 'h, 'u) core_lib \<Rightarrow> (string \<Rightarrow> string) \<Rightarrow> ('i, 's, 'c, 'u) live_op \<Rightarrow> ('i, 's) embedded \<Rightarrow> ('i, 's) embedded" where
  "live_step L inject (LStart b) e = snd (core_Start inject b e)"
| "live_step L inject (LStop close) e = snd (core_Stop close e)"
| "live_step L inject (LRestart close b1 b2 b3) e = snd (core_Restart inject close (b1, b2, b3) e)"
| "live_step L inject (LAddUser tag u) e = snd (AddUser L tag u e)"
| "live_step L inject (LRemoveUser tag email) e = snd (RemoveUser L tag email e)"
| "live_step L inject (LAddInbound c) e = snd (AddInbound L c e)"
| "live_step L inject (LRemoveInbound tag) e = snd (RemoveInbound L tag e)"
| "live_step L inject (LReplace tag c) e = snd (replace_live L tag c e)"
| "live_step L inject (LAddOutbound c) e = snd (AddOutbound L c e)"
| "live_step L inject (LRemoveOutbound tag) e = snd (RemoveOutbound L tag e)"
| "live_step L inject (LLimits tag users) e = UpdateLimiter tag users e"
| "live_step L inject (LOnline tag) e = snd (embedded_online tag e)"
| "live_step L inject (LSplice email) e = snd (vision_hook email e)"

text \<open>A core built from \<open>buildCoreConfig\<close> has the agent's dispatcher and a statistics manager.\<close>

definition full_boot :: "('i, 's) boot \<Rightarrow> bool" where
  "full_boot b \<longleftrightarrow> bt_stats b \<noteq> None \<and> (\<exists>l. bt_disp b = Some (Some l))"

fun full_op :: "('i, 's, 'c, 'u) live_op \<Rightarrow> bool" where
  "full_op (LStart b) = full_boot b"
| "full_op (LRestart _ b1 b2 b3) = (full_boot b1 \<and> full_boot b2 \<and> full_boot b3)"
| "full_op _ = True"

definition in_step :: "('i, 's) embedded \<Rightarrow> bool" where
  "in_step e \<longleftrightarrow> (ex_inst e = None \<longleftrightarrow> ex_disp e = None) \<and> (ex_inst e = None \<longleftrightarrow> ex_stats e = None)"

lemma on_instance_effect:
  "ex_disp (snd (on_instance f e)) = ex_disp e" "ex_stats (snd (on_instance f e)) = ex_stats e"
  "ex_lost (snd (on_instance f e)) = ex_lost e" "ex_inst (snd (on_instance f e)) = None \<longleftrightarrow> ex_inst e = None"
  by (auto simp: on_instance_def split: option.splits prod.splits)

lemmas instance_calls = AddUser_def RemoveUser_def AddInbound_def RemoveInbound_def AddOutbound_def RemoveOutbound_def replace_live_def

lemma limiter_calls_effect:
  "ex_inst (UpdateLimiter tag users e) = ex_inst e" "ex_inst (snd (embedded_online tag e)) = ex_inst e"
  "ex_inst (snd (vision_hook email e)) = ex_inst e"
  "ex_stats (UpdateLimiter tag users e) = ex_stats e" "ex_stats (snd (embedded_online tag e)) = ex_stats e"
  "ex_stats (snd (vision_hook email e)) = ex_stats e"
  "ex_lost (UpdateLimiter tag users e) = ex_lost e" "ex_lost (snd (embedded_online tag e)) = ex_lost e"
  "ex_lost (snd (vision_hook email e)) = ex_lost e"
  "ex_disp (UpdateLimiter tag users e) = None \<longleftrightarrow> ex_disp e = None"
  "ex_disp (snd (embedded_online tag e)) = None \<longleftrightarrow> ex_disp e = None"
  "ex_disp (snd (vision_hook email e)) = None \<longleftrightarrow> ex_disp e = None"
  by (auto simp: UpdateLimiter_def embedded_online_def vision_hook_def GetLimiter_def split: option.splits prod.splits)

lemma start_in_step:
  assumes "full_boot b" "in_step e"
  shows "in_step (snd (core_Start inject b e))"
proof -
  obtain r e1 where s: "core_Start inject b e = (r, e1)" by (metis surj_pair)
  have "in_step e1"
    using start_effect [OF s] assms by (cases r) (auto simp: in_step_def full_boot_def taken_over_def)
  with s show ?thesis by simp
qed

lemma stop_effect:
  "ex_inst (snd (core_Stop close e)) = None" "ex_disp (snd (core_Stop close e)) = None" "ex_stats (snd (core_Stop close e)) = None"
  by (auto simp: core_Stop_def Let_def split: sum.splits)

lemma attempts_keep:
  assumes "\<And>b e. b \<in> set bs \<Longrightarrow> P e \<Longrightarrow> P (snd (core_Start inject b e))" and "P e"
  shows "P (snd (core_attempts inject bs lastErr e))"
  using assms
proof (induction bs arbitrary: lastErr e)
  case (Cons b bs)
  from Cons.prems(1) [of b e] Cons.prems(2) have "P (snd (core_Start inject b e))" by simp
  with Cons.IH [OF Cons.prems(1)] show ?case by (auto split: prod.splits option.splits)
qed simp

lemma live_step_in_step: "full_op op \<Longrightarrow> in_step e \<Longrightarrow> in_step (live_step L inject op e)"
proof (cases op)
  case (LRestart close b1 b2 b3)
  assume f: "full_op op"
  have "in_step (snd (core_Stop close e))" by (simp add: in_step_def stop_effect)
  then show ?thesis unfolding LRestart live_step.simps core_Restart_def prod.case
    by (intro attempts_keep [where P = in_step]) (use f LRestart in \<open>auto intro: start_in_step\<close>)
qed (simp_all add: start_in_step, auto simp: in_step_def stop_effect instance_calls on_instance_effect limiter_calls_effect)

text \<open>Through any series of starts, stops, restarts (with any outcome of the library, panics included), changes of users,
  inbounds and outbounds, limiter updates, readings of the users online and spliced connections, the three parts of the
  embedded instance stay together: while it runs its limiter and its counters are there, so limits apply and traffic is
  counted; while it is stopped neither is, every call is refused as not running, no inbound is listed, and no counter of
  the old core is reported.\<close>
theorem live_parts_together:
  assumes "list_all full_op ops"
  shows "let e = fold (live_step L inject) ops new_embedded in
     (if core_running e then GetLimiter e \<noteq> None \<and> ex_stats e \<noteq> None
      else GetLimiter e = None \<and> GetTraffic counter name e = 0 \<and> ListInbounds L e = [] \<and>
        AddInbound L c e = (Some NotRunning, e) \<and> AddUser L tag u e = (Some NotRunning, e) \<and>
        embedded_online tag e = (None, e) \<and> vision_hook email e = (None, e))"
proof -
  have "in_step (new_embedded :: ('a, 'g) embedded)" by (simp add: in_step_def new_embedded_def)
  moreover have "list_all full_op os \<Longrightarrow> in_step e \<Longrightarrow> in_step (fold (live_step L inject) os e)" for os e
    by (induction os arbitrary: e) (simp_all add: live_step_in_step)
  ultimately have "in_step (fold (live_step L inject) ops new_embedded)" using assms by blast
  then show ?thesis
    by (auto simp: Let_def in_step_def core_running_def GetLimiter_def GetTraffic_def ListInbounds_def instance_calls
        on_instance_def embedded_online_def vision_hook_def split: option.splits)
qed

theorem live_parts_together_witness:
  "(let boot = demo_boot\<lparr>bt_start := Returned ()\<rparr>;
        ops = [LStart boot, LLimits ''in-1'' [], LRestart (Failed ''busy'') demo_boot demo_boot boot, LStop (Panicked ''nil'')];
        e = fold (live_step demo_lib id) ops new_embedded
    in GetLimiter e = None \<and> GetTraffic (\<lambda>_ _. Some 5) ''user>>>a>>>traffic>>>uplink'' e = 0 \<and> \<not> core_running e)"
proof -
  let ?boot = "demo_boot\<lparr>bt_start := Returned ()\<rparr>"
  define ops :: "((string \<times> nat) list, nat, string \<times> nat, string) live_op list" where
    "ops = [LStart ?boot, LLimits ''in-1'' [], LRestart (Failed ''busy'') demo_boot demo_boot ?boot, LStop (Panicked ''nil'')]"
  define e where "e = fold (live_step demo_lib id) ops new_embedded"
  have f: "list_all full_op ops" by (simp add: ops_def full_boot_def demo_boot_def)
  have r: "\<not> core_running e" by (simp add: e_def ops_def core_running_def stop_effect)
  have "GetLimiter e = None \<and> GetTraffic (\<lambda>_ _. Some 5) ''user>>>a>>>traffic>>>uplink'' e = 0 \<and> \<not> core_running e"
    using live_parts_together [OF f, of demo_lib id "\<lambda>_ _. Some 5" "''user>>>a>>>traffic>>>uplink''"] r
    by (simp add: Let_def e_def [symmetric])
  then show ?thesis unfolding Let_def e_def ops_def .
qed

text \<open>An instance is dropped unclosed only by a start on top of it or by a close that fails.\<close>

fun tidy :: "('i, 's, 'c, 'u) live_op \<Rightarrow> ('i, 's) embedded \<Rightarrow> bool" where
  "tidy (LStart _) e = (\<not> core_running e)"
| "tidy (LStop close) e = (worked close \<or> \<not> core_running e)"
| "tidy (LRestart close _ _ _) e = (worked close \<or> \<not> core_running e)"
| "tidy _ e = True"

fun tidy_run :: "('i, 'c, 'h, 'u) core_lib \<Rightarrow> (string \<Rightarrow> string) \<Rightarrow> ('i, 's, 'c, 'u) live_op list \<Rightarrow> ('i, 's) embedded \<Rightarrow> bool" where
  "tidy_run L inject [] e = True"
| "tidy_run L inject (op # ops) e = (tidy op e \<and> tidy_run L inject ops (live_step L inject op e))"

lemma start_loses_none: "\<not> core_running e \<Longrightarrow> ex_lost (snd (core_Start inject b e)) = ex_lost e"
  by (auto simp: core_Start_def taken_over_def core_running_def split: sum.splits call.splits)

lemma stop_loses_none: "worked close \<or> \<not> core_running e \<Longrightarrow> ex_lost (snd (core_Stop close e)) = ex_lost e"
  by (cases close) (auto simp: core_Stop_def core_running_def Let_def)

lemma attempts_lose_none: "\<not> core_running e \<Longrightarrow> ex_lost (snd (core_attempts inject bs lastErr e)) = ex_lost e"
proof (induction bs arbitrary: lastErr e)
  case (Cons b bs)
  obtain r e1 where s: "core_Start inject b e = (r, e1)" by (metis surj_pair)
  show ?case
    using start_loses_none [OF Cons.prems, of inject b] start_effect [OF s] Cons.IH [OF Cons.prems] Cons.prems s by (cases r) auto
qed simp

text \<open>No core is left running behind the agent's back: as long as starts are made only when nothing runs, as every caller
  does, and closing works, the cores that were started are the running one and ones that were closed, restarts with
  failing attempts included.\<close>
theorem no_core_lost:
  assumes "tidy_run L inject ops new_embedded"
  shows "ex_lost (fold (live_step L inject) ops new_embedded) = 0"
proof -
  have step: "ex_lost (live_step L inject op e) = ex_lost e" if "tidy op e" for op e
  proof (cases op)
    case (LRestart close b1 b2 b3)
    have r: "\<not> core_running (snd (core_Stop close e))" by (simp add: core_running_def stop_effect)
    show ?thesis using that attempts_lose_none [OF r] stop_loses_none LRestart by (simp add: core_Restart_def del: core_attempts.simps)
  qed (use that in \<open>simp_all add: start_loses_none stop_loses_none instance_calls on_instance_effect limiter_calls_effect\<close>)
  have "tidy_run L inject os e \<Longrightarrow> ex_lost (fold (live_step L inject) os e) = ex_lost e" for os e
    by (induction os arbitrary: e) (simp_all add: step)
  from this [OF assms] show ?thesis by (simp add: new_embedded_def)
qed

theorem no_core_lost_witness:
  "(let boot = demo_boot\<lparr>bt_start := Returned ()\<rparr>;
        ops = [LStart boot, LRestart (Returned ()) demo_boot demo_boot boot, LReplace ''in-2'' (''in-2'', 443)]
    in ex_lost (fold (live_step demo_lib id) ops new_embedded) = 0)"
proof -
  have "tidy_run demo_lib id [LStart (demo_boot\<lparr>bt_start := Returned ()\<rparr>),
      LRestart (Returned ()) demo_boot demo_boot (demo_boot\<lparr>bt_start := Returned ()\<rparr>), LReplace ''in-2'' (''in-2'', 443)] new_embedded"
    by (simp add: core_running_def new_embedded_def)
  from no_core_lost [OF this] show ?thesis unfolding Let_def .
qed

section \<open>Replacing an inbound of a running core\<close>

text \<open>What Xray's inbound manager does: removing a tag that is there takes it away, removing one that is not fails and
  changes nothing; adding takes nothing away, and when it succeeds the new tag is listed; creating an object lists nothing
  new and loses nothing.\<close>

definition manager_ok :: "('i, 'c, string \<times> 'p, 'u) core_lib \<Rightarrow> bool" where
  "manager_ok L \<longleftrightarrow>
     (\<forall>tag i r i1. cl_remove_in L tag i = (r, i1) \<longrightarrow>
        set (cl_list_in L i1) = set (cl_list_in L i) - {tag} \<and> (r = None \<longleftrightarrow> tag \<in> set (cl_list_in L i))) \<and>
     (\<forall>h i r i1. cl_add_in L h i = (r, i1) \<longrightarrow>
        set (cl_list_in L i) \<subseteq> set (cl_list_in L i1) \<and> set (cl_list_in L i1) \<subseteq> insert (fst h) (set (cl_list_in L i)) \<and>
        (r = None \<longrightarrow> fst h \<in> set (cl_list_in L i1))) \<and>
     (\<forall>c i r i1. cl_create L c i = (r, i1) \<longrightarrow> set (cl_list_in L i1) = set (cl_list_in L i))"

lemma manager_laws:
  assumes "manager_ok L"
  shows "cl_remove_in L tag i = (r, i1) \<Longrightarrow> set (cl_list_in L i1) = set (cl_list_in L i) - {tag}"
    and "cl_create L c i = (b, i1) \<Longrightarrow> set (cl_list_in L i1) = set (cl_list_in L i)"
    and "cl_add_in L h i = (r, i1) \<Longrightarrow> set (cl_list_in L i) \<subseteq> set (cl_list_in L i1) \<and>
      set (cl_list_in L i1) \<subseteq> insert (fst h) (set (cl_list_in L i)) \<and> (r = None \<longrightarrow> fst h \<in> set (cl_list_in L i1))"
  using assms [unfolded manager_ok_def, THEN conjunct1, rule_format, of tag i r i1]
    assms [unfolded manager_ok_def, THEN conjunct2, THEN conjunct2, rule_format, of c i b i1]
    assms [unfolded manager_ok_def, THEN conjunct2, THEN conjunct1, rule_format, of h i r i1] by simp_all

text \<open>Replacing the inbound of a running core disturbs no other inbound, whether it works or not; when it works the new
  inbound is listed; and when the new one cannot even be created, the old one is gone nevertheless.\<close>
theorem replace_keeps_others:
  assumes "manager_ok L" and "core_running e" and "replace_live L tag c e = (r, e')"
  shows "core_running e' \<and> set (ListInbounds L e) - {tag} \<subseteq> set (ListInbounds L e') \<and>
    (r = None \<longrightarrow> (\<exists>h i. fst (cl_create L c i) = Inr (Some h) \<and>
        set (ListInbounds L e') = insert (fst h) (set (ListInbounds L e) - {tag}))) \<and>
    ((\<forall>i h. fst (cl_create L c i) \<noteq> Inr (Some h)) \<longrightarrow>
        r \<noteq> None \<and> set (ListInbounds L e') = set (ListInbounds L e) - {tag})"
proof -
  obtain i where i: "ex_inst e = Some i" using assms(2) by (auto simp: core_running_def)
  obtain a i1 where 1: "cl_remove_in L tag i = (a, i1)" by (metis surj_pair)
  obtain b i2 where 2: "cl_create L c i1 = (b, i2)" by (metis surj_pair)
  have l1: "set (cl_list_in L i1) = set (cl_list_in L i) - {tag}" by (rule manager_laws(1) [OF assms(1) 1])
  have l2: "set (cl_list_in L i2) = set (cl_list_in L i1)" by (rule manager_laws(2) [OF assms(1) 2])
  have e': "(r, e') = (case created L c (cl_add_in L) i1 of (x, i3) \<Rightarrow> (x, e\<lparr>ex_inst := Some i3\<rparr>))"
    using assms(3) i 1 by (simp add: replace_live_def RemoveInbound_def AddInbound_def on_instance_def core_result_def split: prod.splits)
  show ?thesis
  proof (cases "\<exists>h. b = Inr (Some h)")
    case False
    then have "r \<noteq> None \<and> e' = e\<lparr>ex_inst := Some i2\<rparr>" using e' 2
      by (auto simp: created_def split: sum.splits option.splits)
    with l1 l2 i show ?thesis by (auto simp: core_running_def ListInbounds_def)
  next
    case True
    then obtain h where h: "b = Inr (Some h)" by blast
    obtain x i3 where 3: "cl_add_in L h i2 = (x, i3)" by (metis surj_pair)
    have l3: "set (cl_list_in L i2) \<subseteq> set (cl_list_in L i3)" "set (cl_list_in L i3) \<subseteq> insert (fst h) (set (cl_list_in L i2))"
      "x = None \<Longrightarrow> fst h \<in> set (cl_list_in L i3)" using manager_laws(3) [OF assms(1) 3] by simp_all
    have r: "r = map_option CoreError x" "e' = e\<lparr>ex_inst := Some i3\<rparr>"
      using e' 2 3 h by (simp_all add: created_def core_result_def)
    have c: "fst (cl_create L c i1) = Inr (Some h)" using 2 h by simp
    have n: "r = None \<Longrightarrow> set (cl_list_in L i3) = insert (fst h) (set (cl_list_in L i) - {tag})" using l1 l2 l3 r by auto
    have p: "core_running e'" "ListInbounds L e' = cl_list_in L i3" "ListInbounds L e = cl_list_in L i"
      using r(2) i by (simp_all add: core_running_def ListInbounds_def)
    have s: "set (cl_list_in L i) - {tag} \<subseteq> set (cl_list_in L i3)" using l1 l2 l3(1) by simp
    have d: "\<not> (\<forall>i h. fst (cl_create L c i) \<noteq> Inr (Some h))" using c by blast
    show ?thesis unfolding p(2,3) using p(1) s d c n by blast
  qed
qed

lemma demo_manager: "manager_ok demo_lib"
proof -
  have k: "map_of i tag = None \<longleftrightarrow> tag \<notin> fst ` set i" for i :: "(string \<times> nat) list" and tag by (induction i) auto
  show ?thesis unfolding manager_ok_def demo_lib_def by (auto simp: k image_iff split: if_splits)
qed

theorem replace_keeps_others_witness:
  "(let e = new_embedded\<lparr>ex_inst := Some [(''in-1'', 443), (''in-2'', 8443)]\<rparr> :: ((string \<times> nat) list, nat) embedded;
        (r, e') = replace_live demo_lib ''in-2'' (''in-2'', 443) e
    in r = Some (CoreError ''address already in use'') \<and> ''in-1'' \<in> set (ListInbounds demo_lib e'))"
proof -
  let ?e = "new_embedded\<lparr>ex_inst := Some [(''in-1'', 443), (''in-2'', 8443)]\<rparr> :: ((string \<times> nat) list, nat) embedded"
  obtain r e' where s: "replace_live demo_lib ''in-2'' (''in-2'', 443) ?e = (r, e')" by (metis surj_pair)
  have d: "r = Some (CoreError ''address already in use'')"
    using s by (auto simp: replace_live_def RemoveInbound_def AddInbound_def on_instance_def core_result_def created_def demo_lib_def)
  have c: "core_running ?e" "''in-1'' \<in> set (ListInbounds demo_lib ?e) - {''in-2''}"
    by (simp_all add: core_running_def ListInbounds_def demo_lib_def)
  show ?thesis using replace_keeps_others [OF demo_manager c(1) s] c(2) d s by auto
qed

text \<open>A replacement that fails leaves the running core without the inbound, though the answer speaks of a new version that
  only waits for the next restart.\<close>

lemma failed_replace_loses_inbound:
  "(let e = new_embedded\<lparr>ex_inst := Some [(''in-1'', 443), (''in-2'', 8443)]\<rparr> :: ((string \<times> nat) list, nat) embedded;
        (r, e') = replace_live demo_lib ''in-2'' (''in-2'', 443) e
    in r \<noteq> None \<and> ListInbounds demo_lib e' = [''in-1''])"
  by (simp add: replace_live_def RemoveInbound_def AddInbound_def ListInbounds_def on_instance_def core_result_def created_def demo_lib_def)

section \<open>The users online\<close>

text \<open>What one inbound would answer for one user.\<close>

definition online_at :: "limiter \<Rightarrow> string \<Rightarrow> string \<Rightarrow> string list option" where
  "online_at l tag email =
     (case map_of (lm_inbounds l) tag of
        None \<Rightarrow> None
      | Some info \<Rightarrow> (case map_of (ii_online info) email of None \<Rightarrow> None | Some ips \<Rightarrow> if ips = [] then None else Some ips))"

definition keys_once :: "limiter \<Rightarrow> bool" where
  "keys_once l \<longleftrightarrow> (\<forall>tag info. map_of (lm_inbounds l) tag = Some info \<longrightarrow> distinct (map fst (ii_online info)))"

lemma map_of_nonempty:
  "distinct (map fst xs) \<Longrightarrow>
   map_of (filter (\<lambda>(_, ips). ips \<noteq> []) xs) k = (case map_of xs k of None \<Rightarrow> None | Some ips \<Rightarrow> if ips = [] then None else Some ips)"
  by (induction xs) (auto split: option.splits simp: map_of_eq_None_iff)

lemma merge_ips_at:
  "distinct (map fst users) \<Longrightarrow>
   map_of (merge_ips users result) k = (case map_of users k of None \<Rightarrow> map_of result k | Some ips \<Rightarrow> Some ips)"
  unfolding merge_ips_def
proof (induction users arbitrary: result)
  case (Cons x users)
  obtain email ips where x: "x = (email, ips)" by (metis surj_pair)
  have "map_of users email = None" using Cons.prems x by (simp add: map_of_eq_None_iff)
  with Cons.IH [of "AList.update email ips result"] Cons.prems x show ?case
    by (auto simp: update_conv' split: option.splits)
qed simp

lemma online_parts:
  assumes "GetOnlineUsers l tag = (r, l1)"
  shows "keys_once l \<Longrightarrow> keys_once l1"
    and "online_at l1 t email = (if t = tag then None else online_at l t email)"
    and "r = None \<Longrightarrow> online_at l tag email = None"
    and "keys_once l \<Longrightarrow> r = Some users \<Longrightarrow> distinct (map fst users) \<and> map_of users email = online_at l tag email"
  subgoal using assms by (auto simp: GetOnlineUsers_def keys_once_def Let_def split: option.splits if_splits)
  subgoal using assms by (cases "map_of (lm_inbounds l) tag") (auto simp: GetOnlineUsers_def online_at_def Let_def)
  subgoal using assms by (auto simp: GetOnlineUsers_def online_at_def Let_def split: option.splits)
  subgoal using assms
    by (auto simp: GetOnlineUsers_def online_at_def keys_once_def Let_def distinct_map_filter map_of_nonempty split: option.splits)
  done

definition newest :: "limiter \<Rightarrow> string \<Rightarrow> string list \<Rightarrow> string list option \<Rightarrow> string list option" where
  "newest l email tags before = fold (\<lambda>tag acc. case online_at l tag email of None \<Rightarrow> acc | Some ips \<Rightarrow> Some ips) tags before"

lemma newest_cong: "(\<And>tag. tag \<in> set tags \<Longrightarrow> online_at l tag email = online_at l1 tag email) \<Longrightarrow> newest l email tags b = newest l1 email tags b"
  unfolding newest_def by (rule fold_cong) simp_all

lemma online_of_step:
  assumes "ex_disp e = Some l" "keys_once l" "GetOnlineUsers l tag = (r, l1)"
  shows "online_of tag (m, e) = (case r of None \<Rightarrow> (m, e\<lparr>ex_disp := Some l1\<rparr>) | Some us \<Rightarrow> (merge_ips us m, e\<lparr>ex_disp := Some l1\<rparr>))"
  using assms by (simp add: online_of_def embedded_online_def GetLimiter_def split: option.splits)

lemma collect_fold:
  "distinct tags \<Longrightarrow> ex_disp e = Some l \<Longrightarrow> keys_once l \<Longrightarrow> fold online_of tags (m, e) = (m', e') \<Longrightarrow>
   map_of m' email = newest l email tags (map_of m email) \<and>
   (\<exists>l'. ex_disp e' = Some l' \<and> (\<forall>t. online_at l' t email = (if t \<in> set tags then None else online_at l t email)))"
proof (induction tags arbitrary: m e l)
  case (Cons tag tags)
  obtain r l1 where g: "GetOnlineUsers l tag = (r, l1)" by (metis surj_pair)
  define m1 where "m1 = (case r of None \<Rightarrow> m | Some us \<Rightarrow> merge_ips us m)"
  define e1 where "e1 = e\<lparr>ex_disp := Some l1\<rparr>"
  have s: "online_of tag (m, e) = (m1, e1)"
    using online_of_step [OF Cons.prems(2,3) g] by (simp add: m1_def e1_def split: option.splits)
  have m1: "map_of m1 email = (case online_at l tag email of None \<Rightarrow> map_of m email | Some ips \<Rightarrow> Some ips)"
  proof (cases r)
    case None
    with online_parts(3) [OF g] show ?thesis by (simp add: m1_def)
  next
    case (Some us)
    with online_parts(4) [OF g Cons.prems(3)] merge_ips_at [of us m email] show ?thesis by (simp add: m1_def)
  qed
  have o: "\<And>t. online_at l1 t email = (if t = tag then None else online_at l t email)" by (rule online_parts(2) [OF g])
  have n: "newest l1 email tags b = newest l email tags b" for b
    by (rule newest_cong) (use o Cons.prems(1) in auto)
  have f: "fold online_of tags (m1, e1) = (m', e')" using Cons.prems(4) s by simp
  have d: "distinct tags" "ex_disp e1 = Some l1" "keys_once l1"
    using Cons.prems(1) online_parts(1) [OF g Cons.prems(3)] by (simp_all add: e1_def)
  have h: "newest l email (tag # tags) (map_of m email) = newest l email tags (map_of m1 email)" by (simp add: newest_def m1)
  obtain l' where l': "map_of m' email = newest l email tags (map_of m1 email)" "ex_disp e' = Some l'"
    "\<forall>t. online_at l' t email = (if t \<in> set tags then None else online_at l1 t email)"
    using Cons.IH [OF d f] n by auto
  with h o show ?case by simp
qed (simp add: newest_def)

text \<open>Collecting the users online over all inbounds of the embedded core reports for every user the addresses of one inbound,
  the last in Xray's order that saw the user, and nobody else; and it starts a new period: afterwards no listed inbound
  has anybody online.\<close>
theorem online_last_inbound:
  assumes "distinct (ListInbounds L e)" "ex_disp e = Some l" "keys_once l" "collectOnlineUsers L (Some e) = (r, x)"
  shows "\<exists>m e' l'. r = Some m \<and> x = Some e' \<and> ex_disp e' = Some l' \<and>
    map_of m email = newest l email (ListInbounds L e) None \<and>
    (\<forall>t \<in> set (ListInbounds L e). online_at l' t email = None)"
proof -
  obtain m e' where f: "fold online_of (ListInbounds L e) ([], e) = (m, e')" by (metis surj_pair)
  with assms(4) have "r = Some m" "x = Some e'" by (simp_all add: collectOnlineUsers_def)
  with collect_fold [OF assms(1-3) f, of email] show ?thesis by auto
qed

definition two_places :: "((string \<times> nat) list, nat) embedded" where
  "two_places =
     new_embedded\<lparr>ex_inst := Some [(''in-1'', 443), (''in-2'', 8443)],
       ex_disp := Some (new_limiter\<lparr>lm_inbounds :=
         [(''in-1'', \<lparr>ii_node = 0, ii_users = [], ii_hub = [], ii_online = [(''a@x'', [''192.0.2.1''])]\<rparr>),
          (''in-2'', \<lparr>ii_node = 0, ii_users = [], ii_hub = [], ii_online = [(''a@x'', [''192.0.2.2''])]\<rparr>)]\<rparr>)\<rparr>"

theorem online_last_inbound_witness:
  "\<exists>m e'. collectOnlineUsers demo_lib (Some two_places) = (Some m, Some e') \<and>
     map_of m ''a@x'' = newest (the (ex_disp two_places)) ''a@x'' [''in-1'', ''in-2''] None"
proof -
  have l: "ListInbounds demo_lib two_places = [''in-1'', ''in-2'']" by (simp add: ListInbounds_def two_places_def demo_lib_def)
  have k: "keys_once (the (ex_disp two_places))" "ex_disp two_places = Some (the (ex_disp two_places))"
    by (auto simp: two_places_def keys_once_def split: if_splits)
  obtain r x where c: "collectOnlineUsers demo_lib (Some two_places) = (r, x)" by (metis surj_pair)
  from online_last_inbound [OF _ k(2) k(1) c, of "''a@x''"] l c show ?thesis by auto
qed

text \<open>A user who is connected to two inbounds is reported with the addresses of one of them.\<close>

lemma online_address_dropped:
  "fst (collectOnlineUsers demo_lib (Some two_places)) = Some [(''a@x'', [''192.0.2.2''])]"
  by code_simp

section \<open>The metrics of an external Xray\<close>

text \<open>\<open>get\<close> is the HTTP client: the request is refused, stays without an answer, or gets a status with a body that may not be
  readable.\<close>

datatype http_answer = BadRequest string | NoAnswer string | Answer int "string + string"

definition metrics_url :: "string \<Rightarrow> int \<Rightarrow> string" where
  "metrics_url host port = ''http://'' @ host @ '':'' @ itoa port @ ''/debug/vars''"

definition FetchMetrics ::
  "(string \<Rightarrow> http_answer) \<Rightarrow> (string \<Rightarrow> string + xray_stats option) \<Rightarrow> string \<Rightarrow> int \<Rightarrow> string + xray_stats option" where
  "FetchMetrics get dec host port =
     (case get (metrics_url host port) of
        BadRequest m \<Rightarrow> Inl (''create request: '' @ m)
      | NoAnswer m \<Rightarrow> Inl (''http request: '' @ m)
      | Answer code b \<Rightarrow>
          if code \<noteq> 200 then Inl (''unexpected status code: '' @ itoa code)
          else (case b of
                  Inl m \<Rightarrow> Inl (''read body: '' @ m)
                | Inr text \<Rightarrow> (case dec text of Inl m \<Rightarrow> Inl (''unmarshal metrics: '' @ m) | Inr s \<Rightarrow> Inr s)))"

text \<open>\<open>listen\<close> of the configuration file: reading fails, parsing fails, there is no \<open>metrics\<close> section, or its value. On the
  first two errors the function gives the default address beside the error, which the callers do not use.\<close>

definition GetMetricsPortFromConfig ::
  "(string \<Rightarrow> string + string) \<Rightarrow> (string \<Rightarrow> string + string option) \<Rightarrow> string \<Rightarrow> string + string \<times> int" where
  "GetMetricsPortFromConfig readf dec path =
     (if path = [] then Inr (''127.0.0.1'', 38889)
      else
        (case readf path of
           Inl m \<Rightarrow> Inl (''read config file: '' @ m)
         | Inr data \<Rightarrow>
             (case dec data of
                Inl m \<Rightarrow> Inl (''parse config file: '' @ m)
              | Inr None \<Rightarrow> Inl ''metrics not configured in xray config''
              | Inr (Some listen) \<Rightarrow>
                  if listen = [] then Inl ''metrics not configured in xray config''
                  else (case metrics_address listen of None \<Rightarrow> Inl ''invalid metrics address'' | Some a \<Rightarrow> Inr a))))"

definition server_stats ::
  "(string \<Rightarrow> string + string) \<Rightarrow> (string \<Rightarrow> string + string option) \<Rightarrow> (string \<Rightarrow> http_answer) \<Rightarrow>
   (string \<Rightarrow> string + xray_stats option) \<Rightarrow> string \<Rightarrow> xray_stats option option" where
  "server_stats readf dec get decm path =
     (case GetMetricsPortFromConfig readf dec path of
        Inl _ \<Rightarrow> None
      | Inr (host, port) \<Rightarrow> (case FetchMetrics get decm host port of Inl _ \<Rightarrow> None | Inr s \<Rightarrow> Some s))"

end
