(* ===== verification/Spec2Isabelle.thy ===== *)
theory Spec2Isabelle
  imports Xray_Merge Confdir_Merge Config_Txn Config_Handlers Config_Lock Securechan Auth Limiter Path_Guard
    Agent_Yaml Reconnect Traffic Xray_Ensure Config_Load Config_Files Xray_Service Ws_Session Reports Warp Agent_Logs
    Return_Route Domain_Probe Dispatcher Start_Xray Installers Sys_Metrics Region_Ping Config_Views Host_Views
    Failures Live_Core
begin

text \<open>
  Verification library of mmw-agent, the agent a master server runs on each of its proxy hosts. The agent edits
  the configuration of an Xray process (external, or embedded in the agent itself), restarts it, limits and
  measures its users, and keeps in touch with the master over a WebSocket, over HTTP, or by being polled.

  \<^bold>\<open>Parts and how they meet.\<close> \<open>cmd/mmw-agent/main.go\<close> loads the agent's configuration, prepares Xray's,
  opens the listener behind \<open>SilentAuthMiddleware\<close> and \<open>CryptoMiddleware\<close>, and starts \<open>agent.Client\<close>. The client
  (\<open>internal/agent/client.go\<close>) holds the connection to the master; messages change its settings, the
  limiter's and the monitor's, and \<open>rpc_call\<close> messages run the same handlers the listener serves
  (\<open>internal/handler\<close>). The handlers read, edit and write Xray's configuration file and restart Xray.

  \<^bold>\<open>Shared layers.\<close>
  \<^item> \<open>Go_Prelude\<close>: Go's string functions and the generic lemmas; a string is the list of its bytes.
  \<^item> \<open>Json\<close>: decoded JSON values, with objects as association lists without order of meaning.
  \<^item> \<open>World\<close>: files, the Xray process, and the tape of the outcomes of fallible calls. Every theorem over a
    \<open>world\<close> holds for every tape, so for every pattern of failing and torn system calls, unless a hypothesis says otherwise.
  \<^item> \<open>Failures\<close>: how many of the outcomes on the tape are failures, for what holds when at most one call fails.
  \<^item> \<open>Tag_Index\<close>: arrays indexed by tag, shared by the merges and the sweep.

  \<^bold>\<open>Xray's configuration\<close> (state: the file and the running process).
  \<^item> \<open>Embedded_Config\<close>, \<open>Xray_Merge\<close>: the two templates, the start-up merge \<open>mergeXrayConfig\<close> with its
    array, routing and rule-priority parts, and the start-up repairs (\<open>initXrayConfig\<close>,
    \<open>protectMasterHTTPSPort443\<close>, \<open>patchTunnelForwardUDPFullcone\<close>). Shown: a second start changes nothing more, what the
    443 repair removes and keeps, that the forward repair reaches its goal in one pass.
  \<^item> \<open>Confdir_Merge\<close>: folding a configuration directory into one file (\<open>handler/external_xray.go\<close>) and the reader
    of a directory (\<open>xrayconf/merge.go\<close>), with the multi-file semantics it documents as the specification.
  \<^item> \<open>Xray_Ensure\<close>: \<open>EnsureXrayConfig\<close> and the switches for metrics, statistics and gRPC. The locale
    \<open>section_repair\<close> is the contract of one repair, with an interpretation for each of the eight. Shown: the result is
    complete, nothing present is lost, a second run is idle, settings saved are settings read.
  \<^item> \<open>Inbound_Clients\<close>, \<open>Config_Edits\<close>: the edits of a decoded configuration: users, inbounds, outbounds, rules,
    the sweep of duplicates. Shown: the effect of each edit and its frame, and that the sweep loses no user of uniform copies.
  \<^item> \<open>Atomic_File\<close>, \<open>Config_Txn\<close>, \<open>Config_Handlers\<close>, \<open>Config_Lock\<close>: replacing files through a rename, the whole-file
    transaction (prepare, activate, commit, rollback, abort), the handlers with every early return and every write, and
    their interleavings under the configuration lock as an inductive step relation. Shown: no torn file; a refused
    restart is rolled back whenever nothing else fails; the states of a transaction; no user is lost between concurrent calls.

  \<^bold>\<open>The agent's own configuration.\<close>
  \<^item> \<open>Config_Load\<close>: file, environment and defaults (\<open>internal/config\<close>), in the order of main. Shown: the precedence of the
    sources for every field, and that a configuration main accepts is complete.
  \<^item> \<open>Agent_Yaml\<close>: the line edits of \<open>config.yaml\<close> (\<open>persistConfigField\<close>, the listen port, the master's address).
  \<^item> \<open>Path_Guard\<close>, \<open>Cert_Deploy\<close>: \<open>filepath.Clean\<close> and \<open>Rel\<close>, the directory and path guards, and the deployment of
    certificates behind them. Shown: the guard accepts exactly the paths that lead into a directory of its list, and a
    deployment writes only the two files it names, outside the protected places.

  \<^bold>\<open>The link to the master.\<close>
  \<^item> \<open>Securechan\<close>: replay window on 64-bit words, nonces, envelopes, session keys, session cache. Shown: the bitmap is the
    set of numbers seen, round trip, no nonce used twice.
  \<^item> \<open>Auth\<close>: the middlewares of the listener in their order. Shown: no token, no effect; a sealed request runs at most once.
  \<^item> \<open>Listen_Gate\<close>, \<open>Reconnect\<close>: hiding the port while a connection is up, the retry loops and back-offs. A wait between attempts may be cut short by a
    reconnect signal, and a hide timer's callback may run late: both are steps of the model. Shown: when the port is open between
    connections, how attempts are paced, that the loops end at the capped exponential.
  \<^item> \<open>Master_Http\<close>: heartbeat, key exchange, sealed requests and the recovery loop. Shown: with a pinned
    key a payload is sealed under the session in force or accompanies a key exchange in the clear, session keys are signed, the address is
    switched at most once.
  \<^item> \<open>Ws_Rpc\<close>: calls over the WebSocket, buffered and streaming. The locale \<open>response_writer\<close> is the contract of a writer,
    interpreted for both. Shown: what is sent for each call, whether the handler returns, is late or panics.
  \<^item> \<open>Client_Messages\<close>: the dispatcher and the handlers that change the client. Shown: the effect of a configuration update,
    its bounds, its idempotence, and which message touches what.

  \<^item> \<open>Ws_Session\<close>: one connection frame by frame: key offer, sealed frames, authentication, pings, the read deadline, and the
    WebSocket mode over such connections. A connection ends in the code's order: the session is dropped, goroutines may
    still write, then the connection is closed. Shown: frames are sealed under a signed session, those late ones
    excepted, and the mode refines the loop of \<open>Reconnect\<close>.
  \<^item> \<open>Reports\<close>: the reporters over HTTP (traffic, speed, heartbeat) and their error counting, a refinement of the loop of
    \<open>Reconnect\<close>.

  \<^bold>\<open>Services and nginx.\<close>
  \<^item> \<open>Nginx_Text\<close>, \<open>Nginx_Control\<close>: the scanner of nginx's configuration, the managed include, inspecting, testing, starting and
    reloading nginx with roll-back, websites, the TLS deployment. The commands run are a list of outcomes beside the world.
  \<^item> \<open>Config_Files\<close>: the endpoints that read and replace whole files. The check of a whole configuration
    includes its temporary file, whose writing may fail unnoticed. Shown: writes stay below the configuration
    directories, and when a configuration is stored.
  \<^item> \<open>Discovery\<close>: finding an external Xray from its process, its unit or its usual places.
  \<^item> \<open>Xray_Service\<close>: \<open>embedded/xray.go\<close>, \<open>xrayctl\<close> and the service handlers over the state \<open>svc\<close> (files, nginx, the embedded
    instance, the calls made). A stop is carried out later than its request, as a step of its own. Shown: port 443 has one
    owner whenever no stop is outstanding, and restarts, repairs and the default configuration in every branch.
  \<^item> \<open>Live_Core\<close>: what \<open>embedded/xray.go\<close> and \<open>embedded/config.go\<close> do with the Xray library: the applications of the
    core, start, stop and restart with their recovered panics, and the live changes of users, inbounds and outbounds. Shown: starting
    refines \<open>embedded_Start\<close> of \<open>Xray_Service\<close>, no instance is lost, replacing an inbound leaves the others alone.
  \<^item> \<open>Config_Views\<close>: the listing of inbounds and outbounds with their state, and the scan of external configurations.
  \<^item> \<open>Start_Up\<close>, \<open>Start_Xray\<close>: what main does from its arguments to the listener: logging, the data files, older processes, the
    preparation and start of Xray, the routes, the port. Shown: an embedded instance is started with a complete configuration,
    an agent over its quota starts none, and beside a master port 443 stays free.
  \<^item> \<open>Upgrade\<close>, \<open>Installers\<close>: the signature check, the upgrade script, the streamed commands as a machine of two scanners and a
    child, the installers of Xray and nginx, the take-over. Shown: only a signed binary is put in place; outputs are told
    in order and closed once.

  \<^bold>\<open>Users and traffic.\<close>
  \<^item> \<open>Limiter\<close>: rates, shared token buckets in a store, connection quotas, forced disconnection. Shown: counters are the
    connections held, throttled writes are complete and within the burst, removed groups are cut.
  \<^item> \<open>Speed_Monitor\<close>, \<open>Traffic\<close>: automatic limits and the counters they are computed from. Shown: a sustained rule limits
    exactly after the configured time above the threshold; totals are the counters' values.

  \<^item> \<open>Dispatcher\<close>: the dispatcher derived from Xray's: places in a quota, buckets, counters, sniffing and routing of one
    connection. Shown: the count of a group is the number of its open connections.

  \<^bold>\<open>Diagnosis and WARP.\<close>
  \<^item> \<open>Return_Route\<close>, \<open>Domain_Probe\<close>: the return-route test's parser and classification, the latency probe of domains.
  \<^item> \<open>Agent_Logs\<close>, \<open>Sorting\<close>: log files, rotation, the access log's reader, memory limits.
  \<^item> \<open>Sys_Metrics\<close>, \<open>Region_Ping\<close>, \<open>Host_Views\<close>: processor, memory, disk and network figures from the text of \<open>/proc\<close>, the
    ICMP and TCP pings of the regions as an exchange of packets, and the views of the host's state.
  \<^item> \<open>Warp\<close>: the WARP account's life in memory and on disk, and the requests that change it.

  \<^bold>\<open>Bounds and fuel.\<close> No function here runs on fuel. Loops are structural, or recursive on a measure
  (\<open>wait_chunks\<close>: what is left to send; \<open>double_until\<close>: the doublings left; the line edits: the lines). Endless loops of the
  program (\<open>runWebSocket\<close>, \<open>runAutoModeLoop\<close>, the recovery loop) consume a list of events, and the theorems hold for
  every list, so for every prefix of an endless run. Sequence numbers, the replay window and rates are 64-bit words.

  \<^bold>\<open>Parameters.\<close> Library and foreign code is an argument: encoding and decoding of JSON and YAML, ciphers, signatures and
  key agreement (\<open>crypto_lib\<close>), PEM and certificates (\<open>pem_lib\<close>), addresses (\<open>net_lib\<close>), Xray's own builder and test
  (\<open>cfg_env\<close>, \<open>txn_env\<close>), discovery. Laws used of them are hypotheses of the theorems (unsealing undoes sealing, decoding
  undoes encoding, a derived stream is long enough), and each such theorem has a witness with a concrete instance.

  \<^bold>\<open>Departures of the code from its comments\<close> are lemmas at the end of the theory concerned
  (\<open>unlocked_outbound_loses_user\<close>, \<open>handler_panic_ends_agent\<close>, \<open>late_callback_closes\<close>, \<open>forged_recovery_answer\<close> and others).

  \<^bold>\<open>Messages.\<close> Where the code answers or logs in Chinese, the model has a short English text in its place; no theorem depends on
  more than that two such texts are the same or different.

  \<^bold>\<open>Not modelled.\<close> Xray itself, the gRPC client \<open>xrpc\<close> (builders of protobuf messages around one call each), the scripts fetched
  from elsewhere, generated code and lists of imports, the developers' tool that signs releases, the scheduling of goroutines beyond the
  interleavings named above, signals and the shutdown, log texts.
\<close>

end
